(* ===== verification/Prelude.thy ===== *)
theory Prelude
  imports "HOL-Library.Word" "HOL-Library.AList"
begin

text \<open>
  Shared vocabulary of the development: machine integers and byte strings, the result type and
  the cursor combinators the decoders are written with, big-endian integers, the interface every
  wire codec of the program meets, and association lists standing for the program's hash maps.

  \<^item> A decoder of the source takes \<open>&mut impl Buf\<close> and answers \<open>Result<T, E>\<close>. Its model takes
    the unread bytes and answers \<open>'e + 'a \<times> bytes\<close>: \<open>Inl\<close> the error, or \<open>Inr\<close> the value with the
    bytes still unread. Where the cursor stands after an error is not modelled.
  \<^item> An encoder of the source appends to \<open>&mut impl BufMut\<close>. Its model is the list of bytes
    appended; a fallible encoder is \<open>'e + bytes\<close>.
  \<^item> \<open>usize\<close> is 64 bits wide, as on every platform the program is built for, so \<open>as usize\<close> on a
    \<open>u64\<close> is \<open>unat\<close>.
\<close>

unbundle bit_operations_syntax

type_synonym u8 = "8 word"
type_synonym u16 = "16 word"
type_synonym u32 = "32 word"
type_synonym u64 = "64 word"
type_synonym bytes = "u8 list"

named_theorems eats_intros \<open>a decoder only takes bytes from the front\<close>

section \<open>Results and cursors\<close>

text \<open>\<open>rd\<close> is the \<open>?\<close> operator on a decoder call: stop at the error or go on with the value and
  the remaining bytes. \<open>and_then\<close> is the \<open>?\<close> operator on a call that reads nothing.\<close>

fun rd :: "'e + 'a \<times> bytes \<Rightarrow> ('a \<Rightarrow> bytes \<Rightarrow> 'e + 'b) \<Rightarrow> 'e + 'b" where
  "rd (Inl e) k = Inl e"
| "rd (Inr (a, bs)) k = k a bs"

fun and_then :: "'e + 'a \<Rightarrow> ('a \<Rightarrow> 'e + 'b) \<Rightarrow> 'e + 'b" where
  "and_then (Inl e) k = Inl e"
| "and_then (Inr a) k = k a"

fun map_err :: "('e \<Rightarrow> 'f) \<Rightarrow> 'e + 'a \<Rightarrow> 'f + 'a" where
  "map_err f (Inl e) = Inl (f e)"
| "map_err f (Inr a) = Inr a"

fun ok_or :: "'a option \<Rightarrow> 'e \<Rightarrow> 'e + 'a" where
  "ok_or None e = Inl e"
| "ok_or (Some a) e = Inr a"

lemma rd_eq_Inr: "rd x k = Inr y \<longleftrightarrow> (\<exists>a bs. x = Inr (a, bs) \<and> k a bs = Inr y)"
  by (cases x) auto

lemma rd_eq_Inl: "rd x k = Inl e \<longleftrightarrow> x = Inl e \<or> (\<exists>a bs. x = Inr (a, bs) \<and> k a bs = Inl e)"
  by (cases x) auto

lemma and_then_eq_Inr: "and_then x k = Inr y \<longleftrightarrow> (\<exists>a. x = Inr a \<and> k a = Inr y)"
  by (cases x) auto

lemma and_then_eq_Inl: "and_then x k = Inl e \<longleftrightarrow> x = Inl e \<or> (\<exists>a. x = Inr a \<and> k a = Inl e)"
  by (cases x) auto

lemma map_err_eq_Inr [simp]: "map_err f x = Inr y \<longleftrightarrow> x = Inr y"
  by (cases x) auto

lemma map_err_eq_Inl [simp]: "map_err f x = Inl y \<longleftrightarrow> (\<exists>e. x = Inl e \<and> y = f e)"
  by (cases x) auto

lemma ok_or_eq_Inr [simp]: "ok_or x e = Inr y \<longleftrightarrow> x = Some y"
  by (cases x) auto

lemma ok_or_eq_Inl [simp]: "ok_or x e = Inl y \<longleftrightarrow> x = None \<and> y = e"
  by (cases x) auto

lemma rd_cong [fundef_cong]:
  "\<lbrakk>x = x'; \<And>a bs. x' = Inr (a, bs) \<Longrightarrow> k a bs = k' a bs\<rbrakk> \<Longrightarrow> rd x k = rd x' k'"
  by (cases x') auto

lemma and_then_cong [fundef_cong]:
  "\<lbrakk>x = x'; \<And>a. x' = Inr a \<Longrightarrow> k a = k' a\<rbrakk> \<Longrightarrow> and_then x k = and_then x' k'"
  by (cases x') auto

lemmas result_inversion = rd_eq_Inr and_then_eq_Inr

text \<open>A result obtained from \<open>bs\<close> leaves a suffix of \<open>bs\<close> (\<open>eats1\<close>: a proper one). The rules follow the
  shape of a decoder.\<close>

definition eats :: "'e + 'a \<times> bytes \<Rightarrow> bytes \<Rightarrow> bool" where
  "eats m bs \<longleftrightarrow> (\<forall>x rest. m = Inr (x, rest) \<longrightarrow> (\<exists>used. bs = used @ rest))"

definition eats1 :: "'e + 'a \<times> bytes \<Rightarrow> bytes \<Rightarrow> bool" where
  "eats1 m bs \<longleftrightarrow> (\<forall>x rest. m = Inr (x, rest) \<longrightarrow> (\<exists>used. used \<noteq> [] \<and> bs = used @ rest))"

lemma eats1_eats: "eats1 m bs \<Longrightarrow> eats m bs"
  by (auto simp: eats_def eats1_def)

lemma eats_Inl [eats_intros]: "eats (Inl e) bs"
  by (simp add: eats_def)

lemma eats_Inr [eats_intros]: "eats (Inr (x, bs)) bs"
  by (simp add: eats_def)

lemma eats_rd [eats_intros]:
  "eats m bs \<Longrightarrow> (\<And>a bs'. eats (k a bs') bs') \<Longrightarrow> eats (rd m k) bs"
  by (cases m) (auto simp: eats_def, metis append.assoc)

lemma eats_and_then [eats_intros]: "(\<And>a. eats (k a) bs) \<Longrightarrow> eats (and_then m k) bs"
  by (cases m) (simp_all add: eats_def)

lemma eats_if [eats_intros]: "eats a bs \<Longrightarrow> eats b bs \<Longrightarrow> eats (if c then a else b) bs"
  by simp

lemma eats_let [eats_intros]: "(\<And>x. eats (f x) bs) \<Longrightarrow> eats (let x = t in f x) bs"
  by simp

lemma eats_option [eats_intros]:
  "eats a bs \<Longrightarrow> (\<And>x. eats (f x) bs) \<Longrightarrow> eats (case o' of None \<Rightarrow> a | Some x \<Rightarrow> f x) bs"
  by (cases o') simp_all

lemma eats1_Inl [eats_intros]: "eats1 (Inl e) bs"
  by (simp add: eats1_def)

lemma eats1_rd [eats_intros]:
  "eats1 m bs \<Longrightarrow> (\<And>a bs'. eats (k a bs') bs') \<Longrightarrow> eats1 (rd m k) bs"
  by (cases m) (auto simp: eats_def eats1_def, metis append.assoc append_is_Nil_conv)

lemma eats1_if [eats_intros]: "eats1 a bs \<Longrightarrow> eats1 b bs \<Longrightarrow> eats1 (if c then a else b) bs"
  by simp

lemma eats1_let [eats_intros]: "(\<And>x. eats1 (f x) bs) \<Longrightarrow> eats1 (let x = t in f x) bs"
  by simp

lemma eats1D: "eats1 m bs \<Longrightarrow> m = Inr (x, rest) \<Longrightarrow> \<exists>used. used \<noteq> [] \<and> bs = used @ rest"
  by (simp add: eats1_def)

lemma eatsD: "eats m bs \<Longrightarrow> m = Inr (x, rest) \<Longrightarrow> \<exists>used. bs = used @ rest"
  by (simp add: eats_def)

text \<open>\<open>Buf::get_u8\<close>: it panics on an empty buffer, so every use below is behind the guard the
  code has in front of it.\<close>

definition get_u8 :: "bytes \<Rightarrow> u8 \<times> bytes" where
  "get_u8 bs = (hd bs, tl bs)"

lemma get_u8_Cons [simp]: "get_u8 (b # bs) = (b, bs)"
  by (simp add: get_u8_def)

section \<open>Big-endian integers\<close>

definition be_bytes :: "nat \<Rightarrow> 'a::len word \<Rightarrow> bytes" where
  "be_bytes n w = map (\<lambda>i. ucast (drop_bit (8 * i) w)) (rev [0..<n])"

definition be_val :: "bytes \<Rightarrow> 'a::len word" where
  "be_val bs = foldl (\<lambda>v b. push_bit 8 v OR ucast b) 0 bs"

lemma length_be_bytes [simp]: "length (be_bytes n w) = n"
  by (simp add: be_bytes_def)

lemma be_bytes_0 [simp]: "be_bytes 0 w = []"
  by (simp add: be_bytes_def)

lemma be_bytes_Suc: "be_bytes (Suc n) w = ucast (drop_bit (8 * n) w) # be_bytes n w"
  by (simp add: be_bytes_def)

lemma be_val_Nil [simp]: "be_val [] = 0"
  by (simp add: be_val_def)

lemma be_fold_split:
  "foldl (\<lambda>v b. push_bit 8 v OR ucast b) (v :: 'a::len word) bs
     = push_bit (8 * length bs) v OR be_val bs"
proof (induction bs arbitrary: v)
  case Nil
  then show ?case by simp
next
  case (Cons b bs)
  have "be_val (b # bs) = push_bit (8 * length bs) (ucast b :: 'a word) OR be_val bs"
    using Cons.IH [of "ucast b"] by (simp add: be_val_def)
  moreover have "foldl (\<lambda>v b. push_bit 8 v OR ucast b) v (b # bs)
      = push_bit (8 * length bs) (push_bit 8 v OR ucast b) OR be_val bs"
    using Cons.IH [of "push_bit 8 v OR ucast b"] by (simp only: foldl_Cons)
  ultimately show ?case
    by (simp only: push_bit_or push_bit_push_bit or.assoc length_Cons mult_Suc_right)
      (simp only: add.commute)
qed

lemma be_val_Cons:
  "be_val (b # bs) = (push_bit (8 * length bs) (ucast b) OR be_val bs :: 'a::len word)"
  using be_fold_split [of "ucast b" bs] by (simp add: be_val_def)

lemma be_val_be_bytes: "be_val (be_bytes n w) = take_bit (8 * n) w"
proof (induction n)
  case 0
  then show ?case by simp
next
  case (Suc n)
  show ?case
    by (rule bit_word_eqI)
      (auto simp: be_bytes_Suc be_val_Cons Suc.IH bit_simps)
qed

lemma be_val_be_bytes_full:
  "LENGTH('a) \<le> 8 * n \<Longrightarrow> be_val (be_bytes n (w :: 'a::len word)) = w"
  by (simp add: be_val_be_bytes take_bit_word_eq_self)

text \<open>Bits at and above a bound.\<close>

lemma bit_below_power:
  assumes "w < 2 ^ k" and "bit (w :: 'a::len word) n"
  shows "n < k"
proof (rule ccontr)
  assume "\<not> n < k"
  with assms(2) have kl: "k \<le> n"
    by simp
  have "unat (2 ^ k :: 'a word) \<le> 2 ^ k"
    by (metis of_nat_numeral of_nat_power unat_of_nat mod_less_eq_dividend)
  then have "unat w < 2 ^ k"
    using assms(1) by (simp add: word_less_nat_alt)
  then have "unat w < 2 ^ n"
    using kl(1) by (meson less_le_trans one_le_numeral power_increasing)
  then have "take_bit n (unat w) = unat w"
    by (simp add: take_bit_nat_eq_self_iff)
  then have "\<not> bit (unat w) n"
    by (metis bit_take_bit_iff less_irrefl)
  with assms(2) show False
    by (simp add: bit_unsigned_iff bit_imp_le_length)
qed

section \<open>Counted lists\<close>

text \<open>\<open>for _ in 0..count { items.push(decode(buf)?); }\<close>\<close>

fun decode_n :: "(bytes \<Rightarrow> 'e + 'a \<times> bytes) \<Rightarrow> nat \<Rightarrow> bytes \<Rightarrow> 'e + 'a list \<times> bytes" where
  "decode_n dec 0 bs = Inr ([], bs)"
| "decode_n dec (Suc n) bs =
     rd (dec bs) (\<lambda>x bs. rd (decode_n dec n bs) (\<lambda>xs bs. Inr (x # xs, bs)))"

lemma eats_decode_n [eats_intros]: "(\<And>bs. eats (dec bs) bs) \<Longrightarrow> eats (decode_n dec n bs) bs"
  by (induction n arbitrary: bs) (simp_all, (intro eats_intros | assumption)+)

lemma decode_n_length: "decode_n dec n bs = Inr (xs, rest) \<Longrightarrow> length xs = n"
  by (induction n arbitrary: bs xs) (auto simp: result_inversion)

lemma decode_n_all:
  assumes "decode_n dec n bs = Inr (xs, rest)"
    and "\<And>bs x rest. dec bs = Inr (x, rest) \<Longrightarrow> P x"
  shows "\<forall>x \<in> set xs. P x"
  using assms(1)
  by (induction n arbitrary: bs xs) (auto simp: result_inversion dest: assms(2))

section \<open>The interface of a wire codec\<close>

text \<open>
  What the rest of the program relies on from a pair of an encoder and a decoder: bytes the
  encoder wrote for a well-formed value are read back as that value, whatever follows them, and
  nothing after them is touched.
\<close>

locale wire_codec =
  fixes enc :: "'a \<Rightarrow> bytes"
    and dec :: "bytes \<Rightarrow> 'e + 'a \<times> bytes"
    and wf :: "'a \<Rightarrow> bool"
  assumes decode_encode: "wf x \<Longrightarrow> dec (enc x @ rest) = Inr (x, rest)"
begin

lemma decode_encode_end: "wf x \<Longrightarrow> dec (enc x) = Inr (x, [])"
  using decode_encode [of x "[]"] by simp

text \<open>No encoding is a proper prefix of another, so a stream of encodings splits in one way.\<close>

lemma prefix_free: "wf x \<Longrightarrow> wf y \<Longrightarrow> enc x @ r = enc y @ s \<Longrightarrow> x = y \<and> r = s"
  by (metis decode_encode old.sum.inject(2) prod.inject)

lemma enc_inj: "wf x \<Longrightarrow> wf y \<Longrightarrow> enc x = enc y \<Longrightarrow> x = y"
  by (metis decode_encode old.sum.inject(2) prod.inject)

lemma list_decode_encode:
  "\<forall>x \<in> set xs. wf x \<Longrightarrow> decode_n dec (length xs) (concat (map enc xs) @ rest) = Inr (xs, rest)"
  by (induction xs) (simp_all add: decode_encode)

end

text \<open>
  A codec whose decoder also promises that it eats at least one byte and only from the front,
  and that what it accepts is well formed. The first is what bounds a counted list by the bytes
  that are there; the second is what lets a decoded value be written out again.
\<close>

locale sound_codec = wire_codec +
  assumes decode_consumes: "dec bs = Inr (x, rest) \<Longrightarrow> \<exists>used. used \<noteq> [] \<and> bs = used @ rest"
    and decode_wf: "dec bs = Inr (x, rest) \<Longrightarrow> wf x"
begin

lemma decode_eats1: "eats1 (dec bs) bs"
  by (simp add: eats1_def decode_consumes)

lemma decode_eats: "eats (dec bs) bs"
  by (rule eats1_eats) (rule decode_eats1)

lemma decode_shorter: "dec bs = Inr (x, rest) \<Longrightarrow> length rest < length bs"
  by (auto dest!: decode_consumes)

lemma list_decode_suffix: "decode_n dec n bs = Inr (xs, rest) \<Longrightarrow> \<exists>used. bs = used @ rest"
  by (erule eatsD [rotated]) (intro eats_intros decode_eats)

lemma list_decode_bound: "decode_n dec n bs = Inr (xs, rest) \<Longrightarrow> n + length rest \<le> length bs"
proof (induction n arbitrary: bs xs)
  case 0
  then show ?case by simp
next
  case (Suc n)
  then obtain x mid ys where "dec bs = Inr (x, mid)" "decode_n dec n mid = Inr (ys, rest)"
    by (auto simp: result_inversion)
  then show ?case
    using Suc.IH [of mid ys] decode_shorter by fastforce
qed

lemma list_decode_wf: "decode_n dec n bs = Inr (xs, rest) \<Longrightarrow> \<forall>x \<in> set xs. wf x"
  by (rule decode_n_all) (auto dest: decode_wf)

text \<open>A value that came off the wire reads back unchanged after being written again.\<close>

lemma decode_reencode: "dec bs = Inr (x, rest) \<Longrightarrow> dec (enc x @ more) = Inr (x, more)"
  by (simp add: decode_encode decode_wf)

end

text \<open>A codec whose encoder writes no more than any accepted spelling of the value took.\<close>

locale shortest_codec = sound_codec +
  assumes decode_shortest: "dec bs = Inr (x, rest) \<Longrightarrow> length (enc x) + length rest \<le> length bs"
begin

lemma list_decode_shortest:
  "decode_n dec n bs = Inr (xs, rest) \<Longrightarrow>
     length (concat (map enc xs)) + length rest \<le> length bs"
proof (induction n arbitrary: bs xs)
  case 0
  then show ?case by simp
next
  case (Suc n)
  then obtain x mid ys where "dec bs = Inr (x, mid)" "decode_n dec n mid = Inr (ys, rest)"
      "xs = x # ys"
    by (auto simp: result_inversion)
  then show ?case
    using Suc.IH [of mid ys] decode_shortest [of bs x mid] by simp
qed

end

section \<open>Tables of code points\<close>

text \<open>Every enumeration that goes on the wire has an \<open>as\<close> cast and a \<open>from\<close> table written by hand;
  what their callers rely on is that the two are one correspondence.\<close>

locale code_points =
  fixes as_wire :: "'a \<Rightarrow> 'w"
    and from_wire :: "'w \<Rightarrow> 'a option"
  assumes from_wire_iff: "from_wire v = Some x \<longleftrightarrow> v = as_wire x"
begin

lemma from_as [simp]: "from_wire (as_wire x) = Some x"
  by (simp add: from_wire_iff)

lemma as_inj: "as_wire x = as_wire y \<Longrightarrow> x = y"
  by (metis from_as option.inject)

lemma unassigned: "from_wire v = None \<longleftrightarrow> v \<notin> range as_wire"
  by (metis from_wire_iff not_Some_eq rangeE rangeI)

end

end
