(* ===== verification/Codec_Errors.thy ===== *)
theory Codec_Errors
  imports Prelude
begin

text \<open>
  The error values of the codec crate: \<open>VarIntError\<close> of \<open>varint.rs\<close>, \<open>KvpError\<close> of \<open>kvp.rs\<close> and
  \<open>CodecError\<close> of \<open>error.rs\<close>, with the size limits the last file declares and the question a stream
  reader asks of an error, \<open>is_incomplete\<close>. A \<open>&'static str\<close> or \<open>String\<close> detail is a \<open>string\<close>.
\<close>

datatype varint_error =
    VarIntOverflow u64
  | VarIntUnexpectedEnd
  | VarIntInvalidCodePoint

datatype kvp_error =
    KvpMissingLength
  | KvpValueTooLong nat
  | KvpUnexpectedEnd
  | KvpVarInt varint_error

datatype (plugins only: code) codec_error =
    UnknownMessageType u64
  | UnexpectedEnd
  | MessageTooLong nat
  | CodecVarInt varint_error
  | CodecKvp kvp_error
  | InvalidField
  | InvalidNamespaceTupleSize nat
  | EmptyNamespaceField
  | TrackNameTooLong
  | InvalidRange u64 u64 u64 u64
  | ParameterLengthMismatch u64
  | KeyValueFormatting u64 string
  | UnknownMessageParameter u64
  | ParameterOutOfScope u64 u64
  | ParameterValueOutOfRange u64 u64
  | TrackPropertyValueOutOfRange u64 u64
  | InvalidForward u8
  | InvalidFilterType u64
  | InvalidFetchType u64
  | SubscriptionFilterMalformed string
  | FilterEndGroupOverflow u64 u64
  | EndOfTrackObjectId u64
  | KeyDeltaOverflow u64 u64
  | ParametersOutOfOrder u64 u64
  | DuplicateParameter u64
  | ObjectIdOverflow u64 u64
  | ExtensionsOnNonExistentObject nat
  | MalformedObjectProperties nat string
  | PayloadNotPermitted u64 nat string
  | InvalidRequiredRequestIdDelta u64 u64
  | UnknownStreamType u64
  | UnknownDatagramType u64
  | InvalidStreamTypeValue u64 string
  | InvalidDatagramTypeValue u64 string
  | InvalidContentExists u8
  | ControlMessageLengthMismatch nat string
  | ReasonPhraseTooLong
  | GoAwayUriTooLong
  | UnsupportedDraft string

definition MAX_FULL_TRACK_NAME_LENGTH :: nat where
  "MAX_FULL_TRACK_NAME_LENGTH = 4096"

definition MAX_NAMESPACE_TUPLE_SIZE :: nat where
  "MAX_NAMESPACE_TUPLE_SIZE = 32"

text \<open>\<open>CodecError::is_incomplete\<close>: the four spellings of "more bytes may still arrive".\<close>

definition is_incomplete :: "codec_error \<Rightarrow> bool" where
  "is_incomplete e =
     (case e of
        UnexpectedEnd \<Rightarrow> True
      | CodecVarInt v \<Rightarrow> v = VarIntUnexpectedEnd
      | CodecKvp k \<Rightarrow> k = KvpUnexpectedEnd \<or> k = KvpVarInt VarIntUnexpectedEnd
      | _ \<Rightarrow> False)"

text \<open>A result whose error, if it has one, no further byte would change.\<close>

definition settled :: "codec_error + 'a \<Rightarrow> bool" where
  "settled m \<longleftrightarrow> (\<forall>e. m = Inl e \<longrightarrow> \<not> is_incomplete e)"

named_theorems settled_intros \<open>no error asks for more input\<close>

lemma settled_Inr [settled_intros]: "settled (Inr x)"
  by (simp add: settled_def)

lemma settled_Inl [settled_intros]: "\<not> is_incomplete e \<Longrightarrow> settled (Inl e)"
  by (simp add: settled_def)

lemma settled_rd [settled_intros]:
  "settled m \<Longrightarrow> (\<And>a bs. m = Inr (a, bs) \<Longrightarrow> settled (k a bs)) \<Longrightarrow> settled (rd m k)"
  by (cases m) (auto simp: settled_def)

lemma settled_and_then [settled_intros]:
  "settled m \<Longrightarrow> (\<And>a. m = Inr a \<Longrightarrow> settled (k a)) \<Longrightarrow> settled (and_then m k)"
  by (cases m) (auto simp: settled_def)

lemma settled_if [settled_intros]:
  "(c \<Longrightarrow> settled a) \<Longrightarrow> (\<not> c \<Longrightarrow> settled b) \<Longrightarrow> settled (if c then a else b)"
  by simp

lemma settled_let [settled_intros]: "(\<And>x. x = t \<Longrightarrow> settled (f x)) \<Longrightarrow> settled (let x = t in f x)"
  by simp

lemma settled_ok_or [settled_intros]: "\<not> is_incomplete e \<Longrightarrow> settled (ok_or x e)"
  by (cases x) (simp_all add: settled_def)

end
