(* ===== verification/Varint_Codec.thy ===== *)
theory Varint_Codec
  imports Codec_Errors
begin

text \<open>
  \<open>varint.rs\<close>: the QUIC variable-length integer of drafts 07 to 16 (two-bit length prefix, 1, 2, 4
  or 8 bytes) and MoQT's own of drafts 17 on (the number of leading one bits gives the length, 1 to
  9 bytes; draft-17 leaves the length 7 undefined). Values are 64-bit words; shifts, masks and casts
  are the code's. The round trips are proved bit by bit.
\<close>

datatype varint = VarInt (into_inner: u64)

definition MAX_VARINT :: u64 where
  "MAX_VARINT = 4611686018427387903"

definition from_u64 :: "u64 \<Rightarrow> varint_error + varint" where
  "from_u64 v = (if v > MAX_VARINT then Inl (VarIntOverflow v) else Inr (VarInt v))"

definition from_u64_moqt :: "u64 \<Rightarrow> varint" where
  "from_u64_moqt v = VarInt v"

definition from_usize :: "nat \<Rightarrow> varint" where
  "from_usize v = VarInt (of_nat v)"

definition encoded_len :: "varint \<Rightarrow> nat" where
  "encoded_len x =
     (if into_inner x \<le> 63 then 1
      else if into_inner x \<le> 16383 then 2
      else if into_inner x \<le> 1073741823 then 4
      else 8)"

text \<open>The fifth arm of the code's match is \<open>unreachable!()\<close>: the length is 1, 2, 4 or 8.\<close>

definition varint_encode :: "varint \<Rightarrow> bytes" where
  "varint_encode x =
     (let v = into_inner x; len = encoded_len x in
      if len = 1 then [ucast v]
      else if len = 2 then be_bytes 2 ((ucast v :: u16) OR 0x4000)
      else if len = 4 then be_bytes 4 ((ucast v :: u32) OR 0x80000000)
      else be_bytes 8 (v OR 0xC000000000000000))"

definition varint_decode :: "bytes \<Rightarrow> varint_error + varint \<times> bytes" where
  "varint_decode bs =
     (if length bs < 1 then Inl VarIntUnexpectedEnd
      else
        let first = hd bs; prefix = drop_bit 6 first; len = push_bit (unat prefix) (1::nat) in
        if length bs < len then Inl VarIntUnexpectedEnd
        else
          let val = (if len = 1 then ucast (first AND 0x3F)
                     else if len = 2 then ucast ((be_val (take 2 bs) :: u16) AND 0x3FFF)
                     else if len = 4 then ucast ((be_val (take 4 bs) :: u32) AND 0x3FFFFFFF)
                     else (be_val (take 8 bs) :: u64) AND 0x3FFFFFFFFFFFFFFF)
          in Inr (VarInt val, drop len bs))"

definition wf_varint :: "varint \<Rightarrow> bool" where
  "wf_varint x \<longleftrightarrow> into_inner x \<le> MAX_VARINT"

section \<open>Round trip of the QUIC encoding\<close>

lemma bit_0x4000: "bit (0x4000 :: u16) n \<longleftrightarrow> n = 14"
proof -
  have "(0x4000 :: u16) = push_bit 14 1" by simp
  then show ?thesis by (simp only: bit_simps) auto
qed

lemma bit_0x80000000: "bit (0x80000000 :: u32) n \<longleftrightarrow> n = 31"
proof -
  have "(0x80000000 :: u32) = push_bit 31 1" by simp
  then show ?thesis by (simp only: bit_simps) auto
qed

lemma bit_0xC0: "bit (0xC000000000000000 :: u64) n \<longleftrightarrow> n = 62 \<or> n = 63"
proof -
  have "(0xC000000000000000 :: u64) = push_bit 62 1 OR push_bit 63 1" by simp
  then show ?thesis by (simp only: bit_simps) auto
qed

lemma bit_3: "bit (3 :: u8) n \<longleftrightarrow> n = 0 \<or> n = 1"
proof -
  have "(3 :: u8) = 1 OR push_bit 1 1" by simp
  then show ?thesis by (simp only: bit_simps bit_1_iff) auto
qed

lemma and_masks:
  "(b :: u8) AND 0x3F = take_bit 6 b"
  "(h :: u16) AND 0x3FFF = take_bit 14 h"
  "(w :: u32) AND 0x3FFFFFFF = take_bit 30 w"
  "(q :: u64) AND 0x3FFFFFFFFFFFFFFF = take_bit 62 q"
  by (simp_all add: take_bit_eq_mask mask_eq_exp_minus_1)

lemma small_bits:
  "v \<le> 63 \<Longrightarrow> bit (v :: u64) n \<Longrightarrow> n < 6"
  "v \<le> 16383 \<Longrightarrow> bit v n \<Longrightarrow> n < 14"
  "v \<le> 1073741823 \<Longrightarrow> bit v n \<Longrightarrow> n < 30"
  "v \<le> 4611686018427387903 \<Longrightarrow> bit v n \<Longrightarrow> n < 62"
proof -
  show "v \<le> 63 \<Longrightarrow> bit v n \<Longrightarrow> n < 6"
    by (rule bit_below_power [of v]) (simp_all add: word_le_nat_alt word_less_nat_alt)
  show "v \<le> 16383 \<Longrightarrow> bit v n \<Longrightarrow> n < 14"
    by (rule bit_below_power [of v]) (simp_all add: word_le_nat_alt word_less_nat_alt)
  show "v \<le> 1073741823 \<Longrightarrow> bit v n \<Longrightarrow> n < 30"
    by (rule bit_below_power [of v]) (simp_all add: word_le_nat_alt word_less_nat_alt)
  show "v \<le> 4611686018427387903 \<Longrightarrow> bit v n \<Longrightarrow> n < 62"
    by (rule bit_below_power [of v]) (simp_all add: word_le_nat_alt word_less_nat_alt)
qed


lemma hd_be_bytes: "0 < n \<Longrightarrow> hd (be_bytes n w @ rest) = ucast (drop_bit (8 * (n - 1)) w)"
  by (cases n) (simp_all add: be_bytes_Suc)

lemma varint_roundtrip:
  assumes "wf_varint x"
  shows "varint_decode (varint_encode x @ rest) = Inr (x, rest)"
proof -
  obtain v where x: "x = VarInt v" by (cases x)
  have v: "v \<le> 4611686018427387903"
    using assms by (simp add: x wf_varint_def MAX_VARINT_def)
  consider (1) "v \<le> 63" | (2) "\<not> v \<le> 63" "v \<le> 16383"
    | (4) "\<not> v \<le> 63" "\<not> v \<le> 16383" "v \<le> 1073741823"
    | (8) "\<not> v \<le> 63" "\<not> v \<le> 16383" "\<not> v \<le> 1073741823"
    by blast
  then show ?thesis
  proof cases
    case 1
    have "drop_bit 6 (ucast v :: u8) = 0"
      by (rule bit_word_eqI) (auto simp: bit_simps dest: small_bits(1) [OF 1])
    moreover have "ucast (take_bit 6 (ucast v :: u8)) = v"
      by (rule bit_word_eqI) (auto simp: bit_simps dest: small_bits(1) [OF 1])
    ultimately show ?thesis
      using 1 by (simp add: x varint_encode_def varint_decode_def encoded_len_def and_masks)
  next
    case 2
    let ?w = "(ucast v :: u16) OR 0x4000"
    have "drop_bit 6 (ucast (drop_bit 8 ?w) :: u8) = 1"
      by (rule bit_word_eqI)
        (auto simp: bit_simps bit_0x4000 bit_1_iff less_2_cases_iff dest: small_bits(2) [OF 2(2)])
    moreover have "ucast (take_bit 14 ?w) = v"
      by (rule bit_word_eqI) (auto simp: bit_simps bit_0x4000 dest: small_bits(2) [OF 2(2)])
    ultimately show ?thesis
      using 2 by (simp add: x varint_encode_def varint_decode_def encoded_len_def and_masks
          hd_be_bytes be_val_be_bytes_full)
  next
    case 4
    let ?w = "(ucast v :: u32) OR 0x80000000"
    have "drop_bit 6 (ucast (drop_bit 24 ?w) :: u8) = 2"
      by (rule bit_word_eqI)
        (auto simp: bit_simps bit_0x80000000 less_2_cases_iff dest: small_bits(3) [OF 4(3)])
    moreover have "ucast (take_bit 30 ?w) = v"
      by (rule bit_word_eqI) (auto simp: bit_simps bit_0x80000000 dest: small_bits(3) [OF 4(3)])
    ultimately show ?thesis
      using 4 by (simp add: x varint_encode_def varint_decode_def encoded_len_def and_masks
          hd_be_bytes be_val_be_bytes_full)
  next
    case 8
    let ?w = "v OR 0xC000000000000000"
    have "drop_bit 6 (ucast (drop_bit 56 ?w) :: u8) = 3"
      by (rule bit_word_eqI)
        ((auto simp: bit_simps bit_0xC0 bit_3 less_2_cases_iff simp del: bit_numeral_word_iff
            dest: small_bits(4) [OF v]), simp_all)
    moreover have "take_bit 62 ?w = v"
      by (rule bit_word_eqI) (auto simp: bit_simps bit_0xC0 dest: small_bits(4) [OF v])
    ultimately show ?thesis
      using 8 by (simp add: x varint_encode_def varint_decode_def encoded_len_def and_masks
          hd_be_bytes be_val_be_bytes_full)
  qed
qed


lemma varint_decode_consumes:
  "varint_decode bs = Inr (x, rest) \<Longrightarrow> \<exists>used. used \<noteq> [] \<and> bs = used @ rest"
  by (rule exI [of _ "take (push_bit (unat (drop_bit 6 (hd bs))) 1) bs"])
    (auto simp: varint_decode_def Let_def push_bit_eq_mult split: if_splits)

lemma varint_decode_wf: "varint_decode bs = Inr (x, rest) \<Longrightarrow> wf_varint x"
proof -
  assume dec: "varint_decode bs = Inr (x, rest)"
  have "take_bit 62 (into_inner x) = into_inner x"
    using dec by (auto simp: varint_decode_def Let_def and_masks unsigned_take_bit_eq
        take_bit_take_bit min_def split: if_splits)
  then have "into_inner x AND mask 62 = into_inner x"
    by (simp add: take_bit_eq_mask)
  then have "into_inner x \<le> mask 62"
    by (metis word_and_le1)
  then show ?thesis
    by (simp add: wf_varint_def MAX_VARINT_def mask_eq_exp_minus_1)
qed

interpretation varint: sound_codec varint_encode varint_decode wf_varint
  by unfold_locales (rule varint_roundtrip varint_decode_wf, assumption |
      erule varint_decode_consumes)+

lemma length_varint_encode: "length (varint_encode x) = encoded_len x"
  by (simp add: varint_encode_def encoded_len_def)


section \<open>The shortest form\<close>

lemma prefix_lengths: "push_bit (unat (drop_bit 6 (b :: u8))) (1::nat) \<in> {1, 2, 4, 8}"
proof -
  have "unat b < 256"
    using unsigned_less [of b, where ?'a = nat] by simp
  then have "unat (drop_bit 6 b) < 4"
    by (simp add: drop_bit_eq_div unat_div)
  then show ?thesis
    by (simp add: push_bit_eq_mult) (force simp: less_Suc_eq numeral_eq_Suc)
qed

lemma varint_decode_used:
  assumes "varint_decode bs = Inr (x, rest)"
  shows "length bs = length rest + 1 \<and> into_inner x \<le> 63
    \<or> length bs = length rest + 2 \<and> into_inner x \<le> 16383
    \<or> length bs = length rest + 4 \<and> into_inner x \<le> 1073741823
    \<or> length bs = length rest + 8"
proof -
  have small: "ucast (b AND 0x3F) \<le> (63 :: u64)"
      "ucast (h AND 0x3FFF) \<le> (16383 :: u64)"
      "ucast (w AND 0x3FFFFFFF) \<le> (1073741823 :: u64)"
    for b :: u8 and h :: u16 and w :: u32
    using word_and_le1 [of b "0x3F"] word_and_le1 [of h "0x3FFF"] word_and_le1 [of w "0x3FFFFFFF"]
    by (simp_all add: word_le_nat_alt unsigned_ucast_eq take_bit_nat_eq_self
        order.strict_trans1 [OF _ unsigned_less])
  show ?thesis
    using assms small prefix_lengths [of "hd bs"] by (auto simp: varint_decode_def Let_def split: if_splits)
qed

lemma varint_shortest:
  "varint_decode bs = Inr (x, rest) \<Longrightarrow> encoded_len x + length rest \<le> length bs"
  by (drule varint_decode_used) (auto simp: encoded_len_def)

text \<open>More bytes behind a varint do not change what was read.\<close>

lemma varint_decode_extend:
  assumes "varint_decode bs = Inr (x, rest)"
  shows "varint_decode (bs @ z) = Inr (x, rest @ z)"
proof -
  from assms have bs: "bs \<noteq> []" "push_bit (unat (drop_bit 6 (hd bs))) 1 \<le> length bs"
    by (auto simp: varint_decode_def Let_def split: if_splits)
  then show ?thesis
    using assms prefix_lengths [of "hd bs"]
    by (auto simp: varint_decode_def Let_def simp del: push_bit_of_1 split: if_splits)
qed

end
