(* ===== verification/Moqt_Varint.thy ===== *)
theory Moqt_Varint
  imports Varint_Codec
begin

text \<open>
  The second integer of \<open>varint.rs\<close>, drafts 17 and later: the number of leading one bits of the
  first byte gives the length. A profile says whether the seven-byte length exists; the trait
  \<open>MoqtProfile\<close> and its two implementors are the datatype below with its associated constant.
\<close>

datatype moqt_profile = Moqt17 | Moqt18

fun SEVEN_BYTE :: "moqt_profile \<Rightarrow> bool" where
  "SEVEN_BYTE Moqt17 = False"
| "SEVEN_BYTE Moqt18 = True"

text \<open>The loop \<open>for len in 1..=8\<close> with its early return, then 9.\<close>

definition encoded_len_moqt :: "varint \<Rightarrow> bool \<Rightarrow> nat" where
  "encoded_len_moqt x seven_byte =
     (case find (\<lambda>len. (len \<noteq> 7 \<or> seven_byte) \<and> into_inner x < push_bit (7 * len) 1) [1..<9] of
        Some len \<Rightarrow> len
      | None \<Rightarrow> 9)"

definition encode_moqt_inner :: "varint \<Rightarrow> bool \<Rightarrow> bytes" where
  "encode_moqt_inner x seven_byte =
     (let len = encoded_len_moqt x seven_byte in
      if len = 9 then 0xFF # be_bytes 8 (into_inner x)
      else
        let prefix = ucast (push_bit (9 - len) (push_bit (len - 1) 1 - 1 :: u16)) :: u8;
            combined = push_bit (8 * (len - 1)) (ucast prefix) OR into_inner x
        in be_bytes len combined)"

text \<open>\<open>u8::leading_ones\<close>.\<close>

definition leading_ones :: "u8 \<Rightarrow> nat" where
  "leading_ones b = length (takeWhile (bit b) [7, 6, 5, 4, 3, 2, 1, 0])"

definition decode_moqt_inner :: "bytes \<Rightarrow> bool \<Rightarrow> varint_error + varint \<times> bytes" where
  "decode_moqt_inner bs seven_byte =
     (if length bs < 1 then Inl VarIntUnexpectedEnd
      else
        let first = hd bs in
        if first = 0xFF then
          (if length bs < 9 then Inl VarIntUnexpectedEnd
           else Inr (VarInt (be_val (take 8 (tl bs))), drop 9 bs))
        else
          let len = leading_ones first + 1 in
          if len = 7 \<and> \<not> seven_byte then Inl VarIntInvalidCodePoint
          else if length bs < len then Inl VarIntUnexpectedEnd
          else
            let val = ucast (first AND ucast (push_bit (8 - len) 1 - 1 :: u16)) in
            Inr (VarInt (foldl (\<lambda>v b. push_bit 8 v OR ucast b) val (take (len - 1) (tl bs))),
                 drop len bs))"

definition encode_moqt :: "moqt_profile \<Rightarrow> varint \<Rightarrow> bytes" where
  "encode_moqt p x = encode_moqt_inner x (SEVEN_BYTE p)"

definition decode_moqt :: "moqt_profile \<Rightarrow> bytes \<Rightarrow> varint_error + varint \<times> bytes" where
  "decode_moqt p bs = decode_moqt_inner bs (SEVEN_BYTE p)"

section \<open>Round trip\<close>

lemma find_lengths:
  "find P [1..<9] = (if P 1 then Some 1 else if P 2 then Some 2 else if P 3 then Some 3
     else if P 4 then Some 4 else if P 5 then Some 5 else if P 6 then Some 6
     else if P 7 then Some 7 else if P 8 then Some 8 else (None :: nat option))"
proof -
  have "[1..<9] = [1, 2, 3, 4, 5, 6, 7, 8 :: nat]" by (simp add: upt_rec)
  then show ?thesis by simp
qed

lemma encoded_len_moqt_cases:
  "encoded_len_moqt x s \<in> {1, 2, 3, 4, 5, 6, 7, 8} \<and> (encoded_len_moqt x s = 7 \<longrightarrow> s)
     \<and> into_inner x < push_bit (7 * encoded_len_moqt x s) 1
   \<or> encoded_len_moqt x s = 9"
  unfolding encoded_len_moqt_def find_lengths by simp

lemma moqt_hd:
  fixes v :: u64
  assumes len: "len \<in> {1, 2, 3, 4, 5, 6, 7, 8 :: nat}" and v: "v < push_bit (7 * len) 1"
    and prefix: "prefix = (ucast (push_bit (9 - len) (push_bit (len - 1) 1 - 1 :: u16)) :: u8)"
    and combined: "combined = push_bit (8 * (len - 1)) (ucast prefix) OR v"
    and h: "h = (ucast (drop_bit (8 * (len - 1)) combined) :: u8)"
  shows "leading_ones h = len - 1"
    and "h AND ucast (push_bit (8 - len) 1 - 1 :: u16) = ucast (drop_bit (8 * (len - 1)) v)"
proof -
  have vb: "7 * len \<le> n \<Longrightarrow> \<not> bit v n" for n
    using bit_below_power [of v "7 * len" n] v by (auto simp: push_bit_eq_mult)
  have hb: "n < 8 \<Longrightarrow> bit h n \<longleftrightarrow> bit prefix n \<or> bit v (8 * (len - 1) + n)" for n
    using len by (auto simp: h combined bit_simps)
  have h0: "bit h 0 \<longleftrightarrow> bit prefix 0 \<or> bit v (8 * (len - 1))"
    using hb [of 0] by simp
  show "leading_ones h = len - 1"
    using len vb unfolding leading_ones_def prefix
    by (elim insertE emptyE) (simp_all add: hb h0 prefix)
  have "push_bit (8 - len) 1 - 1 = (mask (8 - len) :: u16)"
    by (simp add: mask_eq_exp_minus_1 push_bit_eq_mult)
  then have "h AND ucast (push_bit (8 - len) 1 - 1 :: u16) = take_bit (8 - len) h"
    by (auto intro!: bit_word_eqI simp: bit_simps)
  also have "\<dots> = ucast (drop_bit (8 * (len - 1)) v)"
  proof (rule bit_word_eqI)
    fix n assume "n < LENGTH(8)"
    then have n: "n < 8" by simp
    have p: "\<not> bit prefix n" if "n < 8 - len"
      using that len by (auto simp: prefix bit_simps)
    have "\<not> bit v (8 * (len - 1) + n)" if "\<not> n < 8 - len"
      using that len by (intro vb) auto
    then show "bit (take_bit (8 - len) h) n = bit (ucast (drop_bit (8 * (len - 1)) v) :: u8) n"
      using n p by (auto simp: bit_take_bit_iff hb bit_simps)
  qed
  finally show "h AND ucast (push_bit (8 - len) 1 - 1 :: u16) = ucast (drop_bit (8 * (len - 1)) v)" .
qed

text \<open>The same value whichever way it is spelled: the accumulating loop of the reader is a
  big-endian read started from the bits of the first byte.\<close>

lemma moqt_roundtrip_inner:
  "decode_moqt_inner (encode_moqt_inner x s @ rest) s = Inr (x, rest)"
proof (cases "encoded_len_moqt x s = 9")
  case True
  then show ?thesis
    by (simp add: encode_moqt_inner_def decode_moqt_inner_def be_val_be_bytes_full)
next
  case False
  define len where "len = encoded_len_moqt x s"
  define v where "v = into_inner x"
  define prefix :: u8 where "prefix = ucast (push_bit (9 - len) (push_bit (len - 1) 1 - 1 :: u16))"
  define combined where "combined = push_bit (8 * (len - 1)) (ucast prefix) OR v"
  define h :: u8 where "h = ucast (drop_bit (8 * (len - 1)) combined)"
  have len: "len \<in> {1, 2, 3, 4, 5, 6, 7, 8}" and seven: "len = 7 \<Longrightarrow> s"
    and v: "v < push_bit (7 * len) 1"
    using encoded_len_moqt_cases [of x s] False by (auto simp: len_def v_def)
  note hd = moqt_hd [OF len v prefix_def combined_def h_def]
  obtain m where m: "len = Suc m" using len by (cases len) auto
  have enc: "encode_moqt_inner x s = h # be_bytes m combined"
    using False by (simp add: encode_moqt_inner_def Let_def be_bytes_Suc h_def combined_def
        prefix_def v_def m flip: len_def)
  have notFF: "h \<noteq> 0xFF"
    using hd(1) len by (auto simp: leading_ones_def)
  have vb: "bit v n \<Longrightarrow> n < 7 + 7 * m" for n
    using bit_below_power [of v "7 * len" n] v by (simp add: push_bit_eq_mult m)
  have vb8: "n < 8" if "bit v (8 * m + n)" for n
    using vb [OF that] by simp
  have top: "ucast (ucast (drop_bit (8 * m) v) :: u8) = drop_bit (8 * m) v"
    by (rule bit_word_eqI) (auto simp: bit_simps dest: vb8)
  have low: "take_bit (8 * m) combined = take_bit (8 * m) v"
    by (rule bit_word_eqI) (auto simp: combined_def m bit_simps)
  have split: "push_bit (8 * m) (drop_bit (8 * m) v) OR take_bit (8 * m) v = v"
    by (rule bit_word_eqI) (auto simp: bit_simps)
  have "foldl (\<lambda>v b. push_bit 8 v OR ucast b) (drop_bit (8 * m) v) (be_bytes m combined) = v"
    by (simp add: be_fold_split be_val_be_bytes low split)
  moreover have "ucast (h AND ucast (push_bit (8 - len) 1 - 1 :: u16)) = drop_bit (8 * m) v"
    using hd(2) top by (simp add: m)
  ultimately show ?thesis
    using notFF hd(1) seven
    by (simp add: enc decode_moqt_inner_def Let_def m v_def)
qed

lemma decode_moqt_inner_consumes:
  "decode_moqt_inner bs s = Inr (x, rest) \<Longrightarrow> \<exists>used. used \<noteq> [] \<and> bs = used @ rest"
  by (rule exI [of _ "take (if hd bs = 0xFF then 9 else leading_ones (hd bs) + 1) bs"])
    (auto simp: decode_moqt_inner_def Let_def split: if_splits)

interpretation moqt_varint: sound_codec "encode_moqt p" "decode_moqt p" "\<lambda>_. True"
  by unfold_locales
    (auto simp: encode_moqt_def decode_moqt_def moqt_roundtrip_inner
      dest: decode_moqt_inner_consumes)

text \<open>The draft-17 profile never writes a seven-byte integer and never reads one.\<close>

lemma length_encode_moqt: "length (encode_moqt p x) = encoded_len_moqt x (SEVEN_BYTE p)"
  using encoded_len_moqt_cases [of x "SEVEN_BYTE p"]
  by (auto simp: encode_moqt_def encode_moqt_inner_def Let_def)

lemma moqt17_length: "length (encode_moqt Moqt17 x) \<noteq> 7"
  using encoded_len_moqt_cases [of x False] by (auto simp: length_encode_moqt)

lemma leading_ones_FF: "leading_ones 0xFF = 8"
  by (simp add: leading_ones_def)

lemma moqt17_refuses_seven:
  "bs \<noteq> [] \<Longrightarrow> leading_ones (hd bs) = 6 \<Longrightarrow> decode_moqt Moqt17 bs = Inl VarIntInvalidCodePoint"
  by (auto simp: decode_moqt_def decode_moqt_inner_def leading_ones_FF Let_def)

end
