(* ===== verification/Draft_Version.thy ===== *)
theory Draft_Version
  imports Moqt_Varint
begin

text \<open>
  \<open>version.rs\<close>: the drafts of the series, the integer encoding each uses, and the table-driven
  reader and writer every runtime-dispatched path goes through. \<open>varint_len\<close> is the question a
  reader asks before it has the bytes; its agreement with the decoder is what keeps such a reader
  from stalling or from reading short.
\<close>

datatype varint_encoding_kind = Rfc9000 | EncMoqt17 | EncMoqt18

datatype (plugins only: code size) draft_version =
    Draft07
  | Draft08
  | Draft09
  | Draft10
  | Draft11
  | Draft12
  | Draft13
  | Draft14
  | Draft15
  | Draft16
  | Draft17
  | Draft18
  | Draft19
  | Draft20
  | Draft21
  | Draft22

definition ALL_DRAFTS :: "draft_version list" where
  "ALL_DRAFTS =
     [Draft07, Draft08, Draft09, Draft10, Draft11, Draft12, Draft13, Draft14,
      Draft15, Draft16, Draft17, Draft18, Draft19, Draft20, Draft21, Draft22]"

definition newest :: draft_version where
  "newest = ALL_DRAFTS ! (length ALL_DRAFTS - 1)"

fun number :: "draft_version \<Rightarrow> u8" where
  "number Draft07 = 7"
| "number Draft08 = 8"
| "number Draft09 = 9"
| "number Draft10 = 10"
| "number Draft11 = 11"
| "number Draft12 = 12"
| "number Draft13 = 13"
| "number Draft14 = 14"
| "number Draft15 = 15"
| "number Draft16 = 16"
| "number Draft17 = 17"
| "number Draft18 = 18"
| "number Draft19 = 19"
| "number Draft20 = 20"
| "number Draft21 = 21"
| "number Draft22 = 22"

fun version_varint :: "draft_version \<Rightarrow> varint" where
  "version_varint Draft07 = from_usize (0xff000000 + 7)"
| "version_varint Draft08 = from_usize (0xff000000 + 8)"
| "version_varint Draft09 = from_usize (0xff000000 + 9)"
| "version_varint Draft10 = from_usize (0xff000000 + 10)"
| "version_varint Draft11 = from_usize (0xff000000 + 11)"
| "version_varint Draft12 = from_usize (0xff000000 + 12)"
| "version_varint Draft13 = from_usize (0xff000000 + 13)"
| "version_varint Draft14 = from_usize (0xff000000 + 14)"
| "version_varint Draft15 = from_usize (0xff000000 + 15)"
| "version_varint Draft16 = from_usize (0xff000000 + 16)"
| "version_varint Draft17 = from_usize (0xff000000 + 17)"
| "version_varint Draft18 = from_usize (0xff000000 + 18)"
| "version_varint Draft19 = from_usize (0xff000000 + 19)"
| "version_varint Draft20 = from_usize (0xff000000 + 20)"
| "version_varint Draft21 = from_usize (0xff000000 + 21)"
| "version_varint Draft22 = from_usize (0xff000000 + 22)"

definition ascii :: "string \<Rightarrow> bytes" where
  "ascii s = map of_char s"

fun quic_alpn :: "draft_version \<Rightarrow> bytes" where
  "quic_alpn Draft07 = ascii ''moq-00''"
| "quic_alpn Draft08 = ascii ''moq-00''"
| "quic_alpn Draft09 = ascii ''moq-00''"
| "quic_alpn Draft10 = ascii ''moq-00''"
| "quic_alpn Draft11 = ascii ''moq-00''"
| "quic_alpn Draft12 = ascii ''moq-00''"
| "quic_alpn Draft13 = ascii ''moq-00''"
| "quic_alpn Draft14 = ascii ''moq-00''"
| "quic_alpn Draft15 = ascii ''moqt-15''"
| "quic_alpn Draft16 = ascii ''moqt-16''"
| "quic_alpn Draft17 = ascii ''moqt-17''"
| "quic_alpn Draft18 = ascii ''moqt-18''"
| "quic_alpn Draft19 = ascii ''moqt-19''"
| "quic_alpn Draft20 = ascii ''moqt-20''"
| "quic_alpn Draft21 = ascii ''moqt-21''"
| "quic_alpn Draft22 = ascii ''moqt-22''"

definition from_alpn :: "bytes \<Rightarrow> draft_version option" where
  "from_alpn alpn =
     (if alpn = ascii ''moqt-15'' then Some Draft15
      else if alpn = ascii ''moqt-16'' then Some Draft16
      else if alpn = ascii ''moqt-17'' then Some Draft17
      else if alpn = ascii ''moqt-18'' then Some Draft18
      else if alpn = ascii ''moqt-19'' then Some Draft19
      else if alpn = ascii ''moqt-20'' then Some Draft20
      else if alpn = ascii ''moqt-21'' then Some Draft21
      else if alpn = ascii ''moqt-22'' then Some Draft22
      else None)"

definition from_number :: "u8 \<Rightarrow> draft_version option" where
  "from_number n =
     (if n = 7 then Some Draft07
      else if n = 8 then Some Draft08
      else if n = 9 then Some Draft09
      else if n = 10 then Some Draft10
      else if n = 11 then Some Draft11
      else if n = 12 then Some Draft12
      else if n = 13 then Some Draft13
      else if n = 14 then Some Draft14
      else if n = 15 then Some Draft15
      else if n = 16 then Some Draft16
      else if n = 17 then Some Draft17
      else if n = 18 then Some Draft18
      else if n = 19 then Some Draft19
      else if n = 20 then Some Draft20
      else if n = 21 then Some Draft21
      else if n = 22 then Some Draft22
      else None)"

definition uses_fixed_length_framing :: "draft_version \<Rightarrow> bool" where
  "uses_fixed_length_framing d \<longleftrightarrow> number d \<ge> 11"

fun varint_encoding :: "draft_version \<Rightarrow> varint_encoding_kind" where
  "varint_encoding Draft07 = Rfc9000"
| "varint_encoding Draft08 = Rfc9000"
| "varint_encoding Draft09 = Rfc9000"
| "varint_encoding Draft10 = Rfc9000"
| "varint_encoding Draft11 = Rfc9000"
| "varint_encoding Draft12 = Rfc9000"
| "varint_encoding Draft13 = Rfc9000"
| "varint_encoding Draft14 = Rfc9000"
| "varint_encoding Draft15 = Rfc9000"
| "varint_encoding Draft16 = Rfc9000"
| "varint_encoding Draft17 = EncMoqt17"
| "varint_encoding Draft18 = EncMoqt18"
| "varint_encoding Draft19 = EncMoqt18"
| "varint_encoding Draft20 = EncMoqt18"
| "varint_encoding Draft21 = EncMoqt18"
| "varint_encoding Draft22 = EncMoqt18"

definition uses_moqt_varint :: "draft_version \<Rightarrow> bool" where
  "uses_moqt_varint d \<longleftrightarrow> varint_encoding d \<noteq> Rfc9000"

definition varint_len :: "draft_version \<Rightarrow> u8 \<Rightarrow> nat" where
  "varint_len d first_byte =
     (case varint_encoding d of
        Rfc9000 \<Rightarrow> push_bit (unat (drop_bit 6 first_byte)) 1
      | _ \<Rightarrow> if first_byte = 0xFF then 9 else leading_ones first_byte + 1)"

definition decode_varint :: "draft_version \<Rightarrow> bytes \<Rightarrow> varint_error + varint \<times> bytes" where
  "decode_varint d bs =
     (case varint_encoding d of
        Rfc9000 \<Rightarrow> varint_decode bs
      | EncMoqt17 \<Rightarrow> decode_moqt Moqt17 bs
      | EncMoqt18 \<Rightarrow> decode_moqt Moqt18 bs)"

definition encode_varint :: "draft_version \<Rightarrow> varint \<Rightarrow> bytes" where
  "encode_varint d x =
     (case varint_encoding d of
        Rfc9000 \<Rightarrow> varint_encode x
      | EncMoqt17 \<Rightarrow> encode_moqt Moqt17 x
      | EncMoqt18 \<Rightarrow> encode_moqt Moqt18 x)"

definition wf_for :: "draft_version \<Rightarrow> varint \<Rightarrow> bool" where
  "wf_for d x \<longleftrightarrow> varint_encoding d = Rfc9000 \<longrightarrow> wf_varint x"

interpretation draft_varint: sound_codec "encode_varint d" "decode_varint d" "wf_for d"
  by unfold_locales
    (auto simp: encode_varint_def decode_varint_def wf_for_def
      varint.decode_encode moqt_varint.decode_encode
      split: varint_encoding_kind.splits
      dest: varint_decode_wf varint_decode_consumes moqt_varint.decode_consumes)

text \<open>The length named by the first byte is the length the reader takes.\<close>

lemma varint_decode_length:
  "varint_decode bs = Inr (x, rest) \<Longrightarrow>
     length bs = push_bit (unat (drop_bit 6 (hd bs))) 1 + length rest"
  by (auto simp: varint_decode_def Let_def split: if_splits)

lemma decode_moqt_length:
  "decode_moqt p bs = Inr (x, rest) \<Longrightarrow>
     length bs = (if hd bs = 0xFF then 9 else leading_ones (hd bs) + 1) + length rest"
  by (auto simp: decode_moqt_def decode_moqt_inner_def Let_def split: if_splits)

lemma decode_varint_length:
  "decode_varint d bs = Inr (x, rest) \<Longrightarrow> length bs = varint_len d (hd bs) + length rest"
  by (auto simp: decode_varint_def varint_len_def split: varint_encoding_kind.splits
      dest: varint_decode_length decode_moqt_length)

lemma decode_varint_waits:
  "bs \<noteq> [] \<Longrightarrow> varint_len d (hd bs) \<le> length bs \<Longrightarrow> decode_varint d bs \<noteq> Inl VarIntUnexpectedEnd"
  by (cases bs)
    (auto simp: decode_varint_def varint_len_def varint_decode_def decode_moqt_def
      decode_moqt_inner_def Let_def split: varint_encoding_kind.splits if_splits)

section \<open>The tables agree with each other\<close>

lemma from_number_number [simp]: "from_number (number d) = Some d"
  by (cases d) (simp_all add: from_number_def)

lemma number_from_number: "from_number n = Some d \<Longrightarrow> number d = n"
  by (auto simp: from_number_def split: if_splits)

lemma ALL_complete: "d \<in> set ALL_DRAFTS"
  by (cases d) (simp_all add: ALL_DRAFTS_def)

lemma number_le_newest: "number d \<le> number newest"
  by (cases d) (simp_all add: newest_def ALL_DRAFTS_def)

lemma from_alpn_quic_alpn:
  "from_alpn (quic_alpn d) = (if number d \<ge> 15 then Some d else None)"
  by (cases d) (simp_all add: from_alpn_def ascii_def)

end
