(* ===== verification/Wire_Types.thy ===== *)
theory Wire_Types
  imports Draft_Version
begin

text \<open>
  \<open>types.rs\<close>: the values every draft's messages share, with their readers and writers. A Track
  Namespace is read under the rules its draft states (\<open>TrackNamespaceRules\<close>) and held to the same
  rules before it is written (\<open>validate\<close>); the two are proved to be one rule. \<open>reserve_bounded\<close>
  only sizes an allocation: what it relies on, that each item of a counted list takes at least one
  byte, is \<open>list_decode_bound\<close> of the codec interface.
\<close>

section \<open>Bytes and varints inside messages\<close>

definition usize :: "varint \<Rightarrow> nat" where
  "usize x = unat (into_inner x)"

definition read_bytes :: "bytes \<Rightarrow> nat \<Rightarrow> codec_error + bytes \<times> bytes" where
  "read_bytes bs len =
     (if length bs < len then Inl UnexpectedEnd else Inr (take len bs, drop len bs))"

text \<open>A varint read with \<open>?\<close> in a function answering \<open>CodecError\<close>: the error is wrapped by
  \<open>From<VarIntError>\<close>.\<close>

definition vi ::
  "(bytes \<Rightarrow> varint_error + varint \<times> bytes) \<Rightarrow> bytes \<Rightarrow> codec_error + varint \<times> bytes" where
  "vi vdec bs = map_err CodecVarInt (vdec bs)"

definition saturating_add :: "nat \<Rightarrow> nat \<Rightarrow> nat" where
  "saturating_add a b = min (a + b) (2 ^ 64 - 1)"

lemma usize_from_usize [simp]: "n < 2 ^ 64 \<Longrightarrow> usize (from_usize n) = n"
  by (simp add: usize_def from_usize_def unat_of_nat take_bit_nat_eq_self)

lemma from_usize_usize [simp]: "from_usize (usize x) = x"
  by (cases x) (simp add: usize_def from_usize_def)

lemma wf_varint_from_usize [simp]: "n < 2 ^ 62 \<Longrightarrow> wf_varint (from_usize n)"
  by (simp add: wf_varint_def from_usize_def MAX_VARINT_def word_le_nat_alt unat_of_nat
      take_bit_nat_eq_self)

lemma usize_less: "wf_varint x \<Longrightarrow> usize x < 2 ^ 62"
  by (simp add: wf_varint_def usize_def MAX_VARINT_def word_le_nat_alt)

lemma varint_decode_usize: "varint_decode bs = Inr (x, rest) \<Longrightarrow> usize x < 2 ^ 62"
  by (rule usize_less) (rule varint_decode_wf)

lemma usize_less_64: "usize x < 2 ^ 64"
  using unsigned_less [of "into_inner x", where ?'a = nat] by (simp add: usize_def)

lemma read_bytes_append [simp]: "n = length f \<Longrightarrow> read_bytes (f @ rest) n = Inr (f, rest)"
  by (simp add: read_bytes_def)

lemma eats_read_bytes [eats_intros]: "eats (read_bytes bs n) bs"
  by (auto simp: eats_def read_bytes_def intro: exI [of _ "take n bs"])

lemma read_bytes_Inr:
  "read_bytes bs n = Inr (f, rest) \<longleftrightarrow> length f = n \<and> bs = f @ rest"
  by (auto simp: read_bytes_def)

text \<open>
  What a message needs from an integer encoding, whichever draft it belongs to: it is sound, and
  every value the QUIC encoding can hold is one it can write.
\<close>

locale varint_codec = sound_codec venc vdec vwf
  for venc :: "varint \<Rightarrow> bytes"
    and vdec :: "bytes \<Rightarrow> varint_error + varint \<times> bytes"
    and vwf :: "varint \<Rightarrow> bool" +
  assumes writes_small: "wf_varint x \<Longrightarrow> vwf x"
begin

lemma vi_encode [simp]: "vwf x \<Longrightarrow> vi vdec (venc x @ rest) = Inr (x, rest)"
  by (simp add: vi_def decode_encode)

lemma vi_encode_usize [simp]:
  "n < 2 ^ 62 \<Longrightarrow> vi vdec (venc (from_usize n) @ rest) = Inr (from_usize n, rest)"
  by (simp add: writes_small)

lemma vi_consumes: "vi vdec bs = Inr (x, rest) \<Longrightarrow> \<exists>used. used \<noteq> [] \<and> bs = used @ rest"
  by (simp add: vi_def decode_consumes)

lemma vi_eats1: "eats1 (vi vdec bs) bs"
  by (simp add: eats1_def vi_consumes)

lemma vi_eats: "eats (vi vdec bs) bs"
  by (rule eats1_eats) (rule vi_eats1)

lemma vi_wf: "vi vdec bs = Inr (x, rest) \<Longrightarrow> vwf x"
  by (auto simp: vi_def dest: decode_wf)

end

interpretation vi_codec: shortest_codec varint_encode "vi varint_decode" wf_varint
  by unfold_locales
    (auto simp: vi_def varint.decode_encode length_varint_encode
      dest: varint_decode_wf varint_decode_consumes varint_shortest)

interpretation quic: varint_codec varint_encode varint_decode wf_varint
  by unfold_locales simp

interpretation moqt: varint_codec "encode_moqt p" "decode_moqt p" "\<lambda>_. True"
  by unfold_locales simp

lemmas vi_eats_intros [eats_intros] =
  quic.vi_eats quic.vi_eats1 moqt.vi_eats moqt.vi_eats1

interpretation per_draft: varint_codec "encode_varint d" "decode_varint d" "wf_for d"
  by unfold_locales (simp add: wf_for_def)

section \<open>Ranges\<close>

definition check_location_range ::
  "u64 \<Rightarrow> u64 \<Rightarrow> u64 \<Rightarrow> u64 \<Rightarrow> codec_error + unit" where
  "check_location_range start_group start_object end_group end_object =
     (let ends_early = end_group < start_group
        \<or> (end_group = start_group \<and> end_object \<noteq> 0 \<and> end_object \<le> start_object)
      in if ends_early then Inl (InvalidRange start_group start_object end_group end_object)
         else Inr ())"

definition check_group_range :: "u64 \<Rightarrow> u64 \<Rightarrow> codec_error + unit" where
  "check_group_range start_group end_group =
     (if end_group < start_group then Inl (InvalidRange start_group 0 end_group 0) else Inr ())"

definition check_open_ended_group_range :: "u64 \<Rightarrow> u64 \<Rightarrow> codec_error + unit" where
  "check_open_ended_group_range start_group end_group =
     (if end_group \<noteq> 0 \<and> end_group < start_group
      then Inl (InvalidRange start_group 0 end_group 0) else Inr ())"

section \<open>Track namespaces\<close>

datatype track_namespace = TrackNamespace (ns_fields: "bytes list")

record track_namespace_rules =
  min_fields :: nat
  reject_empty_field :: bool
  max_namespace_bytes :: "nat option"

definition for_draft :: "u8 \<Rightarrow> track_namespace_rules" where
  "for_draft draft =
     \<lparr> min_fields = (if draft \<ge> 17 then 0 else 1),
       reject_empty_field = (draft \<ge> 16),
       max_namespace_bytes = (if draft \<ge> 16 then Some MAX_FULL_TRACK_NAME_LENGTH else None) \<rparr>"

record full_track_name =
  ftn_namespace :: track_namespace
  ftn_track_name :: bytes

definition namespace_encode :: "track_namespace \<Rightarrow> bytes" where
  "namespace_encode ns =
     varint_encode (from_usize (length (ns_fields ns)))
     @ concat (map (\<lambda>elem. varint_encode (from_usize (length elem)) @ elem) (ns_fields ns))"

fun decode_rules_fields ::
  "track_namespace_rules \<Rightarrow> nat \<Rightarrow> nat \<Rightarrow> bytes \<Rightarrow> codec_error + bytes list \<times> bytes" where
  "decode_rules_fields rules 0 tot bs = Inr ([], bs)"
| "decode_rules_fields rules (Suc n) tot bs =
     rd (vi varint_decode bs) (\<lambda>len bs.
       if usize len = 0 \<and> reject_empty_field rules then Inl EmptyNamespaceField
       else
         let tot = saturating_add tot (usize len) in
         if (case max_namespace_bytes rules of Some m \<Rightarrow> tot > m | None \<Rightarrow> False)
         then Inl TrackNameTooLong
         else rd (read_bytes bs (usize len)) (\<lambda>elem bs.
                rd (decode_rules_fields rules n tot bs) (\<lambda>elems bs.
                  Inr (elem # elems, bs))))"

definition decode_rules ::
  "track_namespace_rules \<Rightarrow> bytes \<Rightarrow> codec_error + track_namespace \<times> bytes" where
  "decode_rules rules bs =
     rd (vi varint_decode bs) (\<lambda>x bs.
       let n = usize x in
       if n < min_fields rules \<or> n > MAX_NAMESPACE_TUPLE_SIZE
       then Inl (InvalidNamespaceTupleSize n)
       else rd (decode_rules_fields rules n 0 bs) (\<lambda>elems bs. Inr (TrackNamespace elems, bs)))"

definition pre16_rules :: track_namespace_rules where
  "pre16_rules = \<lparr> min_fields = 1, reject_empty_field = False, max_namespace_bytes = None \<rparr>"

definition namespace_decode :: "bytes \<Rightarrow> codec_error + track_namespace \<times> bytes" where
  "namespace_decode bs = decode_rules pre16_rules bs"

definition decode_allow_empty :: "bytes \<Rightarrow> codec_error + track_namespace \<times> bytes" where
  "decode_allow_empty bs = decode_rules ((for_draft 16)\<lparr> min_fields := 0 \<rparr>) bs"

definition namespace_encode_moqt :: "moqt_profile \<Rightarrow> track_namespace \<Rightarrow> bytes" where
  "namespace_encode_moqt p ns =
     encode_moqt p (from_usize (length (ns_fields ns)))
     @ concat (map (\<lambda>elem. encode_moqt p (from_usize (length elem)) @ elem) (ns_fields ns))"

fun decode_elements_moqt_from ::
  "moqt_profile \<Rightarrow> nat \<Rightarrow> nat \<Rightarrow> bytes \<Rightarrow> codec_error + bytes list \<times> bytes" where
  "decode_elements_moqt_from p 0 tot bs = Inr ([], bs)"
| "decode_elements_moqt_from p (Suc n) tot bs =
     rd (vi (decode_moqt p) bs) (\<lambda>len bs.
       if usize len = 0 then Inl EmptyNamespaceField
       else
         let tot = saturating_add tot (usize len) in
         if tot > MAX_FULL_TRACK_NAME_LENGTH then Inl TrackNameTooLong
         else rd (read_bytes bs (usize len)) (\<lambda>elem bs.
                rd (decode_elements_moqt_from p n tot bs) (\<lambda>elems bs.
                  Inr (elem # elems, bs))))"

definition decode_elements_moqt ::
  "moqt_profile \<Rightarrow> bytes \<Rightarrow> nat \<Rightarrow> codec_error + track_namespace \<times> bytes" where
  "decode_elements_moqt p bs n =
     rd (decode_elements_moqt_from p n 0 bs) (\<lambda>elems bs. Inr (TrackNamespace elems, bs))"

definition decode_allow_empty_moqt ::
  "moqt_profile \<Rightarrow> bytes \<Rightarrow> codec_error + track_namespace \<times> bytes" where
  "decode_allow_empty_moqt p bs =
     rd (vi (decode_moqt p) bs) (\<lambda>x bs.
       let n = usize x in
       if n > MAX_NAMESPACE_TUPLE_SIZE then Inl (InvalidNamespaceTupleSize n)
       else decode_elements_moqt p bs n)"

definition namespace_decode_moqt ::
  "moqt_profile \<Rightarrow> bytes \<Rightarrow> codec_error + track_namespace \<times> bytes" where
  "namespace_decode_moqt p bs = decode_allow_empty_moqt p bs"

definition field_bytes_len :: "track_namespace \<Rightarrow> nat" where
  "field_bytes_len ns = sum_list (map length (ns_fields ns))"

definition validate :: "track_namespace_rules \<Rightarrow> track_namespace \<Rightarrow> codec_error + unit" where
  "validate rules ns =
     (if length (ns_fields ns) < min_fields rules
         \<or> length (ns_fields ns) > MAX_NAMESPACE_TUPLE_SIZE
      then Inl (InvalidNamespaceTupleSize (length (ns_fields ns)))
      else if reject_empty_field rules \<and> list_ex (\<lambda>field. field = []) (ns_fields ns)
      then Inl EmptyNamespaceField
      else if (case max_namespace_bytes rules of
                 Some m \<Rightarrow> field_bytes_len ns > m | None \<Rightarrow> False)
      then Inl TrackNameTooLong
      else Inr ())"

definition validate_moqt :: "track_namespace \<Rightarrow> codec_error + unit" where
  "validate_moqt ns = validate (for_draft 17) ns"

section \<open>Locations and one-byte enumerations\<close>

record location =
  loc_group :: varint
  loc_object :: varint

definition location_encode :: "location \<Rightarrow> bytes" where
  "location_encode l = varint_encode (loc_group l) @ varint_encode (loc_object l)"

definition location_decode :: "bytes \<Rightarrow> codec_error + location \<times> bytes" where
  "location_decode bs =
     rd (vi varint_decode bs) (\<lambda>g bs.
     rd (vi varint_decode bs) (\<lambda>ob bs.
     Inr (\<lparr> loc_group = g, loc_object = ob \<rparr>, bs)))"

definition location_encode_moqt :: "moqt_profile \<Rightarrow> location \<Rightarrow> bytes" where
  "location_encode_moqt p l = encode_moqt p (loc_group l) @ encode_moqt p (loc_object l)"

definition location_decode_moqt ::
  "moqt_profile \<Rightarrow> bytes \<Rightarrow> codec_error + location \<times> bytes" where
  "location_decode_moqt p bs =
     rd (vi (decode_moqt p) bs) (\<lambda>g bs.
     rd (vi (decode_moqt p) bs) (\<lambda>ob bs.
     Inr (\<lparr> loc_group = g, loc_object = ob \<rparr>, bs)))"

datatype object_status14 = Os14Normal | Os14DoesNotExist | Os14EndOfGroup | Os14EndOfTrack

fun os14_as_u8 :: "object_status14 \<Rightarrow> u8" where
  "os14_as_u8 Os14Normal = 0"
| "os14_as_u8 Os14DoesNotExist = 1"
| "os14_as_u8 Os14EndOfGroup = 3"
| "os14_as_u8 Os14EndOfTrack = 4"

definition os14_ALL :: "object_status14 list" where
  "os14_ALL = [Os14Normal, Os14DoesNotExist, Os14EndOfGroup, Os14EndOfTrack]"

definition os14_from_u8 :: "u8 \<Rightarrow> object_status14 option" where
  "os14_from_u8 v =
     (if v = 0 then Some Os14Normal
      else if v = 1 then Some Os14DoesNotExist
      else if v = 3 then Some Os14EndOfGroup
      else if v = 4 then Some Os14EndOfTrack
      else None)"

datatype group_order = GoPublisher | GoAscending | GoDescending

fun group_order_as_u8 :: "group_order \<Rightarrow> u8" where
  "group_order_as_u8 GoPublisher = 0"
| "group_order_as_u8 GoAscending = 1"
| "group_order_as_u8 GoDescending = 2"

definition group_order_from_u8 :: "u8 \<Rightarrow> group_order option" where
  "group_order_from_u8 v =
     (if v = 0 then Some GoPublisher
      else if v = 1 then Some GoAscending
      else if v = 2 then Some GoDescending
      else None)"

datatype forwarding_preference = FpObject | FpDatagram

definition forwarding_preference_from_u8 :: "u8 \<Rightarrow> forwarding_preference option" where
  "forwarding_preference_from_u8 v =
     (if v = 0 then Some FpObject else if v = 1 then Some FpDatagram else None)"

datatype content_exists = NoLargestLocation | HasLargestLocation

fun content_exists_as_u8 :: "content_exists \<Rightarrow> u8" where
  "content_exists_as_u8 NoLargestLocation = 0"
| "content_exists_as_u8 HasLargestLocation = 1"

datatype forward = DontForward | DoForward

datatype filter_type = NextGroupStart | LargestObject | AbsoluteStart | AbsoluteRange

fun filter_type_as_u8 :: "filter_type \<Rightarrow> u8" where
  "filter_type_as_u8 NextGroupStart = 1"
| "filter_type_as_u8 LargestObject = 2"
| "filter_type_as_u8 AbsoluteStart = 3"
| "filter_type_as_u8 AbsoluteRange = 4"

definition filter_type_from_u64 :: "u64 \<Rightarrow> filter_type option" where
  "filter_type_from_u64 v =
     (if v = 1 then Some NextGroupStart
      else if v = 2 then Some LargestObject
      else if v = 3 then Some AbsoluteStart
      else if v = 4 then Some AbsoluteRange
      else None)"

definition filter_type_from_u8 :: "u8 \<Rightarrow> filter_type option" where
  "filter_type_from_u8 v = filter_type_from_u64 (ucast v)"

section \<open>One reader and one rule\<close>

text \<open>
  The two loops of the code, over the QUIC integer with rules and over MoQT's with the rules
  written in, are one loop: \<open>decode_fields_with\<close> is that loop, and the lemmas below are about it.
\<close>

fun decode_fields_with ::
  "(bytes \<Rightarrow> varint_error + varint \<times> bytes) \<Rightarrow> track_namespace_rules \<Rightarrow> nat \<Rightarrow> nat \<Rightarrow> bytes
     \<Rightarrow> codec_error + bytes list \<times> bytes" where
  "decode_fields_with vdec rules 0 tot bs = Inr ([], bs)"
| "decode_fields_with vdec rules (Suc n) tot bs =
     rd (vi vdec bs) (\<lambda>len bs.
       if usize len = 0 \<and> reject_empty_field rules then Inl EmptyNamespaceField
       else
         let tot = saturating_add tot (usize len) in
         if (case max_namespace_bytes rules of Some m \<Rightarrow> tot > m | None \<Rightarrow> False)
         then Inl TrackNameTooLong
         else rd (read_bytes bs (usize len)) (\<lambda>elem bs.
                rd (decode_fields_with vdec rules n tot bs) (\<lambda>elems bs.
                  Inr (elem # elems, bs))))"

definition fields_bytes :: "(varint \<Rightarrow> bytes) \<Rightarrow> bytes list \<Rightarrow> bytes" where
  "fields_bytes venc fs = concat (map (\<lambda>elem. venc (from_usize (length elem)) @ elem) fs)"

definition wf_namespace :: "track_namespace_rules \<Rightarrow> track_namespace \<Rightarrow> bool" where
  "wf_namespace rules ns \<longleftrightarrow>
     validate rules ns = Inr () \<and> list_all (\<lambda>f. length f < 2 ^ 62) (ns_fields ns)"

lemma decode_rules_fields_with:
  "decode_rules_fields rules n tot bs = decode_fields_with varint_decode rules n tot bs"
  by (induction n arbitrary: tot bs) (auto intro!: rd_cong simp: Let_def)

lemma decode_elements_moqt_with:
  "decode_elements_moqt_from p n tot bs = decode_fields_with (decode_moqt p) (for_draft 17) n tot bs"
  by (induction n arbitrary: tot bs) (auto intro!: rd_cong simp: Let_def for_draft_def)

lemma validate_ok:
  "validate rules ns = Inr () \<longleftrightarrow>
     min_fields rules \<le> length (ns_fields ns) \<and> length (ns_fields ns) \<le> MAX_NAMESPACE_TUPLE_SIZE
     \<and> (reject_empty_field rules \<longrightarrow> (\<forall>f \<in> set (ns_fields ns). f \<noteq> []))
     \<and> (\<forall>m. max_namespace_bytes rules = Some m \<longrightarrow> field_bytes_len ns \<le> m)"
  by (auto simp: validate_def list_ex_iff split: option.splits)

context varint_codec
begin

lemma fields_decode_encode:
  assumes "\<forall>f \<in> set fs. length f < 2 ^ 62 \<and> (reject_empty_field rules \<longrightarrow> f \<noteq> [])"
    and "\<forall>m. max_namespace_bytes rules = Some m \<longrightarrow> tot + sum_list (map length fs) \<le> m"
  shows "decode_fields_with vdec rules (length fs) tot (fields_bytes venc fs @ rest)
    = Inr (fs, rest)"
  using assms
proof (induction fs arbitrary: tot)
  case Nil
  then show ?case by (simp add: fields_bytes_def)
next
  case (Cons f fs)
  have "decode_fields_with vdec rules (length fs) (saturating_add tot (length f))
      (fields_bytes venc fs @ rest) = Inr (fs, rest)"
    using Cons.prems by (intro Cons.IH) (auto simp: saturating_add_def)
  moreover have "length f < 2 ^ 62" "reject_empty_field rules \<longrightarrow> f \<noteq> []"
    using Cons.prems(1) by simp_all
  moreover have "max_namespace_bytes rules = Some m \<Longrightarrow> \<not> m < saturating_add tot (length f)" for m
    using Cons.prems(2) by (auto simp: saturating_add_def)
  ultimately show ?case
    by (auto simp: fields_bytes_def Let_def split: option.splits)
qed

lemma fields_decode_shape:
  assumes "decode_fields_with vdec rules n tot bs = Inr (fs, rest)"
  shows "length fs = n \<and> (\<exists>used. bs = used @ rest)
    \<and> (reject_empty_field rules \<longrightarrow> (\<forall>f \<in> set fs. f \<noteq> []))
    \<and> (\<forall>m. max_namespace_bytes rules = Some m \<and> m < 2 ^ 64 - 1 \<and> tot \<le> m
         \<longrightarrow> tot + sum_list (map length fs) \<le> m)"
  using assms
proof (induction n arbitrary: tot bs fs)
  case 0
  then show ?case by simp
next
  case (Suc n)
  from Suc.prems obtain len mid f mid' fs' where
      step: "vi vdec bs = Inr (len, mid)" "mid = f @ mid'" "length f = usize len"
        "decode_fields_with vdec rules n (saturating_add tot (usize len)) mid' = Inr (fs', rest)"
      "fs = f # fs'" "reject_empty_field rules \<longrightarrow> usize len \<noteq> 0"
      "\<forall>m. max_namespace_bytes rules = Some m \<longrightarrow> saturating_add tot (usize len) \<le> m"
    by (auto simp: result_inversion read_bytes_Inr Let_def split: if_splits option.splits)
  moreover have "max_namespace_bytes rules = Some m \<and> m < 2 ^ 64 - 1 \<Longrightarrow>
      saturating_add tot (usize len) = tot + usize len" for m
    using step(7) by (auto simp: saturating_add_def min_def split: if_splits)
  ultimately show ?case
    using Suc.IH [OF step(4)] vi_consumes [OF step(1)] by (auto simp: add.assoc)
qed

lemma fields_decode_small:
  assumes "decode_fields_with vdec rules n tot bs = Inr (fs, rest)"
    and "\<And>x. vwf x \<Longrightarrow> usize x < b"
  shows "\<forall>f \<in> set fs. length f < b"
  using assms
proof (induction n arbitrary: tot bs fs)
  case 0
  then show ?case by simp
next
  case (Suc n)
  from Suc.prems(1) obtain len mid f mid' fs' where
      step: "vi vdec bs = Inr (len, mid)" "length f = usize len"
        "decode_fields_with vdec rules n (saturating_add tot (usize len)) mid' = Inr (fs', rest)"
      "fs = f # fs'"
    by (auto simp: result_inversion read_bytes_Inr Let_def split: if_splits option.splits)
  then show ?case
    using Suc.IH [OF step(3)] Suc.prems(2) vi_wf by auto
qed

end

lemma decode_rules_encode:
  assumes "wf_namespace rules ns"
  shows "decode_rules rules (namespace_encode ns @ rest) = Inr (ns, rest)"
proof -
  have "decode_fields_with varint_decode rules (length (ns_fields ns)) 0
      (fields_bytes varint_encode (ns_fields ns) @ rest) = Inr (ns_fields ns, rest)"
    using assms by (intro quic.fields_decode_encode)
      (auto simp: wf_namespace_def validate_ok field_bytes_len_def list_all_iff)
  moreover have "length (ns_fields ns) < 2 ^ 62"
    using assms by (simp add: wf_namespace_def validate_ok MAX_NAMESPACE_TUPLE_SIZE_def)
  ultimately show ?thesis
    using assms by (simp add: decode_rules_def namespace_encode_def decode_rules_fields_with
        fields_bytes_def wf_namespace_def validate_ok Let_def not_less)
qed

lemma decode_rules_wf:
  assumes "decode_rules rules bs = Inr (ns, rest)"
    and "\<forall>m. max_namespace_bytes rules = Some m \<longrightarrow> m < 2 ^ 64 - 1"
  shows "wf_namespace rules ns"
proof -
  from assms(1) obtain x mid where
      dec: "decode_fields_with varint_decode rules (usize x) 0 mid = Inr (ns_fields ns, rest)"
      and n: "min_fields rules \<le> usize x" "usize x \<le> MAX_NAMESPACE_TUPLE_SIZE"
    by (auto simp: decode_rules_def result_inversion Let_def decode_rules_fields_with not_less
        split: if_splits)
  show ?thesis
    using quic.fields_decode_shape [OF dec] quic.fields_decode_small [OF dec usize_less] n assms(2)
    by (simp add: wf_namespace_def validate_ok field_bytes_len_def list_all_iff)
qed

lemma decode_rules_consumes:
  "decode_rules rules bs = Inr (ns, rest) \<Longrightarrow> \<exists>used. used \<noteq> [] \<and> bs = used @ rest"
  by (auto simp: decode_rules_def result_inversion Let_def decode_rules_fields_with
      split: if_splits dest!: quic.fields_decode_shape quic.vi_consumes)

lemma for_draft_cap: "max_namespace_bytes (for_draft d) = Some m \<Longrightarrow> m < 2 ^ 64 - 1"
  by (auto simp: for_draft_def MAX_FULL_TRACK_NAME_LENGTH_def split: if_splits)

interpretation namespace: sound_codec namespace_encode "decode_rules (for_draft d)"
    "wf_namespace (for_draft d)"
  by unfold_locales
    (auto simp: decode_rules_encode dest: decode_rules_consumes for_draft_cap
      intro!: decode_rules_wf)

lemma pre16_is_for_draft: "d < 16 \<Longrightarrow> for_draft d = pre16_rules"
  by (auto simp: for_draft_def pre16_rules_def linorder_not_le [symmetric] word_less_nat_alt word_le_nat_alt)

lemma fields_decode_shortest:
  "decode_fields_with varint_decode rules n tot bs = Inr (fs, rest) \<Longrightarrow>
     length (fields_bytes varint_encode fs) + length rest \<le> length bs"
proof (induction n arbitrary: tot bs fs)
  case 0
  then show ?case by (simp add: fields_bytes_def)
next
  case (Suc n)
  from Suc.prems obtain len mid f mid' fs' where
      step: "vi varint_decode bs = Inr (len, mid)" "mid = f @ mid'" "length f = usize len"
        "decode_fields_with varint_decode rules n (saturating_add tot (usize len)) mid'
          = Inr (fs', rest)"
      "fs = f # fs'"
    by (auto simp: result_inversion read_bytes_Inr Let_def split: if_splits option.splits)
  then show ?case
    using Suc.IH [OF step(4)] vi_codec.decode_shortest [OF step(1)] by (simp add: fields_bytes_def)
qed

lemma decode_rules_shortest:
  assumes "decode_rules rules bs = Inr (ns, rest)"
  shows "length (namespace_encode ns) + length rest \<le> length bs"
proof -
  from assms obtain x mid where
      hd: "vi varint_decode bs = Inr (x, mid)"
      and dec: "decode_fields_with varint_decode rules (usize x) 0 mid = Inr (ns_fields ns, rest)"
    by (auto simp: decode_rules_def result_inversion Let_def decode_rules_fields_with
        split: if_splits)
  have "length (ns_fields ns) = usize x"
    using quic.fields_decode_shape [OF dec] by simp
  then show ?thesis
    using vi_codec.decode_shortest [OF hd] fields_decode_shortest [OF dec]
    by (simp add: namespace_encode_def fields_bytes_def)
qed

interpretation namespace_pre16: shortest_codec namespace_encode namespace_decode
    "wf_namespace pre16_rules"
proof
  show "wf_namespace pre16_rules ns \<Longrightarrow>
      namespace_decode (namespace_encode ns @ rest) = Inr (ns, rest)" for ns rest
    by (simp add: namespace_decode_def decode_rules_encode)
  show "namespace_decode bs = Inr (ns, rest) \<Longrightarrow> \<exists>used. used \<noteq> [] \<and> bs = used @ rest" for bs ns rest
    unfolding namespace_decode_def by (rule decode_rules_consumes)
  show "namespace_decode bs = Inr (ns, rest) \<Longrightarrow> wf_namespace pre16_rules ns" for bs ns rest
    unfolding namespace_decode_def by (erule decode_rules_wf) (simp add: pre16_rules_def)
  show "namespace_decode bs = Inr (ns, rest) \<Longrightarrow>
      length (namespace_encode ns) + length rest \<le> length bs" for bs ns rest
    unfolding namespace_decode_def by (rule decode_rules_shortest)
qed

lemma moqt_namespace_encode:
  assumes "validate_moqt ns = Inr ()"
  shows "namespace_decode_moqt p (namespace_encode_moqt p ns @ rest) = Inr (ns, rest)"
proof -
  have short: "length f \<le> MAX_FULL_TRACK_NAME_LENGTH" if "f \<in> set (ns_fields ns)" for f
    using assms that member_le_sum_list [of "length f" "map length (ns_fields ns)"]
    by (fastforce simp: validate_moqt_def validate_ok for_draft_def field_bytes_len_def)
  then have "decode_fields_with (decode_moqt p) (for_draft 17) (length (ns_fields ns)) 0
      (fields_bytes (encode_moqt p) (ns_fields ns) @ rest) = Inr (ns_fields ns, rest)"
    using assms by (intro moqt.fields_decode_encode)
      (fastforce simp: validate_moqt_def validate_ok field_bytes_len_def
        MAX_FULL_TRACK_NAME_LENGTH_def)+
  then show ?thesis
    using assms by (simp add: namespace_decode_moqt_def decode_allow_empty_moqt_def
        namespace_encode_moqt_def decode_elements_moqt_def decode_elements_moqt_with
        fields_bytes_def validate_moqt_def validate_ok Let_def MAX_NAMESPACE_TUPLE_SIZE_def)
qed

lemma moqt_namespace_wf:
  "namespace_decode_moqt p bs = Inr (ns, rest) \<Longrightarrow> validate_moqt ns = Inr ()"
  by (auto simp: namespace_decode_moqt_def decode_allow_empty_moqt_def decode_elements_moqt_def
      decode_elements_moqt_with result_inversion Let_def validate_moqt_def validate_ok
      field_bytes_len_def for_draft_def MAX_FULL_TRACK_NAME_LENGTH_def
      split: if_splits dest!: moqt.fields_decode_shape)

lemma moqt_namespace_consumes:
  "namespace_decode_moqt p bs = Inr (ns, rest) \<Longrightarrow> \<exists>used. used \<noteq> [] \<and> bs = used @ rest"
  by (auto simp: namespace_decode_moqt_def decode_allow_empty_moqt_def decode_elements_moqt_def
      decode_elements_moqt_with result_inversion Let_def
      split: if_splits dest!: moqt.fields_decode_shape moqt.vi_consumes)

interpretation moqt_namespace: sound_codec "namespace_encode_moqt p" "namespace_decode_moqt p"
    "\<lambda>ns. validate_moqt ns = Inr ()"
  by unfold_locales
    (rule moqt_namespace_encode moqt_namespace_wf, assumption | erule moqt_namespace_consumes)+

definition wf_location :: "location \<Rightarrow> bool" where
  "wf_location l \<longleftrightarrow> wf_varint (loc_group l) \<and> wf_varint (loc_object l)"

lemma location_decode_consumes:
  "location_decode bs = Inr (l, rest) \<Longrightarrow> \<exists>used. used \<noteq> [] \<and> bs = used @ rest"
  unfolding location_decode_def by (erule eats1D [rotated]) (intro eats_intros)

lemma location_decode_wf: "location_decode bs = Inr (l, rest) \<Longrightarrow> wf_location l"
  by (auto simp: location_decode_def wf_location_def result_inversion dest: quic.vi_wf)

lemma location_decode_moqt_consumes:
  "location_decode_moqt p bs = Inr (l, rest) \<Longrightarrow> \<exists>used. used \<noteq> [] \<and> bs = used @ rest"
  unfolding location_decode_moqt_def by (erule eats1D [rotated]) (intro eats_intros)

lemma location_decode_shortest:
  "location_decode bs = Inr (l, rest) \<Longrightarrow> length (location_encode l) + length rest \<le> length bs"
  unfolding location_decode_def location_encode_def result_inversion
  by (elim exE conjE) (auto dest!: vi_codec.decode_shortest)

interpretation location: shortest_codec location_encode location_decode wf_location
  by unfold_locales
    (simp add: location_encode_def location_decode_def wf_location_def,
     erule location_decode_consumes, erule location_decode_wf, erule location_decode_shortest)

interpretation moqt_location: sound_codec "location_encode_moqt p" "location_decode_moqt p"
    "\<lambda>_. True"
  by unfold_locales
    (simp add: location_encode_moqt_def location_decode_moqt_def,
     erule location_decode_moqt_consumes, simp)

section \<open>Code points\<close>

interpretation os14: code_points os14_as_u8 os14_from_u8
proof
  show "os14_from_u8 v = Some s \<longleftrightarrow> v = os14_as_u8 s" for v s
    by (cases s) (auto simp: os14_from_u8_def split: if_splits)
qed

interpretation group_order: code_points group_order_as_u8 group_order_from_u8
proof
  show "group_order_from_u8 v = Some g \<longleftrightarrow> v = group_order_as_u8 g" for v g
    by (cases g) (auto simp: group_order_from_u8_def split: if_splits)
qed

interpretation filter_type: code_points "\<lambda>f. ucast (filter_type_as_u8 f)" filter_type_from_u64
proof
  show "filter_type_from_u64 v = Some f \<longleftrightarrow> v = ucast (filter_type_as_u8 f)" for v f
    by (cases f) (auto simp: filter_type_from_u64_def split: if_splits)
qed

lemma ucast_u64_eq [simp]: "(ucast (v :: u8) :: u64) = ucast w \<longleftrightarrow> v = w"
proof -
  have "(ucast (ucast b :: u64) :: u8) = b" for b :: u8
    by (rule bit_word_eqI) (simp add: bit_simps)
  then show ?thesis
    by metis
qed

lemma filter_type_from_u8_iff: "filter_type_from_u8 v = Some f \<longleftrightarrow> v = filter_type_as_u8 f"
  by (simp add: filter_type_from_u8_def filter_type.from_wire_iff)

end
