(* ===== verification/Kvp.thy ===== *)
theory Kvp
  imports Wire_Types
begin

text \<open>
  \<open>kvp.rs\<close>: Key-Value-Pairs in the two formats the drafts have. From draft-08 on the parity of the
  key decides between a varint and length-prefixed bytes; draft-07 length-prefixes every value and
  leaves its interpretation to the parameter.
\<close>

definition read_bytes_kvp :: "bytes \<Rightarrow> nat \<Rightarrow> kvp_error + bytes \<times> bytes" where
  "read_bytes_kvp bs len =
     (if length bs < len then Inl KvpUnexpectedEnd else Inr (take len bs, drop len bs))"

definition MAX_KVP_VALUE_LEN :: nat where
  "MAX_KVP_VALUE_LEN = 65535"

datatype kvp_value = KvpVarint varint | KvpBytes bytes

datatype key_value_pair = KeyValuePair (kvp_key: varint) (kvp_value: kvp_value)

definition kvp_encode :: "key_value_pair \<Rightarrow> bytes" where
  "kvp_encode p =
     varint_encode (kvp_key p)
     @ (case kvp_value p of
          KvpVarint v \<Rightarrow> varint_encode v
        | KvpBytes b \<Rightarrow> varint_encode (from_usize (length b)) @ b)"

definition kvp_decode :: "bytes \<Rightarrow> kvp_error + key_value_pair \<times> bytes" where
  "kvp_decode bs =
     rd (map_err KvpVarInt (varint_decode bs)) (\<lambda>key bs.
       if even (unat (into_inner key)) then
         rd (map_err KvpVarInt (varint_decode bs)) (\<lambda>v bs.
         Inr (KeyValuePair key (KvpVarint v), bs))
       else
         rd (map_err KvpVarInt (varint_decode bs)) (\<lambda>x bs.
           let len = usize x in
           if len > MAX_KVP_VALUE_LEN then Inl (KvpValueTooLong len)
           else rd (read_bytes_kvp bs len) (\<lambda>b bs. Inr (KeyValuePair key (KvpBytes b), bs))))"

definition check_value_len :: "key_value_pair \<Rightarrow> kvp_error + unit" where
  "check_value_len p =
     (case kvp_value p of
        KvpBytes b \<Rightarrow>
          if length b > MAX_KVP_VALUE_LEN then Inl (KvpValueTooLong (length b)) else Inr ()
      | KvpVarint v \<Rightarrow> Inr ())"

definition kvp_encode_list :: "key_value_pair list \<Rightarrow> bytes" where
  "kvp_encode_list pairs =
     varint_encode (from_usize (length pairs)) @ concat (map kvp_encode pairs)"

text \<open>\<open>for pair in pairs { f(pair)?; }\<close>\<close>

fun check_each :: "('a \<Rightarrow> 'e + unit) \<Rightarrow> 'a list \<Rightarrow> 'e + unit" where
  "check_each f [] = Inr ()"
| "check_each f (x # xs) = and_then (f x) (\<lambda>_. check_each f xs)"

definition kvp_encode_list_checked :: "key_value_pair list \<Rightarrow> kvp_error + bytes" where
  "kvp_encode_list_checked pairs =
     and_then (check_each check_value_len pairs) (\<lambda>_. Inr (kvp_encode_list pairs))"

definition kvp_decode_list :: "bytes \<Rightarrow> kvp_error + key_value_pair list \<times> bytes" where
  "kvp_decode_list bs =
     rd (map_err KvpVarInt (varint_decode bs)) (\<lambda>count bs. decode_n kvp_decode (usize count) bs)"

definition kvp_decode_d07 :: "bytes \<Rightarrow> kvp_error + key_value_pair \<times> bytes" where
  "kvp_decode_d07 bs =
     rd (map_err KvpVarInt (varint_decode bs)) (\<lambda>key bs.
     rd (map_err KvpVarInt (varint_decode bs)) (\<lambda>len bs.
     rd (read_bytes_kvp bs (usize len)) (\<lambda>b bs.
     Inr (KeyValuePair key (KvpBytes b), bs))))"

definition kvp_encode_d07 :: "key_value_pair \<Rightarrow> bytes" where
  "kvp_encode_d07 p =
     varint_encode (kvp_key p)
     @ (case kvp_value p of
          KvpVarint v \<Rightarrow> varint_encode (from_usize (encoded_len v)) @ varint_encode v
        | KvpBytes b \<Rightarrow> varint_encode (from_usize (length b)) @ b)"

definition kvp_decode_list_d07 :: "bytes \<Rightarrow> kvp_error + key_value_pair list \<times> bytes" where
  "kvp_decode_list_d07 bs =
     rd (map_err KvpVarInt (varint_decode bs)) (\<lambda>count bs. decode_n kvp_decode_d07 (usize count) bs)"

definition kvp_encode_list_d07 :: "key_value_pair list \<Rightarrow> bytes" where
  "kvp_encode_list_d07 pairs =
     varint_encode (from_usize (length pairs)) @ concat (map kvp_encode_d07 pairs)"

section \<open>Which pairs a format can carry\<close>

text \<open>\<open>fits\<close>: the value has the shape its key calls for and its integers are in range. \<open>wf_kvp\<close>
  adds the length cap, \<open>wf_kvp_d07\<close> is draft-07's own.\<close>

definition fits :: "key_value_pair \<Rightarrow> bool" where
  "fits p \<longleftrightarrow> wf_varint (kvp_key p) \<and>
     (case kvp_value p of
        KvpVarint v \<Rightarrow> even (unat (into_inner (kvp_key p))) \<and> wf_varint v
      | KvpBytes b \<Rightarrow> odd (unat (into_inner (kvp_key p))) \<and> length b < 2 ^ 62)"

definition wf_kvp :: "key_value_pair \<Rightarrow> bool" where
  "wf_kvp p \<longleftrightarrow> fits p \<and> check_value_len p = Inr ()"

definition wf_kvp_d07 :: "key_value_pair \<Rightarrow> bool" where
  "wf_kvp_d07 p \<longleftrightarrow> wf_varint (kvp_key p) \<and>
     (case kvp_value p of KvpVarint v \<Rightarrow> False | KvpBytes b \<Rightarrow> length b < 2 ^ 62)"

lemma kvp_varint_encode [simp]:
  "wf_varint x \<Longrightarrow> map_err KvpVarInt (varint_decode (varint_encode x @ rest)) = Inr (x, rest)"
  by (simp add: varint.decode_encode)

lemma eats1_kvp_varint [eats_intros]: "eats1 (map_err f (varint_decode bs)) bs"
  by (auto simp: eats1_def dest: varint_decode_consumes)

lemma eats_kvp_varint [eats_intros]: "eats (map_err f (varint_decode bs)) bs"
  by (rule eats1_eats) (rule eats_intros)

lemma eats_read_bytes_kvp [eats_intros]: "eats (read_bytes_kvp bs n) bs"
  by (auto simp: eats_def read_bytes_kvp_def intro: exI [of _ "take n bs"])

lemma read_bytes_kvp_append [simp]: "n = length f \<Longrightarrow> read_bytes_kvp (f @ rest) n = Inr (f, rest)"
  by (simp add: read_bytes_kvp_def)

lemma read_bytes_kvp_Inr:
  "read_bytes_kvp bs n = Inr (f, rest) \<longleftrightarrow> length f = n \<and> bs = f @ rest"
  by (auto simp: read_bytes_kvp_def)

text \<open>The decoder's answer on an encoded pair is the checked encoder's.\<close>

lemma kvp_decode_encode_checked:
  "fits p \<Longrightarrow> kvp_decode (kvp_encode p @ rest)
     = (case check_value_len p of Inl e \<Rightarrow> Inl e | Inr _ \<Rightarrow> Inr (p, rest))"
  by (cases p) (auto simp: fits_def kvp_decode_def kvp_encode_def check_value_len_def Let_def
      MAX_KVP_VALUE_LEN_def split: kvp_value.splits)

interpretation kvp: sound_codec kvp_encode kvp_decode wf_kvp
proof
  show "wf_kvp p \<Longrightarrow> kvp_decode (kvp_encode p @ rest) = Inr (p, rest)" for p rest
    by (simp add: wf_kvp_def kvp_decode_encode_checked)
  show "\<exists>used. used \<noteq> [] \<and> bs = used @ rest" if "kvp_decode bs = Inr (p, rest)" for bs p rest
    by (rule eats1D [OF _ that]) (unfold kvp_decode_def, intro eats_intros)
  show "wf_kvp p" if "kvp_decode bs = Inr (p, rest)" for bs p rest
    using that by (auto simp: kvp_decode_def result_inversion Let_def wf_kvp_def fits_def
        check_value_len_def read_bytes_kvp_Inr MAX_KVP_VALUE_LEN_def split: if_splits
        dest: varint_decode_wf)
qed

interpretation kvp_d07: shortest_codec kvp_encode_d07 kvp_decode_d07 wf_kvp_d07
proof
  show "wf_kvp_d07 p \<Longrightarrow> kvp_decode_d07 (kvp_encode_d07 p @ rest) = Inr (p, rest)" for p rest
    by (cases p) (auto simp: wf_kvp_d07_def kvp_decode_d07_def kvp_encode_d07_def
        split: kvp_value.splits)
  show "\<exists>used. used \<noteq> [] \<and> bs = used @ rest" if "kvp_decode_d07 bs = Inr (p, rest)" for bs p rest
    by (rule eats1D [OF _ that]) (unfold kvp_decode_d07_def, intro eats_intros)
  show "wf_kvp_d07 p" if "kvp_decode_d07 bs = Inr (p, rest)" for bs p rest
    using that by (auto simp: kvp_decode_d07_def result_inversion wf_kvp_d07_def
        read_bytes_kvp_Inr dest: varint_decode_wf varint_decode_usize)
  show "length (kvp_encode_d07 p) + length rest \<le> length bs" if "kvp_decode_d07 bs = Inr (p, rest)"
    for bs p rest
    using that by (auto simp: kvp_decode_d07_def result_inversion kvp_encode_d07_def
        read_bytes_kvp_Inr length_varint_encode dest!: varint_shortest)
qed

section \<open>Lists of pairs\<close>

lemma kvp_list_checked:
  assumes "\<forall>p \<in> set ps. fits p"
  shows "decode_n kvp_decode (length ps) (concat (map kvp_encode ps) @ rest)
    = (case check_each check_value_len ps of Inl e \<Rightarrow> Inl e | Inr _ \<Rightarrow> Inr (ps, rest))"
  using assms
  by (induction ps) (auto simp: kvp_decode_encode_checked split: sum.splits)

definition wf_kvp_list_d07 :: "key_value_pair list \<Rightarrow> bool" where
  "wf_kvp_list_d07 ps \<longleftrightarrow> length ps < 2 ^ 62 \<and> list_all wf_kvp_d07 ps"

interpretation kvp_list_d07: shortest_codec kvp_encode_list_d07 kvp_decode_list_d07 wf_kvp_list_d07
proof
  show "wf_kvp_list_d07 ps \<Longrightarrow> kvp_decode_list_d07 (kvp_encode_list_d07 ps @ rest) = Inr (ps, rest)"
    for ps rest
    by (simp add: wf_kvp_list_d07_def kvp_decode_list_d07_def kvp_encode_list_d07_def
        kvp_d07.list_decode_encode list_all_iff)
  show "\<exists>used. used \<noteq> [] \<and> bs = used @ rest" if "kvp_decode_list_d07 bs = Inr (p, rest)"
    for bs p rest
    by (rule eats1D [OF _ that])
      (unfold kvp_decode_list_d07_def, intro eats_intros kvp_d07.decode_eats)
  show "wf_kvp_list_d07 p" if "kvp_decode_list_d07 bs = Inr (p, rest)" for bs p rest
    using that unfolding kvp_decode_list_d07_def rd_eq_Inr map_err_eq_Inr
    by (metis wf_kvp_list_d07_def list_all_iff decode_n_length varint_decode_usize
        kvp_d07.list_decode_wf)
  show "length (kvp_encode_list_d07 ps) + length rest \<le> length bs"
    if dec: "kvp_decode_list_d07 bs = Inr (ps, rest)" for bs ps rest
  proof -
    from dec obtain n mid where hd: "varint_decode bs = Inr (n, mid)"
        and ps: "decode_n kvp_decode_d07 (usize n) mid = Inr (ps, rest)"
      by (auto simp: kvp_decode_list_d07_def result_inversion)
    then show ?thesis
      using varint_shortest [OF hd] kvp_d07.list_decode_shortest [OF ps] decode_n_length [OF ps]
      by (simp add: kvp_encode_list_d07_def length_varint_encode)
  qed
qed

text \<open>\<open>normalise_d07\<close> is what a draft-07 peer reads: a varint value arrives as its bytes.\<close>

definition normalise_d07 :: "key_value_pair \<Rightarrow> key_value_pair" where
  "normalise_d07 p =
     (case kvp_value p of
        KvpVarint v \<Rightarrow> KeyValuePair (kvp_key p) (KvpBytes (varint_encode v))
      | KvpBytes b \<Rightarrow> p)"

lemma kvp_encode_d07_normalise: "kvp_encode_d07 (normalise_d07 p) = kvp_encode_d07 p"
  by (auto simp: kvp_encode_d07_def normalise_d07_def length_varint_encode split: kvp_value.splits)

end
