(* ===== verification/Auth_Token.thy ===== *)
theory Auth_Token
  imports Kvp
begin

text \<open>
  \<open>auth_token.rs\<close>: the value of an Authorization Token parameter, a structure inside a parameter's
  bytes whose Alias Type says which of its other fields are there. The bytes end where the value
  ends, so the decoder reads to the end and anything left over is an error.
\<close>

definition AUTH_TOKEN_PARAMETER :: u64 where
  "AUTH_TOKEN_PARAMETER = 0x03"

definition AUTH_TOKEN_PARAMETER_D11 :: u64 where
  "AUTH_TOKEN_PARAMETER_D11 = 0x01"

datatype token_alias_type = TatDelete | TatRegister | TatUseAlias | TatUseValue

definition tat_from_id :: "u64 \<Rightarrow> token_alias_type option" where
  "tat_from_id i =
     (if i = 0x0 then Some TatDelete
      else if i = 0x1 then Some TatRegister
      else if i = 0x2 then Some TatUseAlias
      else if i = 0x3 then Some TatUseValue
      else None)"

fun tat_id :: "token_alias_type \<Rightarrow> u64" where
  "tat_id TatDelete = 0x0"
| "tat_id TatRegister = 0x1"
| "tat_id TatUseAlias = 0x2"
| "tat_id TatUseValue = 0x3"

definition has_alias :: "token_alias_type \<Rightarrow> bool" where
  "has_alias t \<longleftrightarrow> t \<noteq> TatUseValue"

definition has_type_and_value :: "token_alias_type \<Rightarrow> bool" where
  "has_type_and_value t \<longleftrightarrow> t = TatRegister \<or> t = TatUseValue"

record authorization_token =
  at_alias_type :: token_alias_type
  at_alias :: "u64 option"
  at_token_type :: "u64 option"
  at_value :: bytes

definition malformed :: "u64 \<Rightarrow> string \<Rightarrow> codec_error" where
  "malformed key detail = KeyValueFormatting key detail"

definition token_decode_with ::
  "u64 \<Rightarrow> bytes \<Rightarrow> (bytes \<Rightarrow> varint_error + varint \<times> bytes) \<Rightarrow> codec_error + authorization_token" where
  "token_decode_with key bs read =
     and_then (map_err (\<lambda>_. malformed key ''it carries no Alias Type'') (read bs)) (\<lambda>(raw, bs).
     and_then (ok_or (tat_from_id (into_inner raw))
                 (malformed key ''its Alias Type is not one this draft assigns'')) (\<lambda>alias_type.
     and_then (if has_alias alias_type then
                 and_then (map_err (\<lambda>_. malformed key
                     ''its Alias Type promises a Token Alias and the value ends first'') (read bs))
                   (\<lambda>(a, bs). Inr (Some (into_inner a), bs))
               else Inr (None, bs)) (\<lambda>(alias, bs).
     and_then (if has_type_and_value alias_type then
                 and_then (map_err (\<lambda>_. malformed key
                     ''its Alias Type promises a Token Type and the value ends first'') (read bs))
                   (\<lambda>(t, bs). Inr (Some (into_inner t), bs))
               else if bs \<noteq> [] then
                 Inl (malformed key
                   ''its Alias Type promises no Token Value and bytes follow the Token Alias'')
               else Inr (None, [])) (\<lambda>(token_type, val).
     Inr \<lparr> at_alias_type = alias_type, at_alias = alias, at_token_type = token_type,
           at_value = val \<rparr>))))"

definition token_decode :: "u64 \<Rightarrow> bytes \<Rightarrow> codec_error + authorization_token" where
  "token_decode key bs = token_decode_with key bs varint_decode"

definition token_decode_moqt ::
  "moqt_profile \<Rightarrow> u64 \<Rightarrow> bytes \<Rightarrow> codec_error + authorization_token" where
  "token_decode_moqt p key bs = token_decode_with key bs (decode_moqt p)"

definition unwrap_or :: "'a option \<Rightarrow> 'a \<Rightarrow> 'a" where
  "unwrap_or x d = (case x of Some a \<Rightarrow> a | None \<Rightarrow> d)"

definition write_u64 :: "u64 \<Rightarrow> codec_error + bytes" where
  "write_u64 v = and_then (map_err CodecVarInt (from_u64 v)) (\<lambda>x. Inr (varint_encode x))"

definition token_encode :: "authorization_token \<Rightarrow> codec_error + bytes" where
  "token_encode t =
     and_then (write_u64 (tat_id (at_alias_type t))) (\<lambda>out.
     and_then (if has_alias (at_alias_type t)
               then and_then (write_u64 (unwrap_or (at_alias t) 0)) (\<lambda>b. Inr (out @ b))
               else Inr out) (\<lambda>out.
     if has_type_and_value (at_alias_type t)
     then and_then (write_u64 (unwrap_or (at_token_type t) 0)) (\<lambda>b. Inr (out @ b @ at_value t))
     else Inr out))"

definition token_encode_moqt :: "moqt_profile \<Rightarrow> authorization_token \<Rightarrow> bytes" where
  "token_encode_moqt p t =
     encode_moqt p (from_u64_moqt (tat_id (at_alias_type t)))
     @ (if has_alias (at_alias_type t)
        then encode_moqt p (from_u64_moqt (unwrap_or (at_alias t) 0)) else [])
     @ (if has_type_and_value (at_alias_type t)
        then encode_moqt p (from_u64_moqt (unwrap_or (at_token_type t) 0)) @ at_value t else [])"

section \<open>Round trip\<close>

text \<open>\<open>canonical_token\<close> is what a token's encoding stands for: the fields its Alias Type has, an
  absent one read as 0, and nothing in the others.\<close>

definition canonical_token :: "authorization_token \<Rightarrow> authorization_token" where
  "canonical_token t =
     \<lparr> at_alias_type = at_alias_type t,
       at_alias = (if has_alias (at_alias_type t) then Some (unwrap_or (at_alias t) 0) else None),
       at_token_type = (if has_type_and_value (at_alias_type t)
         then Some (unwrap_or (at_token_type t) 0) else None),
       at_value = (if has_type_and_value (at_alias_type t) then at_value t else []) \<rparr>"

interpretation tat: code_points tat_id tat_from_id
proof
  show "tat_from_id i = Some t \<longleftrightarrow> i = tat_id t" for i t
    by (cases t) (auto simp: tat_from_id_def split: if_splits)
qed

lemma write_u64_Inr: "write_u64 v = Inr b \<longleftrightarrow> v \<le> MAX_VARINT \<and> b = varint_encode (VarInt v)"
  by (auto simp: write_u64_def from_u64_def result_inversion split: if_splits)

definition token_bytes :: "(varint \<Rightarrow> bytes) \<Rightarrow> authorization_token \<Rightarrow> bytes" where
  "token_bytes venc t =
     venc (VarInt (tat_id (at_alias_type t)))
     @ (if has_alias (at_alias_type t) then venc (VarInt (unwrap_or (at_alias t) 0)) else [])
     @ (if has_type_and_value (at_alias_type t)
        then venc (VarInt (unwrap_or (at_token_type t) 0)) @ at_value t else [])"

lemma token_encode_bytes:
  "token_encode t = Inr b \<Longrightarrow> b = token_bytes varint_encode t
     \<and> (has_alias (at_alias_type t) \<longrightarrow> unwrap_or (at_alias t) 0 \<le> MAX_VARINT)
     \<and> (has_type_and_value (at_alias_type t) \<longrightarrow> unwrap_or (at_token_type t) 0 \<le> MAX_VARINT)"
  by (auto simp: token_encode_def token_bytes_def result_inversion write_u64_Inr split: if_splits)

lemma token_encode_moqt_bytes: "token_encode_moqt p t = token_bytes (encode_moqt p) t"
  by (simp add: token_encode_moqt_def token_bytes_def from_u64_moqt_def)

lemma wf_tat_id: "wf_varint (VarInt (tat_id t))"
  by (cases t) (simp_all add: wf_varint_def MAX_VARINT_def)

context varint_codec
begin

lemma token_roundtrip:
  assumes "has_alias (at_alias_type t) \<Longrightarrow> vwf (VarInt (unwrap_or (at_alias t) 0))"
    and "has_type_and_value (at_alias_type t) \<Longrightarrow> vwf (VarInt (unwrap_or (at_token_type t) 0))"
  shows "token_decode_with key (token_bytes venc t) vdec = Inr (canonical_token t)"
  using assms wf_tat_id [THEN writes_small]
  by (auto simp: token_decode_with_def token_bytes_def canonical_token_def decode_encode
      decode_encode_end)

end

lemma token_encode_decodes:
  "token_encode t = Inr b \<Longrightarrow> token_decode key b = Inr (canonical_token t)"
  by (drule token_encode_bytes) (simp add: token_decode_def quic.token_roundtrip wf_varint_def)

lemma token_encode_moqt_decodes:
  "token_decode_moqt p key (token_encode_moqt p t) = Inr (canonical_token t)"
  by (simp add: token_decode_moqt_def token_encode_moqt_bytes moqt.token_roundtrip)

text \<open>Every token a reader accepts is canonical, so it is exactly what its encoding reads back as.\<close>

lemma token_decode_canonical:
  "token_decode_with key bs read = Inr t \<Longrightarrow> canonical_token t = t"
  by (auto simp: token_decode_with_def canonical_token_def result_inversion unwrap_or_def
      split: if_splits prod.splits)

text \<open>The only error of the token decoder is the formatting error of its own parameter.\<close>

lemma token_decode_error:
  "token_decode_with key bs read = Inl e \<Longrightarrow> \<exists>d. e = KeyValueFormatting key d"
  by (auto simp: token_decode_with_def malformed_def and_then_eq_Inl split: if_splits prod.splits)

end
