(* ===== verification/Subscription_Filter.thy ===== *)
theory Subscription_Filter
  imports Auth_Token
begin

text \<open>
  \<open>subscription_filter.rs\<close>: the filter drafts 15 to 19 carry inside a parameter. The End Group is
  written in full by the drafts with the QUIC integer and as a delta by the later ones; the two are
  different constructors, and each writer refuses the other's.
\<close>

definition SUBSCRIPTION_FILTER_PARAMETER :: u64 where
  "SUBSCRIPTION_FILTER_PARAMETER = 0x21"

datatype filter_end = FeGroup u64 | FeGroupDelta u64

record subscription_filter =
  sf_filter_type :: filter_type
  sf_start_location :: "location option"
  sf_end_group :: "filter_end option"

definition sf_malformed :: "string \<Rightarrow> codec_error" where
  "sf_malformed detail = SubscriptionFilterMalformed detail"

definition wants_start :: "filter_type \<Rightarrow> bool" where
  "wants_start t \<longleftrightarrow> t = AbsoluteStart \<or> t = AbsoluteRange"

definition wants_end :: "filter_type \<Rightarrow> bool" where
  "wants_end t \<longleftrightarrow> t = AbsoluteRange"

fun ran_out :: "varint_error \<Rightarrow> string \<Rightarrow> codec_error" where
  "ran_out VarIntUnexpectedEnd detail = sf_malformed detail"
| "ran_out other detail = CodecVarInt other"

definition sf_decode_with ::
  "bytes \<Rightarrow> (u64 \<Rightarrow> filter_end) \<Rightarrow> (bytes \<Rightarrow> varint_error + varint \<times> bytes)
     \<Rightarrow> codec_error + subscription_filter" where
  "sf_decode_with bs mk_end read =
     and_then (map_err (\<lambda>e. ran_out e ''it carries no Filter Type'') (read bs)) (\<lambda>(raw, bs).
     and_then (ok_or (filter_type_from_u64 (into_inner raw))
                 (InvalidFilterType (into_inner raw))) (\<lambda>filter_type.
     and_then (if wants_start filter_type then
                 and_then (map_err (\<lambda>e. ran_out e
                   ''its Filter Type promises a Start Location and the value ends first'')
                   (read bs)) (\<lambda>(g, bs).
                 and_then (map_err (\<lambda>e. ran_out e
                   ''its Filter Type promises a Start Location and the value ends first'')
                   (read bs)) (\<lambda>(ob, bs).
                 Inr (Some \<lparr> loc_group = g, loc_object = ob \<rparr>, bs)))
               else Inr (None, bs)) (\<lambda>(start_location, bs).
     and_then (if wants_end filter_type then
                 and_then (map_err (\<lambda>e. ran_out e
                   ''its Filter Type promises an End Group and the value ends first'')
                   (read bs)) (\<lambda>(v, bs). Inr (Some (mk_end (into_inner v)), bs))
               else Inr (None, bs)) (\<lambda>(end_group, bs).
     if bs \<noteq> [] then Inl (sf_malformed ''bytes follow the filter inside the parameter'')
     else Inr \<lparr> sf_filter_type = filter_type, sf_start_location = start_location,
                sf_end_group = end_group \<rparr>))))"

definition sf_decode :: "bytes \<Rightarrow> codec_error + subscription_filter" where
  "sf_decode bs = sf_decode_with bs FeGroup varint_decode"

definition sf_decode_moqt :: "moqt_profile \<Rightarrow> bytes \<Rightarrow> codec_error + subscription_filter" where
  "sf_decode_moqt p bs = sf_decode_with bs FeGroupDelta (decode_moqt p)"

definition sf_checks :: "subscription_filter \<Rightarrow> bool \<Rightarrow> codec_error + unit" where
  "sf_checks f end_is_delta =
     (if wants_start (sf_filter_type f) \<and> sf_start_location f = None then
        Inl (sf_malformed ''its Filter Type promises a Start Location and none is set'')
      else if \<not> wants_start (sf_filter_type f) \<and> sf_start_location f \<noteq> None then
        Inl (sf_malformed ''its Filter Type promises no Start Location and one is set'')
      else if wants_end (sf_filter_type f) \<and> sf_end_group f = None then
        Inl (sf_malformed ''its Filter Type promises an End Group and none is set'')
      else if \<not> wants_end (sf_filter_type f) \<and> sf_end_group f \<noteq> None then
        Inl (sf_malformed ''its Filter Type promises no End Group and one is set'')
      else (case sf_end_group f of
              Some (FeGroupDelta v) \<Rightarrow>
                if \<not> end_is_delta then Inl (sf_malformed
                  ''its End Group is a delta where this draft writes the group in full'')
                else Inr ()
            | Some (FeGroup v) \<Rightarrow>
                if end_is_delta then Inl (sf_malformed
                  ''its End Group is written in full where this draft writes a delta'')
                else Inr ()
            | None \<Rightarrow> Inr ()))"

fun end_value :: "filter_end \<Rightarrow> u64" where
  "end_value (FeGroup v) = v"
| "end_value (FeGroupDelta v) = v"

definition sf_encode_with ::
  "subscription_filter \<Rightarrow> bool \<Rightarrow> (u64 \<Rightarrow> codec_error + bytes) \<Rightarrow> codec_error + bytes" where
  "sf_encode_with f end_is_delta write =
     and_then (sf_checks f end_is_delta) (\<lambda>_.
     and_then (write (ucast (filter_type_as_u8 (sf_filter_type f)))) (\<lambda>out.
     and_then (case sf_start_location f of
                 Some start \<Rightarrow>
                   and_then (write (into_inner (loc_group start))) (\<lambda>g.
                   and_then (write (into_inner (loc_object start))) (\<lambda>ob.
                   Inr (out @ g @ ob)))
               | None \<Rightarrow> Inr out) (\<lambda>out.
     case sf_end_group f of
       Some e \<Rightarrow> and_then (write (end_value e)) (\<lambda>v. Inr (out @ v))
     | None \<Rightarrow> Inr out)))"

definition sf_encode :: "subscription_filter \<Rightarrow> codec_error + bytes" where
  "sf_encode f = sf_encode_with f False
     (\<lambda>v. and_then (map_err CodecVarInt (from_u64 v)) (\<lambda>x. Inr (varint_encode x)))"

definition sf_encode_moqt :: "moqt_profile \<Rightarrow> subscription_filter \<Rightarrow> codec_error + bytes" where
  "sf_encode_moqt p f = sf_encode_with f True (\<lambda>v. Inr (encode_moqt p (from_u64_moqt v)))"

definition sf_parameter :: "subscription_filter \<Rightarrow> codec_error + key_value_pair" where
  "sf_parameter f = and_then (sf_encode f) (\<lambda>b.
     Inr (KeyValuePair (from_u64_moqt SUBSCRIPTION_FILTER_PARAMETER) (KvpBytes b)))"

definition sf_parameter_moqt ::
  "moqt_profile \<Rightarrow> subscription_filter \<Rightarrow> codec_error + key_value_pair" where
  "sf_parameter_moqt p f = and_then (sf_encode_moqt p f) (\<lambda>b.
     Inr (KeyValuePair (from_u64_moqt SUBSCRIPTION_FILTER_PARAMETER) (KvpBytes b)))"

definition from_parameters_with ::
  "key_value_pair list \<Rightarrow> (bytes \<Rightarrow> codec_error + subscription_filter)
     \<Rightarrow> (codec_error + subscription_filter) option" where
  "from_parameters_with parameters dec =
     (case find (\<lambda>p. into_inner (kvp_key p) = SUBSCRIPTION_FILTER_PARAMETER) parameters of
        None \<Rightarrow> None
      | Some p \<Rightarrow>
          (case kvp_value p of
             KvpBytes b \<Rightarrow> Some (dec b)
           | KvpVarint v \<Rightarrow> Some (Inl (sf_malformed
               ''its value is a bare varint where the type defines a filter''))))"

definition from_parameters ::
  "key_value_pair list \<Rightarrow> (codec_error + subscription_filter) option" where
  "from_parameters parameters = from_parameters_with parameters sf_decode"

definition from_parameters_moqt ::
  "moqt_profile \<Rightarrow> key_value_pair list \<Rightarrow> (codec_error + subscription_filter) option" where
  "from_parameters_moqt p parameters = from_parameters_with parameters (sf_decode_moqt p)"

definition checked_add :: "u64 \<Rightarrow> u64 \<Rightarrow> u64 option" where
  "checked_add a b = (if unat a + unat b < 2 ^ 64 then Some (a + b) else None)"

lemma checked_add_code [code]: "checked_add a b = (if a \<le> a + b then Some (a + b) else None)"
  using no_olen_add_nat [of a b] by (simp add: checked_add_def)

definition last_group :: "subscription_filter \<Rightarrow> codec_error + u64 option" where
  "last_group f =
     (case sf_end_group f of
        None \<Rightarrow> Inr None
      | Some (FeGroup g) \<Rightarrow> Inr (Some g)
      | Some (FeGroupDelta delta) \<Rightarrow>
          (let start_group = (case sf_start_location f of
                                Some l \<Rightarrow> into_inner (loc_group l) | None \<Rightarrow> 0)
           in case checked_add start_group delta of
                Some g \<Rightarrow> Inr (Some g)
              | None \<Rightarrow> Inl (FilterEndGroupOverflow start_group delta)))"

section \<open>The writer and the reader agree\<close>

lemma checked_add_Some: "checked_add a b = Some c \<longleftrightarrow> unat a + unat b = unat c"
proof -
  have "unat (a + b) = unat a + unat b" if "unat a + unat b < 2 ^ 64"
    using that by (simp add: unat_word_ariths)
  moreover have "unat c < 2 ^ 64"
    using unsigned_less [of c, where ?'a = nat] by simp
  ultimately show ?thesis
    by (auto simp: checked_add_def word_unat_eq_iff)
qed

lemma filter_type_small: "wf_varint (VarInt (ucast (filter_type_as_u8 t)))"
  by (cases t) (simp_all add: wf_varint_def MAX_VARINT_def)

lemma sf_checks_ok:
  "sf_checks f d = Inr () \<longleftrightarrow>
     (wants_start (sf_filter_type f) \<longleftrightarrow> sf_start_location f \<noteq> None)
     \<and> (wants_end (sf_filter_type f) \<longleftrightarrow> sf_end_group f \<noteq> None)
     \<and> (\<forall>e. sf_end_group f = Some e \<longrightarrow> e = (if d then FeGroupDelta else FeGroup) (end_value e))"
  by (auto simp: sf_checks_def split: option.splits filter_end.splits)

context varint_codec
begin

lemma sf_roundtrip:
  assumes enc: "sf_encode_with f d write = Inr b"
    and wr: "\<And>v b. write v = Inr b \<Longrightarrow> vwf (VarInt v) \<and> b = venc (VarInt v)"
  shows "sf_decode_with b (if d then FeGroupDelta else FeGroup) vdec = Inr f"
proof -
  have "sf_checks f d = Inr ()"
    using enc by (auto simp: sf_encode_with_def result_inversion)
  then have "wants_start (sf_filter_type f) = (sf_start_location f \<noteq> None)"
    "wants_end (sf_filter_type f) = (sf_end_group f \<noteq> None)"
    "\<forall>e. sf_end_group f = Some e \<longrightarrow> (if d then FeGroupDelta else FeGroup) (end_value e) = e"
    by (auto simp: sf_checks_ok)
  moreover have "b = venc (VarInt (ucast (filter_type_as_u8 (sf_filter_type f))))
      @ (case sf_start_location f of None \<Rightarrow> []
         | Some l \<Rightarrow> venc (loc_group l) @ venc (loc_object l))
      @ (case sf_end_group f of None \<Rightarrow> [] | Some e \<Rightarrow> venc (VarInt (end_value e)))"
    using enc by (auto simp: sf_encode_with_def result_inversion dest!: wr split: option.splits)
  moreover have "vwf (VarInt (ucast (filter_type_as_u8 (sf_filter_type f))))"
    using filter_type_small writes_small by blast
  moreover have "\<forall>l. sf_start_location f = Some l \<longrightarrow> vwf (loc_group l) \<and> vwf (loc_object l)"
    "\<forall>e. sf_end_group f = Some e \<longrightarrow> vwf (VarInt (end_value e))"
    using enc by (auto simp: sf_encode_with_def result_inversion dest!: wr split: option.splits)
  ultimately show ?thesis
    by (cases "sf_start_location f"; cases "sf_end_group f")
      (auto simp: sf_decode_with_def decode_encode decode_encode_end)
qed

lemma sf_decoded_writes:
  assumes dec: "sf_decode_with b (if d then FeGroupDelta else FeGroup) vdec = Inr f"
    and wr: "\<And>v. vwf (VarInt v) \<Longrightarrow> \<exists>b. write v = Inr b"
  shows "\<exists>b. sf_encode_with f d write = Inr b"
proof -
  have "sf_checks f d = Inr ()"
    using dec by (auto simp: sf_decode_with_def sf_checks_ok result_inversion wants_end_def
        wants_start_def split: if_splits prod.splits)
  moreover have "sf_start_location f = Some l \<Longrightarrow> vwf (loc_group l) \<and> vwf (loc_object l)" for l
    using dec by (auto simp: sf_decode_with_def result_inversion split: if_splits)
      (erule decode_wf)+
  moreover have "sf_end_group f = Some e \<Longrightarrow> vwf (VarInt (end_value e))" for e
    using dec by (auto simp: sf_decode_with_def result_inversion split: if_splits)
      (erule decode_wf)+
  moreover have "vwf (VarInt (ucast (filter_type_as_u8 (sf_filter_type f))))"
    using filter_type_small writes_small by blast
  moreover obtain g where "\<And>v. vwf (VarInt v) \<Longrightarrow> write v = Inr (g v)"
    using wr by metis
  ultimately show ?thesis
    by (auto simp: sf_encode_with_def split: option.splits)
qed

end

lemma sf_encode_decodes: "sf_encode f = Inr b \<Longrightarrow> sf_decode b = Inr f"
  using quic.sf_roundtrip [of f False write_u64 b]
  by (simp add: sf_encode_def sf_decode_def write_u64_def [symmetric] write_u64_Inr wf_varint_def)

lemma sf_encode_moqt_decodes: "sf_encode_moqt p f = Inr b \<Longrightarrow> sf_decode_moqt p b = Inr f"
  using moqt.sf_roundtrip [of f True "\<lambda>v. Inr (encode_moqt p (VarInt v))" b p]
  by (simp add: sf_encode_moqt_def sf_decode_moqt_def from_u64_moqt_def)

lemma sf_decode_encodes: "sf_decode b = Inr f \<Longrightarrow> \<exists>b'. sf_encode f = Inr b'"
  using quic.sf_decoded_writes [of b False f write_u64]
  by (simp add: sf_encode_def sf_decode_def write_u64_def [symmetric] write_u64_Inr wf_varint_def)

end
