(* ===== verification/Range_Filter.thy ===== *)
theory Range_Filter
  imports Subscription_Filter
begin

text \<open>
  \<open>range_filter.rs\<close>: the five Range Filter parameters of drafts 19 to 22. A run of ranges is
  delta-coded against two alternating baselines, a Start against the previous End and an End against
  the Start beside it; the sums are checked, so no range wraps around the 64-bit space.
\<close>

definition SUBGROUP_FILTER_PARAMETER :: u64 where "SUBGROUP_FILTER_PARAMETER = 0x25"
definition OBJECT_ID_FILTER_PARAMETER :: u64 where "OBJECT_ID_FILTER_PARAMETER = 0x26"
definition PRIORITY_FILTER_PARAMETER :: u64 where "PRIORITY_FILTER_PARAMETER = 0x27"
definition OBJECT_PROPERTY_FILTER_PARAMETER :: u64 where "OBJECT_PROPERTY_FILTER_PARAMETER = 0x28"
definition TRACK_PROPERTY_FILTER_PARAMETER :: u64 where "TRACK_PROPERTY_FILTER_PARAMETER = 0x29"

definition is_range_filter :: "u64 \<Rightarrow> bool" where
  "is_range_filter t \<longleftrightarrow> SUBGROUP_FILTER_PARAMETER \<le> t \<and> t \<le> TRACK_PROPERTY_FILTER_PARAMETER"

definition carries_a_property_type :: "u64 \<Rightarrow> bool" where
  "carries_a_property_type t \<longleftrightarrow>
     t = OBJECT_PROPERTY_FILTER_PARAMETER \<or> t = TRACK_PROPERTY_FILTER_PARAMETER"

datatype filter_range = FilterRange (fr_start: u64) (fr_end: "u64 option")

definition range_contains :: "filter_range \<Rightarrow> u64 \<Rightarrow> bool" where
  "range_contains r v \<longleftrightarrow>
     fr_start r \<le> v \<and> (case fr_end r of None \<Rightarrow> True | Some e \<Rightarrow> v \<le> e)"

record range_filter =
  rf_parameter_type :: u64
  rf_set_id :: u8
  rf_property_type :: "u64 option"
  rf_ranges :: "filter_range list"

datatype range_filter_error =
    NotARangeFilter u64
  | RfMalformed string
  | DeltaOverflow u64 u64
  | PriorityAboveTheField u64
  | PropertyTypeIsNotAnInteger u64

function decode_ranges ::
  "moqt_profile \<Rightarrow> u64 \<Rightarrow> bytes \<Rightarrow> range_filter_error + filter_range list" where
  "decode_ranges p previous_end bs =
     (if bs = [] then Inr []
      else rd (map_err (\<lambda>_. RfMalformed ''a Range's Start is short'') (decode_moqt p bs)) (\<lambda>x bs1.
        and_then (ok_or (checked_add previous_end (into_inner x))
                    (DeltaOverflow previous_end (into_inner x))) (\<lambda>start.
        if bs1 = [] then Inr [FilterRange start None]
        else rd (map_err (\<lambda>_. RfMalformed ''a Range's End is short'') (decode_moqt p bs1)) (\<lambda>y bs2.
          and_then (ok_or (checked_add start (into_inner y))
                      (DeltaOverflow start (into_inner y))) (\<lambda>rend.
          and_then (decode_ranges p rend bs2) (\<lambda>rs.
          Inr (FilterRange start (Some rend) # rs)))))))"
  by pat_completeness auto
termination
  by (relation "measure (\<lambda>(p, e, bs). length bs)")
    (auto dest!: moqt_varint.decode_shorter)

declare decode_ranges.simps [simp del]

definition decode_moqt_structure ::
  "moqt_profile \<Rightarrow> u64 \<Rightarrow> bytes \<Rightarrow> range_filter_error + range_filter" where
  "decode_moqt_structure p parameter_type bs =
     (if \<not> is_range_filter parameter_type then Inl (NotARangeFilter parameter_type)
      else if bs = [] then
        Inr \<lparr> rf_parameter_type = parameter_type, rf_set_id = 0, rf_property_type = None,
              rf_ranges = [] \<rparr>
      else
        let (set_id, bs) = get_u8 bs in
        rd (if carries_a_property_type parameter_type then
              rd (map_err (\<lambda>_. RfMalformed
                    ''it ends before the Property Type this filter type carries'')
                    (decode_moqt p bs)) (\<lambda>x bs. Inr (Some (into_inner x), bs))
            else Inr (None, bs)) (\<lambda>property_type bs.
        and_then (decode_ranges p 0 bs) (\<lambda>ranges.
        Inr \<lparr> rf_parameter_type = parameter_type, rf_set_id = set_id,
              rf_property_type = property_type, rf_ranges = ranges \<rparr>)))"

text \<open>\<open>[Some(range.start), range.end].into_iter().flatten()\<close>: the first value above 255.\<close>

fun check_priority_values :: "filter_range list \<Rightarrow> range_filter_error + unit" where
  "check_priority_values [] = Inr ()"
| "check_priority_values (r # rs) =
     (if fr_start r > 255 then Inl (PriorityAboveTheField (fr_start r))
      else case fr_end r of
        Some e \<Rightarrow> if e > 255 then Inl (PriorityAboveTheField e) else check_priority_values rs
      | None \<Rightarrow> check_priority_values rs)"

definition check_its_own_types :: "range_filter \<Rightarrow> range_filter_error + unit" where
  "check_its_own_types f =
     and_then (case rf_property_type f of
                 Some t \<Rightarrow>
                   if odd (unat t) then Inl (PropertyTypeIsNotAnInteger t) else Inr ()
               | None \<Rightarrow> Inr ()) (\<lambda>_.
     if rf_parameter_type f = PRIORITY_FILTER_PARAMETER then check_priority_values (rf_ranges f)
     else Inr ())"

definition rf_decode_moqt ::
  "moqt_profile \<Rightarrow> u64 \<Rightarrow> bytes \<Rightarrow> range_filter_error + range_filter" where
  "rf_decode_moqt p parameter_type bs =
     and_then (decode_moqt_structure p parameter_type bs) (\<lambda>f.
     and_then (check_its_own_types f) (\<lambda>_. Inr f))"

definition checked_sub :: "u64 \<Rightarrow> u64 \<Rightarrow> u64 option" where
  "checked_sub a b = (if b \<le> a then Some (a - b) else None)"

fun encode_ranges ::
  "moqt_profile \<Rightarrow> u64 \<Rightarrow> filter_range list \<Rightarrow> range_filter_error + bytes" where
  "encode_ranges p previous_end [] = Inr []"
| "encode_ranges p previous_end (r # rs) =
     and_then (ok_or (checked_sub (fr_start r) previous_end)
                 (RfMalformed ''the Ranges are not in ascending order'')) (\<lambda>start_delta.
     let out = encode_moqt p (from_u64_moqt start_delta) in
     case fr_end r of
       Some e \<Rightarrow>
         and_then (ok_or (checked_sub e (fr_start r))
                     (RfMalformed ''a Range ends before it starts'')) (\<lambda>end_delta.
         and_then (encode_ranges p e rs) (\<lambda>more.
         Inr (out @ encode_moqt p (from_u64_moqt end_delta) @ more)))
     | None \<Rightarrow>
         if rs = [] then Inr out
         else Inl (RfMalformed ''only the final Range may be left open''))"

definition rf_encode_moqt :: "moqt_profile \<Rightarrow> range_filter \<Rightarrow> range_filter_error + bytes" where
  "rf_encode_moqt p f =
     (if \<not> is_range_filter (rf_parameter_type f) then Inl (NotARangeFilter (rf_parameter_type f))
      else if carries_a_property_type (rf_parameter_type f) \<and> rf_property_type f = None then
        Inl (RfMalformed ''this filter type carries a Property Type and none was given'')
      else if \<not> carries_a_property_type (rf_parameter_type f) \<and> rf_property_type f \<noteq> None then
        Inl (RfMalformed ''this filter type carries no Property Type and one was given'')
      else
        and_then (check_its_own_types f) (\<lambda>_.
        let out = [rf_set_id f]
              @ (case rf_property_type f of
                   Some t \<Rightarrow> encode_moqt p (from_u64_moqt t) | None \<Rightarrow> []) in
        and_then (encode_ranges p 0 (rf_ranges f)) (\<lambda>more. Inr (out @ more))))"

definition passes :: "range_filter \<Rightarrow> u64 \<Rightarrow> bool" where
  "passes f v \<longleftrightarrow> list_ex (\<lambda>r. range_contains r v) (rf_ranges f)"

definition rf_key :: "range_filter \<Rightarrow> u64 \<times> u8 \<times> u64 option" where
  "rf_key f = (rf_parameter_type f, rf_set_id f, rf_property_type f)"

fun decode_all_moqt ::
  "moqt_profile \<Rightarrow> key_value_pair list \<Rightarrow> range_filter_error + range_filter list" where
  "decode_all_moqt p [] = Inr []"
| "decode_all_moqt p (q # qs) =
     (if \<not> is_range_filter (into_inner (kvp_key q)) then decode_all_moqt p qs
      else case kvp_value q of
        KvpBytes b \<Rightarrow>
          and_then (rf_decode_moqt p (into_inner (kvp_key q)) b) (\<lambda>f.
          and_then (decode_all_moqt p qs) (\<lambda>fs. Inr (f # fs)))
      | KvpVarint v \<Rightarrow>
          Inl (RfMalformed ''its value is a bare varint where the type defines a filter''))"

definition total_ranges :: "range_filter list \<Rightarrow> nat" where
  "total_ranges fs = sum_list (map (\<lambda>f. length (rf_ranges f)) fs)"

fun first_repeated_from ::
  "(u64 \<times> u8 \<times> u64 option) list \<Rightarrow> range_filter list \<Rightarrow> (u64 \<times> u8 \<times> u64 option) option" where
  "first_repeated_from seen [] = None"
| "first_repeated_from seen (f # fs) =
     (if rf_key f \<in> set seen then Some (rf_key f)
      else first_repeated_from (seen @ [rf_key f]) fs)"

definition first_repeated_key :: "range_filter list \<Rightarrow> (u64 \<times> u8 \<times> u64 option) option" where
  "first_repeated_key fs = first_repeated_from [] fs"

section \<open>What a decoded run of ranges is\<close>

text \<open>Ascending from \<open>lo\<close>, each range non-empty, only the last one open.\<close>

fun ascending :: "u64 \<Rightarrow> filter_range list \<Rightarrow> bool" where
  "ascending lo [] \<longleftrightarrow> True"
| "ascending lo (r # rs) \<longleftrightarrow>
     lo \<le> fr_start r \<and>
     (case fr_end r of None \<Rightarrow> rs = [] | Some e \<Rightarrow> fr_start r \<le> e \<and> ascending e rs)"

lemma checked_add_sub: "checked_sub a b = Some d \<Longrightarrow> checked_add b d = Some a"
  by (auto simp: checked_sub_def checked_add_Some unat_sub word_le_nat_alt split: if_splits)

lemma checked_add_le: "checked_add a d = Some b \<Longrightarrow> a \<le> b"
  by (auto simp: checked_add_Some word_le_nat_alt)

lemma encode_moqt_not_Nil [simp]: "encode_moqt p x \<noteq> []"
  by (metis append_Nil moqt_varint.decode_consumes moqt_varint.decode_encode_end
      Nil_is_append_conv append_self_conv2)

lemma decode_encode_ranges:
  "encode_ranges p prev rs = Inr b \<Longrightarrow> decode_ranges p prev b = Inr rs"
proof (induction rs arbitrary: prev b)
  case Nil
  then show ?case by (simp add: decode_ranges.simps)
next
  case (Cons r rs)
  obtain s e where r: "r = FilterRange s e" by (cases r)
  show ?case
    using Cons by (cases e) (auto simp: r result_inversion Let_def decode_ranges.simps [of p prev]
        decode_ranges.simps [of p _ "[]"] moqt_varint.decode_encode moqt_varint.decode_encode_end
        from_u64_moqt_def checked_add_sub split: if_splits)
qed

lemma decode_ranges_ascending:
  "decode_ranges p prev b = Inr rs \<Longrightarrow> ascending prev rs"
proof (induction p prev b arbitrary: rs rule: decode_ranges.induct)
  case (1 p prev b)
  show ?case
    using 1(2) by (subst (asm) decode_ranges.simps)
      (auto simp: result_inversion split: if_splits; elim checked_add_le 1(1) [rotated -1]; simp)
qed

lemma rf_roundtrip:
  assumes "rf_encode_moqt p f = Inr b"
  shows "rf_decode_moqt p (rf_parameter_type f) b = Inr f"
  using assms by (auto simp: rf_encode_moqt_def rf_decode_moqt_def decode_moqt_structure_def
      result_inversion Let_def moqt_varint.decode_encode from_u64_moqt_def decode_encode_ranges
      split: if_splits option.splits)

lemma rf_decode_ascending: "rf_decode_moqt p t b = Inr f \<Longrightarrow> ascending 0 (rf_ranges f)"
  by (auto simp: rf_decode_moqt_def decode_moqt_structure_def result_inversion Let_def
      split: if_splits prod.splits dest: decode_ranges_ascending)

lemma first_repeated_from_None:
  "first_repeated_from seen fs = None \<longleftrightarrow>
     distinct (map rf_key fs) \<and> set seen \<inter> rf_key ` set fs = {}"
  by (induction fs arbitrary: seen) auto

end
