(* ===== verification/Object_Properties.thy ===== *)
theory Object_Properties
  imports Range_Filter
begin

text \<open>
  \<open>object_properties.rs\<close>: the property block of an object (Extension Headers before draft-17), read
  as an ordered list by the rules of one draft. Immutable Properties hold a run of their own, one
  level deep. The block's length is known before it is read, so no error of this reader asks for
  more input.
\<close>

record property_rules =
  pr_varint :: varint_encoding_kind
  delta_types :: bool
  max_value_len :: "u64 option"
  immutable_type :: "u64 option"

definition MAX_VALUE_LEN :: u64 where "MAX_VALUE_LEN = 0xFFFF"
definition IMMUTABLE :: u64 where "IMMUTABLE = 0x0B"

definition property_rules_for_draft :: "draft_version \<Rightarrow> property_rules option" where
  "property_rules_for_draft d =
     (let rules = (\<lambda>delta max imm.
        Some \<lparr> pr_varint = varint_encoding d, delta_types = delta, max_value_len = max,
               immutable_type = imm \<rparr>)
      in if d = Draft07 then None
         else if d \<in> {Draft08, Draft09, Draft10} then rules False None None
         else if d \<in> {Draft11, Draft12, Draft13} then rules False (Some MAX_VALUE_LEN) None
         else if d \<in> {Draft14, Draft15} then rules False (Some MAX_VALUE_LEN) (Some IMMUTABLE)
         else rules True (Some MAX_VALUE_LEN) (Some IMMUTABLE))"

datatype object_property = ObjectProperty (property_type: u64) (property_value: property_value)
  and property_value =
      PvVarint u64
    | PvBytes bytes
    | PvImmutable bytes "object_property list"

definition op_malformed :: "nat \<Rightarrow> string \<Rightarrow> codec_error" where
  "op_malformed offset detail = MalformedObjectProperties offset detail"

definition op_read_varint ::
  "property_rules \<Rightarrow> bytes \<Rightarrow> nat \<Rightarrow> codec_error + u64 \<times> bytes" where
  "op_read_varint rules cursor offset =
     (case (case pr_varint rules of
              Rfc9000 \<Rightarrow> varint_decode cursor
            | EncMoqt17 \<Rightarrow> decode_moqt Moqt17 cursor
            | EncMoqt18 \<Rightarrow> decode_moqt Moqt18 cursor) of
        Inr (v, cursor) \<Rightarrow> Inr (into_inner v, cursor)
      | Inl VarIntUnexpectedEnd \<Rightarrow>
          Inl (op_malformed offset ''a property runs past the end of the property block'')
      | Inl e \<Rightarrow> Inl (CodecVarInt e))"

text \<open>\<open>{len}\<close> and \<open>0x{:02X}\<close> of the format strings.\<close>

fun digits_in :: "nat \<Rightarrow> nat \<Rightarrow> nat \<Rightarrow> string" where
  "digits_in base 0 n = []"
| "digits_in base (Suc k) n =
     (if n < base then [''0123456789ABCDEF'' ! n]
      else digits_in base k (n div base) @ [''0123456789ABCDEF'' ! (n mod base)])"

definition decimal :: "nat \<Rightarrow> string" where
  "decimal n = digits_in 10 20 n"

definition hex02 :: "nat \<Rightarrow> string" where
  "hex02 n = (let s = digits_in 16 16 n in if length s < 2 then CHR ''0'' # s else s)"

lemma op_read_varint_shorter:
  "op_read_varint rules cursor offset = Inr (v, rest) \<Longrightarrow> length rest < length cursor"
  by (auto simp: op_read_varint_def split: sum.splits varint_error.splits varint_encoding_kind.splits
      dest: varint.decode_shorter moqt_varint.decode_shorter)

text \<open>The loop of \<open>read_run\<close>: \<open>run_len\<close> is \<open>run.len()\<close>, \<open>prev_type\<close> and \<open>cursor\<close> its locals.\<close>

function read_run_from ::
  "property_rules \<Rightarrow> nat \<Rightarrow> nat \<Rightarrow> bool \<Rightarrow> u64 \<Rightarrow> bytes \<Rightarrow> codec_error + object_property list" where
  "read_run_from rules run_len base nested prev_type cursor =
     (if cursor = [] then Inr []
      else
        let offset = base + (run_len - length cursor) in
        rd (op_read_varint rules cursor offset) (\<lambda>raw cursor1.
        and_then (if delta_types rules
                  then ok_or (checked_add prev_type raw) (KeyDeltaOverflow prev_type raw)
                  else Inr raw) (\<lambda>ptype.
        if even (unat ptype) then
          rd (op_read_varint rules cursor1 offset) (\<lambda>v cursor2.
          and_then (read_run_from rules run_len base nested ptype cursor2) (\<lambda>props.
          Inr (ObjectProperty ptype (PvVarint v) # props)))
        else
          rd (op_read_varint rules cursor1 offset) (\<lambda>len cursor2.
          if (case max_value_len rules of Some m \<Rightarrow> len > m | None \<Rightarrow> False)
          then Inl (CodecKvp (KvpValueTooLong (unat len)))
          else if length cursor2 < unat len then
            Inl (op_malformed offset
              (''property 0x'' @ hex02 (unat ptype) @ '' claims '' @ decimal (unat len)
               @ '' bytes but the property block has '' @ decimal (length cursor2) @ '' left''))
          else
            let value_base = base + (run_len - length cursor2);
                val = take (unat len) cursor2;
                cursor3 = drop (unat len) cursor2
            in and_then
                 (if immutable_type rules = Some ptype then
                    if nested then
                      Inl (op_malformed offset ''Immutable Properties inside Immutable Properties'')
                    else
                      and_then (read_run_from rules (length val) value_base True 0 val)
                        (\<lambda>inner. Inr (PvImmutable val inner))
                  else Inr (PvBytes val)) (\<lambda>pv.
               and_then (read_run_from rules run_len base nested ptype cursor3) (\<lambda>props.
               Inr (ObjectProperty ptype pv # props)))))))"
  by pat_completeness auto
termination
  by (relation "measure (\<lambda>(r, l, b, n, p, c). length c)")
    (auto dest!: op_read_varint_shorter)

declare read_run_from.simps [simp del]

definition read_run ::
  "property_rules \<Rightarrow> bytes \<Rightarrow> nat \<Rightarrow> bool \<Rightarrow> codec_error + object_property list" where
  "read_run rules run base nested = read_run_from rules (length run) base nested 0 run"

definition parse_with :: "property_rules \<Rightarrow> bytes \<Rightarrow> codec_error + object_property list" where
  "parse_with rules block = read_run rules block 0 False"

text \<open>\<open>{draft:?}\<close>: \<open>Draft07\<close> is the one draft with no rules.\<close>

definition parse_object_properties ::
  "draft_version \<Rightarrow> bytes \<Rightarrow> codec_error + object_property list" where
  "parse_object_properties d block =
     (case property_rules_for_draft d of
        Some rules \<Rightarrow> parse_with rules block
      | None \<Rightarrow>
          if block = [] then Inr []
          else Inl (op_malformed 0 (''Draft07'' @ '' objects carry no properties'')))"

section \<open>What a parsed block is\<close>

fun wf_property :: "property_rules \<Rightarrow> bool \<Rightarrow> object_property \<Rightarrow> bool" where
  "wf_property rules nested (ObjectProperty t (PvVarint v)) \<longleftrightarrow> even (unat t)"
| "wf_property rules nested (ObjectProperty t (PvBytes b)) \<longleftrightarrow>
     odd (unat t) \<and> immutable_type rules \<noteq> Some t
     \<and> (\<forall>m. max_value_len rules = Some m \<longrightarrow> length b \<le> unat m)"
| "wf_property rules nested (ObjectProperty t (PvImmutable b ps)) \<longleftrightarrow>
     odd (unat t) \<and> immutable_type rules = Some t \<and> \<not> nested
     \<and> (\<forall>m. max_value_len rules = Some m \<longrightarrow> length b \<le> unat m)
     \<and> list_all (wf_property rules True) ps"

text \<open>The types of a delta-coded run never go down from \<open>lo\<close>.\<close>

fun types_ascend :: "u64 \<Rightarrow> object_property list \<Rightarrow> bool" where
  "types_ascend lo [] \<longleftrightarrow> True"
| "types_ascend lo (p # ps) \<longleftrightarrow> lo \<le> property_type p \<and> types_ascend (property_type p) ps"

text \<open>One turn of the loop, inverted: the property it pushed and the bytes it left.\<close>

lemma read_run_from_step:
  assumes "read_run_from rules run_len base nested prev cursor = Inr ps" "cursor \<noteq> []"
  obtains t v rest ps' where "ps = ObjectProperty t v # ps'" "length rest < length cursor"
    "read_run_from rules run_len base nested t rest = Inr ps'"
    "delta_types rules \<Longrightarrow> prev \<le> t"
    "(\<exists>x. v = PvVarint x) \<and> even (unat t)
     \<or> odd (unat t) \<and> (\<exists>b. (\<forall>m. max_value_len rules = Some m \<longrightarrow> length b \<le> unat m)
         \<and> (v = PvBytes b \<and> immutable_type rules \<noteq> Some t
            \<or> immutable_type rules = Some t \<and> \<not> nested \<and> length b < length cursor
               \<and> (\<exists>inner bb. v = PvImmutable b inner
                    \<and> read_run_from rules (length b) bb True 0 b = Inr inner)))"
proof -
  let ?o = "base + (run_len - length cursor)"
  from assms obtain raw c1 t where 1: "op_read_varint rules cursor ?o = Inr (raw, c1)"
      "(if delta_types rules then ok_or (checked_add prev raw) (KeyDeltaOverflow prev raw)
        else Inr raw) = Inr t"
    by (subst (asm) read_run_from.simps) (auto simp: result_inversion Let_def)
  from 1(2) have le: "delta_types rules \<Longrightarrow> prev \<le> t"
    by (auto dest: checked_add_le)
  obtain w c2 where 2: "op_read_varint rules c1 ?o = Inr (w, c2)"
    using assms 1 by (subst (asm) read_run_from.simps)
      (auto simp: result_inversion Let_def split: if_splits)
  have short: "length c2 < length cursor"
    using op_read_varint_shorter [OF 1(1)] op_read_varint_shorter [OF 2] by simp
  show thesis
  proof (cases "even (unat t)")
    case True
    then obtain ps' where "ps = ObjectProperty t (PvVarint w) # ps'"
        "read_run_from rules run_len base nested t c2 = Inr ps'"
      using assms 1 2 by (subst (asm) read_run_from.simps) (auto simp: result_inversion Let_def)
    with True le short show thesis
      by (intro that [of t "PvVarint w" ps' c2]) auto
  next
    case False
    let ?v = "take (unat w) c2" and ?vb = "base + (run_len - length c2)"
    from False obtain pv ps' where 3: "ps = ObjectProperty t pv # ps'"
        "read_run_from rules run_len base nested t (drop (unat w) c2) = Inr ps'"
        "\<not> (case max_value_len rules of Some m \<Rightarrow> w > m | None \<Rightarrow> False)" "unat w \<le> length c2"
        "(if immutable_type rules = Some t then
            if nested then Inl (op_malformed ?o ''Immutable Properties inside Immutable Properties'')
            else and_then (read_run_from rules (length ?v) ?vb True 0 ?v)
                   (\<lambda>inner. Inr (PvImmutable ?v inner))
          else Inr (PvBytes ?v)) = Inr pv"
      using assms 1 2 by (subst (asm) read_run_from.simps)
        (simp add: rd_eq_Inr and_then_eq_Inr Let_def not_less split: if_split_asm; blast)
    from 3(3) have "\<forall>m. max_value_len rules = Some m \<longrightarrow> length ?v \<le> unat m"
      by (auto simp: word_le_nat_alt not_less)
    with 3 False le short show thesis
      by (intro that [of t pv ps' "drop (unat w) c2"])
        (auto simp: and_then_eq_Inr split: if_splits)
  qed
qed

lemma read_run_from_wf:
  "read_run_from rules run_len base nested prev cursor = Inr ps \<Longrightarrow>
     list_all (wf_property rules nested) ps"
proof (induction "length cursor" arbitrary: run_len base nested prev cursor ps rule: less_induct)
  case less
  show ?case
  proof (cases "cursor = []")
    case True
    with less.prems show ?thesis by (simp add: read_run_from.simps)
  next
    case False
    from less.prems False show ?thesis
      by (rule read_run_from_step) (auto dest: less.hyps)
  qed
qed

lemma read_run_from_ascend:
  "read_run_from rules run_len base nested prev cursor = Inr ps \<Longrightarrow> delta_types rules \<Longrightarrow>
     types_ascend prev ps"
proof (induction "length cursor" arbitrary: run_len base nested prev cursor ps rule: less_induct)
  case less
  show ?case
  proof (cases "cursor = []")
    case True
    with less.prems show ?thesis by (simp add: read_run_from.simps)
  next
    case False
    from less.prems(1) False show ?thesis
      by (rule read_run_from_step) (auto simp: less.prems(2) dest: less.hyps)
  qed
qed

lemma settled_op_read_varint: "settled (op_read_varint rules cursor offset)"
  by (auto simp: settled_def op_read_varint_def op_malformed_def is_incomplete_def
      split: sum.splits varint_error.splits)

lemma settled_read_run_from: "settled (read_run_from rules run_len base nested prev cursor)"
proof (induction "length cursor" arbitrary: run_len base nested prev cursor rule: less_induct)
  case less
  show ?case
    by (subst read_run_from.simps)
      (intro settled_intros settled_op_read_varint less.hyps, auto simp: is_incomplete_def
        op_malformed_def not_less dest!: op_read_varint_shorter)
qed

end
