(* ===== verification/Codec_Properties.thy ===== *)
theory Codec_Properties
  imports Object_Properties Range_Filter Subscription_Filter Auth_Token Kvp Wire_Types Draft_Version
begin

text \<open>
  The properties of the codec crate's shared parts: varints, the table of drafts, namespaces,
  key-value pairs and the structured parameters.
\<close>

section \<open>Integers\<close>

text \<open>A QUIC varint is read back as written whatever follows it, and the encoder's form is the
  shortest any decoder input for that value can have.\<close>

theorem varint_roundtrip_shortest:
  assumes "wf_varint x"
  shows "varint_decode (varint_encode x @ rest) = Inr (x, rest)
    \<and> (\<forall>bs r. varint_decode bs = Inr (x, r) \<longrightarrow> length (varint_encode x) + length r \<le> length bs)"
  using varint_roundtrip [OF assms] varint_shortest by (simp add: length_varint_encode)

theorem varint_roundtrip_shortest_witness:
  "varint_decode (varint_encode (VarInt 16384) @ [7]) = Inr (VarInt 16384, [7])"
  using varint_roundtrip_shortest [of "VarInt 16384" "[7]"]
  by (simp add: wf_varint_def MAX_VARINT_def)

text \<open>A MoQT varint carries every 64-bit value in both profiles, and the draft-17 profile neither
  writes nor reads the seven-byte form.\<close>

theorem moqt_varint_roundtrip:
  "decode_moqt p (encode_moqt p x @ rest) = Inr (x, rest)
   \<and> length (encode_moqt Moqt17 x) \<noteq> 7
   \<and> decode_moqt Moqt17 (0xFC # bs) = Inl VarIntInvalidCodePoint
   \<and> decode_moqt Moqt17 (0xFD # bs) = Inl VarIntInvalidCodePoint"
proof -
  have "leading_ones (0xFC :: u8) = 6" "leading_ones (0xFD :: u8) = 6"
    by code_simp+
  then show ?thesis
    using moqt_varint.decode_encode moqt17_length moqt17_refuses_seven [of "_ # bs"] by auto
qed

text \<open>In every draft the first byte tells how long a varint is: the decoder takes exactly that many
  bytes, and never asks for more once they are there.\<close>

theorem varint_len_exact:
  "(decode_varint d (b # bs) = Inr (x, rest) \<longrightarrow> length (b # bs) = varint_len d b + length rest)
   \<and> (varint_len d b \<le> length (b # bs) \<longrightarrow> decode_varint d (b # bs) \<noteq> Inl VarIntUnexpectedEnd)"
  using decode_varint_length [of d "b # bs" x rest] decode_varint_waits [of "b # bs" d] by auto

theorem varint_len_exact_witness:
  "decode_varint Draft18 [0xFC, 1, 2, 3, 4, 5, 6] \<noteq> Inl VarIntUnexpectedEnd"
proof -
  have "varint_len Draft18 0xFC \<le> length [0xFC :: u8, 1, 2, 3, 4, 5, 6]"
    by code_simp
  then show ?thesis
    using varint_len_exact [of Draft18 "0xFC" "[1, 2, 3, 4, 5, 6]"] by blast
qed

section \<open>Drafts\<close>

text \<open>The table of drafts is a table: each draft's number names it and no other, every draft is
  listed and none is above the newest, and an ALPN resolves exactly the drafts that have one of
  their own.\<close>

theorem draft_table_consistent:
  "from_number (number d) = Some d \<and> d \<in> set ALL_DRAFTS \<and> number d \<le> number newest
   \<and> from_alpn (quic_alpn d) = (if number d \<ge> 15 then Some d else None)
   \<and> (from_number n = Some d) = (n = number d)"
  using number_from_number by (auto simp: ALL_complete number_le_newest from_alpn_quic_alpn)

section \<open>Namespaces\<close>

text \<open>For the rules of every draft, a namespace of well-formed lengths is read back exactly when
  \<open>validate\<close> passes it, and whatever the decoder returns passes.\<close>

theorem namespace_decoder_is_validator:
  assumes "list_all (\<lambda>f. length f < 2 ^ 62) (ns_fields ns)"
  shows "decode_rules (for_draft d) (namespace_encode ns @ rest) = Inr (ns, rest)
    \<longleftrightarrow> validate (for_draft d) ns = Inr ()"
proof
  assume "decode_rules (for_draft d) (namespace_encode ns @ rest) = Inr (ns, rest)"
  then show "validate (for_draft d) ns = Inr ()"
    using namespace.decode_wf by (auto simp: wf_namespace_def)
next
  assume "validate (for_draft d) ns = Inr ()"
  with assms have "wf_namespace (for_draft d) ns"
    by (auto simp: wf_namespace_def list_all_iff validate_ok)
  then show "decode_rules (for_draft d) (namespace_encode ns @ rest) = Inr (ns, rest)"
    by (rule namespace.decode_encode)
qed

theorem namespace_decoder_is_validator_witness:
  "decode_rules (for_draft 16) (namespace_encode (TrackNamespace [[1], [2, 3]]) @ [9])
     = Inr (TrackNamespace [[1], [2, 3]], [9])"
proof -
  have "validate (for_draft 16) (TrackNamespace [[1], [2, 3]]) = Inr ()"
    by code_simp
  then show ?thesis
    using namespace_decoder_is_validator [of "TrackNamespace [[1], [2, 3]]" 16 "[9]"] by simp
qed

text \<open>The MoQT form of a namespace is read back exactly when \<open>validate_moqt\<close> passes it.\<close>

theorem moqt_namespace_decoder_is_validator:
  "namespace_decode_moqt p (namespace_encode_moqt p ns @ rest) = Inr (ns, rest)
   \<longleftrightarrow> validate_moqt ns = Inr ()"
  using moqt_namespace_encode moqt_namespace_wf by blast

section \<open>Key-value pairs\<close>

text \<open>Of a list of key-value pairs as the unchecked encoder writes it, the decoder says exactly
  what the checked encoder says of the list: the same refusal, or the list itself.\<close>

theorem checked_pairs_agree:
  assumes "\<forall>p \<in> set ps. fits p" and "length ps < 2 ^ 62"
  shows "kvp_decode_list (kvp_encode_list ps @ rest) =
    (case kvp_encode_list_checked ps of Inl e \<Rightarrow> Inl e | Inr b \<Rightarrow> Inr (ps, rest))"
  using kvp_list_checked [OF assms(1), of rest] assms(2)
  by (cases "check_each check_value_len ps")
    (simp_all add: kvp_encode_list_checked_def kvp_decode_list_def kvp_encode_list_def)

theorem checked_pairs_agree_witness:
  "kvp_decode_list (kvp_encode_list [KeyValuePair (VarInt 3) (KvpBytes [1])] @ [5])
     = Inr ([KeyValuePair (VarInt 3) (KvpBytes [1])], [5])"
  using checked_pairs_agree [of "[KeyValuePair (VarInt 3) (KvpBytes [1])]" "[5]"]
  by (simp add: fits_def wf_varint_def MAX_VARINT_def kvp_encode_list_checked_def
      check_value_len_def MAX_KVP_VALUE_LEN_def)

text \<open>Draft-07's list of parameters is read back as written, and no bytes it can be read from are
  fewer than those the encoder writes.\<close>

theorem d07_parameters_roundtrip:
  assumes "wf_kvp_list_d07 ps"
  shows "kvp_decode_list_d07 (kvp_encode_list_d07 ps @ rest) = Inr (ps, rest)
    \<and> (\<forall>bs r. kvp_decode_list_d07 bs = Inr (ps, r) \<longrightarrow>
          length (kvp_encode_list_d07 ps) + length r \<le> length bs)"
  using kvp_list_d07.decode_encode [OF assms] kvp_list_d07.decode_shortest by blast

theorem d07_parameters_roundtrip_witness:
  "kvp_decode_list_d07 (kvp_encode_list_d07 [KeyValuePair (VarInt 2) (KvpBytes [5])] @ [8])
     = Inr ([KeyValuePair (VarInt 2) (KvpBytes [5])], [8])"
  using d07_parameters_roundtrip [of "[KeyValuePair (VarInt 2) (KvpBytes [5])]" "[8]"]
  by (simp add: wf_kvp_list_d07_def wf_kvp_d07_def wf_varint_def MAX_VARINT_def)

section \<open>Structured parameters\<close>

text \<open>An authorization token is read back from its encoding, in both integer encodings, up to the
  fields its Alias Type says are absent, and a token that was read has none of those.\<close>

theorem token_roundtrip_canonical:
  "(token_encode t = Inr b \<longrightarrow> token_decode key b = Inr (canonical_token t))
   \<and> token_decode_moqt p key (token_encode_moqt p t) = Inr (canonical_token t)
   \<and> (token_decode key bs = Inr t' \<longrightarrow> canonical_token t' = t')"
  using token_encode_decodes token_encode_moqt_decodes
    token_decode_canonical [of key bs varint_decode t']
  by (auto simp: token_decode_def)

theorem token_roundtrip_canonical_witness:
  "token_decode 3 [1, 5, 6, 7]
     = Inr (canonical_token \<lparr> at_alias_type = TatRegister, at_alias = Some 5,
                              at_token_type = Some 6, at_value = [7] \<rparr>)"
proof -
  let ?t = "\<lparr> at_alias_type = TatRegister, at_alias = Some 5,
              at_token_type = Some 6, at_value = [7] \<rparr>"
  have "token_encode ?t = Inr [1, 5, 6, 7]"
    by code_simp
  then show ?thesis
    using token_roundtrip_canonical [of ?t "[1, 5, 6, 7]" 3] by blast
qed

text \<open>A subscription filter that either encoder writes is read back by its decoder, and a filter
  that was read can be written again.\<close>

theorem subscription_filter_roundtrip:
  "(sf_encode f = Inr b \<longrightarrow> sf_decode b = Inr f)
   \<and> (sf_encode_moqt p f = Inr b \<longrightarrow> sf_decode_moqt p b = Inr f)
   \<and> (sf_decode b = Inr f \<longrightarrow> (\<exists>b'. sf_encode f = Inr b' \<and> sf_decode b' = Inr f))"
  using sf_encode_decodes sf_encode_moqt_decodes sf_decode_encodes by blast

theorem subscription_filter_roundtrip_witness:
  "sf_decode [4, 1, 2, 9] = Inr \<lparr> sf_filter_type = AbsoluteRange,
     sf_start_location = Some \<lparr> loc_group = VarInt 1, loc_object = VarInt 2 \<rparr>,
     sf_end_group = Some (FeGroup 9) \<rparr>"
proof -
  let ?f = "\<lparr> sf_filter_type = AbsoluteRange,
     sf_start_location = Some \<lparr> loc_group = VarInt 1, loc_object = VarInt 2 \<rparr>,
     sf_end_group = Some (FeGroup 9) \<rparr>"
  have "sf_encode ?f = Inr [4, 1, 2, 9]"
    by code_simp
  then show ?thesis
    using subscription_filter_roundtrip [of ?f "[4, 1, 2, 9]"] by blast
qed

text \<open>A range filter is read back as written, and the ranges of any filter that was read ascend:
  each starts at or above the end of the one before, and only the last may be open.\<close>

theorem range_filter_roundtrip:
  "(rf_encode_moqt p f = Inr b \<longrightarrow> rf_decode_moqt p (rf_parameter_type f) b = Inr f)
   \<and> (rf_decode_moqt p ty bs = Inr g \<longrightarrow> ascending 0 (rf_ranges g))"
  using rf_roundtrip rf_decode_ascending by blast

theorem range_filter_roundtrip_witness:
  "rf_decode_moqt Moqt18 OBJECT_ID_FILTER_PARAMETER [1, 4, 3, 2]
     = Inr \<lparr> rf_parameter_type = OBJECT_ID_FILTER_PARAMETER, rf_set_id = 1, rf_property_type = None,
             rf_ranges = [FilterRange 4 (Some 7), FilterRange 9 None] \<rparr>"
proof -
  let ?f = "\<lparr> rf_parameter_type = OBJECT_ID_FILTER_PARAMETER, rf_set_id = 1,
     rf_property_type = None, rf_ranges = [FilterRange 4 (Some 7), FilterRange 9 None] \<rparr>"
  have "rf_encode_moqt Moqt18 ?f = Inr [1, 4, 3, 2]"
    by code_simp
  then show ?thesis
    using range_filter_roundtrip [of Moqt18 ?f "[1, 4, 3, 2]"] by simp
qed

text \<open>The reader of an object's properties answers for good: it never asks for more input. What it
  accepts keeps the length bound and the parity of each type, never nests the immutable property,
  and in the drafts that count types by difference the types ascend.\<close>

theorem object_properties_sound:
  assumes "property_rules_for_draft d = Some rules"
  shows "settled (parse_object_properties d block)
    \<and> (\<forall>ps. parse_object_properties d block = Inr ps \<longrightarrow>
          list_all (wf_property rules False) ps \<and> (delta_types rules \<longrightarrow> types_ascend 0 ps))"
  using assms read_run_from_wf read_run_from_ascend
  by (simp add: parse_object_properties_def parse_with_def read_run_def settled_read_run_from)

theorem object_properties_sound_witness:
  "wf_property \<lparr> pr_varint = Rfc9000, delta_types = True, max_value_len = Some MAX_VALUE_LEN,
                 immutable_type = Some IMMUTABLE \<rparr> False
     (ObjectProperty 11 (PvImmutable [2, 7] [ObjectProperty 2 (PvVarint 7)]))"
proof -
  have "property_rules_for_draft Draft16 = Some \<lparr> pr_varint = Rfc9000, delta_types = True,
      max_value_len = Some MAX_VALUE_LEN, immutable_type = Some IMMUTABLE \<rparr>"
    by code_simp
  moreover have "parse_object_properties Draft16 [2, 5, 9, 2, 2, 7] = Inr [ObjectProperty 2 (PvVarint 5),
      ObjectProperty 11 (PvImmutable [2, 7] [ObjectProperty 2 (PvVarint 7)])]"
    by code_simp
  ultimately show ?thesis
    using object_properties_sound [of Draft16] by fastforce
qed

end
