(* ===== verification/Draft07_Codes.thy ===== *)
theory Draft07_Codes
  imports Kvp
begin

text \<open>
  The code points of draft-07: \<open>draft07/error_codes.rs\<close>, \<open>draft07/types.rs\<close> and the \<open>MessageType\<close>
  table of \<open>draft07/message.rs\<close>. Each table is proved to be one correspondence with its cast.
\<close>

datatype session_error_code =
    SecNoError
  | SecInternalError
  | SecUnauthorized
  | SecProtocolViolation
  | SecDuplicateTrackAlias
  | SecParameterLengthMismatch
  | SecTooManySubscribes
  | SecGoawayTimeout

fun sec_as_u64 :: "session_error_code \<Rightarrow> u64" where
  "sec_as_u64 SecNoError = 0x0"
| "sec_as_u64 SecInternalError = 0x1"
| "sec_as_u64 SecUnauthorized = 0x2"
| "sec_as_u64 SecProtocolViolation = 0x3"
| "sec_as_u64 SecDuplicateTrackAlias = 0x4"
| "sec_as_u64 SecParameterLengthMismatch = 0x5"
| "sec_as_u64 SecTooManySubscribes = 0x6"
| "sec_as_u64 SecGoawayTimeout = 0x10"

definition sec_from_u64 :: "u64 \<Rightarrow> session_error_code option" where
  "sec_from_u64 v =
     (if v = 0x0 then Some SecNoError
      else if v = 0x1 then Some SecInternalError
      else if v = 0x2 then Some SecUnauthorized
      else if v = 0x3 then Some SecProtocolViolation
      else if v = 0x4 then Some SecDuplicateTrackAlias
      else if v = 0x5 then Some SecParameterLengthMismatch
      else if v = 0x6 then Some SecTooManySubscribes
      else if v = 0x10 then Some SecGoawayTimeout
      else None)"

definition sec_ALL :: "session_error_code list" where
  "sec_ALL =
     [SecNoError, SecInternalError, SecUnauthorized, SecProtocolViolation,
      SecDuplicateTrackAlias, SecParameterLengthMismatch, SecTooManySubscribes, SecGoawayTimeout]"

datatype subscribe_error_code =
    SueInternalError
  | SueInvalidRange
  | SueRetryTrackAlias
  | SueTrackDoesNotExist
  | SueUnauthorized
  | SueTimeout

fun sue_as_u64 :: "subscribe_error_code \<Rightarrow> u64" where
  "sue_as_u64 SueInternalError = 0x0"
| "sue_as_u64 SueInvalidRange = 0x1"
| "sue_as_u64 SueRetryTrackAlias = 0x2"
| "sue_as_u64 SueTrackDoesNotExist = 0x3"
| "sue_as_u64 SueUnauthorized = 0x4"
| "sue_as_u64 SueTimeout = 0x5"

definition sue_from_u64 :: "u64 \<Rightarrow> subscribe_error_code option" where
  "sue_from_u64 v =
     (if v = 0x0 then Some SueInternalError
      else if v = 0x1 then Some SueInvalidRange
      else if v = 0x2 then Some SueRetryTrackAlias
      else if v = 0x3 then Some SueTrackDoesNotExist
      else if v = 0x4 then Some SueUnauthorized
      else if v = 0x5 then Some SueTimeout
      else None)"

definition sue_ALL :: "subscribe_error_code list" where
  "sue_ALL =
     [SueInternalError, SueInvalidRange, SueRetryTrackAlias, SueTrackDoesNotExist,
      SueUnauthorized, SueTimeout]"

datatype subscribe_done_status_code =
    SdsUnsubscribed
  | SdsInternalError
  | SdsUnauthorized
  | SdsTrackEnded
  | SdsSubscriptionEnded
  | SdsGoingAway
  | SdsExpired

fun sds_as_u64 :: "subscribe_done_status_code \<Rightarrow> u64" where
  "sds_as_u64 SdsUnsubscribed = 0x0"
| "sds_as_u64 SdsInternalError = 0x1"
| "sds_as_u64 SdsUnauthorized = 0x2"
| "sds_as_u64 SdsTrackEnded = 0x3"
| "sds_as_u64 SdsSubscriptionEnded = 0x4"
| "sds_as_u64 SdsGoingAway = 0x5"
| "sds_as_u64 SdsExpired = 0x6"

definition sds_from_u64 :: "u64 \<Rightarrow> subscribe_done_status_code option" where
  "sds_from_u64 v =
     (if v = 0x0 then Some SdsUnsubscribed
      else if v = 0x1 then Some SdsInternalError
      else if v = 0x2 then Some SdsUnauthorized
      else if v = 0x3 then Some SdsTrackEnded
      else if v = 0x4 then Some SdsSubscriptionEnded
      else if v = 0x5 then Some SdsGoingAway
      else if v = 0x6 then Some SdsExpired
      else None)"

definition sds_ALL :: "subscribe_done_status_code list" where
  "sds_ALL =
     [SdsUnsubscribed, SdsInternalError, SdsUnauthorized, SdsTrackEnded, SdsSubscriptionEnded,
      SdsGoingAway, SdsExpired]"

datatype track_status_code =
    TscInProgress
  | TscTrackDoesNotExist
  | TscNotYetBegun
  | TscFinished
  | TscRelayStatusUnavailable

fun tsc_as_u64 :: "track_status_code \<Rightarrow> u64" where
  "tsc_as_u64 TscInProgress = 0x00"
| "tsc_as_u64 TscTrackDoesNotExist = 0x01"
| "tsc_as_u64 TscNotYetBegun = 0x02"
| "tsc_as_u64 TscFinished = 0x03"
| "tsc_as_u64 TscRelayStatusUnavailable = 0x04"

definition tsc_from_u64 :: "u64 \<Rightarrow> track_status_code option" where
  "tsc_from_u64 v =
     (if v = 0x00 then Some TscInProgress
      else if v = 0x01 then Some TscTrackDoesNotExist
      else if v = 0x02 then Some TscNotYetBegun
      else if v = 0x03 then Some TscFinished
      else if v = 0x04 then Some TscRelayStatusUnavailable
      else None)"

definition requires_zero_location :: "track_status_code \<Rightarrow> bool" where
  "requires_zero_location c \<longleftrightarrow> c = TscTrackDoesNotExist \<or> c = TscNotYetBegun"

datatype role = RolePublisher | RoleSubscriber | RolePubSub

fun role_as_u8 :: "role \<Rightarrow> u8" where
  "role_as_u8 RolePublisher = 1"
| "role_as_u8 RoleSubscriber = 2"
| "role_as_u8 RolePubSub = 3"

definition role_from_u8 :: "u8 \<Rightarrow> role option" where
  "role_from_u8 v =
     (if v = 1 then Some RolePublisher
      else if v = 2 then Some RoleSubscriber
      else if v = 3 then Some RolePubSub
      else None)"

datatype object_status =
    OsNormal
  | OsObjectDoesNotExist
  | OsEndOfGroup
  | OsEndOfTrackAndGroup
  | OsEndOfSubgroup

fun os_as_u64 :: "object_status \<Rightarrow> u64" where
  "os_as_u64 OsNormal = 0"
| "os_as_u64 OsObjectDoesNotExist = 1"
| "os_as_u64 OsEndOfGroup = 3"
| "os_as_u64 OsEndOfTrackAndGroup = 4"
| "os_as_u64 OsEndOfSubgroup = 5"

definition os_from_u64 :: "u64 \<Rightarrow> object_status option" where
  "os_from_u64 v =
     (if v = 0 then Some OsNormal
      else if v = 1 then Some OsObjectDoesNotExist
      else if v = 3 then Some OsEndOfGroup
      else if v = 4 then Some OsEndOfTrackAndGroup
      else if v = 5 then Some OsEndOfSubgroup
      else None)"

definition os_ALL :: "object_status list" where
  "os_ALL = [OsNormal, OsObjectDoesNotExist, OsEndOfGroup, OsEndOfTrackAndGroup, OsEndOfSubgroup]"

section \<open>Message types\<close>

datatype (plugins only: code) message_type =
    MtSubscribeUpdate
  | MtSubscribe
  | MtSubscribeOk
  | MtSubscribeError
  | MtAnnounce
  | MtAnnounceOk
  | MtAnnounceError
  | MtUnannounce
  | MtUnsubscribe
  | MtSubscribeDone
  | MtAnnounceCancel
  | MtTrackStatusRequest
  | MtTrackStatus
  | MtGoAway
  | MtSubscribeAnnounces
  | MtSubscribeAnnouncesOk
  | MtSubscribeAnnouncesError
  | MtUnsubscribeAnnounces
  | MtMaxSubscribeId
  | MtFetch
  | MtFetchCancel
  | MtFetchOk
  | MtFetchError
  | MtClientSetup
  | MtServerSetup

definition mt_from_id :: "u64 \<Rightarrow> message_type option" where
  "mt_from_id i =
     (if i = 0x02 then Some MtSubscribeUpdate
      else if i = 0x03 then Some MtSubscribe
      else if i = 0x04 then Some MtSubscribeOk
      else if i = 0x05 then Some MtSubscribeError
      else if i = 0x06 then Some MtAnnounce
      else if i = 0x07 then Some MtAnnounceOk
      else if i = 0x08 then Some MtAnnounceError
      else if i = 0x09 then Some MtUnannounce
      else if i = 0x0A then Some MtUnsubscribe
      else if i = 0x0B then Some MtSubscribeDone
      else if i = 0x0C then Some MtAnnounceCancel
      else if i = 0x0D then Some MtTrackStatusRequest
      else if i = 0x0E then Some MtTrackStatus
      else if i = 0x10 then Some MtGoAway
      else if i = 0x11 then Some MtSubscribeAnnounces
      else if i = 0x12 then Some MtSubscribeAnnouncesOk
      else if i = 0x13 then Some MtSubscribeAnnouncesError
      else if i = 0x14 then Some MtUnsubscribeAnnounces
      else if i = 0x15 then Some MtMaxSubscribeId
      else if i = 0x16 then Some MtFetch
      else if i = 0x17 then Some MtFetchCancel
      else if i = 0x18 then Some MtFetchOk
      else if i = 0x19 then Some MtFetchError
      else if i = 0x40 then Some MtClientSetup
      else if i = 0x41 then Some MtServerSetup
      else None)"

fun mt_id :: "message_type \<Rightarrow> u64" where
  "mt_id MtSubscribeUpdate = 0x02"
| "mt_id MtSubscribe = 0x03"
| "mt_id MtSubscribeOk = 0x04"
| "mt_id MtSubscribeError = 0x05"
| "mt_id MtAnnounce = 0x06"
| "mt_id MtAnnounceOk = 0x07"
| "mt_id MtAnnounceError = 0x08"
| "mt_id MtUnannounce = 0x09"
| "mt_id MtUnsubscribe = 0x0A"
| "mt_id MtSubscribeDone = 0x0B"
| "mt_id MtAnnounceCancel = 0x0C"
| "mt_id MtTrackStatusRequest = 0x0D"
| "mt_id MtTrackStatus = 0x0E"
| "mt_id MtGoAway = 0x10"
| "mt_id MtSubscribeAnnounces = 0x11"
| "mt_id MtSubscribeAnnouncesOk = 0x12"
| "mt_id MtSubscribeAnnouncesError = 0x13"
| "mt_id MtUnsubscribeAnnounces = 0x14"
| "mt_id MtMaxSubscribeId = 0x15"
| "mt_id MtFetch = 0x16"
| "mt_id MtFetchCancel = 0x17"
| "mt_id MtFetchOk = 0x18"
| "mt_id MtFetchError = 0x19"
| "mt_id MtClientSetup = 0x40"
| "mt_id MtServerSetup = 0x41"

fun mt_name :: "message_type \<Rightarrow> string" where
  "mt_name MtSubscribeUpdate = ''subscribe_update''"
| "mt_name MtSubscribe = ''subscribe''"
| "mt_name MtSubscribeOk = ''subscribe_ok''"
| "mt_name MtSubscribeError = ''subscribe_error''"
| "mt_name MtAnnounce = ''announce''"
| "mt_name MtAnnounceOk = ''announce_ok''"
| "mt_name MtAnnounceError = ''announce_error''"
| "mt_name MtUnannounce = ''unannounce''"
| "mt_name MtUnsubscribe = ''unsubscribe''"
| "mt_name MtSubscribeDone = ''subscribe_done''"
| "mt_name MtAnnounceCancel = ''announce_cancel''"
| "mt_name MtTrackStatusRequest = ''track_status_request''"
| "mt_name MtTrackStatus = ''track_status''"
| "mt_name MtGoAway = ''goaway''"
| "mt_name MtSubscribeAnnounces = ''subscribe_announces''"
| "mt_name MtSubscribeAnnouncesOk = ''subscribe_announces_ok''"
| "mt_name MtSubscribeAnnouncesError = ''subscribe_announces_error''"
| "mt_name MtUnsubscribeAnnounces = ''unsubscribe_announces''"
| "mt_name MtMaxSubscribeId = ''max_subscribe_id''"
| "mt_name MtFetch = ''fetch''"
| "mt_name MtFetchCancel = ''fetch_cancel''"
| "mt_name MtFetchOk = ''fetch_ok''"
| "mt_name MtFetchError = ''fetch_error''"
| "mt_name MtClientSetup = ''client_setup''"
| "mt_name MtServerSetup = ''server_setup''"

section \<open>Each table is one correspondence\<close>

interpretation sec: code_points sec_as_u64 sec_from_u64
proof
  show "sec_from_u64 v = Some x \<longleftrightarrow> v = sec_as_u64 x" for v x
    by (cases x) (auto simp: sec_from_u64_def split: if_splits)
qed

interpretation sue: code_points sue_as_u64 sue_from_u64
proof
  show "sue_from_u64 v = Some x \<longleftrightarrow> v = sue_as_u64 x" for v x
    by (cases x) (auto simp: sue_from_u64_def split: if_splits)
qed

interpretation sds: code_points sds_as_u64 sds_from_u64
proof
  show "sds_from_u64 v = Some x \<longleftrightarrow> v = sds_as_u64 x" for v x
    by (cases x) (auto simp: sds_from_u64_def split: if_splits)
qed

interpretation tsc: code_points tsc_as_u64 tsc_from_u64
proof
  show "tsc_from_u64 v = Some x \<longleftrightarrow> v = tsc_as_u64 x" for v x
    by (cases x) (auto simp: tsc_from_u64_def split: if_splits)
qed

interpretation role: code_points role_as_u8 role_from_u8
proof
  show "role_from_u8 v = Some x \<longleftrightarrow> v = role_as_u8 x" for v x
    by (cases x) (auto simp: role_from_u8_def split: if_splits)
qed

interpretation os: code_points os_as_u64 os_from_u64
proof
  show "os_from_u64 v = Some x \<longleftrightarrow> v = os_as_u64 x" for v x
    by (cases x) (auto simp: os_from_u64_def split: if_splits)
qed

lemma mt_from_id_id: "mt_from_id (mt_id t) = Some t"
  by (cases t) (simp_all add: mt_from_id_def)

lemma mt_id_from_id: "mt_from_id i = Some t \<Longrightarrow> mt_id t = i"
  unfolding mt_from_id_def by (simp split: if_split_asm)

interpretation mt: code_points mt_id mt_from_id
  by unfold_locales (metis mt_from_id_id mt_id_from_id)

end
