(* ===== verification/Draft07_Message.thy ===== *)
theory Draft07_Message
  imports Draft07_Codes
begin

text \<open>
  \<open>draft07/message.rs\<close>: the control messages of draft-07, one record per message, one writer and
  one reader per arm of \<open>encode_payload\<close> and \<open>decode_payload\<close>, the checks both directions share, and
  the frame around a payload. A \<open>Vec<u8>\<close> payload that an error abandons is not observable, so a
  writer is the error or the bytes.
\<close>

section \<open>Messages\<close>

record client_setup =
  cs_supported_versions :: "varint list"
  cs_parameters :: "key_value_pair list"

record server_setup =
  ss_selected_version :: varint
  ss_parameters :: "key_value_pair list"

record go_away =
  ga_new_session_uri :: bytes

record max_subscribe_id =
  ms_subscribe_id :: varint

record subscribe =
  s_subscribe_id :: varint
  s_track_alias :: varint
  s_track_namespace :: track_namespace
  s_track_name :: bytes
  s_subscriber_priority :: u8
  s_group_order :: group_order
  s_filter_type :: filter_type
  s_start_location :: "location option"
  s_end_group :: "varint option"
  s_end_object :: "varint option"
  s_parameters :: "key_value_pair list"

record subscribe_ok =
  so_subscribe_id :: varint
  so_expires :: varint
  so_group_order :: group_order
  so_content_exists :: content_exists
  so_largest_group_id :: "varint option"
  so_largest_object_id :: "varint option"
  so_parameters :: "key_value_pair list"

record subscribe_error =
  se_subscribe_id :: varint
  se_error_code :: varint
  se_reason_phrase :: bytes
  se_track_alias :: varint

record subscribe_update =
  su_subscribe_id :: varint
  su_start_group :: varint
  su_start_object :: varint
  su_end_group :: varint
  su_end_object :: varint
  su_subscriber_priority :: u8
  su_parameters :: "key_value_pair list"

record subscribe_done =
  sd_subscribe_id :: varint
  sd_status_code :: varint
  sd_reason_phrase :: bytes
  sd_content_exists :: content_exists
  sd_final_group :: "varint option"
  sd_final_object :: "varint option"

record unsubscribe =
  us_subscribe_id :: varint

record announce =
  an_track_namespace :: track_namespace
  an_parameters :: "key_value_pair list"

record announce_ok =
  ao_track_namespace :: track_namespace

record announce_error =
  ae_track_namespace :: track_namespace
  ae_error_code :: varint
  ae_reason_phrase :: bytes

record announce_cancel =
  ac_track_namespace :: track_namespace
  ac_error_code :: varint
  ac_reason_phrase :: bytes

record unannounce =
  ua_track_namespace :: track_namespace

record subscribe_announces =
  sa_track_namespace_prefix :: track_namespace
  sa_parameters :: "key_value_pair list"

record subscribe_announces_ok =
  sao_track_namespace_prefix :: track_namespace

record subscribe_announces_error =
  sae_track_namespace_prefix :: track_namespace
  sae_error_code :: varint
  sae_reason_phrase :: bytes

record unsubscribe_announces =
  usa_track_namespace_prefix :: track_namespace

record track_status_request =
  tsr_track_namespace :: track_namespace
  tsr_track_name :: bytes

record track_status =
  ts_track_namespace :: track_namespace
  ts_track_name :: bytes
  ts_status_code :: varint
  ts_last_group_id :: varint
  ts_last_object_id :: varint

record fetch =
  f_subscribe_id :: varint
  f_track_namespace :: track_namespace
  f_track_name :: bytes
  f_subscriber_priority :: u8
  f_group_order :: group_order
  f_start_group :: varint
  f_start_object :: varint
  f_end_group :: varint
  f_end_object :: varint
  f_parameters :: "key_value_pair list"

record fetch_ok =
  fo_subscribe_id :: varint
  fo_group_order :: group_order
  fo_end_of_track :: u8
  fo_largest_group_id :: "varint option"
  fo_largest_object_id :: "varint option"
  fo_parameters :: "key_value_pair list"

record fetch_error =
  fe_subscribe_id :: varint
  fe_error_code :: varint
  fe_reason_phrase :: bytes

record fetch_cancel =
  fc_subscribe_id :: varint

datatype (plugins only: code) control_message =
    CmClientSetup client_setup
  | CmServerSetup server_setup
  | CmGoAway go_away
  | CmMaxSubscribeId max_subscribe_id
  | CmSubscribe subscribe
  | CmSubscribeOk subscribe_ok
  | CmSubscribeError subscribe_error
  | CmSubscribeUpdate subscribe_update
  | CmSubscribeDone subscribe_done
  | CmUnsubscribe unsubscribe
  | CmAnnounce announce
  | CmAnnounceOk announce_ok
  | CmAnnounceError announce_error
  | CmAnnounceCancel announce_cancel
  | CmUnannounce unannounce
  | CmSubscribeAnnounces subscribe_announces
  | CmSubscribeAnnouncesOk subscribe_announces_ok
  | CmSubscribeAnnouncesError subscribe_announces_error
  | CmUnsubscribeAnnounces unsubscribe_announces
  | CmTrackStatusRequest track_status_request
  | CmTrackStatus track_status
  | CmFetch fetch
  | CmFetchOk fetch_ok
  | CmFetchError fetch_error
  | CmFetchCancel fetch_cancel

definition cm_message_type :: "control_message \<Rightarrow> message_type" where
  "cm_message_type m =
     (case m of
        CmClientSetup _ \<Rightarrow> MtClientSetup
      | CmServerSetup _ \<Rightarrow> MtServerSetup
      | CmGoAway _ \<Rightarrow> MtGoAway
      | CmMaxSubscribeId _ \<Rightarrow> MtMaxSubscribeId
      | CmSubscribe _ \<Rightarrow> MtSubscribe
      | CmSubscribeOk _ \<Rightarrow> MtSubscribeOk
      | CmSubscribeError _ \<Rightarrow> MtSubscribeError
      | CmSubscribeUpdate _ \<Rightarrow> MtSubscribeUpdate
      | CmSubscribeDone _ \<Rightarrow> MtSubscribeDone
      | CmUnsubscribe _ \<Rightarrow> MtUnsubscribe
      | CmAnnounce _ \<Rightarrow> MtAnnounce
      | CmAnnounceOk _ \<Rightarrow> MtAnnounceOk
      | CmAnnounceError _ \<Rightarrow> MtAnnounceError
      | CmAnnounceCancel _ \<Rightarrow> MtAnnounceCancel
      | CmUnannounce _ \<Rightarrow> MtUnannounce
      | CmSubscribeAnnounces _ \<Rightarrow> MtSubscribeAnnounces
      | CmSubscribeAnnouncesOk _ \<Rightarrow> MtSubscribeAnnouncesOk
      | CmSubscribeAnnouncesError _ \<Rightarrow> MtSubscribeAnnouncesError
      | CmUnsubscribeAnnounces _ \<Rightarrow> MtUnsubscribeAnnounces
      | CmTrackStatusRequest _ \<Rightarrow> MtTrackStatusRequest
      | CmTrackStatus _ \<Rightarrow> MtTrackStatus
      | CmFetch _ \<Rightarrow> MtFetch
      | CmFetchOk _ \<Rightarrow> MtFetchOk
      | CmFetchError _ \<Rightarrow> MtFetchError
      | CmFetchCancel _ \<Rightarrow> MtFetchCancel)"

section \<open>Checks\<close>

definition read_group_order_response :: "bytes \<Rightarrow> codec_error + group_order \<times> bytes" where
  "read_group_order_response bs =
     (if bs = [] then Inl UnexpectedEnd
      else case get_u8 bs of (b, bs) \<Rightarrow>
        and_then (ok_or (group_order_from_u8 b) InvalidField) (\<lambda>g.
        if g = GoPublisher then Inl InvalidField else Inr (g, bs)))"

definition check_track_status :: "varint \<Rightarrow> varint \<Rightarrow> varint \<Rightarrow> codec_error + unit" where
  "check_track_status status_code last_group_id last_object_id =
     and_then (ok_or (tsc_from_u64 (into_inner status_code)) InvalidField) (\<lambda>code.
     if requires_zero_location code
       \<and> (into_inner last_group_id \<noteq> 0 \<or> into_inner last_object_id \<noteq> 0)
     then Inl InvalidField else Inr ())"

definition check_discriminators :: "control_message \<Rightarrow> codec_error + unit" where
  "check_discriminators message =
     (case message of
        CmSubscribe m \<Rightarrow>
          (let wants_start = (s_filter_type m = AbsoluteStart \<or> s_filter_type m = AbsoluteRange);
               wants_end = (s_filter_type m = AbsoluteRange)
           in if wants_start \<noteq> (s_start_location m \<noteq> None) then Inl InvalidField
              else if wants_end \<noteq> (s_end_group m \<noteq> None) \<or> wants_end \<noteq> (s_end_object m \<noteq> None)
              then Inl InvalidField
              else Inr ())
      | CmSubscribeOk m \<Rightarrow>
          (let has = (so_content_exists m = HasLargestLocation)
           in if has \<noteq> (so_largest_group_id m \<noteq> None) \<or> has \<noteq> (so_largest_object_id m \<noteq> None)
              then Inl InvalidField else Inr ())
      | _ \<Rightarrow> Inr ())"

definition check_group_order :: "control_message \<Rightarrow> codec_error + unit" where
  "check_group_order message =
     (case message of
        CmSubscribeOk m \<Rightarrow>
          if so_group_order m = GoPublisher then Inl InvalidField else Inr ()
      | CmFetchOk m \<Rightarrow>
          if fo_group_order m = GoPublisher then Inl InvalidField else Inr ()
      | _ \<Rightarrow> Inr ())"

definition check_ranges :: "control_message \<Rightarrow> codec_error + unit" where
  "check_ranges message =
     (case message of
        CmSubscribe m \<Rightarrow>
          (case (s_start_location m, s_end_group m, s_end_object m) of
             (Some start, Some end_group, Some end_object) \<Rightarrow>
               check_location_range (into_inner (loc_group start)) (into_inner (loc_object start))
                 (into_inner end_group) (into_inner end_object)
           | _ \<Rightarrow> Inr ())
      | CmSubscribeUpdate m \<Rightarrow>
          check_open_ended_group_range (into_inner (su_start_group m)) (into_inner (su_end_group m))
      | CmFetch m \<Rightarrow>
          check_location_range (into_inner (f_start_group m)) (into_inner (f_start_object m))
            (into_inner (f_end_group m)) (into_inner (f_end_object m))
      | _ \<Rightarrow> Inr ())"

section \<open>Parameters\<close>

text \<open>The loop of \<open>check_no_duplicate_parameters\<close>; \<open>earlier\<close> is \<open>parameters[..i]\<close>.\<close>

fun check_no_duplicate_from ::
  "key_value_pair list \<Rightarrow> key_value_pair list \<Rightarrow> codec_error + unit" where
  "check_no_duplicate_from earlier [] = Inr ()"
| "check_no_duplicate_from earlier (p # ps) =
     (if list_ex (\<lambda>q. kvp_key q = kvp_key p) earlier
      then Inl (DuplicateParameter (into_inner (kvp_key p)))
      else check_no_duplicate_from (earlier @ [p]) ps)"

definition check_no_duplicate_parameters :: "key_value_pair list \<Rightarrow> codec_error + unit" where
  "check_no_duplicate_parameters parameters = check_no_duplicate_from [] parameters"

definition SETUP_VARINT_PARAMETERS :: "u64 list" where
  "SETUP_VARINT_PARAMETERS = [0x00, 0x02]"

definition VERSION_VARINT_PARAMETERS :: "u64 list" where
  "VERSION_VARINT_PARAMETERS = [0x03, 0x04]"

definition one_varint :: "bytes \<Rightarrow> bool" where
  "one_varint b = (case varint_decode b of Inr (v, cursor) \<Rightarrow> cursor = [] | Inl e \<Rightarrow> False)"

fun check_parameter_lengths :: "key_value_pair list \<Rightarrow> u64 list \<Rightarrow> codec_error + unit" where
  "check_parameter_lengths [] varint_typed = Inr ()"
| "check_parameter_lengths (p # ps) varint_typed =
     (if into_inner (kvp_key p) \<notin> set varint_typed then check_parameter_lengths ps varint_typed
      else case kvp_value p of
        KvpBytes b \<Rightarrow>
          if \<not> one_varint b then Inl (ParameterLengthMismatch (into_inner (kvp_key p)))
          else check_parameter_lengths ps varint_typed
      | KvpVarint v \<Rightarrow> check_parameter_lengths ps varint_typed)"

definition decode_parameters :: "bytes \<Rightarrow> codec_error + key_value_pair list \<times> bytes" where
  "decode_parameters bs =
     rd (map_err CodecKvp (kvp_decode_list_d07 bs)) (\<lambda>parameters bs.
     and_then (check_no_duplicate_parameters parameters) (\<lambda>_.
     and_then (check_parameter_lengths parameters VERSION_VARINT_PARAMETERS) (\<lambda>_.
     Inr (parameters, bs))))"

definition encode_parameters :: "key_value_pair list \<Rightarrow> codec_error + bytes" where
  "encode_parameters parameters =
     and_then (check_no_duplicate_parameters parameters) (\<lambda>_.
     and_then (check_parameter_lengths parameters VERSION_VARINT_PARAMETERS) (\<lambda>_.
     Inr (kvp_encode_list_d07 parameters)))"

definition decode_setup_parameters :: "bytes \<Rightarrow> codec_error + key_value_pair list \<times> bytes" where
  "decode_setup_parameters bs =
     rd (map_err CodecKvp (kvp_decode_list_d07 bs)) (\<lambda>parameters bs.
     and_then (check_no_duplicate_parameters parameters) (\<lambda>_.
     and_then (check_parameter_lengths parameters SETUP_VARINT_PARAMETERS) (\<lambda>_.
     Inr (parameters, bs))))"

definition encode_setup_parameters :: "key_value_pair list \<Rightarrow> codec_error + bytes" where
  "encode_setup_parameters parameters =
     and_then (check_no_duplicate_parameters parameters) (\<lambda>_.
     and_then (check_parameter_lengths parameters SETUP_VARINT_PARAMETERS) (\<lambda>_.
     Inr (kvp_encode_list_d07 parameters)))"

text \<open>Spelled out at each use in the code: a length-prefixed byte string, and the one-byte
  \<open>content_exists\<close> flag.\<close>

definition put_prefixed :: "bytes \<Rightarrow> bytes" where
  "put_prefixed b = varint_encode (from_usize (length b)) @ b"

definition read_prefixed :: "bytes \<Rightarrow> codec_error + bytes \<times> bytes" where
  "read_prefixed bs = rd (vi varint_decode bs) (\<lambda>len bs. read_bytes bs (usize len))"

definition content_exists_from :: "u8 \<Rightarrow> codec_error + content_exists" where
  "content_exists_from b =
     (if b = 0 then Inr NoLargestLocation
      else if b = 1 then Inr HasLargestLocation
      else Inl (InvalidContentExists b))"

definition opt_varint :: "varint option \<Rightarrow> bytes" where
  "opt_varint v = (case v of Some x \<Rightarrow> varint_encode x | None \<Rightarrow> [])"

end
