(* ===== verification/Draft07_Payload.thy ===== *)
theory Draft07_Payload
  imports Draft07_Message
begin

text \<open>
  \<open>draft07/message.rs\<close>, second half: the arms of \<open>encode_payload\<close> and \<open>decode_payload\<close>, and the frame
  that \<open>encode\<close> and \<open>decode\<close> put around them.
\<close>

section \<open>Writers\<close>

definition enc_client_setup :: "client_setup \<Rightarrow> codec_error + bytes" where
  "enc_client_setup m =
     and_then (encode_setup_parameters (cs_parameters m)) (\<lambda>ps.
     Inr (varint_encode (from_usize (length (cs_supported_versions m)))
          @ concat (map varint_encode (cs_supported_versions m)) @ ps))"

definition enc_server_setup :: "server_setup \<Rightarrow> codec_error + bytes" where
  "enc_server_setup m =
     and_then (encode_setup_parameters (ss_parameters m)) (\<lambda>ps.
     Inr (varint_encode (ss_selected_version m) @ ps))"

definition enc_go_away :: "go_away \<Rightarrow> codec_error + bytes" where
  "enc_go_away m = Inr (put_prefixed (ga_new_session_uri m))"

definition enc_max_subscribe_id :: "max_subscribe_id \<Rightarrow> codec_error + bytes" where
  "enc_max_subscribe_id m = Inr (varint_encode (ms_subscribe_id m))"

definition enc_subscribe :: "subscribe \<Rightarrow> codec_error + bytes" where
  "enc_subscribe m =
     and_then (validate (for_draft 7) (s_track_namespace m)) (\<lambda>_.
     and_then (encode_parameters (s_parameters m)) (\<lambda>ps.
     Inr (varint_encode (s_subscribe_id m)
          @ varint_encode (s_track_alias m)
          @ namespace_encode (s_track_namespace m)
          @ put_prefixed (s_track_name m)
          @ [s_subscriber_priority m]
          @ [group_order_as_u8 (s_group_order m)]
          @ [filter_type_as_u8 (s_filter_type m)]
          @ (case s_start_location m of Some l \<Rightarrow> location_encode l | None \<Rightarrow> [])
          @ opt_varint (s_end_group m)
          @ opt_varint (s_end_object m)
          @ ps)))"

definition enc_subscribe_ok :: "subscribe_ok \<Rightarrow> codec_error + bytes" where
  "enc_subscribe_ok m =
     and_then (encode_parameters (so_parameters m)) (\<lambda>ps.
     Inr (varint_encode (so_subscribe_id m)
          @ varint_encode (so_expires m)
          @ [group_order_as_u8 (so_group_order m)]
          @ [content_exists_as_u8 (so_content_exists m)]
          @ opt_varint (so_largest_group_id m)
          @ opt_varint (so_largest_object_id m)
          @ ps))"

definition enc_subscribe_error :: "subscribe_error \<Rightarrow> codec_error + bytes" where
  "enc_subscribe_error m =
     Inr (varint_encode (se_subscribe_id m)
          @ varint_encode (se_error_code m)
          @ put_prefixed (se_reason_phrase m)
          @ varint_encode (se_track_alias m))"

definition enc_subscribe_update :: "subscribe_update \<Rightarrow> codec_error + bytes" where
  "enc_subscribe_update m =
     and_then (encode_parameters (su_parameters m)) (\<lambda>ps.
     Inr (varint_encode (su_subscribe_id m)
          @ varint_encode (su_start_group m)
          @ varint_encode (su_start_object m)
          @ varint_encode (su_end_group m)
          @ varint_encode (su_end_object m)
          @ [su_subscriber_priority m]
          @ ps))"

definition enc_subscribe_done :: "subscribe_done \<Rightarrow> codec_error + bytes" where
  "enc_subscribe_done m =
     Inr (varint_encode (sd_subscribe_id m)
          @ varint_encode (sd_status_code m)
          @ put_prefixed (sd_reason_phrase m)
          @ [content_exists_as_u8 (sd_content_exists m)]
          @ opt_varint (sd_final_group m)
          @ opt_varint (sd_final_object m))"

definition enc_unsubscribe :: "unsubscribe \<Rightarrow> codec_error + bytes" where
  "enc_unsubscribe m = Inr (varint_encode (us_subscribe_id m))"

definition enc_announce :: "announce \<Rightarrow> codec_error + bytes" where
  "enc_announce m =
     and_then (validate (for_draft 7) (an_track_namespace m)) (\<lambda>_.
     and_then (encode_parameters (an_parameters m)) (\<lambda>ps.
     Inr (namespace_encode (an_track_namespace m) @ ps)))"

definition enc_announce_ok :: "announce_ok \<Rightarrow> codec_error + bytes" where
  "enc_announce_ok m =
     and_then (validate (for_draft 7) (ao_track_namespace m)) (\<lambda>_.
     Inr (namespace_encode (ao_track_namespace m)))"

definition enc_announce_error :: "announce_error \<Rightarrow> codec_error + bytes" where
  "enc_announce_error m =
     and_then (validate (for_draft 7) (ae_track_namespace m)) (\<lambda>_.
     Inr (namespace_encode (ae_track_namespace m)
          @ varint_encode (ae_error_code m)
          @ put_prefixed (ae_reason_phrase m)))"

definition enc_announce_cancel :: "announce_cancel \<Rightarrow> codec_error + bytes" where
  "enc_announce_cancel m =
     and_then (validate (for_draft 7) (ac_track_namespace m)) (\<lambda>_.
     Inr (namespace_encode (ac_track_namespace m)
          @ varint_encode (ac_error_code m)
          @ put_prefixed (ac_reason_phrase m)))"

definition enc_unannounce :: "unannounce \<Rightarrow> codec_error + bytes" where
  "enc_unannounce m =
     and_then (validate (for_draft 7) (ua_track_namespace m)) (\<lambda>_.
     Inr (namespace_encode (ua_track_namespace m)))"

definition enc_subscribe_announces :: "subscribe_announces \<Rightarrow> codec_error + bytes" where
  "enc_subscribe_announces m =
     and_then (validate (for_draft 7) (sa_track_namespace_prefix m)) (\<lambda>_.
     and_then (encode_parameters (sa_parameters m)) (\<lambda>ps.
     Inr (namespace_encode (sa_track_namespace_prefix m) @ ps)))"

definition enc_subscribe_announces_ok :: "subscribe_announces_ok \<Rightarrow> codec_error + bytes" where
  "enc_subscribe_announces_ok m =
     and_then (validate (for_draft 7) (sao_track_namespace_prefix m)) (\<lambda>_.
     Inr (namespace_encode (sao_track_namespace_prefix m)))"

definition enc_subscribe_announces_error ::
  "subscribe_announces_error \<Rightarrow> codec_error + bytes" where
  "enc_subscribe_announces_error m =
     and_then (validate (for_draft 7) (sae_track_namespace_prefix m)) (\<lambda>_.
     Inr (namespace_encode (sae_track_namespace_prefix m)
          @ varint_encode (sae_error_code m)
          @ put_prefixed (sae_reason_phrase m)))"

definition enc_unsubscribe_announces :: "unsubscribe_announces \<Rightarrow> codec_error + bytes" where
  "enc_unsubscribe_announces m =
     and_then (validate (for_draft 7) (usa_track_namespace_prefix m)) (\<lambda>_.
     Inr (namespace_encode (usa_track_namespace_prefix m)))"

definition enc_track_status_request :: "track_status_request \<Rightarrow> codec_error + bytes" where
  "enc_track_status_request m =
     and_then (validate (for_draft 7) (tsr_track_namespace m)) (\<lambda>_.
     Inr (namespace_encode (tsr_track_namespace m) @ put_prefixed (tsr_track_name m)))"

definition enc_track_status :: "track_status \<Rightarrow> codec_error + bytes" where
  "enc_track_status m =
     and_then (validate (for_draft 7) (ts_track_namespace m)) (\<lambda>_.
     and_then (check_track_status (ts_status_code m) (ts_last_group_id m) (ts_last_object_id m))
       (\<lambda>_.
     Inr (namespace_encode (ts_track_namespace m)
          @ put_prefixed (ts_track_name m)
          @ varint_encode (ts_status_code m)
          @ varint_encode (ts_last_group_id m)
          @ varint_encode (ts_last_object_id m))))"

definition enc_fetch :: "fetch \<Rightarrow> codec_error + bytes" where
  "enc_fetch m =
     and_then (validate (for_draft 7) (f_track_namespace m)) (\<lambda>_.
     and_then (encode_parameters (f_parameters m)) (\<lambda>ps.
     Inr (varint_encode (f_subscribe_id m)
          @ namespace_encode (f_track_namespace m)
          @ put_prefixed (f_track_name m)
          @ [f_subscriber_priority m]
          @ [group_order_as_u8 (f_group_order m)]
          @ varint_encode (f_start_group m)
          @ varint_encode (f_start_object m)
          @ varint_encode (f_end_group m)
          @ varint_encode (f_end_object m)
          @ ps)))"

definition enc_fetch_ok :: "fetch_ok \<Rightarrow> codec_error + bytes" where
  "enc_fetch_ok m =
     and_then (encode_parameters (fo_parameters m)) (\<lambda>ps.
     Inr (varint_encode (fo_subscribe_id m)
          @ [group_order_as_u8 (fo_group_order m)]
          @ [fo_end_of_track m]
          @ opt_varint (fo_largest_group_id m)
          @ opt_varint (fo_largest_object_id m)
          @ ps))"

definition enc_fetch_error :: "fetch_error \<Rightarrow> codec_error + bytes" where
  "enc_fetch_error m =
     Inr (varint_encode (fe_subscribe_id m)
          @ varint_encode (fe_error_code m)
          @ put_prefixed (fe_reason_phrase m))"

definition enc_fetch_cancel :: "fetch_cancel \<Rightarrow> codec_error + bytes" where
  "enc_fetch_cancel m = Inr (varint_encode (fc_subscribe_id m))"

definition encode_payload :: "control_message \<Rightarrow> codec_error + bytes" where
  "encode_payload message =
     (case message of
        CmClientSetup m \<Rightarrow> enc_client_setup m
      | CmServerSetup m \<Rightarrow> enc_server_setup m
      | CmGoAway m \<Rightarrow> enc_go_away m
      | CmMaxSubscribeId m \<Rightarrow> enc_max_subscribe_id m
      | CmSubscribe m \<Rightarrow> enc_subscribe m
      | CmSubscribeOk m \<Rightarrow> enc_subscribe_ok m
      | CmSubscribeError m \<Rightarrow> enc_subscribe_error m
      | CmSubscribeUpdate m \<Rightarrow> enc_subscribe_update m
      | CmSubscribeDone m \<Rightarrow> enc_subscribe_done m
      | CmUnsubscribe m \<Rightarrow> enc_unsubscribe m
      | CmAnnounce m \<Rightarrow> enc_announce m
      | CmAnnounceOk m \<Rightarrow> enc_announce_ok m
      | CmAnnounceError m \<Rightarrow> enc_announce_error m
      | CmAnnounceCancel m \<Rightarrow> enc_announce_cancel m
      | CmUnannounce m \<Rightarrow> enc_unannounce m
      | CmSubscribeAnnounces m \<Rightarrow> enc_subscribe_announces m
      | CmSubscribeAnnouncesOk m \<Rightarrow> enc_subscribe_announces_ok m
      | CmSubscribeAnnouncesError m \<Rightarrow> enc_subscribe_announces_error m
      | CmUnsubscribeAnnounces m \<Rightarrow> enc_unsubscribe_announces m
      | CmTrackStatusRequest m \<Rightarrow> enc_track_status_request m
      | CmTrackStatus m \<Rightarrow> enc_track_status m
      | CmFetch m \<Rightarrow> enc_fetch m
      | CmFetchOk m \<Rightarrow> enc_fetch_ok m
      | CmFetchError m \<Rightarrow> enc_fetch_error m
      | CmFetchCancel m \<Rightarrow> enc_fetch_cancel m)"

section \<open>Readers\<close>

definition dec_client_setup :: "bytes \<Rightarrow> codec_error + client_setup \<times> bytes" where
  "dec_client_setup bs =
     rd (vi varint_decode bs) (\<lambda>num_versions bs.
     if usize num_versions = 0 then Inl InvalidField
     else rd (decode_n (vi varint_decode) (usize num_versions) bs) (\<lambda>versions bs.
          rd (decode_setup_parameters bs) (\<lambda>ps bs.
          Inr (\<lparr> cs_supported_versions = versions, cs_parameters = ps \<rparr>, bs))))"

definition dec_server_setup :: "bytes \<Rightarrow> codec_error + server_setup \<times> bytes" where
  "dec_server_setup bs =
     rd (vi varint_decode bs) (\<lambda>v bs.
     rd (decode_setup_parameters bs) (\<lambda>ps bs.
     Inr (\<lparr> ss_selected_version = v, ss_parameters = ps \<rparr>, bs)))"

definition dec_go_away :: "bytes \<Rightarrow> codec_error + go_away \<times> bytes" where
  "dec_go_away bs =
     rd (read_prefixed bs) (\<lambda>uri bs. Inr (\<lparr> ga_new_session_uri = uri \<rparr>, bs))"

definition dec_max_subscribe_id :: "bytes \<Rightarrow> codec_error + max_subscribe_id \<times> bytes" where
  "dec_max_subscribe_id bs =
     rd (vi varint_decode bs) (\<lambda>i bs. Inr (\<lparr> ms_subscribe_id = i \<rparr>, bs))"

definition dec_subscribe :: "bytes \<Rightarrow> codec_error + subscribe \<times> bytes" where
  "dec_subscribe bs =
     rd (vi varint_decode bs) (\<lambda>i bs.
     rd (vi varint_decode bs) (\<lambda>al bs.
     rd (namespace_decode bs) (\<lambda>ns bs.
     rd (read_prefixed bs) (\<lambda>name bs.
     if length bs < 3 then Inl UnexpectedEnd
     else case get_u8 bs of (prio, bs) \<Rightarrow>
       case get_u8 bs of (go, bs) \<Rightarrow>
       and_then (ok_or (group_order_from_u8 go) InvalidField) (\<lambda>group_order.
       case get_u8 bs of (fv, bs) \<Rightarrow>
       and_then (ok_or (filter_type_from_u8 fv) (InvalidFilterType (ucast fv))) (\<lambda>filter_type.
       rd (if filter_type = AbsoluteStart \<or> filter_type = AbsoluteRange
           then rd (location_decode bs) (\<lambda>l bs. Inr (Some l, bs))
           else Inr (None, bs)) (\<lambda>start bs.
       rd (if filter_type = AbsoluteRange
           then rd (vi varint_decode bs) (\<lambda>eg bs.
                rd (vi varint_decode bs) (\<lambda>eo bs. Inr ((Some eg, Some eo), bs)))
           else Inr ((None, None), bs)) (\<lambda>ends bs.
       rd (decode_parameters bs) (\<lambda>ps bs.
       Inr (\<lparr> s_subscribe_id = i, s_track_alias = al, s_track_namespace = ns,
              s_track_name = name, s_subscriber_priority = prio, s_group_order = group_order,
              s_filter_type = filter_type, s_start_location = start, s_end_group = fst ends,
              s_end_object = snd ends, s_parameters = ps \<rparr>, bs))))))))))"

definition dec_subscribe_ok :: "bytes \<Rightarrow> codec_error + subscribe_ok \<times> bytes" where
  "dec_subscribe_ok bs =
     rd (vi varint_decode bs) (\<lambda>i bs.
     rd (vi varint_decode bs) (\<lambda>ex bs.
     if length bs < 2 then Inl UnexpectedEnd
     else
       rd (read_group_order_response bs) (\<lambda>group_order bs.
       case get_u8 bs of (b, bs) \<Rightarrow>
       and_then (content_exists_from b) (\<lambda>content_exists.
       rd (if content_exists = HasLargestLocation
           then rd (vi varint_decode bs) (\<lambda>gid bs.
                rd (vi varint_decode bs) (\<lambda>oid bs. Inr ((Some gid, Some oid), bs)))
           else Inr ((None, None), bs)) (\<lambda>largest bs.
       rd (decode_parameters bs) (\<lambda>ps bs.
       Inr (\<lparr> so_subscribe_id = i, so_expires = ex, so_group_order = group_order,
              so_content_exists = content_exists, so_largest_group_id = fst largest,
              so_largest_object_id = snd largest, so_parameters = ps \<rparr>, bs)))))))"

definition dec_subscribe_error :: "bytes \<Rightarrow> codec_error + subscribe_error \<times> bytes" where
  "dec_subscribe_error bs =
     rd (vi varint_decode bs) (\<lambda>i bs.
     rd (vi varint_decode bs) (\<lambda>c bs.
     rd (read_prefixed bs) (\<lambda>reason bs.
     rd (vi varint_decode bs) (\<lambda>al bs.
     Inr (\<lparr> se_subscribe_id = i, se_error_code = c, se_reason_phrase = reason,
            se_track_alias = al \<rparr>, bs)))))"

definition dec_subscribe_update :: "bytes \<Rightarrow> codec_error + subscribe_update \<times> bytes" where
  "dec_subscribe_update bs =
     rd (vi varint_decode bs) (\<lambda>i bs.
     rd (vi varint_decode bs) (\<lambda>sg bs.
     rd (vi varint_decode bs) (\<lambda>so bs.
     rd (vi varint_decode bs) (\<lambda>eg bs.
     rd (vi varint_decode bs) (\<lambda>eo bs.
     if length bs < 1 then Inl UnexpectedEnd
     else case get_u8 bs of (prio, bs) \<Rightarrow>
       rd (decode_parameters bs) (\<lambda>ps bs.
       Inr (\<lparr> su_subscribe_id = i, su_start_group = sg, su_start_object = so, su_end_group = eg,
              su_end_object = eo, su_subscriber_priority = prio, su_parameters = ps \<rparr>, bs)))))))"

definition dec_subscribe_done :: "bytes \<Rightarrow> codec_error + subscribe_done \<times> bytes" where
  "dec_subscribe_done bs =
     rd (vi varint_decode bs) (\<lambda>i bs.
     rd (vi varint_decode bs) (\<lambda>c bs.
     rd (read_prefixed bs) (\<lambda>reason bs.
     if length bs < 1 then Inl UnexpectedEnd
     else case get_u8 bs of (b, bs) \<Rightarrow>
       and_then (content_exists_from b) (\<lambda>content_exists.
       rd (if content_exists = HasLargestLocation
           then rd (vi varint_decode bs) (\<lambda>fg bs.
                rd (vi varint_decode bs) (\<lambda>fo bs. Inr ((Some fg, Some fo), bs)))
           else Inr ((None, None), bs)) (\<lambda>final bs.
       Inr (\<lparr> sd_subscribe_id = i, sd_status_code = c, sd_reason_phrase = reason,
              sd_content_exists = content_exists, sd_final_group = fst final,
              sd_final_object = snd final \<rparr>, bs))))))"

definition dec_unsubscribe :: "bytes \<Rightarrow> codec_error + unsubscribe \<times> bytes" where
  "dec_unsubscribe bs =
     rd (vi varint_decode bs) (\<lambda>i bs. Inr (\<lparr> us_subscribe_id = i \<rparr>, bs))"

definition dec_announce :: "bytes \<Rightarrow> codec_error + announce \<times> bytes" where
  "dec_announce bs =
     rd (namespace_decode bs) (\<lambda>ns bs.
     rd (decode_parameters bs) (\<lambda>ps bs.
     Inr (\<lparr> an_track_namespace = ns, an_parameters = ps \<rparr>, bs)))"

definition dec_announce_ok :: "bytes \<Rightarrow> codec_error + announce_ok \<times> bytes" where
  "dec_announce_ok bs =
     rd (namespace_decode bs) (\<lambda>ns bs. Inr (\<lparr> ao_track_namespace = ns \<rparr>, bs))"

definition dec_announce_error :: "bytes \<Rightarrow> codec_error + announce_error \<times> bytes" where
  "dec_announce_error bs =
     rd (namespace_decode bs) (\<lambda>ns bs.
     rd (vi varint_decode bs) (\<lambda>c bs.
     rd (read_prefixed bs) (\<lambda>reason bs.
     Inr (\<lparr> ae_track_namespace = ns, ae_error_code = c, ae_reason_phrase = reason \<rparr>, bs))))"

definition dec_announce_cancel :: "bytes \<Rightarrow> codec_error + announce_cancel \<times> bytes" where
  "dec_announce_cancel bs =
     rd (namespace_decode bs) (\<lambda>ns bs.
     rd (vi varint_decode bs) (\<lambda>c bs.
     rd (read_prefixed bs) (\<lambda>reason bs.
     Inr (\<lparr> ac_track_namespace = ns, ac_error_code = c, ac_reason_phrase = reason \<rparr>, bs))))"

definition dec_unannounce :: "bytes \<Rightarrow> codec_error + unannounce \<times> bytes" where
  "dec_unannounce bs =
     rd (namespace_decode bs) (\<lambda>ns bs. Inr (\<lparr> ua_track_namespace = ns \<rparr>, bs))"

definition dec_subscribe_announces :: "bytes \<Rightarrow> codec_error + subscribe_announces \<times> bytes" where
  "dec_subscribe_announces bs =
     rd (namespace_decode bs) (\<lambda>ns bs.
     rd (decode_parameters bs) (\<lambda>ps bs.
     Inr (\<lparr> sa_track_namespace_prefix = ns, sa_parameters = ps \<rparr>, bs)))"

definition dec_subscribe_announces_ok ::
  "bytes \<Rightarrow> codec_error + subscribe_announces_ok \<times> bytes" where
  "dec_subscribe_announces_ok bs =
     rd (namespace_decode bs) (\<lambda>ns bs. Inr (\<lparr> sao_track_namespace_prefix = ns \<rparr>, bs))"

definition dec_subscribe_announces_error ::
  "bytes \<Rightarrow> codec_error + subscribe_announces_error \<times> bytes" where
  "dec_subscribe_announces_error bs =
     rd (namespace_decode bs) (\<lambda>ns bs.
     rd (vi varint_decode bs) (\<lambda>c bs.
     rd (read_prefixed bs) (\<lambda>reason bs.
     Inr (\<lparr> sae_track_namespace_prefix = ns, sae_error_code = c, sae_reason_phrase = reason \<rparr>,
          bs))))"

definition dec_unsubscribe_announces ::
  "bytes \<Rightarrow> codec_error + unsubscribe_announces \<times> bytes" where
  "dec_unsubscribe_announces bs =
     rd (namespace_decode bs) (\<lambda>ns bs. Inr (\<lparr> usa_track_namespace_prefix = ns \<rparr>, bs))"

definition dec_track_status_request ::
  "bytes \<Rightarrow> codec_error + track_status_request \<times> bytes" where
  "dec_track_status_request bs =
     rd (namespace_decode bs) (\<lambda>ns bs.
     rd (read_prefixed bs) (\<lambda>name bs.
     Inr (\<lparr> tsr_track_namespace = ns, tsr_track_name = name \<rparr>, bs)))"

definition dec_track_status :: "bytes \<Rightarrow> codec_error + track_status \<times> bytes" where
  "dec_track_status bs =
     rd (namespace_decode bs) (\<lambda>ns bs.
     rd (read_prefixed bs) (\<lambda>name bs.
     rd (vi varint_decode bs) (\<lambda>c bs.
     rd (vi varint_decode bs) (\<lambda>lg bs.
     rd (vi varint_decode bs) (\<lambda>lo bs.
     and_then (check_track_status c lg lo) (\<lambda>_.
     Inr (\<lparr> ts_track_namespace = ns, ts_track_name = name, ts_status_code = c,
            ts_last_group_id = lg, ts_last_object_id = lo \<rparr>, bs)))))))"

definition dec_fetch :: "bytes \<Rightarrow> codec_error + fetch \<times> bytes" where
  "dec_fetch bs =
     rd (vi varint_decode bs) (\<lambda>i bs.
     rd (namespace_decode bs) (\<lambda>ns bs.
     rd (read_prefixed bs) (\<lambda>name bs.
     if length bs < 2 then Inl UnexpectedEnd
     else case get_u8 bs of (prio, bs) \<Rightarrow>
       case get_u8 bs of (go, bs) \<Rightarrow>
       and_then (ok_or (group_order_from_u8 go) InvalidField) (\<lambda>group_order.
       rd (vi varint_decode bs) (\<lambda>sg bs.
       rd (vi varint_decode bs) (\<lambda>so bs.
       rd (vi varint_decode bs) (\<lambda>eg bs.
       rd (vi varint_decode bs) (\<lambda>eo bs.
       rd (decode_parameters bs) (\<lambda>ps bs.
       Inr (\<lparr> f_subscribe_id = i, f_track_namespace = ns, f_track_name = name,
              f_subscriber_priority = prio, f_group_order = group_order, f_start_group = sg,
              f_start_object = so, f_end_group = eg, f_end_object = eo,
              f_parameters = ps \<rparr>, bs))))))))))"

definition dec_fetch_ok :: "bytes \<Rightarrow> codec_error + fetch_ok \<times> bytes" where
  "dec_fetch_ok bs =
     rd (vi varint_decode bs) (\<lambda>i bs.
     if length bs < 2 then Inl UnexpectedEnd
     else
       rd (read_group_order_response bs) (\<lambda>group_order bs.
       case get_u8 bs of (eot, bs) \<Rightarrow>
       rd (vi varint_decode bs) (\<lambda>gid bs.
       rd (vi varint_decode bs) (\<lambda>oid bs.
       rd (decode_parameters bs) (\<lambda>ps bs.
       Inr (\<lparr> fo_subscribe_id = i, fo_group_order = group_order, fo_end_of_track = eot,
              fo_largest_group_id = Some gid, fo_largest_object_id = Some oid,
              fo_parameters = ps \<rparr>, bs))))))"

definition dec_fetch_error :: "bytes \<Rightarrow> codec_error + fetch_error \<times> bytes" where
  "dec_fetch_error bs =
     rd (vi varint_decode bs) (\<lambda>i bs.
     rd (vi varint_decode bs) (\<lambda>c bs.
     rd (read_prefixed bs) (\<lambda>reason bs.
     Inr (\<lparr> fe_subscribe_id = i, fe_error_code = c, fe_reason_phrase = reason \<rparr>, bs))))"

definition dec_fetch_cancel :: "bytes \<Rightarrow> codec_error + fetch_cancel \<times> bytes" where
  "dec_fetch_cancel bs =
     rd (vi varint_decode bs) (\<lambda>i bs. Inr (\<lparr> fc_subscribe_id = i \<rparr>, bs))"

text \<open>An arm's record, wrapped in its constructor.\<close>

definition wrap :: "('a \<Rightarrow> 'b) \<Rightarrow> codec_error + 'a \<times> bytes \<Rightarrow> codec_error + 'b \<times> bytes" where
  "wrap c r = rd r (\<lambda>m bs. Inr (c m, bs))"

definition decode_payload ::
  "message_type \<Rightarrow> bytes \<Rightarrow> codec_error + control_message \<times> bytes" where
  "decode_payload msg_type bs =
     (case msg_type of
        MtClientSetup \<Rightarrow> wrap CmClientSetup (dec_client_setup bs)
      | MtServerSetup \<Rightarrow> wrap CmServerSetup (dec_server_setup bs)
      | MtGoAway \<Rightarrow> wrap CmGoAway (dec_go_away bs)
      | MtMaxSubscribeId \<Rightarrow> wrap CmMaxSubscribeId (dec_max_subscribe_id bs)
      | MtSubscribe \<Rightarrow> wrap CmSubscribe (dec_subscribe bs)
      | MtSubscribeOk \<Rightarrow> wrap CmSubscribeOk (dec_subscribe_ok bs)
      | MtSubscribeError \<Rightarrow> wrap CmSubscribeError (dec_subscribe_error bs)
      | MtSubscribeUpdate \<Rightarrow> wrap CmSubscribeUpdate (dec_subscribe_update bs)
      | MtSubscribeDone \<Rightarrow> wrap CmSubscribeDone (dec_subscribe_done bs)
      | MtUnsubscribe \<Rightarrow> wrap CmUnsubscribe (dec_unsubscribe bs)
      | MtAnnounce \<Rightarrow> wrap CmAnnounce (dec_announce bs)
      | MtAnnounceOk \<Rightarrow> wrap CmAnnounceOk (dec_announce_ok bs)
      | MtAnnounceError \<Rightarrow> wrap CmAnnounceError (dec_announce_error bs)
      | MtAnnounceCancel \<Rightarrow> wrap CmAnnounceCancel (dec_announce_cancel bs)
      | MtUnannounce \<Rightarrow> wrap CmUnannounce (dec_unannounce bs)
      | MtSubscribeAnnounces \<Rightarrow> wrap CmSubscribeAnnounces (dec_subscribe_announces bs)
      | MtSubscribeAnnouncesOk \<Rightarrow> wrap CmSubscribeAnnouncesOk (dec_subscribe_announces_ok bs)
      | MtSubscribeAnnouncesError \<Rightarrow>
          wrap CmSubscribeAnnouncesError (dec_subscribe_announces_error bs)
      | MtUnsubscribeAnnounces \<Rightarrow> wrap CmUnsubscribeAnnounces (dec_unsubscribe_announces bs)
      | MtTrackStatusRequest \<Rightarrow> wrap CmTrackStatusRequest (dec_track_status_request bs)
      | MtTrackStatus \<Rightarrow> wrap CmTrackStatus (dec_track_status bs)
      | MtFetch \<Rightarrow> wrap CmFetch (dec_fetch bs)
      | MtFetchOk \<Rightarrow> wrap CmFetchOk (dec_fetch_ok bs)
      | MtFetchError \<Rightarrow> wrap CmFetchError (dec_fetch_error bs)
      | MtFetchCancel \<Rightarrow> wrap CmFetchCancel (dec_fetch_cancel bs))"

section \<open>The frame\<close>

definition cm_encode :: "control_message \<Rightarrow> codec_error + bytes" where
  "cm_encode m =
     and_then (check_discriminators m) (\<lambda>_.
     and_then (check_group_order m) (\<lambda>_.
     and_then (check_ranges m) (\<lambda>_.
     and_then (encode_payload m) (\<lambda>payload.
     Inr (varint_encode (from_usize (unat (mt_id (cm_message_type m))))
          @ varint_encode (from_usize (length payload))
          @ payload)))))"

definition cm_decode :: "bytes \<Rightarrow> codec_error + control_message \<times> bytes" where
  "cm_decode bs =
     rd (vi varint_decode bs) (\<lambda>type_id bs.
     and_then (ok_or (mt_from_id (into_inner type_id)) (UnknownMessageType (into_inner type_id)))
       (\<lambda>msg_type.
     rd (vi varint_decode bs) (\<lambda>len bs.
     let payload_len = usize len in
     if length bs < payload_len then Inl UnexpectedEnd
     else
       case decode_payload msg_type (take payload_len bs) of
         Inl e \<Rightarrow>
           if e = UnexpectedEnd \<or> e = CodecKvp KvpUnexpectedEnd
             \<or> e = CodecKvp (KvpVarInt VarIntUnexpectedEnd) \<or> e = CodecVarInt VarIntUnexpectedEnd
           then Inl (ControlMessageLengthMismatch payload_len ''its fields ran past the end'')
           else Inl e
       | Inr (msg, payload) \<Rightarrow>
           and_then (check_ranges msg) (\<lambda>_.
           if payload \<noteq> []
           then Inl (ControlMessageLengthMismatch payload_len ''its fields left bytes unread'')
           else Inr (msg, drop payload_len bs)))))"

end
