(* ===== verification/Draft07_Roundtrip.thy ===== *)
theory Draft07_Roundtrip
  imports Draft07_Payload
begin

text \<open>
  The writers and readers of draft-07's control messages are inverse to each other. \<open>payload_codec\<close>
  is the contract of one message: what its writer accepts its reader reads back, and what its reader
  accepts its writer accepts, in no more bytes. Every message of the draft is an instance.
\<close>

locale payload_codec =
  fixes enc :: "'m \<Rightarrow> codec_error + bytes"
    and dec :: "bytes \<Rightarrow> codec_error + 'm \<times> bytes"
    and wf :: "'m \<Rightarrow> bool"
  assumes dec_enc: "enc m = Inr b \<Longrightarrow> wf m \<Longrightarrow> dec (b @ rest) = Inr (m, rest)"
    and dec_sound: "dec bs = Inr (m, rest) \<Longrightarrow>
      wf m \<and> (\<exists>b. enc m = Inr b \<and> length b + length rest \<le> length bs)"
begin

text \<open>A relay may decode a payload and write it again: the next reader sees the same message.\<close>

lemma reread: "dec bs = Inr (m, rest) \<Longrightarrow> \<exists>b. enc m = Inr b \<and> dec (b @ next) = Inr (m, next)"
  using dec_enc dec_sound by blast

lemma dec_wf: "dec bs = Inr (m, rest) \<Longrightarrow> wf m"
  by (simp add: dec_sound)

end

section \<open>The fields messages are made of\<close>

definition wf_bytes :: "bytes \<Rightarrow> bool" where
  "wf_bytes b \<longleftrightarrow> length b < 2 ^ 62"

definition wf_ns :: "track_namespace \<Rightarrow> bool" where
  "wf_ns ns \<longleftrightarrow> list_all wf_bytes (ns_fields ns)"

definition wf_opt :: "varint option \<Rightarrow> bool" where
  "wf_opt v \<longleftrightarrow> (case v of Some x \<Rightarrow> wf_varint x | None \<Rightarrow> True)"

lemma wf_opt_simps [simp]: "wf_opt None" "wf_opt (Some x) \<longleftrightarrow> wf_varint x"
  by (simp_all add: wf_opt_def)

lemma opt_varint_simps [simp]: "opt_varint None = []" "opt_varint (Some x) = varint_encode x"
  by (simp_all add: opt_varint_def)

lemma usize_less_62 [simp]: "wf_varint x \<Longrightarrow> usize x < 4611686018427387904"
  using usize_less [of x] by simp

lemma vi_D: "vi varint_decode bs = Inr (x, rest) \<Longrightarrow>
    wf_varint x \<and> length (varint_encode x) + length rest \<le> length bs"
  using vi_codec.decode_wf vi_codec.decode_shortest by blast

lemma read_prefixed_put [simp]:
  "wf_bytes b \<Longrightarrow> read_prefixed (put_prefixed b @ rest) = Inr (b, rest)"
  by (simp add: read_prefixed_def put_prefixed_def wf_bytes_def)

lemma read_prefixed_put_end [simp]: "wf_bytes b \<Longrightarrow> read_prefixed (put_prefixed b) = Inr (b, [])"
  using read_prefixed_put [of b "[]"] by simp

lemma read_prefixed_D:
  assumes "read_prefixed bs = Inr (b, rest)"
  shows "wf_bytes b \<and> length (put_prefixed b) + length rest \<le> length bs"
proof -
  from assms obtain n mid where hd: "vi varint_decode bs = Inr (n, mid)"
      and b: "mid = b @ rest" "length b = usize n"
    by (auto simp: read_prefixed_def result_inversion read_bytes_Inr)
  then show ?thesis
    using vi_D [OF hd] usize_less [of n] by (simp add: wf_bytes_def put_prefixed_def)
qed

lemma for_draft_7: "for_draft 7 = pre16_rules"
  by (simp add: for_draft_def pre16_rules_def word_le_nat_alt)

lemma wf_ns_iff: "wf_namespace pre16_rules ns \<longleftrightarrow> validate (for_draft 7) ns = Inr () \<and> wf_ns ns"
  by (simp add: wf_namespace_def for_draft_7 wf_ns_def wf_bytes_def [abs_def])

lemma namespace_put [simp]:
  "validate (for_draft 7) ns = Inr () \<Longrightarrow> wf_ns ns \<Longrightarrow>
     namespace_decode (namespace_encode ns @ rest) = Inr (ns, rest)"
  by (simp add: namespace_pre16.decode_encode wf_ns_iff)

lemma namespace_D:
  "namespace_decode bs = Inr (ns, rest) \<Longrightarrow>
     validate (for_draft 7) ns = Inr () \<and> wf_ns ns
     \<and> length (namespace_encode ns) + length rest \<le> length bs"
  using namespace_pre16.decode_wf namespace_pre16.decode_shortest wf_ns_iff by blast

lemma location_put [simp]:
  "wf_location l \<Longrightarrow> location_decode (location_encode l @ rest) = Inr (l, rest)"
  by (rule location.decode_encode)

lemma location_D:
  "location_decode bs = Inr (l, rest) \<Longrightarrow>
     wf_location l \<and> length (location_encode l) + length rest \<le> length bs"
  using location.decode_wf location.decode_shortest by blast

lemma parameters_put [simp]:
  "encode_parameters ps = Inr b \<Longrightarrow> wf_kvp_list_d07 ps \<Longrightarrow>
     decode_parameters (b @ rest) = Inr (ps, rest)"
  by (auto simp: encode_parameters_def decode_parameters_def result_inversion
      kvp_list_d07.decode_encode)

lemma parameters_D:
  "decode_parameters bs = Inr (ps, rest) \<Longrightarrow>
     wf_kvp_list_d07 ps \<and> (\<exists>b. encode_parameters ps = Inr b \<and> length b + length rest \<le> length bs)"
  by (auto simp: encode_parameters_def decode_parameters_def result_inversion
      dest: kvp_list_d07.decode_wf kvp_list_d07.decode_shortest)

lemma setup_parameters_put [simp]:
  "encode_setup_parameters ps = Inr b \<Longrightarrow> wf_kvp_list_d07 ps \<Longrightarrow>
     decode_setup_parameters (b @ rest) = Inr (ps, rest)"
  by (auto simp: encode_setup_parameters_def decode_setup_parameters_def result_inversion
      kvp_list_d07.decode_encode)

lemma setup_parameters_D:
  "decode_setup_parameters bs = Inr (ps, rest) \<Longrightarrow>
     wf_kvp_list_d07 ps
     \<and> (\<exists>b. encode_setup_parameters ps = Inr b \<and> length b + length rest \<le> length bs)"
  by (auto simp: encode_setup_parameters_def decode_setup_parameters_def result_inversion
      dest: kvp_list_d07.decode_wf kvp_list_d07.decode_shortest)

lemma content_exists_put [simp]: "content_exists_from (content_exists_as_u8 c) = Inr c"
  by (cases c) (simp_all add: content_exists_from_def)

lemma group_order_response_put [simp]:
  "g \<noteq> GoPublisher \<Longrightarrow>
     read_group_order_response (group_order_as_u8 g # rest) = Inr (g, rest)"
  by (simp add: read_group_order_response_def)

lemma group_order_response_D:
  "read_group_order_response bs = Inr (g, rest) \<Longrightarrow>
     g \<noteq> GoPublisher \<and> Suc (length rest) \<le> length bs"
  by (auto simp: read_group_order_response_def get_u8_def result_inversion Suc_le_eq
      split: if_splits)

lemma filter_type_put [simp]: "filter_type_from_u8 (filter_type_as_u8 f) = Some f"
  by (simp add: filter_type_from_u8_iff)

lemma namespace_put_end [simp]:
  "validate (for_draft 7) ns = Inr () \<Longrightarrow> wf_ns ns \<Longrightarrow>
     namespace_decode (namespace_encode ns) = Inr (ns, [])"
  using namespace_put [of ns "[]"] by simp

lemmas field_D =
  vi_D read_prefixed_D namespace_D location_D parameters_D setup_parameters_D
  group_order_response_D

lemmas field_defs = get_u8_def result_inversion Let_def neq_Nil_conv

section \<open>One instance per message\<close>

definition wf_client_setup :: "client_setup \<Rightarrow> bool" where
  "wf_client_setup m \<longleftrightarrow>
     cs_supported_versions m \<noteq> [] \<and> length (cs_supported_versions m) < 2 ^ 62
     \<and> list_all wf_varint (cs_supported_versions m) \<and> wf_kvp_list_d07 (cs_parameters m)"

lemma decode_n_versions_D:
  "decode_n (vi varint_decode) n bs = Inr (xs, rest) \<Longrightarrow>
     length xs = n \<and> list_all wf_varint xs
     \<and> length (concat (map varint_encode xs)) + length rest \<le> length bs"
  using decode_n_length vi_codec.list_decode_wf vi_codec.list_decode_shortest
  unfolding list_all_iff by blast

interpretation client_setup: payload_codec enc_client_setup dec_client_setup wf_client_setup
proof
  show "dec_client_setup (b @ rest) = Inr (m, rest)"
    if "enc_client_setup m = Inr b" "wf_client_setup m" for m b rest
    using that unfolding enc_client_setup_def and_then_eq_Inr
    by (auto simp: dec_client_setup_def wf_client_setup_def vi_codec.list_decode_encode
        list_all_iff)
  show "wf_client_setup m
      \<and> (\<exists>b. enc_client_setup m = Inr b \<and> length b + length rest \<le> length bs)"
    if "dec_client_setup bs = Inr (m, rest)" for bs m rest
    using that by (auto simp: enc_client_setup_def dec_client_setup_def wf_client_setup_def
        result_inversion split: if_splits dest!: field_D decode_n_versions_D)
qed

definition wf_server_setup :: "server_setup \<Rightarrow> bool" where
  "wf_server_setup m \<longleftrightarrow> wf_varint (ss_selected_version m) \<and> wf_kvp_list_d07 (ss_parameters m)"

interpretation server_setup: payload_codec enc_server_setup dec_server_setup wf_server_setup
proof
  show "dec_server_setup (b @ rest) = Inr (m, rest)"
    if "enc_server_setup m = Inr b" "wf_server_setup m" for m b rest
    using that unfolding enc_server_setup_def and_then_eq_Inr
    by (auto simp: dec_server_setup_def wf_server_setup_def)
  show "wf_server_setup m
      \<and> (\<exists>b. enc_server_setup m = Inr b \<and> length b + length rest \<le> length bs)"
    if "dec_server_setup bs = Inr (m, rest)" for bs m rest
    using that by (auto simp: enc_server_setup_def dec_server_setup_def wf_server_setup_def
        result_inversion dest!: field_D)
qed

definition wf_subscribe :: "subscribe \<Rightarrow> bool" where
  "wf_subscribe m \<longleftrightarrow>
     wf_varint (s_subscribe_id m) \<and> wf_varint (s_track_alias m) \<and> wf_ns (s_track_namespace m)
     \<and> wf_bytes (s_track_name m)
     \<and> (\<forall>l. s_start_location m = Some l \<longrightarrow> wf_location l)
     \<and> wf_opt (s_end_group m) \<and> wf_opt (s_end_object m) \<and> wf_kvp_list_d07 (s_parameters m)"

definition wf_subscribe_payload :: "subscribe \<Rightarrow> bool" where
  "wf_subscribe_payload m \<longleftrightarrow> wf_subscribe m \<and> check_discriminators (CmSubscribe m) = Inr ()"

lemma subscribe_discriminators:
  "check_discriminators (CmSubscribe m) = Inr () \<longleftrightarrow>
     (s_start_location m \<noteq> None) = (s_filter_type m = AbsoluteStart \<or> s_filter_type m = AbsoluteRange)
     \<and> (s_end_group m \<noteq> None) = (s_filter_type m = AbsoluteRange)
     \<and> (s_end_object m \<noteq> None) = (s_filter_type m = AbsoluteRange)"
  by (auto simp: check_discriminators_def Let_def)

lemma subscribe_ok_discriminators:
  "check_discriminators (CmSubscribeOk m) = Inr () \<longleftrightarrow>
     (so_largest_group_id m \<noteq> None) = (so_content_exists m = HasLargestLocation)
     \<and> (so_largest_object_id m \<noteq> None) = (so_content_exists m = HasLargestLocation)"
  by (auto simp: check_discriminators_def Let_def)

lemma group_order_checks:
  "check_group_order (CmSubscribeOk m) = Inr () \<longleftrightarrow> so_group_order m \<noteq> GoPublisher"
  "check_group_order (CmFetchOk f) = Inr () \<longleftrightarrow> fo_group_order f \<noteq> GoPublisher"
  by (simp_all add: check_group_order_def)

interpretation subscribe: payload_codec enc_subscribe dec_subscribe wf_subscribe_payload
proof
  show "dec_subscribe (b @ rest) = Inr (m, rest)"
    if "enc_subscribe m = Inr b" "wf_subscribe_payload m" for m b rest
    using that unfolding enc_subscribe_def and_then_eq_Inr
    by (cases "s_start_location m"; cases "s_end_group m"; cases "s_end_object m")
      (auto simp: dec_subscribe_def wf_subscribe_payload_def wf_subscribe_def
        subscribe_discriminators simp del: filter_type_as_u8.simps)
  show "wf_subscribe_payload m
      \<and> (\<exists>b. enc_subscribe m = Inr b \<and> length b + length rest \<le> length bs)"
    if "dec_subscribe bs = Inr (m, rest)" for bs m rest
    using that by (auto simp: enc_subscribe_def dec_subscribe_def wf_subscribe_payload_def
        wf_subscribe_def subscribe_discriminators field_defs not_less filter_type_from_u8_iff
        split: if_splits dest!: field_D)
qed

definition wf_go_away :: "go_away \<Rightarrow> bool" where
  "wf_go_away m \<longleftrightarrow>
     wf_bytes (ga_new_session_uri m)"

interpretation go_away: payload_codec enc_go_away dec_go_away wf_go_away
proof
  show "dec_go_away (b @ rest) = Inr (m, rest)"
    if "enc_go_away m = Inr b" "wf_go_away m" for m b rest
    using that unfolding enc_go_away_def and_then_eq_Inr
    by (auto simp: dec_go_away_def wf_go_away_def)
  show "wf_go_away m \<and> (\<exists>b. enc_go_away m = Inr b \<and> length b + length rest \<le> length bs)"
    if "dec_go_away bs = Inr (m, rest)" for bs m rest
    using that by (auto simp: enc_go_away_def dec_go_away_def wf_go_away_def
        field_defs not_less split: if_splits dest!: field_D)
qed

definition wf_max_subscribe_id :: "max_subscribe_id \<Rightarrow> bool" where
  "wf_max_subscribe_id m \<longleftrightarrow>
     wf_varint (ms_subscribe_id m)"

interpretation max_subscribe_id: payload_codec enc_max_subscribe_id dec_max_subscribe_id wf_max_subscribe_id
proof
  show "dec_max_subscribe_id (b @ rest) = Inr (m, rest)"
    if "enc_max_subscribe_id m = Inr b" "wf_max_subscribe_id m" for m b rest
    using that unfolding enc_max_subscribe_id_def and_then_eq_Inr
    by (auto simp: dec_max_subscribe_id_def wf_max_subscribe_id_def)
  show "wf_max_subscribe_id m \<and> (\<exists>b. enc_max_subscribe_id m = Inr b \<and> length b + length rest \<le> length bs)"
    if "dec_max_subscribe_id bs = Inr (m, rest)" for bs m rest
    using that by (auto simp: enc_max_subscribe_id_def dec_max_subscribe_id_def wf_max_subscribe_id_def
        field_defs not_less split: if_splits dest!: field_D)
qed

definition wf_subscribe_ok :: "subscribe_ok \<Rightarrow> bool" where
  "wf_subscribe_ok m \<longleftrightarrow>
     wf_varint (so_subscribe_id m) \<and> wf_varint (so_expires m)
     \<and> wf_opt (so_largest_group_id m) \<and> wf_opt (so_largest_object_id m)
     \<and> wf_kvp_list_d07 (so_parameters m)"

definition wf_subscribe_ok_payload :: "subscribe_ok \<Rightarrow> bool" where
  "wf_subscribe_ok_payload m \<longleftrightarrow> wf_subscribe_ok m \<and> check_discriminators (CmSubscribeOk m) = Inr ()
     \<and> check_group_order (CmSubscribeOk m) = Inr ()"

interpretation subscribe_ok: payload_codec enc_subscribe_ok dec_subscribe_ok wf_subscribe_ok_payload
proof
  show "dec_subscribe_ok (b @ rest) = Inr (m, rest)"
    if "enc_subscribe_ok m = Inr b" "wf_subscribe_ok_payload m" for m b rest
    using that unfolding enc_subscribe_ok_def and_then_eq_Inr
    by (cases "so_largest_group_id m"; cases "so_largest_object_id m")
      (auto simp: dec_subscribe_ok_def wf_subscribe_ok_def wf_subscribe_ok_payload_def
        subscribe_ok_discriminators group_order_checks
        simp del: content_exists_as_u8.simps)
  show "wf_subscribe_ok_payload m \<and> (\<exists>b. enc_subscribe_ok m = Inr b \<and> length b + length rest \<le> length bs)"
    if "dec_subscribe_ok bs = Inr (m, rest)" for bs m rest
    using that by (auto simp: enc_subscribe_ok_def dec_subscribe_ok_def wf_subscribe_ok_def wf_subscribe_ok_payload_def
        subscribe_ok_discriminators group_order_checks
        field_defs not_less split: if_splits dest!: field_D)
qed

definition wf_subscribe_error :: "subscribe_error \<Rightarrow> bool" where
  "wf_subscribe_error m \<longleftrightarrow>
     wf_varint (se_subscribe_id m) \<and> wf_varint (se_error_code m)
     \<and> wf_bytes (se_reason_phrase m) \<and> wf_varint (se_track_alias m)"

interpretation subscribe_error: payload_codec enc_subscribe_error dec_subscribe_error wf_subscribe_error
proof
  show "dec_subscribe_error (b @ rest) = Inr (m, rest)"
    if "enc_subscribe_error m = Inr b" "wf_subscribe_error m" for m b rest
    using that unfolding enc_subscribe_error_def and_then_eq_Inr
    by (auto simp: dec_subscribe_error_def wf_subscribe_error_def)
  show "wf_subscribe_error m \<and> (\<exists>b. enc_subscribe_error m = Inr b \<and> length b + length rest \<le> length bs)"
    if "dec_subscribe_error bs = Inr (m, rest)" for bs m rest
    using that by (auto simp: enc_subscribe_error_def dec_subscribe_error_def wf_subscribe_error_def
        field_defs not_less split: if_splits dest!: field_D)
qed

definition wf_subscribe_update :: "subscribe_update \<Rightarrow> bool" where
  "wf_subscribe_update m \<longleftrightarrow>
     wf_varint (su_subscribe_id m) \<and> wf_varint (su_start_group m)
     \<and> wf_varint (su_start_object m) \<and> wf_varint (su_end_group m)
     \<and> wf_varint (su_end_object m) \<and> wf_kvp_list_d07 (su_parameters m)"

interpretation subscribe_update: payload_codec enc_subscribe_update dec_subscribe_update wf_subscribe_update
proof
  show "dec_subscribe_update (b @ rest) = Inr (m, rest)"
    if "enc_subscribe_update m = Inr b" "wf_subscribe_update m" for m b rest
    using that unfolding enc_subscribe_update_def and_then_eq_Inr
    by (auto simp: dec_subscribe_update_def wf_subscribe_update_def)
  show "wf_subscribe_update m \<and> (\<exists>b. enc_subscribe_update m = Inr b \<and> length b + length rest \<le> length bs)"
    if "dec_subscribe_update bs = Inr (m, rest)" for bs m rest
    using that by (auto simp: enc_subscribe_update_def dec_subscribe_update_def wf_subscribe_update_def
        field_defs not_less split: if_splits dest!: field_D)
qed

definition wf_subscribe_done :: "subscribe_done \<Rightarrow> bool" where
  "wf_subscribe_done m \<longleftrightarrow>
     wf_varint (sd_subscribe_id m) \<and> wf_varint (sd_status_code m)
     \<and> wf_bytes (sd_reason_phrase m) \<and> wf_opt (sd_final_group m)
     \<and> wf_opt (sd_final_object m)"

definition wf_subscribe_done_payload :: "subscribe_done \<Rightarrow> bool" where
  "wf_subscribe_done_payload m \<longleftrightarrow> wf_subscribe_done m \<and> (sd_final_group m \<noteq> None) = (sd_content_exists m = HasLargestLocation)
     \<and> (sd_final_object m \<noteq> None) = (sd_content_exists m = HasLargestLocation)"

interpretation subscribe_done: payload_codec enc_subscribe_done dec_subscribe_done wf_subscribe_done_payload
proof
  show "dec_subscribe_done (b @ rest) = Inr (m, rest)"
    if "enc_subscribe_done m = Inr b" "wf_subscribe_done_payload m" for m b rest
    using that unfolding enc_subscribe_done_def and_then_eq_Inr
    by (cases "sd_final_group m"; cases "sd_final_object m")
      (auto simp: dec_subscribe_done_def wf_subscribe_done_def wf_subscribe_done_payload_def
        simp del: content_exists_as_u8.simps)
  show "wf_subscribe_done_payload m \<and> (\<exists>b. enc_subscribe_done m = Inr b \<and> length b + length rest \<le> length bs)"
    if "dec_subscribe_done bs = Inr (m, rest)" for bs m rest
    using that by (auto simp: enc_subscribe_done_def dec_subscribe_done_def wf_subscribe_done_def wf_subscribe_done_payload_def
        field_defs not_less split: if_splits dest!: field_D)
qed

definition wf_unsubscribe :: "unsubscribe \<Rightarrow> bool" where
  "wf_unsubscribe m \<longleftrightarrow>
     wf_varint (us_subscribe_id m)"

interpretation unsubscribe: payload_codec enc_unsubscribe dec_unsubscribe wf_unsubscribe
proof
  show "dec_unsubscribe (b @ rest) = Inr (m, rest)"
    if "enc_unsubscribe m = Inr b" "wf_unsubscribe m" for m b rest
    using that unfolding enc_unsubscribe_def and_then_eq_Inr
    by (auto simp: dec_unsubscribe_def wf_unsubscribe_def)
  show "wf_unsubscribe m \<and> (\<exists>b. enc_unsubscribe m = Inr b \<and> length b + length rest \<le> length bs)"
    if "dec_unsubscribe bs = Inr (m, rest)" for bs m rest
    using that by (auto simp: enc_unsubscribe_def dec_unsubscribe_def wf_unsubscribe_def
        field_defs not_less split: if_splits dest!: field_D)
qed

definition wf_announce :: "announce \<Rightarrow> bool" where
  "wf_announce m \<longleftrightarrow>
     wf_ns (an_track_namespace m) \<and> wf_kvp_list_d07 (an_parameters m)"

interpretation announce: payload_codec enc_announce dec_announce wf_announce
proof
  show "dec_announce (b @ rest) = Inr (m, rest)"
    if "enc_announce m = Inr b" "wf_announce m" for m b rest
    using that unfolding enc_announce_def and_then_eq_Inr
    by (auto simp: dec_announce_def wf_announce_def)
  show "wf_announce m \<and> (\<exists>b. enc_announce m = Inr b \<and> length b + length rest \<le> length bs)"
    if "dec_announce bs = Inr (m, rest)" for bs m rest
    using that by (auto simp: enc_announce_def dec_announce_def wf_announce_def
        field_defs not_less split: if_splits dest!: field_D)
qed

definition wf_announce_ok :: "announce_ok \<Rightarrow> bool" where
  "wf_announce_ok m \<longleftrightarrow>
     wf_ns (ao_track_namespace m)"

interpretation announce_ok: payload_codec enc_announce_ok dec_announce_ok wf_announce_ok
proof
  show "dec_announce_ok (b @ rest) = Inr (m, rest)"
    if "enc_announce_ok m = Inr b" "wf_announce_ok m" for m b rest
    using that unfolding enc_announce_ok_def and_then_eq_Inr
    by (auto simp: dec_announce_ok_def wf_announce_ok_def)
  show "wf_announce_ok m \<and> (\<exists>b. enc_announce_ok m = Inr b \<and> length b + length rest \<le> length bs)"
    if "dec_announce_ok bs = Inr (m, rest)" for bs m rest
    using that by (auto simp: enc_announce_ok_def dec_announce_ok_def wf_announce_ok_def
        field_defs not_less split: if_splits dest!: field_D)
qed

definition wf_announce_error :: "announce_error \<Rightarrow> bool" where
  "wf_announce_error m \<longleftrightarrow>
     wf_ns (ae_track_namespace m) \<and> wf_varint (ae_error_code m)
     \<and> wf_bytes (ae_reason_phrase m)"

interpretation announce_error: payload_codec enc_announce_error dec_announce_error wf_announce_error
proof
  show "dec_announce_error (b @ rest) = Inr (m, rest)"
    if "enc_announce_error m = Inr b" "wf_announce_error m" for m b rest
    using that unfolding enc_announce_error_def and_then_eq_Inr
    by (auto simp: dec_announce_error_def wf_announce_error_def)
  show "wf_announce_error m \<and> (\<exists>b. enc_announce_error m = Inr b \<and> length b + length rest \<le> length bs)"
    if "dec_announce_error bs = Inr (m, rest)" for bs m rest
    using that by (auto simp: enc_announce_error_def dec_announce_error_def wf_announce_error_def
        field_defs not_less split: if_splits dest!: field_D)
qed

definition wf_announce_cancel :: "announce_cancel \<Rightarrow> bool" where
  "wf_announce_cancel m \<longleftrightarrow>
     wf_ns (ac_track_namespace m) \<and> wf_varint (ac_error_code m)
     \<and> wf_bytes (ac_reason_phrase m)"

interpretation announce_cancel: payload_codec enc_announce_cancel dec_announce_cancel wf_announce_cancel
proof
  show "dec_announce_cancel (b @ rest) = Inr (m, rest)"
    if "enc_announce_cancel m = Inr b" "wf_announce_cancel m" for m b rest
    using that unfolding enc_announce_cancel_def and_then_eq_Inr
    by (auto simp: dec_announce_cancel_def wf_announce_cancel_def)
  show "wf_announce_cancel m \<and> (\<exists>b. enc_announce_cancel m = Inr b \<and> length b + length rest \<le> length bs)"
    if "dec_announce_cancel bs = Inr (m, rest)" for bs m rest
    using that by (auto simp: enc_announce_cancel_def dec_announce_cancel_def wf_announce_cancel_def
        field_defs not_less split: if_splits dest!: field_D)
qed

definition wf_unannounce :: "unannounce \<Rightarrow> bool" where
  "wf_unannounce m \<longleftrightarrow>
     wf_ns (ua_track_namespace m)"

interpretation unannounce: payload_codec enc_unannounce dec_unannounce wf_unannounce
proof
  show "dec_unannounce (b @ rest) = Inr (m, rest)"
    if "enc_unannounce m = Inr b" "wf_unannounce m" for m b rest
    using that unfolding enc_unannounce_def and_then_eq_Inr
    by (auto simp: dec_unannounce_def wf_unannounce_def)
  show "wf_unannounce m \<and> (\<exists>b. enc_unannounce m = Inr b \<and> length b + length rest \<le> length bs)"
    if "dec_unannounce bs = Inr (m, rest)" for bs m rest
    using that by (auto simp: enc_unannounce_def dec_unannounce_def wf_unannounce_def
        field_defs not_less split: if_splits dest!: field_D)
qed

definition wf_subscribe_announces :: "subscribe_announces \<Rightarrow> bool" where
  "wf_subscribe_announces m \<longleftrightarrow>
     wf_ns (sa_track_namespace_prefix m) \<and> wf_kvp_list_d07 (sa_parameters m)"

interpretation subscribe_announces: payload_codec enc_subscribe_announces dec_subscribe_announces wf_subscribe_announces
proof
  show "dec_subscribe_announces (b @ rest) = Inr (m, rest)"
    if "enc_subscribe_announces m = Inr b" "wf_subscribe_announces m" for m b rest
    using that unfolding enc_subscribe_announces_def and_then_eq_Inr
    by (auto simp: dec_subscribe_announces_def wf_subscribe_announces_def)
  show "wf_subscribe_announces m \<and> (\<exists>b. enc_subscribe_announces m = Inr b \<and> length b + length rest \<le> length bs)"
    if "dec_subscribe_announces bs = Inr (m, rest)" for bs m rest
    using that by (auto simp: enc_subscribe_announces_def dec_subscribe_announces_def wf_subscribe_announces_def
        field_defs not_less split: if_splits dest!: field_D)
qed

definition wf_subscribe_announces_ok :: "subscribe_announces_ok \<Rightarrow> bool" where
  "wf_subscribe_announces_ok m \<longleftrightarrow>
     wf_ns (sao_track_namespace_prefix m)"

interpretation subscribe_announces_ok: payload_codec enc_subscribe_announces_ok dec_subscribe_announces_ok wf_subscribe_announces_ok
proof
  show "dec_subscribe_announces_ok (b @ rest) = Inr (m, rest)"
    if "enc_subscribe_announces_ok m = Inr b" "wf_subscribe_announces_ok m" for m b rest
    using that unfolding enc_subscribe_announces_ok_def and_then_eq_Inr
    by (auto simp: dec_subscribe_announces_ok_def wf_subscribe_announces_ok_def)
  show "wf_subscribe_announces_ok m \<and> (\<exists>b. enc_subscribe_announces_ok m = Inr b \<and> length b + length rest \<le> length bs)"
    if "dec_subscribe_announces_ok bs = Inr (m, rest)" for bs m rest
    using that by (auto simp: enc_subscribe_announces_ok_def dec_subscribe_announces_ok_def wf_subscribe_announces_ok_def
        field_defs not_less split: if_splits dest!: field_D)
qed

definition wf_subscribe_announces_error :: "subscribe_announces_error \<Rightarrow> bool" where
  "wf_subscribe_announces_error m \<longleftrightarrow>
     wf_ns (sae_track_namespace_prefix m) \<and> wf_varint (sae_error_code m)
     \<and> wf_bytes (sae_reason_phrase m)"

interpretation subscribe_announces_error: payload_codec enc_subscribe_announces_error dec_subscribe_announces_error wf_subscribe_announces_error
proof
  show "dec_subscribe_announces_error (b @ rest) = Inr (m, rest)"
    if "enc_subscribe_announces_error m = Inr b" "wf_subscribe_announces_error m" for m b rest
    using that unfolding enc_subscribe_announces_error_def and_then_eq_Inr
    by (auto simp: dec_subscribe_announces_error_def wf_subscribe_announces_error_def)
  show "wf_subscribe_announces_error m \<and> (\<exists>b. enc_subscribe_announces_error m = Inr b \<and> length b + length rest \<le> length bs)"
    if "dec_subscribe_announces_error bs = Inr (m, rest)" for bs m rest
    using that by (auto simp: enc_subscribe_announces_error_def dec_subscribe_announces_error_def wf_subscribe_announces_error_def
        field_defs not_less split: if_splits dest!: field_D)
qed

definition wf_unsubscribe_announces :: "unsubscribe_announces \<Rightarrow> bool" where
  "wf_unsubscribe_announces m \<longleftrightarrow>
     wf_ns (usa_track_namespace_prefix m)"

interpretation unsubscribe_announces: payload_codec enc_unsubscribe_announces dec_unsubscribe_announces wf_unsubscribe_announces
proof
  show "dec_unsubscribe_announces (b @ rest) = Inr (m, rest)"
    if "enc_unsubscribe_announces m = Inr b" "wf_unsubscribe_announces m" for m b rest
    using that unfolding enc_unsubscribe_announces_def and_then_eq_Inr
    by (auto simp: dec_unsubscribe_announces_def wf_unsubscribe_announces_def)
  show "wf_unsubscribe_announces m \<and> (\<exists>b. enc_unsubscribe_announces m = Inr b \<and> length b + length rest \<le> length bs)"
    if "dec_unsubscribe_announces bs = Inr (m, rest)" for bs m rest
    using that by (auto simp: enc_unsubscribe_announces_def dec_unsubscribe_announces_def wf_unsubscribe_announces_def
        field_defs not_less split: if_splits dest!: field_D)
qed

definition wf_track_status_request :: "track_status_request \<Rightarrow> bool" where
  "wf_track_status_request m \<longleftrightarrow>
     wf_ns (tsr_track_namespace m) \<and> wf_bytes (tsr_track_name m)"

interpretation track_status_request: payload_codec enc_track_status_request dec_track_status_request wf_track_status_request
proof
  show "dec_track_status_request (b @ rest) = Inr (m, rest)"
    if "enc_track_status_request m = Inr b" "wf_track_status_request m" for m b rest
    using that unfolding enc_track_status_request_def and_then_eq_Inr
    by (auto simp: dec_track_status_request_def wf_track_status_request_def)
  show "wf_track_status_request m \<and> (\<exists>b. enc_track_status_request m = Inr b \<and> length b + length rest \<le> length bs)"
    if "dec_track_status_request bs = Inr (m, rest)" for bs m rest
    using that by (auto simp: enc_track_status_request_def dec_track_status_request_def wf_track_status_request_def
        field_defs not_less split: if_splits dest!: field_D)
qed

definition wf_track_status :: "track_status \<Rightarrow> bool" where
  "wf_track_status m \<longleftrightarrow>
     wf_ns (ts_track_namespace m) \<and> wf_bytes (ts_track_name m)
     \<and> wf_varint (ts_status_code m) \<and> wf_varint (ts_last_group_id m)
     \<and> wf_varint (ts_last_object_id m)"

interpretation track_status: payload_codec enc_track_status dec_track_status wf_track_status
proof
  show "dec_track_status (b @ rest) = Inr (m, rest)"
    if "enc_track_status m = Inr b" "wf_track_status m" for m b rest
    using that unfolding enc_track_status_def and_then_eq_Inr
    by (auto simp: dec_track_status_def wf_track_status_def)
  show "wf_track_status m \<and> (\<exists>b. enc_track_status m = Inr b \<and> length b + length rest \<le> length bs)"
    if "dec_track_status bs = Inr (m, rest)" for bs m rest
    using that by (auto simp: enc_track_status_def dec_track_status_def wf_track_status_def
        field_defs not_less split: if_splits dest!: field_D)
qed

definition wf_fetch :: "fetch \<Rightarrow> bool" where
  "wf_fetch m \<longleftrightarrow>
     wf_varint (f_subscribe_id m) \<and> wf_ns (f_track_namespace m) \<and> wf_bytes (f_track_name m)
     \<and> wf_varint (f_start_group m) \<and> wf_varint (f_start_object m)
     \<and> wf_varint (f_end_group m) \<and> wf_varint (f_end_object m)
     \<and> wf_kvp_list_d07 (f_parameters m)"

interpretation fetch: payload_codec enc_fetch dec_fetch wf_fetch
proof
  show "dec_fetch (b @ rest) = Inr (m, rest)"
    if "enc_fetch m = Inr b" "wf_fetch m" for m b rest
    using that unfolding enc_fetch_def and_then_eq_Inr
    by (auto simp: dec_fetch_def wf_fetch_def)
  show "wf_fetch m \<and> (\<exists>b. enc_fetch m = Inr b \<and> length b + length rest \<le> length bs)"
    if "dec_fetch bs = Inr (m, rest)" for bs m rest
    using that by (auto simp: enc_fetch_def dec_fetch_def wf_fetch_def
        field_defs not_less split: if_splits dest!: field_D)
qed

definition wf_fetch_ok :: "fetch_ok \<Rightarrow> bool" where
  "wf_fetch_ok m \<longleftrightarrow>
     wf_varint (fo_subscribe_id m) \<and> wf_opt (fo_largest_group_id m)
     \<and> wf_opt (fo_largest_object_id m) \<and> wf_kvp_list_d07 (fo_parameters m)"

definition wf_fetch_ok_payload :: "fetch_ok \<Rightarrow> bool" where
  "wf_fetch_ok_payload m \<longleftrightarrow> wf_fetch_ok m \<and> check_group_order (CmFetchOk m) = Inr ()
     \<and> fo_largest_group_id m \<noteq> None \<and> fo_largest_object_id m \<noteq> None"

interpretation fetch_ok: payload_codec enc_fetch_ok dec_fetch_ok wf_fetch_ok_payload
proof
  show "dec_fetch_ok (b @ rest) = Inr (m, rest)"
    if "enc_fetch_ok m = Inr b" "wf_fetch_ok_payload m" for m b rest
    using that unfolding enc_fetch_ok_def and_then_eq_Inr
    by (cases "fo_largest_group_id m"; cases "fo_largest_object_id m")
      (auto simp: dec_fetch_ok_def wf_fetch_ok_def wf_fetch_ok_payload_def group_order_checks)
  show "wf_fetch_ok_payload m \<and> (\<exists>b. enc_fetch_ok m = Inr b \<and> length b + length rest \<le> length bs)"
    if "dec_fetch_ok bs = Inr (m, rest)" for bs m rest
    using that by (auto simp: enc_fetch_ok_def dec_fetch_ok_def wf_fetch_ok_def wf_fetch_ok_payload_def group_order_checks
        field_defs not_less split: if_splits dest!: field_D)
qed

definition wf_fetch_error :: "fetch_error \<Rightarrow> bool" where
  "wf_fetch_error m \<longleftrightarrow>
     wf_varint (fe_subscribe_id m) \<and> wf_varint (fe_error_code m)
     \<and> wf_bytes (fe_reason_phrase m)"

interpretation fetch_error: payload_codec enc_fetch_error dec_fetch_error wf_fetch_error
proof
  show "dec_fetch_error (b @ rest) = Inr (m, rest)"
    if "enc_fetch_error m = Inr b" "wf_fetch_error m" for m b rest
    using that unfolding enc_fetch_error_def and_then_eq_Inr
    by (auto simp: dec_fetch_error_def wf_fetch_error_def)
  show "wf_fetch_error m \<and> (\<exists>b. enc_fetch_error m = Inr b \<and> length b + length rest \<le> length bs)"
    if "dec_fetch_error bs = Inr (m, rest)" for bs m rest
    using that by (auto simp: enc_fetch_error_def dec_fetch_error_def wf_fetch_error_def
        field_defs not_less split: if_splits dest!: field_D)
qed

definition wf_fetch_cancel :: "fetch_cancel \<Rightarrow> bool" where
  "wf_fetch_cancel m \<longleftrightarrow>
     wf_varint (fc_subscribe_id m)"

interpretation fetch_cancel: payload_codec enc_fetch_cancel dec_fetch_cancel wf_fetch_cancel
proof
  show "dec_fetch_cancel (b @ rest) = Inr (m, rest)"
    if "enc_fetch_cancel m = Inr b" "wf_fetch_cancel m" for m b rest
    using that unfolding enc_fetch_cancel_def and_then_eq_Inr
    by (auto simp: dec_fetch_cancel_def wf_fetch_cancel_def)
  show "wf_fetch_cancel m \<and> (\<exists>b. enc_fetch_cancel m = Inr b \<and> length b + length rest \<le> length bs)"
    if "dec_fetch_cancel bs = Inr (m, rest)" for bs m rest
    using that by (auto simp: enc_fetch_cancel_def dec_fetch_cancel_def wf_fetch_cancel_def
        field_defs not_less split: if_splits dest!: field_D)
qed

end
