(* ===== verification/Draft07_Frame.thy ===== *)
theory Draft07_Frame
  imports Draft07_Roundtrip
begin

text \<open>
  The control-message frame of draft-07: a type, a length and a payload. Here the contracts of the
  single messages become the contract of \<open>ControlMessage::encode\<close> and \<open>decode\<close>, and the behaviour a
  stream reader depends on: an answer given on a partial buffer is the answer on the whole one.
\<close>

section \<open>Any message\<close>

text \<open>\<open>wf_message\<close> is what the encoder does not check itself: integers and lengths that fit a
  varint, draft-07 parameter values that are bytes, and the two places where the optional fields
  must agree with the rest of the message. \<open>payload_ok\<close> adds what it does check.\<close>

definition wf_message :: "control_message \<Rightarrow> bool" where
  "wf_message message =
     (case message of
        CmClientSetup m \<Rightarrow> wf_client_setup m
      | CmServerSetup m \<Rightarrow> wf_server_setup m
      | CmGoAway m \<Rightarrow> wf_go_away m
      | CmMaxSubscribeId m \<Rightarrow> wf_max_subscribe_id m
      | CmSubscribe m \<Rightarrow> wf_subscribe m
      | CmSubscribeOk m \<Rightarrow> wf_subscribe_ok m
      | CmSubscribeError m \<Rightarrow> wf_subscribe_error m
      | CmSubscribeUpdate m \<Rightarrow> wf_subscribe_update m
      | CmSubscribeDone m \<Rightarrow> wf_subscribe_done_payload m
      | CmUnsubscribe m \<Rightarrow> wf_unsubscribe m
      | CmAnnounce m \<Rightarrow> wf_announce m
      | CmAnnounceOk m \<Rightarrow> wf_announce_ok m
      | CmAnnounceError m \<Rightarrow> wf_announce_error m
      | CmAnnounceCancel m \<Rightarrow> wf_announce_cancel m
      | CmUnannounce m \<Rightarrow> wf_unannounce m
      | CmSubscribeAnnounces m \<Rightarrow> wf_subscribe_announces m
      | CmSubscribeAnnouncesOk m \<Rightarrow> wf_subscribe_announces_ok m
      | CmSubscribeAnnouncesError m \<Rightarrow> wf_subscribe_announces_error m
      | CmUnsubscribeAnnounces m \<Rightarrow> wf_unsubscribe_announces m
      | CmTrackStatusRequest m \<Rightarrow> wf_track_status_request m
      | CmTrackStatus m \<Rightarrow> wf_track_status m
      | CmFetch m \<Rightarrow> wf_fetch m
      | CmFetchOk m \<Rightarrow>
          wf_fetch_ok m \<and> fo_largest_group_id m \<noteq> None \<and> fo_largest_object_id m \<noteq> None
      | CmFetchError m \<Rightarrow> wf_fetch_error m
      | CmFetchCancel m \<Rightarrow> wf_fetch_cancel m)"

definition payload_ok :: "control_message \<Rightarrow> bool" where
  "payload_ok message =
     (case message of
        CmClientSetup m \<Rightarrow> wf_client_setup m
      | CmServerSetup m \<Rightarrow> wf_server_setup m
      | CmGoAway m \<Rightarrow> wf_go_away m
      | CmMaxSubscribeId m \<Rightarrow> wf_max_subscribe_id m
      | CmSubscribe m \<Rightarrow> wf_subscribe_payload m
      | CmSubscribeOk m \<Rightarrow> wf_subscribe_ok_payload m
      | CmSubscribeError m \<Rightarrow> wf_subscribe_error m
      | CmSubscribeUpdate m \<Rightarrow> wf_subscribe_update m
      | CmSubscribeDone m \<Rightarrow> wf_subscribe_done_payload m
      | CmUnsubscribe m \<Rightarrow> wf_unsubscribe m
      | CmAnnounce m \<Rightarrow> wf_announce m
      | CmAnnounceOk m \<Rightarrow> wf_announce_ok m
      | CmAnnounceError m \<Rightarrow> wf_announce_error m
      | CmAnnounceCancel m \<Rightarrow> wf_announce_cancel m
      | CmUnannounce m \<Rightarrow> wf_unannounce m
      | CmSubscribeAnnounces m \<Rightarrow> wf_subscribe_announces m
      | CmSubscribeAnnouncesOk m \<Rightarrow> wf_subscribe_announces_ok m
      | CmSubscribeAnnouncesError m \<Rightarrow> wf_subscribe_announces_error m
      | CmUnsubscribeAnnounces m \<Rightarrow> wf_unsubscribe_announces m
      | CmTrackStatusRequest m \<Rightarrow> wf_track_status_request m
      | CmTrackStatus m \<Rightarrow> wf_track_status m
      | CmFetch m \<Rightarrow> wf_fetch m
      | CmFetchOk m \<Rightarrow> wf_fetch_ok_payload m
      | CmFetchError m \<Rightarrow> wf_fetch_error m
      | CmFetchCancel m \<Rightarrow> wf_fetch_cancel m)"

lemma payload_ok_if:
  "wf_message m \<Longrightarrow> check_discriminators m = Inr () \<Longrightarrow> check_group_order m = Inr () \<Longrightarrow> payload_ok m"
  by (cases m) (simp_all add: wf_message_def payload_ok_def wf_subscribe_payload_def
      wf_subscribe_ok_payload_def wf_fetch_ok_payload_def)

lemma payload_ok_checks:
  "payload_ok m \<Longrightarrow> wf_message m \<and> check_discriminators m = Inr () \<and> check_group_order m = Inr ()"
  by (cases m) (simp_all add: wf_message_def payload_ok_def wf_subscribe_payload_def
      wf_subscribe_ok_payload_def wf_fetch_ok_payload_def check_discriminators_def
      check_group_order_def)

lemmas payload_dec_enc =
  client_setup.dec_enc
  server_setup.dec_enc
  go_away.dec_enc
  max_subscribe_id.dec_enc
  subscribe.dec_enc
  subscribe_ok.dec_enc
  subscribe_error.dec_enc
  subscribe_update.dec_enc
  subscribe_done.dec_enc
  unsubscribe.dec_enc
  announce.dec_enc
  announce_ok.dec_enc
  announce_error.dec_enc
  announce_cancel.dec_enc
  unannounce.dec_enc
  subscribe_announces.dec_enc
  subscribe_announces_ok.dec_enc
  subscribe_announces_error.dec_enc
  unsubscribe_announces.dec_enc
  track_status_request.dec_enc
  track_status.dec_enc
  fetch.dec_enc
  fetch_ok.dec_enc
  fetch_error.dec_enc
  fetch_cancel.dec_enc

lemmas payload_dec_sound =
  client_setup.dec_sound
  server_setup.dec_sound
  go_away.dec_sound
  max_subscribe_id.dec_sound
  subscribe.dec_sound
  subscribe_ok.dec_sound
  subscribe_error.dec_sound
  subscribe_update.dec_sound
  subscribe_done.dec_sound
  unsubscribe.dec_sound
  announce.dec_sound
  announce_ok.dec_sound
  announce_error.dec_sound
  announce_cancel.dec_sound
  unannounce.dec_sound
  subscribe_announces.dec_sound
  subscribe_announces_ok.dec_sound
  subscribe_announces_error.dec_sound
  unsubscribe_announces.dec_sound
  track_status_request.dec_sound
  track_status.dec_sound
  fetch.dec_sound
  fetch_ok.dec_sound
  fetch_error.dec_sound
  fetch_cancel.dec_sound

lemma decode_encode_payload:
  "encode_payload m = Inr b \<Longrightarrow> payload_ok m \<Longrightarrow>
     decode_payload (cm_message_type m) (b @ rest) = Inr (m, rest)"
  by (cases m) (simp_all add: encode_payload_def decode_payload_def cm_message_type_def
      payload_ok_def wrap_def payload_dec_enc)

lemma decode_payload_sound:
  "decode_payload t bs = Inr (m, rest) \<Longrightarrow>
     cm_message_type m = t \<and> payload_ok m
     \<and> (\<exists>b. encode_payload m = Inr b \<and> length b + length rest \<le> length bs)"
  by (cases t) (auto simp: encode_payload_def decode_payload_def cm_message_type_def
      payload_ok_def wrap_def rd_eq_Inr dest!: payload_dec_sound)

section \<open>The frame round trip\<close>

lemma incomplete_iff:
  "is_incomplete e \<longleftrightarrow> e = UnexpectedEnd \<or> e = CodecKvp KvpUnexpectedEnd
     \<or> e = CodecKvp (KvpVarInt VarIntUnexpectedEnd) \<or> e = CodecVarInt VarIntUnexpectedEnd"
  by (cases e) (simp_all add: is_incomplete_def disj_commute)

lemma type_id_varint: "from_usize (unat (mt_id t)) = VarInt (mt_id t)"
  by (simp add: from_usize_def)

lemma wf_type_id: "wf_varint (VarInt (mt_id t))"
  by (cases t) (simp_all add: wf_varint_def MAX_VARINT_def)

lemma cm_encode_Inr:
  "cm_encode m = Inr b \<longleftrightarrow>
     check_discriminators m = Inr () \<and> check_group_order m = Inr () \<and> check_ranges m = Inr ()
     \<and> (\<exists>p. encode_payload m = Inr p
          \<and> b = varint_encode (VarInt (mt_id (cm_message_type m)))
                @ varint_encode (from_usize (length p)) @ p)"
  by (auto simp: cm_encode_def and_then_eq_Inr type_id_varint)

lemma frame_body_Inr:
  "(case r of
      Inl e \<Rightarrow> if c e then Inl (f e) else Inl e
    | Inr (msg, p) \<Rightarrow>
        and_then (check msg) (\<lambda>_. if p \<noteq> [] then Inl g else Inr (msg, d))) = Inr (m, rest)
   \<longleftrightarrow> r = Inr (m, []) \<and> check m = Inr () \<and> rest = d"
  by (cases r) (auto simp: and_then_eq_Inr split: prod.splits)

lemma if_Inl_eq_Inr: "(if c then Inl e else x) = Inr y \<longleftrightarrow> \<not> c \<and> x = Inr y"
  by simp

lemma cm_decode_Inr:
  "cm_decode bs = Inr (m, rest) \<longleftrightarrow>
     (\<exists>ty len mid1 mid2 t. vi varint_decode bs = Inr (ty, mid1) \<and> mt_from_id (into_inner ty) = Some t
        \<and> vi varint_decode mid1 = Inr (len, mid2) \<and> usize len \<le> length mid2
        \<and> decode_payload t (take (usize len) mid2) = Inr (m, [])
        \<and> check_ranges m = Inr () \<and> rest = drop (usize len) mid2)"
  unfolding cm_decode_def Let_def result_inversion if_Inl_eq_Inr frame_body_Inr ok_or_eq_Inr not_less
  by blast

lemma cm_roundtrip:
  assumes "cm_encode m = Inr b" "wf_message m" "length b < 2 ^ 62"
  shows "cm_decode (b @ rest) = Inr (m, rest)"
proof -
  from assms(1) obtain p where checks: "check_discriminators m = Inr ()"
      "check_group_order m = Inr ()" "check_ranges m = Inr ()" and p: "encode_payload m = Inr p"
      and b: "b = varint_encode (VarInt (mt_id (cm_message_type m)))
        @ varint_encode (from_usize (length p)) @ p"
    by (auto simp: cm_encode_Inr)
  have "length p < 2 ^ 62"
    using assms(3) by (simp add: b)
  moreover have "decode_payload (cm_message_type m) p = Inr (m, [])"
    using decode_encode_payload [OF p, of "[]"] payload_ok_if [OF assms(2)] checks by simp
  ultimately show ?thesis
    using checks(3) by (simp add: cm_decode_def b wf_type_id)
qed

lemma cm_decode_sound:
  assumes "cm_decode bs = Inr (m, rest)"
  shows "wf_message m \<and> (\<exists>b. cm_encode m = Inr b \<and> length b + length rest \<le> length bs)"
proof -
  from assms obtain ty len mid1 mid2 t where
      ty: "vi varint_decode bs = Inr (ty, mid1)" "mt_from_id (into_inner ty) = Some t"
      and len: "vi varint_decode mid1 = Inr (len, mid2)" "usize len \<le> length mid2"
      and dec: "decode_payload t (take (usize len) mid2) = Inr (m, [])"
      and rest: "check_ranges m = Inr ()" "rest = drop (usize len) mid2"
    by (auto simp: cm_decode_Inr)
  obtain p where p: "encode_payload m = Inr p" "length p \<le> usize len"
    using decode_payload_sound [OF dec] len(2) by auto
  have "VarInt (mt_id (cm_message_type m)) = ty"
    using ty(2) decode_payload_sound [OF dec] by (simp add: mt.from_wire_iff) (metis varint.collapse)
  moreover have "encoded_len (from_usize (length p)) \<le> encoded_len len"
  proof -
    have "length p < 2 ^ 64" "usize len < 2 ^ 64"
      using p(2) usize_less_64 [of len] by simp_all
    then have "into_inner (from_usize (length p)) \<le> into_inner len"
      using p(2) by (simp add: word_le_nat_alt flip: usize_def)
    then show ?thesis
      by (auto simp: encoded_len_def)
  qed
  ultimately show ?thesis
    using p vi_D [OF ty(1)] vi_D [OF len(1)] rest len(2) payload_ok_checks [of m]
      decode_payload_sound [OF dec]
    by (auto simp: cm_encode_Inr length_varint_encode)
qed

text \<open>What a relay does: read a message and write it again.\<close>

lemma cm_reread:
  assumes "cm_decode bs = Inr (m, rest)" "length bs < 2 ^ 62"
  shows "\<exists>b. cm_encode m = Inr b \<and> cm_decode (b @ next) = Inr (m, next)"
  using cm_decode_sound [OF assms(1)] assms(2) cm_roundtrip by fastforce

section \<open>Reading a stream\<close>

text \<open>Once the declared payload is there, no error of the decoder asks for more input.\<close>

lemma cm_decode_settled:
  assumes "vi varint_decode bs = Inr (ty, mid1)" "vi varint_decode mid1 = Inr (len, mid2)"
    and "usize len \<le> length mid2"
  shows "settled (cm_decode bs)"
proof -
  have "settled (check_ranges m)" for m
    by (auto simp: check_ranges_def check_location_range_def check_open_ended_group_range_def
        settled_def is_incomplete_def Let_def split: control_message.splits option.splits if_splits)
  then show ?thesis
    using assms(3)
    by (auto simp: cm_decode_def assms(1,2) Let_def incomplete_iff intro!: settled_intros
        split: sum.splits)
qed

lemma vi_extend:
  "vi varint_decode bs = Inr (x, rest) \<Longrightarrow> vi varint_decode (bs @ z) = Inr (x, rest @ z)"
  by (simp add: vi_def varint_decode_extend)

text \<open>A message read from a partial buffer is the message of the whole stream, and a refusal that
  does not ask for more stands whatever follows.\<close>

lemma cm_decode_extend:
  "cm_decode bs = Inr (m, rest) \<Longrightarrow> cm_decode (bs @ z) = Inr (m, rest @ z)"
  unfolding cm_decode_Inr by (elim exE conjE) (intro exI conjI, (erule vi_extend | simp)+)

lemma vi_error_extend:
  assumes "vi varint_decode bs = Inl e"
  shows "is_incomplete e"
  using assms by (auto simp: vi_def varint_decode_def Let_def is_incomplete_def split: if_splits)

lemma cm_decode_error_extend:
  assumes "cm_decode bs = Inl e" "\<not> is_incomplete e"
  shows "cm_decode (bs @ z) = Inl e"
proof -
  from assms obtain ty mid1 where ty: "vi varint_decode bs = Inr (ty, mid1)"
    by (auto simp: cm_decode_def rd_eq_Inl dest: vi_error_extend)
  show ?thesis
  proof (cases "mt_from_id (into_inner ty)")
    case None
    with assms(1) show ?thesis
      by (simp add: cm_decode_def ty vi_extend [OF ty])
  next
    case (Some t)
    with assms obtain len mid2 where len: "vi varint_decode mid1 = Inr (len, mid2)"
        "usize len \<le> length mid2"
      by (auto simp: cm_decode_def ty rd_eq_Inl Let_def is_incomplete_def not_less
          dest: vi_error_extend split: if_splits)
    with assms(1) Some show ?thesis
      by (cases "decode_payload t (take (usize len) mid2)")
        (auto simp: cm_decode_def ty vi_extend [OF ty] vi_extend [OF len(1)] Let_def and_then_eq_Inl
          split: if_splits)
  qed
qed

end
