(* ===== verification/Draft07_Data.thy ===== *)
theory Draft07_Data
  imports Draft07_Roundtrip
begin

text \<open>
  \<open>draft07/data_stream.rs\<close>: stream and datagram headers and the object headers on them. An object's
  status is on the wire only when its payload is empty, so the plain writers lose a status beside a
  payload; \<open>encode_checked\<close> is the writer that refuses instead. \<open>carried\<close> below is what survives.
\<close>

datatype stream_type = StDatagram | StSubgroup | StFetch

definition st_from_id :: "u64 \<Rightarrow> stream_type option" where
  "st_from_id i =
     (if i = 0x01 then Some StDatagram
      else if i = 0x04 then Some StSubgroup
      else if i = 0x05 then Some StFetch
      else None)"

fun st_id :: "stream_type \<Rightarrow> u64" where
  "st_id StDatagram = 0x01"
| "st_id StSubgroup = 0x04"
| "st_id StFetch = 0x05"

definition stream_type_error :: "u64 \<Rightarrow> codec_error" where
  "stream_type_error raw = (if st_from_id raw \<noteq> None then InvalidField else UnknownStreamType raw)"

record subgroup_header =
  sh_track_alias :: varint
  sh_group_id :: varint
  sh_subgroup_id :: varint
  sh_publisher_priority :: u8

record object_header =
  oh_object_id :: varint
  oh_payload_length :: varint
  oh_object_status :: object_status

definition subgroup_encode :: "subgroup_header \<Rightarrow> bytes" where
  "subgroup_encode h =
     varint_encode (sh_track_alias h) @ varint_encode (sh_group_id h)
     @ varint_encode (sh_subgroup_id h) @ [sh_publisher_priority h]"

definition subgroup_encode_stream :: "subgroup_header \<Rightarrow> bytes" where
  "subgroup_encode_stream h =
     varint_encode (from_usize (unat (st_id StSubgroup))) @ subgroup_encode h"

definition subgroup_decode :: "bytes \<Rightarrow> codec_error + subgroup_header \<times> bytes" where
  "subgroup_decode bs =
     rd (vi varint_decode bs) (\<lambda>al bs.
     rd (vi varint_decode bs) (\<lambda>g bs.
     rd (vi varint_decode bs) (\<lambda>sg bs.
     if length bs < 1 then Inl UnexpectedEnd
     else case get_u8 bs of (prio, bs) \<Rightarrow>
       Inr (\<lparr> sh_track_alias = al, sh_group_id = g, sh_subgroup_id = sg,
              sh_publisher_priority = prio \<rparr>, bs))))"

definition subgroup_decode_stream :: "bytes \<Rightarrow> codec_error + subgroup_header \<times> bytes" where
  "subgroup_decode_stream bs =
     rd (vi varint_decode bs) (\<lambda>t bs.
     if into_inner t \<noteq> st_id StSubgroup then Inl (stream_type_error (into_inner t))
     else subgroup_decode bs)"

text \<open>\<open>if self.payload_length.into_inner() == 0 { VarInt::from_usize(self.object_status as usize) ... }\<close>
  and its reading counterpart, spelled out in each of the three object headers.\<close>

definition put_status :: "varint \<Rightarrow> object_status \<Rightarrow> bytes" where
  "put_status len status =
     (if into_inner len = 0 then varint_encode (from_usize (unat (os_as_u64 status))) else [])"

definition read_status :: "varint \<Rightarrow> bytes \<Rightarrow> codec_error + object_status \<times> bytes" where
  "read_status len bs =
     (if into_inner len = 0 then
        rd (vi varint_decode bs) (\<lambda>v bs.
        and_then (ok_or (os_from_u64 (into_inner v)) InvalidField) (\<lambda>st. Inr (st, bs)))
      else Inr (OsNormal, bs))"

definition object_encode :: "object_header \<Rightarrow> bytes" where
  "object_encode h =
     varint_encode (oh_object_id h) @ varint_encode (oh_payload_length h)
     @ put_status (oh_payload_length h) (oh_object_status h)"

definition object_encode_checked :: "object_header \<Rightarrow> codec_error + bytes" where
  "object_encode_checked h =
     (if into_inner (oh_payload_length h) \<noteq> 0 \<and> unat (os_as_u64 (oh_object_status h)) \<noteq> 0
      then Inl InvalidField else Inr (object_encode h))"

definition object_decode :: "bytes \<Rightarrow> codec_error + object_header \<times> bytes" where
  "object_decode bs =
     rd (vi varint_decode bs) (\<lambda>i bs.
     rd (vi varint_decode bs) (\<lambda>len bs.
     rd (read_status len bs) (\<lambda>st bs.
     Inr (\<lparr> oh_object_id = i, oh_payload_length = len, oh_object_status = st \<rparr>, bs))))"

record datagram_header =
  dh_track_alias :: varint
  dh_group_id :: varint
  dh_object_id :: varint
  dh_publisher_priority :: u8
  dh_object_status :: object_status
  dh_payload_length :: varint

definition datagram_header_encode :: "datagram_header \<Rightarrow> bytes" where
  "datagram_header_encode h =
     varint_encode (dh_track_alias h) @ varint_encode (dh_group_id h)
     @ varint_encode (dh_object_id h) @ [dh_publisher_priority h]
     @ varint_encode (dh_payload_length h)
     @ put_status (dh_payload_length h) (dh_object_status h)"

definition datagram_header_encode_checked :: "datagram_header \<Rightarrow> codec_error + bytes" where
  "datagram_header_encode_checked h =
     (if into_inner (dh_payload_length h) \<noteq> 0 \<and> dh_object_status h \<noteq> OsNormal
      then Inl InvalidField else Inr (datagram_header_encode h))"

definition datagram_header_decode :: "bytes \<Rightarrow> codec_error + datagram_header \<times> bytes" where
  "datagram_header_decode bs =
     rd (vi varint_decode bs) (\<lambda>al bs.
     rd (vi varint_decode bs) (\<lambda>g bs.
     rd (vi varint_decode bs) (\<lambda>i bs.
     if length bs < 1 then Inl UnexpectedEnd
     else case get_u8 bs of (prio, bs) \<Rightarrow>
       rd (vi varint_decode bs) (\<lambda>len bs.
       rd (read_status len bs) (\<lambda>st bs.
       Inr (\<lparr> dh_track_alias = al, dh_group_id = g, dh_object_id = i,
              dh_publisher_priority = prio, dh_object_status = st,
              dh_payload_length = len \<rparr>, bs))))))"

datatype datagram = DgPayload datagram_header

fun datagram_is_status :: "datagram \<Rightarrow> bool" where
  "datagram_is_status (DgPayload h) \<longleftrightarrow> into_inner (dh_payload_length h) = 0"

fun datagram_type :: "datagram \<Rightarrow> stream_type" where
  "datagram_type (DgPayload h) = StDatagram"

definition datagram_decode :: "bytes \<Rightarrow> codec_error + datagram \<times> bytes" where
  "datagram_decode bs =
     rd (vi varint_decode bs) (\<lambda>t bs.
     case st_from_id (into_inner t) of
       Some StDatagram \<Rightarrow> rd (datagram_header_decode bs) (\<lambda>h bs. Inr (DgPayload h, bs))
     | _ \<Rightarrow> Inl (stream_type_error (into_inner t)))"

fun datagram_encode :: "datagram \<Rightarrow> bytes" where
  "datagram_encode (DgPayload h) =
     varint_encode (from_usize (unat (st_id (datagram_type (DgPayload h)))))
     @ datagram_header_encode h"

fun datagram_encode_checked :: "datagram \<Rightarrow> codec_error + bytes" where
  "datagram_encode_checked (DgPayload h) =
     and_then (datagram_header_encode_checked h) (\<lambda>body.
     Inr (varint_encode (from_usize (unat (st_id (datagram_type (DgPayload h))))) @ body))"

record fetch_header =
  fh_subscribe_id :: varint

record fetch_object_header =
  foh_group_id :: varint
  foh_subgroup_id :: varint
  foh_object_id :: varint
  foh_publisher_priority :: u8
  foh_object_status :: object_status
  foh_payload_length :: varint

definition fetch_header_encode :: "fetch_header \<Rightarrow> bytes" where
  "fetch_header_encode h = varint_encode (fh_subscribe_id h)"

definition fetch_header_encode_stream :: "fetch_header \<Rightarrow> bytes" where
  "fetch_header_encode_stream h =
     varint_encode (from_usize (unat (st_id StFetch))) @ fetch_header_encode h"

definition fetch_header_decode :: "bytes \<Rightarrow> codec_error + fetch_header \<times> bytes" where
  "fetch_header_decode bs =
     rd (vi varint_decode bs) (\<lambda>i bs. Inr (\<lparr> fh_subscribe_id = i \<rparr>, bs))"

definition fetch_header_decode_stream :: "bytes \<Rightarrow> codec_error + fetch_header \<times> bytes" where
  "fetch_header_decode_stream bs =
     rd (vi varint_decode bs) (\<lambda>t bs.
     if into_inner t \<noteq> st_id StFetch then Inl (stream_type_error (into_inner t))
     else fetch_header_decode bs)"

definition fetch_object_encode :: "fetch_object_header \<Rightarrow> bytes" where
  "fetch_object_encode h =
     varint_encode (foh_group_id h) @ varint_encode (foh_subgroup_id h)
     @ varint_encode (foh_object_id h) @ [foh_publisher_priority h]
     @ varint_encode (foh_payload_length h)
     @ put_status (foh_payload_length h) (foh_object_status h)"

definition fetch_object_encode_checked :: "fetch_object_header \<Rightarrow> codec_error + bytes" where
  "fetch_object_encode_checked h =
     (if into_inner (foh_payload_length h) \<noteq> 0 \<and> unat (os_as_u64 (foh_object_status h)) \<noteq> 0
      then Inl InvalidField else Inr (fetch_object_encode h))"

definition fetch_object_decode :: "bytes \<Rightarrow> codec_error + fetch_object_header \<times> bytes" where
  "fetch_object_decode bs =
     rd (vi varint_decode bs) (\<lambda>g bs.
     rd (vi varint_decode bs) (\<lambda>sg bs.
     rd (vi varint_decode bs) (\<lambda>i bs.
     if length bs < 1 then Inl UnexpectedEnd
     else case get_u8 bs of (prio, bs) \<Rightarrow>
       rd (vi varint_decode bs) (\<lambda>len bs.
       rd (read_status len bs) (\<lambda>st bs.
       Inr (\<lparr> foh_group_id = g, foh_subgroup_id = sg, foh_object_id = i,
              foh_publisher_priority = prio, foh_object_status = st,
              foh_payload_length = len \<rparr>, bs))))))"

section \<open>What survives the wire\<close>

interpretation st: code_points st_id st_from_id
proof
  show "st_from_id v = Some x \<longleftrightarrow> v = st_id x" for v x
    by (cases x) (auto simp: st_from_id_def split: if_splits)
qed

definition carried :: "varint \<Rightarrow> object_status \<Rightarrow> object_status" where
  "carried len status = (if into_inner len = 0 then status else OsNormal)"

lemma os_as_u64_nonzero: "unat (os_as_u64 s) = 0 \<longleftrightarrow> s = OsNormal"
  by (cases s) simp_all

lemma from_usize_status [simp]: "from_usize (unat (os_as_u64 s)) = VarInt (os_as_u64 s)"
  by (simp add: from_usize_def)

lemma wf_status: "wf_varint (VarInt (os_as_u64 s))"
  by (cases s) (simp_all add: wf_varint_def MAX_VARINT_def)

lemma read_put_status [simp]: "read_status len (put_status len s @ rest) = Inr (carried len s, rest)"
  by (simp add: read_status_def put_status_def carried_def wf_status)

lemma eats_read_status [eats_intros]: "eats (read_status len bs) bs"
  unfolding read_status_def by (intro eats_intros)

lemma read_status_carried: "read_status len bs = Inr (st, rest) \<Longrightarrow> carried len st = st"
  by (auto simp: read_status_def carried_def split: if_splits)

lemma eats_get_u8 [eats_intros]:
  "(\<And>b bs'. eats (k b bs') bs') \<Longrightarrow>
     eats (if length bs < 1 then Inl e else case get_u8 bs of (b, bs') \<Rightarrow> k b bs') bs"
  by (cases bs) (auto simp: eats_def, metis append_Cons)

definition carried_object :: "object_header \<Rightarrow> object_header" where
  "carried_object h =
     h\<lparr> oh_object_status := carried (oh_payload_length h) (oh_object_status h) \<rparr>"

definition carried_datagram :: "datagram_header \<Rightarrow> datagram_header" where
  "carried_datagram h =
     h\<lparr> dh_object_status := carried (dh_payload_length h) (dh_object_status h) \<rparr>"

definition carried_fetch_object :: "fetch_object_header \<Rightarrow> fetch_object_header" where
  "carried_fetch_object h =
     h\<lparr> foh_object_status := carried (foh_payload_length h) (foh_object_status h) \<rparr>"

definition wf_subgroup :: "subgroup_header \<Rightarrow> bool" where
  "wf_subgroup h \<longleftrightarrow>
     wf_varint (sh_track_alias h) \<and> wf_varint (sh_group_id h) \<and> wf_varint (sh_subgroup_id h)"

definition wf_object :: "object_header \<Rightarrow> bool" where
  "wf_object h \<longleftrightarrow> wf_varint (oh_object_id h) \<and> wf_varint (oh_payload_length h)"

definition wf_datagram :: "datagram_header \<Rightarrow> bool" where
  "wf_datagram h \<longleftrightarrow>
     wf_varint (dh_track_alias h) \<and> wf_varint (dh_group_id h) \<and> wf_varint (dh_object_id h)
     \<and> wf_varint (dh_payload_length h)"

definition wf_fetch_object :: "fetch_object_header \<Rightarrow> bool" where
  "wf_fetch_object h \<longleftrightarrow>
     wf_varint (foh_group_id h) \<and> wf_varint (foh_subgroup_id h) \<and> wf_varint (foh_object_id h)
     \<and> wf_varint (foh_payload_length h)"

lemma object_decode_encode:
  "wf_object h \<Longrightarrow> object_decode (object_encode h @ rest) = Inr (carried_object h, rest)"
  by (simp add: object_decode_def object_encode_def wf_object_def carried_object_def)

lemma datagram_decode_encode:
  "wf_datagram h \<Longrightarrow>
     datagram_header_decode (datagram_header_encode h @ rest) = Inr (carried_datagram h, rest)"
  by (simp add: datagram_header_decode_def datagram_header_encode_def wf_datagram_def
      carried_datagram_def)

lemma fetch_object_decode_encode:
  "wf_fetch_object h \<Longrightarrow>
     fetch_object_decode (fetch_object_encode h @ rest) = Inr (carried_fetch_object h, rest)"
  by (simp add: fetch_object_decode_def fetch_object_encode_def wf_fetch_object_def
      carried_fetch_object_def)

interpretation subgroup: sound_codec subgroup_encode subgroup_decode wf_subgroup
proof
  show "subgroup_decode (subgroup_encode h @ rest) = Inr (h, rest)" if "wf_subgroup h" for h rest
    using that by (simp add: subgroup_decode_def subgroup_encode_def wf_subgroup_def)
  show "\<exists>used. used \<noteq> [] \<and> bs = used @ rest" if "subgroup_decode bs = Inr (h, rest)" for bs h rest
    by (rule eats1D [OF _ that]) (unfold subgroup_decode_def, intro eats_intros)
  show "wf_subgroup h" if "subgroup_decode bs = Inr (h, rest)" for bs h rest
    using that by (auto simp: subgroup_decode_def field_defs wf_subgroup_def split: if_splits
        dest!: field_D)
qed

interpretation object_hdr: sound_codec object_encode object_decode
    "\<lambda>h. wf_object h \<and> carried_object h = h"
proof
  show "object_decode (object_encode h @ rest) = Inr (h, rest)"
    if "wf_object h \<and> carried_object h = h" for h rest
    using that object_decode_encode [of h rest] by simp
  show "\<exists>used. used \<noteq> [] \<and> bs = used @ rest" if "object_decode bs = Inr (h, rest)" for bs h rest
    by (rule eats1D [OF _ that]) (unfold object_decode_def, intro eats_intros)
  show "wf_object h \<and> carried_object h = h" if "object_decode bs = Inr (h, rest)" for bs h rest
    using that by (auto simp: object_decode_def result_inversion wf_object_def carried_object_def
        dest!: field_D read_status_carried)
qed

interpretation datagram_hdr: sound_codec datagram_header_encode datagram_header_decode
    "\<lambda>h. wf_datagram h \<and> carried_datagram h = h"
proof
  show "datagram_header_decode (datagram_header_encode h @ rest) = Inr (h, rest)"
    if "wf_datagram h \<and> carried_datagram h = h" for h rest
    using that datagram_decode_encode [of h rest] by simp
  show "\<exists>used. used \<noteq> [] \<and> bs = used @ rest"
    if "datagram_header_decode bs = Inr (h, rest)" for bs h rest
    by (rule eats1D [OF _ that]) (unfold datagram_header_decode_def, intro eats_intros)
  show "wf_datagram h \<and> carried_datagram h = h"
    if "datagram_header_decode bs = Inr (h, rest)" for bs h rest
    using that by (auto simp: datagram_header_decode_def field_defs wf_datagram_def
        carried_datagram_def split: if_splits dest!: field_D read_status_carried)
qed

interpretation fetch_object_hdr: sound_codec fetch_object_encode fetch_object_decode
    "\<lambda>h. wf_fetch_object h \<and> carried_fetch_object h = h"
proof
  show "fetch_object_decode (fetch_object_encode h @ rest) = Inr (h, rest)"
    if "wf_fetch_object h \<and> carried_fetch_object h = h" for h rest
    using that fetch_object_decode_encode [of h rest] by simp
  show "\<exists>used. used \<noteq> [] \<and> bs = used @ rest"
    if "fetch_object_decode bs = Inr (h, rest)" for bs h rest
    by (rule eats1D [OF _ that]) (unfold fetch_object_decode_def, intro eats_intros)
  show "wf_fetch_object h \<and> carried_fetch_object h = h"
    if "fetch_object_decode bs = Inr (h, rest)" for bs h rest
    using that by (auto simp: fetch_object_decode_def field_defs wf_fetch_object_def
        carried_fetch_object_def split: if_splits dest!: field_D read_status_carried)
qed

text \<open>The checked writers accept exactly the headers that survive.\<close>

lemma object_checked_iff:
  "object_encode_checked h = Inr b \<longleftrightarrow> carried_object h = h \<and> b = object_encode h"
  by (cases h) (auto simp: object_encode_checked_def carried_object_def carried_def
      os_as_u64_nonzero)

lemma datagram_checked_iff:
  "datagram_header_encode_checked h = Inr b \<longleftrightarrow>
     carried_datagram h = h \<and> b = datagram_header_encode h"
  by (cases h) (auto simp: datagram_header_encode_checked_def carried_datagram_def carried_def)

lemma fetch_object_checked_iff:
  "fetch_object_encode_checked h = Inr b \<longleftrightarrow>
     carried_fetch_object h = h \<and> b = fetch_object_encode h"
  by (cases h) (auto simp: fetch_object_encode_checked_def carried_fetch_object_def carried_def
      os_as_u64_nonzero)

lemma st_varint [simp]: "from_usize (unat (st_id t)) = VarInt (st_id t)"
  by (simp add: from_usize_def)

lemma wf_st [simp]: "wf_varint (VarInt (st_id t))"
  by (cases t) (simp_all add: wf_varint_def MAX_VARINT_def)

lemma subgroup_stream_roundtrip:
  "wf_subgroup h \<Longrightarrow> subgroup_decode_stream (subgroup_encode_stream h @ rest) = Inr (h, rest)"
  by (simp add: subgroup_decode_stream_def subgroup_encode_stream_def subgroup.decode_encode
      del: st_id.simps)

lemma fetch_stream_roundtrip:
  "wf_varint (fh_subscribe_id h) \<Longrightarrow>
     fetch_header_decode_stream (fetch_header_encode_stream h @ rest) = Inr (h, rest)"
  by (simp add: fetch_header_decode_stream_def fetch_header_encode_stream_def
      fetch_header_decode_def fetch_header_encode_def del: st_id.simps)

lemma datagram_roundtrip:
  assumes "datagram_encode_checked (DgPayload h) = Inr b" "wf_datagram h"
  shows "datagram_decode (b @ rest) = Inr (DgPayload h, rest)"
  using assms by (auto simp: and_then_eq_Inr datagram_checked_iff datagram_decode_def
      datagram_hdr.decode_encode simp del: st_id.simps)

end
