(* ===== verification/Message_Properties.thy ===== *)
theory Message_Properties
  imports Draft07_Frame Draft07_Data
begin

text \<open>
  The properties of draft-07's control messages and data-stream headers.
\<close>

section \<open>Control messages\<close>

definition sample_subscribe :: control_message where
  "sample_subscribe =
     CmSubscribe
       \<lparr> s_subscribe_id = VarInt 1, s_track_alias = VarInt 2,
         s_track_namespace = TrackNamespace [[1, 2], [3]], s_track_name = [9],
         s_subscriber_priority = 7, s_group_order = GoAscending, s_filter_type = AbsoluteStart,
         s_start_location = Some \<lparr> loc_group = VarInt 300, loc_object = VarInt 0 \<rparr>,
         s_end_group = None, s_end_object = None, s_parameters = [] \<rparr>"

definition sample_frame :: bytes where
  "sample_frame = [3, 17, 1, 2, 2, 2, 1, 2, 1, 3, 1, 9, 7, 1, 3, 65, 44, 0, 0]"

lemma sample_encodes: "cm_encode sample_subscribe = Inr sample_frame"
  by code_simp

lemma sample_wf: "wf_message sample_subscribe"
  by (simp add: sample_subscribe_def wf_message_def wf_subscribe_def wf_varint_def MAX_VARINT_def
      wf_ns_def wf_bytes_def wf_location_def wf_kvp_list_d07_def)

lemma sample_decodes: "cm_decode sample_frame = Inr (sample_subscribe, [])"
  using cm_roundtrip [OF sample_encodes sample_wf, of "[]"] by (simp add: sample_frame_def)

text \<open>C1. A control message the encoder writes is the message the decoder reads, for each of the 25
  kinds, whatever follows on the stream.\<close>

theorem message_roundtrip:
  assumes "cm_encode m = Inr b" and "wf_message m" and "length b < 2 ^ 62"
  shows "cm_decode (b @ rest) = Inr (m, rest)"
  by (rule cm_roundtrip [OF assms])

theorem message_roundtrip_witness:
  "cm_decode (sample_frame @ [1, 2]) = Inr (sample_subscribe, [1, 2])"
  by (rule message_roundtrip [OF sample_encodes sample_wf]) (simp add: sample_frame_def)

text \<open>C8. A relay is faithful: a message that was read can be written again, in no more bytes than it
  came in, and what was written reads as the same message.\<close>

theorem relay_faithful:
  assumes "cm_decode bs = Inr (m, rest)" and "length bs < 2 ^ 62"
  shows "\<exists>b. cm_encode m = Inr b \<and> length b + length rest \<le> length bs
    \<and> cm_decode (b @ next) = Inr (m, next)"
  using cm_decode_sound [OF assms(1)] cm_roundtrip [of m _ "next"] assms(2) by fastforce

theorem relay_faithful_witness:
  "\<exists>b. cm_encode sample_subscribe = Inr b \<and> length b \<le> 19
     \<and> cm_decode (b @ [4]) = Inr (sample_subscribe, [4])"
proof -
  have "length sample_frame = 19" by (simp add: sample_frame_def)
  then show ?thesis
    using relay_faithful [OF sample_decodes, of "[4]"] by simp
qed

text \<open>C7. Reading from a growing buffer is safe: the answer on what has arrived, a message or a refusal
  that does not ask for more, is the answer on the whole stream.\<close>

theorem partial_reads_stand:
  assumes "settled (cm_decode bs)"
  shows "cm_decode (bs @ later) =
    (case cm_decode bs of Inl e \<Rightarrow> Inl e | Inr (m, rest) \<Rightarrow> Inr (m, rest @ later))"
proof (cases "cm_decode bs")
  case (Inl e)
  with assms cm_decode_error_extend [OF Inl] show ?thesis by (simp add: settled_def)
next
  case (Inr r)
  then show ?thesis by (cases r) (simp add: cm_decode_extend)
qed

theorem partial_reads_stand_witness:
  "cm_decode (sample_frame @ [16, 0]) = Inr (sample_subscribe, [16, 0])"
  using partial_reads_stand [of sample_frame "[16, 0]"] by (simp add: sample_decodes settled_def)

text \<open>A reader never stalls: once the type, the length and the declared number of payload bytes
  are there, the decoder answers without asking for more.\<close>

theorem complete_frame_is_answered:
  assumes "vi varint_decode bs = Inr (ty, mid1)" and "vi varint_decode mid1 = Inr (len, mid2)"
    and "usize len \<le> length mid2"
  shows "settled (cm_decode bs)"
  by (rule cm_decode_settled [OF assms])

theorem complete_frame_is_answered_witness: "settled (cm_decode [3, 2, 1, 1])"
  by (rule complete_frame_is_answered [of _ "VarInt 3" "[2, 1, 1]" "VarInt 2" "[1, 1]"]) code_simp+

text \<open>C40. Every code point of draft-07 is its own inverse: message types, the close and error codes,
  the roles and the statuses each map to one value and back.\<close>

theorem code_points_inverse:
  "(mt_from_id i = Some t) = (i = mt_id t) \<and> (sec_from_u64 i = Some c1) = (i = sec_as_u64 c1)
   \<and> (sue_from_u64 i = Some c2) = (i = sue_as_u64 c2)
   \<and> (sds_from_u64 i = Some c3) = (i = sds_as_u64 c3)
   \<and> (tsc_from_u64 i = Some c4) = (i = tsc_as_u64 c4)
   \<and> (os_from_u64 i = Some c5) = (i = os_as_u64 c5)
   \<and> (role_from_u8 j = Some c6) = (j = role_as_u8 c6) \<and> (st_from_id i = Some c7) = (i = st_id c7)"
  by (intro conjI mt.from_wire_iff sec.from_wire_iff sue.from_wire_iff sds.from_wire_iff
      tsc.from_wire_iff os.from_wire_iff role.from_wire_iff st.from_wire_iff)

section \<open>Data streams\<close>

text \<open>The headers that open a data stream or a datagram are read back as written: a subgroup
  stream, a fetch stream, and any datagram the checked encoder writes.\<close>

theorem stream_openings_roundtrip:
  "(wf_subgroup h \<longrightarrow> subgroup_decode_stream (subgroup_encode_stream h @ rest) = Inr (h, rest))
   \<and> (wf_varint (fh_subscribe_id f) \<longrightarrow>
        fetch_header_decode_stream (fetch_header_encode_stream f @ rest) = Inr (f, rest))
   \<and> (wf_datagram d \<and> datagram_encode_checked (DgPayload d) = Inr b \<longrightarrow>
        datagram_decode (b @ rest) = Inr (DgPayload d, rest))"
  using subgroup_stream_roundtrip fetch_stream_roundtrip datagram_roundtrip by blast

theorem stream_openings_roundtrip_witness:
  "subgroup_decode_stream (subgroup_encode_stream
       \<lparr> sh_track_alias = VarInt 1, sh_group_id = VarInt 70, sh_subgroup_id = VarInt 0,
         sh_publisher_priority = 3 \<rparr> @ [9])
     = Inr (\<lparr> sh_track_alias = VarInt 1, sh_group_id = VarInt 70, sh_subgroup_id = VarInt 0,
              sh_publisher_priority = 3 \<rparr>, [9])"
  using stream_openings_roundtrip by (simp add: wf_subgroup_def wf_varint_def MAX_VARINT_def)

text \<open>The checked encoders of the three object headers write exactly the headers that are read
  back as they are, and refuse the ones whose status the payload would hide.\<close>

theorem checked_headers_are_the_readable:
  assumes "wf_object h" and "wf_datagram d" and "wf_fetch_object f"
  shows "(\<exists>b. object_encode_checked h = Inr b) = (object_decode (object_encode h @ rest) = Inr (h, rest))
    \<and> (\<exists>b. datagram_header_encode_checked d = Inr b)
        = (datagram_header_decode (datagram_header_encode d @ rest) = Inr (d, rest))
    \<and> (\<exists>b. fetch_object_encode_checked f = Inr b)
        = (fetch_object_decode (fetch_object_encode f @ rest) = Inr (f, rest))"
  using assms by (simp add: object_checked_iff datagram_checked_iff fetch_object_checked_iff
      object_decode_encode datagram_decode_encode fetch_object_decode_encode)

theorem checked_headers_are_the_readable_witness:
  "object_decode (object_encode \<lparr> oh_object_id = VarInt 4, oh_payload_length = VarInt 9,
       oh_object_status = OsEndOfGroup \<rparr> @ [1])
     \<noteq> Inr (\<lparr> oh_object_id = VarInt 4, oh_payload_length = VarInt 9,
              oh_object_status = OsEndOfGroup \<rparr>, [1])"
proof -
  let ?h = "\<lparr> oh_object_id = VarInt 4, oh_payload_length = VarInt 9, oh_object_status = OsEndOfGroup \<rparr>"
  let ?d = "\<lparr> dh_track_alias = VarInt 1, dh_group_id = VarInt 1, dh_object_id = VarInt 1,
     dh_publisher_priority = 0, dh_object_status = OsNormal, dh_payload_length = VarInt 1 \<rparr>"
  let ?f = "\<lparr> foh_group_id = VarInt 1, foh_subgroup_id = VarInt 1, foh_object_id = VarInt 1,
     foh_publisher_priority = 0, foh_object_status = OsNormal, foh_payload_length = VarInt 1 \<rparr>"
  have "\<nexists>b. object_encode_checked ?h = Inr b"
    by (simp add: object_checked_iff carried_object_def carried_def usize_def)
  then show ?thesis
    using checked_headers_are_the_readable [of ?h ?d ?f "[1]"]
    by (simp add: wf_object_def wf_datagram_def wf_fetch_object_def wf_varint_def MAX_VARINT_def)
qed

end
