(* ===== verification/Session_Flow.thy ===== *)
theory Session_Flow
  imports Draft07_Message
begin

text \<open>
  \<open>draft07/session\<close> of the client crate: the session's lifecycle (\<open>state.rs\<close>), the allocator of
  subscribe ids under the peer's ceiling (\<open>subscribe_id.rs\<close>) and the rules on SETUP (\<open>setup.rs\<close>).
  A method on \<open>&mut self\<close> answering \<open>Result<(), E>\<close> is a function from the state to the error or the
  new state: each of them leaves the state alone when it fails.
\<close>

section \<open>Lifecycles\<close>

text \<open>The moves a list of methods allows, and what a lifecycle promises: a method either leaves the
  state where it is or moves it forward, towards one terminal state.\<close>

definition moves :: "('s \<Rightarrow> 'e + 's) list \<Rightarrow> ('s \<times> 's) set" where
  "moves ops = {(s, t). \<exists>op \<in> set ops. op s = Inr t}"

locale lifecycle =
  fixes ops :: "('s \<Rightarrow> 'e + 's) list"
    and rank :: "'s \<Rightarrow> nat"
    and terminal :: 's
  assumes advance: "(s, t) \<in> moves ops \<Longrightarrow> t = s \<or> rank s < rank t"
    and terminal_top: "rank s \<le> rank terminal"
begin

lemma run_advance: "(s, t) \<in> (moves ops)\<^sup>* \<Longrightarrow> t = s \<or> rank s < rank t"
  by (induction rule: rtrancl_induct) (auto dest: advance)

lemma never_back: "(s, t) \<in> (moves ops)\<^sup>* \<Longrightarrow> (t, s) \<in> (moves ops)\<^sup>* \<Longrightarrow> s = t"
  by (auto dest!: run_advance)

lemma terminal_stays: "(terminal, t) \<in> (moves ops)\<^sup>* \<Longrightarrow> t = terminal"
  using terminal_top [of t] by (auto dest!: run_advance)

lemma antisym_run: "antisym ((moves ops)\<^sup>*)"
  by (auto intro: antisymI dest: never_back)

lemma terminal_run: "(moves ops)\<^sup>* `` {terminal} = {terminal}"
  using terminal_stays by auto

end

section \<open>Session state\<close>

datatype session_state = Connecting | SetupExchange | SessActive | Draining | SessClosed

datatype session_error = SessInvalidTransition session_state session_state

definition session_new :: session_state where "session_new = Connecting"

definition on_connect :: "session_state \<Rightarrow> session_error + session_state" where
  "on_connect s =
     (if s = Connecting then Inr SetupExchange else Inl (SessInvalidTransition s SetupExchange))"

definition on_setup_complete :: "session_state \<Rightarrow> session_error + session_state" where
  "on_setup_complete s =
     (if s = SetupExchange then Inr SessActive else Inl (SessInvalidTransition s SessActive))"

definition on_goaway :: "session_state \<Rightarrow> session_error + session_state" where
  "on_goaway s =
     (if s = SessActive then Inr Draining else Inl (SessInvalidTransition s Draining))"

definition on_close :: "session_state \<Rightarrow> session_error + session_state" where
  "on_close s =
     (if s = SetupExchange \<or> s = SessActive \<or> s = Draining then Inr SessClosed
      else Inl (SessInvalidTransition s SessClosed))"

definition session_ops :: "(session_state \<Rightarrow> session_error + session_state) list" where
  "session_ops = [on_connect, on_setup_complete, on_goaway, on_close]"

fun session_rank :: "session_state \<Rightarrow> nat" where
  "session_rank Connecting = 0"
| "session_rank SetupExchange = 1"
| "session_rank SessActive = 2"
| "session_rank Draining = 3"
| "session_rank SessClosed = 4"

lemmas session_op_defs =
  on_connect_def on_setup_complete_def on_goaway_def on_close_def

interpretation session: lifecycle session_ops session_rank SessClosed
proof
  show "(s, t) \<in> moves session_ops \<Longrightarrow> t = s \<or> session_rank s < session_rank t" for s t
    by (auto simp: moves_def session_ops_def session_op_defs split: if_splits)
  show "session_rank s \<le> session_rank SessClosed" for s
    by (cases s) simp_all
qed

section \<open>Subscribe ids\<close>

datatype subscribe_id_error =
    SidExceedsMax u64 u64
  | SidDecreased u64 u64
  | SidBlocked
  | SidPanic

text \<open>\<open>SidPanic\<close> is not in the source: it stands for \<open>VarInt::from_u64(self.next_id).unwrap()\<close>
  panicking, which \<open>allocate_no_panic\<close> rules out.\<close>

record subscribe_id_allocator =
  sia_next_id :: u64
  sia_max_id :: u64

definition allocator_new :: subscribe_id_allocator where
  "allocator_new = \<lparr> sia_next_id = 0, sia_max_id = 0 \<rparr>"

definition is_blocked :: "subscribe_id_allocator \<Rightarrow> bool" where
  "is_blocked a \<longleftrightarrow> sia_next_id a \<ge> sia_max_id a"

definition allocate ::
  "subscribe_id_allocator \<Rightarrow> subscribe_id_error + varint \<times> subscribe_id_allocator" where
  "allocate a =
     (if is_blocked a then Inl SidBlocked
      else case from_u64 (sia_next_id a) of
        Inl e \<Rightarrow> Inl SidPanic
      | Inr i \<Rightarrow> Inr (i, a\<lparr> sia_next_id := sia_next_id a + 1 \<rparr>))"

definition update_max ::
  "subscribe_id_allocator \<Rightarrow> u64 \<Rightarrow> subscribe_id_error + subscribe_id_allocator" where
  "update_max a new_max =
     (if new_max \<le> sia_max_id a then Inl (SidDecreased (sia_max_id a) new_max)
      else Inr (a\<lparr> sia_max_id := new_max \<rparr>))"

text \<open>A ceiling that came off the wire is at most \<open>MAX_VARINT\<close>.\<close>

definition wf_allocator :: "subscribe_id_allocator \<Rightarrow> bool" where
  "wf_allocator a \<longleftrightarrow> sia_next_id a \<le> sia_max_id a \<and> sia_max_id a \<le> MAX_VARINT"

lemma wf_allocator_new [simp]: "wf_allocator allocator_new"
  by (simp add: wf_allocator_def allocator_new_def)

lemma allocate_Inr:
  assumes "wf_allocator a"
  shows "allocate a = Inr (i, a') \<longleftrightarrow>
    sia_next_id a < sia_max_id a \<and> i = VarInt (sia_next_id a)
    \<and> a' = a\<lparr> sia_next_id := sia_next_id a + 1 \<rparr>"
  using assms
  by (auto simp: allocate_def is_blocked_def from_u64_def wf_allocator_def not_le not_less
      split: if_splits)

lemma u64_succ: "(a :: u64) < b \<Longrightarrow> unat (a + 1) = unat a + 1 \<and> a + 1 \<le> b"
proof -
  assume "a < b"
  moreover have "unat b < 2 ^ 64"
    using unsigned_less [of b, where ?'a = nat] by simp
  ultimately have "unat a < unat b" "unat a + 1 < 2 ^ 64"
    by (simp_all add: word_less_nat_alt)
  moreover from this have "unat (a + 1) = unat a + 1"
    by (simp add: unat_word_ariths)
  ultimately show ?thesis
    by (simp add: word_le_nat_alt)
qed

lemma allocate_wf:
  "wf_allocator a \<Longrightarrow> allocate a = Inr (i, a') \<Longrightarrow>
     wf_allocator a' \<and> sia_max_id a' = sia_max_id a
     \<and> unat (sia_next_id a') = unat (sia_next_id a) + 1 \<and> wf_varint i"
  by (auto simp: allocate_Inr u64_succ wf_allocator_def wf_varint_def)

lemma allocate_no_panic: "wf_allocator a \<Longrightarrow> allocate a \<noteq> Inl SidPanic"
  by (auto simp: allocate_def is_blocked_def from_u64_def wf_allocator_def not_le)

lemma update_max_wf:
  "wf_allocator a \<Longrightarrow> m \<le> MAX_VARINT \<Longrightarrow> update_max a m = Inr a' \<Longrightarrow>
     wf_allocator a' \<and> sia_next_id a' = sia_next_id a \<and> sia_max_id a < sia_max_id a'"
  by (auto simp: update_max_def wf_allocator_def split: if_splits)

section \<open>SETUP\<close>

definition PATH :: u64 where "PATH = 0x01"
definition DRAFT_VERSION :: u64 where "DRAFT_VERSION = 0xff000007"
definition ROLE :: u64 where "ROLE = 0x00"

datatype setup_error =
    NoCommonVersion
  | MissingParameter string
  | WrongParameterRole u64
  | PathOverWebTransport
  | EmptyVersionList
  | WrongDraftVersion u64
  | InvalidRole

definition setup_varint :: "kvp_value \<Rightarrow> u64 option" where
  "setup_varint v =
     (case v of
        KvpVarint x \<Rightarrow> Some (into_inner x)
      | KvpBytes b \<Rightarrow>
          (case varint_decode b of
             Inl e \<Rightarrow> None
           | Inr (parsed, cursor) \<Rightarrow> if cursor = [] then Some (into_inner parsed) else None))"

text \<open>\<open>VarInt::from_u64(PATH).unwrap()\<close> on the two constants is \<open>VarInt\<close> itself.\<close>

definition has_path :: "key_value_pair list \<Rightarrow> bool" where
  "has_path parameters = list_ex (\<lambda>p. kvp_key p = VarInt PATH) parameters"

definition check_role :: "key_value_pair list \<Rightarrow> setup_error + unit" where
  "check_role parameters =
     and_then (ok_or (find (\<lambda>p. kvp_key p = VarInt ROLE) parameters) (MissingParameter ''ROLE''))
       (\<lambda>param.
     and_then (ok_or (setup_varint (kvp_value param)) InvalidRole) (\<lambda>val.
     case (if val \<le> 255 then role_from_u8 (ucast val) else None) of
       Some r \<Rightarrow> Inr ()
     | None \<Rightarrow> Inl InvalidRole))"

definition validate_client_setup :: "client_setup \<Rightarrow> setup_error + unit" where
  "validate_client_setup msg =
     (if cs_supported_versions msg = [] then Inl EmptyVersionList
      else and_then (check_role (cs_parameters msg)) (\<lambda>_. Inr ()))"

definition validate_server_setup :: "server_setup \<Rightarrow> setup_error + unit" where
  "validate_server_setup msg =
     (if has_path (ss_parameters msg) then Inl (WrongParameterRole PATH)
      else and_then (check_role (ss_parameters msg)) (\<lambda>_. Inr ()))"

definition validate_client_path_transport ::
  "key_value_pair list \<Rightarrow> bool \<Rightarrow> setup_error + unit" where
  "validate_client_path_transport parameters over_webtransport =
     (if over_webtransport \<and> has_path parameters then Inl PathOverWebTransport else Inr ())"

definition negotiate_version :: "varint list \<Rightarrow> varint \<Rightarrow> setup_error + varint" where
  "negotiate_version client_versions server_version =
     (if into_inner server_version \<noteq> DRAFT_VERSION
      then Inl (WrongDraftVersion (into_inner server_version))
      else if server_version \<in> set client_versions then Inr server_version
      else Inl NoCommonVersion)"

lemma negotiate_version_iff:
  "negotiate_version vs v = Inr w \<longleftrightarrow> w = v \<and> v \<in> set vs \<and> v = VarInt DRAFT_VERSION"
  by (cases v) (auto simp: negotiate_version_def)

end
