(* ===== verification/Request_Flows.thy ===== *)
theory Request_Flows
  imports Session_Flow
begin

text \<open>
  The state machines of draft-07's requests, one per file of \<open>draft07/\<close>: \<open>subscription.rs\<close>,
  \<open>fetch.rs\<close>, \<open>namespace.rs\<close> (two machines) and \<open>track_status.rs\<close>. The publisher-side names drive the
  same machine and only relabel the error. Each machine is a lifecycle.
\<close>

section \<open>Subscriptions\<close>

datatype subscription_state = SubIdle | Subscribing | SubActive | SubDone

datatype subscription_error = SubInvalidTransition subscription_state string

definition on_subscribe_sent :: "subscription_state \<Rightarrow> subscription_error + subscription_state" where
  "on_subscribe_sent s =
     (if s = SubIdle then Inr Subscribing
      else Inl (SubInvalidTransition s ''on_subscribe_sent''))"

definition on_subscribe_ok :: "subscription_state \<Rightarrow> subscription_error + subscription_state" where
  "on_subscribe_ok s =
     (if s = Subscribing then Inr SubActive
      else Inl (SubInvalidTransition s ''on_subscribe_ok''))"

definition on_subscribe_error :: "subscription_state \<Rightarrow> subscription_error + subscription_state" where
  "on_subscribe_error s =
     (if s = Subscribing then Inr SubDone
      else Inl (SubInvalidTransition s ''on_subscribe_error''))"

definition on_unsubscribe :: "subscription_state \<Rightarrow> subscription_error + subscription_state" where
  "on_unsubscribe s =
     (if s = SubActive then Inr SubDone
      else Inl (SubInvalidTransition s ''on_unsubscribe''))"

definition on_subscribe_update :: "subscription_state \<Rightarrow> subscription_error + subscription_state" where
  "on_subscribe_update s =
     (if s = Subscribing \<or> s = SubActive then Inr s
      else Inl (SubInvalidTransition s ''on_subscribe_update''))"

definition on_subscribe_done :: "subscription_state \<Rightarrow> subscription_error + subscription_state" where
  "on_subscribe_done s =
     (case s of
        SubActive \<Rightarrow> Inr SubDone
      | SubDone \<Rightarrow> Inr SubDone
      | _ \<Rightarrow> Inl (SubInvalidTransition s ''on_subscribe_done''))"

definition on_subscribe_received ::
  "subscription_state \<Rightarrow> subscription_error + subscription_state" where
  "on_subscribe_received s =
     map_err (\<lambda>_. SubInvalidTransition s ''on_subscribe_received'') (on_subscribe_sent s)"

definition on_subscribe_ok_sent ::
  "subscription_state \<Rightarrow> subscription_error + subscription_state" where
  "on_subscribe_ok_sent s =
     map_err (\<lambda>_. SubInvalidTransition s ''on_subscribe_ok_sent'') (on_subscribe_ok s)"

definition on_subscribe_error_sent ::
  "subscription_state \<Rightarrow> subscription_error + subscription_state" where
  "on_subscribe_error_sent s =
     map_err (\<lambda>_. SubInvalidTransition s ''on_subscribe_error_sent'') (on_subscribe_error s)"

definition on_unsubscribe_received ::
  "subscription_state \<Rightarrow> subscription_error + subscription_state" where
  "on_unsubscribe_received s =
     map_err (\<lambda>_. SubInvalidTransition s ''on_unsubscribe_received'') (on_unsubscribe s)"

definition on_subscribe_done_sent ::
  "subscription_state \<Rightarrow> subscription_error + subscription_state" where
  "on_subscribe_done_sent s =
     map_err (\<lambda>_. SubInvalidTransition s ''on_subscribe_done_sent'') (on_subscribe_done s)"

definition on_subscribe_update_received ::
  "subscription_state \<Rightarrow> subscription_error + subscription_state" where
  "on_subscribe_update_received s =
     map_err (\<lambda>_. SubInvalidTransition s ''on_subscribe_update_received'') (on_subscribe_update s)"

definition subscription_ops ::
  "(subscription_state \<Rightarrow> subscription_error + subscription_state) list" where
  "subscription_ops =
     [on_subscribe_sent, on_subscribe_ok, on_subscribe_error, on_unsubscribe, on_subscribe_update,
      on_subscribe_done, on_subscribe_received, on_subscribe_ok_sent, on_subscribe_error_sent,
      on_unsubscribe_received, on_subscribe_done_sent, on_subscribe_update_received]"

fun subscription_rank :: "subscription_state \<Rightarrow> nat" where
  "subscription_rank SubIdle = 0"
| "subscription_rank Subscribing = 1"
| "subscription_rank SubActive = 2"
| "subscription_rank SubDone = 3"

lemmas subscription_op_defs =
  on_subscribe_sent_def on_subscribe_ok_def on_subscribe_error_def on_unsubscribe_def
  on_subscribe_update_def on_subscribe_done_def on_subscribe_received_def
  on_subscribe_ok_sent_def on_subscribe_error_sent_def on_unsubscribe_received_def
  on_subscribe_done_sent_def on_subscribe_update_received_def

interpretation subscription: lifecycle subscription_ops subscription_rank SubDone
proof
  show "(s, t) \<in> moves subscription_ops \<Longrightarrow> t = s \<or> subscription_rank s < subscription_rank t"
    for s t
    by (cases s) (auto simp: moves_def subscription_ops_def subscription_op_defs)
  show "subscription_rank s \<le> subscription_rank SubDone" for s
    by (cases s) simp_all
qed

section \<open>Fetches\<close>

datatype fetch_state = FetchIdle | FetchPending | FetchReceiving | FetchUnanswered | FetchDone

datatype fetch_flow_error = FetchInvalidTransition fetch_state string

definition on_fetch_sent :: "fetch_state \<Rightarrow> fetch_flow_error + fetch_state" where
  "on_fetch_sent s =
     (case s of
        FetchIdle \<Rightarrow> Inr FetchPending
      | _ \<Rightarrow> Inl (FetchInvalidTransition s ''on_fetch_sent''))"

definition on_fetch_ok :: "fetch_state \<Rightarrow> fetch_flow_error + fetch_state" where
  "on_fetch_ok s =
     (case s of
        FetchPending \<Rightarrow> Inr FetchReceiving
      | FetchUnanswered \<Rightarrow> Inr FetchDone
      | _ \<Rightarrow> Inl (FetchInvalidTransition s ''on_fetch_ok''))"

definition on_fetch_error :: "fetch_state \<Rightarrow> fetch_flow_error + fetch_state" where
  "on_fetch_error s =
     (if s = FetchPending \<or> s = FetchUnanswered then Inr FetchDone
      else Inl (FetchInvalidTransition s ''on_fetch_error''))"

definition on_fetch_cancel :: "fetch_state \<Rightarrow> fetch_flow_error + fetch_state" where
  "on_fetch_cancel s =
     (if s = FetchPending \<or> s = FetchReceiving \<or> s = FetchUnanswered then Inr FetchDone
      else Inl (FetchInvalidTransition s ''on_fetch_cancel''))"

definition on_stream_fin :: "fetch_state \<Rightarrow> fetch_flow_error + fetch_state" where
  "on_stream_fin s =
     (case s of
        FetchReceiving \<Rightarrow> Inr FetchDone
      | FetchPending \<Rightarrow> Inr FetchUnanswered
      | FetchDone \<Rightarrow> Inr FetchDone
      | _ \<Rightarrow> Inl (FetchInvalidTransition s ''on_stream_fin''))"

definition on_stream_reset :: "fetch_state \<Rightarrow> fetch_flow_error + fetch_state" where
  "on_stream_reset s =
     (case s of
        FetchReceiving \<Rightarrow> Inr FetchDone
      | FetchPending \<Rightarrow> Inr FetchUnanswered
      | FetchDone \<Rightarrow> Inr FetchDone
      | _ \<Rightarrow> Inl (FetchInvalidTransition s ''on_stream_reset''))"

definition on_fetch_received :: "fetch_state \<Rightarrow> fetch_flow_error + fetch_state" where
  "on_fetch_received s =
     map_err (\<lambda>_. FetchInvalidTransition s ''on_fetch_received'') (on_fetch_sent s)"

definition on_fetch_ok_sent :: "fetch_state \<Rightarrow> fetch_flow_error + fetch_state" where
  "on_fetch_ok_sent s =
     map_err (\<lambda>_. FetchInvalidTransition s ''on_fetch_ok_sent'') (on_fetch_ok s)"

definition on_fetch_error_sent :: "fetch_state \<Rightarrow> fetch_flow_error + fetch_state" where
  "on_fetch_error_sent s =
     map_err (\<lambda>_. FetchInvalidTransition s ''on_fetch_error_sent'') (on_fetch_error s)"

definition on_fetch_cancel_received :: "fetch_state \<Rightarrow> fetch_flow_error + fetch_state" where
  "on_fetch_cancel_received s =
     map_err (\<lambda>_. FetchInvalidTransition s ''on_fetch_cancel_received'') (on_fetch_cancel s)"

definition on_stream_fin_sent :: "fetch_state \<Rightarrow> fetch_flow_error + fetch_state" where
  "on_stream_fin_sent s =
     map_err (\<lambda>_. FetchInvalidTransition s ''on_stream_fin_sent'') (on_stream_fin s)"

definition fetch_ops :: "(fetch_state \<Rightarrow> fetch_flow_error + fetch_state) list" where
  "fetch_ops =
     [on_fetch_sent, on_fetch_ok, on_fetch_error, on_fetch_cancel, on_stream_fin, on_stream_reset,
      on_fetch_received, on_fetch_ok_sent, on_fetch_error_sent, on_fetch_cancel_received,
      on_stream_fin_sent]"

fun fetch_rank :: "fetch_state \<Rightarrow> nat" where
  "fetch_rank FetchIdle = 0"
| "fetch_rank FetchPending = 1"
| "fetch_rank FetchReceiving = 2"
| "fetch_rank FetchUnanswered = 2"
| "fetch_rank FetchDone = 3"

lemmas fetch_op_defs =
  on_fetch_sent_def on_fetch_ok_def on_fetch_error_def on_fetch_cancel_def on_stream_fin_def
  on_stream_reset_def on_fetch_received_def on_fetch_ok_sent_def on_fetch_error_sent_def
  on_fetch_cancel_received_def on_stream_fin_sent_def

interpretation fetch_flow: lifecycle fetch_ops fetch_rank FetchDone
proof
  show "(s, t) \<in> moves fetch_ops \<Longrightarrow> t = s \<or> fetch_rank s < fetch_rank t" for s t
    by (cases s) (auto simp: moves_def fetch_ops_def fetch_op_defs)
  show "fetch_rank s \<le> fetch_rank FetchDone" for s
    by (cases s) simp_all
qed

text \<open>The stream and the answer may end in either order; the fetch is done when both have.\<close>

lemma fetch_ends_either_order:
  "and_then (on_fetch_ok FetchPending) on_stream_fin = Inr FetchDone"
  "and_then (on_stream_fin FetchPending) on_fetch_ok = Inr FetchDone"
  by (simp_all add: fetch_op_defs)

section \<open>Namespaces\<close>

datatype subscribe_announces_state = SasIdle | SasPending | SasActive | SasDone

datatype announce_state = AnnIdle | AnnPending | AnnActive | AnnDone

datatype namespace_error = NsInvalidTransition string string

text \<open>\<open>format!("{:?}", self.state)\<close>\<close>

fun sas_debug :: "subscribe_announces_state \<Rightarrow> string" where
  "sas_debug SasIdle = ''Idle''"
| "sas_debug SasPending = ''Pending''"
| "sas_debug SasActive = ''Active''"
| "sas_debug SasDone = ''Done''"

fun ann_debug :: "announce_state \<Rightarrow> string" where
  "ann_debug AnnIdle = ''Idle''"
| "ann_debug AnnPending = ''Pending''"
| "ann_debug AnnActive = ''Active''"
| "ann_debug AnnDone = ''Done''"

type_synonym sas_op = "subscribe_announces_state \<Rightarrow> namespace_error + subscribe_announces_state"
type_synonym ann_op = "announce_state \<Rightarrow> namespace_error + announce_state"

definition on_subscribe_announces_sent :: sas_op where
  "on_subscribe_announces_sent s =
     (if s = SasIdle then Inr SasPending
      else Inl (NsInvalidTransition (sas_debug s) ''on_subscribe_announces_sent''))"

definition on_subscribe_announces_ok :: sas_op where
  "on_subscribe_announces_ok s =
     (if s = SasPending then Inr SasActive
      else Inl (NsInvalidTransition (sas_debug s) ''on_subscribe_announces_ok''))"

definition on_subscribe_announces_error :: sas_op where
  "on_subscribe_announces_error s =
     (if s = SasPending then Inr SasDone
      else Inl (NsInvalidTransition (sas_debug s) ''on_subscribe_announces_error''))"

definition on_unsubscribe_announces :: sas_op where
  "on_unsubscribe_announces s =
     (if s = SasActive then Inr SasDone
      else Inl (NsInvalidTransition (sas_debug s) ''on_unsubscribe_announces''))"

definition on_subscribe_announces_received :: sas_op where
  "on_subscribe_announces_received s =
     map_err (\<lambda>_. NsInvalidTransition (sas_debug s) ''on_subscribe_announces_received'')
       (on_subscribe_announces_sent s)"

definition on_subscribe_announces_ok_sent :: sas_op where
  "on_subscribe_announces_ok_sent s =
     map_err (\<lambda>_. NsInvalidTransition (sas_debug s) ''on_subscribe_announces_ok_sent'')
       (on_subscribe_announces_ok s)"

definition on_subscribe_announces_error_sent :: sas_op where
  "on_subscribe_announces_error_sent s =
     map_err (\<lambda>_. NsInvalidTransition (sas_debug s) ''on_subscribe_announces_error_sent'')
       (on_subscribe_announces_error s)"

definition on_unsubscribe_announces_received :: sas_op where
  "on_unsubscribe_announces_received s =
     map_err (\<lambda>_. NsInvalidTransition (sas_debug s) ''on_unsubscribe_announces_received'')
       (on_unsubscribe_announces s)"

definition on_announce_sent :: ann_op where
  "on_announce_sent s =
     (if s = AnnIdle then Inr AnnPending
      else Inl (NsInvalidTransition (ann_debug s) ''on_announce_sent''))"

definition on_announce_ok :: ann_op where
  "on_announce_ok s =
     (if s = AnnPending then Inr AnnActive
      else Inl (NsInvalidTransition (ann_debug s) ''on_announce_ok''))"

definition on_announce_error :: ann_op where
  "on_announce_error s =
     (if s = AnnPending then Inr AnnDone
      else Inl (NsInvalidTransition (ann_debug s) ''on_announce_error''))"

definition on_unannounce :: ann_op where
  "on_unannounce s =
     (if s = AnnActive then Inr AnnDone
      else Inl (NsInvalidTransition (ann_debug s) ''on_unannounce''))"

definition on_announce_cancel :: ann_op where
  "on_announce_cancel s =
     (if s = AnnActive then Inr AnnDone
      else Inl (NsInvalidTransition (ann_debug s) ''on_announce_cancel''))"

definition on_announce_received :: ann_op where
  "on_announce_received s =
     map_err (\<lambda>_. NsInvalidTransition (ann_debug s) ''on_announce_received'') (on_announce_sent s)"

definition on_announce_ok_sent :: ann_op where
  "on_announce_ok_sent s =
     map_err (\<lambda>_. NsInvalidTransition (ann_debug s) ''on_announce_ok_sent'') (on_announce_ok s)"

definition on_announce_error_sent :: ann_op where
  "on_announce_error_sent s =
     map_err (\<lambda>_. NsInvalidTransition (ann_debug s) ''on_announce_error_sent'')
       (on_announce_error s)"

definition on_unannounce_received :: ann_op where
  "on_unannounce_received s =
     map_err (\<lambda>_. NsInvalidTransition (ann_debug s) ''on_unannounce_received'') (on_unannounce s)"

definition on_announce_cancel_sent :: ann_op where
  "on_announce_cancel_sent s =
     map_err (\<lambda>_. NsInvalidTransition (ann_debug s) ''on_announce_cancel_sent'')
       (on_announce_cancel s)"

definition sas_ops :: "sas_op list" where
  "sas_ops =
     [on_subscribe_announces_sent, on_subscribe_announces_ok, on_subscribe_announces_error,
      on_unsubscribe_announces, on_subscribe_announces_received, on_subscribe_announces_ok_sent,
      on_subscribe_announces_error_sent, on_unsubscribe_announces_received]"

definition ann_ops :: "ann_op list" where
  "ann_ops =
     [on_announce_sent, on_announce_ok, on_announce_error, on_unannounce, on_announce_cancel,
      on_announce_received, on_announce_ok_sent, on_announce_error_sent, on_unannounce_received,
      on_announce_cancel_sent]"

fun sas_rank :: "subscribe_announces_state \<Rightarrow> nat" where
  "sas_rank SasIdle = 0"
| "sas_rank SasPending = 1"
| "sas_rank SasActive = 2"
| "sas_rank SasDone = 3"

fun ann_rank :: "announce_state \<Rightarrow> nat" where
  "ann_rank AnnIdle = 0"
| "ann_rank AnnPending = 1"
| "ann_rank AnnActive = 2"
| "ann_rank AnnDone = 3"

lemmas sas_op_defs =
  on_subscribe_announces_sent_def on_subscribe_announces_ok_def on_subscribe_announces_error_def
  on_unsubscribe_announces_def on_subscribe_announces_received_def
  on_subscribe_announces_ok_sent_def on_subscribe_announces_error_sent_def
  on_unsubscribe_announces_received_def

lemmas ann_op_defs =
  on_announce_sent_def on_announce_ok_def on_announce_error_def on_unannounce_def
  on_announce_cancel_def on_announce_received_def on_announce_ok_sent_def
  on_announce_error_sent_def on_unannounce_received_def on_announce_cancel_sent_def

interpretation sas: lifecycle sas_ops sas_rank SasDone
proof
  show "(s, t) \<in> moves sas_ops \<Longrightarrow> t = s \<or> sas_rank s < sas_rank t" for s t
    by (cases s) (auto simp: moves_def sas_ops_def sas_op_defs)
  show "sas_rank s \<le> sas_rank SasDone" for s
    by (cases s) simp_all
qed

interpretation ann: lifecycle ann_ops ann_rank AnnDone
proof
  show "(s, t) \<in> moves ann_ops \<Longrightarrow> t = s \<or> ann_rank s < ann_rank t" for s t
    by (cases s) (auto simp: moves_def ann_ops_def ann_op_defs)
  show "ann_rank s \<le> ann_rank AnnDone" for s
    by (cases s) simp_all
qed

section \<open>Track status\<close>

datatype track_status_state = TssIdle | TssPending | TssDone

datatype track_status_error = TssInvalidTransition track_status_state string

type_synonym tss_op = "track_status_state \<Rightarrow> track_status_error + track_status_state"

definition on_track_status_request_sent :: tss_op where
  "on_track_status_request_sent s =
     (if s = TssIdle then Inr TssPending
      else Inl (TssInvalidTransition s ''on_track_status_request_sent''))"

definition on_track_status :: tss_op where
  "on_track_status s =
     (if s = TssPending then Inr TssDone
      else Inl (TssInvalidTransition s ''on_track_status''))"

definition on_track_status_request_received :: tss_op where
  "on_track_status_request_received s =
     map_err (\<lambda>_. TssInvalidTransition s ''on_track_status_request_received'')
       (on_track_status_request_sent s)"

definition on_track_status_sent :: tss_op where
  "on_track_status_sent s =
     map_err (\<lambda>_. TssInvalidTransition s ''on_track_status_sent'') (on_track_status s)"

definition tss_ops :: "tss_op list" where
  "tss_ops =
     [on_track_status_request_sent, on_track_status, on_track_status_request_received,
      on_track_status_sent]"

fun tss_rank :: "track_status_state \<Rightarrow> nat" where
  "tss_rank TssIdle = 0"
| "tss_rank TssPending = 1"
| "tss_rank TssDone = 2"

lemmas tss_op_defs =
  on_track_status_request_sent_def on_track_status_def on_track_status_request_received_def
  on_track_status_sent_def

interpretation tss: lifecycle tss_ops tss_rank TssDone
proof
  show "(s, t) \<in> moves tss_ops \<Longrightarrow> t = s \<or> tss_rank s < tss_rank t" for s t
    by (cases s) (auto simp: moves_def tss_ops_def tss_op_defs)
  show "tss_rank s \<le> tss_rank TssDone" for s
    by (cases s) simp_all
qed

end
