(* ===== verification/Tracks.thy ===== *)
theory Tracks
  imports Wire_Types
begin

text \<open>
  What the client remembers of each track: \<open>forwarding_preference.rs\<close>, \<open>malformed_tracks.rs\<close> and
  \<open>track_locations.rs\<close>. The three tables are lists scanned for the first entry of a track, so they
  are association lists keyed by the track: \<open>map_of\<close> is the scan and \<open>AList.update\<close> the change of the
  first match or the push. A \<open>TrackObjects\<close> handle is its table and its key; its mutex serialises the
  calls, so one call is one step.
\<close>

datatype track_key = TrackKey (key_namespace: track_namespace) (key_name: bytes)

section \<open>Forwarding preferences\<close>

datatype object_forwarding_preference = OfpSubgroup | OfpDatagram

fun ofp_display :: "object_forwarding_preference \<Rightarrow> string" where
  "ofp_display OfpSubgroup = ''Subgroup''"
| "ofp_display OfpDatagram = ''Datagram''"

type_synonym preferences = "(track_key \<times> object_forwarding_preference) list"

definition pref_observe ::
  "preferences \<Rightarrow> track_key \<Rightarrow> object_forwarding_preference
     \<Rightarrow> object_forwarding_preference + preferences" where
  "pref_observe tracks k seen =
     (case map_of tracks k of
        Some was \<Rightarrow> if was = seen then Inr tracks else Inl was
      | None \<Rightarrow> Inr (tracks @ [(k, seen)]))"

section \<open>Malformed tracks\<close>

datatype malformed_track_condition = MixedForwarding | ObjectPastFinalObject

fun mtc_display :: "malformed_track_condition \<Rightarrow> string" where
  "mtc_display MixedForwarding =
     ''an Object was received with a different Forwarding Preference''"
| "mtc_display ObjectPastFinalObject =
     ''an Object was received past the track's final Object''"

type_synonym malformed_tracks = "(track_key \<times> malformed_track_condition) list"

definition malformed_condition ::
  "malformed_tracks \<Rightarrow> track_key \<Rightarrow> malformed_track_condition option" where
  "malformed_condition tracks k = map_of tracks k"

definition malformed_note ::
  "malformed_tracks \<Rightarrow> track_key \<Rightarrow> malformed_track_condition \<Rightarrow> malformed_tracks" where
  "malformed_note tracks k c =
     (if malformed_condition tracks k \<noteq> None then tracks else tracks @ [(k, c)])"

section \<open>Track locations\<close>

datatype object_location = ObjectLocation (ol_group: u64) (ol_object: u64)

datatype end_of_track_form = LastGroup | PastLastGroup

datatype end_of_track_placement = GroupBehind u64 | ObjectBehind u64

datatype track_fault =
    EndOfTrackOutOfPlace end_of_track_placement
  | PastFinalObject object_location

record track_record =
  tr_reached :: "object_location option"
  tr_final_object :: "object_location option"

type_synonym track_locations = "(track_key \<times> track_record) list"

definition track_record_of :: "track_locations \<Rightarrow> track_key \<Rightarrow> track_record option" where
  "track_record_of tracks k = map_of tracks k"

definition furthest :: "object_location option \<Rightarrow> object_location \<Rightarrow> object_location" where
  "furthest reached at =
     (case reached of
        None \<Rightarrow> at
      | Some seen \<Rightarrow>
          if ol_group at > ol_group seen then at
          else if ol_group at = ol_group seen \<and> ol_object at > ol_object seen then at
          else seen)"

definition loc_observe ::
  "track_locations \<Rightarrow> track_key \<Rightarrow> object_location \<Rightarrow> track_locations" where
  "loc_observe tracks k at =
     (case track_record_of tracks k of
        None \<Rightarrow> tracks @ [(k, \<lparr> tr_reached = Some at, tr_final_object = None \<rparr>)]
      | Some r \<Rightarrow> AList.update k (r\<lparr> tr_reached := Some (furthest (tr_reached r) at) \<rparr>) tracks)"

definition reached_of :: "track_locations \<Rightarrow> track_key \<Rightarrow> object_location option" where
  "reached_of tracks k =
     (case track_record_of tracks k of None \<Rightarrow> None | Some r \<Rightarrow> tr_reached r)"

definition final_of :: "track_locations \<Rightarrow> track_key \<Rightarrow> object_location option" where
  "final_of tracks k =
     (case track_record_of tracks k of None \<Rightarrow> None | Some r \<Rightarrow> tr_final_object r)"

definition check_end_of_track ::
  "track_locations \<Rightarrow> track_key \<Rightarrow> object_location \<Rightarrow> end_of_track_form
     \<Rightarrow> end_of_track_placement + unit" where
  "check_end_of_track tracks k at form =
     (case reached_of tracks k of
        None \<Rightarrow> Inr ()
      | Some reached \<Rightarrow>
          (case form of
             PastLastGroup \<Rightarrow>
               if ol_group at \<le> ol_group reached then Inl (GroupBehind (ol_group reached))
               else Inr ()
           | LastGroup \<Rightarrow>
               if ol_group at < ol_group reached then Inl (GroupBehind (ol_group reached))
               else if ol_group at > ol_group reached then Inr ()
               else if ol_object at \<le> ol_object reached
               then Inl (ObjectBehind (ol_object reached))
               else Inr ()))"

definition note_final_object ::
  "track_locations \<Rightarrow> track_key \<Rightarrow> object_location \<Rightarrow> track_locations" where
  "note_final_object tracks k at =
     (case track_record_of tracks k of
        None \<Rightarrow> tracks @ [(k, \<lparr> tr_reached = None, tr_final_object = Some at \<rparr>)]
      | Some r \<Rightarrow>
          if tr_final_object r = None
          then AList.update k (r\<lparr> tr_final_object := Some at \<rparr>) tracks
          else tracks)"

text \<open>\<open>(a.group, a.object) > (b.group, b.object)\<close>, the tuple order.\<close>

definition past :: "object_location \<Rightarrow> object_location \<Rightarrow> bool" where
  "past a b \<longleftrightarrow>
     ol_group a > ol_group b \<or> (ol_group a = ol_group b \<and> ol_object a > ol_object b)"

definition check_not_past_final ::
  "track_locations \<Rightarrow> track_key \<Rightarrow> object_location \<Rightarrow> object_location + unit" where
  "check_not_past_final tracks k at =
     (case final_of tracks k of
        None \<Rightarrow> Inr ()
      | Some final \<Rightarrow> if past at final then Inl final else Inr ())"

datatype object_role = Produced | EndsTrack "end_of_track_form option" | NeitherRole

definition note_object ::
  "track_locations \<Rightarrow> track_key \<Rightarrow> object_location \<Rightarrow> object_role
     \<Rightarrow> end_of_track_placement + track_locations" where
  "note_object tracks k at r =
     (case r of
        Produced \<Rightarrow> Inr (loc_observe tracks k at)
      | EndsTrack form \<Rightarrow>
          and_then (case form of
                      Some f \<Rightarrow> check_end_of_track tracks k at f
                    | None \<Rightarrow> Inr ()) (\<lambda>_.
          Inr (note_final_object tracks k at))
      | NeitherRole \<Rightarrow> Inr tracks)"

definition note_with_final_object ::
  "track_locations \<Rightarrow> track_key \<Rightarrow> object_location \<Rightarrow> object_role
     \<Rightarrow> track_fault + track_locations" where
  "note_with_final_object tracks k at r =
     and_then (map_err PastFinalObject (check_not_past_final tracks k at)) (\<lambda>_.
     map_err EndOfTrackOutOfPlace (note_object tracks k at r))"

definition note_past_final ::
  "track_locations \<Rightarrow> track_key \<Rightarrow> object_location \<Rightarrow> object_role
     \<Rightarrow> object_location + track_locations" where
  "note_past_final tracks k at r =
     and_then (check_not_past_final tracks k at) (\<lambda>_.
     Inr (case r of
            Produced \<Rightarrow> loc_observe tracks k at
          | EndsTrack form \<Rightarrow> note_final_object tracks k at
          | NeitherRole \<Rightarrow> tracks))"

section \<open>One preference per track\<close>

fun pref_observe_all ::
  "preferences \<Rightarrow> (track_key \<times> object_forwarding_preference) list
     \<Rightarrow> object_forwarding_preference + preferences" where
  "pref_observe_all tracks [] = Inr tracks"
| "pref_observe_all tracks ((k, p) # obs) =
     and_then (pref_observe tracks k p) (\<lambda>tracks. pref_observe_all tracks obs)"

lemma pref_observe_Inr:
  "(\<exists>t'. pref_observe t k p = Inr t') \<longleftrightarrow> (map_of t k = None \<or> map_of t k = Some p)"
  by (auto simp: pref_observe_def split: option.splits)

lemma pref_observe_map:
  "pref_observe t k p = Inr t' \<Longrightarrow> map_of t' = (map_of t)(k \<mapsto> p)"
  by (auto simp: pref_observe_def fun_eq_iff map_add_def split: option.splits if_splits)

text \<open>A run of observations is accepted exactly when no track is seen with two preferences, neither
  among them nor against what the table had settled.\<close>

lemma pref_observe_all_iff:
  "(\<exists>t'. pref_observe_all t obs = Inr t') \<longleftrightarrow>
     (\<forall>k p. (k, p) \<in> set obs \<longrightarrow>
        (map_of t k = None \<or> map_of t k = Some p) \<and> (\<forall>q. (k, q) \<in> set obs \<longrightarrow> p = q))"
proof (induction obs arbitrary: t)
  case Nil
  then show ?case by simp
next
  case (Cons ob obs)
  obtain k p where ob: "ob = (k, p)" by (cases ob)
  show ?case
  proof (cases "pref_observe t k p")
    case (Inl q)
    then have "\<not> (map_of t k = None \<or> map_of t k = Some p)"
      using pref_observe_Inr [of t k p] by auto
    with Inl show ?thesis
      by (auto simp: ob)
  next
    case (Inr t1)
    then have "map_of t k = None \<or> map_of t k = Some p"
      using pref_observe_Inr [of t k p] by auto
    with Inr show ?thesis
      by (auto simp: ob Cons.IH pref_observe_map [OF Inr])
  qed
qed

section \<open>How far a track reached, and where it ended\<close>

lemma track_record_of_update:
  "track_record_of (AList.update k r t) j = (if j = k then Some r else track_record_of t j)"
  by (simp add: track_record_of_def update_conv')

lemma track_record_of_push:
  "track_record_of t k = None \<Longrightarrow>
     track_record_of (t @ [(k, r)]) j = (if j = k then Some r else track_record_of t j)"
  by (auto simp: track_record_of_def map_add_def split: option.splits)

lemma reached_observe:
  "reached_of (loc_observe t k at) j =
     (if j = k then Some (furthest (reached_of t k) at) else reached_of t j)"
  by (auto simp: reached_of_def loc_observe_def track_record_of_update track_record_of_push
      furthest_def split: option.splits)

lemma final_observe: "final_of (loc_observe t k at) j = final_of t j"
  by (auto simp: final_of_def loc_observe_def track_record_of_update track_record_of_push
      split: option.splits)

lemma reached_note_final: "reached_of (note_final_object t k at) j = reached_of t j"
  by (auto simp: reached_of_def note_final_object_def track_record_of_update track_record_of_push
      split: option.splits)

lemma final_note_final:
  "final_of (note_final_object t k at) j =
     (if j = k then Some (case final_of t k of Some f \<Rightarrow> f | None \<Rightarrow> at) else final_of t j)"
  by (auto simp: final_of_def note_final_object_def track_record_of_update track_record_of_push
      split: option.splits)

lemma furthest_max: "\<not> past at (furthest r at) \<and> (\<forall>s. r = Some s \<longrightarrow> \<not> past s (furthest r at))"
  by (auto simp: furthest_def past_def split: option.splits)

lemma furthest_choice: "furthest r at = at \<or> r = Some (furthest r at)"
  by (auto simp: furthest_def split: option.splits)

lemma not_past_trans: "\<not> past a b \<Longrightarrow> \<not> past b c \<Longrightarrow> \<not> past a c"
  by (auto simp: past_def)

text \<open>Objects fed to the record one after another, as the data path does.\<close>

fun note_all ::
  "track_locations \<Rightarrow> (track_key \<times> object_location \<times> object_role) list
     \<Rightarrow> track_fault + track_locations" where
  "note_all tracks [] = Inr tracks"
| "note_all tracks ((k, at, r) # objs) =
     and_then (note_with_final_object tracks k at r) (\<lambda>tracks. note_all tracks objs)"

lemma note_step_final:
  "note_with_final_object t j at r = Inr t' \<Longrightarrow> final_of t k = Some f \<Longrightarrow> final_of t' k = Some f"
  by (auto simp: note_with_final_object_def note_object_def and_then_eq_Inr final_observe
      final_note_final split: object_role.splits option.splits)

lemma note_step_not_past:
  "note_with_final_object t k at r = Inr t' \<Longrightarrow> final_of t k = Some f \<Longrightarrow> \<not> past at f"
  by (auto simp: note_with_final_object_def check_not_past_final_def and_then_eq_Inr
      split: option.splits if_splits)

lemma note_all_not_past:
  "note_all t objs = Inr t' \<Longrightarrow> final_of t k = Some f \<Longrightarrow> (k, at, r) \<in> set objs \<Longrightarrow> \<not> past at f"
proof (induction objs arbitrary: t)
  case Nil
  then show ?case by simp
next
  case (Cons ob objs)
  obtain j a q where ob: "ob = (j, a, q)" by (cases ob) auto
  from Cons.prems(1) obtain t1 where "note_with_final_object t j a q = Inr t1"
      "note_all t1 objs = Inr t'"
    by (auto simp: ob and_then_eq_Inr)
  then show ?case
    using Cons.IH [of t1] Cons.prems note_step_final [of t j a q t1 k f]
      note_step_not_past [of t k a q t1 f]
    by (auto simp: ob)
qed

text \<open>The record's largest location bounds every produced object and is one of them.\<close>

lemma note_step_reached:
  "note_with_final_object t j at r = Inr t' \<Longrightarrow>
     reached_of t' k = (if j = k \<and> r = Produced then Some (furthest (reached_of t k) at)
                        else reached_of t k)"
  by (auto simp: note_with_final_object_def note_object_def and_then_eq_Inr reached_observe
      reached_note_final split: object_role.splits option.splits)

lemma note_all_reached:
  "note_all t objs = Inr t' \<Longrightarrow>
     (\<forall>s. reached_of t k = Some s \<longrightarrow> (\<exists>m. reached_of t' k = Some m \<and> \<not> past s m))
     \<and> (\<forall>at. (k, at, Produced) \<in> set objs \<longrightarrow> (\<exists>m. reached_of t' k = Some m \<and> \<not> past at m))
     \<and> (\<forall>m. reached_of t' k = Some m \<longrightarrow> reached_of t k = Some m \<or> (k, m, Produced) \<in> set objs)"
proof (induction objs arbitrary: t)
  case Nil
  then show ?case by (auto simp: past_def)
next
  case (Cons ob objs)
  obtain j a q where ob: "ob = (j, a, q)" by (cases ob) auto
  from Cons.prems obtain t1 where step: "note_with_final_object t j a q = Inr t1"
      and rest: "note_all t1 objs = Inr t'"
    by (auto simp: ob and_then_eq_Inr)
  show ?case
  proof (cases "j = k \<and> q = Produced")
    case True
    define m1 where "m1 = furthest (reached_of t k) a"
    have t1: "reached_of t1 k = Some m1"
      using True note_step_reached [OF step, of k] by (simp add: m1_def)
    then obtain m where m: "reached_of t' k = Some m" "\<not> past m1 m"
      using Cons.IH [OF rest] by blast
    have a: "\<not> past a m" and s: "\<And>s. reached_of t k = Some s \<Longrightarrow> \<not> past s m"
      using furthest_max [of a "reached_of t k"] not_past_trans m(2) unfolding m1_def by blast+
    have "m = m1 \<or> (k, m, Produced) \<in> set objs"
      using Cons.IH [OF rest] t1 m(1) by auto
    then have "reached_of t k = Some m \<or> (k, m, Produced) \<in> set (ob # objs)"
      using furthest_choice [of "reached_of t k" a] True by (auto simp: m1_def ob)
    moreover have "\<not> past at m" if "(k, at, Produced) \<in> set (ob # objs)" for at
      using that a Cons.IH [OF rest] m(1) by (auto simp: ob)
    ultimately show ?thesis
      using m(1) s by simp
  next
    case False
    then have "reached_of t1 k = reached_of t k"
      using note_step_reached [OF step, of k] by auto
    then show ?thesis
      using Cons.IH [OF rest] False by (auto simp: ob)
  qed
qed

end
