(* ===== verification/Endpoint07.thy ===== *)
theory Endpoint07
  imports Request_Flows Tracks
begin

text \<open>
  \<open>draft07/endpoint.rs\<close>: one end of a draft-07 session. The state is the record \<open>endpoint\<close>; a method
  on \<open>&mut self\<close> answering \<open>Result<T, EndpointError>\<close> is a function to the result and the new state,
  because a method that fails may have moved the state first (\<open>fail_session\<close>, the peer's high-water
  mark). A \<open>HashMap\<close> is an association list with distinct keys: \<open>map_of\<close> is \<open>get\<close> and
  \<open>AList.update\<close> is \<open>insert\<close>. The order a \<open>HashMap\<close> is iterated in is the list's here, so what the
  model says of \<open>alias_holder\<close> and \<open>track_for_alias\<close> beyond whether there is a holder is of one order;
  the theorems use only the former.
\<close>

datatype end_role = RoleClient | RoleServer

datatype subscribe_side = Ours | Peers

fun side_display :: "subscribe_side \<Rightarrow> string" where
  "side_display Ours = ''our''"
| "side_display Peers = ''the peer's''"

datatype (plugins only: code) endpoint_error =
    EpGoAwayAtServer
  | EpSession session_error
  | EpSubscribeId subscribe_id_error
  | EpMaxSubscribeIdWouldNotIncrease u64 u64
  | EpSubscription subscription_error
  | EpFetch fetch_flow_error
  | EpNamespace namespace_error
  | EpTrackStatus track_status_error
  | EpSetup setup_error
  | EpUnknownSubscribe u64
  | EpUnknownNamespace
  | EpUnknownTrackStatus
  | EpUnknownPeerTrackStatus
  | EpSubscribeAfterAnnounceCancel
  | EpNotActive
  | EpDraining
  | EpFilterNeedsRange
  | EpMalformedSetupParameter u64
  | EpPeerSubscribeIdNotIncreasing u64 u64
  | EpRepeatedGoAway
  | EpDuplicateTrackAlias u64 subscribe_side u64 subscribe_side u64
  | EpTrackAliasInUse u64 subscribe_side u64
  | EpMixedForwardingPreference u64 object_forwarding_preference object_forwarding_preference
  | EpUpdateForUnknownSubscribe u64
  | EpUnknownPeerNamespace
  | EpUnknownPeerNamespaceSubscription
  | EpPeerPrefixOverlap
  | EpOwnPrefixOverlap

text \<open>The rules of \<open>above_codec_rules.rs\<close> this draft's errors name, and its \<open>EndpointFault\<close>.\<close>

datatype above_codec_rule =
    RuleDuplicateTrackAlias
  | RuleGoAwayAtServer
  | RuleMessageNamesAnUnknownRequest
  | RuleMixedForwardingPreference
  | RuleNamespacePrefixOverlap
  | RuleRepeatedGoAway
  | RuleRequestIdOutOfSequence
  | RuleRequestUpdateForTheWrongRequest
  | RuleSetupParameterValue
  | RuleSubscribeAfterAnnounceCancel
  | RuleMaxRequestIdDecreased
  | RuleRequestIdCeiling

datatype endpoint_fault = EitherEnd | ThisEndpoint | PeerFault above_codec_rule

definition prefixes_overlap :: "bytes list \<Rightarrow> bytes list \<Rightarrow> bool" where
  "prefixes_overlap a b \<longleftrightarrow>
     (let shared = min (length a) (length b) in take shared a = take shared b)"

text \<open>\<open>InboundSubscribe\<close>, \<open>InboundFetch\<close>, \<open>InboundAnnounce\<close>, \<open>InboundTrackStatus\<close> and
  \<open>InboundSubscribeAnnounces\<close> are one shape: a message and the state machine of what it opened.\<close>

record ('m, 's) inbound =
  in_message :: 'm
  in_state :: 's

record track_binding =
  tb_namespace :: track_namespace
  tb_name :: bytes
  tb_alias :: u64

definition fault :: "endpoint_error \<Rightarrow> endpoint_fault" where
  "fault err =
     (case err of
        EpSession _ \<Rightarrow> EitherEnd
      | EpSubscription _ \<Rightarrow> EitherEnd
      | EpFetch _ \<Rightarrow> EitherEnd
      | EpNamespace _ \<Rightarrow> EitherEnd
      | EpTrackStatus _ \<Rightarrow> EitherEnd
      | EpSetup _ \<Rightarrow> EitherEnd
      | EpUnknownSubscribe _ \<Rightarrow> EitherEnd
      | EpUnknownNamespace \<Rightarrow> EitherEnd
      | EpUnknownPeerNamespace \<Rightarrow> EitherEnd
      | EpUnknownPeerNamespaceSubscription \<Rightarrow> EitherEnd
      | EpMaxSubscribeIdWouldNotIncrease _ _ \<Rightarrow> ThisEndpoint
      | EpUnknownPeerTrackStatus \<Rightarrow> ThisEndpoint
      | EpNotActive \<Rightarrow> ThisEndpoint
      | EpDraining \<Rightarrow> ThisEndpoint
      | EpFilterNeedsRange \<Rightarrow> ThisEndpoint
      | EpTrackAliasInUse _ _ _ \<Rightarrow> ThisEndpoint
      | EpOwnPrefixOverlap \<Rightarrow> ThisEndpoint
      | EpDuplicateTrackAlias _ _ _ _ _ \<Rightarrow> PeerFault RuleDuplicateTrackAlias
      | EpGoAwayAtServer \<Rightarrow> PeerFault RuleGoAwayAtServer
      | EpUnknownTrackStatus \<Rightarrow> PeerFault RuleMessageNamesAnUnknownRequest
      | EpMixedForwardingPreference _ _ _ \<Rightarrow> PeerFault RuleMixedForwardingPreference
      | EpPeerPrefixOverlap \<Rightarrow> PeerFault RuleNamespacePrefixOverlap
      | EpRepeatedGoAway \<Rightarrow> PeerFault RuleRepeatedGoAway
      | EpPeerSubscribeIdNotIncreasing _ _ \<Rightarrow> PeerFault RuleRequestIdOutOfSequence
      | EpUpdateForUnknownSubscribe _ \<Rightarrow> PeerFault RuleRequestUpdateForTheWrongRequest
      | EpMalformedSetupParameter _ \<Rightarrow> PeerFault RuleSetupParameterValue
      | EpSubscribeAfterAnnounceCancel \<Rightarrow> PeerFault RuleSubscribeAfterAnnounceCancel
      | EpSubscribeId e \<Rightarrow>
          (case e of
             SidDecreased _ _ \<Rightarrow> PeerFault RuleMaxRequestIdDecreased
           | SidExceedsMax _ _ \<Rightarrow> PeerFault RuleRequestIdCeiling
           | _ \<Rightarrow> ThisEndpoint))"

definition session_error_code :: "endpoint_error \<Rightarrow> session_error_code option" where
  "session_error_code err =
     (case err of
        EpSubscribeId e \<Rightarrow>
          (case e of
             SidDecreased _ _ \<Rightarrow> Some SecProtocolViolation
           | SidExceedsMax _ _ \<Rightarrow> Some SecTooManySubscribes
           | _ \<Rightarrow> None)
      | EpSubscribeAfterAnnounceCancel \<Rightarrow> Some SecProtocolViolation
      | EpRepeatedGoAway \<Rightarrow> Some SecProtocolViolation
      | EpGoAwayAtServer \<Rightarrow> Some SecProtocolViolation
      | EpDuplicateTrackAlias _ _ _ _ _ \<Rightarrow> Some SecDuplicateTrackAlias
      | EpMixedForwardingPreference _ _ _ \<Rightarrow> Some SecProtocolViolation
      | _ \<Rightarrow> None)"

section \<open>State\<close>

type_synonym namespace_key = "bytes list"
type_synonym status_key = "bytes list \<times> bytes"

record endpoint =
  ep_role :: end_role
  ep_session :: session_state
  ep_subscribe_ids :: subscribe_id_allocator
  ep_advertised_max_id :: u64
  ep_peer_highest :: "u64 option"
  ep_subscriptions :: "(u64 \<times> subscription_state) list"
  ep_inbound_subscribes :: "(u64 \<times> (subscribe, subscription_state) inbound) list"
  ep_inbound_fetches :: "(u64 \<times> (fetch, fetch_state) inbound) list"
  ep_forwarding_preferences :: preferences
  ep_track_bindings :: "((subscribe_side \<times> u64) \<times> track_binding) list"
  ep_fetches :: "(u64 \<times> fetch_state) list"
  ep_subscribe_announces :: "(namespace_key \<times> subscribe_announces_state) list"
  ep_inbound_subscribe_announces ::
    "(namespace_key \<times> (subscribe_announces, subscribe_announces_state) inbound) list"
  ep_announces :: "(namespace_key \<times> announce_state) list"
  ep_announce_cancelled :: "namespace_key list"
  ep_inbound_announces :: "(namespace_key \<times> (announce, announce_state) inbound) list"
  ep_track_statuses :: "(status_key \<times> track_status_state) list"
  ep_inbound_track_statuses ::
    "(status_key \<times> (track_status_request, track_status_state) inbound) list"
  ep_negotiated_version :: "varint option"
  ep_offered_versions :: "varint list"
  ep_goaway_uri :: "bytes option"

definition endpoint_new :: "end_role \<Rightarrow> endpoint" where
  "endpoint_new r =
     \<lparr> ep_role = r, ep_session = session_new, ep_subscribe_ids = allocator_new,
       ep_advertised_max_id = 0, ep_peer_highest = None, ep_subscriptions = [],
       ep_inbound_subscribes = [], ep_inbound_fetches = [], ep_forwarding_preferences = [],
       ep_track_bindings = [], ep_fetches = [], ep_subscribe_announces = [],
       ep_inbound_subscribe_announces = [], ep_announces = [], ep_announce_cancelled = [],
       ep_inbound_announces = [], ep_track_statuses = [], ep_inbound_track_statuses = [],
       ep_negotiated_version = None, ep_offered_versions = [], ep_goaway_uri = None \<rparr>"

type_synonym 'a ep = "endpoint \<Rightarrow> (endpoint_error + 'a) \<times> endpoint"

text \<open>\<open>?\<close> on a method call, on a pure result, and \<open>return Err(...)\<close>.\<close>

definition ep_ret :: "'a \<Rightarrow> 'a ep" where
  "ep_ret x e = (Inr x, e)"

definition ep_fail :: "endpoint_error \<Rightarrow> 'a ep" where
  "ep_fail err e = (Inl err, e)"

definition ep_bind :: "'a ep \<Rightarrow> ('a \<Rightarrow> 'b ep) \<Rightarrow> 'b ep" where
  "ep_bind m k e = (case m e of (Inl err, e') \<Rightarrow> (Inl err, e') | (Inr x, e') \<Rightarrow> k x e')"

definition ep_lift :: "('e \<Rightarrow> endpoint_error) \<Rightarrow> 'e + 'a \<Rightarrow> 'a ep" where
  "ep_lift conv r e = (case r of Inl err \<Rightarrow> (Inl (conv err), e) | Inr x \<Rightarrow> (Inr x, e))"

definition ep_modify :: "(endpoint \<Rightarrow> endpoint) \<Rightarrow> unit ep" where
  "ep_modify f e = (Inr (), f e)"

text \<open>\<open>let sm = self.MAP.get_mut(&k).ok_or(MISSING)?; sm.STEP()?;\<close> -- the body of every handler that
  moves one state machine. The map is named by its reader and its record update.\<close>

definition ep_step ::
  "(endpoint \<Rightarrow> ('k \<times> 'v) list)
     \<Rightarrow> ((('k \<times> 'v) list \<Rightarrow> ('k \<times> 'v) list) \<Rightarrow> endpoint \<Rightarrow> endpoint)
     \<Rightarrow> endpoint_error \<Rightarrow> ('e \<Rightarrow> endpoint_error) \<Rightarrow> ('v \<Rightarrow> 'e + 'v) \<Rightarrow> 'k \<Rightarrow> unit ep" where
  "ep_step get upd missing conv f k e =
     (case map_of (get e) k of
        None \<Rightarrow> (Inl missing, e)
      | Some v \<Rightarrow>
          (case f v of
             Inl err \<Rightarrow> (Inl (conv err), e)
           | Inr v' \<Rightarrow> (Inr (), upd (AList.update k v') e)))"

definition on_state :: "('s \<Rightarrow> 'e + 's) \<Rightarrow> ('m, 's) inbound \<Rightarrow> 'e + ('m, 's) inbound" where
  "on_state f i = and_then (f (in_state i)) (\<lambda>s. Inr (i\<lparr> in_state := s \<rparr>))"

definition on_session ::
  "(session_state \<Rightarrow> session_error + session_state) \<Rightarrow> unit ep" where
  "on_session f e =
     (case f (ep_session e) of
        Inl err \<Rightarrow> (Inl (EpSession err), e)
      | Inr s \<Rightarrow> (Inr (), e\<lparr> ep_session := s \<rparr>))"

section \<open>Track aliases\<close>

definition live_state :: "subscription_state option \<Rightarrow> bool" where
  "live_state s \<longleftrightarrow> s = Some Subscribing \<or> s = Some SubActive"

definition binding_is_live :: "endpoint \<Rightarrow> subscribe_side \<times> u64 \<Rightarrow> bool" where
  "binding_is_live e key =
     live_state (case fst key of
        Ours \<Rightarrow> map_of (ep_subscriptions e) (snd key)
      | Peers \<Rightarrow> map_option in_state (map_of (ep_inbound_subscribes e) (snd key)))"

definition alias_holder ::
  "endpoint \<Rightarrow> u64 \<Rightarrow> track_namespace \<Rightarrow> bytes \<Rightarrow> (subscribe_side \<times> u64) option" where
  "alias_holder e alias ns name =
     map_option fst (find (\<lambda>(key, b).
       tb_alias b = alias \<and> (tb_namespace b \<noteq> ns \<or> tb_name b \<noteq> name) \<and> binding_is_live e key)
       (ep_track_bindings e))"

text \<open>The loop of \<open>next_free_track_alias\<close>, with the number of candidates it may try as fuel.\<close>

fun free_alias :: "nat \<Rightarrow> u64 list \<Rightarrow> u64 \<Rightarrow> u64 option" where
  "free_alias 0 taken candidate = None"
| "free_alias (Suc fuel) taken candidate =
     (if candidate \<in> set taken then free_alias fuel taken (candidate + 1) else Some candidate)"

definition taken_aliases :: "endpoint \<Rightarrow> u64 list" where
  "taken_aliases e =
     map (\<lambda>(key, b). tb_alias b)
       (filter (\<lambda>(key, b). binding_is_live e key) (ep_track_bindings e))"

definition next_free_track_alias :: "endpoint \<Rightarrow> varint option" where
  "next_free_track_alias e =
     map_option from_u64_moqt (free_alias (Suc (length (taken_aliases e))) (taken_aliases e) 0)"

definition track_for_alias :: "endpoint \<Rightarrow> u64 \<Rightarrow> (track_namespace \<times> bytes) option" where
  "track_for_alias e alias =
     map_option (\<lambda>(key, b). (tb_namespace b, tb_name b))
       (find (\<lambda>(key, b). tb_alias b = alias \<and> binding_is_live e key) (ep_track_bindings e))"

definition note_object_forwarding_preference ::
  "u64 \<Rightarrow> object_forwarding_preference \<Rightarrow> unit ep" where
  "note_object_forwarding_preference alias seen e =
     (case track_for_alias e alias of
        None \<Rightarrow> (Inr (), e)
      | Some (ns, name) \<Rightarrow>
          (case pref_observe (ep_forwarding_preferences e) (TrackKey ns name) seen of
             Inl established \<Rightarrow> (Inl (EpMixedForwardingPreference alias established seen), e)
           | Inr t \<Rightarrow> (Inr (), e\<lparr> ep_forwarding_preferences := t \<rparr>)))"

definition conflicting_track_alias ::
  "endpoint \<Rightarrow> subscribe_side \<Rightarrow> u64 \<Rightarrow> u64 \<Rightarrow> track_namespace \<Rightarrow> bytes \<Rightarrow> endpoint_error option" where
  "conflicting_track_alias e side i alias ns name =
     map_option (\<lambda>(established_side, established).
       EpDuplicateTrackAlias alias established_side established side i)
       (alias_holder e alias ns name)"

definition conflicting_retry_alias :: "endpoint \<Rightarrow> u64 \<Rightarrow> u64 \<Rightarrow> endpoint_error option" where
  "conflicting_retry_alias e i alias =
     (case map_of (ep_track_bindings e) (Ours, i) of
        None \<Rightarrow> None
      | Some b \<Rightarrow>
          map_option (\<lambda>(established_side, established).
            EpDuplicateTrackAlias alias established_side established Ours i)
            (alias_holder e alias (tb_namespace b) (tb_name b)))"

section \<open>Session\<close>

definition is_blocked_ep :: "endpoint \<Rightarrow> bool" where
  "is_blocked_ep e = is_blocked (ep_subscribe_ids e)"

definition ep_connect :: "unit ep" where
  "ep_connect = on_session on_connect"

definition ep_close :: "unit ep" where
  "ep_close = on_session on_close"

text \<open>\<open>let _ = self.session.on_close(); err\<close>, at the \<open>return Err(...)\<close> it is always used in.\<close>

definition fail_session :: "endpoint_error \<Rightarrow> 'a ep" where
  "fail_session err e =
     (Inl err, case on_close (ep_session e) of Inl _ \<Rightarrow> e | Inr s \<Rightarrow> e\<lparr> ep_session := s \<rparr>)"

definition require_active_or_err :: "unit ep" where
  "require_active_or_err e =
     (case ep_session e of
        SessActive \<Rightarrow> (Inr (), e)
      | Draining \<Rightarrow> (Inl EpDraining, e)
      | _ \<Rightarrow> (Inl EpNotActive, e))"

fun read_granted_max :: "key_value_pair list \<Rightarrow> unit ep" where
  "read_granted_max [] = ep_ret ()"
| "read_granted_max (p # ps) =
     (if kvp_key p = VarInt 0x02 then
        case setup_varint (kvp_value p) of
          None \<Rightarrow> ep_fail (EpMalformedSetupParameter 0x02)
        | Some granted \<Rightarrow>
            if granted > 0 then
              ep_bind (\<lambda>e. case update_max (ep_subscribe_ids e) granted of
                             Inl err \<Rightarrow> (Inl (EpSubscribeId err), e)
                           | Inr a \<Rightarrow> (Inr (), e\<lparr> ep_subscribe_ids := a \<rparr>))
                (\<lambda>_. read_granted_max ps)
            else read_granted_max ps
      else read_granted_max ps)"

fun advertised_max :: "key_value_pair list \<Rightarrow> u64 \<Rightarrow> u64" where
  "advertised_max [] m = m"
| "advertised_max (p # ps) m =
     advertised_max ps
       (if kvp_key p = VarInt 0x02 then
          case setup_varint (kvp_value p) of Some granted \<Rightarrow> granted | None \<Rightarrow> m
        else m)"

definition record_advertised_max :: "key_value_pair list \<Rightarrow> unit ep" where
  "record_advertised_max ps =
     ep_modify (\<lambda>e. e\<lparr> ep_advertised_max_id := advertised_max ps (ep_advertised_max_id e) \<rparr>)"

definition send_client_setup ::
  "varint list \<Rightarrow> key_value_pair list \<Rightarrow> control_message ep" where
  "send_client_setup versions parameters =
     ep_bind (ep_modify (\<lambda>e. e\<lparr> ep_offered_versions := versions \<rparr>)) (\<lambda>_.
     let msg = \<lparr> cs_supported_versions = versions, cs_parameters = parameters \<rparr> in
     ep_bind (ep_lift EpSetup (validate_client_setup msg)) (\<lambda>_.
     ep_bind (record_advertised_max parameters) (\<lambda>_.
     ep_ret (CmClientSetup msg))))"

definition receive_server_setup :: "server_setup \<Rightarrow> unit ep" where
  "receive_server_setup msg =
     ep_bind (ep_lift EpSetup (validate_server_setup msg)) (\<lambda>_.
     ep_bind (\<lambda>e. ep_lift EpSetup
                (negotiate_version (ep_offered_versions e) (ss_selected_version msg)) e) (\<lambda>version.
     ep_bind (ep_modify (\<lambda>e. e\<lparr> ep_negotiated_version := Some version \<rparr>)) (\<lambda>_.
     ep_bind (on_session on_setup_complete) (\<lambda>_.
     read_granted_max (ss_parameters msg)))))"

definition receive_client_setup_and_respond_with ::
  "client_setup \<Rightarrow> varint \<Rightarrow> key_value_pair list \<Rightarrow> control_message ep" where
  "receive_client_setup_and_respond_with client_setup selected_version parameters =
     ep_bind (ep_lift EpSetup (validate_client_setup client_setup)) (\<lambda>_.
     ep_bind (read_granted_max (cs_parameters client_setup)) (\<lambda>_.
     ep_bind (ep_lift EpSetup
                (negotiate_version (cs_supported_versions client_setup) selected_version)) (\<lambda>version.
     ep_bind (ep_modify (\<lambda>e. e\<lparr> ep_negotiated_version := Some version \<rparr>)) (\<lambda>_.
     ep_bind (on_session on_setup_complete) (\<lambda>_.
     ep_bind (record_advertised_max parameters) (\<lambda>_.
     ep_ret (CmServerSetup \<lparr> ss_selected_version = version, ss_parameters = parameters \<rparr>)))))))"

definition receive_client_setup_and_respond ::
  "client_setup \<Rightarrow> varint \<Rightarrow> control_message ep" where
  "receive_client_setup_and_respond client_setup selected_version =
     receive_client_setup_and_respond_with client_setup selected_version []"

definition validate_peer_subscribe_id :: "u64 \<Rightarrow> unit ep" where
  "validate_peer_subscribe_id i e =
     (if i \<ge> ep_advertised_max_id e
      then fail_session (EpSubscribeId (SidExceedsMax i (ep_advertised_max_id e))) e
      else case ep_peer_highest e of
        Some highest \<Rightarrow>
          if i \<le> highest then (Inl (EpPeerSubscribeIdNotIncreasing i highest), e)
          else (Inr (), e\<lparr> ep_peer_highest := Some i \<rparr>)
      | None \<Rightarrow> (Inr (), e\<lparr> ep_peer_highest := Some i \<rparr>))"

definition receive_max_subscribe_id :: "max_subscribe_id \<Rightarrow> unit ep" where
  "receive_max_subscribe_id msg e =
     (case update_max (ep_subscribe_ids e) (into_inner (ms_subscribe_id msg)) of
        Inl err \<Rightarrow> fail_session (EpSubscribeId err) e
      | Inr a \<Rightarrow> (Inr (), e\<lparr> ep_subscribe_ids := a \<rparr>))"

definition send_max_subscribe_id :: "varint \<Rightarrow> control_message ep" where
  "send_max_subscribe_id max_id e =
     (let new_val = into_inner max_id in
      if new_val \<le> ep_advertised_max_id e
      then (Inl (EpMaxSubscribeIdWouldNotIncrease (ep_advertised_max_id e) new_val), e)
      else (Inr (CmMaxSubscribeId \<lparr> ms_subscribe_id = max_id \<rparr>),
            e\<lparr> ep_advertised_max_id := new_val \<rparr>))"

definition receive_goaway :: "go_away \<Rightarrow> unit ep" where
  "receive_goaway msg e =
     (if ep_role e = RoleServer then fail_session EpGoAwayAtServer e
      else if ep_session e = Draining then fail_session EpRepeatedGoAway e
      else ep_bind (on_session on_goaway)
             (\<lambda>_. ep_modify (\<lambda>e. e\<lparr> ep_goaway_uri := Some (ga_new_session_uri msg) \<rparr>)) e)"

section \<open>Subscriptions this endpoint makes\<close>

text \<open>\<open>self.subscribe_ids.allocate()?\<close>\<close>

definition ep_allocate :: "varint ep" where
  "ep_allocate e =
     (case allocate (ep_subscribe_ids e) of
        Inl err \<Rightarrow> (Inl (EpSubscribeId err), e)
      | Inr (i, a) \<Rightarrow> (Inr i, e\<lparr> ep_subscribe_ids := a \<rparr>))"

definition subscribe_inner ::
  "varint \<Rightarrow> track_namespace \<Rightarrow> bytes \<Rightarrow> u8 \<Rightarrow> group_order \<Rightarrow> filter_type \<Rightarrow> location option
     \<Rightarrow> location option \<Rightarrow> (varint \<times> control_message) ep" where
  "subscribe_inner track_alias ns name prio order filter_type start end_location =
     ep_bind require_active_or_err (\<lambda>_.
     ep_bind (\<lambda>e. case alias_holder e (into_inner track_alias) ns name of
                Some (side, held) \<Rightarrow>
                  (Inl (EpTrackAliasInUse (into_inner track_alias) side held), e)
              | None \<Rightarrow> (Inr (), e)) (\<lambda>_.
     ep_bind ep_allocate (\<lambda>sub_id.
     ep_bind (ep_lift EpSubscription (on_subscribe_sent SubIdle)) (\<lambda>sm.
     ep_bind (ep_modify (\<lambda>e. e\<lparr>
         ep_subscriptions := AList.update (into_inner sub_id) sm (ep_subscriptions e),
         ep_track_bindings := AList.update (Ours, into_inner sub_id)
           \<lparr> tb_namespace = ns, tb_name = name, tb_alias = into_inner track_alias \<rparr>
           (ep_track_bindings e) \<rparr>)) (\<lambda>_.
     ep_ret (sub_id, CmSubscribe
       \<lparr> s_subscribe_id = sub_id, s_track_alias = track_alias, s_track_namespace = ns,
         s_track_name = name, s_subscriber_priority = prio, s_group_order = order,
         s_filter_type = filter_type, s_start_location = start,
         s_end_group = map_option loc_group end_location,
         s_end_object = map_option loc_object end_location, s_parameters = [] \<rparr>))))))"

definition ep_subscribe ::
  "varint \<Rightarrow> track_namespace \<Rightarrow> bytes \<Rightarrow> u8 \<Rightarrow> group_order \<Rightarrow> filter_type
     \<Rightarrow> (varint \<times> control_message) ep" where
  "ep_subscribe track_alias ns name prio order filter_type =
     (if filter_type = AbsoluteStart \<or> filter_type = AbsoluteRange then ep_fail EpFilterNeedsRange
      else subscribe_inner track_alias ns name prio order filter_type None None)"

definition ep_subscribe_range ::
  "varint \<Rightarrow> track_namespace \<Rightarrow> bytes \<Rightarrow> u8 \<Rightarrow> group_order \<Rightarrow> location \<Rightarrow> location option
     \<Rightarrow> (varint \<times> control_message) ep" where
  "ep_subscribe_range track_alias ns name prio order start end_location =
     subscribe_inner track_alias ns name prio order
       (case end_location of Some _ \<Rightarrow> AbsoluteRange | None \<Rightarrow> AbsoluteStart)
       (Some start) end_location"

definition subscription_step ::
  "(subscription_state \<Rightarrow> subscription_error + subscription_state) \<Rightarrow> u64 \<Rightarrow> unit ep" where
  "subscription_step f i =
     ep_step ep_subscriptions ep_subscriptions_update (EpUnknownSubscribe i) EpSubscription f i"

definition receive_subscribe_ok :: "subscribe_ok \<Rightarrow> unit ep" where
  "receive_subscribe_ok msg =
     subscription_step on_subscribe_ok (into_inner (so_subscribe_id msg))"

definition receive_subscribe_error :: "subscribe_error \<Rightarrow> unit ep" where
  "receive_subscribe_error msg e =
     (let i = into_inner (se_subscribe_id msg) in
      case (if sue_from_u64 (into_inner (se_error_code msg)) = Some SueRetryTrackAlias
            then conflicting_retry_alias e i (into_inner (se_track_alias msg)) else None) of
        Some conflict \<Rightarrow> fail_session conflict e
      | None \<Rightarrow> subscription_step on_subscribe_error i e)"

definition ep_unsubscribe :: "varint \<Rightarrow> control_message ep" where
  "ep_unsubscribe subscribe_id =
     ep_bind (subscription_step on_unsubscribe (into_inner subscribe_id)) (\<lambda>_.
     ep_ret (CmUnsubscribe \<lparr> us_subscribe_id = subscribe_id \<rparr>))"

definition ep_subscribe_update ::
  "varint \<Rightarrow> varint \<Rightarrow> varint \<Rightarrow> varint \<Rightarrow> varint \<Rightarrow> u8 \<Rightarrow> key_value_pair list \<Rightarrow> control_message ep" where
  "ep_subscribe_update subscribe_id start_group start_object end_group end_object prio ps =
     ep_bind require_active_or_err (\<lambda>_.
     ep_bind (subscription_step on_subscribe_update (into_inner subscribe_id)) (\<lambda>_.
     ep_ret (CmSubscribeUpdate
       \<lparr> su_subscribe_id = subscribe_id, su_start_group = start_group,
         su_start_object = start_object, su_end_group = end_group, su_end_object = end_object,
         su_subscriber_priority = prio, su_parameters = ps \<rparr>)))"

definition receive_subscribe_done :: "subscribe_done \<Rightarrow> unit ep" where
  "receive_subscribe_done msg =
     subscription_step on_subscribe_done (into_inner (sd_subscribe_id msg))"

section \<open>Subscriptions the peer makes\<close>

definition receive_subscribe :: "subscribe \<Rightarrow> unit ep" where
  "receive_subscribe msg =
     (let i = into_inner (s_subscribe_id msg); alias = into_inner (s_track_alias msg) in
      ep_bind (validate_peer_subscribe_id i) (\<lambda>_.
      ep_bind (\<lambda>e. if ns_fields (s_track_namespace msg) \<in> set (ep_announce_cancelled e)
                   then fail_session EpSubscribeAfterAnnounceCancel e else (Inr (), e)) (\<lambda>_.
      ep_bind (\<lambda>e. case conflicting_track_alias e Peers i alias (s_track_namespace msg)
                          (s_track_name msg) of
                     Some conflict \<Rightarrow> fail_session conflict e
                   | None \<Rightarrow> (Inr (), e)) (\<lambda>_.
      ep_bind (ep_lift EpSubscription (on_subscribe_received SubIdle)) (\<lambda>st.
      ep_modify (\<lambda>e. e\<lparr>
        ep_inbound_subscribes :=
          AList.update i \<lparr> in_message = msg, in_state = st \<rparr> (ep_inbound_subscribes e),
        ep_track_bindings := AList.update (Peers, i)
          \<lparr> tb_namespace = s_track_namespace msg, tb_name = s_track_name msg, tb_alias = alias \<rparr>
          (ep_track_bindings e) \<rparr>))))))"

definition inbound_subscribe_step ::
  "endpoint_error \<Rightarrow> (subscription_state \<Rightarrow> subscription_error + subscription_state) \<Rightarrow> u64
     \<Rightarrow> unit ep" where
  "inbound_subscribe_step missing f i =
     ep_step ep_inbound_subscribes ep_inbound_subscribes_update missing EpSubscription
       (on_state f) i"

definition receive_subscribe_update :: "subscribe_update \<Rightarrow> unit ep" where
  "receive_subscribe_update msg =
     (let i = into_inner (su_subscribe_id msg) in
      inbound_subscribe_step (EpUpdateForUnknownSubscribe i) on_subscribe_update_received i)"

definition pending_subscribe :: "endpoint \<Rightarrow> varint \<Rightarrow> subscribe option" where
  "pending_subscribe e i =
     (case map_of (ep_inbound_subscribes e) (into_inner i) of
        Some s \<Rightarrow> if in_state s = Subscribing then Some (in_message s) else None
      | None \<Rightarrow> None)"

definition pending_subscribe_count :: "endpoint \<Rightarrow> nat" where
  "pending_subscribe_count e =
     length (filter (\<lambda>(k, s). in_state s = Subscribing) (ep_inbound_subscribes e))"

definition send_subscribe_ok ::
  "varint \<Rightarrow> varint \<Rightarrow> group_order \<Rightarrow> key_value_pair list \<Rightarrow> control_message ep" where
  "send_subscribe_ok subscribe_id expires order ps =
     (let i = into_inner subscribe_id in
      ep_bind (inbound_subscribe_step (EpUnknownSubscribe i) on_subscribe_ok_sent i) (\<lambda>_.
      ep_ret (CmSubscribeOk
        \<lparr> so_subscribe_id = subscribe_id, so_expires = expires, so_group_order = order,
          so_content_exists = NoLargestLocation, so_largest_group_id = None,
          so_largest_object_id = None, so_parameters = ps \<rparr>)))"

definition send_subscribe_error ::
  "varint \<Rightarrow> varint \<Rightarrow> bytes \<Rightarrow> varint \<Rightarrow> control_message ep" where
  "send_subscribe_error subscribe_id error_code reason track_alias =
     (let i = into_inner subscribe_id in
      ep_bind (inbound_subscribe_step (EpUnknownSubscribe i) on_subscribe_error_sent i) (\<lambda>_.
      ep_ret (CmSubscribeError
        \<lparr> se_subscribe_id = subscribe_id, se_error_code = error_code,
          se_reason_phrase = reason, se_track_alias = track_alias \<rparr>)))"

definition send_subscribe_done :: "varint \<Rightarrow> varint \<Rightarrow> bytes \<Rightarrow> control_message ep" where
  "send_subscribe_done subscribe_id status_code reason =
     (let i = into_inner subscribe_id in
      ep_bind (inbound_subscribe_step (EpUnknownSubscribe i) on_subscribe_done_sent i) (\<lambda>_.
      ep_ret (CmSubscribeDone
        \<lparr> sd_subscribe_id = subscribe_id, sd_status_code = status_code,
          sd_reason_phrase = reason, sd_content_exists = NoLargestLocation,
          sd_final_group = None, sd_final_object = None \<rparr>)))"

definition receive_unsubscribe :: "unsubscribe \<Rightarrow> unit ep" where
  "receive_unsubscribe msg =
     (let i = into_inner (us_subscribe_id msg) in
      inbound_subscribe_step (EpUnknownSubscribe i) on_unsubscribe_received i)"

section \<open>Fetches\<close>

definition ep_fetch ::
  "track_namespace \<Rightarrow> bytes \<Rightarrow> u8 \<Rightarrow> group_order \<Rightarrow> varint \<Rightarrow> varint \<Rightarrow> varint \<Rightarrow> varint
     \<Rightarrow> (varint \<times> control_message) ep" where
  "ep_fetch ns name prio order start_group start_object end_group end_object =
     ep_bind require_active_or_err (\<lambda>_.
     ep_bind ep_allocate (\<lambda>sub_id.
     ep_bind (ep_lift EpFetch (on_fetch_sent FetchIdle)) (\<lambda>sm.
     ep_bind (ep_modify (\<lambda>e. e\<lparr>
         ep_fetches := AList.update (into_inner sub_id) sm (ep_fetches e) \<rparr>)) (\<lambda>_.
     ep_ret (sub_id, CmFetch
       \<lparr> f_subscribe_id = sub_id, f_track_namespace = ns, f_track_name = name,
         f_subscriber_priority = prio, f_group_order = order, f_start_group = start_group,
         f_start_object = start_object, f_end_group = end_group, f_end_object = end_object,
         f_parameters = [] \<rparr>)))))"

definition fetch_step :: "(fetch_state \<Rightarrow> fetch_flow_error + fetch_state) \<Rightarrow> u64 \<Rightarrow> unit ep" where
  "fetch_step f i = ep_step ep_fetches ep_fetches_update (EpUnknownSubscribe i) EpFetch f i"

definition receive_fetch_ok :: "fetch_ok \<Rightarrow> unit ep" where
  "receive_fetch_ok msg = fetch_step on_fetch_ok (into_inner (fo_subscribe_id msg))"

definition receive_fetch_error :: "fetch_error \<Rightarrow> unit ep" where
  "receive_fetch_error msg = fetch_step on_fetch_error (into_inner (fe_subscribe_id msg))"

definition ep_fetch_cancel :: "varint \<Rightarrow> control_message ep" where
  "ep_fetch_cancel subscribe_id =
     ep_bind (fetch_step on_fetch_cancel (into_inner subscribe_id)) (\<lambda>_.
     ep_ret (CmFetchCancel \<lparr> fc_subscribe_id = subscribe_id \<rparr>))"

definition on_fetch_stream_fin :: "varint \<Rightarrow> unit ep" where
  "on_fetch_stream_fin subscribe_id = fetch_step on_stream_fin (into_inner subscribe_id)"

definition on_fetch_stream_reset :: "varint \<Rightarrow> unit ep" where
  "on_fetch_stream_reset subscribe_id = fetch_step on_stream_reset (into_inner subscribe_id)"

definition receive_fetch :: "fetch \<Rightarrow> unit ep" where
  "receive_fetch msg =
     (let i = into_inner (f_subscribe_id msg) in
      ep_bind (validate_peer_subscribe_id i) (\<lambda>_.
      ep_bind (ep_lift EpFetch (on_fetch_received FetchIdle)) (\<lambda>st.
      ep_modify (\<lambda>e. e\<lparr>
        ep_inbound_fetches :=
          AList.update i \<lparr> in_message = msg, in_state = st \<rparr> (ep_inbound_fetches e) \<rparr>))))"

definition pending_fetch :: "endpoint \<Rightarrow> varint \<Rightarrow> fetch option" where
  "pending_fetch e i =
     (case map_of (ep_inbound_fetches e) (into_inner i) of
        Some f \<Rightarrow>
          if in_state f = FetchPending \<or> in_state f = FetchUnanswered then Some (in_message f)
          else None
      | None \<Rightarrow> None)"

definition pending_fetch_count :: "endpoint \<Rightarrow> nat" where
  "pending_fetch_count e =
     length (filter (\<lambda>(k, f). in_state f = FetchPending \<or> in_state f = FetchUnanswered)
       (ep_inbound_fetches e))"

definition inbound_fetch_step ::
  "(fetch_state \<Rightarrow> fetch_flow_error + fetch_state) \<Rightarrow> u64 \<Rightarrow> unit ep" where
  "inbound_fetch_step f i =
     ep_step ep_inbound_fetches ep_inbound_fetches_update (EpUnknownSubscribe i) EpFetch
       (on_state f) i"

definition send_fetch_ok ::
  "varint \<Rightarrow> group_order \<Rightarrow> u8 \<Rightarrow> varint option \<Rightarrow> varint option \<Rightarrow> key_value_pair list
     \<Rightarrow> control_message ep" where
  "send_fetch_ok subscribe_id order end_of_track largest_group largest_object ps =
     ep_bind (inbound_fetch_step on_fetch_ok_sent (into_inner subscribe_id)) (\<lambda>_.
     ep_ret (CmFetchOk
       \<lparr> fo_subscribe_id = subscribe_id, fo_group_order = order,
         fo_end_of_track = end_of_track, fo_largest_group_id = largest_group,
         fo_largest_object_id = largest_object, fo_parameters = ps \<rparr>))"

definition send_fetch_error :: "varint \<Rightarrow> varint \<Rightarrow> bytes \<Rightarrow> control_message ep" where
  "send_fetch_error subscribe_id error_code reason =
     ep_bind (inbound_fetch_step on_fetch_error_sent (into_inner subscribe_id)) (\<lambda>_.
     ep_ret (CmFetchError
       \<lparr> fe_subscribe_id = subscribe_id, fe_error_code = error_code,
         fe_reason_phrase = reason \<rparr>))"

definition receive_fetch_cancel :: "fetch_cancel \<Rightarrow> unit ep" where
  "receive_fetch_cancel msg =
     inbound_fetch_step on_fetch_cancel_received (into_inner (fc_subscribe_id msg))"

definition on_peer_fetch_stream_fin :: "varint \<Rightarrow> unit ep" where
  "on_peer_fetch_stream_fin subscribe_id =
     inbound_fetch_step on_stream_fin_sent (into_inner subscribe_id)"

end
