(* ===== verification/Endpoint07_Names.thy ===== *)
theory Endpoint07_Names
  imports Endpoint07
begin

text \<open>
  \<open>draft07/endpoint.rs\<close>, second half: the requests that name a namespace or a track instead of a
  subscribe id (SUBSCRIBE_ANNOUNCES, ANNOUNCE, TRACK_STATUS_REQUEST), from both ends, and the dispatch
  of \<open>receive_message\<close>. A key is the namespace's list of fields, as in the code.
\<close>

section \<open>Namespace subscriptions\<close>

definition ep_subscribe_announces_request :: "track_namespace \<Rightarrow> control_message ep" where
  "ep_subscribe_announces_request prefix =
     ep_bind require_active_or_err (\<lambda>_.
     ep_bind (\<lambda>e. if list_ex (\<lambda>(k, s). prefixes_overlap k (ns_fields prefix))
                       (ep_subscribe_announces e)
                  then (Inl EpOwnPrefixOverlap, e) else (Inr (), e)) (\<lambda>_.
     ep_bind (ep_lift EpNamespace (on_subscribe_announces_sent SasIdle)) (\<lambda>sm.
     ep_bind (ep_modify (\<lambda>e. e\<lparr> ep_subscribe_announces :=
         AList.update (ns_fields prefix) sm (ep_subscribe_announces e) \<rparr>)) (\<lambda>_.
     ep_ret (CmSubscribeAnnounces
       \<lparr> sa_track_namespace_prefix = prefix, sa_parameters = [] \<rparr>)))))"

definition subscribe_announces_step :: "sas_op \<Rightarrow> track_namespace \<Rightarrow> unit ep" where
  "subscribe_announces_step f prefix =
     ep_step ep_subscribe_announces ep_subscribe_announces_update EpUnknownNamespace EpNamespace
       f (ns_fields prefix)"

definition receive_subscribe_announces_ok :: "subscribe_announces_ok \<Rightarrow> unit ep" where
  "receive_subscribe_announces_ok msg =
     subscribe_announces_step on_subscribe_announces_ok (sao_track_namespace_prefix msg)"

definition receive_subscribe_announces_error :: "subscribe_announces_error \<Rightarrow> unit ep" where
  "receive_subscribe_announces_error msg =
     subscribe_announces_step on_subscribe_announces_error (sae_track_namespace_prefix msg)"

definition ep_unsubscribe_announces :: "track_namespace \<Rightarrow> control_message ep" where
  "ep_unsubscribe_announces prefix =
     ep_bind (subscribe_announces_step on_unsubscribe_announces prefix) (\<lambda>_.
     ep_ret (CmUnsubscribeAnnounces \<lparr> usa_track_namespace_prefix = prefix \<rparr>))"

definition peer_prefix_overlap :: "endpoint \<Rightarrow> track_namespace \<Rightarrow> bool" where
  "peer_prefix_overlap e prefix \<longleftrightarrow>
     list_ex (\<lambda>(k, s). prefixes_overlap k (ns_fields prefix)) (ep_inbound_subscribe_announces e)"

definition receive_subscribe_announces :: "subscribe_announces \<Rightarrow> unit ep" where
  "receive_subscribe_announces msg =
     ep_bind require_active_or_err (\<lambda>_.
     ep_bind (\<lambda>e. if peer_prefix_overlap e (sa_track_namespace_prefix msg)
                  then (Inl EpPeerPrefixOverlap, e) else (Inr (), e)) (\<lambda>_.
     ep_bind (ep_lift EpNamespace (on_subscribe_announces_received SasIdle)) (\<lambda>st.
     ep_modify (\<lambda>e. e\<lparr> ep_inbound_subscribe_announces :=
       AList.update (ns_fields (sa_track_namespace_prefix msg))
         \<lparr> in_message = msg, in_state = st \<rparr> (ep_inbound_subscribe_announces e) \<rparr>))))"

definition pending_subscribe_announces ::
  "endpoint \<Rightarrow> track_namespace \<Rightarrow> subscribe_announces option" where
  "pending_subscribe_announces e prefix =
     (case map_of (ep_inbound_subscribe_announces e) (ns_fields prefix) of
        Some s \<Rightarrow> if in_state s = SasPending then Some (in_message s) else None
      | None \<Rightarrow> None)"

definition pending_subscribe_announces_count :: "endpoint \<Rightarrow> nat" where
  "pending_subscribe_announces_count e =
     length (filter (\<lambda>(k, s). in_state s = SasPending) (ep_inbound_subscribe_announces e))"

definition inbound_subscribe_announces_step :: "sas_op \<Rightarrow> track_namespace \<Rightarrow> unit ep" where
  "inbound_subscribe_announces_step f prefix =
     ep_step ep_inbound_subscribe_announces ep_inbound_subscribe_announces_update
       EpUnknownPeerNamespaceSubscription EpNamespace (on_state f) (ns_fields prefix)"

definition send_subscribe_announces_ok :: "track_namespace \<Rightarrow> control_message ep" where
  "send_subscribe_announces_ok prefix =
     ep_bind (inbound_subscribe_announces_step on_subscribe_announces_ok_sent prefix) (\<lambda>_.
     ep_ret (CmSubscribeAnnouncesOk \<lparr> sao_track_namespace_prefix = prefix \<rparr>))"

definition send_subscribe_announces_error ::
  "track_namespace \<Rightarrow> varint \<Rightarrow> bytes \<Rightarrow> control_message ep" where
  "send_subscribe_announces_error prefix error_code reason =
     ep_bind (inbound_subscribe_announces_step on_subscribe_announces_error_sent prefix) (\<lambda>_.
     ep_ret (CmSubscribeAnnouncesError
       \<lparr> sae_track_namespace_prefix = prefix, sae_error_code = error_code,
         sae_reason_phrase = reason \<rparr>))"

definition receive_unsubscribe_announces :: "unsubscribe_announces \<Rightarrow> unit ep" where
  "receive_unsubscribe_announces msg =
     inbound_subscribe_announces_step on_unsubscribe_announces_received
       (usa_track_namespace_prefix msg)"

section \<open>Announcements\<close>

definition ep_announce :: "track_namespace \<Rightarrow> control_message ep" where
  "ep_announce ns =
     ep_bind require_active_or_err (\<lambda>_.
     ep_bind (ep_lift EpNamespace (on_announce_sent AnnIdle)) (\<lambda>sm.
     ep_bind (ep_modify (\<lambda>e. e\<lparr>
         ep_announce_cancelled := removeAll (ns_fields ns) (ep_announce_cancelled e),
         ep_announces := AList.update (ns_fields ns) sm (ep_announces e) \<rparr>)) (\<lambda>_.
     ep_ret (CmAnnounce \<lparr> an_track_namespace = ns, an_parameters = [] \<rparr>))))"

definition announce_step :: "ann_op \<Rightarrow> track_namespace \<Rightarrow> unit ep" where
  "announce_step f ns =
     ep_step ep_announces ep_announces_update EpUnknownNamespace EpNamespace f (ns_fields ns)"

definition receive_announce_ok :: "announce_ok \<Rightarrow> unit ep" where
  "receive_announce_ok msg = announce_step on_announce_ok (ao_track_namespace msg)"

definition receive_announce_error :: "announce_error \<Rightarrow> unit ep" where
  "receive_announce_error msg = announce_step on_announce_error (ae_track_namespace msg)"

definition receive_announce_cancel :: "announce_cancel \<Rightarrow> unit ep" where
  "receive_announce_cancel msg e =
     (case map_of (ep_announces e) (ns_fields (ac_track_namespace msg)) of
        None \<Rightarrow> (Inl EpUnknownNamespace, e)
      | Some s \<Rightarrow>
          if s = AnnDone then (Inr (), e)
          else
            ep_bind (announce_step on_announce_cancel (ac_track_namespace msg)) (\<lambda>_.
            ep_modify (\<lambda>e. e\<lparr> ep_announce_cancelled :=
              List.insert (ns_fields (ac_track_namespace msg)) (ep_announce_cancelled e) \<rparr>)) e)"

definition ep_unannounce :: "track_namespace \<Rightarrow> control_message ep" where
  "ep_unannounce ns =
     ep_bind (announce_step on_unannounce ns) (\<lambda>_.
     ep_ret (CmUnannounce \<lparr> ua_track_namespace = ns \<rparr>))"

definition receive_announce :: "announce \<Rightarrow> unit ep" where
  "receive_announce msg =
     ep_bind require_active_or_err (\<lambda>_.
     ep_bind (ep_lift EpNamespace (on_announce_received AnnIdle)) (\<lambda>st.
     ep_modify (\<lambda>e. e\<lparr> ep_inbound_announces :=
       AList.update (ns_fields (an_track_namespace msg)) \<lparr> in_message = msg, in_state = st \<rparr>
         (ep_inbound_announces e) \<rparr>)))"

definition pending_announce :: "endpoint \<Rightarrow> track_namespace \<Rightarrow> announce option" where
  "pending_announce e ns =
     (case map_of (ep_inbound_announces e) (ns_fields ns) of
        Some a \<Rightarrow> if in_state a = AnnPending then Some (in_message a) else None
      | None \<Rightarrow> None)"

definition pending_announce_count :: "endpoint \<Rightarrow> nat" where
  "pending_announce_count e =
     length (filter (\<lambda>(k, a). in_state a = AnnPending) (ep_inbound_announces e))"

definition inbound_announce_step :: "ann_op \<Rightarrow> track_namespace \<Rightarrow> unit ep" where
  "inbound_announce_step f ns =
     ep_step ep_inbound_announces ep_inbound_announces_update EpUnknownPeerNamespace EpNamespace
       (on_state f) (ns_fields ns)"

definition send_announce_ok :: "track_namespace \<Rightarrow> control_message ep" where
  "send_announce_ok ns =
     ep_bind (inbound_announce_step on_announce_ok_sent ns) (\<lambda>_.
     ep_ret (CmAnnounceOk \<lparr> ao_track_namespace = ns \<rparr>))"

definition send_announce_error ::
  "track_namespace \<Rightarrow> varint \<Rightarrow> bytes \<Rightarrow> control_message ep" where
  "send_announce_error ns error_code reason =
     ep_bind (inbound_announce_step on_announce_error_sent ns) (\<lambda>_.
     ep_ret (CmAnnounceError
       \<lparr> ae_track_namespace = ns, ae_error_code = error_code, ae_reason_phrase = reason \<rparr>))"

definition receive_unannounce :: "unannounce \<Rightarrow> unit ep" where
  "receive_unannounce msg =
     inbound_announce_step on_unannounce_received (ua_track_namespace msg)"

definition ep_announce_cancel ::
  "track_namespace \<Rightarrow> varint \<Rightarrow> bytes \<Rightarrow> control_message ep" where
  "ep_announce_cancel ns error_code reason =
     ep_bind (inbound_announce_step on_announce_cancel_sent ns) (\<lambda>_.
     ep_ret (CmAnnounceCancel
       \<lparr> ac_track_namespace = ns, ac_error_code = error_code, ac_reason_phrase = reason \<rparr>))"

section \<open>Track status\<close>

definition ep_track_status_request :: "track_namespace \<Rightarrow> bytes \<Rightarrow> control_message ep" where
  "ep_track_status_request ns name =
     ep_bind require_active_or_err (\<lambda>_.
     ep_bind (ep_lift EpTrackStatus (on_track_status_request_sent TssIdle)) (\<lambda>sm.
     ep_bind (ep_modify (\<lambda>e. e\<lparr> ep_track_statuses :=
         AList.update (ns_fields ns, name) sm (ep_track_statuses e) \<rparr>)) (\<lambda>_.
     ep_ret (CmTrackStatusRequest \<lparr> tsr_track_namespace = ns, tsr_track_name = name \<rparr>))))"

definition receive_track_status :: "track_status \<Rightarrow> unit ep" where
  "receive_track_status msg =
     ep_step ep_track_statuses ep_track_statuses_update EpUnknownTrackStatus EpTrackStatus
       on_track_status (ns_fields (ts_track_namespace msg), ts_track_name msg)"

definition receive_track_status_request :: "track_status_request \<Rightarrow> unit ep" where
  "receive_track_status_request msg =
     ep_bind require_active_or_err (\<lambda>_.
     ep_bind (ep_lift EpTrackStatus (on_track_status_request_received TssIdle)) (\<lambda>st.
     ep_modify (\<lambda>e. e\<lparr> ep_inbound_track_statuses :=
       AList.update (ns_fields (tsr_track_namespace msg), tsr_track_name msg)
         \<lparr> in_message = msg, in_state = st \<rparr> (ep_inbound_track_statuses e) \<rparr>)))"

definition pending_track_status_request ::
  "endpoint \<Rightarrow> track_namespace \<Rightarrow> bytes \<Rightarrow> track_status_request option" where
  "pending_track_status_request e ns name =
     (case map_of (ep_inbound_track_statuses e) (ns_fields ns, name) of
        Some t \<Rightarrow> if in_state t = TssPending then Some (in_message t) else None
      | None \<Rightarrow> None)"

definition pending_track_status_request_count :: "endpoint \<Rightarrow> nat" where
  "pending_track_status_request_count e =
     length (filter (\<lambda>(k, t). in_state t = TssPending) (ep_inbound_track_statuses e))"

definition send_track_status ::
  "track_namespace \<Rightarrow> bytes \<Rightarrow> varint \<Rightarrow> varint \<Rightarrow> varint \<Rightarrow> control_message ep" where
  "send_track_status ns name status_code last_group last_object =
     ep_bind (ep_step ep_inbound_track_statuses ep_inbound_track_statuses_update
                EpUnknownPeerTrackStatus EpTrackStatus (on_state on_track_status_sent)
                (ns_fields ns, name)) (\<lambda>_.
     ep_ret (CmTrackStatus
       \<lparr> ts_track_namespace = ns, ts_track_name = name, ts_status_code = status_code,
         ts_last_group_id = last_group, ts_last_object_id = last_object \<rparr>))"

section \<open>Accessors\<close>

text \<open>\<open>active_subscription_count\<close> and its siblings: the lengths of the maps.\<close>

definition active_subscription_count :: "endpoint \<Rightarrow> nat" where
  "active_subscription_count e = length (ep_subscriptions e)"

definition active_fetch_count :: "endpoint \<Rightarrow> nat" where
  "active_fetch_count e = length (ep_fetches e)"

definition active_subscribe_announces_count :: "endpoint \<Rightarrow> nat" where
  "active_subscribe_announces_count e = length (ep_subscribe_announces e)"

definition active_announce_count :: "endpoint \<Rightarrow> nat" where
  "active_announce_count e = length (ep_announces e)"

definition active_track_status_count :: "endpoint \<Rightarrow> nat" where
  "active_track_status_count e = length (ep_track_statuses e)"

section \<open>Dispatch\<close>

definition receive_message :: "control_message \<Rightarrow> unit ep" where
  "receive_message msg =
     (case msg of
        CmGoAway m \<Rightarrow> receive_goaway m
      | CmMaxSubscribeId m \<Rightarrow> receive_max_subscribe_id m
      | CmSubscribeOk m \<Rightarrow> receive_subscribe_ok m
      | CmSubscribeError m \<Rightarrow> receive_subscribe_error m
      | CmSubscribeUpdate m \<Rightarrow> receive_subscribe_update m
      | CmSubscribeDone m \<Rightarrow> receive_subscribe_done m
      | CmFetchOk m \<Rightarrow> receive_fetch_ok m
      | CmFetchError m \<Rightarrow> receive_fetch_error m
      | CmSubscribeAnnouncesOk m \<Rightarrow> receive_subscribe_announces_ok m
      | CmSubscribeAnnouncesError m \<Rightarrow> receive_subscribe_announces_error m
      | CmAnnounceOk m \<Rightarrow> receive_announce_ok m
      | CmAnnounceError m \<Rightarrow> receive_announce_error m
      | CmAnnounceCancel m \<Rightarrow> receive_announce_cancel m
      | CmTrackStatus m \<Rightarrow> receive_track_status m
      | CmTrackStatusRequest m \<Rightarrow> receive_track_status_request m
      | CmSubscribe m \<Rightarrow> receive_subscribe m
      | CmFetch m \<Rightarrow> receive_fetch m
      | CmFetchCancel m \<Rightarrow> receive_fetch_cancel m
      | CmUnsubscribe m \<Rightarrow> receive_unsubscribe m
      | CmAnnounce m \<Rightarrow> receive_announce m
      | CmUnannounce m \<Rightarrow> receive_unannounce m
      | CmSubscribeAnnounces m \<Rightarrow> receive_subscribe_announces m
      | CmUnsubscribeAnnounces m \<Rightarrow> receive_unsubscribe_announces m
      | _ \<Rightarrow> ep_ret ())"

text \<open>Everything that can happen to an endpoint, as data: the calls of the local application, the
  messages of the peer, the ends of fetch streams, and objects arriving on the data plane.\<close>

datatype (plugins only: code) ep_call =
    CallConnect
  | CallClose
  | CallSendClientSetup "varint list" "key_value_pair list"
  | CallReceiveServerSetup server_setup
  | CallReceiveClientSetup client_setup varint "key_value_pair list"
  | CallSendMaxSubscribeId varint
  | CallSubscribe varint track_namespace bytes u8 group_order filter_type
  | CallSubscribeRange varint track_namespace bytes u8 group_order location "location option"
  | CallUnsubscribe varint
  | CallSubscribeUpdate varint varint varint varint varint u8 "key_value_pair list"
  | CallSendSubscribeOk varint varint group_order "key_value_pair list"
  | CallSendSubscribeError varint varint bytes varint
  | CallSendSubscribeDone varint varint bytes
  | CallFetch track_namespace bytes u8 group_order varint varint varint varint
  | CallFetchCancel varint
  | CallFetchStreamFin varint
  | CallFetchStreamReset varint
  | CallSendFetchOk varint group_order u8 "varint option" "varint option" "key_value_pair list"
  | CallSendFetchError varint varint bytes
  | CallPeerFetchStreamFin varint
  | CallSubscribeAnnounces track_namespace
  | CallUnsubscribeAnnounces track_namespace
  | CallSendSubscribeAnnouncesOk track_namespace
  | CallSendSubscribeAnnouncesError track_namespace varint bytes
  | CallAnnounce track_namespace
  | CallUnannounce track_namespace
  | CallSendAnnounceOk track_namespace
  | CallSendAnnounceError track_namespace varint bytes
  | CallAnnounceCancel track_namespace varint bytes
  | CallTrackStatusRequest track_namespace bytes
  | CallSendTrackStatus track_namespace bytes varint varint varint
  | CallReceive control_message
  | CallNoteForwarding u64 object_forwarding_preference

text \<open>The endpoint error of a call, or nothing; and the state it leaves.\<close>

definition outcome :: "(endpoint_error + 'a) \<times> endpoint \<Rightarrow> endpoint_error option \<times> endpoint" where
  "outcome r = (case r of (Inl err, e) \<Rightarrow> (Some err, e) | (Inr x, e) \<Rightarrow> (None, e))"

definition ep_call :: "ep_call \<Rightarrow> endpoint \<Rightarrow> endpoint_error option \<times> endpoint" where
  "ep_call c e =
     (case c of
        CallConnect \<Rightarrow> outcome (ep_connect e)
      | CallClose \<Rightarrow> outcome (ep_close e)
      | CallSendClientSetup vs ps \<Rightarrow> outcome (send_client_setup vs ps e)
      | CallReceiveServerSetup m \<Rightarrow> outcome (receive_server_setup m e)
      | CallReceiveClientSetup m v ps \<Rightarrow>
          outcome (receive_client_setup_and_respond_with m v ps e)
      | CallSendMaxSubscribeId m \<Rightarrow> outcome (send_max_subscribe_id m e)
      | CallSubscribe al ns n p go ft \<Rightarrow> outcome (ep_subscribe al ns n p go ft e)
      | CallSubscribeRange al ns n p go l l' \<Rightarrow> outcome (ep_subscribe_range al ns n p go l l' e)
      | CallUnsubscribe i \<Rightarrow> outcome (ep_unsubscribe i e)
      | CallSubscribeUpdate i sg so eg eo p ps \<Rightarrow>
          outcome (ep_subscribe_update i sg so eg eo p ps e)
      | CallSendSubscribeOk i x go ps \<Rightarrow> outcome (send_subscribe_ok i x go ps e)
      | CallSendSubscribeError i c r al \<Rightarrow> outcome (send_subscribe_error i c r al e)
      | CallSendSubscribeDone i c r \<Rightarrow> outcome (send_subscribe_done i c r e)
      | CallFetch ns n p go sg so eg eo \<Rightarrow> outcome (ep_fetch ns n p go sg so eg eo e)
      | CallFetchCancel i \<Rightarrow> outcome (ep_fetch_cancel i e)
      | CallFetchStreamFin i \<Rightarrow> outcome (on_fetch_stream_fin i e)
      | CallFetchStreamReset i \<Rightarrow> outcome (on_fetch_stream_reset i e)
      | CallSendFetchOk i go t lg lo ps \<Rightarrow> outcome (send_fetch_ok i go t lg lo ps e)
      | CallSendFetchError i c r \<Rightarrow> outcome (send_fetch_error i c r e)
      | CallPeerFetchStreamFin i \<Rightarrow> outcome (on_peer_fetch_stream_fin i e)
      | CallSubscribeAnnounces ns \<Rightarrow> outcome (ep_subscribe_announces_request ns e)
      | CallUnsubscribeAnnounces ns \<Rightarrow> outcome (ep_unsubscribe_announces ns e)
      | CallSendSubscribeAnnouncesOk ns \<Rightarrow> outcome (send_subscribe_announces_ok ns e)
      | CallSendSubscribeAnnouncesError ns c r \<Rightarrow>
          outcome (send_subscribe_announces_error ns c r e)
      | CallAnnounce ns \<Rightarrow> outcome (ep_announce ns e)
      | CallUnannounce ns \<Rightarrow> outcome (ep_unannounce ns e)
      | CallSendAnnounceOk ns \<Rightarrow> outcome (send_announce_ok ns e)
      | CallSendAnnounceError ns c r \<Rightarrow> outcome (send_announce_error ns c r e)
      | CallAnnounceCancel ns c r \<Rightarrow> outcome (ep_announce_cancel ns c r e)
      | CallTrackStatusRequest ns n \<Rightarrow> outcome (ep_track_status_request ns n e)
      | CallSendTrackStatus ns n c lg lo \<Rightarrow> outcome (send_track_status ns n c lg lo e)
      | CallReceive m \<Rightarrow> outcome (receive_message m e)
      | CallNoteForwarding a p \<Rightarrow> outcome (note_object_forwarding_preference a p e))"

end
