(* ===== verification/Endpoint07_Moves.thy ===== *)
theory Endpoint07_Moves
  imports Endpoint07_Names Draft07_Frame
begin

text \<open>
  The specification the endpoint of draft-07 implements: \<open>ep_move\<close> lists the atomic changes an
  endpoint may make, each with the condition under which the draft lets it. A call on the endpoint
  is a sequence of such moves (\<open>ep_call_moves\<close>), so a property of every move is a property of every
  session, whatever order the application's calls and the peer's messages come in. \<open>reachable\<close> is the
  set of states such a session passes through.
\<close>

definition fresh_id :: "endpoint \<Rightarrow> u64 \<Rightarrow> bool" where
  "fresh_id e i \<longleftrightarrow>
     i < ep_advertised_max_id e \<and>
     (case ep_peer_highest e of None \<Rightarrow> True | Some h \<Rightarrow> h < i)"

definition open_subscription ::
  "u64 \<Rightarrow> track_binding \<Rightarrow> subscribe_id_allocator \<Rightarrow> endpoint \<Rightarrow> endpoint" where
  "open_subscription i b a e =
     e\<lparr> ep_subscribe_ids := a,
        ep_subscriptions := AList.update i Subscribing (ep_subscriptions e),
        ep_track_bindings := AList.update (Ours, i) b (ep_track_bindings e) \<rparr>"

definition accept_subscribe :: "subscribe \<Rightarrow> endpoint \<Rightarrow> endpoint" where
  "accept_subscribe msg e =
     (let i = into_inner (s_subscribe_id msg) in
      e\<lparr> ep_peer_highest := Some i,
         ep_inbound_subscribes :=
           AList.update i \<lparr> in_message = msg, in_state = Subscribing \<rparr> (ep_inbound_subscribes e),
         ep_track_bindings :=
           AList.update (Peers, i)
             \<lparr> tb_namespace = s_track_namespace msg, tb_name = s_track_name msg,
               tb_alias = into_inner (s_track_alias msg) \<rparr> (ep_track_bindings e) \<rparr>)"

inductive ep_move :: "endpoint \<Rightarrow> endpoint \<Rightarrow> bool" where
  MoveSession:
    "f \<in> {on_connect, on_setup_complete, on_close} \<Longrightarrow> f (ep_session e) = Inr s \<Longrightarrow>
     ep_move e (e\<lparr> ep_session := s \<rparr>)"
| MoveGoAway:
    "ep_role e = RoleClient \<Longrightarrow> ep_session e = SessActive \<Longrightarrow>
     ep_move e (e\<lparr> ep_session := Draining, ep_goaway_uri := Some uri \<rparr>)"
| MoveCeiling:
    "update_max (ep_subscribe_ids e) m = Inr a \<Longrightarrow> m \<le> MAX_VARINT \<Longrightarrow>
     ep_move e (e\<lparr> ep_subscribe_ids := a \<rparr>)"
| MoveAdvertise: "ep_move e (e\<lparr> ep_advertised_max_id := m \<rparr>)"
| MoveOffer: "ep_move e (e\<lparr> ep_offered_versions := vs \<rparr>)"
| MoveVersion: "ep_move e (e\<lparr> ep_negotiated_version := Some (VarInt DRAFT_VERSION) \<rparr>)"
| MoveSubscribe:
    "ep_session e = SessActive \<Longrightarrow> allocate (ep_subscribe_ids e) = Inr (i, a) \<Longrightarrow>
     alias_holder e (tb_alias b) (tb_namespace b) (tb_name b) = None \<Longrightarrow>
     ep_move e (open_subscription (into_inner i) b a e)"
| MoveSubscription:
    "map_of (ep_subscriptions e) i = Some s \<Longrightarrow> (s, s') \<in> moves subscription_ops \<Longrightarrow> s \<noteq> SubIdle \<Longrightarrow>
     ep_move e (e\<lparr> ep_subscriptions := AList.update i s' (ep_subscriptions e) \<rparr>)"
| MovePeerId:
    "fresh_id e i \<Longrightarrow> ep_move e (e\<lparr> ep_peer_highest := Some i \<rparr>)"
| MoveAccept:
    "fresh_id e (into_inner (s_subscribe_id msg)) \<Longrightarrow>
     ns_fields (s_track_namespace msg) \<notin> set (ep_announce_cancelled e) \<Longrightarrow>
     alias_holder e (into_inner (s_track_alias msg)) (s_track_namespace msg) (s_track_name msg)
       = None \<Longrightarrow>
     ep_move e (accept_subscribe msg e)"
| MoveInboundSubscription:
    "map_of (ep_inbound_subscribes e) i = Some s \<Longrightarrow>
     (in_state s, s') \<in> moves subscription_ops \<Longrightarrow> in_state s \<noteq> SubIdle \<Longrightarrow>
     ep_move e (e\<lparr> ep_inbound_subscribes :=
       AList.update i (s\<lparr> in_state := s' \<rparr>) (ep_inbound_subscribes e) \<rparr>)"
| MoveFetch:
    "ep_session e = SessActive \<Longrightarrow> allocate (ep_subscribe_ids e) = Inr (i, a) \<Longrightarrow>
     ep_move e (e\<lparr> ep_subscribe_ids := a,
       ep_fetches := AList.update (into_inner i) FetchPending (ep_fetches e) \<rparr>)"
| MoveFetchState:
    "map_of (ep_fetches e) i = Some s \<Longrightarrow> (s, s') \<in> moves fetch_ops \<Longrightarrow>
     ep_move e (e\<lparr> ep_fetches := AList.update i s' (ep_fetches e) \<rparr>)"
| MoveInboundFetch:
    "fresh_id e (into_inner (f_subscribe_id m)) \<Longrightarrow>
     ep_move e (e\<lparr> ep_peer_highest := Some (into_inner (f_subscribe_id m)),
       ep_inbound_fetches := AList.update (into_inner (f_subscribe_id m))
         \<lparr> in_message = m, in_state = FetchPending \<rparr> (ep_inbound_fetches e) \<rparr>)"
| MoveInboundFetchState:
    "map_of (ep_inbound_fetches e) i = Some s \<Longrightarrow> (in_state s, s') \<in> moves fetch_ops \<Longrightarrow>
     ep_move e (e\<lparr> ep_inbound_fetches :=
       AList.update i (s\<lparr> in_state := s' \<rparr>) (ep_inbound_fetches e) \<rparr>)"
| MovePreference:
    "track_for_alias e alias = Some (ns, name) \<Longrightarrow>
     pref_observe (ep_forwarding_preferences e) (TrackKey ns name) seen = Inr t \<Longrightarrow>
     ep_move e (e\<lparr> ep_forwarding_preferences := t \<rparr>)"
| MoveSubscribeAnnounces:
    "ep_session e = SessActive \<Longrightarrow>
     \<forall>(k', s) \<in> set (ep_subscribe_announces e). \<not> prefixes_overlap k' k \<Longrightarrow>
     ep_move e (e\<lparr> ep_subscribe_announces :=
       AList.update k SasPending (ep_subscribe_announces e) \<rparr>)"
| MoveSubscribeAnnouncesState:
    "map_of (ep_subscribe_announces e) k = Some s \<Longrightarrow> (s, s') \<in> moves sas_ops \<Longrightarrow>
     ep_move e (e\<lparr> ep_subscribe_announces := AList.update k s' (ep_subscribe_announces e) \<rparr>)"
| MoveInboundSubscribeAnnounces:
    "ep_session e = SessActive \<Longrightarrow>
     \<forall>(k', s) \<in> set (ep_inbound_subscribe_announces e).
       \<not> prefixes_overlap k' (ns_fields (sa_track_namespace_prefix m)) \<Longrightarrow>
     ep_move e (e\<lparr> ep_inbound_subscribe_announces :=
       AList.update (ns_fields (sa_track_namespace_prefix m))
         \<lparr> in_message = m, in_state = SasPending \<rparr> (ep_inbound_subscribe_announces e) \<rparr>)"
| MoveInboundSubscribeAnnouncesState:
    "map_of (ep_inbound_subscribe_announces e) k = Some s \<Longrightarrow>
     (in_state s, s') \<in> moves sas_ops \<Longrightarrow>
     ep_move e (e\<lparr> ep_inbound_subscribe_announces :=
       AList.update k (s\<lparr> in_state := s' \<rparr>) (ep_inbound_subscribe_announces e) \<rparr>)"
| MoveAnnounce:
    "ep_session e = SessActive \<Longrightarrow>
     ep_move e (e\<lparr> ep_announce_cancelled := removeAll k (ep_announce_cancelled e),
       ep_announces := AList.update k AnnPending (ep_announces e) \<rparr>)"
| MoveAnnounceState:
    "map_of (ep_announces e) k = Some s \<Longrightarrow> (s, s') \<in> moves ann_ops \<Longrightarrow>
     ep_move e (e\<lparr> ep_announces := AList.update k s' (ep_announces e) \<rparr>)"
| MoveAnnounceCancel:
    "map_of (ep_announces e) k = Some AnnActive \<Longrightarrow>
     ep_move e (e\<lparr> ep_announces := AList.update k AnnDone (ep_announces e),
       ep_announce_cancelled := List.insert k (ep_announce_cancelled e) \<rparr>)"
| MoveInboundAnnounce:
    "ep_session e = SessActive \<Longrightarrow>
     ep_move e (e\<lparr> ep_inbound_announces := AList.update (ns_fields (an_track_namespace m))
         \<lparr> in_message = m, in_state = AnnPending \<rparr> (ep_inbound_announces e) \<rparr>)"
| MoveInboundAnnounceState:
    "map_of (ep_inbound_announces e) k = Some s \<Longrightarrow> (in_state s, s') \<in> moves ann_ops \<Longrightarrow>
     ep_move e (e\<lparr> ep_inbound_announces :=
       AList.update k (s\<lparr> in_state := s' \<rparr>) (ep_inbound_announces e) \<rparr>)"
| MoveTrackStatus:
    "ep_session e = SessActive \<Longrightarrow>
     ep_move e (e\<lparr> ep_track_statuses := AList.update k TssPending (ep_track_statuses e) \<rparr>)"
| MoveTrackStatusState:
    "map_of (ep_track_statuses e) k = Some s \<Longrightarrow> (s, s') \<in> moves tss_ops \<Longrightarrow>
     ep_move e (e\<lparr> ep_track_statuses := AList.update k s' (ep_track_statuses e) \<rparr>)"
| MoveInboundTrackStatus:
    "ep_session e = SessActive \<Longrightarrow>
     ep_move e (e\<lparr> ep_inbound_track_statuses :=
       AList.update (ns_fields (tsr_track_namespace m), tsr_track_name m)
         \<lparr> in_message = m, in_state = TssPending \<rparr> (ep_inbound_track_statuses e) \<rparr>)"
| MoveInboundTrackStatusState:
    "map_of (ep_inbound_track_statuses e) k = Some s \<Longrightarrow> (in_state s, s') \<in> moves tss_ops \<Longrightarrow>
     ep_move e (e\<lparr> ep_inbound_track_statuses :=
       AList.update k (s\<lparr> in_state := s' \<rparr>) (ep_inbound_track_statuses e) \<rparr>)"

section \<open>Sequences of moves\<close>

named_theorems moves_intros
named_theorems op_moves

definition by_moves :: "'a ep \<Rightarrow> bool" where
  "by_moves m \<longleftrightarrow> (\<forall>e. ep_move\<^sup>*\<^sup>* e (snd (m e)))"

lemma by_movesI: "(\<And>e. ep_move\<^sup>*\<^sup>* e (snd (m e))) \<Longrightarrow> by_moves m"
  by (simp add: by_moves_def)

lemma by_movesD: "by_moves m \<Longrightarrow> m e = (r, e') \<Longrightarrow> ep_move\<^sup>*\<^sup>* e e'"
  unfolding by_moves_def by (metis snd_conv)

lemma by_moves_outcome: "by_moves m \<Longrightarrow> ep_move\<^sup>*\<^sup>* e (snd (outcome (m e)))"
  unfolding by_moves_def outcome_def by (auto split: prod.splits sum.splits dest: spec [of _ e])

lemma by_moves_bind [moves_intros]:
  assumes "by_moves m" and "\<And>x. by_moves (k x)"
  shows "by_moves (ep_bind m k)"
proof (rule by_movesI)
  fix e
  show "ep_move\<^sup>*\<^sup>* e (snd (ep_bind m k e))"
    using assms unfolding by_moves_def ep_bind_def
    by (auto split: prod.splits sum.splits) (metis rtranclp_trans snd_conv)+
qed

lemma by_moves_same [moves_intros]:
  "by_moves (ep_ret x)" "by_moves (ep_fail err)" "by_moves (ep_lift conv r)"
  "by_moves require_active_or_err"
  by (auto simp: by_moves_def ep_ret_def ep_fail_def ep_lift_def require_active_or_err_def
      split: sum.splits session_state.splits)

lemma by_moves_modify: "(\<And>e. ep_move e (f e)) \<Longrightarrow> by_moves (ep_modify f)"
  by (auto simp: by_moves_def ep_modify_def)

lemma by_moves_fail_session [moves_intros]: "by_moves (fail_session err)"
  by (auto simp: by_moves_def fail_session_def split: sum.splits
      intro!: r_into_rtranclp MoveSession [of on_close])

lemma by_moves_on_session [moves_intros]:
  "f \<in> {on_connect, on_setup_complete, on_close} \<Longrightarrow> by_moves (on_session f)"
  by (rule by_movesI) (auto simp: on_session_def split: sum.splits
      intro: r_into_rtranclp MoveSession [of f])

lemma by_moves_step:
  assumes "\<And>g e. upd g e = upd (\<lambda>_. g (get e)) e"
    and "\<And>e v v'. map_of (get e) k = Some v \<Longrightarrow> f v = Inr v' \<Longrightarrow>
      ep_move e (upd (\<lambda>_. AList.update k v' (get e)) e)"
  shows "by_moves (ep_step get upd missing conv f k)"
  using assms(2)
  by (auto simp: by_moves_def ep_step_def assms(1) [of "AList.update k v'" for v']
      split: option.splits sum.splits)

lemma movesI: "f \<in> set ops \<Longrightarrow> f s = Inr t \<Longrightarrow> (s, t) \<in> moves ops"
  by (auto simp: moves_def)

lemma on_state_Inr:
  "on_state f i = Inr i' \<longleftrightarrow> (\<exists>s. f (in_state i) = Inr s \<and> i' = i\<lparr> in_state := s \<rparr>)"
  by (auto simp: on_state_def and_then_eq_Inr)

lemma by_moves_subscription_step:
  "f \<in> set subscription_ops \<Longrightarrow> (\<And>s. f SubIdle \<noteq> Inr s) \<Longrightarrow> by_moves (subscription_step f i)"
  unfolding subscription_step_def
  by (rule by_moves_step, simp, rule MoveSubscription) (auto intro: movesI)

lemma by_moves_inbound_subscribe_step:
  "f \<in> set subscription_ops \<Longrightarrow> (\<And>s. f SubIdle \<noteq> Inr s) \<Longrightarrow>
     by_moves (inbound_subscribe_step missing f i)"
  unfolding inbound_subscribe_step_def
  by (rule by_moves_step, simp) (auto simp: on_state_Inr intro!: MoveInboundSubscription intro: movesI)

lemma by_moves_fetch_step: "f \<in> set fetch_ops \<Longrightarrow> by_moves (fetch_step f i)"
  unfolding fetch_step_def
  by (rule by_moves_step, simp, rule MoveFetchState) (auto intro: movesI)

lemma by_moves_inbound_fetch_step: "f \<in> set fetch_ops \<Longrightarrow> by_moves (inbound_fetch_step f i)"
  unfolding inbound_fetch_step_def
  by (rule by_moves_step, simp) (auto simp: on_state_Inr intro!: MoveInboundFetchState intro: movesI)

lemma by_moves_subscribe_announces_step:
  "f \<in> set sas_ops \<Longrightarrow> by_moves (subscribe_announces_step f ns)"
  unfolding subscribe_announces_step_def
  by (rule by_moves_step, simp, rule MoveSubscribeAnnouncesState) (auto intro: movesI)

lemma by_moves_inbound_subscribe_announces_step:
  "f \<in> set sas_ops \<Longrightarrow> by_moves (inbound_subscribe_announces_step f ns)"
  unfolding inbound_subscribe_announces_step_def
  by (rule by_moves_step, simp)
    (auto simp: on_state_Inr intro!: MoveInboundSubscribeAnnouncesState intro: movesI)

lemma by_moves_announce_step: "f \<in> set ann_ops \<Longrightarrow> by_moves (announce_step f ns)"
  unfolding announce_step_def
  by (rule by_moves_step, simp, rule MoveAnnounceState) (auto intro: movesI)

lemma by_moves_inbound_announce_step: "f \<in> set ann_ops \<Longrightarrow> by_moves (inbound_announce_step f ns)"
  unfolding inbound_announce_step_def
  by (rule by_moves_step, simp) (auto simp: on_state_Inr intro!: MoveInboundAnnounceState intro: movesI)

text \<open>Which method belongs to which machine, and which cannot leave the idle state.\<close>

lemmas machine_ops =
  subscription_ops_def fetch_ops_def sas_ops_def ann_ops_def tss_ops_def

lemmas step_moves =
  by_moves_subscription_step by_moves_inbound_subscribe_step by_moves_fetch_step
  by_moves_inbound_fetch_step by_moves_subscribe_announces_step
  by_moves_inbound_subscribe_announces_step by_moves_announce_step by_moves_inbound_announce_step

lemma single_step_calls [moves_intros]:
  "by_moves (receive_subscribe_ok m1)" "by_moves (receive_subscribe_done m3)"
  "by_moves (ep_unsubscribe x1)" "by_moves (ep_subscribe_update x2 x3 x4 x5 x6 prio ps)"
  "by_moves (receive_subscribe_update m4)" "by_moves (send_subscribe_ok x7 x8 go ps)"
  "by_moves (send_subscribe_error x9 x10 reason x11)" "by_moves (send_subscribe_done x9 x10 reason)"
  "by_moves (receive_unsubscribe m5)"
  unfolding receive_subscribe_ok_def receive_subscribe_done_def ep_unsubscribe_def
    ep_subscribe_update_def receive_subscribe_update_def send_subscribe_ok_def
    send_subscribe_error_def send_subscribe_done_def receive_unsubscribe_def Let_def
  by (intro moves_intros step_moves; simp add: machine_ops subscription_op_defs)+

lemma fetch_calls [moves_intros]:
  "by_moves (receive_fetch_ok m1)" "by_moves (receive_fetch_error m2)"
  "by_moves (ep_fetch_cancel x1)" "by_moves (on_fetch_stream_fin x1)"
  "by_moves (on_fetch_stream_reset x1)" "by_moves (send_fetch_ok x1 go fin lg lo ps)"
  "by_moves (send_fetch_error x1 x2 reason)" "by_moves (receive_fetch_cancel m3)"
  "by_moves (on_peer_fetch_stream_fin x1)"
  unfolding receive_fetch_ok_def receive_fetch_error_def ep_fetch_cancel_def
    on_fetch_stream_fin_def on_fetch_stream_reset_def send_fetch_ok_def send_fetch_error_def
    receive_fetch_cancel_def on_peer_fetch_stream_fin_def
  by (intro moves_intros step_moves; simp add: machine_ops)+

lemma namespace_calls [moves_intros]:
  "by_moves (receive_subscribe_announces_ok m1)" "by_moves (receive_subscribe_announces_error m2)"
  "by_moves (ep_unsubscribe_announces ns)" "by_moves (send_subscribe_announces_ok ns)"
  "by_moves (send_subscribe_announces_error ns x1 reason)"
  "by_moves (receive_unsubscribe_announces m3)"
  "by_moves (receive_announce_ok m4)" "by_moves (receive_announce_error m5)"
  "by_moves (ep_unannounce ns)" "by_moves (send_announce_ok ns)"
  "by_moves (send_announce_error ns x1 reason)" "by_moves (receive_unannounce m6)"
  "by_moves (ep_announce_cancel ns x1 reason)"
  unfolding receive_subscribe_announces_ok_def receive_subscribe_announces_error_def
    ep_unsubscribe_announces_def send_subscribe_announces_ok_def
    send_subscribe_announces_error_def receive_unsubscribe_announces_def receive_announce_ok_def
    receive_announce_error_def ep_unannounce_def send_announce_ok_def send_announce_error_def
    receive_unannounce_def ep_announce_cancel_def
  by (intro moves_intros step_moves; simp add: machine_ops)+

lemma track_status_calls [moves_intros]:
  "by_moves (receive_track_status m1)"
  "by_moves (send_track_status ns name x1 x2 x3)"
  unfolding receive_track_status_def send_track_status_def
   apply (rule by_moves_step, simp, rule MoveTrackStatusState, assumption)
   apply (rule movesI [of on_track_status], simp_all add: tss_ops_def)
  apply (intro moves_intros, rule by_moves_step, simp)
  apply (auto simp: on_state_Inr tss_ops_def intro!: MoveInboundTrackStatusState
      movesI [of on_track_status_sent])
  done

section \<open>Calls that open something\<close>

lemma ep_bind_Inr: "m e = (Inr x, e') \<Longrightarrow> ep_bind m k e = k x e'"
  and ep_bind_Inl: "m e = (Inl err, e') \<Longrightarrow> ep_bind m k e = (Inl err, e')"
  by (simp_all add: ep_bind_def)

lemmas ep_runs =
  ep_bind_def ep_ret_def ep_fail_def ep_lift_def ep_modify_def require_active_or_err_def

lemma subscribe_inner_moves [moves_intros]:
  "by_moves (subscribe_inner al ns name prio go ft start stop)"
proof (rule by_movesI)
  fix e
  let ?b = "\<lparr> tb_namespace = ns, tb_name = name, tb_alias = into_inner al \<rparr>"
  show "ep_move\<^sup>*\<^sup>* e (snd (subscribe_inner al ns name prio go ft start stop e))"
    using MoveSubscribe [of e _ _ ?b]
    by (auto simp: subscribe_inner_def ep_runs ep_allocate_def on_subscribe_sent_def
        open_subscription_def split: option.splits sum.splits session_state.splits)
qed

lemma ep_subscribe_moves [moves_intros]:
  "by_moves (ep_subscribe al ns name prio go ft)"
  "by_moves (ep_subscribe_range al ns name prio go start stop)"
  unfolding ep_subscribe_def ep_subscribe_range_def by (auto intro!: moves_intros)

lemma ep_fetch_moves [moves_intros]:
  "by_moves (ep_fetch ns name prio go sg so eg eo)"
  by (rule by_movesI) (auto simp: ep_fetch_def ep_runs ep_allocate_def on_fetch_sent_def
      split: sum.splits session_state.splits intro!: MoveFetch)

text \<open>The three answers of the check on the peer's ids: refused, and the session with it; refused;
  or taken, and the high-water mark moved.\<close>

lemma validate_peer_subscribe_id_cases:
  "validate_peer_subscribe_id i e =
     (if fresh_id e i then (Inr (), e\<lparr> ep_peer_highest := Some i \<rparr>)
      else if i \<ge> ep_advertised_max_id e
      then fail_session (EpSubscribeId (SidExceedsMax i (ep_advertised_max_id e))) e
      else (Inl (EpPeerSubscribeIdNotIncreasing i (the (ep_peer_highest e))), e))"
  by (auto simp: validate_peer_subscribe_id_def fresh_id_def split: option.splits)

lemma fail_session_moves: "ep_move\<^sup>*\<^sup>* e (snd (fail_session err e))"
  by (metis by_moves_def by_moves_fail_session)

lemma alias_holder_peer_highest [simp]:
  "alias_holder (e\<lparr> ep_peer_highest := h \<rparr>) = alias_holder e"
  by (intro ext) (simp add: alias_holder_def binding_is_live_def case_prod_beta
      cong: subscribe_side.case_cong)

lemma receive_subscribe_moves [moves_intros]: "by_moves (receive_subscribe msg)"
proof (rule by_movesI)
  fix e :: endpoint
  let ?i = "into_inner (s_subscribe_id msg)"
  let ?e = "e\<lparr> ep_peer_highest := Some ?i \<rparr>"
  note fail = fail_session_moves [of ?e]
  show "ep_move\<^sup>*\<^sup>* e (snd (receive_subscribe msg e))"
  proof (cases "fresh_id e ?i")
    case True
    then have "ep_move e ?e" by (rule MovePeerId)
    then show ?thesis
      using fail True MoveAccept [of e msg]
      by (auto simp: receive_subscribe_def Let_def ep_runs validate_peer_subscribe_id_cases
          conflicting_track_alias_def on_subscribe_received_def on_subscribe_sent_def accept_subscribe_def fail_session_def
          split: option.splits sum.splits dest: converse_rtranclp_into_rtranclp)
  next
    case False
    then show ?thesis
      using fail_session_moves [of e]
      by (auto simp: receive_subscribe_def Let_def ep_runs validate_peer_subscribe_id_cases
          fail_session_def split: option.splits sum.splits)
  qed
qed

lemma receive_fetch_moves [moves_intros]: "by_moves (receive_fetch msg)"
proof (rule by_movesI)
  fix e
  show "ep_move\<^sup>*\<^sup>* e (snd (receive_fetch msg e))"
    using fail_session_moves [of e] MoveInboundFetch [of e msg]
    by (auto simp: receive_fetch_def Let_def ep_runs validate_peer_subscribe_id_cases
        on_fetch_received_def on_fetch_sent_def fail_session_def
        split: option.splits sum.splits)
qed

lemma receive_subscribe_error_moves [moves_intros]: "by_moves (receive_subscribe_error msg)"
proof (rule by_movesI)
  fix e
  have "by_moves (subscription_step on_subscribe_error i)" for i
    by (rule step_moves) (simp_all add: machine_ops on_subscribe_error_def)
  then show "ep_move\<^sup>*\<^sup>* e (snd (receive_subscribe_error msg e))"
    using fail_session_moves [of e]
    by (auto simp: receive_subscribe_error_def Let_def by_moves_def split: option.splits)
qed

section \<open>Session calls\<close>

lemma setup_varint_bound:
  "wf_kvp_d07 p \<Longrightarrow> setup_varint (kvp_value p) = Some m \<Longrightarrow> m \<le> MAX_VARINT"
  by (auto simp: wf_kvp_d07_def setup_varint_def wf_varint_def split: kvp_value.splits sum.splits
      prod.splits if_splits dest!: varint_decode_wf)

lemma read_granted_max_moves:
  "list_all wf_kvp_d07 ps \<Longrightarrow> by_moves (read_granted_max ps)"
proof (induction ps)
  case Nil
  show ?case by (simp add: moves_intros)
next
  case (Cons p ps)
  have "by_moves (\<lambda>e. case update_max (ep_subscribe_ids e) m of
      Inl err \<Rightarrow> (Inl (EpSubscribeId err), e)
    | Inr a \<Rightarrow> (Inr (), e\<lparr> ep_subscribe_ids := a \<rparr>))"
    if "setup_varint (kvp_value p) = Some m" for m
    using Cons.prems setup_varint_bound [OF _ that]
    by (auto simp: by_moves_def split: sum.splits intro: MoveCeiling)
  with Cons show ?case
    by (auto split: option.splits intro!: moves_intros)
qed

lemma send_client_setup_moves [moves_intros]: "by_moves (send_client_setup vs ps)"
  unfolding send_client_setup_def Let_def record_advertised_max_def
  by (intro moves_intros by_moves_modify MoveOffer MoveAdvertise)

lemma by_moves_bind_result:
  assumes "by_moves m" and "\<And>x e e'. m e = (Inr x, e') \<Longrightarrow> by_moves (k x)"
  shows "by_moves (ep_bind m k)"
proof (rule by_movesI)
  fix e
  show "ep_move\<^sup>*\<^sup>* e (snd (ep_bind m k e))"
    using assms unfolding by_moves_def ep_bind_def
    by (auto split: prod.splits sum.splits) (metis rtranclp_trans snd_conv)+
qed

text \<open>The version written down is this draft's, whoever selected it.\<close>

lemma by_moves_negotiated:
  assumes "\<And>w. by_moves (k w)"
  shows "by_moves (ep_bind (\<lambda>e. ep_lift EpSetup (negotiate_version (vs e) v) e) (\<lambda>w.
    ep_bind (ep_modify (\<lambda>e. e\<lparr> ep_negotiated_version := Some w \<rparr>)) (\<lambda>_. k w)))"
proof (rule by_moves_bind_result)
  show "by_moves (\<lambda>e. ep_lift EpSetup (negotiate_version (vs e) v) e)"
    by (auto simp: by_moves_def ep_lift_def split: sum.splits)
next
  fix w e e'
  assume "ep_lift EpSetup (negotiate_version (vs e) v) e = (Inr w, e')"
  then have "w = VarInt DRAFT_VERSION"
    by (auto simp: ep_lift_def negotiate_version_iff split: sum.splits)
  then show "by_moves (ep_bind (ep_modify (\<lambda>e. e\<lparr> ep_negotiated_version := Some w \<rparr>)) (\<lambda>_. k w))"
    using assms by (auto intro!: by_moves_bind by_moves_modify MoveVersion)
qed

lemma receive_server_setup_moves:
  "wf_server_setup m \<Longrightarrow> by_moves (receive_server_setup m)"
  unfolding receive_server_setup_def wf_server_setup_def wf_kvp_list_d07_def
  by (intro by_moves_bind by_moves_negotiated read_granted_max_moves moves_intros) simp_all

lemma receive_client_setup_moves:
  "wf_client_setup m \<Longrightarrow> by_moves (receive_client_setup_and_respond_with m v ps)"
  unfolding receive_client_setup_and_respond_with_def wf_client_setup_def wf_kvp_list_d07_def
    record_advertised_max_def
  by (intro by_moves_bind by_moves_negotiated read_granted_max_moves moves_intros
      by_moves_modify MoveAdvertise) simp_all

lemma session_calls [moves_intros]:
  "by_moves ep_connect" "by_moves ep_close" "by_moves (send_max_subscribe_id x)"
  "by_moves (receive_goaway g)" "by_moves (note_object_forwarding_preference al seen)"
proof -
  show "by_moves ep_connect" "by_moves ep_close"
    unfolding ep_connect_def ep_close_def by (auto intro: by_moves_on_session)
  show "by_moves (send_max_subscribe_id x)"
    by (auto simp: by_moves_def send_max_subscribe_id_def Let_def intro: MoveAdvertise)
  show "by_moves (receive_goaway g)"
  proof (rule by_movesI)
    fix e :: endpoint
    have "ep_role e = RoleClient" if "ep_role e \<noteq> RoleServer"
      using that by (cases "ep_role e") auto
    then show "ep_move\<^sup>*\<^sup>* e (snd (receive_goaway g e))"
      using fail_session_moves [of e] MoveGoAway [of e]
      by (auto simp: receive_goaway_def ep_runs on_session_def on_goaway_def
          split: sum.splits)
  qed
  show "by_moves (note_object_forwarding_preference al seen)"
    by (auto simp: by_moves_def note_object_forwarding_preference_def
        split: option.splits sum.splits intro: MovePreference)
qed

lemma receive_max_subscribe_id_moves:
  "wf_max_subscribe_id m \<Longrightarrow> by_moves (receive_max_subscribe_id m)"
  using fail_session_moves
  by (auto simp: by_moves_def receive_max_subscribe_id_def wf_max_subscribe_id_def wf_varint_def
      split: sum.splits intro: MoveCeiling)

section \<open>Calls on namespaces\<close>

lemma open_namespace_moves [moves_intros]:
  "by_moves (ep_subscribe_announces_request ns)" "by_moves (receive_subscribe_announces m1)"
  "by_moves (ep_announce ns)" "by_moves (receive_announce m2)"
  "by_moves (ep_track_status_request ns name)" "by_moves (receive_track_status_request m3)"
proof -
  show "by_moves (ep_subscribe_announces_request ns)"
    by (rule by_movesI) (auto simp: ep_subscribe_announces_request_def ep_runs list_ex_iff
        on_subscribe_announces_sent_def split: session_state.splits sum.splits
        intro!: r_into_rtranclp MoveSubscribeAnnounces)
  show "by_moves (receive_subscribe_announces m1)"
    by (rule by_movesI) (auto simp: receive_subscribe_announces_def ep_runs list_ex_iff
        peer_prefix_overlap_def on_subscribe_announces_received_def
        on_subscribe_announces_sent_def split: session_state.splits sum.splits
        intro!: r_into_rtranclp MoveInboundSubscribeAnnounces)
  show "by_moves (ep_announce ns)"
    by (rule by_movesI) (auto simp: ep_announce_def ep_runs on_announce_sent_def
        split: session_state.splits sum.splits intro!: MoveAnnounce)
  show "by_moves (receive_announce m2)"
    by (rule by_movesI) (auto simp: receive_announce_def ep_runs on_announce_received_def
        on_announce_sent_def split: session_state.splits sum.splits intro!: MoveInboundAnnounce)
  show "by_moves (ep_track_status_request ns name)"
    by (rule by_movesI) (auto simp: ep_track_status_request_def ep_runs
        on_track_status_request_sent_def split: session_state.splits sum.splits
        intro!: MoveTrackStatus)
  show "by_moves (receive_track_status_request m3)"
    by (rule by_movesI) (auto simp: receive_track_status_request_def ep_runs
        on_track_status_request_received_def on_track_status_request_sent_def
        split: session_state.splits sum.splits intro!: MoveInboundTrackStatus)
qed

lemma receive_announce_cancel_moves [moves_intros]: "by_moves (receive_announce_cancel m)"
proof -
  have "ep_move e (ep_announces_update (AList.update k AnnDone) e
      \<lparr> ep_announce_cancelled := List.insert k (ep_announce_cancelled e) \<rparr>)"
    if "map_of (ep_announces e) k = Some AnnActive" for k and e :: endpoint
  proof -
    have "ep_announces_update (AList.update k AnnDone) e =
        e\<lparr> ep_announces := AList.update k AnnDone (ep_announces e) \<rparr>"
      by simp
    then show ?thesis
      using MoveAnnounceCancel [OF that] by metis
  qed
  then show ?thesis
    by (auto simp: by_moves_def receive_announce_cancel_def announce_step_def ep_step_def ep_runs
        on_announce_cancel_def split: option.splits sum.splits)
qed

section \<open>Every call\<close>

lemma receive_message_moves: "wf_message m \<Longrightarrow> by_moves (receive_message m)"
  by (cases m) (simp_all add: receive_message_def wf_message_def moves_intros
      receive_max_subscribe_id_moves)

text \<open>What the calls are given: messages as the decoder returns them. Nothing is asked of the
  application's own arguments.\<close>

definition wf_call :: "ep_call \<Rightarrow> bool" where
  "wf_call c =
     (case c of
        CallReceive m \<Rightarrow> wf_message m
      | CallReceiveServerSetup m \<Rightarrow> wf_server_setup m
      | CallReceiveClientSetup m v ps \<Rightarrow> wf_client_setup m
      | _ \<Rightarrow> True)"

lemma ep_call_moves: "wf_call c \<Longrightarrow> ep_move\<^sup>*\<^sup>* e (snd (ep_call c e))"
  by (cases c) (auto simp: ep_call_def wf_call_def
      intro!: by_moves_outcome moves_intros receive_message_moves receive_server_setup_moves
        receive_client_setup_moves)

inductive reachable :: "end_role \<Rightarrow> endpoint \<Rightarrow> bool" where
  ReachNew: "reachable r (endpoint_new r)"
| ReachCall: "reachable r e \<Longrightarrow> wf_call c \<Longrightarrow> ep_call c e = (res, e') \<Longrightarrow> reachable r e'"

lemma reachable_moves: "reachable r e \<Longrightarrow> ep_move\<^sup>*\<^sup>* (endpoint_new r) e"
proof (induction rule: reachable.induct)
  case (ReachCall r e c res e')
  with ep_call_moves [of c e] show ?case by auto
qed simp

end
