(* ===== verification/Endpoint07_Inv.thy ===== *)
theory Endpoint07_Inv
  imports Endpoint07_Moves
begin

text \<open>
  What every reachable draft-07 endpoint keeps: its own subscribe ids are below the allocator and
  never used twice, the peer's are below its high-water mark, every live alias names one track, no
  two namespace subscriptions overlap, and the session state agrees with the role. Each is proved
  over the moves of \<open>Endpoint07_Moves\<close> and holds of the code by \<open>reachable_moves\<close>.
\<close>

section \<open>Invariants\<close>

text \<open>\<open>HashMap::contains_key\<close>.\<close>

definition has :: "('k \<times> 'v) list \<Rightarrow> 'k \<Rightarrow> bool" where
  "has m k \<longleftrightarrow> map_of m k \<noteq> None"

lemma has_Nil [simp]: "\<not> has [] k"
  and has_update [simp]: "has (AList.update k v m) k' \<longleftrightarrow> k' = k \<or> has m k'"
  and has_Some [intro]: "map_of m k = Some v \<Longrightarrow> has m k"
  by (auto simp: has_def update_conv')

lemma has_update_old [simp]: "map_of m k = Some v \<Longrightarrow> has (AList.update k v' m) = has m"
  by (intro ext) (auto simp: has_def update_conv')

definition ids_ok :: "endpoint \<Rightarrow> bool" where
  "ids_ok e \<longleftrightarrow>
     wf_allocator (ep_subscribe_ids e) \<and>
     (\<forall>i. has (ep_subscriptions e) i \<longrightarrow> i < sia_next_id (ep_subscribe_ids e)) \<and>
     (\<forall>i. has (ep_fetches e) i \<longrightarrow> i < sia_next_id (ep_subscribe_ids e)) \<and>
     (\<forall>i. has (ep_subscriptions e) i \<longrightarrow> \<not> has (ep_fetches e) i)"

definition seen_by_peer :: "endpoint \<Rightarrow> u64 \<Rightarrow> bool" where
  "seen_by_peer e i \<longleftrightarrow> (case ep_peer_highest e of None \<Rightarrow> False | Some h \<Rightarrow> i \<le> h)"

definition peer_ids_ok :: "endpoint \<Rightarrow> bool" where
  "peer_ids_ok e \<longleftrightarrow>
     (\<forall>i. has (ep_inbound_subscribes e) i \<longrightarrow> seen_by_peer e i) \<and>
     (\<forall>i. has (ep_inbound_fetches e) i \<longrightarrow> seen_by_peer e i) \<and>
     (\<forall>i. has (ep_inbound_subscribes e) i \<longrightarrow> \<not> has (ep_inbound_fetches e) i)"

definition bindings_ok :: "endpoint \<Rightarrow> bool" where
  "bindings_ok e \<longleftrightarrow>
     distinct (map fst (ep_track_bindings e)) \<and>
     (\<forall>i. has (ep_track_bindings e) (Ours, i) \<longleftrightarrow> has (ep_subscriptions e) i) \<and>
     (\<forall>i. has (ep_track_bindings e) (Peers, i) \<longleftrightarrow> has (ep_inbound_subscribes e) i)"

definition aliases_ok :: "endpoint \<Rightarrow> bool" where
  "aliases_ok e \<longleftrightarrow>
     (\<forall>k b k' b'.
        map_of (ep_track_bindings e) k = Some b \<longrightarrow> binding_is_live e k \<longrightarrow>
        map_of (ep_track_bindings e) k' = Some b' \<longrightarrow> binding_is_live e k' \<longrightarrow>
        tb_alias b = tb_alias b' \<longrightarrow>
        tb_namespace b = tb_namespace b' \<and> tb_name b = tb_name b')"

definition no_overlap :: "(namespace_key \<times> 'v) list \<Rightarrow> bool" where
  "no_overlap m \<longleftrightarrow> (\<forall>k k'. has m k \<longrightarrow> has m k' \<longrightarrow> prefixes_overlap k k' \<longrightarrow> k = k')"

definition prefixes_ok :: "endpoint \<Rightarrow> bool" where
  "prefixes_ok e \<longleftrightarrow>
     no_overlap (ep_subscribe_announces e) \<and> no_overlap (ep_inbound_subscribe_announces e)"

definition session_ok :: "end_role \<Rightarrow> endpoint \<Rightarrow> bool" where
  "session_ok r e \<longleftrightarrow>
     ep_role e = r \<and>
     (ep_session e = Draining \<longrightarrow> r = RoleClient \<and> ep_goaway_uri e \<noteq> None) \<and>
     (ep_goaway_uri e \<noteq> None \<longrightarrow>
        r = RoleClient \<and> (ep_session e = Draining \<or> ep_session e = SessClosed)) \<and>
     (\<forall>v. ep_negotiated_version e = Some v \<longrightarrow> v = VarInt DRAFT_VERSION)"

section \<open>Each move keeps them\<close>

lemma allocate_fresh:
  "wf_allocator a \<Longrightarrow> allocate a = Inr (i, a') \<Longrightarrow>
     into_inner i = sia_next_id a \<and> sia_next_id a < sia_next_id a' \<and> wf_allocator a'"
  using allocate_wf [of a i a'] by (auto simp: allocate_Inr word_less_nat_alt)

lemma ids_ok_move: "ep_move e e' \<Longrightarrow> ids_ok e \<Longrightarrow> ids_ok e'"
proof (induction rule: ep_move.induct)
  case (MoveCeiling e m a)
  then show ?case
    using update_max_wf [of "ep_subscribe_ids e" m a] by (auto simp: ids_ok_def)
next
  case (MoveSubscribe e i a b)
  then show ?case
    using allocate_fresh [of "ep_subscribe_ids e" i a]
    by (auto simp: ids_ok_def open_subscription_def dest: less_trans)
next
  case (MoveFetch e i a)
  then show ?case
    using allocate_fresh [of "ep_subscribe_ids e" i a]
    by (auto simp: ids_ok_def dest: less_trans)
qed (auto simp: ids_ok_def accept_subscribe_def Let_def)

lemma seen_by_peer_fresh:
  "fresh_id e i \<Longrightarrow> \<not> seen_by_peer e i"
  "fresh_id e i \<Longrightarrow> seen_by_peer e j \<Longrightarrow> j \<le> i"
  by (auto simp: fresh_id_def seen_by_peer_def split: option.splits)

lemma seen_by_peer_update [simp]: "seen_by_peer (e\<lparr> ep_peer_highest := Some h \<rparr>) i \<longleftrightarrow> i \<le> h"
  by (simp add: seen_by_peer_def)

lemma peer_ids_ok_move: "ep_move e e' \<Longrightarrow> peer_ids_ok e \<Longrightarrow> peer_ids_ok e'"
  by (induction rule: ep_move.induct)
    (auto simp: peer_ids_ok_def open_subscription_def accept_subscribe_def Let_def
      seen_by_peer_def fresh_id_def split: option.splits)

lemma has_bindings_distinct:
  "distinct (map fst m) \<Longrightarrow> distinct (map fst (AList.update k v m))"
  by (rule distinct_update)

lemma bindings_ok_move: "ep_move e e' \<Longrightarrow> bindings_ok e \<Longrightarrow> bindings_ok e'"
  by (induction rule: ep_move.induct)
    (auto simp: bindings_ok_def open_subscription_def accept_subscribe_def Let_def distinct_update)

lemma no_overlap_insert:
  "no_overlap m \<Longrightarrow> \<forall>(k', s) \<in> set m. \<not> prefixes_overlap k' k \<Longrightarrow>
     no_overlap (AList.update k v m)"
  unfolding no_overlap_def has_update
  by (auto simp: has_def prefixes_overlap_def Let_def min.commute dest!: map_of_SomeD)

lemma prefixes_ok_move: "ep_move e e' \<Longrightarrow> prefixes_ok e \<Longrightarrow> prefixes_ok e'"
proof (induction rule: ep_move.induct)
  case (MoveSubscribeAnnounces e k)
  then show ?case by (simp add: prefixes_ok_def no_overlap_insert)
next
  case (MoveInboundSubscribeAnnounces e m)
  then show ?case by (simp add: prefixes_ok_def no_overlap_insert)
qed (auto simp: prefixes_ok_def open_subscription_def accept_subscribe_def Let_def no_overlap_def)

lemma session_ok_move: "ep_move e e' \<Longrightarrow> session_ok r e \<Longrightarrow> session_ok r e'"
  by (induction rule: ep_move.induct)
    (auto simp: session_ok_def open_subscription_def accept_subscribe_def Let_def
      session_op_defs split: if_splits)

section \<open>Aliases\<close>

lemma not_live_again:
  "(s, s') \<in> moves subscription_ops \<Longrightarrow> s \<noteq> SubIdle \<Longrightarrow> live_state (Some s') \<Longrightarrow> live_state (Some s)"
  by (cases s) (auto simp: moves_def subscription_ops_def subscription_op_defs live_state_def)

lemma alias_holder_None:
  "alias_holder e al ns name = None \<Longrightarrow> map_of (ep_track_bindings e) k = Some b \<Longrightarrow>
     binding_is_live e k \<Longrightarrow> tb_alias b = al \<Longrightarrow> tb_namespace b = ns \<and> tb_name b = name"
  by (cases k) (auto simp: alias_holder_def find_None_iff dest!: map_of_SomeD)

lemma aliases_ok_quieter:
  "aliases_ok e \<Longrightarrow> ep_track_bindings e' = ep_track_bindings e \<Longrightarrow>
     (\<And>k. binding_is_live e' k \<Longrightarrow> binding_is_live e k) \<Longrightarrow> aliases_ok e'"
  unfolding aliases_ok_def by metis

lemma aliases_ok_opened:
  assumes ok: "aliases_ok e"
    and free: "alias_holder e (tb_alias b) (tb_namespace b) (tb_name b) = None"
    and bindings: "ep_track_bindings e' = AList.update key b (ep_track_bindings e)"
    and live: "\<And>k. k \<noteq> key \<Longrightarrow> binding_is_live e' k = binding_is_live e k"
  shows "aliases_ok e'"
proof -
  have old: "tb_namespace x = tb_namespace b \<and> tb_name x = tb_name b"
    if "map_of (ep_track_bindings e) k = Some x" "binding_is_live e k" "tb_alias x = tb_alias b"
    for k x
    using alias_holder_None [OF free that] .
  show ?thesis
    unfolding aliases_ok_def
  proof (intro allI impI)
    fix k x k' x'
    assume *: "map_of (ep_track_bindings e') k = Some x" "binding_is_live e' k"
      "map_of (ep_track_bindings e') k' = Some x'" "binding_is_live e' k'"
      "tb_alias x = tb_alias x'"
    show "tb_namespace x = tb_namespace x' \<and> tb_name x = tb_name x'"
    proof (cases "k = key"; cases "k' = key")
      assume "k \<noteq> key" "k' \<noteq> key"
      with * have "map_of (ep_track_bindings e) k = Some x" "binding_is_live e k"
        "map_of (ep_track_bindings e) k' = Some x'" "binding_is_live e k'"
        by (simp_all add: bindings update_conv' live)
      with * ok show ?thesis unfolding aliases_ok_def by blast
    qed (use * old live in \<open>fastforce simp: bindings update_conv'\<close>)+
  qed
qed

lemma live_subscription_update:
  "(s, s') \<in> moves subscription_ops \<Longrightarrow> s \<noteq> SubIdle \<Longrightarrow> map_of (ep_subscriptions e) i = Some s \<Longrightarrow>
     binding_is_live (e\<lparr> ep_subscriptions := AList.update i s' (ep_subscriptions e) \<rparr>) k \<Longrightarrow>
     binding_is_live e k"
  using not_live_again [of s s']
  by (cases k; cases "fst k") (auto simp: binding_is_live_def update_conv' split: if_splits)

lemma live_inbound_update:
  "(in_state s, s') \<in> moves subscription_ops \<Longrightarrow> in_state s \<noteq> SubIdle \<Longrightarrow>
     map_of (ep_inbound_subscribes e) i = Some s \<Longrightarrow>
     binding_is_live (e\<lparr> ep_inbound_subscribes :=
       AList.update i (s\<lparr> in_state := s' \<rparr>) (ep_inbound_subscribes e) \<rparr>) k \<Longrightarrow>
     binding_is_live e k"
  using not_live_again [of "in_state s" s']
  by (cases k; cases "fst k") (auto simp: binding_is_live_def update_conv' split: if_splits)

lemma aliases_ok_move: "ep_move e e' \<Longrightarrow> aliases_ok e \<Longrightarrow> aliases_ok e'"
proof (induction rule: ep_move.induct)
  case (MoveSubscribe e i a b)
  show ?case
    by (rule aliases_ok_opened [OF MoveSubscribe(4,3), where key = "(Ours, into_inner i)"])
      (auto simp: open_subscription_def binding_is_live_def update_conv'
        split: subscribe_side.splits)
next
  case (MoveAccept e msg)
  show ?case
    by (rule aliases_ok_opened [OF MoveAccept(4), where
          b = "\<lparr> tb_namespace = s_track_namespace msg, tb_name = s_track_name msg,
                 tb_alias = into_inner (s_track_alias msg) \<rparr>"
          and key = "(Peers, into_inner (s_subscribe_id msg))"])
      (use MoveAccept(3) in \<open>auto simp: accept_subscribe_def Let_def binding_is_live_def
        update_conv' split: subscribe_side.splits\<close>)
next
  case (MoveSubscription e i s s')
  show ?case
    by (rule aliases_ok_quieter [OF MoveSubscription(4)])
      (use MoveSubscription live_subscription_update in auto)
next
  case (MoveInboundSubscription e i s s')
  show ?case
    by (rule aliases_ok_quieter [OF MoveInboundSubscription(4)])
      (use MoveInboundSubscription live_inbound_update in auto)
qed (erule aliases_ok_quieter,
     auto simp: binding_is_live_def cong: subscribe_side.case_cong)+

section \<open>Every reachable endpoint keeps them\<close>

locale endpoint_invariant =
  fixes I :: "endpoint \<Rightarrow> bool"
  assumes move: "ep_move e e' \<Longrightarrow> I e \<Longrightarrow> I e'"
begin

lemma run: "ep_move\<^sup>*\<^sup>* e e' \<Longrightarrow> I e \<Longrightarrow> I e'"
  by (induction rule: rtranclp_induct) (auto dest: move)

lemma call: "wf_call c \<Longrightarrow> I e \<Longrightarrow> I (snd (ep_call c e))"
  using ep_call_moves run by blast

lemma reached: "I (endpoint_new r) \<Longrightarrow> reachable r e \<Longrightarrow> I e"
  using reachable_moves run by blast

end

interpretation ids: endpoint_invariant ids_ok
  by unfold_locales (rule ids_ok_move)

interpretation peer_ids: endpoint_invariant peer_ids_ok
  by unfold_locales (rule peer_ids_ok_move)

interpretation bindings: endpoint_invariant bindings_ok
  by unfold_locales (rule bindings_ok_move)

interpretation aliases: endpoint_invariant aliases_ok
  by unfold_locales (rule aliases_ok_move)

interpretation prefixes: endpoint_invariant prefixes_ok
  by unfold_locales (rule prefixes_ok_move)

interpretation roles: endpoint_invariant "session_ok r" for r
  by unfold_locales (rule session_ok_move)

lemma new_endpoint_ok:
  "ids_ok (endpoint_new r)" "peer_ids_ok (endpoint_new r)" "bindings_ok (endpoint_new r)"
  "aliases_ok (endpoint_new r)" "prefixes_ok (endpoint_new r)" "session_ok r (endpoint_new r)"
  by (simp_all add: endpoint_new_def ids_ok_def peer_ids_ok_def bindings_ok_def aliases_ok_def
      prefixes_ok_def no_overlap_def session_ok_def session_new_def)

lemma reachable_ok:
  assumes "reachable r e"
  shows "ids_ok e" "peer_ids_ok e" "bindings_ok e" "aliases_ok e" "prefixes_ok e" "session_ok r e"
  using assms new_endpoint_ok [of r] ids.reached peer_ids.reached bindings.reached
    aliases.reached prefixes.reached roles.reached
  by blast+

section \<open>Requests are never forgotten and never go back\<close>

definition advances :: "('s \<Rightarrow> 's \<Rightarrow> bool) \<Rightarrow> ('k \<times> 's) list \<Rightarrow> ('k \<times> 's) list \<Rightarrow> bool" where
  "advances le m m' \<longleftrightarrow>
     (\<forall>k s. map_of m k = Some s \<longrightarrow> (\<exists>s'. map_of m' k = Some s' \<and> le s s'))"

lemma advances_refl: "(\<And>s. le s s) \<Longrightarrow> advances le m m"
  by (auto simp: advances_def)

lemma advances_update:
  "(\<And>s. le s s) \<Longrightarrow> map_of m k = Some s \<Longrightarrow> le s s' \<Longrightarrow> advances le m (AList.update k s' m)"
  by (auto simp: advances_def update_conv')

lemma advances_insert:
  "(\<And>s. le s s) \<Longrightarrow> \<not> has m k \<Longrightarrow> advances le m (AList.update k s' m)"
  by (auto simp: advances_def update_conv' has_def)

text \<open>The order a request's life follows, stated apart from the machines: a subscription is idle, then
  waits, then is active, then done; a fetch is idle, then waits, then receives or has had its stream end
  before its answer, then is done. Stages may be skipped, none is returned to.\<close>

definition sub_le :: "subscription_state \<Rightarrow> subscription_state \<Rightarrow> bool" where
  "sub_le s s' \<longleftrightarrow> s' = s \<or> s = SubIdle
     \<or> (s = Subscribing \<and> (s' = SubActive \<or> s' = SubDone))
     \<or> (s = SubActive \<and> s' = SubDone)"

definition fetch_le :: "fetch_state \<Rightarrow> fetch_state \<Rightarrow> bool" where
  "fetch_le s s' \<longleftrightarrow> s' = s \<or> s = FetchIdle
     \<or> (s = FetchPending \<and> (s' = FetchReceiving \<or> s' = FetchUnanswered \<or> s' = FetchDone))
     \<or> ((s = FetchReceiving \<or> s = FetchUnanswered) \<and> s' = FetchDone)"

lemma le_refl [simp]: "sub_le s s" "fetch_le f f"
  by (simp_all add: sub_le_def fetch_le_def)

lemma le_trans: "sub_le s s' \<Longrightarrow> sub_le s' s'' \<Longrightarrow> sub_le s s''"
    "fetch_le f f' \<Longrightarrow> fetch_le f' f'' \<Longrightarrow> fetch_le f f''"
  by (auto simp: sub_le_def fetch_le_def)

lemma sub_le_move: "(s, s') \<in> moves subscription_ops \<Longrightarrow> sub_le s s'"
  by (cases s) (auto simp: sub_le_def moves_def subscription_ops_def subscription_op_defs)

lemma fetch_le_move: "(f, f') \<in> moves fetch_ops \<Longrightarrow> fetch_le f f'"
  by (cases f) (auto simp: fetch_le_def moves_def fetch_ops_def fetch_op_defs split: if_splits)

lemmas le_move = sub_le_move fetch_le_move

text \<open>What one state of an endpoint says of a later one.\<close>

definition requests_advance :: "endpoint \<Rightarrow> endpoint \<Rightarrow> bool" where
  "requests_advance e e' \<longleftrightarrow>
     advances sub_le (ep_subscriptions e) (ep_subscriptions e') \<and>
     advances fetch_le (ep_fetches e) (ep_fetches e') \<and>
     advances (\<lambda>s s'. in_message s' = in_message s \<and> sub_le (in_state s) (in_state s'))
       (ep_inbound_subscribes e) (ep_inbound_subscribes e') \<and>
     advances (\<lambda>s s'. in_message s' = in_message s \<and> fetch_le (in_state s) (in_state s'))
       (ep_inbound_fetches e) (ep_inbound_fetches e')"

lemma requests_advance_move:
  "ep_move e e' \<Longrightarrow> ids_ok e \<Longrightarrow> peer_ids_ok e \<Longrightarrow> requests_advance e e'"
proof (induction rule: ep_move.induct)
  case (MoveSubscribe e i a b)
  then show ?case
    using allocate_fresh [of "ep_subscribe_ids e" i a]
    by (auto simp: requests_advance_def open_subscription_def ids_ok_def
        intro!: advances_refl advances_insert)
next
  case (MoveFetch e i a)
  then show ?case
    using allocate_fresh [of "ep_subscribe_ids e" i a]
    by (auto simp: requests_advance_def ids_ok_def intro!: advances_refl advances_insert)
next
  case (MoveAccept e msg)
  then show ?case
    using seen_by_peer_fresh(1)
    by (auto simp: requests_advance_def accept_subscribe_def Let_def peer_ids_ok_def
        intro!: advances_refl advances_insert)
next
  case (MoveInboundFetch e m)
  then show ?case
    using seen_by_peer_fresh(1)
    by (auto simp: requests_advance_def peer_ids_ok_def intro!: advances_refl advances_insert)
qed (auto simp: requests_advance_def intro!: advances_refl advances_update intro: le_move)

lemma advances_trans:
  "advances le m m' \<Longrightarrow> advances le m' m'' \<Longrightarrow> (\<And>a b c. le a b \<Longrightarrow> le b c \<Longrightarrow> le a c) \<Longrightarrow>
     advances le m m''"
  unfolding advances_def by (metis (full_types))

lemma requests_advance_trans:
  assumes "requests_advance a b" "requests_advance b c"
  shows "requests_advance a c"
  using assms unfolding requests_advance_def
  by (auto elim!: advances_trans intro: le_trans)

lemma requests_advance_refl: "requests_advance e e"
  by (auto simp: requests_advance_def intro!: advances_refl)

lemma requests_advance_run:
  assumes "ep_move\<^sup>*\<^sup>* e e'" "ids_ok e" "peer_ids_ok e"
  shows "requests_advance e e'"
  using assms
proof (induction rule: rtranclp_induct)
  case base
  show ?case by (rule requests_advance_refl)
next
  case (step y z)
  then show ?case
    using requests_advance_trans requests_advance_move ids.run peer_ids.run by blast
qed

section \<open>The counts never fall\<close>

lemma length_update: "length m \<le> length (AList.update k v m)"
  by (induction m) auto

definition counts_at_least :: "endpoint \<Rightarrow> endpoint \<Rightarrow> bool" where
  "counts_at_least base e \<longleftrightarrow>
     active_subscription_count base \<le> active_subscription_count e \<and>
     active_fetch_count base \<le> active_fetch_count e \<and>
     active_subscribe_announces_count base \<le> active_subscribe_announces_count e \<and>
     active_announce_count base \<le> active_announce_count e \<and>
     active_track_status_count base \<le> active_track_status_count e"

lemma counts_move: "ep_move e e' \<Longrightarrow> counts_at_least base e \<Longrightarrow> counts_at_least base e'"
  by (induction rule: ep_move.induct)
    (auto simp: counts_at_least_def active_subscription_count_def active_fetch_count_def
      active_subscribe_announces_count_def active_announce_count_def active_track_status_count_def
      open_subscription_def accept_subscribe_def Let_def intro: order_trans length_update)

interpretation counts: endpoint_invariant "counts_at_least base" for base
  by unfold_locales (rule counts_move)

lemma counts_refl: "counts_at_least e e"
  by (simp add: counts_at_least_def)

end
