(* ===== verification/Endpoint07_Calls.thy ===== *)
theory Endpoint07_Calls
  imports Endpoint07_Inv
begin

text \<open>
  What single calls on a draft-07 endpoint do, on every branch: which track an alias names, which
  alias is free, when a SUBSCRIBE goes out, when one is accepted, what a refusal does to the session,
  and what is impossible outside an active one.
\<close>

section \<open>Aliases\<close>

lemma track_for_alias_iff:
  assumes "bindings_ok e" "aliases_ok e"
  shows "track_for_alias e a = Some t \<longleftrightarrow>
    (\<exists>k b. map_of (ep_track_bindings e) k = Some b \<and> binding_is_live e k \<and> tb_alias b = a
       \<and> t = (tb_namespace b, tb_name b))"
    (is "_ \<longleftrightarrow> (\<exists>k b. ?P k b)")
proof
  have distinct: "distinct (map fst (ep_track_bindings e))"
    using assms by (simp add: bindings_ok_def)
  {
    assume "track_for_alias e a = Some t"
    then show "\<exists>k b. ?P k b"
      using distinct
      by (fastforce simp: track_for_alias_def find_Some_iff in_set_conv_nth)
  }
  assume "\<exists>k b. ?P k b"
  then obtain k b where kb: "?P k b" by blast
  then have "(k, b) \<in> set (ep_track_bindings e)" by (auto dest: map_of_SomeD)
  then have "find (\<lambda>(k, b). tb_alias b = a \<and> binding_is_live e k) (ep_track_bindings e) \<noteq> None"
    unfolding find_None_iff not_not using kb by (intro exI [of _ "(k, b)"]) simp
  then obtain k' b' where found:
    "find (\<lambda>(k, b). tb_alias b = a \<and> binding_is_live e k) (ep_track_bindings e) = Some (k', b')"
    by auto
  then have "(k', b') \<in> set (ep_track_bindings e)" "tb_alias b' = a" "binding_is_live e k'"
    by (auto simp: find_Some_iff in_set_conv_nth)
  moreover from this have "map_of (ep_track_bindings e) k' = Some b'"
    using distinct by simp
  ultimately have "tb_namespace b' = tb_namespace b \<and> tb_name b' = tb_name b"
    using kb assms(2) unfolding aliases_ok_def by metis
  with found kb show "track_for_alias e a = Some t"
    by (simp add: track_for_alias_def)
qed

lemma free_alias_Some:
  "free_alias n taken c = Some a \<Longrightarrow>
     a \<notin> set taken \<and> (\<exists>j < n. a = c + of_nat j \<and> (\<forall>i < j. c + of_nat i \<in> set taken))"
proof (induction n taken c rule: free_alias.induct)
  case (2 n taken c)
  show ?case
  proof (cases "c \<in> set taken")
    case True
    with 2 obtain j where j: "j < n" "a = c + 1 + of_nat j"
      "\<forall>i < j. c + 1 + of_nat i \<in> set taken" "a \<notin> set taken"
      by auto
    have "\<forall>i < Suc j. c + of_nat i \<in> set taken"
    proof (intro allI impI)
      fix i assume "i < Suc j"
      with j True show "c + of_nat i \<in> set taken"
        by (cases i) (auto simp: add.assoc)
    qed
    with j show ?thesis
      by (intro conjI exI [of _ "Suc j"]) (auto simp: add.assoc)
  qed (use 2 in auto)
qed simp

lemma free_alias_None:
  "free_alias n taken c = None \<Longrightarrow> j < n \<Longrightarrow> c + of_nat j \<in> set taken"
proof (induction n taken c arbitrary: j rule: free_alias.induct)
  case (2 n taken c)
  then show ?case
    by (cases j) (auto simp: add.assoc split: if_splits)
qed simp

text \<open>Among \<open>Suc (length taken)\<close> candidates one is free, so the loop ends within the fuel.\<close>

lemma free_alias_total:
  assumes "length taken < 2 ^ 64"
  shows "free_alias (Suc (length taken)) taken (c :: u64) \<noteq> None"
proof
  assume none: "free_alias (Suc (length taken)) taken c = None"
  let ?f = "\<lambda>j :: nat. c + of_nat j"
  have "inj_on ?f {..< Suc (length taken)}"
    using assms by (auto intro!: inj_onI simp: word_of_nat_eq_iff take_bit_nat_eq_self)
  then have "Suc (length taken) = card (?f ` {..< Suc (length taken)})"
    by (simp add: card_image)
  also have "\<dots> \<le> card (set taken)"
    using free_alias_None [OF none] by (intro card_mono) auto
  also have "\<dots> \<le> length taken"
    by (rule card_length)
  finally show False by simp
qed

lemma next_free_track_alias_ok:
  assumes "length (ep_track_bindings e) < 2 ^ 64"
  shows "\<exists>a. next_free_track_alias e = Some (VarInt a) \<and>
    a \<notin> set (taken_aliases e) \<and> (\<forall>b < a. b \<in> set (taken_aliases e))"
proof -
  have len: "length (taken_aliases e) < 2 ^ 64"
    using le_less_trans [OF length_filter_le assms] by (simp add: taken_aliases_def)
  then obtain a where a: "free_alias (Suc (length (taken_aliases e))) (taken_aliases e) 0 = Some a"
    using free_alias_total by blast
  from free_alias_Some [OF this] obtain j where
    j: "a \<notin> set (taken_aliases e)" "j < Suc (length (taken_aliases e))" "a = of_nat j"
      "\<forall>i < j. of_nat i \<in> set (taken_aliases e)"
    by auto
  have "b \<in> set (taken_aliases e)" if "b < a" for b
  proof -
    have "unat b < j"
      using that j len by (simp add: word_less_nat_alt unat_of_nat take_bit_nat_eq_self)
    then show ?thesis using j(4) by fastforce
  qed
  with a j show ?thesis
    by (auto simp: next_free_track_alias_def from_u64_moqt_def)
qed

lemma untaken_alias_is_free:
  "a \<notin> set (taken_aliases e) \<Longrightarrow> alias_holder e a ns name = None"
  by (force simp: taken_aliases_def alias_holder_def find_None_iff)

section \<open>Opening and accepting\<close>

lemma subscribe_inner_iff:
  "subscribe_inner al ns name prio go ft start stop e = (Inr (i, msg), e') \<longleftrightarrow>
     ep_session e = SessActive \<and> alias_holder e (into_inner al) ns name = None \<and>
     (\<exists>a. allocate (ep_subscribe_ids e) = Inr (i, a) \<and>
        e' = open_subscription (into_inner i)
               \<lparr> tb_namespace = ns, tb_name = name, tb_alias = into_inner al \<rparr> a e) \<and>
     msg = CmSubscribe
       \<lparr> s_subscribe_id = i, s_track_alias = al, s_track_namespace = ns,
         s_track_name = name, s_subscriber_priority = prio, s_group_order = go,
         s_filter_type = ft, s_start_location = start,
         s_end_group = map_option loc_group stop, s_end_object = map_option loc_object stop,
         s_parameters = [] \<rparr>"
  by (auto simp: subscribe_inner_def ep_runs ep_allocate_def on_subscribe_sent_def
      open_subscription_def split: option.splits sum.splits session_state.splits)

lemma receive_subscribe_iff:
  "receive_subscribe msg e = (Inr (), e') \<longleftrightarrow>
     fresh_id e (into_inner (s_subscribe_id msg)) \<and>
     ns_fields (s_track_namespace msg) \<notin> set (ep_announce_cancelled e) \<and>
     alias_holder e (into_inner (s_track_alias msg)) (s_track_namespace msg) (s_track_name msg)
       = None \<and>
     e' = accept_subscribe msg e"
  by (auto simp: receive_subscribe_def Let_def ep_runs validate_peer_subscribe_id_cases
      conflicting_track_alias_def on_subscribe_received_def on_subscribe_sent_def
      accept_subscribe_def fail_session_def split: option.splits sum.splits)

lemma receive_fetch_iff:
  "receive_fetch msg e = (Inr (), e') \<longleftrightarrow>
     fresh_id e (into_inner (f_subscribe_id msg)) \<and>
     e' = e\<lparr> ep_peer_highest := Some (into_inner (f_subscribe_id msg)),
            ep_inbound_fetches := AList.update (into_inner (f_subscribe_id msg))
              \<lparr> in_message = msg, in_state = FetchPending \<rparr> (ep_inbound_fetches e) \<rparr>"
  by (auto simp: receive_fetch_def Let_def ep_runs validate_peer_subscribe_id_cases
      on_fetch_received_def on_fetch_sent_def fail_session_def split: option.splits sum.splits)

lemma live_opened:
  "binding_is_live (open_subscription i b a e) (Ours, i)"
  "binding_is_live (accept_subscribe msg e) (Peers, into_inner (s_subscribe_id msg))"
  by (simp_all add: binding_is_live_def live_state_def open_subscription_def accept_subscribe_def
      Let_def update_conv')

section \<open>Refusals\<close>

text \<open>The step of every handler either moves its machine or changes nothing.\<close>

lemma ep_step_Inl:
  "ep_step get upd missing conv f k e = (Inl err, e') \<longleftrightarrow>
     e' = e \<and> (case map_of (get e) k of None \<Rightarrow> err = missing
               | Some v \<Rightarrow> \<exists>x. f v = Inl x \<and> err = conv x)"
  by (auto simp: ep_step_def split: option.splits sum.splits)

definition closes :: "endpoint \<Rightarrow> endpoint \<Rightarrow> bool" where
  "closes e e' \<longleftrightarrow>
     ep_session e' = SessClosed \<or> ep_session e = Connecting \<and> ep_session e' = Connecting"

lemma fail_session_closes: "fail_session err e = (r, e') \<Longrightarrow> closes e e'"
  by (auto simp: fail_session_def closes_def on_close_def split: if_splits)
    (metis session_state.exhaust)

text \<open>The errors of a message's handler that carry a session error code.\<close>

lemma step_code_None:
  "subscription_step f i e = (Inl err, e') \<Longrightarrow> session_error_code err = None"
  "inbound_subscribe_step (EpUnknownSubscribe j) f i e = (Inl err, e') \<Longrightarrow>
     session_error_code err = None"
  "inbound_subscribe_step (EpUpdateForUnknownSubscribe j) f i e = (Inl err, e') \<Longrightarrow>
     session_error_code err = None"
  "fetch_step g i e = (Inl err, e') \<Longrightarrow> session_error_code err = None"
  "inbound_fetch_step g i e = (Inl err, e') \<Longrightarrow> session_error_code err = None"
  "subscribe_announces_step h ns e = (Inl err, e') \<Longrightarrow> session_error_code err = None"
  "inbound_subscribe_announces_step h ns e = (Inl err, e') \<Longrightarrow> session_error_code err = None"
  "announce_step k ns e = (Inl err, e') \<Longrightarrow> session_error_code err = None"
  "inbound_announce_step k ns e = (Inl err, e') \<Longrightarrow> session_error_code err = None"
  "ep_step get upd EpUnknownTrackStatus EpTrackStatus t key e = (Inl err, e') \<Longrightarrow>
     session_error_code err = None"
  unfolding subscription_step_def inbound_subscribe_step_def fetch_step_def
    inbound_fetch_step_def subscribe_announces_step_def inbound_subscribe_announces_step_def
    announce_step_def inbound_announce_step_def ep_step_Inl
  by (auto simp: session_error_code_def split: option.splits)

lemmas receive_defs =
  receive_subscribe_ok_def receive_subscribe_done_def receive_fetch_ok_def receive_fetch_error_def
  receive_subscribe_announces_ok_def receive_subscribe_announces_error_def
  receive_unsubscribe_announces_def receive_announce_ok_def receive_announce_error_def
  receive_unannounce_def receive_track_status_def receive_unsubscribe_def receive_fetch_cancel_def

lemma active_code_None:
  "ep_bind require_active_or_err k e = (Inl err, e') \<Longrightarrow>
     session_error_code err = None \<or> ep_session e = SessActive \<and> k () e = (Inl err, e')"
  by (auto simp: ep_runs session_error_code_def split: session_state.splits)

lemma opening_code_None:
  "receive_subscribe_announces m1 e = (Inl err, e') \<Longrightarrow> session_error_code err = None"
  "receive_announce m2 e = (Inl err, e') \<Longrightarrow> session_error_code err = None"
  "receive_track_status_request m3 e = (Inl err, e') \<Longrightarrow> session_error_code err = None"
  unfolding receive_subscribe_announces_def receive_announce_def receive_track_status_request_def
  by (auto dest!: active_code_None) (auto simp: ep_runs session_error_code_def
      split: if_splits sum.splits)

lemma receive_announce_cancel_code_None:
  "receive_announce_cancel m e = (Inl err, e') \<Longrightarrow> session_error_code err = None"
  using step_code_None(8) [of on_announce_cancel "ac_track_namespace m" e err e']
  by (auto simp: receive_announce_cancel_def ep_bind_def ep_modify_def session_error_code_def
      split: option.splits if_splits prod.splits sum.splits)

lemma receive_subscribe_closes:
  "receive_subscribe m e = (Inl err, e') \<Longrightarrow> session_error_code err \<noteq> None \<Longrightarrow> closes e e'"
  by (auto simp: receive_subscribe_def Let_def ep_runs validate_peer_subscribe_id_cases
      session_error_code_def on_subscribe_received_def on_subscribe_sent_def
      split: option.splits sum.splits prod.splits if_splits dest!: fail_session_closes)
    (auto simp: closes_def)

lemma receive_message_closes:
  assumes "receive_message m e = (Inl err, e')" "session_error_code err \<noteq> None"
  shows "closes e e'"
  using assms
proof (cases m)
  case (CmGoAway g)
  with assms show ?thesis
    by (auto simp: receive_message_def receive_goaway_def ep_runs on_session_def
        session_error_code_def split: if_splits sum.splits dest: fail_session_closes)
next
  case (CmMaxSubscribeId x)
  with assms show ?thesis
    by (auto simp: receive_message_def receive_max_subscribe_id_def
        split: sum.splits dest: fail_session_closes)
next
  case (CmSubscribe x)
  with assms show ?thesis
    by (auto simp: receive_message_def intro: receive_subscribe_closes)
next
  case (CmSubscribeError x)
  with assms show ?thesis
    by (auto simp: receive_message_def receive_subscribe_error_def Let_def
        split: option.splits dest: fail_session_closes step_code_None)
next
  case (CmSubscribeUpdate x)
  with assms show ?thesis
    by (auto simp: receive_message_def receive_subscribe_update_def Let_def dest: step_code_None)
next
  case (CmFetch x)
  with assms show ?thesis
    by (auto simp: receive_message_def receive_fetch_def Let_def ep_runs
        validate_peer_subscribe_id_cases session_error_code_def on_fetch_received_def
        on_fetch_sent_def split: option.splits sum.splits prod.splits if_splits
        dest!: fail_session_closes)
next
  case (CmAnnounceCancel x)
  with assms show ?thesis
    by (auto simp: receive_message_def dest: receive_announce_cancel_code_None)
qed (auto simp: receive_message_def receive_defs Let_def ep_ret_def
       dest!: step_code_None opening_code_None)

section \<open>What this endpoint's own calls are refused with\<close>

definition uncoded :: "'a ep \<Rightarrow> bool" where
  "uncoded m \<longleftrightarrow> (\<forall>e err e'. m e = (Inl err, e') \<longrightarrow> session_error_code err = None)"

lemma uncodedI: "(\<And>e err e'. m e = (Inl err, e') \<Longrightarrow> session_error_code err = None) \<Longrightarrow> uncoded m"
  by (simp add: uncoded_def)

lemma uncodedD: "uncoded m \<Longrightarrow> m e = (Inl err, e') \<Longrightarrow> session_error_code err = None"
  unfolding uncoded_def by blast

lemma uncoded_bind: "uncoded m \<Longrightarrow> (\<And>x. uncoded (k x)) \<Longrightarrow> uncoded (ep_bind m k)"
  unfolding uncoded_def ep_bind_def by (auto split: prod.splits sum.splits)

lemma uncoded_lift: "(\<And>x. session_error_code (conv x) = None) \<Longrightarrow> uncoded (ep_lift conv r)"
  by (rule uncodedI) (auto simp: ep_lift_def split: sum.splits)

lemma uncoded_step:
  "session_error_code missing = None \<Longrightarrow> (\<And>x. session_error_code (conv x) = None) \<Longrightarrow>
     uncoded (ep_step get upd missing conv f k)"
  by (rule uncodedI) (auto simp: ep_step_Inl split: option.splits)

lemma uncoded_basic:
  "uncoded (ep_ret x)" "uncoded (ep_modify f)" "uncoded require_active_or_err" "uncoded ep_allocate"
  "uncoded (on_session g)"
  by (rule uncodedI; auto simp: ep_ret_def ep_modify_def require_active_or_err_def ep_allocate_def allocate_def
      on_session_def session_error_code_def split: session_state.splits sum.splits if_splits)+

lemma uncoded_fail: "session_error_code err = None \<Longrightarrow> uncoded (ep_fail err)"
  by (rule uncodedI) (auto simp: ep_fail_def)

lemma uncoded_guard:
  "session_error_code err = None \<Longrightarrow> uncoded (\<lambda>e. if t e then (Inl err, e) else (Inr (), e))"
  by (rule uncodedI) (auto split: if_splits)

lemma uncoded_alias:
  "uncoded (\<lambda>e. case alias_holder e a ns name of
      Some (side, held) \<Rightarrow> (Inl (EpTrackAliasInUse a side held), e) | None \<Rightarrow> (Inr (), e))"
  by (rule uncodedI) (auto simp: session_error_code_def split: option.splits)

lemmas uncoded_intros = uncoded_bind uncoded_lift uncoded_step uncoded_basic uncoded_fail uncoded_guard uncoded_alias

lemma coded_none:
  "session_error_code (EpSetup x1) = None" "session_error_code (EpSubscription x2) = None"
  "session_error_code (EpFetch x3) = None" "session_error_code (EpNamespace x4) = None"
  "session_error_code (EpTrackStatus x5) = None" "session_error_code (EpUnknownSubscribe i) = None"
  "session_error_code EpUnknownNamespace = None" "session_error_code EpUnknownPeerNamespace = None"
  "session_error_code EpUnknownPeerNamespaceSubscription = None"
  "session_error_code EpUnknownPeerTrackStatus = None" "session_error_code EpFilterNeedsRange = None"
  "session_error_code EpOwnPrefixOverlap = None"
  by (simp_all add: session_error_code_def)

lemmas own_call_defs =
  ep_connect_def ep_close_def send_client_setup_def record_advertised_max_def Let_def ep_subscribe_def ep_subscribe_range_def
  subscribe_inner_def ep_unsubscribe_def subscription_step_def ep_subscribe_update_def send_subscribe_ok_def
  inbound_subscribe_step_def send_subscribe_error_def send_subscribe_done_def ep_fetch_def ep_fetch_cancel_def
  fetch_step_def on_fetch_stream_fin_def on_fetch_stream_reset_def send_fetch_ok_def inbound_fetch_step_def
  send_fetch_error_def on_peer_fetch_stream_fin_def ep_subscribe_announces_request_def ep_unsubscribe_announces_def
  subscribe_announces_step_def send_subscribe_announces_ok_def inbound_subscribe_announces_step_def
  send_subscribe_announces_error_def ep_announce_def ep_unannounce_def announce_step_def send_announce_ok_def
  inbound_announce_step_def send_announce_error_def ep_announce_cancel_def ep_track_status_request_def send_track_status_def

lemma own_calls_uncoded:
  "uncoded ep_connect" "uncoded ep_close" "uncoded (send_client_setup vs ps)"
  "uncoded (ep_subscribe al ns n prio go ft)" "uncoded (ep_subscribe_range al ns n prio go l l')"
  "uncoded (ep_unsubscribe i)" "uncoded (ep_subscribe_update i sg so eg eo prio ps)"
  "uncoded (send_subscribe_ok i x go ps)" "uncoded (send_subscribe_error i c r al)"
  "uncoded (send_subscribe_done i c r)" "uncoded (ep_fetch ns n prio go sg so eg eo)"
  "uncoded (ep_fetch_cancel i)" "uncoded (on_fetch_stream_fin i)" "uncoded (on_fetch_stream_reset i)"
  "uncoded (send_fetch_ok i go t lg lo ps)" "uncoded (send_fetch_error i c r)"
  "uncoded (on_peer_fetch_stream_fin i)" "uncoded (ep_subscribe_announces_request ns)"
  "uncoded (ep_unsubscribe_announces ns)" "uncoded (send_subscribe_announces_ok ns)"
  "uncoded (send_subscribe_announces_error ns c r)" "uncoded (ep_announce ns)" "uncoded (ep_unannounce ns)"
  "uncoded (send_announce_ok ns)" "uncoded (send_announce_error ns c r)" "uncoded (ep_announce_cancel ns c r)"
  "uncoded (ep_track_status_request ns n)" "uncoded (send_track_status ns n c tg tob)"
  unfolding own_call_defs by (intro uncoded_intros coded_none | simp add: coded_none uncoded_fail; intro conjI impI)+

lemma send_max_uncoded: "uncoded (send_max_subscribe_id m)"
  by (rule uncodedI) (auto simp: send_max_subscribe_id_def Let_def session_error_code_def split: if_splits)

section \<open>What a setup is refused with\<close>

lemma granted_refusal:
  "read_granted_max ps e = (r, e') \<Longrightarrow> ep_session e' = ep_session e
     \<and> (\<forall>err. r = Inl err \<longrightarrow> session_error_code err \<noteq> None \<longrightarrow> (\<exists>a b. err = EpSubscribeId (SidDecreased a b)))"
proof (induction ps arbitrary: e)
  case (Cons p ps)
  then show ?case
    by (auto simp: ep_bind_def ep_fail_def update_max_def session_error_code_def
        split: if_splits option.splits prod.splits sum.splits)
qed (auto simp: ep_ret_def)

lemma coded_bind:
  "ep_bind m k e = (Inl err, e') \<Longrightarrow> session_error_code err \<noteq> None \<Longrightarrow> uncoded m \<Longrightarrow>
     \<exists>x e1. m e = (Inr x, e1) \<and> k x e1 = (Inl err, e')"
  by (auto simp: ep_bind_def split: prod.splits sum.splits dest: uncodedD)

lemma uncoded_negotiate: "uncoded (\<lambda>e. ep_lift EpSetup (f e) e)"
  by (rule uncodedI) (auto simp: ep_lift_def coded_none split: sum.splits)

lemmas setup_uncoded = uncoded_lift [OF coded_none(1)] uncoded_negotiate uncoded_basic

lemma setup_completes: "on_session on_setup_complete e = (Inr (), e1) \<Longrightarrow> ep_session e1 = SessActive"
  by (auto simp: on_session_def on_setup_complete_def split: sum.splits if_splits)

lemma server_setup_refusal:
  assumes "receive_server_setup m e = (Inl err, e')" "session_error_code err \<noteq> None"
  shows "(\<exists>a b. err = EpSubscribeId (SidDecreased a b)) \<and> ep_session e' = SessActive"
proof -
  note c = coded_bind [OF _ assms(2)]
  obtain e1 e2 where "on_session on_setup_complete e1 = (Inr (), e2)" "read_granted_max (ss_parameters m) e2 = (Inl err, e')"
    using assms(1) unfolding receive_server_setup_def
    by (auto dest!: c [OF _ setup_uncoded(1)] c [OF _ setup_uncoded(2)] c [OF _ uncoded_basic(2)] c [OF _ uncoded_basic(5)])
  then show ?thesis using granted_refusal setup_completes assms(2) by metis
qed

lemma client_setup_refusal:
  assumes "receive_client_setup_and_respond_with m v ps e = (Inl err, e')" "session_error_code err \<noteq> None"
  shows "(\<exists>a b. err = EpSubscribeId (SidDecreased a b)) \<and> ep_session e' = ep_session e"
proof -
  have same: "x = (Inr (), e1) \<Longrightarrow> ep_lift EpSetup r e = x \<Longrightarrow> e1 = e" for r :: "setup_error + unit" and x e1
    by (auto simp: ep_lift_def split: sum.splits)
  obtain e1 where e1: "ep_lift EpSetup (validate_client_setup m) e = (Inr (), e1)"
    "ep_bind (read_granted_max (cs_parameters m)) (\<lambda>_.
       ep_bind (ep_lift EpSetup (negotiate_version (cs_supported_versions m) v)) (\<lambda>version.
       ep_bind (ep_modify (\<lambda>e. e\<lparr> ep_negotiated_version := Some version \<rparr>)) (\<lambda>_.
       ep_bind (on_session on_setup_complete) (\<lambda>_.
       ep_bind (record_advertised_max ps) (\<lambda>_.
       ep_ret (CmServerSetup \<lparr> ss_selected_version = version, ss_parameters = ps \<rparr>)))))) e1 = (Inl err, e')"
    using coded_bind [OF assms(1) [unfolded receive_client_setup_and_respond_with_def] assms(2) setup_uncoded(1)] by auto
  have tail: "uncoded (ep_bind (ep_lift EpSetup (negotiate_version (cs_supported_versions m) v)) (\<lambda>version.
       ep_bind (ep_modify (\<lambda>e. e\<lparr> ep_negotiated_version := Some version \<rparr>)) (\<lambda>_.
       ep_bind (on_session on_setup_complete) (\<lambda>_.
       ep_bind (record_advertised_max ps) (\<lambda>_.
       ep_ret (CmServerSetup \<lparr> ss_selected_version = version, ss_parameters = ps \<rparr>))))))"
    unfolding record_advertised_max_def by (intro uncoded_intros coded_none)
  have "read_granted_max (cs_parameters m) e1 = (Inl err, e')"
    using e1(2) uncodedD [OF tail] assms(2)
    by (auto simp: ep_bind_def [of "read_granted_max (cs_parameters m)"] split: prod.splits sum.splits)
  then show ?thesis using granted_refusal same [OF refl] e1(1) assms(2) by metis
qed

section \<open>Every refusal that carries a code\<close>

lemma outcome_Some: "outcome r = (Some err, e') \<longleftrightarrow> r = (Inl err, e')"
  by (auto simp: outcome_def split: prod.splits sum.splits)

lemma uncoded_outcome: "uncoded m \<Longrightarrow> outcome (m e) = (Some err, e') \<Longrightarrow> session_error_code err = None"
  by (auto simp: uncoded_def outcome_Some)

lemma call_refusal:
  assumes "ep_call c e = (Some err, e')" "session_error_code err \<noteq> None"
  shows "case c of
      CallReceive m \<Rightarrow> ep_session e' = SessClosed \<or> ep_session e = Connecting
    | CallReceiveServerSetup m \<Rightarrow> (\<exists>a b. err = EpSubscribeId (SidDecreased a b)) \<and> ep_session e' = SessActive
    | CallReceiveClientSetup m v ps \<Rightarrow> (\<exists>a b. err = EpSubscribeId (SidDecreased a b)) \<and> ep_session e' = ep_session e
    | CallNoteForwarding alias seen \<Rightarrow> (\<exists>first. err = EpMixedForwardingPreference alias first seen) \<and> e' = e
    | _ \<Rightarrow> False"
proof (cases c)
  case (CallReceive m)
  with assms receive_message_closes [of m e err e'] show ?thesis
    by (auto simp: ep_call_def outcome_Some closes_def)
next
  case (CallReceiveServerSetup m)
  with assms server_setup_refusal [of m e err e'] show ?thesis by (simp add: ep_call_def outcome_Some)
next
  case (CallReceiveClientSetup m v ps)
  with assms client_setup_refusal [of m v ps e err e'] show ?thesis by (simp add: ep_call_def outcome_Some)
next
  case (CallNoteForwarding a k)
  with assms show ?thesis
    by (auto simp: ep_call_def outcome_Some note_object_forwarding_preference_def split: option.splits sum.splits)
qed (use assms in \<open>auto simp: ep_call_def dest: uncoded_outcome [OF send_max_uncoded]
    own_calls_uncoded [THEN uncoded_outcome]\<close>)

section \<open>Outside an active session\<close>

text \<open>The calls that open a request of this endpoint.\<close>

definition opens_request :: "ep_call \<Rightarrow> bool" where
  "opens_request c \<longleftrightarrow>
     (case c of
        CallSubscribe _ _ _ _ _ _ \<Rightarrow> True
      | CallSubscribeRange _ _ _ _ _ _ _ \<Rightarrow> True
      | CallSubscribeUpdate _ _ _ _ _ _ _ \<Rightarrow> True
      | CallFetch _ _ _ _ _ _ _ _ \<Rightarrow> True
      | CallSubscribeAnnounces _ \<Rightarrow> True
      | CallAnnounce _ \<Rightarrow> True
      | CallTrackStatusRequest _ _ \<Rightarrow> True
      | _ \<Rightarrow> False)"

lemma inactive_bind:
  "ep_session e \<noteq> SessActive \<Longrightarrow> outcome (ep_bind require_active_or_err k e) =
     (Some (if ep_session e = Draining then EpDraining else EpNotActive), e)"
  by (cases "ep_session e") (simp_all add: ep_runs outcome_def)

lemma inactive_opens_nothing:
  assumes "ep_session e \<noteq> SessActive" "opens_request c"
  shows "snd (ep_call c e) = e \<and> fst (ep_call c e) \<noteq> None"
proof (cases c)
  case (CallSubscribe al ns n p go ft)
  with assms show ?thesis
    by (auto simp: ep_call_def ep_subscribe_def ep_fail_def outcome_def subscribe_inner_def
        ep_runs split: session_state.splits)
next
  case (CallSubscribeRange al ns n p go l l')
  with assms show ?thesis
    by (simp add: ep_call_def ep_subscribe_range_def subscribe_inner_def inactive_bind)
qed (use assms in \<open>simp_all add: opens_request_def ep_call_def ep_subscribe_update_def ep_fetch_def
       ep_subscribe_announces_request_def ep_announce_def ep_track_status_request_def
       inactive_bind\<close>)

section \<open>A close code does not always come with a closed session\<close>

text \<open>\<open>EndpointError::session_error_code\<close> promises that an error with a code has closed the session.
  That is so of every handler of \<open>receive_message\<close> (\<open>receive_message_closes\<close>); it is not so of the
  setup, whose ceiling is read without \<open>fail_session\<close>, nor of an object of the wrong kind, which is
  noted through \<open>&self\<close>.\<close>

definition granted_ten :: endpoint where
  "granted_ten =
     snd (receive_max_subscribe_id \<lparr> ms_subscribe_id = VarInt 10 \<rparr>
       (snd (send_client_setup [VarInt DRAFT_VERSION]
               [KeyValuePair (VarInt 0) (KvpBytes [3])]
         (snd (ep_connect (endpoint_new RoleClient))))))"

definition setup_granting_five :: server_setup where
  "setup_granting_five =
     \<lparr> ss_selected_version = VarInt DRAFT_VERSION,
       ss_parameters = [KeyValuePair (VarInt 0) (KvpBytes [3]),
                        KeyValuePair (VarInt 2) (KvpBytes [5])] \<rparr>"

lemma setup_decrease_keeps_session:
  "fst (receive_server_setup setup_granting_five granted_ten)
     = Inl (EpSubscribeId (SidDecreased 10 5))
   \<and> ep_session (snd (receive_server_setup setup_granting_five granted_ten)) = SessActive"
  by code_simp

lemma mixed_preference_keeps_session:
  "note_object_forwarding_preference alias seen e = (Inl err, e') \<Longrightarrow>
     e' = e \<and> session_error_code err = Some SecProtocolViolation"
  by (auto simp: note_object_forwarding_preference_def session_error_code_def
      split: option.splits sum.splits)

text \<open>The version is written down before the session accepts the setup: a SERVER_SETUP that comes
  before \<open>connect\<close> is refused and leaves it behind.\<close>

lemma version_before_setup:
  "let e = snd (send_client_setup [VarInt DRAFT_VERSION]
                  [KeyValuePair (VarInt 0) (KvpBytes [3])] (endpoint_new RoleClient));
       (r, e') = receive_server_setup setup_granting_five e
   in r = Inl (EpSession (SessInvalidTransition Connecting SessActive))
      \<and> ep_session e' = Connecting \<and> ep_negotiated_version e' = Some (VarInt DRAFT_VERSION)"
  by code_simp

section \<open>Requests of the peer are answered once\<close>

lemma inbound_step_Inr:
  "inbound_subscribe_step missing f i e = (Inr (), e') \<longleftrightarrow>
     (\<exists>s t. map_of (ep_inbound_subscribes e) i = Some s \<and> f (in_state s) = Inr t \<and>
        e' = e\<lparr> ep_inbound_subscribes :=
               AList.update i (s\<lparr> in_state := t \<rparr>) (ep_inbound_subscribes e) \<rparr>)"
proof (cases "map_of (ep_inbound_subscribes e) i")
  case (Some s)
  then show ?thesis
    by (cases "f (in_state s)") (auto simp: inbound_subscribe_step_def ep_step_def on_state_def)
qed (simp add: inbound_subscribe_step_def ep_step_def)

lemma send_subscribe_ok_iff:
  "send_subscribe_ok i x go ps e = (Inr msg, e') \<longleftrightarrow>
     (\<exists>m. pending_subscribe e i = Some m \<and>
        e' = e\<lparr> ep_inbound_subscribes := AList.update (into_inner i)
               \<lparr> in_message = m, in_state = SubActive \<rparr> (ep_inbound_subscribes e) \<rparr>) \<and>
     msg = CmSubscribeOk
        \<lparr> so_subscribe_id = i, so_expires = x, so_group_order = go,
          so_content_exists = NoLargestLocation, so_largest_group_id = None,
          so_largest_object_id = None, so_parameters = ps \<rparr>"
proof (cases "map_of (ep_inbound_subscribes e) (into_inner i)")
  case (Some s)
  then show ?thesis
    by (cases s) (auto simp: send_subscribe_ok_def Let_def ep_bind_def ep_ret_def
        inbound_subscribe_step_def ep_step_def on_state_def pending_subscribe_def
        on_subscribe_ok_sent_def on_subscribe_ok_def)
qed (simp add: send_subscribe_ok_def Let_def ep_bind_def inbound_subscribe_step_def ep_step_def
      pending_subscribe_def)

end
