(* ===== verification/Client_Properties.thy ===== *)
theory Client_Properties
  imports Endpoint07_Calls "HOL-Library.Sublist"
begin

text \<open>
  The properties of the client crate's draft-07 endpoint and of the tables beside it, each with a
  run of a concrete session where it has hypotheses.
\<close>

section \<open>A concrete session\<close>

text \<open>A client that connects, is granted ten subscriptions and ten for its peer, subscribes to one
  track and is asked for another.\<close>

fun run :: "ep_call list \<Rightarrow> endpoint \<Rightarrow> endpoint" where
  "run [] e = e"
| "run (c # cs) e = run cs (snd (ep_call c e))"

lemma run_reachable: "reachable r e \<Longrightarrow> list_all wf_call cs \<Longrightarrow> reachable r (run cs e)"
proof (induction cs arbitrary: e)
  case (Cons c cs)
  then have "reachable r (snd (ep_call c e))"
    using ReachCall [of r e c] by (cases "ep_call c e") auto
  with Cons show ?case by simp
qed simp

definition demo_parameters :: "key_value_pair list" where
  "demo_parameters =
     [KeyValuePair (VarInt 0) (KvpBytes [3]), KeyValuePair (VarInt 2) (KvpBytes [10])]"

definition demo_namespace :: track_namespace where
  "demo_namespace = TrackNamespace [[1, 2], [3]]"

definition demo_request :: subscribe where
  "demo_request =
     \<lparr> s_subscribe_id = VarInt 0, s_track_alias = VarInt 4, s_track_namespace = demo_namespace,
       s_track_name = [9], s_subscriber_priority = 1, s_group_order = GoAscending,
       s_filter_type = NextGroupStart, s_start_location = None, s_end_group = None,
       s_end_object = None, s_parameters = [] \<rparr>"

definition demo_calls :: "ep_call list" where
  "demo_calls =
     [CallConnect, CallSendClientSetup [VarInt DRAFT_VERSION] demo_parameters,
      CallReceiveServerSetup
        \<lparr> ss_selected_version = VarInt DRAFT_VERSION, ss_parameters = demo_parameters \<rparr>]"

definition active :: endpoint where
  "active = run demo_calls (endpoint_new RoleClient)"

definition subscribed :: endpoint where
  "subscribed =
     run [CallSubscribe (VarInt 0) demo_namespace [7] 1 GoAscending NextGroupStart,
          CallReceive (CmSubscribe demo_request)] active"

lemma demo_wf:
  "wf_kvp_list_d07 demo_parameters" "wf_subscribe demo_request"
  by (simp_all add: demo_parameters_def demo_request_def demo_namespace_def wf_kvp_list_d07_def
      wf_kvp_d07_def wf_varint_def MAX_VARINT_def wf_subscribe_def wf_ns_def wf_bytes_def)

lemma active_reachable: "reachable RoleClient active"
  unfolding active_def demo_calls_def
  by (rule run_reachable [OF ReachNew])
    (simp add: wf_call_def wf_server_setup_def demo_wf wf_varint_def MAX_VARINT_def DRAFT_VERSION_def)

lemma subscribed_reachable: "reachable RoleClient subscribed"
  unfolding subscribed_def
  by (rule run_reachable [OF active_reachable]) (simp add: wf_call_def wf_message_def demo_wf)

section \<open>Sessions\<close>

text \<open>C2. Whatever the application calls and whatever well-formed message the peer sends, a call on
  an endpoint is a sequence of the moves that \<open>ep_move\<close> allows: the endpoint implements its
  specification.\<close>

theorem session_refines_moves:
  assumes "wf_call c" and "ep_call c e = (r, e')"
  shows "ep_move\<^sup>*\<^sup>* e e'"
  using ep_call_moves [OF assms(1), of e] assms(2) by simp

theorem session_refines_moves_witness:
  "ep_move\<^sup>*\<^sup>* active (snd (ep_call (CallReceive (CmSubscribe demo_request)) active))"
  by (rule session_refines_moves [of "CallReceive (CmSubscribe demo_request)" active
        "fst (ep_call (CallReceive (CmSubscribe demo_request)) active)"])
    (simp_all add: wf_call_def wf_message_def demo_wf)

text \<open>C3. In every session a Track Alias names one track: the track an endpoint finds for an alias is
  the track of each live subscription, of either end, that uses the alias, in whatever order the
  table of bindings is walked.\<close>

theorem alias_names_one_track:
  assumes "reachable r e"
  shows "track_for_alias e a = Some (ns, name) \<longleftrightarrow>
    (\<exists>key b. map_of (ep_track_bindings e) key = Some b \<and> binding_is_live e key \<and>
       tb_alias b = a \<and> tb_namespace b = ns \<and> tb_name b = name)"
  using track_for_alias_iff [OF reachable_ok(3,4) [OF assms], of a "(ns, name)"] by auto

lemma subscribed_alias: "track_for_alias subscribed 4 = Some (demo_namespace, [9])"
  by code_simp

theorem alias_names_one_track_witness:
  "\<exists>key b. map_of (ep_track_bindings subscribed) key = Some b \<and> binding_is_live subscribed key \<and>
     tb_alias b = 4 \<and> tb_namespace b = demo_namespace \<and> tb_name b = [9]"
  using alias_names_one_track [OF subscribed_reachable, of 4 demo_namespace "[9]"] subscribed_alias
  by blast

text \<open>C6. No call ever forgets a subscription or a fetch, of either end, changes the message that
  opened it, or moves its state back in the order \<open>SubIdle\<close>, \<open>Subscribing\<close>, \<open>SubActive\<close>, \<open>SubDone\<close>
  (a fetch: \<open>FetchIdle\<close>, \<open>FetchPending\<close>, \<open>FetchReceiving\<close> or \<open>FetchUnanswered\<close>, \<open>FetchDone\<close>): what
  was answered never waits again, what ended never lives again.\<close>

theorem requests_only_advance:
  assumes "reachable r e" and "wf_call c" and "ep_call c e = (res, e')"
  shows "requests_advance e e'"
  using requests_advance_run [OF ep_call_moves [OF assms(2), of e]] reachable_ok [OF assms(1)]
    assms(3) by simp

theorem requests_only_advance_witness:
  "requests_advance active (snd (ep_call (CallReceive (CmSubscribe demo_request)) active))"
  by (rule requests_only_advance [OF active_reachable, of "CallReceive (CmSubscribe demo_request)"
        "fst (ep_call (CallReceive (CmSubscribe demo_request)) active)"])
    (simp_all add: wf_call_def wf_message_def demo_wf)

text \<open>A SUBSCRIBE this endpoint sends carries a subscribe id that is below the peer's ceiling and
  that no subscription or fetch of the session ever had; from then on the subscription waits for
  its answer and its alias names its track.\<close>

theorem subscribe_opens_fresh:
  assumes reach: "reachable r e"
    and sent: "ep_subscribe al ns name prio go ft e = (Inr (i, msg), e')"
  shows "ep_session e = SessActive \<and> ft \<noteq> AbsoluteStart \<and> ft \<noteq> AbsoluteRange
    \<and> into_inner i < sia_max_id (ep_subscribe_ids e)
    \<and> \<not> has (ep_subscriptions e) (into_inner i) \<and> \<not> has (ep_fetches e) (into_inner i)
    \<and> map_of (ep_subscriptions e') (into_inner i) = Some Subscribing
    \<and> track_for_alias e' (into_inner al) = Some (ns, name)
    \<and> (\<exists>m. msg = CmSubscribe m \<and> s_subscribe_id m = i \<and> s_track_alias m = al
          \<and> s_track_namespace m = ns \<and> s_track_name m = name \<and> s_filter_type m = ft)"
proof -
  have ft: "ft \<noteq> AbsoluteStart" "ft \<noteq> AbsoluteRange"
    and inner: "subscribe_inner al ns name prio go ft None None e = (Inr (i, msg), e')"
    using sent by (auto simp: ep_subscribe_def ep_fail_def split: if_splits)
  let ?b = "\<lparr> tb_namespace = ns, tb_name = name, tb_alias = into_inner al \<rparr>"
  from inner obtain a where a: "ep_session e = SessActive"
      "allocate (ep_subscribe_ids e) = Inr (i, a)" "e' = open_subscription (into_inner i) ?b a e"
      and msg: "\<exists>m. msg = CmSubscribe m \<and> s_subscribe_id m = i \<and> s_track_alias m = al
          \<and> s_track_namespace m = ns \<and> s_track_name m = name \<and> s_filter_type m = ft"
    by (auto simp: subscribe_inner_iff)
  have ids: "ids_ok e" using reachable_ok [OF reach] by simp
  then have i: "into_inner i = sia_next_id (ep_subscribe_ids e)"
      "into_inner i < sia_max_id (ep_subscribe_ids e)"
    using a(2) by (auto simp: ids_ok_def allocate_Inr)
  have "ep_call (CallSubscribe al ns name prio go ft) e = (None, e')"
    using sent by (simp add: ep_call_def outcome_def)
  then have "reachable r e'"
    using ReachCall [OF reach, of "CallSubscribe al ns name prio go ft"] by (simp add: wf_call_def)
  note reachable_ok(3,4) [OF this]
  then have "track_for_alias e' (into_inner al) = Some (ns, name)"
    using track_for_alias_iff [of e' "into_inner al" "(ns, name)"]
      live_opened(1) [of "into_inner i" ?b a e] a(3)
    by (auto simp: open_subscription_def update_conv' intro!: exI [of _ "(Ours, into_inner i)"])
  moreover have "map_of (ep_subscriptions e') (into_inner i) = Some Subscribing"
    by (simp add: a(3) open_subscription_def update_conv')
  ultimately show ?thesis
    using ft a(1) i ids msg by (auto simp: ids_ok_def)
qed

theorem subscribe_opens_fresh_witness:
  "\<not> has (ep_subscriptions subscribed) 1"
proof -
  have "(case ep_subscribe (VarInt 1) demo_namespace [8] 0 GoAscending NextGroupStart subscribed of
      (Inr (i, msg), e') \<Rightarrow> i = VarInt 1 | _ \<Rightarrow> False)"
    by code_simp
  then obtain msg e' where
    "ep_subscribe (VarInt 1) demo_namespace [8] 0 GoAscending NextGroupStart subscribed
       = (Inr (VarInt 1, msg), e')"
    by (auto split: prod.splits sum.splits)
  from subscribe_opens_fresh [OF subscribed_reachable this] show ?thesis by simp
qed

text \<open>A SUBSCRIBE of the peer is accepted exactly when its id is below the ceiling this endpoint
  advertised and above every id the peer used before, its namespace was not cancelled, and its
  alias names no other track; it is then recorded as waiting for an answer.\<close>

theorem subscribe_accepted_iff:
  "receive_message (CmSubscribe msg) e = (Inr (), e') \<longleftrightarrow>
     into_inner (s_subscribe_id msg) < ep_advertised_max_id e \<and>
     (ep_peer_highest e = None \<or> the (ep_peer_highest e) < into_inner (s_subscribe_id msg)) \<and>
     ns_fields (s_track_namespace msg) \<notin> set (ep_announce_cancelled e) \<and>
     alias_holder e (into_inner (s_track_alias msg)) (s_track_namespace msg) (s_track_name msg)
       = None \<and>
     e' = accept_subscribe msg e"
  by (auto simp: receive_message_def receive_subscribe_iff fresh_id_def split: option.splits)

text \<open>C38. In every session, an id the peer opens a request with was never the id of another request of
  the peer, and the new request leaves the earlier ones as they were.\<close>

theorem peer_requests_distinct:
  assumes "reachable r e" and "receive_message (CmSubscribe msg) e = (Inr (), e')"
  shows "\<not> has (ep_inbound_subscribes e) (into_inner (s_subscribe_id msg))
    \<and> \<not> has (ep_inbound_fetches e) (into_inner (s_subscribe_id msg))
    \<and> (\<forall>i. has (ep_inbound_subscribes e) i \<or> has (ep_inbound_fetches e) i
          \<longrightarrow> i < into_inner (s_subscribe_id msg))
    \<and> ep_inbound_fetches e' = ep_inbound_fetches e
    \<and> (\<forall>i. i \<noteq> into_inner (s_subscribe_id msg) \<longrightarrow>
          map_of (ep_inbound_subscribes e') i = map_of (ep_inbound_subscribes e) i)"
proof -
  have fresh: "fresh_id e (into_inner (s_subscribe_id msg))" and e': "e' = accept_subscribe msg e"
    using assms(2) by (auto simp: receive_message_def receive_subscribe_iff)
  have ok: "peer_ids_ok e" using reachable_ok [OF assms(1)] by simp
  have "i < into_inner (s_subscribe_id msg)"
    if "has (ep_inbound_subscribes e) i \<or> has (ep_inbound_fetches e) i" for i
  proof -
    have "seen_by_peer e i" using that ok by (auto simp: peer_ids_ok_def)
    then show ?thesis
      using fresh by (auto simp: seen_by_peer_def fresh_id_def split: option.splits)
  qed
  then show ?thesis
    by (auto simp: e' accept_subscribe_def Let_def update_conv')
qed

theorem peer_requests_distinct_witness:
  "\<not> has (ep_inbound_subscribes active) 0 \<and> \<not> has (ep_inbound_fetches active) 0"
proof -
  have "(case receive_message (CmSubscribe demo_request) active of (Inr u, e') \<Rightarrow> True | _ \<Rightarrow> False)"
    by code_simp
  then obtain e' where "receive_message (CmSubscribe demo_request) active = (Inr (), e')"
    by (auto split: prod.splits sum.splits)
  from peer_requests_distinct [OF active_reachable this] show ?thesis
    by (simp add: demo_request_def)
qed

text \<open>C39. Over every call on an endpoint: a control message refused with an error that carries a session
  error code has closed the session by the time the error is returned, unless the session had not begun;
  this endpoint's own calls are never refused with such an error; and there are two exceptions: a setup
  that lowers a ceiling already granted, which leaves the session as it stands, and an object of the wrong
  kind, which leaves the whole endpoint as it was.\<close>

theorem refusal_with_code_closes:
  assumes "ep_call c e = (Some err, e')" and "session_error_code err = Some code"
  shows "case c of
      CallReceive m \<Rightarrow> ep_session e' = SessClosed \<or> ep_session e = Connecting
    | CallReceiveServerSetup m \<Rightarrow> (\<exists>a b. err = EpSubscribeId (SidDecreased a b)) \<and> ep_session e' = SessActive
    | CallReceiveClientSetup m v ps \<Rightarrow> (\<exists>a b. err = EpSubscribeId (SidDecreased a b)) \<and> ep_session e' = ep_session e
    | CallNoteForwarding alias seen \<Rightarrow> (\<exists>first. err = EpMixedForwardingPreference alias first seen) \<and> e' = e
    | _ \<Rightarrow> False"
  using call_refusal [OF assms(1)] assms(2) by simp

theorem refusal_with_code_closes_witness:
  "ep_session (snd (ep_call (CallReceive (CmMaxSubscribeId \<lparr> ms_subscribe_id = VarInt 3 \<rparr>)) active))
     = SessClosed"
proof -
  let ?r = "ep_call (CallReceive (CmMaxSubscribeId \<lparr> ms_subscribe_id = VarInt 3 \<rparr>)) active"
  have "(case ?r of (Some err, e') \<Rightarrow> session_error_code err = Some SecProtocolViolation | _ \<Rightarrow> False)
      \<and> ep_session active = SessActive"
    by code_simp
  then obtain err e' where r: "?r = (Some err, e')"
      "session_error_code err = Some SecProtocolViolation" "ep_session active = SessActive"
    by (auto split: prod.splits option.splits)
  from refusal_with_code_closes [OF r(1,2)] show ?thesis
    by (simp add: r(1,3))
qed

text \<open>The allocator of a session never panics: every id it gave is below its next one, no id serves
  two requests, and the next one fits a varint.\<close>

theorem allocator_never_panics:
  assumes "reachable r e"
  shows "allocate (ep_subscribe_ids e) \<noteq> Inl SidPanic
    \<and> (\<forall>i. has (ep_subscriptions e) i \<or> has (ep_fetches e) i
          \<longrightarrow> i < sia_next_id (ep_subscribe_ids e))
    \<and> (\<forall>i. \<not> (has (ep_subscriptions e) i \<and> has (ep_fetches e) i))"
  using reachable_ok(1) [OF assms] allocate_no_panic by (auto simp: ids_ok_def)

theorem allocator_never_panics_witness: "allocate (ep_subscribe_ids subscribed) \<noteq> Inl SidPanic"
  using allocator_never_panics [OF subscribed_reachable] by simp

lemma prefixes_overlap_iff: "prefixes_overlap a b \<longleftrightarrow> prefix a b \<or> prefix b a"
proof -
  have take: "take (length a) b = a \<longleftrightarrow> prefix a b" for a b :: "bytes list"
    by (metis append_take_drop_id prefix_def append_eq_conv_conj)
  have same: "prefix b a \<Longrightarrow> length a \<le> length b \<Longrightarrow> a = b"
    by (auto simp: prefix_def)
  show ?thesis
    using same by (cases "length a \<le> length b")
      (auto simp: prefixes_overlap_def Let_def min_def eq_commute [of a] take
        dest: prefix_length_le)
qed

lemma active_announces: "ep_session active = SessActive"
  by code_simp

text \<open>In every session no two namespace subscriptions of the same end overlap: of two recorded
  prefixes, neither is a prefix of the other.\<close>

theorem namespace_subscriptions_disjoint:
  assumes "reachable r e"
    and "has (ep_subscribe_announces e) k \<and> has (ep_subscribe_announces e) k'
      \<or> has (ep_inbound_subscribe_announces e) k \<and> has (ep_inbound_subscribe_announces e) k'"
    and "k \<noteq> k'"
  shows "\<not> prefix k k'"
  using reachable_ok(5) [OF assms(1)] assms(2,3)
  by (auto simp: prefixes_ok_def no_overlap_def prefixes_overlap_iff)

definition watching :: endpoint where
  "watching =
     run [CallSubscribeAnnounces (TrackNamespace [[1], [2]]),
          CallSubscribeAnnounces (TrackNamespace [[1], [3]]),
          CallSubscribeAnnounces (TrackNamespace [[1]])] active"

lemma watching_reachable: "reachable RoleClient watching"
  unfolding watching_def by (rule run_reachable [OF active_reachable]) (simp add: wf_call_def)

theorem namespace_subscriptions_disjoint_witness: "\<not> has (ep_subscribe_announces watching) [[1]]"
proof
  assume one: "has (ep_subscribe_announces watching) [[1]]"
  have "has (ep_subscribe_announces watching) [[1], [2]]"
    by code_simp
  with one namespace_subscriptions_disjoint [OF watching_reachable, of "[[1]]" "[[1], [2]]"]
  show False by simp
qed

text \<open>A server is never asked to drain, a client drains only with the URI of the GOAWAY, a URI is
  kept only while draining or closed, and the version negotiated is draft-07's.\<close>

theorem session_state_consistent:
  assumes "reachable r e"
  shows "ep_role e = r
    \<and> (r = RoleServer \<longrightarrow> ep_session e \<noteq> Draining \<and> ep_goaway_uri e = None)
    \<and> (ep_session e = Draining \<longrightarrow> ep_goaway_uri e \<noteq> None)
    \<and> (ep_goaway_uri e \<noteq> None \<longrightarrow> ep_session e = Draining \<or> ep_session e = SessClosed)
    \<and> ep_negotiated_version e \<in> {None, Some (VarInt DRAFT_VERSION)}"
  using reachable_ok(6) [OF assms]
  by (cases "ep_negotiated_version e"; cases r) (auto simp: session_ok_def)

theorem session_state_consistent_witness:
  "ep_negotiated_version active \<in> {None, Some (VarInt DRAFT_VERSION)}"
  using session_state_consistent [OF active_reachable] by blast

text \<open>Outside an active session every call that would open or update a request of this endpoint is
  refused and changes nothing.\<close>

theorem inactive_session_opens_nothing:
  assumes "ep_session e \<noteq> SessActive" and "opens_request c"
  shows "\<exists>err. ep_call c e = (Some err, e)"
  using inactive_opens_nothing [OF assms] by (cases "ep_call c e") auto

theorem inactive_session_opens_nothing_witness:
  "\<exists>err. ep_call (CallFetch demo_namespace [7] 0 GoAscending (VarInt 0) (VarInt 0) (VarInt 1) (VarInt 0))
     (endpoint_new RoleServer) = (Some err, endpoint_new RoleServer)"
  by (rule inactive_session_opens_nothing)
    (simp_all add: endpoint_new_def session_new_def opens_request_def)

text \<open>The search for a free Track Alias ends with the least alias that no live subscription uses,
  and a SUBSCRIBE with it is never refused for its alias.\<close>

theorem free_alias_found:
  assumes "length (ep_track_bindings e) < 2 ^ 64"
  shows "\<exists>a. next_free_track_alias e = Some (VarInt a)
    \<and> (\<forall>ns name. alias_holder e a ns name = None)
    \<and> (\<forall>b < a. b \<in> set (taken_aliases e))"
  using next_free_track_alias_ok [OF assms] untaken_alias_is_free by blast

theorem free_alias_found_witness: "\<exists>a. next_free_track_alias subscribed = Some (VarInt a)"
proof -
  have "ep_track_bindings subscribed =
      [((Ours, 0), \<lparr> tb_namespace = demo_namespace, tb_name = [7], tb_alias = 0 \<rparr>),
       ((Peers, 0), \<lparr> tb_namespace = demo_namespace, tb_name = [9], tb_alias = 4 \<rparr>)]"
    by code_simp
  then show ?thesis
    using free_alias_found [of subscribed] by auto
qed

text \<open>An answer to a SUBSCRIBE of the peer is built exactly when that SUBSCRIBE waits for one, and
  then it no longer does: no request is answered twice.\<close>

theorem answered_once:
  "(\<exists>msg. send_subscribe_ok i x go ps e = (Inr msg, e')) \<longleftrightarrow>
     (\<exists>m. pending_subscribe e i = Some m \<and> pending_subscribe e' i = None \<and>
        e' = e\<lparr> ep_inbound_subscribes := AList.update (into_inner i)
               \<lparr> in_message = m, in_state = SubActive \<rparr> (ep_inbound_subscribes e) \<rparr>)"
  by (auto simp: send_subscribe_ok_iff pending_subscribe_def update_conv')

section \<open>Machines and tables\<close>

text \<open>None of the six state machines of a draft-07 session ever returns to a state it left, and
  each stays in its last state for good.\<close>

theorem machines_never_go_back:
  "antisym ((moves session_ops)\<^sup>*) \<and> (moves session_ops)\<^sup>* `` {SessClosed} = {SessClosed}
   \<and> antisym ((moves subscription_ops)\<^sup>*) \<and> (moves subscription_ops)\<^sup>* `` {SubDone} = {SubDone}
   \<and> antisym ((moves fetch_ops)\<^sup>*) \<and> (moves fetch_ops)\<^sup>* `` {FetchDone} = {FetchDone}
   \<and> antisym ((moves sas_ops)\<^sup>*) \<and> (moves sas_ops)\<^sup>* `` {SasDone} = {SasDone}
   \<and> antisym ((moves ann_ops)\<^sup>*) \<and> (moves ann_ops)\<^sup>* `` {AnnDone} = {AnnDone}
   \<and> antisym ((moves tss_ops)\<^sup>*) \<and> (moves tss_ops)\<^sup>* `` {TssDone} = {TssDone}"
  by (intro conjI session.antisym_run session.terminal_run subscription.antisym_run
      subscription.terminal_run fetch_flow.antisym_run fetch_flow.terminal_run sas.antisym_run
      sas.terminal_run ann.antisym_run ann.terminal_run tss.antisym_run tss.terminal_run)

text \<open>A fetch is over when it has been both answered and delivered, whichever comes first: after
  the stream's end alone, or FETCH_OK alone, it is not done.\<close>

theorem fetch_done_needs_both:
  "and_then (on_fetch_ok FetchPending) on_stream_fin = Inr FetchDone
   \<and> and_then (on_stream_fin FetchPending) on_fetch_ok = Inr FetchDone
   \<and> on_fetch_ok FetchPending \<noteq> Inr FetchDone \<and> on_stream_fin FetchPending \<noteq> Inr FetchDone"
  using fetch_ends_either_order by (simp add: on_fetch_ok_def on_stream_fin_def)

text \<open>The table of forwarding preferences accepts a sequence of observations exactly when each
  track in it is framed one way throughout, and the way it was framed before.\<close>

theorem preferences_single_valued:
  "(\<exists>t'. pref_observe_all t obs = Inr t') \<longleftrightarrow>
     (\<forall>k p. (k, p) \<in> set obs \<longrightarrow>
        (map_of t k = None \<or> map_of t k = Some p) \<and> (\<forall>q. (k, q) \<in> set obs \<longrightarrow> p = q))"
  by (rule pref_observe_all_iff)

theorem preferences_single_valued_witness:
  "\<exists>t'. pref_observe_all []
     [(TrackKey demo_namespace [1], OfpSubgroup), (TrackKey demo_namespace [2], OfpDatagram),
      (TrackKey demo_namespace [1], OfpSubgroup)] = Inr t'"
  by (rule iffD2 [OF preferences_single_valued]) auto

text \<open>Once a track's last object is known, no object of the track that is accepted lies past it,
  and of all objects produced on the track the furthest is the one remembered.\<close>

theorem objects_within_track:
  assumes "note_all t objs = Inr t'"
  shows "(\<forall>k at r f. final_of t k = Some f \<and> (k, at, r) \<in> set objs \<longrightarrow> \<not> past at f)
    \<and> (\<forall>k at. (k, at, Produced) \<in> set objs
          \<longrightarrow> (\<exists>m. reached_of t' k = Some m \<and> \<not> past at m))
    \<and> (\<forall>k m. reached_of t' k = Some m
          \<longrightarrow> reached_of t k = Some m \<or> (k, m, Produced) \<in> set objs)"
  using note_all_not_past [OF assms] note_all_reached [OF assms] by metis

theorem objects_within_track_witness:
  "\<not> past (ObjectLocation 2 7) (ObjectLocation 3 0)"
proof -
  let ?k = "TrackKey demo_namespace [1]"
  have "(case note_all (note_final_object [] ?k (ObjectLocation 3 0))
      [(?k, ObjectLocation 2 7, Produced), (?k, ObjectLocation 1 9, Produced)] of
      Inr t' \<Rightarrow> final_of (note_final_object [] ?k (ObjectLocation 3 0)) ?k
        = Some (ObjectLocation 3 0) | _ \<Rightarrow> False)"
    by code_simp
  then obtain t' where t': "note_all (note_final_object [] ?k (ObjectLocation 3 0))
      [(?k, ObjectLocation 2 7, Produced), (?k, ObjectLocation 1 9, Produced)] = Inr t'"
    and final: "final_of (note_final_object [] ?k (ObjectLocation 3 0)) ?k = Some (ObjectLocation 3 0)"
    by (auto split: sum.splits)
  from objects_within_track [OF t'] final show ?thesis by fastforce
qed

end
