(* ===== verification/Draft07_Sessions.thy ===== *)
theory Draft07_Sessions
  imports Endpoint07_Calls
begin

text \<open>
  Two draft-07 endpoints and the wire between them: what one end builds, encoded by
  \<open>ControlMessage::encode\<close>, read back by \<open>ControlMessage::decode\<close> and handed to the other end. The
  setup exchange leaves both ends active with the same version and matching ceilings; a SUBSCRIBE
  one end opens is accepted by the other, and its answer settles the subscription.
\<close>

section \<open>Ceilings\<close>

definition readable_max :: "key_value_pair list \<Rightarrow> bool" where
  "readable_max ps \<longleftrightarrow>
     distinct (map kvp_key ps) \<and>
     (\<forall>p \<in> set ps. kvp_key p = VarInt 2 \<longrightarrow> setup_varint (kvp_value p) \<noteq> None)"

lemma no_max:
  "VarInt 2 \<notin> kvp_key ` set ps \<Longrightarrow> read_granted_max ps e = (Inr (), e)"
  "VarInt 2 \<notin> kvp_key ` set ps \<Longrightarrow> advertised_max ps m = m"
  by (induction ps arbitrary: m) (auto simp: ep_ret_def)

text \<open>A fresh allocator takes the ceiling the parameters announce, if they do.\<close>

lemma read_granted_max_fresh:
  "readable_max ps \<Longrightarrow> sia_max_id (ep_subscribe_ids e) = 0 \<Longrightarrow>
     read_granted_max ps e =
       (Inr (), e\<lparr> ep_subscribe_ids := (ep_subscribe_ids e)\<lparr> sia_max_id := advertised_max ps 0 \<rparr> \<rparr>)"
proof (induction ps)
  case (Cons p ps)
  show ?case
  proof (cases "kvp_key p = VarInt 2")
    case True
    with Cons.prems obtain m where m: "setup_varint (kvp_value p) = Some m"
      by (auto simp: readable_max_def)
    have "VarInt 2 \<notin> kvp_key ` set ps"
      using Cons.prems True by (auto simp: readable_max_def)
    then show ?thesis
      using True m Cons.prems
      by (auto simp: no_max ep_bind_def update_max_def not_le not_less word_gt_0)
  next
    case False
    with Cons show ?thesis by (simp add: readable_max_def)
  qed
qed (simp add: ep_ret_def)

section \<open>The setup exchange\<close>

definition setup_done :: "endpoint \<Rightarrow> endpoint \<Rightarrow> bool" where
  "setup_done e peer \<longleftrightarrow>
     ep_session e = SessActive \<and> ep_negotiated_version e = Some (VarInt DRAFT_VERSION) \<and>
     sia_next_id (ep_subscribe_ids e) = 0 \<and>
     sia_max_id (ep_subscribe_ids e) = ep_advertised_max_id peer \<and> ep_peer_highest e = None"

lemma handshake_states:
  assumes vs: "VarInt DRAFT_VERSION \<in> set vs"
    and cps: "check_role cps = Inr ()" "readable_max cps"
    and sps: "check_role sps = Inr ()" "readable_max sps" "\<not> has_path sps"
    and c0: "ep_connect (endpoint_new RoleClient) = (Inr (), c0)"
    and s0: "ep_connect (endpoint_new RoleServer) = (Inr (), s0)"
  obtains c1 s1 c2 where
    "send_client_setup vs cps c0 = (Inr (CmClientSetup
       \<lparr> cs_supported_versions = vs, cs_parameters = cps \<rparr>), c1)"
    and "receive_client_setup_and_respond_with
       \<lparr> cs_supported_versions = vs, cs_parameters = cps \<rparr> (VarInt DRAFT_VERSION) sps s0 =
       (Inr (CmServerSetup \<lparr> ss_selected_version = VarInt DRAFT_VERSION, ss_parameters = sps \<rparr>), s1)"
    and "receive_server_setup
       \<lparr> ss_selected_version = VarInt DRAFT_VERSION, ss_parameters = sps \<rparr> c1 = (Inr (), c2)"
    and "setup_done c2 s1" "setup_done s1 c2"
proof -
  have vs': "vs \<noteq> []" using vs by auto
  define c1 where "c1 = c0\<lparr> ep_offered_versions := vs, ep_advertised_max_id := advertised_max cps 0 \<rparr>"
  have ep0: "c0 = endpoint_new RoleClient\<lparr> ep_session := SetupExchange \<rparr>"
    "s0 = endpoint_new RoleServer\<lparr> ep_session := SetupExchange \<rparr>"
    using c0 s0 by (auto simp: ep_connect_def on_session_def on_connect_def endpoint_new_def
        session_new_def)
  have client: "send_client_setup vs cps c0 = (Inr (CmClientSetup
       \<lparr> cs_supported_versions = vs, cs_parameters = cps \<rparr>), c1)"
    using vs' cps by (simp add: send_client_setup_def ep_runs validate_client_setup_def
        record_advertised_max_def c1_def ep0 endpoint_new_def)
  obtain s1 where s1: "receive_client_setup_and_respond_with
       \<lparr> cs_supported_versions = vs, cs_parameters = cps \<rparr> (VarInt DRAFT_VERSION) sps s0 =
       (Inr (CmServerSetup \<lparr> ss_selected_version = VarInt DRAFT_VERSION, ss_parameters = sps \<rparr>), s1)"
    and "ep_session s1 = SessActive" "ep_negotiated_version s1 = Some (VarInt DRAFT_VERSION)"
    "ep_subscribe_ids s1 = \<lparr> sia_next_id = 0, sia_max_id = advertised_max cps 0 \<rparr>"
    "ep_advertised_max_id s1 = advertised_max sps 0" "ep_peer_highest s1 = None"
    using vs vs' cps by (simp add: receive_client_setup_and_respond_with_def ep_runs
        validate_client_setup_def read_granted_max_fresh negotiate_version_def on_session_def
        on_setup_complete_def record_advertised_max_def ep0 endpoint_new_def allocator_new_def)
  moreover obtain c2 where "receive_server_setup
       \<lparr> ss_selected_version = VarInt DRAFT_VERSION, ss_parameters = sps \<rparr> c1 = (Inr (), c2)"
    and "ep_session c2 = SessActive" "ep_negotiated_version c2 = Some (VarInt DRAFT_VERSION)"
    "ep_subscribe_ids c2 = \<lparr> sia_next_id = 0, sia_max_id = advertised_max sps 0 \<rparr>"
    "ep_advertised_max_id c2 = advertised_max cps 0" "ep_peer_highest c2 = None"
    using vs sps by (simp add: receive_server_setup_def ep_runs validate_server_setup_def
        read_granted_max_fresh negotiate_version_def on_session_def on_setup_complete_def
        c1_def ep0 endpoint_new_def allocator_new_def)
  ultimately show thesis
    using client by (intro that [of c1 s1 c2]) (simp_all add: setup_done_def)
qed

section \<open>A subscription and its answer\<close>

lemma subscribe_leg:
  assumes opened: "ep_subscribe al ns name prio go ft c = (Inr (i, msg), c')"
    and fresh: "fresh_id s (into_inner i)"
    and free: "alias_holder s (into_inner al) ns name = None"
      "ns_fields ns \<notin> set (ep_announce_cancelled s)"
    and wire: "cm_encode msg = Inr b" "length b < 2 ^ 62" "wf_message msg"
  shows "\<exists>m s'. cm_decode (b @ rest) = Inr (msg, rest) \<and> msg = CmSubscribe m \<and>
    receive_message msg s = (Inr (), s') \<and> pending_subscribe s' i = Some m \<and>
    map_of (ep_subscriptions c') (into_inner i) = Some Subscribing"
proof -
  from opened obtain m where m: "msg = CmSubscribe m" "s_subscribe_id m = i"
      "s_track_alias m = al" "s_track_namespace m = ns" "s_track_name m = name"
    and c': "map_of (ep_subscriptions c') (into_inner i) = Some Subscribing"
    by (auto simp: ep_subscribe_def ep_fail_def subscribe_inner_iff open_subscription_def
        update_conv' split: if_splits)
  moreover have "receive_subscribe m s = (Inr (), accept_subscribe m s)"
    using fresh free m by (simp add: receive_subscribe_iff)
  moreover have "pending_subscribe (accept_subscribe m s) i = Some m"
    using m by (simp add: pending_subscribe_def accept_subscribe_def Let_def update_conv')
  ultimately show ?thesis
    using cm_roundtrip [OF wire(1,3,2)] by (auto simp: receive_message_def)
qed

lemma answer_leg:
  assumes sub: "map_of (ep_subscriptions c) (into_inner i) = Some Subscribing"
    and sent: "send_subscribe_ok i x go ps s = (Inr reply, s')"
    and wire: "cm_encode reply = Inr b" "length b < 2 ^ 62" "wf_message reply"
  shows "\<exists>c'. cm_decode (b @ rest) = Inr (reply, rest) \<and> receive_message reply c = (Inr (), c') \<and>
    map_of (ep_subscriptions c') (into_inner i) = Some SubActive \<and>
    map_option in_state (map_of (ep_inbound_subscribes s') (into_inner i)) = Some SubActive"
proof -
  from sent obtain m where reply: "reply = CmSubscribeOk m" "so_subscribe_id m = i"
    and s': "map_option in_state (map_of (ep_inbound_subscribes s') (into_inner i)) = Some SubActive"
    by (auto simp: send_subscribe_ok_iff update_conv')
  have "receive_message reply c = (Inr (), c\<lparr> ep_subscriptions :=
      AList.update (into_inner i) SubActive (ep_subscriptions c) \<rparr>)"
    using reply sub by (simp add: receive_message_def receive_subscribe_ok_def
        subscription_step_def ep_step_def on_subscribe_ok_def)
  then show ?thesis
    using cm_roundtrip [OF wire(1,3,2)] s' by (auto simp: update_conv')
qed

end
