(* ===== verification/Findings07.thy ===== *)
theory Findings07
  imports Draft07_Frame
begin

text \<open>
  Where draft-07's message encoder says more than it does. \<open>check_discriminators\<close> is documented to
  refuse a message whose optional fields disagree with the flag that announces them; it covers
  SUBSCRIBE and SUBSCRIBE_OK, and not SUBSCRIBE_DONE or FETCH_OK, for which the encoder writes
  frames that its own decoder refuses.
\<close>

definition done_without_location :: subscribe_done where
  "done_without_location =
     \<lparr> sd_subscribe_id = VarInt 1, sd_status_code = VarInt 0, sd_reason_phrase = [],
       sd_content_exists = HasLargestLocation, sd_final_group = None, sd_final_object = None \<rparr>"

definition done_with_stray_location :: subscribe_done where
  "done_with_stray_location =
     \<lparr> sd_subscribe_id = VarInt 1, sd_status_code = VarInt 0, sd_reason_phrase = [],
       sd_content_exists = NoLargestLocation, sd_final_group = Some (VarInt 7),
       sd_final_object = Some (VarInt 9) \<rparr>"

definition fetch_ok_without_location :: fetch_ok where
  "fetch_ok_without_location =
     \<lparr> fo_subscribe_id = VarInt 1, fo_group_order = GoAscending, fo_end_of_track = 0,
       fo_largest_group_id = None, fo_largest_object_id = None, fo_parameters = [] \<rparr>"

text \<open>The encoder's frame, and what the decoder makes of it.\<close>

definition own_frame :: "control_message \<Rightarrow> codec_error + (codec_error + control_message)" where
  "own_frame m =
     and_then (cm_encode m) (\<lambda>b. Inr (and_then (cm_decode b) (\<lambda>(m', rest). Inr m')))"

lemma subscribe_done_gap:
  "own_frame (CmSubscribeDone done_without_location)
     = Inr (Inl (ControlMessageLengthMismatch 4 ''its fields ran past the end''))"
  by code_simp

lemma subscribe_done_stray_gap:
  "\<exists>e. own_frame (CmSubscribeDone done_with_stray_location) = Inr (Inl e)"
proof -
  have "(case own_frame (CmSubscribeDone done_with_stray_location) of Inr (Inl e) \<Rightarrow> True
        | _ \<Rightarrow> False)"
    by code_simp
  then show ?thesis
    by (auto split: sum.splits)
qed

lemma fetch_ok_gap:
  "own_frame (CmFetchOk fetch_ok_without_location)
     = Inr (Inl (ControlMessageLengthMismatch 4 ''its fields ran past the end''))"
  by code_simp

end
