(* ===== verification/Netem_Base.thy ===== *)
theory Netem_Base
  imports Prelude
begin

text \<open>
  The vocabulary of the network emulator, \<open>quinn-netem\<close>: ticks and directions (\<open>lib.rs\<close>), the
  numbers of \<open>consts.rs\<close>, and the on-wire size of a datagram (\<open>wire.rs\<close>). A \<open>Tick\<close> is the \<open>u64\<close> it
  wraps. Rust's saturating arithmetic is written once for every width.
\<close>

section \<open>Saturating arithmetic\<close>

definition sat_add :: "'a::len word \<Rightarrow> 'a word \<Rightarrow> 'a word" where
  "sat_add x y = (if x + y < x then - 1 else x + y)"

definition sat_sub :: "'a::len word \<Rightarrow> 'a word \<Rightarrow> 'a word" where
  "sat_sub x y = (if x < y then 0 else x - y)"

lemma unat_max_word: "unat (- 1 :: 'a::len word) = 2 ^ LENGTH('a) - 1"
  by (simp add: unsigned_minus_1_eq_mask mask_eq_exp_minus_1)

lemma eq_max_word_iff: "x = - 1 \<longleftrightarrow> unat x = 2 ^ LENGTH('a) - 1" for x :: "'a::len word"
  unfolding word_unat_eq_iff unat_max_word ..

lemma unat_lt2p: "unat (x :: 'a::len word) < 2 ^ LENGTH('a)"
  by (rule unsigned_less)

lemma unat_le_max: "unat (x :: 'a::len word) \<le> 2 ^ LENGTH('a) - 1"
  using unat_lt2p [of x] by linarith

lemma unat_ucast_u32_u64 [simp]: "unat (ucast (x :: u32) :: u64) = unat x"
  using unat_lt2p [of x] by (simp add: unsigned_ucast_eq take_bit_nat_eq_self)

lemma unat_ucast_u64_u32: "unat (ucast (x :: u64) :: u32) = unat x mod 2 ^ 32"
  by (simp add: unsigned_ucast_eq take_bit_eq_mod)

lemma unat_plus: "unat (x + y) = (unat x + unat y) mod 2 ^ LENGTH('a)" for x y :: "'a::len word"
  by (rule unat_word_ariths)

lemma unat_sat_add:
  fixes x y :: "'a::len word"
  shows "unat (sat_add x y) = min (unat x + unat y) (2 ^ LENGTH('a) - 1)"
proof (cases "unat x + unat y < 2 ^ LENGTH('a)")
  case True
  then have "unat (x + y) = unat x + unat y"
    by (simp add: unat_plus)
  with True show ?thesis
    by (simp add: sat_add_def word_less_nat_alt)
next
  case False
  have less: "unat x < 2 ^ LENGTH('a)" "unat y < 2 ^ LENGTH('a)"
    by (rule unat_lt2p)+
  have "unat (x + y) = unat x + unat y - 2 ^ LENGTH('a)"
    using False less by (simp only: unat_plus le_mod_geq not_less, intro mod_less, linarith)
  moreover from this False less have "unat (x + y) < unat x"
    by linarith
  ultimately show ?thesis
    using False by (simp add: sat_add_def word_less_nat_alt unat_max_word)
qed

lemma unat_sat_sub: "unat (sat_sub x y) = unat x - unat y"
  by (auto simp: sat_sub_def word_less_nat_alt unat_sub_if')

lemma sat_add_ge: "x \<le> sat_add x y"
  unfolding word_le_nat_alt unat_sat_add using unat_le_max [of x] by linarith

section \<open>Ticks and directions\<close>

type_synonym tick = u64

definition saturating_add_ns :: "tick \<Rightarrow> u64 \<Rightarrow> tick" where
  "saturating_add_ns t ns = sat_add t ns"

definition since :: "tick \<Rightarrow> tick \<Rightarrow> u64" where
  "since t earlier = sat_sub t earlier"

lemma unat_since: "unat (since t u) = unat t - unat u"
  by (simp add: since_def unat_sat_sub)

lemma unat_saturating_add_ns:
  "unat (saturating_add_ns t ns) = min (unat t + unat ns) (2 ^ 64 - 1)"
  by (simp add: saturating_add_ns_def unat_sat_add)

datatype direction = Downlink | Uplink

definition direction_as_u8 :: "direction \<Rightarrow> u8" where
  "direction_as_u8 d = (case d of Downlink \<Rightarrow> 0 | Uplink \<Rightarrow> 1)"

definition DEFAULT_QUEUE_BYTES :: u64 where
  "DEFAULT_QUEUE_BYTES = 4 * 1024 * 1024"

text \<open>The timeout is in nanoseconds, as every instant of the model is.\<close>

definition DEFAULT_PEER_IDLE_TIMEOUT :: nat where
  "DEFAULT_PEER_IDLE_TIMEOUT = 60 * 1000000000"

section \<open>Addresses and the size of a datagram on the wire\<close>

text \<open>\<open>std::net::SocketAddr\<close>: an address and a port, with the flow and scope of IPv6.\<close>

datatype ip_addr = V4 u32 | V6 "128 word"

datatype socket_addr =
    SocketV4 u32 u16
  | SocketV6 "128 word" u16 u32 u32

fun addr_ip :: "socket_addr \<Rightarrow> ip_addr" where
  "addr_ip (SocketV4 a p) = V4 a"
| "addr_ip (SocketV6 a p flow scope) = V6 a"

fun addr_port :: "socket_addr \<Rightarrow> u16" where
  "addr_port (SocketV4 a p) = p"
| "addr_port (SocketV6 a p flow scope) = p"

text \<open>\<open>to_ipv4_mapped\<close> answers for \<open>::ffff:a.b.c.d\<close> only.\<close>

definition to_ipv4_mapped :: "128 word \<Rightarrow> u32 option" where
  "to_ipv4_mapped a = (if drop_bit 32 a = 0xFFFF then Some (ucast a) else None)"

fun is_unspecified :: "ip_addr \<Rightarrow> bool" where
  "is_unspecified (V4 a) \<longleftrightarrow> a = 0"
| "is_unspecified (V6 a) \<longleftrightarrow> a = 0"

definition IPV4_UDP_OVERHEAD :: u32 where
  "IPV4_UDP_OVERHEAD = 28"

definition IPV6_UDP_OVERHEAD :: u32 where
  "IPV6_UDP_OVERHEAD = 48"

definition wire_bytes :: "nat \<Rightarrow> socket_addr \<Rightarrow> u32" where
  "wire_bytes payload_len addr =
     (let overhead = (case addr_ip addr of
          V4 _ \<Rightarrow> IPV4_UDP_OVERHEAD
        | V6 v6 \<Rightarrow> if to_ipv4_mapped v6 \<noteq> None then IPV4_UDP_OVERHEAD else IPV6_UDP_OVERHEAD)
      in sat_add (if payload_len < 2 ^ 32 then of_nat payload_len else - 1) overhead)"

text \<open>A datagram's size on the wire never understates its payload and the smallest header, and a
  larger payload is never a smaller datagram.\<close>

definition wire_overhead :: "socket_addr \<Rightarrow> nat" where
  "wire_overhead addr =
     (case addr_ip addr of V4 _ \<Rightarrow> 28
      | V6 v6 \<Rightarrow> if to_ipv4_mapped v6 \<noteq> None then 28 else 48)"

lemma wire_bytes_exact:
  "unat (wire_bytes n addr) = min (n + wire_overhead addr) (2 ^ 32 - 1)"
proof -
  have "unat (of_nat n :: u32) = n" if "n < 2 ^ 32"
    using that by (simp add: unat_of_nat)
  then show ?thesis
    by (auto simp: wire_bytes_def wire_overhead_def Let_def unat_sat_add unat_max_word
        IPV4_UDP_OVERHEAD_def IPV6_UDP_OVERHEAD_def split: ip_addr.splits)
qed

lemma wire_bytes_mono: "n \<le> m \<Longrightarrow> wire_bytes n addr \<le> wire_bytes m addr"
  by (simp add: word_le_nat_alt wire_bytes_exact)

end
