(* ===== verification/Netem_Rng.thy ===== *)
theory Netem_Rng
  imports Netem_Base
begin

text \<open>
  The generator of the network emulator (\<open>rng.rs\<close>): PCG32, its bounded draw and the twelve stream
  ids. The bounded draw rejects until a draw is large enough, so it is a partial function here; that
  it returns is the theorem \<open>next_bounded_returns\<close>, which rests on the generator visiting every one
  of its \<open>2 ^ 64\<close> states (the period of a linear congruential generator with an odd increment and a
  multiplier that is 1 modulo 4).
\<close>

section \<open>The generator\<close>

record pcg32 =
  pcg_state :: u64
  pcg_inc :: u64

definition MULTIPLIER :: u64 where
  "MULTIPLIER = 6364136223846793005"

definition next_u32 :: "pcg32 \<Rightarrow> u32 \<times> pcg32" where
  "next_u32 rng =
     (let old = pcg_state rng;
          xorshifted = ucast (drop_bit 27 (drop_bit 18 old XOR old));
          rot = unat (drop_bit 59 old)
      in (word_rotr rot xorshifted, rng\<lparr> pcg_state := old * MULTIPLIER + pcg_inc rng \<rparr>))"

definition seeded :: "u64 \<Rightarrow> u64 \<Rightarrow> pcg32" where
  "seeded initstate initseq =
     (let rng = \<lparr> pcg_state = 0, pcg_inc = push_bit 1 initseq OR 1 \<rparr>;
          rng = snd (next_u32 rng);
          rng = rng\<lparr> pcg_state := pcg_state rng + initstate \<rparr>
      in snd (next_u32 rng))"

text \<open>The loop of \<open>next_bounded\<close>. \<open>None\<close> is a loop that does not end, and the panic on a bound of 0.\<close>

partial_function (option) draw_from :: "u32 \<Rightarrow> u32 \<Rightarrow> pcg32 \<Rightarrow> (u32 \<times> pcg32) option" where
  "draw_from threshold bound rng =
     (let (r, rng) = next_u32 rng in
      if threshold \<le> r then Some (r mod bound, rng) else draw_from threshold bound rng)"

declare draw_from.simps [code]

definition next_bounded :: "u32 \<Rightarrow> pcg32 \<Rightarrow> (u32 \<times> pcg32) option" where
  "next_bounded bound rng =
     (if bound = 0 then None else draw_from (- bound mod bound) bound rng)"

definition stream_ids :: "direction \<Rightarrow> u64 list" where
  "stream_ids d = (case d of Downlink \<Rightarrow> [0, 1, 2, 3, 4, 5] | Uplink \<Rightarrow> [8, 9, 10, 11, 12, 13])"

text \<open>The published vector of \<open>pcg_basic\<close>.\<close>

fun draws :: "nat \<Rightarrow> pcg32 \<Rightarrow> u32 list" where
  "draws 0 rng = []"
| "draws (Suc n) rng = (let (r, rng) = next_u32 rng in r # draws n rng)"

lemma published_vector:
  "draws 4 (seeded 42 54) = [0xA15C02B7, 0x7B47F409, 0xBA1D3330, 0x83D2F293]"
  by code_simp

lemma bounded_vector:
  "map_option fst (next_bounded 3000000000 (seeded 42 54)) = Some 2707161783"
  by code_simp

section \<open>The period\<close>

text \<open>The sum of the first \<open>n\<close> powers of the multiplier is what \<open>n\<close> steps add to a state.\<close>

definition geo :: "int \<Rightarrow> nat \<Rightarrow> int" where
  "geo a n = (\<Sum>i<n. a ^ i)"

lemma geo_Suc: "geo a (Suc n) = geo a n + a ^ n"
  by (simp add: geo_def)

lemma geo_add: "geo a (m + n) = geo a m + a ^ m * geo a n"
  by (induction n) (simp_all add: geo_def power_add algebra_simps)

lemma geo_mult: "geo a (m * n) = geo a m * geo (a ^ m) n"
proof (induction n)
  case (Suc n)
  then show ?case
    using geo_add [of a "m * n" m]
    by (simp add: geo_Suc power_mult algebra_simps)
qed (simp add: geo_def)

lemma geo_power: "a ^ n - 1 = (a - 1) * geo a n"
  by (simp add: geo_def power_diff_1_eq)

lemma power_mod4: "a mod 4 = 1 \<Longrightarrow> a ^ n mod 4 = (1 :: int)"
  using power_mod [of a 4 n] by simp

lemma odd_geo: "odd a \<Longrightarrow> odd (geo a n) \<longleftrightarrow> odd n"
  by (induction n) (auto simp: geo_Suc geo_def)

lemma geo_two_power:
  assumes "a mod 4 = 1"
  shows "\<exists>m. odd m \<and> geo a (2 ^ k) = 2 ^ k * m"
proof (induction k)
  case (Suc k)
  then obtain m where m: "odd m" "geo a (2 ^ k) = 2 ^ k * m" by blast
  have "a ^ 2 ^ k mod 4 = 1" using assms by (rule power_mod4)
  then obtain q where q: "a ^ 2 ^ k = 4 * q + 1"
    by (metis div_mult_mod_eq mult.commute)
  have "geo b 2 = 1 + b" for b :: int
    by (simp add: geo_def numeral_2_eq_2)
  then have "geo (a ^ 2 ^ k) 2 = 2 * (2 * q + 1)"
    using q by simp
  then have "geo a (2 ^ Suc k) = 2 ^ Suc k * (m * (2 * q + 1))"
    using geo_mult [of a "2 ^ k" 2] m(2) by (simp add: mult.commute [of 2])
  moreover have "odd (m * (2 * q + 1))"
    using m(1) by simp
  ultimately show ?case by blast
qed (auto simp: geo_def)

lemma odd_part: "0 < n \<Longrightarrow> \<exists>j q. n = 2 ^ j * q \<and> odd (q :: nat)"
proof (induction n rule: less_induct)
  case (less n)
  show ?case
  proof (cases "odd n")
    case True
    then show ?thesis by (intro exI [of _ 0] exI [of _ n]) simp
  next
    case False
    with less.prems obtain m where m: "n = 2 * m" "m < n" "0 < m" by fastforce
    then obtain j q where "m = 2 ^ j * q" "odd q" using less.IH by blast
    with m(1) show ?thesis by (intro exI [of _ "Suc j"] exI [of _ q]) simp
  qed
qed

lemma odd_cancel: "odd u \<Longrightarrow> 2 ^ k dvd u * v \<longleftrightarrow> 2 ^ k dvd (v :: int)"
  by (rule coprime_dvd_mult_right_iff) simp

lemma geo_dvd:
  assumes "a mod 4 = 1" and "2 ^ k dvd geo a n" and "0 < n"
  shows "2 ^ k dvd n"
proof -
  obtain j q where n: "n = 2 ^ j * q" "odd q"
    using odd_part [OF assms(3)] by blast
  have "odd a" using assms(1) by presburger
  obtain m where m: "odd m" "geo a (2 ^ j) = 2 ^ j * m"
    using geo_two_power [OF assms(1)] by blast
  have "odd (geo (a ^ 2 ^ j) q)" using n(2) \<open>odd a\<close> by (simp add: odd_geo)
  with m(1) have "odd (m * geo (a ^ 2 ^ j) q)" by simp
  moreover have "geo a n = (m * geo (a ^ 2 ^ j) q) * 2 ^ j"
    using geo_mult [of a "2 ^ j" q] m(2) n(1) by simp
  with assms(2) have "2 ^ k dvd (m * geo (a ^ 2 ^ j) q) * 2 ^ j" by simp
  ultimately have "(2 :: int) ^ k dvd 2 ^ j"
    using odd_cancel [of "m * geo (a ^ 2 ^ j) q" k "2 ^ j"] by simp
  then have "(2 :: int) ^ k \<le> 2 ^ j"
    by (rule zdvd_imp_le) (rule zero_less_power, rule zero_less_numeral)
  then have "k \<le> j"
    by (rule power_le_imp_le_exp [rotated]) simp
  with n show ?thesis by (simp add: le_imp_power_dvd)
qed

text \<open>Two states of one run that agree are a multiple of \<open>2 ^ 64\<close> steps apart, so a run visits every
  state.\<close>

definition lcg :: "u64 \<Rightarrow> u64 \<Rightarrow> u64" where
  "lcg c x = x * MULTIPLIER + c"

lemma lcg_word_of_int: "lcg c (word_of_int i) = word_of_int (i * uint MULTIPLIER + uint c)"
  by (simp add: lcg_def)

lemma lcg_iterate:
  "(lcg c ^^ n) x = word_of_int (uint MULTIPLIER ^ n * uint x + uint c * geo (uint MULTIPLIER) n)"
proof (induction n)
  case (Suc n)
  have "geo a (Suc n) = 1 + a * geo a n" for a :: int
    using geo_add [of a 1 n] by (simp add: geo_def)
  then show ?case
    by (simp only: funpow.simps o_apply Suc lcg_word_of_int) (simp add: algebra_simps)
qed (simp add: geo_def)

lemma word_of_int_eq_0: "(word_of_int i :: u64) = 0 \<longleftrightarrow> 2 ^ 64 dvd i"
  using word_of_int_eq_iff [of i 0, where 'a = 64] by (simp add: take_bit_eq_0_iff)

lemma lcg_return:
  assumes "odd (uint c)" and "n \<le> m" and "(lcg c ^^ n) x = (lcg c ^^ m) x"
  shows "2 ^ 64 dvd m - n"
proof (cases "m - n")
  case (Suc d')
  define a where "a = uint MULTIPLIER"
  define d where "d = m - n"
  have a: "a mod 4 = 1" "odd a" unfolding a_def by code_simp+
  have m: "m = n + d" using assms(2) by (simp add: d_def)
  have e: "a ^ d = (a - 1) * geo a d + 1"
    using geo_power [of a d] by simp
  have "a ^ n * (((a - 1) * uint x + uint c) * geo a d)
      = (a ^ m * uint x + uint c * geo a m) - (a ^ n * uint x + uint c * geo a n)"
    by (simp only: m power_add geo_add e) (simp add: algebra_simps)
  then have "(word_of_int (a ^ n * (((a - 1) * uint x + uint c) * geo a d)) :: u64)
      = (lcg c ^^ m) x - (lcg c ^^ n) x"
    by (simp only: lcg_iterate wi_hom_sub flip: a_def)
  also have "\<dots> = 0" using assms(3) by simp
  finally have dvd: "2 ^ 64 dvd a ^ n * (((a - 1) * uint x + uint c) * geo a d)"
    by (simp only: word_of_int_eq_0)
  have "odd (a ^ n)" "odd ((a - 1) * uint x + uint c)" using a(2) assms(1) by simp_all
  then have "2 ^ 64 dvd geo a d"
    using odd_cancel [THEN iffD1, OF _ odd_cancel [THEN iffD1, OF _ dvd]] by blast
  then have "2 ^ 64 dvd d"
    by (rule geo_dvd [OF a(1)]) (simp only: d_def Suc zero_less_Suc)
  then show ?thesis by (simp only: d_def)
qed simp

lemma lcg_visits_all:
  assumes "odd (uint c)"
  shows "\<exists>n < 2 ^ 64. (lcg c ^^ n) x = y"
proof -
  define N where "N = (2 :: nat) ^ 64"
  define f where "f n = (lcg c ^^ n) x" for n
  have "f n \<noteq> f m" if "n < m" "m < N" for n m
  proof
    assume "f n = f m"
    then have "N dvd m - n"
      using lcg_return [OF assms, of n m x] that(1) by (simp only: f_def N_def)
    then show False using that dvd_imp_le [of N "m - n"] by linarith
  qed
  then have "inj_on f {..<N}"
    by (intro linorder_inj_onI) auto
  then have "card (f ` {..<N}) = card (UNIV :: u64 set)"
    by (simp only: card_image card_word card_lessThan N_def) simp
  then have "f ` {..<N} = UNIV"
    by (intro card_subset_eq finite subset_UNIV)
  then have "y \<in> f ` {..<N}" by simp
  then show ?thesis unfolding f_def N_def by blast
qed

section \<open>The bounded draw returns\<close>

lemma pcg_inc_next [simp]: "pcg_inc (snd (next_u32 rng)) = pcg_inc rng"
  by (simp add: next_u32_def Let_def)

lemma pcg_state_next: "pcg_state (snd (next_u32 rng)) = lcg (pcg_inc rng) (pcg_state rng)"
  by (simp add: next_u32_def lcg_def Let_def)

lemma iterate_next:
  "pcg_inc (((\<lambda>r. snd (next_u32 r)) ^^ n) rng) = pcg_inc rng"
  "pcg_state (((\<lambda>r. snd (next_u32 r)) ^^ n) rng) = (lcg (pcg_inc rng) ^^ n) (pcg_state rng)"
  by (induction n) (simp_all add: pcg_state_next)

lemma draw_from_reaches:
  "threshold \<le> fst (next_u32 (((\<lambda>r. snd (next_u32 r)) ^^ n) rng))
   \<Longrightarrow> \<exists>y. draw_from threshold bound rng = Some y"
proof (induction n arbitrary: rng)
  case 0
  then show ?case by (subst draw_from.simps) (simp add: split_beta Let_def)
next
  case (Suc n)
  have "threshold \<le> fst (next_u32 (((\<lambda>r. snd (next_u32 r)) ^^ n) (snd (next_u32 rng))))"
    using Suc.prems by (simp only: funpow_Suc_right o_apply)
  from Suc.IH [OF this] show ?case
    by (subst draw_from.simps) (auto simp: split_beta Let_def)
qed

text \<open>The state whose output is the largest word.\<close>

definition top_state :: u64 where
  "top_state = push_bit 41 (2 ^ 18 - 1)"

lemma largest_output: "fst (next_u32 \<lparr> pcg_state = top_state, pcg_inc = c \<rparr>) = - 1"
proof -
  have "fst (next_u32 \<lparr> pcg_state = top_state, pcg_inc = 1 \<rparr>) = - 1"
    by code_simp
  then show ?thesis by (simp add: next_u32_def Let_def)
qed

lemma draw_from_returns:
  assumes "odd (uint (pcg_inc rng))"
  shows "\<exists>y. draw_from threshold bound rng = Some y"
proof -
  obtain n where n: "(lcg (pcg_inc rng) ^^ n) (pcg_state rng) = top_state"
    using lcg_visits_all [OF assms] by blast
  have "((\<lambda>r. snd (next_u32 r)) ^^ n) rng
      = \<lparr> pcg_state = top_state, pcg_inc = pcg_inc rng \<rparr>"
    using iterate_next [where n = n and rng = rng] n by (intro pcg32.equality) simp_all
  then have "threshold \<le> fst (next_u32 (((\<lambda>r. snd (next_u32 r)) ^^ n) rng))"
    by (simp add: largest_output)
  then show ?thesis by (rule draw_from_reaches)
qed

text \<open>What a generator made by \<open>seeded\<close>, and stepped since, keeps: its increment is odd.\<close>

definition pcg_ok :: "pcg32 \<Rightarrow> bool" where
  "pcg_ok rng \<longleftrightarrow> odd (uint (pcg_inc rng))"

lemma odd_uint_iff: "odd (uint (w :: u64)) \<longleftrightarrow> bit w 0"
  using bit_0 [of "uint w"] by (simp only: bit_uint_iff) simp

lemma pcg_ok_seeded [simp]: "pcg_ok (seeded s i)"
  by (simp add: pcg_ok_def seeded_def Let_def odd_uint_iff bit_or_iff)

lemma pcg_ok_next [simp]: "pcg_ok (snd (next_u32 rng)) \<longleftrightarrow> pcg_ok rng"
  by (simp add: pcg_ok_def)

lemma draw_from_result:
  assumes "draw_from threshold bound rng = Some y"
  shows "bound \<noteq> 0 \<longrightarrow> fst y < bound \<and> pcg_inc (snd y) = pcg_inc rng"
proof (rule draw_from.raw_induct [OF _ assms], goal_cases)
  case (1 loop t b rng y)
  then show ?case
    using pcg_inc_next [of rng]
    by (cases "next_u32 rng") (fastforce split: if_splits simp: word_mod_less_divisor word_gt_0)
qed

lemma next_bounded_returns:
  assumes "pcg_ok rng" and "bound \<noteq> 0"
  shows "\<exists>v rng'. next_bounded bound rng = Some (v, rng') \<and> v < bound \<and> pcg_ok rng'"
  using draw_from_returns [of rng "- bound mod bound" bound] draw_from_result assms
  by (auto simp: next_bounded_def pcg_ok_def)

section \<open>The bounded draw is fair\<close>

text \<open>Of the words the loop accepts, each value below the bound is the residue of equally many.\<close>

lemma small_mod: "x < 2 * b \<Longrightarrow> x mod b = (if x < b then x else x - (b :: nat))"
  by (auto simp: le_mod_geq)

lemma residue_once:
  assumes "v < (b :: nat)"
  shows "card {r \<in> {s..<s + b}. r mod b = v} = 1"
proof -
  let ?k = "(v + b - s mod b) mod b"
  have m: "s mod b < b" using assms by simp
  have "(s + k) mod b = v \<longleftrightarrow> k = ?k" if "k < b" for k
  proof -
    define m where "m = s mod b"
    have "(s + k) mod b = (m + k) mod b" by (simp add: m_def mod_add_left_eq)
    also have "\<dots> = (if m + k < b then m + k else m + k - b)"
      using m that unfolding m_def by (intro small_mod) linarith
    finally show ?thesis
      using m assms that small_mod [of "v + b - m" b] by (auto simp: m_def [symmetric])
  qed
  then have "r mod b = v \<longleftrightarrow> r = s + ?k" if "s \<le> r" "r < s + b" for r
    using that by (metis add_diff_inverse_nat less_diff_conv2 not_less add.commute diff_add_inverse2)
  moreover have "?k < b" using assms by simp
  ultimately have "{r \<in> {s..<s + b}. r mod b = v} = {s + ?k}" by auto
  then show ?thesis by simp
qed

lemma residues_even:
  assumes "v < (b :: nat)"
  shows "card {r \<in> {t..<t + q * b}. r mod b = v} = q"
proof (induction q)
  case (Suc q)
  have split: "{r \<in> {t..<t + Suc q * b}. r mod b = v}
      = {r \<in> {t..<t + q * b}. r mod b = v} \<union> {r \<in> {t + q * b..<t + q * b + b}. r mod b = v}"
    by auto
  have "card ({r \<in> {t..<t + q * b}. r mod b = v} \<union> {r \<in> {t + q * b..<t + q * b + b}. r mod b = v})
      = q + 1"
    using Suc residue_once [OF assms, of "t + q * b"] by (subst card_Un_disjoint) auto
  then show ?case unfolding split by simp
qed simp

lemma accepted_draws:
  fixes bound v :: u32
  assumes "v < bound"
  shows "card {r. - bound mod bound \<le> r \<and> r mod bound = v} = 2 ^ 32 div unat bound"
proof -
  define b where "b = unat bound"
  define N where "N = (2 :: nat) ^ 32"
  have b: "0 < b" "b < N" and v: "unat v < b"
    using assms unat_lt2p [of bound] by (auto simp: b_def N_def word_less_nat_alt)
  have "unat (- bound) = N - b"
    using b unat_plus [of bound "- bound"] unat_lt2p [of "- bound"]
    by (simp add: b_def N_def small_mod split: if_splits)
  then have t: "unat (- bound mod bound) = N mod b"
    using b by (simp add: unat_mod le_mod_geq flip: b_def)
  have image: "unat ` {r. - bound mod bound \<le> r \<and> r mod bound = v}
      = {r \<in> {N mod b..<N}. r mod b = unat v}"
  proof (intro equalityI subsetI)
    fix r assume "r \<in> {r \<in> {N mod b..<N}. r mod b = unat v}"
    then have r: "N mod b \<le> r" "r < N" "r mod b = unat v" by auto
    then have "unat (of_nat r :: u32) = r" by (simp add: unat_of_nat N_def)
    with r t show "r \<in> unat ` {r. - bound mod bound \<le> r \<and> r mod bound = v}"
      by (intro image_eqI [of _ _ "of_nat r"])
        (simp_all add: word_le_nat_alt word_unat_eq_iff unat_mod b_def)
  next
    fix x assume "x \<in> unat ` {r. - bound mod bound \<le> r \<and> r mod bound = v}"
    then obtain r where r: "x = unat r" "- bound mod bound \<le> r" "r mod bound = v" by auto
    have "N mod b \<le> unat r" using r(2) unfolding word_le_nat_alt t .
    moreover have "unat r < N" using unat_lt2p [of r] by (simp add: N_def)
    moreover have "unat r mod b = unat v" using r(3) by (simp add: b_def flip: unat_mod)
    ultimately show "x \<in> {r \<in> {N mod b..<N}. r mod b = unat v}" using r(1) by simp
  qed
  have inj: "inj_on unat {r. - bound mod bound \<le> r \<and> r mod bound = v}"
    by (simp add: inj_on_def word_unat_eq_iff)
  have "card {r. - bound mod bound \<le> r \<and> r mod bound = v}
      = card {r \<in> {N mod b..<N}. r mod b = unat v}"
    unfolding image [symmetric] by (rule card_image [OF inj, symmetric])
  also have "{N mod b..<N} = {N mod b..<N mod b + (N div b) * b}"
    by simp
  also have "card {r \<in> {N mod b..<N mod b + (N div b) * b}. r mod b = unat v} = N div b"
    by (rule residues_even [OF v])
  finally show ?thesis unfolding b_def N_def .
qed

end
