(* ===== verification/Netem_Model.thy ===== *)
theory Netem_Model
  imports Netem_Rng "HOL-Library.Signed_Division"
begin

text \<open>
  The impairment models (\<open>model.rs\<close>) and the delay distributions (\<open>dist/mod.rs\<close>). A probability is
  its numerator over \<open>2 ^ 32\<close>. An \<open>i64\<close> is an \<open>int\<close> with the saturating operations of the source
  written out. The three quantile tables of \<open>dist/tables.rs\<close>, 4096 generated numbers each, are a
  parameter: \<open>dist_tables\<close>. \<open>Prob::from_f64\<close>, the one function on floats, is not modelled.
\<close>

section \<open>Probabilities\<close>

type_synonym prob = u64

definition PPB_ONE :: u32 where
  "PPB_ONE = 1000000000"

definition from_ppb :: "u32 \<Rightarrow> prob" where
  "from_ppb ppb =
     (let ppb = if ppb > PPB_ONE then PPB_ONE else ppb
      in (push_bit 32 (ucast ppb) + ucast PPB_ONE div 2) div ucast PPB_ONE)"

definition hits :: "prob \<Rightarrow> u32 \<Rightarrow> bool" where
  "hits p draw \<longleftrightarrow> ucast draw < p"

text \<open>The written form: parts per billion.\<close>

definition to_ppb :: "prob \<Rightarrow> u32" where
  "to_ppb p = ucast (drop_bit 32 (p * ucast PPB_ONE + push_bit 31 1))"

definition prob_try_from :: "u32 \<Rightarrow> u32 + prob" where
  "prob_try_from written = (if written > PPB_ONE then Inl written else Inr (from_ppb written))"

lemma unat_from_ppb:
  "unat (from_ppb ppb) = (min (unat ppb) 1000000000 * 2 ^ 32 + 500000000) div 1000000000"
proof -
  let ?n = "min (unat ppb) 1000000000"
  define m :: u32 where "m = (if ppb > PPB_ONE then PPB_ONE else ppb)"
  have m: "unat m = ?n"
    by (auto simp: m_def PPB_ONE_def word_less_nat_alt min_def)
  then have le: "unat m \<le> 1000000000" by simp
  then have "unat (push_bit 32 (ucast m :: u64)) = unat m * 2 ^ 32"
    by (simp add: push_bit_eq_mult unat_word_ariths)
  then have "unat (push_bit 32 (ucast m :: u64) + 500000000) = unat m * 2 ^ 32 + 500000000"
    using le by (simp add: unat_plus)
  moreover have "from_ppb ppb = (push_bit 32 (ucast m) + 500000000) div 1000000000"
    by (simp add: from_ppb_def m_def PPB_ONE_def)
  ultimately show ?thesis
    by (simp add: unat_div m)
qed

lemma from_ppb_le: "unat (from_ppb ppb) \<le> 2 ^ 32"
  by (simp add: unat_from_ppb min_def) (auto simp: div_le_mono2 less_mult_imp_div_less)

lemma hits_never: "\<not> hits (from_ppb 0) draw"
  by (simp add: hits_def word_less_nat_alt unat_from_ppb)

lemma hits_always:
  assumes "1000000000 \<le> unat ppb"
  shows "hits (from_ppb ppb) draw"
  using assms unat_lt2p [of draw] by (simp add: hits_def word_less_nat_alt unat_from_ppb)

lemma to_ppb_from_ppb:
  assumes "ppb \<le> PPB_ONE"
  shows "to_ppb (from_ppb ppb) = ppb"
proof -
  let ?n = "unat ppb" and ?p = "unat (from_ppb ppb)"
  have n: "?n \<le> 1000000000" using assms by (simp add: word_le_nat_alt PPB_ONE_def)
  then have p: "?p = (?n * 2 ^ 32 + 500000000) div 1000000000"
    by (simp add: unat_from_ppb min_def)
  have b: "?n * 2 ^ 32 < ?p * 1000000000 + 500000001" "?p * 1000000000 \<le> ?n * 2 ^ 32 + 500000000"
    unfolding p by linarith+
  then have q: "(?p * 1000000000 + 2 ^ 31) div 2 ^ 32 = ?n"
    by (intro div_nat_eqI) simp_all
  have "unat (from_ppb ppb * 1000000000 + 2147483648) = ?p * 1000000000 + 2 ^ 31"
    using b n by (simp add: unat_word_ariths)
  then have "unat ((from_ppb ppb * 1000000000 + 2147483648) div 4294967296) = ?n"
    using q by (simp add: unat_div)
  then show ?thesis
    using unat_lt2p [of ppb]
    by (simp add: to_ppb_def PPB_ONE_def word_unat_eq_iff unat_ucast_u64_u32 drop_bit_eq_div)
qed

section \<open>The models\<close>

datatype loss_model =
    Bernoulli prob
  | GilbertElliott (ge_p: prob) (ge_r: prob) (ge_h: prob) (ge_one_minus_k: prob)
  | PatternLoss "u64 list"
  | EveryNth u64

datatype delay_model =
    FixedDelay u64
  | UniformDelay u64 u64 u8
  | NormalDelay u64 u64 u8
  | ParetoDelay u64 u64 u8
  | ParetoNormalDelay u64 u64 u8

record reorder_model =
  rm_gap :: u32
  rm_p :: prob

record rate_model =
  rt_bps :: u64
  rt_burst_bytes :: u64
  rt_queue_bytes :: u64

record window =
  wn_at_ns :: u64
  wn_for_ns :: u64

section \<open>Delay samples\<close>

definition sat64 :: "int \<Rightarrow> int" where
  "sat64 x = max (- (2 ^ 63)) (min (2 ^ 63 - 1) x)"

definition TABLE_SCALE :: int where
  "TABLE_SCALE = 8192"

definition TABLE_LEN :: nat where
  "TABLE_LEN = 4096"

type_synonym dist_table = "16 word list"

record dist_tables =
  dt_normal :: dist_table
  dt_pareto :: dist_table
  dt_paretonormal :: dist_table

definition tabledist :: "int \<Rightarrow> int \<Rightarrow> u32 \<Rightarrow> dist_table option \<Rightarrow> int" where
  "tabledist mu_ns sigma_ns rnd dist =
     (if sigma_ns \<le> 0 then mu_ns
      else case dist of
        None \<Rightarrow>
          (let span = sat64 (sigma_ns * 2)
           in sat64 (sat64 (uint rnd mod span + mu_ns) - sigma_ns))
      | Some table \<Rightarrow>
          (let t = sint (table ! (unat rnd mod TABLE_LEN));
               x = (sigma_ns mod TABLE_SCALE) * t;
               x = x + (if x \<ge> 0 then TABLE_SCALE div 2 else - (TABLE_SCALE div 2))
           in sat64 (sat64 (x sdiv TABLE_SCALE + sat64 ((sigma_ns div TABLE_SCALE) * t)) + mu_ns)))"

text \<open>The correlation filter; its state is the previous filtered draw.\<close>

definition crandom :: "u32 \<Rightarrow> u8 \<Rightarrow> u32 \<Rightarrow> u32" where
  "crandom lst rho draw =
     of_nat ((unat draw * (256 - unat rho) + unat lst * unat rho) div 256)"

definition saturating_ns :: "u64 \<Rightarrow> int" where
  "saturating_ns ns = (if uint ns > 2 ^ 63 - 1 then 2 ^ 63 - 1 else uint ns)"

definition drawn_delay ::
  "u64 \<Rightarrow> u64 \<Rightarrow> u8 \<Rightarrow> dist_table option \<Rightarrow> pcg32 \<Rightarrow> u32 \<Rightarrow> int \<times> pcg32 \<times> u32" where
  "drawn_delay mean_ns sigma_ns rho dist rng corr =
     (let (draw, rng) = next_u32 rng; rnd = crandom corr rho draw
      in (tabledist (saturating_ns mean_ns) (saturating_ns sigma_ns) rnd dist, rng, rnd))"

fun sample_delay :: "dist_tables \<Rightarrow> delay_model \<Rightarrow> pcg32 \<Rightarrow> u32 \<Rightarrow> int \<times> pcg32 \<times> u32" where
  "sample_delay tabs (FixedDelay mean_ns) rng corr = (saturating_ns mean_ns, rng, corr)"
| "sample_delay tabs (UniformDelay mean_ns jitter_ns rho) rng corr =
     drawn_delay mean_ns jitter_ns rho None rng corr"
| "sample_delay tabs (NormalDelay mean_ns sigma_ns rho) rng corr =
     drawn_delay mean_ns sigma_ns rho (Some (dt_normal tabs)) rng corr"
| "sample_delay tabs (ParetoDelay mean_ns sigma_ns rho) rng corr =
     drawn_delay mean_ns sigma_ns rho (Some (dt_pareto tabs)) rng corr"
| "sample_delay tabs (ParetoNormalDelay mean_ns sigma_ns rho) rng corr =
     drawn_delay mean_ns sigma_ns rho (Some (dt_paretonormal tabs)) rng corr"

text \<open>The filter answers between its last draw and the new one, and is the draw itself when nothing is
  correlated.\<close>

lemma unat_crandom:
  "unat (crandom lst rho draw) = (unat draw * (256 - unat rho) + unat lst * unat rho) div 256"
  and crandom_between:
  "min lst draw \<le> crandom lst rho draw" "crandom lst rho draw \<le> max lst draw"
proof -
  let ?x = "unat draw * (256 - unat rho) + unat lst * unat rho"
  have rho: "unat rho < 256" using unat_lt2p [of rho] by simp
  then have split: "k * (256 - unat rho) + k * unat rho = 256 * k" for k
    by (simp add: distrib_left [symmetric])
  have "?x \<le> 256 * max (unat lst) (unat draw)"
    using split [of "max (unat lst) (unat draw)"]
    by (metis add_mono max.cobounded1 max.cobounded2 mult_le_mono1)
  then have hi: "?x div 256 \<le> max (unat lst) (unat draw)" by linarith
  have "256 * min (unat lst) (unat draw) \<le> ?x"
    using split [of "min (unat lst) (unat draw)"]
    by (metis add_mono min.cobounded1 min.cobounded2 mult_le_mono1)
  then have lo: "min (unat lst) (unat draw) \<le> ?x div 256" by linarith
  have "max (unat lst) (unat draw) < 2 ^ 32"
    using unat_lt2p [of lst] unat_lt2p [of draw] by simp
  with hi have "?x div 256 < 2 ^ 32" by linarith
  then show u: "unat (crandom lst rho draw) = ?x div 256"
    by (simp add: crandom_def unat_of_nat)
  show "min lst draw \<le> crandom lst rho draw" "crandom lst rho draw \<le> max lst draw"
    using hi lo by (auto simp: word_le_nat_alt u min_def max_def split: if_splits)
qed

lemma crandom_uncorrelated: "crandom lst 0 draw = draw"
  by (rule word_unat_eq_iff [THEN iffD2]) (simp add: unat_crandom)

text \<open>A sample from a table is the mean, displaced by the deviation times the quantile, rounded half
  away from zero; the multiplication split across the fixed point computes exactly that.\<close>

definition round_half_away :: "int \<Rightarrow> int \<Rightarrow> int" where
  "round_half_away a b = (if a \<ge> 0 then (2 * a + b) div (2 * b) else - ((2 * - a + b) div (2 * b)))"

lemma split_scale:
  fixes s t :: int
  assumes "0 \<le> s"
  defines "x \<equiv> (s mod 8192) * t"
  shows "(x + (if x \<ge> 0 then 4096 else - 4096)) sdiv 8192 + (s div 8192) * t
    = round_half_away (s * t) 8192"
proof -
  define q r where "q = s div 8192" and "r = s mod 8192"
  have s: "s = q * 8192 + r" "0 \<le> r" "0 \<le> q"
    using assms(1) by (simp_all add: q_def r_def pos_imp_zdiv_nonneg_iff)
  have pos: "(r * u + 4096) div 8192 + q * u = (2 * (s * u) + 8192) div (2 * 8192)" for u
  proof -
    have "(2 * (s * u) + 8192) div (2 * 8192) = (s * u + 4096) div 8192" by simp
    also have "s * u + 4096 = (r * u + 4096) + (q * u) * 8192" by (simp add: s(1) algebra_simps)
    finally show ?thesis by simp
  qed
  show ?thesis
  proof (cases "0 \<le> t")
    case True
    then have "0 \<le> r * t" "0 \<le> s * t" using s(2) assms(1) by simp_all
    then show ?thesis
      using pos [of t] by (simp add: x_def round_half_away_def signed_divide_int_def sgn_if
          flip: q_def r_def)
  next
    case False
    then have t: "0 \<le> - t" by simp
    have st: "s * t \<le> 0" "r * t \<le> 0" using s(2) assms(1) t by (simp_all add: mult_le_0_iff)
    show ?thesis
    proof (cases "r * t = 0")
      case True
      then have "r = 0" using False by simp
      then show ?thesis
        using st pos [of "- t"] by (auto simp: x_def round_half_away_def signed_divide_int_def
            simp flip: q_def r_def)
    next
      case nz: False
      then show ?thesis
        using st pos [of "- t"]
        by (auto simp: x_def round_half_away_def signed_divide_int_def sgn_if simp flip: q_def r_def)
    qed
  qed
qed

lemma sat64_id: "- (2 ^ 63) \<le> x \<Longrightarrow> x < 2 ^ 63 \<Longrightarrow> sat64 x = x"
  by (simp add: sat64_def)

lemma round_half_away_le:
  assumes "0 \<le> s" and "- 32768 \<le> t" and "t \<le> 32768"
  shows "\<bar>round_half_away (s * t) 8192\<bar> \<le> 4 * s"
proof -
  have "s * t \<le> s * 32768" "s * - 32768 \<le> s * t"
    using assms by (intro mult_left_mono; simp)+
  then show ?thesis by (auto simp: round_half_away_def abs_if) 
qed

lemma tabledist_table:
  fixes table :: dist_table and rnd :: u32
  assumes "0 < sigma" and "sigma \<le> 2 ^ 60" and "0 \<le> mu" and "mu \<le> 2 ^ 60"
  defines "d \<equiv> round_half_away (sigma * sint (table ! (unat rnd mod TABLE_LEN))) 8192"
  shows "tabledist mu sigma rnd (Some table) = mu + d" and "\<bar>d\<bar> \<le> 4 * sigma"
proof -
  define t where "t = sint (table ! (unat rnd mod TABLE_LEN))"
  define a where "a = (sigma div 8192) * t"
  define b where "b = (let x = (sigma mod 8192) * t
    in (x + (if x \<ge> 0 then 4096 else - 4096)) sdiv 8192)"
  have t: "- 32768 \<le> t" "t \<le> 32767"
    using sint_greater_eq [of "table ! (unat rnd mod TABLE_LEN)"] sint_less [of "table ! (unat rnd mod TABLE_LEN)"]
    by (simp_all add: t_def)
  then show d: "\<bar>d\<bar> \<le> 4 * sigma"
    unfolding d_def t_def [symmetric] using assms(1) by (intro round_half_away_le) simp_all
  have sum: "b + a = d"
    using split_scale [of sigma t] assms(1) by (simp add: a_def b_def d_def t_def Let_def)
  have q: "0 \<le> sigma div 8192" "sigma div 8192 \<le> 2 ^ 47"
    using assms(1,2) by (simp_all add: pos_imp_zdiv_nonneg_iff)
  have "\<bar>a\<bar> = (sigma div 8192) * \<bar>t\<bar>" using q by (simp add: a_def abs_mult)
  also have "\<dots> \<le> 2 ^ 47 * 32768" using q t by (intro mult_mono) auto
  finally have a: "sat64 a = a" by (intro sat64_id) auto
  have "sat64 d = d" "sat64 (d + mu) = d + mu"
    using d assms(1-4) by (auto intro!: sat64_id)
  moreover have "tabledist mu sigma rnd (Some table) = sat64 (sat64 (b + sat64 a) + mu)"
    using assms(1) by (simp add: tabledist_def TABLE_SCALE_def Let_def t_def a_def b_def)
  ultimately show "tabledist mu sigma rnd (Some table) = mu + d"
    using a sum by simp
qed

lemma tabledist_uniform:
  assumes "0 < sigma" and "sigma \<le> 2 ^ 60" and "0 \<le> mu" and "mu \<le> 2 ^ 60"
  shows "mu - sigma \<le> tabledist mu sigma rnd None" and "tabledist mu sigma rnd None < mu + sigma"
proof -
  define x where "x = uint rnd mod (sigma * 2)"
  have x: "0 \<le> x" "x < sigma * 2" using assms(1) by (simp_all add: x_def)
  have "sat64 (sigma * 2) = sigma * 2" using assms by (intro sat64_id) auto
  then have "tabledist mu sigma rnd None = sat64 (sat64 (x + mu) - sigma)"
    using assms(1) by (simp add: tabledist_def x_def)
  moreover have "sat64 (x + mu) = x + mu" "sat64 (x + mu - sigma) = x + mu - sigma"
    using x assms by (auto intro!: sat64_id)
  ultimately show "mu - sigma \<le> tabledist mu sigma rnd None" "tabledist mu sigma rnd None < mu + sigma"
    using x by simp_all
qed

text \<open>Every sample lies within four deviations of its mean, for any table of 16-bit entries.\<close>

fun delay_mean :: "delay_model \<Rightarrow> int" where
  "delay_mean (FixedDelay m) = uint m"
| "delay_mean (UniformDelay m s rho) = uint m"
| "delay_mean (NormalDelay m s rho) = uint m"
| "delay_mean (ParetoDelay m s rho) = uint m"
| "delay_mean (ParetoNormalDelay m s rho) = uint m"

fun delay_spread :: "delay_model \<Rightarrow> int" where
  "delay_spread (FixedDelay m) = 0"
| "delay_spread (UniformDelay m s rho) = uint s"
| "delay_spread (NormalDelay m s rho) = 4 * uint s"
| "delay_spread (ParetoDelay m s rho) = 4 * uint s"
| "delay_spread (ParetoNormalDelay m s rho) = 4 * uint s"

lemma tabledist_spread:
  assumes "uint m \<le> 2 ^ 60" and "uint s \<le> 2 ^ 60"
  shows "\<bar>tabledist (saturating_ns m) (saturating_ns s) rnd (Some table) - uint m\<bar> \<le> 4 * uint s"
    and "\<bar>tabledist (saturating_ns m) (saturating_ns s) rnd None - uint m\<bar> \<le> uint s"
proof -
  have e: "saturating_ns m = uint m" "saturating_ns s = uint s"
    using assms by (simp_all add: saturating_ns_def)
  show "\<bar>tabledist (saturating_ns m) (saturating_ns s) rnd (Some table) - uint m\<bar> \<le> 4 * uint s"
    using tabledist_table [where sigma = "uint s" and mu = "uint m" and rnd = rnd and table = table] assms uint_nonnegative [of s]
    unfolding e by (cases "uint s = 0") (simp_all add: tabledist_def)
  show "\<bar>tabledist (saturating_ns m) (saturating_ns s) rnd None - uint m\<bar> \<le> uint s"
    using tabledist_uniform [of "uint s" "uint m" rnd] assms uint_nonnegative [of s]
    unfolding e by (cases "uint s = 0") (auto simp: tabledist_def)
qed

lemma sample_delay_spread:
  assumes "delay_mean m \<le> 2 ^ 60" and "delay_spread m \<le> 2 ^ 60"
  shows "\<bar>fst (sample_delay tabs m rng corr) - delay_mean m\<bar> \<le> delay_spread m"
  using assms
  by (cases m) (simp_all add: drawn_delay_def split_beta Let_def tabledist_spread,
      simp add: saturating_ns_def)

end
