(* ===== verification/Netem_Profile.thy ===== *)
theory Netem_Profile
  imports Netem_Model
begin

text \<open>
  Profiles, their validation and the named presets (\<open>profile.rs\<close>). A direction's profile carries a
  timeline of profiles, so the type is a recursive datatype with the source's field names as
  selectors. The lemmas say which profiles validation passes, that the presets are among them, and
  which profile of a timeline is in force.
\<close>

section \<open>Profiles\<close>

datatype dup_model = DupModel (dup_p: prob)

datatype corrupt_model = CorruptModel (corrupt_p: prob)

datatype direction_profile =
    DirectionProfile
      (dp_rate: "rate_model option")
      (dp_delay: "delay_model option")
      (dp_loss: "loss_model option")
      (dp_reorder: "reorder_model option")
      (dp_dup: "dup_model option")
      (dp_corrupt: "corrupt_model option")
      (dp_mtu_blackhole: "u16 option")
      (dp_blackouts: "window list")
      (dp_timeline: "timeline_step list")
and timeline_step = TimelineStep (ts_at_ns: u64) (ts_profile: direction_profile)

definition dp_default :: direction_profile where
  "dp_default = DirectionProfile None None None None None None None [] []"

datatype peer_filter = FilterAll | FilterOnly "socket_addr list"

record impair_profile =
  ip_downlink :: direction_profile
  ip_uplink :: direction_profile
  ip_peers :: peer_filter
  ip_seed :: u64

datatype profile_error =
    ReorderWithoutDelay
  | ReorderGapZero
  | EveryNthZero
  | TimelineNotIncreasing
  | TimelineStepAtZero
  | NestedTimeline
  | BlackoutZeroLength
  | RateQueueBelowDatagram u64 u64
  | RateWithZeroBps
  | RateBurstBelowDatagram u64 u64
  | PeerFilterMatchesNothing
  | PeerFilterEntryCannotMatch socket_addr
  | ProbabilityNotANumber

section \<open>Validation\<close>

definition ASSUMED_PATH_WIRE_BYTES :: u64 where
  "ASSUMED_PATH_WIRE_BYTES = 1500"

definition largest_on_wire_datagram :: "direction_profile \<Rightarrow> u64" where
  "largest_on_wire_datagram p =
     (case dp_mtu_blackhole p of Some mtu \<Rightarrow> ucast mtu | None \<Rightarrow> ASSUMED_PATH_WIRE_BYTES)"

definition validate_models :: "direction_profile \<Rightarrow> profile_error + unit" where
  "validate_models p =
     and_then
       (case dp_rate p of
          None \<Rightarrow> Inr ()
        | Some rate \<Rightarrow>
            (if rt_bps rate = 0 then Inl RateWithZeroBps
             else let min_wire_bytes = largest_on_wire_datagram p in
               if rt_queue_bytes rate < min_wire_bytes
               then Inl (RateQueueBelowDatagram (rt_queue_bytes rate) min_wire_bytes)
               else if rt_burst_bytes rate < min_wire_bytes
               then Inl (RateBurstBelowDatagram (rt_burst_bytes rate) min_wire_bytes)
               else Inr ())) (\<lambda>_.
     if dp_loss p = Some (EveryNth 0) then Inl EveryNthZero
     else and_then
       (case dp_reorder p of
          None \<Rightarrow> Inr ()
        | Some reorder \<Rightarrow>
            (if dp_delay p = None then Inl ReorderWithoutDelay
             else if rm_gap reorder = 0 then Inl ReorderGapZero
             else Inr ())) (\<lambda>_.
     if list_ex (\<lambda>w. wn_for_ns w = 0) (dp_blackouts p) then Inl BlackoutZeroLength else Inr ()))"

text \<open>The loop of \<open>DirectionProfile::validate\<close> over the timeline.\<close>

fun validate_steps :: "u64 option \<Rightarrow> timeline_step list \<Rightarrow> profile_error + unit" where
  "validate_steps previous [] = Inr ()"
| "validate_steps previous (step # steps) =
     and_then
       (case previous of
          None \<Rightarrow> if ts_at_ns step = 0 then Inl TimelineStepAtZero else Inr ()
        | Some prev \<Rightarrow> if ts_at_ns step \<le> prev then Inl TimelineNotIncreasing else Inr ()) (\<lambda>_.
     if dp_timeline (ts_profile step) \<noteq> [] then Inl NestedTimeline
     else and_then (validate_models (ts_profile step)) (\<lambda>_.
       validate_steps (Some (ts_at_ns step)) steps))"

definition validate_direction :: "direction_profile \<Rightarrow> profile_error + unit" where
  "validate_direction p =
     and_then (validate_models p) (\<lambda>_. validate_steps None (dp_timeline p))"

definition no_peer_can_present :: "socket_addr \<Rightarrow> bool" where
  "no_peer_can_present addr \<longleftrightarrow> addr_port addr = 0 \<or> is_unspecified (addr_ip addr)"

definition validate_profile :: "impair_profile \<Rightarrow> profile_error + unit" where
  "validate_profile p =
     and_then (validate_direction (ip_downlink p)) (\<lambda>_.
     and_then (validate_direction (ip_uplink p)) (\<lambda>_.
     case ip_peers p of
       FilterAll \<Rightarrow> Inr ()
     | FilterOnly addrs \<Rightarrow>
         if addrs = [] then Inl PeerFilterMatchesNothing
         else (case find no_peer_can_present addrs of
                 Some addr \<Rightarrow> Inl (PeerFilterEntryCannotMatch addr)
               | None \<Rightarrow> Inr ())))"

text \<open>What validation passes.\<close>

definition models_ok :: "direction_profile \<Rightarrow> bool" where
  "models_ok p \<longleftrightarrow>
     (\<forall>rate. dp_rate p = Some rate \<longrightarrow> rt_bps rate \<noteq> 0
        \<and> largest_on_wire_datagram p \<le> rt_queue_bytes rate
        \<and> largest_on_wire_datagram p \<le> rt_burst_bytes rate)
     \<and> dp_loss p \<noteq> Some (EveryNth 0)
     \<and> (\<forall>reorder. dp_reorder p = Some reorder \<longrightarrow> dp_delay p \<noteq> None \<and> rm_gap reorder \<noteq> 0)
     \<and> (\<forall>w \<in> set (dp_blackouts p). wn_for_ns w \<noteq> 0)"

definition direction_ok :: "direction_profile \<Rightarrow> bool" where
  "direction_ok p \<longleftrightarrow> models_ok p
     \<and> sorted_wrt (<) (0 # map ts_at_ns (dp_timeline p))
     \<and> (\<forall>s \<in> set (dp_timeline p). dp_timeline (ts_profile s) = [] \<and> models_ok (ts_profile s))"

lemma validate_models_ok: "validate_models p = Inr () \<longleftrightarrow> models_ok p"
  by (auto simp: validate_models_def models_ok_def Let_def and_then_eq_Inr list_ex_iff not_less
      split: option.splits if_splits)

lemma validate_steps_ok:
  "validate_steps previous steps = Inr () \<longleftrightarrow>
     sorted_wrt (<) ((case previous of None \<Rightarrow> 0 | Some t \<Rightarrow> t) # map ts_at_ns steps)
     \<and> (\<forall>s \<in> set steps. dp_timeline (ts_profile s) = [] \<and> models_ok (ts_profile s))"
proof (induction steps arbitrary: previous)
  case (Cons s steps)
  have "sorted_wrt (<) (a # b # ts) \<longleftrightarrow> a < b \<and> sorted_wrt (<) (b # ts)" for a b :: u64 and ts
    by (auto intro: less_trans)
  then show ?case
    by (cases previous)
      (auto simp: Cons and_then_eq_Inr validate_models_ok word_neq_0_conv not_le
        simp del: sorted_wrt.simps(2))
qed simp

lemma validate_direction_ok: "validate_direction p = Inr () \<longleftrightarrow> direction_ok p"
  by (simp add: validate_direction_def direction_ok_def and_then_eq_Inr validate_models_ok
      validate_steps_ok)

lemma validate_profile_ok:
  "validate_profile p = Inr () \<longleftrightarrow> direction_ok (ip_downlink p) \<and> direction_ok (ip_uplink p)
     \<and> (\<forall>addrs. ip_peers p = FilterOnly addrs \<longrightarrow>
          addrs \<noteq> [] \<and> (\<forall>a \<in> set addrs. addr_port a \<noteq> 0 \<and> \<not> is_unspecified (addr_ip a)))"
  by (auto simp: validate_profile_def and_then_eq_Inr validate_direction_ok no_peer_can_present_def
      find_None_iff find_Some_iff split: peer_filter.splits option.splits)

section \<open>The profile in force\<close>

text \<open>\<open>partition_point\<close> on a timeline in order is the number of its first steps that have landed.\<close>

definition active_profile :: "direction_profile \<Rightarrow> tick \<Rightarrow> direction_profile" where
  "active_profile p now =
     (let landed = length (takeWhile (\<lambda>step. ts_at_ns step \<le> now) (dp_timeline p))
      in if landed = 0 then p else ts_profile (dp_timeline p ! (landed - 1)))"

lemma active_profile_models_ok:
  assumes "direction_ok p"
  shows "models_ok (active_profile p now)"
proof -
  let ?n = "length (takeWhile (\<lambda>step. ts_at_ns step \<le> now) (dp_timeline p))"
  have "?n \<le> length (dp_timeline p)" by (rule length_takeWhile_le)
  then have "?n \<noteq> 0 \<Longrightarrow> dp_timeline p ! (?n - 1) \<in> set (dp_timeline p)"
    by (intro nth_mem) linarith
  with assms show ?thesis by (auto simp: direction_ok_def active_profile_def Let_def)
qed

text \<open>It is the profile of the last step at or before \<open>now\<close>, and the armed one before the first.\<close>

lemma active_profile_step:
  assumes "direction_ok p" and "dp_timeline p = before @ s # after" and "ts_at_ns s \<le> now"
    and "\<forall>s' \<in> set after. now < ts_at_ns s'"
  shows "active_profile p now = ts_profile s"
proof -
  have "sorted_wrt (<) (map ts_at_ns (dp_timeline p))"
    using assms(1) by (simp add: direction_ok_def)
  then have "\<forall>s' \<in> set before. ts_at_ns s' \<le> now"
    using assms(2,3) by (fastforce simp: sorted_wrt_append)
  moreover have "takeWhile (\<lambda>step. ts_at_ns step \<le> now) after = []"
    using assms(4) by (cases after) auto
  ultimately have "takeWhile (\<lambda>step. ts_at_ns step \<le> now) (dp_timeline p) = before @ [s]"
    using assms(2,3) by simp
  then show ?thesis using assms(2) by (simp add: active_profile_def Let_def nth_append)
qed

lemma active_profile_armed:
  "(\<forall>s \<in> set (dp_timeline p). now < ts_at_ns s) \<Longrightarrow> active_profile p now = p"
  by (cases "dp_timeline p") (auto simp: active_profile_def)

section \<open>Presets\<close>

datatype preset = Lte | Wifi | Satellite | LossyEdge | DatacentreClean | ThreeG | Bufferbloat

definition ALL_PRESETS :: "preset list" where
  "ALL_PRESETS = [Lte, Wifi, Satellite, LossyEdge, DatacentreClean, ThreeG, Bufferbloat]"

definition KIB :: u64 where "KIB = 1024"

definition MIB :: u64 where "MIB = 1024 * 1024"

definition MS :: u64 where "MS = 1000000"

definition MBPS :: u64 where "MBPS = 1000000"

definition pct_hundredths :: "u32 \<Rightarrow> prob" where
  "pct_hundredths v = from_ppb (v * 100000)"

definition rate_of :: "u64 \<Rightarrow> u64 \<Rightarrow> u64 \<Rightarrow> rate_model option" where
  "rate_of bps burst queue =
     Some \<lparr> rt_bps = bps, rt_burst_bytes = burst, rt_queue_bytes = queue \<rparr>"

definition bernoulli_of :: "u32 \<Rightarrow> loss_model option" where
  "bernoulli_of v = Some (Bernoulli (pct_hundredths v))"

definition reorder_of :: "u32 \<Rightarrow> u32 \<Rightarrow> reorder_model option" where
  "reorder_of gap v = Some \<lparr> rm_gap = gap, rm_p = pct_hundredths v \<rparr>"

definition lte :: impair_profile where
  "lte =
     \<lparr> ip_downlink = DirectionProfile (rate_of (40 * MBPS) (64 * KIB) (512 * KIB))
         (Some (NormalDelay (45 * MS) (12 * MS) 64)) (bernoulli_of 50) (reorder_of 64 200)
         None None None [] [],
       ip_uplink = DirectionProfile (rate_of (12 * MBPS) (32 * KIB) (256 * KIB))
         (Some (NormalDelay (50 * MS) (18 * MS) 64)) (bernoulli_of 80) (reorder_of 64 200)
         None None None [] [],
       ip_peers = FilterAll, ip_seed = 1 \<rparr>"

definition wifi :: impair_profile where
  "wifi =
     \<lparr> ip_downlink = DirectionProfile (rate_of (90 * MBPS) (128 * KIB) (512 * KIB))
         (Some (ParetoDelay (6 * MS) (3 * MS) 32)) (bernoulli_of 20) (reorder_of 128 100)
         (Some (DupModel (pct_hundredths 10))) None None [] [],
       ip_uplink = DirectionProfile (rate_of (45 * MBPS) (64 * KIB) (256 * KIB))
         (Some (ParetoDelay (7 * MS) (4 * MS) 32)) (bernoulli_of 20) (reorder_of 128 100)
         (Some (DupModel (pct_hundredths 10))) None None [] [],
       ip_peers = FilterAll, ip_seed = 2 \<rparr>"

definition satellite :: impair_profile where
  "satellite =
     \<lparr> ip_downlink = DirectionProfile (rate_of (25 * MBPS) (256 * KIB) (2 * MIB))
         (Some (FixedDelay (280 * MS))) (bernoulli_of 10) None None None (Some 1400) [] [],
       ip_uplink = DirectionProfile (rate_of (3 * MBPS) (64 * KIB) (512 * KIB))
         (Some (FixedDelay (290 * MS))) (bernoulli_of 10) None None None (Some 1400) [] [],
       ip_peers = FilterAll, ip_seed = 3 \<rparr>"

definition lossy_edge :: impair_profile where
  "lossy_edge =
     (let burst_loss = GilbertElliott (pct_hundredths 200) (pct_hundredths 4000)
                         (pct_hundredths 6000) (pct_hundredths 20)
      in
     \<lparr> ip_downlink = DirectionProfile (rate_of (10 * MBPS) (32 * KIB) (128 * KIB))
         (Some (UniformDelay (35 * MS) (20 * MS) 0)) (Some burst_loss) (reorder_of 32 500)
         None (Some (CorruptModel (pct_hundredths 5))) None [] [],
       ip_uplink = DirectionProfile (rate_of (5 * MBPS) (16 * KIB) (64 * KIB))
         (Some (UniformDelay (40 * MS) (25 * MS) 0)) (Some burst_loss) (reorder_of 32 500)
         None (Some (CorruptModel (pct_hundredths 5))) None [] [],
       ip_peers = FilterAll, ip_seed = 4 \<rparr>)"

definition datacentre_clean :: impair_profile where
  "datacentre_clean =
     (let one_way = DirectionProfile (rate_of (1000 * MBPS) MIB (4 * MIB))
                      (Some (FixedDelay 250000)) None None None None None [] []
      in \<lparr> ip_downlink = one_way, ip_uplink = one_way, ip_peers = FilterAll, ip_seed = 5 \<rparr>)"

definition three_g :: impair_profile where
  "three_g =
     \<lparr> ip_downlink = DirectionProfile (rate_of (3 * MBPS) (32 * KIB) (256 * KIB))
         (Some (ParetoNormalDelay (180 * MS) (60 * MS) 96)) (bernoulli_of 100) (reorder_of 32 300)
         None None None [] [],
       ip_uplink = DirectionProfile (rate_of MBPS (16 * KIB) (128 * KIB))
         (Some (ParetoNormalDelay (220 * MS) (90 * MS) 96)) (bernoulli_of 150) (reorder_of 32 300)
         None None None [] [],
       ip_peers = FilterAll, ip_seed = 6 \<rparr>"

definition bufferbloat :: impair_profile where
  "bufferbloat =
     \<lparr> ip_downlink = DirectionProfile (rate_of (20 * MBPS) (64 * KIB) (4 * MIB))
         (Some (FixedDelay (8 * MS))) (bernoulli_of 5) None None None None [] [],
       ip_uplink = DirectionProfile (rate_of (5 * MBPS) (32 * KIB) (2 * MIB))
         (Some (FixedDelay (10 * MS))) (bernoulli_of 5) None None None None [] [],
       ip_peers = FilterAll, ip_seed = 7 \<rparr>"

definition preset_profile :: "preset \<Rightarrow> impair_profile" where
  "preset_profile p =
     (case p of
        Lte \<Rightarrow> lte
      | Wifi \<Rightarrow> wifi
      | Satellite \<Rightarrow> satellite
      | LossyEdge \<Rightarrow> lossy_edge
      | DatacentreClean \<Rightarrow> datacentre_clean
      | ThreeG \<Rightarrow> three_g
      | Bufferbloat \<Rightarrow> bufferbloat)"

lemma ALL_PRESETS_complete: "p \<in> set ALL_PRESETS"
  by (cases p) (simp_all add: ALL_PRESETS_def)

lemmas preset_defs =
  lte_def wifi_def satellite_def lossy_edge_def datacentre_clean_def three_g_def bufferbloat_def
  rate_of_def bernoulli_of_def reorder_of_def KIB_def MIB_def MS_def MBPS_def
  ASSUMED_PATH_WIRE_BYTES_def Let_def

lemma presets_validate: "validate_profile (preset_profile p) = Inr ()"
  unfolding validate_profile_ok
  by (cases p) (simp_all add: preset_profile_def preset_defs direction_ok_def models_ok_def
      largest_on_wire_datagram_def)

lemma presets_distinct_seeds: "distinct (map (\<lambda>p. ip_seed (preset_profile p)) ALL_PRESETS)"
  by (simp add: ALL_PRESETS_def preset_profile_def preset_defs)

end
