(* ===== verification/Netem_Queue.thy ===== *)
theory Netem_Queue
  imports Netem_Base
begin

text \<open>
  The token bucket and the bounded byte queue (\<open>queue.rs\<close>). Both count nano-bytes in a \<open>u128\<close>, a
  \<open>nat\<close> here: one operation adds at most \<open>2 ^ 32\<close> bytes, so a count needs \<open>2 ^ 66\<close> operations that
  never drain to reach \<open>2 ^ 128\<close>. Ticks stay 64-bit words, with the saturating arithmetic of the
  source.

  The lemmas: what a run of the bucket releases between two ticks is at most the rate times the
  elapsed time and one burst; the queue never holds more than its threshold, and refuses as
  congestion only with a backlog; and, when one rate drives both, the bucket's deficit is the
  queue's backlog, so the threshold bounds how long the bucket holds a datagram.
\<close>

section \<open>The code\<close>

definition NANO :: nat where
  "NANO = 1000000000"

datatype rate_grant = GrantNow | GrantLater tick | GrantNever

record bucket_state =
  bk_deficit :: nat
  bk_last :: tick

definition bucket_default :: bucket_state where
  "bucket_default = \<lparr> bk_deficit = 0, bk_last = 0 \<rparr>"

definition available_bytes :: "bucket_state \<Rightarrow> u64 \<Rightarrow> nat" where
  "available_bytes st burst_bytes = min ((unat burst_bytes * NANO - bk_deficit st) div NANO) (2 ^ 64 - 1)"

definition reserve :: "u32 \<Rightarrow> bucket_state \<Rightarrow> bucket_state" where
  "reserve bytes st = st\<lparr> bk_deficit := bk_deficit st + unat bytes * NANO \<rparr>"

definition refill :: "u64 \<Rightarrow> tick \<Rightarrow> bucket_state \<Rightarrow> bucket_state" where
  "refill rate now st =
     (let elapsed = since now (bk_last st) in
      if elapsed > 0
      then st\<lparr> bk_deficit := bk_deficit st - unat elapsed * unat rate, bk_last := now \<rparr> else st)"

definition div_ceil :: "nat \<Rightarrow> nat \<Rightarrow> nat" where
  "div_ceil a b = (a + b - 1) div b"

definition charge ::
  "bucket_state \<Rightarrow> u64 \<Rightarrow> u64 \<Rightarrow> u32 \<Rightarrow> tick \<Rightarrow> rate_grant \<times> bucket_state" where
  "charge st rate_bps burst_bytes bytes now =
     (let st = refill rate_bps now st;
          cap = unat burst_bytes * NANO;
          need = unat bytes * NANO;
          held = cap - bk_deficit st
      in if held \<ge> need then (GrantNow, st\<lparr> bk_deficit := bk_deficit st + need \<rparr>)
         else if rate_bps = 0 \<or> need > cap then (GrantNever, st)
         else let shortfall = bk_deficit st - (cap - need);
                  wait_ns = div_ceil shortfall (unat rate_bps)
              in (GrantLater (saturating_add_ns (bk_last st)
                    (if wait_ns < 2 ^ 64 then of_nat wait_ns else - 1)), st))"

datatype admission = Queued | TailDropped | NeverFits

record queue_state =
  qu_backlog :: nat
  qu_last :: tick

definition queue_default :: queue_state where
  "queue_default = \<lparr> qu_backlog = 0, qu_last = 0 \<rparr>"

definition backlog_bytes :: "queue_state \<Rightarrow> u64" where
  "backlog_bytes st =
     (let b = div_ceil (qu_backlog st) NANO in if b < 2 ^ 64 then of_nat b else - 1)"

definition withdraw :: "u32 \<Rightarrow> queue_state \<Rightarrow> queue_state" where
  "withdraw bytes st = st\<lparr> qu_backlog := qu_backlog st - unat bytes * NANO \<rparr>"

definition drain :: "u64 \<Rightarrow> tick \<Rightarrow> queue_state \<Rightarrow> queue_state" where
  "drain rate now st =
     (let elapsed = since now (qu_last st) in
      if elapsed > 0
      then st\<lparr> qu_backlog := qu_backlog st - unat elapsed * unat rate, qu_last := now \<rparr> else st)"

definition offer ::
  "queue_state \<Rightarrow> u64 \<Rightarrow> u64 \<Rightarrow> u32 \<Rightarrow> tick \<Rightarrow> admission \<times> queue_state" where
  "offer st rate_bps threshold_bytes bytes now =
     (let st = drain rate_bps now st;
          cap = unat threshold_bytes * NANO;
          need = unat bytes * NANO
      in if need > cap then (NeverFits, st)
         else if qu_backlog st + need > cap then (TailDropped, st)
         else (Queued, st\<lparr> qu_backlog := qu_backlog st + need \<rparr>))"

section \<open>One operation\<close>

text \<open>Both states leak: what is left at \<open>now\<close> of a count that stood at \<open>t0\<close>.\<close>

definition leak :: "u64 \<Rightarrow> tick \<Rightarrow> tick \<Rightarrow> nat \<Rightarrow> nat" where
  "leak rate t0 now x = x - unat (since now t0) * unat rate"

lemma since_pos_iff: "since now t0 > 0 \<longleftrightarrow> t0 < now"
  by (simp add: word_less_nat_alt unat_since)

lemma since_zero: "\<not> t0 < now \<Longrightarrow> since now t0 = 0"
  by (rule word_unat_eq_iff [THEN iffD2]) (simp add: unat_since word_less_nat_alt)

lemma refill_state:
  "bk_deficit (refill rate now st) = leak rate (bk_last st) now (bk_deficit st)"
  "bk_last (refill rate now st) = max (bk_last st) now"
  unfolding refill_def leak_def Let_def since_pos_iff
  by (cases "bk_last st < now"; simp add: since_zero max.absorb1 max.absorb2)+

lemma drain_state:
  "qu_backlog (drain rate now st) = leak rate (qu_last st) now (qu_backlog st)"
  "qu_last (drain rate now st) = max (qu_last st) now"
  unfolding drain_def leak_def Let_def since_pos_iff
  by (cases "qu_last st < now"; simp add: since_zero max.absorb1 max.absorb2)+

lemma leak_leak:
  "a \<le> b \<Longrightarrow> b \<le> c \<Longrightarrow> leak rate b c (leak rate a b x) = leak rate a c x"
  by (simp add: leak_def unat_since word_le_nat_alt diff_mult_distrib flip: diff_diff_add)

lemma div_ceil_le: "0 < b \<Longrightarrow> a \<le> div_ceil a b * b"
proof -
  assume "0 < b"
  then have "a + b - 1 = div_ceil a b * b + (a + b - 1) mod b" "(a + b - 1) mod b < b"
    by (simp_all add: div_ceil_def)
  then show ?thesis by linarith
qed

lemma div_ceil_less: "0 < b \<Longrightarrow> 0 < a \<Longrightarrow> div_ceil a b * b < a + b"
proof -
  assume "0 < b" "0 < a"
  moreover have "div_ceil a b * b \<le> a + b - 1"
    by (simp add: div_ceil_def)
  ultimately show ?thesis by linarith
qed

lemma div_ceil_pos: "0 < b \<Longrightarrow> 0 < div_ceil a b \<longleftrightarrow> 0 < a"
  by (auto simp: div_ceil_def div_greater_zero_iff)

text \<open>Saturation aside, a \<open>Later\<close> grant is the first tick at which the tokens are there.\<close>

lemma charge_cases:
  assumes "bk_last st \<le> now" and "charge st rate burst n now = (g, st')"
  defines "d \<equiv> leak rate (bk_last st) now (bk_deficit st)"
    and "cap \<equiv> unat burst * NANO" and "need \<equiv> unat n * NANO"
  shows "bk_last st' = now"
    and "g = GrantNow \<Longrightarrow> bk_deficit st' = d + need \<and> (d + need \<le> cap \<or> need = 0)"
    and "g = GrantNever \<Longrightarrow> bk_deficit st' = d"
    and "g = GrantLater t \<Longrightarrow> t \<noteq> - 1 \<Longrightarrow>
      bk_deficit st' = d \<and> need \<le> cap \<and> now < t
      \<and> d + need \<le> cap + (unat t - unat now) * unat rate
      \<and> cap + (unat t - unat now) * unat rate < d + need + unat rate"
proof -
  let ?st = "refill rate now st"
  have st: "bk_deficit ?st = d" "bk_last ?st = now"
    using assms(1) by (simp_all add: refill_state d_def max.absorb2)
  note run = assms(2) [unfolded charge_def Let_def st, folded cap_def need_def]
  show "bk_last st' = now"
    using run st by (auto split: if_splits)
  show "g = GrantNow \<Longrightarrow> bk_deficit st' = d + need \<and> (d + need \<le> cap \<or> need = 0)"
    using run st by (auto split: if_splits)
  show "g = GrantNever \<Longrightarrow> bk_deficit st' = d"
    using run st by (auto split: if_splits)
  assume later: "g = GrantLater t" and t: "t \<noteq> - 1"
  define w where "w = div_ceil (d - (cap - need)) (unat rate)"
  have c: "\<not> need \<le> cap - d" "rate \<noteq> 0" "need \<le> cap" "st' = ?st"
      "t = saturating_add_ns now (if w < 2 ^ 64 then of_nat w else - 1)"
    using run later by (auto simp: w_def split: if_splits)
  have rate: "0 < unat rate" using c(2) by (simp add: unat_gt_0)
  have "unat t \<noteq> 2 ^ 64 - 1" using t by (simp add: eq_max_word_iff)
  then have w: "unat t = unat now + w"
    using c(5) unat_lt2p [of now]
    by (auto simp: unat_saturating_add_ns unat_of_nat unat_max_word min_def split: if_splits)
  have pos: "0 < d - (cap - need)" using c(1,3) by linarith
  have "d - (cap - need) \<le> w * unat rate" "w * unat rate < d - (cap - need) + unat rate"
    using div_ceil_le [OF rate] div_ceil_less [OF rate pos] by (simp_all add: w_def)
  moreover have "0 < w" using div_ceil_pos [OF rate] pos by (simp add: w_def)
  ultimately show "bk_deficit st' = d \<and> need \<le> cap \<and> now < t
      \<and> d + need \<le> cap + (unat t - unat now) * unat rate
      \<and> cap + (unat t - unat now) * unat rate < d + need + unat rate"
    using c st w by (auto simp: word_less_nat_alt)
qed

section \<open>Runs of the bucket\<close>

text \<open>The engine sends at once what is granted now, and reserves the tokens of what is granted later:
  the tick at which a datagram leaves, if it ever does.\<close>

definition schedule ::
  "u64 \<Rightarrow> u64 \<Rightarrow> u32 \<Rightarrow> tick \<Rightarrow> bucket_state \<Rightarrow> tick option \<times> bucket_state" where
  "schedule rate burst n now st =
     (case charge st rate burst n now of
        (GrantNow, st') \<Rightarrow> (Some now, st')
      | (GrantLater at, st') \<Rightarrow> (Some at, reserve n st')
      | (GrantNever, st') \<Rightarrow> (None, st'))"

fun shaped :: "u64 \<Rightarrow> u64 \<Rightarrow> bucket_state \<Rightarrow> (u32 \<times> tick) list \<Rightarrow> (u32 \<times> tick) list" where
  "shaped rate burst st [] = []"
| "shaped rate burst st ((n, now) # ps) =
     (case schedule rate burst n now st of
        (Some at, st') \<Rightarrow> (n, at) # shaped rate burst st' ps
      | (None, st') \<Rightarrow> shaped rate burst st' ps)"

definition released_bytes :: "(u32 \<times> tick) list \<Rightarrow> nat" where
  "released_bytes gs = (\<Sum>(n, t)\<leftarrow>gs. unat n)"

lemma schedule_some:
  assumes "bk_last st \<le> now" and "schedule rate burst n now st = (Some t, st')" and "t \<noteq> - 1"
    and "n \<noteq> 0"
  defines "cap \<equiv> unat burst * NANO"
  shows "bk_last st' = now" "now \<le> t" "unat n * NANO \<le> cap"
    "bk_deficit st' = leak rate (bk_last st) now (bk_deficit st) + unat n * NANO"
    "bk_deficit st' \<le> cap + (unat t - unat now) * unat rate"
    "t = now \<or> cap + (unat t - unat now) * unat rate < bk_deficit st' + unat rate"
proof -
  obtain g st1 where run: "charge st rate burst n now = (g, st1)" by fastforce
  note cases = charge_cases [OF assms(1) run, folded cap_def]
  have n: "0 < unat n * NANO" using assms(4) by (simp add: NANO_def unat_gt_0)
  have "bk_last st' = now \<and> now \<le> t \<and> unat n * NANO \<le> cap
    \<and> bk_deficit st' = leak rate (bk_last st) now (bk_deficit st) + unat n * NANO
    \<and> bk_deficit st' \<le> cap + (unat t - unat now) * unat rate
    \<and> (t = now \<or> cap + (unat t - unat now) * unat rate < bk_deficit st' + unat rate)"
  proof (cases g)
    case GrantNow
    with assms(2) run have "t = now" "st' = st1" by (simp_all add: schedule_def)
    with cases(1) cases(2) [OF GrantNow] n show ?thesis by auto
  next
    case (GrantLater at)
    with assms(2) run have "at = t" "st' = reserve n st1" by (simp_all add: schedule_def)
    with cases(1) cases(4) [OF GrantLater] assms(3) show ?thesis by (auto simp: reserve_def)
  next
    case GrantNever
    with assms(2) run show ?thesis by (simp add: schedule_def)
  qed
  then show "bk_last st' = now" "now \<le> t" "unat n * NANO \<le> cap"
    "bk_deficit st' = leak rate (bk_last st) now (bk_deficit st) + unat n * NANO"
    "bk_deficit st' \<le> cap + (unat t - unat now) * unat rate"
    "t = now \<or> cap + (unat t - unat now) * unat rate < bk_deficit st' + unat rate" by blast+
qed

lemma schedule_none:
  assumes "bk_last st \<le> now" and "schedule rate burst n now st = (None, st')"
  shows "bk_last st' = now" "bk_deficit st' = leak rate (bk_last st) now (bk_deficit st)"
proof -
  obtain g st1 where run: "charge st rate burst n now = (g, st1)" by fastforce
  then have "g = GrantNever" "st' = st1"
    using assms(2) by (auto simp: schedule_def split: rate_grant.splits)
  then show "bk_last st' = now" "bk_deficit st' = leak rate (bk_last st) now (bk_deficit st)"
    using charge_cases(1,3) [OF assms(1) run] by simp_all
qed

lemma leak_ge: "x \<le> leak rate t0 now x + (unat now - unat t0) * unat rate"
  by (simp add: leak_def unat_since)

text \<open>Ticks that do not go back, from the bucket's own clock on.\<close>

fun ticks_from :: "tick \<Rightarrow> ('a \<times> tick) list \<Rightarrow> bool" where
  "ticks_from t0 [] \<longleftrightarrow> True"
| "ticks_from t0 ((n, now) # ps) \<longleftrightarrow> t0 \<le> now \<and> ticks_from now ps"

definition nonempty :: "(u32 \<times> tick) list \<Rightarrow> bool" where
  "nonempty ps \<longleftrightarrow> (\<forall>(n, t) \<in> set ps. n \<noteq> 0)"

lemma span_add:
  "a \<le> b \<Longrightarrow> b \<le> c \<Longrightarrow> (unat b - unat a) * r + (unat c - unat b) * r = (unat c - unat a) * r"
  for a b c :: tick
  by (simp add: word_le_nat_alt flip: add_mult_distrib)

lemma shaped_after:
  assumes "ticks_from (bk_last st) ps" and "nonempty ps" and "shaped rate burst st ps = gs"
    and "gs \<noteq> []" and "\<forall>g \<in> set gs. snd g \<noteq> - 1"
  shows "bk_last st \<le> snd (last gs) \<and>
    bk_deficit st + released_bytes gs * NANO
      \<le> unat burst * NANO + (unat (snd (last gs)) - unat (bk_last st)) * unat rate"
  using assms
proof (induction ps arbitrary: st gs)
  case (Cons p ps)
  obtain n now where p: "p = (n, now)" by fastforce
  have le: "bk_last st \<le> now" and n: "n \<noteq> 0" using Cons.prems(1,2) by (simp_all add: p nonempty_def)
  have tail: "ticks_from now ps" "nonempty ps"
    using Cons.prems(1,2) by (auto simp: p nonempty_def)
  obtain r st' where run: "schedule rate burst n now st = (r, st')" by fastforce
  show ?case
  proof (cases r)
    case None
    note s = schedule_none [OF le run [unfolded None]]
    have "shaped rate burst st' ps = gs" using Cons.prems(3) run None by (simp add: p)
    from Cons.IH [OF _ _ this Cons.prems(4,5)] tail s(1)
    have ih: "now \<le> snd (last gs)" "bk_deficit st' + released_bytes gs * NANO
        \<le> unat burst * NANO + (unat (snd (last gs)) - unat now) * unat rate" by simp_all
    then show ?thesis
      using leak_ge [of "bk_deficit st" rate "bk_last st" now] s(2) le span_add [OF le ih(1), of "unat rate"]
      by auto
  next
    case (Some t)
    define rest where "rest = shaped rate burst st' ps"
    have gs: "gs = (n, t) # rest" using Cons.prems(3) run Some by (simp add: p rest_def)
    then have "t \<noteq> - 1" using Cons.prems(5) by simp
    note s = schedule_some [OF le run [unfolded Some] this n]
    have d: "bk_deficit st + unat n * NANO
        \<le> bk_deficit st' + (unat now - unat (bk_last st)) * unat rate"
      using leak_ge [of "bk_deficit st" rate "bk_last st" now] s(4) by simp
    show ?thesis
    proof (cases "rest = []")
      case True
      then show ?thesis
        using d s(2,5) le span_add [OF le s(2), of "unat rate"] gs by (auto simp: released_bytes_def)
    next
      case False
      have ih: "now \<le> snd (last rest)" "bk_deficit st' + released_bytes rest * NANO
          \<le> unat burst * NANO + (unat (snd (last rest)) - unat now) * unat rate"
        using Cons.IH [of st' rest] tail s(1) False Cons.prems(5) gs by (simp_all add: rest_def)
      have "released_bytes gs = unat n + released_bytes rest" "last gs = last rest"
        using gs False by (simp_all add: released_bytes_def)
      then show ?thesis
        using d ih le span_add [OF le ih(1), of "unat rate"] by (auto simp: distrib_right)
    qed
  qed
qed simp

text \<open>Between the release of a datagram and that of any later one, the link carries at most one burst
  and what the rate allows for the time between, up to the tick a deadline is rounded up to.\<close>

lemma shaped_window:
  assumes "ticks_from (bk_last st) ps" and "nonempty ps"
    and "shaped rate burst st ps = (n, t1) # gs" and "\<forall>g \<in> set ((n, t1) # gs). snd g \<noteq> - 1"
  defines "t2 \<equiv> snd (last ((n, t1) # gs))"
  shows "t1 \<le> t2 \<and> released_bytes ((n, t1) # gs) * NANO
      \<le> unat burst * NANO + (unat t2 - unat t1 + 1) * unat rate"
  using assms(1-3)
proof (induction ps arbitrary: st)
  case (Cons p ps)
  obtain m now where p: "p = (m, now)" by fastforce
  have le: "bk_last st \<le> now" and m: "m \<noteq> 0" using Cons.prems(1,2) by (simp_all add: p nonempty_def)
  have tail: "ticks_from now ps" "nonempty ps"
    using Cons.prems(1,2) by (auto simp: p nonempty_def)
  obtain r st' where run: "schedule rate burst m now st = (r, st')" by fastforce
  show ?case
  proof (cases r)
    case None
    note s = schedule_none [OF le run [unfolded None]]
    show ?thesis
      using Cons.IH [of st'] Cons.prems(3) run None tail s(1) by (simp add: p)
  next
    case (Some t)
    then have e: "m = n" "t = t1" "shaped rate burst st' ps = gs"
      using Cons.prems(3) run by (simp_all add: p)
    then have "t1 \<noteq> - 1" using assms(4) by simp
    note s = schedule_some [OF le run [unfolded Some e] this m [unfolded e]]
    show ?thesis
    proof (cases "gs = []")
      case True
      then show ?thesis using s(3) by (auto simp: t2_def released_bytes_def intro: trans_le_add1)
    next
      case False
      then have t2: "t2 = snd (last gs)" by (simp add: t2_def)
      have after: "now \<le> t2" "bk_deficit st' + released_bytes gs * NANO
          \<le> unat burst * NANO + (unat t2 - unat now) * unat rate"
        using shaped_after [OF _ tail(2) e(3) False] tail(1) s(1) assms(4) by (simp_all add: t2)
      have "unat n * NANO \<le> bk_deficit st'" using s(4) by simp
      show ?thesis
      proof (cases "t1 = now")
        case True
        have "unat n * NANO \<le> bk_deficit st'" using s(4) by simp
        with after True show ?thesis by (simp add: released_bytes_def distrib_right)
      next
        case False
        then have "unat burst * NANO + (unat t1 - unat now) * unat rate < bk_deficit st' + unat rate"
          using s(6) by simp
        with after(2) have lt: "(unat t1 - unat now) * unat rate + released_bytes gs * NANO
            < (unat t2 - unat now + 1) * unat rate" by (simp add: distrib_right)
        then have "(unat t1 - unat now) * unat rate < (unat t2 - unat now + 1) * unat rate"
          by linarith
        then have "unat t1 - unat now < unat t2 - unat now + 1" by (simp only: mult_less_cancel2)
        then have le2: "t1 \<le> t2" using s(2) after(1) by (simp add: word_le_nat_alt)
        have "(unat t2 - unat now + 1) * unat rate
            = (unat t1 - unat now) * unat rate + (unat t2 - unat t1 + 1) * unat rate"
          using span_add [OF s(2) le2, of "unat rate"] by (simp add: distrib_right)
        then have "released_bytes gs * NANO < (unat t2 - unat t1 + 1) * unat rate"
          using lt by linarith
        moreover have "released_bytes ((n, t1) # gs) * NANO = unat n * NANO + released_bytes gs * NANO"
          by (simp add: released_bytes_def distrib_right)
        ultimately show ?thesis using s(3) le2 by linarith
      qed
    qed
  qed
qed simp

section \<open>The queue\<close>

lemma offer_bound:
  assumes "qu_backlog st \<le> unat threshold * NANO" and "offer st rate threshold n now = (a, st')"
  shows "qu_backlog st' \<le> unat threshold * NANO"
proof -
  have "qu_backlog (drain rate now st) \<le> qu_backlog st" by (simp add: drain_state leak_def)
  with assms show ?thesis by (auto simp: offer_def Let_def split: if_splits)
qed

lemma offer_cases:
  "offer st rate threshold n now = (a, st') \<longleftrightarrow>
    (let q = drain rate now st; cap = unat threshold * NANO; need = unat n * NANO in
     (a = NeverFits \<and> unat n > unat threshold \<and> st' = q)
     \<or> (a = TailDropped \<and> unat n \<le> unat threshold \<and> qu_backlog q + need > cap \<and> st' = q)
     \<or> (a = Queued \<and> qu_backlog q + need \<le> cap \<and> st' = q\<lparr> qu_backlog := qu_backlog q + need \<rparr>))"
  by (auto simp: offer_def Let_def NANO_def)

lemma backlog_bytes_0: "backlog_bytes st = 0 \<longleftrightarrow> qu_backlog st = 0"
proof -
  let ?b = "div_ceil (qu_backlog st) NANO"
  have "backlog_bytes st = 0 \<longleftrightarrow> ?b = 0"
    by (auto simp: backlog_bytes_def Let_def word_unat_eq_iff unat_of_nat unat_max_word)
  moreover have "0 < ?b \<longleftrightarrow> 0 < qu_backlog st"
    by (rule div_ceil_pos) (simp add: NANO_def)
  ultimately show ?thesis by linarith
qed

text \<open>A tail drop is reported with a backlog.\<close>

lemma tail_drop_congested:
  assumes "offer st rate threshold n now = (TailDropped, st')"
  shows "backlog_bytes st' \<noteq> 0"
  using assms by (auto simp: offer_cases Let_def backlog_bytes_0 NANO_def)

lemma withdraw_offer:
  assumes "offer st rate threshold n now = (Queued, st')"
  shows "withdraw n st' = drain rate now st"
  using assms by (auto simp: offer_cases Let_def withdraw_def)

end
