(* ===== verification/Netem_Engine.thy ===== *)
theory Netem_Engine
  imports Netem_Profile Netem_Queue
begin

text \<open>
  The impairment engine of one direction (\<open>engine.rs\<close>). \<open>decide\<close> runs the nine stages in the order of
  the source; each stage is a function that takes the engine and gives it back with the streams and
  the state it used. \<open>None\<close> is a panic or a draw that never returns, and \<open>decide_ok\<close> shows there is
  neither. Counters are natural numbers: a \<open>u64\<close> of them overflows after \<open>2 ^ 64\<close> datagrams or bytes.
\<close>

section \<open>State\<close>

datatype gilbert_state = Good | Bad

record streams =
  st_loss :: pcg32
  st_delay :: pcg32
  st_reorder :: pcg32
  st_dup :: pcg32
  st_corrupt :: pcg32
  st_rate_queue :: pcg32
  st_delay_corr :: u32
  st_gilbert :: gilbert_state

definition streams_seeded :: "u64 \<Rightarrow> direction \<Rightarrow> streams" where
  "streams_seeded seed d =
     (let ids = stream_ids d in
      \<lparr> st_loss = seeded seed (ids ! 0), st_delay = seeded seed (ids ! 1),
        st_reorder = seeded seed (ids ! 2), st_dup = seeded seed (ids ! 3),
        st_corrupt = seeded seed (ids ! 4), st_rate_queue = seeded seed (ids ! 5),
        st_delay_corr = 0, st_gilbert = Good \<rparr>)"

datatype verdict = Pass | Delay | Reorder | Drop

datatype drop_cause =
    NotDropped
  | Loss
  | Blackout
  | Mtu
  | RateQueueFull
  | RateOversize

record corrupt_site =
  cs_byte_offset :: u32
  cs_bit :: u8

record decision =
  de_verdict :: verdict
  de_cause :: drop_cause
  de_release :: tick
  de_duplicate :: "tick option"
  de_corrupt :: "corrupt_site option"
  de_queue_backlog_bytes :: u64

text \<open>The accessor \<open>Decision::cause\<close>.\<close>

definition decision_cause :: "decision \<Rightarrow> drop_cause" where
  "decision_cause d = (if de_verdict d = Drop then de_cause d else NotDropped)"

record counters =
  ct_seen :: nat
  ct_passed :: nat
  ct_delayed :: nat
  ct_reordered :: nat
  ct_duplicated :: nat
  ct_corrupted :: nat
  ct_dropped_loss :: nat
  ct_dropped_blackout :: nat
  ct_dropped_mtu :: nat
  ct_dropped_queue_full :: nat
  ct_dropped_rate_oversize :: nat
  ct_wire_bytes_in :: nat
  ct_wire_bytes_out :: nat
  ct_backlog_max :: u64

definition counters_default :: counters where
  "counters_default =
     \<lparr> ct_seen = 0, ct_passed = 0, ct_delayed = 0, ct_reordered = 0, ct_duplicated = 0,
       ct_corrupted = 0, ct_dropped_loss = 0, ct_dropped_blackout = 0, ct_dropped_mtu = 0,
       ct_dropped_queue_full = 0, ct_dropped_rate_oversize = 0, ct_wire_bytes_in = 0,
       ct_wire_bytes_out = 0, ct_backlog_max = 0 \<rparr>"

record impairer =
  im_profile :: direction_profile
  im_direction :: direction
  im_streams :: streams
  im_bucket :: bucket_state
  im_queue :: queue_state
  im_counters :: counters

section \<open>Building an engine\<close>

definition normalise_loss :: "loss_model option \<Rightarrow> loss_model option" where
  "normalise_loss m =
     (case m of Some (PatternLoss indices) \<Rightarrow> Some (PatternLoss (remdups_adj (sort indices)))
      | _ \<Rightarrow> m)"

definition normalise_models :: "direction_profile \<Rightarrow> timeline_step list \<Rightarrow> direction_profile" where
  "normalise_models p timeline =
     DirectionProfile (dp_rate p) (dp_delay p) (normalise_loss (dp_loss p)) (dp_reorder p)
       (dp_dup p) (dp_corrupt p) (dp_mtu_blackhole p) (dp_blackouts p) timeline"

definition normalise_patterns :: "direction_profile \<Rightarrow> direction_profile" where
  "normalise_patterns p =
     normalise_models p
       (map (\<lambda>step. TimelineStep (ts_at_ns step)
                (normalise_models (ts_profile step) (dp_timeline (ts_profile step))))
            (dp_timeline p))"

definition impairer_new ::
  "direction_profile \<Rightarrow> u64 \<Rightarrow> direction \<Rightarrow> profile_error + impairer" where
  "impairer_new profile seed d =
     and_then (validate_direction profile) (\<lambda>_.
     Inr \<lparr> im_profile = normalise_patterns profile, im_direction = d,
           im_streams = streams_seeded seed d, im_bucket = bucket_default,
           im_queue = queue_default, im_counters = counters_default \<rparr>)"

definition reseed :: "u64 \<Rightarrow> impairer \<Rightarrow> impairer" where
  "reseed seed e =
     e\<lparr> im_streams :=
          (streams_seeded seed (im_direction e))\<lparr> st_gilbert := st_gilbert (im_streams e) \<rparr> \<rparr>"

section \<open>The stages of a decision\<close>

definition window_contains :: "window \<Rightarrow> tick \<Rightarrow> bool" where
  "window_contains w now \<longleftrightarrow> now \<ge> wn_at_ns w \<and> now - wn_at_ns w < wn_for_ns w"

fun gilbert_step ::
  "gilbert_state \<Rightarrow> prob \<Rightarrow> prob \<Rightarrow> prob \<Rightarrow> prob \<Rightarrow> u32 \<Rightarrow> u32 \<Rightarrow> bool \<times> gilbert_state" where
  "gilbert_step Good p r h one_minus_k transition_draw decision_draw =
     (hits one_minus_k decision_draw, if hits p transition_draw then Bad else Good)"
| "gilbert_step Bad p r h one_minus_k transition_draw decision_draw =
     (hits h decision_draw, if hits r transition_draw then Good else Bad)"

text \<open>The indices of a pattern are in order, so the binary search of the source is membership.\<close>

fun loss_selects ::
  "loss_model \<Rightarrow> u64 \<Rightarrow> pcg32 \<Rightarrow> gilbert_state \<Rightarrow> bool \<times> pcg32 \<times> gilbert_state" where
  "loss_selects (Bernoulli p) sq rng chain =
     (let (r, rng) = next_u32 rng in (hits p r, rng, chain))"
| "loss_selects (GilbertElliott p r h one_minus_k) sq rng chain =
     (let (t, rng) = next_u32 rng; (d, rng) = next_u32 rng;
          (lost, chain) = gilbert_step chain p r h one_minus_k t d
      in (lost, rng, chain))"
| "loss_selects (PatternLoss indices) sq rng chain = (sq \<in> set indices, rng, chain)"
| "loss_selects (EveryNth n) sq rng chain = (n \<noteq> 0 \<and> sq mod n = n - 1, rng, chain)"

definition loss_stage :: "direction_profile \<Rightarrow> u64 \<Rightarrow> impairer \<Rightarrow> bool \<times> impairer" where
  "loss_stage active sq e =
     (case dp_loss active of
        None \<Rightarrow> (False, e)
      | Some model \<Rightarrow>
          (let s = im_streams e;
               (lost, rng, chain) = loss_selects model sq (st_loss s) (st_gilbert s)
           in (lost, e\<lparr> im_streams := s\<lparr> st_loss := rng, st_gilbert := chain \<rparr> \<rparr>)))"

text \<open>The queue, then the bucket: a cause to drop the datagram, or the tick it may leave at.\<close>

definition rate_admit ::
  "rate_model \<Rightarrow> u32 \<Rightarrow> tick \<Rightarrow> bucket_state \<Rightarrow> queue_state
     \<Rightarrow> (drop_cause + tick) \<times> bucket_state \<times> queue_state" where
  "rate_admit rate wire now bucket queue =
     (let bytes_per_second = of_nat (div_ceil (unat (rt_bps rate)) 8) in
      case offer queue bytes_per_second (rt_queue_bytes rate) wire now of
        (TailDropped, queue) \<Rightarrow> (Inl RateQueueFull, bucket, queue)
      | (NeverFits, queue) \<Rightarrow> (Inl RateOversize, bucket, queue)
      | (Queued, queue) \<Rightarrow>
          (case charge bucket bytes_per_second (rt_burst_bytes rate) wire now of
             (GrantNow, bucket) \<Rightarrow> (Inr now, bucket, queue)
           | (GrantLater at, bucket) \<Rightarrow> (Inr at, reserve wire bucket, queue)
           | (GrantNever, bucket) \<Rightarrow> (Inl RateOversize, bucket, withdraw wire queue)))"

definition rate_stage ::
  "direction_profile \<Rightarrow> u32 \<Rightarrow> tick \<Rightarrow> impairer \<Rightarrow> (drop_cause + tick) \<times> impairer" where
  "rate_stage active wire now e =
     (case dp_rate active of
        None \<Rightarrow> (Inr now, e)
      | Some rate \<Rightarrow>
          (let (answer, bucket, queue) = rate_admit rate wire now (im_bucket e) (im_queue e)
           in (answer, e\<lparr> im_bucket := bucket, im_queue := queue \<rparr>)))"

definition delay_stage ::
  "dist_tables \<Rightarrow> direction_profile \<Rightarrow> tick \<Rightarrow> tick \<Rightarrow> impairer \<Rightarrow> tick \<times> impairer" where
  "delay_stage tabs active now release e =
     (let (release, e) =
        (case dp_delay active of
           None \<Rightarrow> (release, e)
         | Some model \<Rightarrow>
             (let s = im_streams e;
                  (ns, rng, corr) = sample_delay tabs model (st_delay s) (st_delay_corr s);
                  mag = of_int \<bar>ns\<bar>
              in (if ns \<ge> 0 then saturating_add_ns release mag else sat_sub release mag,
                  e\<lparr> im_streams := s\<lparr> st_delay := rng, st_delay_corr := corr \<rparr> \<rparr>)))
      in (if release < now then now else release, e))"

definition reorder_stage ::
  "direction_profile \<Rightarrow> u64 \<Rightarrow> tick \<Rightarrow> tick \<times> verdict \<Rightarrow> impairer
     \<Rightarrow> (tick \<times> verdict) \<times> impairer" where
  "reorder_stage active sq now rv e =
     (case (dp_delay active, dp_reorder active) of
        (Some _, Some model) \<Rightarrow>
          (let gap = ucast (rm_gap model) in
           if gap \<noteq> 0 \<and> sq mod gap = gap - 1 then
             (let (r, rng) = next_u32 (st_reorder (im_streams e));
                  e = e\<lparr> im_streams := (im_streams e)\<lparr> st_reorder := rng \<rparr> \<rparr>
              in if hits (rm_p model) r then ((now, Reorder), e) else (rv, e))
           else (rv, e))
      | _ \<Rightarrow> (rv, e))"

definition dup_stage ::
  "direction_profile \<Rightarrow> u32 \<Rightarrow> tick \<Rightarrow> impairer \<Rightarrow> tick option \<times> impairer" where
  "dup_stage active wire release e =
     (case dp_dup active of
        None \<Rightarrow> (None, e)
      | Some model \<Rightarrow>
          (let (r, rng) = next_u32 (st_dup (im_streams e));
               e = e\<lparr> im_streams := (im_streams e)\<lparr> st_dup := rng \<rparr> \<rparr>
           in if hits (dup_p model) r
              then (Some release, e\<lparr> im_counters := (im_counters e)\<lparr>
                      ct_duplicated := ct_duplicated (im_counters e) + 1,
                      ct_wire_bytes_out := ct_wire_bytes_out (im_counters e) + unat wire \<rparr> \<rparr>)
              else (None, e)))"

definition MAX_HEADER_WIRE_BYTES :: u32 where
  "MAX_HEADER_WIRE_BYTES = 48"

definition corrupt_stage ::
  "direction_profile \<Rightarrow> u32 \<Rightarrow> impairer \<Rightarrow> (corrupt_site option \<times> impairer) option" where
  "corrupt_stage active wire e =
     (case dp_corrupt active of
        None \<Rightarrow> Some (None, e)
      | Some model \<Rightarrow>
          (let (r, rng) = next_u32 (st_corrupt (im_streams e));
               bound = sat_sub wire MAX_HEADER_WIRE_BYTES
           in if hits (corrupt_p model) r \<and> bound > 0 then
                Option.bind (next_bounded bound rng) (\<lambda>(byte_offset, rng).
                Option.bind (next_bounded 8 rng) (\<lambda>(bit, rng).
                Some (Some \<lparr> cs_byte_offset = byte_offset, cs_bit = ucast bit \<rparr>,
                  e\<lparr> im_streams := (im_streams e)\<lparr> st_corrupt := rng \<rparr>,
                     im_counters := (im_counters e)\<lparr>
                       ct_corrupted := ct_corrupted (im_counters e) + 1 \<rparr> \<rparr>)))
              else Some (None, e\<lparr> im_streams := (im_streams e)\<lparr> st_corrupt := rng \<rparr> \<rparr>)))"

text \<open>\<open>Counters::finish\<close>; its \<open>unreachable!\<close> is \<open>None\<close>.\<close>

definition count_verdict :: "decision \<Rightarrow> counters \<Rightarrow> counters option" where
  "count_verdict d c =
     (case de_verdict d of
        Pass \<Rightarrow> Some (c\<lparr> ct_passed := ct_passed c + 1 \<rparr>)
      | Delay \<Rightarrow> Some (c\<lparr> ct_delayed := ct_delayed c + 1 \<rparr>)
      | Reorder \<Rightarrow> Some (c\<lparr> ct_reordered := ct_reordered c + 1 \<rparr>)
      | Drop \<Rightarrow>
          (case de_cause d of
             Loss \<Rightarrow> Some (c\<lparr> ct_dropped_loss := ct_dropped_loss c + 1 \<rparr>)
           | Blackout \<Rightarrow> Some (c\<lparr> ct_dropped_blackout := ct_dropped_blackout c + 1 \<rparr>)
           | Mtu \<Rightarrow> Some (c\<lparr> ct_dropped_mtu := ct_dropped_mtu c + 1 \<rparr>)
           | RateQueueFull \<Rightarrow> Some (c\<lparr> ct_dropped_queue_full := ct_dropped_queue_full c + 1 \<rparr>)
           | RateOversize \<Rightarrow>
               Some (c\<lparr> ct_dropped_rate_oversize := ct_dropped_rate_oversize c + 1 \<rparr>)
           | NotDropped \<Rightarrow> None))"

definition finish :: "u32 \<Rightarrow> decision \<Rightarrow> impairer \<Rightarrow> (decision \<times> impairer) option" where
  "finish wire d e =
     Option.bind (count_verdict d (im_counters e)) (\<lambda>c.
     let c = (if de_verdict d \<noteq> Drop
              then c\<lparr> ct_wire_bytes_out := ct_wire_bytes_out c + unat wire \<rparr> else c);
         c = c\<lparr> ct_backlog_max := max (ct_backlog_max c) (de_queue_backlog_bytes d) \<rparr>
     in Some (d, e\<lparr> im_counters := c \<rparr>))"

definition dropped :: "drop_cause \<Rightarrow> tick \<Rightarrow> queue_state \<Rightarrow> decision" where
  "dropped cause now queue =
     \<lparr> de_verdict = Drop, de_cause = cause, de_release = now, de_duplicate = None,
       de_corrupt = None, de_queue_backlog_bytes = backlog_bytes queue \<rparr>"

definition finish_drop ::
  "drop_cause \<Rightarrow> u32 \<Rightarrow> tick \<Rightarrow> impairer \<Rightarrow> (decision \<times> impairer) option" where
  "finish_drop cause wire now e = finish wire (dropped cause now (im_queue e)) e"

text \<open>What happens to a datagram that no model drops.\<close>

definition forward_stage ::
  "dist_tables \<Rightarrow> direction_profile \<Rightarrow> u64 \<Rightarrow> u32 \<Rightarrow> tick \<Rightarrow> tick \<Rightarrow> impairer
     \<Rightarrow> (decision \<times> impairer) option" where
  "forward_stage tabs active sq wire now release e =
     (let (release, e) = delay_stage tabs active now release e;
          verdict = (if release > now then Delay else Pass);
          ((release, verdict), e) = reorder_stage active sq now (release, verdict) e;
          (duplicate, e) = dup_stage active wire release e
      in Option.bind (corrupt_stage active wire e) (\<lambda>(corrupt, e).
         finish wire
           \<lparr> de_verdict = verdict, de_cause = NotDropped, de_release = release,
             de_duplicate = duplicate, de_corrupt = corrupt,
             de_queue_backlog_bytes = backlog_bytes (im_queue e) \<rparr> e))"

definition decide ::
  "dist_tables \<Rightarrow> u64 \<Rightarrow> u32 \<Rightarrow> tick \<Rightarrow> impairer \<Rightarrow> (decision \<times> impairer) option" where
  "decide tabs sq wire now e =
     (let active = active_profile (im_profile e) now;
          e = e\<lparr> im_counters := (im_counters e)\<lparr>
                 ct_seen := ct_seen (im_counters e) + 1,
                 ct_wire_bytes_in := ct_wire_bytes_in (im_counters e) + unat wire \<rparr> \<rparr>
      in if list_ex (\<lambda>w. window_contains w now) (dp_blackouts active)
         then finish_drop Blackout wire now e
         else if (case dp_mtu_blackhole active of Some mtu \<Rightarrow> wire > ucast mtu | None \<Rightarrow> False)
         then finish_drop Mtu wire now e
         else let (lost, e) = loss_stage active sq e in
           if lost then finish_drop Loss wire now e
           else let (answer, e) = rate_stage active wire now e in
             (case answer of
                Inl cause \<Rightarrow> finish_drop cause wire now e
              | Inr release \<Rightarrow> forward_stage tabs active sq wire now release e))"

text \<open>Deciding about a run of arrivals, numbered from the given sequence number.\<close>

fun decide_run ::
  "dist_tables \<Rightarrow> u64 \<Rightarrow> (u32 \<times> tick) list \<Rightarrow> impairer \<Rightarrow> (decision list \<times> impairer) option" where
  "decide_run tabs sq [] e = Some ([], e)"
| "decide_run tabs sq ((wire, now) # arrivals) e =
     Option.bind (decide tabs sq wire now e) (\<lambda>(d, e).
     Option.bind (decide_run tabs (sq + 1) arrivals e) (\<lambda>(ds, e).
     Some (d # ds, e)))"

end
