(* ===== verification/Netem_Laws.thy ===== *)
theory Netem_Laws
  imports Netem_Engine
begin

text \<open>
  The invariant of the engine: a decision is always reached (no draw runs for ever, no panic is
  reached), is well formed, and is counted in exactly one of the ways a datagram may leave.
\<close>

section \<open>Every decision is reached and counted\<close>

definition streams_ok :: "streams \<Rightarrow> bool" where
  "streams_ok s \<longleftrightarrow> pcg_ok (st_loss s) \<and> pcg_ok (st_delay s) \<and> pcg_ok (st_reorder s)
     \<and> pcg_ok (st_dup s) \<and> pcg_ok (st_corrupt s) \<and> pcg_ok (st_rate_queue s)"

text \<open>The eight ways a datagram may leave the engine.\<close>

definition accounted :: "counters \<Rightarrow> nat" where
  "accounted c =
     ct_passed c + ct_delayed c + ct_reordered c + ct_dropped_loss c + ct_dropped_blackout c
     + ct_dropped_mtu c + ct_dropped_queue_full c + ct_dropped_rate_oversize c"

definition engine_ok :: "impairer \<Rightarrow> bool" where
  "engine_ok e \<longleftrightarrow> streams_ok (im_streams e) \<and> direction_ok (im_profile e)
     \<and> ct_seen (im_counters e) = accounted (im_counters e)"

text \<open>What a stage may do to the engine.\<close>

definition stage_effect :: "impairer \<Rightarrow> impairer \<Rightarrow> bool" where
  "stage_effect e e' \<longleftrightarrow> im_profile e' = im_profile e \<and> im_direction e' = im_direction e
     \<and> ct_seen (im_counters e') = ct_seen (im_counters e)
     \<and> accounted (im_counters e') = accounted (im_counters e)
     \<and> (streams_ok (im_streams e) \<longrightarrow> streams_ok (im_streams e'))"

lemma stage_effect_trans: "stage_effect a b \<Longrightarrow> stage_effect b c \<Longrightarrow> stage_effect a c"
  by (simp add: stage_effect_def)

lemma pcg_ok_drawn: "next_u32 rng = (r, rng') \<Longrightarrow> pcg_ok rng' \<longleftrightarrow> pcg_ok rng"
  by (metis pcg_ok_next snd_conv)

lemma loss_selects_ok:
  "loss_selects m sq rng chain = (lost, rng', chain') \<Longrightarrow> pcg_ok rng \<Longrightarrow> pcg_ok rng'"
  by (cases m) (auto simp: Let_def split: prod.splits dest: pcg_ok_drawn)

lemma loss_stage_effect: "loss_stage p sq e = (lost, e') \<Longrightarrow> stage_effect e e'"
  by (auto simp: loss_stage_def Let_def stage_effect_def streams_ok_def split: option.splits prod.splits
      dest: loss_selects_ok)

lemma rate_stage_effect: "rate_stage p wire now e = (answer, e') \<Longrightarrow> stage_effect e e'"
  by (auto simp: rate_stage_def Let_def stage_effect_def split: option.splits prod.splits)

lemma sample_delay_ok: "sample_delay tabs m rng corr = (ns, rng', corr') \<Longrightarrow> pcg_ok rng \<Longrightarrow> pcg_ok rng'"
  by (cases m) (auto simp: drawn_delay_def Let_def split: prod.splits dest: pcg_ok_drawn)

lemma delay_stage_effect:
  "delay_stage tabs p now release e = (release', e') \<Longrightarrow> stage_effect e e' \<and> now \<le> release'"
  by (auto simp: delay_stage_def Let_def stage_effect_def streams_ok_def not_less
      split: option.splits prod.splits if_splits dest: sample_delay_ok)

lemma reorder_stage_effect:
  "reorder_stage p sq now rv e = (rv', e') \<Longrightarrow> stage_effect e e' \<and> (rv' = rv \<or> rv' = (now, Reorder))"
  by (auto simp: reorder_stage_def Let_def stage_effect_def streams_ok_def
      split: option.splits prod.splits if_splits dest: pcg_ok_drawn)

lemma dup_stage_effect:
  "dup_stage p wire release e = (dup, e') \<Longrightarrow> stage_effect e e' \<and> (dup = None \<or> dup = Some release)"
  by (auto simp: dup_stage_def Let_def stage_effect_def streams_ok_def accounted_def
      split: option.splits prod.splits if_splits dest: pcg_ok_drawn)

definition site_ok :: "u32 \<Rightarrow> corrupt_site option \<Rightarrow> bool" where
  "site_ok wire s \<longleftrightarrow>
     (\<forall>site. s = Some site \<longrightarrow> unat (cs_byte_offset site) + 48 < unat wire \<and> cs_bit site < 8)"

lemma corrupt_stage_effect:
  assumes "streams_ok (im_streams e)"
  shows "\<exists>site e'. corrupt_stage p wire e = Some (site, e') \<and> stage_effect e e' \<and> site_ok wire site"
proof (cases "dp_corrupt p")
  case (Some model)
  obtain r rng where r: "next_u32 (st_corrupt (im_streams e)) = (r, rng)" by fastforce
  have ok: "pcg_ok rng" using assms pcg_ok_drawn [OF r] by (simp add: streams_ok_def)
  let ?bound = "sat_sub wire MAX_HEADER_WIRE_BYTES"
  show ?thesis
  proof (cases "hits (corrupt_p model) r \<and> ?bound > 0")
    case True
    then have "?bound \<noteq> 0" by auto
    from next_bounded_returns [OF ok this] obtain v rng1 where
      v: "next_bounded ?bound rng = Some (v, rng1)" "v < ?bound" "pcg_ok rng1" by blast
    from next_bounded_returns [OF v(3), of 8] obtain b rng2 where
      b: "next_bounded 8 rng1 = Some (b, rng2)" "b < 8" "pcg_ok rng2" by auto
    have "unat v + 48 < unat wire"
      using v(2) by (simp add: word_less_nat_alt unat_sat_sub MAX_HEADER_WIRE_BYTES_def)
    moreover have "(ucast b :: u8) < 8"
      using b(2) by (simp add: word_less_nat_alt unsigned_ucast_eq take_bit_eq_mod)
    ultimately show ?thesis
      using Some r True v b assms
      by (auto simp: corrupt_stage_def Let_def stage_effect_def streams_ok_def accounted_def site_ok_def)
  next
    case False
    then show ?thesis
      using Some r ok assms
      by (auto simp: corrupt_stage_def Let_def stage_effect_def streams_ok_def site_ok_def)
  qed
qed (simp add: corrupt_stage_def stage_effect_def site_ok_def)

text \<open>What a decision looks like.\<close>

definition decision_ok :: "u32 \<Rightarrow> tick \<Rightarrow> decision \<Rightarrow> bool" where
  "decision_ok wire now d \<longleftrightarrow>
     (de_cause d = NotDropped \<longleftrightarrow> de_verdict d \<noteq> Drop)
     \<and> (if de_verdict d = Delay then now < de_release d else de_release d = now)
     \<and> (de_verdict d = Drop \<longrightarrow> de_duplicate d = None \<and> de_corrupt d = None)
     \<and> (de_duplicate d = None \<or> de_duplicate d = Some (de_release d))
     \<and> site_ok wire (de_corrupt d)"

text \<open>The engine one decision later: counted in one way out.\<close>

definition counted :: "impairer \<Rightarrow> impairer \<Rightarrow> bool" where
  "counted e e' \<longleftrightarrow> im_profile e' = im_profile e \<and> im_direction e' = im_direction e
     \<and> ct_seen (im_counters e') = ct_seen (im_counters e)
     \<and> accounted (im_counters e') = accounted (im_counters e) + 1
     \<and> (streams_ok (im_streams e) \<longrightarrow> streams_ok (im_streams e'))"

lemma finish_counts:
  assumes "de_cause d = NotDropped \<longleftrightarrow> de_verdict d \<noteq> Drop"
  shows "\<exists>e'. finish wire d e = Some (d, e') \<and> counted e e'
    \<and> im_streams e' = im_streams e \<and> im_bucket e' = im_bucket e \<and> im_queue e' = im_queue e"
  using assms
  by (cases "de_verdict d"; cases "de_cause d")
    (auto simp: finish_def count_verdict_def Let_def counted_def accounted_def)

lemma stage_counted: "stage_effect a b \<Longrightarrow> counted b c \<Longrightarrow> counted a c"
  by (simp add: stage_effect_def counted_def)

lemma decision_ok_dropped: "cause \<noteq> NotDropped \<Longrightarrow> decision_ok wire now (dropped cause now q)"
  by (simp add: decision_ok_def dropped_def site_ok_def)

lemma finish_drop_ok:
  assumes "cause \<noteq> NotDropped"
  shows "\<exists>d e'. finish_drop cause wire now e = Some (d, e') \<and> counted e e' \<and> decision_ok wire now d"
proof -
  have "de_cause (dropped cause now (im_queue e)) = NotDropped
      \<longleftrightarrow> de_verdict (dropped cause now (im_queue e)) \<noteq> Drop"
    using assms by (simp add: dropped_def)
  from finish_counts [OF this, of wire e] show ?thesis
    using decision_ok_dropped [OF assms] unfolding finish_drop_def by blast
qed

lemma forward_stage_ok:
  assumes "streams_ok (im_streams e)"
  shows "\<exists>d e'. forward_stage tabs p sq wire now release e = Some (d, e') \<and> counted e e'
    \<and> decision_ok wire now d"
proof -
  obtain r1 e1 where s1: "delay_stage tabs p now release e = (r1, e1)" by fastforce
  define v1 where "v1 = (if r1 > now then Delay else Pass)"
  obtain r2 v2 e2 where s2: "reorder_stage p sq now (r1, v1) e1 = ((r2, v2), e2)" by (metis surj_pair)
  obtain dup e3 where s3: "dup_stage p wire r2 e2 = (dup, e3)" by fastforce
  note f1 = delay_stage_effect [OF s1] and f2 = reorder_stage_effect [OF s2] and f3 = dup_stage_effect [OF s3]
  have f: "stage_effect e e3" using f1 f2 f3 stage_effect_trans by blast
  then have "streams_ok (im_streams e3)" using assms by (simp add: stage_effect_def)
  from corrupt_stage_effect [OF this, of p wire] obtain site e4 where
    s4: "corrupt_stage p wire e3 = Some (site, e4)" "stage_effect e3 e4" "site_ok wire site" by blast
  let ?d = "\<lparr> de_verdict = v2, de_cause = NotDropped, de_release = r2, de_duplicate = dup,
    de_corrupt = site, de_queue_backlog_bytes = backlog_bytes (im_queue e4) \<rparr>"
  have v2: "v2 \<noteq> Drop" "if v2 = Delay then now < r2 else r2 = now"
    using f1 f2 by (auto simp: v1_def split: if_splits)
  from finish_counts [of ?d wire e4] v2(1) obtain e5 where
    e5: "finish wire ?d e4 = Some (?d, e5)" "counted e4 e5" by auto
  have "forward_stage tabs p sq wire now release e = Some (?d, e5)"
    using s1 s2 s3 s4(1) e5(1) by (simp add: forward_stage_def v1_def Let_def)
  moreover have "counted e e5"
    using stage_counted [OF f stage_counted [OF s4(2) e5(2)]] .
  moreover have "decision_ok wire now ?d"
    using v2 s4(3) f3 by (simp add: decision_ok_def)
  ultimately show ?thesis by blast
qed

lemma rate_stage_cause: "rate_stage p wire now e = (Inl cause, e') \<Longrightarrow> cause \<noteq> NotDropped"
  by (auto simp: rate_stage_def rate_admit_def Let_def
      split: option.splits prod.splits admission.splits rate_grant.splits)

lemma decide_ok:
  assumes "engine_ok e"
  shows "\<exists>d e'. decide tabs sq wire now e = Some (d, e') \<and> decision_ok wire now d \<and> engine_ok e'
    \<and> im_profile e' = im_profile e \<and> im_direction e' = im_direction e
    \<and> ct_seen (im_counters e') = ct_seen (im_counters e) + 1"
proof -
  let ?p = "active_profile (im_profile e) now"
  define e0 where "e0 = e\<lparr> im_counters := (im_counters e)\<lparr>
       ct_seen := ct_seen (im_counters e) + 1,
       ct_wire_bytes_in := ct_wire_bytes_in (im_counters e) + unat wire \<rparr> \<rparr>"
  obtain lost e1 where s1: "loss_stage ?p sq e0 = (lost, e1)" by fastforce
  obtain answer e2 where s2: "rate_stage ?p wire now e1 = (answer, e2)" by fastforce
  note f1 = loss_stage_effect [OF s1]
  have f2: "stage_effect e0 e2" using f1 rate_stage_effect [OF s2] stage_effect_trans by blast
  have ok: "streams_ok (im_streams e0)" using assms by (simp add: e0_def engine_ok_def)
  then have ok2: "streams_ok (im_streams e2)" using f2 by (simp add: stage_effect_def)
  have drop: "\<exists>d e'. finish_drop cause wire now e1' = Some (d, e') \<and> counted e0 e' \<and> decision_ok wire now d"
    if "stage_effect e0 e1'" "cause \<noteq> NotDropped" for cause e1'
    using finish_drop_ok [OF that(2), of wire now e1'] stage_counted [OF that(1)] by blast
  have refl: "stage_effect e0 e0" by (simp add: stage_effect_def)
  let ?B = "list_ex (\<lambda>w. window_contains w now) (dp_blackouts ?p)"
  let ?M = "case dp_mtu_blackhole ?p of Some mtu \<Rightarrow> wire > ucast mtu | None \<Rightarrow> False"
  have "decide tabs sq wire now e =
      (if ?B then finish_drop Blackout wire now e0 else if ?M then finish_drop Mtu wire now e0
       else if lost then finish_drop Loss wire now e1
       else (case answer of Inl cause \<Rightarrow> finish_drop cause wire now e2
             | Inr release \<Rightarrow> forward_stage tabs ?p sq wire now release e2))"
    by (simp only: decide_def Let_def e0_def [symmetric] s1 s2 prod.case)
  moreover have "\<exists>d e'. (case answer of Inl cause \<Rightarrow> finish_drop cause wire now e2
      | Inr release \<Rightarrow> forward_stage tabs ?p sq wire now release e2) = Some (d, e')
      \<and> counted e0 e' \<and> decision_ok wire now d"
  proof (cases answer)
    case (Inl cause)
    then show ?thesis using drop [OF f2, of cause] rate_stage_cause s2 by simp
  next
    case (Inr release)
    then show ?thesis using forward_stage_ok [OF ok2] stage_counted [OF f2] by fastforce
  qed
  ultimately have "\<exists>d e'. decide tabs sq wire now e = Some (d, e') \<and> counted e0 e'
      \<and> decision_ok wire now d"
    using drop [OF refl, of Blackout] drop [OF refl, of Mtu] drop [OF f1, of Loss] by simp
  then show ?thesis
    using assms by (auto simp: counted_def engine_ok_def e0_def accounted_def)
qed

definition engine_run_ok :: "(u32 \<times> tick) list \<Rightarrow> decision list \<Rightarrow> bool" where
  "engine_run_ok arrivals ds \<longleftrightarrow>
     list_all2 (\<lambda>(wire, now) d. decision_ok wire now d) arrivals ds"

lemma decide_run_ok:
  assumes "engine_ok e"
  shows "\<exists>ds e'. decide_run tabs sq arrivals e = Some (ds, e') \<and> engine_run_ok arrivals ds
    \<and> engine_ok e' \<and> ct_seen (im_counters e') = ct_seen (im_counters e) + length arrivals"
  using assms
proof (induction arrivals arbitrary: sq e)
  case (Cons a arrivals)
  obtain wire now where a: "a = (wire, now)" by fastforce
  from decide_ok [OF Cons.prems, of tabs sq wire now] obtain d e1 where
    d: "decide tabs sq wire now e = Some (d, e1)" "decision_ok wire now d" "engine_ok e1"
      "im_profile e1 = im_profile e" "ct_seen (im_counters e1) = ct_seen (im_counters e) + 1" by blast
  from Cons.IH [OF d(3), of "sq + 1"] show ?case
    using d by (auto simp: a engine_run_ok_def)
qed (simp add: engine_run_ok_def)

lemma streams_seeded_ok: "streams_ok (streams_seeded seed d)"
  by (simp add: streams_ok_def streams_seeded_def Let_def)

lemma direction_ok_normalise: "direction_ok (normalise_patterns p) \<longleftrightarrow> direction_ok p"
proof -
  have n: "normalise_loss m = Some (EveryNth 0) \<longleftrightarrow> m = Some (EveryNth 0)" for m
    by (auto simp: normalise_loss_def split: option.splits loss_model.splits)
  have m: "models_ok (normalise_models p ts) \<longleftrightarrow> models_ok p" for p ts
    by (simp add: models_ok_def normalise_models_def largest_on_wire_datagram_def n)
  then show ?thesis
    by (simp add: direction_ok_def normalise_patterns_def normalise_models_def [of p] o_def
        flip: m [of p])
      (simp add: normalise_models_def)
qed

lemma impairer_new_ok:
  assumes "impairer_new p seed d = Inr e"
  shows "engine_ok e"
  using assms
  by (auto simp: impairer_new_def and_then_eq_Inr validate_direction_ok engine_ok_def
      streams_seeded_ok direction_ok_normalise counters_default_def accounted_def)

lemma reseed_ok: "engine_ok e \<Longrightarrow> engine_ok (reseed seed e)"
  using streams_seeded_ok [of seed "im_direction e"]
  by (simp add: reseed_def engine_ok_def streams_ok_def)

end
