(* ===== verification/Netem_Separate.thy ===== *)
theory Netem_Separate
  imports Netem_Laws
begin

text \<open>
  The models of one direction draw from separate streams: which datagrams are dropped, and what the
  bucket and the queue hold, does not depend on the models that only delay, reorder, duplicate or
  corrupt, and each of those decides alike whether or not the others are armed. The two runs are
  those of an engine and of an engine with some of these models taken out of its profile.
\<close>

section \<open>Separate streams\<close>

text \<open>Which of the models that do not drop a profile keeps.\<close>

record kept =
  keep_delay :: bool
  keep_reorder :: bool
  keep_dup :: bool
  keep_corrupt :: bool

definition masked_models :: "kept \<Rightarrow> direction_profile \<Rightarrow> timeline_step list \<Rightarrow> direction_profile" where
  "masked_models m p ts =
     DirectionProfile (dp_rate p) (if keep_delay m then dp_delay p else None) (dp_loss p)
       (if keep_reorder m then dp_reorder p else None) (if keep_dup m then dp_dup p else None)
       (if keep_corrupt m then dp_corrupt p else None) (dp_mtu_blackhole p) (dp_blackouts p) ts"

definition masked :: "kept \<Rightarrow> direction_profile \<Rightarrow> direction_profile" where
  "masked m p =
     masked_models m p
       (map (\<lambda>step. TimelineStep (ts_at_ns step)
                (masked_models m (ts_profile step) (dp_timeline (ts_profile step))))
            (dp_timeline p))"

text \<open>Two profiles in force, one of them without some models.\<close>

definition ablated :: "kept \<Rightarrow> direction_profile \<Rightarrow> direction_profile \<Rightarrow> bool" where
  "ablated m p p0 \<longleftrightarrow> dp_rate p0 = dp_rate p \<and> dp_loss p0 = dp_loss p
     \<and> dp_mtu_blackhole p0 = dp_mtu_blackhole p \<and> dp_blackouts p0 = dp_blackouts p
     \<and> (keep_delay m \<longrightarrow> dp_delay p0 = dp_delay p) \<and> (keep_reorder m \<longrightarrow> dp_reorder p0 = dp_reorder p)
     \<and> (keep_dup m \<longrightarrow> dp_dup p0 = dp_dup p) \<and> (keep_corrupt m \<longrightarrow> dp_corrupt p0 = dp_corrupt p)"

lemma ablated_masked: "ablated m p (masked_models m p ts)"
  by (simp add: ablated_def masked_models_def)

lemma ablated_active: "ablated m (active_profile p now) (active_profile (masked m p) now)"
proof -
  let ?steps = "dp_timeline p"
  let ?n = "length (takeWhile (\<lambda>step. ts_at_ns step \<le> now) ?steps)"
  show ?thesis
  proof (cases ?n)
    case 0
    then show ?thesis
      by (simp add: active_profile_def masked_def masked_models_def ablated_def takeWhile_map o_def)
  next
    case (Suc i)
    then have i: "i < length ?steps"
      using length_takeWhile_le [of "\<lambda>step. ts_at_ns step \<le> now" ?steps] by linarith
    show ?thesis
      using Suc ablated_masked [of m "ts_profile (?steps ! i)"]
      by (simp add: active_profile_def masked_def masked_models_def takeWhile_map o_def nth_map [OF i])
  qed
qed

definition same_streams :: "kept \<Rightarrow> impairer \<Rightarrow> impairer \<Rightarrow> bool" where
  "same_streams m e e0 \<longleftrightarrow>
     (let s = im_streams e; s0 = im_streams e0 in
      st_loss s0 = st_loss s \<and> st_gilbert s0 = st_gilbert s
      \<and> im_bucket e0 = im_bucket e \<and> im_queue e0 = im_queue e
      \<and> (keep_delay m \<longrightarrow> st_delay s0 = st_delay s \<and> st_delay_corr s0 = st_delay_corr s)
      \<and> (keep_delay m \<and> keep_reorder m \<longrightarrow> st_reorder s0 = st_reorder s)
      \<and> (keep_dup m \<longrightarrow> st_dup s0 = st_dup s) \<and> (keep_corrupt m \<longrightarrow> st_corrupt s0 = st_corrupt s))"

lemma loss_stage_same:
  assumes "ablated m p p0" "same_streams m e e0"
    and "loss_stage p sq e = (l, e')" "loss_stage p0 sq e0 = (l0, e0')"
  shows "l0 = l \<and> same_streams m e' e0'"
proof (cases "dp_loss p")
  case (Some model)
  obtain x y z where "loss_selects model sq (st_loss (im_streams e)) (st_gilbert (im_streams e)) = (x, y, z)"
    by (metis surj_pair)
  then show ?thesis
    using assms Some by (clarsimp simp: loss_stage_def ablated_def same_streams_def Let_def)
qed (use assms in \<open>clarsimp simp: loss_stage_def ablated_def\<close>)

lemma rate_stage_same:
  assumes "ablated m p p0" "same_streams m e e0"
    and "rate_stage p wire now e = (a, e')" "rate_stage p0 wire now e0 = (a0, e0')"
  shows "a0 = a \<and> same_streams m e' e0'"
proof (cases "dp_rate p")
  case (Some rate)
  obtain x y z where "rate_admit rate wire now (im_bucket e) (im_queue e) = (x, y, z)"
    by (metis surj_pair)
  then show ?thesis
    using assms Some by (clarsimp simp: rate_stage_def ablated_def same_streams_def Let_def)
qed (use assms in \<open>clarsimp simp: rate_stage_def ablated_def\<close>)

lemma same_streams_delay:
  "same_streams m (e\<lparr> im_streams := (im_streams e)\<lparr> st_delay := g, st_delay_corr := c \<rparr> \<rparr>) e0
     \<longleftrightarrow> same_streams m e e0" if "\<not> keep_delay m"
  using that by (simp add: same_streams_def Let_def)

lemma same_streams_delay0:
  "same_streams m e (e0\<lparr> im_streams := (im_streams e0)\<lparr> st_delay := g, st_delay_corr := c \<rparr> \<rparr>)
     \<longleftrightarrow> same_streams m e e0" if "\<not> keep_delay m"
  using that by (simp add: same_streams_def Let_def)

lemma delay_stage_state:
  "\<exists>g c. snd (delay_stage tabs p now r e)
     = e\<lparr> im_streams := (im_streams e)\<lparr> st_delay := g, st_delay_corr := c \<rparr> \<rparr>"
proof (cases "dp_delay p")
  case None
  then have "snd (delay_stage tabs p now r e)
      = e\<lparr> im_streams := (im_streams e)\<lparr> st_delay := st_delay (im_streams e),
             st_delay_corr := st_delay_corr (im_streams e) \<rparr> \<rparr>"
    by (simp add: delay_stage_def)
  then show ?thesis by blast
next
  case (Some model)
  obtain x y z where "sample_delay tabs model (st_delay (im_streams e)) (st_delay_corr (im_streams e)) = (x, y, z)"
    by (metis surj_pair)
  then have "snd (delay_stage tabs p now r e)
      = e\<lparr> im_streams := (im_streams e)\<lparr> st_delay := y, st_delay_corr := z \<rparr> \<rparr>"
    using Some by (simp add: delay_stage_def Let_def)
  then show ?thesis by blast
qed

lemma delay_stage_same:
  assumes "ablated m p p0" "same_streams m e e0"
    and d: "delay_stage tabs p now r e = (r', e')" "delay_stage tabs p0 now r e0 = (r0', e0')"
  shows "(keep_delay m \<longrightarrow> r0' = r') \<and> same_streams m e' e0'"
proof (cases "keep_delay m")
  case False
  from delay_stage_state [of tabs p now r e] delay_stage_state [of tabs p0 now r e0]
  show ?thesis using d assms(2) False by (auto simp: same_streams_delay same_streams_delay0)
next
  case True
  show ?thesis
  proof (cases "dp_delay p")
    case None
    then show ?thesis using assms True by (clarsimp simp: delay_stage_def ablated_def)
  next
    case (Some model)
    obtain x y z where "sample_delay tabs model (st_delay (im_streams e)) (st_delay_corr (im_streams e)) = (x, y, z)"
      by (metis surj_pair)
    then show ?thesis
      using assms Some True by (clarsimp simp: delay_stage_def ablated_def same_streams_def Let_def)
  qed
qed

lemma reorder_stage_state:
  "\<exists>g. snd (reorder_stage p sq now rv e) = e\<lparr> im_streams := (im_streams e)\<lparr> st_reorder := g \<rparr> \<rparr>"
proof -
  obtain x y where "next_u32 (st_reorder (im_streams e)) = (x, y)" by fastforce
  then have "snd (reorder_stage p sq now rv e) = e
      \<or> snd (reorder_stage p sq now rv e) = e\<lparr> im_streams := (im_streams e)\<lparr> st_reorder := y \<rparr> \<rparr>"
    by (simp add: reorder_stage_def Let_def split: option.splits)
  moreover have "e = e\<lparr> im_streams := (im_streams e)\<lparr> st_reorder := st_reorder (im_streams e) \<rparr> \<rparr>"
    by simp
  ultimately show ?thesis by metis
qed

lemma reorder_stage_cong:
  assumes "dp_delay p0 = dp_delay p" "dp_reorder p0 = dp_reorder p" "rv0 = rv"
    and "st_reorder (im_streams e0) = st_reorder (im_streams e)"
  shows "fst (reorder_stage p0 sq now rv0 e0) = fst (reorder_stage p sq now rv e)
    \<and> st_reorder (im_streams (snd (reorder_stage p0 sq now rv0 e0)))
      = st_reorder (im_streams (snd (reorder_stage p sq now rv e)))"
  using assms by (simp add: reorder_stage_def Let_def split: option.split prod.split)

lemma reorder_stage_same:
  assumes "ablated m p p0" "same_streams m e e0" "keep_delay m \<longrightarrow> rv0 = rv"
    and d: "reorder_stage p sq now rv e = (rv', e')" "reorder_stage p0 sq now rv0 e0 = (rv0', e0')"
  shows "(keep_delay m \<and> keep_reorder m \<longrightarrow> rv0' = rv') \<and> same_streams m e' e0'"
proof (cases "keep_delay m \<and> keep_reorder m")
  case False
  from reorder_stage_state [of p sq now rv e] reorder_stage_state [of p0 sq now rv0 e0]
  obtain g g0 where "e' = e\<lparr> im_streams := (im_streams e)\<lparr> st_reorder := g \<rparr> \<rparr>"
    "e0' = e0\<lparr> im_streams := (im_streams e0)\<lparr> st_reorder := g0 \<rparr> \<rparr>"
    using d by auto
  then show ?thesis using assms(2) False by (auto simp: same_streams_def Let_def)
next
  case True
  with assms(1-3) have "fst (reorder_stage p0 sq now rv0 e0) = fst (reorder_stage p sq now rv e)
      \<and> st_reorder (im_streams (snd (reorder_stage p0 sq now rv0 e0)))
        = st_reorder (im_streams (snd (reorder_stage p sq now rv e)))"
    by (intro reorder_stage_cong) (simp_all add: ablated_def same_streams_def Let_def)
  moreover from reorder_stage_state [of p sq now rv e] reorder_stage_state [of p0 sq now rv0 e0]
  obtain g g0 where "e' = e\<lparr> im_streams := (im_streams e)\<lparr> st_reorder := g \<rparr> \<rparr>"
    "e0' = e0\<lparr> im_streams := (im_streams e0)\<lparr> st_reorder := g0 \<rparr> \<rparr>"
    using d by auto
  ultimately show ?thesis using d assms(2) by (simp add: same_streams_def Let_def)
qed

lemma dup_stage_state:
  assumes "dup_stage p wire r e = (d, e')"
  shows "im_bucket e' = im_bucket e \<and> im_queue e' = im_queue e
    \<and> im_streams e' = (im_streams e)\<lparr> st_dup := st_dup (im_streams e') \<rparr>"
  using assms by (auto simp: dup_stage_def Let_def split: option.splits prod.splits if_splits)

text \<open>A stage that moved one stream only.\<close>

lemma same_streams_dup:
  assumes "same_streams m e e0" "keep_dup m \<longrightarrow> st_dup (im_streams e0') = st_dup (im_streams e')"
    and "im_bucket e' = im_bucket e \<and> im_queue e' = im_queue e
      \<and> im_streams e' = (im_streams e)\<lparr> st_dup := st_dup (im_streams e') \<rparr>"
    and "im_bucket e0' = im_bucket e0 \<and> im_queue e0' = im_queue e0
      \<and> im_streams e0' = (im_streams e0)\<lparr> st_dup := st_dup (im_streams e0') \<rparr>"
  shows "same_streams m e' e0'"
proof -
  obtain g where g: "im_streams e' = (im_streams e)\<lparr> st_dup := g \<rparr>" using assms(3) by blast
  obtain g0 where g0: "im_streams e0' = (im_streams e0)\<lparr> st_dup := g0 \<rparr>" using assms(4) by blast
  show ?thesis using assms(1,2) assms(3,4) [THEN conjunct1] assms(3,4) [THEN conjunct2, THEN conjunct1]
    unfolding g g0 same_streams_def Let_def by simp
qed

lemma same_streams_corrupt:
  assumes "same_streams m e e0" "keep_corrupt m \<longrightarrow> st_corrupt (im_streams e0') = st_corrupt (im_streams e')"
    and "im_bucket e' = im_bucket e \<and> im_queue e' = im_queue e
      \<and> im_streams e' = (im_streams e)\<lparr> st_corrupt := st_corrupt (im_streams e') \<rparr>"
    and "im_bucket e0' = im_bucket e0 \<and> im_queue e0' = im_queue e0
      \<and> im_streams e0' = (im_streams e0)\<lparr> st_corrupt := st_corrupt (im_streams e0') \<rparr>"
  shows "same_streams m e' e0'"
proof -
  obtain g where g: "im_streams e' = (im_streams e)\<lparr> st_corrupt := g \<rparr>" using assms(3) by blast
  obtain g0 where g0: "im_streams e0' = (im_streams e0)\<lparr> st_corrupt := g0 \<rparr>" using assms(4) by blast
  show ?thesis using assms(1,2) assms(3,4) [THEN conjunct1] assms(3,4) [THEN conjunct2, THEN conjunct1]
    unfolding g g0 same_streams_def Let_def by simp
qed

lemma dup_stage_cong:
  assumes "dp_dup p0 = dp_dup p" "st_dup (im_streams e0) = st_dup (im_streams e)"
  shows "(fst (dup_stage p0 wire r0 e0) = None \<longleftrightarrow> fst (dup_stage p wire r e) = None)
    \<and> st_dup (im_streams (snd (dup_stage p0 wire r0 e0))) = st_dup (im_streams (snd (dup_stage p wire r e)))"
  using assms by (simp add: dup_stage_def Let_def split: option.split prod.split)

lemma dup_stage_same:
  assumes "ablated m p p0" "same_streams m e e0"
    and d: "dup_stage p wire r e = (d, e')" "dup_stage p0 wire r0 e0 = (d0, e0')"
  shows "(keep_dup m \<longrightarrow> (d0 = None \<longleftrightarrow> d = None)) \<and> same_streams m e' e0'"
proof -
  note st = dup_stage_state [OF d(1)] dup_stage_state [OF d(2)]
  have "(d0 = None \<longleftrightarrow> d = None) \<and> st_dup (im_streams e0') = st_dup (im_streams e')" if "keep_dup m"
    using that assms(1,2) d dup_stage_cong [of p0 p e0 e wire r0 r]
    by (simp add: ablated_def same_streams_def Let_def)
  then show ?thesis using same_streams_dup [OF assms(2) _ st] by blast
qed

lemma corrupt_stage_state:
  assumes "corrupt_stage p wire e = Some (site, e')"
  shows "im_bucket e' = im_bucket e \<and> im_queue e' = im_queue e
    \<and> im_streams e' = (im_streams e)\<lparr> st_corrupt := st_corrupt (im_streams e') \<rparr>"
  using assms
  by (auto simp: corrupt_stage_def Let_def bind_eq_Some_conv split: option.splits prod.splits if_splits)

lemma corrupt_stage_cong:
  assumes "dp_corrupt p0 = dp_corrupt p" "st_corrupt (im_streams e0) = st_corrupt (im_streams e)"
  shows "map_option (\<lambda>(site, e). (site, st_corrupt (im_streams e))) (corrupt_stage p0 wire e0)
    = map_option (\<lambda>(site, e). (site, st_corrupt (im_streams e))) (corrupt_stage p wire e)"
  using assms
  by (simp add: corrupt_stage_def Let_def map_option_bind o_def split_def split: option.split)

lemma corrupt_stage_same:
  assumes "ablated m p p0" "same_streams m e e0"
    and d: "corrupt_stage p wire e = Some (c, e')" "corrupt_stage p0 wire e0 = Some (c0, e0')"
  shows "(keep_corrupt m \<longrightarrow> c0 = c) \<and> same_streams m e' e0'"
proof -
  note st = corrupt_stage_state [OF d(1)] corrupt_stage_state [OF d(2)]
  have "c0 = c \<and> st_corrupt (im_streams e0') = st_corrupt (im_streams e')" if "keep_corrupt m"
    using that assms(1,2) d corrupt_stage_cong [of p0 p e0 e wire]
    by (simp add: ablated_def same_streams_def Let_def)
  then show ?thesis using same_streams_corrupt [OF assms(2) _ st] by blast
qed

text \<open>What the two engines' decisions have in common.\<close>

definition agrees :: "kept \<Rightarrow> decision \<Rightarrow> decision \<Rightarrow> bool" where
  "agrees m d d0 \<longleftrightarrow>
     de_cause d0 = de_cause d \<and> (de_verdict d0 = Drop \<longleftrightarrow> de_verdict d = Drop)
     \<and> de_queue_backlog_bytes d0 = de_queue_backlog_bytes d
     \<and> (keep_delay m \<and> keep_reorder m \<longrightarrow>
          de_verdict d0 = de_verdict d \<and> de_release d0 = de_release d)
     \<and> (keep_dup m \<longrightarrow> (de_duplicate d0 = None \<longleftrightarrow> de_duplicate d = None))
     \<and> (keep_corrupt m \<longrightarrow> de_corrupt d0 = de_corrupt d)"

lemma finish_state:
  assumes "finish wire d e = Some (r, e')"
  shows "r = d \<and> im_streams e' = im_streams e \<and> im_bucket e' = im_bucket e \<and> im_queue e' = im_queue e
    \<and> im_profile e' = im_profile e"
  using assms by (auto simp: finish_def Let_def bind_eq_Some_conv)

lemma finish_same:
  assumes "same_streams m e e0" "agrees m d d0"
    and "finish wire d e = Some (r, e')" "finish wire d0 e0 = Some (r0, e0')"
  shows "agrees m r r0 \<and> same_streams m e' e0'"
  using assms(1,2) finish_state [OF assms(3)] finish_state [OF assms(4)]
  by (simp add: same_streams_def Let_def)

lemma finish_drop_same:
  assumes "same_streams m e e0"
    and "finish_drop c wire now e = Some (r, e')" "finish_drop c wire now e0 = Some (r0, e0')"
  shows "agrees m r r0 \<and> same_streams m e' e0'"
proof -
  have "agrees m (dropped c now (im_queue e)) (dropped c now (im_queue e0))"
    using assms(1) by (simp add: dropped_def agrees_def same_streams_def Let_def)
  from finish_same [OF assms(1) this] show ?thesis using assms(2,3) by (simp add: finish_drop_def)
qed

lemma forward_stage_same:
  assumes ab: "ablated m p p0" and s: "same_streams m e e0"
    and f: "forward_stage tabs p sq wire now r e = Some (d, e')"
      "forward_stage tabs p0 sq wire now r e0 = Some (d0, e0')"
  shows "agrees m d d0 \<and> same_streams m e' e0'"
proof -
  obtain r1 e1 where d1: "delay_stage tabs p now r e = (r1, e1)" by fastforce
  obtain r10 e10 where d10: "delay_stage tabs p0 now r e0 = (r10, e10)" by fastforce
  define v1 v10 where "v1 = (if r1 > now then Delay else Pass)" and "v10 = (if r10 > now then Delay else Pass)"
  obtain r2 v2 e2 where d2: "reorder_stage p sq now (r1, v1) e1 = ((r2, v2), e2)" by (metis surj_pair)
  obtain r20 v20 e20 where d20: "reorder_stage p0 sq now (r10, v10) e10 = ((r20, v20), e20)"
    by (metis surj_pair)
  obtain k e3 where d3: "dup_stage p wire r2 e2 = (k, e3)" by fastforce
  obtain k0 e30 where d30: "dup_stage p0 wire r20 e20 = (k0, e30)" by fastforce
  let ?d = "\<lambda>v r k c e. \<lparr> de_verdict = v, de_cause = NotDropped, de_release = r, de_duplicate = k,
    de_corrupt = c, de_queue_backlog_bytes = backlog_bytes (im_queue e) \<rparr>"
  from f(1) obtain c e4 where d4: "corrupt_stage p wire e3 = Some (c, e4)"
    and g: "finish wire (?d v2 r2 k c e4) e4 = Some (d, e')"
    by (auto simp: forward_stage_def d1 d2 d3 v1_def [symmetric] bind_eq_Some_conv)
  from f(2) obtain c0 e40 where d40: "corrupt_stage p0 wire e30 = Some (c0, e40)"
    and g0: "finish wire (?d v20 r20 k0 c0 e40) e40 = Some (d0, e0')"
    by (auto simp: forward_stage_def d10 d20 d30 v10_def [symmetric] bind_eq_Some_conv)
  have a1: "keep_delay m \<longrightarrow> r10 = r1" "same_streams m e1 e10" using delay_stage_same [OF ab s d1 d10] by simp_all
  then have "keep_delay m \<longrightarrow> (r10, v10) = (r1, v1)" by (simp add: v1_def v10_def)
  note a2 = reorder_stage_same [OF ab a1(2) this d2 d20]
  note a3 = dup_stage_same [OF ab a2 [THEN conjunct2] d3 d30]
  note a4 = corrupt_stage_same [OF ab a3 [THEN conjunct2] d4 d40]
  have v: "v2 \<noteq> Drop" "v20 \<noteq> Drop"
    using reorder_stage_effect [OF d2] reorder_stage_effect [OF d20]
    by (auto simp: v1_def v10_def split: if_splits)
  have q: "im_queue e40 = im_queue e4" using a4 by (simp add: same_streams_def Let_def)
  have "agrees m (?d v2 r2 k c e4) (?d v20 r20 k0 c0 e40)"
    using a2 a3 a4 v q by (simp add: agrees_def)
  from finish_same [OF a4 [THEN conjunct2] this g g0] show ?thesis .
qed

lemma decide_same:
  assumes s: "same_streams m e e0" and p: "im_profile e0 = masked m (im_profile e)"
    and f: "decide tabs sq wire now e = Some (d, e')" "decide tabs sq wire now e0 = Some (d0, e0')"
  shows "agrees m d d0 \<and> same_streams m e' e0'"
proof -
  define a a0 where "a = active_profile (im_profile e) now" and "a0 = active_profile (im_profile e0) now"
  have ab: "ablated m a a0" unfolding a_def a0_def p by (rule ablated_active)
  let ?seen = "\<lambda>e. e\<lparr> im_counters := (im_counters e)\<lparr>
       ct_seen := ct_seen (im_counters e) + 1,
       ct_wire_bytes_in := ct_wire_bytes_in (im_counters e) + unat wire \<rparr> \<rparr>"
  have s: "same_streams m (?seen e) (?seen e0)" using s by (simp add: same_streams_def Let_def)
  obtain l e1 where l: "loss_stage a sq (?seen e) = (l, e1)" by fastforce
  obtain l0 e10 where l0: "loss_stage a0 sq (?seen e0) = (l0, e10)" by fastforce
  note sl = loss_stage_same [OF ab s l l0]
  obtain r e2 where r: "rate_stage a wire now e1 = (r, e2)" by fastforce
  obtain r0 e20 where r0: "rate_stage a0 wire now e10 = (r0, e20)" by fastforce
  note sr = rate_stage_same [OF ab sl [THEN conjunct2] r r0]
  let ?B = "list_ex (\<lambda>w. window_contains w now) (dp_blackouts a)"
  let ?M = "case dp_mtu_blackhole a of Some mtu \<Rightarrow> wire > ucast mtu | None \<Rightarrow> False"
  let ?D = "\<lambda>a e e1 l r e2.
      if ?B then finish_drop Blackout wire now e else if ?M then finish_drop Mtu wire now e
      else if l then finish_drop Loss wire now e1
      else (case r of Inl cause \<Rightarrow> finish_drop cause wire now e2
            | Inr release \<Rightarrow> forward_stage tabs a sq wire now release e2)"
  have d: "decide tabs sq wire now e = ?D a (?seen e) e1 l r e2"
    by (simp only: decide_def Let_def a_def [symmetric] l r prod.case)
  have d0: "decide tabs sq wire now e0 = ?D a0 (?seen e0) e10 l0 r0 e20"
    using ab by (simp only: decide_def Let_def a0_def [symmetric] l0 r0 prod.case ablated_def)
  consider "?B" | "\<not> ?B" "?M" | "\<not> ?B" "\<not> ?M" "l" | cause where "\<not> ?B" "\<not> ?M" "\<not> l" "r = Inl cause"
    | release where "\<not> ?B" "\<not> ?M" "\<not> l" "r = Inr release"
    by (cases r) blast+
  then show ?thesis
  proof cases
    case 1 then show ?thesis using f finish_drop_same [OF s] unfolding d d0 by simp
  next
    case 2 then show ?thesis using f finish_drop_same [OF s] unfolding d d0 by simp
  next
    case 3 then show ?thesis using f sl finish_drop_same [OF sl [THEN conjunct2]] unfolding d d0 by simp
  next
    case 4 then show ?thesis using f sl sr finish_drop_same [OF sr [THEN conjunct2]] unfolding d d0 by simp
  next
    case 5 then show ?thesis using f sl sr forward_stage_same [OF ab sr [THEN conjunct2]] unfolding d d0 by simp
  qed
qed

lemma decide_run_same:
  assumes "engine_ok e" "engine_ok e0" "same_streams m e e0" "im_profile e0 = masked m (im_profile e)"
  shows "\<exists>ds e' ds0 e0'. decide_run tabs sq arrivals e = Some (ds, e')
    \<and> decide_run tabs sq arrivals e0 = Some (ds0, e0') \<and> list_all2 (agrees m) ds ds0"
  using assms
proof (induction arrivals arbitrary: sq e e0)
  case (Cons a arrivals)
  obtain wire now where a: "a = (wire, now)" by fastforce
  from decide_ok [OF Cons.prems(1), of tabs sq wire now] obtain d e1 where
    d: "decide tabs sq wire now e = Some (d, e1)" "engine_ok e1" "im_profile e1 = im_profile e" by blast
  from decide_ok [OF Cons.prems(2), of tabs sq wire now] obtain d0 e10 where
    d0: "decide tabs sq wire now e0 = Some (d0, e10)" "engine_ok e10" "im_profile e10 = im_profile e0" by blast
  note one = decide_same [OF Cons.prems(3,4) d(1) d0(1)]
  from Cons.IH [OF d(2) d0(2) one [THEN conjunct2], of "sq + 1"] show ?case
    using one d d0 Cons.prems(4) by (auto simp: a)
qed simp

lemma normalise_masked: "normalise_patterns (masked m p) = masked m (normalise_patterns p)"
  by (simp add: normalise_patterns_def masked_def normalise_models_def masked_models_def)

lemma direction_ok_masked:
  assumes "direction_ok p" "keep_reorder m \<longrightarrow> keep_delay m"
  shows "direction_ok (masked m p)"
proof -
  have ok: "models_ok (masked_models m p' ts)" if "models_ok p'" for p' ts
    using that assms(2) by (auto simp: models_ok_def masked_models_def largest_on_wire_datagram_def)
  let ?f = "\<lambda>step. TimelineStep (ts_at_ns step)
      (masked_models m (ts_profile step) (dp_timeline (ts_profile step)))"
  have steps: "dp_timeline (masked m p) = map ?f (dp_timeline p)"
    and none: "dp_timeline (masked_models m p' []) = []" for p'
    by (simp_all add: masked_def masked_models_def)
  have "models_ok (masked m p)" using assms(1) ok unfolding masked_def direction_ok_def by blast
  moreover have "map ts_at_ns (dp_timeline (masked m p)) = map ts_at_ns (dp_timeline p)"
    by (simp add: steps)
  moreover have "dp_timeline (ts_profile s) = [] \<and> models_ok (ts_profile s)"
    if "s \<in> set (dp_timeline (masked m p))" for s
    using that assms(1) ok none by (auto simp: steps direction_ok_def)
  ultimately show ?thesis using assms(1) unfolding direction_ok_def by simp
qed

lemma impairer_new_masked:
  assumes "impairer_new p seed d = Inr e" "keep_reorder m \<longrightarrow> keep_delay m"
  shows "\<exists>e0. impairer_new (masked m p) seed d = Inr e0 \<and> same_streams m e e0
    \<and> im_profile e0 = masked m (im_profile e)"
  using assms direction_ok_masked [of p m]
  by (auto simp: impairer_new_def and_then_eq_Inr validate_direction_ok normalise_masked
      same_streams_def)

lemma ablation:
  assumes "impairer_new p seed d = Inr e" "keep_reorder m \<longrightarrow> keep_delay m"
  shows "\<exists>e0 ds e' ds0 e0'. impairer_new (masked m p) seed d = Inr e0
    \<and> decide_run tabs sq arrivals e = Some (ds, e') \<and> decide_run tabs sq arrivals e0 = Some (ds0, e0')
    \<and> list_all2 (agrees m) ds ds0"
  using impairer_new_masked [OF assms] decide_run_same impairer_new_ok assms(1) by blast

end
