(* ===== verification/Netem_Shaping.thy ===== *)
theory Netem_Shaping
  imports Netem_Laws
begin

text \<open>
  The queue and the bucket of one engine under one rate. The queue counts every admitted byte until
  the link has drained it, and the bucket's deficit counts the same bytes, so the two agree at every
  decision; the queue's threshold therefore bounds how long the bucket holds a datagram.
\<close>

definition byte_rate :: "rate_model \<Rightarrow> u64" where
  "byte_rate rate = of_nat (div_ceil (unat (rt_bps rate)) 8)"

text \<open>The bucket lags the queue when the queue refuses: then only the queue is brought to \<open>now\<close>.\<close>

definition in_step :: "u64 \<Rightarrow> bucket_state \<Rightarrow> queue_state \<Rightarrow> bool" where
  "in_step r b q \<longleftrightarrow> bk_last b \<le> qu_last q
     \<and> leak r (bk_last b) (qu_last q) (bk_deficit b) = qu_backlog q"

lemma in_step_default: "in_step r bucket_default queue_default"
  by (simp add: in_step_def bucket_default_def queue_default_def leak_def)

lemma in_step_drain:
  assumes "in_step r b q" "qu_last q \<le> now"
  shows "leak r (bk_last b) now (bk_deficit b) = qu_backlog (drain r now q)"
    "in_step r b (drain r now q)" "qu_last (drain r now q) = now"
proof -
  show l: "leak r (bk_last b) now (bk_deficit b) = qu_backlog (drain r now q)"
    using assms leak_leak [of "bk_last b" "qu_last q" now r "bk_deficit b"]
    by (simp add: in_step_def drain_state)
  show n: "qu_last (drain r now q) = now" using assms(2) by (simp add: drain_state max.absorb2)
  show "in_step r b (drain r now q)" using assms l n by (auto simp: in_step_def)
qed

text \<open>A datagram let through: held for no longer than the queue may be deep, past one burst.\<close>

definition held_within :: "rate_model \<Rightarrow> tick \<Rightarrow> tick \<Rightarrow> bool" where
  "held_within rate now t \<longleftrightarrow> t = now
     \<or> (now < t \<and> unat (rt_burst_bytes rate) * NANO + (unat t - unat now) * unat (byte_rate rate)
          < unat (rt_queue_bytes rate) * NANO + unat (byte_rate rate))"

lemma rate_admit_in_step:
  assumes s: "in_step (byte_rate rate) b q" and le: "qu_last q \<le> now"
    and run: "rate_admit rate wire now b q = (answer, b', q')"
  shows "in_step (byte_rate rate) b' q' \<and> qu_last q' = now
    \<and> (\<forall>t. answer = Inr t \<longrightarrow> t \<noteq> - 1 \<longrightarrow> held_within rate now t)"
proof -
  let ?r = "byte_rate rate"
  let ?q = "drain ?r now q"
  note d = in_step_drain [OF s le]
  obtain a q1 where off: "offer q ?r (rt_queue_bytes rate) wire now = (a, q1)" by fastforce
  note o = off [unfolded offer_cases Let_def]
  show ?thesis
  proof (cases "a = Queued")
    case False
    then have "q1 = ?q" "answer = Inl RateQueueFull \<or> answer = Inl RateOversize" "b' = b" "q' = q1"
      using o off run by (cases a; simp add: rate_admit_def byte_rate_def)+
    then show ?thesis using d by auto
  next
    case True
    have q1: "q1 = ?q\<lparr> qu_backlog := qu_backlog ?q + unat wire * NANO \<rparr>"
      "qu_backlog ?q + unat wire * NANO \<le> unat (rt_queue_bytes rate) * NANO"
      using o True by simp_all
    have le': "bk_last b \<le> now" using s le by (auto simp: in_step_def)
    obtain g b1 where ch: "charge b ?r (rt_burst_bytes rate) wire now = (g, b1)" by fastforce
    note c = charge_cases [OF le' ch, unfolded d(1)]
    note run = run [unfolded rate_admit_def byte_rate_def [symmetric] Let_def off True ch, simplified]
    show ?thesis
    proof (cases g)
      case GrantNow
      then show ?thesis using run c q1 d(3) by (auto simp: in_step_def leak_def held_within_def unat_since)
    next
      case GrantNever
      then have "b' = b1" "q' = withdraw wire q1" "answer = Inl RateOversize" using run by simp_all
      moreover have "withdraw wire q1 = ?q" using withdraw_offer off True by simp
      ultimately show ?thesis using c GrantNever d by (auto simp: in_step_def leak_def unat_since)
    next
      case (GrantLater t)
      then have r: "b' = reserve wire b1" "q' = q1" "answer = Inr t" using run by simp_all
      have "held_within rate now t" if "t \<noteq> - 1"
        using c(4) [OF GrantLater that] q1(2) by (auto simp: held_within_def)
      moreover have "bk_deficit b1 = qu_backlog ?q"
        using ch GrantLater le' d(1)
        by (auto simp: charge_def Let_def refill_state max.absorb2 split: if_splits)
      ultimately show ?thesis
        using r c(1) q1 d(3) by (auto simp: in_step_def leak_def unat_since reserve_def)
    qed
  qed
qed

section \<open>Runs of an engine that only shapes\<close>

lemma loss_stage_state:
  "loss_stage p sq e = (lost, e') \<Longrightarrow>
     im_bucket e' = im_bucket e \<and> im_queue e' = im_queue e \<and> im_profile e' = im_profile e"
  by (auto simp: loss_stage_def Let_def split: option.splits prod.splits)

lemma dup_stage_rate:
  "dup_stage p wire r e = (d, e') \<Longrightarrow>
     im_bucket e' = im_bucket e \<and> im_queue e' = im_queue e \<and> im_profile e' = im_profile e"
  by (auto simp: dup_stage_def Let_def split: option.splits prod.splits if_splits)

lemma corrupt_stage_rate:
  "corrupt_stage p wire e = Some (site, e') \<Longrightarrow>
     im_bucket e' = im_bucket e \<and> im_queue e' = im_queue e \<and> im_profile e' = im_profile e"
  by (auto simp: corrupt_stage_def Let_def bind_eq_Some_conv split: option.splits prod.splits if_splits)

lemma finish_rate:
  "finish wire d e = Some (r, e') \<Longrightarrow>
     r = d \<and> im_bucket e' = im_bucket e \<and> im_queue e' = im_queue e \<and> im_profile e' = im_profile e"
  by (auto simp: finish_def Let_def bind_eq_Some_conv)

lemma finish_drop_rate:
  "finish_drop c wire now e = Some (d, e') \<Longrightarrow>
     de_verdict d = Drop \<and> im_bucket e' = im_bucket e \<and> im_queue e' = im_queue e
     \<and> im_profile e' = im_profile e"
  by (auto simp: finish_drop_def dropped_def dest!: finish_rate)

text \<open>Without a delay model the release of the bucket is the release of the datagram.\<close>

lemma forward_stage_rate:
  assumes "dp_delay p = None" "now \<le> release"
    and "forward_stage tabs p sq wire now release e = Some (d, e')"
  shows "de_release d = release \<and> im_bucket e' = im_bucket e \<and> im_queue e' = im_queue e
    \<and> im_profile e' = im_profile e"
proof -
  let ?v = "if release > now then Delay else Pass"
  obtain k e1 where k: "dup_stage p wire release e = (k, e1)" by fastforce
  have nl: "(if release < now then now else release) = release" using assms(2) by (simp add: leD)
  have "Option.bind (corrupt_stage p wire e1) (\<lambda>(corrupt, e).
      finish wire \<lparr> de_verdict = ?v, de_cause = NotDropped, de_release = release, de_duplicate = k,
        de_corrupt = corrupt, de_queue_backlog_bytes = backlog_bytes (im_queue e) \<rparr> e) = Some (d, e')"
    using assms(1,3) k nl by (simp add: forward_stage_def delay_stage_def reorder_stage_def)
  then obtain c e2 where c: "corrupt_stage p wire e1 = Some (c, e2)"
    and "finish wire \<lparr> de_verdict = ?v, de_cause = NotDropped, de_release = release, de_duplicate = k,
        de_corrupt = c, de_queue_backlog_bytes = backlog_bytes (im_queue e2) \<rparr> e2 = Some (d, e')"
    by (auto simp: bind_eq_Some_conv)
  from finish_rate [OF this(2)] corrupt_stage_rate [OF c] dup_stage_rate [OF k] show ?thesis by simp
qed

lemma decide_in_step:
  assumes p: "dp_timeline (im_profile e) = []" "dp_rate (im_profile e) = Some rate"
      "dp_delay (im_profile e) = None"
    and s: "in_step (byte_rate rate) (im_bucket e) (im_queue e)" "qu_last (im_queue e) \<le> now"
    and run: "decide tabs sq wire now e = Some (d, e')"
  shows "in_step (byte_rate rate) (im_bucket e') (im_queue e') \<and> qu_last (im_queue e') \<le> now
    \<and> im_profile e' = im_profile e
    \<and> (de_verdict d = Drop \<or> de_release d = - 1
      \<or> held_within rate now (de_release d))"
proof -
  let ?p = "im_profile e"
  have active: "active_profile ?p now = ?p" using p(1) by (simp add: active_profile_def)
  define e0 where "e0 = e\<lparr> im_counters := (im_counters e)\<lparr>
       ct_seen := ct_seen (im_counters e) + 1,
       ct_wire_bytes_in := ct_wire_bytes_in (im_counters e) + unat wire \<rparr> \<rparr>"
  have e0: "im_bucket e0 = im_bucket e" "im_queue e0 = im_queue e" "im_profile e0 = im_profile e"
    by (simp_all add: e0_def)
  obtain lost e1 where l: "loss_stage ?p sq e0 = (lost, e1)" by fastforce
  obtain answer e2 where r: "rate_stage ?p wire now e1 = (answer, e2)" by fastforce
  note e1 = loss_stage_state [OF l]
  have adm: "rate_admit rate wire now (im_bucket e) (im_queue e) = (answer, im_bucket e2, im_queue e2)"
    and e2: "im_profile e2 = im_profile e"
    using r e1 e0 p(2) by (auto simp: rate_stage_def split: prod.splits)
  note step = rate_admit_in_step [OF s adm]
  let ?B = "list_ex (\<lambda>w. window_contains w now) (dp_blackouts ?p)"
  let ?M = "case dp_mtu_blackhole ?p of Some mtu \<Rightarrow> wire > ucast mtu | None \<Rightarrow> False"
  have "decide tabs sq wire now e =
      (if ?B then finish_drop Blackout wire now e0 else if ?M then finish_drop Mtu wire now e0
       else if lost then finish_drop Loss wire now e1
       else (case answer of Inl cause \<Rightarrow> finish_drop cause wire now e2
             | Inr release \<Rightarrow> forward_stage tabs ?p sq wire now release e2))"
    by (simp only: decide_def Let_def active e0_def [symmetric] l r prod.case)
  with run consider (drop) c ea where "finish_drop c wire now ea = Some (d, e')" "ea \<in> {e0, e1, e2}"
    | (forward) release where "answer = Inr release"
        "forward_stage tabs ?p sq wire now release e2 = Some (d, e')"
    by (cases answer) (auto split: if_splits)
  then show ?thesis
  proof cases
    case drop
    then show ?thesis using finish_drop_rate [OF drop(1)] e0 e1 e2 s step by auto
  next
    case forward
    have "now \<le> release"
      using step forward(1) by (cases "release = - 1") (auto simp: held_within_def)
    from forward_stage_rate [OF p(3) this forward(2)] show ?thesis using step e2 forward(1) by auto
  qed
qed

lemma decide_run_held:
  assumes "dp_timeline (im_profile e) = []" "dp_rate (im_profile e) = Some rate"
      "dp_delay (im_profile e) = None"
    and "in_step (byte_rate rate) (im_bucket e) (im_queue e)"
    and "ticks_from (qu_last (im_queue e)) arrivals"
    and "decide_run tabs sq arrivals e = Some (ds, e')"
  shows "list_all2 (\<lambda>(wire, now) d. de_verdict d = Drop \<or> de_release d = - 1
      \<or> held_within rate now (de_release d)) arrivals ds"
  using assms
proof (induction arrivals arbitrary: sq e ds)
  case (Cons a arrivals)
  obtain wire now where a: "a = (wire, now)" by fastforce
  from Cons.prems(6) obtain d e1 ds1 where d: "decide tabs sq wire now e = Some (d, e1)"
    "decide_run tabs (sq + 1) arrivals e1 = Some (ds1, e')" "ds = d # ds1"
    by (auto simp: a bind_eq_Some_conv)
  have le: "qu_last (im_queue e) \<le> now" and tail: "ticks_from now arrivals"
    using Cons.prems(5) by (simp_all add: a)
  note step = decide_in_step [OF Cons.prems(1-4) le d(1)]
  have "ticks_from (qu_last (im_queue e1)) arrivals"
    using tail step by (cases arrivals) auto
  then show ?case
    using Cons.IH [OF _ _ _ _ _ d(2)] step Cons.prems(1-3) d(3) by (simp add: a)
qed simp

end
