(* ===== verification/Netem_Properties.thy ===== *)
theory Netem_Properties
  imports Netem_Separate Netem_Shaping
begin

text \<open>The properties of the network emulator.\<close>

lemma impairer_new_preset: "\<exists>e. impairer_new (ip_downlink (preset_profile p)) seed d = Inr e"
  using presets_validate [of p]
  by (auto simp: validate_profile_ok impairer_new_def and_then_eq_Inr validate_direction_ok)

definition flat_tables :: dist_tables where
  "flat_tables = \<lparr> dt_normal = replicate 4096 0, dt_pareto = replicate 4096 0,
     dt_paretonormal = replicate 4096 0 \<rparr>"

text \<open>C25. Every datagram that arrives at an engine built from a profile it accepted is decided: no
  draw runs for ever and no panic is reached; the decision is well formed (a dropped datagram has a
  cause and nothing else, a delayed one leaves later, a duplicate leaves with its original, a flipped
  bit lies past the longest header), and the counters have counted it in exactly one way out.\<close>

theorem engine_decides:
  assumes "impairer_new p seed d = Inr e"
  shows "\<exists>ds e'. decide_run tabs sq arrivals e = Some (ds, e') \<and> engine_run_ok arrivals ds
    \<and> ct_seen (im_counters e') = length arrivals \<and> accounted (im_counters e') = length arrivals"
proof -
  have "ct_seen (im_counters e) = 0"
    using assms by (auto simp: impairer_new_def and_then_eq_Inr counters_default_def)
  with decide_run_ok [OF impairer_new_ok [OF assms], of tabs sq arrivals] show ?thesis
    by (auto simp: engine_ok_def)
qed

theorem engine_decides_witness:
  "\<exists>e ds e'. impairer_new (ip_downlink (preset_profile LossyEdge)) 7 Downlink = Inr e
     \<and> decide_run flat_tables 0 [(1200, 5), (64, 5), (1500, 90)] e = Some (ds, e')
     \<and> ct_seen (im_counters e') = 3"
proof -
  obtain e where "impairer_new (ip_downlink (preset_profile LossyEdge)) 7 Downlink = Inr e"
    using impairer_new_preset by blast
  with engine_decides [OF this, of flat_tables 0 "[(1200, 5), (64, 5), (1500, 90)]"] show ?thesis
    by (auto simp: numeral_3_eq_3)
qed

text \<open>C26. The models draw apart: take any of the models that only delay, reorder, duplicate or
  corrupt out of a profile, and an engine with the same seed drops the same datagrams for the same
  causes with the same queue behind them, and each model that is left decides as before.\<close>

theorem models_draw_apart:
  assumes "impairer_new p seed d = Inr e" and "keep_reorder m \<longrightarrow> keep_delay m"
  shows "\<exists>e0 ds e' ds0 e0'. impairer_new (masked m p) seed d = Inr e0
    \<and> decide_run tabs sq arrivals e = Some (ds, e') \<and> decide_run tabs sq arrivals e0 = Some (ds0, e0')
    \<and> list_all2 (agrees m) ds ds0"
  using assms by (rule ablation)

theorem models_draw_apart_witness:
  "let m = \<lparr> keep_delay = False, keep_reorder = False, keep_dup = True, keep_corrupt = True \<rparr>;
       p = ip_downlink (preset_profile Wifi)
   in \<exists>e e0 ds e' ds0 e0'. impairer_new p 2 Downlink = Inr e
     \<and> impairer_new (masked m p) 2 Downlink = Inr e0
     \<and> decide_run flat_tables 0 [(1200, 5), (64, 9)] e = Some (ds, e')
     \<and> decide_run flat_tables 0 [(1200, 5), (64, 9)] e0 = Some (ds0, e0') \<and> list_all2 (agrees m) ds ds0"
proof -
  let ?m = "\<lparr> keep_delay = False, keep_reorder = False, keep_dup = True, keep_corrupt = True \<rparr>"
  obtain e where e: "impairer_new (ip_downlink (preset_profile Wifi)) 2 Downlink = Inr e"
    using impairer_new_preset by blast
  from models_draw_apart [OF this, of ?m flat_tables 0 "[(1200, 5), (64, 9)]"] e show ?thesis
    unfolding Let_def by auto
qed

text \<open>C27. What the token bucket lets go between one release and a later one, both included, is at
  most one burst and what the rate allows for the time between them, up to the one tick a deadline is
  rounded up to.\<close>

theorem link_keeps_rate:
  assumes "ticks_from (bk_last st) arrivals" and "nonempty arrivals"
    and "shaped rate burst st arrivals = (n, t1) # gs" and "\<forall>g \<in> set ((n, t1) # gs). snd g \<noteq> - 1"
  shows "t1 \<le> snd (last ((n, t1) # gs)) \<and> released_bytes ((n, t1) # gs) * NANO
      \<le> unat burst * NANO + (unat (snd (last ((n, t1) # gs))) - unat t1 + 1) * unat rate"
  using assms by (rule shaped_window)

theorem link_keeps_rate_witness:
  "shaped 1000 1500 bucket_default [(1200, 7), (1200, 8), (600, 9)]
     = [(1200, 7), (1200, 900000007), (600, 1500000007)]
   \<and> (1200 + 1200 + 600) * NANO \<le> 1500 * NANO + (1500000007 - 7 + 1) * 1000"
proof -
  let ?ps = "[(1200, 7), (1200, 8), (600, 9)] :: (u32 \<times> tick) list"
  have run: "shaped 1000 1500 bucket_default ?ps = [(1200, 7), (1200, 900000007), (600, 1500000007)]"
    by (simp add: schedule_def charge_def refill_def since_def sat_sub_def bucket_default_def NANO_def
        div_ceil_def saturating_add_ns_def sat_add_def reserve_def Let_def)
  have "ticks_from (bk_last bucket_default) ?ps" "nonempty ?ps"
    by (simp_all add: bucket_default_def nonempty_def)
  from link_keeps_rate [OF this run] show ?thesis
    using run by (simp add: released_bytes_def)
qed

text \<open>C28. Under one rate and no delay model, a datagram that is let through leaves at once or is held
  for no longer than the rate takes to drain what the queue may hold past one burst.\<close>

theorem hold_is_bounded:
  assumes "impairer_new p seed d = Inr e"
    and "dp_timeline p = []" "dp_rate p = Some rate" "dp_delay p = None" "ticks_from 0 arrivals"
  shows "\<exists>ds e'. decide_run tabs sq arrivals e = Some (ds, e')
    \<and> list_all2 (\<lambda>(wire :: u32, now) d. de_verdict d = Drop \<or> de_release d = - 1
      \<or> held_within rate now (de_release d)) arrivals ds"
proof -
  have p: "dp_timeline (im_profile e) = []" "dp_rate (im_profile e) = Some rate"
      "dp_delay (im_profile e) = None" "in_step (byte_rate rate) (im_bucket e) (im_queue e)"
      "ticks_from (qu_last (im_queue e)) arrivals"
    using assms in_step_default
    by (auto simp: impairer_new_def and_then_eq_Inr normalise_patterns_def normalise_models_def
        queue_default_def)
  from decide_run_ok [OF impairer_new_ok [OF assms(1)]] obtain ds e' where
    run: "decide_run tabs sq arrivals e = Some (ds, e')" by blast
  from decide_run_held [OF p run] run show ?thesis by blast
qed

theorem hold_is_bounded_witness:
  "let rate = \<lparr> rt_bps = 8000000, rt_burst_bytes = 3000, rt_queue_bytes = 24000 \<rparr>;
       p = DirectionProfile (Some rate) None None None None None None [] []
   in \<exists>e ds e'. impairer_new p 1 Downlink = Inr e
     \<and> decide_run flat_tables 0 [(1200, 5), (1200, 5), (1200, 6)] e = Some (ds, e')
     \<and> list_all2 (\<lambda>(wire :: u32, now) d. de_verdict d = Drop \<or> de_release d = - 1
      \<or> held_within rate now (de_release d)) [(1200, 5), (1200, 5), (1200, 6)] ds"
proof -
  let ?rate = "\<lparr> rt_bps = 8000000, rt_burst_bytes = 3000, rt_queue_bytes = 24000 \<rparr>"
  let ?p = "DirectionProfile (Some ?rate) None None None None None None [] []"
  have "direction_ok ?p"
    by (simp add: direction_ok_def models_ok_def largest_on_wire_datagram_def ASSUMED_PATH_WIRE_BYTES_def)
  then obtain e where e: "impairer_new ?p 1 Downlink = Inr e"
    by (auto simp: impairer_new_def and_then_eq_Inr validate_direction_ok)
  from hold_is_bounded [OF this, of ?rate "[(1200, 5), (1200, 5), (1200, 6)]" flat_tables 0] e
  show ?thesis unfolding Let_def by auto
qed

text \<open>The bounded draw returns from every seed and stream, with a value below the bound, and
  of the generator's words that it accepts each value below the bound has equally many.\<close>

theorem bounded_draw_fair:
  assumes "bound \<noteq> 0"
  shows "(\<exists>v rng'. next_bounded bound (seeded seed stream) = Some (v, rng') \<and> v < bound)
    \<and> next_bounded bound rng = (let (r, rng') = next_u32 rng in
      if - bound mod bound \<le> r then Some (r mod bound, rng') else next_bounded bound rng')
    \<and> (\<forall>v < bound. card {r. - bound mod bound \<le> r \<and> r mod bound = v} = 2 ^ 32 div unat bound)"
proof (intro conjI)
  show "\<exists>v rng'. next_bounded bound (seeded seed stream) = Some (v, rng') \<and> v < bound"
    using next_bounded_returns [of "seeded seed stream" bound] assms by auto
  show "next_bounded bound rng = (let (r, rng') = next_u32 rng in
      if - bound mod bound \<le> r then Some (r mod bound, rng') else next_bounded bound rng')"
    using assms draw_from.simps [of "- bound mod bound" bound rng]
    by (cases "next_u32 rng") (simp add: next_bounded_def)
qed (use accepted_draws in simp)

theorem bounded_draw_fair_witness:
  "(\<exists>v rng'. next_bounded 3000000000 (seeded 42 54) = Some (v, rng') \<and> v < 3000000000)
   \<and> card {r :: u32. - 6 mod 6 \<le> r \<and> r mod 6 = 5} = 715827882"
proof
  show "\<exists>v rng'. next_bounded 3000000000 (seeded 42 54) = Some (v, rng') \<and> v < 3000000000"
    using bounded_draw_fair [THEN conjunct1, of 3000000000 42 54] by simp
  show "card {r :: u32. - 6 mod 6 \<le> r \<and> r mod 6 = 5} = 715827882"
    using bounded_draw_fair [THEN conjunct2, THEN conjunct2, of 6] by simp
qed

text \<open>A delay sample from a table is the mean displaced by the deviation times the quantile in
  units of 1/8192, rounded half away from zero, although the code multiplies in two parts and
  saturates; and every sample of every model, of any 16-bit table, stays within four deviations of
  its mean.\<close>

theorem delay_samples_exact:
  fixes table :: dist_table and rnd :: u32
  assumes "0 < sigma" "sigma \<le> 2 ^ 60" "0 \<le> mu" "mu \<le> 2 ^ 60"
    and "delay_mean m \<le> 2 ^ 60" "delay_spread m \<le> 2 ^ 60"
  shows "tabledist mu sigma rnd (Some table)
      = mu + round_half_away (sigma * sint (table ! (unat rnd mod TABLE_LEN))) 8192
    \<and> \<bar>fst (sample_delay tabs m rng corr) - delay_mean m\<bar> \<le> delay_spread m"
  using tabledist_table(1) [OF assms(1-4)] sample_delay_spread [OF assms(5,6)] by blast

theorem delay_samples_exact_witness:
  "tabledist 5000 1000 3 (Some [0, 8192, - 8192, - 12289]) = 3500
   \<and> \<bar>fst (sample_delay flat_tables (NormalDelay 45000000 12000000 64) (seeded 1 1) 0) - 45000000\<bar>
       \<le> 48000000"
  using delay_samples_exact [of 1000 5000 "NormalDelay 45000000 12000000 64" 3 "[0, 8192, - 8192, - 12289]"
      flat_tables "seeded 1 1" 0]
  by (simp add: round_half_away_def TABLE_LEN_def)

text \<open>A profile is accepted exactly when each direction's rates can carry its largest datagram,
  no model is armed that cannot act, its timeline ascends from after the arming and nests no
  timeline, and its peer filter can match a peer; every preset is accepted.\<close>

theorem profile_accepted_iff:
  "(validate_profile p = Inr () \<longleftrightarrow> direction_ok (ip_downlink p) \<and> direction_ok (ip_uplink p)
     \<and> (case ip_peers p of FilterAll \<Rightarrow> True | FilterOnly addrs \<Rightarrow>
          addrs \<noteq> [] \<and> list_all (\<lambda>a. addr_port a \<noteq> 0 \<and> \<not> is_unspecified (addr_ip a)) addrs))
   \<and> validate_profile (preset_profile preset) = Inr ()"
  by (auto simp: validate_profile_ok list_all_iff presets_validate split: peer_filter.splits)

text \<open>The profile in force at a tick is that of the last timeline step at or before it, and the
  armed one before the first step.\<close>

theorem timeline_in_force:
  assumes "validate_direction p = Inr ()" and "dp_timeline p = before @ after"
    and "list_all (\<lambda>s. ts_at_ns s \<le> now) before" "list_all (\<lambda>s. now < ts_at_ns s) after"
  shows "active_profile p now = (if before = [] then p else ts_profile (last before))"
proof (cases before rule: rev_cases)
  case Nil
  then show ?thesis using active_profile_armed [of p now] assms(2,4) by (simp add: list_all_iff)
next
  case (snoc ss s)
  then show ?thesis
    using active_profile_step [of p ss s after now] assms by (simp add: validate_direction_ok list_all_iff)
qed

theorem timeline_in_force_witness:
  "let base = (\<lambda>d ts. DirectionProfile None (Some (FixedDelay d)) None None None None None [] ts);
       p = base 10 [TimelineStep 100 (base 20 []), TimelineStep 200 (base 30 [])]
   in active_profile p 150 = base 20 [] \<and> active_profile p 99 = p"
proof -
  let ?base = "\<lambda>d ts. DirectionProfile None (Some (FixedDelay d)) None None None None None [] ts"
  let ?s = "TimelineStep 100 (?base 20 [])" and ?s' = "TimelineStep 200 (?base 30 [])"
  let ?p = "?base 10 [?s, ?s']"
  have "validate_direction ?p = Inr ()"
    by (simp add: validate_direction_ok direction_ok_def models_ok_def)
  from timeline_in_force [OF this, of "[?s]" "[?s']" 150] timeline_in_force [OF this, of "[]" "[?s, ?s']" 99]
  show ?thesis by (simp add: Let_def)
qed

text \<open>A probability is read back in the parts per billion it was written in, and the two ends
  are exact: none never hits and one always does.\<close>

theorem probability_written_form:
  assumes "ppb \<le> PPB_ONE"
  shows "prob_try_from ppb = Inr (from_ppb ppb) \<and> to_ppb (from_ppb ppb) = ppb
    \<and> \<not> hits (from_ppb 0) draw \<and> hits (from_ppb PPB_ONE) draw"
  using assms to_ppb_from_ppb hits_never hits_always [of PPB_ONE draw]
  by (auto simp: prob_try_from_def PPB_ONE_def)

theorem probability_written_form_witness:
  "to_ppb (from_ppb 333333333) = 333333333 \<and> hits (from_ppb PPB_ONE) 4294967295"
  using probability_written_form [of 333333333 4294967295] by (simp add: PPB_ONE_def)

end
