(* ===== verification/Netem_Stats.thy ===== *)
theory Netem_Stats
  imports Netem_Laws
begin

text \<open>
  The live counters of a link (\<open>stats.rs\<close>) and the snapshot of the engine's own (\<open>Impairer::stats\<close>). An
  atomic counter is a word, whose \<open>fetch_add\<close> wraps; the two backlog cells are a function of the
  direction. The lemmas: a decision moves the engine's counters and these alike, and both account for
  every datagram.
\<close>

section \<open>The code\<close>

record stats =
  sa_seen :: u64
  sa_passed :: u64
  sa_delayed :: u64
  sa_reordered :: u64
  sa_duplicated :: u64
  sa_corrupted :: u64
  sa_dropped_loss :: u64
  sa_dropped_blackout :: u64
  sa_dropped_mtu :: u64
  sa_dropped_queue_full :: u64
  sa_dropped_rate_oversize :: u64
  sa_wire_bytes_in :: u64
  sa_wire_bytes_out :: u64
  sa_backlog :: "direction \<Rightarrow> u64"
  sa_backlog_max :: u64
  sa_release_batches :: u64
  sa_released_from_queue :: u64
  sa_release_batch_max :: u32
  sa_release_error_ns :: u64
  sa_ingress_overflow :: u64

definition stats_default :: stats where
  "stats_default =
     \<lparr> sa_seen = 0, sa_passed = 0, sa_delayed = 0, sa_reordered = 0, sa_duplicated = 0,
       sa_corrupted = 0, sa_dropped_loss = 0, sa_dropped_blackout = 0, sa_dropped_mtu = 0,
       sa_dropped_queue_full = 0, sa_dropped_rate_oversize = 0, sa_wire_bytes_in = 0,
       sa_wire_bytes_out = 0, sa_backlog = (\<lambda>_. 0), sa_backlog_max = 0, sa_release_batches = 0,
       sa_released_from_queue = 0, sa_release_batch_max = 0, sa_release_error_ns = 0,
       sa_ingress_overflow = 0 \<rparr>"

record stats_snapshot =
  datagrams_seen :: u64
  datagrams_passed :: u64
  datagrams_delayed :: u64
  datagrams_reordered :: u64
  datagrams_duplicated :: u64
  datagrams_corrupted :: u64
  dropped_loss :: u64
  dropped_blackout :: u64
  dropped_mtu :: u64
  dropped_queue_full :: u64
  dropped_rate_oversize :: u64
  wire_bytes_in :: u64
  wire_bytes_out :: u64
  queue_backlog_bytes :: u64
  queue_backlog_bytes_max :: u64
  release_batches :: u64
  released_from_queue :: u64
  release_batch_max :: u32
  release_error_ns :: u64
  ingress_overflow :: u64

definition backlog_total :: "stats \<Rightarrow> u64" where
  "backlog_total s = sat_add (sa_backlog s Downlink) (sa_backlog s Uplink)"

definition snapshot :: "stats \<Rightarrow> stats_snapshot" where
  "snapshot s =
     \<lparr> datagrams_seen = sa_seen s, datagrams_passed = sa_passed s, datagrams_delayed = sa_delayed s,
       datagrams_reordered = sa_reordered s, datagrams_duplicated = sa_duplicated s,
       datagrams_corrupted = sa_corrupted s, dropped_loss = sa_dropped_loss s,
       dropped_blackout = sa_dropped_blackout s, dropped_mtu = sa_dropped_mtu s,
       dropped_queue_full = sa_dropped_queue_full s,
       dropped_rate_oversize = sa_dropped_rate_oversize s, wire_bytes_in = sa_wire_bytes_in s,
       wire_bytes_out = sa_wire_bytes_out s, queue_backlog_bytes = backlog_total s,
       queue_backlog_bytes_max = sa_backlog_max s, release_batches = sa_release_batches s,
       released_from_queue = sa_released_from_queue s, release_batch_max = sa_release_batch_max s,
       release_error_ns = sa_release_error_ns s, ingress_overflow = sa_ingress_overflow s \<rparr>"

text \<open>The one bucket of a decision; \<open>None\<close> is the panic on a drop without a cause.\<close>

definition record_bucket :: "decision \<Rightarrow> stats \<Rightarrow> stats option" where
  "record_bucket d s =
     (case de_verdict d of
        Pass \<Rightarrow> Some (s\<lparr> sa_passed := sa_passed s + 1 \<rparr>)
      | Delay \<Rightarrow> Some (s\<lparr> sa_delayed := sa_delayed s + 1 \<rparr>)
      | Reorder \<Rightarrow> Some (s\<lparr> sa_reordered := sa_reordered s + 1 \<rparr>)
      | Drop \<Rightarrow>
          (case de_cause d of
             Loss \<Rightarrow> Some (s\<lparr> sa_dropped_loss := sa_dropped_loss s + 1 \<rparr>)
           | Blackout \<Rightarrow> Some (s\<lparr> sa_dropped_blackout := sa_dropped_blackout s + 1 \<rparr>)
           | Mtu \<Rightarrow> Some (s\<lparr> sa_dropped_mtu := sa_dropped_mtu s + 1 \<rparr>)
           | RateQueueFull \<Rightarrow> Some (s\<lparr> sa_dropped_queue_full := sa_dropped_queue_full s + 1 \<rparr>)
           | RateOversize \<Rightarrow> Some (s\<lparr> sa_dropped_rate_oversize := sa_dropped_rate_oversize s + 1 \<rparr>)
           | NotDropped \<Rightarrow> None))"

definition record_decision :: "direction \<Rightarrow> u32 \<Rightarrow> decision \<Rightarrow> stats \<Rightarrow> stats option" where
  "record_decision dir wire d s =
     (let bytes = ucast wire;
          s = s\<lparr> sa_seen := sa_seen s + 1, sa_wire_bytes_in := sa_wire_bytes_in s + bytes \<rparr>
      in Option.bind (record_bucket d s) (\<lambda>s.
      let s = (if de_verdict d = Drop then s else
                 let s = s\<lparr> sa_wire_bytes_out := sa_wire_bytes_out s + bytes \<rparr>;
                     s = (if de_duplicate d = None then s
                          else s\<lparr> sa_duplicated := sa_duplicated s + 1,
                                  sa_wire_bytes_out := sa_wire_bytes_out s + bytes \<rparr>)
                 in if de_corrupt d = None then s else s\<lparr> sa_corrupted := sa_corrupted s + 1 \<rparr>);
          s = s\<lparr> sa_backlog := (sa_backlog s)(dir := de_queue_backlog_bytes d) \<rparr>
      in Some (s\<lparr> sa_backlog_max := max (sa_backlog_max s) (backlog_total s) \<rparr>)))"

definition record_release :: "u32 \<Rightarrow> tick \<Rightarrow> tick \<Rightarrow> stats \<Rightarrow> stats" where
  "record_release batch scheduled observed s =
     (if batch = 0 then s
      else s\<lparr> sa_release_batches := sa_release_batches s + 1,
              sa_released_from_queue := sa_released_from_queue s + ucast batch,
              sa_release_batch_max := max (sa_release_batch_max s) batch,
              sa_release_error_ns := sa_release_error_ns s + since observed scheduled \<rparr>)"

definition record_ingress_overflow :: "stats \<Rightarrow> stats" where
  "record_ingress_overflow s = s\<lparr> sa_ingress_overflow := sa_ingress_overflow s + 1 \<rparr>"

text \<open>The counters the engine keeps for itself, read out (\<open>Impairer::stats\<close>).\<close>

definition impairer_stats :: "impairer \<Rightarrow> stats_snapshot" where
  "impairer_stats e =
     (let c = im_counters e in
      \<lparr> datagrams_seen = of_nat (ct_seen c), datagrams_passed = of_nat (ct_passed c),
        datagrams_delayed = of_nat (ct_delayed c), datagrams_reordered = of_nat (ct_reordered c),
        datagrams_duplicated = of_nat (ct_duplicated c),
        datagrams_corrupted = of_nat (ct_corrupted c), dropped_loss = of_nat (ct_dropped_loss c),
        dropped_blackout = of_nat (ct_dropped_blackout c), dropped_mtu = of_nat (ct_dropped_mtu c),
        dropped_queue_full = of_nat (ct_dropped_queue_full c),
        dropped_rate_oversize = of_nat (ct_dropped_rate_oversize c),
        wire_bytes_in = of_nat (ct_wire_bytes_in c), wire_bytes_out = of_nat (ct_wire_bytes_out c),
        queue_backlog_bytes = backlog_bytes (im_queue e), queue_backlog_bytes_max = ct_backlog_max c,
        release_batches = 0, released_from_queue = 0, release_batch_max = 0, release_error_ns = 0,
        ingress_overflow = 0 \<rparr>)"

section \<open>What one decision adds\<close>

text \<open>The decision counters, moved by one decision.\<close>

definition tally_extras :: "u32 \<Rightarrow> decision \<Rightarrow> counters \<Rightarrow> counters" where
  "tally_extras wire d c =
     c\<lparr> ct_duplicated := ct_duplicated c + (if de_duplicate d = None then 0 else 1),
        ct_corrupted := ct_corrupted c + (if de_corrupt d = None then 0 else 1),
        ct_wire_bytes_out := ct_wire_bytes_out c
          + (if de_duplicate d = None then 0 else unat wire) \<rparr>"

definition tally :: "u32 \<Rightarrow> decision \<Rightarrow> counters \<Rightarrow> counters option" where
  "tally wire d c =
     map_option (\<lambda>c. c\<lparr>
         ct_wire_bytes_out := ct_wire_bytes_out c + (if de_verdict d = Drop then 0 else unat wire),
         ct_backlog_max := max (ct_backlog_max c) (de_queue_backlog_bytes d) \<rparr>)
       (count_verdict d (tally_extras wire d
          (c\<lparr> ct_seen := ct_seen c + 1, ct_wire_bytes_in := ct_wire_bytes_in c + unat wire \<rparr>)))"

lemma finish_tally:
  "finish wire d e = Some (r, e') \<Longrightarrow>
     r = d \<and> im_queue e' = im_queue e \<and>
     map_option (\<lambda>c. c\<lparr>
         ct_wire_bytes_out := ct_wire_bytes_out c + (if de_verdict d = Drop then 0 else unat wire),
         ct_backlog_max := max (ct_backlog_max c) (de_queue_backlog_bytes d) \<rparr>)
       (count_verdict d (im_counters e)) = Some (im_counters e')"
  by (auto simp: finish_def Let_def bind_eq_Some_conv)

lemma finish_drop_tally:
  assumes "finish_drop cause wire now e = Some (d, e')"
    and "im_counters e = c\<lparr> ct_seen := ct_seen c + 1, ct_wire_bytes_in := ct_wire_bytes_in c + unat wire \<rparr>"
  shows "tally wire d c = Some (im_counters e') \<and> de_queue_backlog_bytes d = backlog_bytes (im_queue e')"
proof -
  from assms(1) have f: "finish wire (dropped cause now (im_queue e)) e = Some (d, e')"
    by (simp add: finish_drop_def)
  note t = finish_tally [OF this]
  have "de_duplicate d = None" "de_corrupt d = None" "de_queue_backlog_bytes d = backlog_bytes (im_queue e)"
    using t by (simp_all add: dropped_def)
  then show ?thesis using t assms(2) by (simp add: tally_def tally_extras_def)
qed

lemma quiet_stages:
  "loss_stage p sq e = (l, e') \<Longrightarrow> im_counters e' = im_counters e"
  "rate_stage p wire now e = (a, e') \<Longrightarrow> im_counters e' = im_counters e"
  "delay_stage tabs p now r e = (r', e') \<Longrightarrow> im_counters e' = im_counters e"
  "reorder_stage p sq now rv e = (rv', e') \<Longrightarrow> im_counters e' = im_counters e"
  by (auto simp: loss_stage_def rate_stage_def delay_stage_def reorder_stage_def Let_def
      split: option.splits prod.splits if_splits)

lemma dup_stage_tally:
  "dup_stage p wire r e = (dup, e') \<Longrightarrow> im_counters e' = (im_counters e)\<lparr>
     ct_duplicated := ct_duplicated (im_counters e) + (if dup = None then 0 else 1),
     ct_wire_bytes_out := ct_wire_bytes_out (im_counters e) + (if dup = None then 0 else unat wire) \<rparr>"
  by (auto simp: dup_stage_def Let_def split: option.splits prod.splits if_splits)

lemma corrupt_stage_tally:
  "corrupt_stage p wire e = Some (site, e') \<Longrightarrow> im_counters e' = (im_counters e)\<lparr>
     ct_corrupted := ct_corrupted (im_counters e) + (if site = None then 0 else 1) \<rparr>"
  by (auto simp: corrupt_stage_def Let_def bind_eq_Some_conv split: option.splits prod.splits if_splits)

lemma forward_stage_tally:
  assumes "forward_stage tabs p sq wire now release e = Some (d, e')"
    and c: "im_counters e = c\<lparr> ct_seen := ct_seen c + 1, ct_wire_bytes_in := ct_wire_bytes_in c + unat wire \<rparr>"
  shows "tally wire d c = Some (im_counters e') \<and> de_queue_backlog_bytes d = backlog_bytes (im_queue e')"
proof -
  obtain r1 e1 where d1: "delay_stage tabs p now release e = (r1, e1)" by fastforce
  define v1 where "v1 = (if r1 > now then Delay else Pass)"
  obtain r2 v2 e2 where d2: "reorder_stage p sq now (r1, v1) e1 = ((r2, v2), e2)" by (metis surj_pair)
  obtain k e3 where d3: "dup_stage p wire r2 e2 = (k, e3)" by fastforce
  from assms(1) obtain s e4 where d4: "corrupt_stage p wire e3 = Some (s, e4)"
    and f: "finish wire \<lparr> de_verdict = v2, de_cause = NotDropped, de_release = r2, de_duplicate = k,
      de_corrupt = s, de_queue_backlog_bytes = backlog_bytes (im_queue e4) \<rparr> e4 = Some (d, e')"
    by (auto simp: forward_stage_def d1 d2 d3 v1_def [symmetric] bind_eq_Some_conv)
  note t = finish_tally [OF f]
  have "im_counters e4 = tally_extras wire d (im_counters e)"
    using t quiet_stages(3) [OF d1] quiet_stages(4) [OF d2] dup_stage_tally [OF d3] corrupt_stage_tally [OF d4]
    by (simp add: tally_extras_def)
  then show ?thesis using t c by (simp add: tally_def)
qed

lemma decide_tally:
  assumes "decide tabs sq wire now e = Some (d, e')"
  shows "tally wire d (im_counters e) = Some (im_counters e')
    \<and> de_queue_backlog_bytes d = backlog_bytes (im_queue e')"
proof -
  let ?p = "active_profile (im_profile e) now"
  define e0 where "e0 = e\<lparr> im_counters := (im_counters e)\<lparr>
       ct_seen := ct_seen (im_counters e) + 1,
       ct_wire_bytes_in := ct_wire_bytes_in (im_counters e) + unat wire \<rparr> \<rparr>"
  obtain lost e1 where l: "loss_stage ?p sq e0 = (lost, e1)" by fastforce
  obtain answer e2 where r: "rate_stage ?p wire now e1 = (answer, e2)" by fastforce
  have c: "im_counters ea = (im_counters e)\<lparr> ct_seen := ct_seen (im_counters e) + 1,
      ct_wire_bytes_in := ct_wire_bytes_in (im_counters e) + unat wire \<rparr>" if "ea \<in> {e0, e1, e2}" for ea
    using that quiet_stages(1) [OF l] quiet_stages(2) [OF r] by (auto simp: e0_def)
  let ?B = "list_ex (\<lambda>w. window_contains w now) (dp_blackouts ?p)"
  let ?M = "case dp_mtu_blackhole ?p of Some mtu \<Rightarrow> wire > ucast mtu | None \<Rightarrow> False"
  have "decide tabs sq wire now e =
      (if ?B then finish_drop Blackout wire now e0 else if ?M then finish_drop Mtu wire now e0
       else if lost then finish_drop Loss wire now e1
       else (case answer of Inl cause \<Rightarrow> finish_drop cause wire now e2
             | Inr release \<Rightarrow> forward_stage tabs ?p sq wire now release e2))"
    by (simp only: decide_def Let_def e0_def [symmetric] l r prod.case)
  with assms consider (drop) cause ea where "finish_drop cause wire now ea = Some (d, e')" "ea \<in> {e0, e1, e2}"
    | (forward) release where "forward_stage tabs ?p sq wire now release e2 = Some (d, e')"
    by (cases answer) (auto split: if_splits)
  then show ?thesis
  proof cases
    case drop
    show ?thesis by (rule finish_drop_tally [OF drop(1) c [OF drop(2)]])
  next
    case forward
    show ?thesis by (rule forward_stage_tally [OF forward]) (simp add: c)
  qed
qed

section \<open>The two sets of counters agree\<close>

definition counts_agree :: "direction \<Rightarrow> stats \<Rightarrow> counters \<Rightarrow> bool" where
  "counts_agree dir s c \<longleftrightarrow>
     sa_seen s = of_nat (ct_seen c) \<and> sa_passed s = of_nat (ct_passed c)
     \<and> sa_delayed s = of_nat (ct_delayed c) \<and> sa_reordered s = of_nat (ct_reordered c)
     \<and> sa_duplicated s = of_nat (ct_duplicated c) \<and> sa_corrupted s = of_nat (ct_corrupted c)
     \<and> sa_dropped_loss s = of_nat (ct_dropped_loss c)
     \<and> sa_dropped_blackout s = of_nat (ct_dropped_blackout c)
     \<and> sa_dropped_mtu s = of_nat (ct_dropped_mtu c)
     \<and> sa_dropped_queue_full s = of_nat (ct_dropped_queue_full c)
     \<and> sa_dropped_rate_oversize s = of_nat (ct_dropped_rate_oversize c)
     \<and> sa_wire_bytes_in s = of_nat (ct_wire_bytes_in c)
     \<and> sa_wire_bytes_out s = of_nat (ct_wire_bytes_out c)
     \<and> sa_backlog_max s = ct_backlog_max c
     \<and> (\<forall>dir'. dir' \<noteq> dir \<longrightarrow> sa_backlog s dir' = 0)
     \<and> sa_release_batches s = 0 \<and> sa_released_from_queue s = 0 \<and> sa_release_batch_max s = 0
     \<and> sa_release_error_ns s = 0 \<and> sa_ingress_overflow s = 0"

lemma sat_add_0: "sat_add x 0 = x" "sat_add 0 x = x"
  using unat_le_max [of x] by (simp_all add: word_unat_eq_iff unat_sat_add min_def)

lemma one_backlog:
  assumes "\<forall>dir'. dir' \<noteq> dir \<longrightarrow> sa_backlog s dir' = 0"
  shows "backlog_total s = sa_backlog s dir"
  using assms by (cases dir) (simp_all add: backlog_total_def sat_add_0)

lemma of_nat_unat_u32: "(of_nat (unat w) :: u64) = ucast (w :: u32)"
  by (simp add: unsigned_of_nat word_unat_eq_iff)

lemma count_verdict_extras:
  "count_verdict d (tally_extras wire d c) = map_option (tally_extras wire d) (count_verdict d c)"
  by (cases "de_verdict d"; cases "de_cause d") (simp_all add: count_verdict_def tally_extras_def)

lemma record_decision_agrees:
  assumes a: "counts_agree dir s c" and t: "tally wire d c = Some c'"
    and drop: "de_verdict d = Drop \<longrightarrow> de_duplicate d = None \<and> de_corrupt d = None"
  shows "\<exists>s'. record_decision dir wire d s = Some s' \<and> counts_agree dir s' c'
    \<and> sa_backlog s' dir = de_queue_backlog_bytes d"
proof -
  define s1 where "s1 = s\<lparr> sa_seen := sa_seen s + 1, sa_wire_bytes_in := sa_wire_bytes_in s + ucast wire \<rparr>"
  define c1 where "c1 = c\<lparr> ct_seen := ct_seen c + 1, ct_wire_bytes_in := ct_wire_bytes_in c + unat wire \<rparr>"
  have a1: "counts_agree dir s1 c1"
    using a by (simp add: counts_agree_def s1_def c1_def of_nat_unat_u32)
  obtain c2 where c2: "count_verdict d c1 = Some c2"
    using t by (auto simp: tally_def tally_extras_def count_verdict_def c1_def split: verdict.splits drop_cause.splits)
  then obtain s2 where s2: "record_bucket d s1 = Some s2" and a2: "counts_agree dir s2 c2"
    using a1 by (auto simp: record_bucket_def count_verdict_def counts_agree_def
        split: verdict.splits drop_cause.splits)
  define c3 where "c3 = tally_extras wire d c2"
  have c': "c' = c3\<lparr>
      ct_wire_bytes_out := ct_wire_bytes_out c3 + (if de_verdict d = Drop then 0 else unat wire),
      ct_backlog_max := max (ct_backlog_max c3) (de_queue_backlog_bytes d) \<rparr>"
    using t c2 unfolding tally_def c1_def [symmetric] count_verdict_extras c3_def by simp
  define s3 where "s3 = (if de_verdict d = Drop then s2 else
     let s = s2\<lparr> sa_wire_bytes_out := sa_wire_bytes_out s2 + ucast wire \<rparr>;
         s = (if de_duplicate d = None then s
              else s\<lparr> sa_duplicated := sa_duplicated s + 1,
                      sa_wire_bytes_out := sa_wire_bytes_out s + ucast wire \<rparr>)
     in if de_corrupt d = None then s else s\<lparr> sa_corrupted := sa_corrupted s + 1 \<rparr>)"
  define s4 where "s4 = s3\<lparr> sa_backlog := (sa_backlog s3)(dir := de_queue_backlog_bytes d) \<rparr>"
  have run: "record_decision dir wire d s = Some (s4\<lparr> sa_backlog_max := max (sa_backlog_max s4) (backlog_total s4) \<rparr>)"
    using s2 by (simp add: record_decision_def s4_def s3_def Let_def flip: s1_def)
  have a3: "counts_agree dir s3 (c3\<lparr> ct_wire_bytes_out := ct_wire_bytes_out c3
      + (if de_verdict d = Drop then 0 else unat wire) \<rparr>)"
    using a2 drop unfolding s3_def c3_def tally_extras_def counts_agree_def
    by (simp add: Let_def of_nat_unat_u32)
  have "backlog_total s4 = de_queue_backlog_bytes d"
    using a3 one_backlog [of dir s4] by (simp add: counts_agree_def s4_def)
  then show ?thesis
    using run a3 by (simp add: c' s4_def counts_agree_def)
qed

text \<open>Recording a run of decisions of one direction.\<close>

fun record_run :: "direction \<Rightarrow> (u32 \<times> tick) list \<Rightarrow> decision list \<Rightarrow> stats \<Rightarrow> stats option" where
  "record_run dir [] [] s = Some s"
| "record_run dir ((wire, now) # arrivals) (d # ds) s =
     Option.bind (record_decision dir wire d s) (record_run dir arrivals ds)"
| "record_run dir _ _ s = None"

lemma record_run_agrees:
  assumes "engine_ok e" "counts_agree dir s (im_counters e)"
    and "sa_backlog s dir = backlog_bytes (im_queue e)"
    and "decide_run tabs sq arrivals e = Some (ds, e')"
  shows "\<exists>s'. record_run dir arrivals ds s = Some s' \<and> counts_agree dir s' (im_counters e')
    \<and> sa_backlog s' dir = backlog_bytes (im_queue e')"
  using assms
proof (induction arrivals arbitrary: sq e s ds)
  case (Cons a arrivals)
  obtain wire now where a: "a = (wire, now)" by fastforce
  from Cons.prems(4) obtain d e1 ds1 where d: "decide tabs sq wire now e = Some (d, e1)"
    "decide_run tabs (sq + 1) arrivals e1 = Some (ds1, e')" "ds = d # ds1"
    by (auto simp: a bind_eq_Some_conv)
  from decide_ok [OF Cons.prems(1), of tabs sq wire now] d(1) have ok: "engine_ok e1" "decision_ok wire now d"
    by auto
  note t = decide_tally [OF d(1)]
  from record_decision_agrees [OF Cons.prems(2) t [THEN conjunct1]] ok(2) obtain s1 where
    s1: "record_decision dir wire d s = Some s1" "counts_agree dir s1 (im_counters e1)"
      "sa_backlog s1 dir = backlog_bytes (im_queue e1)"
    using t by (auto simp: decision_ok_def)
  from Cons.IH [OF ok(1) s1(2,3) d(2)] show ?case using s1(1) d(3) by (simp add: a)
qed simp

lemma snapshot_agrees:
  assumes "counts_agree dir s (im_counters e)" "sa_backlog s dir = backlog_bytes (im_queue e)"
  shows "snapshot s = impairer_stats e"
proof -
  have "backlog_total s = backlog_bytes (im_queue e)"
    using assms one_backlog [of dir s] by (simp add: counts_agree_def)
  with assms(1) show ?thesis by (simp add: counts_agree_def snapshot_def impairer_stats_def Let_def)
qed

lemma run_snapshot:
  assumes "impairer_new p seed d = Inr e" "decide_run tabs sq arrivals e = Some (ds, e')"
  shows "\<exists>s. record_run dir arrivals ds stats_default = Some s \<and> snapshot s = impairer_stats e'"
proof -
  have "counts_agree dir stats_default (im_counters e)"
    and "sa_backlog stats_default dir = backlog_bytes (im_queue e)"
    using assms(1)
    by (auto simp: impairer_new_def and_then_eq_Inr counts_agree_def stats_default_def counters_default_def
        queue_default_def backlog_bytes_def div_ceil_def NANO_def)
  from record_run_agrees [OF impairer_new_ok [OF assms(1)] this assms(2)] show ?thesis
    using snapshot_agrees by blast
qed

section \<open>Conservation\<close>

text \<open>Every counted datagram is in one bucket, whatever else is recorded in between.\<close>

definition conserved :: "stats \<Rightarrow> bool" where
  "conserved s \<longleftrightarrow> sa_seen s = sa_passed s + sa_delayed s + sa_reordered s + sa_dropped_loss s
     + sa_dropped_blackout s + sa_dropped_mtu s + sa_dropped_queue_full s + sa_dropped_rate_oversize s"

lemma conserved_default: "conserved stats_default"
  by (simp add: conserved_def stats_default_def)

lemma conserved_updates:
  "conserved (s\<lparr> sa_wire_bytes_out := w \<rparr>) \<longleftrightarrow> conserved s"
  "conserved (s\<lparr> sa_duplicated := w \<rparr>) \<longleftrightarrow> conserved s"
  "conserved (s\<lparr> sa_corrupted := w \<rparr>) \<longleftrightarrow> conserved s"
  "conserved (s\<lparr> sa_backlog := f \<rparr>) \<longleftrightarrow> conserved s"
  "conserved (s\<lparr> sa_backlog_max := w \<rparr>) \<longleftrightarrow> conserved s"
  by (simp_all add: conserved_def)

lemma record_bucket_conserved:
  assumes "conserved s" "record_bucket d (s\<lparr> sa_seen := sa_seen s + 1, sa_wire_bytes_in := w \<rparr>) = Some s'"
  shows "conserved s'"
proof -
  have "conserved s'" if "de_verdict d = Drop"
    using assms that by (cases "de_cause d") (auto simp: record_bucket_def conserved_def)
  then show ?thesis
    using assms by (cases "de_verdict d") (auto simp: record_bucket_def conserved_def)
qed

lemma record_decision_conserved:
  assumes "conserved s" "record_decision dir wire d s = Some s'"
  shows "conserved s'"
proof -
  from assms(2) obtain s2 where
    s2: "record_bucket d (s\<lparr> sa_seen := sa_seen s + 1, sa_wire_bytes_in := sa_wire_bytes_in s + ucast wire \<rparr>)
        = Some s2"
    by (auto simp: record_decision_def Let_def bind_eq_Some_conv)
  define s3 where "s3 = (if de_verdict d = Drop then s2 else
     let s = s2\<lparr> sa_wire_bytes_out := sa_wire_bytes_out s2 + ucast wire \<rparr>;
         s = (if de_duplicate d = None then s
              else s\<lparr> sa_duplicated := sa_duplicated s + 1,
                      sa_wire_bytes_out := sa_wire_bytes_out s + ucast wire \<rparr>)
     in if de_corrupt d = None then s else s\<lparr> sa_corrupted := sa_corrupted s + 1 \<rparr>)"
  have "conserved s3 \<longleftrightarrow> conserved s2" by (simp add: s3_def Let_def conserved_updates)
  moreover have "\<exists>b m. s' = s3\<lparr> sa_backlog := b, sa_backlog_max := m \<rparr>"
    using assms(2) unfolding record_decision_def Let_def s2 Option.bind.simps s3_def by blast
  ultimately show ?thesis
    using record_bucket_conserved [OF assms(1) s2] by (auto simp: conserved_updates)
qed

lemma record_release_conserved: "conserved (record_release n t u s) \<longleftrightarrow> conserved s"
  by (simp add: record_release_def conserved_def)

lemma record_ingress_overflow_conserved: "conserved (record_ingress_overflow s) \<longleftrightarrow> conserved s"
  by (simp add: record_ingress_overflow_def conserved_def)

end
