(* ===== verification/Netem_Log.thy ===== *)
theory Netem_Log
  imports Netem_Laws
begin

text \<open>
  The decision log (\<open>log.rs\<close>): a record per decision, its text, and the comparison with a fixture. A
  text is a list of characters, of the first 256 code points. The lemmas: the text of a log determines
  the log, a comparison succeeds exactly with a fixture whose record lines are the log's, whatever
  its line endings, and the records of an engine's decisions determine the decisions.
\<close>

section \<open>Records\<close>

definition verdict_as_u8 :: "verdict \<Rightarrow> u8" where
  "verdict_as_u8 v = (case v of Pass \<Rightarrow> 0 | Delay \<Rightarrow> 1 | Reorder \<Rightarrow> 2 | Drop \<Rightarrow> 3)"

definition drop_cause_as_u8 :: "drop_cause \<Rightarrow> u8" where
  "drop_cause_as_u8 c =
     (case c of NotDropped \<Rightarrow> 0 | Loss \<Rightarrow> 1 | Blackout \<Rightarrow> 2 | Mtu \<Rightarrow> 3 | RateQueueFull \<Rightarrow> 4 | RateOversize \<Rightarrow> 5)"

record log_record =
  rc_seq :: u64
  rc_direction :: u8
  rc_verdict :: u8
  rc_cause :: u8
  rc_wire_bytes :: u32
  rc_now_ns :: u64
  rc_release_ns :: u64
  rc_dup_release_ns :: u64
  rc_corrupt_offset :: u32
  rc_corrupt_bit :: u8
  rc_queue_backlog_bytes :: u64

type_synonym decision_log = "log_record list"

definition record_of :: "direction \<Rightarrow> u64 \<Rightarrow> u32 \<Rightarrow> tick \<Rightarrow> decision \<Rightarrow> log_record" where
  "record_of dir sq wire now d =
     (let (offset, n) = (case de_corrupt d of
          Some site \<Rightarrow> (cs_byte_offset site, cs_bit site) | None \<Rightarrow> (- 1, 0))
      in \<lparr> rc_seq = sq, rc_direction = direction_as_u8 dir,
           rc_verdict = verdict_as_u8 (de_verdict d),
           rc_cause = drop_cause_as_u8 (decision_cause d), rc_wire_bytes = wire, rc_now_ns = now,
           rc_release_ns = de_release d,
           rc_dup_release_ns = (case de_duplicate d of Some t \<Rightarrow> t | None \<Rightarrow> - 1),
           rc_corrupt_offset = offset, rc_corrupt_bit = n,
           rc_queue_backlog_bytes = de_queue_backlog_bytes d \<rparr>)"

definition log_push ::
  "direction \<Rightarrow> u64 \<Rightarrow> u32 \<Rightarrow> tick \<Rightarrow> decision \<Rightarrow> decision_log \<Rightarrow> decision_log" where
  "log_push dir sq wire now d log = log @ [record_of dir sq wire now d]"

section \<open>The text\<close>

definition LF :: char where "LF = CHR 0x0A"

definition CR :: char where "CR = CHR 0x0D"

definition RECORD_HEADER :: string where
  "RECORD_HEADER = ''# quinn-netem decision-log v1 seq direction '' @
     ''verdict cause wire_bytes now_ns release_ns dup_release_ns corrupt_offset '' @
     ''corrupt_bit queue_backlog_bytes''"

definition RECORD_FIELDS :: nat where
  "RECORD_FIELDS = 11"

text \<open>How the standard library writes an unsigned integer.\<close>

definition digit :: "nat \<Rightarrow> char" where
  "digit n = char_of (48 + n)"

fun decimal :: "nat \<Rightarrow> string" where
  "decimal n = (if n < 10 then [digit n] else decimal (n div 10) @ [digit (n mod 10)])"

declare decimal.simps [simp del]

fun join_spaces :: "string list \<Rightarrow> string" where
  "join_spaces [] = []"
| "join_spaces [w] = w"
| "join_spaces (w # v # ws) = w @ CHR '' '' # join_spaces (v # ws)"

definition record_fields :: "log_record \<Rightarrow> nat list" where
  "record_fields r =
     [unat (rc_seq r), unat (rc_direction r), unat (rc_verdict r), unat (rc_cause r),
      unat (rc_wire_bytes r), unat (rc_now_ns r), unat (rc_release_ns r),
      unat (rc_dup_release_ns r), unat (rc_corrupt_offset r), unat (rc_corrupt_bit r),
      unat (rc_queue_backlog_bytes r)]"

definition render_record :: "log_record \<Rightarrow> string" where
  "render_record r = join_spaces (map decimal (record_fields r))"

definition render :: "decision_log \<Rightarrow> string" where
  "render log = RECORD_HEADER @ LF # concat (map (\<lambda>r. render_record r @ [LF]) log)"

section \<open>The comparison\<close>

fun split_on :: "char \<Rightarrow> string \<Rightarrow> string list" where
  "split_on c [] = [[]]"
| "split_on c (x # xs) =
     (if x = c then [] # split_on c xs
      else (case split_on c xs of [] \<Rightarrow> [[x]] | l # ls \<Rightarrow> (x # l) # ls))"

definition trim_end_cr :: "string \<Rightarrow> string" where
  "trim_end_cr l = rev (dropWhile (\<lambda>c. c = CR) (rev l))"

definition is_whitespace :: "char \<Rightarrow> bool" where
  "is_whitespace c \<longleftrightarrow> (of_char c :: nat) \<in> {9, 10, 11, 12, 13, 32, 133, 160}"

definition keeps_line :: "string \<Rightarrow> bool" where
  "keeps_line line \<longleftrightarrow>
     (case dropWhile is_whitespace line of [] \<Rightarrow> False | c # _ \<Rightarrow> c \<noteq> CHR ''#'')"

definition record_lines :: "string \<Rightarrow> string list" where
  "record_lines text = filter keeps_line (map trim_end_cr (split_on LF text))"

record fixture_mismatch =
  fm_line :: nat
  fm_expected :: string
  fm_actual :: string

fun diff_lines :: "nat \<Rightarrow> string list \<Rightarrow> string list \<Rightarrow> fixture_mismatch + unit" where
  "diff_lines n [] [] = Inr ()"
| "diff_lines n expected actual =
     (let e = (case expected of [] \<Rightarrow> [] | l # _ \<Rightarrow> l);
          a = (case actual of [] \<Rightarrow> [] | l # _ \<Rightarrow> l)
      in if e \<noteq> a then Inl \<lparr> fm_line = n, fm_expected = e, fm_actual = a \<rparr>
         else diff_lines (n + 1) (tl expected) (tl actual))"

definition diff_fixture :: "decision_log \<Rightarrow> string \<Rightarrow> fixture_mismatch + unit" where
  "diff_fixture log fixture = diff_lines 0 (record_lines fixture) (record_lines (render log))"

section \<open>The text determines the log\<close>

lemma of_char_digit: "n < 10 \<Longrightarrow> of_char (digit n) = 48 + n"
  by (simp add: digit_def)

definition is_digit :: "char \<Rightarrow> bool" where
  "is_digit c \<longleftrightarrow> (of_char c :: nat) \<in> {48..57}"

lemma decimal_digits: "list_all is_digit (decimal n) \<and> decimal n \<noteq> []"
proof (induction n rule: decimal.induct)
  case (1 n)
  have "is_digit (digit k)" if "k < 10" for k
    using that by (simp add: is_digit_def of_char_digit)
  with 1 show ?case by (subst (1 2) decimal.simps) simp
qed

definition decimal_value :: "string \<Rightarrow> nat" where
  "decimal_value s = foldl (\<lambda>a c. 10 * a + (of_char c - 48)) 0 s"

lemma decimal_value_decimal: "decimal_value (decimal n) = n"
proof (induction n rule: decimal.induct)
  case (1 n)
  show ?case
  proof (cases "n < 10")
    case True
    then show ?thesis by (subst decimal.simps) (simp add: decimal_value_def of_char_digit)
  next
    case False
    with 1 have "decimal_value (decimal (n div 10)) = n div 10" by simp
    with False show ?thesis
      by (subst decimal.simps) (simp add: decimal_value_def of_char_digit)
  qed
qed

lemma inj_decimal: "decimal m = decimal n \<Longrightarrow> m = n"
  by (metis decimal_value_decimal)

lemma split_on_none: "c \<notin> set l \<Longrightarrow> split_on c l = [l]"
  by (induction l) auto

lemma split_on_first: "c \<notin> set l \<Longrightarrow> split_on c (l @ c # rest) = l # split_on c rest"
  by (induction l) auto

lemma split_on_lines:
  "list_all (\<lambda>l. c \<notin> set l) ls \<Longrightarrow> split_on c (concat (map (\<lambda>l. l @ [c]) ls)) = ls @ [[]]"
  by (induction ls) (auto simp: split_on_first)

lemma split_join_spaces:
  "ws \<noteq> [] \<Longrightarrow> list_all (\<lambda>w. CHR '' '' \<notin> set w) ws \<Longrightarrow> split_on CHR '' '' (join_spaces ws) = ws"
  by (induction ws rule: join_spaces.induct) (auto simp: split_on_none split_on_first)

lemma digit_not_special: "is_digit c \<Longrightarrow> c \<noteq> CHR '' '' \<and> c \<noteq> LF \<and> c \<noteq> CR \<and> \<not> is_whitespace c \<and> c \<noteq> CHR ''#''"
  by (auto simp: is_digit_def LF_def CR_def is_whitespace_def)

lemma record_fields_inj: "record_fields r = record_fields r' \<Longrightarrow> r = r'"
  by (cases r; cases r') (simp add: record_fields_def word_unat_eq_iff)

lemma render_record_inj:
  assumes "render_record r = render_record r'"
  shows "r = r'"
proof -
  have sp: "split_on CHR '' '' (render_record r) = map decimal (record_fields r)" for r
    unfolding render_record_def using decimal_digits digit_not_special
    by (intro split_join_spaces) (fastforce simp: record_fields_def list_all_iff)+
  have "map decimal (record_fields r) = map decimal (record_fields r')"
    using sp [of r] sp [of r'] assms by simp
  then have "record_fields r = record_fields r'"
    using inj_decimal by (intro map_injective [of decimal]) (auto intro: injI)
  then show ?thesis by (rule record_fields_inj)
qed

lemma join_spaces_set:
  "set (join_spaces ws) \<subseteq> insert (CHR '' '') (\<Union> (set ` set ws))"
  by (induction ws rule: join_spaces.induct) auto

text \<open>A rendered record is one line that begins and ends with a digit.\<close>

lemma render_record_chars:
  "c \<in> set (render_record r) \<Longrightarrow> is_digit c \<or> c = CHR '' ''"
  using join_spaces_set [of "map decimal (record_fields r)"] decimal_digits
  unfolding render_record_def by (fastforce simp: list_all_iff)

lemma render_record_hd: "\<exists>c rest. render_record r = c # rest \<and> is_digit c"
proof -
  obtain c rest where "decimal (unat (rc_seq r)) = c # rest" "is_digit c"
    using decimal_digits [of "unat (rc_seq r)"] by (cases "decimal (unat (rc_seq r))") auto
  then show ?thesis by (simp add: render_record_def record_fields_def)
qed

lemma render_record_line:
  "LF \<notin> set (render_record r)" "trim_end_cr (render_record r) = render_record r"
  "keeps_line (render_record r)"
proof -
  have no: "c \<noteq> LF \<and> c \<noteq> CR" if "c \<in> set (render_record r)" for c
    using render_record_chars [OF that] digit_not_special by (auto simp: LF_def CR_def)
  then show "LF \<notin> set (render_record r)" by blast
  have "dropWhile (\<lambda>c. c = CR) (rev (render_record r)) = rev (render_record r)"
    using no by (intro dropWhile_eq_self_iff [THEN iffD2]) (metis hd_in_set set_rev)
  then show "trim_end_cr (render_record r) = render_record r" by (simp add: trim_end_cr_def)
  obtain c rest where c: "render_record r = c # rest" "is_digit c" using render_record_hd by blast
  then show "keeps_line (render_record r)"
    using digit_not_special [OF c(2)] by (simp add: keeps_line_def)
qed

lemma record_lines_render: "record_lines (render log) = map render_record log"
proof -
  have h: "LF \<notin> set RECORD_HEADER" "\<not> keeps_line (trim_end_cr RECORD_HEADER)"
    by (simp_all add: LF_def RECORD_HEADER_def trim_end_cr_def CR_def keeps_line_def is_whitespace_def)
  have e: "\<not> keeps_line (trim_end_cr [])"
    by (simp add: trim_end_cr_def keeps_line_def)
  have "split_on LF (render log) = RECORD_HEADER # map render_record log @ [[]]"
    using split_on_lines [of LF "map render_record log"] render_record_line(1)
    by (simp add: render_def split_on_first [OF h(1)] o_def list_all_iff)
  then show ?thesis
    using h(2) e render_record_line by (simp add: record_lines_def o_def)
qed

lemma map_render_inj: "map render_record log = map render_record log' \<longleftrightarrow> log = log'"
  using render_record_inj by (auto intro: map_injective injI)

section \<open>Comparing with a fixture\<close>

text \<open>The line at an index, \<open>""\<close> past the end.\<close>

definition line_at :: "string list \<Rightarrow> nat \<Rightarrow> string" where
  "line_at ls i = (if i < length ls then ls ! i else [])"

lemma diff_lines_ok:
  assumes "[] \<notin> set expected" "[] \<notin> set actual"
  shows "diff_lines n expected actual = Inr () \<longleftrightarrow> expected = actual"
  using assms
  by (induction expected actual arbitrary: n rule: list_induct2') auto

lemma diff_lines_mismatch:
  assumes "[] \<notin> set expected" "[] \<notin> set actual" "diff_lines n expected actual = Inl m"
  shows "\<exists>i. fm_line m = n + i \<and> fm_expected m = line_at expected i \<and> fm_actual m = line_at actual i
    \<and> fm_expected m \<noteq> fm_actual m \<and> take i expected = take i actual"
  using assms
proof (induction expected actual arbitrary: n rule: list_induct2')
  case (4 x xs y ys)
  show ?case
  proof (cases "x = y")
    case True
    with 4 obtain i where "fm_line m = n + Suc i" "fm_expected m = line_at xs i" "fm_actual m = line_at ys i"
      "fm_expected m \<noteq> fm_actual m" "take i xs = take i ys" by fastforce
    with True show ?thesis by (intro exI [of _ "Suc i"]) (simp add: line_at_def)
  next
    case False
    with 4 show ?thesis by (intro exI [of _ 0]) (auto simp: line_at_def)
  qed
qed (auto simp: line_at_def split: if_splits)

lemma record_lines_nonempty: "[] \<notin> set (record_lines text)"
  by (simp add: record_lines_def keeps_line_def)

lemma diff_fixture_ok: "diff_fixture log fixture = Inr () \<longleftrightarrow> record_lines fixture = map render_record log"
  unfolding diff_fixture_def record_lines_render [symmetric]
  by (rule diff_lines_ok) (rule record_lines_nonempty)+

lemma diff_fixture_render: "diff_fixture log (render log') = Inr () \<longleftrightarrow> log = log'"
  by (auto simp: diff_fixture_ok record_lines_render map_render_inj)

text \<open>A checkout that ends its lines with a carriage return and a line feed reads the same.\<close>

definition crlf :: "string \<Rightarrow> string" where
  "crlf text = concat (map (\<lambda>c. if c = LF then [CR, LF] else [c]) text)"

lemma trim_end_cr_Cons:
  "trim_end_cr (c # l) = (if c = CR \<and> trim_end_cr l = [] then [] else c # trim_end_cr l)"
  by (auto simp: trim_end_cr_def dropWhile_append dropWhile_eq_Nil_conv)

lemma trimmed_crlf: "map trim_end_cr (split_on LF (crlf str)) = map trim_end_cr (split_on LF str)"
proof (induction str)
  case (Cons c str)
  have ne: "split_on LF u \<noteq> []" for u by (cases u) (auto split: list.splits)
  have lf: "CR \<noteq> LF" by (simp add: CR_def LF_def)
  show ?case
  proof (cases "c = LF")
    case True
    with Cons lf show ?thesis by (simp add: crlf_def trim_end_cr_def)
  next
    case False
    obtain l ls where l: "split_on LF (crlf str) = l # ls" using ne by (meson neq_Nil_conv)
    obtain k ks where k: "split_on LF str = k # ks" using ne by (meson neq_Nil_conv)
    have "crlf (c # str) = c # crlf str" using False by (simp add: crlf_def)
    with Cons l k False show ?thesis by (simp add: trim_end_cr_Cons)
  qed
qed (simp add: crlf_def)

lemma diff_fixture_crlf: "diff_fixture log (crlf fixture) = diff_fixture log fixture"
  by (simp add: diff_fixture_def record_lines_def trimmed_crlf)

section \<open>The records determine the decisions\<close>

definition verdict_of_u8 :: "u8 \<Rightarrow> verdict" where
  "verdict_of_u8 v = (if v = 0 then Pass else if v = 1 then Delay else if v = 2 then Reorder else Drop)"

definition drop_cause_of_u8 :: "u8 \<Rightarrow> drop_cause" where
  "drop_cause_of_u8 c =
     (if c = 0 then NotDropped else if c = 1 then Loss else if c = 2 then Blackout
      else if c = 3 then Mtu else if c = 4 then RateQueueFull else RateOversize)"

lemma verdict_of_as: "verdict_of_u8 (verdict_as_u8 v) = v"
  by (cases v) (simp_all add: verdict_of_u8_def verdict_as_u8_def)

lemma drop_cause_of_as: "drop_cause_of_u8 (drop_cause_as_u8 c) = c"
  by (cases c) (simp_all add: drop_cause_of_u8_def drop_cause_as_u8_def)

definition decision_of :: "log_record \<Rightarrow> decision" where
  "decision_of r =
     \<lparr> de_verdict = verdict_of_u8 (rc_verdict r), de_cause = drop_cause_of_u8 (rc_cause r),
       de_release = rc_release_ns r,
       de_duplicate = (case rc_dup_release_ns r of t \<Rightarrow> if t = - 1 then None else Some t),
       de_corrupt = (case (rc_corrupt_offset r, rc_corrupt_bit r) of (off, n) \<Rightarrow>
         if off = - 1 then None else Some \<lparr> cs_byte_offset = off, cs_bit = n \<rparr>),
       de_queue_backlog_bytes = rc_queue_backlog_bytes r \<rparr>"

text \<open>The two sentinels of a record are no values of it: a flipped bit lies below the size of its
  datagram, and a duplicate leaves at the last tick of all only when the clock is at its end.\<close>

lemma decision_of_record_of:
  assumes "decision_ok wire now d" "de_duplicate d \<noteq> Some (- 1)"
  shows "decision_of (record_of dir sq wire' now' d) = d"
proof -
  have site: "cs_byte_offset site \<noteq> - 1" if "de_corrupt d = Some site" for site
    using assms(1) that unat_lt2p [of wire]
    by (auto simp: decision_ok_def site_ok_def unat_max_word)
  have cause: "decision_cause d = de_cause d"
    using assms(1) by (auto simp: decision_ok_def decision_cause_def)
  have dup: "t \<noteq> - 1" if "de_duplicate d = Some t" for t using assms(2) that by auto
  show ?thesis
    by (cases "de_corrupt d"; cases "de_duplicate d")
      (use site dup in \<open>simp_all add: decision_of_def record_of_def cause verdict_of_as drop_cause_of_as\<close>)
qed

text \<open>The log of a run, numbered from the given sequence number.\<close>

fun log_run :: "direction \<Rightarrow> u64 \<Rightarrow> (u32 \<times> tick) list \<Rightarrow> decision list \<Rightarrow> decision_log \<Rightarrow> decision_log" where
  "log_run dir sq ((wire, now) # arrivals) (d # ds) log =
     log_run dir (sq + 1) arrivals ds (log_push dir sq wire now d log)"
| "log_run dir sq _ _ log = log"

lemma decisions_of_log_run:
  assumes "engine_run_ok arrivals ds" "list_all (\<lambda>d. de_duplicate d \<noteq> Some (- 1)) ds"
  shows "map decision_of (log_run dir sq arrivals ds log) = map decision_of log @ ds"
  using assms
proof (induction dir sq arrivals ds log rule: log_run.induct)
  case (1 dir sq wire now arrivals d ds log)
  then have d: "decision_ok wire now d" "de_duplicate d \<noteq> Some (- 1)"
    and tl: "engine_run_ok arrivals ds" "list_all (\<lambda>d. de_duplicate d \<noteq> Some (- 1)) ds"
    by (simp_all add: engine_run_ok_def)
  from 1(1) [OF tl] decision_of_record_of [OF d] show ?case by (simp add: log_push_def)
qed (simp_all add: engine_run_ok_def)

end
