(* ===== verification/Netem_Control.thy ===== *)
theory Netem_Control
  imports Netem_Stats Netem_Log "HOL-Library.AList" "HOL-Library.Product_Lexorder"
begin

text \<open>
  The control surface of a socket (\<open>control.rs\<close>): the links of its peers, what arms and disarms them,
  and the decision about one datagram. Every method is a function of the shared state behind its
  lock. An instant is a number of nanoseconds and \<open>Instant::now()\<close> an argument; a link is built a moment
  later, at an instant of its own. Maps are association lists. Ordinals are natural numbers.
\<close>

section \<open>Addresses in order\<close>

text \<open>The order the standard library derives: IPv4 first, then address, port, flow and scope.\<close>

definition addr_key :: "socket_addr \<Rightarrow> nat \<times> nat \<times> nat \<times> nat \<times> nat" where
  "addr_key a =
     (case a of
        SocketV4 ip port \<Rightarrow> (0, unat ip, unat port, 0, 0)
      | SocketV6 ip port flow scope \<Rightarrow> (1, unat ip, unat port, unat flow, unat scope))"

lemma inj_addr_key: "addr_key a = addr_key b \<longleftrightarrow> a = b"
  by (auto simp: addr_key_def word_unat_eq_iff split: socket_addr.splits)

instantiation socket_addr :: linorder
begin

definition less_eq_socket_addr :: "socket_addr \<Rightarrow> socket_addr \<Rightarrow> bool" where
  "less_eq_socket_addr a b \<longleftrightarrow> addr_key a \<le> addr_key b"

definition less_socket_addr :: "socket_addr \<Rightarrow> socket_addr \<Rightarrow> bool" where
  "less_socket_addr a b \<longleftrightarrow> addr_key a < addr_key b"

instance
  by standard (auto simp: less_eq_socket_addr_def less_socket_addr_def inj_addr_key
      simp flip: inj_addr_key)

end

section \<open>State\<close>

type_synonym instant = nat

record link =
  ln_downlink :: impairer
  ln_uplink :: impairer
  ln_seq :: "direction \<Rightarrow> u64"
  ln_origin :: instant
  ln_queue_bytes :: "direction \<Rightarrow> u64"
  ln_own :: bool

datatype override = OverrideArmed impair_profile | OverrideDisarmed

record peer =
  pe_ordinal :: "nat option"
  pe_link :: link
  pe_last_seen :: instant
  pe_stats :: stats
  pe_backlog :: "direction \<Rightarrow> u64"

record core =
  co_profile :: "impair_profile option"
  co_overrides :: "(socket_addr \<times> override \<times> instant) list"
  co_peers :: "(socket_addr \<times> peer) list"
  co_logs :: "(socket_addr \<times> decision_log) list"
  co_next_ordinal :: nat
  co_idle_timeout :: nat
  co_last_sweep :: "instant option"
  co_backlog :: "direction \<Rightarrow> u64"

record impair_handle =
  ih_core :: core
  ih_stats :: stats
  ih_recording :: bool

definition core_default :: core where
  "core_default =
     \<lparr> co_profile = None, co_overrides = [], co_peers = [], co_logs = [], co_next_ordinal = 0,
       co_idle_timeout = DEFAULT_PEER_IDLE_TIMEOUT, co_last_sweep = None, co_backlog = (\<lambda>_. 0) \<rparr>"

definition detached :: impair_handle where
  "detached = \<lparr> ih_core = core_default, ih_stats = stats_default, ih_recording = False \<rparr>"

section \<open>Links\<close>

definition queue_bound :: "direction_profile \<Rightarrow> u64" where
  "queue_bound p = (case dp_rate p of Some rate \<Rightarrow> rt_queue_bytes rate | None \<Rightarrow> DEFAULT_QUEUE_BYTES)"

definition dir_profile :: "impair_profile \<Rightarrow> direction \<Rightarrow> direction_profile" where
  "dir_profile p d = (case d of Downlink \<Rightarrow> ip_downlink p | Uplink \<Rightarrow> ip_uplink p)"

definition link_build :: "impair_profile \<Rightarrow> u64 \<Rightarrow> bool \<Rightarrow> instant \<Rightarrow> profile_error + link" where
  "link_build profile seed own origin =
     and_then (impairer_new (ip_downlink profile) seed Downlink) (\<lambda>downlink.
     and_then (impairer_new (ip_uplink profile) seed Uplink) (\<lambda>uplink.
     Inr \<lparr> ln_downlink = downlink, ln_uplink = uplink, ln_seq = (\<lambda>_. 0), ln_origin = origin,
           ln_queue_bytes = (\<lambda>d. queue_bound (dir_profile profile d)), ln_own = own \<rparr>))"

definition peer_seed :: "u64 \<Rightarrow> u64 \<Rightarrow> u64" where
  "peer_seed seed ordinal =
     (if ordinal = 0 then seed
      else let z = ordinal * 0x9E3779B97F4A7C15;
               z = (z XOR drop_bit 30 z) * 0xBF58476D1CE4E5B9;
               z = (z XOR drop_bit 27 z) * 0x94D049BB133111EB
           in seed XOR z XOR drop_bit 31 z)"

definition admits :: "impair_profile \<Rightarrow> socket_addr \<Rightarrow> bool" where
  "admits p addr = (case ip_peers p of FilterAll \<Rightarrow> True | FilterOnly addrs \<Rightarrow> addr \<in> set addrs)"

definition profile_for :: "core \<Rightarrow> socket_addr \<Rightarrow> nat \<Rightarrow> (impair_profile \<times> u64 \<times> bool) option" where
  "profile_for c addr ordinal =
     (case map_of (co_overrides c) addr of
        Some (OverrideArmed p, _) \<Rightarrow> Some (p, ip_seed p, True)
      | Some (OverrideDisarmed, _) \<Rightarrow> None
      | None \<Rightarrow>
          (case co_profile c of
             None \<Rightarrow> None
           | Some p \<Rightarrow>
               if admits p addr then Some (p, peer_seed (ip_seed p) (of_nat ordinal), False) else None))"

definition remove_peer :: "socket_addr \<Rightarrow> core \<Rightarrow> core" where
  "remove_peer addr c =
     (case map_of (co_peers c) addr of
        None \<Rightarrow> c
      | Some p \<Rightarrow>
          c\<lparr> co_peers := AList.delete addr (co_peers c),
             co_backlog := (\<lambda>d. sat_sub (co_backlog c d) (pe_backlog p d)) \<rparr>)"

definition sweep :: "instant \<Rightarrow> core \<Rightarrow> core" where
  "sweep now c =
     (let every = co_idle_timeout c div 4 in
      if (case co_last_sweep c of Some at \<Rightarrow> now - at < every | None \<Rightarrow> False) then c
      else
        let c = c\<lparr> co_last_sweep := Some now \<rparr>;
            timeout = co_idle_timeout c;
            idle = map fst (filter (\<lambda>(a, p). now - pe_last_seen p \<ge> timeout) (co_peers c));
            c = fold remove_peer idle c
        in c\<lparr> co_overrides := filter (\<lambda>(a, ov, seen). now - seen < timeout) (co_overrides c) \<rparr>)"

text \<open>The peer's link, built if it has none; no peer when it is left untouched.\<close>

definition core_link ::
  "socket_addr \<Rightarrow> instant \<Rightarrow> instant \<Rightarrow> core \<Rightarrow> peer option \<times> core" where
  "core_link addr now origin c =
     (let c = sweep now c;
          c = c\<lparr> co_overrides := AList.map_entry addr (\<lambda>(ov, seen). (ov, now)) (co_overrides c) \<rparr>
      in case map_of (co_peers c) addr of
           Some p \<Rightarrow>
             (let p = p\<lparr> pe_last_seen := now \<rparr>
              in (Some p, c\<lparr> co_peers := AList.update addr p (co_peers c) \<rparr>))
         | None \<Rightarrow>
             (case profile_for c addr (co_next_ordinal c) of
                None \<Rightarrow> (None, c)
              | Some (profile, seed, own) \<Rightarrow>
                  (case link_build profile seed own origin of
                     Inl _ \<Rightarrow> (None, c)
                   | Inr link \<Rightarrow>
                       (let p = \<lparr> pe_ordinal = (if own then None else Some (co_next_ordinal c)),
                                  pe_link = link, pe_last_seen = now, pe_stats = stats_default,
                                  pe_backlog = (\<lambda>_. 0) \<rparr>
                        in (Some p,
                            c\<lparr> co_next_ordinal :=
                                 (if own then co_next_ordinal c else co_next_ordinal c + 1),
                               co_peers := AList.update addr p (co_peers c) \<rparr>)))))"

section \<open>The handle\<close>

text \<open>The links an arm builds for the inheriting peers, each at its own instant; a peer the filter does
  not admit has none.\<close>

fun rebuild ::
  "impair_profile \<Rightarrow> (socket_addr \<Rightarrow> instant) \<Rightarrow> (socket_addr \<times> peer) list
     \<Rightarrow> profile_error + (socket_addr \<times> link option) list" where
  "rebuild profile origins [] = Inr []"
| "rebuild profile origins ((addr, p) # rest) =
     (if ln_own (pe_link p) then rebuild profile origins rest
      else and_then
        (if admits profile addr then
           and_then (link_build profile
               (peer_seed (ip_seed profile) (of_nat (case pe_ordinal p of Some o' \<Rightarrow> o' | None \<Rightarrow> 0)))
               False (origins addr)) (\<lambda>link. Inr (Some link))
         else Inr None) (\<lambda>link.
        and_then (rebuild profile origins rest) (\<lambda>links. Inr ((addr, link) # links))))"

definition put_link :: "socket_addr \<times> link option \<Rightarrow> core \<Rightarrow> core" where
  "put_link al c =
     (case al of
        (addr, Some link) \<Rightarrow>
          c\<lparr> co_peers := AList.map_entry addr (\<lambda>p. p\<lparr> pe_link := link \<rparr>) (co_peers c) \<rparr>
      | (addr, None) \<Rightarrow> remove_peer addr c)"

definition arm ::
  "impair_profile \<Rightarrow> (socket_addr \<Rightarrow> instant) \<Rightarrow> impair_handle
     \<Rightarrow> (profile_error + unit) \<times> impair_handle" where
  "arm profile origins h =
     (case and_then (validate_profile profile) (\<lambda>_. rebuild profile origins (co_peers (ih_core h))) of
        Inl err \<Rightarrow> (Inl err, h)
      | Inr rebuilt \<Rightarrow>
          (Inr (), h\<lparr> ih_core := (fold put_link rebuilt (ih_core h))\<lparr> co_profile := Some profile \<rparr> \<rparr>))"

definition disarm :: "impair_handle \<Rightarrow> impair_handle" where
  "disarm h =
     (let c = (ih_core h)\<lparr> co_profile := None \<rparr>;
          inherited = map fst (filter (\<lambda>(a, p). \<not> ln_own (pe_link p)) (co_peers c))
      in h\<lparr> ih_core := fold remove_peer inherited c \<rparr>)"

definition is_armed :: "impair_handle \<Rightarrow> bool" where
  "is_armed h \<longleftrightarrow> co_profile (ih_core h) \<noteq> None"

definition arm_peer ::
  "socket_addr \<Rightarrow> impair_profile \<Rightarrow> instant \<Rightarrow> instant \<Rightarrow> impair_handle
     \<Rightarrow> (profile_error + unit) \<times> impair_handle" where
  "arm_peer addr profile origin now h =
     (case and_then (validate_profile profile) (\<lambda>_. link_build profile (ip_seed profile) True origin) of
        Inl err \<Rightarrow> (Inl err, h)
      | Inr link \<Rightarrow>
          (let c = ih_core h;
               c = c\<lparr> co_overrides := AList.update addr (OverrideArmed profile, now) (co_overrides c) \<rparr>;
               p = (case map_of (co_peers c) addr of
                      Some p \<Rightarrow> p\<lparr> pe_link := link, pe_last_seen := now \<rparr>
                    | None \<Rightarrow>
                        \<lparr> pe_ordinal = None, pe_link = link, pe_last_seen = now,
                          pe_stats = stats_default, pe_backlog = (\<lambda>_. 0) \<rparr>)
           in (Inr (), h\<lparr> ih_core := c\<lparr> co_peers := AList.update addr p (co_peers c) \<rparr> \<rparr>)))"

definition disarm_peer :: "socket_addr \<Rightarrow> instant \<Rightarrow> impair_handle \<Rightarrow> impair_handle" where
  "disarm_peer addr now h =
     (let c = ih_core h;
          c = c\<lparr> co_overrides := AList.update addr (OverrideDisarmed, now) (co_overrides c) \<rparr>
      in h\<lparr> ih_core := remove_peer addr c \<rparr>)"

definition clear_peer :: "socket_addr \<Rightarrow> impair_handle \<Rightarrow> impair_handle" where
  "clear_peer addr h =
     (let c = ih_core h;
          c = c\<lparr> co_overrides := AList.delete addr (co_overrides c) \<rparr>
      in h\<lparr> ih_core := remove_peer addr c \<rparr>)"

definition set_peer_idle_timeout :: "nat \<Rightarrow> impair_handle \<Rightarrow> impair_handle" where
  "set_peer_idle_timeout timeout h = h\<lparr> ih_core := (ih_core h)\<lparr> co_idle_timeout := timeout \<rparr> \<rparr>"

definition live_peers :: "impair_handle \<Rightarrow> socket_addr list" where
  "live_peers h = map fst (co_peers (ih_core h))"

definition reseed_link :: "u64 \<Rightarrow> link \<Rightarrow> link" where
  "reseed_link seed l =
     l\<lparr> ln_downlink := reseed seed (ln_downlink l), ln_uplink := reseed seed (ln_uplink l) \<rparr>"

definition reseed_peer :: "u64 \<Rightarrow> peer \<Rightarrow> peer" where
  "reseed_peer seed p =
     (if ln_own (pe_link p) then p
      else let s = peer_seed seed (of_nat (case pe_ordinal p of Some o' \<Rightarrow> o' | None \<Rightarrow> 0))
           in p\<lparr> pe_link := reseed_link s (pe_link p) \<rparr>)"

definition handle_reseed :: "u64 \<Rightarrow> impair_handle \<Rightarrow> impair_handle" where
  "handle_reseed seed h =
     (let c = ih_core h in
      case co_profile c of
        None \<Rightarrow> h
      | Some profile \<Rightarrow>
          h\<lparr> ih_core := c\<lparr> co_profile := Some (profile\<lparr> ip_seed := seed \<rparr>),
               co_peers := map (\<lambda>(a, p). (a, reseed_peer seed p)) (co_peers c) \<rparr> \<rparr>)"

definition handle_stats :: "impair_handle \<Rightarrow> stats_snapshot" where
  "handle_stats h = snapshot (ih_stats h)"

definition peer_stats :: "socket_addr \<Rightarrow> impair_handle \<Rightarrow> stats_snapshot option" where
  "peer_stats addr h = map_option (\<lambda>p. snapshot (pe_stats p)) (map_of (co_peers (ih_core h)) addr)"

definition record_decisions :: "bool \<Rightarrow> impair_handle \<Rightarrow> impair_handle" where
  "record_decisions on h = h\<lparr> ih_recording := on \<rparr>"

definition log_at :: "core \<Rightarrow> socket_addr \<Rightarrow> decision_log" where
  "log_at c addr = (case map_of (co_logs c) addr of Some log \<Rightarrow> log | None \<Rightarrow> [])"

definition take_log :: "socket_addr \<Rightarrow> impair_handle \<Rightarrow> decision_log \<times> impair_handle" where
  "take_log addr h =
     (let c = ih_core h in
      (log_at c addr, h\<lparr> ih_core := c\<lparr> co_logs := AList.delete addr (co_logs c) \<rparr> \<rparr>))"

definition take_logs :: "impair_handle \<Rightarrow> (socket_addr \<times> decision_log) list \<times> impair_handle" where
  "take_logs h =
     (let c = ih_core h in (sort_key fst (co_logs c), h\<lparr> ih_core := c\<lparr> co_logs := [] \<rparr> \<rparr>))"

section \<open>What the socket calls\<close>

definition is_impairing :: "impair_handle \<Rightarrow> bool" where
  "is_impairing h \<longleftrightarrow> co_profile (ih_core h) \<noteq> None
     \<or> list_ex (\<lambda>(a, ov, seen). ov \<noteq> OverrideDisarmed) (co_overrides (ih_core h))"

text \<open>The name \<open>begin\<close> is a keyword.\<close>

definition begin_peer ::
  "socket_addr \<Rightarrow> instant \<Rightarrow> instant \<Rightarrow> impair_handle \<Rightarrow> tick option \<times> impair_handle" where
  "begin_peer addr now origin h =
     (let (p, c) = core_link addr now origin (ih_core h);
          h = h\<lparr> ih_core := c \<rparr>
      in case p of
           None \<Rightarrow> (None, h)
         | Some p \<Rightarrow>
             (let elapsed = now - ln_origin (pe_link p)
              in (Some (if elapsed < 2 ^ 64 then of_nat elapsed else - 1), h)))"

definition link_engine :: "direction \<Rightarrow> link \<Rightarrow> impairer" where
  "link_engine dir l = (case dir of Downlink \<Rightarrow> ln_downlink l | Uplink \<Rightarrow> ln_uplink l)"

definition set_engine :: "direction \<Rightarrow> impairer \<Rightarrow> link \<Rightarrow> link" where
  "set_engine dir e l =
     (case dir of Downlink \<Rightarrow> l\<lparr> ln_downlink := e \<rparr> | Uplink \<Rightarrow> l\<lparr> ln_uplink := e \<rparr>)"

text \<open>The result is \<open>None\<close> where a call panics; the decision is \<open>None\<close> for a peer left untouched.\<close>

definition handle_decide ::
  "dist_tables \<Rightarrow> socket_addr \<Rightarrow> direction \<Rightarrow> u32 \<Rightarrow> tick \<Rightarrow> instant \<Rightarrow> instant \<Rightarrow> impair_handle
     \<Rightarrow> (decision option \<times> impair_handle) option" where
  "handle_decide tabs addr dir wire tick now origin h =
     (case core_link addr now origin (ih_core h) of
        (None, c) \<Rightarrow> Some (None, h\<lparr> ih_core := c \<rparr>)
      | (Some p, c) \<Rightarrow>
          (let sq = ln_seq (pe_link p) dir;
               link = (pe_link p)\<lparr> ln_seq := (ln_seq (pe_link p))(dir := sq + 1) \<rparr> in
           Option.bind (decide tabs sq wire tick (link_engine dir link)) (\<lambda>(d, e).
           Option.bind (record_decision dir wire d (pe_stats p)) (\<lambda>st.
           let before = pe_backlog p dir;
               p = p\<lparr> pe_link := set_engine dir e link, pe_stats := st,
                      pe_backlog := (pe_backlog p)(dir := de_queue_backlog_bytes d) \<rparr>;
               gauge = sat_add (sat_sub (co_backlog c dir) before) (de_queue_backlog_bytes d);
               c = c\<lparr> co_peers := AList.update addr p (co_peers c),
                      co_backlog := (co_backlog c)(dir := gauge) \<rparr>;
               c = (if ih_recording h
                    then c\<lparr> co_logs := AList.update addr (log_push dir sq wire tick d (log_at c addr))
                           (co_logs c) \<rparr>
                    else c) in
           Option.bind (record_decision dir wire (d\<lparr> de_queue_backlog_bytes := gauge \<rparr>) (ih_stats h))
             (\<lambda>shared. Some (Some d, h\<lparr> ih_core := c, ih_stats := shared \<rparr>))))))"

definition peer_queue_bytes :: "socket_addr \<Rightarrow> direction \<Rightarrow> impair_handle \<Rightarrow> u64" where
  "peer_queue_bytes addr dir h =
     (case map_of (co_peers (ih_core h)) addr of
        Some p \<Rightarrow> ln_queue_bytes (pe_link p) dir
      | None \<Rightarrow> DEFAULT_QUEUE_BYTES)"

definition handle_record_release :: "u32 \<Rightarrow> tick \<Rightarrow> tick \<Rightarrow> impair_handle \<Rightarrow> impair_handle" where
  "handle_record_release batch scheduled observed h =
     h\<lparr> ih_stats := record_release batch scheduled observed (ih_stats h) \<rparr>"

definition handle_ingress_overflow :: "socket_addr \<Rightarrow> impair_handle \<Rightarrow> impair_handle" where
  "handle_ingress_overflow addr h =
     (let c = ih_core h in
      h\<lparr> ih_stats := record_ingress_overflow (ih_stats h),
         ih_core := c\<lparr> co_peers := AList.map_entry addr
           (\<lambda>p. p\<lparr> pe_stats := record_ingress_overflow (pe_stats p) \<rparr>) (co_peers c) \<rparr> \<rparr>)"

end
