(* ===== verification/Netem_Control_Inv.thy ===== *)
theory Netem_Control_Inv
  imports Netem_Control
begin

text \<open>
  The invariants of the control surface: every live link runs exactly the profile its peer's settings
  call for, no operation panics, the counters account for every datagram, the gauge is the sum of the
  peers' backlogs, and no two inheriting peers share an ordinal or a seed.
\<close>

section \<open>Maps\<close>

lemma map_of_filter:
  assumes "distinct (map fst xs)"
  shows "map_of (filter (\<lambda>(k, v). P k v) xs) a
    = (case map_of xs a of Some v \<Rightarrow> if P a v then Some v else None | None \<Rightarrow> None)"
  using assms
proof (induction xs)
  case (Cons x xs)
  obtain k v where x: "x = (k, v)" by fastforce
  have "map_of (filter (\<lambda>(k, v). P k v) xs) k = None" if "k \<notin> fst ` set xs"
    using that by (auto simp: map_of_eq_None_iff)
  with Cons x show ?case by auto
qed simp

lemma map_of_map_entry:
  "map_of (AList.map_entry k f xs) a
     = (if a = k then map_option f (map_of xs a) else map_of xs a)"
  by (induction xs) (auto simp: AList.map_entry.simps)

section \<open>The seeds of the peers\<close>

lemma xorshift_inj:
  fixes x y :: "'a::len word"
  assumes "0 < k" "x XOR drop_bit k x = y XOR drop_bit k y"
  shows "x = y"
proof -
  define z where "z = x XOR y"
  have "drop_bit k z = z"
  proof -
    have "z = drop_bit k x XOR drop_bit k y"
      using assms(2) unfolding z_def by (metis xor.assoc xor.commute xor.left_neutral xor_self_eq)
    moreover have "drop_bit k z = drop_bit k x XOR drop_bit k y" by (simp only: z_def drop_bit_xor)
    ultimately show ?thesis by simp
  qed
  then have "unat z div 2 ^ k = unat z"
    by (metis drop_bit_eq_div unat_drop_bit_eq)
  moreover have "1 < (2::nat) ^ k" using assms(1) by (intro one_less_power) simp_all
  ultimately have "unat z = 0"
    using div_less_dividend [of "2 ^ k" "unat z"] by (cases "unat z = 0") simp_all
  then have "z = 0" by (simp add: unat_eq_0)
  then show ?thesis unfolding z_def by (metis xor.assoc xor.left_neutral xor.right_neutral xor_self_eq)
qed

lemma mult_inj:
  fixes x y c i :: "'a::len word"
  assumes "c * i = 1" "x * c = y * c"
  shows "x = y"
  by (metis assms mult.assoc mult.right_neutral)

definition peer_mix :: "u64 \<Rightarrow> u64" where
  "peer_mix ordinal =
     (let z = ordinal * 0x9E3779B97F4A7C15;
          z = (z XOR drop_bit 30 z) * 0xBF58476D1CE4E5B9;
          z = (z XOR drop_bit 27 z) * 0x94D049BB133111EB
      in z XOR drop_bit 31 z)"

lemma peer_seed_mix: "peer_seed seed ordinal = seed XOR peer_mix ordinal"
  by (simp add: peer_seed_def peer_mix_def Let_def xor.assoc)

lemma inv1: "(0x9E3779B97F4A7C15 :: u64) * 0xF1DE83E19937733D = 1" by simp
lemma inv2: "(0xBF58476D1CE4E5B9 :: u64) * 0x96DE1B173F119089 = 1" by simp
lemma inv3: "(0x94D049BB133111EB :: u64) * 0x319642B2D24D8EC3 = 1" by simp

lemma peer_mix_inj: "peer_mix a = peer_mix b \<Longrightarrow> a = b"
  unfolding peer_mix_def Let_def
  by (drule xorshift_inj [rotated], simp, drule mult_inj [OF inv3], drule xorshift_inj [rotated], simp,
      drule mult_inj [OF inv2], drule xorshift_inj [rotated], simp, erule mult_inj [OF inv1])

lemma peer_seed_inj: "peer_seed seed a = peer_seed seed b \<longleftrightarrow> a = b"
proof
  assume "peer_seed seed a = peer_seed seed b"
  then have "seed XOR (seed XOR peer_mix a) = seed XOR (seed XOR peer_mix b)" by (simp add: peer_seed_mix)
  then have "peer_mix a = peer_mix b" by (simp add: xor.assoc [symmetric])
  then show "a = b" by (rule peer_mix_inj)
qed simp

section \<open>The invariant\<close>

text \<open>A link runs a profile: both engines, and the bounds of the queues in front of them.\<close>

definition runs_profile :: "impair_profile \<Rightarrow> link \<Rightarrow> bool" where
  "runs_profile p l \<longleftrightarrow>
     im_profile (ln_downlink l) = normalise_patterns (ip_downlink p)
     \<and> im_profile (ln_uplink l) = normalise_patterns (ip_uplink p)
     \<and> im_direction (ln_downlink l) = Downlink \<and> im_direction (ln_uplink l) = Uplink
     \<and> engine_ok (ln_downlink l) \<and> engine_ok (ln_uplink l)
     \<and> ln_queue_bytes l = (\<lambda>d. queue_bound (dir_profile p d))"

text \<open>The seed an engine draws from: the one it was built or last reseeded with, whatever it has decided
  since.\<close>

inductive seeded_by :: "u64 \<Rightarrow> impairer \<Rightarrow> bool" where
  built: "impairer_new p seed d = Inr e \<Longrightarrow> seeded_by seed e"
| reseeded: "seeded_by seed (reseed seed e)"
| decided: "seeded_by seed e \<Longrightarrow> decide tabs sq wire now e = Some (verdict, e') \<Longrightarrow> seeded_by seed e'"

definition link_seeded :: "u64 \<Rightarrow> link \<Rightarrow> bool" where
  "link_seeded seed l \<longleftrightarrow> seeded_by seed (ln_downlink l) \<and> seeded_by seed (ln_uplink l)"

text \<open>The seed the settings call for: the profile's own on a link of its own, the profile's mixed with the
  peer's ordinal on one it inherits.\<close>

definition seed_for :: "impair_profile \<Rightarrow> peer \<Rightarrow> u64" where
  "seed_for p q =
     (if ln_own (pe_link q) then ip_seed p
      else peer_seed (ip_seed p) (of_nat (case pe_ordinal q of Some n \<Rightarrow> n | None \<Rightarrow> 0)))"

text \<open>What the settings of an address say about its link.\<close>

definition policy ::
  "impair_profile option \<Rightarrow> (override \<times> instant) option \<Rightarrow> socket_addr \<Rightarrow> peer option \<Rightarrow> bool" where
  "policy prof ov addr q =
     (case ov of
        Some (OverrideArmed p, seen) \<Rightarrow>
          (case q of None \<Rightarrow> False
           | Some q \<Rightarrow> ln_own (pe_link q) \<and> pe_last_seen q = seen \<and> runs_profile p (pe_link q)
               \<and> validate_profile p = Inr () \<and> link_seeded (seed_for p q) (pe_link q))
      | Some (OverrideDisarmed, seen) \<Rightarrow> q = None
      | None \<Rightarrow>
          (case q of None \<Rightarrow> True
           | Some q \<Rightarrow> \<not> ln_own (pe_link q) \<and> pe_ordinal q \<noteq> None
               \<and> (case prof of None \<Rightarrow> False
                  | Some p \<Rightarrow> admits p addr \<and> runs_profile p (pe_link q)
                      \<and> link_seeded (seed_for p q) (pe_link q))))"

definition ordinals_ok :: "(socket_addr \<Rightarrow> peer option) \<Rightarrow> nat \<Rightarrow> bool" where
  "ordinals_ok P n \<longleftrightarrow>
     (\<forall>a q ord. P a = Some q \<and> pe_ordinal q = Some ord \<longrightarrow> ord < n
        \<and> (\<forall>b r. P b = Some r \<and> pe_ordinal r = Some ord \<longrightarrow> b = a))"

definition counts_ok :: "(socket_addr \<Rightarrow> peer option) \<Rightarrow> bool" where
  "counts_ok P \<longleftrightarrow> (\<forall>a q. P a = Some q \<longrightarrow> conserved (pe_stats q))"

definition core_ok :: "core \<Rightarrow> bool" where
  "core_ok c \<longleftrightarrow> distinct (map fst (co_peers c)) \<and> distinct (map fst (co_overrides c))
     \<and> (\<forall>p. co_profile c = Some p \<longrightarrow> validate_profile p = Inr ())
     \<and> (\<forall>a. policy (co_profile c) (map_of (co_overrides c) a) a (map_of (co_peers c) a))
     \<and> ordinals_ok (map_of (co_peers c)) (co_next_ordinal c)
     \<and> counts_ok (map_of (co_peers c))"

definition handle_ok :: "impair_handle \<Rightarrow> bool" where
  "handle_ok h \<longleftrightarrow> core_ok (ih_core h) \<and> conserved (ih_stats h)"

lemma detached_ok: "handle_ok detached"
  by (simp add: handle_ok_def core_ok_def detached_def core_default_def policy_def ordinals_ok_def
      counts_ok_def conserved_default)

section \<open>Links that are built\<close>

lemma link_build_runs:
  assumes "link_build p seed own origin = Inr l"
  shows "runs_profile p l \<and> ln_own l = own"
  using assms
  by (auto simp: link_build_def and_then_eq_Inr runs_profile_def dest: impairer_new_ok)
    (auto simp: impairer_new_def and_then_eq_Inr)

lemma link_build_seeded: "link_build p seed own origin = Inr l \<Longrightarrow> link_seeded seed l"
  by (auto simp: link_build_def and_then_eq_Inr link_seeded_def intro: seeded_by.built)

lemma link_build_valid:
  assumes "validate_profile p = Inr ()"
  shows "\<exists>l. link_build p seed own origin = Inr l"
  using assms
  by (auto simp: validate_profile_ok link_build_def impairer_new_def and_then_eq_Inr validate_direction_ok)

section \<open>Removing and sweeping\<close>

lemma remove_peer_fields:
  "map_of (co_peers (remove_peer a c)) = (map_of (co_peers c))(a := None)"
  "distinct (map fst (co_peers c)) \<Longrightarrow> distinct (map fst (co_peers (remove_peer a c)))"
  "co_profile (remove_peer a c) = co_profile c" "co_overrides (remove_peer a c) = co_overrides c"
  "co_next_ordinal (remove_peer a c) = co_next_ordinal c" "co_logs (remove_peer a c) = co_logs c"
  "co_idle_timeout (remove_peer a c) = co_idle_timeout c"
  "co_last_sweep (remove_peer a c) = co_last_sweep c"
  by (auto simp: remove_peer_def delete_conv fun_eq_iff distinct_delete split: option.splits)

lemma remove_peers_fields:
  "map_of (co_peers (fold remove_peer as c))
     = (\<lambda>a. if a \<in> set as then None else map_of (co_peers c) a)"
  "distinct (map fst (co_peers c)) \<Longrightarrow> distinct (map fst (co_peers (fold remove_peer as c)))"
  "co_profile (fold remove_peer as c) = co_profile c"
  "co_overrides (fold remove_peer as c) = co_overrides c"
  "co_next_ordinal (fold remove_peer as c) = co_next_ordinal c"
  "co_logs (fold remove_peer as c) = co_logs c"
  "co_idle_timeout (fold remove_peer as c) = co_idle_timeout c"
  by (induction as arbitrary: c) (auto simp: remove_peer_fields fun_eq_iff)

lemma fewer_peers:
  assumes "\<forall>a. P' a = None \<or> P' a = P a"
  shows "ordinals_ok P n \<Longrightarrow> ordinals_ok P' n" "counts_ok P \<Longrightarrow> counts_ok P'"
  using assms by (auto simp: ordinals_ok_def counts_ok_def) (metis option.distinct(1))+

lemma idle_set:
  assumes "distinct (map fst xs)"
  shows "a \<in> set (map fst (filter (\<lambda>(a, p). Q p) xs)) \<longleftrightarrow> (\<exists>p. map_of xs a = Some p \<and> Q p)"
  using assms by (force simp: map_of_eq_Some_iff)

lemma sweep_fields:
  assumes "core_ok c" "sweep now c \<noteq> c"
  shows "map_of (co_peers (sweep now c)) = (\<lambda>a. case map_of (co_peers c) a of None \<Rightarrow> None
      | Some p \<Rightarrow> if now - pe_last_seen p \<ge> co_idle_timeout c then None else Some p)"
    and "map_of (co_overrides (sweep now c)) = (\<lambda>a. case map_of (co_overrides c) a of None \<Rightarrow> None
      | Some (ov, seen) \<Rightarrow> if now - seen < co_idle_timeout c then Some (ov, seen) else None)"
    and "distinct (map fst (co_peers (sweep now c)))"
    and "distinct (map fst (co_overrides (sweep now c)))"
    and "co_profile (sweep now c) = co_profile c" "co_next_ordinal (sweep now c) = co_next_ordinal c"
proof -
  let ?T = "co_idle_timeout c"
  define c1 where "c1 = c\<lparr> co_last_sweep := Some now \<rparr>"
  define idle where "idle = map fst (filter (\<lambda>(a, p). now - pe_last_seen p \<ge> ?T) (co_peers c))"
  have run: "sweep now c = (fold remove_peer idle c1)\<lparr> co_overrides :=
      filter (\<lambda>(a, ov, seen). now - seen < ?T) (co_overrides c) \<rparr>"
    using assms(2) by (simp add: sweep_def Let_def c1_def idle_def remove_peers_fields split: if_splits)
  have d: "distinct (map fst (co_peers c))" "distinct (map fst (co_overrides c))"
    using assms(1) by (simp_all add: core_ok_def)
  show "map_of (co_peers (sweep now c)) = (\<lambda>a. case map_of (co_peers c) a of None \<Rightarrow> None
      | Some p \<Rightarrow> if now - pe_last_seen p \<ge> ?T then None else Some p)"
    unfolding run using idle_set [OF d(1), of _ "\<lambda>p. now - pe_last_seen p \<ge> ?T"]
    by (auto simp: remove_peers_fields fun_eq_iff c1_def simp flip: idle_def split: option.split)
  show "map_of (co_overrides (sweep now c)) = (\<lambda>a. case map_of (co_overrides c) a of None \<Rightarrow> None
      | Some (ov, seen) \<Rightarrow> if now - seen < ?T then Some (ov, seen) else None)"
    unfolding run using map_of_filter [OF d(2), of "\<lambda>a (ov, seen). now - seen < ?T"]
    by (auto simp: fun_eq_iff split: option.split)
  show "distinct (map fst (co_peers (sweep now c)))"
    unfolding run using remove_peers_fields(2) [of c1 idle] d(1) by (simp add: c1_def)
  show "distinct (map fst (co_overrides (sweep now c)))"
    unfolding run using d(2) by (simp add: distinct_map_filter)
  show "co_profile (sweep now c) = co_profile c" "co_next_ordinal (sweep now c) = co_next_ordinal c"
    unfolding run by (simp_all add: remove_peers_fields c1_def)
qed

lemma sweep_ok:
  assumes "core_ok c"
  shows "core_ok (sweep now c)"
proof (cases "sweep now c = c")
  case False
  note f = sweep_fields [OF assms False]
  let ?P = "map_of (co_peers c)" and ?O = "map_of (co_overrides c)"
  have "policy (co_profile c) (map_of (co_overrides (sweep now c)) a) a (map_of (co_peers (sweep now c)) a)" for a
  proof -
    have p: "policy (co_profile c) (?O a) a (?P a)" using assms by (simp add: core_ok_def)
    show ?thesis
      unfolding f(1,2) using p
      by (auto simp: policy_def not_le split: option.splits override.splits)
  qed
  moreover have "\<forall>a. map_of (co_peers (sweep now c)) a = None \<or> map_of (co_peers (sweep now c)) a = ?P a"
    unfolding f(1) by (auto split: option.split)
  note fewer_peers [OF this]
  ultimately show ?thesis
    using assms f(3-6) by (simp add: core_ok_def)
qed (use assms in simp)

section \<open>Finding or building a link\<close>

text \<open>The profile a peer's settings call for; none leaves it untouched.\<close>

definition called_for :: "core \<Rightarrow> socket_addr \<Rightarrow> impair_profile option" where
  "called_for c addr =
     (case map_of (co_overrides c) addr of
        Some (OverrideArmed p, _) \<Rightarrow> Some p
      | Some (OverrideDisarmed, _) \<Rightarrow> None
      | None \<Rightarrow> (case co_profile c of Some p \<Rightarrow> if admits p addr then Some p else None | None \<Rightarrow> None))"

lemma policy_called_for:
  assumes "core_ok c" "map_of (co_peers c) addr = Some q"
  shows "\<exists>p. called_for c addr = Some p \<and> runs_profile p (pe_link q) \<and> validate_profile p = Inr ()
    \<and> (ln_own (pe_link q) \<longleftrightarrow> map_of (co_overrides c) addr \<noteq> None) \<and> link_seeded (seed_for p q) (pe_link q)"
proof -
  have "policy (co_profile c) (map_of (co_overrides c) addr) addr (Some q)"
    and v: "\<And>p. co_profile c = Some p \<Longrightarrow> validate_profile p = Inr ()"
    using assms unfolding core_ok_def by metis+
  then show ?thesis
    by (cases "map_of (co_overrides c) addr"; cases "co_profile c")
      (auto simp: policy_def called_for_def split: override.splits)
qed

lemma inherited_ordinal:
  assumes "core_ok c" "map_of (co_peers c) addr = Some q" "\<not> ln_own (pe_link q)"
  shows "\<exists>n. pe_ordinal q = Some n"
proof -
  have "policy (co_profile c) (map_of (co_overrides c) addr) addr (Some q)"
    using assms(1,2) unfolding core_ok_def by metis
  then show ?thesis
    using assms(3)
    by (cases "map_of (co_overrides c) addr"; cases "co_profile c")
      (auto simp: policy_def split: override.splits, (metis override.exhaust)+)
qed

lemma profile_for_called:
  "map_option fst (profile_for c addr n) = called_for c addr"
  by (simp add: profile_for_def called_for_def split: option.split override.split prod.split)

text \<open>The time stamp of a peer's own settings moves with that of its link.\<close>

definition touch :: "socket_addr \<Rightarrow> instant \<Rightarrow> core \<Rightarrow> core" where
  "touch addr now c =
     c\<lparr> co_overrides := AList.map_entry addr (\<lambda>(ov, seen). (ov, now)) (co_overrides c) \<rparr>"

lemma touch_fields:
  "co_peers (touch addr now c) = co_peers c" "co_profile (touch addr now c) = co_profile c"
  "co_next_ordinal (touch addr now c) = co_next_ordinal c"
  "map_of (co_overrides (touch addr now c)) a = (if a = addr
     then map_option (\<lambda>(ov, seen). (ov, now)) (map_of (co_overrides c) a) else map_of (co_overrides c) a)"
  "map fst (co_overrides (touch addr now c)) = map fst (co_overrides c)"
  "called_for (touch addr now c) a = called_for c a"
  "co_backlog (touch addr now c) = co_backlog c" "co_logs (touch addr now c) = co_logs c"
proof -
  have "map fst (AList.map_entry addr f xs) = map fst xs" for f and xs :: "(socket_addr \<times> override \<times> instant) list"
    by (induction xs) (auto simp: AList.map_entry.simps)
  then show "map fst (co_overrides (touch addr now c)) = map fst (co_overrides c)"
    by (simp add: touch_def)
qed (auto simp: touch_def map_of_map_entry called_for_def split: option.split prod.split override.split)

lemma core_ok_update:
  assumes ok: "core_ok c"
    and o': "map_of (co_overrides c') = (map_of (co_overrides c))(addr := ov)"
    and p': "map_of (co_peers c') = (map_of (co_peers c))(addr := q)"
    and d: "distinct (map fst (co_overrides c'))" "distinct (map fst (co_peers c'))"
    and prof: "co_profile c' = co_profile c" and n: "co_next_ordinal c \<le> co_next_ordinal c'"
    and new: "policy (co_profile c) ov addr q" "\<forall>r. q = Some r \<longrightarrow> conserved (pe_stats r)"
      "\<forall>r ord. q = Some r \<and> pe_ordinal r = Some ord \<longrightarrow> ord < co_next_ordinal c' \<and>
         (co_next_ordinal c \<le> ord \<or> (\<exists>r0. map_of (co_peers c) addr = Some r0 \<and> pe_ordinal r0 = Some ord))"
  shows "core_ok c'"
proof -
  let ?P = "map_of (co_peers c)"
  have old: "ordinals_ok ?P (co_next_ordinal c)" using ok by (simp add: core_ok_def)
  have "ordinals_ok (?P(addr := q)) (co_next_ordinal c')"
    unfolding ordinals_ok_def
  proof (intro allI impI)
    fix a r ord assume r: "(?P(addr := q)) a = Some r \<and> pe_ordinal r = Some ord"
    have lt: "ord < co_next_ordinal c'" 
      using r old new(3) n by (cases "a = addr") (auto simp: ordinals_ok_def intro: less_le_trans)
    moreover have "b = a" if b: "(?P(addr := q)) b = Some s" "pe_ordinal s = Some ord" for b s
    proof (rule ccontr)
      assume "b \<noteq> a"
      then consider "a \<noteq> addr" "b \<noteq> addr" | "a = addr" "b \<noteq> addr" | "a \<noteq> addr" "b = addr" by blast
      then show False
      proof cases
        case 1 then show False using r b old \<open>b \<noteq> a\<close> by (auto simp: ordinals_ok_def)
      next
        case 2 then show False using r b old new(3) by (fastforce simp: ordinals_ok_def)
      next
        case 3 then show False using r b old new(3) by (fastforce simp: ordinals_ok_def)
      qed
    qed
    ultimately show "ord < co_next_ordinal c' \<and>
        (\<forall>b s. (?P(addr := q)) b = Some s \<and> pe_ordinal s = Some ord \<longrightarrow> b = a)" by blast
  qed
  then show ?thesis
    using ok d prof new(1,2) unfolding core_ok_def o' p' by (auto simp: counts_ok_def)
qed

lemma core_link_ok:
  assumes ok: "core_ok c" and run: "core_link addr now origin c = (q, c')"
  shows "core_ok c'" "map_of (co_peers c') addr = q" "q = None \<longleftrightarrow> called_for c' addr = None"
proof -
  define c1 where "c1 = touch addr now (sweep now c)"
  have s: "core_ok (sweep now c)" using sweep_ok [OF ok] .
  let ?P = "map_of (co_peers (sweep now c))" and ?O = "map_of (co_overrides (sweep now c))"
  have pol: "policy (co_profile c1) (?O addr) addr (?P addr)"
    using s by (simp add: core_ok_def c1_def touch_fields)
  have d: "distinct (map fst (co_overrides c1))" "distinct (map fst (co_peers c1))"
    using s by (simp_all add: core_ok_def c1_def touch_fields)
  have o1: "map_of (co_overrides c1) = ?O(addr := map_option (\<lambda>(ov, seen). (ov, now)) (?O addr))"
    by (rule ext) (simp add: c1_def touch_fields)
  have run: "(q, c') = (case ?P addr of
      Some p \<Rightarrow> (Some (p\<lparr> pe_last_seen := now \<rparr>),
        c1\<lparr> co_peers := AList.update addr (p\<lparr> pe_last_seen := now \<rparr>) (co_peers c1) \<rparr>)
    | None \<Rightarrow> (case profile_for c1 addr (co_next_ordinal c1) of
        None \<Rightarrow> (None, c1)
      | Some (profile, seed, own) \<Rightarrow> (case link_build profile seed own origin of
          Inl _ \<Rightarrow> (None, c1)
        | Inr link \<Rightarrow>
            (let p = \<lparr> pe_ordinal = (if own then None else Some (co_next_ordinal c1)), pe_link = link,
                       pe_last_seen = now, pe_stats = stats_default, pe_backlog = (\<lambda>_. 0) \<rparr>
             in (Some p, c1\<lparr> co_next_ordinal := (if own then co_next_ordinal c1 else co_next_ordinal c1 + 1),
                  co_peers := AList.update addr p (co_peers c1) \<rparr>)))))"
    using run [symmetric] unfolding core_link_def Let_def touch_def [symmetric] c1_def [symmetric]
    by (simp add: c1_def touch_fields)
  have "core_ok c' \<and> map_of (co_peers c') addr = q \<and> (q = None \<longleftrightarrow> called_for c' addr = None)"
  proof (cases "?P addr")
    case (Some p)
    have upd: "q = Some (p\<lparr> pe_last_seen := now \<rparr>)"
      "c' = c1\<lparr> co_peers := AList.update addr (p\<lparr> pe_last_seen := now \<rparr>) (co_peers c1) \<rparr>"
      using run Some by simp_all
    have "core_ok c'"
    proof (rule core_ok_update [OF s])
      show "map_of (co_overrides c') = ?O(addr := map_option (\<lambda>(ov, seen). (ov, now)) (?O addr))"
        using o1 upd by simp
      show "map_of (co_peers c') = ?P(addr := q)"
        using upd by (simp add: update_conv' c1_def touch_fields)
      show "policy (co_profile (sweep now c)) (map_option (\<lambda>(ov, seen). (ov, now)) (?O addr)) addr q"
        using pol Some upd(1)
        by (auto simp: policy_def seed_for_def c1_def touch_fields split: option.splits override.splits)
      show "\<forall>r. q = Some r \<longrightarrow> conserved (pe_stats r)"
        using s Some upd(1) by (auto simp: core_ok_def counts_ok_def)
      show "\<forall>r ord. q = Some r \<and> pe_ordinal r = Some ord \<longrightarrow> ord < co_next_ordinal c'
          \<and> (co_next_ordinal (sweep now c) \<le> ord \<or> (\<exists>r0. ?P addr = Some r0 \<and> pe_ordinal r0 = Some ord))"
        using s Some upd by (auto simp: core_ok_def ordinals_ok_def c1_def touch_fields)
    qed (use d upd in \<open>simp_all add: distinct_update c1_def touch_fields\<close>)
    moreover have "map_of (co_peers c') addr = q" using upd by (simp add: update_conv')
    ultimately show ?thesis using policy_called_for [of c' addr] upd(1) by auto
  next
    case None
    show ?thesis
    proof (cases "profile_for c1 addr (co_next_ordinal c1)")
      case no: None
      then have upd: "q = None" "c' = c1" using run None by simp_all
      have p0: "policy (co_profile (sweep now c)) (map_option (\<lambda>(ov, seen). (ov, now)) (?O addr)) addr None"
        using pol None by (cases "?O addr") (auto simp: policy_def split: override.splits)
      have "map_of (co_peers c') = ?P(addr := None)"
        using upd None by (auto simp: c1_def touch_fields)
      from core_ok_update [OF s _ this _ _ _ _ p0] have "core_ok c'"
        using d o1 upd by (simp add: c1_def touch_fields)
      then show ?thesis
        using upd None profile_for_called [of c1 addr "co_next_ordinal c1"] no by (simp add: c1_def touch_fields)
    next
      case (Some psw)
      obtain profile seed own where psw: "psw = (profile, seed, own)" by (metis surj_pair)
      have no: "?O addr = None" "co_profile c1 = Some profile" "admits profile addr" "\<not> own"
        "seed = peer_seed (ip_seed profile) (of_nat (co_next_ordinal c1))"
        using Some pol None unfolding psw
        by (auto simp: profile_for_def policy_def c1_def touch_fields split: option.splits override.splits if_splits)
      then have v: "validate_profile profile = Inr ()"
        using s by (auto simp: core_ok_def c1_def touch_fields)
      obtain l where l: "link_build profile seed own origin = Inr l" using link_build_valid [OF v] by blast
      note runs = link_build_runs [OF l] and seeded = link_build_seeded [OF l]
      define p where "p = \<lparr> pe_ordinal = Some (co_next_ordinal c1), pe_link = l,
        pe_last_seen = now, pe_stats = stats_default, pe_backlog = (\<lambda>_. 0) \<rparr>"
      have upd: "q = Some p" "c' = c1\<lparr> co_next_ordinal := co_next_ordinal c1 + 1,
          co_peers := AList.update addr p (co_peers c1) \<rparr>"
        using run None Some l no(4) by (simp_all add: psw p_def Let_def)
      have "core_ok c'"
      proof (rule core_ok_update [OF s])
        show "map_of (co_overrides c') = ?O(addr := None)"
          using o1 upd no(1) by simp
        show "map_of (co_peers c') = ?P(addr := q)"
          using upd by (simp add: update_conv' c1_def touch_fields)
        show "policy (co_profile (sweep now c)) None addr q"
          using runs seeded no upd(1) by (simp add: policy_def seed_for_def p_def c1_def touch_fields)
        show "\<forall>r. q = Some r \<longrightarrow> conserved (pe_stats r)"
          using upd(1) by (simp add: p_def conserved_default)
        show "\<forall>r ord. q = Some r \<and> pe_ordinal r = Some ord \<longrightarrow> ord < co_next_ordinal c'
            \<and> (co_next_ordinal (sweep now c) \<le> ord \<or> (\<exists>r0. ?P addr = Some r0 \<and> pe_ordinal r0 = Some ord))"
          using upd by (simp add: p_def c1_def touch_fields)
      qed (use d upd in \<open>simp_all add: distinct_update c1_def touch_fields\<close>)
      moreover have "map_of (co_peers c') addr = q" using upd by (simp add: update_conv')
      ultimately show ?thesis using policy_called_for [of c' addr] upd(1) by auto
    qed
  qed
  then show "core_ok c'" "map_of (co_peers c') addr = q" "q = None \<longleftrightarrow> called_for c' addr = None"
    by blast+
qed

section \<open>The operations keep the invariant\<close>

lemma map_of_peers_distinct: "core_ok c \<Longrightarrow> distinct (map fst (co_peers c))"
  by (simp add: core_ok_def)

text \<open>What an arm builds: links for exactly the inheriting peers it admits.\<close>

lemma rebuild_keys:
  "rebuild profile origins ps = Inr ls \<Longrightarrow>
     map fst ls = map fst (filter (\<lambda>(a, p). \<not> ln_own (pe_link p)) ps)"
  by (induction profile origins ps arbitrary: ls rule: rebuild.induct)
    (auto simp: and_then_eq_Inr split: if_splits)

definition rebuilt_ok :: "impair_profile \<Rightarrow> socket_addr \<Rightarrow> peer \<Rightarrow> link option \<Rightarrow> bool" where
  "rebuilt_ok profile a p l \<longleftrightarrow>
     (case l of None \<Rightarrow> \<not> admits profile a
      | Some l \<Rightarrow> admits profile a \<and> runs_profile profile l \<and> \<not> ln_own l
          \<and> link_seeded (seed_for profile (p\<lparr> pe_link := l \<rparr>)) l)"

lemma rebuild_runs:
  "rebuild profile origins ps = Inr ls \<Longrightarrow> (a, l) \<in> set ls \<Longrightarrow> \<exists>p. (a, p) \<in> set ps \<and> rebuilt_ok profile a p l"
proof (induction ps arbitrary: ls)
  case (Cons x ps)
  obtain b p where x: "x = (b, p)" by fastforce
  show ?case
  proof (cases "ln_own (pe_link p)")
    case True
    with Cons.prems(1) have "rebuild profile origins ps = Inr ls" by (simp add: x)
    from Cons.IH [OF this Cons.prems(2)] show ?thesis by auto
  next
    case False
    with Cons.prems(1) obtain l1 ls1 where l1: "rebuild profile origins ps = Inr ls1" "ls = (b, l1) # ls1"
      "(if admits profile b then
         and_then (link_build profile
             (peer_seed (ip_seed profile) (of_nat (case pe_ordinal p of Some o' \<Rightarrow> o' | None \<Rightarrow> 0)))
             False (origins b)) (\<lambda>link. Inr (Some link))
       else Inr None) = (Inr l1 :: profile_error + link option)"
      by (auto simp: x and_then_eq_Inr)
    then have "rebuilt_ok profile b p l1"
      by (auto simp: rebuilt_ok_def seed_for_def and_then_eq_Inr split: if_splits
          dest: link_build_runs link_build_seeded)
    then show ?thesis using l1(1,2) Cons.IH [OF l1(1)] Cons.prems(2) by (auto simp: x)
  qed
qed simp

lemma rebuild_total:
  assumes "validate_profile profile = Inr ()"
  shows "\<exists>ls. rebuild profile origins ps = Inr ls"
proof (induction ps)
  case (Cons x ps)
  obtain a p where x: "x = (a, p)" by fastforce
  from Cons show ?case
    using link_build_valid [OF assms] by (auto simp: x and_then_eq_Inr) 
qed simp

definition relinked :: "(socket_addr \<times> link option) list \<Rightarrow> socket_addr \<Rightarrow> peer option \<Rightarrow> peer option" where
  "relinked ls a q =
     (case map_of ls a of None \<Rightarrow> q
      | Some None \<Rightarrow> None
      | Some (Some l) \<Rightarrow> map_option (\<lambda>p. p\<lparr> pe_link := l \<rparr>) q)"

lemma put_link_fields:
  "map_of (co_peers (put_link (a, l) c)) = (\<lambda>b. if b = a
     then (case l of None \<Rightarrow> None | Some l \<Rightarrow> map_option (\<lambda>p. p\<lparr> pe_link := l \<rparr>) (map_of (co_peers c) a))
     else map_of (co_peers c) b)"
  "distinct (map fst (co_peers c)) \<Longrightarrow> distinct (map fst (co_peers (put_link (a, l) c)))"
  "co_overrides (put_link (a, l) c) = co_overrides c" "co_profile (put_link (a, l) c) = co_profile c"
  "co_next_ordinal (put_link (a, l) c) = co_next_ordinal c"
proof -
  have "map fst (AList.map_entry a f xs) = map fst xs" for f and xs :: "(socket_addr \<times> peer) list"
    by (induction xs) (auto simp: AList.map_entry.simps)
  then show "distinct (map fst (co_peers c)) \<Longrightarrow> distinct (map fst (co_peers (put_link (a, l) c)))"
    by (auto simp: put_link_def remove_peer_fields split: option.split)
qed (auto simp: put_link_def remove_peer_fields map_of_map_entry fun_eq_iff split: option.split)

lemma put_links_fields:
  "distinct (map fst ls) \<Longrightarrow>
     map_of (co_peers (fold put_link ls c)) = (\<lambda>a. relinked ls a (map_of (co_peers c) a))"
  "distinct (map fst (co_peers c)) \<Longrightarrow> distinct (map fst (co_peers (fold put_link ls c)))"
  "co_overrides (fold put_link ls c) = co_overrides c"
  "co_next_ordinal (fold put_link ls c) = co_next_ordinal c"
proof (induction ls arbitrary: c)
  case (Cons x ls)
  obtain a l where x: "x = (a, l)" by fastforce
  { case 1
    then have "map_of ls a = None" by (auto simp: x map_of_eq_None_iff)
    with 1 Cons.IH(1) show ?case
      by (auto simp: x put_link_fields relinked_def fun_eq_iff split: option.split) }
  { case 2 then show ?case using Cons.IH(2) by (simp add: x put_link_fields) }
  { case 3 then show ?case using Cons.IH(3) by (simp add: x put_link_fields) }
  { case 4 then show ?case using Cons.IH(4) by (simp add: x put_link_fields) }
qed (simp_all add: relinked_def)

end
