(* ===== verification/Netem_Control_Ops.thy ===== *)
theory Netem_Control_Ops
  imports Netem_Control_Inv
begin

text \<open>
  Every operation of the handle keeps the invariants of the control surface, none panics, and the
  gauge of the socket is the sum of its peers' backlogs.
\<close>

section \<open>Arming and disarming\<close>

lemma arm_ok:
  assumes "handle_ok h" "arm profile origins h = (r, h')"
  shows "handle_ok h'" "r = Inr () \<longleftrightarrow> validate_profile profile = Inr ()" "r \<noteq> Inr () \<longrightarrow> h' = h"
proof -
  let ?c = "ih_core h"
  have ok: "core_ok ?c" using assms(1) by (simp add: handle_ok_def)
  have "handle_ok h' \<and> (r = Inr () \<longleftrightarrow> validate_profile profile = Inr ()) \<and> (r \<noteq> Inr () \<longrightarrow> h' = h)"
  proof (cases "validate_profile profile")
    case (Inl err)
    then show ?thesis using assms by (auto simp: arm_def)
  next
    case (Inr u)
    obtain ls where ls: "rebuild profile origins (co_peers ?c) = Inr ls"
      using rebuild_total [of profile] Inr by auto
    define c' where "c' = (fold put_link ls ?c)\<lparr> co_profile := Some profile \<rparr>"
    have h': "r = Inr ()" "h' = h\<lparr> ih_core := c' \<rparr>"
      using assms(2) Inr ls by (simp_all add: arm_def c'_def)
    let ?P = "map_of (co_peers ?c)" and ?O = "map_of (co_overrides ?c)"
    have d: "distinct (map fst (co_peers ?c))" using ok by (simp add: core_ok_def)
    have keys: "a \<in> set (map fst ls) \<longleftrightarrow> (\<exists>p. ?P a = Some p \<and> \<not> ln_own (pe_link p))" for a
      unfolding rebuild_keys [OF ls] by (rule idle_set [OF d])
    have dl: "distinct (map fst ls)"
      unfolding rebuild_keys [OF ls] using d by (simp add: distinct_map_filter)
    have P': "map_of (co_peers c') a = relinked ls a (?P a)" for a
      by (simp add: c'_def put_links_fields dl)
    have pol: "policy (Some profile) (?O a) a (relinked ls a (?P a))" for a
    proof -
      have p: "policy (co_profile ?c) (?O a) a (?P a)" using ok by (simp add: core_ok_def)
      show ?thesis
      proof (cases "map_of ls a")
        case None
        then have "\<not> (\<exists>p. ?P a = Some p \<and> \<not> ln_own (pe_link p))"
          using keys [of a] by (simp add: map_of_eq_None_iff)
        with None p show ?thesis
          by (cases "?P a"; cases "?O a") (auto simp: relinked_def policy_def split: override.splits)
      next
        case (Some l)
        then obtain q where q: "?P a = Some q" "\<not> ln_own (pe_link q)"
          using keys [of a] by (metis map_of_eq_None_iff option.distinct(1) list.set_map)
        then have o: "?O a = None" "pe_ordinal q \<noteq> None"
          using p by (cases "?O a"; auto simp: policy_def split: override.splits)+
        from rebuild_runs [OF ls map_of_SomeD [OF Some]] obtain q' where "(a, q') \<in> set (co_peers ?c)" "rebuilt_ok profile a q' l"
          by blast
        then have "rebuilt_ok profile a q l" using q(1) map_of_is_SomeI [OF d] by fastforce
        with Some q o show ?thesis
          by (cases l) (auto simp: relinked_def policy_def rebuilt_ok_def)
      qed
    qed
    have sub: "relinked ls a q = None \<or> (\<exists>p p'. q = Some p \<and> relinked ls a q = Some p'
        \<and> pe_ordinal p' = pe_ordinal p \<and> pe_stats p' = pe_stats p)" for a q
      by (cases q) (auto simp: relinked_def split: option.split)
    have "ordinals_ok (map_of (co_peers c')) (co_next_ordinal c')" "counts_ok (map_of (co_peers c'))"
    proof -
      have "ordinals_ok ?P (co_next_ordinal ?c)" "counts_ok ?P" using ok by (simp_all add: core_ok_def)
      moreover have "co_next_ordinal c' = co_next_ordinal ?c" by (simp add: c'_def put_links_fields)
      ultimately show "ordinals_ok (map_of (co_peers c')) (co_next_ordinal c')" "counts_ok (map_of (co_peers c'))"
        using sub unfolding ordinals_ok_def counts_ok_def P' by (metis option.distinct(1) option.inject)+
    qed
    moreover have "distinct (map fst (co_peers c'))" "distinct (map fst (co_overrides c'))"
        "co_profile c' = Some profile" "map_of (co_overrides c') = ?O"
      using ok d by (simp_all add: c'_def put_links_fields core_ok_def)
    ultimately have "core_ok c'" using pol Inr unfolding core_ok_def P' by simp
    then show ?thesis using h' assms(1) Inr by (simp add: handle_ok_def)
  qed
  then show "handle_ok h'" "r = Inr () \<longleftrightarrow> validate_profile profile = Inr ()" "r \<noteq> Inr () \<longrightarrow> h' = h"
    by blast+
qed

lemma disarm_ok:
  assumes "handle_ok h"
  shows "handle_ok (disarm h)"
proof -
  let ?c = "ih_core h"
  have ok: "core_ok ?c" using assms by (simp add: handle_ok_def)
  define as where "as = map fst (filter (\<lambda>(a, p). \<not> ln_own (pe_link p)) (co_peers ?c))"
  define c' where "c' = fold remove_peer as (?c\<lparr> co_profile := None \<rparr>)"
  have d: "distinct (map fst (co_peers ?c))" using ok by (simp add: core_ok_def)
  have as: "a \<in> set as \<longleftrightarrow> (\<exists>p. map_of (co_peers ?c) a = Some p \<and> \<not> ln_own (pe_link p))" for a
    unfolding as_def by (rule idle_set [OF d])
  have P': "map_of (co_peers c') a = (if a \<in> set as then None else map_of (co_peers ?c) a)" for a
    by (simp add: c'_def remove_peers_fields)
  have "policy None (map_of (co_overrides ?c) a) a (map_of (co_peers c') a)" for a
  proof -
    have "policy (co_profile ?c) (map_of (co_overrides ?c) a) a (map_of (co_peers ?c) a)"
      using ok by (simp add: core_ok_def)
    then show ?thesis
      unfolding P' using as [of a]
      by (cases "map_of (co_peers ?c) a"; cases "map_of (co_overrides ?c) a")
        (auto simp: policy_def split: override.splits)
  qed
  moreover have "\<forall>a. map_of (co_peers c') a = None \<or> map_of (co_peers c') a = map_of (co_peers ?c) a"
    unfolding P' by simp
  note fewer_peers [OF this]
  moreover have "distinct (map fst (co_peers c'))"
    using remove_peers_fields(2) [of "?c\<lparr> co_profile := None \<rparr>" as] d by (simp add: c'_def)
  ultimately have "core_ok c'"
    using ok by (simp add: core_ok_def c'_def remove_peers_fields)
  then show ?thesis
    using assms by (simp add: handle_ok_def disarm_def Let_def c'_def as_def)
qed

section \<open>The settings of one peer\<close>

lemma arm_peer_ok:
  assumes "handle_ok h" "arm_peer addr profile origin now h = (r, h')"
  shows "handle_ok h' \<and> (r = Inr () \<longleftrightarrow> validate_profile profile = Inr ()) \<and> (r = Inr () \<or> h' = h)"
proof (cases "validate_profile profile")
  case (Inl err)
  then show ?thesis using assms by (auto simp: arm_peer_def)
next
  case (Inr u)
  then have v: "validate_profile profile = Inr ()" by simp
  let ?c = "ih_core h"
  have ok: "core_ok ?c" using assms(1) by (simp add: handle_ok_def)
  obtain l where l: "link_build profile (ip_seed profile) True origin = Inr l" using link_build_valid [OF v] by blast
  note runs = link_build_runs [OF l] and seeded = link_build_seeded [OF l]
  define p where "p = (case map_of (co_peers ?c) addr of
      Some p \<Rightarrow> p\<lparr> pe_link := l, pe_last_seen := now \<rparr>
    | None \<Rightarrow> \<lparr> pe_ordinal = None, pe_link = l, pe_last_seen = now, pe_stats = stats_default,
        pe_backlog = (\<lambda>_. 0) \<rparr>)"
  define c' where "c' = ?c\<lparr> co_overrides := AList.update addr (OverrideArmed profile, now) (co_overrides ?c),
    co_peers := AList.update addr p (co_peers ?c) \<rparr>"
  have h': "r = Inr ()" "h' = h\<lparr> ih_core := c' \<rparr>"
    using assms(2) v l by (simp_all add: arm_peer_def c'_def p_def Let_def)
  have old: "counts_ok (map_of (co_peers ?c))" "ordinals_ok (map_of (co_peers ?c)) (co_next_ordinal ?c)"
    using ok by (simp_all add: core_ok_def)
  have "core_ok c'"
  proof (rule core_ok_update [OF ok])
    show "policy (co_profile ?c) (Some (OverrideArmed profile, now)) addr (Some p)"
      using runs seeded v by (simp add: policy_def seed_for_def p_def split: option.split)
    show "\<forall>r. Some p = Some r \<longrightarrow> conserved (pe_stats r)"
      using old by (auto simp: p_def counts_ok_def conserved_default split: option.split)
    show "\<forall>r ord. Some p = Some r \<and> pe_ordinal r = Some ord \<longrightarrow> ord < co_next_ordinal c'
        \<and> (co_next_ordinal ?c \<le> ord \<or> (\<exists>r0. map_of (co_peers ?c) addr = Some r0 \<and> pe_ordinal r0 = Some ord))"
      using old by (auto simp: p_def c'_def ordinals_ok_def split: option.split)
    show "map_of (co_overrides c') = (map_of (co_overrides ?c))(addr := Some (OverrideArmed profile, now))"
      "map_of (co_peers c') = (map_of (co_peers ?c))(addr := Some p)"
      by (simp_all add: c'_def update_conv')
  qed (use ok in \<open>simp_all add: c'_def core_ok_def distinct_update\<close>)
  then show ?thesis using h' assms(1) v by (simp add: handle_ok_def)
qed

lemma forget_peer_ok:
  assumes ok: "core_ok c"
    and o': "map_of ov' = (map_of (co_overrides c))(addr := x)" "distinct (map fst ov')"
    and x: "x = None \<or> (\<exists>now. x = Some (OverrideDisarmed, now))"
  shows "core_ok (remove_peer addr (c\<lparr> co_overrides := ov' \<rparr>))"
proof (rule core_ok_update [OF ok])
  show "policy (co_profile c) x addr None" using x by (auto simp: policy_def)
qed (use ok o' in \<open>simp_all add: remove_peer_fields core_ok_def\<close>)

lemma core_ok_overrides: "core_ok c \<Longrightarrow> distinct (map fst (co_overrides c))"
  by (simp add: core_ok_def)

lemma disarm_peer_ok:
  assumes "handle_ok h"
  shows "handle_ok (disarm_peer addr now h)"
proof -
  have ok: "core_ok (ih_core h)" using assms by (simp add: handle_ok_def)
  note forget = forget_peer_ok [OF ok, of _ addr "Some (OverrideDisarmed, now)"]
  show ?thesis
    using assms core_ok_overrides [OF ok]
    by (auto simp: handle_ok_def disarm_peer_def Let_def update_conv' distinct_update intro!: forget)
qed

lemma clear_peer_ok:
  assumes "handle_ok h"
  shows "handle_ok (clear_peer addr h)"
proof -
  have ok: "core_ok (ih_core h)" using assms by (simp add: handle_ok_def)
  note forget = forget_peer_ok [OF ok, of _ addr None]
  show ?thesis
    using assms core_ok_overrides [OF ok]
    by (auto simp: handle_ok_def clear_peer_def Let_def delete_conv' distinct_delete intro!: forget)
qed

section \<open>Reseeding and counting\<close>

lemma same_ordinals:
  assumes "\<And>a q'. P' a = Some q' \<Longrightarrow> \<exists>q. P a = Some q \<and> pe_ordinal q' = pe_ordinal q" "ordinals_ok P n"
  shows "ordinals_ok P' n"
  using assms unfolding ordinals_ok_def by metis

lemma map_of_map_snd: "map_of (map (\<lambda>(a, p). (a, f p)) xs) a = map_option f (map_of xs a)"
  by (induction xs) auto

lemma reseed_fields: "im_profile (reseed s e) = im_profile e" "im_direction (reseed s e) = im_direction e"
  by (simp_all add: reseed_def)

lemma runs_profile_reseed: "runs_profile p l \<Longrightarrow> runs_profile (p\<lparr> ip_seed := s \<rparr>) (reseed_link s' l)"
  by (simp add: runs_profile_def reseed_link_def reseed_fields reseed_ok dir_profile_def cong: direction.case_cong)

lemma reseed_link_seeded: "link_seeded seed (reseed_link seed l)"
  by (simp add: link_seeded_def reseed_link_def seeded_by.reseeded)

lemma handle_reseed_ok:
  assumes "handle_ok h"
  shows "handle_ok (handle_reseed s h)"
proof (cases "co_profile (ih_core h)")
  case None
  then show ?thesis using assms by (simp add: handle_reseed_def Let_def)
next
  case (Some prof)
  let ?c = "ih_core h"
  have ok: "core_ok ?c" using assms by (simp add: handle_ok_def)
  define c' where "c' = ?c\<lparr> co_profile := Some (prof\<lparr> ip_seed := s \<rparr>),
    co_peers := map (\<lambda>(a, p). (a, reseed_peer s p)) (co_peers ?c) \<rparr>"
  have P': "map_of (co_peers c') a = map_option (reseed_peer s) (map_of (co_peers ?c) a)" for a
    by (simp add: c'_def map_of_map_snd)
  have keep: "pe_ordinal (reseed_peer s p) = pe_ordinal p" "pe_stats (reseed_peer s p) = pe_stats p"
    "ln_own (pe_link (reseed_peer s p)) = ln_own (pe_link p)"
    "pe_last_seen (reseed_peer s p) = pe_last_seen p"
    "ln_own (pe_link p) \<Longrightarrow> reseed_peer s p = p" for p
    by (simp_all add: reseed_peer_def Let_def reseed_link_def)
  have "policy (Some (prof\<lparr> ip_seed := s \<rparr>)) (map_of (co_overrides ?c) a) a (map_of (co_peers c') a)" for a
  proof -
    have "policy (co_profile ?c) (map_of (co_overrides ?c) a) a (map_of (co_peers ?c) a)"
      using ok by (simp add: core_ok_def)
    moreover have "runs_profile (prof\<lparr> ip_seed := s \<rparr>) (pe_link (reseed_peer s q))"
      if "runs_profile prof (pe_link q)" "\<not> ln_own (pe_link q)" for q
      using that runs_profile_reseed by (simp add: reseed_peer_def Let_def)
    moreover have "link_seeded (seed_for (prof\<lparr> ip_seed := s \<rparr>) (reseed_peer s q)) (pe_link (reseed_peer s q))"
      if "\<not> ln_own (pe_link q)" for q
      using that reseed_link_seeded by (simp add: reseed_peer_def seed_for_def Let_def reseed_link_def)
    moreover have "admits (prof\<lparr> ip_seed := s \<rparr>) a = admits prof a" by (simp add: admits_def)
    ultimately show ?thesis
      unfolding P' Some using keep
      by (cases "map_of (co_peers ?c) a"; cases "map_of (co_overrides ?c) a")
        (auto simp: policy_def split: override.splits)
  qed
  moreover have "ordinals_ok (map_of (co_peers c')) (co_next_ordinal ?c)"
    by (rule same_ordinals [of _ "map_of (co_peers ?c)"]) (use ok keep in \<open>auto simp: P' core_ok_def\<close>)
  moreover have "counts_ok (map_of (co_peers c'))"
    using ok keep by (auto simp: core_ok_def counts_ok_def P')
  moreover have "validate_profile (prof\<lparr> ip_seed := s \<rparr>) = Inr ()"
    using ok Some by (simp add: core_ok_def validate_profile_ok)
  moreover have "distinct (map fst (co_peers c'))" "co_overrides c' = co_overrides ?c"
      "co_profile c' = Some (prof\<lparr> ip_seed := s \<rparr>)" "co_next_ordinal c' = co_next_ordinal ?c" "distinct (map fst (co_overrides ?c))"
    using ok by (simp_all add: c'_def core_ok_def o_def split_def)
  ultimately have "core_ok c'" by (simp add: core_ok_def)
  then show ?thesis using assms Some by (simp add: handle_ok_def handle_reseed_def Let_def c'_def)
qed

lemma handle_ingress_overflow_ok:
  assumes "handle_ok h"
  shows "handle_ok (handle_ingress_overflow addr h)"
proof -
  let ?c = "ih_core h"
  let ?f = "\<lambda>p. p\<lparr> pe_stats := record_ingress_overflow (pe_stats p) \<rparr>"
  define c' where "c' = ?c\<lparr> co_peers := AList.map_entry addr ?f (co_peers ?c) \<rparr>"
  have ok: "core_ok ?c" using assms by (simp add: handle_ok_def)
  have keys: "map fst (AList.map_entry addr f xs) = map fst xs" for f and xs :: "(socket_addr \<times> peer) list"
    by (induction xs) (auto simp: AList.map_entry.simps)
  have "policy (co_profile ?c) (map_of (co_overrides ?c) addr) addr (map_of (co_peers ?c) addr)"
    and old: "counts_ok (map_of (co_peers ?c))" "ordinals_ok (map_of (co_peers ?c)) (co_next_ordinal ?c)"
    using ok by (simp_all add: core_ok_def)
  have "core_ok c'"
  proof (rule core_ok_update [OF ok, of _ addr "map_of (co_overrides ?c) addr" "map_option ?f (map_of (co_peers ?c) addr)"])
    show "policy (co_profile ?c) (map_of (co_overrides ?c) addr) addr (map_option ?f (map_of (co_peers ?c) addr))"
      using \<open>policy _ _ _ _\<close>
      by (cases "map_of (co_peers ?c) addr"; cases "map_of (co_overrides ?c) addr")
        (auto simp: policy_def seed_for_def split: override.splits option.splits)
  qed (use ok old in \<open>auto simp: c'_def core_ok_def map_of_map_entry keys fun_eq_iff counts_ok_def
      record_ingress_overflow_conserved ordinals_ok_def\<close>)
  then show ?thesis
    using assms
    by (simp add: handle_ok_def handle_ingress_overflow_def Let_def c'_def record_ingress_overflow_conserved)
qed

lemma quiet_operations_ok:
  assumes "handle_ok h"
  shows "handle_ok (set_peer_idle_timeout timeout h)" "handle_ok (record_decisions on h)"
    "handle_ok (handle_record_release batch scheduled observed h)"
    "handle_ok (snd (take_log addr h))" "handle_ok (snd (take_logs h))"
  using assms
  by (simp_all add: handle_ok_def set_peer_idle_timeout_def record_decisions_def record_release_conserved
      handle_record_release_def take_log_def take_logs_def Let_def core_ok_def)

section \<open>Deciding about a datagram\<close>

lemma begin_peer_ok:
  assumes "handle_ok h" "begin_peer addr now origin h = (t, h')"
  shows "handle_ok h' \<and> (t = None \<longleftrightarrow> called_for (ih_core h') addr = None)"
proof -
  obtain q c where c: "core_link addr now origin (ih_core h) = (q, c)" by fastforce
  have "core_ok (ih_core h)" using assms(1) by (simp add: handle_ok_def)
  note l = core_link_ok [OF this c]
  have "h' = h\<lparr> ih_core := c \<rparr>" "t = None \<longleftrightarrow> q = None"
    using assms(2) c by (auto simp: begin_peer_def Let_def split: option.splits)
  then show ?thesis using l assms(1) by (simp add: handle_ok_def)
qed

lemma record_decision_total:
  assumes "decision_ok wire now d"
  shows "\<exists>s'. record_decision dir wire d s = Some s'"
  using assms by (cases "de_verdict d"; cases "de_cause d")
    (auto simp: decision_ok_def record_decision_def record_bucket_def Let_def)

lemma set_engine_runs:
  assumes "runs_profile p l" "engine_ok e" "im_profile e = im_profile (link_engine dir l)"
    "im_direction e = im_direction (link_engine dir l)"
  shows "runs_profile p (set_engine dir e (l\<lparr> ln_seq := f \<rparr>))"
  using assms by (cases dir) (simp_all add: runs_profile_def set_engine_def link_engine_def)

lemma set_engine_seeded:
  assumes "link_seeded seed l" "decide tabs sq wire tick (link_engine dir l) = Some (d, e)"
  shows "link_seeded seed (set_engine dir e (l\<lparr> ln_seq := f \<rparr>))"
proof -
  have "seeded_by seed (link_engine dir l)" using assms(1) by (cases dir) (simp_all add: link_seeded_def link_engine_def)
  from seeded_by.decided [OF this assms(2)] show ?thesis
    using assms(1) by (cases dir) (simp_all add: link_seeded_def set_engine_def)
qed

text \<open>One decision, step by step: the link found, the engine asked, the three counts moved.\<close>

lemma handle_decide_cases:
  assumes ok: "handle_ok h"
  obtains (untouched) c where "core_link addr now origin (ih_core h) = (None, c)"
      "handle_decide tabs addr dir wire tick now origin h = Some (None, h\<lparr> ih_core := c \<rparr>)"
  | (decided) p c d e st shared where
      "core_link addr now origin (ih_core h) = (Some p, c)"
      "decide tabs (ln_seq (pe_link p) dir) wire tick (link_engine dir (pe_link p)) = Some (d, e)"
      "decision_ok wire tick d" "engine_ok e" "im_profile e = im_profile (link_engine dir (pe_link p))"
      "im_direction e = im_direction (link_engine dir (pe_link p))"
      "record_decision dir wire d (pe_stats p) = Some st"
      "record_decision dir wire (d\<lparr> de_queue_backlog_bytes :=
          sat_add (sat_sub (co_backlog c dir) (pe_backlog p dir)) (de_queue_backlog_bytes d) \<rparr>)
        (ih_stats h) = Some shared"
      "handle_decide tabs addr dir wire tick now origin h = Some (Some d, h\<lparr>
         ih_core := c\<lparr>
           co_peers := AList.update addr (p\<lparr>
               pe_link := set_engine dir e ((pe_link p)\<lparr>
                 ln_seq := (ln_seq (pe_link p))(dir := ln_seq (pe_link p) dir + 1) \<rparr>),
               pe_stats := st,
               pe_backlog := (pe_backlog p)(dir := de_queue_backlog_bytes d) \<rparr>) (co_peers c),
           co_backlog := (co_backlog c)(dir :=
             sat_add (sat_sub (co_backlog c dir) (pe_backlog p dir)) (de_queue_backlog_bytes d)),
           co_logs := (if ih_recording h
             then AList.update addr (log_push dir (ln_seq (pe_link p) dir) wire tick d (log_at c addr)) (co_logs c)
             else co_logs c) \<rparr>,
         ih_stats := shared \<rparr>)"
proof -
  obtain q c where c: "core_link addr now origin (ih_core h) = (q, c)" by fastforce
  have ok0: "core_ok (ih_core h)" using ok by (simp add: handle_ok_def)
  note l = core_link_ok [OF ok0 c]
  show thesis
  proof (cases q)
    case None
    then show ?thesis using untouched [of c] c by (simp add: handle_decide_def)
  next
    case (Some p)
    let ?sq = "ln_seq (pe_link p) dir" and ?e = "link_engine dir (pe_link p)"
    have "map_of (co_peers c) addr = Some p" using l(2) Some by simp
    from policy_called_for [OF l(1) this] obtain prof where "runs_profile prof (pe_link p)" by blast
    then have "engine_ok ?e" by (cases dir) (simp_all add: runs_profile_def link_engine_def)
    from decide_ok [OF this, of tabs ?sq wire tick] obtain d e where
      d: "decide tabs ?sq wire tick ?e = Some (d, e)" "decision_ok wire tick d" "engine_ok e"
        "im_profile e = im_profile ?e" "im_direction e = im_direction ?e" by blast
    let ?g = "sat_add (sat_sub (co_backlog c dir) (pe_backlog p dir)) (de_queue_backlog_bytes d)"
    obtain st where st: "record_decision dir wire d (pe_stats p) = Some st"
      using record_decision_total [OF d(2)] by blast
    have "decision_ok wire tick (d\<lparr> de_queue_backlog_bytes := ?g \<rparr>)" using d(2) by (simp add: decision_ok_def)
    then obtain shared where sh: "record_decision dir wire (d\<lparr> de_queue_backlog_bytes := ?g \<rparr>) (ih_stats h) = Some shared"
      using record_decision_total by blast
    have "link_engine dir ((pe_link p)\<lparr> ln_seq := f \<rparr>) = ?e" for f
      by (cases dir) (simp_all add: link_engine_def)
    then show ?thesis
      using decided [OF c [unfolded Some] d st sh] c Some d(1) st sh
      by (cases "ih_recording h") (simp_all add: handle_decide_def Let_def log_at_def)
  qed
qed

lemma handle_decide_ok:
  assumes ok: "handle_ok h"
  shows "\<exists>r h'. handle_decide tabs addr dir wire tick now origin h = Some (r, h') \<and> handle_ok h'
    \<and> (r = None \<longleftrightarrow> called_for (ih_core h') addr = None)"
  using ok
proof (cases rule: handle_decide_cases [where tabs = tabs and addr = addr and dir = dir and wire = wire
    and tick = tick and now = now and origin = origin])
  case (untouched c)
  have "core_ok (ih_core h)" using ok by (simp add: handle_ok_def)
  note l = core_link_ok [OF this untouched(1)]
  then show ?thesis using untouched(2) ok by (simp add: handle_ok_def)
next
  case (decided p c d e st shared)
  have "core_ok (ih_core h)" using ok by (simp add: handle_ok_def)
  note l = core_link_ok [OF this decided(1)]
  define p' where "p' = p\<lparr> pe_link := set_engine dir e ((pe_link p)\<lparr>
       ln_seq := (ln_seq (pe_link p))(dir := ln_seq (pe_link p) dir + 1) \<rparr>),
     pe_stats := st, pe_backlog := (pe_backlog p)(dir := de_queue_backlog_bytes d) \<rparr>"
  let ?g = "sat_add (sat_sub (co_backlog c dir) (pe_backlog p dir)) (de_queue_backlog_bytes d)"
  let ?logs = "if ih_recording h
    then AList.update addr (log_push dir (ln_seq (pe_link p) dir) wire tick d (log_at c addr)) (co_logs c)
    else co_logs c"
  define c' where "c' = c\<lparr> co_peers := AList.update addr p' (co_peers c),
    co_backlog := (co_backlog c)(dir := ?g), co_logs := ?logs \<rparr>"
  note res = decided(9) [folded p'_def, folded c'_def]
  have own: "ln_own (pe_link p') = ln_own (pe_link p)"
    by (cases dir) (simp_all add: p'_def set_engine_def)
  have runs: "runs_profile prof (pe_link p) \<Longrightarrow> runs_profile prof (pe_link p')" for prof
    using set_engine_runs decided(4-6) by (simp add: p'_def)
  have seeded: "link_seeded (seed_for prof p) (pe_link p) \<Longrightarrow> link_seeded (seed_for prof p') (pe_link p')" for prof
  proof -
    have "seed_for prof p' = seed_for prof p" using own by (simp add: seed_for_def) (simp add: p'_def)
    then show "link_seeded (seed_for prof p) (pe_link p) \<Longrightarrow> link_seeded (seed_for prof p') (pe_link p')"
      using set_engine_seeded [OF _ decided(2)] by (simp add: p'_def)
  qed
  have fields: "pe_last_seen p' = pe_last_seen p" "pe_ordinal p' = pe_ordinal p" "pe_stats p' = st"
    by (simp_all add: p'_def)
  have pol: "policy (co_profile c) (map_of (co_overrides c) addr) addr (Some p)"
    using l(1,2) unfolding core_ok_def by metis
  have old: "counts_ok (map_of (co_peers c))" "ordinals_ok (map_of (co_peers c)) (co_next_ordinal c)"
    using l(1) by (simp_all add: core_ok_def)
  have "core_ok c'"
  proof (rule core_ok_update [OF l(1), of _ addr "map_of (co_overrides c) addr" "Some p'"])
    show "policy (co_profile c) (map_of (co_overrides c) addr) addr (Some p')"
      using pol own runs seeded fields
      by (cases "map_of (co_overrides c) addr") (auto simp: policy_def split: override.splits option.splits)
    show "\<forall>r. Some p' = Some r \<longrightarrow> conserved (pe_stats r)"
      using old(1) l(2) record_decision_conserved [OF _ decided(7)] fields by (auto simp: counts_ok_def)
    show "\<forall>r ord. Some p' = Some r \<and> pe_ordinal r = Some ord \<longrightarrow> ord < co_next_ordinal c'
        \<and> (co_next_ordinal c \<le> ord \<or> (\<exists>r0. map_of (co_peers c) addr = Some r0 \<and> pe_ordinal r0 = Some ord))"
      using old(2) l(2) fields by (auto simp: ordinals_ok_def c'_def)
    show "map_of (co_overrides c') = (map_of (co_overrides c))(addr := map_of (co_overrides c) addr)"
      "map_of (co_peers c') = (map_of (co_peers c))(addr := Some p')"
      by (simp_all add: c'_def update_conv')
  qed (use l(1) in \<open>simp_all add: c'_def core_ok_def distinct_update\<close>)
  moreover have "conserved shared"
    using ok record_decision_conserved [OF _ decided(8)] by (simp add: handle_ok_def)
  moreover have "called_for c' addr = called_for c addr"
    by (simp add: called_for_def c'_def split: option.split prod.split override.split)
  ultimately show ?thesis using res l(3) by (simp add: handle_ok_def)
qed

end
