(* ===== verification/Netem_Control_Run.thy ===== *)
theory Netem_Control_Run
  imports Netem_Control_Ops
begin

text \<open>
  Runs of the control surface: every operation as a step, the handles a run reaches, the gauge as the
  sum of the peers' backlogs, and what the operations on one peer leave of another.
\<close>

section \<open>Steps\<close>

datatype control_op =
    OpArm impair_profile "socket_addr \<Rightarrow> instant"
  | OpDisarm
  | OpArmPeer socket_addr impair_profile instant instant
  | OpDisarmPeer socket_addr instant
  | OpClearPeer socket_addr
  | OpTimeout nat
  | OpReseed u64
  | OpRecord bool
  | OpTakeLog socket_addr
  | OpTakeLogs
  | OpBegin socket_addr instant instant
  | OpDecide socket_addr direction u32 tick instant instant
  | OpRelease u32 tick tick
  | OpOverflow socket_addr

text \<open>The handle after an operation; \<open>None\<close> is a panic.\<close>

fun control_step :: "dist_tables \<Rightarrow> control_op \<Rightarrow> impair_handle \<Rightarrow> impair_handle option" where
  "control_step tabs (OpArm profile origins) h = Some (snd (arm profile origins h))"
| "control_step tabs OpDisarm h = Some (disarm h)"
| "control_step tabs (OpArmPeer addr profile origin now) h = Some (snd (arm_peer addr profile origin now h))"
| "control_step tabs (OpDisarmPeer addr now) h = Some (disarm_peer addr now h)"
| "control_step tabs (OpClearPeer addr) h = Some (clear_peer addr h)"
| "control_step tabs (OpTimeout t) h = Some (set_peer_idle_timeout t h)"
| "control_step tabs (OpReseed s) h = Some (handle_reseed s h)"
| "control_step tabs (OpRecord on) h = Some (record_decisions on h)"
| "control_step tabs (OpTakeLog addr) h = Some (snd (take_log addr h))"
| "control_step tabs OpTakeLogs h = Some (snd (take_logs h))"
| "control_step tabs (OpBegin addr now origin) h = Some (snd (begin_peer addr now origin h))"
| "control_step tabs (OpDecide addr dir wire tick now origin) h =
     map_option snd (handle_decide tabs addr dir wire tick now origin h)"
| "control_step tabs (OpRelease batch scheduled observed) h =
     Some (handle_record_release batch scheduled observed h)"
| "control_step tabs (OpOverflow addr) h = Some (handle_ingress_overflow addr h)"

lemma control_step_ok:
  assumes "handle_ok h"
  shows "\<exists>h'. control_step tabs op h = Some h' \<and> handle_ok h'"
proof (cases op)
  case (OpArm profile origins)
  then show ?thesis using arm_ok(1) [OF assms] by (metis control_step.simps(1) prod.collapse)
next
  case (OpArmPeer addr profile origin now)
  then show ?thesis using arm_peer_ok [OF assms] by (metis control_step.simps(3) prod.collapse)
next
  case (OpBegin addr now origin)
  then show ?thesis using begin_peer_ok [OF assms] by (metis control_step.simps(11) prod.collapse)
next
  case (OpDecide addr dir wire tick now origin)
  then show ?thesis using handle_decide_ok [OF assms, of tabs addr dir wire tick now origin] by auto
qed (use assms in \<open>simp_all add: disarm_ok disarm_peer_ok clear_peer_ok quiet_operations_ok
    handle_reseed_ok handle_ingress_overflow_ok\<close>)

text \<open>The handles a run reaches, each of them with a property asked of all of them.\<close>

inductive reaches :: "dist_tables \<Rightarrow> (impair_handle \<Rightarrow> bool) \<Rightarrow> impair_handle \<Rightarrow> bool"
  for tabs :: dist_tables and Q :: "impair_handle \<Rightarrow> bool" where
  fresh: "reaches tabs Q detached"
| step: "reaches tabs Q h \<Longrightarrow> control_step tabs op h = Some h' \<Longrightarrow> Q h' \<Longrightarrow> reaches tabs Q h'"

lemma reaches_ok: "reaches tabs Q h \<Longrightarrow> handle_ok h"
proof (induction rule: reaches.induct)
  case (step h op h')
  then show ?case using control_step_ok [of h tabs op] by auto
qed (rule detached_ok)

section \<open>The gauge\<close>

definition backlog_sum :: "core \<Rightarrow> direction \<Rightarrow> nat" where
  "backlog_sum c d = (\<Sum>(a, p)\<leftarrow>co_peers c. unat (pe_backlog p d))"

definition gauge_ok :: "core \<Rightarrow> bool" where
  "gauge_ok c \<longleftrightarrow> distinct (map fst (co_peers c)) \<and> (\<forall>d. unat (co_backlog c d) = backlog_sum c d)"

text \<open>No sum of backlogs leaves the 64 bits of the gauge.\<close>

definition fits :: "impair_handle \<Rightarrow> bool" where
  "fits h \<longleftrightarrow> (\<forall>d. backlog_sum (ih_core h) d < 2 ^ 64)"

lemma sum_delete:
  fixes f :: "'b \<Rightarrow> nat"
  assumes "distinct (map fst xs)" "map_of xs a = Some p"
  shows "(\<Sum>(b, q)\<leftarrow>xs. f q) = f p + (\<Sum>(b, q)\<leftarrow>AList.delete a xs. f q)"
  using assms
proof (induction xs)
  case (Cons x xs)
  obtain b q where x: "x = (b, q)" by fastforce
  show ?case
  proof (cases "b = a")
    case True
    with Cons.prems have "a \<notin> fst ` set xs" by (auto simp: x)
    then have "AList.delete a xs = xs" by (simp add: delete_id)
    with True Cons.prems show ?thesis by (simp add: x)
  qed (use Cons in \<open>simp add: x\<close>)
qed simp

lemma sum_update:
  fixes f :: "'b \<Rightarrow> nat"
  assumes "distinct (map fst xs)"
  shows "(\<Sum>(b, q)\<leftarrow>AList.update a p xs. f q)
      + (case map_of xs a of Some p0 \<Rightarrow> f p0 | None \<Rightarrow> 0) = (\<Sum>(b, q)\<leftarrow>xs. f q) + f p"
  using assms
proof (induction xs)
  case (Cons x xs)
  obtain b q where x: "x = (b, q)" by fastforce
  show ?case by (cases "b = a") (use Cons in \<open>simp_all add: x\<close>)
qed simp

lemma sum_map_entry:
  fixes g :: "'b \<Rightarrow> nat"
  assumes "\<And>p. g (f p) = g p"
  shows "(\<Sum>(b, q)\<leftarrow>AList.map_entry a f xs. g q) = (\<Sum>(b, q)\<leftarrow>xs. g q)"
  using assms by (induction xs) (auto simp: AList.map_entry.simps)

lemma map_entry_keys: "map fst (AList.map_entry a f xs) = map fst xs"
  by (induction xs) (auto simp: AList.map_entry.simps)

lemma gauge_remove_peer:
  assumes "gauge_ok c"
  shows "gauge_ok (remove_peer a c)"
proof (cases "map_of (co_peers c) a")
  case (Some p)
  have "backlog_sum c d = unat (pe_backlog p d) + (\<Sum>(b, q)\<leftarrow>AList.delete a (co_peers c). unat (pe_backlog q d))" for d
    unfolding backlog_sum_def using assms Some by (intro sum_delete) (simp_all add: gauge_ok_def)
  with assms Some show ?thesis
    by (simp add: gauge_ok_def remove_peer_def backlog_sum_def unat_sat_sub distinct_delete)
qed (use assms in \<open>simp add: remove_peer_def\<close>)

lemma gauge_remove_peers: "gauge_ok c \<Longrightarrow> gauge_ok (fold remove_peer as c)"
  by (induction as arbitrary: c) (auto simp: gauge_remove_peer)

lemma gauge_same:
  "gauge_ok c \<Longrightarrow> map fst (co_peers c') = map fst (co_peers c) \<Longrightarrow>
     (\<And>d. backlog_sum c' d = backlog_sum c d) \<Longrightarrow> co_backlog c' = co_backlog c \<Longrightarrow> gauge_ok c'"
  by (simp add: gauge_ok_def)

lemma gauge_put_link:
  assumes "gauge_ok c"
  shows "gauge_ok (put_link (a, l) c)"
proof (cases l)
  case None
  then show ?thesis using gauge_remove_peer [OF assms] by (simp add: put_link_def)
next
  case (Some l)
  then show ?thesis
    by (intro gauge_same [OF assms])
      (simp_all add: put_link_def map_entry_keys backlog_sum_def sum_map_entry)
qed

lemma gauge_put_links: "gauge_ok c \<Longrightarrow> gauge_ok (fold put_link ls c)"
  by (induction ls arbitrary: c) (auto simp: gauge_put_link)

lemma gauge_sweep: "gauge_ok c \<Longrightarrow> gauge_ok (sweep now c)"
  using gauge_remove_peers [of "c\<lparr> co_last_sweep := Some now \<rparr>"]
  by (simp add: sweep_def Let_def gauge_ok_def backlog_sum_def)

lemma gauge_update_peer:
  assumes "gauge_ok c" "\<forall>d. pe_backlog p d = (case map_of (co_peers c) a of Some q \<Rightarrow> pe_backlog q d | None \<Rightarrow> 0)"
  shows "gauge_ok (c\<lparr> co_peers := AList.update a p (co_peers c) \<rparr>)"
proof -
  have "backlog_sum (c\<lparr> co_peers := AList.update a p (co_peers c) \<rparr>) d = backlog_sum c d" for d
    using sum_update [of "co_peers c" "\<lambda>q. unat (pe_backlog q d)" a p] assms
    by (cases "map_of (co_peers c) a") (simp_all add: backlog_sum_def gauge_ok_def)
  with assms(1) show ?thesis by (simp add: gauge_ok_def distinct_update)
qed

section \<open>The gauge in a run\<close>

lemma gauge_detached: "gauge_ok (ih_core detached)"
  by (simp add: gauge_ok_def detached_def core_default_def backlog_sum_def)

lemma gauge_touch: "gauge_ok c \<Longrightarrow> gauge_ok (c\<lparr> co_overrides := ov \<rparr>)"
  by (rule gauge_same) (simp_all add: backlog_sum_def)

lemma gauge_next_ordinal: "gauge_ok c \<Longrightarrow> gauge_ok (c\<lparr> co_next_ordinal := n \<rparr>)"
  by (rule gauge_same) (simp_all add: backlog_sum_def)

lemma gauge_profile: "gauge_ok c \<Longrightarrow> gauge_ok (c\<lparr> co_profile := p \<rparr>)"
  by (rule gauge_same) (simp_all add: backlog_sum_def)

lemma gauge_logs: "gauge_ok c \<Longrightarrow> gauge_ok (c\<lparr> co_logs := ls \<rparr>)"
  by (rule gauge_same) (simp_all add: backlog_sum_def)

text \<open>What \<open>core_link\<close> leaves: the peer seen again, the table swept only, or a peer of its own.\<close>

lemma core_link_cases:
  assumes "core_link addr now origin c = (q, c')"
  obtains (known) p where "map_of (co_peers (sweep now c)) addr = Some p"
      "q = Some (p\<lparr> pe_last_seen := now \<rparr>)"
      "c' = (touch addr now (sweep now c))\<lparr> co_peers :=
        AList.update addr (p\<lparr> pe_last_seen := now \<rparr>) (co_peers (sweep now c)) \<rparr>"
  | (none) "map_of (co_peers (sweep now c)) addr = None" "q = None" "c' = touch addr now (sweep now c)"
  | (fresh) p n where "map_of (co_peers (sweep now c)) addr = None" "q = Some p"
      "pe_backlog p = (\<lambda>_. 0)" "pe_last_seen p = now"
      "c' = (touch addr now (sweep now c))\<lparr> co_next_ordinal := n, co_peers :=
        AList.update addr p (co_peers (sweep now c)) \<rparr>"
proof -
  let ?c1 = "touch addr now (sweep now c)"
  have run: "(q, c') = (case map_of (co_peers ?c1) addr of
      Some p \<Rightarrow> (Some (p\<lparr> pe_last_seen := now \<rparr>),
        ?c1\<lparr> co_peers := AList.update addr (p\<lparr> pe_last_seen := now \<rparr>) (co_peers ?c1) \<rparr>)
    | None \<Rightarrow> (case profile_for ?c1 addr (co_next_ordinal ?c1) of
        None \<Rightarrow> (None, ?c1)
      | Some (profile, seed, own) \<Rightarrow> (case link_build profile seed own origin of
          Inl _ \<Rightarrow> (None, ?c1)
        | Inr link \<Rightarrow>
            (let p = \<lparr> pe_ordinal = (if own then None else Some (co_next_ordinal ?c1)), pe_link = link,
                       pe_last_seen = now, pe_stats = stats_default, pe_backlog = (\<lambda>_. 0) \<rparr>
             in (Some p, ?c1\<lparr> co_next_ordinal := (if own then co_next_ordinal ?c1 else co_next_ordinal ?c1 + 1),
                  co_peers := AList.update addr p (co_peers ?c1) \<rparr>)))))"
    using assms [symmetric] unfolding core_link_def Let_def touch_def [symmetric] by simp
  show thesis
  proof (cases "map_of (co_peers (sweep now c)) addr")
    case (Some p)
    then show ?thesis using run by (intro known) (simp_all add: touch_fields)
  next
    case no: None
    show ?thesis
    proof (cases "profile_for ?c1 addr (co_next_ordinal ?c1)")
      case None
      then show ?thesis using run no by (intro none) (simp_all add: touch_fields)
    next
      case (Some psw)
      obtain profile seed own where psw: "psw = (profile, seed, own)" by (metis surj_pair)
      show ?thesis
      proof (cases "link_build profile seed own origin")
        case (Inl err)
        then show ?thesis using run no Some psw by (intro none) (simp_all add: touch_fields)
      next
        case (Inr link)
        then show ?thesis using run no Some psw by (intro fresh) (simp_all add: touch_fields Let_def)
      qed
    qed
  qed
qed

lemma gauge_core_link:
  assumes g: "gauge_ok c" and run: "core_link addr now origin c = (q, c')"
  shows "gauge_ok c'"
proof -
  have g1: "gauge_ok (touch addr now (sweep now c))"
    by (simp add: touch_def gauge_touch gauge_sweep g)
  from run show ?thesis
  proof (cases rule: core_link_cases)
    case (known p)
    then show ?thesis
      using gauge_update_peer [OF g1, of "p\<lparr> pe_last_seen := now \<rparr>" addr] by (simp add: touch_fields)
  next
    case (fresh p n)
    then show ?thesis
      using gauge_update_peer [OF gauge_next_ordinal [OF g1, of n], of p addr] by (simp add: touch_fields)
  qed (use g1 in simp)
qed

lemma gauge_arm: "gauge_ok (ih_core h) \<Longrightarrow> gauge_ok (ih_core (snd (arm profile origins h)))"
  by (simp add: arm_def gauge_profile gauge_put_links split: sum.split)

lemma gauge_disarm: "gauge_ok (ih_core h) \<Longrightarrow> gauge_ok (ih_core (disarm h))"
  by (simp add: disarm_def Let_def gauge_profile gauge_remove_peers)

lemma gauge_arm_peer:
  assumes "gauge_ok (ih_core h)"
  shows "gauge_ok (ih_core (snd (arm_peer addr profile origin now h)))"
proof -
  let ?c = "(ih_core h)\<lparr> co_overrides :=
    AList.update addr (OverrideArmed profile, now) (co_overrides (ih_core h)) \<rparr>"
  have "gauge_ok (?c\<lparr> co_peers := AList.update addr (case map_of (co_peers ?c) addr of
      Some p \<Rightarrow> p\<lparr> pe_link := link, pe_last_seen := now \<rparr>
    | None \<Rightarrow> \<lparr> pe_ordinal = None, pe_link = link, pe_last_seen = now, pe_stats = stats_default,
        pe_backlog = (\<lambda>_. 0) \<rparr>) (co_peers ?c) \<rparr>)" for link
    by (rule gauge_update_peer [OF gauge_touch [OF assms]]) (simp split: option.split)
  then show ?thesis using assms by (simp add: arm_peer_def Let_def split: sum.split)
qed

lemma gauge_disarm_peer: "gauge_ok (ih_core h) \<Longrightarrow> gauge_ok (ih_core (disarm_peer addr now h))"
  by (simp add: disarm_peer_def Let_def gauge_touch gauge_remove_peer)

lemma gauge_clear_peer: "gauge_ok (ih_core h) \<Longrightarrow> gauge_ok (ih_core (clear_peer addr h))"
  by (simp add: clear_peer_def Let_def gauge_touch gauge_remove_peer)

lemma gauge_reseed:
  assumes "gauge_ok (ih_core h)"
  shows "gauge_ok (ih_core (handle_reseed s h))"
proof -
  have "pe_backlog (reseed_peer s p) = pe_backlog p" for p
    by (simp add: reseed_peer_def Let_def)
  then have "gauge_ok ((ih_core h)\<lparr> co_profile := q,
      co_peers := map (\<lambda>(a, p). (a, reseed_peer s p)) (co_peers (ih_core h)) \<rparr>)" for q
    by (intro gauge_same [OF assms]) (simp_all add: backlog_sum_def o_def split_def)
  then show ?thesis using assms by (simp add: handle_reseed_def Let_def split: option.split)
qed

lemma gauge_overflow:
  assumes "gauge_ok (ih_core h)"
  shows "gauge_ok (ih_core (handle_ingress_overflow addr h))"
  unfolding handle_ingress_overflow_def Let_def
  by (simp, rule gauge_same [OF assms]) (simp_all add: map_entry_keys backlog_sum_def sum_map_entry)

lemma record_decision_backlog:
  "record_decision dir wire d s = Some s' \<Longrightarrow> sa_backlog s' dir = de_queue_backlog_bytes d"
  by (auto simp: record_decision_def Let_def bind_eq_Some_conv)

text \<open>A decision moves the gauge by what it moves the peer's own backlog, and the shared counters show it.\<close>

lemma gauge_decide:
  assumes ok: "handle_ok h" and g: "gauge_ok (ih_core h)"
    and run: "handle_decide tabs addr dir wire tick now origin h = Some (r, h')"
    and fit: "backlog_sum (ih_core h') dir < 2 ^ 64"
  shows "gauge_ok (ih_core h')" "r = None \<or> sa_backlog (ih_stats h') dir = co_backlog (ih_core h') dir"
proof -
  have "gauge_ok (ih_core h') \<and> (r = None \<or> sa_backlog (ih_stats h') dir = co_backlog (ih_core h') dir)"
    using ok
  proof (cases rule: handle_decide_cases [where tabs = tabs and addr = addr and dir = dir and wire = wire
      and tick = tick and now = now and origin = origin])
    case (untouched c)
    then show ?thesis using run gauge_core_link [OF g untouched(1)] by simp
  next
    case (decided p c d e st shared)
    have "core_ok (ih_core h)" using ok by (simp add: handle_ok_def)
    note at = core_link_ok(2) [OF this decided(1)]
    have gc: "gauge_ok c" using gauge_core_link [OF g decided(1)] .
    define p' where "p' = p\<lparr> pe_link := set_engine dir e ((pe_link p)\<lparr>
         ln_seq := (ln_seq (pe_link p))(dir := ln_seq (pe_link p) dir + 1) \<rparr>),
       pe_stats := st, pe_backlog := (pe_backlog p)(dir := de_queue_backlog_bytes d) \<rparr>"
    let ?g = "sat_add (sat_sub (co_backlog c dir) (pe_backlog p dir)) (de_queue_backlog_bytes d)"
    let ?logs = "if ih_recording h
      then AList.update addr (log_push dir (ln_seq (pe_link p) dir) wire tick d (log_at c addr)) (co_logs c)
      else co_logs c"
    define c' where "c' = c\<lparr> co_peers := AList.update addr p' (co_peers c),
      co_backlog := (co_backlog c)(dir := ?g), co_logs := ?logs \<rparr>"
    have h': "h' = h\<lparr> ih_core := c', ih_stats := shared \<rparr>" "r = Some d"
      using run decided(9) [folded p'_def, folded c'_def] by simp_all
    have sum: "backlog_sum c' d' + unat (pe_backlog p d') = backlog_sum c d' + unat (pe_backlog p' d')" for d'
      using sum_update [of "co_peers c" "\<lambda>q. unat (pe_backlog q d')" addr p'] gc at
      by (simp add: backlog_sum_def c'_def gauge_ok_def)
    have "unat (co_backlog c' d') = backlog_sum c' d'" for d'
    proof (cases "d' = dir")
      case True
      have "unat (co_backlog c' dir) = min (backlog_sum c dir - unat (pe_backlog p dir)
          + unat (de_queue_backlog_bytes d)) (2 ^ 64 - 1)"
        using gc by (simp add: c'_def gauge_ok_def unat_sat_add unat_sat_sub)
      moreover have "unat (pe_backlog p dir) \<le> backlog_sum c dir"
      proof -
        have "distinct (map fst (co_peers c))" using gc by (simp add: gauge_ok_def)
        from sum_delete [OF this at, of "\<lambda>q. unat (pe_backlog q dir)"]
        show ?thesis by (simp add: backlog_sum_def)
      qed
      ultimately show ?thesis using sum [of dir] fit True h' by (simp add: p'_def)
    next
      case False
      then show ?thesis using sum [of d'] gc by (simp add: c'_def gauge_ok_def p'_def)
    qed
    then have "gauge_ok c'" using gc by (simp add: gauge_ok_def c'_def distinct_update)
    moreover have "sa_backlog shared dir = co_backlog c' dir"
      using record_decision_backlog [OF decided(8)] by (simp add: c'_def)
    ultimately show ?thesis using h' by simp
  qed
  then show "gauge_ok (ih_core h')" "r = None \<or> sa_backlog (ih_stats h') dir = co_backlog (ih_core h') dir"
    by blast+
qed

lemma control_step_gauge:
  assumes "handle_ok h" "gauge_ok (ih_core h)" "control_step tabs op h = Some h'" "fits h'"
  shows "gauge_ok (ih_core h')"
proof (cases op)
  case (OpBegin addr now origin)
  obtain q c where c: "core_link addr now origin (ih_core h) = (q, c)" by fastforce
  have "ih_core (snd (begin_peer addr now origin h)) = c"
    by (simp add: begin_peer_def c Let_def split: option.split)
  then show ?thesis using OpBegin assms(3) gauge_core_link [OF assms(2) c] by auto
next
  case (OpDecide addr dir wire tick now origin)
  then obtain r where "handle_decide tabs addr dir wire tick now origin h = Some (r, h')"
    using assms(3) by auto
  moreover have "backlog_sum (ih_core h') dir < 2 ^ 64"
    using assms(4) unfolding fits_def by blast
  ultimately show ?thesis using gauge_decide(1) [OF assms(1,2)] by blast
next
  case (OpTakeLog addr)
  then show ?thesis using assms(2,3) by (auto simp: take_log_def Let_def gauge_logs)
next
  case OpTakeLogs
  then show ?thesis using assms(2,3) by (auto simp: take_logs_def Let_def gauge_logs)
next
  case (OpTimeout t)
  have "gauge_ok ((ih_core h)\<lparr> co_idle_timeout := t \<rparr>)"
    by (rule gauge_same [OF assms(2)]) (simp_all add: backlog_sum_def)
  then show ?thesis using OpTimeout assms(3) by (auto simp: set_peer_idle_timeout_def)
qed (use assms(2,3) in \<open>auto simp: gauge_arm gauge_disarm gauge_arm_peer gauge_disarm_peer gauge_clear_peer
    gauge_reseed gauge_overflow record_decisions_def handle_record_release_def\<close>)

lemma reaches_gauge: "reaches tabs fits h \<Longrightarrow> gauge_ok (ih_core h)"
proof (induction rule: reaches.induct)
  case (step h op h')
  then show ?case using control_step_gauge [OF reaches_ok] by blast
qed (rule gauge_detached)

section \<open>One peer and the others\<close>

text \<open>The operations that may change the link of a peer other than by forgetting an idle one.\<close>

fun concerns :: "control_op \<Rightarrow> socket_addr \<Rightarrow> bool" where
  "concerns (OpArm profile origins) b = True"
| "concerns OpDisarm b = True"
| "concerns (OpReseed s) b = True"
| "concerns (OpArmPeer a profile origin now) b \<longleftrightarrow> a = b"
| "concerns (OpDisarmPeer a now) b \<longleftrightarrow> a = b"
| "concerns (OpClearPeer a) b \<longleftrightarrow> a = b"
| "concerns (OpBegin a now origin) b \<longleftrightarrow> a = b"
| "concerns (OpDecide a dir wire tick now origin) b \<longleftrightarrow> a = b"
| "concerns (OpOverflow a) b \<longleftrightarrow> a = b"
| "concerns _ b = False"

definition peer_at :: "impair_handle \<Rightarrow> socket_addr \<Rightarrow> peer option" where
  "peer_at h b = map_of (co_peers (ih_core h)) b"

text \<open>A peer silent for the idle timeout, at the instant of an operation that sweeps.\<close>

definition idle_at :: "instant \<Rightarrow> core \<Rightarrow> socket_addr \<Rightarrow> bool" where
  "idle_at now c b =
     (case map_of (co_peers c) b of
        None \<Rightarrow> False
      | Some p \<Rightarrow> now - pe_last_seen p \<ge> co_idle_timeout c)"

definition forgets :: "control_op \<Rightarrow> impair_handle \<Rightarrow> socket_addr \<Rightarrow> bool" where
  "forgets op h b =
     (case op of
        OpBegin a now origin \<Rightarrow> idle_at now (ih_core h) b
      | OpDecide a dir wire tick now origin \<Rightarrow> idle_at now (ih_core h) b
      | _ \<Rightarrow> False)"

lemma sweep_peer:
  assumes "core_ok c"
  shows "map_of (co_peers (sweep now c)) b = map_of (co_peers c) b
    \<or> (map_of (co_peers (sweep now c)) b = None \<and> idle_at now c b)"
proof (cases "sweep now c = c")
  case False
  note sweep_fields(1) [OF assms this]
  then show ?thesis by (simp add: idle_at_def split: option.split)
qed simp

lemma core_link_others:
  assumes "core_ok c" "core_link addr now origin c = (q, c')" "addr \<noteq> b"
  shows "map_of (co_peers c') b = map_of (co_peers c) b
    \<or> (map_of (co_peers c') b = None \<and> idle_at now c b)"
  using assms(2)
proof (cases rule: core_link_cases)
qed (use sweep_peer [OF assms(1), of now b] assms(3) in \<open>simp_all add: touch_fields update_conv'\<close>)

lemma unconcerned:
  assumes ok: "handle_ok h" and run: "control_step tabs op h = Some h'" "\<not> concerns op b"
  shows "peer_at h' b = peer_at h b \<or> (peer_at h' b = None \<and> forgets op h b)"
proof (cases op)
  case (OpBegin a now origin)
  obtain q c where c: "core_link a now origin (ih_core h) = (q, c)" by fastforce
  have "ih_core (snd (begin_peer a now origin h)) = c"
    by (simp add: begin_peer_def c Let_def split: option.split)
  moreover have "core_ok (ih_core h)" using ok by (simp add: handle_ok_def)
  note core_link_others [OF this c, of b]
  ultimately show ?thesis using OpBegin run by (auto simp: peer_at_def forgets_def)
next
  case (OpDecide a dir wire tick now origin)
  have c_ok: "core_ok (ih_core h)" using ok by (simp add: handle_ok_def)
  from ok show ?thesis
  proof (cases rule: handle_decide_cases [where tabs = tabs and addr = a and dir = dir and wire = wire
      and tick = tick and now = now and origin = origin])
    case (untouched c)
    then show ?thesis
      using OpDecide run core_link_others [OF c_ok untouched(1), of b] by (auto simp: peer_at_def forgets_def)
  next
    case (decided p c d e st shared)
    then show ?thesis
      using OpDecide run core_link_others [OF c_ok decided(1), of b]
      by (auto simp: peer_at_def forgets_def update_conv')
  qed
qed (use assms in \<open>auto simp: peer_at_def arm_peer_def disarm_peer_def clear_peer_def Let_def update_conv'
    remove_peer_fields set_peer_idle_timeout_def record_decisions_def take_log_def take_logs_def
    handle_record_release_def handle_ingress_overflow_def map_of_map_entry split: sum.splits option.splits\<close>)

text \<open>A run of operations, and what one that does not concern a peer leaves of it.\<close>

fun control_run :: "dist_tables \<Rightarrow> control_op list \<Rightarrow> impair_handle \<Rightarrow> impair_handle option" where
  "control_run tabs [] h = Some h"
| "control_run tabs (op # ops) h = Option.bind (control_step tabs op h) (control_run tabs ops)"

lemma control_run_ok:
  "handle_ok h \<Longrightarrow> \<exists>h'. control_run tabs ops h = Some h' \<and> handle_ok h'"
proof (induction ops arbitrary: h)
  case (Cons op ops)
  then show ?case using control_step_ok [OF Cons.prems, of tabs op] by auto
qed simp

lemma unconcerned_run:
  assumes "handle_ok h" "control_run tabs ops h = Some h'" "list_all (\<lambda>op. \<not> concerns op b) ops"
    and "peer_at h' b = Some q"
  shows "peer_at h b = Some q"
  using assms
proof (induction ops arbitrary: h)
  case (Cons op ops)
  from Cons.prems(2) obtain h1 where h1: "control_step tabs op h = Some h1" "control_run tabs ops h1 = Some h'"
    by (auto simp: bind_eq_Some_conv)
  have "handle_ok h1" using control_step_ok [OF Cons.prems(1), of tabs op] h1(1) by auto
  from Cons.IH [OF this h1(2)] Cons.prems(3,4) have "peer_at h1 b = Some q" by simp
  with unconcerned [OF Cons.prems(1) h1(1), of b] Cons.prems(3) show ?case by auto
qed simp

text \<open>A live peer's next decision is its own engine's.\<close>

lemma decide_known:
  assumes ok: "handle_ok h" and p: "peer_at h b = Some q" and live: "\<not> idle_at now (ih_core h) b"
  shows "\<exists>d e h'. decide tabs (ln_seq (pe_link q) dir) wire tick (link_engine dir (pe_link q)) = Some (d, e)
    \<and> handle_decide tabs b dir wire tick now origin h = Some (Some d, h')"
proof -
  have c_ok: "core_ok (ih_core h)" using ok by (simp add: handle_ok_def)
  from sweep_peer [OF this, of now b] p live have sw: "map_of (co_peers (sweep now (ih_core h))) b = Some q"
    by (simp add: peer_at_def)
  from ok show ?thesis
  proof (cases rule: handle_decide_cases [where tabs = tabs and addr = b and dir = dir and wire = wire
      and tick = tick and now = now and origin = origin])
    case (untouched c)
    from untouched(1) show ?thesis by (cases rule: core_link_cases) (use sw in simp_all)
  next
    case (decided p c d e st shared)
    from decided(1) have "p = q\<lparr> pe_last_seen := now \<rparr>"
      by (cases rule: core_link_cases) (use sw in simp_all)
    then show ?thesis using decided(2,9) by auto
  qed
qed

end
