(* ===== verification/Netem_Control_Properties.thy ===== *)
theory Netem_Control_Properties
  imports Netem_Properties Netem_Control_Run
begin

text \<open>The properties of the emulator's control surface, its counters and its log.\<close>

section \<open>A run to speak of\<close>

text \<open>A detached handle, one peer armed on its own with a preset.\<close>

definition lone_peer :: socket_addr where
  "lone_peer = SocketV4 0x7F000001 4433"

definition armed_lone :: "preset \<Rightarrow> impair_handle" where
  "armed_lone p = snd (arm_peer lone_peer (preset_profile p) 0 0 detached)"

lemma armed_lone_reached:
  "reaches tabs (\<lambda>_. True) (armed_lone p)"
  by (rule reaches.step [OF reaches.fresh, where op = "OpArmPeer lone_peer (preset_profile p) 0 0"])
    (simp_all add: armed_lone_def)

lemma armed_lone_fields:
  obtains q l where "co_peers (ih_core (armed_lone p)) = [(lone_peer, q)]"
    "link_build (preset_profile p) (ip_seed (preset_profile p)) True 0 = Inr l"
    "q = \<lparr> pe_ordinal = None, pe_link = l, pe_last_seen = 0, pe_stats = stats_default, pe_backlog = (\<lambda>_. 0) \<rparr>"
    "co_idle_timeout (ih_core (armed_lone p)) = DEFAULT_PEER_IDLE_TIMEOUT"
    "co_overrides (ih_core (armed_lone p)) = [(lone_peer, OverrideArmed (preset_profile p), 0)]"
proof -
  obtain l where l: "link_build (preset_profile p) (ip_seed (preset_profile p)) True 0 = Inr l"
    using link_build_valid [OF presets_validate] by blast
  show thesis
    by (rule that [OF _ l refl])
      (simp_all add: armed_lone_def arm_peer_def presets_validate l Let_def detached_def core_default_def)
qed

lemma armed_lone_live:
  "\<exists>q. peer_at (armed_lone p) lone_peer = Some q" "\<not> idle_at 5 (ih_core (armed_lone p)) lone_peer"
proof -
  obtain q l where f: "co_peers (ih_core (armed_lone p)) = [(lone_peer, q)]"
    "q = \<lparr> pe_ordinal = None, pe_link = l, pe_last_seen = 0, pe_stats = stats_default, pe_backlog = (\<lambda>_. 0) \<rparr>"
    "co_idle_timeout (ih_core (armed_lone p)) = DEFAULT_PEER_IDLE_TIMEOUT"
    by (rule armed_lone_fields)
  then show "\<exists>q. peer_at (armed_lone p) lone_peer = Some q" by (simp add: peer_at_def)
  show "\<not> idle_at 5 (ih_core (armed_lone p)) lone_peer"
    using f by (simp add: idle_at_def DEFAULT_PEER_IDLE_TIMEOUT_def)
qed

section \<open>Links and settings\<close>

text \<open>C29. Whatever operations are called on a handle and in whatever order, every live link runs, in
  both directions and with the queue bounds that go with it, exactly the profile its address's
  settings call for (its own, or the socket's when the filter admits it), which is valid; both its engines
  draw from the seed those settings call for, built or last reseeded with it: the profile's on a link of
  its own, the socket's mixed with the peer's ordinal on one it inherits; its counters account for every
  datagram; and no two inherited links draw from the same seed.\<close>

theorem links_run_policy:
  assumes "reaches tabs Q h" "peer_at h a = Some p" "co_next_ordinal (ih_core h) \<le> 2 ^ 64"
  shows "(\<exists>prof. called_for (ih_core h) a = Some prof \<and> runs_profile prof (pe_link p)
        \<and> validate_profile prof = Inr () \<and> link_seeded (seed_for prof p) (pe_link p))
    \<and> conserved (pe_stats p) \<and> conserved (ih_stats h)
    \<and> (\<forall>b r prof. b \<noteq> a \<and> peer_at h b = Some r \<and> \<not> ln_own (pe_link p) \<and> \<not> ln_own (pe_link r)
         \<longrightarrow> seed_for prof p \<noteq> seed_for prof r)"
proof -
  have ok: "core_ok (ih_core h)" "conserved (ih_stats h)"
    using reaches_ok [OF assms(1)] by (simp_all add: handle_ok_def)
  let ?P = "map_of (co_peers (ih_core h))"
  have "counts_ok ?P" and o': "ordinals_ok ?P (co_next_ordinal (ih_core h))"
    using ok(1) by (simp_all add: core_ok_def)
  have at: "?P a = Some p" using assms(2) by (simp add: peer_at_def)
  have "seed_for prof p \<noteq> seed_for prof r"
    if b: "b \<noteq> a" "?P b = Some r" "\<not> ln_own (pe_link p)" "\<not> ln_own (pe_link r)" for b r prof
  proof -
    obtain m n where mn: "pe_ordinal p = Some m" "pe_ordinal r = Some n"
      using inherited_ordinal [OF ok(1) at b(3)] inherited_ordinal [OF ok(1) b(2,4)] by blast
    then have "m < co_next_ordinal (ih_core h)" "n < co_next_ordinal (ih_core h)" "m \<noteq> n"
      using o' at b(1,2) unfolding ordinals_ok_def by metis+
    then have "(of_nat m :: u64) \<noteq> of_nat n"
      using assms(3) by (simp add: word_of_nat_eq_iff take_bit_nat_eq_self)
    then show ?thesis using b(3,4) mn by (simp add: seed_for_def peer_seed_inj)
  qed
  with policy_called_for [OF ok(1) at] \<open>counts_ok ?P\<close> at ok(2) show ?thesis
    by (auto simp: counts_ok_def peer_at_def)
qed

theorem links_run_policy_witness:
  "\<exists>q. peer_at (armed_lone Wifi) lone_peer = Some q \<and> runs_profile (preset_profile Wifi) (pe_link q)
     \<and> link_seeded (ip_seed (preset_profile Wifi)) (pe_link q) \<and> conserved (pe_stats q)"
proof -
  obtain q where q: "peer_at (armed_lone Wifi) lone_peer = Some q" using armed_lone_live by blast
  have "co_next_ordinal (ih_core (armed_lone Wifi)) = 0"
    by (simp add: armed_lone_def arm_peer_def detached_def core_default_def Let_def split: sum.split)
  moreover have "called_for (ih_core (armed_lone Wifi)) lone_peer = Some (preset_profile Wifi)"
    by (rule armed_lone_fields [of Wifi]) (simp add: called_for_def)
  moreover have "ln_own (pe_link q)"
    using q by (rule_tac armed_lone_fields [of Wifi]) (auto simp: peer_at_def dest: link_build_runs)
  ultimately show ?thesis
    using links_run_policy [OF armed_lone_reached [of flat_tables] q] q by (auto simp: seed_for_def)
qed

text \<open>C32. Every call is answered: no run of operations panics, a profile is armed exactly when it is
  valid and a refusal leaves the handle as it was, and a datagram is given a decision exactly when
  the settings call for a profile at its address.\<close>

theorem control_answers:
  assumes "reaches tabs Q h"
  shows "(\<exists>h'. control_run tabs ops h = Some h')
    \<and> (fst (arm prof origins h) = Inr () \<longleftrightarrow> validate_profile prof = Inr ())
    \<and> (fst (arm prof origins h) = Inr () \<or> snd (arm prof origins h) = h)
    \<and> (\<exists>r h'. handle_decide tabs addr dir wire tick now origin h = Some (r, h')
         \<and> (r = None \<longleftrightarrow> called_for (ih_core h') addr = None))"
proof -
  have ok: "handle_ok h" using reaches_ok [OF assms] .
  obtain r h' where a: "arm prof origins h = (r, h')" by fastforce
  show ?thesis
    using control_run_ok [OF ok, of tabs ops] arm_ok(2,3) [OF ok a]
      handle_decide_ok [OF ok, of tabs addr dir wire tick now origin] a by auto
qed

theorem control_answers_witness:
  "\<exists>h'. control_run flat_tables [OpTimeout 7, OpDecide lone_peer Uplink 1200 5 5 0, OpDisarm] (armed_lone Lte) = Some h'"
  using control_answers [OF armed_lone_reached] by blast

section \<open>One peer and the others\<close>

text \<open>C30. Peers do not disturb each other: whatever is done about other peers, a live link is as it
  was, and its next datagram is given the decision it would have been given without them.\<close>

theorem peers_isolated:
  assumes "reaches tabs Q h" "control_run tabs ops h = Some h'"
    and "list_all (\<lambda>op. \<not> concerns op b) ops" "peer_at h' b = Some q"
    and "\<not> idle_at now (ih_core h) b" "\<not> idle_at now (ih_core h') b"
  shows "peer_at h b = Some q
    \<and> (\<exists>d h1 h1'. handle_decide tabs b dir wire tick now origin h = Some (Some d, h1)
        \<and> handle_decide tabs b dir wire tick now origin' h' = Some (Some d, h1'))"
proof -
  have ok: "handle_ok h" using reaches_ok [OF assms(1)] .
  with control_run_ok [of h tabs ops] assms(2) have ok': "handle_ok h'" by auto
  have at: "peer_at h b = Some q" using unconcerned_run [OF ok assms(2-4)] .
  show ?thesis
    using at decide_known [OF ok at assms(5), of tabs dir wire tick origin]
      decide_known [OF ok' assms(4,6), of tabs dir wire tick origin'] by auto
qed

theorem peers_isolated_witness:
  "\<exists>h' d h1 h1'. control_run flat_tables [OpDisarmPeer (SocketV4 9 9) 3, OpTakeLogs] (armed_lone Wifi) = Some h'
     \<and> handle_decide flat_tables lone_peer Uplink 1200 5 5 0 (armed_lone Wifi) = Some (Some d, h1)
     \<and> handle_decide flat_tables lone_peer Uplink 1200 5 5 0 h' = Some (Some d, h1')"
proof -
  let ?h = "armed_lone Wifi" and ?ops = "[OpDisarmPeer (SocketV4 9 9) 3, OpTakeLogs]"
  obtain q where q: "peer_at ?h lone_peer = Some q" using armed_lone_live by blast
  obtain h' where h': "control_run flat_tables ?ops ?h = Some h'"
    "co_peers (ih_core h') = co_peers (remove_peer (SocketV4 9 9) (ih_core ?h))"
    "co_idle_timeout (ih_core h') = co_idle_timeout (ih_core ?h)"
    by (simp add: disarm_peer_def take_logs_def Let_def remove_peer_def split: option.split)
  have "map_of (co_peers (ih_core h')) lone_peer = map_of (co_peers (ih_core ?h)) lone_peer"
    by (simp add: h'(2) remove_peer_fields lone_peer_def)
  then have "peer_at h' lone_peer = Some q" "\<not> idle_at 5 (ih_core h') lone_peer"
    using q armed_lone_live(2) [of Wifi] h'(3) by (simp_all add: peer_at_def idle_at_def)
  with peers_isolated [OF armed_lone_reached h'(1) _ _ armed_lone_live(2), where q = q and dir = Uplink and wire = 1200
      and tick = 5 and origin = 0 and origin' = 0] h'(1)
  show ?thesis by (auto simp: lone_peer_def)
qed

section \<open>The gauge\<close>

text \<open>C31. The queue gauge of the socket is exact: in every run whose backlogs together fit 64 bits,
  the shared count kept for a direction is the sum of what the live peers have queued, however
  peers come, go, are armed anew or swept, and after a datagram is decided the shared counters show it.\<close>

theorem gauge_is_sum:
  assumes "reaches tabs fits h"
    and "handle_decide tabs addr dir wire tick now origin h = Some (Some d, h')" "fits h'"
  shows "unat (co_backlog (ih_core h) e) = backlog_sum (ih_core h) e
    \<and> unat (co_backlog (ih_core h') e) = backlog_sum (ih_core h') e
    \<and> unat (sa_backlog (ih_stats h') dir) = backlog_sum (ih_core h') dir"
proof -
  have g: "gauge_ok (ih_core h)" using reaches_gauge [OF assms(1)] .
  have "backlog_sum (ih_core h') dir < 2 ^ 64" using assms(3) unfolding fits_def by blast
  from gauge_decide [OF reaches_ok [OF assms(1)] g assms(2) this] g show ?thesis
    by (simp add: gauge_ok_def)
qed

lemma lone_fits: "length (co_peers (ih_core h)) \<le> 1 \<Longrightarrow> fits h"
proof -
  assume "length (co_peers (ih_core h)) \<le> 1"
  then consider "co_peers (ih_core h) = []" | a p where "co_peers (ih_core h) = [(a, p)]"
    by (cases "co_peers (ih_core h)") auto
  then show "fits h" by cases (simp_all add: fits_def backlog_sum_def unsigned_less [of "_ :: u64", simplified])
qed

lemma others_absent:
  assumes ok: "handle_ok h" and run: "control_step tabs op h = Some h'"
    and other: "\<forall>b. b = a \<or> (\<not> concerns op b \<and> peer_at h b = None)"
  shows "length (co_peers (ih_core h')) \<le> 1"
proof -
  have "handle_ok h'" using control_step_ok [OF ok, of tabs op] run by auto
  then have "distinct (map fst (co_peers (ih_core h')))" by (simp add: handle_ok_def core_ok_def)
  then have "length (co_peers (ih_core h')) = card (set (map fst (co_peers (ih_core h'))))"
    using distinct_card by fastforce
  moreover have "set (map fst (co_peers (ih_core h'))) \<subseteq> {a}"
  proof
    fix b assume "b \<in> set (map fst (co_peers (ih_core h')))"
    then have "peer_at h' b \<noteq> None" by (simp add: peer_at_def map_of_eq_None_iff)
    with unconcerned [OF ok run, of b] other show "b \<in> {a}" by (metis insertI1)
  qed
  ultimately show ?thesis using card_mono [of "{a}" "set (map fst (co_peers (ih_core h')))"] by simp
qed

theorem gauge_is_sum_witness:
  "\<exists>d h'. handle_decide flat_tables lone_peer Uplink 1200 5 5 0 (armed_lone Lte) = Some (Some d, h')
     \<and> unat (sa_backlog (ih_stats h') Uplink) = backlog_sum (ih_core h') Uplink"
proof -
  let ?h = "armed_lone Lte"
  have r: "reaches flat_tables fits ?h"
    by (rule reaches.step [OF reaches.fresh, where op = "OpArmPeer lone_peer (preset_profile Lte) 0 0"])
      (simp_all add: armed_lone_def [symmetric], rule lone_fits, rule armed_lone_fields [of Lte], simp)
  obtain q where q: "peer_at ?h lone_peer = Some q" using armed_lone_live by blast
  from decide_known [OF reaches_ok [OF r] q armed_lone_live(2), of flat_tables Uplink 1200 5 0] obtain d h'
    where d: "handle_decide flat_tables lone_peer Uplink 1200 5 5 0 ?h = Some (Some d, h')" by blast
  have "fits h'"
  proof (rule lone_fits)
    have "control_step flat_tables (OpDecide lone_peer Uplink 1200 5 5 0) ?h = Some h'" by (simp add: d)
    from others_absent [OF reaches_ok [OF r] this] show "length (co_peers (ih_core h')) \<le> 1"
      by (rule armed_lone_fields [of Lte]) (simp add: peer_at_def)
  qed
  from gauge_is_sum [OF r d this] d show ?thesis by blast
qed

section \<open>Counters and log\<close>

text \<open>The live counters agree with the engine's own: a run of an engine recorded datagram by
  datagram into fresh counters never panics, and its snapshot is the one the engine keeps for
  itself.\<close>

theorem counters_agree_with_engine:
  assumes "impairer_new p seed d = Inr e" "decide_run tabs sq arrivals e = Some (ds, e')"
  shows "\<exists>s. record_run dir arrivals ds stats_default = Some s \<and> snapshot s = impairer_stats e'"
  using assms by (rule run_snapshot)

theorem counters_agree_with_engine_witness:
  "\<exists>e ds e' s. impairer_new (ip_uplink (preset_profile Wifi)) 3 Uplink = Inr e
     \<and> decide_run flat_tables 0 [(1200, 5), (300, 9)] e = Some (ds, e')
     \<and> record_run Uplink [(1200, 5), (300, 9)] ds stats_default = Some s \<and> snapshot s = impairer_stats e'"
proof -
  have "validate_direction (ip_uplink (preset_profile Wifi)) = Inr ()"
    using presets_validate [of Wifi] by (simp add: validate_profile_ok validate_direction_ok)
  then obtain e where e: "impairer_new (ip_uplink (preset_profile Wifi)) 3 Uplink = Inr e"
    by (simp add: impairer_new_def)
  obtain ds e' where r: "decide_run flat_tables 0 [(1200, 5), (300, 9)] e = Some (ds, e')"
    using decide_run_ok [OF impairer_new_ok [OF e], of flat_tables 0 "[(1200, 5), (300, 9)]"] by auto
  from counters_agree_with_engine [OF e r, of Uplink] e r show ?thesis by blast
qed

definition checked_out :: "bool \<Rightarrow> string \<Rightarrow> string" where
  "checked_out windows str = (if windows then crlf str else str)"

text \<open>C37. The text of a log is faithful: the records of an engine's run determine its decisions, and the
  comparison with a fixture succeeds exactly when the fixture is the text of that very log, whichever
  line endings the fixture was checked out with.\<close>

theorem log_text_faithful:
  assumes "impairer_new p seed d = Inr e" "decide_run tabs sq arrivals e = Some (ds, e')"
    and "list_all (\<lambda>d. de_duplicate d \<noteq> Some (- 1)) ds"
  shows "map decision_of (log_run dir sq arrivals ds []) = ds
    \<and> (diff_fixture (log_run dir sq arrivals ds []) (checked_out windows (render log)) = Inr ()
        \<longleftrightarrow> log_run dir sq arrivals ds [] = log)"
proof -
  have "engine_run_ok arrivals ds"
    using decide_run_ok [OF impairer_new_ok [OF assms(1)], of tabs sq arrivals] assms(2) by auto
  with decisions_of_log_run [OF this assms(3), of dir sq "[]"] show ?thesis
    by (simp add: checked_out_def diff_fixture_crlf diff_fixture_render)
qed

text \<open>One datagram let through, one dropped by the pattern, one too large.\<close>

theorem log_text_faithful_witness:
  "let p = DirectionProfile None None (Some (PatternLoss [1])) None None None (Some 1400) [] [];
       arrivals = [(1200, 5), (1200, 6), (1500, 9)]
   in \<exists>e ds e'. impairer_new p 3 Uplink = Inr e \<and> decide_run flat_tables 0 arrivals e = Some (ds, e')
     \<and> map de_cause ds = [NotDropped, Loss, Mtu]
     \<and> map decision_of (log_run Uplink 0 arrivals ds []) = ds
     \<and> diff_fixture (log_run Uplink 0 arrivals ds [])
         (crlf (render (log_run Uplink 0 arrivals ds []))) = Inr ()"
proof -
  let ?p = "DirectionProfile None None (Some (PatternLoss [1])) None None None (Some 1400) [] []"
  let ?as = "[(1200, 5), (1200, 6), (1500, 9)] :: (u32 \<times> tick) list"
  have "validate_direction ?p = Inr ()"
    by (simp add: validate_direction_ok direction_ok_def models_ok_def)
  then obtain e where e: "impairer_new ?p 3 Uplink = Inr e" by (simp add: impairer_new_def)
  then have f: "im_profile e = ?p"
    by (auto simp: impairer_new_def and_then_eq_Inr normalise_patterns_def normalise_models_def normalise_loss_def)
  obtain ds e' where r: "decide_run flat_tables 0 ?as e = Some (ds, e')"
    and c: "map de_cause ds = [NotDropped, Loss, Mtu]" "list_all (\<lambda>d. de_duplicate d \<noteq> Some (- 1)) ds"
    by (simp add: decide_def f active_profile_def loss_stage_def rate_stage_def forward_stage_def delay_stage_def
      reorder_stage_def dup_stage_def corrupt_stage_def finish_drop_def finish_def count_verdict_def dropped_def Let_def)
  from log_text_faithful [OF e r c(2), where dir = Uplink and windows = True] e r c(1) show ?thesis
    unfolding Let_def checked_out_def by auto
qed

end
