(* ===== verification/Shape_Matcher.thy ===== *)
theory Shape_Matcher
  imports Netem_Base Draft_Version "HOL-Library.Product_Lexorder"
begin

text \<open>
  Which units a shaping rule claims (\<open>shape/matcher.rs\<close>), and the leaf types of the proxy it reads
  (\<open>types.rs\<close>). A range is the pair of its ends. The lemmas: a range set built from any ranges is in its
  normal form and holds exactly their values, two sets of the same values are the same list, and a
  matcher is inert exactly when no unit could be claimed by it.
\<close>

section \<open>The words of the proxy\<close>

datatype proxy_side = ClientToProxy | ProxyToRelay | RelayToProxy | ProxyToClient

datatype data_stream_type = StreamSubgroup | StreamFetch

datatype fetch_end_of_range = RangeNonExistent | RangeUnknown | RangeTimedOut

record object_meta =
  om_draft :: draft_version
  om_stream_kind :: data_stream_type
  om_track_alias :: "u64 option"
  om_group_id :: u64
  om_subgroup_id :: "u64 option"
  om_object_id :: u64
  om_publisher_priority :: "u8 option"
  om_index_in_stream :: u64
  om_payload_len :: u64
  om_status :: "u64 option"
  om_end_of_range :: "fetch_end_of_range option"

record datagram_meta =
  dg_track_alias :: u64
  dg_group_id :: u64
  dg_object_id :: u64
  dg_publisher_priority :: "u8 option"
  dg_status :: "u64 option"

section \<open>Range sets\<close>

type_synonym range = "u64 \<times> u64"
type_synonym range_set = "range list"

text \<open>One step of the merge; the merged ranges are kept with the last one first.\<close>

definition merge_range :: "range \<Rightarrow> range list \<Rightarrow> range list" where
  "merge_range r merged =
     (case merged of
        (s, e) # before \<Rightarrow>
          if fst r \<le> sat_add e 1 then (if snd r > e then (s, snd r) # before else merged)
          else r # merged
      | [] \<Rightarrow> [r])"

definition range_set_new :: "range list \<Rightarrow> range_set" where
  "range_set_new ranges =
     rev (fold merge_range (sort (filter (\<lambda>(s, e). s \<le> e) ranges)) [])"

definition range_set_single :: "u64 \<Rightarrow> range_set" where
  "range_set_single v = [(v, v)]"

datatype ordering = Less | Equal | Greater

text \<open>The standard library's search of a slice: whether it finds an element.\<close>

fun binary_search_by :: "('a \<Rightarrow> ordering) \<Rightarrow> 'a list \<Rightarrow> bool" where
  "binary_search_by cmp xs =
     (if xs = [] then False
      else let mid = length xs div 2
           in (case cmp (xs ! mid) of
                 Equal \<Rightarrow> True
               | Less \<Rightarrow> binary_search_by cmp (drop (mid + 1) xs)
               | Greater \<Rightarrow> binary_search_by cmp (take mid xs)))"

declare binary_search_by.simps [simp del]

definition range_contains :: "range_set \<Rightarrow> u64 \<Rightarrow> bool" where
  "range_contains rs v =
     binary_search_by (\<lambda>(s, e). if e < v then Less else if s > v then Greater else Equal) rs"

definition range_is_empty :: "range_set \<Rightarrow> bool" where
  "range_is_empty rs \<longleftrightarrow> rs = []"

section \<open>Matchers\<close>

datatype match_kind = MatchSubgroup | MatchFetch | MatchDatagram

datatype matcher_field = FieldTrackAlias | FieldSubgroupId | FieldPriority

definition field_bit :: "matcher_field \<Rightarrow> u8" where
  "field_bit f = (case f of FieldTrackAlias \<Rightarrow> 1 | FieldSubgroupId \<Rightarrow> 2 | FieldPriority \<Rightarrow> 4)"

record matcher =
  mt_side :: "proxy_side option"
  mt_track_alias :: "range_set option"
  mt_group_id :: "range_set option"
  mt_subgroup_id :: "range_set option"
  mt_object_id :: "range_set option"
  mt_priority :: "(u8 \<times> u8) option"
  mt_stream_kind :: "match_kind option"
  mt_every_nth :: "(u64 \<times> u64) option"

definition matcher_default :: matcher where
  "matcher_default =
     \<lparr> mt_side = None, mt_track_alias = None, mt_group_id = None, mt_subgroup_id = None,
       mt_object_id = None, mt_priority = None, mt_stream_kind = None, mt_every_nth = None \<rparr>"

record unit_keys =
  uk_track_alias :: "u64 option"
  uk_group_id :: u64
  uk_subgroup_id :: "u64 option"
  uk_object_id :: u64
  uk_priority :: "u8 option"

definition kind_of :: "data_stream_type \<Rightarrow> match_kind" where
  "kind_of k = (case k of StreamSubgroup \<Rightarrow> MatchSubgroup | StreamFetch \<Rightarrow> MatchFetch)"

text \<open>A key the wire did not carry never matches.\<close>

definition key_in :: "range_set option \<Rightarrow> u64 option \<Rightarrow> bool" where
  "key_in want key =
     (case want of
        None \<Rightarrow> True
      | Some rs \<Rightarrow> (case key of Some v \<Rightarrow> range_contains rs v | None \<Rightarrow> False))"

definition claims :: "matcher \<Rightarrow> proxy_side \<Rightarrow> match_kind \<Rightarrow> unit_keys \<Rightarrow> u64 \<Rightarrow> bool" where
  "claims m side kind keys unit_index \<longleftrightarrow>
     (case mt_side m of Some want \<Rightarrow> want = side | None \<Rightarrow> True)
     \<and> (case mt_stream_kind m of Some want \<Rightarrow> want = kind | None \<Rightarrow> True)
     \<and> key_in (mt_track_alias m) (uk_track_alias keys)
     \<and> key_in (mt_group_id m) (Some (uk_group_id keys))
     \<and> key_in (mt_subgroup_id m) (uk_subgroup_id keys)
     \<and> key_in (mt_object_id m) (Some (uk_object_id keys))
     \<and> (case mt_priority m of
          None \<Rightarrow> True
        | Some (lo, hi) \<Rightarrow> (case uk_priority keys of Some p \<Rightarrow> lo \<le> p \<and> p \<le> hi | None \<Rightarrow> False))
     \<and> (case mt_every_nth m of
          None \<Rightarrow> True
        | Some (n, offset) \<Rightarrow> n \<noteq> 0 \<and> unit_index mod n = offset mod n)"

definition matches :: "matcher \<Rightarrow> proxy_side \<Rightarrow> object_meta \<Rightarrow> u64 \<Rightarrow> bool" where
  "matches m side meta unit_index =
     claims m side (kind_of (om_stream_kind meta))
       \<lparr> uk_track_alias = om_track_alias meta, uk_group_id = om_group_id meta,
         uk_subgroup_id = om_subgroup_id meta, uk_object_id = om_object_id meta,
         uk_priority = om_publisher_priority meta \<rparr> unit_index"

definition matches_datagram :: "matcher \<Rightarrow> proxy_side \<Rightarrow> datagram_meta \<Rightarrow> u64 \<Rightarrow> bool" where
  "matches_datagram m side meta unit_index =
     claims m side MatchDatagram
       \<lparr> uk_track_alias = Some (dg_track_alias meta), uk_group_id = dg_group_id meta,
         uk_subgroup_id = None, uk_object_id = dg_object_id meta,
         uk_priority = dg_publisher_priority meta \<rparr> unit_index"

definition unmatchable_fields :: "matcher \<Rightarrow> object_meta \<Rightarrow> matcher_field option list" where
  "unmatchable_fields m meta =
     [(if mt_track_alias m \<noteq> None \<and> om_track_alias meta = None then Some FieldTrackAlias else None),
      (if mt_subgroup_id m \<noteq> None \<and> om_subgroup_id meta = None then Some FieldSubgroupId else None),
      (if mt_priority m \<noteq> None \<and> om_publisher_priority meta = None then Some FieldPriority else None)]"

definition unmatchable_fields_datagram ::
  "matcher \<Rightarrow> draft_version \<Rightarrow> datagram_meta \<Rightarrow> matcher_field option list" where
  "unmatchable_fields_datagram m draft meta =
     [None, None,
      (if mt_priority m \<noteq> None \<and> dg_publisher_priority meta = None then Some FieldPriority else None)]"

definition inert_key :: "matcher \<Rightarrow> string option" where
  "inert_key m =
     (let empty_set = (\<lambda>set. case set of Some rs \<Rightarrow> range_is_empty rs | None \<Rightarrow> False) in
      if empty_set (mt_track_alias m) then Some ''track_alias''
      else if empty_set (mt_group_id m) then Some ''group_id''
      else if empty_set (mt_subgroup_id m) then Some ''subgroup_id''
      else if empty_set (mt_object_id m) then Some ''object_id''
      else if (case mt_priority m of Some (lo, hi) \<Rightarrow> lo > hi | None \<Rightarrow> False) then Some ''priority''
      else if (case mt_every_nth m of Some (n, _) \<Rightarrow> n = 0 | None \<Rightarrow> False) then Some ''every_nth''
      else None)"

section \<open>Range sets hold the values of their ranges\<close>

definition holds :: "range list \<Rightarrow> u64 \<Rightarrow> bool" where
  "holds rs v \<longleftrightarrow> (\<exists>(s, e) \<in> set rs. s \<le> v \<and> v \<le> e)"

text \<open>The normal form: proper ranges, in order, with a gap between any two of them.\<close>

definition normal :: "range_set \<Rightarrow> bool" where
  "normal rs \<longleftrightarrow> list_all (\<lambda>(s, e). s \<le> e) rs
     \<and> sorted_wrt (\<lambda>(s, e) (s', e'). unat e + 1 < unat s') rs"

lemma sat_succ_le: "s \<le> sat_add e 1 \<longleftrightarrow> unat s \<le> unat e + 1" for s e :: u64
  using unat_le_max [of s] by (auto simp: word_le_nat_alt unat_sat_add)

text \<open>The merged ranges, last first, before a range that starts no earlier than any of them.\<close>

definition merged_ok :: "range list \<Rightarrow> bool" where
  "merged_ok rs \<longleftrightarrow> normal (rev rs)"

lemma normal_append:
  "normal (xs @ ys) \<longleftrightarrow> normal xs \<and> normal ys
     \<and> (\<forall>(s, e) \<in> set xs. \<forall>(s', e') \<in> set ys. unat e + 1 < unat s')"
  by (auto simp: normal_def sorted_wrt_append)

lemma merged_Cons:
  "merged_ok ((s, e) # rs) \<longleftrightarrow> s \<le> e \<and> merged_ok rs \<and> (\<forall>(s', e') \<in> set rs. unat e' + 1 < unat s)"
  by (auto simp: merged_ok_def normal_append) (auto simp: normal_def)

lemma merge_range_ok:
  assumes "merged_ok rs" "fst r \<le> snd r" "\<forall>(s, e) \<in> set rs. s \<le> fst r"
  shows "merged_ok (merge_range r rs) \<and> (holds (merge_range r rs) v \<longleftrightarrow> holds rs v \<or> fst r \<le> v \<and> v \<le> snd r)
    \<and> (\<forall>(s, e) \<in> set (merge_range r rs). s \<le> fst r)"
proof (cases rs)
  case Nil
  then show ?thesis using assms by (cases r) (simp add: merge_range_def merged_Cons merged_ok_def normal_def holds_def)
next
  case (Cons se before)
  obtain s e where se: "se = (s, e)" by fastforce
  obtain a b where r: "r = (a, b)" by fastforce
  have ok: "s \<le> e" "merged_ok before" "\<forall>(s', e') \<in> set before. unat e' + 1 < unat s" "s \<le> a" "a \<le> b"
    using assms by (auto simp: Cons se r merged_Cons)
  show ?thesis
  proof (cases "a \<le> sat_add e 1")
    case True
    then have near: "unat a \<le> unat e + 1" by (simp add: sat_succ_le)
    show ?thesis
    proof (cases "b > e")
      case b: True
      have "(s \<le> v \<and> v \<le> b) \<longleftrightarrow> (s \<le> v \<and> v \<le> e) \<or> (a \<le> v \<and> v \<le> b)"
        using near ok(4) b by (auto simp: word_le_nat_alt word_less_nat_alt)
      then show ?thesis
        using ok b True assms(3) by (auto simp: merge_range_def Cons se r merged_Cons holds_def)
    next
      case False
      then have "a \<le> v \<and> v \<le> b \<Longrightarrow> s \<le> v \<and> v \<le> e" using ok(4) by auto
      then show ?thesis
        using False True assms by (auto simp: merge_range_def Cons se r holds_def)
    qed
  next
    case False
    then have far: "unat e + 1 < unat a" by (simp add: sat_succ_le not_le)
    have "\<forall>(s', e') \<in> set before. unat e' + 1 < unat a"
      using ok(1,3,4) by (force simp: word_le_nat_alt)
    then show ?thesis
      using False far ok assms(3) by (auto simp: merge_range_def Cons se r merged_Cons holds_def)
  qed
qed

lemma fold_merge:
  assumes "sorted rs" "list_all (\<lambda>(s, e). s \<le> e) rs" "merged_ok acc"
    and "\<forall>(s, e) \<in> set acc. \<forall>(s', e') \<in> set rs. s \<le> s'"
  shows "merged_ok (fold merge_range rs acc)
    \<and> (holds (fold merge_range rs acc) v \<longleftrightarrow> holds acc v \<or> holds rs v)"
  using assms
proof (induction rs arbitrary: acc)
  case Nil
  then show ?case by (simp add: holds_def)
next
  case (Cons r rs)
  obtain a b where r: "r = (a, b)" by fastforce
  have "\<forall>(s, e) \<in> set acc. s \<le> fst r" "fst r \<le> snd r" using Cons.prems by (auto simp: r)
  note m = merge_range_ok [OF Cons.prems(3) this(2,1)]
  have "\<forall>(s', e') \<in> set rs. a \<le> s'" using Cons.prems(1) by (auto simp: r less_eq_prod_def)
  with m have "\<forall>(s, e) \<in> set (merge_range r acc). \<forall>(s', e') \<in> set rs. s \<le> s'"
    by (fastforce simp: r)
  from Cons.IH [OF _ _ _ this] Cons.prems m show ?case
    by (auto simp: holds_def r)
qed

lemma range_set_new_ok:
  "normal (range_set_new ranges)" "holds (range_set_new ranges) v \<longleftrightarrow> holds ranges v"
proof -
  let ?rs = "sort (filter (\<lambda>(s, e). s \<le> e) ranges)"
  have f: "merged_ok (fold merge_range ?rs []) \<and> (holds (fold merge_range ?rs []) v \<longleftrightarrow> holds [] v \<or> holds ?rs v)" for v
    by (rule fold_merge) (auto simp: list_all_iff merged_ok_def normal_def)
  then show "normal (range_set_new ranges)" by (simp add: merged_ok_def range_set_new_def)
  have "holds ?rs v \<longleftrightarrow> holds ranges v"
    by (auto simp: holds_def) (meson order_trans)
  with f show "holds (range_set_new ranges) v \<longleftrightarrow> holds ranges v"
    by (simp add: range_set_new_def holds_def)
qed

text \<open>The binary search finds a value of a set in normal form.\<close>

lemma list_at_mid:
  assumes "xs \<noteq> []"
  shows "xs = take (length xs div 2) xs @ xs ! (length xs div 2) # drop (length xs div 2 + 1) xs"
  using assms by (simp add: Cons_nth_drop_Suc id_take_nth_drop)

lemma range_contains_holds: "normal rs \<Longrightarrow> range_contains rs v \<longleftrightarrow> holds rs v"
  unfolding range_contains_def
proof (induction "\<lambda>(s, e). if e < v then Less else if s > v then Greater else Equal" rs
    rule: binary_search_by.induct)
  case (1 xs)
  let ?cmp = "\<lambda>(s, e). if e < v then Less else if s > v then Greater else Equal"
  show ?case
  proof (cases "xs = []")
    case True
    then show ?thesis by (simp add: binary_search_by.simps holds_def)
  next
    case False
    define l where "l = take (length xs div 2) xs"
    define r where "r = drop (length xs div 2 + 1) xs"
    obtain s e where m: "xs ! (length xs div 2) = (s, e)" by fastforce
    have xs: "xs = l @ (s, e) # r" using list_at_mid [OF False] by (simp add: m l_def r_def)
    from "1.prems" have n: "normal l" "normal r" "s \<le> e"
      "\<forall>(s', e') \<in> set l. unat e' + 1 < unat s" "\<forall>(s', e') \<in> set r. unat e + 1 < unat s'"
      unfolding xs by (auto simp: normal_append) (auto simp: normal_def)
    have hd: "holds xs v \<longleftrightarrow> holds l v \<or> (s \<le> v \<and> v \<le> e) \<or> holds r v"
      unfolding xs by (auto simp: holds_def)
    have step: "binary_search_by ?cmp xs = (case ?cmp (s, e) of Equal \<Rightarrow> True
        | Less \<Rightarrow> binary_search_by ?cmp r | Greater \<Rightarrow> binary_search_by ?cmp l)"
      using False by (subst binary_search_by.simps) (simp add: m l_def r_def)
    consider "e < v" | "\<not> e < v" "v < s" | "\<not> e < v" "\<not> v < s" by blast
    then show ?thesis
    proof cases
      case 1
      then have "\<not> holds l v" using n(3,4)
        by (force simp: holds_def word_le_nat_alt word_less_nat_alt)
      moreover have "binary_search_by ?cmp r = holds r v"
        using "1.hyps"(1) [OF False refl] 1 n(2) m by (simp add: r_def)
      ultimately show ?thesis using 1 step hd by auto
    next
      case 2
      then have "\<not> holds r v" using n(3,5)
        by (force simp: holds_def word_le_nat_alt word_less_nat_alt)
      moreover have "binary_search_by ?cmp l = holds l v"
        using "1.hyps"(2) [OF False refl] 2 n(1) m by (simp add: l_def)
      ultimately show ?thesis using 2 step hd by auto
    next
      case 3
      then show ?thesis using step hd by auto
    qed
  qed
qed

text \<open>Two sets that hold the same values are the same list.\<close>

lemma normal_Cons:
  "normal ((s, e) # rs) \<longleftrightarrow> s \<le> e \<and> normal rs \<and> (\<forall>(s', e') \<in> set rs. unat e + 1 < unat s')"
  by (auto simp: normal_def)

lemma holds_Cons: "holds ((s, e) # rs) v \<longleftrightarrow> (s \<le> v \<and> v \<le> e) \<or> holds rs v"
  by (auto simp: holds_def)

lemma holds_later: "\<forall>(s', e') \<in> set rs. n < unat s' \<Longrightarrow> holds rs v \<Longrightarrow> n < unat v"
  by (fastforce simp: holds_def word_le_nat_alt)

lemma normal_first_le:
  assumes "normal ((s, e) # rs)" "holds ((s, e) # rs) v"
  shows "s \<le> v"
proof (cases "holds rs v")
  case True
  have "unat e + 1 < unat v" by (rule holds_later [OF _ True]) (use assms(1) in \<open>simp add: normal_Cons\<close>)
  with assms(1) show ?thesis by (simp add: normal_Cons word_le_nat_alt)
qed (use assms(2) in \<open>simp add: holds_Cons\<close>)

lemma normal_end_le:
  assumes "normal ((s, e) # rs)" "normal ((s, e') # rs')"
    and "\<And>v. holds ((s, e) # rs) v \<Longrightarrow> holds ((s, e') # rs') v"
  shows "e \<le> e'"
proof (rule ccontr)
  assume "\<not> e \<le> e'"
  then have lt: "unat e' < unat e" by (simp add: word_le_nat_alt)
  have nx: "unat (e' + 1) = unat e' + 1"
    using lt unat_lt2p [of e] by (simp add: unat_plus)
  have "s \<le> e'" using assms(2) by (simp add: normal_Cons)
  then have "s \<le> e' + 1 \<and> e' + 1 \<le> e" using lt nx by (simp add: word_le_nat_alt)
  then have "holds ((s, e') # rs') (e' + 1)" using assms(3) [of "e' + 1"] by (simp add: holds_Cons)
  moreover have "\<not> e' + 1 \<le> e'" using nx by (simp add: word_le_nat_alt)
  ultimately have "holds rs' (e' + 1)" by (simp add: holds_Cons)
  then have "unat e' + 1 < unat (e' + 1)"
    by (rule holds_later [rotated]) (use assms(2) in \<open>simp add: normal_Cons\<close>)
  then show False using nx by simp
qed

lemma normal_unique:
  "normal rs \<Longrightarrow> normal rs' \<Longrightarrow> (\<And>v. holds rs v \<longleftrightarrow> holds rs' v) \<Longrightarrow> rs = rs'"
proof (induction rs arbitrary: rs')
  case Nil
  have "\<not> holds rs' v" for v using Nil(3) [of v] by (simp add: holds_def)
  then show ?case using Nil(2) by (cases rs') (auto simp: normal_Cons holds_Cons)
next
  case (Cons r rs)
  obtain s e where r: "r = (s, e)" by fastforce
  have "holds (r # rs) s" using Cons.prems(1) by (simp add: r normal_Cons holds_Cons)
  then obtain s' e' rest where rs': "rs' = (s', e') # rest"
    using Cons.prems(3) by (cases rs') (auto simp: holds_def)
  have "holds rs' s'" using Cons.prems(2) by (simp add: rs' normal_Cons holds_Cons)
  then have "s = s'"
    using normal_first_le Cons.prems \<open>holds (r # rs) s\<close> unfolding r rs' by (metis order_antisym)
  moreover have "e = e'"
    using normal_end_le Cons.prems unfolding r rs' \<open>s = s'\<close> by (metis order_antisym)
  moreover have "rs = rest"
  proof (rule Cons.IH)
    show "normal rs" "normal rest" using Cons.prems(1,2) by (simp_all add: r rs' normal_Cons)
    have later: "holds xs v \<Longrightarrow> \<not> v \<le> e" if "normal ((s, e) # xs)" for xs v
      using holds_later [of xs "unat e + 1" v] that by (auto simp: normal_Cons word_le_nat_alt)
    show "holds rs v \<longleftrightarrow> holds rest v" for v
      using Cons.prems(3) [of v] later Cons.prems(1,2)
      unfolding r rs' \<open>s = s'\<close> \<open>e = e'\<close> by (auto simp: holds_Cons)
  qed
  ultimately show ?case by (simp add: r rs')
qed

lemma range_set_new_eq:
  "range_set_new rs = range_set_new rs' \<longleftrightarrow> (\<forall>v. holds rs v \<longleftrightarrow> holds rs' v)"
  using normal_unique [of "range_set_new rs" "range_set_new rs'"] range_set_new_ok by metis

section \<open>Inert matchers\<close>

text \<open>The ranges of a matcher come from the constructors.\<close>

definition matcher_ok :: "matcher \<Rightarrow> bool" where
  "matcher_ok m \<longleftrightarrow> (\<forall>rs. Some rs \<in> {mt_track_alias m, mt_group_id m, mt_subgroup_id m, mt_object_id m} \<longrightarrow> normal rs)"

lemma normal_inhabited: "normal rs \<Longrightarrow> (\<exists>v. range_contains rs v) \<longleftrightarrow> \<not> range_is_empty rs"
  by (cases rs) (auto simp: range_contains_holds range_is_empty_def normal_Cons holds_Cons holds_def)

lemma key_in_inhabited:
  assumes "\<And>rs. want = Some rs \<Longrightarrow> normal rs"
  shows "(\<exists>v. key_in want (Some v)) \<longleftrightarrow> \<not> (case want of Some rs \<Rightarrow> range_is_empty rs | None \<Rightarrow> False)"
  using assms normal_inhabited by (cases want) (simp_all add: key_in_def)

lemma key_in_some: "key_in want key \<Longrightarrow> \<exists>v. key_in want (Some v)"
  by (cases key) (auto simp: key_in_def split: option.splits)

lemma inert_iff:
  assumes "matcher_ok m"
  shows "inert_key m = None \<longleftrightarrow> (\<exists>side kind keys unit_index. claims m side kind keys unit_index)"
proof -
  let ?empty = "\<lambda>want. case want of Some rs \<Rightarrow> range_is_empty rs | None \<Rightarrow> False"
  have n: "want \<in> {mt_track_alias m, mt_group_id m, mt_subgroup_id m, mt_object_id m} \<Longrightarrow>
      (\<exists>v. key_in want (Some v)) \<longleftrightarrow> \<not> ?empty want" for want
    by (rule key_in_inhabited) (use assms in \<open>auto simp: matcher_ok_def\<close>)
  have inert: "inert_key m = None \<longleftrightarrow> \<not> ?empty (mt_track_alias m) \<and> \<not> ?empty (mt_group_id m)
      \<and> \<not> ?empty (mt_subgroup_id m) \<and> \<not> ?empty (mt_object_id m)
      \<and> (case mt_priority m of Some (lo, hi) \<Rightarrow> lo \<le> hi | None \<Rightarrow> True)
      \<and> (case mt_every_nth m of Some (n, _) \<Rightarrow> n \<noteq> 0 | None \<Rightarrow> True)"
  proof -
    have "(case mt_priority m of Some (lo, hi) \<Rightarrow> lo \<le> hi | None \<Rightarrow> True)
        \<longleftrightarrow> \<not> (case mt_priority m of Some (lo, hi) \<Rightarrow> hi < lo | None \<Rightarrow> False)"
      "(case mt_every_nth m of Some (n, _) \<Rightarrow> n \<noteq> 0 | None \<Rightarrow> True)
        \<longleftrightarrow> \<not> (case mt_every_nth m of Some (n, _) \<Rightarrow> n = 0 | None \<Rightarrow> False)"
      by (simp_all add: not_less split: option.split prod.split)
    moreover have "(if a then Some x else y) = None \<longleftrightarrow> \<not> a \<and> y = None" for a and x :: string and y
      by simp
    ultimately show ?thesis unfolding inert_key_def Let_def by (simp only: simp_thms)
  qed
  show ?thesis
  proof
    assume "inert_key m = None"
    note i = this [unfolded inert]
    obtain a g b obj where keys: "key_in (mt_track_alias m) (Some a)" "key_in (mt_group_id m) (Some g)"
        "key_in (mt_subgroup_id m) (Some b)" "key_in (mt_object_id m) (Some obj)"
      using i n [of "mt_track_alias m"] n [of "mt_group_id m"] n [of "mt_subgroup_id m"] n [of "mt_object_id m"]
      by auto
    obtain p where p: "case mt_priority m of Some (lo, hi) \<Rightarrow> lo \<le> p \<and> p \<le> hi | None \<Rightarrow> True"
      using i by (cases "mt_priority m") (auto intro: that)
    obtain u where u: "case mt_every_nth m of Some (n, offset) \<Rightarrow> n \<noteq> 0 \<and> u mod n = offset mod n | None \<Rightarrow> True"
      using i by (cases "mt_every_nth m") (auto intro: that)
    show "\<exists>side kind keys unit_index. claims m side kind keys unit_index"
    proof (intro exI)
      show "claims m (case mt_side m of Some s \<Rightarrow> s | None \<Rightarrow> ClientToProxy)
        (case mt_stream_kind m of Some k \<Rightarrow> k | None \<Rightarrow> MatchSubgroup)
        \<lparr> uk_track_alias = Some a, uk_group_id = g, uk_subgroup_id = Some b, uk_object_id = obj,
          uk_priority = Some p \<rparr> u"
        using keys p u by (simp add: claims_def split: option.splits prod.splits)
    qed
  next
    assume "\<exists>side kind keys unit_index. claims m side kind keys unit_index"
    then obtain side kind keys u where c: "claims m side kind keys u" by blast
    then have "\<not> ?empty (mt_track_alias m)" "\<not> ?empty (mt_group_id m)" "\<not> ?empty (mt_subgroup_id m)"
        "\<not> ?empty (mt_object_id m)"
      using n [of "mt_track_alias m"] n [of "mt_group_id m"] n [of "mt_subgroup_id m"] n [of "mt_object_id m"]
        key_in_some unfolding claims_def by simp_all blast+
    moreover have "case mt_priority m of Some (lo, hi) \<Rightarrow> lo \<le> hi | None \<Rightarrow> True"
        "case mt_every_nth m of Some (n, _) \<Rightarrow> n \<noteq> 0 | None \<Rightarrow> True"
      using c by (auto simp: claims_def split: option.splits)
    ultimately show "inert_key m = None" by (simp add: inert)
  qed
qed

end
