(* ===== verification/Shape_Bucket.thy ===== *)
theory Shape_Bucket
  imports Netem_Base
begin

text \<open>
  The shaper's token bucket (\<open>shape/bucket.rs\<close>). Tokens are nano-bytes in a \<open>u128\<close>, a \<open>nat\<close> here: no
  count leaves 128 bits within 584 years of elapsed time. An instant is a number of nanoseconds; the
  platform's \<open>checked_add\<close> answers none past the seconds of an \<open>i64\<close>. The lemmas: what a run of the
  bucket grants over any interval is at most a burst and what the rate allows, and a deferral names the
  first instant at which the tokens are there.
\<close>

type_synonym instant = nat

section \<open>The code\<close>

definition NANO_BYTES :: nat where
  "NANO_BYTES = 1000000000"

definition INSTANT_LIMIT :: nat where
  "INSTANT_LIMIT = 2 ^ 63 * 1000000000"

definition instant_checked_add :: "instant \<Rightarrow> nat \<Rightarrow> instant option" where
  "instant_checked_add at d = (if at + d < INSTANT_LIMIT then Some (at + d) else None)"

record bucket_config =
  bc_name :: string
  bc_rate_bps :: "u64 option"
  bc_burst_bytes :: u64
  bc_ceil_bps :: "u64 option"

definition bucket_config_default :: bucket_config where
  "bucket_config_default = \<lparr> bc_name = [], bc_rate_bps = None, bc_burst_bytes = 0, bc_ceil_bps = None \<rparr>"

record token_state =
  tk_tokens :: nat
  tk_last :: instant

definition token_state_new :: "u64 \<Rightarrow> instant \<Rightarrow> token_state" where
  "token_state_new burst_bytes now = \<lparr> tk_tokens = unat burst_bytes * NANO_BYTES, tk_last = now \<rparr>"

definition token_available :: "token_state \<Rightarrow> u64" where
  "token_available st =
     (let b = tk_tokens st div NANO_BYTES in if b < 2 ^ 64 then of_nat b else - 1)"

datatype token_grant = TokensNow | TokensLater instant | TokensNever | TokensLargerThanBurst u64 u64

definition token_refill :: "u64 \<Rightarrow> u64 \<Rightarrow> instant \<Rightarrow> token_state \<Rightarrow> token_state" where
  "token_refill rate burst_bytes now st =
     (let cap = unat burst_bytes * NANO_BYTES in
      if now > tk_last st
      then \<lparr> tk_tokens = min (tk_tokens st + (now - tk_last st) * unat rate) cap, tk_last = now \<rparr>
      else st\<lparr> tk_tokens := min (tk_tokens st) cap \<rparr>)"

definition ceiling_div :: "nat \<Rightarrow> nat \<Rightarrow> nat" where
  "ceiling_div a b = (a + b - 1) div b"

definition token_charge ::
  "token_state \<Rightarrow> u64 option \<Rightarrow> u64 \<Rightarrow> u64 \<Rightarrow> instant \<Rightarrow> token_grant \<times> token_state" where
  "token_charge st rate_bps burst_bytes bytes now =
     (case rate_bps of
        None \<Rightarrow> (TokensNow, st)
      | Some rate \<Rightarrow>
          (let st = token_refill rate burst_bytes now st;
               cap = unat burst_bytes * NANO_BYTES;
               need = unat bytes * NANO_BYTES
           in if tk_tokens st \<ge> need then (TokensNow, st\<lparr> tk_tokens := tk_tokens st - need \<rparr>)
              else if rate = 0 then (TokensNever, st)
              else if need > cap then (TokensLargerThanBurst burst_bytes bytes, st)
              else
                let deficit = need - tk_tokens st;
                    wait_nanos = ceiling_div deficit (unat rate)
                in (case (if wait_nanos < 2 ^ 64 then instant_checked_add (tk_last st) wait_nanos else None) of
                      Some at \<Rightarrow> (TokensLater at, st)
                    | None \<Rightarrow> (TokensNever, st))))"

section \<open>One charge\<close>

definition within_burst :: "u64 \<Rightarrow> token_state \<Rightarrow> bool" where
  "within_burst burst st \<longleftrightarrow> tk_tokens st \<le> unat burst * NANO_BYTES"

lemma token_state_new_within: "within_burst burst (token_state_new burst now)"
  by (simp add: within_burst_def token_state_new_def)

lemma token_refill_state:
  "tk_last (token_refill rate burst now st) = max (tk_last st) now"
  "within_burst burst (token_refill rate burst now st)"
  "tk_tokens (token_refill rate burst now st) \<le> tk_tokens st + (max (tk_last st) now - tk_last st) * unat rate"
  by (simp_all add: token_refill_def within_burst_def Let_def)

lemma token_refill_again:
  "token_refill rate burst now (token_refill rate burst now st) = token_refill rate burst now st"
  by (simp add: token_refill_def Let_def)

lemma token_refill_late:
  assumes "tk_last st \<le> t" "t \<le> now"
  shows "token_refill rate burst now (token_refill rate burst t st) = token_refill rate burst now st"
proof -
  let ?cap = "unat burst * NANO_BYTES" and ?r = "unat rate"
  have "min (min (x + (t - l) * ?r) ?cap + (now - t) * ?r) ?cap = min (x + (now - l) * ?r) ?cap"
    if "l \<le> t" for x l
  proof -
    have "(t - l) * ?r + (now - t) * ?r = (now - l) * ?r"
      using that assms(2) by (simp flip: add_mult_distrib)
    then show ?thesis by (simp add: min_def)
  qed
  note late = this
  show ?thesis
  proof (cases "tk_last st < t")
    case True
    then show ?thesis
      using late [of "tk_last st" "tk_tokens st"] assms
      by (cases "t = now") (simp_all add: token_refill_def Let_def)
  next
    case False
    with assms have "t = tk_last st" by simp
    then show ?thesis using late [of t "tk_tokens st"] assms(2) by (simp add: token_refill_def Let_def)
  qed
qed

lemma token_charge_refilled:
  "token_charge (token_refill rate burst now st) (Some rate) burst bytes now
     = token_charge st (Some rate) burst bytes now"
  by (simp add: token_charge_def token_refill_again)

text \<open>What is granted is paid for by the tokens held and those that accrue.\<close>

definition paid :: "token_grant \<Rightarrow> u64 \<Rightarrow> nat" where
  "paid g bytes = (if g = TokensNow then unat bytes else 0)"

lemma token_charge_state:
  assumes "token_charge st (Some rate) burst bytes now = (g, st')"
  shows "st' = (if g = TokensNow
      then (token_refill rate burst now st)\<lparr>
        tk_tokens := tk_tokens (token_refill rate burst now st) - unat bytes * NANO_BYTES \<rparr>
      else token_refill rate burst now st)"
    and "g = TokensNow \<longleftrightarrow> tk_tokens (token_refill rate burst now st) \<ge> unat bytes * NANO_BYTES"
  using assms by (auto simp: token_charge_def Let_def split: if_splits option.splits)

lemma token_charge_pays:
  assumes "token_charge st (Some rate) burst bytes now = (g, st')"
  shows "paid g bytes * NANO_BYTES + tk_tokens st' = tk_tokens (token_refill rate burst now st)"
    "within_burst burst st'" "tk_last st' = max (tk_last st) now"
proof -
  let ?st = "token_refill rate burst now st"
  note s = token_charge_state [OF assms]
  have w: "within_burst burst ?st" by (rule token_refill_state(2))
  show "paid g bytes * NANO_BYTES + tk_tokens st' = tk_tokens ?st"
    by (cases "g = TokensNow") (use s in \<open>simp_all add: paid_def\<close>)
  show "within_burst burst st'"
    by (cases "g = TokensNow") (use s w in \<open>simp_all add: within_burst_def\<close>)
  show "tk_last st' = max (tk_last st) now"
    by (cases "g = TokensNow") (use s in \<open>simp_all add: token_refill_state(1)\<close>)
qed

section \<open>A run\<close>

fun charge_run ::
  "u64 option \<Rightarrow> u64 \<Rightarrow> token_state \<Rightarrow> (u64 \<times> instant) list \<Rightarrow> (nat \<times> token_state)" where
  "charge_run rate burst st [] = (0, st)"
| "charge_run rate burst st ((bytes, now) # units) =
     (let (g, st) = token_charge st rate burst bytes now;
          (granted, st) = charge_run rate burst st units
      in (paid g bytes + granted, st))"

lemma charge_run_pays:
  assumes "charge_run (Some rate) burst st units = (granted, st')"
  shows "granted * NANO_BYTES + tk_tokens st' \<le> tk_tokens st + (tk_last st' - tk_last st) * unat rate
    \<and> tk_last st \<le> tk_last st' \<and> (within_burst burst st \<longrightarrow> within_burst burst st')"
  using assms
proof (induction units arbitrary: st granted)
  case (Cons u units)
  obtain bytes now where u: "u = (bytes, now)" by fastforce
  obtain g st1 where c: "token_charge st (Some rate) burst bytes now = (g, st1)" by fastforce
  obtain granted' where r: "charge_run (Some rate) burst st1 units = (granted', st')" "granted = paid g bytes + granted'"
    using Cons.prems by (auto simp: u c Let_def split: prod.splits)
  note p = token_charge_pays [OF c] and ih = Cons.IH [OF r(1)]
  have "tk_tokens (token_refill rate burst now st) \<le> tk_tokens st + (tk_last st1 - tk_last st) * unat rate"
    using token_refill_state(3) [of rate burst now st] by (simp add: p(3))
  then have "paid g bytes * NANO_BYTES + tk_tokens st1 \<le> tk_tokens st + (tk_last st1 - tk_last st) * unat rate"
    using p(1) by simp
  moreover have "(tk_last st' - tk_last st) * unat rate
      = (tk_last st' - tk_last st1) * unat rate + (tk_last st1 - tk_last st) * unat rate"
    using ih p(3) by (simp flip: add_mult_distrib)
  ultimately show ?case using ih p(2,3) by (auto simp: r(2) add_mult_distrib)
qed simp

lemma charge_run_append:
  "charge_run rate burst st (xs @ ys) =
     (let (a, st) = charge_run rate burst st xs; (b, st) = charge_run rate burst st ys in (a + b, st))"
  by (induction xs arbitrary: st) (auto simp: Let_def split: prod.splits)

lemma charge_run_last:
  "charge_run (Some rate) burst st units = (granted, st') \<Longrightarrow>
     tk_last st' = fold max (map snd units) (tk_last st)"
proof (induction units arbitrary: st granted)
  case (Cons u units)
  obtain bytes now where u: "u = (bytes, now)" by fastforce
  obtain g st1 where c: "token_charge st (Some rate) burst bytes now = (g, st1)" by fastforce
  obtain granted' where "charge_run (Some rate) burst st1 units = (granted', st')"
    using Cons.prems by (auto simp: u c Let_def split: prod.splits)
  from Cons.IH [OF this] show ?case using token_charge_pays(3) [OF c] by (simp add: u max.commute)
qed simp

lemma fold_max_last:
  "sorted (t # ts) \<Longrightarrow> fold max ts (t :: nat) = last (t # ts)"
  by (induction ts arbitrary: t) (auto simp: max.absorb2)

text \<open>Over the interval from the first charge of a run to its last.\<close>

lemma charge_run_interval:
  assumes "charge_run (Some rate) burst st ((b, t) # units) = (granted, st')"
    and "sorted (tk_last st # t # map snd units)"
  shows "granted * NANO_BYTES \<le> unat burst * NANO_BYTES + (last (t # map snd units) - t) * unat rate"
proof -
  let ?st = "token_refill rate burst t st"
  have t: "tk_last ?st = t" using assms(2) by (simp add: token_refill_state(1))
  have run: "charge_run (Some rate) burst ?st ((b, t) # units) = (granted, st')"
    using assms(1) by (simp add: token_charge_refilled)
  from charge_run_pays [OF run] have "granted * NANO_BYTES \<le> tk_tokens ?st + (tk_last st' - t) * unat rate"
    using t by simp
  moreover have "tk_last st' = last (t # map snd units)"
    using charge_run_last [OF run] t fold_max_last [of t "map snd units"] assms(2) by simp
  moreover have "tk_tokens ?st \<le> unat burst * NANO_BYTES"
    using token_refill_state(2) by (simp add: within_burst_def)
  ultimately show ?thesis by simp
qed

section \<open>Deferrals\<close>

lemma ceiling_div_le: "0 < b \<Longrightarrow> ceiling_div a b \<le> n \<longleftrightarrow> a \<le> n * b"
proof -
  assume b: "0 < b"
  have "ceiling_div a b \<le> n \<longleftrightarrow> (a + b - 1) div b < n + 1" by (auto simp: ceiling_div_def)
  also have "\<dots> \<longleftrightarrow> a + b - 1 < (n + 1) * b" using b by (simp add: div_less_iff_less_mult)
  finally show ?thesis using b by auto
qed

text \<open>The instant a deferral names is the first one at which the unit is granted.\<close>

lemma token_later_earliest:
  assumes "token_charge st (Some rate) burst bytes now = (TokensLater at, st')" "tk_last st \<le> now"
  shows "now < at \<and> (\<forall>t \<ge> now. fst (token_charge st' (Some rate) burst bytes t) = TokensNow \<longleftrightarrow> at \<le> t)"
proof -
  let ?st = "token_refill rate burst now st" and ?need = "unat bytes * NANO_BYTES"
  have st': "st' = ?st" using token_charge_state(1) [OF assms(1)] by simp
  have last: "tk_last ?st = now" using assms(2) by (simp add: token_refill_state(1))
  from assms(1) have c: "tk_tokens ?st < ?need" "0 < unat rate" "?need \<le> unat burst * NANO_BYTES"
    "at = now + ceiling_div (?need - tk_tokens ?st) (unat rate)"
    by (auto simp: token_charge_def Let_def instant_checked_add_def last word_neq_0_conv unat_gt_0
        split: if_splits option.splits)
  have grant: "fst (token_charge st' (Some rate) burst bytes t) = TokensNow \<longleftrightarrow> at \<le> t" if "now \<le> t" for t
  proof -
    obtain g st2 where g: "token_charge st' (Some rate) burst bytes t = (g, st2)" by fastforce
    have "tk_tokens (token_refill rate burst t ?st)
        = min (tk_tokens ?st + (t - now) * unat rate) (unat burst * NANO_BYTES)"
      using that last token_refill_state(2) [of burst rate now st]
      by (auto simp: token_refill_def [of rate burst t] Let_def within_burst_def)
    moreover have "at \<le> t \<longleftrightarrow> ?need - tk_tokens ?st \<le> (t - now) * unat rate"
      using ceiling_div_le [OF c(2)] that by (auto simp: c(4) simp flip: ceiling_div_le [OF c(2)])
    ultimately show ?thesis
      using token_charge_state(2) [OF g [unfolded st']] c(1,3) g by (auto simp: st')
  qed
  moreover have "now < at"
  proof -
    have "0 < ceiling_div (?need - tk_tokens ?st) (unat rate)"
      using ceiling_div_le [OF c(2), of "?need - tk_tokens ?st" 0] c(1) by simp
    then show ?thesis by (simp add: c(4))
  qed
  ultimately show ?thesis by blast
qed

end
