(* ===== verification/Shape_Profile.thy ===== *)
theory Shape_Profile
  imports Shape_Matcher Shape_Bucket
begin

text \<open>
  The configuration of a shaper (\<open>shape/mod.rs\<close>): classes over buckets, one queue policy, a discipline,
  and the constructor that refuses a profile that could not work. A duration is a number of
  nanoseconds. The lemmas say which profiles are accepted.
\<close>

datatype overflow = OverflowBlock | OverflowDropTail | OverflowResetStream u64

datatype expiry = ExpiryDeliver | ExpiryResetStream u64

datatype discipline = Fifo | StrictPriority | WeightedRoundRobin

record queue_config =
  qc_depth_bytes :: nat
  qc_depth_objects :: nat
  qc_max_hold :: "nat option"
  qc_overflow :: overflow
  qc_on_expiry :: expiry

definition queue_config_default :: queue_config where
  "queue_config_default =
     \<lparr> qc_depth_bytes = 1024 * 1024, qc_depth_objects = 256, qc_max_hold = None,
       qc_overflow = OverflowBlock, qc_on_expiry = ExpiryDeliver \<rparr>"

record class_rule =
  cr_name :: string
  cr_matcher :: matcher
  cr_bucket :: string
  cr_priority :: u8
  cr_weight :: u16

definition class_rule_default :: class_rule where
  "class_rule_default =
     \<lparr> cr_name = [], cr_matcher = matcher_default, cr_bucket = [], cr_priority = 0, cr_weight = 0 \<rparr>"

record shape_profile =
  sp_buckets :: "bucket_config list"
  sp_classes :: "class_rule list"
  sp_queue :: queue_config
  sp_discipline :: discipline

datatype shape_error =
    DuplicateClassName string
  | UnknownBucket string string
  | EgressSideInMatcher string
  | ZeroWeight string
  | EmptyQueue
  | NoClasses
  | InertMatcher string string

definition egress_side :: "proxy_side option \<Rightarrow> bool" where
  "egress_side s \<longleftrightarrow> (case s of Some ProxyToClient \<Rightarrow> True | Some ProxyToRelay \<Rightarrow> True | _ \<Rightarrow> False)"

text \<open>The loop over the classes, with the names seen so far.\<close>

fun check_classes ::
  "bucket_config list \<Rightarrow> discipline \<Rightarrow> string list \<Rightarrow> class_rule list \<Rightarrow> shape_error + unit" where
  "check_classes buckets disc seen [] = Inr ()"
| "check_classes buckets disc seen (c # cs) =
     (if cr_name c \<in> set seen then Inl (DuplicateClassName (cr_name c))
      else if \<not> list_ex (\<lambda>b. bc_name b = cr_bucket c) buckets
      then Inl (UnknownBucket (cr_name c) (cr_bucket c))
      else if egress_side (mt_side (cr_matcher c)) then Inl (EgressSideInMatcher (cr_name c))
      else if disc = WeightedRoundRobin \<and> cr_weight c = 0 then Inl (ZeroWeight (cr_name c))
      else (case inert_key (cr_matcher c) of
              Some key \<Rightarrow> Inl (InertMatcher (cr_name c) key)
            | None \<Rightarrow> check_classes buckets disc (cr_name c # seen) cs))"

definition shape_profile_try_new ::
  "bucket_config list \<Rightarrow> class_rule list \<Rightarrow> queue_config \<Rightarrow> discipline \<Rightarrow> shape_error + shape_profile" where
  "shape_profile_try_new buckets classes queue disc =
     (if qc_depth_bytes queue = 0 \<or> qc_depth_objects queue = 0 then Inl EmptyQueue
      else if classes = [] then Inl NoClasses
      else and_then (check_classes buckets disc [] classes) (\<lambda>_.
        Inr \<lparr> sp_buckets = buckets, sp_classes = classes, sp_queue = queue, sp_discipline = disc \<rparr>))"

section \<open>What is accepted\<close>

definition class_ok :: "bucket_config list \<Rightarrow> discipline \<Rightarrow> class_rule \<Rightarrow> bool" where
  "class_ok buckets disc c \<longleftrightarrow>
     (\<exists>b \<in> set buckets. bc_name b = cr_bucket c) \<and> \<not> egress_side (mt_side (cr_matcher c))
     \<and> (disc = WeightedRoundRobin \<longrightarrow> cr_weight c \<noteq> 0) \<and> inert_key (cr_matcher c) = None"

definition profile_ok :: "shape_profile \<Rightarrow> bool" where
  "profile_ok p \<longleftrightarrow> qc_depth_bytes (sp_queue p) \<noteq> 0 \<and> qc_depth_objects (sp_queue p) \<noteq> 0
     \<and> sp_classes p \<noteq> [] \<and> distinct (map cr_name (sp_classes p))
     \<and> list_all (class_ok (sp_buckets p) (sp_discipline p)) (sp_classes p)"

lemma check_classes_ok:
  "check_classes buckets disc seen cs = Inr () \<longleftrightarrow>
     distinct (map cr_name cs) \<and> (\<forall>c \<in> set cs. cr_name c \<notin> set seen) \<and> list_all (class_ok buckets disc) cs"
proof (induction cs arbitrary: seen)
  case (Cons c cs)
  have step: "check_classes buckets disc seen (c # cs) = Inr () \<longleftrightarrow>
      cr_name c \<notin> set seen \<and> class_ok buckets disc c \<and> check_classes buckets disc (cr_name c # seen) cs = Inr ()"
    by (auto simp: class_ok_def list_ex_iff split: option.splits)
  show ?case unfolding step Cons.IH
    by (simp add: image_iff ball_conj_distrib) metis
qed simp

lemma try_new_ok:
  "shape_profile_try_new buckets classes queue disc = Inr p \<longleftrightarrow>
     p = \<lparr> sp_buckets = buckets, sp_classes = classes, sp_queue = queue, sp_discipline = disc \<rparr> \<and> profile_ok p"
proof (cases "qc_depth_bytes queue = 0 \<or> qc_depth_objects queue = 0 \<or> classes = []")
  case True
  then show ?thesis by (auto simp: shape_profile_try_new_def profile_ok_def)
next
  case False
  then have "shape_profile_try_new buckets classes queue disc = Inr p \<longleftrightarrow> check_classes buckets disc [] classes = Inr ()
      \<and> p = \<lparr> sp_buckets = buckets, sp_classes = classes, sp_queue = queue, sp_discipline = disc \<rparr>"
    by (auto simp: shape_profile_try_new_def and_then_eq_Inr)
  then show ?thesis using False by (auto simp: check_classes_ok profile_ok_def)
qed

text \<open>A second bucket of one name is accepted, and no class can refer to it.\<close>

lemma duplicate_bucket_accepted:
  "profile_ok p \<Longrightarrow> profile_ok (p\<lparr> sp_buckets := sp_buckets p @ [b] \<rparr>)"
  by (auto simp: profile_ok_def class_ok_def list_all_iff)

end
