(* ===== verification/Shape_Scheduler.thy ===== *)
theory Shape_Scheduler
  imports Shape_Profile
begin

text \<open>
  The shaper a session's forwarding tasks share (\<open>shape/scheduler.rs\<close>): classification, admission and
  release. The state behind the lock and the report-once masks are fields of one record; a gate is its
  number, and the gates released so far are kept beside it. Demand counts the queues of a session, a
  \<open>nat\<close>; a \<open>usize\<close> is a \<open>nat\<close> below \<open>2 ^ 64\<close>.
\<close>

section \<open>The code\<close>

type_synonym gate = nat

datatype shape_class = RuleClass nat | DefaultClass | UnshapeableClass

datatype shape_admission = Admit | AdmitDropTail | AdmitResetStream u64

datatype acquire_answer =
    AcquireNow
  | AcquireLater instant
  | AcquireNever
  | AcquireLargerThanBurst u64 u64
  | AcquireStarved gate

record queue_depth =
  qd_bytes :: nat
  qd_objects :: nat

record scheduler =
  sc_profile :: shape_profile
  sc_unmatchable :: "u8 list"
  sc_burst_reported :: "bool list"
  sc_class_bucket :: "nat list"
  sc_buckets :: "token_state list"
  sc_demand :: "nat list"
  sc_credits :: "u32 list"
  sc_parked :: "gate option list"
  sc_enabled :: bool
  sc_gates :: nat
  sc_released :: "gate list"

fun position :: "('a \<Rightarrow> bool) \<Rightarrow> 'a list \<Rightarrow> nat option" where
  "position P [] = None"
| "position P (x # xs) = (if P x then Some 0 else map_option Suc (position P xs))"

definition sched_build :: "shape_profile \<Rightarrow> instant \<Rightarrow> bool \<Rightarrow> scheduler" where
  "sched_build p now enabled =
     \<lparr> sc_profile = p,
       sc_unmatchable = map (\<lambda>_. 0) (sp_classes p),
       sc_burst_reported = map (\<lambda>_. False) (sp_classes p),
       sc_class_bucket = map (\<lambda>c. case position (\<lambda>b. bc_name b = cr_bucket c) (sp_buckets p) of
           Some i \<Rightarrow> i | None \<Rightarrow> 0) (sp_classes p),
       sc_buckets = map (\<lambda>b. token_state_new (bc_burst_bytes b) now) (sp_buckets p),
       sc_demand = replicate (length (sp_classes p)) 0,
       sc_credits = map (\<lambda>c. ucast (cr_weight c)) (sp_classes p),
       sc_parked = map (\<lambda>_. None) (sp_classes p),
       sc_enabled = enabled, sc_gates = 0, sc_released = [] \<rparr>"

text \<open>The name of a class; \<open>None\<close> is the panic of an index out of bounds.\<close>

definition class_name :: "nat \<Rightarrow> scheduler \<Rightarrow> string option" where
  "class_name index s =
     (if index < length (sp_classes (sc_profile s))
      then Some (cr_name (sp_classes (sc_profile s) ! index)) else None)"

definition sched_max_hold :: "scheduler \<Rightarrow> nat option" where
  "sched_max_hold s = qc_max_hold (sp_queue (sc_profile s))"

definition sched_on_expiry :: "scheduler \<Rightarrow> expiry" where
  "sched_on_expiry s = qc_on_expiry (sp_queue (sc_profile s))"

definition blocking_depth :: "scheduler \<Rightarrow> queue_depth option" where
  "blocking_depth s =
     (let queue = sp_queue (sc_profile s) in
      case qc_overflow queue of
        OverflowBlock \<Rightarrow> Some \<lparr> qd_bytes = qc_depth_bytes queue, qd_objects = qc_depth_objects queue \<rparr>
      | _ \<Rightarrow> None)"

definition report_once ::
  "nat \<Rightarrow> matcher_field \<Rightarrow> scheduler \<Rightarrow> (nat \<times> matcher_field) list \<times> scheduler" where
  "report_once index field s =
     (if index < length (sc_unmatchable s) then
        let mask = sc_unmatchable s ! index in
        ((if mask AND field_bit field = 0 then [(index, field)] else []),
         s\<lparr> sc_unmatchable := (sc_unmatchable s)[index := mask OR field_bit field] \<rparr>)
      else ([], s))"

fun report_fields ::
  "nat \<Rightarrow> matcher_field option list \<Rightarrow> scheduler \<Rightarrow> (nat \<times> matcher_field) list \<times> scheduler" where
  "report_fields index [] s = ([], s)"
| "report_fields index (None # fs) s = report_fields index fs s"
| "report_fields index (Some f # fs) s =
     (let (rs, s) = report_once index f s; (rs', s) = report_fields index fs s in (rs @ rs', s))"

text \<open>The sweep over the rules, for either carrier.\<close>

fun classify_from ::
  "(matcher \<Rightarrow> bool) \<Rightarrow> (matcher \<Rightarrow> matcher_field option list) \<Rightarrow> nat \<Rightarrow> class_rule list
     \<Rightarrow> shape_class option \<Rightarrow> scheduler \<Rightarrow> shape_class option \<times> (nat \<times> matcher_field) list \<times> scheduler" where
  "classify_from claimed_by absent index [] claimed s = (claimed, [], s)"
| "classify_from claimed_by absent index (rule # rules) claimed s =
     (if claimed = None \<and> claimed_by (cr_matcher rule)
      then classify_from claimed_by absent (index + 1) rules (Some (RuleClass index)) s
      else
        let (rs, s) = report_fields index (absent (cr_matcher rule)) s;
            (c, rs', s) = classify_from claimed_by absent (index + 1) rules claimed s
        in (c, rs @ rs', s))"

definition class_or_default :: "shape_class option \<Rightarrow> shape_class" where
  "class_or_default c = (case c of Some c \<Rightarrow> c | None \<Rightarrow> DefaultClass)"

definition shape_classify ::
  "proxy_side \<Rightarrow> object_meta \<Rightarrow> u64 \<Rightarrow> scheduler \<Rightarrow> shape_class \<times> (nat \<times> matcher_field) list \<times> scheduler" where
  "shape_classify side meta unit_index s =
     (let (c, rs, s) = classify_from (\<lambda>m. matches m side meta unit_index)
            (\<lambda>m. unmatchable_fields m meta) 0 (sp_classes (sc_profile s)) None s
      in (class_or_default c, rs, s))"

definition shape_classify_datagram ::
  "proxy_side \<Rightarrow> draft_version \<Rightarrow> datagram_meta \<Rightarrow> u64 \<Rightarrow> scheduler
     \<Rightarrow> shape_class \<times> (nat \<times> matcher_field) list \<times> scheduler" where
  "shape_classify_datagram side draft meta unit_index s =
     (let (c, rs, s) = classify_from (\<lambda>m. matches_datagram m side meta unit_index)
            (\<lambda>m. unmatchable_fields_datagram m draft meta) 0 (sp_classes (sc_profile s)) None s
      in (class_or_default c, rs, s))"

definition shape_admit :: "nat \<Rightarrow> nat \<Rightarrow> nat \<Rightarrow> scheduler \<Rightarrow> shape_admission" where
  "shape_admit bytes queued_bytes queued_objects s =
     (let queue = sp_queue (sc_profile s) in
      if queued_objects < qc_depth_objects queue
         \<and> min (queued_bytes + bytes) (2 ^ 64 - 1) \<le> qc_depth_bytes queue
      then Admit
      else (case qc_overflow queue of
              OverflowBlock \<Rightarrow> Admit
            | OverflowDropTail \<Rightarrow> AdmitDropTail
            | OverflowResetStream code \<Rightarrow> AdmitResetStream code))"

text \<open>Release every class parked on a bucket.\<close>

definition wake_bucket :: "nat \<Rightarrow> scheduler \<Rightarrow> scheduler" where
  "wake_bucket bucket s =
     (let here = (\<lambda>j. sc_class_bucket s ! j = bucket);
          js = [0..<length (sc_parked s)]
      in s\<lparr> sc_parked := map (\<lambda>j. if here j then None else sc_parked s ! j) js,
            sc_released := concat (map (\<lambda>j. case sc_parked s ! j of
                Some g \<Rightarrow> (if here j then [g] else []) | None \<Rightarrow> []) js) @ sc_released s \<rparr>)"

definition park_class :: "nat \<Rightarrow> scheduler \<Rightarrow> gate option \<times> scheduler" where
  "park_class index s =
     (case sc_parked s ! index of
        Some g \<Rightarrow> (Some g, s)
      | None \<Rightarrow>
          (Some (sc_gates s),
           s\<lparr> sc_parked := (sc_parked s)[index := Some (sc_gates s)], sc_gates := sc_gates s + 1 \<rparr>))"

definition rivals :: "nat \<Rightarrow> nat \<Rightarrow> scheduler \<Rightarrow> nat list" where
  "rivals index bucket s =
     filter (\<lambda>j. j \<noteq> index \<and> sc_class_bucket s ! j = bucket \<and> sc_demand s ! j > 0)
       [0..<length (sp_classes (sc_profile s))]"

definition refill_round :: "nat \<Rightarrow> scheduler \<Rightarrow> scheduler" where
  "refill_round bucket s =
     wake_bucket bucket (s\<lparr> sc_credits :=
       map (\<lambda>j. if sc_class_bucket s ! j = bucket then ucast (cr_weight (sp_classes (sc_profile s) ! j))
                else sc_credits s ! j) [0..<length (sp_classes (sc_profile s))] \<rparr>)"

definition discipline_holds :: "nat \<Rightarrow> nat \<Rightarrow> scheduler \<Rightarrow> gate option \<times> scheduler" where
  "discipline_holds index bucket s =
     (let classes = sp_classes (sc_profile s) in
      case sp_discipline (sc_profile s) of
        Fifo \<Rightarrow> (None, s)
      | StrictPriority \<Rightarrow>
          (let mine = cr_priority (classes ! index) in
           if list_ex (\<lambda>j. cr_priority (classes ! j) > mine) (rivals index bucket s)
           then park_class index s else (None, s))
      | WeightedRoundRobin \<Rightarrow>
          if sc_credits s ! index > 0 then (None, s)
          else if list_ex (\<lambda>j. sc_credits s ! j > 0) (rivals index bucket s) then park_class index s
          else (None, refill_round bucket s))"

definition shape_acquire ::
  "shape_class \<Rightarrow> u64 \<Rightarrow> instant \<Rightarrow> scheduler \<Rightarrow> acquire_answer \<times> scheduler" where
  "shape_acquire class bytes now s =
     (if \<not> sc_enabled s then (AcquireNow, s)
      else case class of
        RuleClass index \<Rightarrow>
          if index < length (sc_class_bucket s) then
            let bucket = sc_class_bucket s ! index;
                (held, s) = discipline_holds index bucket s
            in (case held of
                  Some g \<Rightarrow> (AcquireStarved g, s)
                | None \<Rightarrow>
                    (let config = sp_buckets (sc_profile s) ! bucket;
                         (g, st) = token_charge (sc_buckets s ! bucket) (bc_rate_bps config)
                           (bc_burst_bytes config) bytes now;
                         s = s\<lparr> sc_buckets := (sc_buckets s)[bucket := st] \<rparr>
                     in (case g of
                           TokensNow \<Rightarrow>
                             (AcquireNow,
                              if sp_discipline (sc_profile s) = WeightedRoundRobin
                              then s\<lparr> sc_credits := (sc_credits s)[index := sat_sub (sc_credits s ! index) 1] \<rparr>
                              else s)
                         | TokensLater at \<Rightarrow> (AcquireLater at, s)
                         | TokensNever \<Rightarrow> (AcquireNever, s)
                         | TokensLargerThanBurst burst u \<Rightarrow> (AcquireLargerThanBurst burst u, s))))
          else (AcquireNow, s)
      | _ \<Rightarrow> (AcquireNow, s))"

text \<open>The name comes with the claim; an index out of bounds claims nothing.\<close>

definition claim_burst_report :: "shape_class \<Rightarrow> scheduler \<Rightarrow> string option \<times> scheduler" where
  "claim_burst_report class s =
     (case class of
        RuleClass index \<Rightarrow>
          if index < length (sc_burst_reported s) then
            if sc_burst_reported s ! index then (None, s)
            else (class_name index s, s\<lparr> sc_burst_reported := (sc_burst_reported s)[index := True] \<rparr>)
          else (None, s)
      | _ \<Rightarrow> (None, s))"

definition declare_demand :: "shape_class \<Rightarrow> scheduler \<Rightarrow> scheduler" where
  "declare_demand class s =
     (case class of
        RuleClass index \<Rightarrow>
          if index < length (sc_demand s)
          then s\<lparr> sc_demand := (sc_demand s)[index := sc_demand s ! index + 1] \<rparr> else s
      | _ \<Rightarrow> s)"

definition withdraw_demand :: "shape_class \<Rightarrow> scheduler \<Rightarrow> scheduler" where
  "withdraw_demand class s =
     (case class of
        RuleClass index \<Rightarrow>
          if index < length (sc_class_bucket s) then
            let bucket = sc_class_bucket s ! index;
                s = (if index < length (sc_demand s)
                     then s\<lparr> sc_demand := (sc_demand s)[index := sc_demand s ! index - 1] \<rparr> else s)
            in wake_bucket bucket s
          else s
      | _ \<Rightarrow> s)"

definition set_pacing :: "bool \<Rightarrow> scheduler \<Rightarrow> scheduler" where
  "set_pacing on s = s\<lparr> sc_enabled := on \<rparr>"

end
