(* ===== verification/Shape_Laws.thy ===== *)
theory Shape_Laws
  imports Shape_Scheduler
begin

text \<open>
  Laws of the scheduler: the shape of its state, that a class is parked only while another class in
  its bucket has something to send and is not parked itself, and that a gate handed out is released or
  still parked. The operations of a run are a datatype.
\<close>

section \<open>Steps\<close>

datatype report_op =
    ReportObject proxy_side object_meta u64
  | ReportDatagram proxy_side draft_version datagram_meta u64
  | ReportBurst shape_class

fun report_step :: "report_op \<Rightarrow> scheduler \<Rightarrow> scheduler" where
  "report_step (ReportObject side meta k) s = snd (snd (shape_classify side meta k s))"
| "report_step (ReportDatagram side draft meta k) s = snd (snd (shape_classify_datagram side draft meta k s))"
| "report_step (ReportBurst class) s = snd (claim_burst_report class s)"

datatype sched_op =
    OpReport report_op
  | OpAcquire shape_class u64 instant
  | OpDeclare shape_class
  | OpWithdraw shape_class
  | OpPacing bool

fun sched_step :: "sched_op \<Rightarrow> scheduler \<Rightarrow> acquire_answer option \<times> scheduler" where
  "sched_step (OpReport r) s = (None, report_step r s)"
| "sched_step (OpAcquire class bytes now) s = (let (a, s) = shape_acquire class bytes now s in (Some a, s))"
| "sched_step (OpDeclare class) s = (None, declare_demand class s)"
| "sched_step (OpWithdraw class) s = (None, withdraw_demand class s)"
| "sched_step (OpPacing on) s = (None, set_pacing on s)"

definition sched_next :: "sched_op \<Rightarrow> scheduler \<Rightarrow> scheduler" where
  "sched_next op s = snd (sched_step op s)"

section \<open>The invariant\<close>

abbreviation classes_of :: "scheduler \<Rightarrow> class_rule list" where
  "classes_of s \<equiv> sp_classes (sc_profile s)"

abbreviation discipline_of :: "scheduler \<Rightarrow> discipline" where
  "discipline_of s \<equiv> sp_discipline (sc_profile s)"

definition sized :: "scheduler \<Rightarrow> bool" where
  "sized s \<longleftrightarrow> profile_ok (sc_profile s)
     \<and> length (sc_class_bucket s) = length (classes_of s) \<and> length (sc_demand s) = length (classes_of s)
     \<and> length (sc_credits s) = length (classes_of s) \<and> length (sc_parked s) = length (classes_of s)
     \<and> length (sc_unmatchable s) = length (classes_of s) \<and> length (sc_burst_reported s) = length (classes_of s)
     \<and> length (sc_buckets s) = length (sp_buckets (sc_profile s))
     \<and> list_all (\<lambda>b. b < length (sp_buckets (sc_profile s))) (sc_class_bucket s)"

text \<open>Another class of the bucket has something to send and is not parked.\<close>

definition behind :: "scheduler \<Rightarrow> nat \<Rightarrow> bool" where
  "behind s j \<longleftrightarrow> (\<exists>k < length (classes_of s). k \<noteq> j \<and> sc_class_bucket s ! k = sc_class_bucket s ! j
     \<and> sc_demand s ! k > 0 \<and> sc_parked s ! k = None)"

definition outranked :: "scheduler \<Rightarrow> nat \<Rightarrow> bool" where
  "outranked s j \<longleftrightarrow> (\<exists>k < length (classes_of s). sc_class_bucket s ! k = sc_class_bucket s ! j
     \<and> sc_demand s ! k > 0 \<and> cr_priority (classes_of s ! k) > cr_priority (classes_of s ! j))"

definition held_rightly :: "scheduler \<Rightarrow> nat \<Rightarrow> bool" where
  "held_rightly s j \<longleftrightarrow>
     (case discipline_of s of
        Fifo \<Rightarrow> False
      | StrictPriority \<Rightarrow> outranked s j
      | WeightedRoundRobin \<Rightarrow> sc_credits s ! j = 0 \<and> behind s j)"

definition parked_ok :: "scheduler \<Rightarrow> bool" where
  "parked_ok s \<longleftrightarrow> (\<forall>j < length (classes_of s). sc_parked s ! j \<noteq> None \<longrightarrow> held_rightly s j)"

definition gates_ok :: "scheduler \<Rightarrow> bool" where
  "gates_ok s \<longleftrightarrow> (\<forall>g < sc_gates s. g \<in> set (sc_released s)
     \<or> (\<exists>j < length (classes_of s). sc_parked s ! j = Some g))"

definition sched_ok :: "scheduler \<Rightarrow> bool" where
  "sched_ok s \<longleftrightarrow> sized s \<and> parked_ok s \<and> gates_ok s"

lemma position_less: "position P xs = Some i \<Longrightarrow> i < length xs"
  by (induction xs arbitrary: i) (auto split: if_splits)

lemma sched_build_ok:
  assumes "profile_ok p"
  shows "sched_ok (sched_build p now enabled)"
proof -
  have "(case position Q (sp_buckets p) of Some i \<Rightarrow> i | None \<Rightarrow> 0) < length (sp_buckets p)" for Q
  proof -
    have "sp_buckets p \<noteq> []"
      using assms by (cases "sp_classes p") (auto simp: profile_ok_def class_ok_def)
    then show ?thesis by (auto split: option.split dest: position_less)
  qed
  then show ?thesis
    using assms by (simp add: sched_ok_def sized_def parked_ok_def gates_ok_def sched_build_def list_all_iff)
qed

text \<open>What the operations leave alone.\<close>

lemma wake_bucket_fields:
  "sc_profile (wake_bucket b s) = sc_profile s" "sc_class_bucket (wake_bucket b s) = sc_class_bucket s"
  "sc_demand (wake_bucket b s) = sc_demand s" "sc_credits (wake_bucket b s) = sc_credits s"
  "sc_buckets (wake_bucket b s) = sc_buckets s" "sc_unmatchable (wake_bucket b s) = sc_unmatchable s"
  "sc_burst_reported (wake_bucket b s) = sc_burst_reported s" "sc_gates (wake_bucket b s) = sc_gates s"
  "sc_enabled (wake_bucket b s) = sc_enabled s"
  "length (sc_parked (wake_bucket b s)) = length (sc_parked s)"
  "j < length (sc_parked s) \<Longrightarrow> sc_parked (wake_bucket b s) ! j
     = (if sc_class_bucket s ! j = b then None else sc_parked s ! j)"
  by (simp_all add: wake_bucket_def Let_def)

lemma wake_bucket_gates:
  assumes "gates_ok s" "length (sc_parked s) = length (classes_of s)"
  shows "gates_ok (wake_bucket b s)"
  unfolding gates_ok_def
proof (intro allI impI)
  fix g assume "g < sc_gates (wake_bucket b s)"
  then consider "g \<in> set (sc_released s)" | j where "j < length (classes_of s)" "sc_parked s ! j = Some g"
    using assms(1) by (auto simp: gates_ok_def wake_bucket_fields)
  then show "g \<in> set (sc_released (wake_bucket b s))
      \<or> (\<exists>j < length (classes_of (wake_bucket b s)). sc_parked (wake_bucket b s) ! j = Some g)"
  proof cases
    case 1
    then show ?thesis by (simp add: wake_bucket_def Let_def)
  next
    case 2
    show ?thesis
    proof (cases "sc_class_bucket s ! j = b")
      case True
      then have "g \<in> set (sc_released (wake_bucket b s))"
        using 2 assms(2) by (auto simp: wake_bucket_def Let_def intro!: bexI [of _ j])
      then show ?thesis ..
    next
      case False
      then show ?thesis using 2 assms(2) by (auto simp: wake_bucket_fields)
    qed
  qed
qed

lemma wake_bucket_sized: "sized s \<Longrightarrow> sized (wake_bucket b s)"
  by (simp add: sized_def wake_bucket_fields)

lemma behind_mono:
  assumes "behind s j" "sc_class_bucket s' = sc_class_bucket s" "sc_profile s' = sc_profile s"
    and "\<And>k. k < length (classes_of s) \<Longrightarrow> sc_demand s ! k > 0 \<Longrightarrow> sc_parked s ! k = None \<Longrightarrow>
      sc_class_bucket s ! k = sc_class_bucket s ! j \<Longrightarrow> k \<noteq> j \<Longrightarrow> sc_demand s' ! k > 0 \<and> sc_parked s' ! k = None"
  shows "behind s' j"
  using assms unfolding behind_def by metis

lemma outranked_mono:
  assumes "outranked s j" "sc_class_bucket s' = sc_class_bucket s" "sc_profile s' = sc_profile s"
    and "\<And>k. k < length (classes_of s) \<Longrightarrow> sc_demand s ! k > 0 \<Longrightarrow>
      sc_class_bucket s ! k = sc_class_bucket s ! j \<Longrightarrow> sc_demand s' ! k > 0"
  shows "outranked s' j"
  using assms unfolding outranked_def by metis

text \<open>Waking a bucket leaves nobody in it parked, and nothing else changes for the others.\<close>

lemma wake_parked:
  assumes "parked_ok s" "sized s"
    and s': "sc_class_bucket s' = sc_class_bucket s" "sc_profile s' = sc_profile s"
      "sc_parked s' = sc_parked s"
    and others: "\<And>k. k < length (classes_of s) \<Longrightarrow> sc_class_bucket s ! k \<noteq> b \<Longrightarrow>
      sc_demand s' ! k = sc_demand s ! k \<and> sc_credits s' ! k = sc_credits s ! k"
  shows "parked_ok (wake_bucket b s')"
  unfolding parked_ok_def
proof (intro allI impI)
  fix j assume j: "j < length (classes_of (wake_bucket b s'))" "sc_parked (wake_bucket b s') ! j \<noteq> None"
  have n: "length (sc_parked s') = length (classes_of s)" using assms(2) s' by (simp add: sized_def)
  from j have j': "j < length (classes_of s)" "sc_parked s ! j \<noteq> None" "sc_class_bucket s ! j \<noteq> b"
    using n s' by (auto simp: wake_bucket_fields split: if_splits)
  have h: "held_rightly s j" using assms(1) j' by (simp add: parked_ok_def)
  show "held_rightly (wake_bucket b s') j"
  proof (cases "discipline_of s")
    case Fifo
    then show ?thesis using h by (simp add: held_rightly_def)
  next
    case StrictPriority
    have "outranked s j" using h StrictPriority by (simp add: held_rightly_def)
    then have "outranked (wake_bucket b s') j"
      by (rule outranked_mono) (use s' others j'(3) in \<open>auto simp: wake_bucket_fields\<close>)
    then show ?thesis using StrictPriority s' by (simp add: held_rightly_def wake_bucket_fields)
  next
    case WeightedRoundRobin
    have b: "behind s j" "sc_credits s ! j = 0" using h WeightedRoundRobin by (simp_all add: held_rightly_def)
    from b(1) have "behind (wake_bucket b s') j"
      by (rule behind_mono) (use s' others j'(3) n in \<open>auto simp: wake_bucket_fields\<close>)
    then show ?thesis
      using WeightedRoundRobin s' others [OF j'(1,3)] b(2) by (simp add: held_rightly_def wake_bucket_fields)
  qed
qed

section \<open>Reporting\<close>

text \<open>Classifying and claiming a report move the report-once marks and nothing else.\<close>

definition reports_only :: "scheduler \<Rightarrow> scheduler \<Rightarrow> bool" where
  "reports_only s s' \<longleftrightarrow> sc_profile s' = sc_profile s \<and> sc_class_bucket s' = sc_class_bucket s \<and> sc_demand s' = sc_demand s
     \<and> sc_credits s' = sc_credits s \<and> sc_buckets s' = sc_buckets s \<and> sc_parked s' = sc_parked s \<and> sc_gates s' = sc_gates s
     \<and> sc_released s' = sc_released s \<and> sc_enabled s' = sc_enabled s
     \<and> length (sc_unmatchable s') = length (sc_unmatchable s)
     \<and> length (sc_burst_reported s') = length (sc_burst_reported s)"

lemma reports_only_refl: "reports_only s s"
  by (simp add: reports_only_def)

lemma reports_only_trans: "reports_only s s' \<Longrightarrow> reports_only s' s'' \<Longrightarrow> reports_only s s''"
  by (simp add: reports_only_def)

lemma report_once_only: "reports_only s (snd (report_once i f s))"
  by (simp add: reports_only_def report_once_def Let_def)

lemma report_fields_only: "reports_only s (snd (report_fields i fs s))"
proof (induction i fs s rule: report_fields.induct)
  case (3 i f fs s)
  obtain r1 s1 where 1: "report_once i f s = (r1, s1)" by fastforce
  have "reports_only s s1" using report_once_only [of s i f] by (simp add: 1)
  from reports_only_trans [OF this "3.IH" [OF 1 [symmetric] refl]] show ?case by (auto simp: 1 Let_def split: prod.split)
qed (simp_all add: reports_only_refl)

lemma classify_from_only: "reports_only s (snd (snd (classify_from m ab i rules claimed s)))"
proof (induction rules arbitrary: i claimed s)
  case (Cons r rules)
  obtain r1 s1 where 1: "report_fields i (ab (cr_matcher r)) s = (r1, s1)" by fastforce
  have "reports_only s s1" using report_fields_only [of s i "ab (cr_matcher r)"] by (simp add: 1)
  from reports_only_trans [OF this Cons.IH [of s1 "i + 1" claimed]] Cons.IH [of s "i + 1" "Some (RuleClass i)"]
  show ?case by (auto simp: 1 Let_def split: prod.split)
qed (simp add: reports_only_refl)

lemma report_step_only: "reports_only s (report_step r s)"
proof (cases r)
  case (ReportBurst c)
  have "reports_only s (s\<lparr> sc_burst_reported := (sc_burst_reported s)[i := True] \<rparr>)" for i
    by (simp add: reports_only_def)
  then show ?thesis
    by (auto simp: ReportBurst claim_burst_report_def reports_only_refl split: shape_class.split)
next
  case (ReportObject side meta k)
  then show ?thesis
    using classify_from_only [of s "\<lambda>m. matches m side meta k" "\<lambda>m. unmatchable_fields m meta" 0 "classes_of s" None]
    by (auto simp: shape_classify_def Let_def split: prod.split)
next
  case (ReportDatagram side draft meta k)
  then show ?thesis
    using classify_from_only [of s "\<lambda>m. matches_datagram m side meta k" "\<lambda>m. unmatchable_fields_datagram m draft meta" 0 "classes_of s" None]
    by (auto simp: shape_classify_datagram_def Let_def split: prod.split)
qed

lemma reports_only_fields:
  assumes "reports_only s s'"
  shows "sc_profile s' = sc_profile s" "sc_class_bucket s' = sc_class_bucket s" "sc_demand s' = sc_demand s"
    "sc_credits s' = sc_credits s" "sc_buckets s' = sc_buckets s" "sc_parked s' = sc_parked s" "sc_gates s' = sc_gates s"
    "sc_released s' = sc_released s" "sc_enabled s' = sc_enabled s"
  using assms by (simp_all add: reports_only_def)

lemma reports_only_ok:
  assumes "sched_ok s" "reports_only s s'"
  shows "sched_ok s'"
proof -
  note f = reports_only_fields [OF assms(2)]
  have "length (sc_unmatchable s') = length (sc_unmatchable s)" "length (sc_burst_reported s') = length (sc_burst_reported s)"
    using assms(2) by (simp_all add: reports_only_def)
  moreover have "held_rightly s' j = held_rightly s j" for j
    by (simp add: held_rightly_def behind_def outranked_def f cong: discipline.case_cong)
  ultimately show ?thesis using assms(1) by (simp add: sched_ok_def sized_def parked_ok_def gates_ok_def f)
qed

section \<open>The operations keep it\<close>

lemma declare_demand_ok:
  assumes "sched_ok s"
  shows "sched_ok (declare_demand cl s)"
proof (cases cl)
  case (RuleClass i)
  show ?thesis
  proof (cases "i < length (sc_demand s)")
    case True
    let ?s = "s\<lparr> sc_demand := (sc_demand s)[i := sc_demand s ! i + 1] \<rparr>"
    have more: "sc_demand s ! k > 0 \<Longrightarrow> sc_demand ?s ! k > 0" for k
      using True by (cases "k = i") simp_all
    have "held_rightly s j \<Longrightarrow> held_rightly ?s j" for j
      using behind_mono [of s j ?s] outranked_mono [of s j ?s] more
      by (cases "discipline_of s") (simp_all add: held_rightly_def)
    then have "parked_ok ?s" using assms by (simp add: sched_ok_def parked_ok_def)
    moreover have "sized ?s" "gates_ok ?s" using assms by (simp_all add: sched_ok_def sized_def gates_ok_def)
    ultimately show ?thesis using RuleClass True by (simp add: declare_demand_def sched_ok_def)
  qed (use assms RuleClass in \<open>simp add: declare_demand_def\<close>)
qed (use assms in \<open>simp_all add: declare_demand_def\<close>)

lemma withdraw_demand_ok:
  assumes "sched_ok s"
  shows "sched_ok (withdraw_demand cl s)"
proof (cases cl)
  case (RuleClass i)
  show ?thesis
  proof (cases "i < length (sc_class_bucket s)")
    case True
    let ?s = "s\<lparr> sc_demand := (sc_demand s)[i := sc_demand s ! i - 1] \<rparr>" and ?b = "sc_class_bucket s ! i"
    have ok: "sized s" "parked_ok s" "gates_ok s" using assms by (simp_all add: sched_ok_def)
    have sz: "sized ?s" "gates_ok ?s" using ok by (simp_all add: sized_def gates_ok_def)
    have other: "sc_demand ?s ! k = sc_demand s ! k" if "sc_class_bucket s ! k \<noteq> ?b" for k
      using that by (cases "k = i") simp_all
    have "parked_ok (wake_bucket ?b ?s)"
      by (rule wake_parked [OF ok(2,1)]) (use other in simp_all)
    moreover have "length (sc_parked ?s) = length (classes_of ?s)" using ok(1) by (simp add: sized_def)
    note wake_bucket_gates [OF sz(2) this, of ?b]
    ultimately have "sched_ok (wake_bucket ?b ?s)"
      using wake_bucket_sized [OF sz(1), of ?b] by (simp add: sched_ok_def)
    moreover have "i < length (sc_demand s)" using True ok(1) by (simp add: sized_def)
    ultimately show ?thesis using RuleClass True by (simp add: withdraw_demand_def Let_def)
  qed (use assms RuleClass in \<open>simp add: withdraw_demand_def\<close>)
qed (use assms in \<open>simp_all add: withdraw_demand_def\<close>)

lemma set_pacing_ok: "sched_ok s \<Longrightarrow> sched_ok (set_pacing on s)"
  by (simp add: sched_ok_def set_pacing_def sized_def parked_ok_def gates_ok_def held_rightly_def
      behind_def outranked_def cong: discipline.case_cong)

text \<open>What acquiring asks of the discipline: nothing, a park, or a round begun anew.\<close>

lemma park_class_fields:
  assumes "park_class i s = (h, s')"
  shows "sc_profile s' = sc_profile s" "sc_class_bucket s' = sc_class_bucket s" "sc_demand s' = sc_demand s"
    "sc_credits s' = sc_credits s" "sc_buckets s' = sc_buckets s" "sc_unmatchable s' = sc_unmatchable s"
    "sc_burst_reported s' = sc_burst_reported s" "sc_released s' = sc_released s" "sc_enabled s' = sc_enabled s"
    "length (sc_parked s') = length (sc_parked s)"
    "i < length (sc_parked s) \<Longrightarrow> sc_parked s' ! i = h \<and> h \<noteq> None"
    "k \<noteq> i \<Longrightarrow> sc_parked s' ! k = sc_parked s ! k"
  using assms by (auto simp: park_class_def split: option.splits dest: sym)

lemma park_class_ok:
  assumes ok: "sched_ok s" and run: "park_class i s = (h, s')" and i: "i < length (classes_of s)"
    and rightly: "held_rightly s i"
    and free: "\<And>j. j < length (classes_of s) \<Longrightarrow> j \<noteq> i \<Longrightarrow> sc_parked s ! j \<noteq> None \<Longrightarrow>
      held_rightly s j \<Longrightarrow> held_rightly s' j"
    and self: "held_rightly s' i"
  shows "sched_ok s'"
proof -
  note f = park_class_fields [OF run]
  have "sized s'" using ok by (simp add: sched_ok_def sized_def f)
  moreover have "parked_ok s'"
    unfolding parked_ok_def
  proof (intro allI impI)
    fix j assume j: "j < length (classes_of s')" "sc_parked s' ! j \<noteq> None"
    show "held_rightly s' j"
    proof (cases "j = i")
      case False
      then show ?thesis
        using free [of j] j ok by (simp add: f(1) f(12) [OF False] sched_ok_def parked_ok_def)
    qed (use self in simp)
  qed
  moreover have "gates_ok s'"
  proof (cases "sc_parked s ! i")
    case (Some g)
    then have "s' = s" using run by (simp add: park_class_def)
    then show ?thesis using ok by (simp add: sched_ok_def)
  next
    case None
    then have s': "s' = s\<lparr> sc_parked := (sc_parked s)[i := Some (sc_gates s)], sc_gates := sc_gates s + 1 \<rparr>"
      using run by (auto simp: park_class_def)
    have n: "i < length (sc_parked s)" using ok i by (simp add: sched_ok_def sized_def)
    have old: "g \<in> set (sc_released s) \<or> (\<exists>j < length (classes_of s). sc_parked s ! j = Some g)"
      if "g < sc_gates s" for g using ok that by (simp add: sched_ok_def gates_ok_def)
    show ?thesis
      unfolding gates_ok_def
    proof (intro allI impI)
      fix g assume "g < sc_gates s'"
      then consider "g = sc_gates s" | "g < sc_gates s" using s' by fastforce
      then show "g \<in> set (sc_released s') \<or> (\<exists>j < length (classes_of s'). sc_parked s' ! j = Some g)"
      proof cases
        case 1
        then show ?thesis using i n by (auto simp: s')
      next
        case 2
        from old [OF this] None show ?thesis
          by (auto simp: s') (metis nth_list_update_neq option.distinct(1))
      qed
    qed
  qed
  ultimately show ?thesis by (simp add: sched_ok_def)
qed

lemma rivals_iff:
  "j \<in> set (rivals i b s) \<longleftrightarrow> j < length (classes_of s) \<and> j \<noteq> i \<and> sc_class_bucket s ! j = b \<and> sc_demand s ! j > 0"
  by (auto simp: rivals_def)

lemma discipline_holds_ok:
  assumes ok: "sched_ok s" and i: "i < length (classes_of s)"
    and run: "discipline_holds i (sc_class_bucket s ! i) s = (h, s')"
  shows "sched_ok s'"
proof -
  let ?b = "sc_class_bucket s ! i"
  have sz: "sized s" and pk: "parked_ok s" and gt: "gates_ok s" using ok by (simp_all add: sched_ok_def)
  show ?thesis
  proof (cases "discipline_of s")
    case Fifo
    then show ?thesis using run ok by (simp add: discipline_holds_def)
  next
    case StrictPriority
    show ?thesis
    proof (cases "list_ex (\<lambda>j. cr_priority (classes_of s ! j) > cr_priority (classes_of s ! i)) (rivals i ?b s)")
      case True
      then have park: "park_class i s = (h, s')" using run StrictPriority by (simp add: discipline_holds_def Let_def)
      note f = park_class_fields [OF park]
      have o': "outranked s i" using True by (auto simp: list_ex_iff rivals_iff outranked_def)
      have mono: "outranked s j \<Longrightarrow> outranked s' j" for j
        by (rule outranked_mono [of s]) (simp_all add: f)
      show ?thesis
        by (rule park_class_ok [OF ok park i]) (use StrictPriority o' mono f(1) in \<open>simp_all add: held_rightly_def\<close>)
    qed (use run StrictPriority ok in \<open>simp add: discipline_holds_def Let_def\<close>)
  next
    case WeightedRoundRobin
    consider "sc_credits s ! i > 0"
      | "sc_credits s ! i = 0" "list_ex (\<lambda>j. sc_credits s ! j > 0) (rivals i ?b s)"
      | "sc_credits s ! i = 0" "\<not> list_ex (\<lambda>j. sc_credits s ! j > 0) (rivals i ?b s)"
      using word_gt_0_no by (metis word_gt_0)
    then show ?thesis
    proof cases
      case 1
      then show ?thesis using run WeightedRoundRobin ok by (simp add: discipline_holds_def Let_def)
    next
      case 2
      then have park: "park_class i s = (h, s')" using run WeightedRoundRobin by (simp add: discipline_holds_def Let_def)
      note f = park_class_fields [OF park]
      obtain r where r: "r < length (classes_of s)" "r \<noteq> i" "sc_class_bucket s ! r = ?b"
          "sc_demand s ! r > 0" "sc_credits s ! r > 0"
        using 2(2) by (auto simp: list_ex_iff rivals_iff)
      have free: "sc_parked s ! r = None"
        using pk r(1,5) WeightedRoundRobin by (auto simp: parked_ok_def held_rightly_def)
      have unparked: "sc_parked s' ! r = None" using free f(12) [OF r(2)] by simp
      have behind_self: "behind s i" "behind s' i"
        using r free unparked by (auto simp: behind_def f)
      have behind_other: "behind s' j" if j: "behind s j" "sc_credits s ! j = 0" "j \<noteq> i" for j
      proof (cases "sc_class_bucket s ! j = ?b")
        case True
        have "r \<noteq> j" using j(2) r(5) by auto
        then show ?thesis unfolding behind_def using r unparked True f by auto
      next
        case False
        then have "k \<noteq> i" if "sc_class_bucket s ! k = sc_class_bucket s ! j" for k using that by auto
        then show ?thesis by (intro behind_mono [OF j(1)]) (simp_all add: f)
      qed
      show ?thesis
        by (rule park_class_ok [OF ok park i])
          (use WeightedRoundRobin 2(1) behind_self behind_other f in \<open>simp_all add: held_rightly_def\<close>)
    next
      case 3
      let ?s = "s\<lparr> sc_credits := map (\<lambda>j. if sc_class_bucket s ! j = ?b
          then ucast (cr_weight (classes_of s ! j)) else sc_credits s ! j) [0..<length (classes_of s)] \<rparr>"
      have s': "s' = wake_bucket ?b ?s"
        using run WeightedRoundRobin 3 by (simp add: discipline_holds_def refill_round_def Let_def)
      have "parked_ok (wake_bucket ?b ?s)" by (rule wake_parked [OF pk sz]) simp_all
      moreover have "sized ?s" "gates_ok ?s" using sz gt by (simp_all add: sized_def gates_ok_def)
      ultimately show ?thesis
        using wake_bucket_gates [of ?s ?b] wake_bucket_sized [of ?s ?b] sz
        by (simp add: s' sched_ok_def sized_def)
    qed
  qed
qed

text \<open>An acquire, taken apart: the discipline, then the bucket, then the credit.\<close>

definition bucket_asked :: "nat \<Rightarrow> u64 \<Rightarrow> instant \<Rightarrow> scheduler \<Rightarrow> token_grant \<times> token_state" where
  "bucket_asked b bytes now s =
     (let config = sp_buckets (sc_profile s) ! b in
      token_charge (sc_buckets s ! b) (bc_rate_bps config) (bc_burst_bytes config) bytes now)"

definition credit_spent :: "nat \<Rightarrow> scheduler \<Rightarrow> scheduler" where
  "credit_spent i s =
     (if discipline_of s = WeightedRoundRobin
      then s\<lparr> sc_credits := (sc_credits s)[i := sat_sub (sc_credits s ! i) 1] \<rparr> else s)"

lemma acquire_cases:
  assumes "shape_acquire c bytes now s = (a, s')" "sched_ok s"
  obtains (free) "a = AcquireNow" "s' = s" "\<not> sc_enabled s \<or> (\<forall>i < length (classes_of s). c \<noteq> RuleClass i)"
  | (held) i g where "c = RuleClass i" "i < length (classes_of s)" "sc_enabled s" "a = AcquireStarved g"
      "discipline_holds i (sc_class_bucket s ! i) s = (Some g, s')"
  | (asked) i s1 g st where "c = RuleClass i" "i < length (classes_of s)" "sc_enabled s"
      "discipline_holds i (sc_class_bucket s ! i) s = (None, s1)"
      "bucket_asked (sc_class_bucket s ! i) bytes now s1 = (g, st)"
      "s' = (if g = TokensNow then credit_spent i else id)
         (s1\<lparr> sc_buckets := (sc_buckets s1)[sc_class_bucket s ! i := st] \<rparr>)"
      "a = AcquireNow \<longleftrightarrow> g = TokensNow" "\<And>g. a \<noteq> AcquireStarved g"
proof (cases "sc_enabled s")
  case False
  then show ?thesis using assms free by (simp add: shape_acquire_def)
next
  case True
  have n: "length (sc_class_bucket s) = length (classes_of s)" using assms(2) by (simp add: sched_ok_def sized_def)
  show ?thesis
  proof (cases "\<exists>i < length (classes_of s). c = RuleClass i")
    case False
    then show ?thesis using assms(1) True free n
      by (cases c) (auto simp: shape_acquire_def)
  next
    case rule: True
    then obtain i where i: "i < length (classes_of s)" "c = RuleClass i" by blast
    let ?b = "sc_class_bucket s ! i"
    obtain h s1 where h: "discipline_holds i ?b s = (h, s1)" by fastforce
    show ?thesis
    proof (cases h)
      case (Some g)
      then show ?thesis using assms(1) True i h n held [of i g] by (simp add: shape_acquire_def Let_def)
    next
      case None
      obtain g st where g: "bucket_asked ?b bytes now s1 = (g, st)" by fastforce
      note ask = asked [of i s1 g st, OF i(2,1) True h [unfolded None] g]
      show ?thesis
        using assms(1) True i h n None g ask
        by (cases g) (auto simp: shape_acquire_def Let_def bucket_asked_def credit_spent_def)
    qed
  qed
qed

lemma credit_fields:
  "sc_profile (credit_spent i s) = sc_profile s" "sc_class_bucket (credit_spent i s) = sc_class_bucket s"
  "sc_demand (credit_spent i s) = sc_demand s" "sc_parked (credit_spent i s) = sc_parked s"
  "sc_buckets (credit_spent i s) = sc_buckets s" "sc_unmatchable (credit_spent i s) = sc_unmatchable s"
  "sc_burst_reported (credit_spent i s) = sc_burst_reported s" "sc_gates (credit_spent i s) = sc_gates s"
  "sc_released (credit_spent i s) = sc_released s" "length (sc_credits (credit_spent i s)) = length (sc_credits s)"
  "sc_enabled (credit_spent i s) = sc_enabled s"
  by (simp_all add: credit_spent_def)

lemma credit_zero: "sc_credits s ! k = 0 \<Longrightarrow> sc_credits (credit_spent i s) ! k = 0"
  by (cases "k = i"; cases "i < length (sc_credits s)")
    (simp_all add: credit_spent_def sat_sub_def list_update_beyond)

lemma sched_ok_buckets:
  assumes "sched_ok s" "length bs = length (sc_buckets s)"
  shows "sched_ok (s\<lparr> sc_buckets := bs \<rparr>)"
proof -
  have "held_rightly (s\<lparr> sc_buckets := bs \<rparr>) j \<longleftrightarrow> held_rightly s j" for j
    by (simp add: held_rightly_def behind_def outranked_def cong: discipline.case_cong)
  then show ?thesis using assms by (simp add: sched_ok_def sized_def parked_ok_def gates_ok_def)
qed

lemma credit_spent_ok:
  assumes "sched_ok s"
  shows "sched_ok (credit_spent i s)"
proof -
  have "held_rightly (credit_spent i s) j" if "held_rightly s j" for j
    using that credit_zero [of s j i]
    by (cases "discipline_of s") (simp_all add: held_rightly_def behind_def outranked_def credit_fields)
  then show ?thesis
    using assms by (simp add: sched_ok_def sized_def parked_ok_def gates_ok_def credit_fields)
qed

lemma shape_acquire_ok:
  assumes "sched_ok s" "shape_acquire c bytes now s = (a, s')"
  shows "sched_ok s'"
  using assms(2,1)
proof (cases rule: acquire_cases)
  case (held i g)
  then show ?thesis using discipline_holds_ok [OF assms(1)] by blast
next
  case (asked i s1 g st)
  have "sched_ok s1" using discipline_holds_ok [OF assms(1) asked(2,4)] .
  then have "sched_ok (s1\<lparr> sc_buckets := (sc_buckets s1)[sc_class_bucket s ! i := st] \<rparr>)"
    by (rule sched_ok_buckets) simp
  then show ?thesis using credit_spent_ok by (simp add: asked(6))
qed (use assms(1) in simp)

lemma sched_next_ok:
  assumes "sched_ok s"
  shows "sched_ok (sched_next op s)"
proof (cases op)
  case (OpReport r)
  then show ?thesis using reports_only_ok [OF assms report_step_only] by (simp add: sched_next_def)
next
  case (OpAcquire c bytes now)
  then show ?thesis using shape_acquire_ok [OF assms] by (auto simp: sched_next_def Let_def split: prod.split)
qed (use assms in \<open>simp_all add: sched_next_def declare_demand_ok withdraw_demand_ok set_pacing_ok\<close>)

text \<open>The schedulers of an accepted profile, after any operations.\<close>

inductive sched_reach :: "scheduler \<Rightarrow> bool" where
  built: "shape_profile_try_new buckets classes queue disc = Inr p \<Longrightarrow> sched_reach (sched_build p now enabled)"
| step: "sched_reach s \<Longrightarrow> sched_reach (sched_next op s)"

lemma sched_reach_ok: "sched_reach s \<Longrightarrow> sched_ok s"
  by (induction rule: sched_reach.induct) (simp_all add: sched_next_ok sched_build_ok try_new_ok)

section \<open>Nobody waits for nothing\<close>

text \<open>Of the classes with something to send that outrank a parked one, the highest is not parked.\<close>

lemma outranked_behind:
  assumes pk: "parked_ok s" and sp: "discipline_of s = StrictPriority" and o': "outranked s j"
  shows "behind s j"
proof -
  let ?pr = "\<lambda>k. cr_priority (classes_of s ! k)"
  define K where "K = {k. k < length (classes_of s) \<and> sc_class_bucket s ! k = sc_class_bucket s ! j
    \<and> sc_demand s ! k > 0 \<and> ?pr k > ?pr j}"
  have "finite K" "K \<noteq> {}" using o' by (auto simp: K_def outranked_def)
  then have "Max (?pr ` K) \<in> ?pr ` K" by simp
  then obtain k where "k \<in> K" "?pr k = Max (?pr ` K)" by auto
  then have k: "k \<in> K" "\<forall>l \<in> K. \<not> ?pr k < ?pr l" using \<open>finite K\<close> by (auto simp: not_less)
  have "sc_parked s ! k = None"
  proof (rule ccontr)
    assume "sc_parked s ! k \<noteq> None"
    then have "outranked s k" using pk sp k(1) by (simp add: parked_ok_def held_rightly_def K_def)
    then obtain l where "l < length (classes_of s)" "sc_class_bucket s ! l = sc_class_bucket s ! k"
        "sc_demand s ! l > 0" "?pr l > ?pr k" by (auto simp: outranked_def)
    then show False using k by (auto simp: K_def dest: less_trans)
  qed
  then show ?thesis using k(1) unfolding behind_def K_def by auto
qed

lemma parked_behind:
  assumes "sched_ok s" "j < length (classes_of s)" "sc_parked s ! j \<noteq> None"
  shows "behind s j"
proof -
  have "held_rightly s j" using assms by (simp add: sched_ok_def parked_ok_def)
  then show ?thesis
    using outranked_behind [of s j] assms(1)
    by (cases "discipline_of s") (simp_all add: held_rightly_def sched_ok_def)
qed

fun sched_run :: "sched_op list \<Rightarrow> scheduler \<Rightarrow> scheduler" where
  "sched_run [] s = s"
| "sched_run (op # ops) s = sched_run ops (sched_next op s)"

lemma sched_run_ok: "sched_ok s \<Longrightarrow> sched_ok (sched_run ops s)"
  by (induction ops arbitrary: s) (simp_all add: sched_next_ok)

end
