(* ===== verification/Shape_Fairness.thy ===== *)
theory Shape_Fairness
  imports Shape_Laws
begin

text \<open>
  What the scheduler promises over a run: a class parked on a gate is woken once nobody it shares its
  bucket with has anything to send, a round gives each class its weight, strict priority never grants
  past a class that outranks it, and the classes of a bucket together keep its rate.
\<close>

section \<open>Waking\<close>

lemma wake_bucket_gate:
  assumes "i < length (sc_parked s)" "sc_parked s ! i = Some g"
  shows "sc_parked (wake_bucket b s) ! i = Some g \<or> g \<in> set (sc_released (wake_bucket b s))"
  using assms by (auto simp: wake_bucket_def Let_def intro!: bexI [of _ i])

lemma wake_bucket_released: "set (sc_released s) \<subseteq> set (sc_released (wake_bucket b s))"
  by (auto simp: wake_bucket_def Let_def)

definition gate_kept :: "nat \<Rightarrow> gate \<Rightarrow> scheduler \<Rightarrow> bool" where
  "gate_kept i g s \<longleftrightarrow> sc_parked s ! i = Some g \<or> g \<in> set (sc_released s)"

lemma gate_kept_same:
  "gate_kept i g s \<Longrightarrow> sc_parked s' = sc_parked s \<Longrightarrow> sc_released s' = sc_released s \<Longrightarrow> gate_kept i g s'"
  by (simp add: gate_kept_def)

lemma gate_kept_wake:
  "gate_kept i g s \<Longrightarrow> i < length (sc_parked s) \<Longrightarrow> gate_kept i g (wake_bucket b s)"
  using wake_bucket_gate [of i s g b] wake_bucket_released [of s b] by (auto simp: gate_kept_def)

lemma gate_kept_discipline:
  assumes "gate_kept i g s" "discipline_holds k b s = (h, s')" "i < length (sc_parked s)"
  shows "gate_kept i g s'"
proof -
  have park: "gate_kept i g s1" if "park_class k s = (h, s1)" for s1
  proof (cases "sc_parked s ! k")
    case None
    then have "s1 = s\<lparr> sc_parked := (sc_parked s)[k := Some (sc_gates s)], sc_gates := sc_gates s + 1 \<rparr>"
      using that by (auto simp: park_class_def)
    then show ?thesis using assms(1) None by (cases "k = i") (simp_all add: gate_kept_def)
  next
    case (Some g')
    then show ?thesis using assms(1) that by (simp add: park_class_def)
  qed
  have refill: "gate_kept i g (refill_round b s)"
    unfolding refill_round_def
    by (rule gate_kept_wake) (use assms in \<open>auto intro: gate_kept_same\<close>)
  show ?thesis
    using assms(1,2) park refill
    by (auto simp: discipline_holds_def Let_def split: discipline.splits if_splits)
qed

lemma gate_kept_next:
  assumes ok: "sched_ok s" and g: "gate_kept i g s" and i: "i < length (classes_of s)"
  shows "gate_kept i g (sched_next op s)"
proof -
  have n: "i < length (sc_parked s)" using ok i by (simp add: sched_ok_def sized_def)
  show ?thesis
  proof (cases op)
    case (OpReport r)
    then show ?thesis
      using gate_kept_same [OF g] reports_only_fields [OF report_step_only [of s r]] by (simp add: sched_next_def)
  next
    case (OpAcquire c bytes now)
    obtain a s' where a: "shape_acquire c bytes now s = (a, s')" by fastforce
    from a ok have "gate_kept i g s'"
    proof (cases rule: acquire_cases)
      case (held k g')
      then show ?thesis using gate_kept_discipline [OF g held(5) n] by simp
    next
      case (asked k s1 g' st)
      have "gate_kept i g s1" using gate_kept_discipline [OF g asked(4) n] .
      then show ?thesis by (rule gate_kept_same) (simp_all add: asked(6) credit_fields)
    qed (use g in simp)
    then show ?thesis by (simp add: sched_next_def OpAcquire a)
  next
    case (OpDeclare c)
    have "gate_kept i g (declare_demand c s)"
      by (rule gate_kept_same [OF g]) (simp_all add: declare_demand_def split: shape_class.split)
    then show ?thesis by (simp add: sched_next_def OpDeclare)
  next
    case (OpWithdraw c)
    have "gate_kept i g (wake_bucket b (s\<lparr> sc_demand := ds \<rparr>))" for b ds
      by (rule gate_kept_wake) (use g n in \<open>auto intro: gate_kept_same\<close>)
    moreover have "gate_kept i g (wake_bucket b s)" for b by (rule gate_kept_wake [OF g n])
    ultimately have "gate_kept i g (withdraw_demand c s)"
      using g by (simp add: withdraw_demand_def Let_def split: shape_class.split)
    then show ?thesis by (simp add: sched_next_def OpWithdraw)
  next
    case (OpPacing on)
    then show ?thesis using g by (simp add: sched_next_def set_pacing_def gate_kept_def)
  qed
qed

lemma discipline_holds_fields:
  assumes "discipline_holds k b s = (h, s')"
  shows "sc_profile s' = sc_profile s" "sc_class_bucket s' = sc_class_bucket s" "sc_demand s' = sc_demand s"
    "sc_buckets s' = sc_buckets s" "sc_enabled s' = sc_enabled s"
  using assms
  by (auto simp: discipline_holds_def Let_def refill_round_def wake_bucket_fields park_class_fields
      split: discipline.splits if_splits)

lemma acquire_fields:
  assumes "shape_acquire c bytes now s = (a, s')" "sched_ok s"
  shows "sc_profile s' = sc_profile s" "sc_class_bucket s' = sc_class_bucket s" "sc_demand s' = sc_demand s"
    "sc_enabled s' = sc_enabled s"
proof -
  have "sc_profile s' = sc_profile s \<and> sc_class_bucket s' = sc_class_bucket s \<and> sc_demand s' = sc_demand s
      \<and> sc_enabled s' = sc_enabled s"
    using assms by (cases rule: acquire_cases) (simp_all add: discipline_holds_fields credit_fields)
  then show "sc_profile s' = sc_profile s" "sc_class_bucket s' = sc_class_bucket s" "sc_demand s' = sc_demand s"
    "sc_enabled s' = sc_enabled s" by blast+
qed

lemma sched_next_fields:
  assumes "sched_ok s"
  shows "sc_profile (sched_next op s) = sc_profile s" "sc_class_bucket (sched_next op s) = sc_class_bucket s"
  using assms
  by (cases op; auto simp: sched_next_def Let_def declare_demand_def withdraw_demand_def set_pacing_def
      wake_bucket_fields acquire_fields reports_only_fields [OF report_step_only] split: prod.split shape_class.split)+

lemma gate_kept_run:
  assumes "sched_ok s" "gate_kept i g s" "i < length (classes_of s)"
  shows "gate_kept i g (sched_run ops s) \<and> sc_profile (sched_run ops s) = sc_profile s
    \<and> sc_class_bucket (sched_run ops s) = sc_class_bucket s"
  using assms
proof (induction ops arbitrary: s)
  case (Cons op ops)
  then show ?case
    using Cons.IH [of "sched_next op s"] sched_next_ok gate_kept_next sched_next_fields by simp
qed simp

lemma starved_parks:
  assumes "sched_ok s" "shape_acquire c bytes now s = (AcquireStarved g, s')"
  shows "\<exists>i < length (classes_of s). c = RuleClass i \<and> sc_parked s' ! i = Some g"
  using assms(2,1)
proof (cases rule: acquire_cases)
  case (held i g')
  have n: "i < length (sc_parked s)" using assms(1) held(2) by (simp add: sched_ok_def sized_def)
  have "park_class i s = (Some g', s')"
    using held(5) by (auto simp: discipline_holds_def Let_def split: discipline.splits if_splits)
  from park_class_fields(11) [OF this n] held show ?thesis by auto
qed (use assms in auto)

lemma starved_woken:
  assumes "sched_reach s" "shape_acquire (RuleClass i) bytes now s = (AcquireStarved g, s1)"
  shows "g \<in> set (sc_released (sched_run ops s1))
    \<or> (sc_parked (sched_run ops s1) ! i = Some g \<and> behind (sched_run ops s1) i)"
proof -
  have ok: "sched_ok s" using sched_reach_ok [OF assms(1)] .
  from starved_parks [OF ok assms(2)] have i: "i < length (classes_of s)" "sc_parked s1 ! i = Some g" by auto
  have ok1: "sched_ok s1" using shape_acquire_ok [OF ok assms(2)] .
  have p: "sc_profile s1 = sc_profile s" using acquire_fields [OF assms(2) ok] by simp
  have k: "gate_kept i g (sched_run ops s1)" "sc_profile (sched_run ops s1) = sc_profile s"
    using gate_kept_run [OF ok1, of i g ops] i p by (simp_all add: gate_kept_def)
  then show ?thesis
    using parked_behind [OF sched_run_ok [OF ok1], of i ops] i(1) by (auto simp: gate_kept_def)
qed

section \<open>Rounds\<close>

definition weight_of :: "scheduler \<Rightarrow> nat \<Rightarrow> nat" where
  "weight_of s i = unat (cr_weight (classes_of s ! i))"

definition won :: "nat \<Rightarrow> shape_class \<Rightarrow> acquire_answer \<Rightarrow> nat" where
  "won i c a = (if c = RuleClass i \<and> a = AcquireNow then 1 else 0)"

lemma unat_weight: "unat (ucast (w :: u16) :: u32) = unat w"
  using unat_lt2p [of w] by (simp add: unsigned_ucast_eq take_bit_nat_eq_self)

text \<open>An acquire spends a credit for a grant, after beginning a round if its bucket had none left.\<close>

lemma acquire_credits:
  assumes ok: "sched_ok s" and run: "shape_acquire c bytes now s = (a, s')"
    and wrr: "discipline_of s = WeightedRoundRobin" and on: "sc_enabled s"
  shows "\<exists>R b. (\<forall>k < length (classes_of s). unat (sc_credits s' ! k) + won k c a
        = (if R \<and> sc_class_bucket s ! k = b then weight_of s k else unat (sc_credits s ! k)))
    \<and> (R \<longrightarrow> (\<forall>k < length (classes_of s). sc_class_bucket s ! k = b \<and> sc_demand s ! k > 0 \<longrightarrow> sc_credits s ! k = 0))"
  using run ok
proof (cases rule: acquire_cases)
  case free
  then have "won k c a = 0" if "k < length (classes_of s)" for k using that on by (auto simp: won_def)
  then show ?thesis using free(2) by (intro exI [of _ False]) simp
next
  case (held i g)
  have "park_class i s = (Some g, s')"
    using held(5) wrr by (auto simp: discipline_holds_def Let_def split: if_splits)
  then have "sc_credits s' = sc_credits s" by (rule park_class_fields)
  then show ?thesis using held(4) by (intro exI [of _ False]) (simp add: won_def)
next
  case (asked i s1 g st)
  let ?b = "sc_class_bucket s ! i" and ?n = "length (classes_of s)"
  have sz: "sized s" using ok by (simp add: sched_ok_def)
  note f1 = discipline_holds_fields [OF asked(4)]
  have spend: "unat (sc_credits s' ! k) + won k c a = unat (sc_credits s1 ! k)"
    if pos: "g = TokensNow \<Longrightarrow> sc_credits s1 ! i > 0" and n: "length (sc_credits s1) = ?n" for k
  proof (cases "g = TokensNow")
    case True
    have "unat (sat_sub (sc_credits s1 ! i) 1) + 1 = unat (sc_credits s1 ! i)"
      using pos [OF True] by (simp add: unat_sat_sub word_less_nat_alt)
    then show ?thesis
      using True asked(1,2,6,7) n wrr f1(1) by (cases "k = i") (simp_all add: won_def credit_spent_def)
  next
    case False
    then show ?thesis using asked(6,7) by (simp add: won_def)
  qed
  show ?thesis
  proof (cases "sc_credits s ! i > 0")
    case True
    then have "s1 = s" using asked(4) wrr by (simp add: discipline_holds_def Let_def)
    then show ?thesis
      using spend True sz by (intro exI [of _ False]) (simp add: sized_def)
  next
    case False
    then have none: "\<not> list_ex (\<lambda>j. sc_credits s ! j > 0) (rivals i ?b s)" and s1: "s1 = refill_round ?b s"
      using asked(4) wrr by (auto simp: discipline_holds_def Let_def park_class_def split: if_splits option.splits)
    have cr: "sc_credits s1 ! k = (if sc_class_bucket s ! k = ?b then ucast (cr_weight (classes_of s ! k)) else sc_credits s ! k)"
      if "k < ?n" for k using that by (simp add: s1 refill_round_def wake_bucket_fields)
    have n: "length (sc_credits s1) = ?n" by (simp add: s1 refill_round_def wake_bucket_fields)
    have "cr_weight (classes_of s ! i) \<noteq> 0"
      using sz wrr asked(2) by (auto simp: sized_def profile_ok_def class_ok_def list_all_length)
    then have "sc_credits s1 ! i > 0"
      using cr [OF asked(2)] unat_weight [of "cr_weight (classes_of s ! i)"]
      by (simp add: word_less_nat_alt unat_gt_0)
    note spend = spend [OF this n]
    have "sc_credits s ! k = 0" if "k < ?n" "sc_class_bucket s ! k = ?b" "sc_demand s ! k > 0" for k
    proof -
      have "\<not> sc_credits s ! k > 0"
        using that none False by (cases "k = i") (auto simp: list_ex_iff rivals_iff)
      then show ?thesis by (simp only: word_gt_0 not_not)
    qed
    then show ?thesis
      using spend cr by (intro exI [of _ True] exI [of _ ?b]) (simp add: weight_of_def unat_weight)
  qed
qed

definition credits_ok :: "scheduler \<Rightarrow> bool" where
  "credits_ok s \<longleftrightarrow> (\<forall>k < length (classes_of s). unat (sc_credits s ! k) \<le> weight_of s k)"

fun round_op :: "sched_op \<Rightarrow> bool" where
  "round_op (OpPacing on) = False"
| "round_op _ = True"

definition grant_of :: "nat \<Rightarrow> sched_op \<Rightarrow> scheduler \<Rightarrow> nat" where
  "grant_of i op s =
     (case op of OpAcquire c bytes now \<Rightarrow> won i c (fst (shape_acquire c bytes now s)) | _ \<Rightarrow> 0)"

fun granted_count :: "nat \<Rightarrow> sched_op list \<Rightarrow> scheduler \<Rightarrow> nat" where
  "granted_count i [] s = 0"
| "granted_count i (op # ops) s = grant_of i op s + granted_count i ops (sched_next op s)"

text \<open>The class has something to send whenever the run asks.\<close>

fun backlogged :: "nat \<Rightarrow> sched_op list \<Rightarrow> scheduler \<Rightarrow> bool" where
  "backlogged i [] s \<longleftrightarrow> True"
| "backlogged i (op # ops) s \<longleftrightarrow> sc_demand s ! i > 0 \<and> backlogged i ops (sched_next op s)"

lemma quiet_credits:
  "sc_credits (declare_demand c s) = sc_credits s" "sc_credits (withdraw_demand c s) = sc_credits s"
  "sc_enabled (declare_demand c s) = sc_enabled s" "sc_enabled (withdraw_demand c s) = sc_enabled s"
  by (simp_all add: declare_demand_def withdraw_demand_def Let_def wake_bucket_fields split: shape_class.split)

lemma round_step:
  assumes ok: "sched_ok s" and wrr: "discipline_of s = WeightedRoundRobin" and on: "sc_enabled s"
    and op: "round_op op"
  shows "\<exists>d. (\<forall>k < length (classes_of s). sc_class_bucket s ! k = b \<and> sc_demand s ! k > 0 \<longrightarrow>
      unat (sc_credits (sched_next op s) ! k) + grant_of k op s = unat (sc_credits s ! k) + d * weight_of s k)"
    and "credits_ok s \<Longrightarrow> credits_ok (sched_next op s)" and "sc_enabled (sched_next op s)"
proof -
  have "(\<exists>d. (\<forall>k < length (classes_of s). sc_class_bucket s ! k = b \<and> sc_demand s ! k > 0 \<longrightarrow>
      unat (sc_credits (sched_next op s) ! k) + grant_of k op s = unat (sc_credits s ! k) + d * weight_of s k))
    \<and> (credits_ok s \<longrightarrow> credits_ok (sched_next op s)) \<and> sc_enabled (sched_next op s)"
  proof (cases op)
    case (OpAcquire c bytes now)
    obtain a s' where a: "shape_acquire c bytes now s = (a, s')" by fastforce
    have nx: "sched_next op s = s'" by (simp add: sched_next_def OpAcquire a)
    note f = acquire_fields [OF a ok]
    from acquire_credits [OF ok a wrr on] obtain R b' where
      R: "\<And>k. k < length (classes_of s) \<Longrightarrow> unat (sc_credits s' ! k) + won k c a
          = (if R \<and> sc_class_bucket s ! k = b' then weight_of s k else unat (sc_credits s ! k))"
      and Z: "\<And>k. R \<Longrightarrow> k < length (classes_of s) \<Longrightarrow> sc_class_bucket s ! k = b' \<Longrightarrow> sc_demand s ! k > 0
          \<Longrightarrow> sc_credits s ! k = 0" by blast
    have "unat (sc_credits s' ! k) + grant_of k op s
        = unat (sc_credits s ! k) + (if R \<and> b' = b then 1 else 0) * weight_of s k"
      if "k < length (classes_of s)" "sc_class_bucket s ! k = b" "sc_demand s ! k > 0" for k
      using R [OF that(1)] Z [OF _ that(1) _ that(3)] that(2) by (simp add: grant_of_def OpAcquire a)
    moreover have "unat (sc_credits s' ! k) \<le> weight_of s k"
      if "k < length (classes_of s)" "unat (sc_credits s ! k) \<le> weight_of s k" for k
      using R [OF that(1)] that(2) by (cases "R \<and> sc_class_bucket s ! k = b'") auto
    ultimately show ?thesis using f on unfolding nx by (auto simp: credits_ok_def weight_of_def)
  next
    case (OpReport r)
    note f = reports_only_fields [OF report_step_only [of s r]]
    then show ?thesis
      using on by (auto simp: sched_next_def OpReport grant_of_def credits_ok_def weight_of_def intro: exI [of _ 0])
  next
    case (OpDeclare c)
    have "sc_profile (sched_next op s) = sc_profile s" using sched_next_fields [OF ok] by simp
    then show ?thesis
      using on by (auto simp: sched_next_def OpDeclare quiet_credits grant_of_def credits_ok_def weight_of_def
          intro: exI [of _ 0])
  next
    case (OpWithdraw c)
    have "sc_profile (sched_next op s) = sc_profile s" using sched_next_fields [OF ok] by simp
    then show ?thesis
      using on by (auto simp: sched_next_def OpWithdraw quiet_credits grant_of_def credits_ok_def weight_of_def
          intro: exI [of _ 0])
  qed (use op in simp)
  then show "\<exists>d. (\<forall>k < length (classes_of s). sc_class_bucket s ! k = b \<and> sc_demand s ! k > 0 \<longrightarrow>
      unat (sc_credits (sched_next op s) ! k) + grant_of k op s = unat (sc_credits s ! k) + d * weight_of s k)"
    "credits_ok s \<Longrightarrow> credits_ok (sched_next op s)" "sc_enabled (sched_next op s)" by blast+
qed

lemma rounds_run:
  assumes "sched_ok s" "credits_ok s" "discipline_of s = WeightedRoundRobin" "sc_enabled s"
    and "list_all round_op ops" "i < length (classes_of s)" "j < length (classes_of s)"
    and "sc_class_bucket s ! i = b" "sc_class_bucket s ! j = b" "backlogged i ops s" "backlogged j ops s"
  shows "\<exists>d. unat (sc_credits (sched_run ops s) ! i) + granted_count i ops s = unat (sc_credits s ! i) + d * weight_of s i
    \<and> unat (sc_credits (sched_run ops s) ! j) + granted_count j ops s = unat (sc_credits s ! j) + d * weight_of s j
    \<and> credits_ok (sched_run ops s) \<and> sc_profile (sched_run ops s) = sc_profile s"
  using assms
proof (induction ops arbitrary: s)
  case Nil
  then show ?case by (auto intro: exI [of _ 0])
next
  case (Cons op ops)
  let ?s = "sched_next op s"
  note f = sched_next_fields [OF Cons.prems(1)]
  from Cons.prems(5) have op: "round_op op" by simp
  note step = round_step [OF Cons.prems(1,3,4) op]
  from step(1) [of b] obtain d where d: "unat (sc_credits ?s ! k) + grant_of k op s = unat (sc_credits s ! k) + d * weight_of s k"
    if "k < length (classes_of s)" "sc_class_bucket s ! k = b" "sc_demand s ! k > 0" for k by blast
  have "\<exists>d. unat (sc_credits (sched_run ops ?s) ! i) + granted_count i ops ?s = unat (sc_credits ?s ! i) + d * weight_of ?s i
    \<and> unat (sc_credits (sched_run ops ?s) ! j) + granted_count j ops ?s = unat (sc_credits ?s ! j) + d * weight_of ?s j
    \<and> credits_ok (sched_run ops ?s) \<and> sc_profile (sched_run ops ?s) = sc_profile ?s"
    by (rule Cons.IH) (use Cons.prems f step(2,3) sched_next_ok in simp_all)
  then obtain d' where d': "unat (sc_credits (sched_run ops ?s) ! i) + granted_count i ops ?s = unat (sc_credits ?s ! i) + d' * weight_of s i"
    "unat (sc_credits (sched_run ops ?s) ! j) + granted_count j ops ?s = unat (sc_credits ?s ! j) + d' * weight_of s j"
    "credits_ok (sched_run ops ?s)" "sc_profile (sched_run ops ?s) = sc_profile s"
    using f by (auto simp: weight_of_def)
  have "sc_demand s ! i > 0" "sc_demand s ! j > 0" using Cons.prems(10,11) by simp_all
  with d [OF Cons.prems(6,8)] d [OF Cons.prems(7,9)] d' show ?case
    by (intro exI [of _ "d + d'"]) (simp add: add_mult_distrib)
qed

lemma fair_share:
  assumes "sched_ok s" "credits_ok s" "discipline_of s = WeightedRoundRobin" "sc_enabled s"
    and "list_all round_op ops" "i < length (classes_of s)" "j < length (classes_of s)"
    and "sc_class_bucket s ! i = sc_class_bucket s ! j" "backlogged i ops s" "backlogged j ops s"
  shows "granted_count i ops s * weight_of s j \<le> (granted_count j ops s + 2 * weight_of s j) * weight_of s i"
proof -
  from rounds_run [OF assms(1-8) refl assms(9,10)] obtain d where
    i: "unat (sc_credits (sched_run ops s) ! i) + granted_count i ops s = unat (sc_credits s ! i) + d * weight_of s i" and
    j: "unat (sc_credits (sched_run ops s) ! j) + granted_count j ops s = unat (sc_credits s ! j) + d * weight_of s j" and
    c: "credits_ok (sched_run ops s)" "sc_profile (sched_run ops s) = sc_profile s" by blast
  have "unat (sc_credits s ! i) \<le> weight_of s i" using assms(2,6) by (simp add: credits_ok_def)
  with i have up: "granted_count i ops s \<le> (d + 1) * weight_of s i" by (simp add: add_mult_distrib)
  have "unat (sc_credits (sched_run ops s) ! j) \<le> weight_of s j"
    using c assms(7) by (simp add: credits_ok_def weight_of_def)
  with j have "(d + 1) * weight_of s j \<le> granted_count j ops s + 2 * weight_of s j" by (simp add: add_mult_distrib)
  note down = mult_le_mono1 [OF this, of "weight_of s i"]
  have "granted_count i ops s * weight_of s j \<le> (d + 1) * weight_of s i * weight_of s j"
    using mult_le_mono1 [OF up] .
  also have "\<dots> = (d + 1) * weight_of s j * weight_of s i" by (simp only: mult.commute mult.left_commute mult.assoc)
  also note down
  finally show ?thesis .
qed

text \<open>Credits stay within the weight of their class, from the build on.\<close>

lemma credits_next:
  assumes ok: "sched_ok s" and c: "credits_ok s"
  shows "credits_ok (sched_next op s)"
proof (cases "discipline_of s = WeightedRoundRobin \<and> sc_enabled s \<and> round_op op")
  case True
  then show ?thesis using round_step(2) [OF ok _ _ _ c] by blast
next
  case False
  have "sc_credits (sched_next op s) = sc_credits s"
  proof (cases op)
    case (OpAcquire cl bytes now)
    obtain a s' where a: "shape_acquire cl bytes now s = (a, s')" by fastforce
    have "sc_credits s' = sc_credits s"
    proof (cases "sc_enabled s")
      case True
      then have nw: "discipline_of s \<noteq> WeightedRoundRobin" using False OpAcquire by simp
      then have d: "sc_credits s1 = sc_credits s" if "discipline_holds k b s = (h, s1)" for k b h s1
        using that by (cases "discipline_of s")
          (auto simp: discipline_holds_def Let_def park_class_fields split: if_splits)
      from a ok show ?thesis
      proof (cases rule: acquire_cases)
        case (asked i s1 g st)
        then show ?thesis using d [OF asked(4)] nw discipline_holds_fields(1) [OF asked(4)]
          by (simp add: credit_spent_def)
      qed (use d in blast)+
    qed (use a in \<open>simp add: shape_acquire_def\<close>)
    then show ?thesis by (simp add: sched_next_def OpAcquire a)
  qed (simp_all add: sched_next_def quiet_credits set_pacing_def reports_only_fields [OF report_step_only])
  then show ?thesis using c sched_next_fields [OF ok] by (simp add: credits_ok_def weight_of_def)
qed

lemma credits_reach: "sched_reach s \<Longrightarrow> credits_ok s"
proof (induction rule: sched_reach.induct)
  case (built buckets classes queue disc p now enabled)
  show ?case by (simp add: credits_ok_def weight_of_def sched_build_def unat_weight)
next
  case (step s op)
  then show ?case using credits_next sched_reach_ok by blast
qed

lemma sched_reach_run: "sched_reach s \<Longrightarrow> sched_reach (sched_run ops s)"
  by (induction ops arbitrary: s) (simp_all add: sched_reach.step)

section \<open>Strict priority\<close>

lemma priority_grant:
  assumes ok: "sched_ok s" and sp: "discipline_of s = StrictPriority" and on: "sc_enabled s"
    and i: "i < length (classes_of s)" and run: "shape_acquire (RuleClass i) bytes now s = (a, s')"
  shows "if outranked s i then \<exists>g. a = AcquireStarved g \<and> sc_buckets s' = sc_buckets s
    else \<forall>g. a \<noteq> AcquireStarved g"
proof -
  have riv: "outranked s i \<longleftrightarrow> list_ex (\<lambda>j. cr_priority (classes_of s ! j) > cr_priority (classes_of s ! i))
      (rivals i (sc_class_bucket s ! i) s)"
    unfolding list_ex_iff outranked_def Bex_def rivals_iff by blast
  from run ok show ?thesis
  proof (cases rule: acquire_cases)
    case (held k g)
    then show ?thesis using riv sp discipline_holds_fields(4) [OF held(5)]
      by (auto simp: discipline_holds_def Let_def split: if_splits)
  next
    case (asked k s1 g st)
    have "\<not> outranked s i"
    proof
      assume "outranked s i"
      then have "park_class i s = (None, s1)"
        using asked(1,4) sp riv by (simp add: discipline_holds_def Let_def)
      then show False by (auto simp: park_class_def split: option.splits)
    qed
    then show ?thesis using asked(8) by simp
  qed (use on i in auto)
qed

section \<open>The rate of a bucket\<close>

definition bytes_granted :: "nat \<Rightarrow> sched_op \<Rightarrow> scheduler \<Rightarrow> nat" where
  "bytes_granted b op s =
     (case op of
        OpAcquire c bytes now \<Rightarrow>
          (case c of
             RuleClass i \<Rightarrow>
               if i < length (classes_of s) \<and> sc_class_bucket s ! i = b \<and> fst (shape_acquire c bytes now s) = AcquireNow
               then unat bytes else 0
           | _ \<Rightarrow> 0)
      | _ \<Rightarrow> 0)"

fun bytes_through :: "nat \<Rightarrow> sched_op list \<Rightarrow> scheduler \<Rightarrow> nat" where
  "bytes_through b [] s = 0"
| "bytes_through b (op # ops) s = bytes_granted b op s + bytes_through b ops (sched_next op s)"

fun op_before :: "instant \<Rightarrow> sched_op \<Rightarrow> bool" where
  "op_before T (OpAcquire c bytes now) \<longleftrightarrow> now \<le> T"
| "op_before T _ \<longleftrightarrow> True"

abbreviation bucket_at :: "scheduler \<Rightarrow> nat \<Rightarrow> bucket_config" where
  "bucket_at s b \<equiv> sp_buckets (sc_profile s) ! b"

definition bucket_pays :: "nat \<Rightarrow> u64 \<Rightarrow> nat \<Rightarrow> instant \<Rightarrow> scheduler \<Rightarrow> scheduler \<Rightarrow> bool" where
  "bucket_pays b rate n T s s' \<longleftrightarrow>
     n * NANO_BYTES + tk_tokens (sc_buckets s' ! b)
       \<le> tk_tokens (sc_buckets s ! b) + (tk_last (sc_buckets s' ! b) - tk_last (sc_buckets s ! b)) * unat rate
     \<and> tk_last (sc_buckets s ! b) \<le> tk_last (sc_buckets s' ! b)
     \<and> (tk_last (sc_buckets s ! b) \<le> T \<longrightarrow> tk_last (sc_buckets s' ! b) \<le> T)"

lemma bucket_pays_trans:
  assumes "bucket_pays b rate n T s s1" "bucket_pays b rate m T s1 s2"
  shows "bucket_pays b rate (n + m) T s s2"
proof -
  let ?l = "\<lambda>s. tk_last (sc_buckets s ! b)"
  have "(?l s2 - ?l s) * unat rate = (?l s2 - ?l s1) * unat rate + (?l s1 - ?l s) * unat rate"
    using assms by (simp add: bucket_pays_def flip: add_mult_distrib)
  then show ?thesis using assms by (simp add: bucket_pays_def add_mult_distrib)
qed

lemma bucket_pays_idle: "sc_buckets s' = sc_buckets s \<Longrightarrow> bucket_pays b rate 0 T s s'"
  by (simp add: bucket_pays_def)

lemma bucket_step:
  assumes ok: "sched_ok s" and on: "sc_enabled s" and op: "round_op op" "op_before T op"
    and b: "b < length (sp_buckets (sc_profile s))" "bc_rate_bps (bucket_at s b) = Some rate"
  shows "bucket_pays b rate (bytes_granted b op s) T s (sched_next op s)"
proof (cases op)
  case (OpReport r)
  then show ?thesis
    using reports_only_fields [OF report_step_only [of s r]]
    by (auto simp: bytes_granted_def sched_next_def intro!: bucket_pays_idle)
next
  case (OpAcquire c bytes now)
  obtain a s' where a: "shape_acquire c bytes now s = (a, s')" by fastforce
  have n: "length (sc_buckets s) = length (sp_buckets (sc_profile s))" using ok by (simp add: sched_ok_def sized_def)
  from a ok have "bucket_pays b rate (bytes_granted b op s) T s s'"
  proof (cases rule: acquire_cases)
    case free
    then have "bytes_granted b op s = 0"
      using on by (auto simp: bytes_granted_def OpAcquire split: shape_class.split)
    then show ?thesis using free by (simp add: bucket_pays_idle)
  next
    case (held i g)
    then have "bytes_granted b op s = 0" using a by (auto simp: bytes_granted_def OpAcquire)
    then show ?thesis using discipline_holds_fields(4) [OF held(5)] by (simp add: bucket_pays_idle)
  next
    case (asked i s1 g st)
    note f = discipline_holds_fields [OF asked(4)]
    have bs: "sc_buckets s' = (sc_buckets s)[sc_class_bucket s ! i := st]"
      by (simp add: asked(6) credit_fields f)
    show ?thesis
    proof (cases "sc_class_bucket s ! i = b")
      case True
      have ch: "token_charge (sc_buckets s ! b) (Some rate) (bc_burst_bytes (bucket_at s b)) bytes now = (g, st)"
        using asked(5) b(2) by (simp add: bucket_asked_def f True)
      have st: "sc_buckets s' ! b = st" using bs b(1) n True by simp
      have g: "bytes_granted b op s = paid g bytes"
        using asked(1,2,7) True a by (auto simp: bytes_granted_def OpAcquire paid_def)
      have "tk_tokens (token_refill rate (bc_burst_bytes (bucket_at s b)) now (sc_buckets s ! b))
          \<le> tk_tokens (sc_buckets s ! b) + (tk_last st - tk_last (sc_buckets s ! b)) * unat rate"
        using token_refill_state(3) by (simp add: token_charge_pays(3) [OF ch])
      then show ?thesis
        using token_charge_pays [OF ch] op(2) [unfolded OpAcquire] by (simp add: bucket_pays_def st g)
    next
      case False
      then have "bytes_granted b op s = 0" using asked(1) by (simp add: bytes_granted_def OpAcquire)
      moreover have "sc_buckets s' ! b = sc_buckets s ! b" using bs False by simp
      ultimately show ?thesis by (simp add: bucket_pays_def)
    qed
  qed
  then show ?thesis by (simp add: sched_next_def OpAcquire a)
next
  case (OpDeclare c)
  then show ?thesis
    by (auto simp: bytes_granted_def sched_next_def declare_demand_def intro!: bucket_pays_idle split: shape_class.split)
next
  case (OpWithdraw c)
  then show ?thesis
    by (auto simp: bytes_granted_def sched_next_def withdraw_demand_def Let_def wake_bucket_fields
        intro!: bucket_pays_idle split: shape_class.split)
qed (use op in simp)

lemma bucket_run:
  assumes "sched_ok s" "sc_enabled s" "list_all round_op ops" "list_all (op_before T) ops"
    and "b < length (sp_buckets (sc_profile s))" "bc_rate_bps (bucket_at s b) = Some rate"
  shows "bucket_pays b rate (bytes_through b ops s) T s (sched_run ops s)"
  using assms
proof (induction ops arbitrary: s)
  case Nil
  then show ?case by (simp add: bucket_pays_idle)
next
  case (Cons op ops)
  let ?s = "sched_next op s"
  have "sc_enabled ?s"
    using Cons.prems acquire_fields [OF _ Cons.prems(1)]
    by (cases op) (auto simp: sched_next_def Let_def quiet_credits reports_only_fields [OF report_step_only] split: prod.split)
  then have "bucket_pays b rate (bytes_through b ops ?s) T ?s (sched_run ops ?s)"
    using Cons.prems sched_next_fields sched_next_ok by (intro Cons.IH) simp_all
  moreover have "bucket_pays b rate (bytes_granted b op s) T s ?s"
    using Cons.prems by (intro bucket_step) simp_all
  ultimately show ?case using bucket_pays_trans by simp
qed

text \<open>From the build of a session's scheduler, the classes of a bucket together.\<close>

lemma bucket_rate:
  assumes p: "shape_profile_try_new buckets classes queue disc = Inr p"
    and b: "b < length (sp_buckets p)" "bc_rate_bps (sp_buckets p ! b) = Some rate"
    and ops: "list_all round_op ops" "list_all (op_before (t0 + dt)) ops"
  shows "bytes_through b ops (sched_build p t0 True) * NANO_BYTES
    \<le> unat (bc_burst_bytes (sp_buckets p ! b)) * NANO_BYTES + dt * unat rate"
proof -
  let ?s = "sched_build p t0 True"
  have ok: "sched_ok ?s" by (rule sched_build_ok) (use p try_new_ok in blast)
  have s: "sc_buckets ?s ! b = token_state_new (bc_burst_bytes (sp_buckets p ! b)) t0" "sc_profile ?s = p" "sc_enabled ?s"
    using b by (simp_all add: sched_build_def)
  have r: "bucket_pays b rate (bytes_through b ops ?s) (t0 + dt) ?s (sched_run ops ?s)"
    by (rule bucket_run) (use ok s b ops in simp_all)
  let ?l = "tk_last (sc_buckets (sched_run ops ?s) ! b)"
  from r have "bytes_through b ops ?s * NANO_BYTES
      \<le> unat (bc_burst_bytes (sp_buckets p ! b)) * NANO_BYTES + (?l - t0) * unat rate" "?l \<le> t0 + dt"
    by (simp_all add: bucket_pays_def s token_state_new_def)
  moreover from this(2) have "(?l - t0) * unat rate \<le> dt * unat rate" by (intro mult_le_mono1) simp
  ultimately show ?thesis using add_left_mono order_trans by blast
qed

end
