(* ===== verification/Shape_Gates.thy ===== *)
theory Shape_Gates
  imports Shape_Fairness
begin

text \<open>
  A refusal of the scheduler names something still to come: an instant after the one it was asked at, or
  a gate that is not released yet. Gates are handed out once, and no gate is parked in two places.
\<close>

section \<open>Gates are fresh\<close>

definition gates_fresh :: "scheduler \<Rightarrow> bool" where
  "gates_fresh s \<longleftrightarrow> (\<forall>g \<in> set (sc_released s). g < sc_gates s)
     \<and> (\<forall>j < length (sc_parked s). \<forall>g. sc_parked s ! j = Some g \<longrightarrow> g < sc_gates s \<and> g \<notin> set (sc_released s)
          \<and> (\<forall>k < length (sc_parked s). sc_parked s ! k = Some g \<longrightarrow> k = j))"

lemma fresh_same:
  "gates_fresh s \<Longrightarrow> sc_parked s' = sc_parked s \<Longrightarrow> sc_released s' = sc_released s \<Longrightarrow> sc_gates s' = sc_gates s \<Longrightarrow> gates_fresh s'"
  unfolding gates_fresh_def by metis

lemma wake_bucket_released_iff:
  "g \<in> set (sc_released (wake_bucket b s)) \<longleftrightarrow> g \<in> set (sc_released s)
     \<or> (\<exists>j < length (sc_parked s). sc_parked s ! j = Some g \<and> sc_class_bucket s ! j = b)"
proof -
  have "g \<in> set (sc_released (wake_bucket b s)) \<longleftrightarrow> g \<in> set (sc_released s) \<or> (\<exists>j < length (sc_parked s).
      g \<in> set (case sc_parked s ! j of Some g \<Rightarrow> (if sc_class_bucket s ! j = b then [g] else []) | None \<Rightarrow> []))"
    by (auto simp: wake_bucket_def Let_def)
  moreover have "g \<in> set (case x of Some g \<Rightarrow> (if c then [g] else []) | None \<Rightarrow> []) \<longleftrightarrow> x = Some g \<and> c" for x c
    by (auto split: option.split)
  ultimately show ?thesis by simp
qed

lemma fresh_wake:
  assumes "gates_fresh s"
  shows "gates_fresh (wake_bucket b s)"
  unfolding gates_fresh_def
proof (intro conjI ballI allI impI)
  fix g assume "g \<in> set (sc_released (wake_bucket b s))"
  then show "g < sc_gates (wake_bucket b s)"
    using assms by (auto simp: wake_bucket_released_iff wake_bucket_fields(8) gates_fresh_def)
next
  fix j g assume "j < length (sc_parked (wake_bucket b s))" "sc_parked (wake_bucket b s) ! j = Some g"
  then have j: "j < length (sc_parked s)" "sc_parked s ! j = Some g" "sc_class_bucket s ! j \<noteq> b"
    by (auto simp: wake_bucket_fields split: if_splits)
  then show "g < sc_gates (wake_bucket b s)"
    using assms by (auto simp: wake_bucket_fields(8) gates_fresh_def)
  show "g \<notin> set (sc_released (wake_bucket b s))"
    using assms j unfolding wake_bucket_released_iff gates_fresh_def by metis
  fix k assume "k < length (sc_parked (wake_bucket b s))" "sc_parked (wake_bucket b s) ! k = Some g"
  then have "k < length (sc_parked s)" "sc_parked s ! k = Some g" by (auto simp: wake_bucket_fields split: if_splits)
  then show "k = j" using assms j unfolding gates_fresh_def by metis
qed

lemma fresh_park:
  assumes "gates_fresh s" "park_class i s = (h, s')"
  shows "gates_fresh s'"
proof (cases "sc_parked s ! i")
  case (Some g)
  then show ?thesis using assms by (simp add: park_class_def)
next
  case None
  then have s': "s' = s\<lparr> sc_parked := (sc_parked s)[i := Some (sc_gates s)], sc_gates := sc_gates s + 1 \<rparr>"
    using assms(2) by (auto simp: park_class_def)
  have old: "g < sc_gates s" if "j < length (sc_parked s)" "sc_parked s ! j = Some g" for j g
    using assms(1) that by (auto simp: gates_fresh_def)
  have rel: "g < sc_gates s" if "g \<in> set (sc_released s)" for g using assms(1) that by (auto simp: gates_fresh_def)
  show ?thesis
    unfolding gates_fresh_def
  proof (intro conjI ballI allI impI)
    fix g assume "g \<in> set (sc_released s')"
    then show "g < sc_gates s'" using rel by (fastforce simp: s')
  next
    fix j g assume j: "j < length (sc_parked s')" "sc_parked s' ! j = Some g"
    then show "g < sc_gates s'" using old by (cases "j = i") (fastforce simp: s')+
    show "g \<notin> set (sc_released s')"
      using j assms(1) rel by (cases "j = i") (auto simp: s' gates_fresh_def)
    fix k assume k: "k < length (sc_parked s')" "sc_parked s' ! k = Some g"
    show "k = j"
    proof (cases "g = sc_gates s")
      case True
      have m: "m = i" if "m < length (sc_parked s)" "(sc_parked s)[i := Some (sc_gates s)] ! m = Some (sc_gates s)" for m
        using that old [of m] by (cases "m = i") auto
      show ?thesis using m [of j] m [of k] True j k by (simp add: s')
    next
      case False
      then have m: "m \<noteq> i \<and> sc_parked s ! m = Some g"
        if "m < length (sc_parked s)" "(sc_parked s)[i := Some (sc_gates s)] ! m = Some g" for m
        using that by (cases "m = i") auto
      have "j < length (sc_parked s)" "k < length (sc_parked s)" "sc_parked s ! j = Some g" "sc_parked s ! k = Some g"
        using j k m [of j] m [of k] by (simp_all add: s')
      then show ?thesis using assms(1) unfolding gates_fresh_def by blast
    qed
  qed
qed

lemma fresh_discipline:
  assumes "gates_fresh s" "discipline_holds i b s = (h, s')"
  shows "gates_fresh s'"
proof -
  have "gates_fresh (refill_round b s)"
    unfolding refill_round_def by (rule fresh_wake) (rule fresh_same [OF assms(1)]; simp)
  then show ?thesis
    using assms fresh_park [OF assms(1), of i]
    by (auto simp: discipline_holds_def Let_def split: discipline.splits if_splits)
qed

lemma fresh_acquire:
  assumes "gates_fresh s" "shape_acquire c bytes now s = (a, s')" "sched_ok s"
  shows "gates_fresh s'"
  using assms(2,3)
proof (cases rule: acquire_cases)
  case (held i g)
  then show ?thesis using fresh_discipline [OF assms(1)] by blast
next
  case (asked i s1 g st)
  have "gates_fresh s1" using fresh_discipline [OF assms(1) asked(4)] .
  then show ?thesis by (rule fresh_same) (simp_all add: asked(6) credit_fields)
qed (use assms(1) in simp)

lemma fresh_next:
  assumes "gates_fresh s" "sched_ok s"
  shows "gates_fresh (sched_next op s)"
proof (cases op)
  case (OpReport r)
  then show ?thesis
    using fresh_same [OF assms(1)] reports_only_fields [OF report_step_only [of s r]] by (simp add: sched_next_def)
next
  case (OpAcquire c bytes now)
  then show ?thesis using fresh_acquire [OF assms(1) _ assms(2)] by (auto simp: sched_next_def Let_def split: prod.split)
next
  case (OpDeclare c)
  then show ?thesis
    by (auto simp: sched_next_def declare_demand_def intro: fresh_same [OF assms(1)] assms(1) split: shape_class.split)
next
  case (OpWithdraw c)
  have "gates_fresh (wake_bucket b (s\<lparr> sc_demand := ds \<rparr>))" for b ds
    by (rule fresh_wake) (rule fresh_same [OF assms(1)]; simp)
  then show ?thesis
    using fresh_wake [OF assms(1)] assms(1)
    by (auto simp: OpWithdraw sched_next_def withdraw_demand_def Let_def split: shape_class.split)
next
  case (OpPacing on)
  then show ?thesis by (auto simp: sched_next_def set_pacing_def intro: fresh_same [OF assms(1)])
qed

lemma fresh_reach: "sched_reach s \<Longrightarrow> gates_fresh s"
proof (induction rule: sched_reach.induct)
  case (built buckets classes queue disc p now enabled)
  then show ?case by (simp add: gates_fresh_def sched_build_def)
next
  case (step s op)
  then show ?case using fresh_next sched_reach_ok by blast
qed

section \<open>Refusals\<close>

lemma starved_gate_closed:
  assumes "sched_reach s" "shape_acquire c bytes now s = (AcquireStarved g, s')"
  shows "g \<notin> set (sc_released s')"
proof -
  have ok: "sched_ok s" using sched_reach_ok [OF assms(1)] .
  obtain i where i: "i < length (classes_of s)" "sc_parked s' ! i = Some g" using starved_parks [OF ok assms(2)] by blast
  have "gates_fresh s'" using fresh_acquire [OF fresh_reach [OF assms(1)] assms(2) ok] .
  moreover have "i < length (sc_parked s')"
    using shape_acquire_ok [OF ok assms(2)] acquire_fields [OF assms(2) ok] i(1) by (simp add: sched_ok_def sized_def)
  ultimately show ?thesis using i(2) unfolding gates_fresh_def by blast
qed

lemma token_later_after:
  assumes "token_charge st rate burst bytes now = (TokensLater at, st')"
  shows "now < at"
proof -
  from assms obtain r where r: "rate = Some r" by (auto simp: token_charge_def split: option.splits)
  let ?st = "token_refill r burst now st" and ?need = "unat bytes * NANO_BYTES"
  from assms have "tk_tokens ?st < ?need" "0 < unat r" "at = tk_last ?st + ceiling_div (?need - tk_tokens ?st) (unat r)"
    by (auto simp: token_charge_def Let_def instant_checked_add_def r word_neq_0_conv unat_gt_0 split: if_splits option.splits)
  moreover from this have "0 < ceiling_div (?need - tk_tokens ?st) (unat r)"
    using ceiling_div_le [of "unat r" "?need - tk_tokens ?st" 0] by simp
  moreover have "now \<le> tk_last ?st" by (simp add: token_refill_state(1))
  ultimately show ?thesis by simp
qed

lemma acquire_later_after:
  assumes "shape_acquire c bytes now s = (AcquireLater at, s')"
  shows "now < at"
proof -
  from assms obtain st rate burst st' where "token_charge st rate burst bytes now = (TokensLater at, st')"
    by (auto simp: shape_acquire_def Let_def split: if_splits shape_class.splits prod.splits option.splits token_grant.splits)
  then show ?thesis by (rule token_later_after)
qed

end
