(* ===== verification/Shape_Classify.thy ===== *)
theory Shape_Classify
  imports Shape_Laws
begin

text \<open>
  Laws of classification: the first rule that matches claims the unit, whatever comes later, and a rule
  that names a field the unit does not carry is reported once, over all the units of the session.
\<close>

unbundle bit_operations_syntax

section \<open>The report-once masks\<close>

definition reported :: "scheduler \<Rightarrow> nat \<times> matcher_field \<Rightarrow> bool" where
  "reported s p \<longleftrightarrow>
     fst p < length (sc_unmatchable s) \<and> sc_unmatchable s ! fst p AND field_bit (snd p) \<noteq> 0"

definition reports :: "scheduler \<Rightarrow> (nat \<times> matcher_field) list \<Rightarrow> scheduler \<Rightarrow> bool" where
  "reports s rs s' \<longleftrightarrow> distinct rs \<and> (\<forall>p \<in> set rs. \<not> reported s p)
     \<and> (\<forall>p. reported s' p \<longleftrightarrow> reported s p \<or> p \<in> set rs)
     \<and> length (sc_unmatchable s') = length (sc_unmatchable s) \<and> sc_profile s' = sc_profile s"

lemma reports_none: "reports s [] s"
  by (simp add: reports_def)

lemma reports_append: "reports s rs s1 \<Longrightarrow> reports s1 rs' s2 \<Longrightarrow> reports s (rs @ rs') s2"
  by (auto simp: reports_def)

lemma field_bit_nonzero [simp]: "field_bit f \<noteq> 0"
  by (cases f) (simp_all add: field_bit_def)

lemma mask_or:
  "((w :: u8) OR field_bit f) AND field_bit g \<noteq> 0 \<longleftrightarrow> w AND field_bit g \<noteq> 0 \<or> g = f"
proof (cases "g = f")
  case True
  then show ?thesis by (simp add: word_ao_dist or_eq_0_iff)
next
  case False
  have "field_bit f AND field_bit g = 0" using False by (cases f; cases g) (simp_all add: field_bit_def)
  then show ?thesis using False by (simp add: word_ao_dist)
qed

lemma mask_or_zero:
  "((w :: u8) OR field_bit f) AND field_bit g = 0 \<longleftrightarrow> w AND field_bit g = 0 \<and> g \<noteq> f"
  using mask_or [of w f g] by blast

lemma report_once_reports:
  assumes "report_once i f s = (rs, s')"
  shows "reports s rs s' \<and> (\<forall>p. reported s' p \<longleftrightarrow> reported s p \<or> p = (i, f) \<and> i < length (sc_unmatchable s))"
proof -
  have r: "reported s' p \<longleftrightarrow> reported s p \<or> p = (i, f) \<and> i < length (sc_unmatchable s)" for p
    using assms
    by (cases p; cases "fst p = i") (auto simp: report_once_def Let_def reported_def mask_or_zero split: if_splits)
  moreover have "rs = (if i < length (sc_unmatchable s) \<and> \<not> reported s (i, f) then [(i, f)] else [])"
    using assms by (auto simp: report_once_def Let_def reported_def split: if_splits)
  moreover have "length (sc_unmatchable s') = length (sc_unmatchable s)" "sc_profile s' = sc_profile s"
    using assms by (auto simp: report_once_def Let_def split: if_splits)
  ultimately show ?thesis by (auto simp: reports_def)
qed

lemma report_fields_reports:
  assumes "report_fields i fs s = (rs, s')"
  shows "reports s rs s'
    \<and> (\<forall>p. reported s' p \<longleftrightarrow> reported s p \<or> fst p = i \<and> i < length (sc_unmatchable s) \<and> Some (snd p) \<in> set fs)"
  using assms
proof (induction i fs s arbitrary: rs s' rule: report_fields.induct)
  case (3 i f fs s)
  obtain r1 s1 where 1: "report_once i f s = (r1, s1)" by fastforce
  obtain r2 s2 where 2: "report_fields i fs s1 = (r2, s2)" by fastforce
  have e: "rs = r1 @ r2" "s' = s2" using "3.prems" by (simp_all add: 1 2)
  note a = report_once_reports [OF 1] and b = "3.IH" [OF 1 [symmetric] refl 2]
  have n: "length (sc_unmatchable s1) = length (sc_unmatchable s)" using a by (simp add: reports_def)
  show ?case
  proof (intro conjI allI)
    show "reports s rs s'" unfolding e by (rule reports_append) (use a b in blast)+
    show "reported s' p \<longleftrightarrow> reported s p \<or> fst p = i \<and> i < length (sc_unmatchable s) \<and> Some (snd p) \<in> set (Some f # fs)" for p
      unfolding e using a b n by (cases p) auto
  qed
qed (auto simp: reports_none)

section \<open>The sweep\<close>

lemma classify_from_first:
  "fst (classify_from m ab i rules claimed s) =
     (case claimed of Some c \<Rightarrow> Some c
      | None \<Rightarrow> map_option (\<lambda>k. RuleClass (i + k)) (position (\<lambda>r. m (cr_matcher r)) rules))"
proof (induction rules arbitrary: i claimed s)
  case (Cons r rules)
  show ?case
  proof (cases "claimed = None \<and> m (cr_matcher r)")
    case True
    then show ?thesis using Cons.IH [of "i + 1" "Some (RuleClass i)" s] by simp
  next
    case False
    obtain r1 s1 where r: "report_fields i (ab (cr_matcher r)) s = (r1, s1)" by fastforce
    have "fst (classify_from m ab i (r # rules) claimed s) = fst (classify_from m ab (i + 1) rules claimed s1)"
      using False by (auto simp: r Let_def split: prod.split)
    then show ?thesis
      using Cons.IH [of "i + 1" claimed s1] False by (auto simp: option.map_comp o_def split: option.split)
  qed
qed (simp split: option.split)

lemma classify_from_reports:
  assumes "classify_from m ab i rules claimed s = (c, rs, s')"
    and "i + length rules = length (sc_unmatchable s)"
    and "\<And>x f. m x \<Longrightarrow> Some f \<notin> set (ab x)"
  shows "reports s rs s' \<and> (\<forall>p. reported s' p \<longleftrightarrow> reported s p
    \<or> i \<le> fst p \<and> fst p < i + length rules \<and> Some (snd p) \<in> set (ab (cr_matcher (rules ! (fst p - i)))))"
  using assms(1,2)
proof (induction rules arbitrary: i claimed s c rs s')
  case Nil
  then show ?case by (auto simp: reports_none)
next
  case (Cons r rules)
  have shift: "i \<le> k \<and> k < i + length (r # rules) \<and> Some f \<in> set (ab (cr_matcher ((r # rules) ! (k - i))))
    \<longleftrightarrow> (k = i \<and> Some f \<in> set (ab (cr_matcher r)))
      \<or> (i + 1 \<le> k \<and> k < i + 1 + length rules \<and> Some f \<in> set (ab (cr_matcher (rules ! (k - (i + 1))))))" for k f
    by (cases "k = i") (auto simp: nth_Cons' diff_Suc)
  show ?case
  proof (cases "claimed = None \<and> m (cr_matcher r)")
    case True
    then have "classify_from m ab (i + 1) rules (Some (RuleClass i)) s = (c, rs, s')" using Cons.prems by simp
    from Cons.IH [OF this] Cons.prems(2) assms(3) [of "cr_matcher r"] True show ?thesis
      unfolding shift by auto
  next
    case False
    obtain r1 s1 where 1: "report_fields i (ab (cr_matcher r)) s = (r1, s1)" by fastforce
    obtain c2 r2 s2 where 2: "classify_from m ab (i + 1) rules claimed s1 = (c2, r2, s2)" by (metis prod_cases3)
    have e: "rs = r1 @ r2" "s' = s2" using Cons.prems(1) False 1 2 by (auto simp: Let_def split: if_splits)
    note a = report_fields_reports [OF 1]
    have n: "length (sc_unmatchable s1) = length (sc_unmatchable s)" using a by (simp add: reports_def)
    with Cons.prems(2) have "i + 1 + length rules = length (sc_unmatchable s1)" by simp
    note b = Cons.IH [OF 2 this]
    show ?thesis
    proof (intro conjI allI)
      show "reports s rs s'" unfolding e by (rule reports_append) (use a b in blast)+
      show "reported s' p \<longleftrightarrow> reported s p \<or> i \<le> fst p \<and> fst p < i + length (r # rules)
          \<and> Some (snd p) \<in> set (ab (cr_matcher ((r # rules) ! (fst p - i))))" for p
        unfolding e shift using a b Cons.prems(2) by (cases p) auto
    qed
  qed
qed

text \<open>A rule that claims a unit asks for nothing the unit lacks.\<close>

lemma matches_complete: "matches m side meta k \<Longrightarrow> Some f \<notin> set (unmatchable_fields m meta)"
  by (auto simp: matches_def claims_def unmatchable_fields_def key_in_def Let_def split: option.splits if_splits)

lemma matches_datagram_complete:
  "matches_datagram m side meta k \<Longrightarrow> Some f \<notin> set (unmatchable_fields_datagram m draft meta)"
  by (auto simp: matches_datagram_def claims_def unmatchable_fields_datagram_def key_in_def split: option.splits if_splits)

section \<open>Both carriers\<close>

lemma shape_classify_first:
  "fst (shape_classify side meta k s) =
     (case position (\<lambda>r. matches (cr_matcher r) side meta k) (classes_of s) of
        Some i \<Rightarrow> RuleClass i | None \<Rightarrow> DefaultClass)"
  using classify_from_first [of "\<lambda>m. matches m side meta k" "\<lambda>m. unmatchable_fields m meta" 0 "classes_of s" None s]
  by (auto simp: shape_classify_def Let_def class_or_default_def split: prod.split option.splits)

lemma shape_classify_datagram_first:
  "fst (shape_classify_datagram side draft meta k s) =
     (case position (\<lambda>r. matches_datagram (cr_matcher r) side meta k) (classes_of s) of
        Some i \<Rightarrow> RuleClass i | None \<Rightarrow> DefaultClass)"
  using classify_from_first [of "\<lambda>m. matches_datagram m side meta k"
      "\<lambda>m. unmatchable_fields_datagram m draft meta" 0 "classes_of s" None s]
  by (auto simp: shape_classify_datagram_def Let_def class_or_default_def split: prod.split option.splits)

text \<open>The units of a session, of either carrier, one after another; the masks they report through are
  shared. Each unit's answer is its class and what it reports.\<close>

datatype shaped_unit =
    ObjectUnit proxy_side object_meta u64
  | DatagramUnit proxy_side draft_version datagram_meta u64

fun classify_unit :: "shaped_unit \<Rightarrow> scheduler \<Rightarrow> shape_class \<times> (nat \<times> matcher_field) list \<times> scheduler" where
  "classify_unit (ObjectUnit side meta k) s = shape_classify side meta k s"
| "classify_unit (DatagramUnit side draft meta k) s = shape_classify_datagram side draft meta k s"

fun classify_run ::
  "shaped_unit list \<Rightarrow> scheduler \<Rightarrow> (shape_class \<times> (nat \<times> matcher_field) list) list \<times> scheduler" where
  "classify_run [] s = ([], s)"
| "classify_run (u # units) s =
     (case classify_unit u s of (c, rs, s) \<Rightarrow>
        (case classify_run units s of (out, s) \<Rightarrow> ((c, rs) # out, s)))"

text \<open>What a rule asks of a unit, said apart from the reports: whether it takes it, which fields it
  names, and which of them the unit carries. Every datagram states its track, and none has a subgroup it
  could leave out.\<close>

fun rule_takes :: "matcher \<Rightarrow> shaped_unit \<Rightarrow> bool" where
  "rule_takes m (ObjectUnit side meta k) = matches m side meta k"
| "rule_takes m (DatagramUnit side draft meta k) = matches_datagram m side meta k"

fun names_field :: "matcher \<Rightarrow> matcher_field \<Rightarrow> bool" where
  "names_field m FieldTrackAlias \<longleftrightarrow> mt_track_alias m \<noteq> None"
| "names_field m FieldSubgroupId \<longleftrightarrow> mt_subgroup_id m \<noteq> None"
| "names_field m FieldPriority \<longleftrightarrow> mt_priority m \<noteq> None"

fun carries_field :: "shaped_unit \<Rightarrow> matcher_field \<Rightarrow> bool" where
  "carries_field (ObjectUnit side meta k) FieldTrackAlias \<longleftrightarrow> om_track_alias meta \<noteq> None"
| "carries_field (ObjectUnit side meta k) FieldSubgroupId \<longleftrightarrow> om_subgroup_id meta \<noteq> None"
| "carries_field (ObjectUnit side meta k) FieldPriority \<longleftrightarrow> om_publisher_priority meta \<noteq> None"
| "carries_field (DatagramUnit side draft meta k) FieldPriority \<longleftrightarrow> dg_publisher_priority meta \<noteq> None"
| "carries_field (DatagramUnit side draft meta k) _ \<longleftrightarrow> True"

definition lacks_field :: "matcher \<Rightarrow> shaped_unit \<Rightarrow> matcher_field \<Rightarrow> bool" where
  "lacks_field m u f \<longleftrightarrow> names_field m f \<and> \<not> carries_field u f"

lemma unmatchable_lacks:
  "Some f \<in> set (unmatchable_fields m meta) \<longleftrightarrow> lacks_field m (ObjectUnit side meta k) f"
  "Some f \<in> set (unmatchable_fields_datagram m draft dmeta) \<longleftrightarrow> lacks_field m (DatagramUnit side draft dmeta k) f"
  by (cases f; auto simp: lacks_field_def unmatchable_fields_def unmatchable_fields_datagram_def)+

lemma classify_unit_first:
  "fst (classify_unit u s) =
     (case position (\<lambda>r. rule_takes (cr_matcher r) u) (classes_of s) of Some i \<Rightarrow> RuleClass i | None \<Rightarrow> DefaultClass)"
  by (cases u) (simp_all add: shape_classify_first shape_classify_datagram_first)

lemma classify_unit_reports:
  assumes "classify_unit u s = (c, rs, s')" "length (sc_unmatchable s) = length (classes_of s)"
  shows "reports s rs s' \<and> (\<forall>i f. reported s' (i, f) \<longleftrightarrow> reported s (i, f)
      \<or> i < length (classes_of s) \<and> lacks_field (cr_matcher (classes_of s ! i)) u f)"
proof (cases u)
  case (ObjectUnit side meta k)
  obtain c' where "classify_from (\<lambda>m. matches m side meta k) (\<lambda>m. unmatchable_fields m meta) 0 (classes_of s) None s
      = (c', rs, s')"
    using assms(1) by (auto simp: ObjectUnit shape_classify_def Let_def split: prod.splits)
  from classify_from_reports [OF this _ matches_complete] assms(2) show ?thesis
    by (simp add: ObjectUnit unmatchable_lacks(1) [of _ _ meta side k])
next
  case (DatagramUnit side draft meta k)
  obtain c' where "classify_from (\<lambda>m. matches_datagram m side meta k) (\<lambda>m. unmatchable_fields_datagram m draft meta) 0
      (classes_of s) None s = (c', rs, s')"
    using assms(1) by (auto simp: DatagramUnit shape_classify_datagram_def Let_def split: prod.splits)
  from classify_from_reports [OF this _ matches_datagram_complete] assms(2) show ?thesis
    by (simp add: DatagramUnit unmatchable_lacks(2) [of _ _ draft meta side k])
qed

lemma classify_run_each:
  assumes "classify_run units s = (out, s')" "length (sc_unmatchable s) = length (classes_of s)"
  shows "length out = length units \<and> (\<forall>n < length units.
      fst (out ! n) = (case position (\<lambda>r. rule_takes (cr_matcher r) (units ! n)) (classes_of s) of
          Some i \<Rightarrow> RuleClass i | None \<Rightarrow> DefaultClass)
      \<and> distinct (snd (out ! n))
      \<and> (\<forall>i f. (i, f) \<in> set (snd (out ! n)) \<longleftrightarrow> \<not> reported s (i, f) \<and> i < length (classes_of s)
          \<and> lacks_field (cr_matcher (classes_of s ! i)) (units ! n) f
          \<and> (\<forall>m < n. \<not> lacks_field (cr_matcher (classes_of s ! i)) (units ! m) f)))"
  using assms
proof (induction units arbitrary: s out)
  case (Cons u units)
  obtain c rs s1 where 1: "classify_unit u s = (c, rs, s1)" by (metis prod_cases3)
  obtain out2 where 2: "classify_run units s1 = (out2, s')" "out = (c, rs) # out2"
    using Cons.prems(1) by (auto simp: 1 split: prod.splits)
  note a = classify_unit_reports [OF 1 Cons.prems(2)]
  have f: "length (sc_unmatchable s1) = length (sc_unmatchable s)" "sc_profile s1 = sc_profile s"
    using a by (simp_all add: reports_def)
  with Cons.prems(2) have "length (sc_unmatchable s1) = length (classes_of s1)" by simp
  note b = Cons.IH [OF 2(1) this, unfolded f(2)]
  have head: "(i, g) \<in> set rs \<longleftrightarrow> \<not> reported s (i, g) \<and> i < length (classes_of s)
      \<and> lacks_field (cr_matcher (classes_of s ! i)) u g" "distinct rs" for i g
  proof -
    have "(i, g) \<in> set rs \<longleftrightarrow> \<not> reported s (i, g) \<and> reported s1 (i, g)" using a by (auto simp: reports_def)
    then show "(i, g) \<in> set rs \<longleftrightarrow> \<not> reported s (i, g) \<and> i < length (classes_of s)
      \<and> lacks_field (cr_matcher (classes_of s ! i)) u g" using a by blast
    show "distinct rs" using a by (simp add: reports_def)
  qed
  have first: "c = (case position (\<lambda>r. rule_takes (cr_matcher r) u) (classes_of s) of
      Some i \<Rightarrow> RuleClass i | None \<Rightarrow> DefaultClass)"
    using classify_unit_first [of u s] by (simp add: 1)
  show ?case
  proof (intro conjI allI impI)
    show "length out = length (u # units)" using b by (simp add: 2(2))
  next
    fix n assume n: "n < length (u # units)"
    show "fst (out ! n) = (case position (\<lambda>r. rule_takes (cr_matcher r) ((u # units) ! n)) (classes_of s) of
        Some i \<Rightarrow> RuleClass i | None \<Rightarrow> DefaultClass)"
      using n b first by (cases n) (simp_all add: 2(2))
    show "distinct (snd (out ! n))" using n b head(2) by (cases n) (simp_all add: 2(2))
    show "(i, g) \<in> set (snd (out ! n)) \<longleftrightarrow> \<not> reported s (i, g) \<and> i < length (classes_of s)
        \<and> lacks_field (cr_matcher (classes_of s ! i)) ((u # units) ! n) g
        \<and> (\<forall>m < n. \<not> lacks_field (cr_matcher (classes_of s ! i)) ((u # units) ! m) g)" for i g
    proof (cases n)
      case 0
      then show ?thesis using head(1) by (simp add: 2(2))
    next
      case (Suc k)
      then have "(i, g) \<in> set (snd (out ! n)) \<longleftrightarrow> \<not> reported s1 (i, g) \<and> i < length (classes_of s)
          \<and> lacks_field (cr_matcher (classes_of s ! i)) (units ! k) g
          \<and> (\<forall>m < k. \<not> lacks_field (cr_matcher (classes_of s ! i)) (units ! m) g)"
        using b n by (simp add: 2(2))
      then show ?thesis using a by (auto simp: Suc All_less_Suc2)
    qed
  qed
qed simp

lemma sched_build_unreported: "\<not> reported (sched_build p now enabled) q"
  by (simp add: reported_def sched_build_def)

lemma sched_build_masks:
  "classes_of (sched_build p now enabled) = sp_classes p"
  "length (sc_unmatchable (sched_build p now enabled)) = length (sp_classes p)"
  by (simp_all add: sched_build_def)

end
