(* ===== verification/Shape_Stats.thy ===== *)
theory Shape_Stats
  imports Shape_Scheduler
begin

text \<open>
  The counters of the shaper (\<open>shape/stats.rs\<close>): a recorder for each session, and one for the proxy that
  every session writes to as well. A writer is a function of the pair of the two; a counter is an atomic
  \<open>u64\<close>, which wraps, and a snapshot adds without wrapping.
\<close>

section \<open>The code\<close>

datatype direction = Uplink | Downlink

datatype leg = ClientLeg | UpstreamLeg

fun direction_index :: "direction \<Rightarrow> nat" where
  "direction_index Uplink = 0"
| "direction_index Downlink = 1"

fun direction_from :: "proxy_side \<Rightarrow> direction" where
  "direction_from ClientToProxy = Uplink"
| "direction_from ProxyToRelay = Uplink"
| "direction_from RelayToProxy = Downlink"
| "direction_from ProxyToClient = Downlink"

fun split_side :: "proxy_side \<Rightarrow> leg \<times> direction" where
  "split_side ClientToProxy = (ClientLeg, Uplink)"
| "split_side ProxyToRelay = (UpstreamLeg, Uplink)"
| "split_side RelayToProxy = (UpstreamLeg, Downlink)"
| "split_side ProxyToClient = (ClientLeg, Downlink)"

fun opposite_leg :: "leg \<Rightarrow> leg" where
  "opposite_leg ClientLeg = UpstreamLeg"
| "opposite_leg UpstreamLeg = ClientLeg"

fun leg_index :: "leg \<Rightarrow> nat" where
  "leg_index ClientLeg = 0"
| "leg_index UpstreamLeg = 1"

text \<open>The rows, as stored and as a snapshot reports them.\<close>

record direction_stats =
  ds_objects_seen :: u64
  ds_bytes_shaped :: u64
  ds_objects_expired :: u64
  ds_streams_reset :: u64
  ds_streams_mixed :: u64

record class_stats =
  cs_name :: string
  cs_bytes_delivered :: u64
  cs_bytes_dropped :: u64
  cs_objects_delivered :: u64
  cs_objects_dropped :: u64
  cs_tokens_exhausted :: u64
  cs_blocked :: u64
  cs_starved :: u64

definition class_stats_named :: "string \<Rightarrow> class_stats" where
  "class_stats_named name =
     \<lparr> cs_name = name, cs_bytes_delivered = 0, cs_bytes_dropped = 0, cs_objects_delivered = 0,
       cs_objects_dropped = 0, cs_tokens_exhausted = 0, cs_blocked = 0, cs_starved = 0 \<rparr>"

definition class_stats_reset :: "class_stats \<Rightarrow> class_stats" where
  "class_stats_reset c =
     c\<lparr> cs_bytes_delivered := 0, cs_bytes_dropped := 0, cs_objects_delivered := 0,
        cs_objects_dropped := 0, cs_tokens_exhausted := 0, cs_blocked := 0, cs_starved := 0 \<rparr>"

definition direction_stats_new :: direction_stats where
  "direction_stats_new =
     \<lparr> ds_objects_seen = 0, ds_bytes_shaped = 0, ds_objects_expired = 0, ds_streams_reset = 0,
       ds_streams_mixed = 0 \<rparr>"

record proxy_recorder =
  pr_legs :: "direction_stats list list"
  pr_classes :: "class_stats list option"
  pr_default :: class_stats
  pr_unshapeable :: class_stats

definition proxy_recorder_new :: proxy_recorder where
  "proxy_recorder_new =
     \<lparr> pr_legs = [[direction_stats_new, direction_stats_new], [direction_stats_new, direction_stats_new]],
       pr_classes = None, pr_default = class_stats_named [], pr_unshapeable = class_stats_named [] \<rparr>"

definition pr_class_rows :: "proxy_recorder \<Rightarrow> class_stats list" where
  "pr_class_rows px = (case pr_classes px of Some rows \<Rightarrow> rows | None \<Rightarrow> [])"

definition adopt_classes :: "string list \<Rightarrow> proxy_recorder \<Rightarrow> bool \<times> proxy_recorder" where
  "adopt_classes names px =
     (if names = [] then (False, px)
      else
        let rows = (case pr_classes px of Some rows \<Rightarrow> rows | None \<Rightarrow> map class_stats_named names)
        in (map cs_name rows = names, px\<lparr> pr_classes := Some rows \<rparr>))"

record shape_recorder =
  sr_classes :: "class_stats list"
  sr_default :: class_stats
  sr_unshapeable :: class_stats
  sr_totals :: "direction_stats list"
  sr_proxy_sized :: bool

definition recorder_for_profile :: "shape_profile option \<Rightarrow> shape_recorder" where
  "recorder_for_profile profile =
     \<lparr> sr_classes = (case profile of Some p \<Rightarrow> map (class_stats_named \<circ> cr_name) (sp_classes p) | None \<Rightarrow> []),
       sr_default = class_stats_named [], sr_unshapeable = class_stats_named [],
       sr_totals = [direction_stats_new, direction_stats_new], sr_proxy_sized = False \<rparr>"

definition recorder_attached ::
  "shape_profile option \<Rightarrow> proxy_recorder \<Rightarrow> shape_recorder \<times> proxy_recorder" where
  "recorder_attached profile px =
     (let r = recorder_for_profile profile in
      case profile of
        Some p \<Rightarrow> (let (sized, px) = adopt_classes (map cr_name (sp_classes p)) px
                   in (r\<lparr> sr_proxy_sized := sized \<rparr>, px))
      | None \<Rightarrow> (r, px))"

text \<open>The row of a class: an index past the rows charges the default one.\<close>

definition update_row :: "(class_stats \<Rightarrow> class_stats) \<Rightarrow> shape_class \<Rightarrow> shape_recorder \<Rightarrow> shape_recorder" where
  "update_row f class r =
     (case class of
        RuleClass index \<Rightarrow>
          if index < length (sr_classes r)
          then r\<lparr> sr_classes := (sr_classes r)[index := f (sr_classes r ! index)] \<rparr>
          else r\<lparr> sr_default := f (sr_default r) \<rparr>
      | DefaultClass \<Rightarrow> r\<lparr> sr_default := f (sr_default r) \<rparr>
      | UnshapeableClass \<Rightarrow> r\<lparr> sr_unshapeable := f (sr_unshapeable r) \<rparr>)"

definition update_proxy_row ::
  "(class_stats \<Rightarrow> class_stats) \<Rightarrow> shape_class \<Rightarrow> bool \<Rightarrow> proxy_recorder \<Rightarrow> proxy_recorder" where
  "update_proxy_row f class sized px =
     (case class of
        UnshapeableClass \<Rightarrow> px\<lparr> pr_unshapeable := f (pr_unshapeable px) \<rparr>
      | RuleClass index \<Rightarrow>
          if sized \<and> index < length (pr_class_rows px)
          then px\<lparr> pr_classes := Some ((pr_class_rows px)[index := f (pr_class_rows px ! index)]) \<rparr>
          else px\<lparr> pr_default := f (pr_default px) \<rparr>
      | DefaultClass \<Rightarrow> px\<lparr> pr_default := f (pr_default px) \<rparr>)"

definition update_total ::
  "(direction_stats \<Rightarrow> direction_stats) \<Rightarrow> proxy_side \<Rightarrow> shape_recorder \<Rightarrow> shape_recorder" where
  "update_total f side r =
     (let k = direction_index (direction_from side) in
      r\<lparr> sr_totals := (sr_totals r)[k := f (sr_totals r ! k)] \<rparr>)"

definition update_cell ::
  "(direction_stats \<Rightarrow> direction_stats) \<Rightarrow> leg \<times> direction \<Rightarrow> proxy_recorder \<Rightarrow> proxy_recorder" where
  "update_cell f cell px =
     (let i = leg_index (fst cell); k = direction_index (snd cell) in
      px\<lparr> pr_legs := (pr_legs px)[i := (pr_legs px ! i)[k := f (pr_legs px ! i ! k)]] \<rparr>)"

definition update_arrival ::
  "(direction_stats \<Rightarrow> direction_stats) \<Rightarrow> proxy_side \<Rightarrow> proxy_recorder \<Rightarrow> proxy_recorder" where
  "update_arrival f side px = update_cell f (split_side side) px"

definition update_departure ::
  "(direction_stats \<Rightarrow> direction_stats) \<Rightarrow> proxy_side \<Rightarrow> proxy_recorder \<Rightarrow> proxy_recorder" where
  "update_departure f side px =
     (let (leg, direction) = split_side side in update_cell f (opposite_leg leg, direction) px)"

text \<open>A session and its proxy; \<open>None\<close> is a session attached to none.\<close>

type_synonym recorders = "shape_recorder \<times> proxy_recorder option"

definition charge_row :: "(class_stats \<Rightarrow> class_stats) \<Rightarrow> shape_class \<Rightarrow> recorders \<Rightarrow> recorders" where
  "charge_row f class rp =
     (let (r, px) = rp in (update_row f class r, map_option (update_proxy_row f class (sr_proxy_sized r)) px))"

definition charge_arrival ::
  "(direction_stats \<Rightarrow> direction_stats) \<Rightarrow> proxy_side \<Rightarrow> recorders \<Rightarrow> recorders" where
  "charge_arrival f side rp =
     (let (r, px) = rp in (update_total f side r, map_option (update_arrival f side) px))"

definition note_object_seen :: "proxy_side \<Rightarrow> u64 \<Rightarrow> recorders \<Rightarrow> recorders" where
  "note_object_seen side bytes =
     charge_arrival (\<lambda>d. d\<lparr> ds_objects_seen := ds_objects_seen d + 1, ds_bytes_shaped := ds_bytes_shaped d + bytes \<rparr>) side"

definition note_unshapeable_seen :: "proxy_side \<Rightarrow> u64 \<Rightarrow> recorders \<Rightarrow> recorders" where
  "note_unshapeable_seen side bytes =
     charge_arrival (\<lambda>d. d\<lparr> ds_bytes_shaped := ds_bytes_shaped d + bytes \<rparr>) side"

definition note_dropped :: "shape_class \<Rightarrow> u64 \<Rightarrow> recorders \<Rightarrow> recorders" where
  "note_dropped class bytes =
     charge_row (\<lambda>c. c\<lparr> cs_objects_dropped := cs_objects_dropped c + 1, cs_bytes_dropped := cs_bytes_dropped c + bytes \<rparr>) class"

definition note_blocked :: "shape_class \<Rightarrow> recorders \<Rightarrow> recorders" where
  "note_blocked class = charge_row (\<lambda>c. c\<lparr> cs_blocked := cs_blocked c + 1 \<rparr>) class"

definition note_stream_reset_by_shaping :: "proxy_side \<Rightarrow> recorders \<Rightarrow> recorders" where
  "note_stream_reset_by_shaping side =
     charge_arrival (\<lambda>d. d\<lparr> ds_streams_reset := ds_streams_reset d + 1 \<rparr>) side"

definition note_delivered :: "proxy_side \<Rightarrow> shape_class \<Rightarrow> u64 \<Rightarrow> recorders \<Rightarrow> recorders" where
  "note_delivered side class bytes rp =
     (let (r, px) = charge_row (\<lambda>c. c\<lparr> cs_objects_delivered := cs_objects_delivered c + 1,
            cs_bytes_delivered := cs_bytes_delivered c + bytes \<rparr>) class rp
      in (r, map_option (update_departure (\<lambda>d. d\<lparr> ds_bytes_shaped := ds_bytes_shaped d + bytes,
            ds_objects_seen := (if class = UnshapeableClass then ds_objects_seen d else ds_objects_seen d + 1) \<rparr>) side) px))"

definition note_tokens_exhausted :: "shape_class \<Rightarrow> recorders \<Rightarrow> recorders" where
  "note_tokens_exhausted class = charge_row (\<lambda>c. c\<lparr> cs_tokens_exhausted := cs_tokens_exhausted c + 1 \<rparr>) class"

definition note_starved :: "shape_class \<Rightarrow> recorders \<Rightarrow> recorders" where
  "note_starved class = charge_row (\<lambda>c. c\<lparr> cs_starved := cs_starved c + 1 \<rparr>) class"

definition note_expired :: "proxy_side \<Rightarrow> recorders \<Rightarrow> recorders" where
  "note_expired side = charge_arrival (\<lambda>d. d\<lparr> ds_objects_expired := ds_objects_expired d + 1 \<rparr>) side"

definition note_mixed_class_stream :: "proxy_side \<Rightarrow> recorders \<Rightarrow> recorders" where
  "note_mixed_class_stream side = charge_arrival (\<lambda>d. d\<lparr> ds_streams_mixed := ds_streams_mixed d + 1 \<rparr>) side"

text \<open>Snapshots.\<close>

record shape_stats =
  ss_classes :: "class_stats list"
  ss_default :: class_stats
  ss_unshapeable :: class_stats
  ss_totals :: direction_stats
  ss_uplink :: direction_stats
  ss_downlink :: direction_stats

definition recorder_snapshot :: "shape_recorder \<Rightarrow> shape_stats" where
  "recorder_snapshot r =
     (let uplink = sr_totals r ! direction_index Uplink; downlink = sr_totals r ! direction_index Downlink in
      \<lparr> ss_classes = sr_classes r, ss_default = sr_default r, ss_unshapeable = sr_unshapeable r,
        ss_totals =
          \<lparr> ds_objects_seen = sat_add (ds_objects_seen uplink) (ds_objects_seen downlink),
            ds_bytes_shaped = sat_add (ds_bytes_shaped uplink) (ds_bytes_shaped downlink),
            ds_objects_expired = sat_add (ds_objects_expired uplink) (ds_objects_expired downlink),
            ds_streams_reset = sat_add (ds_streams_reset uplink) (ds_streams_reset downlink),
            ds_streams_mixed = sat_add (ds_streams_mixed uplink) (ds_streams_mixed downlink) \<rparr>,
        ss_uplink = uplink, ss_downlink = downlink \<rparr>)"

record session_stats =
  se_objects_seen :: u64
  se_objects_dropped :: u64
  se_objects_expired :: u64
  se_streams_reset :: u64
  se_bytes_shaped :: u64

record proxy_stats =
  ps_per_leg :: "direction_stats list list"
  ps_sessions :: session_stats
  ps_classes :: "class_stats list"
  ps_default :: class_stats
  ps_unshapeable :: class_stats

definition proxy_snapshot :: "proxy_recorder \<Rightarrow> proxy_stats" where
  "proxy_snapshot px =
     (let per_leg = map (\<lambda>l. [pr_legs px ! leg_index l ! 0, pr_legs px ! leg_index l ! 1]) [ClientLeg, UpstreamLeg];
          from_client = per_leg ! leg_index ClientLeg ! direction_index Uplink;
          from_relay = per_leg ! leg_index UpstreamLeg ! direction_index Downlink;
          dropped = foldl (\<lambda>sum row. sat_add sum (cs_objects_dropped row)) 0
            (pr_class_rows px @ [pr_default px, pr_unshapeable px])
      in \<lparr> ps_per_leg = per_leg,
           ps_sessions =
             \<lparr> se_objects_seen = sat_add (ds_objects_seen from_client) (ds_objects_seen from_relay),
               se_objects_dropped = dropped,
               se_objects_expired = sat_add (ds_objects_expired from_client) (ds_objects_expired from_relay),
               se_streams_reset = sat_add (ds_streams_reset from_client) (ds_streams_reset from_relay),
               se_bytes_shaped = sat_add (ds_bytes_shaped from_client) (ds_bytes_shaped from_relay) \<rparr>,
           ps_classes = pr_class_rows px, ps_default = pr_default px, ps_unshapeable = pr_unshapeable px \<rparr>)"

definition proxy_reset :: "proxy_recorder \<Rightarrow> proxy_recorder" where
  "proxy_reset px =
     px\<lparr> pr_legs := map (map (\<lambda>_. direction_stats_new)) (pr_legs px),
         pr_classes := map_option (map class_stats_reset) (pr_classes px),
         pr_default := class_stats_reset (pr_default px),
         pr_unshapeable := class_stats_reset (pr_unshapeable px) \<rparr>"

end
