(* ===== verification/Shape_Stats_Laws.thy ===== *)
theory Shape_Stats_Laws
  imports Shape_Stats
begin

text \<open>
  Laws of the counters: every writer moves the row of its class and the total of its side by the same
  amount in the session and in the proxy, so the proxy is at any moment the sum of the sessions attached
  to it.
\<close>

section \<open>Fields\<close>

datatype class_field =
  BytesDelivered | BytesDropped | ObjectsDelivered | ObjectsDropped | TokensExhausted | Blocked | Starved

fun cs_get :: "class_field \<Rightarrow> class_stats \<Rightarrow> u64" where
  "cs_get BytesDelivered c = cs_bytes_delivered c"
| "cs_get BytesDropped c = cs_bytes_dropped c"
| "cs_get ObjectsDelivered c = cs_objects_delivered c"
| "cs_get ObjectsDropped c = cs_objects_dropped c"
| "cs_get TokensExhausted c = cs_tokens_exhausted c"
| "cs_get Blocked c = cs_blocked c"
| "cs_get Starved c = cs_starved c"

datatype total_field = ObjectsSeen | BytesShaped | ObjectsExpired | StreamsReset | StreamsMixed

fun ds_get :: "total_field \<Rightarrow> direction_stats \<Rightarrow> u64" where
  "ds_get ObjectsSeen d = ds_objects_seen d"
| "ds_get BytesShaped d = ds_bytes_shaped d"
| "ds_get ObjectsExpired d = ds_objects_expired d"
| "ds_get StreamsReset d = ds_streams_reset d"
| "ds_get StreamsMixed d = ds_streams_mixed d"

definition row_total :: "class_field \<Rightarrow> shape_recorder \<Rightarrow> u64" where
  "row_total f r = sum_list (map (cs_get f) (sr_classes r)) + cs_get f (sr_default r) + cs_get f (sr_unshapeable r)"

definition proxy_row_total :: "class_field \<Rightarrow> proxy_recorder \<Rightarrow> u64" where
  "proxy_row_total f px =
     sum_list (map (cs_get f) (pr_class_rows px)) + cs_get f (pr_default px) + cs_get f (pr_unshapeable px)"

definition side_total :: "total_field \<Rightarrow> proxy_side \<Rightarrow> shape_recorder \<Rightarrow> u64" where
  "side_total f side r = ds_get f (sr_totals r ! direction_index (direction_from side))"

definition cell_total :: "total_field \<Rightarrow> leg \<times> direction \<Rightarrow> proxy_recorder \<Rightarrow> u64" where
  "cell_total f cell px = ds_get f (pr_legs px ! leg_index (fst cell) ! direction_index (snd cell))"

definition recorder_ok :: "shape_recorder \<Rightarrow> bool" where
  "recorder_ok r \<longleftrightarrow> length (sr_totals r) = 2"

definition proxy_ok :: "proxy_recorder \<Rightarrow> bool" where
  "proxy_ok px \<longleftrightarrow> length (pr_legs px) = 2 \<and> length (pr_legs px ! 0) = 2 \<and> length (pr_legs px ! 1) = 2"

section \<open>One charge\<close>

lemma sum_list_moved:
  fixes h :: "'a \<Rightarrow> 'b::ab_group_add"
  shows "i < length xs \<Longrightarrow> h y = h (xs ! i) + d \<Longrightarrow>
    sum_list (map h (xs[i := y])) = sum_list (map h xs) + d"
proof (induction xs arbitrary: i)
  case (Cons x xs)
  then show ?case by (cases i) (simp_all add: ac_simps)
qed simp

lemma update_row_total:
  assumes "\<And>c. cs_get f (g c) = cs_get f c + d"
  shows "row_total f (update_row g class r) = row_total f r + d"
  using assms
  by (cases "class") (simp_all add: update_row_def row_total_def sum_list_moved)

lemma update_proxy_row_total:
  assumes "\<And>c. cs_get f (g c) = cs_get f c + d"
  shows "proxy_row_total f (update_proxy_row g class sized px) = proxy_row_total f px + d"
  using assms
  by (cases "class") (simp_all add: update_proxy_row_def proxy_row_total_def pr_class_rows_def sum_list_moved split: option.split)

lemma indexes:
  "direction_index d < 2" "leg_index l < 2" "direction_index d = direction_index e \<longleftrightarrow> d = e" "leg_index l = leg_index m \<longleftrightarrow> l = m"
  by (cases d; cases e; cases l; cases m; simp)+

lemma update_total_side:
  assumes "\<And>c. ds_get f (g c) = ds_get f c + d" "recorder_ok r"
  shows "side_total f side' (update_total g side r)
    = side_total f side' r + (if direction_from side' = direction_from side then d else 0)"
  using assms indexes(1) [of "direction_from side"] indexes(3) [of "direction_from side" "direction_from side'"]
  by (cases "direction_from side' = direction_from side")
    (auto simp: side_total_def update_total_def recorder_ok_def Let_def)

lemma update_cell_total:
  assumes "\<And>c. ds_get f (g c) = ds_get f c + d" "proxy_ok px"
  shows "cell_total f cell' (update_cell g cell px) = cell_total f cell' px + (if cell' = cell then d else 0)"
proof -
  obtain l k l' k' where c: "cell = (l, k)" "cell' = (l', k')" by (cases cell, cases cell')
  have n: "length (pr_legs px ! leg_index l) = 2" "leg_index l < length (pr_legs px)"
    using assms(2) by (cases l; simp add: proxy_ok_def)+
  show ?thesis
    using assms(1) n indexes(1) [of k] indexes(3) [of k k'] indexes(4) [of l l']
    by (cases "l = l'"; cases "k = k'") (auto simp: cell_total_def update_cell_def c Let_def)
qed

text \<open>What each field leaves alone.\<close>

lemma update_keeps:
  "row_total f (update_total g side r) = row_total f r" "side_total h side' (update_row k class r) = side_total h side' r"
  "proxy_row_total f (update_cell g cell px) = proxy_row_total f px"
  "cell_total h cell (update_proxy_row k class sized px) = cell_total h cell px"
  "recorder_ok (update_total g side r) = recorder_ok r" "recorder_ok (update_row k class r) = recorder_ok r"
  "proxy_ok (update_proxy_row k class sized px) = proxy_ok px"
  "sr_proxy_sized (update_row k class r) = sr_proxy_sized r" "sr_proxy_sized (update_total g side r) = sr_proxy_sized r"
  by (simp_all add: row_total_def update_total_def side_total_def update_row_def proxy_row_total_def update_cell_def
      cell_total_def update_proxy_row_def recorder_ok_def proxy_ok_def pr_class_rows_def Let_def split: shape_class.split)

lemma update_cell_ok: "proxy_ok px \<Longrightarrow> proxy_ok (update_cell g cell px)"
  by (cases "fst cell") (simp_all add: proxy_ok_def update_cell_def Let_def)

section \<open>The writers\<close>

datatype note_op =
    NoteSeen proxy_side u64
  | NoteUnshapeable proxy_side u64
  | NoteDropped shape_class u64
  | NoteBlocked shape_class
  | NoteReset proxy_side
  | NoteDelivered proxy_side shape_class u64
  | NoteExhausted shape_class
  | NoteStarved shape_class
  | NoteExpired proxy_side
  | NoteMixed proxy_side

fun note_step :: "note_op \<Rightarrow> recorders \<Rightarrow> recorders" where
  "note_step (NoteSeen side bytes) = note_object_seen side bytes"
| "note_step (NoteUnshapeable side bytes) = note_unshapeable_seen side bytes"
| "note_step (NoteDropped class bytes) = note_dropped class bytes"
| "note_step (NoteBlocked class) = note_blocked class"
| "note_step (NoteReset side) = note_stream_reset_by_shaping side"
| "note_step (NoteDelivered side class bytes) = note_delivered side class bytes"
| "note_step (NoteExhausted class) = note_tokens_exhausted class"
| "note_step (NoteStarved class) = note_starved class"
| "note_step (NoteExpired side) = note_expired side"
| "note_step (NoteMixed side) = note_mixed_class_stream side"

fun op_row :: "class_field \<Rightarrow> note_op \<Rightarrow> u64" where
  "op_row BytesDropped (NoteDropped class bytes) = bytes"
| "op_row ObjectsDropped (NoteDropped class bytes) = 1"
| "op_row Blocked (NoteBlocked class) = 1"
| "op_row BytesDelivered (NoteDelivered side class bytes) = bytes"
| "op_row ObjectsDelivered (NoteDelivered side class bytes) = 1"
| "op_row TokensExhausted (NoteExhausted class) = 1"
| "op_row Starved (NoteStarved class) = 1"
| "op_row _ _ = 0"

fun op_side :: "note_op \<Rightarrow> proxy_side option" where
  "op_side (NoteSeen side bytes) = Some side"
| "op_side (NoteUnshapeable side bytes) = Some side"
| "op_side (NoteReset side) = Some side"
| "op_side (NoteDelivered side class bytes) = Some side"
| "op_side (NoteExpired side) = Some side"
| "op_side (NoteMixed side) = Some side"
| "op_side _ = None"

fun op_amount :: "total_field \<Rightarrow> note_op \<Rightarrow> u64" where
  "op_amount ObjectsSeen (NoteSeen side bytes) = 1"
| "op_amount BytesShaped (NoteSeen side bytes) = bytes"
| "op_amount BytesShaped (NoteUnshapeable side bytes) = bytes"
| "op_amount StreamsReset (NoteReset side) = 1"
| "op_amount ObjectsExpired (NoteExpired side) = 1"
| "op_amount StreamsMixed (NoteMixed side) = 1"
| "op_amount _ _ = 0"

definition op_total :: "total_field \<Rightarrow> proxy_side \<Rightarrow> note_op \<Rightarrow> u64" where
  "op_total f side op =
     (case op_side op of
        Some s \<Rightarrow> if direction_from side = direction_from s then op_amount f op else 0
      | None \<Rightarrow> 0)"

definition arrives :: "proxy_side \<Rightarrow> bool" where
  "arrives side \<longleftrightarrow> side = ClientToProxy \<or> side = RelayToProxy"

definition op_arrives :: "note_op \<Rightarrow> bool" where
  "op_arrives op \<longleftrightarrow> (case op_side op of Some side \<Rightarrow> arrives side | None \<Rightarrow> True)"

lemma charge_row_writes:
  assumes "charge_row g class (r, px) = (r', px')" "\<And>f c. cs_get f (g c) = cs_get f c + d f"
  shows "row_total f r' = row_total f r + d f" "side_total h side r' = side_total h side r"
    "recorder_ok r' = recorder_ok r" "px' = map_option (update_proxy_row g class (sr_proxy_sized r)) px"
    "px = Some p \<Longrightarrow> proxy_row_total f (the px') = proxy_row_total f p + d f"
    "px = Some p \<Longrightarrow> cell_total h cell (the px') = cell_total h cell p"
    "px = Some p \<Longrightarrow> proxy_ok (the px') = proxy_ok p" "sr_proxy_sized r' = sr_proxy_sized r"
  using assms by (auto simp: charge_row_def update_row_total update_proxy_row_total update_keeps)

lemma charge_arrival_writes:
  assumes "charge_arrival g side (r, px) = (r', px')" "\<And>f c. ds_get f (g c) = ds_get f c + d f" "recorder_ok r"
  shows "row_total f r' = row_total f r"
    "side_total h side' r' = side_total h side' r + (if direction_from side' = direction_from side then d h else 0)"
    "recorder_ok r'" "px = Some p \<Longrightarrow> proxy_row_total f (the px') = proxy_row_total f p"
    "px = Some p \<Longrightarrow> proxy_ok p \<Longrightarrow>
       cell_total h cell (the px') = cell_total h cell p + (if cell = split_side side then d h else 0)"
    "px = Some p \<Longrightarrow> proxy_ok p \<Longrightarrow> proxy_ok (the px')" "sr_proxy_sized r' = sr_proxy_sized r"
  using assms
  by (auto simp: charge_arrival_def update_arrival_def update_total_side update_cell_total update_keeps update_cell_ok)

definition departs :: "proxy_side \<Rightarrow> leg \<times> direction" where
  "departs side = (let (leg, direction) = split_side side in (opposite_leg leg, direction))"

definition op_sent :: "proxy_side \<Rightarrow> note_op \<Rightarrow> u64" where
  "op_sent side op = (case op of NoteDelivered s class bytes \<Rightarrow> if s = side then bytes else 0 | _ \<Rightarrow> 0)"

lemma arrival_cells:
  assumes "arrives side" "arrives s"
  shows "split_side side = split_side s \<longleftrightarrow> direction_from side = direction_from s"
    "departs side \<noteq> split_side s" "departs side = departs s \<longleftrightarrow> side = s"
  using assms by (auto simp: arrives_def departs_def)

text \<open>What a step moves, in the session and in its proxy.\<close>

definition moved :: "note_op \<Rightarrow> recorders \<Rightarrow> recorders \<Rightarrow> bool" where
  "moved op rp rp' \<longleftrightarrow> (case rp of (r, px) \<Rightarrow> case rp' of (r', px') \<Rightarrow>
     (\<forall>f. row_total f r' = row_total f r + op_row f op)
     \<and> (\<forall>f side. side_total f side r' = side_total f side r + op_total f side op)
     \<and> recorder_ok r' \<and> sr_proxy_sized r' = sr_proxy_sized r
     \<and> (case px of None \<Rightarrow> px' = None
        | Some p \<Rightarrow> proxy_ok p \<longrightarrow> (\<exists>p'. px' = Some p' \<and> proxy_ok p'
            \<and> (\<forall>f. proxy_row_total f p' = proxy_row_total f p + op_row f op)
            \<and> (op_arrives op \<longrightarrow> (\<forall>side. arrives side \<longrightarrow>
                (\<forall>f. cell_total f (split_side side) p' = cell_total f (split_side side) p + op_total f side op)
                \<and> cell_total BytesShaped (departs side) p' = cell_total BytesShaped (departs side) p + op_sent side op)))))"

lemma moved_row:
  assumes "\<And>f c. cs_get f (g c) = cs_get f c + op_row f op" "recorder_ok (fst rp)"
    and "op_side op = None" "\<And>side. op_sent side op = 0"
  shows "moved op rp (charge_row g class rp)"
proof -
  obtain r px where rp: "rp = (r, px)" by fastforce
  obtain r' px' where c: "charge_row g class (r, px) = (r', px')" by fastforce
  note w = charge_row_writes [OF c assms(1)]
  have t: "op_total f side op = 0" for f side using assms(3) by (simp add: op_total_def)
  show ?thesis
  proof (cases px)
    case None
    then show ?thesis using w assms(2) c [unfolded None] by (simp add: moved_def rp t)
  next
    case (Some p)
    then obtain p' where p': "px' = Some p'" using w(4) by simp
    note w' = w(5-7) [OF Some, unfolded p' option.sel]
    show ?thesis using w(1-3,8) w' assms(2,4) c [unfolded Some p'] by (simp add: moved_def rp Some t)
  qed
qed

lemma moved_arrival:
  assumes "\<And>f c. ds_get f (g c) = ds_get f c + op_amount f op" "recorder_ok (fst rp)"
    and "op_side op = Some side" "\<And>f. op_row f op = 0" "\<And>side. op_sent side op = 0"
  shows "moved op rp (charge_arrival g side rp)"
proof -
  obtain r px where rp: "rp = (r, px)" by fastforce
  obtain r' px' where c: "charge_arrival g side (r, px) = (r', px')" by fastforce
  have "recorder_ok r" using assms(2) by (simp add: rp)
  note w = charge_arrival_writes [OF c assms(1) this]
  have t: "op_total f s op = (if direction_from s = direction_from side then op_amount f op else 0)" for f s
    using assms(3) by (simp add: op_total_def)
  show ?thesis
  proof (cases px)
    case None
    then have "px' = None" using c by (simp add: charge_arrival_def)
    then show ?thesis using w(1-3,7) assms(4) None c [unfolded None] by (simp add: moved_def rp t)
  next
    case (Some p)
    then obtain p' where p': "px' = Some p'" using c by (auto simp: charge_arrival_def)
    note w' = w(4-6) [OF Some, unfolded p' option.sel]
    have "cell_total f (split_side s) p' = cell_total f (split_side s) p + op_total f s op"
      "cell_total f (departs s) p' = cell_total f (departs s) p"
      if "proxy_ok p" "op_arrives op" "arrives s" for f s
      using that w'(2) arrival_cells [of s side] assms(3) by (simp_all add: op_arrives_def t)
    then show ?thesis using w(1-3,7) w'(1,3) assms(4,5) c [unfolded Some p'] by (simp add: moved_def rp Some t)
  qed
qed

lemma note_step_moved:
  assumes "recorder_ok (fst rp)"
  shows "moved op rp (note_step op rp)"
proof (cases op)
  case (NoteDelivered side cl bytes)
  let ?g = "\<lambda>c. c\<lparr> cs_objects_delivered := cs_objects_delivered c + 1, cs_bytes_delivered := cs_bytes_delivered c + bytes \<rparr>"
  let ?h = "\<lambda>d. d\<lparr> ds_bytes_shaped := ds_bytes_shaped d + bytes,
    ds_objects_seen := (if cl = UnshapeableClass then ds_objects_seen d else ds_objects_seen d + 1) \<rparr>"
  obtain r px where rp: "rp = (r, px)" by fastforce
  obtain r' px' where c: "charge_row ?g cl (r, px) = (r', px')" by fastforce
  have g: "cs_get f (?g c) = cs_get f c + op_row f op" for f c by (cases f) (simp_all add: NoteDelivered)
  note w = charge_row_writes [OF c g]
  have t: "op_total f s op = 0" for f s by (cases f) (simp_all add: op_total_def NoteDelivered)
  have e: "note_step op rp = (r', map_option (update_departure ?h side) px')"
    by (simp add: NoteDelivered note_delivered_def rp c)
  have d: "update_departure ?h side p = update_cell ?h (departs side) p" for p
    by (simp add: update_departure_def departs_def split: prod.split)
  have h: "\<exists>k. \<forall>c. ds_get f (?h c) = ds_get f c + k" for f by (cases f) (auto intro: exI [of _ 0])
  show ?thesis
  proof (cases px)
    case None
    then show ?thesis using w assms e [unfolded rp None] by (simp add: moved_def rp t)
  next
    case (Some p)
    then obtain p' where p': "px' = Some p'" using w(4) by simp
    note w' = w(5-7) [OF Some, unfolded p' option.sel]
    have "cell_total f (split_side s) (update_cell ?h (departs side) p') = cell_total f (split_side s) p"
      if "proxy_ok p" "op_arrives op" "arrives s" for f s
      using h [of f] that w' arrival_cells(2) [of side s]
        update_cell_total [of f ?h _ p' "split_side s" "departs side"]
      by (fastforce simp: op_arrives_def NoteDelivered)
    moreover have "cell_total BytesShaped (departs s) (update_cell ?h (departs side) p')
        = cell_total BytesShaped (departs s) p + op_sent s op"
      if "proxy_ok p" "op_arrives op" "arrives s" for s
      using that w' arrival_cells(3) [of s side]
        update_cell_total [of BytesShaped ?h bytes p' "departs s" "departs side"]
      by (auto simp: op_arrives_def op_sent_def NoteDelivered)
    ultimately show ?thesis using w(1-3,8) w' assms e [unfolded rp Some p'] update_cell_ok
      by (simp add: moved_def rp Some t d update_keeps)
  qed
next
  case (NoteSeen side bytes)
  have "ds_get f (d\<lparr> ds_objects_seen := ds_objects_seen d + 1, ds_bytes_shaped := ds_bytes_shaped d + bytes \<rparr>)
      = ds_get f d + op_amount f op" for f d by (cases f) (simp_all add: NoteSeen)
  from moved_arrival [OF this assms] show ?thesis by (simp add: NoteSeen note_object_seen_def op_sent_def)
next
  case (NoteUnshapeable side bytes)
  have "ds_get f (d\<lparr> ds_bytes_shaped := ds_bytes_shaped d + bytes \<rparr>) = ds_get f d + op_amount f op" for f d
    by (cases f) (simp_all add: NoteUnshapeable)
  from moved_arrival [OF this assms] show ?thesis by (simp add: NoteUnshapeable note_unshapeable_seen_def op_sent_def)
next
  case (NoteReset side)
  have "ds_get f (d\<lparr> ds_streams_reset := ds_streams_reset d + 1 \<rparr>) = ds_get f d + op_amount f op" for f d
    by (cases f) (simp_all add: NoteReset)
  from moved_arrival [OF this assms] show ?thesis by (simp add: NoteReset note_stream_reset_by_shaping_def op_sent_def)
next
  case (NoteExpired side)
  have "ds_get f (d\<lparr> ds_objects_expired := ds_objects_expired d + 1 \<rparr>) = ds_get f d + op_amount f op" for f d
    by (cases f) (simp_all add: NoteExpired)
  from moved_arrival [OF this assms] show ?thesis by (simp add: NoteExpired note_expired_def op_sent_def)
next
  case (NoteMixed side)
  have "ds_get f (d\<lparr> ds_streams_mixed := ds_streams_mixed d + 1 \<rparr>) = ds_get f d + op_amount f op" for f d
    by (cases f) (simp_all add: NoteMixed)
  from moved_arrival [OF this assms] show ?thesis by (simp add: NoteMixed note_mixed_class_stream_def op_sent_def)
next
  case (NoteDropped cl bytes)
  have "cs_get f (c\<lparr> cs_objects_dropped := cs_objects_dropped c + 1, cs_bytes_dropped := cs_bytes_dropped c + bytes \<rparr>)
      = cs_get f c + op_row f op" for f c by (cases f) (simp_all add: NoteDropped)
  from moved_row [OF this assms] show ?thesis by (simp add: NoteDropped note_dropped_def op_sent_def)
next
  case (NoteBlocked cl)
  have "cs_get f (c\<lparr> cs_blocked := cs_blocked c + 1 \<rparr>) = cs_get f c + op_row f op" for f c
    by (cases f) (simp_all add: NoteBlocked)
  from moved_row [OF this assms] show ?thesis by (simp add: NoteBlocked note_blocked_def op_sent_def)
next
  case (NoteExhausted cl)
  have "cs_get f (c\<lparr> cs_tokens_exhausted := cs_tokens_exhausted c + 1 \<rparr>) = cs_get f c + op_row f op" for f c
    by (cases f) (simp_all add: NoteExhausted)
  from moved_row [OF this assms] show ?thesis by (simp add: NoteExhausted note_tokens_exhausted_def op_sent_def)
next
  case (NoteStarved cl)
  have "cs_get f (c\<lparr> cs_starved := cs_starved c + 1 \<rparr>) = cs_get f c + op_row f op" for f c
    by (cases f) (simp_all add: NoteStarved)
  from moved_row [OF this assms] show ?thesis by (simp add: NoteStarved note_starved_def op_sent_def)
qed

section \<open>A proxy and its sessions\<close>

text \<open>Sessions open and write, and the proxy's counters may be set back to zero at any time.\<close>

datatype world_op = OpenSession "shape_profile option" | SessionNote nat note_op | ResetProxy

fun world_step :: "world_op \<Rightarrow> shape_recorder list \<times> proxy_recorder \<Rightarrow> shape_recorder list \<times> proxy_recorder" where
  "world_step (OpenSession profile) (rs, px) = (let (r, px) = recorder_attached profile px in (rs @ [r], px))"
| "world_step (SessionNote i op) (rs, px) =
     (if i < length rs then
        (case note_step op (rs ! i, Some px) of
           (r, Some px) \<Rightarrow> (rs[i := r], px)
         | (r, None) \<Rightarrow> (rs, px))
      else (rs, px))"
| "world_step ResetProxy (rs, px) = (rs, proxy_reset px)"

fun world_arrives :: "world_op \<Rightarrow> bool" where
  "world_arrives (OpenSession profile) \<longleftrightarrow> True"
| "world_arrives (SessionNote i op) \<longleftrightarrow> op_arrives op"
| "world_arrives ResetProxy \<longleftrightarrow> True"

text \<open>The sessions as they were at the last reset; none before the first.\<close>

fun at_reset ::
  "world_op list \<Rightarrow> shape_recorder list \<times> proxy_recorder \<Rightarrow> shape_recorder list \<Rightarrow> shape_recorder list" where
  "at_reset [] w base = base"
| "at_reset (op # ops) w base = at_reset ops (world_step op w) (if op = ResetProxy then fst w else base)"

text \<open>Which rows of a session the proxy keeps apart: those of a session whose classes are the proxy's, by
  name and in order. What any other session counts for its classes is the proxy's default row's.\<close>

definition same_classes :: "proxy_recorder \<Rightarrow> shape_recorder \<Rightarrow> bool" where
  "same_classes px r \<longleftrightarrow> sr_classes r \<noteq> [] \<and> map cs_name (sr_classes r) = map cs_name (pr_class_rows px)"

fun proxy_row :: "shape_class \<Rightarrow> proxy_recorder \<Rightarrow> class_stats" where
  "proxy_row (RuleClass k) px = pr_class_rows px ! k"
| "proxy_row DefaultClass px = pr_default px"
| "proxy_row UnshapeableClass px = pr_unshapeable px"

fun session_row :: "shape_class \<Rightarrow> shape_recorder \<Rightarrow> class_stats" where
  "session_row (RuleClass k) r = sr_classes r ! k"
| "session_row DefaultClass r = sr_default r"
| "session_row UnshapeableClass r = sr_unshapeable r"

text \<open>The row a class is counted in among \<open>n\<close> rows of rules.\<close>

fun row_of :: "nat \<Rightarrow> shape_class \<Rightarrow> shape_class" where
  "row_of n (RuleClass k) = (if k < n then RuleClass k else DefaultClass)"
| "row_of n c = c"

fun row_share :: "class_field \<Rightarrow> shape_class \<Rightarrow> proxy_recorder \<Rightarrow> shape_recorder \<Rightarrow> u64" where
  "row_share f (RuleClass k) px r = (if same_classes px r then cs_get f (sr_classes r ! k) else 0)"
| "row_share f DefaultClass px r =
     cs_get f (sr_default r) + (if same_classes px r then 0 else sum_list (map (cs_get f) (sr_classes r)))"
| "row_share f UnshapeableClass px r = cs_get f (sr_unshapeable r)"

definition rows_match :: "shape_recorder list \<Rightarrow> shape_recorder list \<times> proxy_recorder \<Rightarrow> bool" where
  "rows_match base w \<longleftrightarrow> (case w of (rs, px) \<Rightarrow>
     (\<forall>r \<in> set rs. sr_proxy_sized r = same_classes px r)
     \<and> (\<forall>r \<in> set rs \<union> set base. pr_classes px = None \<longrightarrow> sr_classes r = [])
     \<and> (\<forall>f row. row_of (length (pr_class_rows px)) row = row \<longrightarrow>
          cs_get f (proxy_row row px) + sum_list (map (row_share f row px) base) = sum_list (map (row_share f row px) rs)))"

definition books :: "shape_recorder list \<Rightarrow> shape_recorder list \<times> proxy_recorder \<Rightarrow> bool" where
  "books base w \<longleftrightarrow> (case w of (rs, px) \<Rightarrow>
     proxy_ok px \<and> list_all recorder_ok rs
     \<and> (\<forall>side f. arrives side \<longrightarrow>
          cell_total f (split_side side) px + sum_list (map (side_total f side) base) = sum_list (map (side_total f side) rs))
     \<and> cell_total BytesShaped (departs ClientToProxy) px + cell_total BytesShaped (departs RelayToProxy) px
        = proxy_row_total BytesDelivered px)"

lemma class_zero: "cs_get f (class_stats_named name) = 0" "ds_get h direction_stats_new = 0"
  by (cases f; simp add: class_stats_named_def) (cases h; simp add: direction_stats_new_def)

lemma sum_list_zero: "(\<And>x. x \<in> set xs \<Longrightarrow> h x = 0) \<Longrightarrow> sum_list (map h xs) = (0 :: 'a::comm_monoid_add)"
  by (induction xs) simp_all

lemma recorder_fresh:
  "row_total f (recorder_for_profile profile) = 0" "side_total h side (recorder_for_profile profile) = 0"
  "recorder_ok (recorder_for_profile profile)"
  using indexes(1) [of "direction_from side"]
  by (simp_all add: row_total_def recorder_for_profile_def class_zero side_total_def recorder_ok_def sum_list_zero
      nth_Cons' o_def split: option.split)

lemma adopt_totals:
  assumes "adopt_classes names px = (sized, px')"
  shows "proxy_row_total f px' = proxy_row_total f px" "pr_legs px' = pr_legs px"
  using assms
  by (auto simp: adopt_classes_def Let_def proxy_row_total_def pr_class_rows_def class_zero sum_list_zero o_def
      split: if_splits option.splits)

lemma books_new: "books [] ([], proxy_recorder_new)"
  by (simp add: books_def proxy_ok_def proxy_recorder_new_def proxy_row_total_def pr_class_rows_def class_zero
      cell_total_def arrives_def departs_def class_zero(1) [of BytesDelivered, simplified]
      class_zero(2) [of BytesShaped, simplified])

lemma books_open:
  assumes "books base (rs, px)"
  shows "books base (world_step (OpenSession profile) (rs, px))"
proof -
  obtain r px' where a: "recorder_attached profile px = (r, px')" by fastforce
  have f: "side_total h side r = 0" "recorder_ok r" for h side
    using a recorder_fresh [where profile = profile]
    by (auto simp: recorder_attached_def Let_def side_total_def recorder_ok_def
        split: option.splits prod.splits)
  have p: "proxy_row_total f px' = proxy_row_total f px" "pr_legs px' = pr_legs px" for f
    using a adopt_totals by (auto simp: recorder_attached_def Let_def split: option.splits prod.splits)
  show ?thesis using assms f p by (simp add: a books_def cell_total_def proxy_ok_def)
qed

lemma reset_zero:
  assumes "proxy_ok px"
  shows "proxy_row_total f (proxy_reset px) = 0" "cell_total h cell (proxy_reset px) = 0" "proxy_ok (proxy_reset px)"
proof -
  have z: "cs_get f (class_stats_reset c) = 0" for f c by (cases f) (simp_all add: class_stats_reset_def)
  show "proxy_row_total f (proxy_reset px) = 0"
    by (simp add: proxy_row_total_def proxy_reset_def pr_class_rows_def z sum_list_zero o_def split: option.split)
  have "leg_index (fst cell) < length (pr_legs px)" "direction_index (snd cell) < length (pr_legs px ! leg_index (fst cell))"
    using assms indexes(1) [of "snd cell"] by (cases "fst cell"; simp add: proxy_ok_def)+
  then show "cell_total h cell (proxy_reset px) = 0" by (simp add: cell_total_def proxy_reset_def class_zero)
  show "proxy_ok (proxy_reset px)" using assms by (simp add: proxy_ok_def proxy_reset_def)
qed

lemma books_reset:
  assumes "books base (rs, px)"
  shows "books rs (world_step ResetProxy (rs, px))"
proof -
  have "proxy_ok px" using assms by (simp add: books_def)
  from reset_zero [OF this] show ?thesis using assms by (simp add: books_def)
qed

lemma books_note:
  assumes b: "books base (rs, px)" and op: "op_arrives op"
  shows "books base (world_step (SessionNote i op) (rs, px))"
proof (cases "i < length rs")
  case True
  have ok: "recorder_ok (rs ! i)" "proxy_ok px" using b True by (simp_all add: books_def list_all_length)
  obtain r q where n: "note_step op (rs ! i, Some px) = (r, q)" by fastforce
  have "moved op (rs ! i, Some px) (r, q)" using note_step_moved [of "(rs ! i, Some px)" op] ok n by simp
  then obtain px' where q: "q = Some px'" "proxy_ok px'" "recorder_ok r"
    "\<And>f. proxy_row_total f px' = proxy_row_total f px + op_row f op"
    "\<And>f side. side_total f side r = side_total f side (rs ! i) + op_total f side op"
    "\<And>f side. arrives side \<Longrightarrow> cell_total f (split_side side) px' = cell_total f (split_side side) px + op_total f side op"
    "\<And>side. arrives side \<Longrightarrow> cell_total BytesShaped (departs side) px' = cell_total BytesShaped (departs side) px + op_sent side op"
    using ok op by (auto simp: moved_def)
  have w: "world_step (SessionNote i op) (rs, px) = (rs[i := r], px')" using True n q(1) by simp
  have s: "sum_list (map (side_total h side) (rs[i := r])) = sum_list (map (side_total h side) rs) + op_total h side op" for h side
    using q(5) True by (simp add: sum_list_moved)
  have "op_sent ClientToProxy op + op_sent RelayToProxy op = op_row BytesDelivered op"
    using op by (cases op) (auto simp: op_sent_def op_arrives_def arrives_def)
  then have d: "cell_total BytesShaped (departs ClientToProxy) px' + cell_total BytesShaped (departs RelayToProxy) px'
      = proxy_row_total BytesDelivered px'"
    using b q(4) q(7) [of ClientToProxy] q(7) [of RelayToProxy]
    by (simp add: books_def arrives_def ac_simps)
  have l: "list_all recorder_ok (rs[i := r])"
    using b q(3) by (auto simp: books_def list_all_iff dest!: set_update_subset_insert [THEN subsetD])
  show ?thesis unfolding w using b q(2,6) s d l by (simp add: books_def ac_simps)
qed (use b in simp)

fun world_run :: "world_op list \<Rightarrow> shape_recorder list \<times> proxy_recorder \<Rightarrow> shape_recorder list \<times> proxy_recorder" where
  "world_run [] w = w"
| "world_run (op # ops) w = world_run ops (world_step op w)"

lemma books_run: "books base w \<Longrightarrow> list_all world_arrives ops \<Longrightarrow> books (at_reset ops w base) (world_run ops w)"
proof (induction ops arbitrary: w base)
  case (Cons op ops)
  have "books (if op = ResetProxy then fst w else base) (world_step op w)"
    using Cons.prems books_open books_note books_reset by (cases op; cases w) simp_all
  then show ?case using Cons by simp
qed simp

section \<open>Row by row\<close>

text \<open>A writer charges one row of the session and one of the proxy, by the same amount; the others stand.\<close>

fun op_class :: "note_op \<Rightarrow> shape_class option" where
  "op_class (NoteDropped class bytes) = Some class"
| "op_class (NoteBlocked class) = Some class"
| "op_class (NoteDelivered side class bytes) = Some class"
| "op_class (NoteExhausted class) = Some class"
| "op_class (NoteStarved class) = Some class"
| "op_class _ = None"

definition same_rows :: "shape_recorder \<Rightarrow> shape_recorder \<Rightarrow> bool" where
  "same_rows r r' \<longleftrightarrow> sr_classes r' = sr_classes r \<and> sr_default r' = sr_default r
     \<and> sr_unshapeable r' = sr_unshapeable r \<and> sr_proxy_sized r' = sr_proxy_sized r"

definition same_proxy_rows :: "proxy_recorder \<Rightarrow> proxy_recorder \<Rightarrow> bool" where
  "same_proxy_rows p p' \<longleftrightarrow> pr_classes p' = pr_classes p \<and> pr_default p' = pr_default p \<and> pr_unshapeable p' = pr_unshapeable p"

lemma note_step_rows:
  assumes "note_step op (r, Some p) = (r', px')"
  shows "\<exists>p'. px' = Some p' \<and> (case op_class op of
      None \<Rightarrow> same_rows r r' \<and> same_proxy_rows p p'
    | Some c \<Rightarrow> \<exists>g. (\<forall>f x. cs_get f (g x) = cs_get f x + op_row f op) \<and> (\<forall>x. cs_name (g x) = cs_name x)
        \<and> same_rows (update_row g c r) r' \<and> same_proxy_rows (update_proxy_row g c (sr_proxy_sized r) p) p')"
proof (cases op)
  case (NoteDelivered side c bytes)
  let ?g = "\<lambda>c. c\<lparr> cs_objects_delivered := cs_objects_delivered c + 1, cs_bytes_delivered := cs_bytes_delivered c + bytes \<rparr>"
  have "cs_get f (?g x) = cs_get f x + op_row f op" "cs_name (?g x) = cs_name x" for f x
    by (cases f; simp add: NoteDelivered)+
  then show ?thesis using assms
    by (auto simp: NoteDelivered note_delivered_def charge_row_def same_rows_def same_proxy_rows_def update_departure_def
        update_cell_def Let_def intro!: exI [of _ ?g] split: prod.splits)
next
  case (NoteDropped c bytes)
  let ?g = "\<lambda>c. c\<lparr> cs_objects_dropped := cs_objects_dropped c + 1, cs_bytes_dropped := cs_bytes_dropped c + bytes \<rparr>"
  have "cs_get f (?g x) = cs_get f x + op_row f op" "cs_name (?g x) = cs_name x" for f x
    by (cases f; simp add: NoteDropped)+
  then show ?thesis using assms
    by (auto simp: NoteDropped note_dropped_def charge_row_def same_rows_def same_proxy_rows_def intro!: exI [of _ ?g])
next
  case (NoteBlocked c)
  let ?g = "\<lambda>c. c\<lparr> cs_blocked := cs_blocked c + 1 \<rparr>"
  have "cs_get f (?g x) = cs_get f x + op_row f op" "cs_name (?g x) = cs_name x" for f x
    by (cases f; simp add: NoteBlocked)+
  then show ?thesis using assms
    by (auto simp: NoteBlocked note_blocked_def charge_row_def same_rows_def same_proxy_rows_def intro!: exI [of _ ?g])
next
  case (NoteExhausted c)
  let ?g = "\<lambda>c. c\<lparr> cs_tokens_exhausted := cs_tokens_exhausted c + 1 \<rparr>"
  have "cs_get f (?g x) = cs_get f x + op_row f op" "cs_name (?g x) = cs_name x" for f x
    by (cases f; simp add: NoteExhausted)+
  then show ?thesis using assms
    by (auto simp: NoteExhausted note_tokens_exhausted_def charge_row_def same_rows_def same_proxy_rows_def intro!: exI [of _ ?g])
next
  case (NoteStarved c)
  let ?g = "\<lambda>c. c\<lparr> cs_starved := cs_starved c + 1 \<rparr>"
  have "cs_get f (?g x) = cs_get f x + op_row f op" "cs_name (?g x) = cs_name x" for f x
    by (cases f; simp add: NoteStarved)+
  then show ?thesis using assms
    by (auto simp: NoteStarved note_starved_def charge_row_def same_rows_def same_proxy_rows_def intro!: exI [of _ ?g])
qed (use assms in \<open>auto simp: note_object_seen_def note_unshapeable_seen_def note_stream_reset_by_shaping_def note_expired_def
    note_mixed_class_stream_def charge_arrival_def same_rows_def same_proxy_rows_def update_total_def update_arrival_def
    update_cell_def Let_def\<close>)

text \<open>What one charge adds to each row of the session, and what the proxy keeps of it.\<close>

lemma update_row_each:
  assumes "\<And>x. cs_get f (g x) = cs_get f x + d" "row_of (length (sr_classes r)) row = row"
  shows "cs_get f (session_row row (update_row g c r))
    = cs_get f (session_row row r) + (if row_of (length (sr_classes r)) c = row then d else 0)"
  using assms by (cases c; cases row) (auto simp: update_row_def nth_list_update split: if_splits)

lemma names_update: "(\<And>x. cs_name (g x) = cs_name x) \<Longrightarrow> i < length xs \<Longrightarrow> map cs_name (xs[i := g (xs ! i)]) = map cs_name xs"
  by (simp add: map_update list_update_id [of "map cs_name xs", simplified] list_update_same_conv)

lemma update_keeps_names:
  assumes "\<And>x. cs_name (g x) = cs_name x"
  shows "map cs_name (sr_classes (update_row g c r)) = map cs_name (sr_classes r)"
    "map cs_name (pr_class_rows (update_proxy_row g c sized p)) = map cs_name (pr_class_rows p)"
    "pr_classes (update_proxy_row g c sized p) = None \<longleftrightarrow> pr_classes p = None"
  using names_update [OF assms]
  by (cases c; auto simp: update_row_def update_proxy_row_def pr_class_rows_def split: option.splits)+

lemma same_classes_cong:
  "map cs_name (sr_classes r') = map cs_name (sr_classes r) \<Longrightarrow> map cs_name (pr_class_rows px') = map cs_name (pr_class_rows px) \<Longrightarrow>
     same_classes px' r' = same_classes px r"
  unfolding same_classes_def by (metis map_is_Nil_conv)

lemma charge_shares:
  assumes g: "\<And>x. cs_get f (g x) = cs_get f x + d" "\<And>x. cs_name (g x) = cs_name x"
    and row: "row_of (length (pr_class_rows p)) row = row"
  shows "row_share f row p (update_row g c r) - row_share f row p r
    = cs_get f (proxy_row row (update_proxy_row g c (same_classes p r) p)) - cs_get f (proxy_row row p)"
proof -
  have s: "same_classes p (update_row g c r) = same_classes p r"
    using update_keeps_names(1) [OF g(2)] by (rule same_classes_cong) simp
  have n: "same_classes p r \<Longrightarrow> length (sr_classes r) = length (pr_class_rows p)"
    unfolding same_classes_def by (metis length_map)
  show ?thesis
    using g(1) row n s
    by (cases c; cases row; cases "same_classes p r")
      (auto simp: update_row_def update_proxy_row_def nth_list_update pr_class_rows_def sum_list_moved split: if_splits)
qed

lemma row_share_cong:
  assumes "map cs_name (pr_class_rows px') = map cs_name (pr_class_rows px)"
  shows "row_share f row px' r = row_share f row px r"
proof -
  have "same_classes px' r = same_classes px r" by (rule same_classes_cong [OF refl assms])
  then show ?thesis by (cases row) simp_all
qed

lemma same_rows_share: "same_rows r r' \<Longrightarrow> row_share f row px r' = row_share f row px r"
  by (cases row) (simp_all add: same_rows_def same_classes_def)

lemma same_proxy_rows_row:
  "same_proxy_rows p p' \<Longrightarrow> cs_get f (proxy_row row p') = cs_get f (proxy_row row p)"
  "same_proxy_rows p p' \<Longrightarrow> pr_class_rows p' = pr_class_rows p"
  "same_proxy_rows p p' \<Longrightarrow> pr_classes p' = pr_classes p"
  by (cases row; simp add: same_proxy_rows_def pr_class_rows_def)+

lemma share_fresh:
  assumes "row_of (length (pr_class_rows px)) row = row"
    and "\<And>x. x \<in> set (sr_classes r) \<union> {sr_default r, sr_unshapeable r} \<Longrightarrow> cs_get f x = 0"
  shows "row_share f row px r = 0"
proof -
  have "same_classes px r \<Longrightarrow> length (sr_classes r) = length (pr_class_rows px)"
    unfolding same_classes_def by (metis length_map)
  then show ?thesis using assms by (cases row) (auto simp: sum_list_zero split: if_splits)
qed

lemma rows_new: "rows_match [] ([], proxy_recorder_new)"
proof -
  have "cs_get f (proxy_row row proxy_recorder_new) = 0" if "row_of 0 row = row" for f row
    using that by (cases row) (simp_all add: proxy_recorder_new_def class_zero)
  then show ?thesis by (simp add: rows_match_def proxy_recorder_new_def pr_class_rows_def)
qed

lemma named_name: "cs_name (class_stats_named name) = name"
  by (simp add: class_stats_named_def)

lemma attached_new:
  assumes "recorder_attached profile px = (r, px')"
  shows "sr_proxy_sized r = same_classes px' r" "pr_classes px' = None \<Longrightarrow> sr_classes r = []"
    "\<And>f x. x \<in> set (sr_classes r) \<union> {sr_default r, sr_unshapeable r} \<Longrightarrow> cs_get f x = 0"
    "pr_classes px \<noteq> None \<Longrightarrow> px' = px"
    "pr_classes px = None \<Longrightarrow> x \<in> set (pr_class_rows px') \<Longrightarrow> cs_get f x = 0"
    "pr_default px' = pr_default px" "pr_unshapeable px' = pr_unshapeable px"
  using assms
  by (auto simp: recorder_attached_def recorder_for_profile_def adopt_classes_def same_classes_def pr_class_rows_def Let_def
      class_zero named_name o_def split: option.splits if_splits)

lemma rows_open:
  assumes "rows_match base (rs, px)"
  shows "rows_match base (world_step (OpenSession profile) (rs, px))"
proof -
  obtain r px' where a: "recorder_attached profile px = (r, px')" by fastforce
  note n = attached_new [OF a]
  have old: "same_classes px' r0 = same_classes px r0" if "r0 \<in> set rs \<union> set base" for r0
  proof (cases "pr_classes px")
    case None
    then have "sr_classes r0 = []" using assms that by (simp add: rows_match_def)
    then show ?thesis by (simp add: same_classes_def)
  qed (use n(4) in simp)
  have share: "row_share f row px' r0 = row_share f row px r0" if "r0 \<in> set rs \<union> set base" for f row r0
    using old [OF that] by (cases row) simp_all
  have "cs_get f (proxy_row row px') + sum_list (map (row_share f row px') base)
      = sum_list (map (row_share f row px') (rs @ [r]))" if row: "row_of (length (pr_class_rows px')) row = row" for f row
  proof -
    have r: "row_share f row px' r = 0" by (rule share_fresh [OF row n(3)])
    have m: "map (row_share f row px') rs = map (row_share f row px) rs" "map (row_share f row px') base = map (row_share f row px) base"
      using share by simp_all
    show ?thesis
    proof (cases "pr_classes px = None \<and> (\<exists>k. row = RuleClass k)")
      case True
      then obtain k where k: "row = RuleClass k" "k < length (pr_class_rows px')" using row by (auto split: if_splits)
      have "row_share f row px r0 = 0" if "r0 \<in> set rs \<union> set base" for r0
        using True assms that k(1) by (simp add: rows_match_def same_classes_def)
      then have "sum_list (map (row_share f row px') base) = 0" "sum_list (map (row_share f row px') rs) = 0"
        unfolding m by (blast intro: sum_list_zero)+
      then show ?thesis using n(5) True k r by simp
    next
      case False
      then have "cs_get f (proxy_row row px') = cs_get f (proxy_row row px)" "row_of (length (pr_class_rows px)) row = row"
        using n(4,6,7) row by (cases row; auto)+
      then show ?thesis using assms r by (simp add: rows_match_def m del: map_eq_conv)
    qed
  qed
  then show ?thesis
    using assms old n(1,2,4) by (auto simp: a rows_match_def)
qed

lemma rows_reset:
  assumes "rows_match base (rs, px)"
  shows "rows_match rs (world_step ResetProxy (rs, px))"
proof -
  have z: "cs_get f (class_stats_reset c) = 0" "cs_name (class_stats_reset c) = cs_name c" for f c
    by (cases f; simp add: class_stats_reset_def)+
  have c: "pr_class_rows (proxy_reset px) = map class_stats_reset (pr_class_rows px)"
    "pr_classes (proxy_reset px) = None \<longleftrightarrow> pr_classes px = None"
    "pr_default (proxy_reset px) = class_stats_reset (pr_default px)"
    "pr_unshapeable (proxy_reset px) = class_stats_reset (pr_unshapeable px)"
    by (simp_all add: proxy_reset_def pr_class_rows_def split: option.split)
  have s: "same_classes (proxy_reset px) r = same_classes px r" for r
    by (rule same_classes_cong [OF refl]) (simp add: c z(2) o_def)
  have "cs_get f (proxy_row row (proxy_reset px)) = 0" if "row_of (length (pr_class_rows (proxy_reset px))) row = row" for f row
    using that by (cases row) (auto simp: c z(1) split: if_splits)
  then show ?thesis using assms by (simp add: rows_match_def s c(2))
qed

lemma rows_note:
  assumes m: "rows_match base (rs, px)"
  shows "rows_match base (world_step (SessionNote i op) (rs, px))"
proof (cases "i < length rs")
  case True
  let ?r = "rs ! i"
  obtain r' q where n: "note_step op (?r, Some px) = (r', q)" by fastforce
  have sized: "sr_proxy_sized ?r = same_classes px ?r" using m True by (simp add: rows_match_def)
  from note_step_rows [OF n] obtain px' where q: "q = Some px'" and rows: "case op_class op of
      None \<Rightarrow> same_rows ?r r' \<and> same_proxy_rows px px'
    | Some c \<Rightarrow> \<exists>g. (\<forall>f x. cs_get f (g x) = cs_get f x + op_row f op) \<and> (\<forall>x. cs_name (g x) = cs_name x)
        \<and> same_rows (update_row g c ?r) r' \<and> same_proxy_rows (update_proxy_row g c (same_classes px ?r) px) px'"
    unfolding sized by blast
  have all: "(map cs_name (pr_class_rows px') = map cs_name (pr_class_rows px) \<and> (pr_classes px' = None) = (pr_classes px = None)
        \<and> map cs_name (sr_classes r') = map cs_name (sr_classes ?r) \<and> sr_proxy_sized r' = sr_proxy_sized ?r)
      \<and> (\<forall>f row. row_of (length (pr_class_rows px)) row = row \<longrightarrow> row_share f row px r'
        = row_share f row px ?r + (cs_get f (proxy_row row px') - cs_get f (proxy_row row px)))"
  proof (cases "op_class op")
    case None
    then have s: "same_rows ?r r'" "same_proxy_rows px px'" using rows by simp_all
    then show ?thesis
      using same_proxy_rows_row [OF s(2)] same_rows_share [OF s(1)] by (simp add: same_rows_def)
  next
    case (Some c)
    then obtain g where g: "\<And>f x. cs_get f (g x) = cs_get f x + op_row f op" "\<And>x. cs_name (g x) = cs_name x"
      "same_rows (update_row g c ?r) r'" "same_proxy_rows (update_proxy_row g c (same_classes px ?r) px) px'"
      using rows by auto
    have "row_share f row px r' = row_share f row px ?r + (cs_get f (proxy_row row px') - cs_get f (proxy_row row px))"
      if "row_of (length (pr_class_rows px)) row = row" for f row
      using charge_shares [where c = c and r = ?r and f = f and row = row and p = px, OF g(1,2) that] same_proxy_rows_row(1) [OF g(4), of f row] same_rows_share [OF g(3), of f row px]
      by (simp add: algebra_simps)
    then show ?thesis
      using update_keeps_names [OF g(2)] same_proxy_rows_row(2,3) [OF g(4)] g(3)
      by (simp add: same_rows_def update_keeps(8))
  qed
  then have names: "map cs_name (pr_class_rows px') = map cs_name (pr_class_rows px)" "pr_classes px' = None \<longleftrightarrow> pr_classes px = None"
    "map cs_name (sr_classes r') = map cs_name (sr_classes ?r)" "sr_proxy_sized r' = sr_proxy_sized ?r"
    and moved: "row_of (length (pr_class_rows px)) row = row \<Longrightarrow> row_share f row px r'
      = row_share f row px ?r + (cs_get f (proxy_row row px') - cs_get f (proxy_row row px))" for f row
    by blast+
  have w: "world_step (SessionNote i op) (rs, px) = (rs[i := r'], px')" using True n q by simp
  have same: "same_classes px' r0 = same_classes px r0" for r0 by (rule same_classes_cong [OF refl names(1)])
  have len: "length (pr_class_rows px') = length (pr_class_rows px)" using names(1) by (metis length_map)
  have r': "same_classes px r' = same_classes px ?r" "sr_classes r' = [] \<longleftrightarrow> sr_classes ?r = []"
    using names(3) same_classes_cong by (blast, metis map_is_Nil_conv)
  have "cs_get f (proxy_row row px') + sum_list (map (row_share f row px') base)
      = sum_list (map (row_share f row px') (rs[i := r']))" if row: "row_of (length (pr_class_rows px')) row = row" for f row
  proof -
    have "row_share f row px' = row_share f row px" using row_share_cong [OF names(1)] by (simp add: fun_eq_iff)
    moreover have "cs_get f (proxy_row row px) + sum_list (map (row_share f row px) base) = sum_list (map (row_share f row px) rs)"
      using m row by (simp add: rows_match_def len)
    ultimately show ?thesis using moved [of row f] row True by (simp add: sum_list_moved len) (simp add: algebra_simps)
  qed
  moreover have "r0 \<in> set (rs[i := r']) \<Longrightarrow> r0 \<in> set rs \<or> r0 = r'" for r0 using set_update_subset_insert by fast
  ultimately show ?thesis
    unfolding w using m True r' names(2,4) sized by (fastforce simp: rows_match_def same)
qed (use m in simp)

lemma rows_run: "rows_match base w \<Longrightarrow> rows_match (at_reset ops w base) (world_run ops w)"
proof (induction ops arbitrary: w base)
  case (Cons op ops)
  have "rows_match (if op = ResetProxy then fst w else base) (world_step op w)"
    using Cons.prems rows_open rows_note rows_reset by (cases op; cases w) simp_all
  then show ?case using Cons by simp
qed simp

section \<open>What a session was told\<close>

text \<open>The sum of what the writes of a run add to one row of one session: \<open>n\<close> is the number of its rules and
  \<open>k\<close> the number of sessions open so far. A write of a session that is not open is no write.\<close>

fun noted :: "class_field \<Rightarrow> nat \<Rightarrow> nat \<Rightarrow> shape_class \<Rightarrow> nat \<Rightarrow> world_op list \<Rightarrow> u64" where
  "noted f i n row k [] = 0"
| "noted f i n row k (OpenSession profile # ops) = noted f i n row (Suc k) ops"
| "noted f i n row k (SessionNote j op # ops) =
     (if j = i \<and> j < k \<and> map_option (row_of n) (op_class op) = Some row then op_row f op else 0) + noted f i n row k ops"
| "noted f i n row k (ResetProxy # ops) = noted f i n row k ops"

lemma note_row:
  assumes "note_step op (r, Some px) = (r', q)"
  shows "length (sr_classes r') = length (sr_classes r)" "row_of (length (sr_classes r)) row = row \<Longrightarrow>
     cs_get f (session_row row r') = cs_get f (session_row row r)
       + (if map_option (row_of (length (sr_classes r))) (op_class op) = Some row then op_row f op else 0)"
proof -
  have same: "same_rows r r' \<Longrightarrow> session_row row r' = session_row row r \<and> sr_classes r' = sr_classes r" for r
    by (cases row) (simp_all add: same_rows_def)
  have l: "length (sr_classes (update_row g c r)) = length (sr_classes r)" for g c
    by (simp add: update_row_def split: shape_class.split)
  have "length (sr_classes r') = length (sr_classes r) \<and> (row_of (length (sr_classes r)) row = row \<longrightarrow>
     cs_get f (session_row row r') = cs_get f (session_row row r)
       + (if map_option (row_of (length (sr_classes r))) (op_class op) = Some row then op_row f op else 0))"
  proof (cases "op_class op")
    case None
    then have "same_rows r r'" using note_step_rows [OF assms] by auto
    then show ?thesis using same None by simp
  next
    case (Some c)
    then obtain g where g: "\<And>f x. cs_get f (g x) = cs_get f x + op_row f op" "same_rows (update_row g c r) r'"
      using note_step_rows [OF assms] by auto
    show ?thesis using same [OF g(2)] update_row_each [where f = f and g = g and r = r and row = row and c = c, OF g(1)] l Some
      by auto
  qed
  then show "length (sr_classes r') = length (sr_classes r)" "row_of (length (sr_classes r)) row = row \<Longrightarrow>
     cs_get f (session_row row r') = cs_get f (session_row row r)
       + (if map_option (row_of (length (sr_classes r))) (op_class op) = Some row then op_row f op else 0)"
    by blast+
qed

lemma world_noted:
  assumes "world_run ops (rs, px) = (rs', px')" "i < length rs'" "n = length (sr_classes (rs' ! i))" "row_of n row = row"
  shows "cs_get f (session_row row (rs' ! i))
      = (if i < length rs then cs_get f (session_row row (rs ! i)) else 0) + noted f i n row (length rs) ops
    \<and> (i < length rs \<longrightarrow> length (sr_classes (rs ! i)) = n)"
  using assms(1)
proof (induction ops arbitrary: rs px)
  case Nil
  then show ?case using assms(2,3) by simp
next
  case (Cons op ops)
  show ?case
  proof (cases op)
    case (OpenSession profile)
    obtain r px1 where a: "recorder_attached profile px = (r, px1)" by fastforce
    have "world_run ops (rs @ [r], px1) = (rs', px')" using Cons.prems by (simp add: OpenSession a)
    note IH = Cons.IH [OF this]
    have z: "row_of (length (sr_classes r)) row = row \<Longrightarrow> cs_get f (session_row row r) = 0"
      using attached_new(3) [OF a] by (cases row) (auto split: if_splits)
    show ?thesis
      using IH z assms(4) by (cases "i = length rs") (auto simp: OpenSession nth_append)
  next
    case (SessionNote j nop)
    show ?thesis
    proof (cases "j < length rs")
      case True
      obtain r' q where n: "note_step nop (rs ! j, Some px) = (r', q)" by fastforce
      obtain px1 where q: "q = Some px1" using note_step_rows [OF n] by blast
      have "world_run ops (rs[j := r'], px1) = (rs', px')" using Cons.prems True by (simp add: SessionNote n q)
      note IH = Cons.IH [OF this]
      show ?thesis using IH note_row [OF n] assms(4) True
        by (cases "i = j") (auto simp: SessionNote ac_simps)
    qed (use Cons SessionNote in auto)
  next
    case ResetProxy
    then show ?thesis using Cons by simp
  qed
qed

end
