(* ===== verification/Shape_Properties.thy ===== *)
theory Shape_Properties
  imports Shape_Fairness Shape_Gates Shape_Classify Shape_Stats_Laws
begin

text \<open>The properties of the proxy's shaper: its rules, its scheduler and its counters.\<close>

section \<open>A profile to speak of\<close>

text \<open>Two classes of unequal weight and priority over one bucket.\<close>

definition wan_bucket :: bucket_config where
  "wan_bucket = \<lparr> bc_name = ''wan'', bc_rate_bps = Some 1000, bc_burst_bytes = 2000, bc_ceil_bps = None \<rparr>"

definition video_class :: class_rule where
  "video_class = \<lparr> cr_name = ''video'', cr_matcher = matcher_default\<lparr> mt_track_alias := Some (range_set_new [(7, 7)]) \<rparr>,
     cr_bucket = ''wan'', cr_priority = 200, cr_weight = 3 \<rparr>"

definition bulk_class :: class_rule where
  "bulk_class = \<lparr> cr_name = ''bulk'', cr_matcher = matcher_default, cr_bucket = ''wan'', cr_priority = 10, cr_weight = 1 \<rparr>"

definition wan_profile :: "discipline \<Rightarrow> shape_profile" where
  "wan_profile disc =
     \<lparr> sp_buckets = [wan_bucket], sp_classes = [video_class, bulk_class], sp_queue = queue_config_default,
       sp_discipline = disc \<rparr>"

definition wan_scheduler :: "discipline \<Rightarrow> scheduler" where
  "wan_scheduler disc = sched_build (wan_profile disc) 0 True"

definition both_want :: "sched_op list" where
  "both_want = [OpDeclare (RuleClass 0), OpDeclare (RuleClass 1)]"

lemma inert_defaults: "inert_key (cr_matcher video_class) = None" "inert_key (cr_matcher bulk_class) = None"
  by (simp_all add: video_class_def bulk_class_def inert_key_def matcher_default_def range_is_empty_def
      range_set_new_def merge_range_def)

lemma wan_profile_accepted:
  "shape_profile_try_new [wan_bucket] [video_class, bulk_class] queue_config_default disc = Inr (wan_profile disc)"
  by (simp add: shape_profile_try_new_def queue_config_default_def wan_profile_def inert_defaults)
    (simp add: video_class_def bulk_class_def wan_bucket_def egress_side_def matcher_default_def)

lemma wan_reach: "sched_reach (sched_run ops (wan_scheduler disc))"
  unfolding wan_scheduler_def by (rule sched_reach_run) (rule sched_reach.built [OF wan_profile_accepted])


section \<open>Rules\<close>

text \<open>A set of ranges holds exactly the values of the ranges it was built from, however they are
  ordered or overlap, the search of it finds them, and two sets that hold the same values are equal.\<close>

theorem range_sets_canonical:
  "(range_contains (range_set_new rs) v \<longleftrightarrow> (\<exists>r \<in> set rs. fst r \<le> v \<and> v \<le> snd r))
    \<and> (range_set_new rs = range_set_new rs' \<longleftrightarrow>
         (\<forall>v. range_contains (range_set_new rs) v = range_contains (range_set_new rs') v))"
proof -
  have "range_contains (range_set_new rs) v \<longleftrightarrow> holds rs v" for rs v
    using range_contains_holds [OF range_set_new_ok(1)] range_set_new_ok(2) by simp
  then show ?thesis using range_set_new_eq [of rs rs'] by (auto simp: holds_def case_prod_beta)
qed

text \<open>C36. A profile is accepted, as it was given, exactly when its queue has room, it has classes, their
  names differ, and every class names a bucket that is there, no egress side and a matcher that could claim
  some unit; under weighted round robin its weight must not be zero.\<close>

theorem shape_profile_accepted_iff:
  assumes "list_all (\<lambda>c. matcher_ok (cr_matcher c)) classes"
  shows "shape_profile_try_new buckets classes queue disc
      = Inr \<lparr> sp_buckets = buckets, sp_classes = classes, sp_queue = queue, sp_discipline = disc \<rparr>
    \<longleftrightarrow> qc_depth_bytes queue \<noteq> 0 \<and> qc_depth_objects queue \<noteq> 0 \<and> classes \<noteq> [] \<and> distinct (map cr_name classes)
      \<and> list_all (\<lambda>c. cr_bucket c \<in> bc_name ` set buckets
          \<and> mt_side (cr_matcher c) \<notin> {Some ProxyToClient, Some ProxyToRelay}
          \<and> (disc \<noteq> WeightedRoundRobin \<or> cr_weight c \<noteq> 0)
          \<and> (\<exists>side kind keys k. claims (cr_matcher c) side kind keys k)) classes"
proof -
  have "class_ok buckets disc c \<longleftrightarrow> cr_bucket c \<in> bc_name ` set buckets
      \<and> mt_side (cr_matcher c) \<notin> {Some ProxyToClient, Some ProxyToRelay}
      \<and> (disc \<noteq> WeightedRoundRobin \<or> cr_weight c \<noteq> 0)
      \<and> (\<exists>side kind keys k. claims (cr_matcher c) side kind keys k)" if "c \<in> set classes" for c
  proof -
    have "matcher_ok (cr_matcher c)" using assms that by (simp add: list_all_iff)
    note inert = inert_iff [OF this]
    have "(\<exists>b \<in> set buckets. bc_name b = cr_bucket c) \<longleftrightarrow> cr_bucket c \<in> bc_name ` set buckets" by (metis image_iff)
    then show ?thesis
      using inert by (auto simp: class_ok_def egress_side_def split: option.splits proxy_side.splits)
  qed
  then show ?thesis by (simp add: try_new_ok profile_ok_def list_all_iff)
qed

theorem shape_profile_accepted_iff_witness:
  "\<exists>p. shape_profile_try_new [wan_bucket] [bulk_class] queue_config_default Fifo = Inr p"
proof -
  have "list_all (\<lambda>c. matcher_ok (cr_matcher c)) [bulk_class]"
    by (simp add: bulk_class_def matcher_default_def matcher_ok_def)
  note iff = shape_profile_accepted_iff [OF this, of "[wan_bucket]" queue_config_default Fifo]
  have "\<exists>side kind keys k. claims (cr_matcher bulk_class) side kind keys k"
    by (simp add: bulk_class_def matcher_default_def claims_def key_in_def)
  then show ?thesis using iff
    by (auto simp: queue_config_default_def wan_bucket_def bulk_class_def matcher_default_def)
qed








section \<open>Runs of the scheduler\<close>

lemma run_fields:
  assumes "sched_reach s"
  shows "sc_profile (sched_run ops s) = sc_profile s" "sc_class_bucket (sched_run ops s) = sc_class_bucket s"
  using assms by (induction ops arbitrary: s) (simp_all add: sched_reach.step sched_next_fields sched_reach_ok)

lemma round_run_enabled:
  assumes "sched_reach s" "sc_enabled s" "list_all round_op ops"
  shows "sc_enabled (sched_run ops s)"
  using assms
proof (induction ops arbitrary: s)
  case (Cons op ops)
  have "sc_enabled (sched_next op s)"
    using Cons.prems acquire_fields [OF _ sched_reach_ok [OF Cons.prems(1)]]
    by (cases op) (auto simp: sched_next_def Let_def quiet_credits reports_only_fields [OF report_step_only] split: prod.split)
  then show ?case using Cons.IH [of "sched_next op s"] sched_reach.step Cons.prems by simp
qed simp

lemma built_bucket:
  assumes "sched_reach s" "s = sched_build p now enabled" "i < length (sp_classes p)"
  shows "sc_class_bucket (sched_run ops s) ! i =
    (case position (\<lambda>b. bc_name b = cr_bucket (sp_classes p ! i)) (sp_buckets p) of Some b \<Rightarrow> b | None \<Rightarrow> 0)"
  using run_fields [OF assms(1)] assms(2,3) by (simp add: sched_build_def)

text \<open>C21. From the build of a session's shaper on, whatever the classes ask for and in whatever order, a
  bucket with a rate lets through no more bytes by any instant than one burst and what the rate allows for
  the time since the build.\<close>

theorem bucket_keeps_rate:
  assumes "shape_profile_try_new buckets classes queue disc = Inr p"
    and "b < length (sp_buckets p)" "bc_rate_bps (sp_buckets p ! b) = Some rate"
    and "list_all round_op ops" "list_all (op_before (t0 + dt)) ops"
  shows "bytes_through b ops (sched_build p t0 True) * NANO_BYTES
    \<le> unat (bc_burst_bytes (sp_buckets p ! b)) * NANO_BYTES + dt * unat rate"
  by (rule bucket_rate [OF assms])

theorem bucket_keeps_rate_witness:
  "bytes_through 0 [OpAcquire (RuleClass 0) 1500 0, OpAcquire (RuleClass 1) 1500 1000000000] (wan_scheduler Fifo) * NANO_BYTES
    \<le> 2000 * NANO_BYTES + 1000000000 * 1000"
proof -
  let ?ops = "[OpAcquire (RuleClass 0) 1500 0, OpAcquire (RuleClass 1) 1500 1000000000]"
  have "list_all (op_before (0 + 1000000000)) ?ops" by simp
  from bucket_keeps_rate [OF wan_profile_accepted [of Fifo] _ _ _ this, of 0 1000] show ?thesis
    by (simp add: wan_profile_def wan_bucket_def wan_scheduler_def)
qed

text \<open>When a bucket defers a unit, the instant it names is in the future and is the first at which the
  same charge would be granted if nothing else were charged in between.\<close>

theorem deferral_is_exact:
  assumes "token_charge st (Some rate) burst bytes now = (TokensLater at, st')" "tk_last st \<le> now"
  shows "now < at \<and> (fst (token_charge st' (Some rate) burst bytes t) = TokensNow) = (at \<le> max now t)"
proof -
  note l = token_later_earliest [OF assms]
  show ?thesis
  proof (cases "now \<le> t")
    case True
    then show ?thesis using l by simp
  next
    case False
    have "tk_last st' = now" using token_charge_pays(3) [OF assms(1)] assms(2) by simp
    then have "token_charge st' (Some rate) burst bytes t = token_charge st' (Some rate) burst bytes now"
      using False by (simp add: token_charge_def token_refill_def)
    then show ?thesis using l False by auto
  qed
qed

theorem deferral_is_exact_witness:
  "fst (token_charge (snd (token_charge (token_state_new 2000 0) (Some 1000) 2000 1500 0)) (Some 1000) 2000 1500 1000000000) = TokensNow
    \<and> fst (token_charge (snd (token_charge (snd (token_charge (token_state_new 2000 0) (Some 1000) 2000 1500 0))
        (Some 1000) 2000 1500 5)) (Some 1000) 2000 1500 999999999) \<noteq> TokensNow"
proof -
  let ?st = "snd (token_charge (token_state_new 2000 0) (Some 1000) 2000 1500 0)"
  obtain st' where st': "token_charge ?st (Some 1000) 2000 1500 5 = (TokensLater 1000000000, st')"
    by (simp add: token_charge_def token_refill_def token_state_new_def NANO_BYTES_def ceiling_div_def
        instant_checked_add_def INSTANT_LIMIT_def)
  have now: "fst (token_charge ?st (Some 1000) 2000 1500 1000000000) = TokensNow"
    by (simp add: token_charge_def token_refill_def token_state_new_def NANO_BYTES_def)
  have "tk_last ?st \<le> 5"
    by (simp add: token_charge_def token_refill_def token_state_new_def NANO_BYTES_def)
  from deferral_is_exact [OF st' this, of 999999999] show ?thesis by (simp add: st' now)
qed

text \<open>C19. A unit whose class the discipline holds back is given a gate that is not open, and in every
  later state the gate is open or the class is still parked on it behind another class of its bucket that
  has something to send and is not parked itself: no class waits for nobody.\<close>

theorem held_class_is_woken:
  assumes "sched_reach s" "shape_acquire (RuleClass i) bytes now s = (AcquireStarved g, s1)"
  shows "g \<notin> set (sc_released s1)
    \<and> (g \<in> set (sc_released (sched_run ops s1))
       \<or> sc_parked (sched_run ops s1) ! i = Some g
         \<and> (\<exists>k < length (classes_of (sched_run ops s1)). k \<noteq> i
              \<and> sc_class_bucket (sched_run ops s1) ! k = sc_class_bucket (sched_run ops s1) ! i
              \<and> sc_demand (sched_run ops s1) ! k > 0 \<and> sc_parked (sched_run ops s1) ! k = None))"
  using starved_gate_closed [OF assms] starved_woken [OF assms, of ops] by (simp add: behind_def)

lemma both_want_state:
  "sched_run both_want (wan_scheduler disc) = (wan_scheduler disc)\<lparr> sc_demand := [1, 1] \<rparr>"
  by (simp add: both_want_def sched_next_def declare_demand_def) (simp add: wan_scheduler_def sched_build_def wan_profile_def)

lemma wan_fields:
  "sc_profile (wan_scheduler disc) = wan_profile disc" "sc_class_bucket (wan_scheduler disc) = [0, 0]"
  "sc_parked (wan_scheduler disc) = [None, None]" "sc_gates (wan_scheduler disc) = 0" "sc_enabled (wan_scheduler disc)"
  "sc_released (wan_scheduler disc) = []" "sc_demand (wan_scheduler disc) = [0, 0]" "sc_credits (wan_scheduler disc) = [3, 1]"
  "sc_buckets (wan_scheduler disc) = [token_state_new 2000 0]"
  by (simp_all add: wan_scheduler_def sched_build_def wan_profile_def video_class_def bulk_class_def wan_bucket_def)

lemma wan_profile_fields:
  "sp_classes (wan_profile disc) = [video_class, bulk_class]" "sp_buckets (wan_profile disc) = [wan_bucket]"
  "sp_discipline (wan_profile disc) = disc" "sp_queue (wan_profile disc) = queue_config_default"
  "cr_priority video_class = 200" "cr_priority bulk_class = 10" "cr_weight video_class = 3" "cr_weight bulk_class = 1"
  "cr_bucket video_class = ''wan''" "cr_bucket bulk_class = ''wan''"
  "bc_name wan_bucket = ''wan''" "bc_rate_bps wan_bucket = Some 1000" "bc_burst_bytes wan_bucket = 2000"
  by (simp_all add: wan_profile_def video_class_def bulk_class_def wan_bucket_def)

lemma bulk_is_held:
  "shape_acquire (RuleClass (Suc 0)) 100 5 (sched_run both_want (wan_scheduler StrictPriority)) =
    (AcquireStarved 0, (wan_scheduler StrictPriority)\<lparr> sc_demand := [1, 1], sc_parked := [None, Some 0], sc_gates := 1 \<rparr>)"
  by (simp add: both_want_state shape_acquire_def wan_fields wan_profile_fields discipline_holds_def rivals_def park_class_def)

theorem held_class_is_woken_witness:
  "let s = snd (shape_acquire (RuleClass 1) 100 5 (sched_run both_want (wan_scheduler StrictPriority)))
   in 0 \<in> set (sc_released (sched_run [OpWithdraw (RuleClass 0)] s))"
proof -
  let ?s = "snd (shape_acquire (RuleClass 1) 100 5 (sched_run both_want (wan_scheduler StrictPriority)))"
  have parked: "sc_parked (sched_run [OpWithdraw (RuleClass 0)] ?s) ! 1 \<noteq> Some 0"
    by (simp add: bulk_is_held sched_next_def withdraw_demand_def wake_bucket_def wan_fields)
  have "shape_acquire (RuleClass 1) 100 5 (sched_run both_want (wan_scheduler StrictPriority)) = (AcquireStarved 0, ?s)"
    by (simp add: bulk_is_held)
  from held_class_is_woken [OF wan_reach this, of "[OpWithdraw (RuleClass 0)]"] parked show ?thesis by simp
qed

text \<open>C34. Under strict priority, in every run of a session's shaper, a unit is held back exactly when a
  class of its bucket with a higher priority has something to send, and then it costs the bucket nothing.\<close>

theorem priority_is_strict:
  assumes "shape_profile_try_new buckets classes queue StrictPriority = Inr p" "list_all round_op ops"
    and "s = sched_run ops (sched_build p t0 True)" "i < length classes"
    and "shape_acquire (RuleClass i) bytes now s = (a, s')"
  shows "if \<exists>k < length classes. sc_class_bucket s ! k = sc_class_bucket s ! i \<and> sc_demand s ! k > 0
            \<and> cr_priority (classes ! k) > cr_priority (classes ! i)
    then (\<exists>g. a = AcquireStarved g) \<and> sc_buckets s' = sc_buckets s
    else a \<notin> range AcquireStarved"
proof -
  let ?s = "sched_build p t0 True"
  have r: "sched_reach ?s" by (rule sched_reach.built [OF assms(1)])
  have p: "sp_classes p = classes" "sp_discipline p = StrictPriority" using assms(1) by (simp_all add: try_new_ok)
  have s: "sc_profile s = p" "sc_enabled s" "sched_ok s"
    using run_fields [OF r] round_run_enabled [OF r _ assms(2)] sched_reach_ok [OF sched_reach_run [OF r]]
    by (simp_all add: assms(3) sched_build_def)
  have o: "outranked s i \<longleftrightarrow> (\<exists>k < length classes. sc_class_bucket s ! k = sc_class_bucket s ! i \<and> sc_demand s ! k > 0
      \<and> cr_priority (classes ! k) > cr_priority (classes ! i))"
    by (simp add: outranked_def s(1) p(1))
  have "if outranked s i then \<exists>g. a = AcquireStarved g \<and> sc_buckets s' = sc_buckets s else \<forall>g. a \<noteq> AcquireStarved g"
    by (rule priority_grant [OF s(3) _ s(2) _ assms(5)]) (simp_all add: s(1) p assms(4))
  then show ?thesis unfolding o by (auto split: if_splits)
qed

theorem priority_is_strict_witness:
  "fst (shape_acquire (RuleClass 0) 100 5 (sched_run both_want (wan_scheduler StrictPriority))) \<notin> range AcquireStarved"
proof -
  obtain a s' where run: "shape_acquire (RuleClass 0) 100 5 (sched_run both_want (wan_scheduler StrictPriority)) = (a, s')"
    by (rule prod.exhaust)
  have low: "cr_priority ([video_class, bulk_class] ! k) \<le> cr_priority ([video_class, bulk_class] ! 0)"
    if "k < length [video_class, bulk_class]" for k
    using that by (cases k) (simp_all add: wan_profile_fields)
  then have none: "\<not> (\<exists>k < length [video_class, bulk_class]. cr_priority ([video_class, bulk_class] ! k) > cr_priority ([video_class, bulk_class] ! 0))"
    by (meson leD)
  have "list_all round_op both_want" by (simp add: both_want_def)
  from priority_is_strict [OF wan_profile_accepted this refl _ run [unfolded wan_scheduler_def]] none
  show ?thesis by (simp add: run split: if_splits)
qed

text \<open>C20. Under weighted round robin, while two classes of one bucket both have something to send, what one
  is granted, in proportion to its weight, is ahead of what the other is granted by at most two rounds.\<close>

theorem weighted_shares:
  assumes "shape_profile_try_new buckets classes queue WeightedRoundRobin = Inr p"
    and "list_all round_op (earlier @ ops)" "s = sched_run earlier (sched_build p t0 True)"
    and "i < length classes" "j < length classes" "cr_bucket (classes ! i) = cr_bucket (classes ! j)"
    and "backlogged i ops s" "backlogged j ops s"
  shows "granted_count i ops s * unat (cr_weight (classes ! j))
    \<le> (granted_count j ops s + 2 * unat (cr_weight (classes ! j))) * unat (cr_weight (classes ! i))"
proof -
  let ?s = "sched_build p t0 True"
  have r: "sched_reach ?s" by (rule sched_reach.built [OF assms(1)])
  have p: "sp_classes p = classes" "sp_discipline p = WeightedRoundRobin" using assms(1) by (simp_all add: try_new_ok)
  have rs: "sched_reach s" unfolding assms(3) by (rule sched_reach_run [OF r])
  have s: "sc_profile s = p" "sc_enabled s"
    using run_fields [OF r] round_run_enabled [OF r, of earlier] assms(2) by (simp_all add: assms(3) sched_build_def)
  have b: "sc_class_bucket s ! i = sc_class_bucket s ! j"
    using built_bucket [OF r refl, of _ earlier] assms(4-6) by (simp add: assms(3) p(1))
  have w: "weight_of s k = unat (cr_weight (classes ! k))" for k by (simp add: weight_of_def s(1) p(1))
  show ?thesis
    using fair_share [OF sched_reach_ok [OF rs] credits_reach [OF rs] _ s(2) _ _ _ b assms(7,8)] assms(2,4,5)
    by (simp add: w s(1) p)
qed

theorem weighted_shares_witness:
  "granted_count 0 [OpAcquire (RuleClass 0) 10 0] (sched_run both_want (wan_scheduler WeightedRoundRobin)) * 1
    \<le> (granted_count 1 [OpAcquire (RuleClass 0) 10 0] (sched_run both_want (wan_scheduler WeightedRoundRobin)) + 2 * 1) * 3"
proof -
  let ?ops = "[OpAcquire (RuleClass 0) 10 0]" and ?s = "sched_run both_want (wan_scheduler WeightedRoundRobin)"
  have ops: "list_all round_op (both_want @ ?ops)" by (simp add: both_want_def)
  have want: "backlogged 0 ?ops ?s" "backlogged 1 ?ops ?s" by (simp_all add: both_want_state wan_fields)
  have "granted_count 0 ?ops ?s * unat (cr_weight ([video_class, bulk_class] ! 1))
      \<le> (granted_count 1 ?ops ?s + 2 * unat (cr_weight ([video_class, bulk_class] ! 1))) * unat (cr_weight ([video_class, bulk_class] ! 0))"
    by (rule weighted_shares [OF wan_profile_accepted ops _ _ _ _ want]) (simp_all add: wan_scheduler_def wan_profile_fields)
  then show ?thesis by (simp only: nth_Cons_0 One_nat_def nth_Cons_Suc wan_profile_fields) simp
qed

section \<open>Counters\<close>

text \<open>C33. In every run of sessions of one proxy, each counting what arrives on its two ingress legs, the
  proxy's counters set back to zero at any moments: row by row, what the proxy counts for a class is what
  the sessions with its classes counted for that class since the last reset, its default row also holding
  what sessions with other classes counted for theirs; each row of a session is the sum of what its
  writes name for that class; what the proxy counts as arriving on a leg is what its sessions counted;
  and what it counts as leaving on the opposite legs is what its rows say was delivered.\<close>

theorem proxy_books_balance:
  assumes "list_all world_arrives ops" "world_run ops ([], proxy_recorder_new) = (rs, px)"
    and "base = at_reset ops ([], proxy_recorder_new) []"
  shows "(\<forall>f row. row_of (length (pr_class_rows px)) row = row \<longrightarrow>
        cs_get f (proxy_row row px) + sum_list (map (row_share f row px) base) = sum_list (map (row_share f row px) rs))
    \<and> (\<forall>i < length rs. \<forall>f row. row_of (length (sr_classes (rs ! i))) row = row \<longrightarrow>
        cs_get f (session_row row (rs ! i)) = noted f i (length (sr_classes (rs ! i))) row 0 ops)
    \<and> (\<forall>f. cell_total f (split_side ClientToProxy) px + sum_list (map (side_total f ClientToProxy) base)
            = sum_list (map (side_total f ClientToProxy) rs)
          \<and> cell_total f (split_side RelayToProxy) px + sum_list (map (side_total f RelayToProxy) base)
            = sum_list (map (side_total f RelayToProxy) rs))
    \<and> cell_total BytesShaped (departs ClientToProxy) px + cell_total BytesShaped (departs RelayToProxy) px
        = proxy_row_total BytesDelivered px"
  using books_run [OF books_new assms(1)] rows_run [OF rows_new, of ops] world_noted [OF assms(2)]
  by (simp add: assms(2,3) books_def rows_match_def arrives_def)

text \<open>Two sessions, the second unshaped; the proxy is reset before the last write.\<close>

definition proxy_day :: "world_op list" where
  "proxy_day = [OpenSession (Some (wan_profile Fifo)), OpenSession None,
     SessionNote 0 (NoteDelivered ClientToProxy (RuleClass 1) 40), SessionNote 1 (NoteDelivered RelayToProxy DefaultClass 2),
     ResetProxy, SessionNote 0 (NoteDelivered ClientToProxy (RuleClass 1) 5)]"

lemma proxy_day_rules:
  "length (fst (world_run proxy_day ([], proxy_recorder_new))) = 2
    \<and> length (sr_classes (fst (world_run proxy_day ([], proxy_recorder_new)) ! 0)) = 2"
  by (simp add: proxy_day_def recorder_attached_def recorder_for_profile_def adopt_classes_def proxy_recorder_new_def Let_def
      note_delivered_def charge_row_def update_row_def wan_profile_def nth_append)

theorem proxy_books_balance_witness:
  "cs_get BytesDelivered (session_row (RuleClass 1) (fst (world_run proxy_day ([], proxy_recorder_new)) ! 0)) = 45"
proof -
  obtain rs px where run: "world_run proxy_day ([], proxy_recorder_new) = (rs, px)" by (rule prod.exhaust)
  have "list_all world_arrives proxy_day" by (simp add: proxy_day_def op_arrives_def arrives_def)
  note each = conjunct1 [OF conjunct2 [OF proxy_books_balance [OF this run refl]]]
  have "length rs = 2" "length (sr_classes (rs ! 0)) = 2" using proxy_day_rules by (simp_all add: run)
  then have "cs_get BytesDelivered (session_row (RuleClass 1) (rs ! 0)) = noted BytesDelivered 0 2 (RuleClass 1) 0 proxy_day"
    using each [rule_format, of 0 "RuleClass 1" BytesDelivered] by simp
  also have "\<dots> = 45" by (simp add: proxy_day_def)
  finally show ?thesis by (simp only: run fst_conv)
qed

end
