(* ===== verification/Pending_Queue.thy ===== *)
theory Pending_Queue
  imports Shape_Stats
begin

text \<open>
  The egress queue of a stream (\<open>egress.rs\<close>): units waiting for their release times, asked of the
  session's scheduler one at a time. What the queues of a session share (the scheduler, the recorders,
  the byte gauge, the gates a hook has released) is a record passed beside the queue. A clock reading is
  an argument, a wheel deadline is the instant it was armed at, and \<open>None\<close> is the panic of an instant
  past the end of time. The scheduler, the recorder and the side are installed together, so one field
  says whether they are. The transport is two functions on a sink state.
\<close>

section \<open>Units\<close>

datatype egress_gate = HoldGate nat | ClassGate gate

datatype terminal_unit = TerminalTruncate bytes u64 | TerminalReset u64

datatype item = ItemWrite bytes | ItemElided | ItemTerminal terminal_unit

fun terminal_len :: "terminal_unit \<Rightarrow> nat" where
  "terminal_len (TerminalTruncate prefix code) = length prefix"
| "terminal_len (TerminalReset code) = 0"

record shape_tag =
  tg_class :: shape_class
  tg_expires_at :: instant
  tg_starved_noted :: bool

record pending =
  pn_due_at :: instant
  pn_expected_at :: instant
  pn_gate :: "egress_gate option"
  pn_item :: item
  pn_shape :: "shape_tag option"

definition pending_bytes :: "bytes \<Rightarrow> instant \<Rightarrow> pending" where
  "pending_bytes raw due_at =
     \<lparr> pn_due_at = due_at, pn_expected_at = due_at, pn_gate = None, pn_item = ItemWrite raw, pn_shape = None \<rparr>"

definition pending_elided :: "instant \<Rightarrow> pending" where
  "pending_elided due_at =
     \<lparr> pn_due_at = due_at, pn_expected_at = due_at, pn_gate = None, pn_item = ItemElided, pn_shape = None \<rparr>"

definition pending_terminal :: "terminal_unit \<Rightarrow> instant \<Rightarrow> pending" where
  "pending_terminal t clock =
     \<lparr> pn_due_at = clock, pn_expected_at = clock, pn_gate = None, pn_item = ItemTerminal t, pn_shape = None \<rparr>"

definition with_gate :: "egress_gate \<Rightarrow> pending \<Rightarrow> pending" where
  "with_gate g u = u\<lparr> pn_gate := Some g \<rparr>"

definition pending_len :: "pending \<Rightarrow> nat" where
  "pending_len u =
     (case pn_item u of ItemWrite raw \<Rightarrow> length raw | ItemElided \<Rightarrow> 0 | ItemTerminal t \<Rightarrow> terminal_len t)"

definition is_terminal :: "pending \<Rightarrow> bool" where
  "is_terminal u \<longleftrightarrow> (case pn_item u of ItemTerminal t \<Rightarrow> True | _ \<Rightarrow> False)"

section \<open>What a session shares\<close>

record egress_gauge =
  eg_queued :: nat
  eg_idle_pulses :: nat
  eg_discarding :: bool

definition gauge_new :: egress_gauge where
  "gauge_new = \<lparr> eg_queued = 0, eg_idle_pulses = 0, eg_discarding = False \<rparr>"

definition gauge_add :: "nat \<Rightarrow> egress_gauge \<Rightarrow> egress_gauge" where
  "gauge_add bytes g = (if bytes > 0 then g\<lparr> eg_queued := (eg_queued g + bytes) mod 2 ^ 64 \<rparr> else g)"

definition gauge_sub :: "nat \<Rightarrow> egress_gauge \<Rightarrow> egress_gauge" where
  "gauge_sub bytes g =
     (if bytes = 0 then g
      else
        let g = g\<lparr> eg_queued := eg_queued g - bytes \<rparr> in
        if eg_queued g = 0 then g\<lparr> eg_idle_pulses := eg_idle_pulses g + 1 \<rparr> else g)"

definition gauge_begin_discarding :: "egress_gauge \<Rightarrow> egress_gauge" where
  "gauge_begin_discarding g = g\<lparr> eg_discarding := True \<rparr>"

record egress_world =
  ew_sched :: scheduler
  ew_recs :: recorders
  ew_gauge :: egress_gauge
  ew_items_queued :: u64
  ew_holds :: "nat list"

fun gate_is_released :: "egress_world \<Rightarrow> egress_gate \<Rightarrow> bool" where
  "gate_is_released w (HoldGate g) = (g \<in> set (ew_holds w))"
| "gate_is_released w (ClassGate g) = (g \<in> set (sc_released (ew_sched w)))"

definition is_due :: "egress_world \<Rightarrow> instant \<Rightarrow> pending \<Rightarrow> bool" where
  "is_due w now u \<longleftrightarrow>
     pn_due_at u \<le> now \<or> (case pn_gate u of Some g \<Rightarrow> gate_is_released w g | None \<Rightarrow> False)"

section \<open>Delays and holds\<close>

record egress_config =
  ec_max_pending_bytes :: nat
  ec_max_hold :: nat
  ec_drain_timeout :: nat

definition egress_config_default :: egress_config where
  "egress_config_default =
     \<lparr> ec_max_pending_bytes = 1024 * 1024, ec_max_hold = 30 * 1000000000, ec_drain_timeout = 100 * 1000000 \<rparr>"

record deferral =
  df_release_at :: instant
  df_requested :: nat
  df_applied :: nat

definition defer_by :: "instant \<Rightarrow> nat \<Rightarrow> egress_config \<Rightarrow> deferral option" where
  "defer_by arrived_at by_ns config =
     (let applied = min by_ns (ec_max_hold config) in
      map_option (\<lambda>at. \<lparr> df_release_at = at, df_requested = by_ns, df_applied = applied \<rparr>)
        (instant_checked_add arrived_at applied))"

definition was_clamped :: "deferral \<Rightarrow> bool" where
  "was_clamped d \<longleftrightarrow> df_applied d < df_requested d"

definition hold_ceiling :: "instant \<Rightarrow> egress_config \<Rightarrow> instant option" where
  "hold_ceiling arrived_at config = instant_checked_add arrived_at (ec_max_hold config)"

section \<open>The queue\<close>

definition MAX_PENDING_UNITS :: nat where
  "MAX_PENDING_UNITS = 8192"

datatype shape_report =
    ReportClamped "nat option" nat
  | ReportExpired
  | ReportBurstBelowUnit shape_class u64 u64

record pending_queue =
  pq_q :: "pending list"
  pq_head_deadline :: "instant option"
  pq_queued_bytes :: nat
  pq_flushed_unconfirmed :: nat
  pq_gauged :: bool
  pq_config :: egress_config
  pq_backpressure_reported :: bool
  pq_shape_depth :: "queue_depth option"
  pq_shaper :: "proxy_side option"
  pq_shape_hold :: nat
  pq_unit_class :: shape_class
  pq_shape_gate :: "egress_gate option"
  pq_shape_parked :: bool
  pq_shape_demand :: "shape_class option"
  pq_tokens_dry :: bool
  pq_starved_from :: nat
  pq_shape_report :: "shape_report option"

record push_result =
  pu_release_at :: instant
  pu_entered_backpressure :: bool

record release =
  rl_deadline :: instant
  rl_gate :: "egress_gate option"

definition queue_new :: "egress_config \<Rightarrow> pending_queue" where
  "queue_new config =
     \<lparr> pq_q = [], pq_head_deadline = None, pq_queued_bytes = 0, pq_flushed_unconfirmed = 0, pq_gauged = False,
       pq_config = config, pq_backpressure_reported = False, pq_shape_depth = None, pq_shaper = None,
       pq_shape_hold = ec_max_hold config, pq_unit_class = UnshapeableClass, pq_shape_gate = None,
       pq_shape_parked = False, pq_shape_demand = None, pq_tokens_dry = False, pq_starved_from = 1,
       pq_shape_report = None \<rparr>"

definition with_gauge :: "pending_queue \<Rightarrow> pending_queue" where
  "with_gauge q = q\<lparr> pq_gauged := True \<rparr>"

definition with_shape_depth :: "queue_depth option \<Rightarrow> pending_queue \<Rightarrow> pending_queue" where
  "with_shape_depth depth q = q\<lparr> pq_shape_depth := depth \<rparr>"

definition with_shaper :: "scheduler option \<Rightarrow> proxy_side \<Rightarrow> pending_queue \<Rightarrow> pending_queue" where
  "with_shaper shaper side q =
     (case shaper of
        Some s \<Rightarrow>
          q\<lparr> pq_shape_hold := (case sched_max_hold s of Some d \<Rightarrow> d | None \<Rightarrow> ec_max_hold (pq_config q)),
             pq_shaper := Some side \<rparr>
      | None \<Rightarrow> q)"

definition tag_unit :: "shape_class \<Rightarrow> pending_queue \<Rightarrow> pending_queue" where
  "tag_unit class q = q\<lparr> pq_unit_class := class \<rparr>"

definition take_shape_report :: "pending_queue \<Rightarrow> shape_report option \<times> pending_queue" where
  "take_shape_report q = (pq_shape_report q, q\<lparr> pq_shape_report := None \<rparr>)"

definition unconfirmed_bytes :: "pending_queue \<Rightarrow> nat" where
  "unconfirmed_bytes q = min (pq_flushed_unconfirmed q + pq_queued_bytes q) (2 ^ 64 - 1)"

definition accepts_more :: "pending_queue \<Rightarrow> bool" where
  "accepts_more q \<longleftrightarrow>
     (pq_queued_bytes q < ec_max_pending_bytes (pq_config q) \<and> length (pq_q q) < MAX_PENDING_UNITS)
     \<and> (case pq_shape_depth q of
          Some depth \<Rightarrow> pq_queued_bytes q < qd_bytes depth \<and> length (pq_q q) < qd_objects depth
        | None \<Rightarrow> True)"

type_synonym queue_state = "pending_queue \<times> egress_world"

definition queue_charge :: "nat \<Rightarrow> queue_state \<Rightarrow> queue_state" where
  "queue_charge bytes st =
     (let (q, w) = st in
      (q\<lparr> pq_queued_bytes := min (pq_queued_bytes q + bytes) (2 ^ 64 - 1) \<rparr>,
       if pq_gauged q then w\<lparr> ew_gauge := gauge_add bytes (ew_gauge w) \<rparr> else w))"

definition queue_credit :: "nat \<Rightarrow> queue_state \<Rightarrow> queue_state" where
  "queue_credit bytes st =
     (let (q, w) = st; bytes = min bytes (pq_queued_bytes q) in
      (q\<lparr> pq_queued_bytes := pq_queued_bytes q - bytes \<rparr>,
       if pq_gauged q then w\<lparr> ew_gauge := gauge_sub bytes (ew_gauge w) \<rparr> else w))"

definition queue_discarding :: "queue_state \<Rightarrow> bool" where
  "queue_discarding st \<longleftrightarrow> pq_gauged (fst st) \<and> eg_discarding (ew_gauge (snd st))"

definition head_release :: "pending_queue \<Rightarrow> release option" where
  "head_release q =
     (case pq_q q of
        [] \<Rightarrow> None
      | head # _ \<Rightarrow>
          map_option (\<lambda>deadline.
            \<lparr> rl_deadline = deadline, rl_gate = (if pq_shape_parked q then pq_shape_gate q else pn_gate head) \<rparr>)
            (pq_head_deadline q))"

definition arm_head :: "pending_queue \<Rightarrow> pending_queue" where
  "arm_head q = q\<lparr> pq_head_deadline := (case pq_q q of [] \<Rightarrow> None | u # _ \<Rightarrow> Some (pn_due_at u)) \<rparr>"

definition arm_head_at :: "instant \<Rightarrow> pending_queue \<Rightarrow> pending_queue" where
  "arm_head_at at q = q\<lparr> pq_head_deadline := Some at \<rparr>"

definition head_class :: "pending_queue \<Rightarrow> shape_class option" where
  "head_class q = (case pq_q q of [] \<Rightarrow> None | u # _ \<Rightarrow> map_option tg_class (pn_shape u))"

definition sync_shape_demand :: "queue_state \<Rightarrow> queue_state" where
  "sync_shape_demand st =
     (let (q, w) = st in
      if pq_shaper q = None then (q, w)
      else
        let want = head_class q in
        if want = pq_shape_demand q then (q, w)
        else
          let s = (case pq_shape_demand q of Some old \<Rightarrow> withdraw_demand old (ew_sched w) | None \<Rightarrow> ew_sched w)
          in (q\<lparr> pq_shape_demand := want \<rparr>,
              w\<lparr> ew_sched := (case want of Some new \<Rightarrow> declare_demand new s | None \<Rightarrow> s) \<rparr>))"

definition note_queue_unshapeable :: "pending \<Rightarrow> queue_state \<Rightarrow> queue_state" where
  "note_queue_unshapeable u st =
     (let (q, w) = st in
      (q, case pq_shaper q of
            Some side \<Rightarrow>
              if pq_unit_class q = UnshapeableClass \<and> pending_len u > 0
              then w\<lparr> ew_recs := note_unshapeable_seen side (of_nat (pending_len u)) (ew_recs w) \<rparr> else w
          | None \<Rightarrow> w))"

definition note_queue_delivered :: "pending \<Rightarrow> queue_state \<Rightarrow> queue_state" where
  "note_queue_delivered u st =
     (let (q, w) = st in
      (q, case (pq_shaper q, pn_shape u) of
            (Some side, Some tag) \<Rightarrow>
              if pending_len u > 0
              then w\<lparr> ew_recs := note_delivered side (tg_class tag) (of_nat (pending_len u)) (ew_recs w) \<rparr> else w
          | _ \<Rightarrow> w))"

text \<open>A push: the unit as the queue will hold it, then the unit in its place. Each clock reading is its own.\<close>

definition tagged_unit :: "instant \<Rightarrow> instant \<Rightarrow> pending \<Rightarrow> pending_queue \<Rightarrow> pending option" where
  "tagged_unit clock1 clock2 u q =
     (let u = (if pq_q q = [] then u
               else u\<lparr> pn_expected_at := max (max (pn_due_at u) (pn_expected_at (last (pq_q q)))) clock1 \<rparr>)
      in case pq_shaper q of
           None \<Rightarrow> Some u
         | Some _ \<Rightarrow>
             map_option (\<lambda>at. u\<lparr> pn_shape := Some \<lparr> tg_class = pq_unit_class q, tg_expires_at = at,
                 tg_starved_noted = False \<rparr> \<rparr>)
               (instant_checked_add clock2 (pq_shape_hold q)))"

definition push_unit :: "pending \<Rightarrow> queue_state \<Rightarrow> push_result \<times> queue_state" where
  "push_unit u st =
     (let st = note_queue_unshapeable u st;
          becomes_head = (pq_q (fst st) = []);
          (q, w) = queue_charge (pending_len u) st;
          q = q\<lparr> pq_q := pq_q q @ [u] \<rparr>;
          w = w\<lparr> ew_items_queued := ew_items_queued w + 1 \<rparr>;
          (q, w) = sync_shape_demand (if becomes_head then arm_head q else q, w);
          entered = (\<not> accepts_more q \<and> \<not> pq_backpressure_reported q)
      in (\<lparr> pu_release_at = pn_expected_at u, pu_entered_backpressure = entered \<rparr>,
          if entered then q\<lparr> pq_backpressure_reported := True \<rparr> else q, w))"

definition queue_push ::
  "instant \<Rightarrow> instant \<Rightarrow> pending \<Rightarrow> queue_state \<Rightarrow> (push_result \<times> queue_state) option" where
  "queue_push clock1 clock2 u st = map_option (\<lambda>u. push_unit u st) (tagged_unit clock1 clock2 u (fst st))"

definition queue_clear :: "queue_state \<Rightarrow> queue_state" where
  "queue_clear st =
     (let (q, w) = st;
          (q, w) = queue_credit (pq_queued_bytes q) (q\<lparr> pq_q := [] \<rparr>, w)
      in sync_shape_demand
           (q\<lparr> pq_head_deadline := None, pq_starved_from := 1, pq_shape_gate := None, pq_shape_parked := False \<rparr>, w))"

definition note_tokens_dry :: "shape_class \<Rightarrow> queue_state \<Rightarrow> queue_state" where
  "note_tokens_dry class st =
     (let (q, w) = st in
      if pq_tokens_dry q then (q, w)
      else (q\<lparr> pq_tokens_dry := True \<rparr>,
            if pq_shaper q \<noteq> None then w\<lparr> ew_recs := note_tokens_exhausted class (ew_recs w) \<rparr> else w))"

text \<open>Mark the unit at an index as starved, and count it, unless it was or it is one of ours.\<close>

definition starve_unit :: "shape_class option \<Rightarrow> nat \<Rightarrow> queue_state \<Rightarrow> queue_state" where
  "starve_unit head index st =
     (let (q, w) = st in
      if index < length (pq_q q) then
        (case pn_shape (pq_q q ! index) of
           None \<Rightarrow> (q, w)
         | Some tag \<Rightarrow>
             if tg_starved_noted tag \<or> Some (tg_class tag) = head then (q, w)
             else (q\<lparr> pq_q := (pq_q q)[index := (pq_q q ! index)\<lparr> pn_shape := Some (tag\<lparr> tg_starved_noted := True \<rparr>) \<rparr>] \<rparr>,
                   w\<lparr> ew_recs := note_starved (tg_class tag) (ew_recs w) \<rparr>))
      else (q, w))"

definition note_head_starved :: "queue_state \<Rightarrow> queue_state" where
  "note_head_starved st = (if pq_shaper (fst st) = None then st else starve_unit None 0 st)"

definition note_starved_behind :: "shape_class \<Rightarrow> queue_state \<Rightarrow> queue_state" where
  "note_starved_behind head st =
     (if pq_shaper (fst st) = None then st
      else
        let len = length (pq_q (fst st));
            (q, w) = fold (starve_unit (Some head)) [max (pq_starved_from (fst st)) 1..<len] st
        in (q\<lparr> pq_starved_from := max len 1 \<rparr>, w))"

definition park_head :: "instant \<Rightarrow> shape_tag \<Rightarrow> egress_gate option \<Rightarrow> queue_state \<Rightarrow> queue_state" where
  "park_head at tag g st =
     (let (q, w) = st;
          st = sync_shape_demand (arm_head_at at (q\<lparr> pq_shape_gate := g, pq_shape_parked := True \<rparr>), w);
          st = (if g \<noteq> None then note_head_starved st else st)
      in note_starved_behind (tg_class tag) st)"

definition expire_head :: "expiry \<Rightarrow> instant \<Rightarrow> queue_state \<Rightarrow> queue_state" where
  "expire_head e clock st =
     (let (q, w) = st in
      case e of
        ExpiryDeliver \<Rightarrow> (q\<lparr> pq_shape_report := Some (ReportClamped None (pq_shape_hold q)) \<rparr>, w)
      | ExpiryResetStream code \<Rightarrow>
          (let w = (case pq_shaper q of
                      Some side \<Rightarrow> w\<lparr> ew_recs := note_stream_reset_by_shaping side (note_expired side (ew_recs w)) \<rparr>
                    | None \<Rightarrow> w);
               (q, w) = queue_clear (q\<lparr> pq_shape_report := Some ReportExpired \<rparr>, w)
           in (arm_head (q\<lparr> pq_q := [pending_terminal (TerminalReset code) clock] \<rparr>), w)))"

text \<open>Whether the head may go; either way the caller is given the state.\<close>

definition shaping_grants_head :: "instant \<Rightarrow> instant \<Rightarrow> queue_state \<Rightarrow> bool \<times> queue_state" where
  "shaping_grants_head now clock st =
     (let (q, w) = st in
      if pq_shaper q = None then (True, st)
      else case pq_q q of
        [] \<Rightarrow> (True, st)
      | head # _ \<Rightarrow>
          (case pn_shape head of
             None \<Rightarrow> (True, st)
           | Some tag \<Rightarrow>
               if is_terminal head then (True, st)
               else if now \<ge> tg_expires_at tag
               then (True, expire_head (sched_on_expiry (ew_sched w)) clock st)
               else
                 let (answer, s) = shape_acquire (tg_class tag) (of_nat (pending_len head)) now (ew_sched w);
                     w = w\<lparr> ew_sched := s \<rparr>
                 in (case answer of
                       AcquireNow \<Rightarrow> (True, (q\<lparr> pq_tokens_dry := False \<rparr>, w))
                     | AcquireLater at \<Rightarrow>
                         (False, park_head (min at (tg_expires_at tag)) tag None (note_tokens_dry (tg_class tag) (q, w)))
                     | AcquireNever \<Rightarrow>
                         (False, park_head (tg_expires_at tag) tag None (note_tokens_dry (tg_class tag) (q, w)))
                     | AcquireLargerThanBurst burst unit_bytes \<Rightarrow>
                         (let (q, w) = note_tokens_dry (tg_class tag) (q, w) in
                          (False, park_head (tg_expires_at tag) tag None
                            (q\<lparr> pq_shape_report := Some (ReportBurstBelowUnit (tg_class tag) burst unit_bytes) \<rparr>, w)))
                     | AcquireStarved g \<Rightarrow>
                         (False, park_head (tg_expires_at tag) tag (Some (ClassGate g)) (q, w)))))"

text \<open>What leaves with a unit, on either way out.\<close>

definition take_front :: "queue_state \<Rightarrow> pending option \<times> queue_state" where
  "take_front st =
     (let (q, w) = st in
      case pq_q q of
        [] \<Rightarrow> (None, (q, w))
      | u # us \<Rightarrow>
          (let (q, w) = queue_credit (pending_len u) (q\<lparr> pq_q := us \<rparr>, w);
               q = q\<lparr> pq_starved_from := max (pq_starved_from q - 1) 1 \<rparr>;
               (q, w) = note_queue_delivered u (q, w)
           in (Some u, sync_shape_demand (arm_head q, w))))"

definition pop_next_due :: "instant \<Rightarrow> instant \<Rightarrow> queue_state \<Rightarrow> pending option \<times> queue_state" where
  "pop_next_due now clock st =
     (let (q, w) = st in
      if \<not> (case pq_q q of [] \<Rightarrow> False | u # _ \<Rightarrow> is_due w now u) then (None, st)
      else
        let (granted, st) = shaping_grants_head now clock (q\<lparr> pq_shape_gate := None, pq_shape_parked := False \<rparr>, w)
        in if granted then take_front st else (None, st))"

text \<open>Dropping the queue withdraws its demand and takes its bytes off the gauge.\<close>

definition queue_drop :: "queue_state \<Rightarrow> egress_world" where
  "queue_drop st =
     (let (q, w) = st;
          w = (case (pq_shaper q, pq_shape_demand q) of
                 (Some _, Some class) \<Rightarrow> w\<lparr> ew_sched := withdraw_demand class (ew_sched w) \<rparr>
               | _ \<Rightarrow> w)
      in snd (queue_credit (pq_queued_bytes q) (q, w)))"

end
