(* ===== verification/Pending_Laws.thy ===== *)
theory Pending_Laws
  imports Pending_Queue Shape_Fairness
begin

text \<open>
  Laws of the egress queue: what every operation keeps of the state a session shares, that a queue
  declares demand for the class of its head and for nothing else, that its byte count and the session's
  gauge agree with what it holds, and that units leave in the order they came.
\<close>

section \<open>Moving what is shared\<close>

definition declares :: "pending_queue \<Rightarrow> nat \<Rightarrow> nat" where
  "declares q i = (if pq_shape_demand q = Some (RuleClass i) then 1 else 0)"

text \<open>A step of a queue moves the shared demand by what its own declaration moved.\<close>

definition frame :: "queue_state \<Rightarrow> queue_state \<Rightarrow> bool" where
  "frame st st' \<longleftrightarrow> (case st of (q, w) \<Rightarrow> case st' of (q', w') \<Rightarrow>
     pq_shaper q' = pq_shaper q \<and> pq_gauged q' = pq_gauged q \<and> pq_config q' = pq_config q
     \<and> pq_shape_hold q' = pq_shape_hold q \<and> pq_shape_depth q' = pq_shape_depth q \<and> pq_unit_class q' = pq_unit_class q
     \<and> ew_holds w' = ew_holds w
     \<and> (sched_reach (ew_sched w) \<longrightarrow> sched_reach (ew_sched w')
          \<and> sc_profile (ew_sched w') = sc_profile (ew_sched w)
          \<and> (\<forall>i < length (classes_of (ew_sched w)). declares q i \<le> sc_demand (ew_sched w) ! i \<longrightarrow>
              sc_demand (ew_sched w') ! i + declares q i = sc_demand (ew_sched w) ! i + declares q' i)))"

lemma frame_refl: "frame st st"
  by (simp add: frame_def split: prod.split)

lemma frame_trans:
  assumes "frame st st'" "frame st' st''"
  shows "frame st st''"
proof -
  obtain q w q' w' q'' w'' where s: "st = (q, w)" "st' = (q', w')" "st'' = (q'', w'')"
    by (cases st, cases st', cases st'')
  have "sc_demand (ew_sched w'') ! i + declares q i = sc_demand (ew_sched w) ! i + declares q'' i"
    if "sched_reach (ew_sched w)" "i < length (classes_of (ew_sched w))" "declares q i \<le> sc_demand (ew_sched w) ! i" for i
  proof -
    have p: "sched_reach (ew_sched w')" "sc_profile (ew_sched w') = sc_profile (ew_sched w)"
      and a: "sc_demand (ew_sched w') ! i + declares q i = sc_demand (ew_sched w) ! i + declares q' i"
      using assms(1) that by (simp_all add: frame_def s)
    from a that(3) have "declares q' i \<le> sc_demand (ew_sched w') ! i" by linarith
    with assms(2) p that(2) have "sc_demand (ew_sched w'') ! i + declares q' i = sc_demand (ew_sched w') ! i + declares q'' i"
      by (simp add: frame_def s)
    with a show ?thesis by linarith
  qed
  then show ?thesis using assms by (simp add: frame_def s)
qed

lemma frame_quiet:
  assumes "pq_shaper q' = pq_shaper q" "pq_gauged q' = pq_gauged q" "pq_config q' = pq_config q"
    "pq_shape_hold q' = pq_shape_hold q" "pq_shape_depth q' = pq_shape_depth q" "pq_unit_class q' = pq_unit_class q"
    "pq_shape_demand q' = pq_shape_demand q" "ew_holds w' = ew_holds w" "ew_sched w' = ew_sched w"
  shows "frame (q, w) (q', w')"
  using assms by (simp add: frame_def declares_def)

text \<open>Declaring and withdrawing, on a reachable scheduler.\<close>

lemma sched_reach_ops:
  assumes "sched_reach s"
  shows "sched_reach (declare_demand c s)" "sched_reach (withdraw_demand c s)" "sched_reach (snd (shape_acquire c b now s))"
  using sched_reach.step [OF assms, of "OpDeclare c"] sched_reach.step [OF assms, of "OpWithdraw c"]
    sched_reach.step [OF assms, of "OpAcquire c b now"]
  by (simp_all add: sched_next_def Let_def split: prod.splits)

lemma demand_moves:
  assumes "sched_reach s" "i < length (classes_of s)"
  shows "sc_demand (declare_demand c s) ! i = sc_demand s ! i + (if c = RuleClass i then 1 else 0)"
    "sc_demand (withdraw_demand c s) ! i = sc_demand s ! i - (if c = RuleClass i then 1 else 0)"
    "sc_profile (declare_demand c s) = sc_profile s" "sc_profile (withdraw_demand c s) = sc_profile s"
proof -
  have "sized s" using sched_reach_ok [OF assms(1)] by (simp add: sched_ok_def)
  with assms(2) show "sc_demand (declare_demand c s) ! i = sc_demand s ! i + (if c = RuleClass i then 1 else 0)"
    "sc_demand (withdraw_demand c s) ! i = sc_demand s ! i - (if c = RuleClass i then 1 else 0)"
    "sc_profile (declare_demand c s) = sc_profile s" "sc_profile (withdraw_demand c s) = sc_profile s"
    by (cases c; auto simp: declare_demand_def withdraw_demand_def Let_def wake_bucket_fields sized_def nth_list_update)+
qed

lemma profile_kept:
  "sc_profile (declare_demand c s) = sc_profile s" "sc_profile (withdraw_demand c s) = sc_profile s"
  by (simp_all add: declare_demand_def withdraw_demand_def Let_def wake_bucket_fields split: shape_class.split)

lemma frame_withdraw:
  assumes "pq_shape_demand q = Some c"
  shows "frame (q, w) (q\<lparr> pq_shape_demand := None \<rparr>, w\<lparr> ew_sched := withdraw_demand c (ew_sched w) \<rparr>)"
  using assms by (auto simp: frame_def declares_def sched_reach_ops profile_kept demand_moves)

lemma frame_declare:
  assumes "pq_shape_demand q = None"
  shows "frame (q, w) (q\<lparr> pq_shape_demand := Some c \<rparr>, w\<lparr> ew_sched := declare_demand c (ew_sched w) \<rparr>)"
  using assms by (auto simp: frame_def declares_def sched_reach_ops profile_kept demand_moves)

lemma frame_sync: "frame st (sync_shape_demand st)"
proof -
  obtain q w where s: "st = (q, w)" by fastforce
  show ?thesis
  proof (cases "pq_shaper q = None \<or> head_class q = pq_shape_demand q")
    case True
    then show ?thesis by (auto simp: s sync_shape_demand_def frame_refl)
  next
    case False
    let ?w = "w\<lparr> ew_sched := (case pq_shape_demand q of Some old \<Rightarrow> withdraw_demand old (ew_sched w)
      | None \<Rightarrow> ew_sched w) \<rparr>"
    have 1: "frame (q, w) (q\<lparr> pq_shape_demand := None \<rparr>, ?w)"
      by (cases "pq_shape_demand q") (simp_all add: frame_withdraw frame_quiet)
    have 2: "frame (q\<lparr> pq_shape_demand := None \<rparr>, ?w) (sync_shape_demand st)"
      using False frame_declare [of "q\<lparr> pq_shape_demand := None \<rparr>" ?w]
      by (cases "head_class q") (auto simp: s sync_shape_demand_def Let_def intro: frame_quiet)
    show ?thesis unfolding s using frame_trans [OF 1 2 [unfolded s]] .
  qed
qed

lemma frame_credit: "frame st (queue_credit n st)"
  by (cases st) (auto simp: queue_credit_def Let_def intro: frame_quiet)

lemma frame_charge: "frame st (queue_charge n st)"
  by (cases st) (auto simp: queue_charge_def Let_def intro: frame_quiet)

lemma frame_notes:
  "frame st (note_queue_unshapeable u st)" "frame st (note_queue_delivered u st)" "frame st (note_tokens_dry c st)"
  by (cases st; auto simp: note_queue_unshapeable_def note_queue_delivered_def note_tokens_dry_def intro!: frame_quiet
      split: option.split)+

lemma frame_starve: "frame st (starve_unit h i st)"
  by (cases st) (auto simp: starve_unit_def intro!: frame_quiet split: option.split)

lemma frame_fold: "(\<And>x st. frame st (f x st)) \<Longrightarrow> frame st (fold f xs st)"
proof (induction xs arbitrary: st)
  case (Cons x xs)
  show ?case using frame_trans [OF Cons.prems Cons.IH [OF Cons.prems]] by simp
qed (simp add: frame_refl)

lemma frame_behind: "frame st (note_starved_behind h st)"
proof (cases "pq_shaper (fst st) = None")
  case False
  let ?r = "fold (starve_unit (Some h)) [max (pq_starved_from (fst st)) 1..<length (pq_q (fst st))] st"
  have "frame st ?r" by (rule frame_fold) (rule frame_starve)
  moreover have "frame ?r (note_starved_behind h st)"
    using False by (cases ?r) (auto simp: note_starved_behind_def Let_def intro!: frame_quiet)
  ultimately show ?thesis by (rule frame_trans)
qed (simp add: note_starved_behind_def frame_refl)

lemma frame_park: "frame st (park_head at tag g st)"
proof -
  obtain q w where s: "st = (q, w)" by fastforce
  have "frame st (arm_head_at at (q\<lparr> pq_shape_gate := g, pq_shape_parked := True \<rparr>), w)"
    by (simp add: s arm_head_at_def frame_quiet)
  then have 1: "frame st (sync_shape_demand (arm_head_at at (q\<lparr> pq_shape_gate := g, pq_shape_parked := True \<rparr>), w))"
    (is "frame st ?st") using frame_sync by (rule frame_trans)
  have "frame ?st (if g \<noteq> None then note_head_starved ?st else ?st)"
    by (simp add: note_head_starved_def frame_refl frame_starve)
  from frame_trans [OF frame_trans [OF 1 this] frame_behind] show ?thesis
    by (simp add: park_head_def Let_def s)
qed

lemma frame_clear: "frame st (queue_clear st)"
proof -
  obtain q w where s: "st = (q, w)" by fastforce
  have 1: "frame st (q\<lparr> pq_q := [] \<rparr>, w)" by (simp add: s frame_quiet)
  obtain q1 w1 where c: "queue_credit (pq_queued_bytes q) (q\<lparr> pq_q := [] \<rparr>, w) = (q1, w1)" by fastforce
  have 2: "frame st (q1, w1)" using frame_trans [OF 1 frame_credit] by (metis c)
  have 3: "frame (q1, w1) (q1\<lparr> pq_head_deadline := None, pq_starved_from := 1, pq_shape_gate := None, pq_shape_parked := False \<rparr>, w1)"
    by (simp add: frame_quiet)
  show ?thesis using frame_trans [OF frame_trans [OF 2 3] frame_sync] by (simp add: queue_clear_def s c)
qed

lemma frame_expire: "frame st (expire_head e clock st)"
proof -
  obtain q w where s: "st = (q, w)" by fastforce
  show ?thesis
  proof (cases e)
    case ExpiryDeliver
    then show ?thesis by (simp add: expire_head_def s frame_quiet)
  next
    case (ExpiryResetStream code)
    let ?w = "case pq_shaper q of
        Some side \<Rightarrow> w\<lparr> ew_recs := note_stream_reset_by_shaping side (note_expired side (ew_recs w)) \<rparr> | None \<Rightarrow> w"
    have 1: "frame st (q\<lparr> pq_shape_report := Some ReportExpired \<rparr>, ?w)"
      by (simp add: s frame_quiet split: option.split)
    obtain q1 w1 where c: "queue_clear (q\<lparr> pq_shape_report := Some ReportExpired \<rparr>, ?w) = (q1, w1)" by fastforce
    have 2: "frame st (q1, w1)" using frame_trans [OF 1 frame_clear] by (metis c)
    have "frame (q1, w1) (arm_head (q1\<lparr> pq_q := [pending_terminal (TerminalReset code) clock] \<rparr>), w1)"
      by (simp add: arm_head_def frame_quiet)
    from frame_trans [OF 2 this] show ?thesis by (simp add: expire_head_def s ExpiryResetStream c Let_def)
  qed
qed

lemma frame_acquire:
  assumes "shape_acquire c b now (ew_sched w) = (a, s)"
  shows "frame (q, w) (q, w\<lparr> ew_sched := s \<rparr>)"
  using assms sched_reach_ops(3) [of "ew_sched w" c b now] acquire_fields [OF assms] sched_reach_ok
  by (auto simp: frame_def)

lemma frame_grants: "frame st (snd (shaping_grants_head now clock st))"
proof -
  obtain q w where s: "st = (q, w)" by fastforce
  show ?thesis
  proof (cases "pq_shaper q = None \<or> pq_q q = []")
    case True
    then show ?thesis by (auto simp: s shaping_grants_head_def frame_refl split: list.split)
  next
    case False
    then obtain head rest where h: "pq_q q = head # rest" by (cases "pq_q q") auto
    show ?thesis
    proof (cases "pn_shape head")
      case None
      then show ?thesis using False h by (simp add: s shaping_grants_head_def frame_refl)
    next
      case (Some tag)
      obtain a sc where a: "shape_acquire (tg_class tag) (of_nat (pending_len head)) now (ew_sched w) = (a, sc)" by fastforce
      note fa = frame_acquire [OF a, of q]
      have r: "frame (q, w) (note_tokens_dry c (q, w\<lparr> ew_sched := sc \<rparr>))" for c
        using fa frame_notes(3) by (rule frame_trans)
      have p: "frame (q, w) (park_head at tag g (note_tokens_dry c (q, w\<lparr> ew_sched := sc \<rparr>)))" for at g c
        using r frame_park by (rule frame_trans)
      have b: "frame (q, w) (park_head at tag g (q1\<lparr> pq_shape_report := x \<rparr>, w1))"
        if "note_tokens_dry c (q, w\<lparr> ew_sched := sc \<rparr>) = (q1, w1)" for at g c q1 w1 x
      proof -
        have "frame (q1, w1) (q1\<lparr> pq_shape_report := x \<rparr>, w1)" by (simp add: frame_quiet)
        from frame_trans [OF frame_trans [OF r this [folded that]] frame_park] show ?thesis by simp
      qed
      have n: "frame (q, w) (q\<lparr> pq_tokens_dry := False \<rparr>, w\<lparr> ew_sched := sc \<rparr>)"
        by (rule frame_trans [OF fa]) (simp add: frame_quiet)
      show ?thesis
        using False h Some p n b frame_trans [OF fa frame_park]
        by (auto simp: s shaping_grants_head_def frame_refl frame_expire a Let_def split: acquire_answer.split prod.split)
    qed
  qed
qed

lemma frame_take: "frame st (snd (take_front st))"
proof -
  obtain q w where s: "st = (q, w)" by fastforce
  show ?thesis
  proof (cases "pq_q q")
    case Nil
    then show ?thesis by (simp add: s take_front_def frame_refl)
  next
    case (Cons u us)
    have 1: "frame st (q\<lparr> pq_q := us \<rparr>, w)" by (simp add: s frame_quiet)
    obtain q1 w1 where c: "queue_credit (pending_len u) (q\<lparr> pq_q := us \<rparr>, w) = (q1, w1)" by fastforce
    have 2: "frame st (q1, w1)" using frame_trans [OF 1 frame_credit] by (metis c)
    have 3: "frame (q1, w1) (q1\<lparr> pq_starved_from := max (pq_starved_from q1 - 1) 1 \<rparr>, w1)" by (simp add: frame_quiet)
    obtain q2 w2 where d: "note_queue_delivered u (q1\<lparr> pq_starved_from := max (pq_starved_from q1 - 1) 1 \<rparr>, w1) = (q2, w2)"
      by fastforce
    have 4: "frame st (q2, w2)" using frame_trans [OF frame_trans [OF 2 3] frame_notes(2)] by (metis d)
    have 5: "frame (q2, w2) (arm_head q2, w2)" by (simp add: arm_head_def frame_quiet)
    show ?thesis using frame_trans [OF frame_trans [OF 4 5] frame_sync] by (simp add: take_front_def s Cons c d Let_def del: One_nat_def)
  qed
qed

lemma frame_pop: "frame st (snd (pop_next_due now clock st))"
proof -
  obtain q w where s: "st = (q, w)" by fastforce
  let ?st = "(q\<lparr> pq_shape_gate := None, pq_shape_parked := False \<rparr>, w)"
  have 1: "frame st ?st" by (simp add: s frame_quiet)
  obtain g st1 where g: "shaping_grants_head now clock ?st = (g, st1)" by (metis surj_pair)
  have 2: "frame st st1" using frame_trans [OF 1 frame_grants [of ?st now clock]] by (simp add: g)
  show ?thesis
    using 2 frame_trans [OF 2 frame_take] by (auto simp: pop_next_due_def s g Let_def frame_refl)
qed

lemma frame_push_unit: "frame st (snd (push_unit u st))"
proof -
  obtain q1 w1 where 1: "note_queue_unshapeable u st = (q1, w1)" by (metis surj_pair)
  obtain q2 w2 where 2: "queue_charge (pending_len u) (q1, w1) = (q2, w2)" by (metis surj_pair)
  let ?q = "if pq_q q1 = [] then arm_head (q2\<lparr> pq_q := pq_q q2 @ [u] \<rparr>) else q2\<lparr> pq_q := pq_q q2 @ [u] \<rparr>"
  let ?w = "w2\<lparr> ew_items_queued := ew_items_queued w2 + 1 \<rparr>"
  obtain q3 w3 where 3: "sync_shape_demand (?q, ?w) = (q3, w3)" by (metis surj_pair)
  have "frame st (q1, w1)" using frame_notes(1) [of st u] by (simp add: 1)
  moreover have "frame (q1, w1) (q2, w2)" using frame_charge [of "(q1, w1)" "pending_len u"] by (simp add: 2)
  moreover have "frame (q2, w2) (?q, ?w)" by (rule frame_quiet) (simp_all add: arm_head_def)
  moreover have "frame (?q, ?w) (q3, w3)" using frame_sync [of "(?q, ?w)"] by (simp only: 3)
  moreover have "frame (q3, w3) (if b then q3\<lparr> pq_backpressure_reported := True \<rparr> else q3, w3)" for b
    by (rule frame_quiet) simp_all
  ultimately have "frame st (if b then q3\<lparr> pq_backpressure_reported := True \<rparr> else q3, w3)" for b
    by (meson frame_trans)
  then show ?thesis by (simp add: push_unit_def 1 2 3 Let_def)
qed

lemma frame_push: "queue_push clock1 clock2 u st = Some (r, st') \<Longrightarrow> frame st st'"
  using frame_push_unit [of st] by (auto simp: queue_push_def) (metis snd_conv)

end
