(* ===== verification/Pending_Order.thy ===== *)
theory Pending_Order
  imports Pending_Laws
begin

text \<open>
  What one call of the egress queue does to the units it holds: the state a queue keeps between calls,
  the ways a pop can go, and the order and the bytes of a whole run.
\<close>

section \<open>The invariant of a queue\<close>

type_synonym unit_key = "item \<times> instant \<times> instant \<times> egress_gate option \<times> (shape_class \<times> instant) option"

definition unit_key :: "pending \<Rightarrow> unit_key" where
  "unit_key u = (pn_item u, pn_due_at u, pn_expected_at u, pn_gate u,
     map_option (\<lambda>t. (tg_class t, tg_expires_at t)) (pn_shape u))"

abbreviation unit_keys :: "pending_queue \<Rightarrow> unit_key list" where
  "unit_keys q \<equiv> map unit_key (pq_q q)"

definition held_bytes :: "pending_queue \<Rightarrow> nat" where
  "held_bytes q = sum_list (map pending_len (pq_q q))"

definition queue_ok :: "pending_queue \<Rightarrow> bool" where
  "queue_ok q \<longleftrightarrow> (pq_head_deadline q = None \<longleftrightarrow> pq_q q = [])
     \<and> pq_shape_demand q = (if pq_shaper q = None then None else head_class q)
     \<and> pq_queued_bytes q = held_bytes q"

lemma queue_new_ok: "queue_ok (queue_new config)"
  by (simp add: queue_ok_def queue_new_def held_bytes_def)

lemma unit_key_same:
  assumes "unit_key u = unit_key v"
  shows "pn_item u = pn_item v" "pending_len u = pending_len v" "pn_due_at u = pn_due_at v" "pn_gate u = pn_gate v"
    "is_due w now u = is_due w now v" "is_terminal u = is_terminal v" "pn_expected_at u = pn_expected_at v"
    "map_option tg_class (pn_shape u) = map_option tg_class (pn_shape v)"
proof -
  from assms have e: "pn_item u = pn_item v" "pn_due_at u = pn_due_at v" "pn_expected_at u = pn_expected_at v"
    "pn_gate u = pn_gate v"
    and k: "map_option (\<lambda>t. (tg_class t, tg_expires_at t)) (pn_shape u) = map_option (\<lambda>t. (tg_class t, tg_expires_at t)) (pn_shape v)"
    by (simp_all add: unit_key_def)
  show "pn_item u = pn_item v" "pending_len u = pending_len v" "pn_due_at u = pn_due_at v" "pn_gate u = pn_gate v"
    "is_due w now u = is_due w now v" "is_terminal u = is_terminal v" "pn_expected_at u = pn_expected_at v"
    by (simp_all add: e pending_len_def is_due_def is_terminal_def)
  show "map_option tg_class (pn_shape u) = map_option tg_class (pn_shape v)"
    using k by (cases "pn_shape u"; cases "pn_shape v") simp_all
qed

lemma unit_keys_same:
  assumes "unit_keys q = unit_keys q'"
  shows "held_bytes q = held_bytes q'" "head_class q = head_class q'" "pq_q q = [] \<longleftrightarrow> pq_q q' = []"
    "length (pq_q q) = length (pq_q q')"
proof -
  let ?len = "\<lambda>k :: unit_key. case fst k of ItemWrite raw \<Rightarrow> length raw | ItemElided \<Rightarrow> 0 | ItemTerminal t \<Rightarrow> terminal_len t"
  have l: "map pending_len us = map ?len (map unit_key us)" for us
    by (simp add: pending_len_def unit_key_def)
  show "held_bytes q = held_bytes q'" by (simp only: held_bytes_def l assms)
  show "head_class q = head_class q'"
    using assms by (cases "pq_q q"; cases "pq_q q'") (auto simp: head_class_def dest: unit_key_same(8))
  show "pq_q q = [] \<longleftrightarrow> pq_q q' = []" using assms by (metis map_is_Nil_conv)
  show "length (pq_q q) = length (pq_q q')" using assms by (metis length_map)
qed

section \<open>Starving\<close>

definition marked :: "queue_state \<Rightarrow> queue_state \<Rightarrow> bool" where
  "marked st st' \<longleftrightarrow> (case st of (q, w) \<Rightarrow> case st' of (q', w') \<Rightarrow>
     unit_keys q' = unit_keys q \<and> pq_head_deadline q' = pq_head_deadline q \<and> pq_queued_bytes q' = pq_queued_bytes q
     \<and> pq_flushed_unconfirmed q' = pq_flushed_unconfirmed q \<and> pq_shaper q' = pq_shaper q
     \<and> pq_shape_gate q' = pq_shape_gate q \<and> pq_shape_parked q' = pq_shape_parked q
     \<and> pq_shape_demand q' = pq_shape_demand q \<and> pq_tokens_dry q' = pq_tokens_dry q
     \<and> pq_shape_report q' = pq_shape_report q \<and> pq_gauged q' = pq_gauged q
     \<and> ew_sched w' = ew_sched w \<and> ew_gauge w' = ew_gauge w \<and> ew_holds w' = ew_holds w)"

lemma marked_refl: "marked st st"
  by (simp add: marked_def split: prod.split)

lemma marked_trans: "marked st st' \<Longrightarrow> marked st' st'' \<Longrightarrow> marked st st''"
  by (cases st; cases st'; cases st'') (simp add: marked_def)

lemma starve_marked: "marked st (starve_unit h i st)"
proof -
  obtain q w where s: "st = (q, w)" by fastforce
  have "(unit_keys q)[i := unit_key ((pq_q q ! i)\<lparr> pn_shape := Some (tag\<lparr> tg_starved_noted := True \<rparr>) \<rparr>)] = unit_keys q"
    if "pn_shape (pq_q q ! i) = Some tag" "i < length (pq_q q)" for tag
    using that by (simp add: unit_key_def list_update_same_conv)
  then show ?thesis
    by (auto simp: starve_unit_def s marked_def map_update split: option.split)
qed

lemma fold_marked: "(\<And>x st. marked st (f x st)) \<Longrightarrow> marked st (fold f xs st)"
proof (induction xs arbitrary: st)
  case (Cons x xs)
  show ?case using marked_trans [OF Cons.prems Cons.IH [OF Cons.prems]] by simp
qed (simp add: marked_refl)

text \<open>Parking leaves the units, and leaves the deadline and the gate it was given.\<close>

definition parked_at :: "instant \<Rightarrow> egress_gate option \<Rightarrow> queue_state \<Rightarrow> queue_state \<Rightarrow> bool" where
  "parked_at at g st st' \<longleftrightarrow> (case st of (q, w) \<Rightarrow> case st' of (q', w') \<Rightarrow>
     unit_keys q' = unit_keys q \<and> pq_head_deadline q' = Some at \<and> pq_shape_gate q' = g \<and> pq_shape_parked q'
     \<and> pq_queued_bytes q' = pq_queued_bytes q \<and> pq_flushed_unconfirmed q' = pq_flushed_unconfirmed q
     \<and> pq_shaper q' = pq_shaper q \<and> (pq_shaper q \<noteq> None \<longrightarrow> pq_shape_demand q' = head_class q')
     \<and> pq_tokens_dry q' = pq_tokens_dry q \<and> pq_shape_report q' = pq_shape_report q
     \<and> (pq_shaper q \<noteq> None \<and> pq_shape_demand q = head_class q \<longrightarrow> ew_sched w' = ew_sched w)
     \<and> pq_gauged q' = pq_gauged q \<and> ew_gauge w' = ew_gauge w \<and> ew_holds w' = ew_holds w)"

lemma sync_fields:
  assumes "sync_shape_demand (q, w) = (q', w')"
  shows "q' = q\<lparr> pq_shape_demand := (if pq_shaper q = None then pq_shape_demand q else head_class q) \<rparr>"
    "w' = w\<lparr> ew_sched := ew_sched w' \<rparr>"
    "pq_shaper q = None \<or> head_class q = pq_shape_demand q \<Longrightarrow> w' = w"
  using assms by (auto simp: sync_shape_demand_def Let_def split: if_splits)

lemma starved_behind_marked: "marked st (note_starved_behind h st)"
proof (cases "pq_shaper (fst st) = None")
  case False
  let ?r = "fold (starve_unit (Some h)) [max (pq_starved_from (fst st)) 1..<length (pq_q (fst st))] st"
  have "marked st ?r" by (rule fold_marked) (rule starve_marked)
  then show ?thesis using False
    by (cases st; cases ?r) (auto simp: note_starved_behind_def Let_def marked_def)
qed (simp add: note_starved_behind_def marked_refl)

lemma park_head_parked: "parked_at at g st (park_head at tag g st)"
proof -
  obtain q w where s: "st = (q, w)" by fastforce
  let ?q = "arm_head_at at (q\<lparr> pq_shape_gate := g, pq_shape_parked := True \<rparr>)"
  obtain q1 w1 where 1: "sync_shape_demand (?q, w) = (q1, w1)" by (metis surj_pair)
  note f = sync_fields [OF 1]
  let ?st = "if g \<noteq> None then note_head_starved (q1, w1) else (q1, w1)"
  obtain q2 w2 where 2: "?st = (q2, w2)" by (metis surj_pair)
  have m: "marked (q1, w1) (q2, w2)"
    unfolding 2 [symmetric] by (simp add: note_head_starved_def starve_marked marked_refl)
  obtain q3 w3 where 3: "note_starved_behind (tg_class tag) (q2, w2) = (q3, w3)" by (metis surj_pair)
  have n: "marked (q2, w2) (q3, w3)"
    using starved_behind_marked [of "(q2, w2)" "tg_class tag"] by (simp add: 3)
  note mn = marked_trans [OF m n]
  have e: "park_head at tag g st = (q3, w3)" by (simp only: park_head_def Let_def s prod.case 1 2 3)
  from mn have k: "unit_keys q3 = unit_keys q" by (simp add: marked_def f(1) arm_head_at_def)
  have "head_class q3 = head_class q" using unit_keys_same(2) [OF k] .
  moreover have "head_class ?q = head_class q" by (simp add: head_class_def arm_head_at_def)
  moreover have "pq_shape_demand q = head_class q \<Longrightarrow> w1 = w"
    using f(3) by (simp add: head_class_def arm_head_at_def)
  moreover have "ew_gauge w1 = ew_gauge w" "ew_holds w1 = ew_holds w"
    using arg_cong [OF f(2), of ew_gauge] arg_cong [OF f(2), of ew_holds] by simp_all
  ultimately show ?thesis
    using mn k e [unfolded s] unfolding s parked_at_def by (auto simp: marked_def f(1) arm_head_at_def)
qed

section \<open>The ways a pop can go\<close>

lemma grants_cases:
  assumes run: "shaping_grants_head now clock (q, w) = (g, q', w')" and h: "pq_q q = head # rest"
  obtains
    (pass) "g" "q' = q" "w' = w" "pq_shaper q = None \<or> pn_shape head = None \<or> is_terminal head"
  | (deliver) tag where "g" "pq_shaper q \<noteq> None" "pn_shape head = Some tag" "tg_expires_at tag \<le> now"
      "q' = q\<lparr> pq_shape_report := Some (ReportClamped None (pq_shape_hold q)) \<rparr>" "w' = w"
      "sched_on_expiry (ew_sched w) = ExpiryDeliver"
  | (reset) tag code where "g" "pq_shaper q \<noteq> None" "pn_shape head = Some tag" "tg_expires_at tag \<le> now"
      "(q', w') = expire_head (ExpiryResetStream code) clock (q, w)"
      "sched_on_expiry (ew_sched w) = ExpiryResetStream code"
  | (granted) tag s where "g" "pq_shaper q \<noteq> None" "pn_shape head = Some tag" "now < tg_expires_at tag"
      "shape_acquire (tg_class tag) (of_nat (pending_len head)) now (ew_sched w) = (AcquireNow, s)"
      "q' = q\<lparr> pq_tokens_dry := False \<rparr>" "w' = w\<lparr> ew_sched := s \<rparr>"
  | (refused) tag a s at gt q1 w1 where "\<not> g" "pq_shaper q \<noteq> None" "pn_shape head = Some tag" "now < tg_expires_at tag"
      "shape_acquire (tg_class tag) (of_nat (pending_len head)) now (ew_sched w) = (a, s)" "a \<noteq> AcquireNow"
      "(q', w') = park_head at tag gt (q1, w1)"
      "q1 = q\<lparr> pq_tokens_dry := pq_tokens_dry q1, pq_shape_report := pq_shape_report q1 \<rparr>"
      "w1 = w\<lparr> ew_sched := s, ew_recs := ew_recs w1 \<rparr>"
      "at = (case a of AcquireLater t \<Rightarrow> min t (tg_expires_at tag) | _ \<Rightarrow> tg_expires_at tag)"
      "gt = (case a of AcquireStarved b \<Rightarrow> Some (ClassGate b) | _ \<Rightarrow> None)"
      "w1 = w\<lparr> ew_sched := s \<rparr> \<or> w1 = snd (note_tokens_dry (tg_class tag) (q, w\<lparr> ew_sched := s \<rparr>))"
proof (cases "pq_shaper q = None \<or> pn_shape head = None \<or> is_terminal head")
  case True
  then have "shaping_grants_head now clock (q, w) = (True, q, w)"
    using h by (cases "pn_shape head") (auto simp: shaping_grants_head_def)
  then show ?thesis using run True pass by auto
next
  case False
  then obtain tag where tag: "pn_shape head = Some tag" by (cases "pn_shape head") auto
  from False obtain side where side: "pq_shaper q = Some side" by (cases "pq_shaper q") auto
  show ?thesis
  proof (cases "tg_expires_at tag \<le> now")
    case True
    then have "g" "(q', w') = expire_head (sched_on_expiry (ew_sched w)) clock (q, w)"
      using run h False tag by (auto simp: shaping_grants_head_def)
    then show ?thesis
      using True tag False deliver reset by (cases "sched_on_expiry (ew_sched w)") (auto simp: expire_head_def)
  next
    case early: False
    obtain a s where a: "shape_acquire (tg_class tag) (of_nat (pending_len head)) now (ew_sched w) = (a, s)" by (metis surj_pair)
    obtain q1 w1 where d: "note_tokens_dry (tg_class tag) (q, w\<lparr> ew_sched := s \<rparr>) = (q1, w1)" by (metis surj_pair)
    then have q1: "q1 = q\<lparr> pq_tokens_dry := pq_tokens_dry q1, pq_shape_report := pq_shape_report q1 \<rparr>"
      "w1 = w\<lparr> ew_sched := s, ew_recs := ew_recs w1 \<rparr>"
      by (auto simp: note_tokens_dry_def split: if_splits)
    have r: "(case a of
        AcquireNow \<Rightarrow> (True, q\<lparr> pq_tokens_dry := False \<rparr>, w\<lparr> ew_sched := s \<rparr>)
      | AcquireLater at \<Rightarrow> (False, park_head (min at (tg_expires_at tag)) tag None (q1, w1))
      | AcquireNever \<Rightarrow> (False, park_head (tg_expires_at tag) tag None (q1, w1))
      | AcquireLargerThanBurst burst n \<Rightarrow> (False, park_head (tg_expires_at tag) tag None
            (q1\<lparr> pq_shape_report := Some (ReportBurstBelowUnit (tg_class tag) burst n) \<rparr>, w1))
      | AcquireStarved b \<Rightarrow> (False, park_head (tg_expires_at tag) tag (Some (ClassGate b)) (q, w\<lparr> ew_sched := s \<rparr>)))
        = (g, q', w')"
      unfolding run [symmetric] using h side tag early False
      by (cases a) (simp_all add: shaping_grants_head_def a d Let_def)
    note ref = refused [of tag a s, OF _ _ tag _ a]
    show ?thesis
    proof (cases a)
      case AcquireNow
      then show ?thesis using r early False tag a granted [of tag s] by auto
    next
      case (AcquireLater at)
      then have x: "\<not> g" "(q', w') = park_head (min at (tg_expires_at tag)) tag None (q1, w1)" using r by auto
      show ?thesis by (rule ref [OF x(1) _ _ _ x(2) q1]) (use early side AcquireLater d in simp_all)
    next
      case AcquireNever
      then have x: "\<not> g" "(q', w') = park_head (tg_expires_at tag) tag None (q1, w1)" using r by auto
      show ?thesis by (rule ref [OF x(1) _ _ _ x(2) q1]) (use early side AcquireNever d in simp_all)
    next
      case (AcquireLargerThanBurst burst n)
      let ?q = "q1\<lparr> pq_shape_report := Some (ReportBurstBelowUnit (tg_class tag) burst n) \<rparr>"
      have q: "?q = q\<lparr> pq_tokens_dry := pq_tokens_dry ?q, pq_shape_report := pq_shape_report ?q \<rparr>"
        using arg_cong [OF q1(1), of "pq_shape_report_update (\<lambda>_. Some (ReportBurstBelowUnit (tg_class tag) burst n))"] by simp
      from AcquireLargerThanBurst have x: "\<not> g" "(q', w') = park_head (tg_expires_at tag) tag None (?q, w1)" using r by auto
      show ?thesis by (rule ref [OF x(1) _ _ _ x(2) q q1(2)]) (use early side AcquireLargerThanBurst d in simp_all)
    next
      case (AcquireStarved b)
      then have x: "\<not> g" "(q', w') = park_head (tg_expires_at tag) tag (Some (ClassGate b)) (q, w\<lparr> ew_sched := s \<rparr>)"
        using r by auto
      show ?thesis by (rule ref [OF x(1) _ _ _ x(2)]) (use early side AcquireStarved d in simp_all)
    qed
  qed
qed

lemma queue_credit_fields:
  assumes "queue_credit n (q, w) = (q', w')"
  shows "q' = q\<lparr> pq_queued_bytes := pq_queued_bytes q - n \<rparr>"
    "w' = w\<lparr> ew_gauge := (if pq_gauged q then gauge_sub (min n (pq_queued_bytes q)) (ew_gauge w) else ew_gauge w) \<rparr>"
  using assms by (auto simp: queue_credit_def Let_def min_def)

lemma delivered_fields:
  assumes "note_queue_delivered u (q, w) = (q', w')"
  shows "q' = q" "w' = w\<lparr> ew_recs := ew_recs w' \<rparr>"
    "ew_recs w' = (case (pq_shaper q, pn_shape u) of
        (Some side, Some tag) \<Rightarrow> if pending_len u > 0
          then note_delivered side (tg_class tag) (of_nat (pending_len u)) (ew_recs w) else ew_recs w
      | _ \<Rightarrow> ew_recs w)"
  using assms by (auto simp: note_queue_delivered_def split: option.splits if_splits)

lemma delivered_recs_cong:
  "ew_recs w1 = ew_recs w \<Longrightarrow> pq_shaper q1 = pq_shaper q \<Longrightarrow>
     ew_recs (snd (note_queue_delivered u (q1, w1))) = ew_recs (snd (note_queue_delivered u (q, w)))"
  by (simp add: note_queue_delivered_def split: option.split)

text \<open>A unit taken off the front: what the queue is left with.\<close>

lemma take_front_fields:
  assumes "take_front (q, w) = (Some u, q', w')" "pq_q q = u # us"
  shows "pq_q q' = us" "pq_queued_bytes q' = pq_queued_bytes q - pending_len u" "pq_head_deadline q' = map_option pn_due_at (case us of [] \<Rightarrow> None | v # _ \<Rightarrow> Some v)"
    "pq_shaper q' = pq_shaper q" "pq_shape_demand q' = (if pq_shaper q = None then pq_shape_demand q else head_class q')"
    "pq_shape_gate q' = pq_shape_gate q" "pq_shape_parked q' = pq_shape_parked q" "pq_flushed_unconfirmed q' = pq_flushed_unconfirmed q"
    "ew_gauge w' = (if pq_gauged q then gauge_sub (min (pending_len u) (pq_queued_bytes q)) (ew_gauge w) else ew_gauge w)"
    "ew_holds w' = ew_holds w" "ew_recs w' = ew_recs (snd (note_queue_delivered u (q, w)))" "pq_shape_report q' = pq_shape_report q"
proof -
  obtain q1 w1 where 1: "queue_credit (pending_len u) (q\<lparr> pq_q := us \<rparr>, w) = (q1, w1)" by (metis surj_pair)
  let ?q = "q1\<lparr> pq_starved_from := max (pq_starved_from q1 - 1) 1 \<rparr>"
  obtain q2 w2 where 2: "note_queue_delivered u (?q, w1) = (q2, w2)" by (metis surj_pair)
  have 3: "sync_shape_demand (arm_head q2, w2) = (q', w')"
    using assms by (simp add: take_front_def 1 2 Let_def del: One_nat_def)
  note f1 = queue_credit_fields [OF 1] and f2 = delivered_fields [OF 2] and f3 = sync_fields [OF 3]
  have qs: "q' = (arm_head ?q)\<lparr> pq_shape_demand := (if pq_shaper q = None then pq_shape_demand q else head_class (arm_head ?q)) \<rparr>"
    using f3(1) by (simp add: f2(1) f1(1) arm_head_def)
  have hc: "head_class q' = head_class (arm_head ?q)" unfolding qs by (simp add: head_class_def)
  show "pq_q q' = us" "pq_queued_bytes q' = pq_queued_bytes q - pending_len u" "pq_head_deadline q' = map_option pn_due_at (case us of [] \<Rightarrow> None | v # _ \<Rightarrow> Some v)"
    "pq_shaper q' = pq_shaper q" "pq_shape_gate q' = pq_shape_gate q" "pq_shape_parked q' = pq_shape_parked q"
    "pq_flushed_unconfirmed q' = pq_flushed_unconfirmed q" "pq_shape_report q' = pq_shape_report q"
    by (simp_all add: qs f1 arm_head_def split: list.split)
  show "pq_shape_demand q' = (if pq_shaper q = None then pq_shape_demand q else head_class q')"
    unfolding hc by (simp add: qs)
  show "ew_gauge w' = (if pq_gauged q then gauge_sub (min (pending_len u) (pq_queued_bytes q)) (ew_gauge w) else ew_gauge w)"
    "ew_holds w' = ew_holds w"
    using arg_cong [OF f3(2), of ew_gauge] arg_cong [OF f2(2), of ew_gauge] arg_cong [OF f3(2), of ew_holds]
      arg_cong [OF f2(2), of ew_holds] by (simp_all add: f1)
  have "ew_recs w' = ew_recs (snd (note_queue_delivered u (?q, w1)))" using arg_cong [OF f3(2), of ew_recs] 2 by simp
  also have "\<dots> = ew_recs (snd (note_queue_delivered u (q, w)))"
    by (rule delivered_recs_cong) (simp_all add: f1)
  finally show "ew_recs w' = ew_recs (snd (note_queue_delivered u (q, w)))" .
qed

lemma clear_fields:
  assumes "queue_clear (q, w) = (q', w')"
  shows "pq_q q' = []" "pq_queued_bytes q' = 0" "pq_head_deadline q' = None" "pq_shaper q' = pq_shaper q"
    "pq_shape_demand q' = (if pq_shaper q = None then pq_shape_demand q else None)" "pq_shape_gate q' = None"
    "\<not> pq_shape_parked q'" "pq_flushed_unconfirmed q' = pq_flushed_unconfirmed q" "pq_gauged q' = pq_gauged q"
    "ew_gauge w' = (if pq_gauged q then gauge_sub (pq_queued_bytes q) (ew_gauge w) else ew_gauge w)"
    "ew_holds w' = ew_holds w" "ew_recs w' = ew_recs w" "pq_shape_report q' = pq_shape_report q"
proof -
  obtain q1 w1 where 1: "queue_credit (pq_queued_bytes q) (q\<lparr> pq_q := [] \<rparr>, w) = (q1, w1)" by (metis surj_pair)
  let ?q = "q1\<lparr> pq_head_deadline := None, pq_starved_from := 1, pq_shape_gate := None, pq_shape_parked := False \<rparr>"
  have 2: "sync_shape_demand (?q, w1) = (q', w')" using assms by (simp add: queue_clear_def 1)
  note f1 = queue_credit_fields [OF 1] and f2 = sync_fields [OF 2]
  have qs: "q' = ?q\<lparr> pq_shape_demand := (if pq_shaper q = None then pq_shape_demand q else None) \<rparr>"
    unfolding f2(1) by (simp add: f1(1) head_class_def)
  show "pq_q q' = []" "pq_queued_bytes q' = 0" "pq_head_deadline q' = None" "pq_shaper q' = pq_shaper q"
    "pq_shape_demand q' = (if pq_shaper q = None then pq_shape_demand q else None)" "pq_shape_gate q' = None"
    "\<not> pq_shape_parked q'" "pq_flushed_unconfirmed q' = pq_flushed_unconfirmed q" "pq_gauged q' = pq_gauged q"
    "pq_shape_report q' = pq_shape_report q"
    by (simp_all add: qs f1)
  show "ew_gauge w' = (if pq_gauged q then gauge_sub (pq_queued_bytes q) (ew_gauge w) else ew_gauge w)"
    "ew_holds w' = ew_holds w" "ew_recs w' = ew_recs w"
    using arg_cong [OF f2(2), of ew_gauge] arg_cong [OF f2(2), of ew_holds] arg_cong [OF f2(2), of ew_recs] by (simp_all add: f1)
qed

lemma expire_reset_fields:
  assumes "expire_head (ExpiryResetStream code) clock (q, w) = (q', w')"
  shows "pq_q q' = [pending_terminal (TerminalReset code) clock]" "pq_queued_bytes q' = 0" "pq_shaper q' = pq_shaper q"
    "pq_shape_demand q' = (if pq_shaper q = None then pq_shape_demand q else None)" "pq_gauged q' = pq_gauged q"
    "pq_flushed_unconfirmed q' = pq_flushed_unconfirmed q" "pq_shape_gate q' = None" "\<not> pq_shape_parked q'"
    "ew_gauge w' = (if pq_gauged q then gauge_sub (pq_queued_bytes q) (ew_gauge w) else ew_gauge w)" "ew_holds w' = ew_holds w"
    "pq_shape_report q' = Some ReportExpired"
proof -
  let ?w = "case pq_shaper q of
      Some side \<Rightarrow> w\<lparr> ew_recs := note_stream_reset_by_shaping side (note_expired side (ew_recs w)) \<rparr> | None \<Rightarrow> w"
  obtain q1 w1 where c: "queue_clear (q\<lparr> pq_shape_report := Some ReportExpired \<rparr>, ?w) = (q1, w1)" by (rule prod.exhaust)
  have e: "q' = arm_head (q1\<lparr> pq_q := [pending_terminal (TerminalReset code) clock] \<rparr>)" "w' = w1"
    using assms c by (simp_all add: expire_head_def Let_def)
  have w: "ew_gauge ?w = ew_gauge w" "ew_holds ?w = ew_holds w" by (simp_all split: option.split)
  note f = clear_fields [OF c]
  show "pq_q q' = [pending_terminal (TerminalReset code) clock]" "pq_queued_bytes q' = 0" "pq_shaper q' = pq_shaper q"
    "pq_shape_demand q' = (if pq_shaper q = None then pq_shape_demand q else None)" "pq_gauged q' = pq_gauged q"
    "pq_flushed_unconfirmed q' = pq_flushed_unconfirmed q" "pq_shape_gate q' = None" "\<not> pq_shape_parked q'"
    "ew_gauge w' = (if pq_gauged q then gauge_sub (pq_queued_bytes q) (ew_gauge w) else ew_gauge w)" "ew_holds w' = ew_holds w"
    "pq_shape_report q' = Some ReportExpired"
    using f w by (simp_all add: e arm_head_def)
qed

end
