(* ===== verification/Egress_Drain.thy ===== *)
theory Egress_Drain
  imports Pending_Order
begin

text \<open>
  Writing what an egress queue releases (\<open>egress.rs\<close>): one unit, the two drains, the session's record of
  why it closes; and what the framed data pipe does to a shaped unit before it is queued
  (\<open>session.rs\<close>). The transport is two functions of the sink's state, a write that may fail and a reset
  whose failure nobody reads. The race of a drain against cancellation is the list of what won it.
\<close>

section \<open>One unit\<close>

datatype written = WrittenBytes nat | WrittenNothing | WrittenTerminated nat u64

type_synonym ('s, 'e) write_fn = "bytes \<Rightarrow> 's \<Rightarrow> 'e option \<times> 's"

fun write_unit ::
  "('s, 'e) write_fn \<Rightarrow> (u64 \<Rightarrow> 's \<Rightarrow> 's) \<Rightarrow> item \<Rightarrow> 's \<Rightarrow> ('e + written) \<times> 's" where
  "write_unit wr rst (ItemWrite raw) s =
     (case wr raw s of
        (Some e, s) \<Rightarrow> (Inl e, s)
      | (None, s) \<Rightarrow> (Inr (WrittenBytes (length raw)), s))"
| "write_unit wr rst ItemElided s = (Inr WrittenNothing, s)"
| "write_unit wr rst (ItemTerminal (TerminalTruncate prefix code)) s =
     (case (if prefix = [] then (None, s) else wr prefix s) of
        (Some e, s) \<Rightarrow> (Inl e, s)
      | (None, s) \<Rightarrow> (Inr (WrittenTerminated (length prefix) code), rst code s))"
| "write_unit wr rst (ItemTerminal (TerminalReset code)) s =
     (Inr (WrittenTerminated 0 code), rst code s)"

section \<open>The drains\<close>

datatype drain_outcome =
  DrainComplete | DrainCancelledMidDrain | DrainTerminated nat u64 | DrainWriteFailed | DrainDiscarded

definition note_flushed :: "nat \<Rightarrow> queue_state \<Rightarrow> queue_state" where
  "note_flushed n st =
     (let (q, w) = st in (q\<lparr> pq_flushed_unconfirmed := min (pq_flushed_unconfirmed q + n) (2 ^ 64 - 1) \<rparr>, w))"

lemma take_front_shorter:
  assumes "pq_q (fst st) = u # us"
  shows "\<exists>q w. take_front st = (Some u, q, w) \<and> pq_q q = us"
proof -
  obtain q w where s: "st = (q, w)" by fastforce
  obtain r q' w' where r: "take_front (q, w) = (r, q', w')" by (metis surj_pair)
  then have "r = Some u" using assms by (auto simp: s take_front_def Let_def split: prod.splits)
  then show ?thesis using take_front_fields(1) [of q w u q' w' us] r assms by (simp add: s)
qed

function flush_loop ::
  "('s, 'e) write_fn \<Rightarrow> (u64 \<Rightarrow> 's \<Rightarrow> 's) \<Rightarrow> queue_state \<Rightarrow> 's \<Rightarrow> drain_outcome \<times> queue_state \<times> 's" where
  "flush_loop wr rst st s =
     (case pq_q (fst st) of
        [] \<Rightarrow> (DrainComplete, st, s)
      | u # us \<Rightarrow>
          (case write_unit wr rst (pn_item u) s of
             (Inl e, s) \<Rightarrow> (DrainWriteFailed, st, s)
           | (Inr (WrittenTerminated forwarded code), s) \<Rightarrow>
               (DrainTerminated forwarded code, queue_clear (note_flushed forwarded st), s)
           | (Inr (WrittenBytes n), s) \<Rightarrow> flush_loop wr rst (snd (take_front (note_flushed n st))) s
           | (Inr WrittenNothing, s) \<Rightarrow> flush_loop wr rst (snd (take_front st)) s))"
  by pat_completeness auto

termination
proof (relation "measure (\<lambda>(wr, rst, st, s). length (pq_q (fst st)))")
  show "((wr, rst, snd (take_front (note_flushed n st)), s'), wr, rst, st, s)
      \<in> measure (\<lambda>(wr, rst, st, s). length (pq_q (fst st)))"
    if "pq_q (fst st) = u # us" for wr :: "('s, 'e) write_fn" and rst st s s' u us n
    using take_front_shorter [of "note_flushed n st" u us] that
    by (auto simp: note_flushed_def split: prod.splits)
  show "((wr, rst, snd (take_front st), s'), wr, rst, st, s)
      \<in> measure (\<lambda>(wr, rst, st, s). length (pq_q (fst st)))"
    if "pq_q (fst st) = u # us" for wr :: "('s, 'e) write_fn" and rst st s s' u us
    using take_front_shorter [of st u us] that by auto
qed simp

declare flush_loop.simps [simp del]

definition drain_ignoring_release_times ::
  "('s, 'e) write_fn \<Rightarrow> (u64 \<Rightarrow> 's \<Rightarrow> 's) \<Rightarrow> queue_state \<Rightarrow> 's \<Rightarrow> drain_outcome \<times> queue_state \<times> 's" where
  "drain_ignoring_release_times wr rst st s =
     (if queue_discarding st then (DrainDiscarded, st, s) else flush_loop wr rst st s)"

text \<open>The units one wake releases, and what the shaper has to say of them.\<close>

definition take_report :: "queue_state \<Rightarrow> shape_report list \<times> queue_state" where
  "take_report st =
     (let (q, w) = st; (r, q) = take_shape_report q in (case r of Some r \<Rightarrow> [r] | None \<Rightarrow> [], (q, w)))"

lemma take_report_fields:
  "pq_q (fst (snd (take_report st))) = pq_q (fst st)"
  by (simp add: take_report_def take_shape_report_def split: prod.split)

lemma pop_shorter:
  assumes "pop_next_due now clock st = (Some u, st')"
  shows "length (pq_q (fst st')) < length (pq_q (fst st))"
proof -
  obtain q w where s: "st = (q, w)" by fastforce
  let ?st = "(q\<lparr> pq_shape_gate := None, pq_shape_parked := False \<rparr>, w)"
  obtain g q1 w1 where g: "shaping_grants_head now clock ?st = (g, q1, w1)" by (metis surj_pair)
  from assms have gr: "g" and take: "take_front (q1, w1) = (Some u, st')" and "pq_q q \<noteq> []"
    by (auto simp: pop_next_due_def s g Let_def split: if_splits list.splits)
  then obtain h rest where h: "pq_q q = h # rest" by (cases "pq_q q") auto
  have h': "pq_q (q\<lparr> pq_shape_gate := None, pq_shape_parked := False \<rparr>) = h # rest" by (simp add: h)
  from g h' have "length (pq_q q1) \<le> length (pq_q q) \<and> pq_q q1 \<noteq> []"
  proof (cases rule: grants_cases)
    case (reset tag code)
    from expire_reset_fields(1) [OF reset(5) [symmetric]] show ?thesis by (simp add: h)
  next
    case (refused tag a s at gt q2 w2)
    with gr show ?thesis by simp
  qed (simp_all add: h)
  then obtain v vs where v: "pq_q q1 = v # vs" "length (v # vs) \<le> length (pq_q q)" by (cases "pq_q q1") auto
  with take_front_shorter [of "(q1, w1)" v vs] take show ?thesis by (auto simp: s)
qed

text \<open>Either release loop: the whole of one wake, and whether a terminal ended the stream.\<close>

function release_due ::
  "('s, 'e) write_fn \<Rightarrow> (u64 \<Rightarrow> 's \<Rightarrow> 's) \<Rightarrow> instant \<Rightarrow> instant \<Rightarrow> queue_state \<Rightarrow> 's
     \<Rightarrow> ('e + (nat \<times> u64) option) \<times> shape_report list \<times> queue_state \<times> 's" where
  "release_due wr rst now clock st s =
     (case pop_next_due now clock st of
        (None, st) \<Rightarrow> (let (rs, st) = take_report st in (Inr None, rs, st, s))
      | (Some u, st') \<Rightarrow>
          (let (rs, st1) = take_report st' in
           case write_unit wr rst (pn_item u) s of
             (Inl e, s) \<Rightarrow> (Inl e, rs, st1, s)
           | (Inr (WrittenTerminated forwarded code), s) \<Rightarrow> (Inr (Some (forwarded, code)), rs, queue_clear st1, s)
           | (Inr w, s) \<Rightarrow> (let (r, rs', st, s) = release_due wr rst now clock st1 s in (r, rs @ rs', st, s))))"
  by pat_completeness auto

termination
proof (relation "measure (\<lambda>(wr, rst, now, clock, st, s). length (pq_q (fst st)))")
  have less: "length (pq_q (fst (snd (take_report st')))) < length (pq_q (fst st))"
    if "pop_next_due now clock st = (Some u, st')" for now clock st u st'
    using pop_shorter [OF that] by (simp add: take_report_fields)
  show "((wr, rst, now, clock, st1, s'), wr, rst, now, clock, st, s)
      \<in> measure (\<lambda>(wr, rst, now, clock, st, s). length (pq_q (fst st)))"
    if "(x, y) = pop_next_due now clock st" "x = Some u" "z = take_report y" "(rs, st1) = z"
    for wr :: "('s, 'e) write_fn" and rst now clock st s x y u z rs st1 s'
  proof -
    have "st1 = snd (take_report y)" using that(3,4) by (metis snd_conv)
    then show ?thesis using less [of now clock st u y] that(1,2) by simp
  qed
  show "((wr, rst, now, clock, st1, s'), wr, rst, now, clock, st, s)
      \<in> measure (\<lambda>(wr, rst, now, clock, st, s). length (pq_q (fst st)))"
    if "(x, y) = pop_next_due now clock st" "x = Some u" "z = take_report y" "(rs, st1) = z"
    for wr :: "('s, 'e) write_fn" and rst now clock st s x y u z rs st1 s'
  proof -
    have "st1 = snd (take_report y)" using that(3,4) by (metis snd_conv)
    then show ?thesis using less [of now clock st u y] that(1,2) by simp
  qed
qed simp

datatype drain_wake = WakeCancelled | WakeReleased instant instant

text \<open>A drain that has used up its wakes with units left is still waiting.\<close>

fun drain_honouring ::
  "('s, 'e) write_fn \<Rightarrow> (u64 \<Rightarrow> 's \<Rightarrow> 's) \<Rightarrow> drain_wake list \<Rightarrow> queue_state \<Rightarrow> 's
     \<Rightarrow> ('e + drain_outcome) option \<times> shape_report list \<times> queue_state \<times> 's" where
  "drain_honouring wr rst wakes st s =
     (if head_release (fst st) = None then (Some (Inr DrainComplete), [], st, s)
      else case wakes of
        [] \<Rightarrow> (None, [], st, s)
      | WakeCancelled # _ \<Rightarrow>
          (case drain_ignoring_release_times wr rst st s of
             (DrainTerminated forwarded code, st, s) \<Rightarrow> (Some (Inr (DrainTerminated forwarded code)), [], st, s)
           | (_, st, s) \<Rightarrow> (Some (Inr DrainCancelledMidDrain), [], st, s))
      | WakeReleased now clock # wakes \<Rightarrow>
          (case release_due wr rst now clock st s of
             (Inl e, rs, st, s) \<Rightarrow> (Some (Inl e), rs, st, s)
           | (Inr (Some (forwarded, code)), rs, st, s) \<Rightarrow> (Some (Inr (DrainTerminated forwarded code)), rs, st, s)
           | (Inr None, rs, st, s) \<Rightarrow>
               (let (r, rs', st, s) = drain_honouring wr rst wakes st s in (r, rs @ rs', st, s))))"

section \<open>Why a session closes\<close>

datatype close_origin = OriginHook | OriginControlPlane

record session_closer =
  cl_request :: "(u32 \<times> bytes \<times> close_origin) option"
  cl_cancelled :: bool

definition closer_new :: session_closer where
  "closer_new = \<lparr> cl_request = None, cl_cancelled = False \<rparr>"

definition closer_set :: "close_origin \<Rightarrow> u32 \<Rightarrow> bytes \<Rightarrow> session_closer \<Rightarrow> bool \<times> session_closer" where
  "closer_set origin code reason c =
     (case cl_request c of
        None \<Rightarrow> (True, c\<lparr> cl_request := Some (code, reason, origin) \<rparr>)
      | Some _ \<Rightarrow> (False, c))"

definition closer_request :: "u32 \<Rightarrow> bytes \<Rightarrow> session_closer \<Rightarrow> bool \<times> session_closer" where
  "closer_request = closer_set OriginHook"

definition closer_record :: "u32 \<Rightarrow> bytes \<Rightarrow> session_closer \<Rightarrow> bool \<times> session_closer" where
  "closer_record = closer_set OriginControlPlane"

definition closer_cancel :: "session_closer \<Rightarrow> session_closer" where
  "closer_cancel c = c\<lparr> cl_cancelled := True \<rparr>"

definition is_closing :: "session_closer \<Rightarrow> bool" where
  "is_closing c \<longleftrightarrow> cl_request c \<noteq> None"

definition default_close_reason :: string where
  "default_close_reason = ''proxy session ended''"

definition close_args :: "session_closer \<Rightarrow> u32 \<times> bytes" where
  "close_args c =
     (case cl_request c of
        Some (code, reason, origin) \<Rightarrow> (code, reason)
      | None \<Rightarrow> (0, map (\<lambda>c. of_nat (of_char c)) default_close_reason))"

section \<open>The shaped pipe\<close>

record shaped_pipe =
  pp_queue :: pending_queue
  pp_units :: u64
  pp_last_class :: shape_class
  pp_first_class :: "shape_class option"
  pp_mixed_reported :: bool
  pp_blocked :: bool
  pp_drop_reported :: bool

type_synonym pipe_state = "shaped_pipe \<times> egress_world"

definition pipe_new :: "egress_config \<Rightarrow> proxy_side \<Rightarrow> scheduler \<Rightarrow> shaped_pipe" where
  "pipe_new config side s =
     \<lparr> pp_queue = with_shaper (Some s) side (with_shape_depth (blocking_depth s) (with_gauge (queue_new config))),
       pp_units = 0, pp_last_class = DefaultClass, pp_first_class = None, pp_mixed_reported = False,
       pp_blocked = False, pp_drop_reported = False \<rparr>"

datatype pipe_outcome = PipeQueued push_result | PipeDropped bool | PipeReset u64

text \<open>Every turn of the loop: an episode of blocking is counted on its edge.\<close>

definition pipe_turn :: "pipe_state \<Rightarrow> pipe_state" where
  "pipe_turn st =
     (let (p, w) = st in
      if blocking_depth (ew_sched w) = None then (p, w)
      else if accepts_more (pp_queue p) then (p\<lparr> pp_blocked := False \<rparr>, w)
      else if pp_blocked p then (p, w)
      else (p\<lparr> pp_blocked := True \<rparr>, w\<lparr> ew_recs := note_blocked (pp_last_class p) (ew_recs w) \<rparr>))"

definition enqueue_unshown ::
  "instant \<Rightarrow> instant \<Rightarrow> instant \<Rightarrow> bytes \<Rightarrow> pipe_state \<Rightarrow> (pipe_outcome \<times> pipe_state) option" where
  "enqueue_unshown due clock1 clock2 raw st =
     (let (p, w) = st in
      map_option (\<lambda>(push, q, w). (PipeQueued push, p\<lparr> pp_queue := q \<rparr>, w))
        (queue_push clock1 clock2 (pending_bytes raw due) (pp_queue p, w)))"

text \<open>Bytes no rule can see: a stream header, an oversized chunk, the tail of a bypassed stream.\<close>

definition pipe_unseen ::
  "instant \<Rightarrow> instant \<Rightarrow> instant \<Rightarrow> bytes \<Rightarrow> pipe_state \<Rightarrow> (pipe_outcome \<times> pipe_state) option" where
  "pipe_unseen due clock1 clock2 raw st =
     (let (p, w) = st in
      enqueue_unshown due clock1 clock2 raw (p\<lparr> pp_queue := tag_unit UnshapeableClass (pp_queue p) \<rparr>, w))"

text \<open>An object's class, its counters, and the one report of a stream of two classes.\<close>

definition pipe_classify :: "proxy_side \<Rightarrow> object_meta \<Rightarrow> nat \<Rightarrow> pipe_state \<Rightarrow> pipe_state" where
  "pipe_classify side meta len st =
     (let (p, w) = st;
          w = w\<lparr> ew_recs := note_object_seen side (of_nat len) (ew_recs w) \<rparr>;
          (class, rs, sched) = shape_classify side meta (pp_units p) (ew_sched w);
          w = w\<lparr> ew_sched := sched \<rparr>;
          p = p\<lparr> pp_units := pp_units p + 1, pp_last_class := class, pp_queue := tag_unit class (pp_queue p) \<rparr>
      in case pp_first_class p of
           None \<Rightarrow> (p\<lparr> pp_first_class := Some class \<rparr>, w)
         | Some first \<Rightarrow>
             if first \<noteq> class \<and> \<not> pp_mixed_reported p
             then (p\<lparr> pp_mixed_reported := True \<rparr>, w\<lparr> ew_recs := note_mixed_class_stream side (ew_recs w) \<rparr>)
             else (p, w))"

text \<open>A framed object no hook is shown; \<open>elidable\<close> is the verdict of the elide guards.\<close>

definition pipe_object ::
  "proxy_side \<Rightarrow> object_meta \<Rightarrow> bool \<Rightarrow> instant \<Rightarrow> instant \<Rightarrow> instant \<Rightarrow> bytes \<Rightarrow> pipe_state
     \<Rightarrow> (pipe_outcome \<times> pipe_state) option" where
  "pipe_object side meta elidable due clock1 clock2 raw st =
     (let (p, w) = pipe_classify side meta (length raw) st in
      case shape_admit (length raw) (pq_queued_bytes (pp_queue p)) (length (pq_q (pp_queue p))) (ew_sched w) of
        Admit \<Rightarrow> enqueue_unshown due clock1 clock2 raw (p, w)
      | AdmitDropTail \<Rightarrow>
          if elidable then
            Some (PipeDropped (\<not> pp_drop_reported p), p\<lparr> pp_drop_reported := True \<rparr>,
              w\<lparr> ew_recs := note_dropped (pp_last_class p) (of_nat (length raw)) (ew_recs w) \<rparr>)
          else enqueue_unshown due clock1 clock2 raw (p, w)
      | AdmitResetStream code \<Rightarrow>
          (let w = w\<lparr> ew_recs := note_stream_reset_by_shaping side (ew_recs w) \<rparr>;
               (q, w) = queue_clear (pp_queue p, w)
           in Some (PipeReset code, p\<lparr> pp_queue := q \<rparr>, w)))"

section \<open>Datagrams\<close>

record datagram_pipe =
  dp_units :: u64
  dp_tokens_dry :: bool
  dp_policed_reported :: bool

text \<open>Police one datagram no hook is shown: whether it goes on, and whether its loss is the first.\<close>

definition police_datagram ::
  "proxy_side \<Rightarrow> draft_version \<Rightarrow> datagram_meta option \<Rightarrow> nat \<Rightarrow> instant \<Rightarrow> datagram_pipe \<times> egress_world
     \<Rightarrow> (bool \<times> bool) \<times> datagram_pipe \<times> egress_world" where
  "police_datagram side draft header len arrived_at st =
     (let (d, w) = st;
          (class, d, w) =
            (case header of
               Some meta \<Rightarrow>
                 (let w = w\<lparr> ew_recs := note_object_seen side (of_nat len) (ew_recs w) \<rparr>;
                      (class, rs, sched) = shape_classify_datagram side draft meta (dp_units d) (ew_sched w)
                  in (class, d\<lparr> dp_units := dp_units d + 1 \<rparr>, w\<lparr> ew_sched := sched \<rparr>))
             | None \<Rightarrow> (UnshapeableClass, d, w\<lparr> ew_recs := note_unshapeable_seen side (of_nat len) (ew_recs w) \<rparr>));
          (answer, sched) = shape_acquire class (of_nat len) arrived_at (ew_sched w);
          w = w\<lparr> ew_sched := sched \<rparr>
      in if answer = AcquireNow then
           ((True, False), d\<lparr> dp_tokens_dry := False \<rparr>,
            w\<lparr> ew_recs := note_delivered side class (of_nat len) (ew_recs w) \<rparr>)
         else
           let starved = (case answer of AcquireStarved g \<Rightarrow> True | _ \<Rightarrow> False);
               recs = (if starved then note_starved class (ew_recs w)
                       else if \<not> dp_tokens_dry d then note_tokens_exhausted class (ew_recs w) else ew_recs w)
           in ((False, \<not> dp_policed_reported d),
               d\<lparr> dp_tokens_dry := dp_tokens_dry d \<or> \<not> starved, dp_policed_reported := True \<rparr>,
               w\<lparr> ew_recs := note_dropped class (of_nat len) recs \<rparr>))"

end
