(* ===== verification/Pending_Run.thy ===== *)
theory Pending_Run
  imports Pending_Order Shape_Stats_Laws Shape_Gates
begin

text \<open>
  Whole calls and runs of the egress queue: a push and a pop keep the invariant of a queue, a refused
  head waits for an instant or a gate that is still to come, units leave in the order they came, and the
  counters account for every byte.
\<close>

section \<open>Pushes\<close>

lemma unshapeable_fields:
  assumes "note_queue_unshapeable u (q, w) = (q', w')"
  shows "q' = q" "w' = w\<lparr> ew_recs := ew_recs w' \<rparr>"
    "ew_recs w' = (case pq_shaper q of
        Some side \<Rightarrow> if pq_unit_class q = UnshapeableClass \<and> pending_len u > 0
          then note_unshapeable_seen side (of_nat (pending_len u)) (ew_recs w) else ew_recs w
      | None \<Rightarrow> ew_recs w)"
  using assms by (auto simp: note_queue_unshapeable_def split: option.splits if_splits)

lemma charge_fields:
  assumes "queue_charge n (q, w) = (q', w')"
  shows "q' = q\<lparr> pq_queued_bytes := min (pq_queued_bytes q + n) (2 ^ 64 - 1) \<rparr>"
    "w' = w\<lparr> ew_gauge := (if pq_gauged q then gauge_add n (ew_gauge w) else ew_gauge w) \<rparr>"
  using assms by (auto simp: queue_charge_def)

lemma push_unit_fields:
  assumes "push_unit u (q, w) = (r, q', w')"
  shows "pq_q q' = pq_q q @ [u]" "pq_queued_bytes q' = min (pq_queued_bytes q + pending_len u) (2 ^ 64 - 1)"
    "pq_head_deadline q' = (if pq_q q = [] then Some (pn_due_at u) else pq_head_deadline q)"
    "pq_shaper q' = pq_shaper q" "pq_shape_demand q' = (if pq_shaper q = None then pq_shape_demand q else head_class q')"
    "pq_shape_gate q' = pq_shape_gate q" "pq_shape_parked q' = pq_shape_parked q" "pq_gauged q' = pq_gauged q"
    "pq_flushed_unconfirmed q' = pq_flushed_unconfirmed q" "pq_unit_class q' = pq_unit_class q"
    "ew_gauge w' = (if pq_gauged q then gauge_add (pending_len u) (ew_gauge w) else ew_gauge w)"
    "ew_holds w' = ew_holds w" "ew_recs w' = ew_recs (snd (note_queue_unshapeable u (q, w)))"
    "pu_release_at r = pn_expected_at u"
proof -
  obtain q1 w1 where 1: "note_queue_unshapeable u (q, w) = (q1, w1)" by (rule prod.exhaust)
  obtain q2 w2 where 2: "queue_charge (pending_len u) (q1, w1) = (q2, w2)" by (rule prod.exhaust)
  let ?q = "if pq_q q = [] then arm_head (q2\<lparr> pq_q := pq_q q2 @ [u] \<rparr>) else q2\<lparr> pq_q := pq_q q2 @ [u] \<rparr>"
  let ?w = "w2\<lparr> ew_items_queued := ew_items_queued w2 + 1 \<rparr>"
  obtain q3 w3 where 3: "sync_shape_demand (?q, ?w) = (q3, w3)" by (rule prod.exhaust)
  note f1 = unshapeable_fields [OF 1] and f2 = charge_fields [OF 2] and f3 = sync_fields [OF 3]
  define b where "b \<longleftrightarrow> \<not> accepts_more q3 \<and> \<not> pq_backpressure_reported q3"
  have q': "q' = (if b then q3\<lparr> pq_backpressure_reported := True \<rparr> else q3)" and w': "w' = w3"
    and r: "pu_release_at r = pn_expected_at u"
    using assms 3 2 [unfolded f1(1)] by (auto simp: push_unit_def 1 f1(1) Let_def b_def)
  have hc: "head_class q' = head_class ?q" by (simp add: q' f3(1) head_class_def)
  show "pq_q q' = pq_q q @ [u]" "pq_queued_bytes q' = min (pq_queued_bytes q + pending_len u) (2 ^ 64 - 1)"
    "pq_head_deadline q' = (if pq_q q = [] then Some (pn_due_at u) else pq_head_deadline q)"
    "pq_shaper q' = pq_shaper q"
    "pq_shape_gate q' = pq_shape_gate q" "pq_shape_parked q' = pq_shape_parked q" "pq_gauged q' = pq_gauged q"
    "pq_flushed_unconfirmed q' = pq_flushed_unconfirmed q" "pq_unit_class q' = pq_unit_class q"
    by (simp_all add: q' f3(1) f2(1) f1(1) arm_head_def)
  show "pq_shape_demand q' = (if pq_shaper q = None then pq_shape_demand q else head_class q')"
    unfolding hc by (simp add: q' f3(1) f2(1) f1(1) arm_head_def)
  show "ew_gauge w' = (if pq_gauged q then gauge_add (pending_len u) (ew_gauge w) else ew_gauge w)" "ew_holds w' = ew_holds w"
    using arg_cong [OF f3(2), of ew_gauge] arg_cong [OF f1(2), of ew_gauge] arg_cong [OF f3(2), of ew_holds]
      arg_cong [OF f1(2), of ew_holds] by (simp_all add: w' f2 f1(1))
  show "ew_recs w' = ew_recs (snd (note_queue_unshapeable u (q, w)))"
    using arg_cong [OF f3(2), of ew_recs] by (simp add: w' f2 1)
  show "pu_release_at r = pn_expected_at u" by (rule r)
qed

lemma push_ok:
  assumes "push_unit u (q, w) = (r, q', w')" "queue_ok q" "held_bytes q + pending_len u < 2 ^ 64"
  shows "queue_ok q'" "held_bytes q' = held_bytes q + pending_len u"
proof -
  note f = push_unit_fields [OF assms(1)]
  show h: "held_bytes q' = held_bytes q + pending_len u" by (simp add: held_bytes_def f(1))
  show "queue_ok q'"
    using assms(2,3) h f(1-5) by (auto simp: queue_ok_def)
qed

section \<open>Pops\<close>

lemma take_front_shorter':
  assumes "pq_q q = u # us"
  shows "\<exists>q' w'. take_front (q, w) = (Some u, q', w') \<and> pq_q q' = us"
proof -
  obtain r q' w' where r: "take_front (q, w) = (r, q', w')" by (metis surj_pair)
  then have "r = Some u" using assms by (auto simp: take_front_def Let_def split: prod.splits)
  then show ?thesis using take_front_fields(1) [of q w u q' w' us] r assms by simp
qed

definition next_deadline :: "acquire_answer \<Rightarrow> shape_tag \<Rightarrow> instant" where
  "next_deadline a tag = (case a of AcquireLater t \<Rightarrow> min t (tg_expires_at tag) | _ \<Rightarrow> tg_expires_at tag)"

lemma pop_cases:
  assumes run: "pop_next_due now clock (q, w) = (r, q', w')" and ok: "queue_ok q"
  obtains
    (idle) "r = None" "q' = q" "w' = w" "\<And>u us. pq_q q = u # us \<Longrightarrow> \<not> is_due w now u"
  | (refused) head rest tag a s where "r = None" "pq_q q = head # rest" "is_due w now head" "pq_shaper q \<noteq> None"
      "pn_shape head = Some tag" "\<not> is_terminal head" "now < tg_expires_at tag"
      "shape_acquire (tg_class tag) (of_nat (pending_len head)) now (ew_sched w) = (a, s)" "a \<noteq> AcquireNow"
      "unit_keys q' = unit_keys q" "pq_head_deadline q' = Some (next_deadline a tag)" "pq_shape_parked q'"
      "pq_shape_gate q' = (case a of AcquireStarved g \<Rightarrow> Some (ClassGate g) | _ \<Rightarrow> None)"
      "queue_ok q'" "ew_sched w' = s" "ew_gauge w' = ew_gauge w" "ew_holds w' = ew_holds w"
  | (reset) head rest tag code where "pq_q q = head # rest" "is_due w now head" "pn_shape head = Some tag"
      "tg_expires_at tag \<le> now" "sched_on_expiry (ew_sched w) = ExpiryResetStream code"
      "r = Some (pending_terminal (TerminalReset code) clock)" "pq_q q' = []" "queue_ok q'"
      "ew_gauge w' = (if pq_gauged q then gauge_sub 0 (gauge_sub (pq_queued_bytes q) (ew_gauge w)) else ew_gauge w)"
  | (sent) head rest where "r = Some head" "pq_q q = head # rest" "is_due w now head" "pq_q q' = rest" "queue_ok q'"
      "ew_gauge w' = (if pq_gauged q then gauge_sub (pending_len head) (ew_gauge w) else ew_gauge w)"
      "ew_recs w' = ew_recs (snd (note_queue_delivered head (q, w)))"
proof (cases "case pq_q q of [] \<Rightarrow> False | u # _ \<Rightarrow> is_due w now u")
  case False
  then have "pop_next_due now clock (q, w) = (None, q, w)" by (simp add: pop_next_due_def)
  then show ?thesis using run False by (intro idle) auto
next
  case True
  then obtain head rest where h: "pq_q q = head # rest" "is_due w now head" by (cases "pq_q q") auto
  let ?q = "q\<lparr> pq_shape_gate := None, pq_shape_parked := False \<rparr>"
  obtain g q1 w1 where g: "shaping_grants_head now clock (?q, w) = (g, q1, w1)" by (metis surj_pair)
  have r: "(if g then take_front (q1, w1) else (None, q1, w1)) = (r, q', w')"
    using run h by (simp add: pop_next_due_def g Let_def)
  have hb: "pending_len head \<le> pq_queued_bytes q" "pq_queued_bytes q - pending_len head = sum_list (map pending_len rest)"
    using ok by (simp_all add: queue_ok_def held_bytes_def h)
  have hq: "pq_q ?q = head # rest" "held_bytes ?q = held_bytes q" "head_class ?q = head_class q"
    by (simp_all add: h held_bytes_def head_class_def)
  have send: thesis if f: "g" "pq_q q1 = head # rest" "pq_queued_bytes q1 = pq_queued_bytes q" "pq_shaper q1 = pq_shaper q"
    "pq_shape_demand q1 = pq_shape_demand q" "pq_gauged q1 = pq_gauged q" "ew_gauge w1 = ew_gauge w" "ew_recs w1 = ew_recs w"
  proof -
    from take_front_shorter' [of q1 head rest w1] f(2) r f(1) have t: "take_front (q1, w1) = (Some head, q', w')" "r = Some head"
      by auto
    note k = take_front_fields [OF t(1) f(2)]
    have "queue_ok q'"
      using ok k(1-5) f(3-5) hb(2) by (auto simp: queue_ok_def held_bytes_def split: list.split)
    then show thesis
      using sent [of head rest] t(2) h k(1,9,11) f(3,4,6,7) hb(1) delivered_recs_cong [OF f(8,4), of head]
      by (simp add: min.absorb1)
  qed
  from g hq(1) show ?thesis
  proof (cases rule: grants_cases)
    case pass
    then show ?thesis using send h by simp
  next
    case (deliver tag)
    then show ?thesis using send h by simp
  next
    case (granted tag s)
    then show ?thesis using send h by simp
  next
    case (reset tag code)
    note e = expire_reset_fields [OF reset(5) [symmetric]]
    from take_front_shorter' [of q1 _ "[]" w1] e(1) r reset(1)
    have t: "take_front (q1, w1) = (Some (pending_terminal (TerminalReset code) clock), q', w')"
      "r = Some (pending_terminal (TerminalReset code) clock)" by auto
    note k = take_front_fields [OF t(1) e(1)]
    have d: "pq_shape_demand q = (if pq_shaper q = None then None else head_class q)" using ok by (simp add: queue_ok_def)
    have "queue_ok q'" using k(1-5) e(2-4) reset(2) by (auto simp: queue_ok_def held_bytes_def)
    then show ?thesis
      using that(3) [of head rest tag code] h reset(3,4,6) t(2) k(1,9) e(2,5,9) by (simp add: pending_terminal_def pending_len_def)
  next
    case (refused tag a s at gt q2 w2)
    have p: "parked_at at gt (q2, w2) (q1, w1)" using park_head_parked [of at gt "(q2, w2)" tag] by (simp add: refused(7))
    have nt: "\<not> is_terminal head"
    proof
      assume "is_terminal head"
      then have "shaping_grants_head now clock (?q, w) = (True, ?q, w)"
        using refused(3) hq(1) by (cases "pq_shaper q") (simp_all add: shaping_grants_head_def)
      then show False using g refused(1) by simp
    qed
    have q2: "unit_keys q2 = unit_keys q" "pq_queued_bytes q2 = pq_queued_bytes q" "pq_shaper q2 = pq_shaper q"
      "pq_shape_demand q2 = pq_shape_demand q" "head_class q2 = head_class q"
      using arg_cong [OF refused(8), of pq_q] arg_cong [OF refused(8), of pq_queued_bytes] arg_cong [OF refused(8), of pq_shaper]
        arg_cong [OF refused(8), of pq_shape_demand] by (simp_all add: head_class_def)
    have w2: "ew_sched w2 = s" "ew_gauge w2 = ew_gauge w" "ew_holds w2 = ew_holds w"
      using arg_cong [OF refused(9), of ew_sched] arg_cong [OF refused(9), of ew_gauge] arg_cong [OF refused(9), of ew_holds]
      by simp_all
    have o: "q' = q1" "w' = w1" "r = None" using r refused(1) by simp_all
    have keys: "unit_keys q1 = unit_keys q" using p q2(1) by (simp add: parked_at_def)
    have "queue_ok q1"
      using ok p q2 refused(2) unit_keys_same [OF keys] h(1) by (auto simp: queue_ok_def parked_at_def)
    moreover have "ew_sched w1 = s"
      using p ok q2 w2 refused(2) by (auto simp: parked_at_def queue_ok_def)
    ultimately show ?thesis
      using that(2) [of head rest tag a s] h refused(2-6,10,11) nt keys p w2 o
      by (simp add: parked_at_def next_deadline_def)
  qed
qed

text \<open>A due head that is refused is waiting for something still to come, and never past its clamp.\<close>

lemma refused_waits:
  assumes reach: "sched_reach (ew_sched w)" and ok: "queue_ok q"
    and run: "pop_next_due now clock (q, w) = (None, q', w')"
    and due: "pq_q q = head # rest" "is_due w now head"
  shows "\<exists>r tag. head_release q' = Some r \<and> pn_shape head = Some tag \<and> now < rl_deadline r
    \<and> rl_deadline r \<le> tg_expires_at tag \<and> (\<forall>g. rl_gate r = Some g \<longrightarrow> \<not> gate_is_released w' g)"
  using run ok
proof (cases rule: pop_cases)
  case (refused h us tag a s)
  have "pq_q q' \<noteq> []" using unit_keys_same(3) [OF refused(10)] due by simp
  then have r: "head_release q' = Some \<lparr> rl_deadline = next_deadline a tag, rl_gate = pq_shape_gate q' \<rparr>"
    using refused(11,12) by (cases "pq_q q'") (simp_all add: head_release_def)
  have "now < next_deadline a tag"
    using refused(7,8) acquire_later_after by (cases a) (auto simp: next_deadline_def)
  moreover have "next_deadline a tag \<le> tg_expires_at tag" by (cases a) (simp_all add: next_deadline_def)
  moreover have "\<not> gate_is_released w' g" if "pq_shape_gate q' = Some g" for g
    using that refused(8,13,15) starved_gate_closed [OF reach]
    by (cases a) auto
  ultimately show ?thesis using r refused(2,5) due by simp
qed (use due in auto)

text \<open>At its clamp a due unit goes, whatever its bucket says.\<close>

lemma clamped_goes:
  assumes ok: "queue_ok q" and run: "pop_next_due now clock (q, w) = (r, q', w')"
    and due: "pq_q q = head # rest" "is_due w now head" "pn_shape head = Some tag" "tg_expires_at tag \<le> now"
  shows "r = Some head \<or> (\<exists>code. sched_on_expiry (ew_sched w) = ExpiryResetStream code
    \<and> r = Some (pending_terminal (TerminalReset code) clock) \<and> pq_q q' = [])"
  using run ok
proof (cases rule: pop_cases)
  case (refused h us tag' a s)
  then show ?thesis using due by simp
qed (use due in auto)

section \<open>Order\<close>

datatype queue_op = QueuePush instant instant pending | QueuePop instant instant

definition unit_of :: "pending \<Rightarrow> item \<times> instant \<times> egress_gate option" where
  "unit_of u = (pn_item u, pn_due_at u, pn_gate u)"

text \<open>What a pop abandons: when it answers with a reset in place of the head it held, the whole queue.\<close>

definition abandons :: "pending list \<Rightarrow> pending \<Rightarrow> pending list" where
  "abandons held u = (if is_terminal u \<and> held \<noteq> [] \<and> \<not> is_terminal (hd held) then held else [])"

text \<open>A run: what was pushed, what was popped and abandoned with it, and the state; \<open>None\<close> is a panic.\<close>

fun queue_run ::
  "queue_op list \<Rightarrow> queue_state \<Rightarrow> (pending list \<times> (pending \<times> pending list) list \<times> queue_state) option" where
  "queue_run [] st = Some ([], [], st)"
| "queue_run (QueuePush c1 c2 u # ops) st =
     (case queue_push c1 c2 u st of
        None \<Rightarrow> None
      | Some (r, st) \<Rightarrow> map_option (\<lambda>(ins, outs, st). (u # ins, outs, st)) (queue_run ops st))"
| "queue_run (QueuePop now clock # ops) st =
     (case pop_next_due now clock st of
        (None, st) \<Rightarrow> queue_run ops st
      | (Some u, st') \<Rightarrow>
          map_option (\<lambda>(ins, outs, st''). (ins, (u, abandons (pq_q (fst st)) u) # outs, st'')) (queue_run ops st'))"

text \<open>The units an answer stands for: itself, or those abandoned with it.\<close>

definition stands_for :: "pending \<times> pending list \<Rightarrow> pending list" where
  "stands_for out = (if snd out = [] then [fst out] else snd out)"

definition resets_expired :: "queue_state \<Rightarrow> pending \<times> pending list \<Rightarrow> bool" where
  "resets_expired st out \<longleftrightarrow> (snd out \<noteq> [] \<longrightarrow> pq_shaper (fst st) \<noteq> None
     \<and> (\<exists>code. sched_on_expiry (ew_sched (snd st)) = ExpiryResetStream code \<and> pn_item (fst out) = ItemTerminal (TerminalReset code)))"

lemma push_units:
  assumes "queue_push c1 c2 u (q, w) = Some (r, q', w')"
  shows "map unit_of (pq_q q') = map unit_of (pq_q q) @ [unit_of u]"
    "\<exists>u'. tagged_unit c1 c2 u q = Some u' \<and> push_unit u' (q, w) = (r, q', w') \<and> pending_len u' = pending_len u"
proof -
  obtain u' where u': "tagged_unit c1 c2 u q = Some u'" "push_unit u' (q, w) = (r, q', w')"
    using assms by (auto simp: queue_push_def)
  have "unit_of u' = unit_of u" "pending_len u' = pending_len u"
    using u'(1) by (auto simp: tagged_unit_def Let_def unit_of_def pending_len_def split: option.splits if_splits)
  then show "map unit_of (pq_q q') = map unit_of (pq_q q) @ [unit_of u]"
    "\<exists>u'. tagged_unit c1 c2 u q = Some u' \<and> push_unit u' (q, w) = (r, q', w') \<and> pending_len u' = pending_len u"
    using u' push_unit_fields(1) [OF u'(2)] by simp_all
qed

lemma pop_units:
  assumes run: "pop_next_due now clock (q, w) = (r, q', w')"
  shows "map unit_of (pq_q q)
      = map unit_of (case r of Some u \<Rightarrow> stands_for (u, abandons (pq_q q) u) | None \<Rightarrow> []) @ map unit_of (pq_q q')
    \<and> (\<forall>u. r = Some u \<longrightarrow> resets_expired (q, w) (u, abandons (pq_q q) u))"
proof (cases "case pq_q q of [] \<Rightarrow> False | u # _ \<Rightarrow> is_due w now u")
  case False
  then have "pop_next_due now clock (q, w) = (None, q, w)" by (simp add: pop_next_due_def)
  then show ?thesis using run by simp
next
  case True
  then obtain head rest where h: "pq_q q = head # rest" "is_due w now head" by (cases "pq_q q") auto
  let ?q = "q\<lparr> pq_shape_gate := None, pq_shape_parked := False \<rparr>"
  obtain g q1 w1 where g: "shaping_grants_head now clock (?q, w) = (g, q1, w1)" by (metis surj_pair)
  have r: "(if g then take_front (q1, w1) else (None, q1, w1)) = (r, q', w')"
    using run h by (simp add: pop_next_due_def g Let_def)
  have hq: "pq_q ?q = head # rest" by (simp add: h)
  have send: ?thesis if "g" "pq_q q1 = head # rest"
  proof -
    have "r = Some head" "pq_q q' = rest" using take_front_shorter' [of q1 head rest w1] that r by auto
    then show ?thesis using h by (simp add: abandons_def stands_for_def resets_expired_def)
  qed
  from g hq show ?thesis
  proof (cases rule: grants_cases)
    case (reset tag code)
    note e = expire_reset_fields [OF reset(5) [symmetric]]
    from take_front_shorter' [of q1 _ "[]" w1] e(1) r reset(1)
    have t: "r = Some (pending_terminal (TerminalReset code) clock)" "pq_q q' = []" by auto
    have "\<not> is_terminal head"
    proof
      assume "is_terminal head"
      then have "shaping_grants_head now clock (?q, w) = (True, ?q, w)"
        using reset(2,3) hq by (cases "pq_shaper q") (simp_all add: shaping_grants_head_def)
      then have "head = pending_terminal (TerminalReset code) clock" using g hq e(1) by auto
      then show False using reset(3) by (simp add: pending_terminal_def)
    qed
    then have "abandons (pq_q q) (pending_terminal (TerminalReset code) clock) = pq_q q"
      by (simp add: abandons_def h is_terminal_def pending_terminal_def)
    then show ?thesis
      using t reset(2,6) h by (simp add: stands_for_def resets_expired_def pending_terminal_def)
  next
    case (refused tag a s at gt q2 w2)
    have k: "map unit_of us = map (\<lambda>k. (fst k, fst (snd k), fst (snd (snd (snd k))))) (map unit_key us)" for us
      by (simp add: unit_of_def unit_key_def)
    have "unit_keys q1 = unit_keys q"
      using park_head_parked [of at gt "(q2, w2)" tag] arg_cong [OF refused(8), of pq_q] by (simp add: refused(7) [symmetric] parked_at_def)
    then have "map unit_of (pq_q q1) = map unit_of (pq_q q)" by (simp only: k)
    then show ?thesis using r refused(1) by simp
  qed (use send h in simp_all)
qed

lemma expiry_kept:
  "frame st st' \<Longrightarrow> sched_reach (ew_sched (snd st)) \<Longrightarrow>
     sched_reach (ew_sched (snd st')) \<and> pq_shaper (fst st') = pq_shaper (fst st)
     \<and> sched_on_expiry (ew_sched (snd st')) = sched_on_expiry (ew_sched (snd st))"
  by (cases st; cases st') (simp add: frame_def sched_on_expiry_def)

lemma resets_expired_kept:
  assumes "sched_reach (ew_sched (snd st)) \<and> pq_shaper (fst st') = pq_shaper (fst st)
    \<and> sched_on_expiry (ew_sched (snd st')) = sched_on_expiry (ew_sched (snd st))"
  shows "resets_expired st' = resets_expired st"
  using assms by (simp add: resets_expired_def fun_eq_iff)

lemma queue_run_fifo:
  assumes "queue_run ops st = Some (ins, outs, st')" "sched_reach (ew_sched (snd st))"
  shows "map unit_of (pq_q (fst st)) @ map unit_of ins
      = map unit_of (concat (map stands_for outs)) @ map unit_of (pq_q (fst st'))
    \<and> list_all (resets_expired st) outs"
  using assms
proof (induction ops st arbitrary: ins outs st' rule: queue_run.induct)
  case (2 c1 c2 u ops st)
  obtain q w where s: "st = (q, w)" by fastforce
  from "2.prems"(1) obtain r q1 w1 ins' where p: "queue_push c1 c2 u (q, w) = Some (r, q1, w1)"
    and run: "queue_run ops (q1, w1) = Some (ins', outs, st')" and i: "ins = u # ins'"
    by (auto simp: s split: option.splits)
  have k: "sched_reach (ew_sched w1) \<and> pq_shaper q1 = pq_shaper q \<and> sched_on_expiry (ew_sched w1) = sched_on_expiry (ew_sched w)"
    using expiry_kept [OF frame_push [OF p]] "2.prems"(2) by (simp add: s)
  have same: "resets_expired (q1, w1) = resets_expired (q, w)"
    by (rule resets_expired_kept) (use k "2.prems"(2) in \<open>simp add: s\<close>)
  have "map unit_of (pq_q (fst (q1, w1))) @ map unit_of ins'
      = map unit_of (concat (map stands_for outs)) @ map unit_of (pq_q (fst st')) \<and> list_all (resets_expired (q1, w1)) outs"
    by (rule "2.IH" [OF _ _ run]) (use p k in \<open>auto simp: s\<close>)
  then show ?case using push_units(1) [OF p] i by (simp add: s same)
next
  case (3 now clock ops st)
  obtain q w where s: "st = (q, w)" by fastforce
  obtain r q1 w1 where p: "pop_next_due now clock (q, w) = (r, q1, w1)" by (metis surj_pair)
  have fr: "frame (q, w) (q1, w1)" using frame_pop [of "(q, w)" now clock] by (simp add: p)
  have k: "sched_reach (ew_sched w1) \<and> pq_shaper q1 = pq_shaper q \<and> sched_on_expiry (ew_sched w1) = sched_on_expiry (ew_sched w)"
    using expiry_kept [OF fr] "3.prems"(2) by (simp add: s)
  have same: "resets_expired (q1, w1) = resets_expired (q, w)"
    by (rule resets_expired_kept) (use k "3.prems"(2) in \<open>simp add: s\<close>)
  note u = pop_units [OF p]
  show ?case
  proof (cases r)
    case None
    then have run: "queue_run ops (q1, w1) = Some (ins, outs, st')" using "3.prems"(1) by (simp add: s p)
    have "map unit_of (pq_q (fst (q1, w1))) @ map unit_of ins
        = map unit_of (concat (map stands_for outs)) @ map unit_of (pq_q (fst st')) \<and> list_all (resets_expired (q1, w1)) outs"
      by (rule "3.IH"(1) [OF _ _ run]) (use p k None in \<open>auto simp: s\<close>)
    then show ?thesis using u None by (simp add: s same)
  next
    case (Some v)
    then obtain outs' where run: "queue_run ops (q1, w1) = Some (ins, outs', st')" and o: "outs = (v, abandons (pq_q q) v) # outs'"
      using "3.prems"(1) by (auto simp: s p)
    have "map unit_of (pq_q (fst (q1, w1))) @ map unit_of ins
        = map unit_of (concat (map stands_for outs')) @ map unit_of (pq_q (fst st')) \<and> list_all (resets_expired (q1, w1)) outs'"
      by (rule "3.IH"(2) [OF _ _ run]) (use p k Some in \<open>auto simp: s\<close>)
    then show ?thesis using u Some o by (simp add: s same)
  qed
qed simp

end
