(* ===== verification/Pending_Session.thy ===== *)
theory Pending_Session
  imports Pending_Run
begin

text \<open>
  The egress queues of one session and what they share, run in any interleaving: the demand the
  scheduler holds for a class is the number of queues whose head is of that class, and the session's
  gauge is the bytes its queues hold.
\<close>

section \<open>Steps\<close>

type_synonym session_state = "pending_queue list \<times> egress_world"

datatype session_op =
    SessOpen egress_config "proxy_side option"
  | SessTag nat shape_class
  | SessPush nat instant instant pending
  | SessPop nat instant instant
  | SessClear nat
  | SessDrop nat
  | SessReport report_op
  | SessAcquire shape_class u64 instant
  | SessPacing bool
  | SessRelease nat

definition queue_open :: "egress_config \<Rightarrow> proxy_side option \<Rightarrow> scheduler \<Rightarrow> pending_queue" where
  "queue_open config shaped s =
     (let q = with_gauge (queue_new config) in
      case shaped of Some side \<Rightarrow> with_shaper (Some s) side (with_shape_depth (blocking_depth s) q) | None \<Rightarrow> q)"

text \<open>A queue is addressed by its place; a step of a queue that is not there does nothing.\<close>

fun session_step :: "session_op \<Rightarrow> session_state \<Rightarrow> session_state option" where
  "session_step (SessOpen config shaped) (qs, w) = Some (qs @ [queue_open config shaped (ew_sched w)], w)"
| "session_step (SessTag k class) (qs, w) =
     (if k < length qs then Some (qs[k := tag_unit class (qs ! k)], w) else Some (qs, w))"
| "session_step (SessPush k c1 c2 u) (qs, w) =
     (if k < length qs
      then map_option (\<lambda>(r, q, w). (qs[k := q], w)) (queue_push c1 c2 u (qs ! k, w)) else Some (qs, w))"
| "session_step (SessPop k now clock) (qs, w) =
     (if k < length qs
      then (case pop_next_due now clock (qs ! k, w) of (r, q, w) \<Rightarrow> Some (qs[k := q], w)) else Some (qs, w))"
| "session_step (SessClear k) (qs, w) =
     (if k < length qs then (case queue_clear (qs ! k, w) of (q, w) \<Rightarrow> Some (qs[k := q], w)) else Some (qs, w))"
| "session_step (SessDrop k) (qs, w) =
     (if k < length qs then Some (take k qs @ drop (Suc k) qs, queue_drop (qs ! k, w)) else Some (qs, w))"
| "session_step (SessReport r) (qs, w) = Some (qs, w\<lparr> ew_sched := report_step r (ew_sched w) \<rparr>)"
| "session_step (SessAcquire class bytes now) (qs, w) =
     Some (qs, w\<lparr> ew_sched := snd (shape_acquire class bytes now (ew_sched w)) \<rparr>)"
| "session_step (SessPacing on) (qs, w) = Some (qs, w\<lparr> ew_sched := set_pacing on (ew_sched w) \<rparr>)"
| "session_step (SessRelease g) (qs, w) = Some (qs, w\<lparr> ew_holds := g # ew_holds w \<rparr>)"

fun session_run :: "session_op list \<Rightarrow> session_state \<Rightarrow> session_state option" where
  "session_run [] st = Some st"
| "session_run (op # ops) st = (case session_step op st of None \<Rightarrow> None | Some st \<Rightarrow> session_run ops st)"

definition session_bytes :: "pending_queue list \<Rightarrow> nat" where
  "session_bytes qs = sum_list (map held_bytes qs)"

text \<open>No push takes the session past what a \<open>usize\<close> can count.\<close>

fun session_fits :: "session_op list \<Rightarrow> session_state \<Rightarrow> bool" where
  "session_fits [] st \<longleftrightarrow> True"
| "session_fits (op # ops) st \<longleftrightarrow>
     (case op of SessPush k c1 c2 u \<Rightarrow> session_bytes (fst st) + pending_len u < 2 ^ 64 | _ \<Rightarrow> True)
     \<and> (case session_step op st of None \<Rightarrow> True | Some st \<Rightarrow> session_fits ops st)"

section \<open>The invariant\<close>

definition wanting :: "pending_queue list \<Rightarrow> nat \<Rightarrow> nat" where
  "wanting qs i = length (filter (\<lambda>q. pq_shaper q \<noteq> None \<and> head_class q = Some (RuleClass i)) qs)"

definition session_ok :: "session_state \<Rightarrow> bool" where
  "session_ok st \<longleftrightarrow> (case st of (qs, w) \<Rightarrow>
     sched_reach (ew_sched w) \<and> (\<forall>q \<in> set qs. queue_ok q \<and> pq_gauged q)
     \<and> (\<forall>i < length (classes_of (ew_sched w)). sc_demand (ew_sched w) ! i = sum_list (map (\<lambda>q. declares q i) qs))
     \<and> eg_queued (ew_gauge w) = session_bytes qs)"

lemma sum_list_at:
  fixes f :: "'a \<Rightarrow> nat"
  assumes "k < length xs"
  shows "sum_list (map f (xs[k := y])) + f (xs ! k) = sum_list (map f xs) + f y"
    "sum_list (map f (take k xs @ drop (Suc k) xs)) + f (xs ! k) = sum_list (map f xs)"
    "f (xs ! k) \<le> sum_list (map f xs)"
proof -
  have x: "xs = take k xs @ xs ! k # drop (Suc k) xs" using assms by (rule id_take_nth_drop)
  have "sum_list (map f xs) = sum_list (map f (take k xs)) + f (xs ! k) + sum_list (map f (drop (Suc k) xs))"
    using arg_cong [OF x, of "\<lambda>xs. sum_list (map f xs)"] by simp
  then show "sum_list (map f (xs[k := y])) + f (xs ! k) = sum_list (map f xs) + f y"
    "sum_list (map f (take k xs @ drop (Suc k) xs)) + f (xs ! k) = sum_list (map f xs)"
    "f (xs ! k) \<le> sum_list (map f xs)"
    using assms by (simp_all add: upd_conv_take_nth_drop)
qed

lemma session_kept:
  assumes ok: "session_ok (qs, w)" and k: "k < length qs" and f: "frame (qs ! k, w) (q', w')"
    and q: "queue_ok q'" and g: "eg_queued (ew_gauge w') + held_bytes (qs ! k) = eg_queued (ew_gauge w) + held_bytes q'"
  shows "session_ok (qs[k := q'], w')"
proof -
  have r: "sched_reach (ew_sched w)" and qk: "pq_gauged (qs ! k)" using ok k by (simp_all add: session_ok_def)
  from f r have f': "sched_reach (ew_sched w')" "sc_profile (ew_sched w') = sc_profile (ew_sched w)" "pq_gauged q' = pq_gauged (qs ! k)"
    and d: "\<And>i. i < length (classes_of (ew_sched w)) \<Longrightarrow> declares (qs ! k) i \<le> sc_demand (ew_sched w) ! i \<Longrightarrow>
      sc_demand (ew_sched w') ! i + declares (qs ! k) i = sc_demand (ew_sched w) ! i + declares q' i"
    by (simp_all add: frame_def)
  have "sc_demand (ew_sched w') ! i = sum_list (map (\<lambda>q. declares q i) (qs[k := q']))"
    if "i < length (classes_of (ew_sched w))" for i
  proof -
    have "sc_demand (ew_sched w) ! i = sum_list (map (\<lambda>q. declares q i) qs)" using ok that by (simp add: session_ok_def)
    then show ?thesis
      using d [OF that] sum_list_at(1) [OF k, of "\<lambda>q. declares q i" q'] sum_list_at(3) [OF k, of "\<lambda>q. declares q i"]
      by simp
  qed
  moreover have "eg_queued (ew_gauge w') = session_bytes (qs[k := q'])"
    using g ok sum_list_at(1) [OF k, of held_bytes q'] by (simp add: session_ok_def session_bytes_def)
  moreover have "\<forall>q \<in> set (qs[k := q']). queue_ok q \<and> pq_gauged q"
    using ok q f'(3) qk set_update_subset_insert [of qs k q'] by (auto simp: session_ok_def)
  ultimately show ?thesis using f'(1,2) by (simp add: session_ok_def)
qed

section \<open>Each step\<close>

lemma gauge_sub_queued: "eg_queued (gauge_sub n g) = eg_queued g - n"
  by (simp add: gauge_sub_def Let_def)

lemma gauge_add_queued: "eg_queued g + n < 2 ^ 64 \<Longrightarrow> eg_queued (gauge_add n g) = eg_queued g + n"
  by (simp add: gauge_add_def)

lemma queue_open_ok: "queue_ok (queue_open config shaped s)" "pq_gauged (queue_open config shaped s)"
    "declares (queue_open config shaped s) i = 0" "held_bytes (queue_open config shaped s) = 0"
  by (cases shaped; simp add: queue_open_def queue_ok_def with_gauge_def queue_new_def with_shaper_def
      with_shape_depth_def head_class_def held_bytes_def declares_def Let_def)+

lemma session_push:
  assumes ok: "session_ok (qs, w)" and k: "k < length qs" and p: "queue_push c1 c2 u (qs ! k, w) = Some (r, q', w')"
    and fits: "session_bytes qs + pending_len u < 2 ^ 64"
  shows "session_ok (qs[k := q'], w')"
proof -
  have q: "queue_ok (qs ! k)" "pq_gauged (qs ! k)" "eg_queued (ew_gauge w) = session_bytes qs"
    using ok k by (simp_all add: session_ok_def)
  from push_units(2) [OF p] obtain u' where
    u: "push_unit u' (qs ! k, w) = (r, q', w')" "pending_len u' = pending_len u" by blast
  have "held_bytes (qs ! k) \<le> session_bytes qs"
    using sum_list_at(3) [OF k, of held_bytes] by (simp add: session_bytes_def)
  then have h: "held_bytes (qs ! k) + pending_len u' < 2 ^ 64" using fits u(2) by linarith
  note po = push_ok [OF u(1) q(1) h]
  have "eg_queued (ew_gauge w') = eg_queued (ew_gauge w) + pending_len u"
    using push_unit_fields(11) [OF u(1)] q(2,3) u(2) fits by (simp add: gauge_add_queued)
  then show ?thesis
    using session_kept [OF ok k frame_push [OF p] po(1)] po(2) u(2) by simp
qed

lemma session_pop:
  assumes ok: "session_ok (qs, w)" and k: "k < length qs" and p: "pop_next_due now clock (qs ! k, w) = (r, q', w')"
  shows "session_ok (qs[k := q'], w')"
proof -
  have q: "queue_ok (qs ! k)" "pq_gauged (qs ! k)" "eg_queued (ew_gauge w) = session_bytes qs"
    using ok k by (simp_all add: session_ok_def)
  have le: "held_bytes (qs ! k) \<le> eg_queued (ew_gauge w)"
    using sum_list_at(3) [OF k, of held_bytes] q(3) by (simp add: session_bytes_def)
  have fr: "frame (qs ! k, w) (q', w')" using frame_pop [of "(qs ! k, w)" now clock] by (simp add: p)
  have b: "pq_queued_bytes (qs ! k) = held_bytes (qs ! k)" using q(1) by (simp add: queue_ok_def)
  have "queue_ok q' \<and> eg_queued (ew_gauge w') + held_bytes (qs ! k) = eg_queued (ew_gauge w) + held_bytes q'"
    using p q(1)
  proof (cases rule: pop_cases)
    case idle
    then show ?thesis using q(1) by simp
  next
    case (refused head rest tag a s)
    then show ?thesis using unit_keys_same(1) [OF refused(10)] by simp
  next
    case (reset head rest tag code)
    then show ?thesis using q(2) le b by (simp add: gauge_sub_queued held_bytes_def)
  next
    case (sent head rest)
    then have "held_bytes (qs ! k) = pending_len head + held_bytes q'" by (simp add: held_bytes_def)
    then show ?thesis using sent(5,6) q(2) le by (simp add: gauge_sub_queued)
  qed
  then show ?thesis using session_kept [OF ok k fr] by blast
qed

lemma session_clear:
  assumes ok: "session_ok (qs, w)" and k: "k < length qs" and p: "queue_clear (qs ! k, w) = (q', w')"
  shows "session_ok (qs[k := q'], w')"
proof -
  have q: "queue_ok (qs ! k)" "pq_gauged (qs ! k)" "eg_queued (ew_gauge w) = session_bytes qs"
    using ok k by (simp_all add: session_ok_def)
  have le: "held_bytes (qs ! k) \<le> eg_queued (ew_gauge w)"
    using sum_list_at(3) [OF k, of held_bytes] q(3) by (simp add: session_bytes_def)
  note f = clear_fields [OF p]
  have "queue_ok q'" using f(1-5) q(1) by (auto simp: queue_ok_def held_bytes_def head_class_def)
  moreover have "eg_queued (ew_gauge w') + held_bytes (qs ! k) = eg_queued (ew_gauge w) + held_bytes q'"
    using f(1,10) q(1,2) le by (simp add: gauge_sub_queued held_bytes_def queue_ok_def)
  moreover have "frame (qs ! k, w) (q', w')" using frame_clear [of "(qs ! k, w)"] by (simp add: p)
  ultimately show ?thesis using session_kept [OF ok k] by blast
qed

lemma queue_drop_fields:
  assumes "queue_ok q" "pq_gauged q"
  shows "eg_queued (ew_gauge (queue_drop (q, w))) = eg_queued (ew_gauge w) - held_bytes q"
    "ew_sched (queue_drop (q, w))
      = (case pq_shape_demand q of Some c \<Rightarrow> withdraw_demand c (ew_sched w) | None \<Rightarrow> ew_sched w)"
  using assms
  by (auto simp: queue_drop_def queue_credit_def Let_def gauge_sub_queued queue_ok_def split: option.split if_splits)

lemma session_drop:
  assumes ok: "session_ok (qs, w)" and k: "k < length qs"
  shows "session_ok (take k qs @ drop (Suc k) qs, queue_drop (qs ! k, w))"
proof -
  let ?q = "qs ! k" and ?w = "queue_drop (qs ! k, w)" and ?qs = "take k qs @ drop (Suc k) qs"
  have q: "queue_ok ?q" "pq_gauged ?q" "eg_queued (ew_gauge w) = session_bytes qs" "sched_reach (ew_sched w)"
    using ok k by (simp_all add: session_ok_def)
  note f = queue_drop_fields [OF q(1,2), of w]
  have s: "sched_reach (ew_sched ?w)" "sc_profile (ew_sched ?w) = sc_profile (ew_sched w)"
    using q(4) by (auto simp: f(2) sched_reach_ops profile_kept split: option.split)
  have "sc_demand (ew_sched ?w) ! i = sum_list (map (\<lambda>q. declares q i) ?qs)"
    if "i < length (classes_of (ew_sched w))" for i
  proof -
    have "sc_demand (ew_sched w) ! i = sum_list (map (\<lambda>q. declares q i) qs)" using ok that by (simp add: session_ok_def)
    moreover have "sc_demand (ew_sched ?w) ! i = sc_demand (ew_sched w) ! i - declares ?q i"
      using demand_moves(2) [OF q(4) that] by (simp add: f(2) declares_def split: option.split)
    ultimately show ?thesis using sum_list_at(2) [OF k, of "\<lambda>q. declares q i"] by simp
  qed
  moreover have "eg_queued (ew_gauge ?w) = session_bytes ?qs"
    using f(1) q(3) sum_list_at(2) [OF k, of held_bytes] by (simp add: session_bytes_def)
  moreover have "set ?qs \<subseteq> set qs" by (auto dest: in_set_takeD in_set_dropD)
  ultimately show ?thesis using ok s by (auto simp: session_ok_def)
qed

lemma session_step_ok:
  assumes "session_ok st" "session_fits (op # ops) st" "session_step op st = Some st'"
  shows "session_ok st'"
proof -
  obtain qs w where s: "st = (qs, w)" by fastforce
  have r: "sched_reach (ew_sched w)" using assms(1) by (simp add: s session_ok_def)
  show ?thesis
  proof (cases op)
    case (SessOpen config shaped)
    then show ?thesis using assms queue_open_ok by (auto simp: s session_ok_def session_bytes_def)
  next
    case (SessTag k c)
    show ?thesis
    proof (cases "k < length qs")
      case True
      have "frame (qs ! k, w) (qs ! k, w)" by (rule frame_refl)
      have q: "queue_ok (tag_unit c (qs ! k))" "declares (tag_unit c (qs ! k)) i = declares (qs ! k) i"
        "held_bytes (tag_unit c (qs ! k)) = held_bytes (qs ! k)" "pq_gauged (tag_unit c (qs ! k))" for i
        using assms(1) True by (simp_all add: s session_ok_def queue_ok_def tag_unit_def declares_def held_bytes_def head_class_def)
      have "sum_list (map (\<lambda>q. declares q i) (qs[k := tag_unit c (qs ! k)])) = sum_list (map (\<lambda>q. declares q i) qs)"
        "sum_list (map held_bytes (qs[k := tag_unit c (qs ! k)])) = sum_list (map held_bytes qs)" for i
        using sum_list_at(1) [OF True, of "\<lambda>q. declares q i" "tag_unit c (qs ! k)"]
          sum_list_at(1) [OF True, of held_bytes "tag_unit c (qs ! k)"] q by simp_all
      moreover have "\<forall>q \<in> set (qs[k := tag_unit c (qs ! k)]). queue_ok q \<and> pq_gauged q"
        using assms(1) q set_update_subset_insert [of qs k] by (auto simp: s session_ok_def)
      moreover have "st' = (qs[k := tag_unit c (qs ! k)], w)" using assms(3) True by (simp add: s SessTag)
      ultimately show ?thesis using assms(1) by (simp add: s session_ok_def session_bytes_def)
    qed (use assms in \<open>simp add: s SessTag\<close>)
  next
    case (SessPush k c1 c2 u)
    then show ?thesis using assms session_push [of qs w k c1 c2 u] by (auto simp: s split: if_splits)
  next
    case (SessPop k now clock)
    then show ?thesis using assms session_pop [of qs w k now clock] by (auto simp: s split: if_splits prod.splits)
  next
    case (SessClear k)
    then show ?thesis using assms session_clear [of qs w k] by (auto simp: s split: if_splits prod.splits)
  next
    case (SessDrop k)
    then show ?thesis using assms session_drop [of qs w k] by (auto simp: s split: if_splits)
  next
    case (SessReport x)
    have "sched_reach (report_step x (ew_sched w))"
      using sched_reach.step [OF r, of "OpReport x"] by (simp add: sched_next_def)
    then show ?thesis
      using assms reports_only_fields [OF report_step_only [of "ew_sched w" x]] by (auto simp: s SessReport session_ok_def)
  next
    case (SessAcquire c b now)
    obtain a s1 where a: "shape_acquire c b now (ew_sched w) = (a, s1)" by (metis surj_pair)
    have "sched_reach s1" using sched_reach_ops(3) [OF r, of c b now] by (simp add: a)
    then show ?thesis
      using assms acquire_fields [OF a sched_reach_ok [OF r]] by (auto simp: s SessAcquire a session_ok_def)
  next
    case (SessPacing on)
    have "sched_reach (set_pacing on (ew_sched w))" using sched_reach.step [OF r, of "OpPacing on"] by (simp add: sched_next_def)
    then show ?thesis using assms by (auto simp: s SessPacing session_ok_def set_pacing_def)
  next
    case (SessRelease g)
    then show ?thesis using assms by (auto simp: s session_ok_def)
  qed
qed

lemma session_run_ok:
  "session_ok st \<Longrightarrow> session_fits ops st \<Longrightarrow> session_run ops st = Some st' \<Longrightarrow> session_ok st'"
proof (induction ops arbitrary: st)
  case (Cons op ops)
  then obtain st1 where "session_step op st = Some st1" "session_run ops st1 = Some st'" by (auto split: option.splits)
  then show ?case using Cons.IH [of st1] Cons.prems session_step_ok [OF Cons.prems(1,2)] by simp
qed simp

lemma session_ok_reads:
  assumes "session_ok (qs, w)"
  shows "eg_queued (ew_gauge w) = session_bytes qs"
    "i < length (classes_of (ew_sched w)) \<Longrightarrow> sc_demand (ew_sched w) ! i = wanting qs i"
proof -
  show "eg_queued (ew_gauge w) = session_bytes qs" using assms by (simp add: session_ok_def)
  have "sum_list (map (\<lambda>q. declares q i) qs) = wanting qs i" if "\<forall>q \<in> set qs. queue_ok q"
    using that by (induction qs) (auto simp: wanting_def queue_ok_def declares_def)
  then show "i < length (classes_of (ew_sched w)) \<Longrightarrow> sc_demand (ew_sched w) ! i = wanting qs i"
    using assms by (simp add: session_ok_def)
qed

definition world_new :: "scheduler \<Rightarrow> recorders \<Rightarrow> egress_world" where
  "world_new s recs =
     \<lparr> ew_sched = s, ew_recs = recs, ew_gauge = gauge_new, ew_items_queued = 0, ew_holds = [] \<rparr>"

lemma session_new_ok:
  assumes "shape_profile_try_new buckets classes queue disc = Inr p"
  shows "session_ok ([], world_new (sched_build p now enabled) recs)"
  using sched_reach.built [OF assms, of now enabled]
  by (simp add: session_ok_def world_new_def gauge_new_def session_bytes_def sched_build_def)

end
