(* ===== verification/Shape_Conserve.thy ===== *)
theory Shape_Conserve
  imports Egress_Drain Pending_Session Shape_Classify
begin

text \<open>
  Every byte is accounted for. Over any steps of a shaped stream, resets, clears and flushes among them, the
  bytes that entered the shaper are those delivered, those dropped, those the queue still holds and those
  a reset or a clear abandoned; a datagram settles at once.
\<close>

section \<open>The two sides of the identity\<close>

definition entered :: "recorders \<Rightarrow> u64" where
  "entered rp = side_total BytesShaped ClientToProxy (fst rp) + side_total BytesShaped RelayToProxy (fst rp)"

definition settled :: "recorders \<Rightarrow> u64" where
  "settled rp = row_total BytesDelivered (fst rp) + row_total BytesDropped (fst rp)"

definition recs_ok :: "recorders \<Rightarrow> bool" where
  "recs_ok rp \<longleftrightarrow> recorder_ok (fst rp)"

lemma note_books:
  assumes "recs_ok rp"
  shows "recs_ok (note_step op rp)" "entered (note_step op rp) = entered rp + op_amount BytesShaped op"
    "settled (note_step op rp) = settled rp + op_row BytesDelivered op + op_row BytesDropped op"
proof -
  have m: "moved op rp (note_step op rp)" using note_step_moved assms by (simp add: recs_ok_def)
  then show "recs_ok (note_step op rp)" by (simp add: moved_def recs_ok_def split: prod.splits)
  have "op_total BytesShaped ClientToProxy op + op_total BytesShaped RelayToProxy op = op_amount BytesShaped op"
  proof (cases "op_side op")
    case None
    then show ?thesis by (cases op) (simp_all add: op_total_def)
  next
    case (Some s)
    then show ?thesis by (cases s) (simp_all add: op_total_def)
  qed
  then show "entered (note_step op rp) = entered rp + op_amount BytesShaped op"
    using m by (simp add: moved_def entered_def split: prod.splits)
  show "settled (note_step op rp) = settled rp + op_row BytesDelivered op + op_row BytesDropped op"
    using m by (simp add: moved_def settled_def split: prod.splits)
qed

lemmas note_books_each =
  note_books [of _ "NoteSeen side bytes" for side bytes, simplified]
  note_books [of _ "NoteUnshapeable side bytes" for side bytes, simplified]
  note_books [of _ "NoteDropped c bytes" for c bytes, simplified]
  note_books [of _ "NoteBlocked c" for c, simplified]
  note_books [of _ "NoteReset side" for side, simplified]
  note_books [of _ "NoteDelivered side c bytes" for side c bytes, simplified]
  note_books [of _ "NoteExhausted c" for c, simplified]
  note_books [of _ "NoteStarved c" for c, simplified]
  note_books [of _ "NoteExpired side" for side, simplified]
  note_books [of _ "NoteMixed side" for side, simplified]

text \<open>A step that moves neither side.\<close>

definition books_kept :: "egress_world \<Rightarrow> egress_world \<Rightarrow> bool" where
  "books_kept w w' \<longleftrightarrow> (recs_ok (ew_recs w) \<longrightarrow> recs_ok (ew_recs w')
     \<and> entered (ew_recs w') = entered (ew_recs w) \<and> settled (ew_recs w') = settled (ew_recs w))"

lemma books_kept_refl: "books_kept w w"
  by (simp add: books_kept_def)

lemma books_kept_trans: "books_kept w w' \<Longrightarrow> books_kept w' w'' \<Longrightarrow> books_kept w w''"
  by (simp add: books_kept_def)

lemma books_kept_same: "ew_recs w' = ew_recs w \<Longrightarrow> books_kept w w'"
  by (simp add: books_kept_def)

lemma books_starve: "books_kept (snd st) (snd (starve_unit h i st))"
  by (cases st) (auto simp: starve_unit_def books_kept_def note_books_each split: option.split)

lemma books_fold: "(\<And>x st. books_kept (snd st) (snd (f x st))) \<Longrightarrow> books_kept (snd st) (snd (fold f xs st))"
proof (induction xs arbitrary: st)
  case (Cons x xs)
  show ?case using books_kept_trans [OF Cons.prems Cons.IH [OF Cons.prems]] by simp
qed (simp add: books_kept_refl)

lemma books_behind: "books_kept (snd st) (snd (note_starved_behind h st))"
proof (cases "pq_shaper (fst st) = None")
  case False
  have "books_kept (snd st) (snd (fold (starve_unit (Some h)) [max (pq_starved_from (fst st)) 1..<length (pq_q (fst st))] st))"
    by (rule books_fold) (rule books_starve)
  then show ?thesis using False by (auto simp: note_starved_behind_def Let_def split: prod.split)
qed (simp add: note_starved_behind_def books_kept_refl)

lemma books_sync: "books_kept w (snd (sync_shape_demand (q, w)))"
proof -
  obtain q' w' where s: "sync_shape_demand (q, w) = (q', w')" by (rule prod.exhaust)
  show ?thesis using arg_cong [OF sync_fields(2) [OF s], of ew_recs] by (simp add: s books_kept_same)
qed

lemma books_park: "books_kept (snd st) (snd (park_head at tag g st))"
proof -
  obtain q w where s: "st = (q, w)" by fastforce
  let ?st = "sync_shape_demand (arm_head_at at (q\<lparr> pq_shape_gate := g, pq_shape_parked := True \<rparr>), w)"
  have 1: "books_kept w (snd ?st)" by (rule books_sync)
  have "books_kept (snd ?st) (snd (if g \<noteq> None then note_head_starved ?st else ?st))"
    by (simp add: note_head_starved_def books_starve books_kept_refl)
  from books_kept_trans [OF books_kept_trans [OF 1 this] books_behind] show ?thesis
    by (simp add: park_head_def Let_def s)
qed

lemma books_dry: "books_kept (snd st) (snd (note_tokens_dry c st))"
  by (cases st) (auto simp: note_tokens_dry_def books_kept_def note_books_each)

lemma books_grants:
  assumes "shaping_grants_head now clock (q, w) = (g, q', w')"
  shows "books_kept w w'"
proof (cases "pq_q q")
  case Nil
  then show ?thesis using assms by (auto simp: shaping_grants_head_def books_kept_refl split: if_splits)
next
  case (Cons head rest)
  from assms Cons show ?thesis
  proof (cases rule: grants_cases)
    case (reset tag code)
    obtain w1 where w1: "w1 = (case pq_shaper q of Some side \<Rightarrow>
        w\<lparr> ew_recs := note_stream_reset_by_shaping side (note_expired side (ew_recs w)) \<rparr> | None \<Rightarrow> w)" by blast
    have 1: "books_kept w w1" by (auto simp: w1 books_kept_def note_books_each split: option.split)
    obtain q2 w2 where c: "queue_clear (q\<lparr> pq_shape_report := Some ReportExpired \<rparr>, w1) = (q2, w2)" by (rule prod.exhaust)
    have "w' = w2" using reset(5) c by (auto simp: expire_head_def Let_def w1 [symmetric])
    then show ?thesis using 1 clear_fields(12) [OF c] by (simp add: books_kept_def)
  next
    case (refused tag a s at gt q1 w1)
    obtain q2 w2 where d: "note_tokens_dry (tg_class tag) (q, w\<lparr> ew_sched := s \<rparr>) = (q2, w2)" by (rule prod.exhaust)
    have "books_kept w w2" using books_dry [of "(q, w\<lparr> ew_sched := s \<rparr>)" "tg_class tag"] d by (simp add: books_kept_def)
    moreover have "w1 = w\<lparr> ew_sched := s \<rparr> \<or> w1 = w2" using refused(12) d by simp
    ultimately have "books_kept w w1" by (auto simp: books_kept_def)
    then show ?thesis using books_park [of "(q1, w1)" at tag gt] refused(7) books_kept_trans by (metis snd_conv)
  qed (simp_all add: books_kept_def)
qed

section \<open>A shaped stream\<close>

text \<open>A flush writes to a sink that answers as it likes: its state is a number and a write any function of
  the bytes and of that state.\<close>

datatype pipe_op =
    PipeTurn
  | PipeUnseen instant instant instant bytes
  | PipeObject object_meta bool instant instant instant bytes
  | PipePop instant instant
  | PipeClear
  | PipeFlush "(nat, unit) write_fn"

fun pipe_step :: "proxy_side \<Rightarrow> pipe_op \<Rightarrow> pipe_state \<Rightarrow> pipe_state option" where
  "pipe_step side PipeTurn st = Some (pipe_turn st)"
| "pipe_step side (PipeUnseen due c1 c2 raw) st = map_option snd (pipe_unseen due c1 c2 raw st)"
| "pipe_step side (PipeObject meta elidable due c1 c2 raw) st =
     map_option snd (pipe_object side meta elidable due c1 c2 raw st)"
| "pipe_step side (PipePop now clock) (p, w) =
     (case pop_next_due now clock (pp_queue p, w) of (r, q, w) \<Rightarrow> Some (p\<lparr> pp_queue := q \<rparr>, w))"
| "pipe_step side PipeClear (p, w) = (case queue_clear (pp_queue p, w) of (q, w) \<Rightarrow> Some (p\<lparr> pp_queue := q \<rparr>, w))"
| "pipe_step side (PipeFlush wr) (p, w) =
     (case drain_ignoring_release_times wr (\<lambda>code s. s) (pp_queue p, w) 0 of
        (out, (q, w), s) \<Rightarrow> Some (p\<lparr> pp_queue := q \<rparr>, w))"

fun pipe_run :: "proxy_side \<Rightarrow> pipe_op list \<Rightarrow> pipe_state \<Rightarrow> pipe_state option" where
  "pipe_run side [] st = Some st"
| "pipe_run side (op # ops) st = (case pipe_step side op st of None \<Rightarrow> None | Some st \<Rightarrow> pipe_run side ops st)"

text \<open>What a step abandons: a pop that answers with the reset of an expired head, and a clear, the whole
  queue; an object that resets the stream, the queue and itself.\<close>

fun pipe_abandons :: "proxy_side \<Rightarrow> pipe_op \<Rightarrow> pipe_state \<Rightarrow> nat" where
  "pipe_abandons side (PipePop now clock) (p, w) =
     (case fst (pop_next_due now clock (pp_queue p, w)) of
        Some u \<Rightarrow> if is_terminal u then sum_list (map pending_len (pq_q (pp_queue p))) else 0
      | None \<Rightarrow> 0)"
| "pipe_abandons side (PipeObject meta elidable due c1 c2 raw) (p, w) =
     (case map_option fst (pipe_object side meta elidable due c1 c2 raw (p, w)) of
        Some (PipeReset code) \<Rightarrow> sum_list (map pending_len (pq_q (pp_queue p))) + length raw
      | _ \<Rightarrow> 0)"
| "pipe_abandons side PipeClear (p, w) = sum_list (map pending_len (pq_q (pp_queue p)))"
| "pipe_abandons side _ st = 0"

fun pipe_abandoned :: "proxy_side \<Rightarrow> pipe_op list \<Rightarrow> pipe_state \<Rightarrow> nat" where
  "pipe_abandoned side [] st = 0"
| "pipe_abandoned side (op # ops) st =
     pipe_abandons side op st
     + (case pipe_step side op st of None \<Rightarrow> 0 | Some st \<Rightarrow> pipe_abandoned side ops st)"

fun pipe_op_bytes :: "pipe_op \<Rightarrow> nat" where
  "pipe_op_bytes (PipeUnseen due c1 c2 raw) = length raw"
| "pipe_op_bytes (PipeObject meta elidable due c1 c2 raw) = length raw"
| "pipe_op_bytes _ = 0"

definition pipe_fits :: "pipe_op list \<Rightarrow> pipe_state \<Rightarrow> bool" where
  "pipe_fits ops st \<longleftrightarrow> held_bytes (pp_queue (fst st)) + sum_list (map pipe_op_bytes ops) < 2 ^ 64"

text \<open>A pipe queues only writes, each with its class; what it has abandoned so far is a parameter.\<close>

definition tagged :: "pending_queue \<Rightarrow> bool" where
  "tagged q \<longleftrightarrow> (\<forall>u \<in> set (pq_q q). pn_shape u \<noteq> None \<and> (\<exists>raw. pn_item u = ItemWrite raw))"

definition pipe_ok :: "proxy_side \<Rightarrow> u64 \<Rightarrow> pipe_state \<Rightarrow> bool" where
  "pipe_ok side lost st \<longleftrightarrow> (case st of (p, w) \<Rightarrow>
     queue_ok (pp_queue p) \<and> pq_shaper (pp_queue p) = Some side \<and> tagged (pp_queue p)
     \<and> sched_reach (ew_sched w) \<and> recs_ok (ew_recs w)
     \<and> entered (ew_recs w) = settled (ew_recs w) + of_nat (held_bytes (pp_queue p)) + lost)"

lemma pipe_okD:
  assumes "pipe_ok side lost (p, w)"
  shows "queue_ok (pp_queue p)" "pq_shaper (pp_queue p) = Some side" "tagged (pp_queue p)"
    "sched_reach (ew_sched w)" "recs_ok (ew_recs w)"
    "entered (ew_recs w) = settled (ew_recs w) + of_nat (held_bytes (pp_queue p)) + lost"
  using assms by (simp_all add: pipe_ok_def)

lemma tagged_keys: "unit_keys q' = unit_keys q \<Longrightarrow> tagged q' = tagged q"
proof -
  have t: "tagged q \<longleftrightarrow> list_all (\<lambda>k. snd (snd (snd (snd k))) \<noteq> None \<and> (\<exists>raw. fst k = ItemWrite raw)) (unit_keys q)" for q
    by (simp add: tagged_def list_all_iff unit_key_def)
  show "unit_keys q' = unit_keys q \<Longrightarrow> tagged q' = tagged q" by (simp only: t)
qed

lemma tagged_plain: "tagged q \<Longrightarrow> u \<in> set (pq_q q) \<Longrightarrow> \<not> is_terminal u"
  by (auto simp: tagged_def is_terminal_def)

lemma keeps_frame:
  "frame (q, w) (q', w') \<Longrightarrow> sched_reach (ew_sched w) \<Longrightarrow>
     sched_reach (ew_sched w') \<and> sc_profile (ew_sched w') = sc_profile (ew_sched w) \<and> pq_shaper q' = pq_shaper q"
  by (simp add: frame_def)

lemma pop_recs:
  assumes run: "pop_next_due now clock (q, w) = (None, q', w')"
  shows "books_kept w w'"
proof (cases "case pq_q q of [] \<Rightarrow> False | u # _ \<Rightarrow> is_due w now u")
  case False
  then show ?thesis using run by (simp add: pop_next_due_def books_kept_refl)
next
  case True
  let ?q = "q\<lparr> pq_shape_gate := None, pq_shape_parked := False \<rparr>"
  obtain g q1 w1 where g: "shaping_grants_head now clock (?q, w) = (g, q1, w1)" by (metis surj_pair)
  from True have h: "pop_next_due now clock (q, w) = (if g then take_front (q1, w1) else (None, q1, w1))"
    by (simp add: pop_next_due_def g Let_def)
  show ?thesis
  proof (cases g)
    case False
    then show ?thesis using books_grants [OF g] h run by simp
  next
    case taken: True
    then have "take_front (q1, w1) = (None, q', w')" using h run by simp
    then have "q' = q1 \<and> w' = w1" by (auto simp: take_front_def Let_def split: list.splits prod.splits)
    then show ?thesis using books_grants [OF g] by simp
  qed
qed

text \<open>A unit of no class leaves the counters as they are: the reset of an expired head is one.\<close>

lemma pop_unclassed:
  assumes run: "pop_next_due now clock (q, w) = (Some u, q', w')" and u: "pn_shape u = None"
  shows "books_kept w w'"
proof -
  let ?q = "q\<lparr> pq_shape_gate := None, pq_shape_parked := False \<rparr>"
  obtain g q1 w1 where g: "shaping_grants_head now clock (?q, w) = (g, q1, w1)" by (metis surj_pair)
  have t: "take_front (q1, w1) = (Some u, q', w')"
    using run by (auto simp: pop_next_due_def g Let_def split: if_splits)
  then obtain us where us: "pq_q q1 = u # us"
    by (auto simp: take_front_def Let_def split: list.splits prod.splits)
  have "ew_recs w' = ew_recs w1"
    using take_front_fields(11) [OF t us] u by (simp add: note_queue_delivered_def split: option.split)
  then show ?thesis using books_grants [OF g] by (simp add: books_kept_def)
qed

lemma pipe_pop:
  assumes ok: "pipe_ok side lost (p, w)" and run: "pop_next_due now clock (pp_queue p, w) = (r, q', w')"
  shows "pipe_ok side (lost + of_nat (pipe_abandons side (PipePop now clock) (p, w))) (p\<lparr> pp_queue := q' \<rparr>, w')
    \<and> held_bytes q' \<le> held_bytes (pp_queue p)"
proof -
  let ?q = "pp_queue p"
  note o = pipe_okD [OF ok]
  have fr: "frame (?q, w) (q', w')" using frame_pop [of "(?q, w)" now clock] by (simp add: run)
  note k = keeps_frame [OF fr o(4)]
  from run o(1) show ?thesis
  proof (cases rule: pop_cases)
    case idle
    then show ?thesis using ok run by simp
  next
    case (refused head rest tag a s)
    have "books_kept w w'" using pop_recs run refused(1) by simp
    then show ?thesis
      using o k run refused(1,14) tagged_keys [OF refused(10)] unit_keys_same(1) [OF refused(10)]
      by (simp add: pipe_ok_def books_kept_def)
  next
    case (reset head rest tag code)
    have "books_kept w w'"
      by (rule pop_unclassed [OF run [unfolded reset(6)]]) (simp add: pending_terminal_def)
    moreover have "is_terminal (pending_terminal (TerminalReset code) clock)"
      by (simp add: is_terminal_def pending_terminal_def)
    ultimately show ?thesis
      using o k run reset(6-8) by (simp add: pipe_ok_def books_kept_def tagged_def held_bytes_def)
  next
    case (sent head rest)
    have hb: "held_bytes ?q = pending_len head + held_bytes q'" using sent(2,4) by (simp add: held_bytes_def)
    obtain tag where tag: "pn_shape head = Some tag" using o(3) sent(2) by (auto simp: tagged_def)
    have "recs_ok (ew_recs w') \<and> entered (ew_recs w') = entered (ew_recs w)
        \<and> settled (ew_recs w') = settled (ew_recs w) + of_nat (pending_len head)"
      using sent(7) delivered_fields(3) [of head ?q w] tag o(2,5)
      by (cases "note_queue_delivered head (?q, w)") (auto simp: note_books_each)
    moreover have "tagged q'" using o(3) sent(2,4) by (simp add: tagged_def)
    moreover have "\<not> is_terminal head" using tagged_plain [OF o(3)] sent(2) by simp
    ultimately show ?thesis using o k sent(1,5) hb run by (simp add: pipe_ok_def)
  qed
qed

lemma pipe_clear:
  assumes ok: "pipe_ok side lost (p, w)" and run: "queue_clear (pp_queue p, w) = (q', w')"
  shows "pipe_ok side (lost + of_nat (held_bytes (pp_queue p))) (p\<lparr> pp_queue := q' \<rparr>, w') \<and> held_bytes q' = 0"
proof -
  note o = pipe_okD [OF ok] and f = clear_fields [OF run]
  have "frame (pp_queue p, w) (q', w')" using frame_clear [of "(pp_queue p, w)"] by (simp add: run)
  note k = keeps_frame [OF this o(4)]
  show ?thesis
    using o f k by (simp add: pipe_ok_def queue_ok_def held_bytes_def head_class_def tagged_def)
qed

lemma pipe_flush:
  assumes "flush_loop wr rst (pp_queue p, w) s = (out, (q', w'), s')" "pipe_ok side lost (p, w)"
  shows "pipe_ok side lost (p\<lparr> pp_queue := q' \<rparr>, w') \<and> held_bytes q' \<le> held_bytes (pp_queue p)"
  using assms
proof (induction "pq_q (pp_queue p)" arbitrary: p w s)
  case Nil
  then show ?case by (auto simp: flush_loop.simps pipe_ok_def)
next
  case (Cons u us)
  note u = Cons.hyps(2) [symmetric] and o = pipe_okD [OF Cons.prems(2)]
  note fl = flush_loop.simps [of wr rst "(pp_queue p, w)" s]
  obtain raw where raw: "pn_item u = ItemWrite raw" using o(3) u by (auto simp: tagged_def)
  obtain r s1 where wr: "wr raw s = (r, s1)" by (rule prod.exhaust)
  show ?case
  proof (cases r)
    case (Some e)
    then show ?thesis using Cons.prems u raw wr by (auto simp: fl pipe_ok_def)
  next
    case None
    obtain q1 w1 where n: "note_flushed (length raw) (pp_queue p, w) = (q1, w1)" by (rule prod.exhaust)
    have q1: "q1 = (pp_queue p)\<lparr> pq_flushed_unconfirmed := pq_flushed_unconfirmed q1 \<rparr>" "w1 = w"
      using n by (auto simp: note_flushed_def)
    have u1: "pq_q q1 = u # us" by (subst q1) (simp add: u)
    obtain q2 w2 where t: "take_front (q1, w) = (Some u, q2, w2)"
      using take_front_shorter [of "(q1, w)" u us] u1 by auto
    note f = take_front_fields [OF t u1]
    have same: "pq_queued_bytes q1 = pq_queued_bytes (pp_queue p)" "pq_shaper q1 = pq_shaper (pp_queue p)"
      by (subst q1, simp)+
    have h: "held_bytes (pp_queue p) = pending_len u + held_bytes q2" using u f(1) by (simp add: held_bytes_def)
    obtain tag where tag: "pn_shape u = Some tag" using o(3) u by (auto simp: tagged_def)
    have "frame (q1, w) (q2, w2)" using frame_take [of "(q1, w)"] by (simp add: t)
    note k = keeps_frame [OF this o(4)]
    have "recs_ok (ew_recs w2) \<and> entered (ew_recs w2) = entered (ew_recs w)
        \<and> settled (ew_recs w2) = settled (ew_recs w) + of_nat (pending_len u)"
      using f(11) delivered_fields(3) [of u q1 w] tag o(2,5) same(2)
      by (cases "note_queue_delivered u (q1, w)") (auto simp: note_books_each)
    moreover have "queue_ok q2"
      using f(1-5) o(1,2) same h by (auto simp: queue_ok_def held_bytes_def split: list.splits)
    moreover have "tagged q2" using o(3) u f(1) by (simp add: tagged_def)
    ultimately have ok2: "pipe_ok side lost (p\<lparr> pp_queue := q2 \<rparr>, w2)"
      using o k h same(2) by (simp add: pipe_ok_def)
    have "flush_loop wr rst (pp_queue (p\<lparr> pp_queue := q2 \<rparr>), w2) s1 = (out, (q', w'), s')"
      using Cons.prems(1) u raw wr None n q1(2) t by (simp add: fl)
    from Cons.hyps(1) [OF _ this ok2] f(1) h show ?thesis by simp
  qed
qed

lemma push_shaped:
  assumes q: "queue_ok q" "pq_shaper q = Some side" "tagged q" "recs_ok (ew_recs w)"
    and p: "queue_push c1 c2 u (q, w) = Some (r, q', w')" and item: "pn_item u = ItemWrite raw" and fits: "held_bytes q + pending_len u < 2 ^ 64"
  shows "queue_ok q' \<and> tagged q' \<and> held_bytes q' = held_bytes q + pending_len u \<and> recs_ok (ew_recs w')
    \<and> settled (ew_recs w') = settled (ew_recs w)
    \<and> entered (ew_recs w') = entered (ew_recs w)
        + (if pq_unit_class q = UnshapeableClass then of_nat (pending_len u) else 0)"
proof -
  from push_units(2) [OF p] obtain u' where u: "tagged_unit c1 c2 u q = Some u'" "push_unit u' (q, w) = (r, q', w')"
    "pending_len u' = pending_len u" by blast
  have "pn_shape u' \<noteq> None" "pn_item u' = ItemWrite raw"
    using u(1) q(2) item by (auto simp: tagged_unit_def Let_def split: if_splits)
  then have t: "tagged q'" using q(3) push_unit_fields(1) [OF u(2)] by (simp add: tagged_def)
  have "held_bytes q + pending_len u' < 2 ^ 64" using fits u(3) by simp
  note po = push_ok [OF u(2) q(1) this]
  obtain q1 w1 where n: "note_queue_unshapeable u' (q, w) = (q1, w1)" by (rule prod.exhaust)
  have "ew_recs w' = (if pq_unit_class q = UnshapeableClass \<and> pending_len u > 0
      then note_unshapeable_seen side (of_nat (pending_len u)) (ew_recs w) else ew_recs w)"
    using push_unit_fields(13) [OF u(2)] unshapeable_fields(3) [OF n] q(2) u(3) by (simp add: n)
  then show ?thesis using po t u(3) q(4) by (auto simp: note_books_each)
qed

lemma pipe_enqueue:
  assumes q: "queue_ok (pp_queue p)" "pq_shaper (pp_queue p) = Some side" "tagged (pp_queue p)" "recs_ok (ew_recs w)"
      "sched_reach (ew_sched w)"
    and bal: "entered (ew_recs w) + (if pq_unit_class (pp_queue p) = UnshapeableClass then of_nat (length raw) else 0)
      = settled (ew_recs w) + of_nat (held_bytes (pp_queue p)) + of_nat (length raw) + lost"
    and run: "enqueue_unshown due c1 c2 raw (p, w) = Some (out, p', w')"
    and fits: "held_bytes (pp_queue p) + length raw < 2 ^ 64"
  shows "pipe_ok side lost (p', w') \<and> held_bytes (pp_queue p') = held_bytes (pp_queue p) + length raw
    \<and> (\<exists>push. out = PipeQueued push)"
proof -
  from run obtain r q' where push: "queue_push c1 c2 (pending_bytes raw due) (pp_queue p, w) = Some (r, q', w')"
    and p': "p' = p\<lparr> pp_queue := q' \<rparr>" "out = PipeQueued r"
    by (auto simp: enqueue_unshown_def)
  have len: "pending_len (pending_bytes raw due) = length raw" "pn_item (pending_bytes raw due) = ItemWrite raw"
    by (simp_all add: pending_len_def pending_bytes_def)
  note s = push_shaped [OF q(1-4) push len(2), unfolded len(1), OF fits]
  note k = keeps_frame [OF frame_push [OF push] q(5)]
  show ?thesis using s k q(2) bal by (simp add: pipe_ok_def p' algebra_simps)
qed

lemma classify_state:
  assumes "pipe_classify side meta n (p, w) = (p', w')" "recs_ok (ew_recs w)"
  shows "recs_ok (ew_recs w')" "entered (ew_recs w') = entered (ew_recs w) + of_nat n"
    "settled (ew_recs w') = settled (ew_recs w)"
    "ew_sched w' = report_step (ReportObject side meta (pp_units p)) (ew_sched w)"
    "\<exists>c. pp_queue p' = tag_unit c (pp_queue p) \<and> c = fst (shape_classify side meta (pp_units p) (ew_sched w))"
proof -
  obtain c rs s where c: "shape_classify side meta (pp_units p) (ew_sched w) = (c, rs, s)" by (metis surj_pair)
  show "recs_ok (ew_recs w')" "entered (ew_recs w') = entered (ew_recs w) + of_nat n"
    "settled (ew_recs w') = settled (ew_recs w)"
    "ew_sched w' = report_step (ReportObject side meta (pp_units p)) (ew_sched w)"
    "\<exists>c. pp_queue p' = tag_unit c (pp_queue p) \<and> c = fst (shape_classify side meta (pp_units p) (ew_sched w))"
    using assms by (auto simp: pipe_classify_def c Let_def note_books_each split: option.splits if_splits)
qed

lemma classify_never_unshapeable: "fst (shape_classify side meta k s) \<noteq> UnshapeableClass"
  using shape_classify_first [of side meta k s] by (simp split: option.splits)

lemma tag_unit_keeps:
  "queue_ok (tag_unit c q) = queue_ok q" "pq_shaper (tag_unit c q) = pq_shaper q" "tagged (tag_unit c q) = tagged q"
  "held_bytes (tag_unit c q) = held_bytes q" "pq_unit_class (tag_unit c q) = c" "pq_q (tag_unit c q) = pq_q q"
  by (simp_all add: tag_unit_def queue_ok_def tagged_def held_bytes_def head_class_def)

lemma pipe_object_ok:
  assumes ok: "pipe_ok side lost (p, w)" and fits: "held_bytes (pp_queue p) + length raw < 2 ^ 64"
    and run: "pipe_object side meta elidable due c1 c2 raw (p, w) = Some (out, p', w')"
  shows "pipe_ok side (lost + of_nat (pipe_abandons side (PipeObject meta elidable due c1 c2 raw) (p, w))) (p', w')
    \<and> held_bytes (pp_queue p') \<le> held_bytes (pp_queue p) + length raw"
proof -
  note o = pipe_okD [OF ok]
  obtain p1 w1 where c: "pipe_classify side meta (length raw) (p, w) = (p1, w1)" by (rule prod.exhaust)
  note k = classify_state [OF c o(5)]
  from k(5) obtain cl where cl: "pp_queue p1 = tag_unit cl (pp_queue p)" "cl \<noteq> UnshapeableClass"
    using classify_never_unshapeable by metis
  have s1: "sched_reach (ew_sched w1)"
    using sched_reach.step [OF o(4), of "OpReport (ReportObject side meta (pp_units p))"] by (simp add: sched_next_def k(4))
  have q: "queue_ok (pp_queue p1)" "pq_shaper (pp_queue p1) = Some side" "tagged (pp_queue p1)"
    "held_bytes (pp_queue p1) = held_bytes (pp_queue p)" "pq_unit_class (pp_queue p1) = cl"
    using o(1-3) by (simp_all add: cl(1) tag_unit_keeps)
  have bal: "entered (ew_recs w1) = settled (ew_recs w1) + of_nat (held_bytes (pp_queue p1)) + of_nat (length raw) + lost"
    using k(2,3) o(6) q(4) by simp
  have ab: "pipe_abandons side (PipeObject meta elidable due c1 c2 raw) (p, w)
      = (case out of PipeReset code \<Rightarrow> held_bytes (pp_queue p) + length raw | _ \<Rightarrow> 0)"
    by (simp add: run held_bytes_def split: pipe_outcome.split)
  have enq: ?thesis if "enqueue_unshown due c1 c2 raw (p1, w1) = Some (out, p', w')"
  proof -
    have "pipe_ok side lost (p', w') \<and> held_bytes (pp_queue p') = held_bytes (pp_queue p1) + length raw
        \<and> (\<exists>push. out = PipeQueued push)"
      by (rule pipe_enqueue [OF q(1-3) k(1) s1 _ that]) (use bal q(4,5) cl(2) fits in simp_all)
    then show ?thesis unfolding ab using q(4) by auto
  qed
  show ?thesis
  proof (cases "shape_admit (length raw) (pq_queued_bytes (pp_queue p1)) (length (pq_q (pp_queue p1))) (ew_sched w1)")
    case Admit
    then show ?thesis using run enq by (simp add: pipe_object_def c)
  next
    case AdmitDropTail
    show ?thesis
    proof (cases elidable)
      case True
      then have d: "p' = p1\<lparr> pp_drop_reported := True \<rparr>"
        "w' = w1\<lparr> ew_recs := note_dropped (pp_last_class p1) (of_nat (length raw)) (ew_recs w1) \<rparr>"
        "out = PipeDropped (\<not> pp_drop_reported p1)"
        using run AdmitDropTail by (simp_all add: pipe_object_def c)
      show ?thesis unfolding ab using q s1 k(1) bal by (simp add: d pipe_ok_def note_books_each algebra_simps)
    qed (use run enq AdmitDropTail in \<open>simp add: pipe_object_def c\<close>)
  next
    case (AdmitResetStream code)
    let ?w = "w1\<lparr> ew_recs := note_stream_reset_by_shaping side (ew_recs w1) \<rparr>"
    obtain q2 w2 where cq: "queue_clear (pp_queue p1, ?w) = (q2, w2)" by (rule prod.exhaust)
    then have d: "p' = p1\<lparr> pp_queue := q2 \<rparr>" "w' = w2" "out = PipeReset code"
      using run AdmitResetStream by (simp_all add: pipe_object_def c)
    have "pipe_ok side (lost + of_nat (length raw)) (p1, ?w)"
      using q s1 k(1) bal by (simp add: pipe_ok_def note_books_each algebra_simps)
    from pipe_clear [OF this cq] show ?thesis unfolding ab using q(4) by (simp add: d algebra_simps)
  qed
qed

lemma pipe_step_ok:
  assumes ok: "pipe_ok side lost st" and run: "pipe_step side op st = Some st'" and fits: "pipe_fits (op # ops) st"
  shows "pipe_ok side (lost + of_nat (pipe_abandons side op st)) st' \<and> pipe_fits ops st'"
proof -
  obtain p w where s: "st = (p, w)" by fastforce
  obtain p' w' where s': "st' = (p', w')" by fastforce
  note o = pipe_okD [OF ok [unfolded s]]
  show ?thesis
  proof (cases op)
    case PipeTurn
    then have "st' = pipe_turn (p, w)" using run by (simp add: s)
    then have t: "pp_queue p' = pp_queue p" "ew_sched w' = ew_sched w" "books_kept w w'"
      by (auto simp: s' pipe_turn_def books_kept_def note_books_each Let_def split: if_splits)
    then show ?thesis using o fits by (simp add: s s' pipe_ok_def pipe_fits_def PipeTurn books_kept_def)
  next
    case (PipeUnseen due c1 c2 raw)
    let ?p = "p\<lparr> pp_queue := tag_unit UnshapeableClass (pp_queue p) \<rparr>"
    from run obtain out where e: "enqueue_unshown due c1 c2 raw (?p, w) = Some (out, p', w')"
      by (auto simp: PipeUnseen s s' pipe_unseen_def)
    have "pipe_ok side lost (p', w') \<and> held_bytes (pp_queue p') = held_bytes (pp_queue ?p) + length raw
        \<and> (\<exists>push. out = PipeQueued push)"
      by (rule pipe_enqueue [OF _ _ _ o(5,4) _ e]) (use o fits in \<open>simp_all add: tag_unit_keeps s PipeUnseen pipe_fits_def\<close>)
    then show ?thesis using fits by (simp add: s s' PipeUnseen pipe_fits_def tag_unit_keeps)
  next
    case (PipeObject meta elidable due c1 c2 raw)
    from run obtain out where e: "pipe_object side meta elidable due c1 c2 raw (p, w) = Some (out, p', w')"
      by (auto simp: PipeObject s s')
    have "held_bytes (pp_queue p) + length raw < 2 ^ 64" using fits by (simp add: s PipeObject pipe_fits_def)
    from pipe_object_ok [OF ok [unfolded s] this e] show ?thesis
      using fits unfolding s s' PipeObject by (simp add: pipe_fits_def del: pipe_abandons.simps)
  next
    case (PipePop now clock)
    obtain r q1 w1 where e: "pop_next_due now clock (pp_queue p, w) = (r, q1, w1)" by (metis surj_pair)
    then have "st' = (p\<lparr> pp_queue := q1 \<rparr>, w1)" using run by (simp add: PipePop s)
    then show ?thesis using pipe_pop [OF ok [unfolded s] e] fits
      unfolding s PipePop by (simp add: pipe_fits_def del: pipe_abandons.simps)
  next
    case PipeClear
    obtain q1 w1 where e: "queue_clear (pp_queue p, w) = (q1, w1)" by (rule prod.exhaust)
    then have st: "st' = (p\<lparr> pp_queue := q1 \<rparr>, w1)" using run by (simp add: PipeClear s)
    note c = pipe_clear [OF ok [unfolded s] e]
    have "pipe_fits ops st'" using conjunct2 [OF c] fits by (simp add: st s PipeClear pipe_fits_def)
    moreover have "pipe_ok side (lost + of_nat (pipe_abandons side op st)) st'"
      using conjunct1 [OF c] by (simp add: st s PipeClear held_bytes_def)
    ultimately show ?thesis by blast
  next
    case (PipeFlush wr)
    obtain out q1 w1 k where e: "drain_ignoring_release_times wr (\<lambda>code s. s) (pp_queue p, w) 0 = (out, (q1, w1), k)"
      by (metis surj_pair)
    then have st: "st' = (p\<lparr> pp_queue := q1 \<rparr>, w1)" using run by (simp add: PipeFlush s)
    have "pipe_ok side lost (p\<lparr> pp_queue := q1 \<rparr>, w1) \<and> held_bytes q1 \<le> held_bytes (pp_queue p)"
    proof (cases "queue_discarding (pp_queue p, w)")
      case False
      then show ?thesis using pipe_flush [OF _ ok [unfolded s]] e by (simp add: drain_ignoring_release_times_def)
    qed (use e ok s in \<open>auto simp: drain_ignoring_release_times_def pipe_ok_def\<close>)
    then show ?thesis using fits by (simp add: st s PipeFlush pipe_fits_def)
  qed
qed

lemma pipe_run_ok:
  "pipe_ok side lost st \<Longrightarrow> pipe_fits ops st \<Longrightarrow> pipe_run side ops st = Some st' \<Longrightarrow>
     pipe_ok side (lost + of_nat (pipe_abandoned side ops st)) st'"
proof (induction ops arbitrary: lost st)
  case (Cons op ops)
  then obtain st1 where s: "pipe_step side op st = Some st1" "pipe_run side ops st1 = Some st'" by (auto split: option.splits)
  note k = pipe_step_ok [OF Cons.prems(1) s(1) Cons.prems(2)]
  show ?case using Cons.IH [OF conjunct1 [OF k] conjunct2 [OF k] s(2)] s(1) by (simp add: add.assoc)
qed simp

lemma recorder_profile_books:
  "recs_ok (recorder_for_profile profile, px)" "entered (recorder_for_profile profile, px) = 0"
  "settled (recorder_for_profile profile, px) = 0"
  by (simp_all add: recs_ok_def entered_def settled_def recorder_fresh)

lemma pipe_new_ok:
  assumes "shape_profile_try_new buckets classes queue disc = Inr p"
  shows "pipe_ok side 0 (pipe_new config side (sched_build p now enabled),
    world_new (sched_build p now enabled) (recorder_for_profile (Some p), px))"
  using sched_reach.built [OF assms, of now enabled] recorder_profile_books
  by (simp add: pipe_ok_def pipe_new_def world_new_def queue_ok_def with_shaper_def with_shape_depth_def with_gauge_def
      queue_new_def head_class_def held_bytes_def tagged_def)

end
