(* ===== verification/Egress_Teardown.thy ===== *)
theory Egress_Teardown
  imports Egress_Drain
begin

text \<open>
  What a teardown reports. A flush hands the sink the queue's units in order, stops at the first write
  that fails or the first terminal, and leaves in \<open>unconfirmed_bytes\<close> every byte it could not vouch for.
\<close>

section \<open>A flush, unit by unit\<close>

definition sink_after :: "('s, 'e) write_fn \<Rightarrow> (u64 \<Rightarrow> 's \<Rightarrow> 's) \<Rightarrow> pending list \<Rightarrow> 's \<Rightarrow> 's" where
  "sink_after wr rst us s = fold (\<lambda>u s. snd (write_unit wr rst (pn_item u) s)) us s"

definition queue_fits :: "pending_queue \<Rightarrow> bool" where
  "queue_fits q \<longleftrightarrow> queue_ok q \<and> pq_flushed_unconfirmed q + held_bytes q < 2 ^ 64"

lemma unconfirmed_fits:
  assumes "queue_fits q"
  shows "unconfirmed_bytes q = pq_flushed_unconfirmed q + held_bytes q"
  using assms by (simp add: queue_fits_def queue_ok_def unconfirmed_bytes_def)

lemma write_unit_result:
  assumes "write_unit wr rst (pn_item u) s = (Inr r, s')"
  shows "r = (case pn_item u of ItemWrite raw \<Rightarrow> WrittenBytes (pending_len u) | ItemElided \<Rightarrow> WrittenNothing
    | ItemTerminal (TerminalTruncate prefix code) \<Rightarrow> WrittenTerminated (pending_len u) code
    | ItemTerminal (TerminalReset code) \<Rightarrow> WrittenTerminated 0 code)"
proof (cases "pn_item u")
  case (ItemTerminal t)
  then show ?thesis using assms by (cases t) (auto simp: pending_len_def split: prod.splits option.splits if_splits)
qed (use assms in \<open>auto simp: pending_len_def split: prod.splits option.splits\<close>)

lemma written_len:
  assumes "write_unit wr rst (pn_item u) s = (Inr r, s')"
  shows "r = WrittenBytes n \<Longrightarrow> n = pending_len u" "r = WrittenNothing \<Longrightarrow> pending_len u = 0"
    "r = WrittenTerminated n code \<Longrightarrow> n = pending_len u \<and> is_terminal u"
  using write_unit_result [OF assms]
  by (auto simp: is_terminal_def pending_len_def split: item.splits terminal_unit.splits)

text \<open>One unit handed over and counted.\<close>

lemma flush_front:
  assumes "queue_fits q" "pq_q q = u # us"
  obtains q1 w1 where "take_front (note_flushed (pending_len u) (q, w)) = (Some u, q1, w1)" "pq_q q1 = us" "queue_fits q1"
    "unconfirmed_bytes q1 = unconfirmed_bytes q"
proof -
  let ?q = "q\<lparr> pq_flushed_unconfirmed := pq_flushed_unconfirmed q + pending_len u \<rparr>"
  have ok: "queue_ok q" and h: "held_bytes q = pending_len u + sum_list (map pending_len us)"
    using assms by (simp_all add: queue_fits_def held_bytes_def)
  have n: "note_flushed (pending_len u) (q, w) = (?q, w)"
    using assms(1) h by (simp add: note_flushed_def queue_fits_def)
  obtain q1 w1 where t: "take_front (?q, w) = (Some u, q1, w1)" "pq_q q1 = us"
    using take_front_shorter [of "(?q, w)" u us] assms(2) by auto
  have uq: "pq_q ?q = u # us" using assms(2) by simp
  note f = take_front_fields [OF t(1) uq]
  have k: "queue_ok q1" "pq_flushed_unconfirmed q1 = pq_flushed_unconfirmed q + pending_len u"
    using f(2,3,4,5,8) t(2) ok h
    by (auto simp: queue_ok_def held_bytes_def split: list.splits)
  have "queue_fits q1" using k t(2) assms(1) h by (simp add: queue_fits_def held_bytes_def)
  moreover have "unconfirmed_bytes q1 = unconfirmed_bytes q"
    using unconfirmed_fits [OF calculation] unconfirmed_fits [OF assms(1)] k(2) h t(2) by (simp add: held_bytes_def)
  ultimately show thesis using that t n by simp
qed

text \<open>Units that all went out: each write succeeded and none ended the stream.\<close>

fun went_out :: "('s, 'e) write_fn \<Rightarrow> (u64 \<Rightarrow> 's \<Rightarrow> 's) \<Rightarrow> pending list \<Rightarrow> 's \<Rightarrow> bool" where
  "went_out wr rst [] s \<longleftrightarrow> True"
| "went_out wr rst (u # us) s \<longleftrightarrow>
     (case write_unit wr rst (pn_item u) s of
        (Inl e, s) \<Rightarrow> False
      | (Inr r, s) \<Rightarrow> \<not> is_terminal u \<and> went_out wr rst us s)"

text \<open>What a flush leaves, by how it ended, when it had come to the units \<open>left\<close> with the sink at \<open>s\<close>.\<close>

fun flush_leaves ::
  "('s, 'e) write_fn \<Rightarrow> (u64 \<Rightarrow> 's \<Rightarrow> 's) \<Rightarrow> drain_outcome \<Rightarrow> pending list \<Rightarrow> 's \<Rightarrow> 's
     \<Rightarrow> pending_queue \<Rightarrow> pending_queue \<Rightarrow> bool" where
  "flush_leaves wr rst DrainComplete left s s' q q' \<longleftrightarrow>
     left = [] \<and> s' = s \<and> pq_q q' = [] \<and> unconfirmed_bytes q' = unconfirmed_bytes q"
| "flush_leaves wr rst DrainWriteFailed left s s' q q' \<longleftrightarrow>
     left \<noteq> [] \<and> isl (fst (write_unit wr rst (pn_item (hd left)) s)) \<and> s' = snd (write_unit wr rst (pn_item (hd left)) s)
     \<and> pq_q q' = left \<and> unconfirmed_bytes q' = unconfirmed_bytes q"
| "flush_leaves wr rst (DrainTerminated forwarded code) left s s' q q' \<longleftrightarrow>
     left \<noteq> [] \<and> write_unit wr rst (pn_item (hd left)) s = (Inr (WrittenTerminated forwarded code), s')
     \<and> forwarded = pending_len (hd left) \<and> pq_q q' = []
     \<and> unconfirmed_bytes q' + sum_list (map pending_len (tl left)) = unconfirmed_bytes q"
| "flush_leaves wr rst _ left s s' q q' \<longleftrightarrow> False"

lemma flush_leaves_more:
  "flush_leaves wr rst out left s s' q1 q' \<Longrightarrow> unconfirmed_bytes q1 = unconfirmed_bytes q \<Longrightarrow>
     flush_leaves wr rst out left s s' q q'"
  by (cases out) auto

lemma flush_accounts:
  assumes "flush_loop wr rst (q, w) s = (out, (q', w'), s')" "queue_fits q"
  shows "\<exists>sent left. pq_q q = sent @ left \<and> went_out wr rst sent s
    \<and> flush_leaves wr rst out left (sink_after wr rst sent s) s' q q'"
  using assms
proof (induction "pq_q q" arbitrary: q w s)
  case Nil
  then show ?case by (simp add: sink_after_def flush_loop.simps)
next
  case (Cons u us)
  note u = Cons.hyps(2) [symmetric]
  note fl = flush_loop.simps [of wr rst "(q, w)" s]
  obtain r s1 where wu: "write_unit wr rst (pn_item u) s = (r, s1)" by (rule prod.exhaust)
  obtain q1 w1 where t: "take_front (note_flushed (pending_len u) (q, w)) = (Some u, q1, w1)" "pq_q q1 = us" "queue_fits q1"
    "unconfirmed_bytes q1 = unconfirmed_bytes q"
    by (rule flush_front [OF Cons.prems(2) u])
  have stop: ?case if "flush_leaves wr rst out (u # us) s s' q q'"
    using that u by (intro exI [of _ "[]"] exI [of _ "u # us"]) (simp add: sink_after_def)
  have on: ?case if "r = Inr x" "\<not> is_terminal u" "flush_loop wr rst (q1, w1) s1 = (out, (q', w'), s')" for x
  proof -
    from Cons.hyps(1) [OF t(2) [symmetric] that(3) t(3)] obtain sent left where
      h: "us = sent @ left" "went_out wr rst sent s1" "flush_leaves wr rst out left (sink_after wr rst sent s1) s' q1 q'"
      using t(2) by auto
    have "pq_q q = (u # sent) @ left" "went_out wr rst (u # sent) s" "sink_after wr rst (u # sent) s = sink_after wr rst sent s1"
      using u h(1,2) that(1,2) by (simp_all add: sink_after_def wu)
    then show ?thesis using flush_leaves_more [OF h(3) t(4)] by metis
  qed
  show ?case
  proof (cases r)
    case (Inl e)
    then have "out = DrainWriteFailed" "q' = q" "s' = s1" using Cons.prems(1) u wu by (simp_all add: fl)
    then show ?thesis using u Inl by (intro stop) (simp add: wu)
  next
    case (Inr x)
    note wu' = wu [unfolded Inr]
    note len = written_len [OF wu'] and res = write_unit_result [OF wu']
    show ?thesis
    proof (cases x)
      case (WrittenBytes n)
      note n = len(1) [OF WrittenBytes]
      have "\<not> is_terminal u" using res WrittenBytes by (auto simp: is_terminal_def split: item.splits terminal_unit.splits)
      then show ?thesis using Cons.prems(1) u wu' t(1) by (intro on [OF Inr]) (simp_all add: fl WrittenBytes n)
    next
      case WrittenNothing
      have "note_flushed (pending_len u) (q, w) = (q, w)"
        using len(2) [OF WrittenNothing] Cons.prems(2) by (simp add: note_flushed_def queue_fits_def)
      moreover have "\<not> is_terminal u" using res WrittenNothing by (auto simp: is_terminal_def split: item.splits terminal_unit.splits)
      ultimately show ?thesis using WrittenNothing Cons.prems(1) u wu' t(1) by (intro on [OF Inr]) (simp_all add: fl)
    next
      case (WrittenTerminated n code)
      have n: "n = pending_len u" "is_terminal u" using len(3) [OF WrittenTerminated] by simp_all
      have h: "held_bytes q = pending_len u + sum_list (map pending_len us)" by (simp add: held_bytes_def u)
      have out: "out = DrainTerminated n code" "queue_clear (note_flushed n (q, w)) = (q', w')" "s' = s1"
        using WrittenTerminated Cons.prems(1) u wu' by (simp_all add: fl)
      then have "queue_clear (q\<lparr> pq_flushed_unconfirmed := pq_flushed_unconfirmed q + n \<rparr>, w) = (q', w')"
        using Cons.prems(2) h n(1) by (simp add: note_flushed_def queue_fits_def)
      from clear_fields [OF this] have c: "pq_q q' = []" "pq_queued_bytes q' = 0"
        "pq_flushed_unconfirmed q' = pq_flushed_unconfirmed q + n" by simp_all
      have "unconfirmed_bytes q' + sum_list (map pending_len us) = unconfirmed_bytes q"
        using unconfirmed_fits [OF Cons.prems(2)] Cons.prems(2) c h n(1) by (simp add: unconfirmed_bytes_def queue_fits_def)
      then show ?thesis using n(1) c(1) out(1,3) wu' WrittenTerminated by (intro stop) simp
    qed
  qed
qed

text \<open>The drain that ignores release times: a session that discards touches nothing, any other flushes.\<close>

lemma drain_accounts:
  assumes "drain_ignoring_release_times wr rst (q, w) s = (out, (q', w'), s')" "queue_fits q"
  shows "if queue_discarding (q, w) then out = DrainDiscarded \<and> (q', w') = (q, w) \<and> s' = s
    else \<exists>sent left. pq_q q = sent @ left \<and> went_out wr rst sent s
      \<and> flush_leaves wr rst out left (sink_after wr rst sent s) s' q q'"
proof (cases "queue_discarding (q, w)")
  case False
  then have "flush_loop wr rst (q, w) s = (out, (q', w'), s')" using assms(1) by (simp add: drain_ignoring_release_times_def)
  from flush_accounts [OF this assms(2)] show ?thesis using False by simp
qed (use assms(1) in \<open>simp add: drain_ignoring_release_times_def\<close>)

end
