(* ===== verification/Egress_Properties.thy ===== *)
theory Egress_Properties
  imports Shape_Properties Shape_Conserve Egress_Teardown
begin

text \<open>The properties of the egress queues: their order, their waits, what a session's queues agree on,
  the bytes they account for and what a teardown reports.\<close>

section \<open>Datagrams\<close>

lemma datagram_settles:
  assumes "police_datagram side draft header n arrived_at (d, w) = (r, d', w')" "recs_ok (ew_recs w)"
  shows "recs_ok (ew_recs w') \<and> entered (ew_recs w') = entered (ew_recs w) + of_nat n
    \<and> settled (ew_recs w') = settled (ew_recs w) + of_nat n \<and> ew_gauge w' = ew_gauge w"
proof -
  define cl where "cl = (case header of
      Some meta \<Rightarrow> fst (shape_classify_datagram side draft meta (dp_units d) (ew_sched w)) | None \<Rightarrow> UnshapeableClass)"
  define recs where "recs = (case header of
      Some meta \<Rightarrow> note_object_seen side (of_nat n) (ew_recs w) | None \<Rightarrow> note_unshapeable_seen side (of_nat n) (ew_recs w))"
  define sched where "sched = (case header of
      Some meta \<Rightarrow> snd (snd (shape_classify_datagram side draft meta (dp_units d) (ew_sched w))) | None \<Rightarrow> ew_sched w)"
  have e: "recs_ok recs" "entered recs = entered (ew_recs w) + of_nat n" "settled recs = settled (ew_recs w)"
    using assms(2) by (simp_all add: recs_def note_books_each split: option.split)
  obtain a s where a: "shape_acquire cl (of_nat n) arrived_at sched = (a, s)" by (rule prod.exhaust)
  have g: "ew_gauge w' = ew_gauge w"
    using assms(1) by (auto simp: police_datagram_def Let_def split: option.splits prod.splits if_splits)
  show ?thesis
  proof (cases "a = AcquireNow")
    case True
    then have "ew_recs w' = note_delivered side cl (of_nat n) recs"
      using assms(1) a
      by (auto simp: police_datagram_def Let_def cl_def recs_def sched_def split: option.splits prod.splits)
    then show ?thesis using e g by (simp add: note_books_each)
  next
    case False
    let ?r = "case a of AcquireStarved g \<Rightarrow> note_starved cl recs
      | _ \<Rightarrow> if \<not> dp_tokens_dry d then note_tokens_exhausted cl recs else recs"
    have "ew_recs w' = note_dropped cl (of_nat n) ?r"
      using assms(1) a False
      by (cases a; auto simp: police_datagram_def Let_def cl_def recs_def sched_def split: option.splits prod.splits)
    moreover have "recs_ok ?r" "entered ?r = entered recs" "settled ?r = settled recs"
      using e by (simp_all add: note_books_each split: acquire_answer.split)
    ultimately show ?thesis using e g by (simp add: note_books_each)
  qed
qed

text \<open>A datagram never waits: it is passed or dropped at once, one byte settled for each that entered,
  and it charges nothing to the session's gauge.\<close>

theorem datagram_settles_at_once:
  assumes "police_datagram side draft header n arrived_at (d, w) = ((passed, first), d', w')" "recorder_ok (fst (ew_recs w))"
  shows "entered (ew_recs w') = entered (ew_recs w) + of_nat n \<and> settled (ew_recs w') = settled (ew_recs w) + of_nat n
    \<and> ew_gauge w' = ew_gauge w"
  using datagram_settles [OF assms(1)] assms(2) by (simp add: recs_ok_def)

definition first_datagram :: datagram_pipe where
  "first_datagram = \<lparr> dp_units = 0, dp_tokens_dry = False, dp_policed_reported = False \<rparr>"

definition wan_world :: "discipline \<Rightarrow> egress_world" where
  "wan_world disc = world_new (wan_scheduler disc) (recorder_for_profile (Some (wan_profile disc)), None)"

lemma wan_books: "recorder_ok (fst (ew_recs (wan_world disc)))" "entered (ew_recs (wan_world disc)) = 0"
  using recorder_profile_books [of "Some (wan_profile disc)" None] by (simp_all add: recs_ok_def wan_world_def world_new_def)

theorem datagram_settles_at_once_witness:
  "entered (ew_recs (snd (snd (police_datagram ClientToProxy Draft07 None 9 4 (first_datagram, wan_world Fifo))))) = 9"
proof -
  obtain passed first d' w' where
    run: "police_datagram ClientToProxy Draft07 None 9 4 (first_datagram, wan_world Fifo) = ((passed, first), d', w')"
    by (metis surj_pair)
  from datagram_settles_at_once [OF run wan_books(1)] show ?thesis by (simp add: run wan_books(2))
qed

section \<open>Order and waits\<close>

text \<open>C24. Over any pushes and pops of an egress queue, shaped or not and whatever its profile does with
  an expired head, the units leave in the order they came, each with its bytes, release time and gate as
  pushed: those queued at the start and those pushed are, in order, those answered by the pops and those
  still queued, where the reset of an expired head stands for the units it abandoned, all the queue held;
  and only a shaped queue whose profile resets on expiry abandons any, with the profile's code.\<close>

theorem egress_keeps_order:
  assumes "queue_run ops (q, w) = Some (ins, outs, (q', w'))" "sched_reach (ew_sched w)"
  shows "map unit_of (pq_q q @ ins)
      = map unit_of (concat (map (\<lambda>(u, lost). if lost = [] then [u] else lost) outs) @ pq_q q')
    \<and> (\<forall>(u, lost) \<in> set outs. lost \<noteq> [] \<longrightarrow> pq_shaper q \<noteq> None
        \<and> (\<exists>code. sched_on_expiry (ew_sched w) = ExpiryResetStream code \<and> pn_item u = ItemTerminal (TerminalReset code)))"
proof -
  have "stands_for = (\<lambda>(u, lost). if lost = [] then [u] else lost)" by (auto simp: stands_for_def fun_eq_iff)
  then show ?thesis
    using queue_run_fifo [OF assms(1)] assms(2) by (fastforce simp: list_all_iff resets_expired_def)
qed

text \<open>C22. A head that is due leaves, or its stream is reset as the profile asks, or it waits: and then for
  an instant that is still to come and no later than its hold, and for no gate that is open already.\<close>

theorem due_head_is_answered:
  assumes "sched_reach (ew_sched w)" "queue_ok q" "pq_q q = head # rest" "is_due w now head"
    and "pop_next_due now clock (q, w) = (r, q', w')"
  shows "case r of
      Some u \<Rightarrow> u = head \<and> pq_q q' = rest
        \<or> (\<exists>code. sched_on_expiry (ew_sched w) = ExpiryResetStream code
              \<and> u = pending_terminal (TerminalReset code) clock \<and> pq_q q' = [])
    | None \<Rightarrow> \<exists>at gate tag. head_release q' = Some \<lparr> rl_deadline = at, rl_gate = gate \<rparr> \<and> pn_shape head = Some tag
        \<and> now < at \<and> at \<le> tg_expires_at tag \<and> (case gate of Some g \<Rightarrow> \<not> gate_is_released w' g | None \<Rightarrow> True)"
proof (cases r)
  case None
  obtain rl tag where w: "head_release q' = Some rl" "pn_shape head = Some tag" "now < rl_deadline rl"
    "rl_deadline rl \<le> tg_expires_at tag" "\<forall>g. rl_gate rl = Some g \<longrightarrow> \<not> gate_is_released w' g"
    using refused_waits [OF assms(1,2) assms(5) [unfolded None] assms(3,4)] by blast
  obtain at gate where "rl = \<lparr> rl_deadline = at, rl_gate = gate \<rparr>" by (cases rl)
  with w show ?thesis by (auto simp: None split: option.split)
next
  case (Some u)
  from assms(5,2) show ?thesis
  proof (cases rule: pop_cases)
    case idle
    with Some show ?thesis by simp
  next
    case (refused h rs tag a s)
    with Some show ?thesis by simp
  next
    case (reset h rs tag code)
    with Some show ?thesis by simp
  next
    case (sent h rs)
    with Some assms(3) show ?thesis by simp
  qed
qed

text \<open>A stream of the lower class with three bytes queued, beside another that wants to send.\<close>

definition bulk_unit :: pending where
  "bulk_unit = (pending_bytes [1, 2, 3] 0)
     \<lparr> pn_shape := Some \<lparr> tg_class = RuleClass 1, tg_expires_at = 30000000000, tg_starved_noted = False \<rparr> \<rparr>"

definition bulk_queue :: pending_queue where
  "bulk_queue = (queue_open egress_config_default (Some ClientToProxy) (wan_scheduler StrictPriority))
     \<lparr> pq_q := [bulk_unit], pq_head_deadline := Some 0, pq_queued_bytes := 3, pq_unit_class := RuleClass 1,
       pq_shape_demand := Some (RuleClass 1) \<rparr>"

definition contended :: egress_world where
  "contended = world_new (sched_run both_want (wan_scheduler StrictPriority)) (recorder_for_profile (Some (wan_profile StrictPriority)), None)"

lemma bulk_queue_ok: "queue_ok bulk_queue" "pq_q bulk_queue = [bulk_unit]" "is_due contended 7 bulk_unit"
  "pq_shaper bulk_queue = Some ClientToProxy" "pn_shape bulk_unit = Some \<lparr> tg_class = RuleClass 1, tg_expires_at = 30000000000, tg_starved_noted = False \<rparr>"
  by (simp_all add: bulk_queue_def bulk_unit_def queue_open_def with_shaper_def with_shape_depth_def with_gauge_def queue_new_def
      queue_ok_def head_class_def held_bytes_def pending_bytes_def pending_len_def is_due_def)

lemma bulk_waits: "fst (pop_next_due 7 7 (bulk_queue, contended)) = None"
proof -
  have a: "shape_acquire (RuleClass (Suc 0)) 3 7 (sched_run both_want (wan_scheduler StrictPriority)) =
      (AcquireStarved 0, (wan_scheduler StrictPriority)\<lparr> sc_demand := [1, 1], sc_parked := [None, Some 0], sc_gates := 1 \<rparr>)"
    by (simp add: both_want_state shape_acquire_def wan_fields wan_profile_fields discipline_holds_def rivals_def park_class_def)
  have "\<not> is_terminal bulk_unit" "pending_len bulk_unit = 3"
    by (simp_all add: is_terminal_def bulk_unit_def pending_bytes_def pending_len_def)
  then have "\<not> fst (shaping_grants_head 7 7 (bulk_queue\<lparr> pq_shape_gate := None, pq_shape_parked := False \<rparr>, contended))"
    by (simp add: shaping_grants_head_def bulk_queue_ok contended_def world_new_def a)
  then show ?thesis by (auto simp: pop_next_due_def Let_def split: prod.split)
qed

theorem due_head_is_answered_witness:
  "\<exists>at. map_option rl_deadline (head_release (fst (snd (pop_next_due 7 7 (bulk_queue, contended))))) = Some at
    \<and> 7 < at \<and> at \<le> 30000000000"
proof -
  obtain q' w' where run: "pop_next_due 7 7 (bulk_queue, contended) = (None, q', w')"
    using bulk_waits by (metis prod.collapse)
  have "sched_reach (ew_sched contended)" by (simp add: contended_def world_new_def wan_reach)
  from due_head_is_answered [OF this bulk_queue_ok(1-3) run] show ?thesis
    by (auto simp: run bulk_queue_ok(5))
qed

text \<open>Two units pushed on a queue with no shaper, and one popped.\<close>

definition plain_ops :: "queue_op list" where
  "plain_ops = [QueuePush 0 0 (pending_bytes [1, 2, 3] 0), QueuePush 0 0 (pending_bytes [4] 0), QueuePop 5 5]"

lemma plain_run:
  "\<exists>q' w'. queue_run plain_ops (queue_new egress_config_default, contended)
    = Some ([pending_bytes [1, 2, 3] 0, pending_bytes [4] 0], [(pending_bytes [1, 2, 3] 0, [])], (q', w'))"
proof -
  let ?u = "pending_bytes [1, 2, 3] 0"
  have new: "pq_q (queue_new egress_config_default) = []" "pq_shaper (queue_new egress_config_default) = None"
    by (simp_all add: queue_new_def)
  obtain r1 q1 w1 where p1: "push_unit ?u (queue_new egress_config_default, contended) = (r1, q1, w1)" by (metis surj_pair)
  note f1 = push_unit_fields [OF p1]
  have t1: "tagged_unit 0 0 ?u (queue_new egress_config_default) = Some ?u" by (simp add: tagged_unit_def new)
  obtain u2 where t2: "tagged_unit 0 0 (pending_bytes [4] 0) q1 = Some u2" using f1(4) new by (simp add: tagged_unit_def Let_def)
  obtain r2 q2 w2 where p2: "push_unit u2 (q1, w1) = (r2, q2, w2)" by (metis surj_pair)
  note f2 = push_unit_fields [OF p2]
  have q2: "pq_q q2 = [?u, u2]" "pq_shaper q2 = None" using f1(1,4) f2(1,4) new by simp_all
  let ?q2 = "q2\<lparr> pq_shape_gate := None, pq_shape_parked := False \<rparr>"
  obtain q3 w3 where t: "take_front (?q2, w2) = (Some ?u, q3, w3)"
    using take_front_shorter' [of ?q2 ?u "[u2]" w2] q2(1) by auto
  have "pop_next_due 5 5 (q2, w2) = (Some ?u, q3, w3)"
    using q2 t by (simp add: pop_next_due_def shaping_grants_head_def is_due_def pending_bytes_def)
  moreover have "abandons (pq_q q2) ?u = []" by (simp add: abandons_def is_terminal_def pending_bytes_def)
  ultimately show ?thesis
    by (simp add: plain_ops_def queue_push_def t1 p1 t2 p2)
qed

theorem egress_keeps_order_witness:
  "\<exists>outs q' w'. queue_run plain_ops (queue_new egress_config_default, contended)
      = Some ([pending_bytes [1, 2, 3] 0, pending_bytes [4] 0], outs, (q', w'))
    \<and> map fst outs = [pending_bytes [1, 2, 3] 0] \<and> map unit_of (pq_q q') = [unit_of (pending_bytes [4] 0)]"
proof -
  obtain q' w' where run: "queue_run plain_ops (queue_new egress_config_default, contended)
    = Some ([pending_bytes [1, 2, 3] 0, pending_bytes [4] 0], [(pending_bytes [1, 2, 3] 0, [])], (q', w'))"
    using plain_run by blast
  have "sched_reach (ew_sched contended)" by (simp add: contended_def world_new_def wan_reach)
  from egress_keeps_order [OF run this] have "map unit_of (pq_q q') = [unit_of (pending_bytes [4] 0)]"
    by (simp add: queue_new_def)
  then show ?thesis using run by auto
qed

section \<open>What a session's queues agree on\<close>

text \<open>C18. However the tasks of a session interleave, opening, filling, draining, clearing and dropping
  their egress queues, classifying, acquiring and switching pacing, the demand the scheduler holds for a
  class is the number of shaped queues whose head is of that class, and the session's gauge is the bytes
  its queues hold.\<close>

theorem session_counts_agree:
  assumes "shape_profile_try_new buckets classes queue disc = Inr p"
    and "session_fits ops ([], world_new (sched_build p now enabled) recs)"
    and "session_run ops ([], world_new (sched_build p now enabled) recs) = Some (qs, w)"
  shows "eg_queued (ew_gauge w) = sum_list (map (\<lambda>q. sum_list (map pending_len (pq_q q))) qs)
    \<and> sc_demand (ew_sched w) = map (\<lambda>i. length (filter (\<lambda>q. pq_shaper q \<noteq> None \<and> head_class q = Some (RuleClass i)) qs))
        [0..<length (classes_of (ew_sched w))]"
proof -
  have ok: "session_ok (qs, w)" by (rule session_run_ok [OF session_new_ok [OF assms(1)] assms(2,3)])
  then have "sched_ok (ew_sched w)" by (simp add: session_ok_def sched_reach_ok)
  then have n: "length (sc_demand (ew_sched w)) = length (classes_of (ew_sched w))" by (simp add: sched_ok_def sized_def)
  have "sc_demand (ew_sched w) = map (wanting qs) [0..<length (classes_of (ew_sched w))]"
    using session_ok_reads(2) [OF ok] n by (intro nth_equalityI) simp_all
  then show ?thesis using session_ok_reads(1) [OF ok] by (simp add: wanting_def session_bytes_def held_bytes_def [abs_def])
qed

definition one_stream :: "session_op list" where
  "one_stream = [SessOpen egress_config_default (Some ClientToProxy), SessTag 0 (RuleClass 1),
     SessPush 0 0 0 (pending_bytes [1, 2, 3] 0)]"

text \<open>The stream above is what the session makes of these steps.\<close>

lemma queue_of_stream:
  "\<exists>q w. session_run one_stream ([], wan_world Fifo) = Some ([q], w) \<and> pq_q q \<noteq> []
    \<and> session_fits one_stream ([], wan_world Fifo)"
proof -
  let ?q = "tag_unit (RuleClass 1) (queue_open egress_config_default (Some ClientToProxy) (wan_scheduler Fifo))"
  obtain u where u: "tagged_unit 0 0 (pending_bytes [1, 2, 3] 0) ?q = Some u"
    by (simp add: tagged_unit_def tag_unit_def queue_open_def with_shaper_def with_shape_depth_def with_gauge_def queue_new_def
        wan_fields wan_profile_fields sched_max_hold_def queue_config_default_def egress_config_default_def
        instant_checked_add_def INSTANT_LIMIT_def Let_def)
  obtain r q' w' where p: "push_unit u (?q, wan_world Fifo) = (r, q', w')" by (metis surj_pair)
  have w: "ew_sched (wan_world Fifo) = wan_scheduler Fifo" by (simp add: wan_world_def world_new_def)
  have run: "session_run one_stream ([], wan_world Fifo) = Some ([q'], w')"
    by (simp add: one_stream_def queue_push_def w u p del: One_nat_def)
  have "pq_q ?q = []"
    by (simp add: tag_unit_def queue_open_def with_shaper_def with_shape_depth_def with_gauge_def queue_new_def)
  moreover have "pending_len (pending_bytes [1, 2, 3] 0) = 3" by (simp add: pending_len_def pending_bytes_def)
  ultimately have "session_fits one_stream ([], wan_world Fifo)"
    by (simp add: one_stream_def queue_push_def w u p session_bytes_def held_bytes_def del: One_nat_def)
  then show ?thesis using run push_unit_fields(1) [OF p] by simp
qed

theorem session_counts_agree_witness:
  "\<exists>q w. session_run one_stream ([], wan_world Fifo) = Some ([q], w) \<and> pq_q q \<noteq> []
    \<and> eg_queued (ew_gauge w) = sum_list (map pending_len (pq_q q))"
proof -
  obtain q w where run: "session_run one_stream ([], wan_world Fifo) = Some ([q], w)" "pq_q q \<noteq> []"
    and fits: "session_fits one_stream ([], wan_world Fifo)"
    using queue_of_stream by blast
  note world = wan_world_def wan_scheduler_def
  from session_counts_agree [OF wan_profile_accepted fits [unfolded world] run(1) [unfolded world]] run show ?thesis
    by auto
qed

section \<open>Bytes\<close>

text \<open>C17. Over any steps of a shaped stream that no hook touches, filling, releasing, expiring, dropping,
  resetting, clearing and flushing to any sink, whatever its profile does on expiry and on overflow, the
  bytes the shaper counts as having entered are, at every moment, those delivered, those dropped, those
  its queue still holds, and those its resets and clears have abandoned.\<close>

theorem shaped_bytes_conserved:
  assumes "shape_profile_try_new buckets classes queue disc = Inr p"
    and "st0 = (pipe_new config side (sched_build p now True), world_new (sched_build p now True) (recorder_for_profile (Some p), px))"
    and "pipe_fits ops st0" "pipe_run side ops st0 = Some (pipe, w)"
  shows "entered (ew_recs w) = settled (ew_recs w) + of_nat (sum_list (map pending_len (pq_q (pp_queue pipe))))
    + of_nat (pipe_abandoned side ops st0)"
  using pipe_run_ok [OF pipe_new_ok [OF assms(1)] assms(3,4) [unfolded assms(2)]] assms(2)
  by (simp add: pipe_ok_def held_bytes_def)

definition one_chunk :: "pipe_op list" where
  "one_chunk = [PipeUnseen 0 0 0 [1, 2, 3], PipeTurn, PipePop 5 5]"

lemma chunk_is_taken:
  "\<exists>pipe w. pipe_run RelayToProxy one_chunk (pipe_new egress_config_default RelayToProxy (wan_scheduler Fifo), wan_world Fifo)
    = Some (pipe, w)"
proof -
  let ?p = "pipe_new egress_config_default RelayToProxy (wan_scheduler Fifo)"
  let ?q = "tag_unit UnshapeableClass (pp_queue ?p)"
  obtain u where u: "tagged_unit 0 0 (pending_bytes [1, 2, 3] 0) ?q = Some u"
    by (simp add: tagged_unit_def tag_unit_def pipe_new_def with_shaper_def with_shape_depth_def with_gauge_def queue_new_def
        wan_fields wan_profile_fields sched_max_hold_def queue_config_default_def egress_config_default_def
        instant_checked_add_def INSTANT_LIMIT_def Let_def)
  obtain r q1 w1 where p: "push_unit u (?q, wan_world Fifo) = (r, q1, w1)" by (metis surj_pair)
  obtain p2 w2 where t: "pipe_turn (?p\<lparr> pp_queue := q1 \<rparr>, w1) = (p2, w2)" by (rule prod.exhaust)
  show ?thesis
    by (simp add: one_chunk_def pipe_unseen_def enqueue_unshown_def queue_push_def u p t split: prod.split)
qed

theorem shaped_bytes_conserved_witness:
  "\<exists>pipe w. pipe_run RelayToProxy one_chunk (pipe_new egress_config_default RelayToProxy (wan_scheduler Fifo), wan_world Fifo)
      = Some (pipe, w)
    \<and> entered (ew_recs w) = settled (ew_recs w) + of_nat (sum_list (map pending_len (pq_q (pp_queue pipe))))
        + of_nat (pipe_abandoned RelayToProxy one_chunk
            (pipe_new egress_config_default RelayToProxy (wan_scheduler Fifo), wan_world Fifo))"
proof -
  let ?st = "(pipe_new egress_config_default RelayToProxy (wan_scheduler Fifo), wan_world Fifo)"
  note world = wan_world_def wan_scheduler_def
  obtain pipe w where run: "pipe_run RelayToProxy one_chunk ?st = Some (pipe, w)" using chunk_is_taken by blast
  have fits: "pipe_fits one_chunk ?st"
    by (simp add: one_chunk_def pipe_fits_def held_bytes_def pipe_new_def with_shaper_def with_shape_depth_def with_gauge_def queue_new_def)
  from shaped_bytes_conserved [OF wan_profile_accepted refl fits [unfolded world] run [unfolded world]] run
  show ?thesis by (simp add: world)
qed

section \<open>Teardown\<close>

text \<open>C23. The flush of a teardown leaves everything as it was exactly when its session discards; any other
  hands the sink the units in order, each write succeeding, and ends in one of three ways: with the queue
  empty and all of it unconfirmed; at a write that fails, with that unit and all behind it still queued and
  nothing off the unconfirmed count; or at a terminal that went out, with the queue empty and the
  unconfirmed count less only the bytes queued behind it.\<close>

theorem teardown_accounts:
  assumes "drain_ignoring_release_times wr rst (q, w) s = (out, (q', w'), s')" "queue_ok q"
    and "pq_flushed_unconfirmed q + held_bytes q < 2 ^ 64"
  shows "if queue_discarding (q, w) then out = DrainDiscarded \<and> (q', w') = (q, w) \<and> s' = s
    else \<exists>sent left. pq_q q = sent @ left \<and> went_out wr rst sent s
      \<and> flush_leaves wr rst out left (sink_after wr rst sent s) s' q q'"
  using drain_accounts [OF assms(1)] assms(2,3) by (simp add: queue_fits_def)

text \<open>A sink that takes three bytes.\<close>

definition short_sink :: "(bytes, unit) write_fn" where
  "short_sink raw s = (if length s + length raw \<le> 3 then (None, s @ raw) else (Some (), s))"

theorem teardown_accounts_witness:
  "\<exists>sent. pq_q bulk_queue = sent @ [] \<and> went_out short_sink (\<lambda>_ s. s) sent [] \<and> [1, 2, 3] = sink_after short_sink (\<lambda>_ s. s) sent []"
proof -
  obtain out q' w' s' where run: "drain_ignoring_release_times short_sink (\<lambda>_ s. s) (bulk_queue, contended) [] = (out, (q', w'), s')"
    by (metis surj_pair)
  have d: "\<not> queue_discarding (bulk_queue, contended)"
    by (simp add: queue_discarding_def contended_def world_new_def gauge_new_def)
  have wu: "write_unit short_sink (\<lambda>_ s. s) (pn_item bulk_unit) [] = (Inr (WrittenBytes (pending_len bulk_unit)), [1, 2, 3])"
    by (simp add: bulk_unit_def pending_bytes_def pending_len_def short_sink_def)
  have h: "pq_flushed_unconfirmed bulk_queue + held_bytes bulk_queue < 2 ^ 64"
    by (simp add: bulk_queue_def held_bytes_def bulk_unit_def pending_bytes_def pending_len_def queue_open_def with_shaper_def
        with_shape_depth_def with_gauge_def queue_new_def)
  then have "queue_fits bulk_queue" using bulk_queue_ok(1) by (simp add: queue_fits_def)
  then obtain q1 w1 where t: "take_front (note_flushed (pending_len bulk_unit) (bulk_queue, contended)) = (Some bulk_unit, q1, w1)" "pq_q q1 = []"
    by (rule flush_front [OF _ bulk_queue_ok(2)])
  have "out = DrainComplete \<and> s' = [1, 2, 3]"
    using run d wu t flush_loop.simps [of short_sink "\<lambda>_ s. s" "(bulk_queue, contended)" "[]"]
      flush_loop.simps [of short_sink "\<lambda>_ s. s" "(q1, w1)" "[1, 2, 3]"]
    by (simp add: drain_ignoring_release_times_def bulk_queue_ok(2))
  with teardown_accounts [OF run bulk_queue_ok(1) h] d show ?thesis by auto
qed

section \<open>A hold past the clock\<close>

text \<open>A profile whose hold is the longest duration there is, is accepted; and the first unit pushed on a
  stream of it is a panic, because its expiry is no instant.\<close>

lemma unbounded_hold_panics:
  "\<exists>p. shape_profile_try_new [wan_bucket] [bulk_class] (queue_config_default\<lparr> qc_max_hold := Some (2 ^ 64 * 1000000000 - 1) \<rparr>) Fifo = Inr p
    \<and> queue_push clock1 clock2 u (with_shaper (Some (sched_build p now True)) side (queue_new config), w) = None"
proof -
  let ?queue = "queue_config_default\<lparr> qc_max_hold := Some (2 ^ 64 * 1000000000 - 1) \<rparr>"
  let ?p = "\<lparr> sp_buckets = [wan_bucket], sp_classes = [bulk_class], sp_queue = ?queue, sp_discipline = Fifo \<rparr>"
  have "shape_profile_try_new [wan_bucket] [bulk_class] ?queue Fifo = Inr ?p"
    by (simp add: shape_profile_try_new_def queue_config_default_def inert_defaults)
      (simp add: bulk_class_def wan_bucket_def egress_side_def matcher_default_def)
  moreover have "queue_push clock1 clock2 u (with_shaper (Some (sched_build ?p now True)) side (queue_new config), w) = None"
    by (simp add: queue_push_def tagged_unit_def with_shaper_def sched_build_def sched_max_hold_def
        instant_checked_add_def INSTANT_LIMIT_def Let_def)
  ultimately show ?thesis by blast
qed

end
