(* ===== verification/Draft14_Data.thy ===== *)
theory Draft14_Data
  imports Object_Properties Draft07_Data Range_Filter
begin

text \<open>
  The data streams of draft-14 (\<open>draft14/data_stream.rs\<close>, \<open>draft14/types.rs\<close>): subgroup streams whose
  Object IDs are differences, fetch streams, datagrams. A reader is the record of what it carries from
  one object to the next; its state after an error is not modelled, as the code leaves it unspecified.
\<close>

unbundle bit_operations_syntax

section \<open>Statuses\<close>

datatype object_status14 = Normal14 | ObjectDoesNotExist14 | EndOfGroup14 | EndOfTrack14

fun os14_as_u64 :: "object_status14 \<Rightarrow> u64" where
  "os14_as_u64 Normal14 = 0"
| "os14_as_u64 ObjectDoesNotExist14 = 1"
| "os14_as_u64 EndOfGroup14 = 3"
| "os14_as_u64 EndOfTrack14 = 4"

definition os14_from_u64 :: "u64 \<Rightarrow> object_status14 option" where
  "os14_from_u64 v =
     (if v = 0 then Some Normal14
      else if v = 1 then Some ObjectDoesNotExist14
      else if v = 3 then Some EndOfGroup14
      else if v = 4 then Some EndOfTrack14
      else None)"

interpretation status14: code_points os14_as_u64 os14_from_u64
proof
  show "os14_from_u64 v = Some x \<longleftrightarrow> v = os14_as_u64 x" for v x
    by (cases x) (auto simp: os14_from_u64_def split: if_splits)
qed

datatype payload_permission = PayloadPermitted | PayloadForbidden

fun permission_for_status :: "object_status14 \<Rightarrow> payload_permission" where
  "permission_for_status Normal14 = PayloadPermitted"
| "permission_for_status ObjectDoesNotExist14 = PayloadForbidden"
| "permission_for_status EndOfGroup14 = PayloadForbidden"
| "permission_for_status EndOfTrack14 = PayloadForbidden"

definition permits :: "payload_permission \<Rightarrow> bool" where
  "permits p \<longleftrightarrow> p = PayloadPermitted"

definition skip_bytes :: "bytes \<Rightarrow> u64 \<Rightarrow> codec_error + bytes" where
  "skip_bytes bs len =
     (if length bs < unat len then Inl UnexpectedEnd else Inr (drop (unat len) bs))"

text \<open>\<open>let start = buf.remaining()\<close> ahead of a reading: \<open>wire_len\<close> is counted from it.\<close>

definition with_start :: "(nat \<Rightarrow> bytes \<Rightarrow> 'a) \<Rightarrow> bytes \<Rightarrow> 'a" where
  "with_start f bs = f (length bs) bs"

definition check_extensions_against_status :: "u64 option \<Rightarrow> u64 \<Rightarrow> codec_error + unit" where
  "check_extensions_against_status status len =
     (if status = Some (os14_as_u64 ObjectDoesNotExist14) \<and> len \<noteq> 0
      then Inl (ExtensionsOnNonExistentObject (unat len)) else Inr ())"

section \<open>Subgroup streams\<close>

datatype subgroup_type14 = SubgroupType14 (sst_as_u8: u8)

definition sst_from_u8 :: "u8 \<Rightarrow> subgroup_type14 option" where
  "sst_from_u8 v =
     (if 0x10 \<le> v \<and> v \<le> 0x15 \<or> 0x18 \<le> v \<and> v \<le> 0x1D then Some (SubgroupType14 v) else None)"

definition sst_from_flags :: "bool \<Rightarrow> bool \<Rightarrow> bool \<Rightarrow> bool \<Rightarrow> subgroup_type14" where
  "sst_from_flags field first extensions end_of_group =
     (let v = 0x10 :: u8;
          v = (if extensions then v OR 0x01 else v);
          v = (if field then v OR 0x04 else if first then v OR 0x02 else v);
          v = (if end_of_group then v OR 0x08 else v)
      in SubgroupType14 v)"

definition has_subgroup_id_field :: "subgroup_type14 \<Rightarrow> bool" where
  "has_subgroup_id_field t \<longleftrightarrow> sst_as_u8 t AND 0x04 \<noteq> 0"

definition subgroup_id_is_first_object :: "subgroup_type14 \<Rightarrow> bool" where
  "subgroup_id_is_first_object t \<longleftrightarrow> \<not> has_subgroup_id_field t \<and> sst_as_u8 t AND 0x02 \<noteq> 0"

definition sst_extensions_present :: "subgroup_type14 \<Rightarrow> bool" where
  "sst_extensions_present t \<longleftrightarrow> sst_as_u8 t AND 0x01 \<noteq> 0"

definition contains_end_of_group :: "subgroup_type14 \<Rightarrow> bool" where
  "contains_end_of_group t \<longleftrightarrow> sst_as_u8 t AND 0x08 \<noteq> 0"

record subgroup_header14 =
  sg14_stream_type :: subgroup_type14
  sg14_track_alias :: varint
  sg14_group_id :: varint
  sg14_subgroup_id :: "varint option"
  sg14_publisher_priority :: u8

definition FETCH_STREAM_TYPE14 :: u8 where
  "FETCH_STREAM_TYPE14 = 0x05"

definition stream_type_error14 :: "u64 \<Rightarrow> codec_error" where
  "stream_type_error14 raw =
     (if raw = ucast FETCH_STREAM_TYPE14 \<or> raw \<le> 0xFF \<and> sst_from_u8 (ucast raw) \<noteq> None
      then InvalidField else UnknownStreamType raw)"

definition subgroup14_encode :: "subgroup_header14 \<Rightarrow> bytes" where
  "subgroup14_encode h =
     varint_encode (VarInt (ucast (sst_as_u8 (sg14_stream_type h))))
     @ varint_encode (sg14_track_alias h) @ varint_encode (sg14_group_id h)
     @ (if has_subgroup_id_field (sg14_stream_type h)
        then varint_encode (case sg14_subgroup_id h of Some sg \<Rightarrow> sg | None \<Rightarrow> VarInt 0) else [])
     @ [sg14_publisher_priority h]"

definition subgroup14_encode_checked :: "subgroup_header14 \<Rightarrow> codec_error + bytes" where
  "subgroup14_encode_checked h =
     (if has_subgroup_id_field (sg14_stream_type h) \<noteq> (sg14_subgroup_id h \<noteq> None) then Inl InvalidField
      else Inr (subgroup14_encode h))"

definition subgroup14_decode :: "bytes \<Rightarrow> codec_error + subgroup_header14 \<times> bytes" where
  "subgroup14_decode bs =
     rd (vi varint_decode bs) (\<lambda>t bs.
     if into_inner t > 0xFF then Inl (stream_type_error14 (into_inner t))
     else
       and_then (ok_or (sst_from_u8 (ucast (into_inner t))) (stream_type_error14 (into_inner t))) (\<lambda>ty.
       rd (vi varint_decode bs) (\<lambda>al bs.
       rd (vi varint_decode bs) (\<lambda>g bs.
       rd (if has_subgroup_id_field ty
           then rd (vi varint_decode bs) (\<lambda>sg bs. Inr (Some sg, bs)) else Inr (None, bs)) (\<lambda>sg bs.
       if length bs < 1 then Inl UnexpectedEnd
       else case get_u8 bs of (prio, bs) \<Rightarrow>
         Inr (\<lparr> sg14_stream_type = ty, sg14_track_alias = al, sg14_group_id = g, sg14_subgroup_id = sg,
                sg14_publisher_priority = prio \<rparr>, bs))))))"

record subgroup_object14 =
  so14_object_id :: varint
  so14_extension_headers :: bytes
  so14_status :: "object_status14 option"
  so14_payload :: bytes

record subgroup_meta14 =
  sm14_object_id :: u64
  sm14_extension_headers_len :: u64
  sm14_payload_length :: u64
  sm14_status :: "u64 option"
  sm14_wire_len :: u64

definition so14_resolved_status :: "subgroup_object14 \<Rightarrow> object_status14" where
  "so14_resolved_status o' =
     (if so14_payload o' = [] then (case so14_status o' of Some s \<Rightarrow> s | None \<Rightarrow> Normal14) else Normal14)"

definition so14_permits_payload :: "subgroup_object14 \<Rightarrow> bool" where
  "so14_permits_payload o' \<longleftrightarrow> permits (permission_for_status (so14_resolved_status o'))"

definition meta14_payload_permission :: "u64 option \<Rightarrow> payload_permission option" where
  "meta14_payload_permission status =
     (case status of None \<Rightarrow> Some PayloadPermitted
      | Some code \<Rightarrow> map_option permission_for_status (os14_from_u64 code))"

record reader14 =
  rd14_extensions_present :: bool
  rd14_prev_object_id :: "u64 option"

definition reader14_new :: "subgroup_header14 \<Rightarrow> reader14" where
  "reader14_new h =
     \<lparr> rd14_extensions_present = sst_extensions_present (sg14_stream_type h), rd14_prev_object_id = None \<rparr>"

text \<open>The absolute ID behind a difference, and the difference behind an ID.\<close>

definition resolve_id :: "u64 option \<Rightarrow> u64 \<Rightarrow> codec_error + u64" where
  "resolve_id prev delta =
     (case prev of
        None \<Rightarrow> Inr delta
      | Some prev \<Rightarrow> ok_or (Option.bind (checked_add prev 1) (\<lambda>v. checked_add v delta)) InvalidField)"

definition id_delta :: "u64 option \<Rightarrow> u64 \<Rightarrow> codec_error + u64" where
  "id_delta prev oid =
     (case prev of
        None \<Rightarrow> Inr oid
      | Some prev \<Rightarrow> ok_or (Option.bind (checked_sub oid prev) (\<lambda>v. checked_sub v 1)) InvalidField)"

definition invalid_field :: "varint_error + 'a \<Rightarrow> codec_error + 'a" where
  "invalid_field r = map_err (\<lambda>_. InvalidField) r"

definition read_status14 :: "bytes \<Rightarrow> codec_error + object_status14 \<times> bytes" where
  "read_status14 bs =
     rd (vi varint_decode bs) (\<lambda>v bs.
     and_then (ok_or (os14_from_u64 (into_inner v)) InvalidField) (\<lambda>s. Inr (s, bs)))"

definition read_object14 ::
  "reader14 \<Rightarrow> bytes \<Rightarrow> codec_error + (subgroup_object14 \<times> reader14) \<times> bytes" where
  "read_object14 r bs =
     rd (vi varint_decode bs) (\<lambda>delta bs.
     and_then (resolve_id (rd14_prev_object_id r) (into_inner delta)) (\<lambda>i.
     and_then (invalid_field (from_u64 i)) (\<lambda>oid.
     rd (if rd14_extensions_present r
         then rd (vi varint_decode bs) (\<lambda>len bs. read_bytes bs (usize len)) else Inr ([], bs)) (\<lambda>ext bs.
     rd (vi varint_decode bs) (\<lambda>len bs.
     rd (if into_inner len = 0 then rd (read_status14 bs) (\<lambda>s bs. Inr ((Some s, []), bs))
         else rd (read_bytes bs (usize len)) (\<lambda>p bs. Inr ((None, p), bs))) (\<lambda>(status, payload) bs.
     and_then (check_extensions_against_status (map_option os14_as_u64 status) (of_nat (length ext))) (\<lambda>_.
     and_then (parse_object_properties Draft14 ext) (\<lambda>_.
       Inr ((\<lparr> so14_object_id = oid, so14_extension_headers = ext, so14_status = status, so14_payload = payload \<rparr>,
             r\<lparr> rd14_prev_object_id := Some i \<rparr>), bs)))))))))"

definition read_meta14 ::
  "reader14 \<Rightarrow> bytes \<Rightarrow> codec_error + (subgroup_meta14 \<times> reader14) \<times> bytes" where
  "read_meta14 r = with_start (\<lambda>start bs.
     rd (vi varint_decode bs) (\<lambda>delta bs.
     and_then (resolve_id (rd14_prev_object_id r) (into_inner delta)) (\<lambda>i.
     and_then (invalid_field (from_u64 i)) (\<lambda>oid.
     rd (if rd14_extensions_present r
         then rd (vi varint_decode bs) (\<lambda>len bs. and_then (skip_bytes bs (into_inner len)) (\<lambda>bs. Inr (into_inner len, bs)))
         else Inr (0, bs)) (\<lambda>ext_len bs.
     rd (vi varint_decode bs) (\<lambda>len bs.
     rd (if into_inner len = 0 then rd (read_status14 bs) (\<lambda>s bs. Inr (Some (os14_as_u64 s), bs))
         else and_then (skip_bytes bs (into_inner len)) (\<lambda>bs. Inr (None, bs))) (\<lambda>status bs.
     and_then (check_extensions_against_status status ext_len) (\<lambda>_.
       Inr ((\<lparr> sm14_object_id = into_inner oid, sm14_extension_headers_len = ext_len,
               sm14_payload_length = into_inner len, sm14_status = status,
               sm14_wire_len = of_nat (start - length bs) \<rparr>,
             r\<lparr> rd14_prev_object_id := Some i \<rparr>), bs)))))))))"

text \<open>The status \<open>write_object\<close> puts on the wire in place of a payload.\<close>

definition explicit_status14 :: "subgroup_object14 \<Rightarrow> codec_error + object_status14 option" where
  "explicit_status14 o' =
     (case so14_status o' of
        Some s \<Rightarrow>
          if s \<noteq> Normal14 then (if so14_payload o' \<noteq> [] then Inl InvalidField else Inr (Some s))
          else if so14_payload o' = [] then Inr (Some Normal14) else Inr None
      | None \<Rightarrow> Inr None)"

definition write_object14 ::
  "reader14 \<Rightarrow> subgroup_object14 \<Rightarrow> codec_error + bytes \<times> reader14" where
  "write_object14 r o' =
     and_then (explicit_status14 o') (\<lambda>explicit.
     if \<not> rd14_extensions_present r \<and> so14_extension_headers o' \<noteq> [] then Inl InvalidField
     else
       and_then (check_extensions_against_status (map_option os14_as_u64 explicit)
           (of_nat (length (so14_extension_headers o')))) (\<lambda>_.
       and_then (id_delta (rd14_prev_object_id r) (into_inner (so14_object_id o'))) (\<lambda>delta.
       and_then (invalid_field (from_u64 delta)) (\<lambda>delta.
       and_then (if rd14_extensions_present r
                 then and_then (invalid_field (from_u64 (of_nat (length (so14_extension_headers o'))))) (\<lambda>len.
                   Inr (varint_encode len @ so14_extension_headers o')) else Inr []) (\<lambda>ext.
       and_then (case explicit of
                   Some s \<Rightarrow> Inr (varint_encode (VarInt 0) @ varint_encode (VarInt (os14_as_u64 s)))
                 | None \<Rightarrow> and_then (invalid_field (from_u64 (of_nat (length (so14_payload o'))))) (\<lambda>len.
                     Inr (varint_encode len @ so14_payload o'))) (\<lambda>body.
         Inr (varint_encode delta @ ext @ body,
              r\<lparr> rd14_prev_object_id := Some (into_inner (so14_object_id o')) \<rparr>)))))))"

section \<open>Fetch streams\<close>

record fetch_header14 =
  fh14_request_id :: varint

definition fetch_header14_encode :: "fetch_header14 \<Rightarrow> bytes" where
  "fetch_header14_encode h =
     varint_encode (VarInt (ucast FETCH_STREAM_TYPE14)) @ varint_encode (fh14_request_id h)"

definition fetch_header14_decode :: "bytes \<Rightarrow> codec_error + fetch_header14 \<times> bytes" where
  "fetch_header14_decode bs =
     rd (vi varint_decode bs) (\<lambda>t bs.
     if into_inner t \<noteq> ucast FETCH_STREAM_TYPE14 then Inl (stream_type_error14 (into_inner t))
     else rd (vi varint_decode bs) (\<lambda>i bs. Inr (\<lparr> fh14_request_id = i \<rparr>, bs)))"

record fetch_object14 =
  fo14_group_id :: varint
  fo14_subgroup_id :: varint
  fo14_object_id :: varint
  fo14_publisher_priority :: u8
  fo14_extension_headers :: bytes
  fo14_status :: "object_status14 option"
  fo14_payload :: bytes

record fetch_meta14 =
  fm14_group_id :: u64
  fm14_subgroup_id :: u64
  fm14_object_id :: u64
  fm14_publisher_priority :: u8
  fm14_extension_headers_len :: u64
  fm14_payload_length :: u64
  fm14_status :: "u64 option"
  fm14_wire_len :: u64

definition fo14_resolved_status :: "fetch_object14 \<Rightarrow> object_status14" where
  "fo14_resolved_status o' =
     (if fo14_payload o' = [] then (case fo14_status o' of Some s \<Rightarrow> s | None \<Rightarrow> Normal14) else Normal14)"

definition fo14_permits_payload :: "fetch_object14 \<Rightarrow> bool" where
  "fo14_permits_payload o' \<longleftrightarrow> permits (permission_for_status (fo14_resolved_status o'))"

definition fetch_object14_encode :: "fetch_object14 \<Rightarrow> bytes" where
  "fetch_object14_encode o' =
     varint_encode (fo14_group_id o') @ varint_encode (fo14_subgroup_id o')
     @ varint_encode (fo14_object_id o') @ [fo14_publisher_priority o']
     @ varint_encode (VarInt (of_nat (length (fo14_extension_headers o')))) @ fo14_extension_headers o'
     @ (case fo14_status o' of
          Some s \<Rightarrow> varint_encode (VarInt 0) @ varint_encode (VarInt (os14_as_u64 s))
        | None \<Rightarrow> varint_encode (VarInt (of_nat (length (fo14_payload o')))) @ fo14_payload o')"

definition fetch_object14_encode_checked :: "fetch_object14 \<Rightarrow> codec_error + bytes" where
  "fetch_object14_encode_checked o' =
     (if (case fo14_status o' of Some s \<Rightarrow> s \<noteq> Normal14 | None \<Rightarrow> False) \<and> fo14_payload o' \<noteq> []
      then Inl InvalidField
      else
        and_then (check_extensions_against_status (map_option os14_as_u64 (fo14_status o'))
            (of_nat (length (fo14_extension_headers o')))) (\<lambda>_.
        Inr (fetch_object14_encode o')))"

definition fetch_object14_decode :: "bytes \<Rightarrow> codec_error + fetch_object14 \<times> bytes" where
  "fetch_object14_decode bs =
     rd (vi varint_decode bs) (\<lambda>g bs.
     rd (vi varint_decode bs) (\<lambda>sg bs.
     rd (vi varint_decode bs) (\<lambda>i bs.
     if length bs < 1 then Inl UnexpectedEnd
     else case get_u8 bs of (prio, bs) \<Rightarrow>
       rd (vi varint_decode bs) (\<lambda>len bs.
       rd (read_bytes bs (usize len)) (\<lambda>ext bs.
       rd (vi varint_decode bs) (\<lambda>len bs.
       rd (if into_inner len = 0 then rd (read_status14 bs) (\<lambda>s bs. Inr ((Some s, []), bs))
           else rd (read_bytes bs (usize len)) (\<lambda>p bs. Inr ((None, p), bs))) (\<lambda>(status, payload) bs.
       and_then (check_extensions_against_status (map_option os14_as_u64 status) (of_nat (length ext))) (\<lambda>_.
         Inr (\<lparr> fo14_group_id = g, fo14_subgroup_id = sg, fo14_object_id = i,
                fo14_publisher_priority = prio, fo14_extension_headers = ext,
                fo14_status = status, fo14_payload = payload \<rparr>, bs)))))))))"

definition fetch_meta14_decode :: "bytes \<Rightarrow> codec_error + fetch_meta14 \<times> bytes" where
  "fetch_meta14_decode = with_start (\<lambda>start bs.
     rd (vi varint_decode bs) (\<lambda>g bs.
     rd (vi varint_decode bs) (\<lambda>sg bs.
     rd (vi varint_decode bs) (\<lambda>i bs.
     if length bs < 1 then Inl UnexpectedEnd
     else case get_u8 bs of (prio, bs) \<Rightarrow>
       rd (vi varint_decode bs) (\<lambda>ext_len bs.
       and_then (skip_bytes bs (into_inner ext_len)) (\<lambda>bs.
       rd (vi varint_decode bs) (\<lambda>len bs.
       rd (if into_inner len = 0 then rd (read_status14 bs) (\<lambda>s bs. Inr (Some (os14_as_u64 s), bs))
           else and_then (skip_bytes bs (into_inner len)) (\<lambda>bs. Inr (None, bs))) (\<lambda>status bs.
       and_then (check_extensions_against_status status (into_inner ext_len)) (\<lambda>_.
         Inr (\<lparr> fm14_group_id = into_inner g, fm14_subgroup_id = into_inner sg,
                fm14_object_id = into_inner i, fm14_publisher_priority = prio,
                fm14_extension_headers_len = into_inner ext_len,
                fm14_payload_length = into_inner len, fm14_status = status,
                fm14_wire_len = of_nat (start - length bs) \<rparr>, bs))))))))))"

section \<open>Datagrams\<close>

datatype datagram_type14 = DatagramType14 (dt14_as_u8: u8)

definition dt14_from_u8 :: "u8 \<Rightarrow> datagram_type14 option" where
  "dt14_from_u8 v = (if v \<le> 0x07 \<or> v = 0x20 \<or> v = 0x21 then Some (DatagramType14 v) else None)"

definition dt14_payload :: "bool \<Rightarrow> bool \<Rightarrow> bool \<Rightarrow> datagram_type14" where
  "dt14_payload object_id_present extensions end_of_group =
     (let v = 0x00 :: u8;
          v = (if extensions then v OR 0x01 else v);
          v = (if end_of_group then v OR 0x02 else v);
          v = (if \<not> object_id_present then v OR 0x04 else v)
      in DatagramType14 v)"

definition dt14_status :: "bool \<Rightarrow> datagram_type14" where
  "dt14_status extensions = (if extensions then DatagramType14 0x21 else DatagramType14 0x20)"

definition dt14_is_status :: "datagram_type14 \<Rightarrow> bool" where
  "dt14_is_status t \<longleftrightarrow> dt14_as_u8 t \<ge> 0x20"

definition dt14_object_id_present :: "datagram_type14 \<Rightarrow> bool" where
  "dt14_object_id_present t \<longleftrightarrow> (if dt14_is_status t then True else dt14_as_u8 t AND 0x04 = 0)"

definition dt14_end_of_group :: "datagram_type14 \<Rightarrow> bool" where
  "dt14_end_of_group t \<longleftrightarrow> \<not> dt14_is_status t \<and> dt14_as_u8 t AND 0x02 \<noteq> 0"

definition dt14_extensions_present :: "datagram_type14 \<Rightarrow> bool" where
  "dt14_extensions_present t \<longleftrightarrow> dt14_as_u8 t AND 0x01 \<noteq> 0"

record datagram14 =
  dg14_type :: datagram_type14
  dg14_track_alias :: varint
  dg14_group_id :: varint
  dg14_object_id :: varint
  dg14_publisher_priority :: u8
  dg14_extension_headers :: bytes
  dg14_status :: "object_status14 option"
  dg14_payload :: bytes

definition datagram14_encode :: "datagram14 \<Rightarrow> bytes" where
  "datagram14_encode d =
     varint_encode (VarInt (ucast (dt14_as_u8 (dg14_type d))))
     @ varint_encode (dg14_track_alias d) @ varint_encode (dg14_group_id d)
     @ (if dt14_object_id_present (dg14_type d) then varint_encode (dg14_object_id d) else [])
     @ [dg14_publisher_priority d]
     @ (if dt14_extensions_present (dg14_type d)
        then varint_encode (VarInt (of_nat (length (dg14_extension_headers d)))) @ dg14_extension_headers d
        else [])
     @ (if dt14_is_status (dg14_type d)
        then varint_encode (VarInt (os14_as_u64 (case dg14_status d of Some s \<Rightarrow> s | None \<Rightarrow> Normal14)))
        else dg14_payload d)"

definition datagram14_encode_checked :: "datagram14 \<Rightarrow> codec_error + bytes" where
  "datagram14_encode_checked d =
     (if dt14_is_status (dg14_type d) \<and> dg14_payload d \<noteq> [] then Inl InvalidField
      else if \<not> dt14_is_status (dg14_type d)
              \<and> (case dg14_status d of Some s \<Rightarrow> s \<noteq> Normal14 | None \<Rightarrow> False) then Inl InvalidField
      else if dt14_extensions_present (dg14_type d) \<and> dg14_extension_headers d = [] then Inl InvalidField
      else if \<not> dt14_extensions_present (dg14_type d) \<and> dg14_extension_headers d \<noteq> [] then Inl InvalidField
      else
        and_then (check_extensions_against_status (map_option os14_as_u64 (dg14_status d))
            (of_nat (length (dg14_extension_headers d)))) (\<lambda>_.
        Inr (datagram14_encode d)))"

definition datagram14_decode :: "bytes \<Rightarrow> codec_error + datagram14 \<times> bytes" where
  "datagram14_decode bs =
     rd (vi varint_decode bs) (\<lambda>t bs.
     if into_inner t > 0xFF then Inl (UnknownDatagramType (into_inner t))
     else
       and_then (ok_or (dt14_from_u8 (ucast (into_inner t))) (UnknownDatagramType (into_inner t))) (\<lambda>ty.
       rd (vi varint_decode bs) (\<lambda>al bs.
       rd (vi varint_decode bs) (\<lambda>g bs.
       rd (if dt14_object_id_present ty then vi varint_decode bs else Inr (VarInt 0, bs)) (\<lambda>i bs.
       if length bs < 1 then Inl UnexpectedEnd
       else case get_u8 bs of (prio, bs) \<Rightarrow>
         rd (if dt14_extensions_present ty
             then rd (vi varint_decode bs) (\<lambda>len bs.
               if usize len = 0 then Inl InvalidField else read_bytes bs (usize len))
             else Inr ([], bs)) (\<lambda>ext bs.
         rd (if dt14_is_status ty then rd (read_status14 bs) (\<lambda>s bs. Inr ((Some s, []), bs))
             else rd (read_bytes bs (length bs)) (\<lambda>p bs. Inr ((None, p), bs))) (\<lambda>(status, payload) bs.
         and_then (check_extensions_against_status (map_option os14_as_u64 status) (of_nat (length ext))) (\<lambda>_.
           Inr (\<lparr> dg14_type = ty, dg14_track_alias = al, dg14_group_id = g, dg14_object_id = i,
                  dg14_publisher_priority = prio, dg14_extension_headers = ext,
                  dg14_status = status, dg14_payload = payload \<rparr>, bs)))))))))"

end
