(* ===== verification/Draft14_Laws.thy ===== *)
theory Draft14_Laws
  imports Draft14_Data
begin

text \<open>
  Laws of the draft-14 data streams. \<open>steady\<close> is what lets a stream be read as its bytes arrive: a
  result that is not an incomplete one stays what it is when more bytes follow. The rest: an ID and its
  difference determine each other, what \<open>write_object\<close> writes is read back, the metadata reader takes the
  same bytes as the full one, and an object re-written against another predecessor keeps its ID.
\<close>

section \<open>Reading what has arrived\<close>

text \<open>
  A reading is a function of the bytes and of how many of them the reading started with, since \<open>wire_len\<close>
  is a difference. A success depends on the bytes it took only; an error that is not an incomplete one
  stays when more bytes follow.
\<close>

definition steady :: "(nat \<Rightarrow> bytes \<Rightarrow> codec_error + 'a \<times> bytes) \<Rightarrow> bool" where
  "steady f \<longleftrightarrow> (\<forall>n bs. length bs \<le> n \<longrightarrow>
     (case f n bs of
        Inr (x, rest) \<Rightarrow>
          \<exists>used. bs = used @ rest \<and> (\<forall>z. f (n - length rest + length z) (used @ z) = Inr (x, z))
      | Inl e \<Rightarrow> is_incomplete e \<or> (\<forall>z. f (n + length z) (bs @ z) = Inl e)))"

named_theorems steady_intros \<open>a settled result stays when more bytes arrive\<close>

lemma steadyI:
  assumes "\<And>n bs x rest. f n bs = Inr (x, rest) \<Longrightarrow> length bs \<le> n \<Longrightarrow>
      \<exists>used. bs = used @ rest \<and> (\<forall>z. f (n - length rest + length z) (used @ z) = Inr (x, z))"
    "\<And>n bs e z. f n bs = Inl e \<Longrightarrow> length bs \<le> n \<Longrightarrow> \<not> is_incomplete e \<Longrightarrow> f (n + length z) (bs @ z) = Inl e"
  shows "steady f"
proof (unfold steady_def, intro allI impI)
  show "case f n bs of
       Inr (x, rest) \<Rightarrow>
          \<exists>used. bs = used @ rest \<and> (\<forall>z. f (n - length rest + length z) (used @ z) = Inr (x, z))
     | Inl e \<Rightarrow> is_incomplete e \<or> (\<forall>z. f (n + length z) (bs @ z) = Inl e)" if "length bs \<le> n" for n bs
    using assms(1) [of n bs] assms(2) [of n bs] that by (cases "f n bs") auto
qed

lemma steady_cut:
  assumes "steady f" "f n bs = Inr (x, rest)" "length bs \<le> n"
  obtains used where "bs = used @ rest" "\<forall>z. f (n - length rest + length z) (used @ z) = Inr (x, z)"
proof -
  have "\<exists>used. bs = used @ rest \<and> (\<forall>z. f (n - length rest + length z) (used @ z) = Inr (x, z))"
    using assms by (auto simp: steady_def split: sum.splits prod.splits)
  then show thesis
    using that by blast
qed

lemma steady_Inr:
  assumes "steady f" "f n bs = Inr (x, rest)" "length bs \<le> n"
  shows "f (n + length z) (bs @ z) = Inr (x, rest @ z)"
proof -
  obtain used where used: "bs = used @ rest" "\<forall>z. f (n - length rest + length z) (used @ z) = Inr (x, z)"
    using assms by (rule steady_cut)
  show ?thesis
    using spec [OF used(2), of "rest @ z"] assms(3) by (simp add: used(1))
qed

lemma steady_Inl:
  "steady f \<Longrightarrow> f n bs = Inl e \<Longrightarrow> length bs \<le> n \<Longrightarrow> \<not> is_incomplete e \<Longrightarrow> f (n + length z) (bs @ z) = Inl e"
  by (force simp: steady_def split: sum.splits prod.splits)

lemma steady_return [steady_intros]: "steady (\<lambda>n bs. Inr (x, bs))"
  by (simp add: steady_def)

lemma steady_measured [steady_intros]: "steady (\<lambda>n bs. Inr (g (n - length bs), bs))"
  by (simp add: steady_def)

lemma steady_fail [steady_intros]: "steady (\<lambda>n bs. Inl e)"
  by (simp add: steady_def)

lemma steady_rd [steady_intros]:
  assumes m: "steady m" and k: "\<And>a. steady (k a)"
  shows "steady (\<lambda>n bs. rd (m n bs) (\<lambda>a. k a n))"
proof (rule steadyI, goal_cases)
  case (1 n bs x rest)
  then obtain a bs' where *: "m n bs = Inr (a, bs')" "k a n bs' = Inr (x, rest)"
    by (auto simp: rd_eq_Inr)
  obtain u where u: "bs = u @ bs'" "\<forall>z. m (n - length bs' + length z) (u @ z) = Inr (a, z)"
    using m *(1) 1(2) by (rule steady_cut)
  then have le: "length bs' \<le> n"
    using 1(2) by simp
  obtain v where v: "bs' = v @ rest" "\<forall>z. k a (n - length rest + length z) (v @ z) = Inr (x, z)"
    using k *(2) le by (rule steady_cut)
  have "m (n - length rest + length z) (u @ v @ z) = Inr (a, v @ z)" for z
    using spec [OF u(2), of "v @ z"] le by (simp add: v(1))
  then show ?case
    by (intro exI [of _ "u @ v"]) (simp add: u(1) v)
next
  case (2 n bs e z)
  show ?case
  proof (cases "m n bs")
    case (Inl e')
    then show ?thesis
      using 2 by (simp add: steady_Inl [OF m])
  next
    case (Inr p)
    then obtain a bs' where *: "m n bs = Inr (a, bs')" "k a n bs' = Inl e"
      using 2 by (cases p) auto
    obtain u where "bs = u @ bs'"
      using m *(1) 2(2) by (rule steady_cut)
    then have "k a (n + length z) (bs' @ z) = Inl e"
      using 2 by (intro steady_Inl [OF k *(2)]) auto
    then show ?thesis
      using steady_Inr [OF m *(1) 2(2), of z] by simp
  qed
qed

lemma steady_and_then [steady_intros]:
  "(\<And>a. steady (k a)) \<Longrightarrow> steady (\<lambda>n bs. and_then m (\<lambda>a. k a n bs))"
  by (cases m) (simp_all add: steady_def)

lemma steady_if [steady_intros]:
  "steady f \<Longrightarrow> steady g \<Longrightarrow> steady (\<lambda>n bs. if c then f n bs else g n bs)"
  by (cases c) simp_all

lemma steady_pair [steady_intros]:
  "(\<And>a b. steady (k a b)) \<Longrightarrow> steady (\<lambda>n bs. (case p of (a, b) \<Rightarrow> \<lambda>bs. k a b n bs) bs)"
  by (cases p) simp

text \<open>A reading that is a cut of the first bytes.\<close>

lemma steady_take:
  assumes "\<And>bs x rest. f bs = Inr (x, rest) \<Longrightarrow> \<exists>used. bs = used @ rest \<and> (\<forall>z. f (used @ z) = Inr (x, z))"
    "\<And>bs e. f bs = Inl e \<Longrightarrow> is_incomplete e"
  shows "steady (\<lambda>n. f)"
  using assms by (intro steadyI) blast+

lemma varint_decode_cut:
  assumes "varint_decode bs = Inr (x, rest)"
  shows "\<exists>used. bs = used @ rest \<and> (\<forall>z. varint_decode (used @ z) = Inr (x, z))"
proof -
  let ?len = "push_bit (unat (drop_bit 6 (hd bs))) (1 :: nat)"
  have len: "?len \<le> length bs" "bs \<noteq> []" "?len \<in> {1, 2, 4, 8}" and rest: "rest = drop ?len bs"
    using assms prefix_lengths [of "hd bs"] by (auto simp: varint_decode_def Let_def split: if_splits)
  then have "hd (take ?len bs) = hd bs" "length (take ?len bs) = ?len"
    by (auto simp: hd_take)
  then have "varint_decode (take ?len bs) = Inr (x, [])"
    using assms len by (auto simp: varint_decode_def Let_def simp del: push_bit_of_1 split: if_splits)
  then show ?thesis
    using varint_decode_extend [of "take ?len bs" x "[]"] by (intro exI [of _ "take ?len bs"]) (simp add: rest)
qed

lemma steady_varint [steady_intros]: "steady (\<lambda>n. vi varint_decode)"
proof (rule steady_take)
  show "\<exists>used. bs = used @ rest \<and> (\<forall>z. vi varint_decode (used @ z) = Inr (x, z))"
    if "vi varint_decode bs = Inr (x, rest)" for bs x rest
    using that varint_decode_cut [of bs x rest] by (simp add: vi_def)
  show "is_incomplete e" if "vi varint_decode bs = Inl e" for bs e
    using that by (auto simp: vi_def varint_decode_def Let_def is_incomplete_def split: if_splits)
qed

lemma steady_read_bytes [steady_intros]: "steady (\<lambda>n bs. read_bytes bs len)"
proof (rule steady_take)
  show "\<exists>used. bs = used @ rest \<and> (\<forall>z. read_bytes (used @ z) len = Inr (x, z))"
    if "read_bytes bs len = Inr (x, rest)" for bs x rest
    using that by (intro exI [of _ x]) (auto simp: read_bytes_Inr)
qed (auto simp: read_bytes_def is_incomplete_def split: if_splits)

definition cut :: "u64 \<Rightarrow> bytes \<Rightarrow> codec_error + unit \<times> bytes" where
  "cut len bs = and_then (skip_bytes bs len) (\<lambda>bs. Inr ((), bs))"

lemma steady_skip [steady_intros]:
  assumes "steady k"
  shows "steady (\<lambda>n bs. and_then (skip_bytes bs len) (k n))"
proof -
  have "steady (\<lambda>n. cut len)"
  proof (rule steady_take)
    show "\<exists>used. bs = used @ rest \<and> (\<forall>z. cut len (used @ z) = Inr (x, z))" if "cut len bs = Inr (x, rest)" for bs x rest
      using that by (intro exI [of _ "take (unat len) bs"]) (auto simp: cut_def skip_bytes_def split: if_splits)
  qed (auto simp: cut_def skip_bytes_def is_incomplete_def split: if_splits)
  then have "steady (\<lambda>n bs. rd (cut len bs) (\<lambda>_. k n))"
    by (intro steady_rd assms)
  also have "(\<lambda>n bs. rd (cut len bs) (\<lambda>_. k n)) = (\<lambda>n bs. and_then (skip_bytes bs len) (k n))"
    by (auto simp: fun_eq_iff cut_def skip_bytes_def)
  finally show ?thesis .
qed

definition byte_or_end :: "bytes \<Rightarrow> codec_error + u8 \<times> bytes" where
  "byte_or_end bs = (if length bs < 1 then Inl UnexpectedEnd else Inr (get_u8 bs))"

lemma steady_get_u8 [steady_intros]:
  assumes "\<And>b. steady (k b)"
  shows "steady (\<lambda>n bs. if length bs < 1 then Inl UnexpectedEnd else case get_u8 bs of (b, bs) \<Rightarrow> k b n bs)"
proof -
  have "steady (\<lambda>n. byte_or_end)"
  proof (rule steady_take)
    show "\<exists>used. bs = used @ rest \<and> (\<forall>z. byte_or_end (used @ z) = Inr (x, z))"
      if "byte_or_end bs = Inr (x, rest)" for bs x rest
      using that by (cases bs) (auto simp: byte_or_end_def intro: exI [of _ "[x]"])
  qed (auto simp: byte_or_end_def is_incomplete_def split: if_splits)
  then have "steady (\<lambda>n bs. rd (byte_or_end bs) (\<lambda>b. k b n))"
    by (intro steady_rd assms)
  also have "(\<lambda>n bs. rd (byte_or_end bs) (\<lambda>b. k b n))
      = (\<lambda>n bs. if length bs < 1 then Inl UnexpectedEnd else case get_u8 bs of (b, bs) \<Rightarrow> k b n bs)"
    by (auto simp: fun_eq_iff byte_or_end_def get_u8_def)
  finally show ?thesis .
qed

lemma steady_read_status14 [steady_intros]: "steady (\<lambda>n bs. read_status14 bs)"
  unfolding read_status14_def by (intro steady_intros)

lemma steady_read_object14: "steady (\<lambda>n bs. read_object14 r bs)"
  unfolding read_object14_def by (intro steady_intros)

lemma steady_with_start:
  assumes "steady f"
  shows "steady (\<lambda>n. with_start f)"
proof (rule steadyI, goal_cases)
  case (1 n bs x rest)
  then obtain u where u: "bs = u @ rest" "\<forall>z. f (length bs - length rest + length z) (u @ z) = Inr (x, z)"
    using steady_cut [OF assms, of "length bs" bs x rest] by (auto simp: with_start_def)
  then show ?case
    by (intro exI [of _ u]) (simp add: with_start_def)
next
  case (2 n bs e z)
  then show ?case
    using steady_Inl [OF assms, of "length bs" bs e z] by (simp add: with_start_def)
qed

lemma steady_read_meta14: "steady (\<lambda>n. read_meta14 r)"
  unfolding read_meta14_def by (intro steady_with_start steady_intros)

lemma steady_fetch_object14: "steady (\<lambda>n. fetch_object14_decode)"
  unfolding fetch_object14_decode_def by (intro steady_intros)

lemma steady_fetch_meta14: "steady (\<lambda>n. fetch_meta14_decode)"
  unfolding fetch_meta14_decode_def by (intro steady_with_start steady_intros)

section \<open>IDs and differences\<close>

lemma checked_sub_Some: "checked_sub a b = Some d \<longleftrightarrow> checked_add b d = Some a"
  by (auto simp: checked_sub_def checked_add_Some unat_sub word_le_nat_alt word_unat_eq_iff)

lemma ex_word: "(\<exists>v :: u64. unat v = n \<and> P (unat v)) \<longleftrightarrow> n < 2 ^ 64 \<and> P n"
  using unsigned_less [where ?'a = nat and ?'b = 64]
  by (auto intro!: exI [of _ "word_of_nat n"] simp: unat_of_nat take_bit_nat_eq_self)

lemma resolve_id_Some: "resolve_id (Some prev) d = Inr i \<longleftrightarrow> unat i = unat prev + 1 + unat d"
proof -
  have "resolve_id (Some prev) d = Inr i \<longleftrightarrow> (\<exists>v :: u64. unat v = unat prev + 1 \<and> unat i = unat v + unat d)"
    by (auto simp: resolve_id_def bind_eq_Some_conv checked_add_Some) (metis)
  then show ?thesis
    using unsigned_less [of i, where ?'a = nat] ex_word [of "unat prev + 1" "\<lambda>n. unat i = n + unat d"] by auto
qed

lemma id_delta_resolve: "id_delta prev i = Inr d \<longleftrightarrow> resolve_id prev d = Inr i"
proof (cases prev)
  case (Some p)
  have "id_delta prev i = Inr d \<longleftrightarrow> (\<exists>v :: u64. unat v = 1 + unat d \<and> unat i = unat p + unat v)"
    by (auto simp: Some id_delta_def bind_eq_Some_conv checked_sub_Some checked_add_Some)
  then show ?thesis
    using unsigned_less [of i, where ?'a = nat] ex_word [of "1 + unat d" "\<lambda>n. unat i = unat p + n"]
    by (auto simp: Some resolve_id_Some)
qed (auto simp: id_delta_def resolve_id_def)

lemma id_delta_less: "p < i \<Longrightarrow> id_delta (Some p) i = Inr (i - p - 1)"
  by (simp add: id_delta_resolve resolve_id_Some unat_sub word_less_nat_alt word_le_nat_alt)

lemma resolve_id_less: "resolve_id (Some p) d = Inr i \<Longrightarrow> p < i"
  by (simp add: resolve_id_Some word_less_nat_alt)

section \<open>Writing and reading\<close>

definition so14_read_back :: "subgroup_object14 \<Rightarrow> subgroup_object14" where
  "so14_read_back o' = (if so14_payload o' = [] then o' else o'\<lparr> so14_status := None \<rparr>)"

definition wf_object14 :: "subgroup_object14 \<Rightarrow> bool" where
  "wf_object14 o' \<longleftrightarrow>
     wf_varint (so14_object_id o') \<and> (so14_payload o' = [] \<longrightarrow> so14_status o' \<noteq> None)
     \<and> (\<exists>ps. parse_object_properties Draft14 (so14_extension_headers o') = Inr ps)
     \<and> length (so14_extension_headers o') < 2 ^ 62 \<and> length (so14_payload o') < 2 ^ 62"

lemma from_u64_len [simp]: "n < 2 ^ 62 \<Longrightarrow> from_u64 (of_nat n) = Inr (from_usize n)"
  using wf_varint_from_usize [of n] by (auto simp: from_u64_def from_usize_def wf_varint_def)

lemma wf_status14 [simp]: "wf_varint (VarInt (os14_as_u64 s))"
  by (cases s) (simp_all add: wf_varint_def MAX_VARINT_def)

lemma wf_zero [simp]: "wf_varint (VarInt 0)"
  by (simp add: wf_varint_def MAX_VARINT_def)

lemma read_status14_put [simp]: "read_status14 (varint_encode (VarInt (os14_as_u64 s)) @ rest) = Inr (s, rest)"
  by (simp add: read_status14_def)

lemma from_u64_Inr: "from_u64 v = Inr x \<longleftrightarrow> x = VarInt v \<and> wf_varint x"
  by (cases x) (auto simp: from_u64_def wf_varint_def)

lemma explicit_status14_wf:
  "explicit_status14 o' = Inr e \<Longrightarrow> wf_object14 o' \<Longrightarrow> e = so14_status (so14_read_back o')"
  by (cases o') (auto simp: explicit_status14_def wf_object14_def so14_read_back_def split: option.splits if_splits)

lemma write_object14_Inr:
  assumes "write_object14 r o' = Inr (b, r')" "wf_object14 o'"
  obtains d where "resolve_id (rd14_prev_object_id r) d = Inr (into_inner (so14_object_id o'))" "wf_varint (VarInt d)"
    "\<not> rd14_extensions_present r \<longrightarrow> so14_extension_headers o' = []"
    "check_extensions_against_status (map_option os14_as_u64 (so14_status (so14_read_back o')))
       (of_nat (length (so14_extension_headers o'))) = Inr ()"
    "r' = r\<lparr> rd14_prev_object_id := Some (into_inner (so14_object_id o')) \<rparr>"
    "b = varint_encode (VarInt d)
       @ (if rd14_extensions_present r
          then varint_encode (from_usize (length (so14_extension_headers o'))) @ so14_extension_headers o' else [])
       @ (if so14_payload o' = [] then varint_encode (VarInt 0) @ varint_encode (VarInt (os14_as_u64 (the (so14_status o'))))
          else varint_encode (from_usize (length (so14_payload o'))) @ so14_payload o')"
proof -
  from assms(1) obtain e where e: "explicit_status14 o' = Inr e"
    by (auto simp: write_object14_def and_then_eq_Inr)
  then have e': "e = so14_status (so14_read_back o')"
    using assms(2) by (rule explicit_status14_wf)
  have lens: "length (so14_extension_headers o') < 2 ^ 62" "length (so14_payload o') < 2 ^ 62"
    and some: "so14_payload o' = [] \<Longrightarrow> so14_status o' \<noteq> None"
    using assms(2) by (simp_all add: wf_object14_def)
  show thesis
    using assms(1) lens some unfolding write_object14_def e
    by (cases "so14_payload o' = []"; cases "rd14_extensions_present r")
      (auto simp: and_then_eq_Inr e' so14_read_back_def invalid_field_def from_u64_Inr [of _ "_ :: varint"] id_delta_resolve
        intro!: that split: if_splits)
qed

theorem object14_roundtrip_step:
  assumes "write_object14 r o' = Inr (b, r')" "wf_object14 o'"
  shows "read_object14 r (b @ rest) = Inr ((so14_read_back o', r'), rest)"
proof -
  obtain d where d: "resolve_id (rd14_prev_object_id r) d = Inr (into_inner (so14_object_id o'))" "wf_varint (VarInt d)"
    and gate: "\<not> rd14_extensions_present r \<longrightarrow> so14_extension_headers o' = []"
    and ok: "check_extensions_against_status (map_option os14_as_u64 (so14_status (so14_read_back o')))
       (of_nat (length (so14_extension_headers o'))) = Inr ()"
    and r': "r' = r\<lparr> rd14_prev_object_id := Some (into_inner (so14_object_id o')) \<rparr>"
    and b: "b = varint_encode (VarInt d)
       @ (if rd14_extensions_present r
          then varint_encode (from_usize (length (so14_extension_headers o'))) @ so14_extension_headers o' else [])
       @ (if so14_payload o' = [] then varint_encode (VarInt 0) @ varint_encode (VarInt (os14_as_u64 (the (so14_status o'))))
          else varint_encode (from_usize (length (so14_payload o'))) @ so14_payload o')"
    using assms by (rule write_object14_Inr)
  obtain ps where wf: "wf_varint (so14_object_id o')" "so14_payload o' = [] \<longrightarrow> so14_status o' \<noteq> None"
      "parse_object_properties Draft14 (so14_extension_headers o') = Inr ps"
      "length (so14_extension_headers o') < 2 ^ 62" "length (so14_payload o') < 2 ^ 62"
    using assms(2) by (auto simp: wf_object14_def)
  have oid: "invalid_field (from_u64 (into_inner (so14_object_id o'))) = Inr (so14_object_id o')"
    using wf(1) by (cases "so14_object_id o'") (auto simp: invalid_field_def from_u64_Inr)
  have nz: "into_inner (from_usize (length (so14_payload o'))) \<noteq> 0" if "so14_payload o' \<noteq> []"
    using that wf(5) usize_from_usize [of "length (so14_payload o')"] by (auto simp: usize_def)
  show ?thesis
    using wf gate ok d nz unfolding b r' read_object14_def
    by (cases "rd14_extensions_present r"; cases "so14_payload o' = []")
      (auto simp: oid so14_read_back_def usize_from_usize)
qed

section \<open>The metadata reader\<close>

definition so14_meta :: "subgroup_object14 \<Rightarrow> nat \<Rightarrow> subgroup_meta14" where
  "so14_meta o' taken =
     \<lparr> sm14_object_id = into_inner (so14_object_id o'),
       sm14_extension_headers_len = of_nat (length (so14_extension_headers o')),
       sm14_payload_length = of_nat (length (so14_payload o')),
       sm14_status = map_option os14_as_u64 (so14_status o'), sm14_wire_len = of_nat taken \<rparr>"

lemma read_bytes_skip: "read_bytes bs (usize len) = Inr (f, rest) \<Longrightarrow> skip_bytes bs (into_inner len) = Inr rest"
  by (auto simp: read_bytes_def skip_bytes_def usize_def split: if_splits)

lemma of_nat_usize [simp]: "of_nat (usize x) = into_inner x"
  by (simp add: usize_def)

lemma read_bytes_len: "read_bytes bs (usize len) = Inr (f, rest) \<Longrightarrow> of_nat (length f) = into_inner len"
  by (simp add: read_bytes_Inr)

lemma read_meta14_of_object:
  assumes "read_object14 r bs = Inr ((o', r'), rest)"
  shows "read_meta14 r bs = Inr ((so14_meta o' (length bs - length rest), r'), rest)"
  using assms unfolding read_object14_def
  by (cases "rd14_extensions_present r"; auto simp: rd_eq_Inr and_then_eq_Inr split: if_splits)
    (simp_all add: read_meta14_def with_start_def so14_meta_def read_bytes_len read_bytes_skip)

definition read_body14 :: "bool \<Rightarrow> bytes \<Rightarrow> codec_error + (u64 \<times> u64 \<times> u64 option) \<times> bytes" where
  "read_body14 extensions bs =
     rd (if extensions
         then rd (vi varint_decode bs) (\<lambda>len bs. and_then (skip_bytes bs (into_inner len)) (\<lambda>bs. Inr (into_inner len, bs)))
         else Inr (0, bs)) (\<lambda>ext_len bs.
     rd (vi varint_decode bs) (\<lambda>len bs.
     rd (if into_inner len = 0 then rd (read_status14 bs) (\<lambda>s bs. Inr (Some (os14_as_u64 s), bs))
         else and_then (skip_bytes bs (into_inner len)) (\<lambda>bs. Inr (None, bs))) (\<lambda>status bs.
     and_then (check_extensions_against_status status ext_len) (\<lambda>_.
       Inr ((ext_len, into_inner len, status), bs)))))"

lemma eats_skip [eats_intros]:
  "(\<And>bs. eats (k bs) bs) \<Longrightarrow> eats (and_then (skip_bytes bs n) k) bs"
  by (auto simp: eats_def skip_bytes_def and_then_eq_Inr)
    (metis append.assoc append_take_drop_id)

lemma rd_rd: "rd (rd m k) l = rd m (\<lambda>a bs. rd (k a bs) l)"
  by (cases m) auto

lemma rd_and_then: "rd (and_then m k) l = and_then m (\<lambda>a. rd (k a) l)"
  by (cases m) auto

lemma read_meta14_body:
  "read_meta14 r bs0 =
     rd (vi varint_decode bs0) (\<lambda>delta bs.
     and_then (resolve_id (rd14_prev_object_id r) (into_inner delta)) (\<lambda>i.
     and_then (invalid_field (from_u64 i)) (\<lambda>oid.
     rd (read_body14 (rd14_extensions_present r) bs) (\<lambda>(e, n, s) rest.
       Inr ((\<lparr> sm14_object_id = into_inner oid, sm14_extension_headers_len = e, sm14_payload_length = n,
               sm14_status = s, sm14_wire_len = of_nat (length bs0 - length rest) \<rparr>,
             r\<lparr> rd14_prev_object_id := Some i \<rparr>), rest)))))"
  unfolding read_meta14_def read_body14_def with_start_def
  by (intro rd_cong [OF refl] and_then_cong [OF refl]) (simp add: rd_rd rd_and_then)

lemma steady_read_body14: "steady (\<lambda>n. read_body14 ext)"
  unfolding read_body14_def by (intro steady_intros)

text \<open>
  An object keeps its ID, its length and its status when its leading difference is replaced by the one
  another predecessor asks for: nothing behind that field depends on it.
\<close>

definition sm14_retaken :: "subgroup_meta14 \<Rightarrow> nat \<Rightarrow> subgroup_meta14" where
  "sm14_retaken m taken = m\<lparr> sm14_wire_len := of_nat taken \<rparr>"

lemma read_meta14_moved:
  assumes "read_meta14 r bs = Inr ((m, r'), rest)"
  obtains d body where "vi varint_decode bs = Inr (VarInt d, body @ rest)"
    "resolve_id (rd14_prev_object_id r) d = Inr (sm14_object_id m)"
    "wf_varint (VarInt (sm14_object_id m))"
    "r' = r\<lparr> rd14_prev_object_id := Some (sm14_object_id m) \<rparr>"
    "\<forall>p d' z. resolve_id p d' = Inr (sm14_object_id m) \<longrightarrow> wf_varint (VarInt d') \<longrightarrow>
       read_meta14 (r\<lparr> rd14_prev_object_id := p \<rparr>) (varint_encode (VarInt d') @ body @ z)
         = Inr ((sm14_retaken m (encoded_len (VarInt d') + length body), r'), z)"
proof -
  from assms obtain delta bs1 i oid e n s where
    1: "vi varint_decode bs = Inr (delta, bs1)" and 2: "resolve_id (rd14_prev_object_id r) (into_inner delta) = Inr i"
    and 3: "invalid_field (from_u64 i) = Inr oid" and 4: "read_body14 (rd14_extensions_present r) bs1 = Inr ((e, n, s), rest)"
    and m: "m = \<lparr> sm14_object_id = into_inner oid, sm14_extension_headers_len = e, sm14_payload_length = n,
               sm14_status = s, sm14_wire_len = of_nat (length bs - length rest) \<rparr>"
    and r': "r' = r\<lparr> rd14_prev_object_id := Some i \<rparr>"
    unfolding read_meta14_body by (auto simp: rd_eq_Inr and_then_eq_Inr)
  have oid: "oid = VarInt i" "wf_varint (VarInt i)"
    using 3 by (auto simp: invalid_field_def from_u64_Inr)
  obtain body where body: "bs1 = body @ rest"
      "\<forall>z. read_body14 (rd14_extensions_present r) (body @ z) = Inr ((e, n, s), z)"
    using steady_cut [OF steady_read_body14 4 order_refl] by blast
  show thesis
  proof (rule that [of "into_inner delta" body])
    show "vi varint_decode bs = Inr (VarInt (into_inner delta), body @ rest)"
      by (simp add: 1 body(1))
    show "\<forall>p d' z. resolve_id p d' = Inr (sm14_object_id m) \<longrightarrow> wf_varint (VarInt d') \<longrightarrow>
       read_meta14 (r\<lparr> rd14_prev_object_id := p \<rparr>) (varint_encode (VarInt d') @ body @ z)
         = Inr ((sm14_retaken m (encoded_len (VarInt d') + length body), r'), z)"
      using body(2) 3 by (auto simp: read_meta14_body m r' oid sm14_retaken_def length_varint_encode)
  qed (use 2 oid in \<open>simp_all add: m r'\<close>)
qed

end
