(* ===== verification/Data_Dispatch.thy ===== *)
theory Data_Dispatch
  imports Draft14_Laws Shape_Matcher
begin

text \<open>
  The draft-neutral readers and writers of data streams (\<open>data_dispatch.rs\<close>, and the stream headers of
  \<open>dispatch.rs\<close>) in the build whose features are \<open>draft07\<close> and \<open>draft14\<close>: a draft that writes Object IDs
  absolutely and one that writes differences. Every other draft takes the \<open>_\<close> arm its
  \<open>#[cfg(feature)]\<close> leaves, as it does in that build. The functions that do not depend on a feature
  (\<open>reemit_subgroup_object\<close>, \<open>delta_encodes_object_ids\<close>) are modelled for all sixteen drafts.
\<close>

section \<open>Draft-neutral objects\<close>

record any_subgroup_object =
  aso_object_id :: u64
  aso_extension_headers :: bytes
  aso_extension_count :: "u64 option"
  aso_status :: "u64 option"
  aso_payload :: bytes

record any_subgroup_meta =
  asm_object_id :: u64
  asm_payload_length :: u64
  asm_status :: "u64 option"
  asm_extension_headers_len :: u64
  asm_wire_len :: u64

datatype fetch_group_order = FetchAscending | FetchDescending

record any_fetch_object =
  afo_group_id :: u64
  afo_subgroup_id :: u64
  afo_has_subgroup_id :: bool
  afo_object_id :: u64
  afo_publisher_priority :: u8
  afo_extension_headers :: bytes
  afo_extension_count :: "u64 option"
  afo_status :: "u64 option"
  afo_end_of_range :: "fetch_end_of_range option"
  afo_payload :: bytes

record any_fetch_meta =
  afm_group_id :: u64
  afm_subgroup_id :: u64
  afm_has_subgroup_id :: bool
  afm_object_id :: u64
  afm_publisher_priority :: u8
  afm_payload_length :: u64
  afm_status :: "u64 option"
  afm_end_of_range :: "fetch_end_of_range option"
  afm_extension_headers_len :: u64
  afm_wire_len :: u64

definition conv_take :: "bytes \<Rightarrow> u64 \<Rightarrow> codec_error + bytes \<times> bytes" where
  "conv_take bs len = read_bytes bs (unat len)"

definition conv_varint :: "u64 \<Rightarrow> codec_error + varint" where
  "conv_varint v = invalid_field (from_u64 v)"

definition status_to_write :: "any_subgroup_object \<Rightarrow> codec_error + u64 option" where
  "status_to_write o' =
     (case (aso_status o', aso_payload o' = []) of
        (Some code, False) \<Rightarrow> if code = 0 then Inr None else Inl InvalidField
      | (Some code, True) \<Rightarrow> Inr (Some code)
      | (None, True) \<Rightarrow> Inr (Some 0)
      | (None, False) \<Rightarrow> Inr None)"

section \<open>Stream headers\<close>

datatype any_subgroup_header = AsgDraft07 subgroup_header | AsgDraft14 subgroup_header14

datatype any_fetch_header = AfhDraft07 fetch_header | AfhDraft14 fetch_header14

fun draft_debug :: "draft_version \<Rightarrow> string" where
  "draft_debug Draft07 = ''Draft07''" | "draft_debug Draft08 = ''Draft08''"
| "draft_debug Draft09 = ''Draft09''" | "draft_debug Draft10 = ''Draft10''"
| "draft_debug Draft11 = ''Draft11''" | "draft_debug Draft12 = ''Draft12''"
| "draft_debug Draft13 = ''Draft13''" | "draft_debug Draft14 = ''Draft14''"
| "draft_debug Draft15 = ''Draft15''" | "draft_debug Draft16 = ''Draft16''"
| "draft_debug Draft17 = ''Draft17''" | "draft_debug Draft18 = ''Draft18''"
| "draft_debug Draft19 = ''Draft19''" | "draft_debug Draft20 = ''Draft20''"
| "draft_debug Draft21 = ''Draft21''" | "draft_debug Draft22 = ''Draft22''"

definition not_enabled :: "draft_version \<Rightarrow> codec_error" where
  "not_enabled d = UnsupportedDraft (''draft '' @ draft_debug d @ '' not enabled via feature flag'')"

definition any_subgroup_decode_stream ::
  "draft_version \<Rightarrow> bytes \<Rightarrow> codec_error + any_subgroup_header \<times> bytes" where
  "any_subgroup_decode_stream d bs =
     (case d of
        Draft07 \<Rightarrow> rd (subgroup_decode_stream bs) (\<lambda>h bs. Inr (AsgDraft07 h, bs))
      | Draft14 \<Rightarrow> rd (subgroup14_decode bs) (\<lambda>h bs. Inr (AsgDraft14 h, bs))
      | _ \<Rightarrow> Inl (not_enabled d))"

fun any_subgroup_encode_stream :: "any_subgroup_header \<Rightarrow> bytes" where
  "any_subgroup_encode_stream (AsgDraft07 h) = subgroup_encode_stream h"
| "any_subgroup_encode_stream (AsgDraft14 h) = subgroup14_encode h"

fun any_subgroup_draft :: "any_subgroup_header \<Rightarrow> draft_version" where
  "any_subgroup_draft (AsgDraft07 h) = Draft07"
| "any_subgroup_draft (AsgDraft14 h) = Draft14"

fun any_track_alias :: "any_subgroup_header \<Rightarrow> u64" where
  "any_track_alias (AsgDraft07 h) = into_inner (sh_track_alias h)"
| "any_track_alias (AsgDraft14 h) = into_inner (sg14_track_alias h)"

fun any_group_id :: "any_subgroup_header \<Rightarrow> u64" where
  "any_group_id (AsgDraft07 h) = into_inner (sh_group_id h)"
| "any_group_id (AsgDraft14 h) = into_inner (sg14_group_id h)"

fun any_publisher_priority :: "any_subgroup_header \<Rightarrow> u8 option" where
  "any_publisher_priority (AsgDraft07 h) = Some (sh_publisher_priority h)"
| "any_publisher_priority (AsgDraft14 h) = Some (sg14_publisher_priority h)"

fun any_subgroup_id :: "any_subgroup_header \<Rightarrow> u64 option" where
  "any_subgroup_id (AsgDraft07 h) = Some (into_inner (sh_subgroup_id h))"
| "any_subgroup_id (AsgDraft14 h) =
     (if has_subgroup_id_field (sg14_stream_type h)
      then Some (case sg14_subgroup_id h of None \<Rightarrow> 0 | Some i \<Rightarrow> into_inner i)
      else if subgroup_id_is_first_object (sg14_stream_type h) then None
      else Some 0)"

fun carries_extension_block :: "any_subgroup_header \<Rightarrow> bool" where
  "carries_extension_block (AsgDraft07 h) \<longleftrightarrow> False"
| "carries_extension_block (AsgDraft14 h) \<longleftrightarrow> sst_extensions_present (sg14_stream_type h)"

definition any_fetch_decode_stream ::
  "draft_version \<Rightarrow> bytes \<Rightarrow> codec_error + any_fetch_header \<times> bytes" where
  "any_fetch_decode_stream d bs =
     (case d of
        Draft07 \<Rightarrow> rd (fetch_header_decode_stream bs) (\<lambda>h bs. Inr (AfhDraft07 h, bs))
      | Draft14 \<Rightarrow> rd (fetch_header14_decode bs) (\<lambda>h bs. Inr (AfhDraft14 h, bs))
      | _ \<Rightarrow> Inl (not_enabled d))"

fun any_request_id :: "any_fetch_header \<Rightarrow> u64" where
  "any_request_id (AfhDraft07 h) = into_inner (fh_subscribe_id h)"
| "any_request_id (AfhDraft14 h) = into_inner (fh14_request_id h)"

section \<open>Objects of a subgroup stream\<close>

definition sg07_read_object :: "bytes \<Rightarrow> codec_error + any_subgroup_object \<times> bytes" where
  "sg07_read_object bs =
     rd (object_decode bs) (\<lambda>h bs.
     rd (if into_inner (oh_payload_length h) = 0
         then Inr ((Some (os_as_u64 (oh_object_status h)), []), bs)
         else rd (conv_take bs (into_inner (oh_payload_length h))) (\<lambda>p bs. Inr ((None, p), bs)))
       (\<lambda>(status, payload) bs.
       Inr (\<lparr> aso_object_id = into_inner (oh_object_id h), aso_extension_headers = [],
              aso_extension_count = None, aso_status = status, aso_payload = payload \<rparr>, bs)))"

definition sg07_read_meta :: "bytes \<Rightarrow> codec_error + any_subgroup_meta \<times> bytes" where
  "sg07_read_meta = with_start (\<lambda>start bs.
     rd (object_decode bs) (\<lambda>h bs.
     rd (if into_inner (oh_payload_length h) = 0
         then Inr (Some (os_as_u64 (oh_object_status h)), bs)
         else and_then (skip_bytes bs (into_inner (oh_payload_length h))) (\<lambda>bs. Inr (None, bs))) (\<lambda>status bs.
       Inr (\<lparr> asm_object_id = into_inner (oh_object_id h),
              asm_payload_length = into_inner (oh_payload_length h), asm_status = status,
              asm_extension_headers_len = 0, asm_wire_len = of_nat (start - length bs) \<rparr>, bs))))"

definition sg07_write_object :: "any_subgroup_object \<Rightarrow> codec_error + bytes" where
  "sg07_write_object o' =
     (if aso_extension_headers o' \<noteq> [] then Inl InvalidField
      else
        and_then (status_to_write o') (\<lambda>s.
        and_then (case s of Some code \<Rightarrow> ok_or (os_from_u64 code) InvalidField | None \<Rightarrow> Inr OsNormal) (\<lambda>status.
        and_then (conv_varint (aso_object_id o')) (\<lambda>oid.
        and_then (conv_varint (of_nat (length (aso_payload o')))) (\<lambda>len.
        Inr (object_encode \<lparr> oh_object_id = oid, oh_payload_length = len, oh_object_status = status \<rparr>
             @ aso_payload o'))))))"

definition sg14_read_object ::
  "reader14 \<Rightarrow> bytes \<Rightarrow> codec_error + (any_subgroup_object \<times> reader14) \<times> bytes" where
  "sg14_read_object r bs =
     rd (read_object14 r bs) (\<lambda>(o', r') bs.
     Inr ((\<lparr> aso_object_id = into_inner (so14_object_id o'),
             aso_extension_headers = so14_extension_headers o', aso_extension_count = None,
             aso_status = map_option os14_as_u64 (so14_status o'), aso_payload = so14_payload o' \<rparr>, r'), bs))"

definition sg14_read_meta ::
  "reader14 \<Rightarrow> bytes \<Rightarrow> codec_error + (any_subgroup_meta \<times> reader14) \<times> bytes" where
  "sg14_read_meta r bs =
     rd (read_meta14 r bs) (\<lambda>(m, r') bs.
     Inr ((\<lparr> asm_object_id = sm14_object_id m, asm_payload_length = sm14_payload_length m,
             asm_status = sm14_status m, asm_extension_headers_len = sm14_extension_headers_len m,
             asm_wire_len = sm14_wire_len m \<rparr>, r'), bs))"

definition sg14_write_object ::
  "reader14 \<Rightarrow> any_subgroup_object \<Rightarrow> codec_error + bytes \<times> reader14" where
  "sg14_write_object w o' =
     and_then (status_to_write o') (\<lambda>s.
     and_then (case s of
                 Some code \<Rightarrow> and_then (ok_or (os14_from_u64 code) InvalidField) (\<lambda>s. Inr (Some s))
               | None \<Rightarrow> Inr None) (\<lambda>status.
     and_then (conv_varint (aso_object_id o')) (\<lambda>oid.
       write_object14 w
         \<lparr> so14_object_id = oid, so14_extension_headers = aso_extension_headers o',
           so14_status = status, so14_payload = aso_payload o' \<rparr>)))"

datatype subgroup_reader = SrDraft07 | SrDraft14 reader14

fun subgroup_reader_new :: "any_subgroup_header \<Rightarrow> codec_error + subgroup_reader" where
  "subgroup_reader_new (AsgDraft07 h) = Inr SrDraft07"
| "subgroup_reader_new (AsgDraft14 h) = Inr (SrDraft14 (reader14_new h))"

fun sr_read_object ::
  "subgroup_reader \<Rightarrow> bytes \<Rightarrow> codec_error + (any_subgroup_object \<times> subgroup_reader) \<times> bytes" where
  "sr_read_object SrDraft07 bs = rd (sg07_read_object bs) (\<lambda>o' bs. Inr ((o', SrDraft07), bs))"
| "sr_read_object (SrDraft14 r) bs =
     rd (sg14_read_object r bs) (\<lambda>(o', r) bs. Inr ((o', SrDraft14 r), bs))"

fun sr_read_meta ::
  "subgroup_reader \<Rightarrow> bytes \<Rightarrow> codec_error + (any_subgroup_meta \<times> subgroup_reader) \<times> bytes" where
  "sr_read_meta SrDraft07 bs = rd (sg07_read_meta bs) (\<lambda>m bs. Inr ((m, SrDraft07), bs))"
| "sr_read_meta (SrDraft14 r) bs =
     rd (sg14_read_meta r bs) (\<lambda>(m, r) bs. Inr ((m, SrDraft14 r), bs))"

datatype subgroup_writer = SwDraft07 "u64 option" | SwDraft14 reader14 bool

fun subgroup_writer_new :: "any_subgroup_header \<Rightarrow> codec_error + subgroup_writer" where
  "subgroup_writer_new (AsgDraft07 h) = Inr (SwDraft07 None)"
| "subgroup_writer_new (AsgDraft14 h) =
     Inr (SwDraft14 (reader14_new h) (sst_extensions_present (sg14_stream_type h)))"

text \<open>\<open>advance_absolute_id\<close>: the state advances once the object is written.\<close>

definition advance_absolute_id ::
  "u64 option \<Rightarrow> any_subgroup_object \<Rightarrow> (any_subgroup_object \<Rightarrow> codec_error + bytes)
    \<Rightarrow> codec_error + bytes \<times> u64 option" where
  "advance_absolute_id prev o' write =
     (if (case prev of Some p \<Rightarrow> aso_object_id o' \<le> p | None \<Rightarrow> False) then Inl InvalidField
      else and_then (write o') (\<lambda>b. Inr (b, Some (aso_object_id o'))))"

definition reject_unrepresentable_extensions :: "bool \<Rightarrow> any_subgroup_object \<Rightarrow> codec_error + unit" where
  "reject_unrepresentable_extensions extensions o' =
     (if \<not> extensions \<and> aso_extension_headers o' \<noteq> [] then Inl InvalidField else Inr ())"

fun sw_write_object ::
  "subgroup_writer \<Rightarrow> any_subgroup_object \<Rightarrow> codec_error + bytes \<times> subgroup_writer" where
  "sw_write_object (SwDraft07 prev) o' =
     and_then (advance_absolute_id prev o' sg07_write_object) (\<lambda>(b, prev). Inr (b, SwDraft07 prev))"
| "sw_write_object (SwDraft14 inner extensions) o' =
     and_then (reject_unrepresentable_extensions extensions o') (\<lambda>_.
     and_then (sg14_write_object inner o') (\<lambda>(b, inner). Inr (b, SwDraft14 inner extensions)))"

section \<open>Re-emitting an object\<close>

datatype reemit = Verbatim | Reencoded nat nat

definition delta_encodes_object_ids :: "draft_version \<Rightarrow> bool" where
  "delta_encodes_object_ids d \<longleftrightarrow>
     d \<in> {Draft14, Draft15, Draft16, Draft17, Draft18, Draft19, Draft20, Draft21, Draft22}"

definition reemit_subgroup_object ::
  "draft_version \<Rightarrow> u64 option \<Rightarrow> u64 \<Rightarrow> bytes \<Rightarrow> codec_error + reemit \<times> bytes" where
  "reemit_subgroup_object d prev_forwarded object_id raw =
     (if (case prev_forwarded of Some prev \<Rightarrow> object_id \<le> prev | None \<Rightarrow> False) then Inl InvalidField
      else
        rd (invalid_field (decode_varint d raw)) (\<lambda>_ cursor.
        let id_bytes_before = length raw - length cursor in
        if \<not> delta_encodes_object_ids d then Inr (Verbatim, raw)
        else
          and_then (id_delta prev_forwarded object_id) (\<lambda>delta.
          and_then (if uses_moqt_varint d then Inr (from_u64_moqt delta)
                    else invalid_field (from_u64 delta)) (\<lambda>field.
          let encoded = encode_varint d field in
          if encoded = take id_bytes_before raw then Inr (Verbatim, raw)
          else Inr (Reencoded id_bytes_before (length encoded), encoded @ drop id_bytes_before raw)))))"

section \<open>Objects of a fetch stream\<close>

definition fo07_read_object :: "bytes \<Rightarrow> codec_error + any_fetch_object \<times> bytes" where
  "fo07_read_object bs =
     rd (fetch_object_decode bs) (\<lambda>h bs.
     rd (if into_inner (foh_payload_length h) = 0
         then Inr ((Some (os_as_u64 (foh_object_status h)), []), bs)
         else rd (conv_take bs (into_inner (foh_payload_length h))) (\<lambda>p bs. Inr ((None, p), bs)))
       (\<lambda>(status, payload) bs.
       Inr (\<lparr> afo_group_id = into_inner (foh_group_id h), afo_subgroup_id = into_inner (foh_subgroup_id h),
              afo_has_subgroup_id = True, afo_object_id = into_inner (foh_object_id h),
              afo_publisher_priority = foh_publisher_priority h, afo_extension_headers = [],
              afo_extension_count = None, afo_status = status, afo_end_of_range = None,
              afo_payload = payload \<rparr>, bs)))"

definition fo07_read_meta :: "bytes \<Rightarrow> codec_error + any_fetch_meta \<times> bytes" where
  "fo07_read_meta = with_start (\<lambda>start bs.
     rd (fetch_object_decode bs) (\<lambda>h bs.
     rd (if into_inner (foh_payload_length h) = 0
         then Inr (Some (os_as_u64 (foh_object_status h)), bs)
         else and_then (skip_bytes bs (into_inner (foh_payload_length h))) (\<lambda>bs. Inr (None, bs))) (\<lambda>status bs.
       Inr (\<lparr> afm_group_id = into_inner (foh_group_id h), afm_subgroup_id = into_inner (foh_subgroup_id h),
              afm_has_subgroup_id = True, afm_object_id = into_inner (foh_object_id h),
              afm_publisher_priority = foh_publisher_priority h,
              afm_payload_length = into_inner (foh_payload_length h), afm_status = status,
              afm_end_of_range = None, afm_extension_headers_len = 0,
              afm_wire_len = of_nat (start - length bs) \<rparr>, bs))))"

definition fo14_read_object :: "bytes \<Rightarrow> codec_error + any_fetch_object \<times> bytes" where
  "fo14_read_object bs =
     rd (fetch_object14_decode bs) (\<lambda>o' bs.
     Inr (\<lparr> afo_group_id = into_inner (fo14_group_id o'), afo_subgroup_id = into_inner (fo14_subgroup_id o'),
            afo_has_subgroup_id = True, afo_object_id = into_inner (fo14_object_id o'),
            afo_publisher_priority = fo14_publisher_priority o',
            afo_extension_headers = fo14_extension_headers o', afo_extension_count = None,
            afo_status = map_option os14_as_u64 (fo14_status o'), afo_end_of_range = None,
            afo_payload = fo14_payload o' \<rparr>, bs))"

definition fo14_read_meta :: "bytes \<Rightarrow> codec_error + any_fetch_meta \<times> bytes" where
  "fo14_read_meta bs =
     rd (fetch_meta14_decode bs) (\<lambda>m bs.
     Inr (\<lparr> afm_group_id = fm14_group_id m, afm_subgroup_id = fm14_subgroup_id m,
            afm_has_subgroup_id = True, afm_object_id = fm14_object_id m,
            afm_publisher_priority = fm14_publisher_priority m,
            afm_payload_length = fm14_payload_length m, afm_status = fm14_status m,
            afm_end_of_range = None, afm_extension_headers_len = fm14_extension_headers_len m,
            afm_wire_len = fm14_wire_len m \<rparr>, bs))"

datatype fetch_reader = FrDraft07 | FrDraft14

fun fetch_reader_new :: "any_fetch_header \<Rightarrow> fetch_group_order \<Rightarrow> codec_error + fetch_reader" where
  "fetch_reader_new (AfhDraft07 h) group_order = Inr FrDraft07"
| "fetch_reader_new (AfhDraft14 h) group_order = Inr FrDraft14"

fun fr_draft :: "fetch_reader \<Rightarrow> draft_version" where
  "fr_draft FrDraft07 = Draft07"
| "fr_draft FrDraft14 = Draft14"

definition fr_read_object :: "fetch_reader \<Rightarrow> bytes \<Rightarrow> codec_error + any_fetch_object \<times> bytes" where
  "fr_read_object r bs =
     rd (case r of FrDraft07 \<Rightarrow> fo07_read_object bs | FrDraft14 \<Rightarrow> fo14_read_object bs) (\<lambda>o' bs.
     and_then (parse_object_properties (fr_draft r) (afo_extension_headers o')) (\<lambda>_. Inr (o', bs)))"

text \<open>The shape of a frame is \<open>Absolute\<close> on both drafts: nothing of it depends on the frame before it.\<close>

datatype fetch_frame_shape = ShapeAbsolute

record fetch_frame =
  ff_meta :: any_fetch_meta
  ff_draft :: draft_version
  ff_shape :: fetch_frame_shape

definition frame_absolute :: "draft_version \<Rightarrow> any_fetch_meta \<Rightarrow> fetch_frame" where
  "frame_absolute d m = \<lparr> ff_meta = m, ff_draft = d, ff_shape = ShapeAbsolute \<rparr>"

fun fr_read_frame :: "fetch_reader \<Rightarrow> bytes \<Rightarrow> codec_error + fetch_frame \<times> bytes" where
  "fr_read_frame FrDraft07 bs = rd (fo07_read_meta bs) (\<lambda>m bs. Inr (frame_absolute Draft07 m, bs))"
| "fr_read_frame FrDraft14 bs = rd (fo14_read_meta bs) (\<lambda>m bs. Inr (frame_absolute Draft14 m, bs))"

datatype fetch_writer = FwAbsolute draft_version

fun fetch_writer_new :: "any_fetch_header \<Rightarrow> fetch_group_order \<Rightarrow> codec_error + fetch_writer" where
  "fetch_writer_new (AfhDraft07 h) group_order = Inr (FwAbsolute Draft07)"
| "fetch_writer_new (AfhDraft14 h) group_order = Inr (FwAbsolute Draft14)"

fun fw_draft :: "fetch_writer \<Rightarrow> draft_version" where
  "fw_draft (FwAbsolute d) = d"

datatype fetch_reemit = Unchanged | Reframed nat nat

definition saturating_sub64 :: "u64 \<Rightarrow> u64 \<Rightarrow> u64" where
  "saturating_sub64 a b = (if b \<le> a then a - b else 0)"

text \<open>The appended bytes are empty unless the frame is re-framed.\<close>

definition reemit_fetch_object ::
  "fetch_writer \<Rightarrow> fetch_frame \<Rightarrow> bytes \<Rightarrow> codec_error + (fetch_reemit \<times> bytes) \<times> fetch_writer" where
  "reemit_fetch_object w frame raw =
     (if ff_draft frame \<noteq> fw_draft w
      then Inl (UnsupportedDraft (''a draft '' @ draft_debug (ff_draft frame)
             @ '' fetch frame cannot be written onto a draft '' @ draft_debug (fw_draft w) @ '' stream''))
      else if unat (saturating_sub64 (afm_wire_len (ff_meta frame)) (afm_payload_length (ff_meta frame))) > length raw
      then Inl InvalidField
      else case (w, ff_shape frame) of
             (FwAbsolute _, ShapeAbsolute) \<Rightarrow> Inr ((Unchanged, []), w))"

end
