(* ===== verification/Framer.thy ===== *)
theory Framer
  imports Data_Dispatch
begin

text \<open>
  The object framer of the proxy (\<open>framer.rs\<close>): it cuts a data stream, fed in chunks of any size, into its
  header and its objects, each with the exact bytes it arrived in, and repairs the first object after a
  dropped one. \<open>feed\<close>, \<open>poll\<close>, \<open>note_elided\<close> and \<open>finish\<close> are its operations; a poll takes its bytes off the
  front of the buffer. The recorder of the session is shared by reference in the code; here a framer holds
  the counters it writes and the fetch orders it takes from. An error text is the value it is formatted from.
\<close>

section \<open>The orders fetches asked for\<close>

type_synonym fetch_orders = "(u64 \<times> fetch_group_order) list"

definition FETCH_ORDERS_CAP :: nat where
  "FETCH_ORDERS_CAP = 1024"

definition orders_record :: "u64 \<Rightarrow> fetch_group_order \<Rightarrow> fetch_orders \<Rightarrow> fetch_orders" where
  "orders_record request_id order known =
     (if FETCH_ORDERS_CAP \<le> length known \<and> map_of known request_id = None then known
      else AList.update request_id order known)"

definition orders_take :: "u64 \<Rightarrow> fetch_orders \<Rightarrow> fetch_group_order option \<times> fetch_orders" where
  "orders_take request_id known = (map_of known request_id, AList.delete request_id known)"

fun fetch_group_order_is_needed :: "draft_version \<Rightarrow> bool" where
  "fetch_group_order_is_needed d \<longleftrightarrow> d \<in> {Draft18, Draft19, Draft20, Draft21, Draft22}"

section \<open>State and results\<close>

definition UNBOUNDED_MEASURING_PAD :: nat where
  "UNBOUNDED_MEASURING_PAD = (2 ^ 64 - 1) div 2"

definition DEFAULT_MAX_BUFFERED :: nat where
  "DEFAULT_MAX_BUFFERED = 4 * 1024 * 1024"

datatype bypass_reason =
    UnsupportedSubgroupStreamType
  | NoFetchObjectCodec
  | FetchGroupOrderUnknown
  | ObjectBeyondMeasuringReach
  | DecodeError

datatype stream_header = HeaderSubgroup any_subgroup_header | HeaderFetch any_fetch_header

datatype framer_error =
    HeaderDecodeError codec_error
  | ObjectDecodeError codec_error
  | ElideFixupError codec_error

datatype framer_out =
    OutHeader stream_header bytes
  | OutObject object_meta bytes
  | OutPassthrough bytes
  | OutBypassed bypass_reason bool
  | OutNeedMore
  | OutError framer_error

record elide_cursor =
  ec_last_forwarded_id :: "u64 option"
  ec_fixup_pending :: bool

record pending_object =
  po_object_id :: u64
  po_index_in_stream :: u64

record subgroup_context =
  sc_track_alias :: u64
  sc_group_id :: u64
  sc_subgroup_id :: "u64 option"
  sc_publisher_priority :: "u8 option"

datatype stage = AwaitingHeader | StageSubgroup subgroup_reader | StageFetch fetch_reader fetch_writer

record framer_counters =
  fc_framers_created :: u64
  fc_header_polls :: u64
  fc_object_polls :: u64
  fc_object_ids_rewritten :: u64
  fc_streams_not_shapeable :: u64
  fc_objects_not_addressable :: u64

record framer =
  fr_stream_type :: data_stream_type
  fr_version :: draft_version
  fr_max_buffered :: nat
  fr_buf :: bytes
  fr_stage :: stage
  fr_context :: subgroup_context
  fr_passthrough_remaining :: u64
  fr_bypassed :: bool
  fr_pending_bypass :: "bypass_reason option"
  fr_index_in_stream :: u64
  fr_last_forwarded_id :: "u64 option"
  fr_fixup_pending :: bool
  fr_fetch_rollback :: "fetch_writer option"
  fr_pending_disposition :: "pending_object option"
  fr_counters :: framer_counters
  fr_fetch_orders :: "fetch_orders option"

definition default_context :: subgroup_context where
  "default_context =
     \<lparr> sc_track_alias = 0, sc_group_id = 0, sc_subgroup_id = None, sc_publisher_priority = None \<rparr>"

definition framer_with_recorder ::
  "data_stream_type \<Rightarrow> draft_version \<Rightarrow> nat \<Rightarrow> framer_counters \<Rightarrow> framer" where
  "framer_with_recorder stream_type d max_buffered counters =
     \<lparr> fr_stream_type = stream_type, fr_version = d, fr_max_buffered = max_buffered, fr_buf = [],
       fr_stage = AwaitingHeader, fr_context = default_context, fr_passthrough_remaining = 0,
       fr_bypassed = False, fr_pending_bypass = None, fr_index_in_stream = 0,
       fr_last_forwarded_id = None, fr_fixup_pending = False, fr_fetch_rollback = None,
       fr_pending_disposition = None,
       fr_counters = counters\<lparr> fc_framers_created := fc_framers_created counters + 1 \<rparr>,
       fr_fetch_orders = None \<rparr>"

definition with_fetch_group_orders :: "fetch_orders \<Rightarrow> framer \<Rightarrow> framer" where
  "with_fetch_group_orders orders f = f\<lparr> fr_fetch_orders := Some orders \<rparr>"

definition framer_new :: "data_stream_type \<Rightarrow> draft_version \<Rightarrow> nat \<Rightarrow> framer" where
  "framer_new stream_type d max_buffered =
     framer_with_recorder stream_type d max_buffered
       \<lparr> fc_framers_created = 0, fc_header_polls = 0, fc_object_polls = 0, fc_object_ids_rewritten = 0,
         fc_streams_not_shapeable = 0, fc_objects_not_addressable = 0 \<rparr>"

definition elide_cursor_of :: "framer \<Rightarrow> elide_cursor" where
  "elide_cursor_of f =
     \<lparr> ec_last_forwarded_id = fr_last_forwarded_id f, ec_fixup_pending = fr_fixup_pending f \<rparr>"

definition feed :: "bytes \<Rightarrow> framer \<Rightarrow> framer" where
  "feed chunk f = f\<lparr> fr_buf := fr_buf f @ chunk \<rparr>"

definition buffered :: "framer \<Rightarrow> nat" where
  "buffered f = length (fr_buf f)"

definition finish :: "framer \<Rightarrow> bytes option \<times> framer" where
  "finish f =
     (let f = f\<lparr> fr_passthrough_remaining := 0 \<rparr> in
      if fr_buf f = [] then (None, f) else (Some (fr_buf f), f\<lparr> fr_buf := [] \<rparr>))"

section \<open>Counting\<close>

definition note_header_poll :: "framer \<Rightarrow> framer" where
  "note_header_poll f =
     f\<lparr> fr_counters := (fr_counters f)\<lparr> fc_header_polls := fc_header_polls (fr_counters f) + 1 \<rparr> \<rparr>"

definition note_object_poll :: "framer \<Rightarrow> framer" where
  "note_object_poll f =
     f\<lparr> fr_counters := (fr_counters f)\<lparr> fc_object_polls := fc_object_polls (fr_counters f) + 1 \<rparr> \<rparr>"

definition note_object_id_rewritten :: "framer \<Rightarrow> framer" where
  "note_object_id_rewritten f =
     f\<lparr> fr_counters := (fr_counters f)
         \<lparr> fc_object_ids_rewritten := fc_object_ids_rewritten (fr_counters f) + 1 \<rparr> \<rparr>"

definition note_stream_not_shapeable :: "framer \<Rightarrow> framer" where
  "note_stream_not_shapeable f =
     f\<lparr> fr_counters := (fr_counters f)
         \<lparr> fc_streams_not_shapeable := fc_streams_not_shapeable (fr_counters f) + 1 \<rparr> \<rparr>"

definition note_object_not_addressable :: "framer \<Rightarrow> framer" where
  "note_object_not_addressable f =
     f\<lparr> fr_counters := (fr_counters f)
         \<lparr> fc_objects_not_addressable := fc_objects_not_addressable (fr_counters f) + 1 \<rparr> \<rparr>"

section \<open>Passing bytes through\<close>

definition emit_passthrough :: "u64 \<Rightarrow> framer \<Rightarrow> framer_out \<times> framer" where
  "emit_passthrough limit f =
     (if fr_buf f = [] then (OutNeedMore, f)
      else
        let take' = min (unat limit) (length (fr_buf f));
            f' = f\<lparr> fr_passthrough_remaining :=
                   saturating_sub64 (fr_passthrough_remaining f) (of_nat take') \<rparr>
        in (OutPassthrough (take take' (fr_buf f)), f'\<lparr> fr_buf := drop take' (fr_buf f') \<rparr>))"

definition latch_bypass :: "bypass_reason \<Rightarrow> framer \<Rightarrow> framer" where
  "latch_bypass reason f =
     (let f = (if \<not> fr_bypassed f
               then note_stream_not_shapeable (f\<lparr> fr_bypassed := True, fr_pending_bypass := Some reason \<rparr>)
               else f)
      in f\<lparr> fr_passthrough_remaining := 0 \<rparr>)"

definition U64_MAX :: u64 where
  "U64_MAX = - 1"

section \<open>The header\<close>

definition subgroup_context_of :: "any_subgroup_header \<Rightarrow> subgroup_context" where
  "subgroup_context_of h =
     \<lparr> sc_track_alias = any_track_alias h, sc_group_id = any_group_id h,
       sc_subgroup_id = any_subgroup_id h, sc_publisher_priority = any_publisher_priority h \<rparr>"

definition fetch_stage :: "any_fetch_header \<Rightarrow> framer \<Rightarrow> (bypass_reason + stage) \<times> framer" where
  "fetch_stage h f =
     (let (order, f) =
        (if fetch_group_order_is_needed (fr_version f) then
           case fr_fetch_orders f of
             None \<Rightarrow> (Inl FetchGroupOrderUnknown, f)
           | Some orders \<Rightarrow>
               (case orders_take (any_request_id h) orders of
                  (None, orders) \<Rightarrow> (Inl FetchGroupOrderUnknown, f\<lparr> fr_fetch_orders := Some orders \<rparr>)
                | (Some order, orders) \<Rightarrow> (Inr (Some order), f\<lparr> fr_fetch_orders := Some orders \<rparr>))
         else (Inr None, f))
      in
        case order of
          Inl reason \<Rightarrow> (Inl reason, f)
        | Inr order \<Rightarrow>
            (let order = (case order of Some o' \<Rightarrow> o' | None \<Rightarrow> FetchAscending)
             in case (fetch_reader_new h order, fetch_writer_new h order) of
                  (Inr reader, Inr writer) \<Rightarrow> (Inr (StageFetch reader writer), f)
                | _ \<Rightarrow> (Inl NoFetchObjectCodec, f)))"

definition decode_header :: "framer \<Rightarrow> codec_error + stream_header \<times> bytes" where
  "decode_header f =
     (case fr_stream_type f of
        StreamSubgroup \<Rightarrow>
          rd (any_subgroup_decode_stream (fr_version f) (fr_buf f)) (\<lambda>h bs. Inr (HeaderSubgroup h, bs))
      | StreamFetch \<Rightarrow>
          rd (any_fetch_decode_stream (fr_version f) (fr_buf f)) (\<lambda>h bs. Inr (HeaderFetch h, bs)))"

definition enter_stage :: "stream_header \<Rightarrow> framer \<Rightarrow> framer" where
  "enter_stage header f =
     (case header of
        HeaderSubgroup h \<Rightarrow>
          (case subgroup_reader_new h of
             Inr reader \<Rightarrow> f\<lparr> fr_context := subgroup_context_of h, fr_stage := StageSubgroup reader \<rparr>
           | Inl _ \<Rightarrow> latch_bypass UnsupportedSubgroupStreamType f)
      | HeaderFetch h \<Rightarrow>
          (case fetch_stage h f of
             (Inr stage, f) \<Rightarrow> f\<lparr> fr_stage := stage \<rparr>
           | (Inl reason, f) \<Rightarrow> latch_bypass reason f))"

definition poll_header :: "framer \<Rightarrow> framer_out \<times> framer" where
  "poll_header f =
     (let f = note_header_poll f in
      if fr_buf f = [] then (OutNeedMore, f)
      else case decode_header f of
        Inr (header, cursor) \<Rightarrow>
          (let consumed = length (fr_buf f) - length cursor;
               f = enter_stage header f
           in (OutHeader header (take consumed (fr_buf f)), f\<lparr> fr_buf := drop consumed (fr_buf f) \<rparr>))
      | Inl e \<Rightarrow>
          if is_incomplete e then
            (if length (fr_buf f) \<ge> fr_max_buffered f
             then emit_passthrough U64_MAX (latch_bypass ObjectBeyondMeasuringReach f)
             else (OutNeedMore, f))
          else (OutError (HeaderDecodeError e), latch_bypass DecodeError f))"

section \<open>Objects\<close>

datatype probe = ProbeSubgroup subgroup_reader | ProbeFetch fetch_reader

datatype probe_meta = MetaSub any_subgroup_meta | MetaFetch any_fetch_meta

fun meta_object_id :: "probe_meta \<Rightarrow> u64" where
  "meta_object_id (MetaSub m) = asm_object_id m"
| "meta_object_id (MetaFetch m) = afm_object_id m"

fun meta_wire_len :: "probe_meta \<Rightarrow> u64" where
  "meta_wire_len (MetaSub m) = asm_wire_len m"
| "meta_wire_len (MetaFetch m) = afm_wire_len m"

fun meta_payload_length :: "probe_meta \<Rightarrow> u64" where
  "meta_payload_length (MetaSub m) = asm_payload_length m"
| "meta_payload_length (MetaFetch m) = afm_payload_length m"

text \<open>The reading both polls make with a clone of the stage's reader; the awaiting stage is the
  callers' early return.\<close>

type_synonym probed = "(probe \<times> probe_meta \<times> fetch_frame option) option"

fun probe_stage :: "stage \<Rightarrow> bytes \<Rightarrow> codec_error + probed \<times> bytes" where
  "probe_stage (StageSubgroup reader) bs =
     rd (sr_read_meta reader bs) (\<lambda>(m, probe) bs. Inr (Some (ProbeSubgroup probe, MetaSub m, None), bs))"
| "probe_stage (StageFetch reader writer) bs =
     rd (fr_read_frame reader bs) (\<lambda>frame bs.
       Inr (Some (ProbeFetch reader, MetaFetch (ff_meta frame), Some frame), bs))"
| "probe_stage AwaitingHeader bs = Inr (None, bs)"

definition commit_disposition :: "framer \<Rightarrow> framer" where
  "commit_disposition f =
     (case fr_pending_disposition f of
        Some p \<Rightarrow> f\<lparr> fr_pending_disposition := None, fr_last_forwarded_id := Some (po_object_id p),
                    fr_fetch_rollback := None \<rparr>
      | None \<Rightarrow> f)"

definition framer_delta_encodes :: "framer \<Rightarrow> bool" where
  "framer_delta_encodes f \<longleftrightarrow>
     fr_stream_type f = StreamSubgroup
     \<and> fr_version f \<in> {Draft14, Draft15, Draft16, Draft17, Draft18, Draft19, Draft20, Draft21, Draft22}"

definition elide_owes_a_fixup :: "framer \<Rightarrow> bool" where
  "elide_owes_a_fixup f \<longleftrightarrow>
     (case fr_stream_type f of
        StreamSubgroup \<Rightarrow> framer_delta_encodes f
      | StreamFetch \<Rightarrow>
          fr_version f \<in> {Draft15, Draft16, Draft17, Draft18, Draft19, Draft20, Draft21, Draft22})"

text \<open>An answer with the framer as the call leaves it.\<close>

definition reemit_fetch_frame ::
  "nat \<Rightarrow> fetch_frame \<Rightarrow> framer \<Rightarrow> (codec_error + bytes option) \<times> framer" where
  "reemit_fetch_frame len frame f =
     (case fr_stage f of
        StageFetch reader writer \<Rightarrow>
          (let outcome = reemit_fetch_object writer frame (take len (fr_buf f));
               f = f\<lparr> fr_stage := StageFetch reader (case outcome of Inr (_, w) \<Rightarrow> w | Inl _ \<Rightarrow> writer),
                     fr_fetch_rollback := Some writer \<rparr>
           in case outcome of
                Inr ((Unchanged, out), _) \<Rightarrow> (Inr None, f\<lparr> fr_fixup_pending := False \<rparr>)
              | Inr ((Reframed _ _, out), _) \<Rightarrow>
                  (Inr (Some out), note_object_id_rewritten (f\<lparr> fr_fixup_pending := False \<rparr>))
              | Inl e \<Rightarrow> (Inl e, f))
      | _ \<Rightarrow> (Inr None, f))"

definition apply_elide_fixup ::
  "nat \<Rightarrow> u64 \<Rightarrow> fetch_frame option \<Rightarrow> framer \<Rightarrow> (codec_error + bytes option) \<times> framer" where
  "apply_elide_fixup len object_id frame f =
     (case frame of
        Some frame \<Rightarrow> reemit_fetch_frame len frame f
      | None \<Rightarrow>
          if \<not> fr_fixup_pending f \<or> \<not> framer_delta_encodes f then (Inr None, f)
          else
            case reemit_subgroup_object (fr_version f) (fr_last_forwarded_id f) object_id
                   (take len (fr_buf f)) of
              Inl e \<Rightarrow> (Inl e, f)
            | Inr (_, out) \<Rightarrow> (Inr (Some out), note_object_id_rewritten (f\<lparr> fr_fixup_pending := False \<rparr>)))"

definition measuring_pad :: "framer \<Rightarrow> nat" where
  "measuring_pad f =
     (let copy_free =
        (case fr_stage f of
           StageSubgroup _ \<Rightarrow>
             fr_version f \<in> {Draft14, Draft15, Draft16, Draft17, Draft18, Draft19, Draft20, Draft21, Draft22}
         | StageFetch _ _ \<Rightarrow> fr_version f = Draft14
         | AwaitingHeader \<Rightarrow> False)
      in if copy_free then UNBOUNDED_MEASURING_PAD else fr_max_buffered f)"

fun commit :: "probe \<Rightarrow> framer \<Rightarrow> framer" where
  "commit probe f =
     (case (fr_stage f, probe) of
        (StageSubgroup _, ProbeSubgroup reader) \<Rightarrow> f\<lparr> fr_stage := StageSubgroup reader \<rparr>
      | (StageFetch _ writer, ProbeFetch reader) \<Rightarrow> f\<lparr> fr_stage := StageFetch reader writer \<rparr>
      | _ \<Rightarrow> f)"

fun object_meta_of :: "probe_meta \<Rightarrow> framer \<Rightarrow> object_meta" where
  "object_meta_of (MetaSub m) f =
     \<lparr> om_draft = fr_version f, om_stream_kind = StreamSubgroup,
       om_track_alias = Some (sc_track_alias (fr_context f)), om_group_id = sc_group_id (fr_context f),
       om_subgroup_id = sc_subgroup_id (fr_context f), om_object_id = asm_object_id m,
       om_publisher_priority = sc_publisher_priority (fr_context f),
       om_index_in_stream = fr_index_in_stream f, om_payload_len = asm_payload_length m,
       om_status = asm_status m, om_end_of_range = None \<rparr>"
| "object_meta_of (MetaFetch m) f =
     \<lparr> om_draft = fr_version f, om_stream_kind = StreamFetch, om_track_alias = None,
       om_group_id = afm_group_id m,
       om_subgroup_id = (if afm_has_subgroup_id m then Some (afm_subgroup_id m) else None),
       om_object_id = afm_object_id m, om_publisher_priority = Some (afm_publisher_priority m),
       om_index_in_stream = fr_index_in_stream f, om_payload_len = afm_payload_length m,
       om_status = afm_status m, om_end_of_range = afm_end_of_range m \<rparr>"

text \<open>The buffered bytes followed by padding.\<close>

definition padded :: "bytes \<Rightarrow> nat \<Rightarrow> bytes" where
  "padded real pad = real @ replicate pad 0"

definition arm_disposition :: "u64 \<Rightarrow> framer \<Rightarrow> framer" where
  "arm_disposition object_id f =
     f\<lparr> fr_pending_disposition :=
          Some \<lparr> po_object_id = object_id, po_index_in_stream = fr_index_in_stream f \<rparr>,
        fr_index_in_stream := fr_index_in_stream f + 1 \<rparr>"

text \<open>The ends of the two polls: the first chunk of an object too large to buffer, and a whole object.\<close>

definition emit_first_chunk :: "probe \<Rightarrow> probe_meta \<Rightarrow> bytes option \<Rightarrow> framer \<Rightarrow> framer_out \<times> framer" where
  "emit_first_chunk probe meta rewritten f =
     (let have' = of_nat (length (fr_buf f));
          f = note_object_not_addressable (commit probe f);
          f = f\<lparr> fr_passthrough_remaining := meta_wire_len meta - have' \<rparr>;
          f = arm_disposition (meta_object_id meta) f
      in (OutPassthrough (case rewritten of Some out \<Rightarrow> out | None \<Rightarrow> fr_buf f), f\<lparr> fr_buf := [] \<rparr>))"

definition emit_object ::
  "nat \<Rightarrow> probe \<Rightarrow> probe_meta \<Rightarrow> bytes option \<Rightarrow> framer \<Rightarrow> framer_out \<times> framer" where
  "emit_object consumed probe meta rewritten f =
     (let source = take consumed (fr_buf f);
          f = f\<lparr> fr_buf := drop consumed (fr_buf f) \<rparr>;
          raw = (case rewritten of Some out \<Rightarrow> out | None \<Rightarrow> source);
          f = commit probe f;
          (out, f) = (if consumed > fr_max_buffered f
                      then (OutPassthrough raw, note_object_not_addressable f)
                      else (OutObject (object_meta_of meta f) raw, f))
      in (out, arm_disposition (meta_object_id meta) f))"

definition poll_oversized :: "framer \<Rightarrow> framer_out \<times> framer" where
  "poll_oversized f =
     (let abandon = emit_passthrough U64_MAX (latch_bypass ObjectBeyondMeasuringReach f) in
      case probe_stage (fr_stage f) (padded (fr_buf f) (measuring_pad f)) of
        Inl _ \<Rightarrow> abandon
      | Inr (None, _) \<Rightarrow> (OutNeedMore, f)
      | Inr (Some (probe, meta, frame), _) \<Rightarrow>
          (let framing_len = meta_wire_len meta - meta_payload_length meta;
               have' = of_nat (length (fr_buf f))
           in if framing_len > have' \<or> meta_wire_len meta \<le> have' then abandon
              else case apply_elide_fixup (length (fr_buf f)) (meta_object_id meta) frame f of
                (Inl e, f) \<Rightarrow> (OutError (ElideFixupError e), latch_bypass DecodeError f)
              | (Inr rewritten, f) \<Rightarrow> emit_first_chunk probe meta rewritten f))"

definition poll_object :: "framer \<Rightarrow> framer_out \<times> framer" where
  "poll_object f =
     (let f = commit_disposition (note_object_poll f) in
      if fr_buf f = [] then (OutNeedMore, f)
      else case probe_stage (fr_stage f) (fr_buf f) of
        Inr (None, _) \<Rightarrow> (OutNeedMore, f)
      | Inr (Some (probe, meta, frame), cursor) \<Rightarrow>
          (let consumed = length (fr_buf f) - length cursor in
           case apply_elide_fixup consumed (meta_object_id meta) frame f of
             (Inl e, f) \<Rightarrow> (OutError (ElideFixupError e), latch_bypass DecodeError f)
           | (Inr rewritten, f) \<Rightarrow> emit_object consumed probe meta rewritten f)
      | Inl e \<Rightarrow>
          if is_incomplete e then
            (if length (fr_buf f) < fr_max_buffered f then (OutNeedMore, f) else poll_oversized f)
          else (OutError (ObjectDecodeError e), latch_bypass DecodeError f))"

definition poll :: "framer \<Rightarrow> framer_out \<times> framer" where
  "poll f =
     (case fr_pending_bypass f of
        Some reason \<Rightarrow> (OutBypassed reason (fr_fixup_pending f), f\<lparr> fr_pending_bypass := None \<rparr>)
      | None \<Rightarrow>
          if fr_passthrough_remaining f > 0 then emit_passthrough (fr_passthrough_remaining f) f
          else if fr_bypassed f then emit_passthrough U64_MAX f
          else case fr_stage f of
            AwaitingHeader \<Rightarrow> poll_header f
          | _ \<Rightarrow> poll_object f)"

text \<open>The caller dropped the object it was handed last. The assertion that it names that object is a
  \<open>debug_assert!\<close>, absent from a release build.\<close>

definition note_elided :: "object_meta \<Rightarrow> framer \<Rightarrow> framer" where
  "note_elided m f =
     (let pending = fr_pending_disposition f;
          f = f\<lparr> fr_pending_disposition := None \<rparr>
      in if pending = None then f
         else
           let f = (if elide_owes_a_fixup f then f\<lparr> fr_fixup_pending := True \<rparr> else f)
           in case fr_fetch_rollback f of
                Some rollback \<Rightarrow>
                  (let f = f\<lparr> fr_fetch_rollback := None \<rparr>
                   in case fr_stage f of
                        StageFetch reader writer \<Rightarrow> f\<lparr> fr_stage := StageFetch reader rollback \<rparr>
                      | _ \<Rightarrow> f)
              | None \<Rightarrow> f)"

end
