(* ===== verification/Framer_Laws.thy ===== *)
theory Framer_Laws
  imports Framer
begin

text \<open>
  Laws of the framer: what every reader it uses does when more bytes arrive, what a poll does to the bytes,
  how often a stream is given up, that polling ends, and what a dropped object costs the ones behind it.
\<close>

section \<open>Readers\<close>

lemma steady_eq: "(\<And>bs. f bs = g bs) \<Longrightarrow> steady (\<lambda>n. g) \<Longrightarrow> steady (\<lambda>n. f)"
  by (subgoal_tac "f = g") auto

lemma steady_read_status [steady_intros]: "steady (\<lambda>n bs. read_status len bs)"
  unfolding read_status_def by (intro steady_intros)

lemma steady_object_decode [steady_intros]: "steady (\<lambda>n. object_decode)"
  unfolding object_decode_def by (intro steady_intros)

lemma steady_fetch_object_decode [steady_intros]: "steady (\<lambda>n. fetch_object_decode)"
  unfolding fetch_object_decode_def by (intro steady_intros)

lemma steady_sg07_read_meta [steady_intros]: "steady (\<lambda>n. sg07_read_meta)"
  unfolding sg07_read_meta_def by (intro steady_with_start steady_intros)

lemma steady_fo07_read_meta [steady_intros]: "steady (\<lambda>n. fo07_read_meta)"
  unfolding fo07_read_meta_def by (intro steady_with_start steady_intros)

lemma steady_sg14_read_meta [steady_intros]: "steady (\<lambda>n bs. sg14_read_meta r bs)"
  unfolding sg14_read_meta_def by (intro steady_intros steady_read_meta14)

lemma steady_fo14_read_meta [steady_intros]: "steady (\<lambda>n. fo14_read_meta)"
  unfolding fo14_read_meta_def by (intro steady_intros steady_fetch_meta14)

lemma steady_sr_read_meta: "steady (\<lambda>n. sr_read_meta r)"
proof (cases r)
  case SrDraft07
  show ?thesis
    unfolding SrDraft07 by (rule steady_eq [OF sr_read_meta.simps(1)]) (intro steady_intros)
next
  case (SrDraft14 r')
  show ?thesis
    unfolding SrDraft14 by (rule steady_eq [OF sr_read_meta.simps(2)]) (intro steady_intros)
qed

lemma steady_fr_read_frame: "steady (\<lambda>n. fr_read_frame r)"
proof (cases r)
  case FrDraft07
  show ?thesis
    unfolding FrDraft07 by (rule steady_eq [OF fr_read_frame.simps(1)]) (intro steady_intros)
next
  case FrDraft14
  show ?thesis
    unfolding FrDraft14 by (rule steady_eq [OF fr_read_frame.simps(2)]) (intro steady_intros)
qed

lemma steady_probe: "steady (\<lambda>n. probe_stage st)"
proof (cases st)
  case AwaitingHeader
  show ?thesis
    unfolding AwaitingHeader by (rule steady_eq [OF probe_stage.simps(3)]) (intro steady_intros)
next
  case (StageSubgroup r)
  show ?thesis
    unfolding StageSubgroup by (rule steady_eq [OF probe_stage.simps(1)])
      (intro steady_intros steady_sr_read_meta)
next
  case (StageFetch r w)
  show ?thesis
    unfolding StageFetch by (rule steady_eq [OF probe_stage.simps(2)])
      (intro steady_intros steady_fr_read_frame)
qed

lemma steady_subgroup_decode [steady_intros]: "steady (\<lambda>n. subgroup_decode)"
  unfolding subgroup_decode_def by (intro steady_intros)

lemma steady_subgroup_decode_stream [steady_intros]: "steady (\<lambda>n. subgroup_decode_stream)"
  unfolding subgroup_decode_stream_def by (intro steady_intros)

lemma steady_subgroup14_decode [steady_intros]: "steady (\<lambda>n. subgroup14_decode)"
  unfolding subgroup14_decode_def by (intro steady_intros)

lemma steady_any_subgroup_decode: "steady (\<lambda>n. any_subgroup_decode_stream d)"
  by (rule steady_eq [OF any_subgroup_decode_stream_def])
    (cases d; simp only: draft_version.case; intro steady_intros)

lemma steady_fetch_header_decode [steady_intros]: "steady (\<lambda>n. fetch_header_decode_stream)"
  unfolding fetch_header_decode_stream_def fetch_header_decode_def by (intro steady_intros)

lemma steady_fetch_header14_decode [steady_intros]: "steady (\<lambda>n. fetch_header14_decode)"
  unfolding fetch_header14_decode_def by (intro steady_intros)

lemma steady_any_fetch_decode: "steady (\<lambda>n. any_fetch_decode_stream d)"
  by (rule steady_eq [OF any_fetch_decode_stream_def])
    (cases d; simp only: draft_version.case; intro steady_intros)

lemma steady_split:
  assumes "steady (\<lambda>n. f)" "f bs = Inr (x, rest)"
  shows "take (length bs - length rest) bs @ rest = bs" "drop (length bs - length rest) bs = rest"
    "f (take (length bs - length rest) bs @ z) = Inr (x, z)"
proof -
  obtain u where u: "bs = u @ rest" "\<forall>z. f (u @ z) = Inr (x, z)"
    using steady_cut [OF assms order_refl] by blast
  then show "take (length bs - length rest) bs @ rest = bs" "drop (length bs - length rest) bs = rest"
    "f (take (length bs - length rest) bs @ z) = Inr (x, z)"
    by simp_all
qed

section \<open>The fields each step leaves alone\<close>

fun out_bytes :: "framer_out \<Rightarrow> bytes" where
  "out_bytes (OutHeader h raw) = raw"
| "out_bytes (OutObject m raw) = raw"
| "out_bytes (OutPassthrough raw) = raw"
| "out_bytes _ = []"

lemmas note_defs = note_header_poll_def note_object_poll_def note_object_id_rewritten_def
  note_stream_not_shapeable_def note_object_not_addressable_def

lemma latch_fields [simp]:
  "fr_buf (latch_bypass r f) = fr_buf f" "fr_fixup_pending (latch_bypass r f) = fr_fixup_pending f"
  "fr_stage (latch_bypass r f) = fr_stage f" "fr_bypassed (latch_bypass r f)"
  "fr_passthrough_remaining (latch_bypass r f) = 0"
  by (simp_all add: latch_bypass_def note_defs Let_def)

lemma note_fields [simp]:
  "fr_buf (note_header_poll f) = fr_buf f" "fr_buf (note_object_poll f) = fr_buf f"
  "fr_buf (note_object_not_addressable f) = fr_buf f" "fr_buf (note_object_id_rewritten f) = fr_buf f"
  "fr_fixup_pending (note_header_poll f) = fr_fixup_pending f"
  "fr_fixup_pending (note_object_poll f) = fr_fixup_pending f"
  "fr_fixup_pending (note_object_not_addressable f) = fr_fixup_pending f"
  "fr_fixup_pending (note_object_id_rewritten f) = fr_fixup_pending f"
  by (simp_all add: note_defs)

lemma commit_fields [simp]:
  "fr_buf (commit p f) = fr_buf f" "fr_fixup_pending (commit p f) = fr_fixup_pending f"
  by (auto split: stage.splits probe.splits)

declare commit.simps [simp del]

lemma disposition_fields [simp]:
  "fr_buf (commit_disposition f) = fr_buf f" "fr_fixup_pending (commit_disposition f) = fr_fixup_pending f"
  "fr_buf (arm_disposition i f) = fr_buf f" "fr_fixup_pending (arm_disposition i f) = fr_fixup_pending f"
  by (simp_all add: commit_disposition_def arm_disposition_def split: option.splits)

lemma enter_fields [simp]:
  "fr_buf (enter_stage h f) = fr_buf f" "fr_fixup_pending (enter_stage h f) = fr_fixup_pending f"
  by (auto simp: enter_stage_def fetch_stage_def Let_def
      split: stream_header.splits sum.splits option.splits prod.splits if_splits)

lemma fetch_frames_unchanged:
  "reemit_fetch_object w fm raw = Inr ((c, out), w') \<Longrightarrow> c = Unchanged \<and> out = [] \<and> w' = w"
  by (auto simp: reemit_fetch_object_def split: if_splits fetch_writer.splits fetch_frame_shape.splits)

lemma reemit_fetch_fields:
  assumes "reemit_fetch_frame len fm f = (r, f')"
  shows "fr_buf f' = fr_buf f \<and> (fr_fixup_pending f' \<longrightarrow> fr_fixup_pending f) \<and> (\<forall>x. r = Inr x \<longrightarrow> x = None)"
proof (cases "fr_stage f")
  case (StageFetch reader w)
  show ?thesis
  proof (cases "reemit_fetch_object w fm (take len (fr_buf f))")
    case (Inl e)
    then show ?thesis
      using assms by (auto simp: reemit_fetch_frame_def StageFetch)
  next
    case (Inr p)
    then obtain c out w' where p: "p = ((c, out), w')"
      by (metis surj_pair)
    then have "c = Unchanged"
      using fetch_frames_unchanged Inr by blast
    then show ?thesis
      using assms by (auto simp: reemit_fetch_frame_def StageFetch Inr p)
  qed
qed (use assms in \<open>auto simp: reemit_fetch_frame_def\<close>)

lemma fixup_fields:
  assumes "apply_elide_fixup len i fm f = (r, f')"
  shows "fr_buf f' = fr_buf f" "fr_fixup_pending f' \<longrightarrow> fr_fixup_pending f"
    "\<not> fr_fixup_pending f \<Longrightarrow> r = Inr rewritten \<Longrightarrow> rewritten = None"
proof -
  have "fr_buf f' = fr_buf f \<and> (fr_fixup_pending f' \<longrightarrow> fr_fixup_pending f)
      \<and> (\<not> fr_fixup_pending f \<longrightarrow> (\<forall>x. r = Inr x \<longrightarrow> x = None))"
  proof (cases fm)
    case None
    then show ?thesis
      using assms by (auto simp: apply_elide_fixup_def split: sum.splits if_splits)
  next
    case (Some fm')
    then show ?thesis
      using assms reemit_fetch_fields [of len fm' f r f'] by (auto simp: apply_elide_fixup_def)
  qed
  then show "fr_buf f' = fr_buf f" "fr_fixup_pending f' \<longrightarrow> fr_fixup_pending f"
    "\<not> fr_fixup_pending f \<Longrightarrow> r = Inr rewritten \<Longrightarrow> rewritten = None"
    by auto
qed

section \<open>Nothing is lost or invented while nothing is dropped\<close>

lemma emit_conserves:
  assumes "emit_passthrough l f = (out, f')"
  shows "out_bytes out @ fr_buf f' = fr_buf f" "fr_fixup_pending f' = fr_fixup_pending f"
  using assms by (auto simp: emit_passthrough_def Let_def split: if_splits)

lemma poll_header_conserves:
  assumes "poll_header f = (out, f')"
  shows "out_bytes out @ fr_buf f' = fr_buf f" "fr_fixup_pending f' = fr_fixup_pending f"
  using assms by (auto simp: poll_header_def Let_def dest: emit_conserves
      split: if_splits sum.splits prod.splits)

lemma emit_first_chunk_conserves:
  "emit_first_chunk p m None f = (out, f') \<Longrightarrow>
     out_bytes out @ fr_buf f' = fr_buf f \<and> fr_fixup_pending f' = fr_fixup_pending f"
  by (auto simp: emit_first_chunk_def Let_def)

lemma emit_object_conserves:
  assumes "emit_object n p m None f = (out, f')"
  shows "out_bytes out @ fr_buf f' = fr_buf f \<and> fr_fixup_pending f' = fr_fixup_pending f"
  using assms by (cases "n > fr_max_buffered (commit p (f\<lparr> fr_buf := drop n (fr_buf f) \<rparr>))")
    (auto simp: emit_object_def Let_def)

lemma abandon_conserves:
  "emit_passthrough l (latch_bypass r f) = (out, f') \<Longrightarrow>
     out_bytes out @ fr_buf f' = fr_buf f \<and> fr_fixup_pending f' = fr_fixup_pending f"
  using emit_conserves [of l "latch_bypass r f" out f'] by simp

lemma probed_cases:
  obtains (fails) e where "probe_stage st bs = Inl e"
  | (none) rest where "probe_stage st bs = Inr (None, rest)"
  | (some) p m fm rest where "probe_stage st bs = Inr (Some (p, m, fm), rest)"
  by (cases "probe_stage st bs") (metis option.exhaust surj_pair)+

lemma poll_object_cases:
  assumes "poll_object f = (out, f')" "g = commit_disposition (note_object_poll f)"
  obtains
    (waits) "out = OutNeedMore" "f' = g"
      "fr_buf f = [] \<or> (\<exists>rest. probe_stage (fr_stage g) (fr_buf f) = Inr (None, rest))
       \<or> length (fr_buf f) < fr_max_buffered g \<and> (\<exists>e. probe_stage (fr_stage g) (fr_buf f) = Inl e \<and> is_incomplete e)"
  | (oversized) e where "fr_buf f \<noteq> []" "probe_stage (fr_stage g) (fr_buf f) = Inl e" "is_incomplete e"
      "\<not> length (fr_buf f) < fr_max_buffered g" "poll_oversized g = (out, f')"
  | (refused) e where "fr_buf f \<noteq> []" "probe_stage (fr_stage g) (fr_buf f) = Inl e" "\<not> is_incomplete e"
      "out = OutError (ObjectDecodeError e)" "f' = latch_bypass DecodeError g"
  | (unfixed) p m fm rest e h where "fr_buf f \<noteq> []" "probe_stage (fr_stage g) (fr_buf f) = Inr (Some (p, m, fm), rest)"
      "apply_elide_fixup (length (fr_buf f) - length rest) (meta_object_id m) fm g = (Inl e, h)"
      "out = OutError (ElideFixupError e)" "f' = latch_bypass DecodeError h"
  | (object) p m fm rest y h where "fr_buf f \<noteq> []" "probe_stage (fr_stage g) (fr_buf f) = Inr (Some (p, m, fm), rest)"
      "apply_elide_fixup (length (fr_buf f) - length rest) (meta_object_id m) fm g = (Inr y, h)"
      "emit_object (length (fr_buf f) - length rest) p m y h = (out, f')"
proof (cases "fr_buf f = []")
  case True
  then show thesis
    using assms by (intro waits) (simp_all add: poll_object_def Let_def)
next
  case False
  have g: "fr_buf g = fr_buf f"
    by (simp add: assms(2))
  note def = assms(1) [unfolded poll_object_def Let_def, folded assms(2), unfolded g]
  show thesis
  proof (cases rule: probed_cases [of "fr_stage g" "fr_buf f"])
    case (fails e)
    then have r: "(if is_incomplete e then if length (fr_buf f) < fr_max_buffered g then (OutNeedMore, g) else poll_oversized g
        else (OutError (ObjectDecodeError e), latch_bypass DecodeError g)) = (out, f')"
      using def False by simp
    consider "is_incomplete e" "length (fr_buf f) < fr_max_buffered g"
      | "is_incomplete e" "\<not> length (fr_buf f) < fr_max_buffered g" | "\<not> is_incomplete e"
      by blast
    then show thesis
    proof cases
      case 1
      then show thesis
        using r fails by (intro waits) auto
    next
      case 2
      then show thesis
        using r fails False by (intro oversized) auto
    next
      case 3
      then show thesis
        using r fails False by (intro refused) auto
    qed
  next
    case (none rest)
    then show thesis
      using def False by (intro waits) auto
  next
    case (some p m fm rest)
    obtain y h where a: "apply_elide_fixup (length (fr_buf f) - length rest) (meta_object_id m) fm g = (y, h)"
      by fastforce
    show thesis
    proof (cases y)
      case (Inl e)
      then show thesis
        using def False some a by (intro unfixed [OF False some, of e h]) auto
    next
      case (Inr x)
      then show thesis
        using def False some a by (intro object [OF False some, of x h]) auto
    qed
  qed
qed

lemma poll_oversized_cases:
  assumes "poll_oversized f = (out, f')"
  obtains
    (abandons) "emit_passthrough U64_MAX (latch_bypass ObjectBeyondMeasuringReach f) = (out, f')"
  | (waits) rest where "probe_stage (fr_stage f) (padded (fr_buf f) (measuring_pad f)) = Inr (None, rest)"
      "out = OutNeedMore" "f' = f"
  | (unfixed) p m fm rest e h where
      "probe_stage (fr_stage f) (padded (fr_buf f) (measuring_pad f)) = Inr (Some (p, m, fm), rest)"
      "apply_elide_fixup (length (fr_buf f)) (meta_object_id m) fm f = (Inl e, h)"
      "out = OutError (ElideFixupError e)" "f' = latch_bypass DecodeError h"
  | (chunk) p m fm rest y h where
      "probe_stage (fr_stage f) (padded (fr_buf f) (measuring_pad f)) = Inr (Some (p, m, fm), rest)"
      "meta_wire_len m - meta_payload_length m \<le> of_nat (length (fr_buf f))"
      "of_nat (length (fr_buf f)) < meta_wire_len m"
      "apply_elide_fixup (length (fr_buf f)) (meta_object_id m) fm f = (Inr y, h)"
      "emit_first_chunk p m y h = (out, f')"
proof (cases rule: probed_cases [of "fr_stage f" "padded (fr_buf f) (measuring_pad f)"])
  case (fails e)
  then show thesis
    using assms by (intro abandons) (simp add: poll_oversized_def)
next
  case (none rest)
  then show thesis
    using assms by (intro waits [OF none]) (simp_all add: poll_oversized_def)
next
  case (some p m fm rest)
  show thesis
  proof (cases "meta_wire_len m - meta_payload_length m > of_nat (length (fr_buf f))
      \<or> meta_wire_len m \<le> of_nat (length (fr_buf f))")
    case True
    then show thesis
      using assms some by (intro abandons) (simp add: poll_oversized_def)
  next
    case False
    obtain y h where a: "apply_elide_fixup (length (fr_buf f)) (meta_object_id m) fm f = (y, h)"
      by fastforce
    show thesis
    proof (cases y)
      case (Inl e)
      then show thesis
        using assms some a False by (intro unfixed [OF some, of e h]) (auto simp: poll_oversized_def)
    next
      case (Inr x)
      then show thesis
        using assms some a False by (intro chunk [OF some _ _, of x h]) (auto simp: poll_oversized_def)
    qed
  qed
qed

lemma poll_oversized_conserves:
  assumes "poll_oversized f = (out, f')" "\<not> fr_fixup_pending f"
  shows "out_bytes out @ fr_buf f' = fr_buf f \<and> \<not> fr_fixup_pending f'"
  using assms(1)
proof (cases rule: poll_oversized_cases)
  case abandons
  then show ?thesis
    using abandon_conserves assms(2) by blast
next
  case (chunk p m fm rest y h)
  then have "y = None"
    using fixup_fields(3) assms(2) by blast
  then show ?thesis
    using emit_first_chunk_conserves [of p m h out f'] chunk fixup_fields(1, 2) [OF chunk(4)] assms(2) by simp
qed (use assms(2) in \<open>auto dest: fixup_fields\<close>)

lemma poll_object_conserves:
  assumes "poll_object f = (out, f')" "\<not> fr_fixup_pending f"
  shows "out_bytes out @ fr_buf f' = fr_buf f \<and> \<not> fr_fixup_pending f'"
  using assms(1) refl
proof (cases rule: poll_object_cases)
  case (oversized e)
  then show ?thesis
    using poll_oversized_conserves [OF oversized(5)] assms(2) by simp
next
  case (object p m fm rest y h)
  then have "y = None"
    using fixup_fields(3) [OF object(3)] assms(2) by simp
  then show ?thesis
    using emit_object_conserves [of _ p m h out f'] object fixup_fields(1, 2) [OF object(3)] assms(2) by simp
qed (use assms(2) in \<open>auto dest: fixup_fields\<close>)

lemma poll_conserves:
  assumes "poll f = (out, f')" "\<not> fr_fixup_pending f"
  shows "out_bytes out @ fr_buf f' = fr_buf f \<and> \<not> fr_fixup_pending f'"
  using assms by (auto simp: poll_def dest: emit_conserves poll_header_conserves poll_object_conserves
      split: if_splits stage.splits option.splits)

datatype framer_call = Feed bytes | Poll

fun framer_run :: "framer_call list \<Rightarrow> framer \<Rightarrow> framer_out list \<times> framer" where
  "framer_run [] f = ([], f)"
| "framer_run (Feed chunk # cs) f = framer_run cs (feed chunk f)"
| "framer_run (Poll # cs) f =
     (let (out, f) = poll f; (outs, f) = framer_run cs f in (out # outs, f))"

fun fed :: "framer_call list \<Rightarrow> bytes" where
  "fed [] = []"
| "fed (Feed chunk # cs) = chunk @ fed cs"
| "fed (Poll # cs) = fed cs"

lemma run_conserves:
  assumes "framer_run cs f = (outs, f')" "\<not> fr_fixup_pending f"
  shows "concat (map out_bytes outs) @ fr_buf f' = fr_buf f @ fed cs"
  using assms
proof (induction cs f arbitrary: outs f' rule: framer_run.induct)
  case (2 chunk cs f)
  then show ?case
    by (auto simp: feed_def)
next
  case (3 cs f)
  obtain out g where out: "poll f = (out, g)"
    by fastforce
  obtain outs' where rest: "framer_run cs g = (outs', f')" "outs = out # outs'"
    using 3(2) out by (auto split: prod.splits)
  show ?case
    using poll_conserves [OF out 3(3)] 3(1) [OF out [symmetric] refl, of outs' f'] rest by simp
qed simp

section \<open>Polling ends\<close>

lemma vi_Nil [simp]: "vi varint_decode [] = Inl (CodecVarInt VarIntUnexpectedEnd)"
  by (simp add: vi_def varint_decode_def)

lemma probe_Nil: "probe_stage st [] \<noteq> Inr (Some x, rest)"
proof -
  have "sr_read_meta r [] = Inl (CodecVarInt VarIntUnexpectedEnd)" for r
    by (cases r) (simp_all add: sg07_read_meta_def sg14_read_meta_def read_meta14_def with_start_def object_decode_def)
  moreover have "fr_read_frame r [] = Inl (CodecVarInt VarIntUnexpectedEnd)" for r
    by (cases r) (simp_all add: fo07_read_meta_def fo14_read_meta_def fetch_meta14_decode_def with_start_def
        fetch_object_decode_def)
  ultimately show ?thesis
    by (cases st) simp_all
qed

lemma steady_progress:
  assumes "steady (\<lambda>n. f)" "f bs = Inr (x, rest)" "f [] \<noteq> Inr (x, [])"
  shows "length rest < length bs"
proof -
  obtain u where u: "bs = u @ rest" "\<forall>z. f (u @ z) = Inr (x, z)"
    using steady_cut [OF assms(1, 2) order_refl] by blast
  then show ?thesis
    using assms(3) by (cases u) auto
qed

lemma probe_takes: "probe_stage st bs = Inr (Some x, rest) \<Longrightarrow> length rest < length bs"
  by (rule steady_progress [OF steady_probe]) (assumption, rule probe_Nil)

lemma header_Nil: "fr_buf f = [] \<Longrightarrow> decode_header f \<noteq> Inr (x, rest)"
  by (cases "fr_version f")
    (auto simp: decode_header_def any_subgroup_decode_stream_def any_fetch_decode_stream_def
      subgroup_decode_stream_def subgroup14_decode_def fetch_header_decode_stream_def fetch_header14_decode_def
      split: data_stream_type.splits)

lemma decode_header_steady:
  obtains g where "steady (\<lambda>n. g)" "\<forall>buf. decode_header (f\<lparr> fr_buf := buf \<rparr>) = g buf"
proof (cases "fr_stream_type f")
  case StreamSubgroup
  show thesis
    by (rule that [of "\<lambda>bs. rd (any_subgroup_decode_stream (fr_version f) bs) (\<lambda>h bs. Inr (HeaderSubgroup h, bs))"])
      (intro steady_intros steady_any_subgroup_decode, simp add: decode_header_def StreamSubgroup)
next
  case StreamFetch
  show thesis
    by (rule that [of "\<lambda>bs. rd (any_fetch_decode_stream (fr_version f) bs) (\<lambda>h bs. Inr (HeaderFetch h, bs))"])
      (intro steady_intros steady_any_fetch_decode, simp add: decode_header_def StreamFetch)
qed

lemma header_takes:
  assumes "decode_header f = Inr (h, rest)"
  shows "length rest < length (fr_buf f)"
proof -
  obtain g where g: "steady (\<lambda>n. g)" "\<forall>buf. decode_header (f\<lparr> fr_buf := buf \<rparr>) = g buf"
    by (rule decode_header_steady [of f])
  show ?thesis
    using assms spec [OF g(2), of "fr_buf f"] spec [OF g(2), of "[]"] header_Nil [of "f\<lparr> fr_buf := [] \<rparr>"]
    by (intro steady_progress [OF g(1), where x = h]) auto
qed

definition work_left :: "framer \<Rightarrow> nat" where
  "work_left f =
     3 * length (fr_buf f) + (if fr_pending_bypass f = None then 0 else 1) + (if fr_bypassed f then 0 else 2)"

text \<open>The fields \<open>work_left\<close> reads besides the buffer, and the counter that goes with them.\<close>

definition given_up :: "framer \<Rightarrow> bool \<times> bypass_reason option \<times> u64" where
  "given_up f = (fr_bypassed f, fr_pending_bypass f, fc_streams_not_shapeable (fr_counters f))"

lemma given_up_latch:
  "\<not> fr_bypassed f \<Longrightarrow> given_up (latch_bypass r f) = (True, Some r, fc_streams_not_shapeable (fr_counters f) + 1)"
  by (simp add: given_up_def latch_bypass_def note_defs Let_def)

lemma given_up_steps [simp]:
  "given_up (note_header_poll f) = given_up f" "given_up (note_object_poll f) = given_up f"
  "given_up (note_object_not_addressable f) = given_up f" "given_up (note_object_id_rewritten f) = given_up f"
  "given_up (commit p f) = given_up f" "given_up (commit_disposition f) = given_up f"
  "given_up (arm_disposition i f) = given_up f"
  "given_up (f\<lparr> fr_buf := b \<rparr>) = given_up f" "given_up (f\<lparr> fr_fixup_pending := c \<rparr>) = given_up f"
  "given_up (f\<lparr> fr_passthrough_remaining := n \<rparr>) = given_up f" "given_up (f\<lparr> fr_stage := st \<rparr>) = given_up f"
  "given_up (f\<lparr> fr_fetch_rollback := w \<rparr>) = given_up f" "given_up (f\<lparr> fr_context := cx \<rparr>) = given_up f"
  "given_up (f\<lparr> fr_fetch_orders := os \<rparr>) = given_up f"
  by (auto simp: given_up_def note_defs commit.simps commit_disposition_def arm_disposition_def
      split: option.splits stage.splits probe.splits)

lemma given_up_emit: "emit_passthrough l f = (out, f') \<Longrightarrow> given_up f' = given_up f"
  by (auto simp: emit_passthrough_def Let_def split: if_splits)

definition latches :: "framer \<Rightarrow> framer \<Rightarrow> bool" where
  "latches f f' \<longleftrightarrow> given_up f' = given_up f
     \<or> \<not> fr_bypassed f \<and> (\<exists>r. given_up f' = (True, Some r, fc_streams_not_shapeable (fr_counters f) + 1))"

lemma latches_same: "given_up f' = given_up f \<Longrightarrow> latches f f'"
  by (simp add: latches_def)

lemma latches_latch: "\<not> fr_bypassed f \<Longrightarrow> given_up g = given_up f \<Longrightarrow> latches f (latch_bypass r g)"
  by (auto simp: latches_def given_up_def latch_bypass_def note_defs Let_def)

lemma given_up_fixup:
  assumes "apply_elide_fixup len i fm f = (r, f')"
  shows "given_up f' = given_up f"
proof (cases fm)
  case None
  then show ?thesis
    using assms by (auto simp: apply_elide_fixup_def split: if_splits sum.splits)
next
  case (Some m)
  show ?thesis
  proof (cases "fr_stage f")
    case (StageFetch reader w)
    then show ?thesis
      using assms Some
      by (cases "reemit_fetch_object w m (take len (fr_buf f))")
        (auto simp: apply_elide_fixup_def reemit_fetch_frame_def Let_def split: fetch_reemit.splits prod.splits)
  qed (use assms Some in \<open>auto simp: apply_elide_fixup_def reemit_fetch_frame_def\<close>)
qed

lemma enter_latches: "\<not> fr_bypassed f \<Longrightarrow> latches f (enter_stage h f)"
proof (cases h)
  case (HeaderSubgroup h')
  then show "\<not> fr_bypassed f \<Longrightarrow> latches f (enter_stage h f)"
    by (cases h') (auto simp: enter_stage_def intro: latches_same)
next
  case (HeaderFetch h')
  obtain r g where r: "fetch_stage h' f = (r, g)"
    by fastforce
  then have "given_up g = given_up f"
    by (auto simp: fetch_stage_def Let_def split: if_splits option.splits sum.splits prod.splits)
  then show "\<not> fr_bypassed f \<Longrightarrow> latches f (enter_stage h f)"
    by (cases r) (auto simp: enter_stage_def HeaderFetch r intro: latches_same latches_latch)
qed

lemma given_up_emit_object: "emit_object n p m y f = (out, f') \<Longrightarrow> given_up f' = given_up f"
  by (auto simp: emit_object_def Let_def split: if_splits)

lemma given_up_first_chunk: "emit_first_chunk p m y f = (out, f') \<Longrightarrow> given_up f' = given_up f"
  by (auto simp: emit_first_chunk_def Let_def)

lemma latches_trans_same: "given_up g = given_up f \<Longrightarrow> latches g f' \<Longrightarrow> latches f f'"
  by (auto simp: latches_def given_up_def)

lemma latches_set_buf: "latches f g \<Longrightarrow> latches f (g\<lparr> fr_buf := b \<rparr>)"
  by (auto simp: latches_def)

lemma abandon_latches:
  "emit_passthrough l (latch_bypass r g) = (out, f') \<Longrightarrow> \<not> fr_bypassed g \<Longrightarrow> latches g f'"
  using given_up_emit [of l "latch_bypass r g" out f'] latches_latch [of g g r]
  by (simp add: latches_def)

lemma poll_header_latches:
  assumes "poll_header f = (out, f')" "\<not> fr_bypassed f"
  shows "latches f f'"
proof -
  define g where "g = note_header_poll f"
  have g: "\<not> fr_bypassed g" "given_up g = given_up f"
    using assms(2) by (simp_all add: g_def note_defs given_up_def)
  have "latches g f'"
    using assms(1) g(1) abandon_latches [of U64_MAX ObjectBeyondMeasuringReach g out f']
      enter_latches [of g] latches_latch [of g g DecodeError]
    by (auto simp: poll_header_def g_def [symmetric] Let_def intro: latches_same latches_set_buf
        split: if_splits sum.splits prod.splits)
  then show ?thesis
    using g(2) by (rule latches_trans_same [rotated])
qed

lemma poll_oversized_latches:
  assumes "poll_oversized f = (out, f')" "\<not> fr_bypassed f"
  shows "latches f f'"
  using assms(1)
proof (cases rule: poll_oversized_cases)
  case abandons
  then show ?thesis
    using assms(2) by (rule abandon_latches)
next
  case (unfixed p m fm rest e h)
  then show ?thesis
    using assms(2) given_up_fixup [OF unfixed(2)] by (auto simp: latches_latch)
next
  case (chunk p m fm rest y h)
  then show ?thesis
    using given_up_fixup [OF chunk(4)] given_up_first_chunk [OF chunk(5)] by (simp add: latches_same)
qed (simp add: latches_same)

lemma poll_object_latches:
  assumes "poll_object f = (out, f')" "\<not> fr_bypassed f"
  shows "latches f f'"
proof -
  define g where "g = commit_disposition (note_object_poll f)"
  have g: "given_up g = given_up f"
    by (simp add: g_def)
  then have byp: "\<not> fr_bypassed g"
    using assms(2) by (simp add: given_up_def)
  have "latches g f'"
    using assms(1) g_def
  proof (cases rule: poll_object_cases)
    case (oversized e)
    then show ?thesis
      using byp by (simp add: poll_oversized_latches)
  next
    case (unfixed p m fm rest e h)
    then show ?thesis
      using byp given_up_fixup [OF unfixed(3)] by (auto simp: latches_latch)
  next
    case (object p m fm rest y h)
    then show ?thesis
      using given_up_fixup [OF object(3)] given_up_emit_object [OF object(4)] by (simp add: latches_same)
  qed (use byp in \<open>simp_all add: latches_same latches_latch\<close>)
  then show ?thesis
    using g by (rule latches_trans_same [rotated])
qed

end
