(* ===== verification/Framer_Runs.thy ===== *)
theory Framer_Runs
  imports Framer_Laws
begin

text \<open>
  Runs of the framer: that polling ends, that a stream is given up at most once, that an object is framed the
  same whatever the cuts of its bytes, and that after drops the destination reads the survivors.
\<close>

section \<open>Every poll but the last makes progress\<close>

fun is_bypassed_out :: "framer_out \<Rightarrow> bool" where
  "is_bypassed_out (OutBypassed r c) \<longleftrightarrow> True"
| "is_bypassed_out _ \<longleftrightarrow> False"

lemma work_left_latches:
  "latches f f' \<Longrightarrow> fr_pending_bypass f = None \<Longrightarrow> work_left f' + 3 * length (fr_buf f) \<le> work_left f + 3 * length (fr_buf f')"
  by (auto simp: latches_def given_up_def work_left_def)

lemma work_left_latch:
  "\<not> fr_bypassed f \<Longrightarrow> fr_pending_bypass f = None \<Longrightarrow> given_up g = given_up f \<Longrightarrow> fr_buf g = fr_buf f \<Longrightarrow>
     work_left (latch_bypass r g) < work_left f"
  by (auto simp: given_up_def latch_bypass_def note_defs Let_def work_left_def)

lemma emit_progress:
  assumes "emit_passthrough l f = (out, f')" "0 < l" "out \<noteq> OutNeedMore"
  shows "length (fr_buf f') < length (fr_buf f)" "\<not> is_bypassed_out out"
  using assms by (auto simp: emit_passthrough_def Let_def word_less_nat_alt split: if_splits)

lemma shorter_progress:
  "latches f f' \<Longrightarrow> fr_pending_bypass f = None \<Longrightarrow> length (fr_buf f') < length (fr_buf f) \<Longrightarrow> work_left f' < work_left f"
  by (drule work_left_latches) auto

lemma U64_MAX_pos: "0 < U64_MAX"
  by (simp add: U64_MAX_def word_gt_0)

lemma abandon_progress:
  assumes "emit_passthrough U64_MAX (latch_bypass r g) = (out, f')" "out \<noteq> OutNeedMore"
  shows "length (fr_buf f') < length (fr_buf g)" "\<not> is_bypassed_out out"
  using emit_progress [OF assms(1) U64_MAX_pos assms(2)] by simp_all

lemma poll_header_progress:
  assumes "poll_header f = (out, f')" "\<not> fr_bypassed f" "fr_pending_bypass f = None" "out \<noteq> OutNeedMore"
  shows "work_left f' < work_left f \<and> \<not> is_bypassed_out out"
proof -
  define g where "g = note_header_poll f"
  have g: "given_up g = given_up f" "fr_buf g = fr_buf f"
    by (simp_all add: g_def)
  note def = assms(1) [unfolded poll_header_def Let_def, folded g_def]
  show ?thesis
  proof (cases "decode_header g")
    case (Inl e)
    then consider "is_incomplete e" "emit_passthrough U64_MAX (latch_bypass ObjectBeyondMeasuringReach g) = (out, f')"
      | "out = OutError (HeaderDecodeError e)" "f' = latch_bypass DecodeError g"
      using def assms(4) by (auto split: if_splits)
    then show ?thesis
    proof cases
      case 1
      then show ?thesis
        using abandon_progress [OF 1(2) assms(4)] g shorter_progress [OF poll_header_latches [OF assms(1, 2)] assms(3)]
        by simp
    next
      case 2
      then show ?thesis
        using work_left_latch [OF assms(2, 3) g] by simp
    qed
  next
    case (Inr p)
    obtain h rest where p: "p = (h, rest)"
      by fastforce
    have "length rest < length (fr_buf f)"
      using header_takes [of g h rest] Inr p g(2) by simp
    moreover have "fr_buf f \<noteq> []"
      using calculation by auto
    moreover have "out = OutHeader h (take (length (fr_buf f) - length rest) (fr_buf f))"
        "fr_buf f' = drop (length (fr_buf f) - length rest) (fr_buf f)"
      using def Inr p g(2) calculation(2) by (auto simp: g(2))
    ultimately show ?thesis
      using shorter_progress [OF poll_header_latches [OF assms(1, 2)] assms(3)] by simp
  qed
qed

lemma poll_oversized_progress:
  assumes "poll_oversized f = (out, f')" "\<not> fr_bypassed f" "fr_pending_bypass f = None" "out \<noteq> OutNeedMore" "fr_buf f \<noteq> []"
  shows "work_left f' < work_left f \<and> \<not> is_bypassed_out out"
  using assms(1)
proof (cases rule: poll_oversized_cases)
  case abandons
  then show ?thesis
    using abandon_progress [OF abandons assms(4)] shorter_progress [OF poll_oversized_latches [OF assms(1, 2)] assms(3)] by simp
next
  case (unfixed p m fm rest e h)
  then show ?thesis
    using work_left_latch [OF assms(2, 3) given_up_fixup [OF unfixed(2)]] fixup_fields(1) [OF unfixed(2)] by simp
next
  case (chunk p m fm rest y h)
  then have "fr_buf f' = []" "\<not> is_bypassed_out out"
    by (auto simp: emit_first_chunk_def Let_def)
  then show ?thesis
    using assms(5) shorter_progress [OF poll_oversized_latches [OF assms(1, 2)] assms(3)] by simp
qed (use assms(4) in simp)

lemma poll_object_progress:
  assumes "poll_object f = (out, f')" "\<not> fr_bypassed f" "fr_pending_bypass f = None" "out \<noteq> OutNeedMore"
  shows "work_left f' < work_left f \<and> \<not> is_bypassed_out out"
proof -
  define g where "g = commit_disposition (note_object_poll f)"
  have g: "given_up g = given_up f" "fr_buf g = fr_buf f"
    by (simp_all add: g_def)
  then have byp: "\<not> fr_bypassed g" "fr_pending_bypass g = None" "work_left g = work_left f"
    using assms(2, 3) by (auto simp: given_up_def work_left_def)
  show ?thesis
    using assms(1) g_def
  proof (cases rule: poll_object_cases)
    case (oversized e)
    then show ?thesis
      using poll_oversized_progress [OF oversized(5) byp(1, 2) assms(4)] g byp(3) by simp
  next
    case (refused e)
    then show ?thesis
      using work_left_latch [OF assms(2, 3) g] by simp
  next
    case (unfixed p m fm rest e h)
    then show ?thesis
      using work_left_latch [OF assms(2, 3), of h DecodeError] given_up_fixup [OF unfixed(3)] g fixup_fields(1) [OF unfixed(3)]
      by simp
  next
    case (object p m fm rest y h)
    have "fr_buf f' = drop (length (fr_buf f) - length rest) (fr_buf f)" "\<not> is_bypassed_out out"
      using object(4) fixup_fields(1) [OF object(3)] g(2) by (auto simp: emit_object_def Let_def split: if_splits)
    moreover have "length rest < length (fr_buf f)"
      using object(2) by (rule probe_takes)
    ultimately show ?thesis
      using shorter_progress [OF poll_object_latches [OF assms(1, 2)] assms(3)] by simp
  qed (use assms(4) in simp)
qed

lemma poll_progress:
  assumes "poll f = (out, f')" "out \<noteq> OutNeedMore"
  shows "work_left f' < work_left f"
proof (cases "fr_pending_bypass f")
  case (Some r)
  then show ?thesis
    using assms by (auto simp: poll_def work_left_def)
next
  case None
  show ?thesis
  proof (cases "fr_passthrough_remaining f > 0 \<or> fr_bypassed f")
    case True
    then obtain l where l: "emit_passthrough l f = (out, f')" "0 < l"
      using assms None U64_MAX_pos by (auto simp: poll_def split: if_splits)
    then show ?thesis
      using emit_progress [OF l assms(2)] None shorter_progress [OF latches_same [OF given_up_emit [OF l(1)]]] by simp
  next
    case False
    then show ?thesis
      using assms None poll_header_progress poll_object_progress by (auto simp: poll_def split: stage.splits)
  qed
qed

fun polls :: "nat \<Rightarrow> framer \<Rightarrow> framer" where
  "polls 0 f = f"
| "polls (Suc n) f = polls n (snd (poll f))"

lemma polls_end: "\<exists>n \<le> work_left f. fst (poll (polls n f)) = OutNeedMore"
proof (induction "work_left f" arbitrary: f rule: less_induct)
  case less
  obtain out f' where p: "poll f = (out, f')"
    by fastforce
  show ?case
  proof (cases "out = OutNeedMore")
    case True
    then show ?thesis
      using p by (intro exI [of _ 0]) simp
  next
    case False
    then have lt: "work_left f' < work_left f"
      using poll_progress p by blast
    then obtain n where "n \<le> work_left f'" "fst (poll (polls n f')) = OutNeedMore"
      using less by blast
    then show ?thesis
      using lt p by (intro exI [of _ "Suc n"]) simp
  qed
qed

lemma emit_waits: "emit_passthrough l f = (OutNeedMore, f') \<Longrightarrow> fr_buf f' = []"
  by (auto simp: emit_passthrough_def Let_def split: if_splits)

text \<open>A framer that asks for more holds less than its cap.\<close>

lemma poll_header_waits:
  "poll_header f = (OutNeedMore, f') \<Longrightarrow> fr_buf f' = [] \<or> length (fr_buf f') < fr_max_buffered f'"
  by (auto simp: poll_header_def Let_def note_defs dest: emit_waits split: if_splits sum.splits prod.splits)

lemma poll_object_waits:
  assumes "poll_object f = (OutNeedMore, f')" "fr_stage f \<noteq> AwaitingHeader"
  shows "fr_buf f' = [] \<or> length (fr_buf f') < fr_max_buffered f'"
proof -
  define g where "g = commit_disposition (note_object_poll f)"
  have g: "fr_buf g = fr_buf f" "fr_stage g = fr_stage f"
    by (simp_all add: g_def commit_disposition_def note_defs split: option.splits)
  have some: "probe_stage (fr_stage f) bs \<noteq> Inr (None, rest)" for bs rest
    using assms(2) by (cases "fr_stage f") (auto simp: rd_eq_Inr)
  show ?thesis
    using assms(1) g_def
  proof (cases rule: poll_object_cases)
    case waits
    then show ?thesis
      using g some by auto
  next
    case (oversized e)
    from oversized(5) show ?thesis
    proof (cases rule: poll_oversized_cases)
      case abandons
      then show ?thesis
        by (simp add: emit_waits)
    qed (use g some in \<open>auto simp: emit_first_chunk_def Let_def\<close>)
  qed (auto simp: emit_object_def Let_def split: if_splits)
qed

lemma poll_waits:
  assumes "poll f = (OutNeedMore, f')"
  shows "fr_buf f' = [] \<or> length (fr_buf f') < fr_max_buffered f'"
  using assms poll_header_waits [of f f'] poll_object_waits [of f f'] emit_waits [of _ f f']
  by (auto simp: poll_def split: option.splits if_splits stage.splits)

section \<open>A stream is given up once\<close>

lemma poll_given_up:
  assumes "poll f = (out, f')"
  shows "(\<exists>r c. out = OutBypassed r c \<and> fr_pending_bypass f = Some r
            \<and> given_up f' = (fr_bypassed f, None, fc_streams_not_shapeable (fr_counters f)))
    \<or> \<not> is_bypassed_out out \<and> fr_pending_bypass f = None \<and> latches f f'"
proof (cases "fr_pending_bypass f")
  case (Some r)
  then show ?thesis
    using assms by (auto simp: poll_def given_up_def)
next
  case None
  have no: "\<not> is_bypassed_out out"
  proof (cases "out = OutNeedMore")
    case False
    then show ?thesis
      using assms None emit_progress(2) [OF _ _ False] U64_MAX_pos poll_header_progress [OF _ _ None False]
        poll_object_progress [OF _ _ None False]
      by (auto simp: poll_def split: if_splits stage.splits)
  qed simp
  have "latches f f'"
    using assms None poll_header_latches [of f out f'] poll_object_latches [of f out f']
      latches_same [OF given_up_emit, of _ f out f']
    by (auto simp: poll_def split: if_splits stage.splits)
  then show ?thesis
    using no None by blast
qed

definition waiting_report :: "framer \<Rightarrow> nat" where
  "waiting_report f = (if fr_pending_bypass f = None then 0 else 1)"

definition bypass_report :: "framer_out \<Rightarrow> nat" where
  "bypass_report out = (if is_bypassed_out out then 1 else 0)"

lemma poll_reports:
  assumes "poll f = (out, f')"
  shows "bypass_report out + waiting_report f' + of_bool (fr_bypassed f) = waiting_report f + of_bool (fr_bypassed f')"
    "fc_streams_not_shapeable (fr_counters f') + of_bool (fr_bypassed f)
       = fc_streams_not_shapeable (fr_counters f) + of_bool (fr_bypassed f')"
  using poll_given_up [OF assms]
  by (auto simp: latches_def given_up_def waiting_report_def bypass_report_def)

lemma run_reports:
  assumes "framer_run cs f = (outs, f')"
  shows "sum_list (map bypass_report outs) + waiting_report f' + of_bool (fr_bypassed f)
      = waiting_report f + of_bool (fr_bypassed f')
    \<and> fc_streams_not_shapeable (fr_counters f') + of_bool (fr_bypassed f)
       = fc_streams_not_shapeable (fr_counters f) + of_bool (fr_bypassed f')"
  using assms
proof (induction cs f arbitrary: outs f' rule: framer_run.induct)
  case (2 chunk cs f)
  then show ?case
    by (auto simp: feed_def waiting_report_def)
next
  case (3 cs f)
  obtain out g where out: "poll f = (out, g)"
    by fastforce
  obtain outs' where rest: "framer_run cs g = (outs', f')" "outs = out # outs'"
    using 3(2) out by (auto split: prod.splits)
  note step = poll_reports [OF out] and run = 3(1) [OF out [symmetric] refl rest(1)]
  have "fc_streams_not_shapeable (fr_counters g)
      = fc_streams_not_shapeable (fr_counters f) + of_bool (fr_bypassed g) - of_bool (fr_bypassed f)"
    using step(2) by (simp add: eq_diff_eq)
  moreover have "fc_streams_not_shapeable (fr_counters f')
      = fc_streams_not_shapeable (fr_counters g) + of_bool (fr_bypassed f') - of_bool (fr_bypassed g)"
    using run by (simp add: eq_diff_eq)
  ultimately show ?case
    using step(1) run rest(2) by simp
qed simp

section \<open>An object is framed the same whatever the cuts\<close>

text \<open>The two halves of a fetch stage are of one draft.\<close>

fun one_draft :: "stage \<Rightarrow> bool" where
  "one_draft (StageFetch reader writer) \<longleftrightarrow> fr_draft reader = fw_draft writer"
| "one_draft _ \<longleftrightarrow> True"

text \<open>A framer between two objects of a stream it follows.\<close>

definition at_object :: "framer \<Rightarrow> bool" where
  "at_object f \<longleftrightarrow>
     fr_stage f \<noteq> AwaitingHeader \<and> one_draft (fr_stage f) \<and> \<not> fr_bypassed f \<and> fr_pending_bypass f = None
     \<and> fr_passthrough_remaining f = 0 \<and> \<not> fr_fixup_pending f"

lemma poll_at_object: "at_object f \<Longrightarrow> poll f = poll_object f"
  by (cases "fr_stage f") (simp_all add: poll_def at_object_def)

lemma probe_wire_len:
  assumes "probe_stage st bs = Inr (Some (p, m, fm), rest)"
  shows "meta_wire_len m = of_nat (length bs - length rest)"
proof (cases st)
  case (StageSubgroup r)
  then show ?thesis
    using assms by (cases r)
      (auto simp: rd_eq_Inr and_then_eq_Inr sg07_read_meta_def sg14_read_meta_def read_meta14_def with_start_def)
next
  case (StageFetch r w)
  then show ?thesis
    using assms by (cases r)
      (auto simp: rd_eq_Inr and_then_eq_Inr fo07_read_meta_def fo14_read_meta_def fetch_meta14_decode_def
        with_start_def frame_absolute_def get_u8_def split: if_splits)
qed (use assms in simp)

lemma probe_frame:
  assumes "probe_stage st bs = Inr (Some (p, m, fm), rest)"
  shows "(case st of StageFetch r w \<Rightarrow> \<exists>fm'. fm = Some (frame_absolute (fr_draft r) fm') \<and> m = MetaFetch fm' \<and> p = ProbeFetch r
                    | StageSubgroup r \<Rightarrow> fm = None \<and> (\<exists>m' r'. m = MetaSub m' \<and> p = ProbeSubgroup r' \<and> sr_read_meta r bs = Inr ((m', r'), rest))
                    | AwaitingHeader \<Rightarrow> False)"
  using assms
proof (cases st)
  case (StageFetch r w)
  then show ?thesis
    using assms by (cases r) (auto simp: rd_eq_Inr frame_absolute_def)
qed (auto simp: rd_eq_Inr)

lemma unat_of_nat_le: "unat (word_of_nat n :: u64) \<le> n"
  by (simp add: unat_of_nat take_bit_nat_less_eq_self)

lemma fixup_idle:
  assumes "probe_stage (fr_stage f) bs = Inr (Some (p, m, fm), rest)" "one_draft (fr_stage f)" "\<not> fr_fixup_pending f"
    "length bs - length rest \<le> length (fr_buf f)"
  obtains w where "apply_elide_fixup (length bs - length rest) i fm f = (Inr None, f\<lparr> fr_fetch_rollback := w \<rparr>)"
proof (cases "fr_stage f")
  case (StageFetch r w)
  then obtain fm' where fm: "fm = Some (frame_absolute (fr_draft r) fm')" "m = MetaFetch fm'"
    using probe_frame [OF assms(1)] by auto
  have "afm_wire_len fm' = of_nat (length bs - length rest)"
    using probe_wire_len [OF assms(1)] fm by simp
  then have "unat (saturating_sub64 (afm_wire_len fm') (afm_payload_length fm')) \<le> length bs - length rest"
    using unat_of_nat_le [of "length bs - length rest"]
    by (auto simp: saturating_sub64_def unat_sub intro: le_trans [OF diff_le_self])
  then have "apply_elide_fixup (length bs - length rest) i fm f = (Inr None, f\<lparr> fr_fetch_rollback := Some w \<rparr>)"
    using assms by (cases w) (auto simp: apply_elide_fixup_def fm reemit_fetch_frame_def StageFetch frame_absolute_def
        reemit_fetch_object_def)
  then show thesis
    by (rule that)
next
  case (StageSubgroup r)
  then have "fm = None"
    using probe_frame [OF assms(1)] by auto
  then have "apply_elide_fixup (length bs - length rest) i fm f = (Inr None, f\<lparr> fr_fetch_rollback := fr_fetch_rollback f \<rparr>)"
    using assms(3) by (simp add: apply_elide_fixup_def)
  then show thesis
    by (rule that)
qed (use probe_frame [OF assms(1)] in simp)

lemma unfinished_object_waits:
  assumes obj: "probe_stage st (obj @ behind) = Inr (Some x, behind)" and cut: "obj = taken @ w" "w \<noteq> []"
  obtains e where "probe_stage st taken = Inl e" "is_incomplete e"
proof (cases "probe_stage st taken")
  case (Inl e)
  have "is_incomplete e"
    using steady_Inl [OF steady_probe Inl order_refl, of "w @ behind"] obj cut(1) by auto
  then show thesis
    using Inl that by blast
next
  case (Inr r)
  obtain y rest where "r = (y, rest)"
    by fastforce
  then have "probe_stage st taken = Inr (y, rest)"
    using Inr by simp
  then have "probe_stage st (taken @ w @ behind) = Inr (y, rest @ w @ behind)"
    using steady_Inr [OF steady_probe _ order_refl, of st taken y rest "w @ behind"] by simp
  then show thesis
    using obj cut by simp
qed

lemma finished_object_probed:
  "probe_stage st (obj @ behind) = Inr (x, behind) \<Longrightarrow> probe_stage st (obj @ t) = Inr (x, t)"
  using steady_split(3) [OF steady_probe, of st "obj @ behind" x behind t] by simp

lemma object_from_prefix:
  assumes f: "at_object f" and buf: "fr_buf f = taken"
    and stream: "taken @ later = obj @ behind"
    and obj: "probe_stage (fr_stage f) (obj @ behind) = Inr (Some (p, m, fm), behind)"
    and fits: "length obj \<le> fr_max_buffered f"
  shows "length taken < length obj \<longrightarrow>
      (\<exists>f'. poll f = (OutNeedMore, f') \<and> fr_buf f' = taken \<and> fr_stage f' = fr_stage f)"
    "length obj \<le> length taken \<longrightarrow>
      (\<exists>f'. poll f = (OutObject (object_meta_of m f) obj, f') \<and> fr_buf f' = drop (length obj) taken)"
proof -
  define g where "g = commit_disposition (note_object_poll f)"
  have g: "fr_stage g = fr_stage f" "fr_buf g = taken" "fr_max_buffered g = fr_max_buffered f"
      "object_meta_of m g = object_meta_of m f" "\<not> fr_fixup_pending g"
    using f buf by (cases m; auto simp: g_def commit_disposition_def note_defs at_object_def split: option.splits)+
  note def = poll_at_object [OF f, unfolded poll_object_def Let_def, folded g_def]
  show "length taken < length obj \<longrightarrow>
      (\<exists>f'. poll f = (OutNeedMore, f') \<and> fr_buf f' = taken \<and> fr_stage f' = fr_stage f)"
  proof
    assume short: "length taken < length obj"
    then obtain w where w: "obj = taken @ w" "w \<noteq> []"
      using stream by (metis append_eq_append_conv_if append_take_drop_id less_imp_le_nat drop_eq_Nil not_le)
    obtain e where "probe_stage (fr_stage f) taken = Inl e" "is_incomplete e"
      using unfinished_object_waits [OF obj w] by blast
    then show "\<exists>f'. poll f = (OutNeedMore, f') \<and> fr_buf f' = taken \<and> fr_stage f' = fr_stage f"
      using short fits g by (auto simp: def)
  qed
  show "length obj \<le> length taken \<longrightarrow>
      (\<exists>f'. poll f = (OutObject (object_meta_of m f) obj, f') \<and> fr_buf f' = drop (length obj) taken)"
  proof
    assume "length obj \<le> length taken"
    then obtain t where t: "taken = obj @ t"
      using stream by (metis append_eq_append_conv_if append_take_drop_id)
    then have probe: "probe_stage (fr_stage g) (fr_buf g) = Inr (Some (p, m, fm), t)"
      using finished_object_probed [OF obj] g by simp
    have "one_draft (fr_stage g)"
      using f g(1) by (simp add: at_object_def)
    then obtain w where paid: "apply_elide_fixup (length (fr_buf g) - length t) (meta_object_id m) fm g
        = (Inr None, g\<lparr> fr_fetch_rollback := w \<rparr>)"
      using fixup_idle [OF probe _ g(5)] by auto
    have "fr_buf g \<noteq> []"
      using probe_takes [OF probe] by auto
    have len: "length (fr_buf g) - length t = length obj"
      by (simp add: g t)
    then have "poll f = emit_object (length obj) p m None (g\<lparr> fr_fetch_rollback := w \<rparr>)"
      using paid probe \<open>fr_buf g \<noteq> []\<close> by (simp add: def)
    moreover have "fr_max_buffered (commit p h) = fr_max_buffered h" "object_meta_of m (commit p h) = object_meta_of m h" for h
      by (cases m; auto simp: commit.simps split: stage.splits probe.splits)+
    ultimately show "\<exists>f'. poll f = (OutObject (object_meta_of m f) obj, f') \<and> fr_buf f' = drop (length obj) taken"
      using fits g by (cases m) (auto simp: emit_object_def Let_def t)
  qed
qed

end
