(* ===== verification/Framer_Elide.thy ===== *)
theory Framer_Elide
  imports Framer_Runs
begin

text \<open>
  What dropping objects costs: a pipe that polls a subgroup stream's framer and answers each object with a
  keep or a drop sends a stream its reader takes for exactly the kept objects, under their own IDs.
\<close>

section \<open>A pipe\<close>

datatype pipe_event = Arrives bytes | Turn bool

fun answered :: "framer_out \<Rightarrow> bool \<Rightarrow> framer \<Rightarrow> framer" where
  "answered (OutObject m raw) keep f = (if keep then f else note_elided m f)"
| "answered _ keep f = f"

fun pipe :: "pipe_event list \<Rightarrow> framer \<Rightarrow> (framer_out \<times> bool) list \<times> framer" where
  "pipe [] f = ([], f)"
| "pipe (Arrives chunk # es) f = pipe es (feed chunk f)"
| "pipe (Turn keep # es) f =
     (let (out, f) = poll f; (rs, f) = pipe es (answered out keep f) in ((out, keep) # rs, f))"

fun arrived :: "pipe_event list \<Rightarrow> bytes" where
  "arrived [] = []"
| "arrived (Arrives chunk # es) = chunk @ arrived es"
| "arrived (Turn keep # es) = arrived es"

fun forwarded :: "(framer_out \<times> bool) list \<Rightarrow> bytes" where
  "forwarded [] = []"
| "forwarded ((OutObject m raw, keep) # rs) = (if keep then raw else []) @ forwarded rs"
| "forwarded ((out, keep) # rs) = out_bytes out @ forwarded rs"

fun seen :: "(framer_out \<times> bool) list \<Rightarrow> object_meta list" where
  "seen [] = []"
| "seen ((OutObject m raw, keep) # rs) = m # seen rs"
| "seen ((out, keep) # rs) = seen rs"

fun kept :: "(framer_out \<times> bool) list \<Rightarrow> object_meta list" where
  "kept [] = []"
| "kept ((OutObject m raw, keep) # rs) = (if keep then [m] else []) @ kept rs"
| "kept ((out, keep) # rs) = kept rs"

text \<open>The framer followed the stream: it handed out whole objects and no error.\<close>

fun followed :: "(framer_out \<times> bool) list \<Rightarrow> bool" where
  "followed [] \<longleftrightarrow> True"
| "followed ((OutPassthrough raw, keep) # rs) \<longleftrightarrow> False"
| "followed ((OutBypassed r c, keep) # rs) \<longleftrightarrow> False"
| "followed ((OutError e, keep) # rs) \<longleftrightarrow> False"
| "followed ((out, keep) # rs) \<longleftrightarrow> followed rs"

fun reads_as :: "subgroup_reader \<Rightarrow> object_meta list \<Rightarrow> bytes \<Rightarrow> bool" where
  "reads_as r [] bs \<longleftrightarrow> bs = []"
| "reads_as r (m # ms) bs \<longleftrightarrow>
     (case sr_read_meta r bs of
        Inl e \<Rightarrow> False
      | Inr ((x, r), bs) \<Rightarrow>
          asm_object_id x = om_object_id m \<and> asm_payload_length x = om_payload_len m
          \<and> asm_status x = om_status m \<and> reads_as r ms bs)"

section \<open>The two ends of the pipe\<close>

definition sent_id :: "framer \<Rightarrow> u64 option" where
  "sent_id f = (case fr_pending_disposition f of Some p \<Rightarrow> Some (po_object_id p) | None \<Rightarrow> fr_last_forwarded_id f)"

definition before :: "u64 option \<Rightarrow> u64 option \<Rightarrow> bool" where
  "before a b \<longleftrightarrow> (\<exists>l. b = Some l \<and> (\<forall>d. a = Some d \<longrightarrow> d < l))"

text \<open>The reader at the destination: the framer's own, but for the objects it never received.\<close>

fun far_reader :: "framer \<Rightarrow> subgroup_reader \<Rightarrow> subgroup_reader \<Rightarrow> bool" where
  "far_reader f SrDraft07 far \<longleftrightarrow> fr_version f = Draft07 \<and> far = SrDraft07 \<and> \<not> fr_fixup_pending f"
| "far_reader f (SrDraft14 r) far \<longleftrightarrow>
     fr_version f = Draft14 \<and> far = SrDraft14 (r\<lparr> rd14_prev_object_id := sent_id f \<rparr>)
     \<and> (if fr_fixup_pending f then before (sent_id f) (rd14_prev_object_id r)
        else sent_id f = rd14_prev_object_id r)"

definition following :: "framer \<Rightarrow> subgroup_reader \<Rightarrow> subgroup_reader \<Rightarrow> bool" where
  "following f r far \<longleftrightarrow>
     fr_stage f = StageSubgroup r \<and> fr_stream_type f = StreamSubgroup \<and> \<not> fr_bypassed f
     \<and> fr_pending_bypass f = None \<and> fr_passthrough_remaining f = 0 \<and> fr_fetch_rollback f = None
     \<and> far_reader f r far"

lemma sent_id_buf [simp]: "sent_id (f\<lparr> fr_buf := b \<rparr>) = sent_id f"
  by (simp add: sent_id_def split: option.splits)

lemma following_feed: "following f r far \<Longrightarrow> following (feed chunk f) r far"
  by (cases r) (auto simp: following_def feed_def)

lemma following_poll: "following f r far \<Longrightarrow> poll f = poll_object f"
  by (simp add: following_def poll_def)

lemma following_commit:
  assumes "following f r far"
  shows "following (commit_disposition (note_object_poll f)) r far"
    "sent_id f = fr_last_forwarded_id (commit_disposition (note_object_poll f))"
    "fr_pending_disposition (commit_disposition (note_object_poll f)) = None"
  using assms
  by (cases r; auto simp: following_def commit_disposition_def note_defs sent_id_def split: option.splits)+

section \<open>One object\<close>

lemma decode_varint14: "decode_varint Draft14 = varint_decode" "encode_varint Draft14 = varint_encode"
  by (simp_all add: fun_eq_iff decode_varint_def encode_varint_def)

lemma before_delta:
  assumes "before sent prev" "resolve_id prev d = Inr i" "wf_varint (VarInt i)"
  obtains d' where "id_delta sent i = Inr d'" "wf_varint (VarInt d')" "\<not> (\<exists>p. sent = Some p \<and> i \<le> p)"
proof -
  obtain l where l: "prev = Some l" "\<forall>p. sent = Some p \<longrightarrow> p < l"
    using assms(1) by (auto simp: before_def)
  have "l < i"
    using assms(2) l(1) resolve_id_less by blast
  show thesis
  proof (cases sent)
    case None
    then show thesis
      using assms(3) by (intro that [of i]) (auto simp: id_delta_def)
  next
    case (Some p)
    then have less: "p < i"
      using l(2) \<open>l < i\<close> by auto
    have "i - p - 1 \<le> i"
      using less by (simp add: word_le_nat_alt word_less_nat_alt unat_sub)
    then show thesis
      using Some less id_delta_less [OF less] assms(3) by (intro that [of "i - p - 1"]) (auto simp: wf_varint_def)
  qed
qed

text \<open>The first survivor after a drop, written against what the destination received.\<close>

lemma reemit_reads:
  assumes "read_meta14 r (obj @ behind) = Inr ((x, r'), behind)" "before sent (rd14_prev_object_id r)"
  obtains w out where "reemit_subgroup_object Draft14 sent (sm14_object_id x) obj = Inr (w, out)"
    "\<forall>z. \<exists>n. read_meta14 (r\<lparr> rd14_prev_object_id := sent \<rparr>) (out @ z) = Inr ((sm14_retaken x n, r'), z)"
proof -
  obtain d body where d: "vi varint_decode (obj @ behind) = Inr (VarInt d, body @ behind)"
      "resolve_id (rd14_prev_object_id r) d = Inr (sm14_object_id x)" "wf_varint (VarInt (sm14_object_id x))"
    and moved: "\<forall>p d' z. resolve_id p d' = Inr (sm14_object_id x) \<longrightarrow> wf_varint (VarInt d') \<longrightarrow>
       read_meta14 (r\<lparr> rd14_prev_object_id := p \<rparr>) (varint_encode (VarInt d') @ body @ z)
         = Inr ((sm14_retaken x (encoded_len (VarInt d') + length body), r'), z)"
    using assms(1) by (rule read_meta14_moved)
  obtain d' where d': "id_delta sent (sm14_object_id x) = Inr d'" "wf_varint (VarInt d')"
      "\<not> (\<exists>p. sent = Some p \<and> sm14_object_id x \<le> p)"
    using assms(2) d(2, 3) by (rule before_delta)
  obtain idf where idf: "obj @ behind = idf @ body @ behind" "\<forall>z. varint_decode (idf @ z) = Inr (VarInt d, z)"
    using varint_decode_cut [of "obj @ behind" "VarInt d" "body @ behind"] d(1) by (auto simp: vi_def)
  then have obj: "obj = idf @ body"
    by simp
  define out where "out = varint_encode (VarInt d') @ body"
  have "invalid_field (from_u64 d') = Inr (VarInt d')"
    using d'(2) by (simp add: invalid_field_def from_u64_Inr)
  then have "\<exists>w. reemit_subgroup_object Draft14 sent (sm14_object_id x) obj = Inr (w, out)"
    using d'(1, 3) idf(2)
    by (auto simp: reemit_subgroup_object_def decode_varint14 obj invalid_field_def delta_encodes_object_ids_def
        uses_moqt_varint_def out_def Let_def split: option.splits)
  then obtain w where "reemit_subgroup_object Draft14 sent (sm14_object_id x) obj = Inr (w, out)"
    by blast
  then show thesis
    using moved d' by (intro that [of w out]) (auto simp: out_def id_delta_resolve)
qed

definition agrees :: "any_subgroup_meta \<Rightarrow> object_meta \<Rightarrow> bool" where
  "agrees x m \<longleftrightarrow>
     asm_object_id x = om_object_id m \<and> asm_payload_length x = om_payload_len m \<and> asm_status x = om_status m"

lemma reads_as_next:
  "sr_read_meta r (raw @ rest) = Inr ((x, r'), rest) \<Longrightarrow> agrees x m \<Longrightarrow> reads_as r' ms rest \<Longrightarrow>
     reads_as r (m # ms) (raw @ rest)"
  by (simp add: agrees_def)

lemma before_next: "before sent prev \<or> sent = prev \<Longrightarrow> resolve_id prev d = Inr i \<Longrightarrow> before sent (Some i)"
  using resolve_id_less by (cases prev) (force simp: before_def)+

lemma emit_object_Object:
  assumes "emit_object n p m y h = (OutObject mm raw, f')"
  shows "mm = object_meta_of m (commit p (h\<lparr> fr_buf := drop n (fr_buf h) \<rparr>))"
    "raw = (case y of Some out \<Rightarrow> out | None \<Rightarrow> take n (fr_buf h))"
    "f' = arm_disposition (meta_object_id m) (commit p (h\<lparr> fr_buf := drop n (fr_buf h) \<rparr>))"
  using assms by (auto simp: emit_object_def Let_def split: if_splits)

lemma agrees_meta_of [simp]: "agrees x (object_meta_of (MetaSub x) f)"
  by (simp add: agrees_def)

lemma poll_followed_object:
  assumes f: "following f r far" and out: "poll f = (OutObject mm raw, f')"
  obtains g x r' rest y h where "following g r far" "fr_last_forwarded_id g = sent_id f" "fr_pending_disposition g = None"
    "fr_buf g = fr_buf f" "sr_read_meta r (fr_buf f) = Inr ((x, r'), rest)"
    "apply_elide_fixup (length (fr_buf f) - length rest) (asm_object_id x) None g = (Inr y, h)"
    "emit_object (length (fr_buf f) - length rest) (ProbeSubgroup r') (MetaSub x) y h = (OutObject mm raw, f')"
proof -
  define g where "g = commit_disposition (note_object_poll f)"
  have g: "following g r far" "fr_last_forwarded_id g = sent_id f" "fr_pending_disposition g = None" "fr_buf g = fr_buf f"
    using following_commit [OF f] by (simp_all add: g_def)
  then have stage: "fr_stage g = StageSubgroup r"
    by (simp add: following_def)
  have "poll_object f = (OutObject mm raw, f')"
    using out following_poll [OF f] by simp
  then show thesis
    using g_def
  proof (cases rule: poll_object_cases)
    case (oversized e)
    from oversized(5) show thesis
    proof (cases rule: poll_oversized_cases)
      case abandons
      then show thesis
        by (auto simp: emit_passthrough_def Let_def split: if_splits)
    qed (simp_all add: emit_first_chunk_def Let_def)
  next
    case (object p m fm rest y h)
    then obtain x r' where "fm = None" "m = MetaSub x" "p = ProbeSubgroup r'" "sr_read_meta r (fr_buf f) = Inr ((x, r'), rest)"
      using probe_frame [OF object(2)] by (auto simp: stage)
    then show thesis
      using that [OF g] object by simp
  qed simp_all
qed

text \<open>What an object handed out is, for the source, for the destination and for the framer behind it.\<close>

definition object_handed ::
  "framer \<Rightarrow> subgroup_reader \<Rightarrow> subgroup_reader \<Rightarrow> object_meta \<Rightarrow> bytes \<Rightarrow> framer \<Rightarrow> subgroup_reader \<Rightarrow> bool" where
  "object_handed f r far m raw f' r' \<longleftrightarrow>
     (\<exists>obj. fr_buf f = obj @ fr_buf f' \<and> (\<forall>z. \<exists>x. agrees x m \<and> sr_read_meta r (obj @ z) = Inr ((x, r'), z)))
     \<and> (\<forall>z. \<exists>x. agrees x m \<and> sr_read_meta far (raw @ z) = Inr ((x, r'), z))
     \<and> following f' r' r' \<and> following (note_elided m f') r' far"

lemma source_object:
  assumes "sr_read_meta r bs = Inr ((x, r'), rest)"
  shows "bs = take (length bs - length rest) bs @ rest"
    "sr_read_meta r (take (length bs - length rest) bs @ z) = Inr ((x, r'), z)"
  using steady_split [OF steady_sr_read_meta assms] by auto

lemma object_step07:
  assumes f: "following f SrDraft07 far" and out: "poll f = (OutObject m raw, f')"
  shows "object_handed f SrDraft07 far m raw f' SrDraft07"
proof -
  obtain g x r' rest y h where g: "following g SrDraft07 far" "fr_last_forwarded_id g = sent_id f"
      "fr_pending_disposition g = None" "fr_buf g = fr_buf f"
    and read: "sr_read_meta SrDraft07 (fr_buf f) = Inr ((x, r'), rest)"
    and fixup: "apply_elide_fixup (length (fr_buf f) - length rest) (asm_object_id x) None g = (Inr y, h)"
    and emit: "emit_object (length (fr_buf f) - length rest) (ProbeSubgroup r') (MetaSub x) y h = (OutObject m raw, f')"
    using assms by (rule poll_followed_object)
  have r': "r' = SrDraft07"
    using read by (auto simp: rd_eq_Inr)
  have "\<not> fr_fixup_pending g"
    using g(1) by (auto simp: following_def)
  then have h: "h = g" "y = None"
    using fixup by (simp_all add: apply_elide_fixup_def)
  note e = emit_object_Object [OF emit, unfolded h]
  note src = source_object [OF read]
  have far: "far = SrDraft07"
    using f by (simp add: following_def)
  have "fr_buf f' = rest" "raw = take (length (fr_buf f) - length rest) (fr_buf f)"
    using src(1) by (auto simp: e g(4)) (metis append_eq_conv_conj length_append diff_add_inverse2)
  moreover have "following f' SrDraft07 SrDraft07" "following (note_elided m f') SrDraft07 far"
    using g(1) by (auto simp: e r' following_def far commit.simps arm_disposition_def note_elided_def
        elide_owes_a_fixup_def framer_delta_encodes_def Let_def)
  moreover have "agrees x m"
    by (simp only: e(1) agrees_meta_of)
  ultimately show ?thesis
    using src r' unfolding object_handed_def far by metis
qed

lemma sg14_read:
  "sr_read_meta (SrDraft14 q) bs = Inr ((x, r'), rest) \<longleftrightarrow>
     (\<exists>sm q'. read_meta14 q bs = Inr ((sm, q'), rest) \<and> r' = SrDraft14 q' \<and>
        x = \<lparr> asm_object_id = sm14_object_id sm, asm_payload_length = sm14_payload_length sm,
              asm_status = sm14_status sm, asm_extension_headers_len = sm14_extension_headers_len sm,
              asm_wire_len = sm14_wire_len sm \<rparr>)"
  by (auto simp: rd_eq_Inr sg14_read_meta_def)

lemma sg14_moved:
  assumes "\<forall>z. \<exists>n. read_meta14 q (out @ z) = Inr ((sm14_retaken sm n, q'), z)"
    "agrees \<lparr> asm_object_id = sm14_object_id sm, asm_payload_length = sm14_payload_length sm,
              asm_status = sm14_status sm, asm_extension_headers_len = e, asm_wire_len = l \<rparr> m"
  shows "\<exists>x. agrees x m \<and> sr_read_meta (SrDraft14 q) (out @ z) = Inr ((x, SrDraft14 q'), z)"
proof -
  obtain n where "read_meta14 q (out @ z) = Inr ((sm14_retaken sm n, q'), z)"
    using assms(1) by blast
  then show ?thesis
    using assms(2) by (auto simp: sg14_read_meta_def agrees_def sm14_retaken_def)
qed

lemma handed_on14:
  assumes "fr_stage h = StageSubgroup r" "fr_stream_type h = StreamSubgroup" "\<not> fr_bypassed h"
    "fr_pending_bypass h = None" "fr_passthrough_remaining h = 0" "fr_fetch_rollback h = None"
    "fr_version h = Draft14" "\<not> fr_fixup_pending h" "fr_last_forwarded_id h = sent"
    "f' = arm_disposition i (commit (ProbeSubgroup (SrDraft14 q)) (h\<lparr> fr_buf := b \<rparr>))"
    "rd14_prev_object_id q = Some i" "before sent (Some i)"
  shows "following f' (SrDraft14 q) (SrDraft14 q)"
    "following (note_elided m f') (SrDraft14 q) (SrDraft14 (q\<lparr> rd14_prev_object_id := sent \<rparr>))"
  using assms
  by (auto simp: following_def commit.simps arm_disposition_def note_elided_def elide_owes_a_fixup_def
      framer_delta_encodes_def sent_id_def Let_def)

lemma object_step14:
  assumes f: "following f (SrDraft14 q) far" and out: "poll f = (OutObject m raw, f')"
  shows "\<exists>r'. object_handed f (SrDraft14 q) far m raw f' r'"
proof -
  obtain g x r' rest y h where g: "following g (SrDraft14 q) far" "fr_last_forwarded_id g = sent_id f"
      "fr_pending_disposition g = None" "fr_buf g = fr_buf f"
    and read: "sr_read_meta (SrDraft14 q) (fr_buf f) = Inr ((x, r'), rest)"
    and fixup: "apply_elide_fixup (length (fr_buf f) - length rest) (asm_object_id x) None g = (Inr y, h)"
    and emit: "emit_object (length (fr_buf f) - length rest) (ProbeSubgroup r') (MetaSub x) y h = (OutObject m raw, f')"
    using assms by (rule poll_followed_object)
  define obj where "obj = take (length (fr_buf f) - length rest) (fr_buf f)"
  note src = source_object [OF read, folded obj_def]
  obtain sm q' where sm: "read_meta14 q (obj @ rest) = Inr ((sm, q'), rest)" "r' = SrDraft14 q'"
      "x = \<lparr> asm_object_id = sm14_object_id sm, asm_payload_length = sm14_payload_length sm,
             asm_status = sm14_status sm, asm_extension_headers_len = sm14_extension_headers_len sm,
             asm_wire_len = sm14_wire_len sm \<rparr>"
    using src(2) [of rest] by (auto simp only: sg14_read)
  obtain d where d: "resolve_id (rd14_prev_object_id q) d = Inr (sm14_object_id sm)"
      "q' = q\<lparr> rd14_prev_object_id := Some (sm14_object_id sm) \<rparr>"
    using sm(1) by (rule read_meta14_moved)
  have far: "far = SrDraft14 (q\<lparr> rd14_prev_object_id := sent_id f \<rparr>)" "fr_version g = Draft14"
    and sent: "if fr_fixup_pending g then before (sent_id f) (rd14_prev_object_id q) else sent_id f = rd14_prev_object_id q"
    using g(1-3) by (auto simp: following_def sent_id_def)
  have "before (sent_id f) (Some (sm14_object_id sm))"
    using sent d(1) by (intro before_next) (auto split: if_splits)
  moreover note e = emit_object_Object [OF emit]
  have agrees: "agrees x m"
    by (simp only: e(1) agrees_meta_of)
  have "(h = g \<or> h = note_object_id_rewritten (g\<lparr> fr_fixup_pending := False \<rparr>)) \<and> \<not> fr_fixup_pending h
      \<and> (\<forall>z. \<exists>x. agrees x m \<and> sr_read_meta far (raw @ z) = Inr ((x, r'), z))"
  proof (cases "fr_fixup_pending g")
    case True
    then have debt: "before (sent_id f) (rd14_prev_object_id q)"
      using sent by simp
    obtain w out where out: "reemit_subgroup_object Draft14 (sent_id f) (sm14_object_id sm) obj = Inr (w, out)"
      "\<forall>z. \<exists>n. read_meta14 (q\<lparr> rd14_prev_object_id := sent_id f \<rparr>) (out @ z) = Inr ((sm14_retaken sm n, q'), z)"
      using sm(1) debt by (rule reemit_reads)
    have "framer_delta_encodes g"
      using g(1) far(2) by (simp add: following_def framer_delta_encodes_def)
    then have h: "y = Some out" "h = note_object_id_rewritten (g\<lparr> fr_fixup_pending := False \<rparr>)"
      using fixup out(1) True by (auto simp: apply_elide_fixup_def far(2) g(2, 4) obj_def sm(3))
    have "raw = out"
      by (simp add: e(2) h)
    then show ?thesis
      using sg14_moved [OF out(2) agrees [unfolded sm(3)]] h(2) unfolding far(1) sm(2) by (auto simp: note_defs)
  next
    case False
    then have h: "h = g" "y = None"
      using fixup by (simp_all add: apply_elide_fixup_def)
    have "raw = obj"
      by (simp add: e(2) h g(4) obj_def)
    moreover have "far = SrDraft14 q"
      using sent False by (simp add: far(1))
    ultimately show ?thesis
      using src(2) agrees h(1) False by blast
  qed
  moreover have "fr_buf f' = rest"
  proof -
    have "fr_buf h = fr_buf f"
      using fixup_fields(1) [OF fixup] g(4) by simp
    then show ?thesis
      using src(1) steady_split(2) [OF steady_sr_read_meta read] by (simp add: e(3))
  qed
  moreover have "following f' r' r' \<and> following (note_elided m f') r' (SrDraft14 (q'\<lparr> rd14_prev_object_id := sent_id f \<rparr>))"
    using calculation g(1, 2) far(2) d(2)
    by (intro conjI; unfold sm(2); intro handed_on14 [where h = h and i = "sm14_object_id sm" and b = "drop (length (fr_buf f) - length rest) (fr_buf h)"])
      (auto simp: following_def note_defs e(3) sm(2, 3))
  moreover have "q'\<lparr> rd14_prev_object_id := sent_id f \<rparr> = q\<lparr> rd14_prev_object_id := sent_id f \<rparr>"
    by (simp add: d(2))
  ultimately show ?thesis
    using src agrees far(1) unfolding object_handed_def by (intro exI [of _ r'] conjI) (auto intro: exI [of _ obj])
qed

lemma object_step:
  assumes "following f r far" "poll f = (OutObject m raw, f')"
  obtains r' where "object_handed f r far m raw f' r'"
  using assms object_step07 object_step14 by (cases r) blast+

section \<open>The whole stream\<close>

lemma following_waits:
  assumes f: "following f r far" and p: "poll f = (OutNeedMore, f')"
  shows "following f' r far \<and> fr_buf f' = fr_buf f"
proof -
  define g where "g = commit_disposition (note_object_poll f)"
  have g: "following g r far" "fr_buf g = fr_buf f"
    using following_commit(1) [OF f] by (simp_all add: g_def)
  have "poll_object f = (OutNeedMore, f')"
    using p following_poll [OF f] by simp
  then show ?thesis
    using g_def
  proof (cases rule: poll_object_cases)
    case waits
    then show ?thesis
      using g by simp
  next
    case (oversized e)
    from oversized(5) show ?thesis
    proof (cases rule: poll_oversized_cases)
      case abandons
      then show ?thesis
        using oversized(1) g(2) by (auto simp: emit_passthrough_def Let_def split: if_splits)
    qed (use g in \<open>simp_all add: emit_first_chunk_def Let_def\<close>)
  qed (auto simp: emit_object_def Let_def split: if_splits)
qed

lemma following_no_header: "following f r far \<Longrightarrow> poll f \<noteq> (OutHeader h raw, f')"
proof
  assume f: "following f r far" and p: "poll f = (OutHeader h raw, f')"
  have "poll_object f = (OutHeader h raw, f')"
    using p following_poll [OF f] by simp
  then show False
    using refl
  proof (cases rule: poll_object_cases)
    case (oversized e)
    from oversized(5) show False
      by (cases rule: poll_oversized_cases)
        (auto simp: emit_first_chunk_def emit_passthrough_def Let_def split: if_splits)
  qed (auto simp: emit_object_def Let_def split: if_splits)
qed

lemma following_run:
  assumes "following f r far" "pipe es f = (rs, f')" "followed rs"
  shows "\<exists>src. fr_buf f @ arrived es = src @ fr_buf f' \<and> reads_as r (seen rs) src \<and> reads_as far (kept rs) (forwarded rs)"
  using assms
proof (induction es arbitrary: f r far rs)
  case Nil
  then show ?case
    by auto
next
  case (Cons e es)
  show ?case
  proof (cases e)
    case (Arrives chunk)
    have "following (feed chunk f) r far"
      using Cons.prems(1) by (rule following_feed)
    then show ?thesis
      using Cons.IH [of "feed chunk f" r far rs] Cons.prems(2, 3) Arrives by (simp add: feed_def)
  next
    case (Turn keep)
    obtain out g where p: "poll f = (out, g)"
      by fastforce
    obtain rs' where rs: "pipe es (answered out keep g) = (rs', f')" "rs = (out, keep) # rs'"
      using Cons.prems(2) Turn p by (auto split: prod.splits)
    then have ok: "followed rs'"
      using Cons.prems(3) by (cases out) auto
    consider (needs) "out = OutNeedMore" | (object) m raw where "out = OutObject m raw"
      using Cons.prems(3) rs(2) p following_no_header [OF Cons.prems(1)] by (cases out) auto
    then show ?thesis
    proof cases
      case needs
      then have "following g r far" "fr_buf g = fr_buf f"
        using following_waits [OF Cons.prems(1)] p by auto
      then show ?thesis
        using Cons.IH [of g r far rs'] rs ok needs Turn by simp
    next
      case (object m raw)
      then obtain r' where "object_handed f r far m raw g r'"
        using object_step [OF Cons.prems(1)] p by blast
      then obtain obj where obj: "fr_buf f = obj @ fr_buf g" "\<forall>z. \<exists>x. agrees x m \<and> sr_read_meta r (obj @ z) = Inr ((x, r'), z)"
        and dst: "\<forall>z. \<exists>x. agrees x m \<and> sr_read_meta far (raw @ z) = Inr ((x, r'), z)"
        and next': "following g r' r'" "following (note_elided m g) r' far"
        by (auto simp: object_handed_def)
      have same: "fr_buf (note_elided m g) = fr_buf g"
        by (auto simp: note_elided_def Let_def split: option.splits stage.splits)
      show ?thesis
      proof (cases keep)
        case True
        obtain src where src: "fr_buf g @ arrived es = src @ fr_buf f'" "reads_as r' (seen rs') src"
            "reads_as r' (kept rs') (forwarded rs')"
          using Cons.IH [OF next'(1), of rs'] rs(1) ok True object by auto
        obtain x where x: "agrees x m" "sr_read_meta r (obj @ src) = Inr ((x, r'), src)"
          using obj(2) by blast
        obtain x' where x': "agrees x' m" "sr_read_meta far (raw @ forwarded rs') = Inr ((x', r'), forwarded rs')"
          using dst by blast
        show ?thesis
          using src obj(1) reads_as_next [OF x(2, 1) src(2)] reads_as_next [OF x'(2, 1) src(3)] rs(2) object True Turn
          by (intro exI [of _ "obj @ src"]) simp
      next
        case False
        obtain src where src: "fr_buf g @ arrived es = src @ fr_buf f'" "reads_as r' (seen rs') src"
            "reads_as far (kept rs') (forwarded rs')"
          using Cons.IH [OF next'(2), of rs'] rs(1) ok False object same by auto
        obtain x where x: "agrees x m" "sr_read_meta r (obj @ src) = Inr ((x, r'), src)"
          using obj(2) by blast
        show ?thesis
          using src obj(1) reads_as_next [OF x(2, 1) src(2)] rs(2) object False Turn
          by (intro exI [of _ "obj @ src"]) simp
      qed
    qed
  qed
qed

definition awaiting :: "framer \<Rightarrow> bool" where
  "awaiting f \<longleftrightarrow>
     fr_stage f = AwaitingHeader \<and> fr_stream_type f = StreamSubgroup \<and> \<not> fr_bypassed f
     \<and> fr_pending_bypass f = None \<and> fr_passthrough_remaining f = 0 \<and> fr_fetch_rollback f = None
     \<and> \<not> fr_fixup_pending f \<and> fr_last_forwarded_id f = None \<and> fr_pending_disposition f = None"

lemma awaiting_new: "awaiting (framer_new StreamSubgroup d cap)"
  by (simp add: awaiting_def framer_new_def framer_with_recorder_def)

lemma header_read:
  assumes "any_subgroup_decode_stream d bs = Inr (h, rest)"
  obtains r where "subgroup_reader_new h = Inr r"
    "d = Draft07 \<and> r = SrDraft07 \<or> d = Draft14 \<and> (\<exists>q. r = SrDraft14 q \<and> rd14_prev_object_id q = None)"
  using assms
  by (cases d) (auto simp: any_subgroup_decode_stream_def rd_eq_Inr reader14_new_def)

lemma header_step:
  assumes f: "awaiting f" and p: "poll f = (OutHeader hk raw, f')"
  obtains h r where "fr_buf f = raw @ fr_buf f'" "any_subgroup_decode_stream (fr_version f) raw = Inr (h, [])"
    "subgroup_reader_new h = Inr r" "following f' r r"
proof -
  define g where "g = note_header_poll f"
  have g: "awaiting g" "fr_version g = fr_version f" "fr_buf g = fr_buf f"
    using f by (simp_all add: g_def awaiting_def note_defs)
  have "poll_header f = (OutHeader hk raw, f')"
    using f p by (simp add: poll_def awaiting_def)
  note def = this [unfolded poll_header_def Let_def, folded g_def]
  obtain hk' rest where dec: "decode_header g = Inr (hk', rest)"
  proof (cases "decode_header g")
    case (Inl e)
    then show thesis
      using def by (auto simp: emit_passthrough_def Let_def split: if_splits)
  qed (use that in fastforce)
  then obtain h where h: "hk' = HeaderSubgroup h" "any_subgroup_decode_stream (fr_version f) (fr_buf f) = Inr (h, rest)"
    using g by (auto simp: decode_header_def awaiting_def rd_eq_Inr)
  obtain r where r: "subgroup_reader_new h = Inr r" "fr_version f = Draft07 \<and> r = SrDraft07
      \<or> fr_version f = Draft14 \<and> (\<exists>q. r = SrDraft14 q \<and> rd14_prev_object_id q = None)"
    using h(2) by (rule header_read)
  note cut = steady_split [OF steady_any_subgroup_decode h(2)]
  have out: "raw = take (length (fr_buf f) - length rest) (fr_buf f)"
      "f' = g\<lparr> fr_context := subgroup_context_of h, fr_stage := StageSubgroup r,
             fr_buf := drop (length (fr_buf f) - length rest) (fr_buf f) \<rparr>"
    using def dec h(1) r(1) g(3) by (auto simp: enter_stage_def split: if_splits)
  have "following f' r r"
    using g r(2) unfolding out(2) by (auto simp: following_def awaiting_def sent_id_def)
  then show thesis
    using that [of h r] cut(1, 2) cut(3) [of "[]"] r(1) by (simp add: out)
qed

lemma awaiting_waits:
  assumes "awaiting f" "poll f = (OutNeedMore, f')"
  shows "awaiting f' \<and> fr_buf f' = fr_buf f \<and> fr_version f' = fr_version f"
proof -
  have "poll_header f = (OutNeedMore, f')"
    using assms by (simp add: poll_def awaiting_def)
  then have "f' = note_header_poll f"
    by (auto simp: poll_header_def emit_passthrough_def Let_def split: if_splits sum.splits prod.splits)
  then show ?thesis
    using assms(1) by (simp add: awaiting_def note_defs)
qed

lemma awaiting_no_object: "awaiting f \<Longrightarrow> poll f \<noteq> (OutObject m raw, f')"
  by (auto simp: poll_def awaiting_def poll_header_def emit_passthrough_def Let_def
      split: if_splits sum.splits prod.splits)

lemma awaiting_run:
  assumes "awaiting f" "pipe es f = (rs, f')" "followed rs" "forwarded rs \<noteq> []"
  shows "\<exists>hdr h r src dst. fr_buf f @ arrived es = hdr @ src @ fr_buf f' \<and> forwarded rs = hdr @ dst
    \<and> any_subgroup_decode_stream (fr_version f) hdr = Inr (h, []) \<and> subgroup_reader_new h = Inr r
    \<and> reads_as r (seen rs) src \<and> reads_as r (kept rs) dst"
  using assms
proof (induction es arbitrary: f rs)
  case Nil
  then show ?case
    by auto
next
  case (Cons e es)
  show ?case
  proof (cases e)
    case (Arrives chunk)
    have "awaiting (feed chunk f)" "fr_version (feed chunk f) = fr_version f" "fr_buf (feed chunk f) = fr_buf f @ chunk"
      using Cons.prems(1) by (simp_all add: awaiting_def feed_def)
    then show ?thesis
      using Cons.IH [of "feed chunk f" rs] Cons.prems(2-4) Arrives by simp
  next
    case (Turn keep)
    obtain out g where p: "poll f = (out, g)"
      by fastforce
    obtain rs' where rs: "pipe es (answered out keep g) = (rs', f')" "rs = (out, keep) # rs'"
      using Cons.prems(2) Turn p by (auto split: prod.splits)
    then have ok: "followed rs'"
      using Cons.prems(3) by (cases out) auto
    consider (needs) "out = OutNeedMore" | (header) hk raw where "out = OutHeader hk raw"
      using Cons.prems(3) rs(2) p awaiting_no_object [OF Cons.prems(1)] by (cases out) auto
    then show ?thesis
    proof cases
      case needs
      then have "awaiting g" "fr_buf g = fr_buf f" "fr_version g = fr_version f"
        using awaiting_waits [OF Cons.prems(1)] p by auto
      then show ?thesis
        using Cons.IH [of g rs'] rs ok needs Turn Cons.prems(4) by simp
    next
      case (header hk raw)
      obtain h r where h: "fr_buf f = raw @ fr_buf g" "any_subgroup_decode_stream (fr_version f) raw = Inr (h, [])"
          "subgroup_reader_new h = Inr r" "following g r r"
        using header_step [OF Cons.prems(1)] p header by blast
      obtain src where "fr_buf g @ arrived es = src @ fr_buf f'" "reads_as r (seen rs') src" "reads_as r (kept rs') (forwarded rs')"
        using following_run [OF h(4), of es rs' f'] rs(1) ok header by auto
      then show ?thesis
        using h rs(2) header Turn by (intro exI [of _ raw] exI [of _ h] exI [of _ r] exI [of _ src] exI [of _ "forwarded rs'"]) simp
    qed
  qed
qed

end
