(* ===== verification/Dispatch_Laws.thy ===== *)
theory Dispatch_Laws
  imports Data_Dispatch
begin

text \<open>
  Writers and readers of data streams agree: objects of a draft-14 subgroup stream, objects written by the
  draft-neutral writer on either draft, draft-14 fetch objects and datagrams, and what each of them loses.
\<close>

section \<open>The metadata reader refuses what the object reader refuses\<close>

lemma skip_Inl: "skip_bytes bs (into_inner len) = Inl e \<Longrightarrow> read_bytes bs (usize len) = Inl e"
  by (simp add: skip_bytes_def read_bytes_def usize_def split: if_splits)

lemma skip_Inr:
  "skip_bytes bs (into_inner len) = Inr rest \<Longrightarrow>
     read_bytes bs (usize len) = Inr (take (usize len) bs, rest) \<and> min (length bs) (usize len) = usize len"
  by (auto simp: skip_bytes_def read_bytes_def usize_def split: if_splits)

lemma object14_error_of_meta:
  assumes "read_meta14 r bs = Inl e"
  shows "read_object14 r bs = Inl e"
  using assms unfolding read_meta14_def with_start_def
  by (cases "rd14_extensions_present r"; auto simp: rd_rd rd_and_then rd_eq_Inl rd_eq_Inr and_then_eq_Inl and_then_eq_Inr split: if_splits
      dest!: skip_Inl skip_Inr)
    (simp_all add: read_object14_def)

text \<open>Where the metadata reader goes on the object reader does too, unless the extension bytes it skipped
  do not parse.\<close>

definition object14_for :: "reader14 \<Rightarrow> bytes \<Rightarrow> reader14 \<Rightarrow> bytes \<Rightarrow> bytes \<Rightarrow> bool" where
  "object14_for r bs r' rest ext \<longleftrightarrow>
     (case parse_object_properties Draft14 ext of
        Inl e \<Rightarrow> read_object14 r bs = Inl e
      | Inr ps \<Rightarrow> \<exists>o'. read_object14 r bs = Inr ((o', r'), rest) \<and> so14_extension_headers o' = ext)"

lemma object14_of_meta:
  assumes "read_meta14 r bs = Inr ((m, r'), rest)"
  shows "\<exists>pre ext post. bs = pre @ ext @ post \<and> sm14_extension_headers_len m = of_nat (length ext)
    \<and> object14_for r bs r' rest ext"
proof (cases "rd14_extensions_present r")
  case True
  obtain delta bs1 len bs2 bs3 where head: "vi varint_decode bs = Inr (delta, bs1)"
      "vi varint_decode bs1 = Inr (len, bs2)" "skip_bytes bs2 (into_inner len) = Inr bs3"
    using assms True by (auto simp: read_meta14_def with_start_def rd_eq_Inr and_then_eq_Inr)
  have b3: "bs2 = take (usize len) bs2 @ bs3" "of_nat (length (take (usize len) bs2)) = into_inner len"
    using head(3) by (auto simp: skip_bytes_def usize_def split: if_splits)
  obtain pre where pre: "bs = pre @ take (usize len) bs2 @ bs3"
    using quic.vi_consumes [OF head(1)] quic.vi_consumes [OF head(2)] b3(1) by (metis append_assoc)
  have "sm14_extension_headers_len m = into_inner len"
    using assms True head by (auto simp: read_meta14_def with_start_def rd_eq_Inr and_then_eq_Inr)
  moreover have "object14_for r bs r' rest (take (usize len) bs2)"
    using assms True head conjunct1 [OF skip_Inr [OF head(3)]] b3(2) unfolding read_meta14_def with_start_def
    by (auto simp: rd_eq_Inr and_then_eq_Inr split: if_splits dest!: skip_Inr)
      (auto simp: read_object14_def object14_for_def split: sum.splits)
  ultimately show ?thesis
    using pre b3(2) by metis
next
  case False
  have "object14_for r bs r' rest [] \<and> sm14_extension_headers_len m = 0"
    using assms False unfolding read_meta14_def with_start_def
    by (auto simp: rd_eq_Inr and_then_eq_Inr split: if_splits dest!: skip_Inr)
      (simp_all add: read_object14_def object14_for_def split: sum.splits)
  then show ?thesis
    by (intro exI [of _ bs] exI [of _ "[]"]) simp
qed

section \<open>Any object, either draft\<close>

fun sw_write_all :: "subgroup_writer \<Rightarrow> any_subgroup_object list \<Rightarrow> codec_error + bytes \<times> subgroup_writer" where
  "sw_write_all w [] = Inr ([], w)"
| "sw_write_all w (o' # os) =
     and_then (sw_write_object w o') (\<lambda>(b, w).
     and_then (sw_write_all w os) (\<lambda>(bs, w). Inr (b @ bs, w)))"

fun sr_read_all :: "nat \<Rightarrow> subgroup_reader \<Rightarrow> bytes \<Rightarrow> codec_error + any_subgroup_object list \<times> bytes" where
  "sr_read_all 0 r bs = Inr ([], bs)"
| "sr_read_all (Suc n) r bs =
     rd (sr_read_object r bs) (\<lambda>(o', r) bs.
     rd (sr_read_all n r bs) (\<lambda>os bs. Inr (o' # os, bs)))"

text \<open>What an object reads back as: a status beside a payload goes without saying, an empty object has one.\<close>

definition aso_read_back :: "any_subgroup_object \<Rightarrow> any_subgroup_object" where
  "aso_read_back o' =
     o'\<lparr> aso_extension_count := None,
         aso_status := (if aso_payload o' \<noteq> [] then None
                        else Some (case aso_status o' of Some c \<Rightarrow> c | None \<Rightarrow> 0)) \<rparr>"

definition wf_any_object :: "any_subgroup_object \<Rightarrow> bool" where
  "wf_any_object o' \<longleftrightarrow>
     length (aso_payload o') < 2 ^ 62 \<and> length (aso_extension_headers o') < 2 ^ 62
     \<and> (\<exists>ps. parse_object_properties Draft14 (aso_extension_headers o') = Inr ps)"

text \<open>A reader that is where the writer is.\<close>

fun in_step :: "subgroup_writer \<Rightarrow> subgroup_reader \<Rightarrow> bool" where
  "in_step (SwDraft07 prev) r \<longleftrightarrow> r = SrDraft07"
| "in_step (SwDraft14 q ext) r \<longleftrightarrow> r = SrDraft14 q"

lemma sw_new_in_step:
  "subgroup_writer_new h = Inr w \<Longrightarrow> subgroup_reader_new h = Inr r \<Longrightarrow> in_step w r"
  by (cases h) auto

lemma status_to_write_Inr:
  "status_to_write o' = Inr s \<Longrightarrow> s = aso_status (aso_read_back o')"
  by (cases "aso_status o'"; cases "aso_payload o' = []")
    (auto simp: status_to_write_def aso_read_back_def split: if_splits)

lemma conv_varint_Inr: "conv_varint v = Inr x \<longleftrightarrow> x = VarInt v \<and> wf_varint x"
  by (auto simp: conv_varint_def invalid_field_def from_u64_Inr)

lemma of_nat_zero_iff: "n < 2 ^ 62 \<Longrightarrow> (of_nat n :: u64) = 0 \<longleftrightarrow> n = 0"
  by (simp add: word_unat_eq_iff unat_of_nat take_bit_nat_eq_self)

lemma unat_small: "n < 2 ^ 62 \<Longrightarrow> unat (of_nat n :: u64) = n"
  by (simp add: unat_of_nat take_bit_nat_eq_self)

lemma sg07_roundtrip:
  assumes "sg07_write_object o' = Inr b" "wf_any_object o'"
  shows "sg07_read_object (b @ rest) = Inr (aso_read_back o', rest)"
proof -
  obtain s st oid len where s: "status_to_write o' = Inr s"
      "(case s of Some code \<Rightarrow> ok_or (os_from_u64 code) InvalidField | None \<Rightarrow> Inr OsNormal) = Inr st"
    and ids: "conv_varint (aso_object_id o') = Inr oid" "conv_varint (of_nat (length (aso_payload o'))) = Inr len"
    and ext: "aso_extension_headers o' = []"
    and b: "b = object_encode \<lparr> oh_object_id = oid, oh_payload_length = len, oh_object_status = st \<rparr> @ aso_payload o'"
    using assms(1) by (auto simp: sg07_write_object_def and_then_eq_Inr split: if_splits)
  define h where "h = \<lparr> oh_object_id = oid, oh_payload_length = len, oh_object_status = st \<rparr>"
  have wf: "wf_object h" and len: "into_inner len = of_nat (length (aso_payload o'))" "into_inner oid = aso_object_id o'"
    using ids by (auto simp: h_def wf_object_def conv_varint_Inr)
  have small: "length (aso_payload o') < 2 ^ 62"
    using assms(2) by (simp add: wf_any_object_def)
  have read: "object_decode (b @ rest) = Inr (carried_object h, aso_payload o' @ rest)"
    using object_decode_encode [OF wf] by (simp add: b h_def)
  show ?thesis
  proof (cases "aso_payload o' = []")
    case True
    then obtain code where code: "s = Some code" "aso_status (aso_read_back o') = Some code"
      using status_to_write_Inr [OF s(1)] by (simp add: aso_read_back_def)
    then have "os_as_u64 st = code"
      using s(2) by (simp add: os.from_wire_iff)
    then show ?thesis
      using True code read len by (simp add: sg07_read_object_def h_def carried_object_def carried_def aso_read_back_def ext)
  next
    case False
    then have "into_inner len \<noteq> 0"
      using small by (simp add: len of_nat_zero_iff)
    then show ?thesis
      using False read len small
      by (simp add: sg07_read_object_def h_def carried_object_def conv_take_def aso_read_back_def ext unat_small)
  qed
qed

lemma sg14_roundtrip:
  assumes "sg14_write_object q o' = Inr (b, q')" "wf_any_object o'"
  shows "sg14_read_object q (b @ rest) = Inr ((aso_read_back o', q'), rest)"
proof -
  obtain s st oid where s: "status_to_write o' = Inr s"
      "(case s of Some code \<Rightarrow> and_then (ok_or (os14_from_u64 code) InvalidField) (\<lambda>s. Inr (Some s)) | None \<Rightarrow> Inr None) = Inr st"
    and oid: "conv_varint (aso_object_id o') = Inr oid"
    and w: "write_object14 q \<lparr> so14_object_id = oid, so14_extension_headers = aso_extension_headers o',
           so14_status = st, so14_payload = aso_payload o' \<rparr> = Inr (b, q')"
    using assms(1) by (auto simp: sg14_write_object_def and_then_eq_Inr)
  have st: "map_option os14_as_u64 st = aso_status (aso_read_back o')"
    using s(2) unfolding status_to_write_Inr [OF s(1), symmetric]
    by (cases s) (auto simp: and_then_eq_Inr status14.from_wire_iff)
  then have "wf_object14 \<lparr> so14_object_id = oid, so14_extension_headers = aso_extension_headers o',
           so14_status = st, so14_payload = aso_payload o' \<rparr>"
    using assms(2) oid by (auto simp: wf_object14_def wf_any_object_def conv_varint_Inr aso_read_back_def)
  then show ?thesis
    using object14_roundtrip_step [OF w] oid st
    by (auto simp: sg14_read_object_def so14_read_back_def aso_read_back_def conv_varint_Inr)
qed

lemma sw_roundtrip:
  assumes "sw_write_object w o' = Inr (b, w')" "in_step w r" "wf_any_object o'"
  obtains r' where "sr_read_object r (b @ rest) = Inr ((aso_read_back o', r'), rest)" "in_step w' r'"
proof (cases w)
  case (SwDraft07 prev)
  then show thesis
    using assms sg07_roundtrip [of o' _ rest] that
    by (auto simp: advance_absolute_id_def and_then_eq_Inr split: if_splits)
next
  case (SwDraft14 q ext)
  then show thesis
    using assms sg14_roundtrip [of q o' _ _ rest] that by (auto simp: and_then_eq_Inr)
qed

text \<open>A length is a \<open>usize\<close>; a writer that accepts an object has checked that its lengths fit a varint.
  It does not look into the extension bytes, and the draft-14 reader does.\<close>

definition held_in_memory :: "any_subgroup_object \<Rightarrow> bool" where
  "held_in_memory o' \<longleftrightarrow> length (aso_payload o') < 2 ^ 64 \<and> length (aso_extension_headers o') < 2 ^ 64"

definition extensions_parse :: "any_subgroup_object \<Rightarrow> bool" where
  "extensions_parse o' \<longleftrightarrow> (\<exists>ps. parse_object_properties Draft14 (aso_extension_headers o') = Inr ps)"

lemma varint_length: "n < 2 ^ 64 \<Longrightarrow> wf_varint (VarInt (of_nat n)) \<Longrightarrow> n < 2 ^ 62"
  by (simp add: wf_varint_def MAX_VARINT_def word_le_nat_alt unat_of_nat take_bit_nat_eq_self)

lemma written_lengths:
  assumes "sw_write_object w o' = Inr (b, w')" "held_in_memory o'"
  shows "length (aso_payload o') < 2 ^ 62 \<and> length (aso_extension_headers o') < 2 ^ 62"
proof (cases w)
  case (SwDraft07 prev)
  then have "aso_extension_headers o' = []" "wf_varint (VarInt (of_nat (length (aso_payload o'))))"
    using assms(1)
    by (auto simp: advance_absolute_id_def sg07_write_object_def and_then_eq_Inr conv_varint_Inr split: if_splits)
  then show ?thesis using assms(2) varint_length by (simp add: held_in_memory_def)
next
  case (SwDraft14 q ext)
  then have "aso_payload o' = [] \<or> wf_varint (VarInt (of_nat (length (aso_payload o'))))"
    "aso_extension_headers o' = [] \<or> wf_varint (VarInt (of_nat (length (aso_extension_headers o'))))"
    using assms(1)
    by (auto simp: sg14_write_object_def write_object14_def explicit_status14_def and_then_eq_Inr invalid_field_def from_u64_Inr
        split: if_splits option.splits)
  then show ?thesis using assms(2) varint_length by (auto simp: held_in_memory_def)
qed

lemma sr_read_parsed:
  "sr_read_object r bs = Inr ((o', r'), rest) \<Longrightarrow> r = SrDraft07 \<or> extensions_parse o'"
  by (cases r) (auto simp: extensions_parse_def sg14_read_object_def read_object14_def rd_eq_Inr and_then_eq_Inr split: if_splits)

lemma sw_draft07_bare: "sw_write_object (SwDraft07 prev) o' = Inr (b, w') \<Longrightarrow> aso_extension_headers o' = []"
  by (auto simp: advance_absolute_id_def sg07_write_object_def and_then_eq_Inr split: if_splits)

lemma no_extensions_parse: "aso_extension_headers o' = [] \<Longrightarrow> extensions_parse o'"
proof -
  have "parse_object_properties Draft14 [] = Inr (projr (parse_object_properties Draft14 []))" by code_simp
  then show "aso_extension_headers o' = [] \<Longrightarrow> extensions_parse o'" unfolding extensions_parse_def by metis
qed

lemma sw_all_iff:
  assumes "sw_write_all w os = Inr (b, w')" "in_step w r" "list_all held_in_memory os"
  shows "sr_read_all (length os) r (b @ rest) = Inr (map aso_read_back os, rest) \<longleftrightarrow> list_all extensions_parse os"
  using assms
proof (induction os arbitrary: w r b)
  case (Cons o' os)
  obtain b1 w1 b2 where b: "sw_write_object w o' = Inr (b1, w1)" "sw_write_all w1 os = Inr (b2, w')" "b = b1 @ b2"
    using Cons.prems(1) by (auto simp: and_then_eq_Inr)
  have len: "length (aso_payload o') < 2 ^ 62 \<and> length (aso_extension_headers o') < 2 ^ 62"
    using written_lengths [OF b(1)] Cons.prems(3) by simp
  show ?case
  proof (cases "extensions_parse o'")
    case True
    then have "wf_any_object o'" using len by (simp add: wf_any_object_def extensions_parse_def)
    then obtain r1 where "sr_read_object r (b1 @ b2 @ rest) = Inr ((aso_read_back o', r1), b2 @ rest)" "in_step w1 r1"
      using sw_roundtrip [OF b(1) Cons.prems(2), of "b2 @ rest"] by auto
    then show ?thesis
      using Cons.IH [OF b(2), of r1] Cons.prems(3) True by (simp add: b(3) rd_eq_Inr)
  next
    case False
    have "sr_read_all (length (o' # os)) r (b @ rest) \<noteq> Inr (map aso_read_back (o' # os), rest)"
    proof
      assume "sr_read_all (length (o' # os)) r (b @ rest) = Inr (map aso_read_back (o' # os), rest)"
      then obtain r1 bs where "sr_read_object r (b @ rest) = Inr ((aso_read_back o', r1), bs)"
        by (auto simp: rd_eq_Inr)
      from sr_read_parsed [OF this] have "r = SrDraft07 \<or> extensions_parse o'"
        by (simp add: extensions_parse_def aso_read_back_def)
      then obtain prev where "w = SwDraft07 prev" using False Cons.prems(2) by (cases w) auto
      then show False using sw_draft07_bare b(1) no_extensions_parse False by blast
    qed
    then show ?thesis using False by simp
  qed
qed simp

section \<open>Draft-14 stream headers\<close>

text \<open>What the type byte leaves out of a header.\<close>

definition wf_header14 :: "subgroup_header14 \<Rightarrow> bool" where
  "wf_header14 h \<longleftrightarrow>
     sst_from_u8 (sst_as_u8 (sg14_stream_type h)) = Some (sg14_stream_type h)
     \<and> wf_varint (sg14_track_alias h) \<and> wf_varint (sg14_group_id h)
     \<and> (case sg14_subgroup_id h of Some i \<Rightarrow> wf_varint i | None \<Rightarrow> True)"

lemma ucast_u8:
  "ucast (ucast v :: u64) = (v :: u8)" "\<not> (0xFF :: u64) < ucast v" "wf_varint (VarInt (ucast v))"
proof -
  show "ucast (ucast v :: u64) = (v :: u8)"
    by (rule bit_word_eqI) (simp add: bit_simps)
  have "unat v < 256"
    using unsigned_less [of v, where ?'a = nat] by simp
  then have "unat (ucast v :: u64) < 256"
    by (simp add: unsigned_ucast_eq take_bit_nat_eq_self)
  then show "\<not> (0xFF :: u64) < ucast v" "wf_varint (VarInt (ucast v))"
    by (simp_all add: wf_varint_def MAX_VARINT_def word_less_nat_alt word_le_nat_alt)
qed

lemma header14_roundtrip:
  assumes "subgroup14_encode_checked h = Inr b" "wf_header14 h"
  shows "subgroup14_decode (b @ rest) = Inr (h, rest)"
  using assms
  by (cases h) (auto simp: subgroup14_encode_checked_def subgroup14_encode_def subgroup14_decode_def wf_header14_def
      ucast_u8 split: if_splits option.splits)

text \<open>The flags of a subgroup stream read back from the byte they make.\<close>

lemma subgroup_flags:
  "sst_from_u8 (sst_as_u8 (sst_from_flags fld fst' ext eog)) = Some (sst_from_flags fld fst' ext eog)"
  "has_subgroup_id_field (sst_from_flags fld fst' ext eog) = fld"
  "subgroup_id_is_first_object (sst_from_flags fld fst' ext eog) = (\<not> fld \<and> fst')"
  "sst_extensions_present (sst_from_flags fld fst' ext eog) = ext"
  "contains_end_of_group (sst_from_flags fld fst' ext eog) = eog"
  by (cases fld; cases fst'; cases ext; cases eog;
      simp add: sst_from_flags_def sst_from_u8_def has_subgroup_id_field_def subgroup_id_is_first_object_def
        sst_extensions_present_def contains_end_of_group_def Let_def)+

section \<open>Draft-14 fetch objects\<close>

definition wf_fetch14 :: "fetch_object14 \<Rightarrow> bool" where
  "wf_fetch14 o' \<longleftrightarrow>
     wf_varint (fo14_group_id o') \<and> wf_varint (fo14_subgroup_id o') \<and> wf_varint (fo14_object_id o')
     \<and> length (fo14_extension_headers o') < 2 ^ 62 \<and> length (fo14_payload o') < 2 ^ 62"

lemma from_usize_eq: "VarInt (of_nat n) = from_usize n"
  by (simp add: from_usize_def)

lemma fetch14_decode_encode:
  assumes "fetch_object14_encode_checked o' = Inr b" "wf_fetch14 o'" "(fo14_status o' = None) \<noteq> (fo14_payload o' = [])"
  shows "fetch_object14_decode (b @ rest) = Inr (o', rest)"
proof -
  have checked: "check_extensions_against_status (map_option os14_as_u64 (fo14_status o'))
      (of_nat (length (fo14_extension_headers o'))) = Inr ()" "b = fetch_object14_encode o'"
    using assms(1) by (auto simp: fetch_object14_encode_checked_def and_then_eq_Inr split: if_splits)
  have "into_inner (from_usize (length (fo14_payload o'))) = 0 \<longleftrightarrow> fo14_payload o' = []"
    using assms(2) by (simp add: from_usize_def wf_fetch14_def of_nat_zero_iff)
  then show ?thesis
    using assms(2, 3) checked(1) unfolding checked(2)
    by (cases o'; cases "fo14_payload o' = []")
      (auto simp: fetch_object14_encode_def fetch_object14_decode_def wf_fetch14_def from_usize_eq)
qed

lemma usize_zero: "usize x = 0 \<longleftrightarrow> into_inner x = 0"
  by (simp add: usize_def unsigned_eq_0_iff)

lemma fetch14_read_shape:
  "fetch_object14_decode bs = Inr (o', rest) \<Longrightarrow> (fo14_status o' = None) \<noteq> (fo14_payload o' = [])"
  by (auto simp: fetch_object14_decode_def rd_eq_Inr and_then_eq_Inr get_u8_def usize_zero read_bytes_Inr
      split: if_splits)

lemma fetch14_survives_iff:
  assumes "fetch_object14_encode_checked o' = Inr b" "wf_fetch14 o'"
  shows "fetch_object14_decode (b @ rest) = Inr (o', rest) \<longleftrightarrow> (fo14_status o' = None) \<noteq> (fo14_payload o' = [])"
  by (rule iffI) (erule fetch14_read_shape, erule fetch14_decode_encode [OF assms])

text \<open>The two objects that do not: a status Normal beside a payload loses the payload; an object with
  neither writes a length of 0 and no status behind it.\<close>

lemma fetch14_normal_loses_payload:
  assumes "fo14_status o' = Some Normal14" "wf_fetch14 o'"
  shows "\<exists>b. fetch_object14_encode_checked o' = Inr b
    \<and> fetch_object14_decode (b @ rest) = Inr (o'\<lparr> fo14_payload := [] \<rparr>, rest)"
proof -
  have 1: "fetch_object14_encode_checked o' = Inr (fetch_object14_encode o')"
    using assms(1) by (simp add: fetch_object14_encode_checked_def check_extensions_against_status_def)
  have 2: "fetch_object14_encode (o'\<lparr> fo14_payload := [] \<rparr>) = fetch_object14_encode o'"
    using assms(1) by (simp add: fetch_object14_encode_def)
  have "fetch_object14_encode_checked (o'\<lparr> fo14_payload := [] \<rparr>) = Inr (fetch_object14_encode o')"
    using assms(1) 2 by (simp add: fetch_object14_encode_checked_def check_extensions_against_status_def)
  then have "fetch_object14_decode (fetch_object14_encode o' @ rest) = Inr (o'\<lparr> fo14_payload := [] \<rparr>, rest)"
    using assms by (intro fetch14_decode_encode) (simp_all add: wf_fetch14_def)
  then show ?thesis
    using 1 by blast
qed

lemma empty_object14_unread:
  assumes "write_object14 q \<lparr> so14_object_id = i, so14_extension_headers = [], so14_status = None, so14_payload = [] \<rparr> = Inr (b, q')"
    "wf_varint i"
  shows "read_object14 q b = Inl (CodecVarInt VarIntUnexpectedEnd)"
proof -
  have zero: "invalid_field (from_u64 0) = Inr (VarInt 0)"
    by (simp add: invalid_field_def from_u64_def MAX_VARINT_def)
  obtain d where d: "resolve_id (rd14_prev_object_id q) d = Inr (into_inner i)" "wf_varint (VarInt d)"
    and b: "b = varint_encode (VarInt d) @ (if rd14_extensions_present q then varint_encode (VarInt 0) else [])
      @ varint_encode (VarInt 0)"
    using assms(1) zero by (auto simp: write_object14_def explicit_status14_def check_extensions_against_status_def
        and_then_eq_Inr invalid_field_def from_u64_Inr id_delta_resolve split: if_splits)
  have read0: "vi varint_decode (varint_encode (VarInt 0)) = Inr (VarInt 0, [])"
    using vi_codec.decode_encode [of "VarInt 0" "[]"] by simp
  have "vi varint_decode [] = Inl (CodecVarInt VarIntUnexpectedEnd)"
    by (simp add: vi_def varint_decode_def)
  moreover have "invalid_field (from_u64 (into_inner i)) = Inr i"
    using assms(2) by (cases i) (simp add: invalid_field_def from_u64_Inr)
  ultimately show ?thesis
    using d unfolding b by (simp add: read_object14_def read_bytes_def usize_def read_status14_def read0)
qed

section \<open>Draft-14 datagrams\<close>

text \<open>What a datagram reads back as: its type says whether it has an Object ID and a status.\<close>

definition dg14_read_back :: "datagram14 \<Rightarrow> datagram14" where
  "dg14_read_back d =
     d\<lparr> dg14_object_id := (if dt14_object_id_present (dg14_type d) then dg14_object_id d else VarInt 0),
        dg14_status := (if dt14_is_status (dg14_type d)
                        then Some (case dg14_status d of Some s \<Rightarrow> s | None \<Rightarrow> Normal14) else None) \<rparr>"

definition wf_datagram14 :: "datagram14 \<Rightarrow> bool" where
  "wf_datagram14 d \<longleftrightarrow>
     dt14_from_u8 (dt14_as_u8 (dg14_type d)) = Some (dg14_type d)
     \<and> wf_varint (dg14_track_alias d) \<and> wf_varint (dg14_group_id d) \<and> wf_varint (dg14_object_id d)
     \<and> length (dg14_extension_headers d) < 2 ^ 62"

lemma read_all [simp]: "read_bytes bs (length bs) = Inr (bs, [])"
  by (simp add: read_bytes_def)

lemma read_status14_end [simp]: "read_status14 (varint_encode (VarInt (os14_as_u64 s))) = Inr (s, [])"
  using read_status14_put [of s "[]"] by simp

lemma datagram14_roundtrip:
  assumes "datagram14_encode_checked d = Inr b" "wf_datagram14 d"
  shows "datagram14_decode b = Inr (dg14_read_back d, [])"
proof -
  have checked: "check_extensions_against_status (map_option os14_as_u64 (dg14_status d))
      (of_nat (length (dg14_extension_headers d))) = Inr ()" "b = datagram14_encode d"
      "dt14_is_status (dg14_type d) \<longrightarrow> dg14_payload d = []"
      "dt14_extensions_present (dg14_type d) \<longleftrightarrow> dg14_extension_headers d \<noteq> []"
    using assms(1) by (auto simp: datagram14_encode_checked_def and_then_eq_Inr split: if_splits)
  have status: "check_extensions_against_status (map_option os14_as_u64 (dg14_status (dg14_read_back d)))
      (of_nat (length (dg14_extension_headers d))) = Inr ()"
    using checked(1)
    by (cases "dg14_status d") (auto simp: dg14_read_back_def check_extensions_against_status_def split: if_splits)
  show ?thesis
    using assms(2) checked(3, 4) status unfolding checked(2)
    by (cases d; cases "dt14_is_status (dg14_type d)"; cases "dt14_object_id_present (dg14_type d)";
        cases "dt14_extensions_present (dg14_type d)")
      (auto simp: datagram14_encode_def datagram14_decode_def wf_datagram14_def dg14_read_back_def from_usize_eq ucast_u8)
qed

end
