(* ===== verification/Stream_Properties.thy ===== *)
theory Stream_Properties
  imports Framer_Elide Dispatch_Laws
begin

text \<open>
  The properties of the data streams: what the draft-neutral writer and readers agree on, and what the proxy's
  framer does to a stream it cuts into objects, with the input each is tried on.
\<close>

section \<open>Samples\<close>

text \<open>A draft-14 subgroup stream of three objects with ids 0, 1 and 2, and a proxy that leaves out the second.\<close>

definition sample_header :: bytes where
  "sample_header = [0x10, 1, 0, 128]"

definition sample_stream :: bytes where
  "sample_stream = sample_header @ [0, 1, 7, 0, 1, 8, 0, 1, 9]"

definition sample_pipe :: "pipe_event list" where
  "sample_pipe = [Arrives sample_stream, Turn True, Turn True, Turn False, Turn True]"

definition sample_framer :: framer where
  "sample_framer = framer_new StreamSubgroup Draft14 64"

text \<open>The framer past the stream header, with one byte of the first object behind it.\<close>

definition sample_at_object :: framer where
  "sample_at_object = snd (poll (feed (sample_header @ [0]) sample_framer))"

lemmas sample_defs = sample_header_def sample_stream_def sample_pipe_def sample_framer_def sample_at_object_def

section \<open>The framer\<close>

text \<open>C9. A proxy that drops objects from a subgroup stream does not change the others: whatever objects it
  leaves out, and wherever the stream's bytes were cut on the way in, the reader at the destination, started
  from the same header, reads the objects that were kept with the ids, lengths and statuses they had at the
  source, although on draft 14 an id is written as a distance from the object before it.\<close>

theorem survivors_keep_their_ids:
  assumes "pipe es (framer_new StreamSubgroup d cap) = (rs, f)" "followed rs" "forwarded rs \<noteq> []"
  shows "\<exists>hdr h r src dst. arrived es = hdr @ src @ fr_buf f \<and> forwarded rs = hdr @ dst
    \<and> any_subgroup_decode_stream d hdr = Inr (h, []) \<and> subgroup_reader_new h = Inr r
    \<and> reads_as r (seen rs) src \<and> reads_as r (kept rs) dst"
  using awaiting_run [OF awaiting_new assms]
  by (simp add: framer_new_def framer_with_recorder_def)

lemma sample_pipe_forwards:
  "followed (fst (pipe sample_pipe sample_framer)) \<and> forwarded (fst (pipe sample_pipe sample_framer))
     = [0x10, 1, 0, 128, 0, 1, 7, 1, 1, 9]"
  by code_simp

theorem survivors_keep_their_ids_witness:
  "\<exists>hdr h r src dst. arrived sample_pipe = hdr @ src @ fr_buf (snd (pipe sample_pipe sample_framer))
    \<and> [0x10, 1, 0, 128, 0, 1, 7, 1, 1, 9] = hdr @ dst
    \<and> any_subgroup_decode_stream Draft14 hdr = Inr (h, []) \<and> subgroup_reader_new h = Inr r
    \<and> reads_as r (seen (fst (pipe sample_pipe sample_framer))) src
    \<and> reads_as r (kept (fst (pipe sample_pipe sample_framer))) dst"
  using survivors_keep_their_ids [of sample_pipe Draft14 64 "fst (pipe sample_pipe sample_framer)"
      "snd (pipe sample_pipe sample_framer)"] sample_pipe_forwards
  by (simp add: sample_framer_def)

text \<open>C10. Nothing is lost or invented: whatever is fed to a fresh framer and however often it is polled, the
  bytes it hands out, in order, followed by the bytes it still holds are the bytes it was fed, through
  every header, object, bypass and decoding error.\<close>

theorem stream_passes_unchanged:
  assumes "framer_run cs (framer_new st d cap) = (outs, f)"
  shows "concat (map out_bytes outs) @ fr_buf f = fed cs"
  using run_conserves [OF assms] by (simp add: framer_new_def framer_with_recorder_def)

definition sample_calls :: "framer_call list" where
  "sample_calls = [Feed [0x10, 1], Poll, Feed [0, 128, 0, 1], Poll, Poll, Feed [7], Poll]"

theorem stream_passes_unchanged_witness:
  "concat (map out_bytes (fst (framer_run sample_calls sample_framer)))
     @ fr_buf (snd (framer_run sample_calls sample_framer)) = [0x10, 1, 0, 128, 0, 1, 7]"
  using stream_passes_unchanged [of sample_calls StreamSubgroup Draft14 64
      "fst (framer_run sample_calls sample_framer)" "snd (framer_run sample_calls sample_framer)"]
  by (simp add: sample_framer_def sample_calls_def)

text \<open>C11. An object is framed at its end, wherever its bytes were cut: a framer waiting for an object that holds
  the first part of a stream whose next object is \<open>obj\<close> asks for more while part of the object is missing,
  and once it is all there hands out exactly those bytes with the metadata the whole stream gives.\<close>

theorem object_framed_at_any_cut:
  assumes "at_object f" "fr_buf f = taken" "taken @ later = obj @ behind"
    "probe_stage (fr_stage f) (obj @ behind) = Inr (Some (p, m, fm), behind)"
    "length obj \<le> fr_max_buffered f"
  shows "if length taken < length obj
    then \<exists>f'. poll f = (OutNeedMore, f') \<and> fr_buf f' = taken \<and> fr_stage f' = fr_stage f
    else \<exists>f'. poll f = (OutObject (object_meta_of m f) obj, f') \<and> fr_buf f' = drop (length obj) taken"
  using object_from_prefix [OF assms] by (simp add: not_less)

definition sample_meta :: any_subgroup_meta where
  "sample_meta = \<lparr> asm_object_id = 0, asm_payload_length = 1, asm_status = None,
     asm_extension_headers_len = 0, asm_wire_len = 3 \<rparr>"

definition sample_next :: reader14 where
  "sample_next = \<lparr> rd14_extensions_present = False, rd14_prev_object_id = Some 0 \<rparr>"

lemma sample_cut:
  "at_object sample_at_object \<and> fr_buf sample_at_object = [0] \<and> 3 \<le> fr_max_buffered sample_at_object"
  by code_simp

lemma sample_probe:
  "probe_stage (fr_stage sample_at_object) [0, 1, 7]
     = Inr (Some (ProbeSubgroup (SrDraft14 sample_next), MetaSub sample_meta, None), [])"
  by code_simp

theorem object_framed_at_any_cut_witness:
  "\<exists>f'. poll sample_at_object = (OutNeedMore, f') \<and> fr_buf f' = [0] \<and> fr_stage f' = fr_stage sample_at_object"
  using object_framed_at_any_cut [of sample_at_object "[0]" "[1, 7]" "[0, 1, 7]" "[]"
      "ProbeSubgroup (SrDraft14 sample_next)" "MetaSub sample_meta" None] sample_cut sample_probe
  by simp

text \<open>C13. A stream is given up once: over any calls on a fresh framer at most one bypass is reported, a stream
  that was given up has its report made or waiting, and the count of streams that could not be shaped is one
  for such a stream and zero for any other.\<close>

theorem stream_given_up_once:
  assumes "framer_run cs (framer_new st d cap) = (outs, f)"
  shows "length (filter is_bypassed_out outs) + waiting_report f = of_bool (fr_bypassed f)
    \<and> fc_streams_not_shapeable (fr_counters f) = of_bool (fr_bypassed f)"
proof -
  have "sum_list (map bypass_report outs) = length (filter is_bypassed_out outs)"
    by (induction outs) (auto simp: bypass_report_def)
  then show ?thesis
    using run_reports [OF assms] by (simp add: framer_new_def framer_with_recorder_def waiting_report_def)
qed

text \<open>Bytes that begin no draft-14 subgroup stream.\<close>

definition sample_refused :: "framer_call list" where
  "sample_refused = [Feed [0, 0, 0], Poll, Poll]"

theorem stream_given_up_once_witness:
  "length (filter is_bypassed_out (fst (framer_run sample_refused sample_framer))) = 1
    \<and> fc_streams_not_shapeable (fr_counters (snd (framer_run sample_refused sample_framer))) = 1"
proof -
  let ?r = "framer_run sample_refused sample_framer"
  have "fr_bypassed (snd ?r) \<and> waiting_report (snd ?r) = 0"
    by code_simp
  then show ?thesis
    using stream_given_up_once [of sample_refused StreamSubgroup Draft14 64 "fst ?r" "snd ?r"]
    by (simp add: sample_framer_def)
qed

text \<open>C12. A caller that polls until it is told to wait is told to after at most three polls per byte held and
  three more, and what the framer then still holds is shorter than its limit.\<close>

theorem polling_ends:
  "\<exists>n \<le> 3 * length (fr_buf f) + 3. \<exists>f'. poll (polls n f) = (OutNeedMore, f')
     \<and> (fr_buf f' = [] \<or> length (fr_buf f') < fr_max_buffered f')"
proof -
  obtain n f' where n: "n \<le> work_left f" "poll (polls n f) = (OutNeedMore, f')"
    using polls_end [of f] by (metis prod.collapse)
  then have "n \<le> 3 * length (fr_buf f) + 3"
    by (auto simp: work_left_def split: if_splits)
  then show ?thesis
    using n(2) poll_waits by blast
qed

section \<open>The readers and writers\<close>

text \<open>C14. Whatever draft the header is of, the objects a subgroup writer accepts, one after another, are the
  objects a reader of the same header reads back from the bytes written, and nothing else is taken, exactly
  when the extension bytes of each parse, which a draft-14 reader checks and no writer does (a draft-07 object
  has none); a status beside a payload is left out, as it goes without saying, and an empty object reads
  with its status. A payload or an extension block is shorter than \<open>2 ^ 64\<close> bytes, the range of \<open>usize\<close>.\<close>

theorem subgroup_roundtrip:
  assumes "subgroup_writer_new h = Inr w" "subgroup_reader_new h = Inr r" "sw_write_all w os = Inr (b, w')"
    and "list_all (\<lambda>o'. length (aso_payload o') < 2 ^ 64 \<and> length (aso_extension_headers o') < 2 ^ 64) os"
  shows "sr_read_all (length os) r (b @ rest) = Inr (map aso_read_back os, rest)
    \<longleftrightarrow> list_all (\<lambda>o'. \<exists>ps. parse_object_properties Draft14 (aso_extension_headers o') = Inr ps) os"
  using sw_all_iff [OF assms(3) sw_new_in_step [OF assms(1, 2)]] assms(4)
  by (simp add: held_in_memory_def [abs_def] extensions_parse_def [abs_def])

text \<open>A draft-14 subgroup of two objects, the second empty and the last of its group.\<close>

definition sample_open :: any_subgroup_header where
  "sample_open = AsgDraft14
     \<lparr> sg14_stream_type = SubgroupType14 0x10, sg14_track_alias = VarInt 1, sg14_group_id = VarInt 0,
       sg14_subgroup_id = None, sg14_publisher_priority = 128 \<rparr>"

definition sample_writer :: subgroup_writer where
  "sample_writer = projr (subgroup_writer_new sample_open)"

definition sample_reader :: subgroup_reader where
  "sample_reader = projr (subgroup_reader_new sample_open)"

definition sample_objects :: "any_subgroup_object list" where
  "sample_objects =
     [\<lparr> aso_object_id = 4, aso_extension_headers = [], aso_extension_count = None, aso_status = Some 0, aso_payload = [7] \<rparr>,
      \<lparr> aso_object_id = 9, aso_extension_headers = [], aso_extension_count = None, aso_status = Some 3, aso_payload = [] \<rparr>]"

definition sample_written :: "bytes \<times> subgroup_writer" where
  "sample_written = projr (sw_write_all sample_writer sample_objects)"

lemma sample_written:
  "subgroup_writer_new sample_open = Inr sample_writer" "subgroup_reader_new sample_open = Inr sample_reader"
  "sw_write_all sample_writer sample_objects = Inr (fst sample_written, snd sample_written)"
  "fst sample_written = [4, 1, 7, 4, 0, 3]"
  by code_simp+

text \<open>The same stream with extension blocks, and an object whose extension bytes are no properties.\<close>

definition broken_open :: any_subgroup_header where
  "broken_open = AsgDraft14
     \<lparr> sg14_stream_type = SubgroupType14 0x11, sg14_track_alias = VarInt 1, sg14_group_id = VarInt 0,
       sg14_subgroup_id = None, sg14_publisher_priority = 128 \<rparr>"

definition broken_object :: any_subgroup_object where
  "broken_object =
     \<lparr> aso_object_id = 4, aso_extension_headers = [1], aso_extension_count = None, aso_status = None, aso_payload = [7] \<rparr>"

lemma broken_written:
  "subgroup_writer_new broken_open = Inr (projr (subgroup_writer_new broken_open))"
  "subgroup_reader_new broken_open = Inr (projr (subgroup_reader_new broken_open))"
  "sw_write_all (projr (subgroup_writer_new broken_open)) [broken_object]
     = Inr ([4, 1, 1, 1, 7], snd (projr (sw_write_all (projr (subgroup_writer_new broken_open)) [broken_object])))"
  "case parse_object_properties Draft14 [1] of Inl e \<Rightarrow> True | Inr ps \<Rightarrow> False"
  by code_simp+

theorem subgroup_roundtrip_witness:
  "sr_read_all 2 sample_reader [4, 1, 7, 4, 0, 3, 5]
     = Inr ([\<lparr> aso_object_id = 4, aso_extension_headers = [], aso_extension_count = None, aso_status = None, aso_payload = [7] \<rparr>,
        \<lparr> aso_object_id = 9, aso_extension_headers = [], aso_extension_count = None, aso_status = Some 3, aso_payload = [] \<rparr>], [5])
   \<and> sr_read_all 1 (projr (subgroup_reader_new broken_open)) [4, 1, 1, 1, 7] \<noteq> Inr ([broken_object], [])"
proof
  have "\<exists>ps. parse_object_properties Draft14 [] = Inr ps"
    by (rule exI [of _ "projr (parse_object_properties Draft14 [])"]) code_simp
  moreover have "list_all (\<lambda>o'. length (aso_payload o') < 2 ^ 64 \<and> length (aso_extension_headers o') < 2 ^ 64) sample_objects"
    by (simp add: sample_objects_def)
  ultimately have "sr_read_all (length sample_objects) sample_reader (fst sample_written @ [5])
      = Inr (map aso_read_back sample_objects, [5])"
    by (subst subgroup_roundtrip [OF sample_written(1-3)]) (simp_all add: sample_objects_def)
  moreover have "length sample_objects = 2" by (simp add: sample_objects_def)
  ultimately show "sr_read_all 2 sample_reader [4, 1, 7, 4, 0, 3, 5]
     = Inr ([\<lparr> aso_object_id = 4, aso_extension_headers = [], aso_extension_count = None, aso_status = None, aso_payload = [7] \<rparr>,
        \<lparr> aso_object_id = 9, aso_extension_headers = [], aso_extension_count = None, aso_status = Some 3, aso_payload = [] \<rparr>], [5])"
    by (simp only: sample_written(4) append.simps) (simp add: sample_objects_def aso_read_back_def)
  show "sr_read_all 1 (projr (subgroup_reader_new broken_open)) [4, 1, 1, 1, 7] \<noteq> Inr ([broken_object], [])"
    using subgroup_roundtrip [OF broken_written(1-3), of "[]"] broken_written(4)
    by (auto simp: broken_object_def aso_read_back_def split: sum.splits)
qed

text \<open>C15. The draft-14 metadata reader agrees with the object reader: it refuses only what the object reader
  refuses, with the same error; and where it goes on, the object reader ends at the same byte in the same
  state with an object of that metadata, unless the extension bytes do not parse.\<close>

theorem metadata_reader_agrees:
  "case read_meta14 r bs of
     Inl e \<Rightarrow> read_object14 r bs = Inl e
   | Inr ((m, r'), rest) \<Rightarrow>
       (\<exists>pre ext post. bs = pre @ ext @ post \<and> sm14_extension_headers_len m = of_nat (length ext)
          \<and> (case parse_object_properties Draft14 ext of
               Inl e \<Rightarrow> read_object14 r bs = Inl e
             | Inr ps \<Rightarrow> \<exists>o'. read_object14 r bs = Inr ((o', r'), rest) \<and> so14_extension_headers o' = ext
                 \<and> m = so14_meta o' (length bs - length rest)))"
proof (cases "read_meta14 r bs")
  case (Inl e)
  then show ?thesis
    using object14_error_of_meta by simp
next
  case (Inr x)
  obtain m r' rest where x: "x = ((m, r'), rest)"
    by (metis prod.exhaust)
  obtain pre ext post where ext: "bs = pre @ ext @ post" "sm14_extension_headers_len m = of_nat (length ext)"
      "object14_for r bs r' rest ext"
    using object14_of_meta Inr x by metis
  have "m = so14_meta o' (length bs - length rest)" if "read_object14 r bs = Inr ((o', r'), rest)" for o'
    using read_meta14_of_object [OF that] Inr x by simp
  then have "case parse_object_properties Draft14 ext of
               Inl e \<Rightarrow> read_object14 r bs = Inl e
             | Inr ps \<Rightarrow> \<exists>o'. read_object14 r bs = Inr ((o', r'), rest) \<and> so14_extension_headers o' = ext
                 \<and> m = so14_meta o' (length bs - length rest)"
    using ext(3) by (auto simp: object14_for_def split: sum.splits)
  then show ?thesis
    using Inr x ext(1, 2) by auto
qed

text \<open>C16. A draft-14 fetch object that the checked encoder accepts is read back as it was, whatever follows it,
  exactly if it has a status or a payload and not both: the encoder also accepts the status Normal beside a
  payload, which it does not write, and an object with neither, which it writes without a status.\<close>

theorem fetch_object_survives_iff:
  assumes "fetch_object14_encode_checked o' = Inr b" "wf_fetch14 o'"
  shows "fetch_object14_decode (b @ rest) = Inr (o', rest) \<longleftrightarrow> (fo14_status o' = None) \<noteq> (fo14_payload o' = [])"
  using fetch14_survives_iff [OF assms] .

definition sample_fetch :: fetch_object14 where
  "sample_fetch =
     \<lparr> fo14_group_id = VarInt 1, fo14_subgroup_id = VarInt 0, fo14_object_id = VarInt 5, fo14_publisher_priority = 128,
       fo14_extension_headers = [], fo14_status = Some Normal14, fo14_payload = [7] \<rparr>"

text \<open>The object the checked encoder accepts and no reader gets back.\<close>

theorem fetch_object_survives_iff_witness:
  "fetch_object14_decode [1, 0, 5, 128, 0, 0, 0, 9] \<noteq> Inr (sample_fetch, [9])"
proof -
  have "fetch_object14_encode_checked sample_fetch = Inr [1, 0, 5, 128, 0, 0, 0]"
    by code_simp
  moreover have "wf_fetch14 sample_fetch"
    by (simp add: wf_fetch14_def sample_fetch_def wf_varint_def MAX_VARINT_def)
  ultimately show ?thesis
    using fetch_object_survives_iff [of sample_fetch "[1, 0, 5, 128, 0, 0, 0]" "[9]"]
    by (simp add: sample_fetch_def)
qed

end
