(* ===== verification/Spec2Isabelle.thy ===== *)
theory Spec2Isabelle
  imports
    Codec_Properties
    Message_Properties
    Client_Properties
    Draft07_Sessions
    Findings07
    Netem_Properties
    Netem_Control_Properties
    Egress_Properties
    Stream_Properties
begin

text \<open>
  A verification development of moqtap, a Media over QUIC Transport toolkit in Rust. Its crates
  are the codec (\<open>src/crates/moqtap-codec\<close>: bytes to messages and back, for drafts 07 to 22 of the
  protocol), the client (\<open>src/crates/moqtap-client\<close>: one endpoint per draft, a state machine that the
  application and the peer's messages drive), the proxy (\<open>moqtap-proxy\<close>), the network emulator
  (\<open>quinn-netem\<close>) and the trace and monitor crates. The client's endpoint calls the codec only
  through message values: what it sends is encoded, carried by a stream and decoded at the peer.

  \<^bold>\<open>The codec.\<close> \<open>Codec_Errors\<close> holds the error values of \<open>error.rs\<close>, \<open>kvp.rs\<close> and \<open>varint.rs\<close>;
  \<open>Varint_Codec\<close> and \<open>Moqt_Varint\<close> the two integer encodings of \<open>varint.rs\<close>; \<open>Draft_Version\<close> the
  table of drafts of \<open>version.rs\<close>; \<open>Wire_Types\<close> the namespaces, locations and small enums of
  \<open>types.rs\<close>; \<open>Kvp\<close>, \<open>Auth_Token\<close>, \<open>Subscription_Filter\<close>, \<open>Range_Filter\<close> and \<open>Object_Properties\<close>
  the files of those names. \<open>Draft07_Codes\<close>, \<open>Draft07_Message\<close> (message records and checks),
  \<open>Draft07_Payload\<close> (the 25 payload encoders and decoders), \<open>Draft07_Roundtrip\<close> and \<open>Draft07_Frame\<close>
  (the frame around them) model \<open>draft07/message.rs\<close>; \<open>Draft07_Data\<close> models
  \<open>draft07/data_stream.rs\<close>. A decoder is a function from the bytes left in the buffer to an error or
  to a value and the bytes left after it; an encoder that can refuse returns an error or the bytes
  it appends. The locales \<open>wire_codec\<close>, \<open>sound_codec\<close> and \<open>shortest_codec\<close> of \<open>Prelude\<close> state what a decoder promises (it inverts its
  encoder, consumes input, and its answer stands when more bytes arrive) and are interpreted on each
  of them; the lemmas are round trips, the shortness of encodings, what a decoded value satisfies,
  and the stability of answers while a buffer grows.

  \<^bold>\<open>The client.\<close> \<open>Session_Flow\<close> and \<open>Request_Flows\<close> hold the state machines of
  \<open>moqtap-client/src/draft07\<close> (session, subscribe ids, setup, subscriptions, fetches, announces,
  track status), each an instance of the locale \<open>lifecycle\<close> (a rank that every accepted step raises);
  \<open>Tracks\<close> the tables of \<open>forwarding_preference.rs\<close>, \<open>malformed_tracks.rs\<close> and
  \<open>track_locations.rs\<close>. \<open>Endpoint07\<close> and \<open>Endpoint07_Names\<close> translate \<open>draft07/endpoint.rs\<close>: the
  endpoint is a record, each method a function that returns its result and the new record, whether
  it succeeds or not, and \<open>receive_message\<close> dispatches on the message. \<open>Endpoint07_Moves\<close> is the
  abstract specification, a step relation \<open>ep_move\<close> of atomic moves, with the lemma that every call
  is a sequence of moves; \<open>Endpoint07_Inv\<close> states the invariants, proved once per move through the
  locale \<open>endpoint_invariant\<close>; \<open>Endpoint07_Calls\<close> says exactly when the calls succeed and what a
  refusal leaves. \<open>Draft07_Sessions\<close> composes two endpoints.

  \<^bold>\<open>The network emulator\<close> (\<open>quinn-netem/src\<close>). \<open>Netem_Base\<close> holds ticks, directions and the size of a
  datagram on the wire (\<open>lib.rs\<close>, \<open>wire.rs\<close>, \<open>consts.rs\<close>); \<open>Netem_Rng\<close> the generator of \<open>rng.rs\<close>, with
  the proof that it visits every state and the bounded draw therefore ends; \<open>Netem_Queue\<close> the token
  bucket and the byte queue of \<open>queue.rs\<close>, with what a run of the bucket may release; \<open>Netem_Model\<close> the
  impairment models of \<open>model.rs\<close> and the delay samples of \<open>dist/mod.rs\<close>; \<open>Netem_Profile\<close> profiles,
  validation and presets (\<open>profile.rs\<close>). \<open>Netem_Engine\<close> translates \<open>engine.rs\<close>: \<open>decide\<close> runs the stages
  of the source in their order, each a function from the engine to its answer and the engine with the
  streams it drew from. \<open>Netem_Laws\<close> shows every decision is reached, well formed and counted once,
  \<open>Netem_Separate\<close> compares two engines of which one lacks some models, and \<open>Netem_Shaping\<close> ties the
  bucket's deficit to the queue's backlog.
  \<open>Netem_Stats\<close> holds the live counters of \<open>stats.rs\<close> and \<open>Netem_Log\<close> the decision log of \<open>log.rs\<close>, its
  text and its comparison with a fixture. \<open>Netem_Control\<close> translates \<open>control.rs\<close>: the state behind the
  lock is a record, each method a function of it, an instant an argument. \<open>Netem_Control_Inv\<close> states
  what holds of it (each live link runs the profile its settings call for and draws from the seed they
  call for, ordinals are not reused,
  counters conserve), \<open>Netem_Control_Ops\<close> that every operation keeps it, and \<open>Netem_Control_Run\<close> treats
  runs of operations: the gauge as a sum, and what one peer's operations leave of another.

  \<^bold>\<open>The proxy's shaper\<close> (\<open>moqtap-proxy/src/shape\<close> and \<open>egress.rs\<close>). \<open>Shape_Matcher\<close> holds the range
  sets and matchers of \<open>matcher.rs\<close>, \<open>Shape_Bucket\<close> the token bucket of \<open>bucket.rs\<close>, \<open>Shape_Profile\<close> the
  configuration and its validation (\<open>mod.rs\<close>), \<open>Shape_Scheduler\<close> every operation of \<open>scheduler.rs\<close> and
  \<open>Shape_Stats\<close> the counters of \<open>stats.rs\<close>. The scheduler is one record; each call is a function of it.
  \<open>Shape_Laws\<close> states its invariant (a class is parked only behind one that can go, a gate handed out is
  open or still parked) and the step of each operation; \<open>Shape_Gates\<close> that a refusal names something to
  come; \<open>Shape_Fairness\<close> the shares of the disciplines and the rate of a bucket; \<open>Shape_Classify\<close> the first
  match and the reports over mixed objects and datagrams; \<open>Shape_Stats_Laws\<close> that the proxy's counters are,
  row by row and since the last reset, the sums of its sessions'.
  \<open>Pending_Queue\<close> translates the queue of \<open>egress.rs\<close>: a step is a function of the queue and of what its
  session shares (scheduler, counters, gauge). \<open>Pending_Laws\<close> shows what each operation may touch of it,
  \<open>Pending_Order\<close> and \<open>Pending_Run\<close> the order of units, what a reset abandons and the waits of the head, \<open>Pending_Session\<close> any
  number of queues run in any interleaving. \<open>Egress_Drain\<close> holds the drains, the session closer and what
  the data pipes of \<open>session.rs\<close> do to a shaped unit, with the transport as two functions of a sink;
  \<open>Shape_Conserve\<close> follows the bytes of a pipe through resets, clears and flushes, and \<open>Egress_Teardown\<close> those of a flush.

  \<^bold>\<open>Data streams of two drafts, and the proxy's framer.\<close> \<open>Draft14_Data\<close> translates
  \<open>draft14/data_stream.rs\<close>, where an Object ID is written as its distance from the one before it, and
  \<open>Draft14_Laws\<close> shows that its metadata reader keeps its answer when more bytes arrive. \<open>Data_Dispatch\<close>
  holds the draft-neutral readers and writers of \<open>data_dispatch.rs\<close> and the stream headers of
  \<open>dispatch.rs\<close> in the build whose features are draft07 and draft14, one draft of each way to write an
  ID; another draft takes the arm of a draft that is not compiled in. \<open>Dispatch_Laws\<close> shows that
  writers and readers agree and which objects an encoder loses. \<open>Framer\<close> translates \<open>framer.rs\<close>: a
  framer is a record, \<open>feed\<close>, \<open>poll\<close>, \<open>note_elided\<close> and \<open>finish\<close> are functions of it, and the recorder
  and the fetch orders it shares with its session are fields of it, so that what other streams write there
  is not seen. The padding behind a chunk that is measured is a list of zeros, of up to \<open>2^63\<close> of them as in
  the code, and no witness reads it. \<open>Framer_Laws\<close> shows that bytes are conserved and what a poll may take,
  \<open>Framer_Runs\<close> that polling ends, that a bypass is reported once and that framing does not depend on the
  cuts, and \<open>Framer_Elide\<close> follows a pipe that drops objects, with the reader at its far end.
  \<open>Stream_Properties\<close> states the properties.
  \<^bold>\<open>Properties.\<close> \<open>Codec_Properties\<close>, \<open>Message_Properties\<close>, \<open>Client_Properties\<close>, \<open>Netem_Properties\<close>,
  \<open>Netem_Control_Properties\<close>,
  \<open>Shape_Properties\<close>, \<open>Egress_Properties\<close>, \<open>Stream_Properties\<close> and this theory state
  the properties by their claim ids, each with a run at a concrete input where it has hypotheses.
  \<open>Findings07\<close> evaluates the encoder where its documentation claims more than it does.

  \<^bold>\<open>Representation.\<close> A Rust integer of a fixed width is a word of that width; \<open>usize\<close>, on the
  64-bit targets, is a \<open>nat\<close> below \<open>2^64\<close>, and where a length meets the wire the bound \<open>2^62\<close> of a
  varint is a hypothesis. A \<open>HashMap\<close> is an association list read by \<open>map_of\<close> and written by
  \<open>AList.update\<close>; the theorems that depend on an iteration hold in every order of it. A panic is an
  error value of its own. Strings are lists of characters, byte strings lists of 8-bit words.
  The only loop whose end needs an argument is the search for a free Track Alias: it stops because
  a session cannot hold \<open>2^64\<close> bindings, and the model returns no alias only then.
  The emulator's \<open>u128\<close> counts and its \<open>u64\<close> counters are natural numbers, an \<open>i64\<close> of a delay is an
  integer with the saturating operations written out, and the generated quantile tables are a
  parameter, about which nothing is assumed.
  Ordinals of peers and instants (in nanoseconds) are natural numbers, the atomic counters words that
  wrap; each call on the shared handle is one step. A text of the log has the first 256 code points.
  \<^bold>\<open>Not modelled.\<close> The asynchronous connections and transports, which move bytes between the endpoint
  and a QUIC library; the dispatch enums of messages and datagrams, which forward each call to one
  draft's type; drafts 08 to 22, which repeat draft-07's structure with their own messages (of draft-14 the
  data streams are modelled); the field and name tables; of
  the emulator its asynchronous socket and the one constructor from a float; of the proxy the
  hooks with their deferred effects, the control pipes and the transport (the proxy reads
  the time, so an instant is an argument of each step; the race of a drain against cancellation is the
  list of what won it); the trace files; the monitor; and the vendored library.
\<close>

section \<open>Two endpoints and the wire\<close>

lemma demo_setup:
  "check_role demo_parameters = Inr ()" "readable_max demo_parameters" "\<not> has_path demo_parameters"
  "cm_encode (CmServerSetup \<lparr> ss_selected_version = VarInt DRAFT_VERSION,
     ss_parameters = demo_parameters \<rparr>)
   = Inr [64, 65, 15, 192, 0, 0, 0, 255, 0, 0, 7, 2, 0, 1, 3, 2, 1, 10]"
  "cm_encode (CmClientSetup \<lparr> cs_supported_versions = [VarInt DRAFT_VERSION],
     cs_parameters = demo_parameters \<rparr>)
   = Inr [64, 64, 16, 1, 192, 0, 0, 0, 255, 0, 0, 7, 2, 0, 1, 3, 2, 1, 10]"
  "cm_encode (CmSubscribe demo_request) = Inr [3, 14, 0, 4, 2, 2, 1, 2, 1, 3, 1, 9, 1, 1, 1, 0]"
proof -
  have "setup_varint (KvpBytes [10]) = Some 10" by code_simp
  then show "readable_max demo_parameters"
    by (simp add: readable_max_def demo_parameters_def)
qed code_simp+

text \<open>C4. The setup exchange works end to end: a client's CLIENT_SETUP and a server's SERVER_SETUP,
  encoded, sent and read, leave both ends active in draft-07, and the ceiling each end may count
  its subscribe ids up to is the one its peer advertised.\<close>

theorem setup_over_the_wire:
  assumes vs: "VarInt DRAFT_VERSION \<in> set vs"
    and cps: "check_role cps = Inr ()" "readable_max cps"
    and sps: "check_role sps = Inr ()" "readable_max sps" "\<not> has_path sps"
    and c0: "ep_connect (endpoint_new RoleClient) = (Inr (), c0)"
    and s0: "ep_connect (endpoint_new RoleServer) = (Inr (), s0)"
    and sent: "send_client_setup vs cps c0 = (Inr cmsg, c1)" "cm_encode cmsg = Inr b1"
    and answer: "cm_encode (CmServerSetup
        \<lparr> ss_selected_version = VarInt DRAFT_VERSION, ss_parameters = sps \<rparr>) = Inr b2"
    and fits: "wf_message cmsg" "length b1 < 2 ^ 62" "wf_kvp_list_d07 sps" "length b2 < 2 ^ 62"
  shows "\<exists>cs ss s1 c2. cm_decode b1 = Inr (CmClientSetup cs, [])
    \<and> receive_client_setup_and_respond_with cs (VarInt DRAFT_VERSION) sps s0
        = (Inr (CmServerSetup ss), s1)
    \<and> cm_decode b2 = Inr (CmServerSetup ss, []) \<and> receive_server_setup ss c1 = (Inr (), c2)
    \<and> setup_done c2 s1 \<and> setup_done s1 c2"
proof -
  let ?cs = "\<lparr> cs_supported_versions = vs, cs_parameters = cps \<rparr>"
  let ?ss = "\<lparr> ss_selected_version = VarInt DRAFT_VERSION, ss_parameters = sps \<rparr>"
  obtain c1' s1 c2 where run: "send_client_setup vs cps c0 = (Inr (CmClientSetup ?cs), c1')"
      "receive_client_setup_and_respond_with ?cs (VarInt DRAFT_VERSION) sps s0
         = (Inr (CmServerSetup ?ss), s1)"
      "receive_server_setup ?ss c1' = (Inr (), c2)" "setup_done c2 s1" "setup_done s1 c2"
    using handshake_states [OF vs cps sps c0 s0] .
  have "cmsg = CmClientSetup ?cs" "c1' = c1" using run(1) sent(1) by simp_all
  moreover have "wf_message (CmServerSetup ?ss)"
    using fits(3) by (simp add: wf_message_def wf_server_setup_def wf_varint_def MAX_VARINT_def
        DRAFT_VERSION_def)
  ultimately show ?thesis
    using run cm_roundtrip [OF sent(2) fits(1,2), of "[]"]
      cm_roundtrip [OF answer _ fits(4), of "[]"] by auto
qed

theorem setup_over_the_wire_witness: "\<exists>c s. setup_done c s \<and> setup_done s c"
proof -
  let ?cmsg = "CmClientSetup \<lparr> cs_supported_versions = [VarInt DRAFT_VERSION],
     cs_parameters = demo_parameters \<rparr>"
  obtain c0 where c0: "ep_connect (endpoint_new RoleClient) = (Inr (), c0)"
    by (simp add: ep_connect_def on_session_def on_connect_def endpoint_new_def session_new_def)
  obtain s0 where s0: "ep_connect (endpoint_new RoleServer) = (Inr (), s0)"
    by (simp add: ep_connect_def on_session_def on_connect_def endpoint_new_def session_new_def)
  obtain c1 where c1: "send_client_setup [VarInt DRAFT_VERSION] demo_parameters c0 = (Inr ?cmsg, c1)"
    using demo_setup(1) by (simp add: send_client_setup_def ep_runs validate_client_setup_def
        record_advertised_max_def)
  have "wf_message ?cmsg"
    by (simp add: wf_message_def wf_client_setup_def demo_wf wf_varint_def MAX_VARINT_def
        DRAFT_VERSION_def)
  then show ?thesis
    using setup_over_the_wire [OF _ demo_setup(1,2,1,2,3) c0 s0 c1 demo_setup(5,4)] demo_wf(1)
    by auto
qed

text \<open>C5. A subscription works end to end: the SUBSCRIBE one end builds, encoded, sent and read, is
  accepted by a peer that has room for its id and its alias, and the SUBSCRIBE_OK the peer builds,
  encoded, sent and read, makes the subscription active at both ends.\<close>

theorem subscription_over_the_wire:
  assumes opened: "ep_subscribe al ns name prio go ft c = (Inr (i, msg), c')"
    and room: "fresh_id s (into_inner i)" "alias_holder s (into_inner al) ns name = None"
      "ns_fields ns \<notin> set (ep_announce_cancelled s)"
    and wire: "cm_encode msg = Inr b" "length b < 2 ^ 62" "wf_message msg"
  shows "\<exists>m s'. cm_decode b = Inr (CmSubscribe m, [])
    \<and> receive_message (CmSubscribe m) s = (Inr (), s') \<and> pending_subscribe s' i = Some m
    \<and> (\<forall>x go' ps reply s'' b'. send_subscribe_ok i x go' ps s' = (Inr reply, s'')
          \<and> cm_encode reply = Inr b' \<and> length b' < 2 ^ 62 \<and> wf_message reply \<longrightarrow>
        (\<exists>c''. cm_decode b' = Inr (reply, []) \<and> receive_message reply c' = (Inr (), c'')
          \<and> map_of (ep_subscriptions c'') (into_inner i) = Some SubActive
          \<and> map_option in_state (map_of (ep_inbound_subscribes s'') (into_inner i))
              = Some SubActive))"
proof -
  obtain m s' where request: "cm_decode b = Inr (msg, [])" "msg = CmSubscribe m"
      "receive_message msg s = (Inr (), s')" "pending_subscribe s' i = Some m"
      "map_of (ep_subscriptions c') (into_inner i) = Some Subscribing"
    using subscribe_leg [OF opened room wire, of "[]"] by auto
  then show ?thesis
    using answer_leg [OF request(5), where rest = "[]"] by auto
qed

theorem subscription_over_the_wire_witness:
  "\<exists>m s'. cm_decode [3, 14, 0, 4, 2, 2, 1, 2, 1, 3, 1, 9, 1, 1, 1, 0] = Inr (CmSubscribe m, [])
     \<and> pending_subscribe s' (VarInt 0) = Some m"
proof -
  have "(case ep_subscribe (VarInt 4) demo_namespace [9] 1 GoAscending NextGroupStart active of
      (Inr (i, msg), e') \<Rightarrow> i = VarInt 0 \<and> msg = CmSubscribe demo_request | _ \<Rightarrow> False)
    \<and> fresh_id active 0 \<and> alias_holder active 4 demo_namespace [9] = None
    \<and> ns_fields demo_namespace \<notin> set (ep_announce_cancelled active)"
    by code_simp
  then obtain e' where run: "ep_subscribe (VarInt 4) demo_namespace [9] 1 GoAscending NextGroupStart
      active = (Inr (VarInt 0, CmSubscribe demo_request), e')"
    "fresh_id active 0" "alias_holder active 4 demo_namespace [9] = None"
    "ns_fields demo_namespace \<notin> set (ep_announce_cancelled active)"
    by (auto split: prod.splits sum.splits)
  have "wf_message (CmSubscribe demo_request)"
    by (simp add: wf_message_def demo_wf)
  then show ?thesis
    using subscription_over_the_wire [OF run(1), of active] run(2-) demo_setup(6) by auto
qed

end
